(* ===== verification/Go_Prelude.thy ===== *)
theory Go_Prelude
  imports Main "HOL-Library.Char_ord" "HOL-Library.List_Lexorder" "HOL-Library.Sublist"
    "HOL-Library.AList"
begin

text \<open>
  The part of the Go language and its standard library that the modelled packages use.

  A Go \<open>string\<close> or \<open>[]byte\<close> is a list of bytes, here a \<open>char list\<close> (an Isabelle \<open>char\<close> is
  exactly one byte). A \<open>time.Time\<close> is the number of nanoseconds since Go's zero time, so that
  \<open>IsZero\<close> is \<open>t = 0\<close>; a \<open>time.Duration\<close> is an \<open>int\<close> within the int64 range, and \<open>Time.Sub\<close>
  saturates at its ends as the library does. A Go map is an association list with distinct
  keys; the order of the list stands for the iteration order, which Go leaves open, so that
  what holds for every list holds for every iteration order. A method that can fail returns
  a sum with the error on the left.
\<close>

type_synonym go_time = int
type_synonym duration = int
type_synonym bytes = "char list"
type_synonym 'v go_map = "(string \<times> 'v) list"

section \<open>Time\<close>

definition max_duration :: int where
  "max_duration = 9223372036854775807"

definition min_duration :: int where
  "min_duration = - 9223372036854775808"

definition time_sub :: "go_time \<Rightarrow> go_time \<Rightarrow> duration" where
  "time_sub t u = (if t - u > max_duration then max_duration
     else if t - u < min_duration then min_duration else t - u)"

definition time_add :: "go_time \<Rightarrow> duration \<Rightarrow> go_time" where
  "time_add t d = t + d"

definition time_after :: "go_time \<Rightarrow> go_time \<Rightarrow> bool" where
  [simp]: "time_after t u = (u < t)"

definition time_before :: "go_time \<Rightarrow> go_time \<Rightarrow> bool" where
  [simp]: "time_before t u = (t < u)"

definition time_is_zero :: "go_time \<Rightarrow> bool" where
  [simp]: "time_is_zero t = (t = 0)"

definition millisecond :: duration where "millisecond = 1000000"
definition second :: duration where "second = 1000000000"
definition minute :: duration where "minute = 60000000000"
definition hour :: duration where "hour = 3600000000000"

lemmas time_defs = max_duration_def min_duration_def time_sub_def time_add_def
  millisecond_def second_def minute_def hour_def

lemma time_sub_ge_iff:
  assumes "d \<le> max_duration" and "min_duration < d"
  shows "d \<le> time_sub t u \<longleftrightarrow> u + d \<le> t"
  using assms by (auto simp: time_sub_def max_duration_def min_duration_def)

section \<open>Maps\<close>

definition map_get :: "'v go_map \<Rightarrow> string \<Rightarrow> 'v option" where
  "map_get m k = map_of m k"

definition map_put :: "'v go_map \<Rightarrow> string \<Rightarrow> 'v \<Rightarrow> 'v go_map" where
  "map_put m k v = AList.update k v m"

definition map_del :: "'v go_map \<Rightarrow> string \<Rightarrow> 'v go_map" where
  "map_del m k = AList.delete k m"

definition go_map_ok :: "'v go_map \<Rightarrow> bool" where
  "go_map_ok m \<longleftrightarrow> distinct (map fst m)"

lemma map_get_put [simp]: "map_get (map_put m k v) k' = (if k' = k then Some v else map_get m k')"
  by (simp add: map_get_def map_put_def update_conv')

lemma map_get_del [simp]: "map_get (map_del m k) k' = (if k' = k then None else map_get m k')"
  by (simp add: map_get_def map_del_def delete_conv')

lemma map_get_Nil [simp]: "map_get [] k = None"
  by (simp add: map_get_def)

lemma go_map_ok_Nil [simp]: "go_map_ok []"
  by (simp add: go_map_ok_def)

lemma go_map_ok_put [simp]: "go_map_ok m \<Longrightarrow> go_map_ok (map_put m k v)"
  by (simp add: go_map_ok_def map_put_def distinct_update)

lemma go_map_ok_del [simp]: "go_map_ok m \<Longrightarrow> go_map_ok (map_del m k)"
  by (simp add: go_map_ok_def map_del_def distinct_delete)

lemma go_map_ok_filter [simp]: "go_map_ok m \<Longrightarrow> go_map_ok (filter P m)"
  by (induction m) (auto simp: go_map_ok_def)

lemma map_get_filter:
  "go_map_ok m \<Longrightarrow>
   map_get (filter P m) k = (case map_get m k of None \<Rightarrow> None | Some v \<Rightarrow> if P (k, v) then Some v else None)"
proof (induction m)
  case Nil
  then show ?case by simp
next
  case (Cons p m)
  obtain k0 v0 where p: "p = (k0, v0)" by fastforce
  have ok: "go_map_ok m" and notin: "k0 \<notin> fst ` set m"
    using Cons.prems by (auto simp: go_map_ok_def p)
  have "map_get (filter P m) k0 = None"
    using notin by (auto simp: map_get_def map_of_eq_None_iff)
  then show ?case
    using Cons.IH [OF ok] by (auto simp: map_get_def p)
qed

lemma map_get_Some_set: "go_map_ok m \<Longrightarrow> map_get m k = Some v \<longleftrightarrow> (k, v) \<in> set m"
  by (simp add: go_map_ok_def map_get_def)

lemma map_get_None_iff: "map_get m k = None \<longleftrightarrow> k \<notin> fst ` set m"
  by (simp add: map_get_def map_of_eq_None_iff)

lemma key_iff: "k \<in> fst ` set m \<longleftrightarrow> (\<exists>v. map_get m k = Some v)"
  using map_get_None_iff [of m k] by (cases "map_get m k") simp_all

definition map_at :: "string go_map \<Rightarrow> string \<Rightarrow> string" where
  "map_at m k = (case map_get m k of None \<Rightarrow> [] | Some v \<Rightarrow> v)"

definition sorted_keys :: "'v go_map \<Rightarrow> string list" where
  "sorted_keys m = sort (map fst m)"

lemma set_sorted_keys [simp]: "set (sorted_keys m) = fst ` set m"
  by (simp add: sorted_keys_def)

lemma sorted_sorted_keys [simp]: "sorted (sorted_keys m)"
  by (simp add: sorted_keys_def)

lemma distinct_sorted_keys [simp]: "go_map_ok m \<Longrightarrow> distinct (sorted_keys m)"
  by (simp add: sorted_keys_def go_map_ok_def)

lemma sorted_keys_cong:
  assumes "go_map_ok m" "go_map_ok m'" "\<And>k. map_get m k = map_get m' k"
  shows "sorted_keys m = sorted_keys m'"
proof -
  have "k \<in> fst ` set m \<longleftrightarrow> k \<in> fst ` set m'" for k
    using assms(3) [of k] map_get_None_iff [of m k] map_get_None_iff [of m' k] by metis
  then have "set (sorted_keys m) = set (sorted_keys m')" by auto
  then show ?thesis
    using assms by (intro sorted_distinct_set_unique) auto
qed

lemma length_sorted_keys [simp]: "length (sorted_keys m) = length m"
  by (simp add: sorted_keys_def)

lemma map_get_eqI:
  assumes "sorted_keys m = sorted_keys m'" and vals: "\<forall>k \<in> set (sorted_keys m). map_at m k = map_at m' k"
  shows "map_get m k = map_get m' k"
proof -
  have keys: "fst ` set m = fst ` set m'"
    using assms(1) by (metis set_sorted_keys)
  show ?thesis
  proof (cases "k \<in> fst ` set m")
    case True
    then obtain v w where "map_get m k = Some v" "map_get m' k = Some w"
      using keys key_iff by metis
    moreover have "map_at m k = map_at m' k"
      using bspec [OF vals, of k] True by (simp only: set_sorted_keys)
    ultimately show ?thesis by (simp add: map_at_def)
  next
    case False
    then show ?thesis using keys map_get_None_iff by metis
  qed
qed

section \<open>Strings\<close>

definition has_prefix :: "string \<Rightarrow> string \<Rightarrow> bool" where
  "has_prefix s p = prefix p s"

definition has_suffix :: "string \<Rightarrow> string \<Rightarrow> bool" where
  "has_suffix s p = prefix (rev p) (rev s)"

fun contains :: "string \<Rightarrow> string \<Rightarrow> bool" where
  "contains [] p = (p = [])"
| "contains (c # s) p = (prefix p (c # s) \<or> contains s p)"

lemma contains_iff: "contains s p \<longleftrightarrow> (\<exists>u v. s = u @ p @ v)"
proof (induction s)
  case Nil
  then show ?case by auto
next
  case (Cons c s)
  show ?case
  proof
    assume "contains (c # s) p"
    then consider "prefix p (c # s)" | "contains s p" by auto
    then show "\<exists>u v. c # s = u @ p @ v"
    proof cases
      case 1
      then show ?thesis by (metis append_Nil prefixE)
    next
      case 2
      then show ?thesis using Cons.IH by (metis append_Cons)
    qed
  next
    assume "\<exists>u v. c # s = u @ p @ v"
    then obtain u v where "c # s = u @ p @ v" by blast
    then show "contains (c # s) p"
    proof (cases u)
      case Nil
      with \<open>c # s = u @ p @ v\<close> have "prefix p (c # s)" by simp
      then show ?thesis by simp
    next
      case (Cons d u')
      with \<open>c # s = u @ p @ v\<close> have "s = u' @ p @ v" by simp
      then show ?thesis using Cons.IH by auto
    qed
  qed
qed

lemma has_suffix_iff: "has_suffix s p \<longleftrightarrow> (\<exists>u. s = u @ p)"
  unfolding has_suffix_def by (metis prefix_def rev_append rev_rev_ident)

text \<open>
  The UTF-8 encodings of the runes for which \<open>unicode.IsSpace\<close> holds. No one of their lead
  bytes can occur inside the encoding of another rune, so matching the bytes at a position
  agrees with decoding a rune there.
\<close>

definition space_runes :: "string list" where
  "space_runes = map (map char_of)
     ([[9], [10], [11], [12], [13], [32], [0xC2, 0x85], [0xC2, 0xA0], [0xE1, 0x9A, 0x80],
       [0xE2, 0x80, 0x80], [0xE2, 0x80, 0x81], [0xE2, 0x80, 0x82], [0xE2, 0x80, 0x83],
       [0xE2, 0x80, 0x84], [0xE2, 0x80, 0x85], [0xE2, 0x80, 0x86], [0xE2, 0x80, 0x87],
       [0xE2, 0x80, 0x88], [0xE2, 0x80, 0x89], [0xE2, 0x80, 0x8A], [0xE2, 0x80, 0xA8],
       [0xE2, 0x80, 0xA9], [0xE2, 0x80, 0xAF], [0xE2, 0x81, 0x9F], [0xE3, 0x80, 0x80]] :: nat list list)"

definition lead_match :: "string list \<Rightarrow> string \<Rightarrow> string option" where
  "lead_match ps s = List.find (\<lambda>p. p \<noteq> [] \<and> prefix p s) ps"

lemma lead_match_Some:
  "lead_match ps s = Some p \<Longrightarrow> p \<in> set ps \<and> p \<noteq> [] \<and> prefix p s"
  by (auto simp: lead_match_def find_Some_iff)

lemma lead_match_None:
  "lead_match ps s = None \<longleftrightarrow> (\<forall>p \<in> set ps. p \<noteq> [] \<longrightarrow> \<not> prefix p s)"
  by (auto simp: lead_match_def find_None_iff)

lemma lead_match_shorter: "lead_match ps s = Some p \<Longrightarrow> length (drop (length p) s) < length s"
  by (auto dest!: lead_match_Some simp: prefix_def)

function trim_front :: "string list \<Rightarrow> string \<Rightarrow> string" where
  "trim_front ps s = (case lead_match ps s of None \<Rightarrow> s | Some p \<Rightarrow> trim_front ps (drop (length p) s))"
  by pat_completeness auto
termination
  by (relation "measure (\<lambda>(ps, s). length s)") (auto dest: lead_match_shorter)

declare trim_front.simps [simp del]

lemma trim_front_stop: "lead_match ps s = None \<Longrightarrow> trim_front ps s = s"
  by (simp add: trim_front.simps)

lemma trim_front_match_None: "lead_match ps (trim_front ps s) = None"
proof (induction ps s rule: trim_front.induct)
  case (1 ps s)
  then show ?case
    by (cases "lead_match ps s") (simp_all add: trim_front.simps [of ps s])
qed

lemma trim_front_suffix: "\<exists>u. s = u @ trim_front ps s"
proof (induction ps s rule: trim_front.induct)
  case (1 ps s)
  show ?case
  proof (cases "lead_match ps s")
    case None
    then show ?thesis by (simp add: trim_front_stop)
  next
    case (Some p)
    then obtain u where "drop (length p) s = u @ trim_front ps (drop (length p) s)"
      using "1.IH" by blast
    then have "s = (take (length p) s @ u) @ trim_front ps s"
      using Some by (metis append.assoc append_take_drop_id option.simps(5) trim_front.simps)
    then show ?thesis by blast
  qed
qed

definition trim_left :: "string \<Rightarrow> string" where
  "trim_left s = trim_front space_runes s"

definition trim_right :: "string \<Rightarrow> string" where
  "trim_right s = rev (trim_front (map rev space_runes) (rev s))"

definition trim_space :: "string \<Rightarrow> string" where
  "trim_space s = trim_right (trim_left s)"

lemma trim_right_prefix: "\<exists>v. s = trim_right s @ v"
proof -
  obtain u where "rev s = u @ trim_front (map rev space_runes) (rev s)"
    using trim_front_suffix by blast
  then have "s = trim_right s @ rev u"
    by (metis rev_append rev_rev_ident trim_right_def)
  then show ?thesis by blast
qed

lemma lead_match_None_prefix:
  "lead_match ps (s @ v) = None \<Longrightarrow> lead_match ps s = None"
  by (auto simp: lead_match_None intro: prefix_prefix)

lemma trim_right_idem [simp]: "trim_right (trim_right s) = trim_right s"
  by (simp add: trim_right_def trim_front_stop trim_front_match_None)

lemma trim_space_idem [simp]: "trim_space (trim_space s) = trim_space s"
proof -
  obtain v where "trim_left s = trim_space s @ v"
    using trim_right_prefix [of "trim_left s"] by (auto simp: trim_space_def)
  then have "lead_match space_runes (trim_space s) = None"
    using trim_front_match_None [of space_runes s] lead_match_None_prefix
    by (metis trim_left_def)
  then have "trim_left (trim_space s) = trim_space s"
    by (simp add: trim_left_def trim_front_stop)
  then show ?thesis by (simp add: trim_space_def)
qed

lemma trim_space_Nil [simp]: "trim_space [] = []"
proof -
  have "lead_match ps [] = None" for ps
    by (auto simp: lead_match_None)
  then show ?thesis
    by (simp add: trim_space_def trim_left_def trim_right_def trim_front_stop)
qed

definition plain :: "string \<Rightarrow> bool" where
  "plain s \<longleftrightarrow> (\<forall>c \<in> set s. 33 \<le> (of_char c :: nat) \<and> (of_char c :: nat) \<le> 126)"

lemma plain_simps [simp]: "plain []" "plain (c # s) \<longleftrightarrow> 33 \<le> (of_char c :: nat) \<and> (of_char c :: nat) \<le> 126 \<and> plain s"
  by (auto simp: plain_def)

lemma space_runes_not_plain:
  "p \<in> set space_runes \<Longrightarrow> p \<noteq> [] \<and> \<not> plain [hd p] \<and> \<not> plain [last p]"
  unfolding space_runes_def by (simp del: plain_simps add: plain_def) (elim disjE; simp)

lemma trim_front_plain:
  assumes "s = [] \<or> plain [hd s]" and "\<forall>p \<in> set ps. p \<noteq> [] \<and> \<not> plain [hd p]"
  shows "trim_front ps s = s"
proof -
  have "\<not> prefix p s" if "p \<in> set ps" for p
  proof
    assume "prefix p s"
    moreover have "p \<noteq> []" using assms(2) that by blast
    ultimately have "s \<noteq> []" "hd s = hd p" by (auto simp: prefix_def)
    with assms that show False by metis
  qed
  then show ?thesis by (intro trim_front_stop) (simp add: lead_match_None)
qed

lemma trim_space_ends:
  assumes "s = [] \<or> plain [hd s] \<and> plain [last s]"
  shows "trim_space s = s"
proof -
  have "trim_front (map rev space_runes) (rev s) = rev s"
    using assms space_runes_not_plain by (intro trim_front_plain) (auto simp: hd_rev)
  moreover have "trim_front space_runes s = s"
    using assms space_runes_not_plain by (intro trim_front_plain) auto
  ultimately show ?thesis by (simp add: trim_space_def trim_left_def trim_right_def)
qed

lemma trim_space_plain: "plain s \<Longrightarrow> trim_space s = s"
  by (rule trim_space_ends) (auto simp: plain_def)

text \<open>\<open>strings.Fields\<close>: the maximal runs of non-space runes, in order.\<close>

function fields_from :: "string \<Rightarrow> string \<Rightarrow> string list" where
  "fields_from cur s = (case lead_match space_runes s of
      Some p \<Rightarrow> (if cur = [] then [] else [cur]) @ fields_from [] (drop (length p) s)
    | None \<Rightarrow> (case s of [] \<Rightarrow> (if cur = [] then [] else [cur])
        | c # s' \<Rightarrow> fields_from (cur @ [c]) s'))"
  by pat_completeness auto
termination
  by (relation "measure (\<lambda>(cur, s). length s)") (auto dest: lead_match_shorter)

declare fields_from.simps [simp del]

definition str_fields :: "string \<Rightarrow> string list" where
  "str_fields s = fields_from [] s"

lemma fields_from_nonempty: "[] \<notin> set (fields_from cur s)"
proof (induction cur s rule: fields_from.induct)
  case (1 cur s)
  then show ?case
    by (auto simp: fields_from.simps [of cur s] split: option.splits list.splits)
qed

lemma fields_nonempty [simp]: "[] \<notin> set (str_fields s)"
  by (simp add: str_fields_def fields_from_nonempty)

text \<open>\<open>strings.Split\<close> and \<open>strings.SplitN(s, sep, 2)\<close> for a one-byte separator, and \<open>strings.Join\<close>.\<close>

fun split_char :: "char \<Rightarrow> string \<Rightarrow> string list" where
  "split_char d [] = [[]]"
| "split_char d (c # s) = (if c = d then [] # split_char d s
     else (case split_char d s of [] \<Rightarrow> [[c]] | w # ws \<Rightarrow> (c # w) # ws))"

fun split_first :: "char \<Rightarrow> string \<Rightarrow> (string \<times> string) option" where
  "split_first d [] = None"
| "split_first d (c # s) = (if c = d then Some ([], s)
     else map_option (\<lambda>(a, b). (c # a, b)) (split_first d s))"

lemma split_first_Some: "split_first d s = Some (a, b) \<Longrightarrow> s = a @ d # b \<and> d \<notin> set a"
  by (induction s arbitrary: a) (auto split: if_splits)

lemma split_first_None: "split_first d s = None \<longleftrightarrow> d \<notin> set s"
  by (induction s) auto

lemma split_first_append: "d \<notin> set a \<Longrightarrow> split_first d (a @ d # b) = Some (a, b)"
  by (induction a) auto

fun join :: "string \<Rightarrow> string list \<Rightarrow> string" where
  "join sep [] = []"
| "join sep [x] = x"
| "join sep (x # y # xs) = x @ sep @ join sep (y # xs)"

lemma lead_match_plain: "plain [c] \<Longrightarrow> lead_match space_runes (c # s) = None"
proof -
  assume c: "plain [c]"
  have "\<not> prefix p (c # s)" if "p \<in> set space_runes" for p
  proof
    assume "prefix p (c # s)"
    moreover have "p \<noteq> []" "\<not> plain [hd p]" using space_runes_not_plain [OF that] by blast+
    ultimately show False using c by (cases p) auto
  qed
  then show ?thesis by (simp add: lead_match_None)
qed

lemma space_runes_literal:
  "space_runes =
    [[CHR 0x09], [CHR 0x0A], [CHR 0x0B], [CHR 0x0C], [CHR 0x0D],
     [CHR 0x20], [CHR 0xC2, CHR 0x85], [CHR 0xC2, CHR 0xA0], [CHR 0xE1, CHR 0x9A, CHR 0x80], [CHR 0xE2, CHR 0x80, CHR 0x80],
     [CHR 0xE2, CHR 0x80, CHR 0x81], [CHR 0xE2, CHR 0x80, CHR 0x82], [CHR 0xE2, CHR 0x80, CHR 0x83], [CHR 0xE2, CHR 0x80, CHR 0x84], [CHR 0xE2, CHR 0x80, CHR 0x85],
     [CHR 0xE2, CHR 0x80, CHR 0x86], [CHR 0xE2, CHR 0x80, CHR 0x87], [CHR 0xE2, CHR 0x80, CHR 0x88], [CHR 0xE2, CHR 0x80, CHR 0x89], [CHR 0xE2, CHR 0x80, CHR 0x8A],
     [CHR 0xE2, CHR 0x80, CHR 0xA8], [CHR 0xE2, CHR 0x80, CHR 0xA9], [CHR 0xE2, CHR 0x80, CHR 0xAF], [CHR 0xE2, CHR 0x81, CHR 0x9F], [CHR 0xE3, CHR 0x80, CHR 0x80]]"
  by code_simp

lemma lead_match_space: "lead_match space_runes (CHR '' '' # s) = Some '' ''"
  by (simp add: lead_match_def space_runes_literal)

lemma fields_from_word: "plain w \<Longrightarrow> fields_from cur (w @ rest) = fields_from (cur @ w) rest"
proof (induction w arbitrary: cur)
  case Nil
  then show ?case by simp
next
  case (Cons c w)
  then have "plain [c]" "plain w" by auto
  then show ?case
    using Cons.IH [of "cur @ [c]"] by (simp add: fields_from.simps [of cur "c # _"] lead_match_plain)
qed

lemma fields_from_space: "fields_from cur (CHR '' '' # s) = (if cur = [] then [] else [cur]) @ fields_from [] s"
  by (simp add: fields_from.simps [of cur "CHR '' '' # s"] lead_match_space)

lemma fields_from_Nil: "fields_from cur [] = (if cur = [] then [] else [cur])"
proof -
  have "lead_match space_runes [] = None" by (auto simp: lead_match_None)
  then show ?thesis by (simp add: fields_from.simps [of cur "[]"])
qed

lemma fields_join:
  "\<forall>w \<in> set ws. plain w \<and> w \<noteq> [] \<Longrightarrow> str_fields (join '' '' ws) = ws"
proof (induction "'' ''" ws rule: join.induct)
  case 1
  then show ?case by (simp add: str_fields_def fields_from_Nil)
next
  case (2 x)
  then show ?case using fields_from_word [of x "[]" "[]"] by (simp add: str_fields_def fields_from_Nil)
next
  case (3 x y xs)
  then show ?case by (simp add: str_fields_def fields_from_word fields_from_space)
qed

section \<open>First element satisfying a predicate\<close>

text \<open>The loops \<open>for i := range xs { if P(xs[i]) { ... return } }\<close>: the index they stop at.\<close>

fun find_index :: "('a \<Rightarrow> bool) \<Rightarrow> 'a list \<Rightarrow> nat option" where
  "find_index P [] = None"
| "find_index P (x # xs) = (if P x then Some 0 else map_option Suc (find_index P xs))"

lemma find_index_Some:
  "find_index P xs = Some i \<Longrightarrow> i < length xs \<and> P (xs ! i) \<and> (\<forall>j < i. \<not> P (xs ! j))"
proof (induction xs arbitrary: i)
  case Nil
  then show ?case by simp
next
  case (Cons x xs)
  show ?case
  proof (cases "P x")
    case True
    then show ?thesis using Cons.prems by auto
  next
    case False
    then obtain k where "find_index P xs = Some k" "i = Suc k"
      using Cons.prems by auto
    then show ?thesis using Cons.IH [of k] False by (auto simp: less_Suc_eq_0_disj)
  qed
qed

lemma find_index_None: "find_index P xs = None \<longleftrightarrow> (\<forall>x \<in> set xs. \<not> P x)"
  by (induction xs) auto

lemma find_index_map:
  "(\<And>x. P (f x) = Q x) \<Longrightarrow> find_index P (map f xs) = find_index Q xs"
  by (induction xs) auto

lemma find_index_update_same:
  "find_index P xs = Some i \<Longrightarrow> P y \<Longrightarrow> find_index P (xs[i := y]) = Some i"
  by (induction xs arbitrary: i) (auto split: if_splits nat.splits)

section \<open>Encodings\<close>

definition digit_char :: "nat \<Rightarrow> char" where
  "digit_char d = char_of (48 + d)"

fun nat_dec :: "nat \<Rightarrow> string" where
  "nat_dec n = (if n < 10 then [digit_char n] else nat_dec (n div 10) @ [digit_char (n mod 10)])"

declare nat_dec.simps [simp del]

definition int_dec :: "int \<Rightarrow> string" where
  "int_dec i = (if i < 0 then CHR ''-'' # nat_dec (nat (- i)) else nat_dec (nat i))"

lemma digit_char_inj: "a < 10 \<Longrightarrow> b < 10 \<Longrightarrow> digit_char a = digit_char b \<Longrightarrow> a = b"
  by (simp add: digit_char_def)

lemma digit_char_not_minus: "d < 10 \<Longrightarrow> digit_char d \<noteq> CHR ''-''"
  by (auto simp: digit_char_def char_of_eq_iff take_bit_nat_eq_self)

lemma set_nat_dec: "c \<in> set (nat_dec n) \<Longrightarrow> \<exists>d < 10. c = digit_char d"
proof (induction n rule: nat_dec.induct)
  case (1 n)
  then show ?case
    using mod_less_divisor [of 10 n] by (force simp: nat_dec.simps [of n] split: if_splits)
qed

lemma of_char_digit: "d < 10 \<Longrightarrow> of_char (digit_char d) = (48 + d :: nat)"
  by (simp add: digit_char_def)

lemma nat_dec_range: "c \<in> set (nat_dec n) \<Longrightarrow> 48 \<le> (of_char c :: nat) \<and> (of_char c :: nat) \<le> 57"
  by (drule set_nat_dec) (auto simp: of_char_digit)

lemma int_dec_range: "c \<in> set (int_dec i) \<Longrightarrow> 45 \<le> (of_char c :: nat) \<and> (of_char c :: nat) \<le> 57"
  by (auto simp: int_dec_def dest!: nat_dec_range split: if_splits)

lemma nat_dec_nonempty [simp]: "nat_dec n \<noteq> []"
  by (subst nat_dec.simps) simp

lemma nat_dec_nonempty' [simp]: "[] \<noteq> nat_dec n"
  using nat_dec_nonempty [of n] by metis

lemma nat_dec_inj: "nat_dec m = nat_dec n \<Longrightarrow> m = n"
proof (induction m arbitrary: n rule: nat_dec.induct)
  case (1 m)
  show ?case
  proof (cases "m < 10"; cases "n < 10")
    assume "m < 10" "n < 10"
    then show ?thesis using "1.prems" digit_char_inj by (simp add: nat_dec.simps)
  next
    assume "\<not> m < 10" "\<not> n < 10"
    then have "nat_dec (m div 10) = nat_dec (n div 10)"
      and "digit_char (m mod 10) = digit_char (n mod 10)"
      using "1.prems" by (simp_all add: nat_dec.simps [of m] nat_dec.simps [of n])
    then have "m div 10 = n div 10" "m mod 10 = n mod 10"
      using "1.IH" \<open>\<not> m < 10\<close> digit_char_inj by simp_all
    then show ?thesis by (metis div_mult_mod_eq)
  qed (use "1.prems" in \<open>simp_all add: nat_dec.simps [of m] nat_dec.simps [of n]\<close>)
qed

lemma int_dec_inj: "int_dec i = int_dec j \<Longrightarrow> i = j"
proof -
  have neg: "CHR ''-'' # w \<noteq> nat_dec n" for w n
    using set_nat_dec [of "CHR ''-''" n] digit_char_not_minus by (metis list.set_intros(1))
  assume "int_dec i = int_dec j"
  then show ?thesis
    using neg neg [symmetric] by (auto simp: int_dec_def split: if_splits dest!: nat_dec_inj)
qed

text \<open>
  \<open>binary.BigEndian.PutUint32(buf, uint32(n))\<close>: four bytes, most significant first, of the
  number modulo two to the 32, and its inverse \<open>binary.BigEndian.Uint32\<close>.
\<close>

definition be32 :: "nat \<Rightarrow> bytes" where
  "be32 n = [char_of (n div 16777216), char_of (n div 65536), char_of (n div 256), char_of n]"

fun un_be32 :: "bytes \<Rightarrow> nat" where
  "un_be32 [a, b, c, d] = ((of_char a * 256 + of_char b) * 256 + of_char c) * 256 + of_char d"
| "un_be32 _ = 0"

lemma length_be32 [simp]: "length (be32 n) = 4"
  by (simp add: be32_def)

lemma horner_256:
  "q3 * 256 + r2 = q2 \<Longrightarrow> q2 * 256 + r1 = q1 \<Longrightarrow> q1 * 256 + r0 = n \<Longrightarrow>
   ((q3 * 256 + r2) * 256 + r1) * 256 + r0 = (n::nat)"
  by simp

lemma un_be32_be32: "n < 4294967296 \<Longrightarrow> un_be32 (be32 n) = n"
proof -
  assume n: "n < 4294967296"
  have d: "n div 16777216 = n div 256 div 256 div 256" "n div 65536 = n div 256 div 256"
    by (simp_all flip: div_mult2_eq)
  have m: "n div 256 div 256 div 256 mod 256 = n div 256 div 256 div 256"
    using n by (simp flip: div_mult2_eq)
  show ?thesis
    unfolding be32_def un_be32.simps of_char_of d m
    by (rule horner_256) (rule div_mult_mod_eq)+
qed

lemma be32_inj: "m < 4294967296 \<Longrightarrow> n < 4294967296 \<Longrightarrow> be32 m = be32 n \<Longrightarrow> m = n"
  by (metis un_be32_be32)

text \<open>\<open>hex.EncodeToString\<close> and \<open>hex.DecodeString\<close> (which accepts both cases of a digit).\<close>

definition hex_char :: "nat \<Rightarrow> char" where
  "hex_char d = (if d < 10 then char_of (48 + d) else char_of (87 + d))"

definition hex_val :: "char \<Rightarrow> nat option" where
  "hex_val c = (let n = of_char c in
     if 48 \<le> n \<and> n \<le> 57 then Some (n - 48)
     else if 97 \<le> n \<and> n \<le> 102 then Some (n - 87)
     else if 65 \<le> n \<and> n \<le> 70 then Some (n - 55) else None)"

fun hex_encode :: "bytes \<Rightarrow> string" where
  "hex_encode [] = []"
| "hex_encode (c # s) = hex_char (of_char c div 16) # hex_char (of_char c mod 16) # hex_encode s"

fun hex_decode :: "string \<Rightarrow> bytes option" where
  "hex_decode [] = Some []"
| "hex_decode [c] = None"
| "hex_decode (a # b # s) = (case (hex_val a, hex_val b, hex_decode s) of
     (Some x, Some y, Some w) \<Rightarrow> Some (char_of (16 * x + y) # w) | _ \<Rightarrow> None)"

lemma hex_val_char: "d < 16 \<Longrightarrow> hex_val (hex_char d) = Some d"
  by (simp add: hex_val_def hex_char_def)

lemma hex_decode_encode [simp]: "hex_decode (hex_encode s) = Some s"
proof (induction s)
  case Nil
  then show ?case by simp
next
  case (Cons c s)
  have "of_char c div 16 < (16::nat)"
    by (rule less_mult_imp_div_less) simp
  moreover have "of_char c mod 16 < (16::nat)" by simp
  ultimately have "hex_val (hex_char (of_char c div 16)) = Some (of_char c div 16)"
    "hex_val (hex_char (of_char c mod 16)) = Some (of_char c mod 16)"
    by (simp_all only: hex_val_char)
  then show ?case using Cons.IH by simp
qed

lemma hex_encode_inj: "hex_encode a = hex_encode b \<Longrightarrow> a = b"
  by (metis hex_decode_encode option.inject)

lemma length_hex_encode [simp]: "length (hex_encode s) = 2 * length s"
  by (induction s) auto

lemma hex_encode_eq_Nil [simp]: "hex_encode s = [] \<longleftrightarrow> s = []"
  by (cases s) auto

section \<open>Files that are read whole and replaced whole\<close>

text \<open>
  The JSON stores of the program are read before every operation and replaced by a rename
  after it. Their model is the decoded content; \<open>store_io\<close> says whether the read and the
  replacement of one operation succeed. A failed replacement leaves the old content, since
  the new one is written to a temporary file first.
\<close>

record store_io =
  load_error :: "string option"
  save_error :: "string option"

definition io_ok :: store_io where
  "io_ok = \<lparr>load_error = None, save_error = None\<rparr>"

lemma io_ok_simps [simp]: "load_error io_ok = None" "save_error io_ok = None"
  by (simp_all add: io_ok_def)

definition committing :: "(string \<Rightarrow> 'e) \<Rightarrow> store_io \<Rightarrow> 'f \<Rightarrow> 'f \<Rightarrow> 'a \<Rightarrow> ('e + 'a) \<times> 'f" where
  "committing err io f f' res =
     (case save_error io of Some e \<Rightarrow> (Inl (err e), f) | None \<Rightarrow> (Inr res, f'))"

lemma committing_ok [simp]: "committing err io_ok f f' res = (Inr res, f')"
  by (simp add: committing_def)

lemma committing_cases:
  "committing err io f f' res = (v, g) \<longleftrightarrow>
     (case save_error io of Some e \<Rightarrow> v = Inl (err e) \<and> g = f | None \<Rightarrow> v = Inr res \<and> g = f')"
  by (auto simp: committing_def split: option.splits)

end
