(* ===== verification/Approval_Queue.thy ===== *)
theory Approval_Queue
  imports Go_Prelude
begin

text \<open>
  The approval queue, \<open>internal/approval/approval.go\<close>: requests that wait for a human
  decision, the decisions, and the grants that approved requests are.

  The state is the decoded content of \<open>approvals.json\<close> (record \<open>queue\<close>, the Go type \<open>file\<close>);
  every method of \<open>Store\<close> is a function from it, the clock reading \<open>now\<close> and the outcome of
  the file operations to its result and the new content. A missing file is \<open>empty_queue\<close>.
  Encoding the content as JSON and back is taken to keep it. The mutex makes every method
  one step. Random identifiers and the SHA-256 function are arguments.
\<close>

section \<open>Data\<close>

datatype status =
    StatusPending | StatusApproved | StatusDenied | StatusExpired
  | StatusRevoked | StatusCancelled | StatusUsed

datatype kind = KindTrustWidening | KindActionUnpinned | KindAdhoc

datatype approval_error =
    ErrNotFound
  | ErrRateLimited
  | ErrOnHold go_time
  | ErrNotApproved string status
  | ErrAlreadyDecided string
  | ErrStore string

record requestor =
  ro_pid :: int
  ro_exe :: string
  ro_cwd :: string
  ro_tty :: string
  ro_user :: string
  ro_agent :: string
  ro_agent_pid :: int
  ro_agent_key :: string
  ro_proc_key :: string
  ro_attended :: bool

record request =
  rq_id :: string
  rq_kind :: kind
  rq_vault :: string
  rq_project :: string
  rq_env :: string
  rq_gets :: "string list"
  rq_gets_all :: bool
  rq_beside :: string
  rq_capability :: bytes
  rq_subject :: string
  rq_fingerprint :: string
  rq_summary :: "string list"
  rq_high_risk :: bool
  rq_requestor :: requestor
  rq_reason :: string
  rq_needed_by :: go_time
  rq_once :: bool
  rq_ask_once :: bool
  rq_anyone :: bool
  rq_watch_hash :: string
  rq_late :: bool
  rq_status :: status
  rq_created_at :: go_time
  rq_expires_at :: go_time
  rq_decided_at :: go_time
  rq_decided_via :: string
  rq_repeats :: int
  rq_denials :: int
  rq_granted_until :: go_time
  rq_decided_reason :: string

record queue =
  requests :: "request list"
  holds :: "go_time go_map"
  denials :: "int go_map"

definition empty_queue :: queue where
  "empty_queue = \<lparr>requests = [], holds = [], denials = []\<rparr>"

definition DefaultTTL :: duration where "DefaultTTL = 6 * hour"
definition ActionGrantWindow :: duration where "ActionGrantWindow = 6 * hour"
definition AdhocGrantWindow :: duration where "AdhocGrantWindow = hour"
definition MaxPendingPerProject :: nat where "MaxPendingPerProject = 10"
definition MaxDenialsBeforeHold :: int where "MaxDenialsBeforeHold = 3"
definition DenialHoldFor :: duration where "DenialHoldFor = 30 * minute"

section \<open>Small methods\<close>

definition requestor_string :: "requestor \<Rightarrow> string" where
  "requestor_string r =
     (if ro_agent r \<noteq> [] \<and> ro_agent_pid r \<noteq> 0 then
        (let who = ro_agent r @ '' (pid '' @ int_dec (ro_agent_pid r) @ '')''
         in if ro_attended r then who @ '', at a terminal'' else who @ '', no terminal'')
      else if ro_pid r \<noteq> 0 then ''pid '' @ int_dec (ro_pid r)
      else [])"

definition answered :: "request \<Rightarrow> bool" where
  "answered r \<longleftrightarrow> rq_status r = StatusApproved \<or> rq_status r = StatusDenied \<or>
     rq_status r = StatusRevoked \<or> rq_status r = StatusUsed \<or> rq_status r = StatusCancelled"

definition kind_grants :: "kind \<Rightarrow> bool" where
  "kind_grants k \<longleftrightarrow> k = KindActionUnpinned \<or> k = KindAdhoc"

fun kind_window :: "kind \<Rightarrow> duration" where
  "kind_window KindActionUnpinned = ActionGrantWindow"
| "kind_window KindAdhoc = AdhocGrantWindow"
| "kind_window KindTrustWidening = 0"

definition expire_request :: "go_time \<Rightarrow> request \<Rightarrow> request" where
  "expire_request now r =
     (let r1 = (if rq_status r = StatusPending \<and> time_after now (rq_expires_at r)
                then r\<lparr>rq_status := StatusExpired\<rparr> else r)
      in if rq_status r1 = StatusApproved \<and> 0 < length (rq_capability r1) \<and>
            \<not> time_before now (rq_granted_until r1)
         then r1\<lparr>rq_capability := []\<rparr> else r1)"

definition expire :: "go_time \<Rightarrow> queue \<Rightarrow> queue" where
  "expire now f = f\<lparr>requests := map (expire_request now) (requests f)\<rparr>"

section \<open>Methods of the store\<close>

definition attach_capability ::
  "store_io \<Rightarrow> string \<Rightarrow> bytes \<Rightarrow> queue \<Rightarrow> (approval_error + unit) \<times> queue" where
  "attach_capability io rid blob q =
     (case load_error io of Some e \<Rightarrow> (Inl (ErrStore e), q) | None \<Rightarrow>
      (case find_index (\<lambda>r. rq_id r = rid) (requests q) of
         None \<Rightarrow> (Inl ErrNotFound, q)
       | Some i \<Rightarrow> committing ErrStore io q
           (q\<lparr>requests := (requests q)[i := (requests q ! i)\<lparr>rq_capability := blob\<rparr>]\<rparr>) ()))"

text \<open>
  The loop of \<open>Enqueue\<close> over the requests on file: the index of a pending request that asks
  the same question, or the number of requests pending for the same subject.
\<close>

fun enqueue_scan :: "request \<Rightarrow> nat \<Rightarrow> nat \<Rightarrow> request list \<Rightarrow> nat + nat" where
  "enqueue_scan req i pending [] = Inr pending"
| "enqueue_scan req i pending (r # rs) =
     (if rq_status r \<noteq> StatusPending then enqueue_scan req (Suc i) pending rs
      else if rq_fingerprint r = rq_fingerprint req \<and> rq_subject r = rq_subject req then Inl i
      else if rq_subject r = rq_subject req then enqueue_scan req (Suc i) (Suc pending) rs
      else enqueue_scan req (Suc i) pending rs)"

definition reattach :: "request \<Rightarrow> request \<Rightarrow> request" where
  "reattach req r =
     (let r1 = r\<lparr>rq_repeats := rq_repeats r + 1\<rparr>
      in if rq_reason r1 = [] \<and> rq_reason req \<noteq> [] then r1\<lparr>rq_reason := rq_reason req\<rparr> else r1)"

definition new_request :: "go_time \<Rightarrow> string \<Rightarrow> request \<Rightarrow> request" where
  "new_request now newid req =
     (let r = req\<lparr>rq_id := newid, rq_status := StatusPending, rq_created_at := now\<rparr>
      in if time_is_zero (rq_expires_at r) then r\<lparr>rq_expires_at := time_add now DefaultTTL\<rparr> else r)"

text \<open>
  The tail of \<open>Enqueue\<close>, once the hold on the question has been dealt with. \<open>q\<close> is the
  content on file, \<open>f\<close> the expired copy the method works on.
\<close>

definition enqueue_unheld ::
  "store_io \<Rightarrow> go_time \<Rightarrow> string \<Rightarrow> request \<Rightarrow> queue \<Rightarrow> queue \<Rightarrow>
   (approval_error + request \<times> bool) \<times> queue" where
  "enqueue_unheld io now newid req q f =
     (case enqueue_scan req 0 0 (requests f) of
        Inl i \<Rightarrow> (let out = reattach req (requests f ! i)
          in committing ErrStore io q (f\<lparr>requests := (requests f)[i := out]\<rparr>) (out, False))
      | Inr pending \<Rightarrow>
          if MaxPendingPerProject \<le> pending then (Inl ErrRateLimited, q)
          else (let r = new_request now newid req
            in committing ErrStore io q (f\<lparr>requests := requests f @ [r]\<rparr>) (r, True)))"

definition enqueue ::
  "store_io \<Rightarrow> go_time \<Rightarrow> string \<Rightarrow> request \<Rightarrow> queue \<Rightarrow>
   (approval_error + request \<times> bool) \<times> queue" where
  "enqueue io now newid req q =
     (case load_error io of Some e \<Rightarrow> (Inl (ErrStore e), q) | None \<Rightarrow>
      (let f = expire now q in
       (case map_get (holds f) (rq_fingerprint req) of
          Some until \<Rightarrow>
            if time_before now until then (Inl (ErrOnHold until), q)
            else enqueue_unheld io now newid req q
                   (f\<lparr>holds := map_del (holds f) (rq_fingerprint req),
                      denials := map_del (denials f) (rq_fingerprint req)\<rparr>)
        | None \<Rightarrow> enqueue_unheld io now newid req q f)))"

text \<open>The body of \<open>decide\<close> for a request that is still open: approval, then refusal.\<close>

definition approve_request ::
  "go_time \<Rightarrow> string \<Rightarrow> string \<Rightarrow> duration \<Rightarrow> bool \<Rightarrow> bool \<Rightarrow> request \<Rightarrow> request" where
  "approve_request now via reason grantFor anyone once r =
     (let r1 = r\<lparr>rq_status := StatusApproved\<rparr>;
          r2 = (if kind_grants (rq_kind r1) then
                  (let window = (if grantFor \<le> 0 then kind_window (rq_kind r1) else grantFor)
                   in r1\<lparr>rq_granted_until := time_add now window\<rparr>)
                else r1);
          r3 = (if \<not> time_is_zero (rq_needed_by r2) \<and> time_after now (rq_needed_by r2)
                then r2\<lparr>rq_late := True\<rparr> else r2);
          r4 = (if anyone then r3\<lparr>rq_anyone := True\<rparr> else r3);
          r5 = (if once then r4\<lparr>rq_once := True\<rparr> else r4)
      in r5\<lparr>rq_denials := 0, rq_decided_at := now, rq_decided_via := via,
            rq_decided_reason := reason\<rparr>)"

definition denial_count :: "queue \<Rightarrow> string \<Rightarrow> int" where
  "denial_count f fp = (case map_get (denials f) fp of None \<Rightarrow> 0 | Some n \<Rightarrow> n)"

definition deny_request :: "go_time \<Rightarrow> string \<Rightarrow> string \<Rightarrow> int \<Rightarrow> request \<Rightarrow> request" where
  "deny_request now via reason n r =
     r\<lparr>rq_status := StatusDenied, rq_denials := n, rq_decided_at := now,
       rq_decided_via := via, rq_decided_reason := reason\<rparr>"

definition decide ::
  "store_io \<Rightarrow> go_time \<Rightarrow> string \<Rightarrow> bool \<Rightarrow> string \<Rightarrow> string \<Rightarrow> duration \<Rightarrow> bool \<Rightarrow> bool \<Rightarrow> queue \<Rightarrow>
   (approval_error + request) \<times> queue" where
  "decide io now rid approve via reason grantFor anyone once q =
     (case load_error io of Some e \<Rightarrow> (Inl (ErrStore e), q) | None \<Rightarrow>
      (let f = expire now q in
       (case find_index (\<lambda>r. rq_id r = rid) (requests f) of
          None \<Rightarrow> (Inl ErrNotFound, q)
        | Some i \<Rightarrow>
            (let r = requests f ! i; fp = rq_fingerprint r in
             if answered r then
               (if \<not> approve \<and> rq_status r = StatusApproved then (Inl (ErrAlreadyDecided rid), q)
                else (Inr r, q))
             else if rq_status r = StatusExpired then (Inr r, q)
             else if approve then
               (let out = approve_request now via reason grantFor anyone once r
                in committing ErrStore io q
                     (f\<lparr>requests := (requests f)[i := out],
                        denials := map_del (denials f) fp, holds := map_del (holds f) fp\<rparr>) out)
             else
               (let n = denial_count f fp + 1; out = deny_request now via reason n r;
                    f1 = f\<lparr>requests := (requests f)[i := out], denials := map_put (denials f) fp n\<rparr>
                in committing ErrStore io q
                     (if MaxDenialsBeforeHold \<le> n
                      then f1\<lparr>holds := map_put (holds f1) fp (time_add now DenialHoldFor)\<rparr>
                      else f1) out)))))"

definition decide_for where
  "decide_for io now rid approve via reason grantFor q =
     decide io now rid approve via reason grantFor False False q"

definition decide_once where
  "decide_once io now rid approve via reason grantFor q =
     decide io now rid approve via reason grantFor False True q"

definition decide_for_anyone where
  "decide_for_anyone io now rid approve via reason grantFor q =
     decide io now rid approve via reason grantFor True False q"

definition revoke :: "store_io \<Rightarrow> go_time \<Rightarrow> string \<Rightarrow> queue \<Rightarrow> (approval_error + request) \<times> queue" where
  "revoke io now rid q =
     (case load_error io of Some e \<Rightarrow> (Inl (ErrStore e), q) | None \<Rightarrow>
      (case find_index (\<lambda>r. rq_id r = rid) (requests q) of
         None \<Rightarrow> (Inl ErrNotFound, q)
       | Some i \<Rightarrow>
           (let r = requests q ! i in
            if rq_status r \<noteq> StatusApproved then (Inl (ErrNotApproved rid (rq_status r)), q)
            else (let out = r\<lparr>rq_status := StatusRevoked, rq_capability := [],
                              rq_granted_until := 0, rq_decided_at := now\<rparr>
                  in committing ErrStore io q (q\<lparr>requests := (requests q)[i := out]\<rparr>) out))))"

definition spendable :: "go_time \<Rightarrow> string \<Rightarrow> string \<Rightarrow> request \<Rightarrow> bool" where
  "spendable now subject fingerprint r \<longleftrightarrow>
     rq_once r \<and> rq_status r = StatusApproved \<and> rq_subject r = subject \<and>
     rq_fingerprint r = fingerprint \<and> time_before now (rq_granted_until r)"

definition consume_once ::
  "store_io \<Rightarrow> go_time \<Rightarrow> string \<Rightarrow> string \<Rightarrow> queue \<Rightarrow> (approval_error + bool) \<times> queue" where
  "consume_once io now subject fingerprint q =
     (case load_error io of Some e \<Rightarrow> (Inl (ErrStore e), q) | None \<Rightarrow>
      (case find_index (spendable now subject fingerprint) (requests q) of
         None \<Rightarrow> (Inr False, q)
       | Some i \<Rightarrow>
           committing ErrStore io q
             (q\<lparr>requests := (requests q)[i := (requests q ! i)\<lparr>rq_status := StatusUsed,
                  rq_capability := [], rq_granted_until := 0, rq_decided_at := now\<rparr>]\<rparr>) True))"

text \<open>The loop of \<open>LastDenial\<close>: the latest answered request about the question.\<close>

fun latest_answer :: "string \<Rightarrow> string \<Rightarrow> request option \<Rightarrow> request list \<Rightarrow> request option" where
  "latest_answer subject fp latest [] = latest"
| "latest_answer subject fp latest (r # rs) =
     (if rq_subject r \<noteq> subject \<or> rq_fingerprint r \<noteq> fp then latest_answer subject fp latest rs
      else if \<not> answered r then latest_answer subject fp latest rs
      else (case latest of
              None \<Rightarrow> latest_answer subject fp (Some r) rs
            | Some l \<Rightarrow> latest_answer subject fp
                (if time_after (rq_decided_at r) (rq_decided_at l) then Some r else Some l) rs))"

definition last_denial :: "store_io \<Rightarrow> string \<Rightarrow> string \<Rightarrow> queue \<Rightarrow> request option" where
  "last_denial io subject fp q =
     (case load_error io of Some e \<Rightarrow> None | None \<Rightarrow>
      (case latest_answer subject fp None (requests q) of
         None \<Rightarrow> None
       | Some l \<Rightarrow> if rq_status l \<noteq> StatusDenied then None else Some l))"

definition grant_matches :: "go_time \<Rightarrow> string \<Rightarrow> string \<Rightarrow> (request \<Rightarrow> bool) option \<Rightarrow> request \<Rightarrow> bool" where
  "grant_matches now subject fp usable r \<longleftrightarrow>
     kind_grants (rq_kind r) \<and> rq_status r = StatusApproved \<and> rq_subject r = subject \<and>
     rq_fingerprint r = fp \<and> time_before now (rq_granted_until r) \<and>
     (case usable of None \<Rightarrow> True | Some u \<Rightarrow> u r)"

definition action_grant_request ::
  "store_io \<Rightarrow> go_time \<Rightarrow> string \<Rightarrow> string \<Rightarrow> (request \<Rightarrow> bool) option \<Rightarrow> queue \<Rightarrow>
   approval_error + request option" where
  "action_grant_request io now subject fp usable q =
     (case load_error io of Some e \<Rightarrow> Inl (ErrStore e) | None \<Rightarrow>
      Inr (List.find (grant_matches now subject fp usable) (requests q)))"

definition action_grant_for ::
  "store_io \<Rightarrow> go_time \<Rightarrow> string \<Rightarrow> string \<Rightarrow> (request \<Rightarrow> bool) option \<Rightarrow> queue \<Rightarrow>
   approval_error + bool \<times> go_time" where
  "action_grant_for io now subject fp usable q =
     (case action_grant_request io now subject fp usable q of
        Inl e \<Rightarrow> Inl e
      | Inr None \<Rightarrow> Inr (False, 0)
      | Inr (Some r) \<Rightarrow> Inr (True, rq_granted_until r))"

definition action_granted :: "store_io \<Rightarrow> go_time \<Rightarrow> string \<Rightarrow> string \<Rightarrow> queue \<Rightarrow> approval_error + bool" where
  "action_granted io now subject fp q =
     (case action_grant_for io now subject fp None q of Inl e \<Rightarrow> Inl e | Inr (ok, _) \<Rightarrow> Inr ok)"

definition get_request :: "store_io \<Rightarrow> go_time \<Rightarrow> string \<Rightarrow> queue \<Rightarrow> approval_error + request" where
  "get_request io now rid q =
     (case load_error io of Some e \<Rightarrow> Inl (ErrStore e) | None \<Rightarrow>
      (case List.find (\<lambda>r. rq_id r = rid) (requests (expire now q)) of
         None \<Rightarrow> Inl ErrNotFound | Some r \<Rightarrow> Inr r))"

text \<open>
  \<open>List\<close>, newest first; an empty status asks for all of them. \<open>sort.Slice\<close> leaves the order
  of requests created at the same instant open, the model keeps their order on file.
\<close>

definition list_requests ::
  "store_io \<Rightarrow> go_time \<Rightarrow> status option \<Rightarrow> queue \<Rightarrow> (approval_error + request list) \<times> queue" where
  "list_requests io now st q =
     (case load_error io of Some e \<Rightarrow> (Inl (ErrStore e), q) | None \<Rightarrow>
      (let f = expire now q in
       committing ErrStore io q f
         (sort_key (\<lambda>r. - rq_created_at r)
            (filter (\<lambda>r. case st of None \<Rightarrow> True | Some s \<Rightarrow> rq_status r = s) (requests f)))))"

definition prunable :: "go_time \<Rightarrow> request \<Rightarrow> bool" where
  "prunable cutoff r \<longleftrightarrow> rq_status r \<noteq> StatusPending \<and> time_before (rq_created_at r) cutoff"

definition prune :: "store_io \<Rightarrow> go_time \<Rightarrow> duration \<Rightarrow> queue \<Rightarrow> (approval_error + nat) \<times> queue" where
  "prune io now keepFor q =
     (case load_error io of Some e \<Rightarrow> (Inl (ErrStore e), q) | None \<Rightarrow>
      (let f = expire now q; cutoff = time_add now (- keepFor) in
       committing ErrStore io q
         (f\<lparr>requests := filter (\<lambda>r. \<not> prunable cutoff r) (requests f),
            holds := filter (\<lambda>(fp, until). \<not> time_after now until) (holds f)\<rparr>)
         (length (filter (prunable cutoff) (requests f)))))"

definition cancel :: "store_io \<Rightarrow> go_time \<Rightarrow> string \<Rightarrow> queue \<Rightarrow> (approval_error + request) \<times> queue" where
  "cancel io now rid q =
     (case load_error io of Some e \<Rightarrow> (Inl (ErrStore e), q) | None \<Rightarrow>
      (let f = expire now q in
       (case find_index (\<lambda>r. rq_id r = rid) (requests f) of
          None \<Rightarrow> (Inl ErrNotFound, q)
        | Some i \<Rightarrow>
            (let r = requests f ! i in
             if rq_status r \<noteq> StatusPending then (Inr r, q)
             else (let out = r\<lparr>rq_status := StatusCancelled, rq_decided_at := now,
                              rq_decided_via := ''asker''\<rparr>
                   in committing ErrStore io q (f\<lparr>requests := (requests f)[i := out]\<rparr>) out)))))"

section \<open>Watch tickets\<close>

text \<open>\<open>base64.RawURLEncoding\<close>: six bits per character, no padding.\<close>

definition b64url_char :: "nat \<Rightarrow> char" where
  "b64url_char n = (if n < 26 then char_of (65 + n) else if n < 52 then char_of (71 + n)
     else if n < 62 then char_of (n - 4) else if n = 62 then CHR ''-'' else CHR ''_'')"

fun b64url :: "bytes \<Rightarrow> string" where
  "b64url (a # b # c # s) =
     (let x = of_char a; y = of_char b; z = of_char c :: nat in
      b64url_char (x div 4) # b64url_char (x mod 4 * 16 + y div 16) #
      b64url_char (y mod 16 * 4 + z div 64) # b64url_char (z mod 64) # b64url s)"
| "b64url [a, b] = (let x = of_char a; y = of_char b :: nat in
      [b64url_char (x div 4), b64url_char (x mod 4 * 16 + y div 16), b64url_char (y mod 16 * 4)])"
| "b64url [a] = (let x = of_char a :: nat in [b64url_char (x div 4), b64url_char (x mod 4 * 16)])"
| "b64url [] = []"

definition hash_watch_ticket :: "(bytes \<Rightarrow> bytes) \<Rightarrow> string \<Rightarrow> string" where
  "hash_watch_ticket sha256 ticket = hex_encode (sha256 ticket)"

definition ticket_leads_with_alnum :: "string \<Rightarrow> bool" where
  "ticket_leads_with_alnum ticket = (case ticket of [] \<Rightarrow> False | c # _ \<Rightarrow>
     (CHR ''A'' \<le> c \<and> c \<le> CHR ''Z'') \<or> (CHR ''a'' \<le> c \<and> c \<le> CHR ''z'') \<or>
     (CHR ''0'' \<le> c \<and> c \<le> CHR ''9''))"

text \<open>
  \<open>NewWatchTicket\<close> over the sequence of answers \<open>rand.Read\<close> gives, \<open>None\<close> for an error; the
  result is \<open>None\<close> while the loop is still drawing.
\<close>

fun new_watch_ticket :: "(bytes \<Rightarrow> bytes) \<Rightarrow> bytes option list \<Rightarrow> (string + string \<times> string) option" where
  "new_watch_ticket sha256 [] = None"
| "new_watch_ticket sha256 (None # rest) = Some (Inl ''approval: mint watch ticket'')"
| "new_watch_ticket sha256 (Some raw # rest) =
     (let ticket = b64url raw in
      if ticket_leads_with_alnum ticket then Some (Inr (ticket, hash_watch_ticket sha256 ticket))
      else new_watch_ticket sha256 rest)"

definition by_watch_ticket ::
  "(bytes \<Rightarrow> bytes) \<Rightarrow> store_io \<Rightarrow> go_time \<Rightarrow> string \<Rightarrow> queue \<Rightarrow> request option" where
  "by_watch_ticket sha256 io now ticket q =
     (if ticket = [] then None
      else (case load_error io of Some e \<Rightarrow> None | None \<Rightarrow>
        List.find (\<lambda>r. rq_watch_hash r \<noteq> [] \<and> rq_watch_hash r = hash_watch_ticket sha256 ticket)
          (requests (expire now q))))"

end
