(* ===== verification/Histories.thy ===== *)
theory Histories
  imports Main
begin

text \<open>
  Histories: a component that takes one event after another. What its invariant and its single steps
  promise is assumed, what every history promises is proved once. A component interprets the locale on
  its own step function.
\<close>

locale history =
  fixes step :: "'e \<Rightarrow> 's \<Rightarrow> 's" and inv :: "'s \<Rightarrow> bool"
  assumes step_inv: "inv s \<Longrightarrow> inv (step e s)"
begin

lemma run_inv: "inv s \<Longrightarrow> inv (fold step evs s)"
  by (induction evs arbitrary: s) (simp_all add: step_inv)

text \<open>What every step keeps, a history keeps.\<close>

lemma run_keeps:
  assumes "inv s" and "P s" and "\<And>s e. inv s \<Longrightarrow> P s \<Longrightarrow> P (step e s)"
  shows "P (fold step evs s)"
  using assms(1,2)
proof (induction evs arbitrary: s)
  case (Cons e evs)
  then show ?case using assms(3) step_inv by simp
qed simp

text \<open>What every step keeps unless it is of a certain kind, a history keeps unless it has such a step.\<close>

lemma run_keeps_unless:
  assumes "inv s" and "P s" and "\<And>s e. inv s \<Longrightarrow> P s \<Longrightarrow> P (step e s) \<or> Q e s"
  shows "P (fold step evs s) \<or> (\<exists>evs1 e evs2. evs = evs1 @ e # evs2 \<and> Q e (fold step evs1 s))"
proof (induction evs rule: rev_induct)
  case Nil
  then show ?case using assms(2) by simp
next
  case (snoc e evs)
  then consider "P (fold step evs s)" | evs1 e' evs2 where "evs = evs1 @ e' # evs2" "Q e' (fold step evs1 s)" by blast
  then show ?case
  proof cases
    case 1
    then show ?thesis using assms(3) [OF run_inv [OF assms(1)] 1, of e] by fastforce
  next
    case 2
    then show ?thesis by (metis append.assoc append_Cons)
  qed
qed

end

end
