(* ===== verification/Approval_Props.thy ===== *)
theory Approval_Props
  imports Approval_Queue Histories
begin

text \<open>
  What the approval queue guarantees. \<open>evolves\<close> is the life of one request as a step
  relation; \<open>run_op_evolves\<close> shows that every method moves every request on file by such a
  step, drops it or, for \<open>Enqueue\<close>, adds a pending one. The invariants, the authority theorem
  (no grant without a human's approval) and the finality of the terminal states follow from it.
\<close>

section \<open>Operations as steps\<close>

datatype approval_op =
    OpEnqueue string request
  | OpDecide string bool string string duration bool bool
  | OpRevoke string
  | OpConsume string string
  | OpAttach string bytes
  | OpList "status option"
  | OpPrune duration
  | OpCancel string

fun run_op :: "store_io \<Rightarrow> go_time \<Rightarrow> approval_op \<Rightarrow> queue \<Rightarrow> queue" where
  "run_op io now (OpEnqueue newid req) q = snd (enqueue io now newid req q)"
| "run_op io now (OpDecide rid approve via reason g anyone once) q =
     snd (decide io now rid approve via reason g anyone once q)"
| "run_op io now (OpRevoke rid) q = snd (revoke io now rid q)"
| "run_op io now (OpConsume subject fp) q = snd (consume_once io now subject fp q)"
| "run_op io now (OpAttach rid blob) q = snd (attach_capability io rid blob q)"
| "run_op io now (OpList st) q = snd (list_requests io now st q)"
| "run_op io now (OpPrune keep) q = snd (prune io now keep q)"
| "run_op io now (OpCancel rid) q = snd (cancel io now rid q)"

type_synonym approval_history = "(store_io \<times> go_time \<times> approval_op) list"

definition run_history :: "approval_history \<Rightarrow> queue \<Rightarrow> queue" where
  "run_history h q = fold (\<lambda>(io, now, opn). run_op io now opn) h q"

lemma run_history_Nil [simp]: "run_history [] q = q"
  by (simp add: run_history_def)

lemma run_history_snoc [simp]:
  "run_history (h @ [(io, now, opn)]) q = run_op io now opn (run_history h q)"
  by (simp add: run_history_def)

lemma run_history_Cons [simp]:
  "run_history ((io, now, opn) # h) q = run_history h (run_op io now opn q)"
  by (simp add: run_history_def)

section \<open>The life of one request\<close>

definition open_request :: "request \<Rightarrow> bool" where
  "open_request r \<longleftrightarrow> \<not> answered r \<and> rq_status r \<noteq> StatusExpired"

lemma open_request_iff [simp]: "open_request r \<longleftrightarrow> rq_status r = StatusPending"
  by (cases "rq_status r") (auto simp: open_request_def answered_def)

inductive evolves :: "go_time \<Rightarrow> approval_op \<Rightarrow> request \<Rightarrow> request \<Rightarrow> bool" where
  ev_same: "evolves now opn r r"
| ev_expire: "evolves now opn r (expire_request now r)"
| ev_reattach: "rq_status (expire_request now r) = StatusPending \<Longrightarrow>
     rq_subject r = rq_subject req \<Longrightarrow> rq_fingerprint r = rq_fingerprint req \<Longrightarrow>
     evolves now (OpEnqueue newid req) r (reattach req (expire_request now r))"
| ev_approve: "rq_status (expire_request now r) = StatusPending \<Longrightarrow> rq_id r = rid \<Longrightarrow>
     evolves now (OpDecide rid True via reason g anyone once) r
       (approve_request now via reason g anyone once (expire_request now r))"
| ev_deny: "rq_status (expire_request now r) = StatusPending \<Longrightarrow> rq_id r = rid \<Longrightarrow>
     evolves now (OpDecide rid False via reason g anyone once) r
       (deny_request now via reason n (expire_request now r))"
| ev_revoke: "rq_status r = StatusApproved \<Longrightarrow> rq_id r = rid \<Longrightarrow>
     evolves now (OpRevoke rid) r (r\<lparr>rq_status := StatusRevoked, rq_capability := [],
       rq_granted_until := 0, rq_decided_at := now\<rparr>)"
| ev_use: "spendable now subject fp r \<Longrightarrow>
     evolves now (OpConsume subject fp) r (r\<lparr>rq_status := StatusUsed, rq_capability := [],
       rq_granted_until := 0, rq_decided_at := now\<rparr>)"
| ev_attach: "rq_id r = rid \<Longrightarrow> evolves now (OpAttach rid blob) r (r\<lparr>rq_capability := blob\<rparr>)"
| ev_cancel: "rq_status (expire_request now r) = StatusPending \<Longrightarrow> rq_id r = rid \<Longrightarrow>
     evolves now (OpCancel rid) r ((expire_request now r)\<lparr>rq_status := StatusCancelled,
       rq_decided_at := now, rq_decided_via := ''asker''\<rparr>)"

lemma expire_request_sel [simp]:
  "rq_id (expire_request now r) = rq_id r"
  "rq_kind (expire_request now r) = rq_kind r"
  "rq_subject (expire_request now r) = rq_subject r"
  "rq_fingerprint (expire_request now r) = rq_fingerprint r"
  "rq_granted_until (expire_request now r) = rq_granted_until r"
  "rq_once (expire_request now r) = rq_once r"
  "rq_decided_at (expire_request now r) = rq_decided_at r"
  "rq_created_at (expire_request now r) = rq_created_at r"
  "rq_expires_at (expire_request now r) = rq_expires_at r"
  "rq_watch_hash (expire_request now r) = rq_watch_hash r"
  "rq_denials (expire_request now r) = rq_denials r"
  by (simp_all add: expire_request_def Let_def)

lemma expire_request_status:
  "rq_status (expire_request now r) =
     (if rq_status r = StatusPending \<and> rq_expires_at r < now then StatusExpired else rq_status r)"
  by (auto simp: expire_request_def Let_def)

lemma expire_request_pending_iff:
  "rq_status (expire_request now r) = StatusPending \<longleftrightarrow>
     rq_status r = StatusPending \<and> now \<le> rq_expires_at r"
  by (auto simp: expire_request_status)

lemma expire_request_settled:
  "rq_status (expire_request now r) = s \<Longrightarrow> s \<noteq> StatusExpired \<Longrightarrow> rq_status r = s"
  by (auto simp: expire_request_status split: if_splits)

lemma reattach_sel [simp]:
  "rq_id (reattach req r) = rq_id r" "rq_status (reattach req r) = rq_status r"
  "rq_kind (reattach req r) = rq_kind r" "rq_subject (reattach req r) = rq_subject r"
  "rq_fingerprint (reattach req r) = rq_fingerprint r"
  "rq_granted_until (reattach req r) = rq_granted_until r"
  "rq_once (reattach req r) = rq_once r" "rq_watch_hash (reattach req r) = rq_watch_hash r"
  "rq_capability (reattach req r) = rq_capability r"
  by (simp_all add: reattach_def Let_def)

lemma approve_request_sel [simp]:
  "rq_id (approve_request now via reason g anyone once r) = rq_id r"
  "rq_status (approve_request now via reason g anyone once r) = StatusApproved"
  "rq_kind (approve_request now via reason g anyone once r) = rq_kind r"
  "rq_subject (approve_request now via reason g anyone once r) = rq_subject r"
  "rq_fingerprint (approve_request now via reason g anyone once r) = rq_fingerprint r"
  "rq_granted_until (approve_request now via reason g anyone once r) =
     (if kind_grants (rq_kind r) then time_add now (if g \<le> 0 then kind_window (rq_kind r) else g)
      else rq_granted_until r)"
  "rq_decided_at (approve_request now via reason g anyone once r) = now"
  "rq_once (approve_request now via reason g anyone once r) = (once \<or> rq_once r)"
  "rq_anyone (approve_request now via reason g anyone once r) = (anyone \<or> rq_anyone r)"
  "rq_watch_hash (approve_request now via reason g anyone once r) = rq_watch_hash r"
  by (simp_all add: approve_request_def Let_def)

lemma approve_request_late:
  "rq_late (approve_request now via reason g anyone once r) \<longleftrightarrow>
     rq_late r \<or> (rq_needed_by r \<noteq> 0 \<and> rq_needed_by r < now)"
  by (simp add: approve_request_def Let_def)

lemma deny_request_sel [simp]:
  "rq_id (deny_request now via reason n r) = rq_id r"
  "rq_status (deny_request now via reason n r) = StatusDenied"
  "rq_kind (deny_request now via reason n r) = rq_kind r"
  "rq_subject (deny_request now via reason n r) = rq_subject r"
  "rq_fingerprint (deny_request now via reason n r) = rq_fingerprint r"
  "rq_granted_until (deny_request now via reason n r) = rq_granted_until r"
  "rq_denials (deny_request now via reason n r) = n"
  "rq_decided_at (deny_request now via reason n r) = now"
  by (simp_all add: deny_request_def)

lemma new_request_sel [simp]:
  "rq_id (new_request now newid req) = newid"
  "rq_status (new_request now newid req) = StatusPending"
  "rq_subject (new_request now newid req) = rq_subject req"
  "rq_fingerprint (new_request now newid req) = rq_fingerprint req"
  "rq_created_at (new_request now newid req) = now"
  by (simp_all add: new_request_def Let_def)

lemma status_pendingI:
  "s \<noteq> StatusExpired \<Longrightarrow> s \<noteq> StatusApproved \<Longrightarrow> s \<noteq> StatusDenied \<Longrightarrow> s \<noteq> StatusRevoked \<Longrightarrow>
   s \<noteq> StatusUsed \<Longrightarrow> s \<noteq> StatusCancelled \<Longrightarrow> s = StatusPending"
  by (cases s) auto

lemma evolves_id: "evolves now opn r r' \<Longrightarrow> rq_id r' = rq_id r"
  by (induction rule: evolves.induct) simp_all

lemma evolves_question:
  "evolves now opn r r' \<Longrightarrow> rq_subject r' = rq_subject r \<and> rq_fingerprint r' = rq_fingerprint r \<and>
     rq_kind r' = rq_kind r"
  by (induction rule: evolves.induct) simp_all

text \<open>The legal moves between states; the last five states are final.\<close>

fun may_become :: "status \<Rightarrow> status \<Rightarrow> bool" where
  "may_become StatusPending s \<longleftrightarrow>
     s \<in> {StatusPending, StatusApproved, StatusDenied, StatusExpired, StatusCancelled}"
| "may_become StatusApproved s \<longleftrightarrow> s \<in> {StatusApproved, StatusRevoked, StatusUsed}"
| "may_become s t \<longleftrightarrow> t = s"

lemma may_become_refl [simp]: "may_become s s"
  by (cases s) auto

lemma may_become_from_pending [simp]:
  "s \<noteq> StatusRevoked \<Longrightarrow> s \<noteq> StatusUsed \<Longrightarrow> may_become StatusPending s"
  by (cases s) auto

lemma evolves_status: "evolves now opn r r' \<Longrightarrow> may_become (rq_status r) (rq_status r')"
  by (induction rule: evolves.induct)
     (auto simp: expire_request_status spendable_def split: if_splits)

section \<open>Every method is a step of every request\<close>

lemma enqueue_scan_Inl:
  "enqueue_scan req i p rs = Inl j \<Longrightarrow> i \<le> j \<and> j - i < length rs \<and>
     rq_status (rs ! (j - i)) = StatusPending \<and>
     rq_fingerprint (rs ! (j - i)) = rq_fingerprint req \<and> rq_subject (rs ! (j - i)) = rq_subject req"
proof (induction req i p rs rule: enqueue_scan.induct)
  case (1 req i p)
  then show ?case by simp
next
  case (2 req i p r rs)
  show ?case
  proof (cases "rq_status r = StatusPending \<and> rq_fingerprint r = rq_fingerprint req \<and>
      rq_subject r = rq_subject req")
    case True
    then show ?thesis using "2.prems" by auto
  next
    case False
    then obtain p' where "enqueue_scan req (Suc i) p' rs = Inl j"
      and "Suc i \<le> j \<and> j - Suc i < length rs \<and>
        rq_status (rs ! (j - Suc i)) = StatusPending \<and>
        rq_fingerprint (rs ! (j - Suc i)) = rq_fingerprint req \<and>
        rq_subject (rs ! (j - Suc i)) = rq_subject req"
      using "2.IH" "2.prems" by (auto split: if_splits)
    moreover have "j - i = Suc (j - Suc i)"
      using \<open>Suc i \<le> j \<and> _\<close> by arith
    ultimately show ?thesis by simp
  qed
qed

lemma enqueue_scan_Inr:
  "enqueue_scan req i p rs = Inr n \<Longrightarrow>
     n = p + length (filter (\<lambda>r. rq_status r = StatusPending \<and> rq_subject r = rq_subject req) rs) \<and>
     (\<forall>r \<in> set rs. rq_status r = StatusPending \<longrightarrow>
        \<not> (rq_fingerprint r = rq_fingerprint req \<and> rq_subject r = rq_subject req))"
proof (induction req i p rs rule: enqueue_scan.induct)
  case (1 req i pending)
  then show ?case by simp
next
  case (2 req i p r rs)
  show ?case
  proof (cases "rq_status r = StatusPending")
    case False
    then show ?thesis using "2.IH"(1) "2.prems" by simp
  next
    case pend: True
    have ne: "\<not> (rq_fingerprint r = rq_fingerprint req \<and> rq_subject r = rq_subject req)"
      using "2.prems" pend by (auto split: if_splits)
    show ?thesis
    proof (cases "rq_subject r = rq_subject req")
      case True
      then show ?thesis using "2.IH"(2) "2.prems" pend ne by simp
    next
      case False
      then show ?thesis using "2.IH"(3) "2.prems" pend ne by simp
    qed
  qed
qed

text \<open>
  The possible contents after a method: unchanged, all requests expired and one of them moved,
  one added, or some dropped.
\<close>

lemma list_all2_same_update:
  "(\<And>r. R r r) \<Longrightarrow> i < length rs \<Longrightarrow> R (rs ! i) r' \<Longrightarrow> list_all2 R rs (rs[i := r'])"
  by (simp add: list_all2_conv_all_nth nth_list_update)

lemma list_all2_map_update:
  "(\<And>r. R r (f r)) \<Longrightarrow> i < length rs \<Longrightarrow> R (rs ! i) r' \<Longrightarrow> list_all2 R rs ((map f rs)[i := r'])"
  by (simp add: list_all2_conv_all_nth nth_list_update)

lemma list_all2_map_self: "(\<And>r. R r (f r)) \<Longrightarrow> list_all2 R rs (map f rs)"
  by (simp add: list_all2_conv_all_nth)

lemma requests_expire [simp]: "requests (expire now q) = map (expire_request now) (requests q)"
  "holds (expire now q) = holds q" "denials (expire now q) = denials q"
  by (simp_all add: expire_def)

lemma find_index_expire_id:
  "find_index (\<lambda>r. rq_id r = rid) (map (expire_request now) rs) = find_index (\<lambda>r. rq_id r = rid) rs"
  by (simp add: find_index_map)

definition admits :: "request \<Rightarrow> request list \<Rightarrow> bool" where
  "admits req rs \<longleftrightarrow> (\<exists>n. enqueue_scan req 0 0 rs = Inr n \<and> n < MaxPendingPerProject)"

lemma enqueue_unheld_requests:
  assumes "requests f = map (expire_request now) (requests q)"
  shows "list_all2 (evolves now (OpEnqueue newid req)) (requests q)
           (requests (snd (enqueue_unheld io now newid req q f))) \<or>
         admits req (map (expire_request now) (requests q)) \<and>
         requests (snd (enqueue_unheld io now newid req q f)) =
           map (expire_request now) (requests q) @ [new_request now newid req]"
proof (cases "enqueue_scan req 0 0 (requests f)")
  case (Inl i)
  then have i: "i < length (requests q)"
    "rq_status (expire_request now (requests q ! i)) = StatusPending"
    "rq_fingerprint (requests q ! i) = rq_fingerprint req"
    "rq_subject (requests q ! i) = rq_subject req"
    using enqueue_scan_Inl [OF Inl] assms by auto
  then have "evolves now (OpEnqueue newid req) (requests q ! i)
      (reattach req (expire_request now (requests q ! i)))"
    by (intro ev_reattach) auto
  then show ?thesis
    using Inl i assms
    by (auto simp: enqueue_unheld_def Let_def committing_def list.rel_refl ev_same
        split: option.splits intro!: list_all2_map_update ev_expire)
next
  case (Inr n)
  then show ?thesis
    using assms
    by (auto simp: enqueue_unheld_def Let_def committing_def list.rel_refl ev_same admits_def
        split: option.splits)
qed

lemma run_op_evolves:
  "(\<exists>keep. list_all2 (evolves now opn) (filter keep (requests q)) (requests (run_op io now opn q))) \<or>
   (\<exists>newid req. opn = OpEnqueue newid req \<and> admits req (map (expire_request now) (requests q)) \<and>
      requests (run_op io now opn q) = map (expire_request now) (requests q) @ [new_request now newid req])"
proof -
  let ?all = "\<lambda>_::request. True"
  let ?G = "\<lambda>o'. (\<exists>keep. list_all2 (evolves now o') (filter keep (requests q)) (requests (run_op io now o' q)))"
  note split_intros = list_all2_same_update list_all2_map_update list_all2_map_self list.rel_refl
  have all: "list_all2 (evolves now o') (requests q) (requests (run_op io now o' q)) \<Longrightarrow> ?G o'" for o'
    by (rule exI [of _ ?all]) simp
  show ?thesis
  proof (cases opn)
    case (OpEnqueue newid req)
    have "list_all2 (evolves now opn) (requests q) (requests (run_op io now opn q)) \<or>
      admits req (map (expire_request now) (requests q)) \<and>
      requests (run_op io now opn q) = map (expire_request now) (requests q) @ [new_request now newid req]"
      unfolding OpEnqueue
      using enqueue_unheld_requests [of "expire now q" now q newid req io]
        enqueue_unheld_requests [of "expire now q\<lparr>holds := map_del (holds (expire now q)) (rq_fingerprint req),
          denials := map_del (denials (expire now q)) (rq_fingerprint req)\<rparr>" now q newid req io]
      by (auto simp: enqueue_def Let_def list.rel_refl ev_same split: option.splits)
    then show ?thesis using all OpEnqueue by blast
  next
    case (OpDecide rid approve via reason g anyone once)
    have "list_all2 (evolves now opn) (requests q) (requests (run_op io now opn q))"
      unfolding OpDecide
      by (cases approve)
         (auto simp: decide_def Let_def committing_def find_index_expire_id answered_def
          dest!: find_index_Some split: option.splits
          intro!: split_intros ev_same ev_expire ev_approve ev_deny status_pendingI)
    then show ?thesis using all by blast
  next
    case (OpRevoke rid)
    have "list_all2 (evolves now opn) (requests q) (requests (run_op io now opn q))"
      unfolding OpRevoke
      by (auto simp: revoke_def Let_def committing_def dest!: find_index_Some split: option.splits
          intro!: split_intros ev_same ev_revoke)
    then show ?thesis using all by blast
  next
    case (OpConsume subject fp)
    have "list_all2 (evolves now opn) (requests q) (requests (run_op io now opn q))"
      unfolding OpConsume
      by (auto simp: consume_once_def Let_def committing_def dest!: find_index_Some
          split: option.splits intro!: split_intros ev_same ev_use)
    then show ?thesis using all by blast
  next
    case (OpAttach rid blob)
    have "list_all2 (evolves now opn) (requests q) (requests (run_op io now opn q))"
      unfolding OpAttach
      by (auto simp: attach_capability_def Let_def committing_def dest!: find_index_Some
          split: option.splits intro!: split_intros ev_same ev_attach)
    then show ?thesis using all by blast
  next
    case (OpList st)
    have "list_all2 (evolves now opn) (requests q) (requests (run_op io now opn q))"
      unfolding OpList
      by (auto simp: list_requests_def Let_def committing_def split: option.splits
          intro!: split_intros ev_same ev_expire)
    then show ?thesis using all by blast
  next
    case (OpPrune keep)
    have "?G opn"
    proof (cases "requests (run_op io now opn q) = requests q")
      case True
      then show ?thesis by (intro all) (auto intro: list.rel_refl ev_same)
    next
      case False
      then have "requests (run_op io now opn q) =
          filter (\<lambda>r. \<not> prunable (time_add now (- keep)) r) (map (expire_request now) (requests q))"
        by (auto simp: OpPrune prune_def Let_def committing_def split: option.splits)
      then show ?thesis
        by (intro exI [of _ "\<lambda>r. \<not> prunable (time_add now (- keep)) (expire_request now r)"])
           (auto simp: filter_map comp_def intro!: split_intros ev_expire)
    qed
    then show ?thesis by blast
  next
    case (OpCancel rid)
    have "list_all2 (evolves now opn) (requests q) (requests (run_op io now opn q))"
      unfolding OpCancel
      by (auto simp: cancel_def Let_def committing_def find_index_expire_id dest!: find_index_Some
          split: option.splits intro!: split_intros ev_same ev_expire ev_cancel)
    then show ?thesis using all by blast
  qed
qed

lemma run_op_cases:
  assumes "r' \<in> set (requests (run_op io now opn q))"
  obtains (old) r where "r \<in> set (requests q)" "evolves now opn r r'"
    | (new) newid req where "opn = OpEnqueue newid req" "r' = new_request now newid req"
proof -
  from run_op_evolves [of now opn q io] show ?thesis
  proof
    assume "\<exists>keep. list_all2 (evolves now opn) (filter keep (requests q)) (requests (run_op io now opn q))"
    then obtain keep where l: "list_all2 (evolves now opn) (filter keep (requests q)) (requests (run_op io now opn q))"
      by blast
    from assms obtain i where i: "i < length (requests (run_op io now opn q))"
      "r' = requests (run_op io now opn q) ! i"
      by (auto simp: in_set_conv_nth)
    with l have "evolves now opn (filter keep (requests q) ! i) r'" "i < length (filter keep (requests q))"
      by (auto simp: list_all2_conv_all_nth)
    then show ?thesis by (metis filter_is_subset nth_mem old subsetD)
  next
    assume "\<exists>newid req. opn = OpEnqueue newid req \<and> admits req (map (expire_request now) (requests q)) \<and>
      requests (run_op io now opn q) = map (expire_request now) (requests q) @ [new_request now newid req]"
    then obtain newid req where opn: "opn = OpEnqueue newid req"
      and "r' \<in> set (map (expire_request now) (requests q) @ [new_request now newid req])"
      using assms by metis
    then have "r' = new_request now newid req \<or> (\<exists>r \<in> set (requests q). r' = expire_request now r)"
      by auto
    then show ?thesis using opn old new ev_expire by blast
  qed
qed

section \<open>Grants need an approval\<close>

text \<open>
  The provenance of an approved request: the decision in the history that approved it, and
  the window it was given.
\<close>

definition approved_in :: "approval_history \<Rightarrow> request \<Rightarrow> bool" where
  "approved_in h r \<longleftrightarrow> (\<exists>io now via reason g anyone once.
     (io, now, OpDecide (rq_id r) True via reason g anyone once) \<in> set h \<and>
     (kind_grants (rq_kind r) \<longrightarrow>
        rq_granted_until r = time_add now (if g \<le> 0 then kind_window (rq_kind r) else g)))"

lemma approved_inI:
  "(io, now, OpDecide (rq_id r) True via reason g anyone once) \<in> set h \<Longrightarrow>
   (kind_grants (rq_kind r) \<longrightarrow>
      rq_granted_until r = time_add now (if g \<le> 0 then kind_window (rq_kind r) else g)) \<Longrightarrow>
   approved_in h r"
  unfolding approved_in_def by blast

lemma approved_in_mono: "approved_in h r \<Longrightarrow> approved_in (h @ [e]) r"
  unfolding approved_in_def by (metis in_set_conv_decomp append.assoc set_append Un_iff)

lemma approved_in_same:
  "approved_in h r \<Longrightarrow> rq_id r' = rq_id r \<Longrightarrow> rq_kind r' = rq_kind r \<Longrightarrow>
   rq_granted_until r' = rq_granted_until r \<Longrightarrow> approved_in h r'"
  by (simp only: approved_in_def)

lemma evolves_approved:
  assumes "evolves now opn r r'" and "rq_status r' = StatusApproved"
    and "rq_status r = StatusApproved \<Longrightarrow> approved_in h r"
  shows "approved_in (h @ [(io, now, opn)]) r'"
  using assms
proof (induction rule: evolves.induct)
  case (ev_approve now r rid via reason g anyone once)
  then show ?case
    by (intro approved_inI [of io now _ via reason g anyone once]) simp_all
next
  case (ev_expire now opn r)
  then have "rq_status r = StatusApproved"
    by (simp add: expire_request_status split: if_splits)
  then have "approved_in h r" by (rule ev_expire.prems(2))
  then have "approved_in h (expire_request now r)" by (rule approved_in_same) simp_all
  then show ?case by (rule approved_in_mono)
next
  case (ev_attach r rid now blob)
  then have "approved_in h r" by simp
  then have "approved_in h (r\<lparr>rq_capability := blob\<rparr>)" by (rule approved_in_same) simp_all
  then show ?case by (rule approved_in_mono)
next
  case (ev_same now opn r)
  then show ?case by (intro approved_in_mono)
next
  case (ev_reattach now r req newid)
  then show ?case by simp
next
  case (ev_deny now r rid via reason g anyone once n)
  then show ?case by simp
next
  case (ev_revoke r rid now)
  then show ?case by simp
next
  case (ev_use now subject fp r)
  then show ?case by simp
next
  case (ev_cancel now r rid)
  then show ?case by simp
qed

lemma approved_requests_have_history:
  "r \<in> set (requests (run_history h empty_queue)) \<Longrightarrow> rq_status r = StatusApproved \<Longrightarrow> approved_in h r"
proof (induction h arbitrary: r rule: rev_induct)
  case Nil
  then show ?case by (simp add: empty_queue_def)
next
  case (snoc e h)
  obtain io now opn where e: "e = (io, now, opn)" by (cases e) auto
  from snoc.prems(1) have "r \<in> set (requests (run_op io now opn (run_history h empty_queue)))"
    by (simp add: e)
  then show ?case
  proof (cases rule: run_op_cases)
    case (old r0)
    then show ?thesis
      using snoc.IH [OF old(1)] snoc.prems(2) by (auto simp: e intro: evolves_approved)
  next
    case (new newid req)
    then show ?thesis using snoc.prems(2) by simp
  qed
qed

lemma action_grant_request_Some:
  "action_grant_request io now subject fp usable q = Inr (Some r) \<Longrightarrow>
     r \<in> set (requests q) \<and> grant_matches now subject fp usable r"
  by (auto simp: action_grant_request_def find_Some_iff split: option.splits)

section \<open>Settled requests stay settled\<close>

definition settled_id :: "string \<Rightarrow> queue \<Rightarrow> bool" where
  "settled_id x q \<longleftrightarrow> (\<forall>r \<in> set (requests q). rq_id r = x \<longrightarrow>
     rq_status r \<noteq> StatusPending \<and> rq_status r \<noteq> StatusApproved)"

fun issues_id :: "string \<Rightarrow> approval_op \<Rightarrow> bool" where
  "issues_id x (OpEnqueue newid req) = (newid = x)"
| "issues_id x _ = False"

lemma may_become_settled:
  "may_become s t \<Longrightarrow> s \<noteq> StatusPending \<Longrightarrow> s \<noteq> StatusApproved \<Longrightarrow> t = s"
  by (cases s) auto

lemma run_op_settled:
  assumes "settled_id x q" and "\<not> issues_id x opn"
  shows "settled_id x (run_op io now opn q)"
  unfolding settled_id_def
proof (intro ballI impI)
  fix r assume "r \<in> set (requests (run_op io now opn q))" and x: "rq_id r = x"
  then show "rq_status r \<noteq> StatusPending \<and> rq_status r \<noteq> StatusApproved"
  proof (cases rule: run_op_cases)
    case (old r0)
    then show ?thesis
      using assms(1) x evolves_id [OF old(2)] may_become_settled [OF evolves_status [OF old(2)]]
      by (auto simp: settled_id_def)
  next
    case (new newid req)
    then show ?thesis using assms(2) x by auto
  qed
qed

lemma run_history_settled:
  "settled_id x q \<Longrightarrow> \<forall>(io, now, opn) \<in> set h. \<not> issues_id x opn \<Longrightarrow> settled_id x (run_history h q)"
proof (induction h arbitrary: q)
  case Nil
  then show ?case by simp
next
  case (Cons e h)
  then show ?case by (cases e) (auto intro: run_op_settled)
qed

lemma settled_no_grant:
  "settled_id x q \<Longrightarrow> action_grant_request io now subject fp usable q = Inr (Some r) \<Longrightarrow> rq_id r \<noteq> x"
  by (auto dest!: action_grant_request_Some simp: settled_id_def grant_matches_def)

lemma settled_not_spendable:
  "settled_id x q \<Longrightarrow> r \<in> set (requests q) \<Longrightarrow> spendable now subject fp r \<Longrightarrow> rq_id r \<noteq> x"
  by (auto simp: settled_id_def spendable_def)

lemma settle_update:
  assumes "distinct (map rq_id rs)" and "i < length rs" and "rq_id r' = rq_id (rs ! i)"
    and "rq_status r' \<noteq> StatusPending" and "rq_status r' \<noteq> StatusApproved"
    and "requests q' = rs[i := r']"
  shows "settled_id (rq_id r') q'"
  unfolding settled_id_def
proof (intro ballI impI)
  fix r assume "r \<in> set (requests q')" and e: "rq_id r = rq_id r'"
  then obtain j where j: "j < length rs" "r = rs[i := r'] ! j"
    using assms(6) by (auto simp: in_set_conv_nth)
  have "j = i"
  proof (rule ccontr)
    assume "j \<noteq> i"
    then have "map rq_id rs ! j = map rq_id rs ! i"
      using j e assms(2,3) by simp
    then show False
      using assms(1,2) j(1) \<open>j \<noteq> i\<close> by (simp add: nth_eq_iff_index_eq del: nth_map)
  qed
  then show "rq_status r \<noteq> StatusPending \<and> rq_status r \<noteq> StatusApproved"
    using j assms by simp
qed

lemma revoke_Inr:
  "revoke io now rid q = (Inr r, q') \<Longrightarrow>
     \<exists>i. find_index (\<lambda>r. rq_id r = rid) (requests q) = Some i \<and>
       rq_status (requests q ! i) = StatusApproved \<and> rq_id r = rid \<and> rq_status r = StatusRevoked \<and>
       rq_granted_until r = 0 \<and> rq_capability r = [] \<and>
       q' = q\<lparr>requests := (requests q)[i := r]\<rparr>"
  by (auto simp: revoke_def Let_def committing_cases dest!: find_index_Some
      split: option.splits if_splits)

lemma consume_once_True:
  "consume_once io now subject fp q = (Inr True, q') \<Longrightarrow>
     \<exists>i. find_index (spendable now subject fp) (requests q) = Some i \<and>
       q' = q\<lparr>requests := (requests q)[i := (requests q ! i)\<lparr>rq_status := StatusUsed,
                  rq_capability := [], rq_granted_until := 0, rq_decided_at := now\<rparr>]\<rparr>"
  by (auto simp: consume_once_def committing_cases split: option.splits)

section \<open>The pending requests\<close>

definition pending_keys :: "request list \<Rightarrow> (string \<times> string) list" where
  "pending_keys rs = map (\<lambda>r. (rq_subject r, rq_fingerprint r)) (filter (\<lambda>r. rq_status r = StatusPending) rs)"

definition pending_for :: "string \<Rightarrow> request list \<Rightarrow> nat" where
  "pending_for subject rs = length (filter (\<lambda>r. rq_status r = StatusPending \<and> rq_subject r = subject) rs)"

text \<open>The invariant of the content on file: no question is pending twice, and no subject floods.\<close>

definition queue_inv :: "queue \<Rightarrow> bool" where
  "queue_inv q \<longleftrightarrow> distinct (pending_keys (requests q)) \<and>
     (\<forall>subject. pending_for subject (requests q) \<le> MaxPendingPerProject)"

lemma pending_for_keys: "pending_for subject rs = length (filter (\<lambda>k. fst k = subject) (pending_keys rs))"
  by (induction rs) (auto simp: pending_for_def pending_keys_def)

lemma pending_keys_simps [simp]:
  "pending_keys [] = []"
  "pending_keys (r # rs) =
     (if rq_status r = StatusPending then [(rq_subject r, rq_fingerprint r)] else []) @ pending_keys rs"
  "pending_keys (xs @ ys) = pending_keys xs @ pending_keys ys"
  by (simp_all add: pending_keys_def)

lemma evolves_pending: "evolves now opn r r' \<Longrightarrow> rq_status r' = StatusPending \<Longrightarrow> rq_status r = StatusPending"
  using evolves_status by (cases "rq_status r") force+

lemma pending_keys_evolve:
  "list_all2 (evolves now opn) rs rs' \<Longrightarrow> subseq (pending_keys rs') (pending_keys rs)"
proof (induction rs rs' rule: list_all2_induct)
  case Nil
  then show ?case by simp
next
  case (Cons r rs r' rs')
  then show ?case
    using evolves_question [OF Cons(1)] evolves_pending [OF Cons(1)]
    by (auto intro: subseq_Cons')
qed

lemma pending_keys_filter: "subseq (pending_keys (filter keep rs)) (pending_keys rs)"
  by (induction rs) auto

lemma pending_keys_expire: "subseq (pending_keys (map (expire_request now) rs)) (pending_keys rs)"
  by (rule pending_keys_evolve [of now "OpCancel []"]) (auto intro!: list_all2_map_self ev_expire)

lemma subseq_distinct: "subseq xs ys \<Longrightarrow> distinct ys \<Longrightarrow> distinct xs"
  by (auto simp: subseq_conv_nths intro: distinct_nthsI)

lemma queue_inv_subseq:
  assumes "queue_inv q" and "subseq (pending_keys (requests q')) (pending_keys (requests q))"
  shows "queue_inv q'"
proof -
  have "distinct (pending_keys (requests q'))"
    using assms subseq_distinct by (auto simp: queue_inv_def)
  moreover have "pending_for s (requests q') \<le> pending_for s (requests q)" for s
    unfolding pending_for_keys by (rule list_emb_length [OF subseq_filter [OF assms(2)]])
  ultimately show ?thesis
    using assms(1) le_trans unfolding queue_inv_def by blast
qed

lemma run_op_inv:
  assumes "queue_inv q"
  shows "queue_inv (run_op io now opn q)"
  using run_op_evolves [of now opn q io]
proof
  assume "\<exists>keep. list_all2 (evolves now opn) (filter keep (requests q)) (requests (run_op io now opn q))"
  then obtain keep where
    "subseq (pending_keys (requests (run_op io now opn q))) (pending_keys (filter keep (requests q)))"
    using pending_keys_evolve by blast
  then show ?thesis
    using queue_inv_subseq [OF assms] subseq_order.trans [OF _ pending_keys_filter] by blast
next
  assume "\<exists>newid req. opn = OpEnqueue newid req \<and> admits req (map (expire_request now) (requests q)) \<and>
      requests (run_op io now opn q) = map (expire_request now) (requests q) @ [new_request now newid req]"
  then obtain newid req where opn: "opn = OpEnqueue newid req"
    and adm: "admits req (map (expire_request now) (requests q))"
    and new: "requests (run_op io now opn q) = map (expire_request now) (requests q) @ [new_request now newid req]"
    by blast
  let ?rs = "map (expire_request now) (requests q)"
  have inv: "distinct (pending_keys ?rs)" "\<And>s. pending_for s ?rs \<le> MaxPendingPerProject"
    using queue_inv_subseq [OF assms, of "q\<lparr>requests := ?rs\<rparr>"] pending_keys_expire
    by (auto simp: queue_inv_def)
  obtain n where scan: "enqueue_scan req 0 0 ?rs = Inr n" and n: "n < MaxPendingPerProject"
    using adm by (auto simp: admits_def)
  have "pending_for (rq_subject req) ?rs < MaxPendingPerProject"
    using enqueue_scan_Inr [OF scan] n by (simp add: pending_for_def)
  then have "pending_for s (?rs @ [new_request now newid req]) \<le> MaxPendingPerProject" for s
    using inv(2) [of s] by (cases "rq_subject req = s") (auto simp: pending_for_def)
  moreover have "(rq_subject req, rq_fingerprint req) \<notin> set (pending_keys ?rs)"
    using enqueue_scan_Inr [OF scan] by (auto simp: pending_keys_def)
  ultimately show ?thesis
    using inv(1) unfolding queue_inv_def new by simp
qed

lemma queue_inv_empty: "queue_inv empty_queue"
  by (simp add: queue_inv_def empty_queue_def pending_for_def)

interpretation queues: history "\<lambda>(io, now, opn). run_op io now opn" queue_inv
  by unfold_locales (auto simp: run_op_inv)

lemma run_history_inv: "queue_inv q \<Longrightarrow> queue_inv (run_history h q)"
  unfolding run_history_def by (rule queues.run_inv)

end
