(* ===== verification/Approval_Claims.thy ===== *)
theory Approval_Claims
  imports Approval_Props
begin

text \<open>
  The properties of the approval queue that the rest of the daemon relies on, with an example
  run that shows their hypotheses hold together.
\<close>

section \<open>An example run\<close>

definition ex_requestor :: requestor where
  "ex_requestor = \<lparr>ro_pid = 7, ro_exe = ''/usr/bin/byn'', ro_cwd = ''/w'', ro_tty = [], ro_user = ''u'',
     ro_agent = ''agent'', ro_agent_pid = 5, ro_agent_key = ''5@9'', ro_proc_key = ''7@9'',
     ro_attended = False\<rparr>"

definition ex_request :: request where
  "ex_request = \<lparr>rq_id = [], rq_kind = KindActionUnpinned, rq_vault = ''default'',
     rq_project = [], rq_env = [], rq_gets = [], rq_gets_all = False, rq_beside = [],
     rq_capability = [], rq_subject = ''/w/.byn'', rq_fingerprint = ''fp'', rq_summary = [''runs make''],
     rq_high_risk = False, rq_requestor = ex_requestor, rq_reason = [], rq_needed_by = 0,
     rq_once = False, rq_ask_once = False, rq_anyone = False, rq_watch_hash = [], rq_late = False,
     rq_status = StatusPending, rq_created_at = 0, rq_expires_at = 0, rq_decided_at = 0,
     rq_decided_via = [], rq_repeats = 0, rq_denials = 0, rq_granted_until = 0,
     rq_decided_reason = []\<rparr>"

definition ex_pending :: queue where
  "ex_pending = \<lparr>requests = [new_request 1 ''a1'' ex_request], holds = [], denials = [(''fp'', 2)]\<rparr>"

definition ex_history :: approval_history where
  "ex_history = [(io_ok, 1, OpEnqueue ''a1'' ex_request),
     (io_ok, 2, OpDecide ''a1'' True ''cli'' [] 100 False True)]"

definition ex_granted :: request where
  "ex_granted = approve_request 2 ''cli'' [] 100 False True (new_request 1 ''a1'' ex_request)"

definition ex_live :: queue where
  "ex_live = \<lparr>requests = [ex_granted], holds = [], denials = []\<rparr>"

lemmas ex_defs = ex_request_def ex_requestor_def ex_pending_def ex_granted_def ex_live_def
  new_request_def approve_request_def deny_request_def expire_request_def Let_def time_defs
  DefaultTTL_def kind_grants_def answered_def

lemma ex_history_run: "run_history ex_history empty_queue = ex_live"
  by (simp add: ex_history_def enqueue_def enqueue_unheld_def empty_queue_def decide_def expire_def
      ex_defs MaxPendingPerProject_def committing_def map_del_def)

lemma ex_live_grant: "action_grant_request io_ok 3 ''/w/.byn'' ''fp'' None ex_live = Inr (Some ex_granted)"
  by (simp add: action_grant_request_def grant_matches_def ex_defs)

section \<open>Authority\<close>

text \<open>
  C28. A grant the queue hands out was made by a human's approval of that very request: some
  earlier decision approved its id, the grant is asked for inside the window that decision
  gave, and it is for exactly the subject and fingerprint asked about. This holds after any
  sequence of operations, at any times, with any failures of the file.
\<close>

theorem grants_come_from_approvals:
  assumes "action_grant_request io now subject fp usable (run_history h empty_queue) = Inr (Some r)"
  shows "rq_subject r = subject \<and> rq_fingerprint r = fp \<and>
    (\<exists>io' t via reason g anyone once.
       (io', t, OpDecide (rq_id r) True via reason g anyone once) \<in> set h \<and>
       now < time_add t (if g \<le> 0 then kind_window (rq_kind r) else g))"
proof -
  have r: "r \<in> set (requests (run_history h empty_queue))" and m: "grant_matches now subject fp usable r"
    using action_grant_request_Some [OF assms] by auto
  then have "approved_in h r"
    by (intro approved_requests_have_history) (auto simp: grant_matches_def)
  with m show ?thesis
    unfolding approved_in_def grant_matches_def time_before_def by metis
qed

theorem grants_come_from_approvals_witness:
  "\<exists>io' t via reason g anyone once.
     (io', t, OpDecide (rq_id ex_granted) True via reason g anyone once) \<in> set ex_history \<and>
     3 < time_add t (if g \<le> 0 then kind_window (rq_kind ex_granted) else g)"
  using grants_come_from_approvals [of io_ok 3 "''/w/.byn''" "''fp''" None ex_history ex_granted]
  by (simp add: ex_history_run ex_live_grant)

text \<open>
  C29. Revocation is final: once a request is revoked, no later sequence of operations (as long
  as its id is not drawn again for a new request) leads to a grant that is that request.
\<close>

theorem revoked_never_grants_again:
  assumes "distinct (map rq_id (requests q))"
    and "revoke io now rid q = (Inr r, q')"
    and "\<forall>(io, t, opn) \<in> set h. \<not> issues_id rid opn"
    and "action_grant_request io' now' subject fp usable (run_history h q') = Inr (Some g)"
  shows "rq_id g \<noteq> rid"
proof -
  obtain i where i: "find_index (\<lambda>r. rq_id r = rid) (requests q) = Some i" "rq_id r = rid"
    "rq_status r = StatusRevoked" "q' = q\<lparr>requests := (requests q)[i := r]\<rparr>"
    using revoke_Inr [OF assms(2)] by auto
  then have "settled_id (rq_id r) q'"
    using find_index_Some [OF i(1)] assms(1) by (intro settle_update [of "requests q" i]) auto
  then have "settled_id rid (run_history h q')"
    using run_history_settled assms(3) i(2) by blast
  then show ?thesis using settled_no_grant assms(4) by blast
qed

definition ex_revoked :: queue where
  "ex_revoked = snd (revoke io_ok 3 ''a1'' ex_live)"

definition ex_later :: approval_history where
  "ex_later = [(io_ok, 4, OpEnqueue ''b2'' ex_request),
     (io_ok, 5, OpDecide ''b2'' True ''cli'' [] 100 False False)]"

lemma ex_later_grant:
  "\<exists>g. action_grant_request io_ok 6 ''/w/.byn'' ''fp'' None (run_history ex_later ex_revoked) = Inr (Some g)"
  by (simp add: ex_later_def ex_revoked_def revoke_def enqueue_def enqueue_unheld_def decide_def expire_def
      ex_defs MaxPendingPerProject_def committing_def map_del_def action_grant_request_def grant_matches_def)

theorem revoked_never_grants_again_witness:
  "\<exists>g. action_grant_request io_ok 6 ''/w/.byn'' ''fp'' None (run_history ex_later ex_revoked) = Inr (Some g) \<and>
     rq_id g \<noteq> ''a1''"
proof -
  obtain r where r: "revoke io_ok 3 ''a1'' ex_live = (Inr r, ex_revoked)"
    by (simp add: ex_revoked_def revoke_def ex_defs)
  obtain g where "action_grant_request io_ok 6 ''/w/.byn'' ''fp'' None (run_history ex_later ex_revoked) = Inr (Some g)"
    using ex_later_grant by blast
  moreover have "distinct (map rq_id (requests ex_live))"
    by (simp add: ex_live_def)
  moreover have "\<forall>(io, t, opn) \<in> set ex_later. \<not> issues_id ''a1'' opn"
    by (simp add: ex_later_def)
  ultimately show ?thesis using revoked_never_grants_again r by blast
qed

text \<open>
  C32. A single-use grant is used once: when \<open>ConsumeOnce\<close> reports that it spent a grant, there
  was a live single-use grant for exactly that question, and from then on no operation makes
  that request grant or be spent again.
\<close>

theorem single_use_is_spent_once:
  assumes "distinct (map rq_id (requests q))"
    and "consume_once io now subject fp q = (Inr True, q')"
  shows "\<exists>r \<in> set (requests q). spendable now subject fp r \<and>
    (\<forall>h. (\<forall>(io, t, opn) \<in> set h. \<not> issues_id (rq_id r) opn) \<longrightarrow>
      (\<forall>io' t s f u g. action_grant_request io' t s f u (run_history h q') = Inr (Some g) \<longrightarrow>
          rq_id g \<noteq> rq_id r) \<and>
      (\<forall>t s f. \<forall>r' \<in> set (requests (run_history h q')). spendable t s f r' \<longrightarrow> rq_id r' \<noteq> rq_id r))"
proof -
  let ?used = "\<lambda>r. r\<lparr>rq_status := StatusUsed, rq_capability := [], rq_granted_until := 0,
                     rq_decided_at := now\<rparr>"
  obtain i where i: "find_index (spendable now subject fp) (requests q) = Some i"
    "q' = q\<lparr>requests := (requests q)[i := ?used (requests q ! i)]\<rparr>"
    using consume_once_True [OF assms(2)] by auto
  let ?r = "requests q ! i"
  have "settled_id (rq_id (?used ?r)) q'"
    using find_index_Some [OF i(1)] i(2) assms(1) by (intro settle_update [of "requests q" i]) auto
  then have "settled_id (rq_id ?r) (run_history h q')"
    if "\<forall>(io, t, opn) \<in> set h. \<not> issues_id (rq_id ?r) opn" for h
    using run_history_settled that by simp
  then show ?thesis
    using find_index_Some [OF i(1)] settled_no_grant settled_not_spendable
    by (intro bexI [of _ ?r]) (blast, simp)
qed

theorem single_use_is_spent_once_witness:
  "\<exists>q'. consume_once io_ok 3 ''/w/.byn'' ''fp'' ex_live = (Inr True, q') \<and>
     (\<exists>r \<in> set (requests ex_live). spendable 3 ''/w/.byn'' ''fp'' r \<and>
        (\<forall>r' \<in> set (requests q'). spendable 4 ''/w/.byn'' ''fp'' r' \<longrightarrow> rq_id r' \<noteq> rq_id r))"
proof -
  obtain q' where q': "consume_once io_ok 3 ''/w/.byn'' ''fp'' ex_live = (Inr True, q')"
    by (simp add: consume_once_def spendable_def ex_defs)
  have "distinct (map rq_id (requests ex_live))"
    by (simp add: ex_live_def)
  from single_use_is_spent_once [OF this q'] obtain r where r: "r \<in> set (requests ex_live)"
    "spendable 3 ''/w/.byn'' ''fp'' r"
    "\<forall>h. (\<forall>(io, t, opn) \<in> set h. \<not> issues_id (rq_id r) opn) \<longrightarrow>
      (\<forall>io' t s f u g. action_grant_request io' t s f u (run_history h q') = Inr (Some g) \<longrightarrow>
          rq_id g \<noteq> rq_id r) \<and>
      (\<forall>t s f. \<forall>r' \<in> set (requests (run_history h q')). spendable t s f r' \<longrightarrow> rq_id r' \<noteq> rq_id r)"
    by (elim bexE conjE)
  then show ?thesis using q' spec [OF r(3), of "[]"] by auto
qed

section \<open>Flooding and repeated refusals\<close>

text \<open>
  However often a caller asks, the queue never holds the same question (subject and
  fingerprint) twice while it is pending, and never more than ten pending requests for one
  subject.
\<close>

theorem queue_is_never_flooded:
  "distinct (pending_keys (requests (run_history h empty_queue))) \<and>
   pending_for subject (requests (run_history h empty_queue)) \<le> 10"
  using run_history_inv [OF queue_inv_empty, of h]
  by (simp add: queue_inv_def MaxPendingPerProject_def)

text \<open>
  The third consecutive refusal puts the question on hold: for the next thirty minutes
  \<open>Enqueue\<close> answers with the end of the hold and leaves the queue as it is, whoever asks.
\<close>

theorem third_denial_holds:
  assumes "find_index (\<lambda>r. rq_id r = rid) (requests q) = Some i"
    and "rq_status (expire_request now (requests q ! i)) = StatusPending"
    and "2 \<le> denial_count q (rq_fingerprint (requests q ! i))"
    and "load_error io = None" and "save_error io = None"
    and "load_error io' = None" and "t < now + 30 * minute"
    and "rq_fingerprint req = rq_fingerprint (requests q ! i)"
  shows "enqueue io' t newid req (snd (decide io now rid False via reason g anyone once q)) =
    (Inl (ErrOnHold (now + 30 * minute)), snd (decide io now rid False via reason g anyone once q))"
proof -
  have i: "i < length (requests q)" using find_index_Some [OF assms(1)] by simp
  have "denial_count (expire now q) fp = denial_count q fp" for fp
    by (simp add: denial_count_def)
  then have "map_get (holds (snd (decide io now rid False via reason g anyone once q)))
      (rq_fingerprint req) = Some (time_add now DenialHoldFor)"
    using assms i
    by (simp add: decide_def Let_def find_index_expire_id answered_def committing_def
        MaxDenialsBeforeHold_def)
  then show ?thesis
    using assms(6,7) by (simp add: enqueue_def Let_def DenialHoldFor_def time_add_def)
qed

theorem third_denial_holds_witness:
  "enqueue io_ok 100 ''b2'' ex_request (snd (decide io_ok 5 ''a1'' False ''cli'' [] 0 False False ex_pending)) =
    (Inl (ErrOnHold (5 + 30 * minute)), snd (decide io_ok 5 ''a1'' False ''cli'' [] 0 False False ex_pending))"
  by (rule third_denial_holds [of "''a1''" ex_pending 0])
     (simp_all add: ex_defs denial_count_def map_get_def)

text \<open>
  A hold that has been served starts the count again: a request accepted at or after its
  end leaves neither a hold nor any counted refusal for that question.
\<close>

theorem served_hold_resets:
  assumes "map_get (holds q) (rq_fingerprint req) = Some until" and "until \<le> now"
    and "enqueue io now newid req q = (Inr (r, created), q')"
  shows "map_get (holds q') (rq_fingerprint req) = None \<and> denial_count q' (rq_fingerprint req) = 0"
  using assms
  by (auto simp: enqueue_def enqueue_unheld_def Let_def committing_cases denial_count_def
      split: option.splits sum.splits if_splits)

definition ex_held :: queue where
  "ex_held = \<lparr>requests = [], holds = [(''fp'', 7)], denials = [(''fp'', 3)]\<rparr>"

theorem served_hold_resets_witness:
  "\<exists>r q'. enqueue io_ok 7 ''b2'' ex_request ex_held = (Inr (r, True), q') \<and> denial_count q' ''fp'' = 0"
proof -
  obtain r q' where e: "enqueue io_ok 7 ''b2'' ex_request ex_held = (Inr (r, True), q')"
    by (simp add: enqueue_def enqueue_unheld_def ex_held_def expire_def ex_defs map_get_def
        MaxPendingPerProject_def)
  have "map_get (holds ex_held) (rq_fingerprint ex_request) = Some 7"
    by (simp add: ex_held_def ex_request_def map_get_def)
  from served_hold_resets [OF this _ e] e show ?thesis
    by (auto simp: ex_request_def)
qed

section \<open>Decisions\<close>

text \<open>
  A decision is given once: deciding an open request records the answer, and deciding it
  again, whoever does and however, changes nothing on file. The second caller gets the recorded
  decision, except that refusing what was approved is an error that says so.
\<close>

theorem decision_is_final:
  assumes "find_index (\<lambda>r. rq_id r = rid) (requests q) = Some i"
    and "rq_status (expire_request now (requests q ! i)) = StatusPending"
    and "decide io now rid approve via reason g anyone once q = (Inr r, q')"
    and "load_error io' = None"
  shows "rq_status r = (if approve then StatusApproved else StatusDenied) \<and>
    decide io' t rid approve' via' reason' g' anyone' once' q' =
      (if approve \<and> \<not> approve' then Inl (ErrAlreadyDecided rid) else Inr (expire_request t r), q')"
proof -
  have i: "i < length (requests q)" "rq_id (requests q ! i) = rid"
    using find_index_Some [OF assms(1)] by auto
  have q': "requests q' = (map (expire_request now) (requests q))[i := r]"
    and st: "rq_status r = (if approve then StatusApproved else StatusDenied)"
    and rid: "rq_id r = rid"
    using assms(1-3) i
    by (auto simp: decide_def Let_def find_index_expire_id answered_def committing_cases
        split: option.splits if_splits)
  have "find_index (\<lambda>r. rq_id r = rid) (map (expire_request now) (requests q)) = Some i"
    using assms(1) by (simp add: find_index_expire_id)
  then have "find_index (\<lambda>r. rq_id r = rid) (requests q') = Some i"
    unfolding q' using rid by (intro find_index_update_same) auto
  then have "find_index (\<lambda>r. rq_id r = rid) (map (expire_request t) (requests q')) = Some i"
    by (simp add: find_index_expire_id)
  moreover have "requests q' ! i = r"
    using i q' by simp
  moreover have "i < length (requests q')" using i q' by simp
  ultimately show ?thesis
    using st assms(4)
    by (auto simp: decide_def Let_def answered_def expire_request_status)
qed

theorem decision_is_final_witness:
  "\<exists>r q'. decide io_ok 5 ''a1'' True ''cli'' [] 0 False False ex_pending = (Inr r, q') \<and>
     decide io_ok 6 ''a1'' False ''cli'' [] 0 False False q' = (Inl (ErrAlreadyDecided ''a1''), q')"
proof -
  obtain r q' where d: "decide io_ok 5 ''a1'' True ''cli'' [] 0 False False ex_pending = (Inr r, q')"
    by (simp add: decide_def expire_def ex_defs)
  have "find_index (\<lambda>r. rq_id r = ''a1'') (requests ex_pending) = Some 0"
    "rq_status (expire_request 5 (requests ex_pending ! 0)) = StatusPending"
    by (simp_all add: ex_defs)
  from decision_is_final [OF this d] d show ?thesis by force
qed

definition answers_to :: "string \<Rightarrow> string \<Rightarrow> request \<Rightarrow> bool" where
  "answers_to subject fp r \<longleftrightarrow> rq_subject r = subject \<and> rq_fingerprint r = fp \<and> answered r"

lemma latest_answer_spec:
  assumes "latest_answer subject fp l rs = Some r"
    and "\<And>x. l = Some x \<Longrightarrow> answers_to subject fp x"
  shows "(r \<in> set rs \<or> l = Some r) \<and> answers_to subject fp r \<and>
    (\<forall>r' \<in> set rs. answers_to subject fp r' \<longrightarrow> rq_decided_at r' \<le> rq_decided_at r) \<and>
    (\<forall>x. l = Some x \<longrightarrow> rq_decided_at x \<le> rq_decided_at r)"
  using assms
proof (induction rs arbitrary: l)
  case Nil
  then show ?case by simp
next
  case (Cons a rs)
  show ?case
  proof (cases "answers_to subject fp a")
    case False
    then have "latest_answer subject fp l rs = Some r"
      using Cons.prems(1) by (auto simp: answers_to_def split: if_splits)
    from Cons.IH [OF this Cons.prems(2)] False show ?thesis by auto
  next
    case True
    define l' where "l' = (case l of None \<Rightarrow> a
      | Some x \<Rightarrow> if rq_decided_at x < rq_decided_at a then a else x)"
    have "latest_answer subject fp (Some l') rs = Some r"
      using Cons.prems(1) True by (auto simp: answers_to_def l'_def split: if_splits option.splits)
    moreover have "answers_to subject fp l'"
      using True Cons.prems(2) by (auto simp: l'_def split: option.splits)
    ultimately have *: "(r \<in> set rs \<or> l' = r) \<and> answers_to subject fp r \<and>
      (\<forall>r' \<in> set rs. answers_to subject fp r' \<longrightarrow> rq_decided_at r' \<le> rq_decided_at r) \<and>
      rq_decided_at l' \<le> rq_decided_at r"
      using Cons.IH [of "Some l'"] by auto
    have "rq_decided_at a \<le> rq_decided_at l'" "\<forall>x. l = Some x \<longrightarrow> rq_decided_at x \<le> rq_decided_at l'"
      "l' = a \<or> l = Some l'"
      by (auto simp: l'_def split: option.splits)
    with * show ?thesis by fastforce
  qed
qed

lemma latest_answer_exists:
  "(\<exists>a \<in> set rs. answers_to subject fp a) \<or> l \<noteq> None \<Longrightarrow> latest_answer subject fp l rs \<noteq> None"
proof (induction rs arbitrary: l)
  case Nil
  then show ?case by simp
next
  case (Cons a rs)
  then show ?case
    by (cases "answers_to subject fp a"; cases l) (auto simp: answers_to_def)
qed

text \<open>
  \<open>LastDenial\<close> reports the last word: what it returns is a refusal of exactly this question
  that no later answer of any kind supersedes; and a refusal given later than every other
  answer to the question is what it returns.
\<close>

theorem last_denial_is_the_last_word:
  assumes "load_error io = None"
  shows "(last_denial io subject fp q = Some r \<longrightarrow>
      r \<in> set (requests q) \<and> rq_status r = StatusDenied \<and> answers_to subject fp r \<and>
      (\<forall>r' \<in> set (requests q). answers_to subject fp r' \<longrightarrow> rq_decided_at r' \<le> rq_decided_at r)) \<and>
    (d \<in> set (requests q) \<and> answers_to subject fp d \<and> rq_status d = StatusDenied \<and>
      (\<forall>r' \<in> set (requests q). answers_to subject fp r' \<and> r' \<noteq> d \<longrightarrow> rq_decided_at r' < rq_decided_at d) \<longrightarrow>
      last_denial io subject fp q = Some d)"
proof (intro conjI impI)
  assume "last_denial io subject fp q = Some r"
  then have "latest_answer subject fp None (requests q) = Some r" "rq_status r = StatusDenied"
    using assms by (auto simp: last_denial_def split: option.splits if_splits)
  then show "r \<in> set (requests q)" "rq_status r = StatusDenied" "answers_to subject fp r"
    "\<forall>r' \<in> set (requests q). answers_to subject fp r' \<longrightarrow> rq_decided_at r' \<le> rq_decided_at r"
    using latest_answer_spec [of subject fp None "requests q" r] by auto
next
  assume d: "d \<in> set (requests q) \<and> answers_to subject fp d \<and> rq_status d = StatusDenied \<and>
    (\<forall>r' \<in> set (requests q). answers_to subject fp r' \<and> r' \<noteq> d \<longrightarrow> rq_decided_at r' < rq_decided_at d)"
  then obtain l where l: "latest_answer subject fp None (requests q) = Some l"
    using latest_answer_exists by blast
  have "l = d"
    using latest_answer_spec [OF l] d by fastforce
  then show "last_denial io subject fp q = Some d"
    using l d assms by (simp add: last_denial_def)
qed

theorem last_denial_is_the_last_word_witness:
  "last_denial io_ok ''/w/.byn'' ''fp''
     \<lparr>requests = [deny_request 9 [] [] 1 ex_request, approve_request 3 [] [] 0 False False ex_request],
      holds = [], denials = []\<rparr> = Some (deny_request 9 [] [] 1 ex_request)"
  using last_denial_is_the_last_word [of io_ok "''/w/.byn''" "''fp''"
     "\<lparr>requests = [deny_request 9 [] [] 1 ex_request, approve_request 3 [] [] 0 False False ex_request],
      holds = [], denials = []\<rparr>" ex_request "deny_request 9 [] [] 1 ex_request"]
  by (simp add: answers_to_def ex_defs)

section \<open>A hold dropped by pruning\<close>

text \<open>
  \<open>Prune\<close> drops a served hold but not the count behind it, unlike \<open>Enqueue\<close>: the next single
  refusal of that question puts it on hold again.
\<close>

lemma prune_keeps_denial_count:
  assumes "prune io now keepFor q = (Inr n, q')"
  shows "denial_count q' fp = denial_count q fp"
  using assms by (auto simp: prune_def Let_def committing_cases denial_count_def split: option.splits)

end
