(* ===== verification/Trust_Policy.thy ===== *)
theory Trust_Policy
  imports Go_Prelude
begin

text \<open>
  What a \<open>.byn\<close> file asks for and how two such requests compare: \<open>internal/trust/policy.go\<close>.

  \<open>compare_policies\<close> follows \<open>ComparePolicies\<close> section by section; \<open>within\<close> is the abstract
  contract it has to meet, stated on what a policy lets a project do rather than on how the
  file is written. The byte string \<open>Hash\<close> feeds to SHA-256 is \<open>policy_preimage\<close>; the hash
  function itself is an argument of \<open>policy_hash\<close>.
\<close>

section \<open>Policies in normal form\<close>

record policy =
  pol_vault :: string
  pol_project :: string
  pol_env :: string
  pol_env_grants :: "string list"
  pol_actions :: "string list"
  pol_writable :: "string list"
  pol_aliases :: "string go_map"
  pol_auth :: "string go_map"

fun normalize_list_loop :: "string list \<Rightarrow> string list \<Rightarrow> string list" where
  "normalize_list_loop out [] = out"
| "normalize_list_loop out (x # xs) =
     (let s = trim_space x in
      if s = [] then normalize_list_loop out xs
      else if s \<in> set out then normalize_list_loop out xs
      else normalize_list_loop (out @ [s]) xs)"

definition normalize_list :: "string list \<Rightarrow> string list" where
  "normalize_list xs = sort (normalize_list_loop [] xs)"

fun normalize_map_loop :: "string go_map \<Rightarrow> string go_map \<Rightarrow> string go_map" where
  "normalize_map_loop out [] = out"
| "normalize_map_loop out ((k, v) # m) =
     (if trim_space k = [] then normalize_map_loop out m
      else normalize_map_loop (map_put out (trim_space k) (trim_space v)) m)"

definition normalize_map :: "string go_map \<Rightarrow> string go_map" where
  "normalize_map m = normalize_map_loop [] m"

definition normalize_policy :: "policy \<Rightarrow> policy" where
  "normalize_policy p = p\<lparr>
     pol_env_grants := normalize_list (pol_env_grants p),
     pol_actions := normalize_list (pol_actions p),
     pol_writable := normalize_list (pol_writable p),
     pol_aliases := normalize_map (pol_aliases p),
     pol_auth := normalize_map (pol_auth p)\<rparr>"

section \<open>Comparison\<close>

record widening =
  wd_kind :: string
  wd_detail :: string
  wd_name :: string
  wd_high_risk :: bool

record delta =
  dl_widenings :: "widening list"
  dl_narrowings :: "string list"
  dl_scope_changed :: bool

definition needs_approval :: "delta \<Rightarrow> bool" where
  "needs_approval d \<longleftrightarrow> 0 < length (dl_widenings d) \<or> dl_scope_changed d"

definition high_risk :: "delta \<Rightarrow> bool" where
  "high_risk d \<longleftrightarrow> list_ex wd_high_risk (dl_widenings d)"

definition scope_label :: "string \<Rightarrow> string \<Rightarrow> string \<Rightarrow> string" where
  "scope_label v p e = join ''/'' (map (\<lambda>s. if s = [] then ''-'' else s) [v, p, e])"

definition has_wildcard :: "string list \<Rightarrow> bool" where
  "has_wildcard xs \<longleftrightarrow> list_ex (\<lambda>s. s = ''*'') xs"

definition added :: "string list \<Rightarrow> string list \<Rightarrow> string list" where
  "added a b = filter (\<lambda>s. s \<notin> set a \<and> s \<noteq> ''*'') b"

definition removed :: "string list \<Rightarrow> string list \<Rightarrow> string list" where
  "removed a b = added b a"

definition auth_rank :: "string \<Rightarrow> nat option" where
  "auth_rank s = (if s = ''always'' then Some 3 else if s = [] then Some 2
     else if s = ''trusted'' then Some 1 else if s = ''none'' then Some 0 else None)"

definition is_auth_relaxation :: "string \<Rightarrow> string \<Rightarrow> bool" where
  "is_auth_relaxation was now =
     (let wasRank = (case auth_rank was of Some r \<Rightarrow> r | None \<Rightarrow> 2)
      in case auth_rank now of None \<Rightarrow> False | Some nowRank \<Rightarrow> nowRank < wasRank)"

definition sensitive_path_markers :: "string list" where
  "sensitive_path_markers =
     [''.ssh'', ''.aws'', ''.gnupg'', ''.config/gh'', ''.kube'', ''.docker'', ''.git'']"

definition trim_suffix_slash :: "string \<Rightarrow> string" where
  "trim_suffix_slash s = (if has_suffix s ''/'' then butlast s else s)"

definition is_sensitive_path :: "string \<Rightarrow> bool" where
  "is_sensitive_path p =
     (let clean = trim_suffix_slash (map (\<lambda>c. if c = CHR 0x5C then CHR ''/'' else c) p)
      in list_ex (\<lambda>marker. clean = marker \<or> has_suffix clean (''/'' @ marker) \<or>
           contains clean (''/'' @ marker @ ''/'')) sensitive_path_markers)"

text \<open>
  The texts of the widenings. Two of them hold a character outside ASCII, written as its UTF-8
  bytes. \<open>go_quote\<close> is \<open>%q\<close>; bytes from 128 on are kept, as it does for printable runes.
\<close>

definition em_dash :: string where
  "em_dash = map char_of [0xE2, 0x80, 0x94 :: nat]"

definition right_arrow :: string where
  "right_arrow = map char_of [0xE2, 0x86, 0x92 :: nat]"

definition quote_char :: "char \<Rightarrow> string" where
  "quote_char c = (let n = of_char c :: nat in
     if n = 34 \<or> n = 92 then [CHR 0x5C, c]
     else if n = 7 then [CHR 0x5C, CHR ''a''] else if n = 8 then [CHR 0x5C, CHR ''b'']
     else if n = 12 then [CHR 0x5C, CHR ''f''] else if n = 10 then [CHR 0x5C, CHR ''n'']
     else if n = 13 then [CHR 0x5C, CHR ''r''] else if n = 9 then [CHR 0x5C, CHR ''t'']
     else if n = 11 then [CHR 0x5C, CHR ''v'']
     else if n < 32 \<or> n = 127 then [CHR 0x5C, CHR ''x''] @ hex_encode [c]
     else [c])"

definition go_quote :: "string \<Rightarrow> string" where
  "go_quote s = [CHR 0x22] @ concat (map quote_char s) @ [CHR 0x22]"

definition widening_of :: "string \<Rightarrow> string \<Rightarrow> string \<Rightarrow> bool \<Rightarrow> widening" where
  "widening_of k d n h = \<lparr>wd_kind = k, wd_detail = d, wd_name = n, wd_high_risk = h\<rparr>"

definition scope_changed :: "policy \<Rightarrow> policy \<Rightarrow> bool" where
  "scope_changed g r \<longleftrightarrow>
     pol_vault g \<noteq> pol_vault r \<or> pol_project g \<noteq> pol_project r \<or> pol_env g \<noteq> pol_env r"

definition scope_widenings :: "policy \<Rightarrow> policy \<Rightarrow> widening list" where
  "scope_widenings g r =
     (if scope_changed g r then
        [widening_of ''scope'' (''scope moves from '' @ scope_label (pol_vault g) (pol_project g) (pol_env g)
           @ '' to '' @ scope_label (pol_vault r) (pol_project r) (pol_env r)) [] True]
      else [])"

definition env_widenings :: "policy \<Rightarrow> policy \<Rightarrow> widening list" where
  "env_widenings g r =
     (let gWild = has_wildcard (pol_env_grants g); rWild = has_wildcard (pol_env_grants r) in
      if rWild \<and> \<not> gWild then
        [widening_of ''env'' (''injects ALL scope variables via '' @ go_quote ''*'' @ '' '' @ em_dash
           @ '' including any added later'') [] True]
      else if \<not> rWild then
        concat (map (\<lambda>name. if gWild then [] else [widening_of ''env'' (''injects '' @ name) name False])
          (added (pol_env_grants g) (pol_env_grants r)))
      else [])"

definition action_widenings :: "policy \<Rightarrow> policy \<Rightarrow> widening list" where
  "action_widenings g r =
     (let gaWild = has_wildcard (pol_actions g); raWild = has_wildcard (pol_actions r) in
      if raWild \<and> \<not> gaWild then
        [widening_of ''action'' (''runs ANY command re-auth-free via '' @ go_quote ''*'') [] True]
      else if \<not> raWild then
        concat (map (\<lambda>a. if gaWild then [] else [widening_of ''action'' (''runs '' @ a) [] False])
          (added (pol_actions g) (pol_actions r)))
      else [])"

definition writable_widenings :: "policy \<Rightarrow> policy \<Rightarrow> widening list" where
  "writable_widenings g r =
     map (\<lambda>w. widening_of ''writable'' (''writes '' @ w) [] (is_sensitive_path w))
       (added (pol_writable g) (pol_writable r))"

definition alias_widenings :: "policy \<Rightarrow> policy \<Rightarrow> widening list" where
  "alias_widenings g r =
     concat (map (\<lambda>name. let now = map_at (pol_aliases r) name in
         case map_get (pol_aliases g) name of
           None \<Rightarrow> [widening_of ''alias''
             (''adds alias '' @ name @ '' '' @ right_arrow @ '' '' @ now) [] False]
         | Some was \<Rightarrow> if was \<noteq> now then [widening_of ''alias''
             (''alias '' @ name @ '' now runs '' @ now @ '' (was '' @ was @ '')'') [] False]
           else [])
       (sorted_keys (pol_aliases r)))"

definition auth_widenings :: "policy \<Rightarrow> policy \<Rightarrow> widening list" where
  "auth_widenings g r =
     concat (map (\<lambda>opn. let now = map_at (pol_auth r) opn; was = map_at (pol_auth g) opn in
         if map_get (pol_auth g) opn \<noteq> None \<and> was = now then []
         else if is_auth_relaxation was now then [widening_of ''auth''
           (''stops requiring authorization for '' @ go_quote opn @ '' ('' @ now @ '')'') [] True]
         else [])
       (sorted_keys (pol_auth r)))"

definition narrowings :: "policy \<Rightarrow> policy \<Rightarrow> string list" where
  "narrowings g r =
     map (\<lambda>n. ''no longer injects '' @ n) (removed (pol_env_grants g) (pol_env_grants r)) @
     map (\<lambda>a. ''no longer runs '' @ a) (removed (pol_actions g) (pol_actions r)) @
     map (\<lambda>w. ''no longer writes '' @ w) (removed (pol_writable g) (pol_writable r)) @
     map (\<lambda>n. ''drops alias '' @ n)
       (filter (\<lambda>n. map_get (pol_aliases r) n = None) (sorted_keys (pol_aliases g)))"

definition compare_policies :: "policy \<Rightarrow> policy \<Rightarrow> delta" where
  "compare_policies granted requested =
     (let g = normalize_policy granted; r = normalize_policy requested in
      \<lparr>dl_widenings = scope_widenings g r @ env_widenings g r @ action_widenings g r @
         writable_widenings g r @ alias_widenings g r @ auth_widenings g r,
       dl_narrowings = narrowings g r,
       dl_scope_changed = scope_changed g r\<rparr>)"

section \<open>Fingerprint\<close>

definition field_sep :: char where "field_sep = CHR 0x1F"
definition record_sep :: char where "record_sep = CHR 0x1E"

definition hash_field :: "string \<times> string \<Rightarrow> bytes" where
  "hash_field f = fst f @ [field_sep] @ snd f @ [record_sep]"

definition policy_fields :: "policy \<Rightarrow> (string \<times> string) list" where
  "policy_fields n =
     [(''vault'', pol_vault n), (''project'', pol_project n), (''env'', pol_env n)] @
     map (Pair ''env_grant'') (pol_env_grants n) @
     map (Pair ''action'') (pol_actions n) @
     map (Pair ''writable'') (pol_writable n) @
     map (\<lambda>k. (''alias:'' @ k, map_at (pol_aliases n) k)) (sorted_keys (pol_aliases n)) @
     map (\<lambda>k. (''auth:'' @ k, map_at (pol_auth n) k)) (sorted_keys (pol_auth n))"

definition policy_preimage :: "policy \<Rightarrow> bytes" where
  "policy_preimage p = concat (map hash_field (policy_fields (normalize_policy p)))"

definition policy_hash :: "(bytes \<Rightarrow> bytes) \<Rightarrow> policy \<Rightarrow> string" where
  "policy_hash sha256 p = hex_encode (sha256 (policy_preimage p))"

section \<open>The names a grant lets exec inject\<close>

text \<open>\<open>None\<close> is Go's nil: no restriction beyond the capability itself.\<close>

fun env_allowlist_loop :: "string list \<Rightarrow> string list \<Rightarrow> string list option" where
  "env_allowlist_loop out [] = Some out"
| "env_allowlist_loop out (n # ns) =
     (if n = ''*'' then None else env_allowlist_loop (out @ [n]) ns)"

definition env_allowlist :: "string list \<Rightarrow> string list option" where
  "env_allowlist grants = (if grants = [] then None else env_allowlist_loop [] grants)"

end
