(* ===== verification/Trust_Claims.thy ===== *)
theory Trust_Claims
  imports Trust_Policy
begin

text \<open>
  What \<open>ComparePolicies\<close> and \<open>Policy.Hash\<close> promise: the abstract contract \<open>within\<close> (the
  requested policy lets a project do nothing the granted one does not), the relation
  \<open>same_authority\<close> (two files ask for the same things), and the proofs that the comparison
  and the fingerprint implement them.
\<close>

section \<open>Normal forms\<close>

lemma set_normalize_list_loop:
  "set (normalize_list_loop out xs) = set out \<union> {trim_space x | x. x \<in> set xs \<and> trim_space x \<noteq> []}"
  by (induction out xs rule: normalize_list_loop.induct) (auto simp: Let_def)

lemma distinct_normalize_list_loop: "distinct out \<Longrightarrow> distinct (normalize_list_loop out xs)"
  by (induction out xs rule: normalize_list_loop.induct) (auto simp: Let_def)

lemma set_normalize_list:
  "set (normalize_list xs) = {trim_space x | x. x \<in> set xs \<and> trim_space x \<noteq> []}"
  by (simp add: normalize_list_def set_normalize_list_loop)

lemma normalize_list_canonical [simp]:
  "sorted (normalize_list xs)" "distinct (normalize_list xs)"
  by (simp_all add: normalize_list_def distinct_normalize_list_loop)

lemma normalize_list_eqI: "set (normalize_list a) = set (normalize_list b) \<Longrightarrow> normalize_list a = normalize_list b"
  by (rule sorted_distinct_set_unique) simp_all

lemma normalize_list_idem: "normalize_list (normalize_list xs) = normalize_list xs"
proof (rule normalize_list_eqI)
  have "trim_space y = y \<and> y \<noteq> []" if "y \<in> set (normalize_list xs)" for y
    using that by (auto simp: set_normalize_list)
  then show "set (normalize_list (normalize_list xs)) = set (normalize_list xs)"
    by (subst set_normalize_list) force
qed

lemma go_map_ok_normalize_map_loop: "go_map_ok out \<Longrightarrow> go_map_ok (normalize_map_loop out m)"
  by (induction out m rule: normalize_map_loop.induct) auto

lemma go_map_ok_normalize_map [simp]: "go_map_ok (normalize_map m)"
  by (simp add: normalize_map_def go_map_ok_normalize_map_loop)

section \<open>The abstract contract\<close>

definition may_inject :: "policy \<Rightarrow> string \<Rightarrow> bool" where
  "may_inject p n \<longleftrightarrow> ''*'' \<in> set (normalize_list (pol_env_grants p)) \<or> n \<in> set (normalize_list (pol_env_grants p))"

definition may_run :: "policy \<Rightarrow> string \<Rightarrow> bool" where
  "may_run p a \<longleftrightarrow> ''*'' \<in> set (normalize_list (pol_actions p)) \<or> a \<in> set (normalize_list (pol_actions p))"

definition may_write :: "policy \<Rightarrow> string \<Rightarrow> bool" where
  "may_write p w \<longleftrightarrow> w \<in> set (normalize_list (pol_writable p))"

definition alias_of :: "policy \<Rightarrow> string \<Rightarrow> string option" where
  "alias_of p n = map_get (normalize_map (pol_aliases p)) n"

definition auth_of :: "policy \<Rightarrow> string \<Rightarrow> string" where
  "auth_of p opn = map_at (normalize_map (pol_auth p)) opn"

definition auth_listed :: "policy \<Rightarrow> string \<Rightarrow> bool" where
  "auth_listed p opn \<longleftrightarrow> map_get (normalize_map (pol_auth p)) opn \<noteq> None"

definition same_scope :: "policy \<Rightarrow> policy \<Rightarrow> bool" where
  "same_scope p q \<longleftrightarrow> pol_vault p = pol_vault q \<and> pol_project p = pol_project q \<and> pol_env p = pol_env q"

definition within :: "policy \<Rightarrow> policy \<Rightarrow> bool" where
  "within g r \<longleftrightarrow> same_scope g r \<and>
     (\<forall>n. may_inject r n \<longrightarrow> may_inject g n) \<and>
     (\<forall>a. may_run r a \<longrightarrow> may_run g a) \<and>
     (\<forall>w. w \<noteq> ''*'' \<and> may_write r w \<longrightarrow> may_write g w) \<and>
     (\<forall>n c. alias_of r n = Some c \<longrightarrow> alias_of g n = Some c) \<and>
     (\<forall>opn. auth_listed r opn \<longrightarrow> \<not> is_auth_relaxation (auth_of g opn) (auth_of r opn))"

definition same_authority :: "policy \<Rightarrow> policy \<Rightarrow> bool" where
  "same_authority p q \<longleftrightarrow> same_scope p q \<and>
     set (normalize_list (pol_env_grants p)) = set (normalize_list (pol_env_grants q)) \<and>
     set (normalize_list (pol_actions p)) = set (normalize_list (pol_actions q)) \<and>
     set (normalize_list (pol_writable p)) = set (normalize_list (pol_writable q)) \<and>
     (\<forall>n. alias_of p n = alias_of q n) \<and>
     (\<forall>n. map_get (normalize_map (pol_auth p)) n = map_get (normalize_map (pol_auth q)) n)"

section \<open>Each section of the comparison\<close>

lemma set_added: "set (added a b) = {s. s \<in> set b \<and> s \<notin> set a \<and> s \<noteq> ''*''}"
  by (auto simp: added_def)

lemma added_Nil_iff: "added a b = [] \<longleftrightarrow> (\<forall>s \<in> set b. s \<noteq> ''*'' \<longrightarrow> s \<in> set a)"
  by (auto simp: added_def filter_empty_conv)

lemma has_wildcard_iff: "has_wildcard xs \<longleftrightarrow> ''*'' \<in> set xs"
  by (auto simp: has_wildcard_def list_ex_iff)

text \<open>
  The two lists with a wildcard share one argument: a list with \<open>*\<close> allows every name, and
  since a list is finite only another \<open>*\<close> covers it.
\<close>

lemma wildcard_cover:
  fixes a b :: "string list"
  shows "(if ''*'' \<in> set b \<and> ''*'' \<notin> set a then False
      else if ''*'' \<notin> set b \<and> ''*'' \<notin> set a then added a b = [] else True) \<longleftrightarrow>
    (\<forall>n. ''*'' \<in> set b \<or> n \<in> set b \<longrightarrow> ''*'' \<in> set a \<or> n \<in> set a)"
proof -
  obtain n :: string where n: "n \<notin> set a"
    using ex_new_if_finite [of "set a"] infinite_UNIV_listI by auto
  show ?thesis
    using n by (auto simp: added_Nil_iff)
qed

lemma env_widenings_Nil:
  "env_widenings (normalize_policy g) (normalize_policy r) = [] \<longleftrightarrow> (\<forall>n. may_inject r n \<longrightarrow> may_inject g n)"
  unfolding may_inject_def wildcard_cover [symmetric]
  by (simp add: env_widenings_def normalize_policy_def has_wildcard_iff Let_def)

lemma action_widenings_Nil:
  "action_widenings (normalize_policy g) (normalize_policy r) = [] \<longleftrightarrow> (\<forall>n. may_run r n \<longrightarrow> may_run g n)"
  unfolding may_run_def wildcard_cover [symmetric]
  by (simp add: action_widenings_def normalize_policy_def has_wildcard_iff Let_def)

lemma writable_widenings_Nil:
  "writable_widenings (normalize_policy g) (normalize_policy r) = [] \<longleftrightarrow>
     (\<forall>w. w \<noteq> ''*'' \<and> may_write r w \<longrightarrow> may_write g w)"
  by (auto simp: writable_widenings_def normalize_policy_def may_write_def added_Nil_iff)

lemma concat_map_Nil: "concat (map f xs) = [] \<longleftrightarrow> (\<forall>x \<in> set xs. f x = [])"
  by (auto simp: concat_eq_Nil_conv)

lemma normalize_policy_simps [simp]:
  "pol_aliases (normalize_policy p) = normalize_map (pol_aliases p)"
  "pol_auth (normalize_policy p) = normalize_map (pol_auth p)"
  "pol_env_grants (normalize_policy p) = normalize_list (pol_env_grants p)"
  "pol_actions (normalize_policy p) = normalize_list (pol_actions p)"
  "pol_writable (normalize_policy p) = normalize_list (pol_writable p)"
  "pol_vault (normalize_policy p) = pol_vault p"
  "pol_project (normalize_policy p) = pol_project p"
  "pol_env (normalize_policy p) = pol_env p"
  by (simp_all add: normalize_policy_def)

lemma alias_widenings_Nil:
  "alias_widenings (normalize_policy g) (normalize_policy r) = [] \<longleftrightarrow>
     (\<forall>n c. alias_of r n = Some c \<longrightarrow> alias_of g n = Some c)"
proof -
  let ?a = "normalize_map (pol_aliases g)" and ?b = "normalize_map (pol_aliases r)"
  have pointwise: "(case w of None \<Rightarrow> [x] | Some was \<Rightarrow> if was \<noteq> now then [y was] else []) = [] \<longleftrightarrow> w = Some now"
    for w now and x :: widening and y :: "string \<Rightarrow> widening"
    by (auto split: option.splits)
  have "alias_widenings (normalize_policy g) (normalize_policy r) = [] \<longleftrightarrow>
      (\<forall>n \<in> fst ` set ?b. map_get ?a n = Some (map_at ?b n))"
    unfolding alias_widenings_def Let_def concat_map_Nil pointwise by simp
  also have "\<dots> \<longleftrightarrow> (\<forall>n c. map_get ?b n = Some c \<longrightarrow> map_get ?a n = Some c)"
    unfolding Ball_def key_iff by (auto simp: map_at_def)
  finally show ?thesis by (simp add: alias_of_def)
qed

lemma auth_widenings_Nil:
  "auth_widenings (normalize_policy g) (normalize_policy r) = [] \<longleftrightarrow>
     (\<forall>opn. auth_listed r opn \<longrightarrow> \<not> is_auth_relaxation (auth_of g opn) (auth_of r opn))"
proof -
  have irrefl: "\<not> is_auth_relaxation a a" for a
    by (simp add: is_auth_relaxation_def split: option.splits)
  have pointwise: "(if P \<and> was = now then [] else if is_auth_relaxation was now then [x] else []) = [] \<longleftrightarrow>
      \<not> is_auth_relaxation was now" for P was now and x :: widening
    by (auto simp: irrefl)
  have listed: "auth_listed r opn \<longleftrightarrow> opn \<in> fst ` set (normalize_map (pol_auth r))" for opn
    unfolding auth_listed_def using map_get_None_iff [of "normalize_map (pol_auth r)" opn] by argo
  show ?thesis
    unfolding listed auth_of_def auth_widenings_def Let_def concat_map_Nil pointwise by auto
qed

lemma scope_widenings_Nil:
  "scope_widenings (normalize_policy g) (normalize_policy r) = [] \<longleftrightarrow> same_scope g r"
  "scope_changed (normalize_policy g) (normalize_policy r) \<longleftrightarrow> \<not> same_scope g r"
  by (auto simp: scope_widenings_def scope_changed_def same_scope_def normalize_policy_def)

lemmas widenings_Nil = scope_widenings_Nil env_widenings_Nil action_widenings_Nil
  writable_widenings_Nil alias_widenings_Nil auth_widenings_Nil


text \<open>
  The converse direction at a concrete change, and what the comparison lets pass: an
  \<open>[auth]\<close> line that is dropped. Removing \<open>exec = "always"\<close> lowers the bar of that operation
  to the vault's default, which the code's own table ranks below \<open>always\<close>, but the loop only
  visits the operations the requested file still lists.
\<close>

definition no_policy :: policy where
  "no_policy = \<lparr>pol_vault = ''v'', pol_project = ''p'', pol_env = ''e'', pol_env_grants = [],
     pol_actions = [], pol_writable = [], pol_aliases = [], pol_auth = []\<rparr>"

lemma trim_plain [simp]: "trim_space ''exec'' = ''exec''" "trim_space ''always'' = ''always''"
  by (simp_all add: trim_space_plain)

lemma dropped_auth_line_is_not_flagged:
  "is_auth_relaxation ''always'' (auth_of no_policy ''exec'')"
  "\<not> needs_approval (compare_policies (no_policy\<lparr>pol_auth := [(''exec'', ''always'')]\<rparr>) no_policy)"
  "dl_narrowings (compare_policies (no_policy\<lparr>pol_auth := [(''exec'', ''always'')]\<rparr>) no_policy) = []"
proof -
  show "is_auth_relaxation ''always'' (auth_of no_policy ''exec'')"
    by (simp add: is_auth_relaxation_def auth_of_def no_policy_def normalize_map_def map_at_def auth_rank_def)
  show "\<not> needs_approval (compare_policies (no_policy\<lparr>pol_auth := [(''exec'', ''always'')]\<rparr>) no_policy)"
    by (simp add: needs_approval_def compare_policies_def Let_def widenings_Nil no_policy_def
      same_scope_def may_inject_def may_run_def may_write_def alias_of_def auth_listed_def normalize_map_def normalize_list_def)
  show "dl_narrowings (compare_policies (no_policy\<lparr>pol_auth := [(''exec'', ''always'')]\<rparr>) no_policy) = []"
    by (simp add: no_policy_def compare_policies_def narrowings_def removed_def added_def Let_def
       normalize_list_def normalize_map_def sorted_keys_def)
qed

section \<open>Consequential changes\<close>

lemma ex_concat_map: "list_ex P (concat (map f xs)) \<longleftrightarrow> (\<exists>x \<in> set xs. list_ex P (f x))"
  by (auto simp: list_ex_iff)

lemma high_risk_sections:
  "list_ex wd_high_risk (scope_widenings (normalize_policy g) (normalize_policy r)) \<longleftrightarrow> \<not> same_scope g r"
  "list_ex wd_high_risk (env_widenings (normalize_policy g) (normalize_policy r)) \<longleftrightarrow>
     ''*'' \<in> set (normalize_list (pol_env_grants r)) \<and> ''*'' \<notin> set (normalize_list (pol_env_grants g))"
  "list_ex wd_high_risk (action_widenings (normalize_policy g) (normalize_policy r)) \<longleftrightarrow>
     ''*'' \<in> set (normalize_list (pol_actions r)) \<and> ''*'' \<notin> set (normalize_list (pol_actions g))"
  "list_ex wd_high_risk (writable_widenings (normalize_policy g) (normalize_policy r)) \<longleftrightarrow>
     (\<exists>w. w \<noteq> ''*'' \<and> may_write r w \<and> \<not> may_write g w \<and> is_sensitive_path w)"
  "\<not> list_ex wd_high_risk (alias_widenings (normalize_policy g) (normalize_policy r))"
  by (auto simp: scope_widenings_def scope_widenings_Nil env_widenings_def action_widenings_def
      writable_widenings_def alias_widenings_def widening_of_def has_wildcard_iff Let_def ex_concat_map
      list_ex_iff may_write_def set_added split: option.splits)

lemma high_risk_auth:
  "list_ex wd_high_risk (auth_widenings (normalize_policy g) (normalize_policy r)) \<longleftrightarrow>
     (\<exists>opn. auth_listed r opn \<and> is_auth_relaxation (auth_of g opn) (auth_of r opn))"
proof -
  have pointwise: "list_ex wd_high_risk (if P \<and> was = now then [] else if is_auth_relaxation was now
      then [widening_of k d n True] else []) \<longleftrightarrow> is_auth_relaxation was now" for P was now k d n
    by (auto simp: widening_of_def is_auth_relaxation_def split: option.splits)
  show ?thesis
    unfolding auth_widenings_def Let_def ex_concat_map pointwise auth_listed_def auth_of_def Bex_def
    by (simp add: key_iff)
qed

text \<open>
  A change is marked as consequential exactly when it moves the scope, introduces a
  wildcard for variables or commands, adds a writable directory that holds credentials, or
  relaxes the authorization of a listed operation; new names, commands and aliases are not.
\<close>

theorem high_risk_iff:
  "high_risk (compare_policies g r) \<longleftrightarrow> \<not> same_scope g r \<or>
     (''*'' \<in> set (normalize_list (pol_env_grants r)) \<and> ''*'' \<notin> set (normalize_list (pol_env_grants g))) \<or>
     (''*'' \<in> set (normalize_list (pol_actions r)) \<and> ''*'' \<notin> set (normalize_list (pol_actions g))) \<or>
     (\<exists>w. w \<noteq> ''*'' \<and> may_write r w \<and> \<not> may_write g w \<and> is_sensitive_path w) \<or>
     (\<exists>opn. auth_listed r opn \<and> is_auth_relaxation (auth_of g opn) (auth_of r opn))"
  by (simp add: high_risk_def compare_policies_def Let_def high_risk_sections high_risk_auth)

theorem high_risk_iff_witness:
  "high_risk (compare_policies no_policy (no_policy\<lparr>pol_env_grants := [''*'']\<rparr>))"
  unfolding high_risk_iff by (simp add: set_normalize_list no_policy_def trim_space_plain)

section \<open>The fingerprint\<close>

lemma same_authority_lists:
  assumes "same_authority p q"
  shows "normalize_list (pol_env_grants p) = normalize_list (pol_env_grants q)"
    "normalize_list (pol_actions p) = normalize_list (pol_actions q)"
    "normalize_list (pol_writable p) = normalize_list (pol_writable q)"
  using assms by (auto simp: same_authority_def intro: normalize_list_eqI)

lemma map_field_cong:
  assumes "go_map_ok m" "go_map_ok m'" "\<And>k. map_get m k = map_get m' k"
  shows "map (\<lambda>k. (l @ k, map_at m k)) (sorted_keys m) = map (\<lambda>k. (l @ k, map_at m' k)) (sorted_keys m')"
  using sorted_keys_cong [OF assms] assms(3) by (simp add: map_at_def)

lemma same_authority_fields:
  assumes "same_authority p q"
  shows "policy_fields (normalize_policy p) = policy_fields (normalize_policy q)"
proof -
  have "map (\<lambda>k. (''alias:'' @ k, map_at (normalize_map (pol_aliases p)) k)) (sorted_keys (normalize_map (pol_aliases p)))
      = map (\<lambda>k. (''alias:'' @ k, map_at (normalize_map (pol_aliases q)) k)) (sorted_keys (normalize_map (pol_aliases q)))"
    using assms by (intro map_field_cong) (auto simp: same_authority_def alias_of_def)
  moreover have "map (\<lambda>k. (''auth:'' @ k, map_at (normalize_map (pol_auth p)) k)) (sorted_keys (normalize_map (pol_auth p)))
      = map (\<lambda>k. (''auth:'' @ k, map_at (normalize_map (pol_auth q)) k)) (sorted_keys (normalize_map (pol_auth q)))"
    using assms by (intro map_field_cong) (auto simp: same_authority_def)
  ultimately show ?thesis
    using same_authority_lists [OF assms] assms
    by (simp only: policy_fields_def normalize_policy_simps same_authority_def same_scope_def)
qed

text \<open>
  Reading the records of a preimage back. A field that holds neither separator is delimited
  by them, so a preimage of such fields determines its records.
\<close>

definition clean :: "string \<Rightarrow> bool" where
  "clean s \<longleftrightarrow> field_sep \<notin> set s \<and> record_sep \<notin> set s"

lemma hash_field_parse:
  assumes "clean (fst f)" "clean (snd f)" "clean (fst g)" "clean (snd g)"
    and "hash_field f @ x = hash_field g @ y"
  shows "f = g \<and> x = y"
proof -
  have "split_first field_sep (hash_field f @ x) = Some (fst f, snd f @ record_sep # x)"
    "split_first field_sep (hash_field g @ y) = Some (fst g, snd g @ record_sep # y)"
    using assms(1-4) by (simp_all add: hash_field_def split_first_append clean_def)
  then have labels: "fst f = fst g" and rest: "snd f @ record_sep # x = snd g @ record_sep # y"
    using assms(5) by simp_all
  have "split_first record_sep (snd f @ record_sep # x) = Some (snd f, x)"
    "split_first record_sep (snd g @ record_sep # y) = Some (snd g, y)"
    using assms(1-4) by (simp_all add: split_first_append clean_def)
  then have "Some (snd f, x) = Some (snd g, y)" by (simp only: rest)
  with labels show ?thesis by (simp add: prod_eq_iff)
qed

lemma hash_fields_inj:
  assumes "\<forall>f \<in> set fs. clean (fst f) \<and> clean (snd f)" "\<forall>f \<in> set gs. clean (fst f) \<and> clean (snd f)"
    and "concat (map hash_field fs) = concat (map hash_field gs)"
  shows "fs = gs"
  using assms
proof (induction fs arbitrary: gs)
  case Nil
  then show ?case by (cases gs) (simp_all add: hash_field_def)
next
  case (Cons f fs)
  show ?case
  proof (cases gs)
    case Nil
    with Cons.prems show ?thesis by (simp add: hash_field_def)
  next
    case (Cons g gs')
    with Cons.prems hash_field_parse [of f g "concat (map hash_field fs)" "concat (map hash_field gs')"]
    have "f = g" "concat (map hash_field fs) = concat (map hash_field gs')" by auto
    with Cons.IH [of gs'] Cons.prems \<open>gs = g # gs'\<close> show ?thesis by auto
  qed
qed

definition clean_policy :: "policy \<Rightarrow> bool" where
  "clean_policy p \<longleftrightarrow> (\<forall>f \<in> set (policy_fields (normalize_policy p)). clean (fst f) \<and> clean (snd f))"

lemma filter_label: "filter (\<lambda>f. fst f = l) (map (Pair l') xs) = (if l = l' then map (Pair l') xs else [])"
  by (induction xs) auto

lemma filter_labelled: "\<not> prefix a b \<Longrightarrow> \<not> prefix b a \<Longrightarrow>
   filter (\<lambda>f. prefix a (fst f)) (map (\<lambda>k. (b @ k, v k)) ks) = []"
  by (auto simp: filter_empty_conv prefix_def append_eq_append_conv2)

lemma policy_fields_parts:
  "policy_fields n ! 0 = (''vault'', pol_vault n)"
  "policy_fields n ! 1 = (''project'', pol_project n)"
  "policy_fields n ! 2 = (''env'', pol_env n)"
  "map snd (filter (\<lambda>f. fst f = ''env_grant'') (policy_fields n)) = pol_env_grants n"
  "map snd (filter (\<lambda>f. fst f = ''action'') (policy_fields n)) = pol_actions n"
  "map snd (filter (\<lambda>f. fst f = ''writable'') (policy_fields n)) = pol_writable n"
  "filter (\<lambda>f. prefix ''alias:'' (fst f)) (policy_fields n) =
     map (\<lambda>k. (''alias:'' @ k, map_at (pol_aliases n) k)) (sorted_keys (pol_aliases n))"
  "filter (\<lambda>f. prefix ''auth:'' (fst f)) (policy_fields n) =
     map (\<lambda>k. (''auth:'' @ k, map_at (pol_auth n) k)) (sorted_keys (pol_auth n))"
  by (auto simp: policy_fields_def filter_label filter_map o_def nth_append)

lemma map_from_fields:
  assumes "go_map_ok m" "go_map_ok m'"
    and "map (\<lambda>k. (l @ k, map_at m k)) (sorted_keys m) = map (\<lambda>k. (l @ k, map_at m' k)) (sorted_keys m')"
  shows "map_get m k = map_get m' k"
proof -
  have "map ((@) l) (sorted_keys m) = map ((@) l) (sorted_keys m')"
    using arg_cong [OF assms(3), of "map fst"] by (simp add: o_def)
  then have "sorted_keys m = sorted_keys m'"
    by (rule map_injective) (simp add: inj_def)
  with assms(3) show ?thesis by (intro map_get_eqI) simp_all
qed

lemma same_preimage_same_authority:
  assumes "clean_policy p" "clean_policy q" and "policy_preimage p = policy_preimage q"
  shows "same_authority p q"
proof -
  let ?p = "normalize_policy p" and ?q = "normalize_policy q"
  have fields: "policy_fields ?p = policy_fields ?q"
    by (rule hash_fields_inj) (use assms in \<open>simp_all add: clean_policy_def policy_preimage_def\<close>)
  have "same_scope p q"
    using policy_fields_parts(1-3) [of ?p] policy_fields_parts(1-3) [of ?q] by (simp add: fields same_scope_def)
  moreover have "pol_env_grants ?p = pol_env_grants ?q" "pol_actions ?p = pol_actions ?q"
    "pol_writable ?p = pol_writable ?q"
    using policy_fields_parts(4-6) [of ?p] policy_fields_parts(4-6) [of ?q] unfolding fields by (simp_all only:)
  moreover have "map_get (pol_aliases ?p) k = map_get (pol_aliases ?q) k" for k
    by (rule map_from_fields [where l = "''alias:''"])
      (use policy_fields_parts(7) [of ?p] policy_fields_parts(7) [of ?q] in \<open>simp_all add: fields\<close>)
  moreover have "map_get (pol_auth ?p) k = map_get (pol_auth ?q) k" for k
    by (rule map_from_fields [where l = "''auth:''"])
      (use policy_fields_parts(8) [of ?p] policy_fields_parts(8) [of ?q] in \<open>simp_all add: fields\<close>)
  ultimately show ?thesis by (simp add: same_authority_def alias_of_def)
qed

text \<open>
  The fingerprint of a policy stands for what it asks for, not for how it is written: two
  files whose fields hold neither separator hash the same exactly when they ask for the same
  scope, variables, commands, directories, aliases and authorizations, unless SHA-256 collides
  on their two preimages.
\<close>

theorem policy_hash_identifies_authority:
  assumes "clean_policy p" and "clean_policy q"
  shows "(same_authority p q \<or> (policy_preimage p \<noteq> policy_preimage q \<and>
            sha256 (policy_preimage p) = sha256 (policy_preimage q))) \<longleftrightarrow>
         policy_hash sha256 p = policy_hash sha256 q"
proof -
  have "policy_preimage p = policy_preimage q \<longleftrightarrow> same_authority p q"
    using same_preimage_same_authority [OF assms] same_authority_fields [of p q]
    by (auto simp: policy_preimage_def)
  then show ?thesis
    unfolding policy_hash_def using hex_encode_inj [of "sha256 (policy_preimage p)" "sha256 (policy_preimage q)"] by auto
qed

definition listing_policy :: policy where
  "listing_policy = no_policy\<lparr>pol_env_grants := [''B'', ''A'', ''B''], pol_auth := [(''exec'', ''none'')]\<rparr>"

definition sorted_policy :: policy where
  "sorted_policy = no_policy\<lparr>pol_env_grants := [''A'', ''B''], pol_auth := [(''exec'', ''none'')]\<rparr>"

lemma trim_words: "trim_space ''A'' = ''A''" "trim_space ''B'' = ''B''" "trim_space ''none'' = ''none''"
  by (simp_all add: trim_space_plain)

lemma clean_examples: "clean_policy listing_policy" "clean_policy sorted_policy"
  by (simp_all add: clean_policy_def policy_fields_def listing_policy_def sorted_policy_def no_policy_def
      normalize_policy_def normalize_list_def normalize_map_def trim_words trim_space_plain map_put_def
      clean_def field_sep_def record_sep_def sorted_keys_def map_at_def map_get_def)

lemma same_authority_examples: "same_authority listing_policy sorted_policy"
  by (simp add: same_authority_def same_scope_def alias_of_def listing_policy_def sorted_policy_def no_policy_def
      set_normalize_list normalize_map_def trim_words trim_space_plain) auto

theorem policy_hash_identifies_authority_witness:
  "policy_hash (\<lambda>x. x) listing_policy = policy_hash (\<lambda>x. x) sorted_policy"
  using policy_hash_identifies_authority [OF clean_examples, of "\<lambda>x. x"] same_authority_examples by simp

text \<open>Without the side condition it fails: the separators are not escaped.\<close>

definition spoofed_value :: string where
  "spoofed_value = ''A'' @ [record_sep] @ ''env_grant'' @ [field_sep] @ ''B''"

lemma unclean_policies_share_a_preimage:
  "policy_preimage (no_policy\<lparr>pol_env_grants := [spoofed_value]\<rparr>) = policy_preimage (no_policy\<lparr>pol_env_grants := [''A'', ''B'']\<rparr>)"
  "\<not> same_authority (no_policy\<lparr>pol_env_grants := [spoofed_value]\<rparr>) (no_policy\<lparr>pol_env_grants := [''A'', ''B'']\<rparr>)"
proof -
  have trim: "trim_space spoofed_value = spoofed_value"
    by (rule trim_space_ends) (simp add: spoofed_value_def)
  have "spoofed_value \<noteq> []" "spoofed_value \<noteq> ''A''" "spoofed_value \<noteq> ''B''"
    by (simp_all add: spoofed_value_def)
  then show "policy_preimage (no_policy\<lparr>pol_env_grants := [spoofed_value]\<rparr>) = policy_preimage (no_policy\<lparr>pol_env_grants := [''A'', ''B'']\<rparr>)"
    using trim by (simp add: policy_preimage_def policy_fields_def normalize_policy_def normalize_list_def
        no_policy_def trim_words hash_field_def) (simp add: spoofed_value_def)
  have "spoofed_value \<noteq> []" "spoofed_value \<noteq> ''A''" "spoofed_value \<noteq> ''B''"
    by (simp_all add: spoofed_value_def)
  then show "\<not> same_authority (no_policy\<lparr>pol_env_grants := [spoofed_value]\<rparr>) (no_policy\<lparr>pol_env_grants := [''A'', ''B'']\<rparr>)"
    using trim by (auto simp: same_authority_def set_normalize_list no_policy_def trim_words)
qed

end
