(* ===== verification/Trust_Store.thy ===== *)
theory Trust_Store
  imports Trust_Policy
begin

text \<open>
  The trust store: \<open>internal/trust/trust.go\<close> (records, lookup, status), \<open>mac.go\<close> (the two MAC
  layers and what they commit to) and \<open>verify.go\<close> (the trust decision). The file is its decoded
  list of records; SHA-256 and HMAC-SHA-256 are arguments. A nil key is \<open>None\<close>.
\<close>

section \<open>Records\<close>

record trust_record =
  tr_path :: string
  tr_sha256 :: string
  tr_vault :: string
  tr_fp_mac :: string
  tr_vk_mac :: string
  tr_mtime :: int
  tr_granted_at :: int
  tr_snapshot :: string
  tr_actions :: "string list"
  tr_auth :: "string go_map"
  tr_aliases :: "string go_map"
  tr_scope_vault :: string
  tr_scope_project :: string
  tr_scope_env :: string
  tr_exec_capability :: bytes
  tr_env_grants :: "string list"

type_synonym trust_file = "trust_record list"
type_synonym hash_fn = "bytes \<Rightarrow> bytes"
type_synonym mac_fn = "bytes \<Rightarrow> bytes \<Rightarrow> bytes"

definition record_env_allowlist :: "trust_record \<Rightarrow> string list option" where
  "record_env_allowlist r = env_allowlist (tr_env_grants r)"

definition trust_hash :: "hash_fn \<Rightarrow> bytes \<Rightarrow> string" where
  "trust_hash sha256 body = hex_encode (sha256 body)"

section \<open>The file\<close>

definition load_store :: "store_io \<Rightarrow> trust_file \<Rightarrow> string + trust_file" where
  "load_store io f = (case load_error io of Some e \<Rightarrow> Inl e | None \<Rightarrow> Inr f)"

definition record_at :: "trust_file \<Rightarrow> string \<Rightarrow> trust_record option" where
  "record_at f path = List.find (\<lambda>r. tr_path r = path) f"

definition lookup_record :: "store_io \<Rightarrow> trust_file \<Rightarrow> string \<Rightarrow> string + trust_record option" where
  "lookup_record io f path = (case load_store io f of Inl e \<Rightarrow> Inl e | Inr s \<Rightarrow> Inr (record_at s path))"

definition put_record :: "store_io \<Rightarrow> trust_record \<Rightarrow> trust_file \<Rightarrow> (string + bool) \<times> trust_file" where
  "put_record io rec f =
     (case load_store io f of
        Inl e \<Rightarrow> (Inl e, f)
      | Inr s \<Rightarrow>
          (case find_index (\<lambda>r. tr_path r = tr_path rec) s of
             Some i \<Rightarrow> committing (\<lambda>e. e) io f (s[i := rec]) (tr_sha256 (s ! i) \<noteq> tr_sha256 rec)
           | None \<Rightarrow> committing (\<lambda>e. e) io f (s @ [rec]) False))"

definition remove_record :: "store_io \<Rightarrow> string \<Rightarrow> trust_file \<Rightarrow> (string + bool) \<times> trust_file" where
  "remove_record io path f =
     (case load_store io f of
        Inl e \<Rightarrow> (Inl e, f)
      | Inr s \<Rightarrow>
          let out = filter (\<lambda>r. tr_path r \<noteq> path) s; removed = (\<exists>r \<in> set s. tr_path r = path) in
          if \<not> removed then (Inr False, f) else committing (\<lambda>e. e) io f out True)"

datatype stat = StatusUntrusted | StatusTrusted | StatusChanged

fun stat_string :: "stat \<Rightarrow> string" where
  "stat_string StatusTrusted = ''trusted''"
| "stat_string StatusChanged = ''changed''"
| "stat_string StatusUntrusted = ''untrusted''"

definition trust_status :: "store_io \<Rightarrow> trust_file \<Rightarrow> string \<Rightarrow> string \<Rightarrow> string + stat" where
  "trust_status io f path hash =
     (case load_store io f of
        Inl e \<Rightarrow> Inl e
      | Inr s \<Rightarrow> (case record_at s path of
          Some r \<Rightarrow> Inr (if tr_sha256 r = hash then StatusTrusted else StatusChanged)
        | None \<Rightarrow> Inr StatusUntrusted))"

section \<open>The MAC layers\<close>

definition fpMACDomainV1 :: string where "fpMACDomainV1 = ''byn:trust-fp-mac:v1''"
definition vkMACDomainV1 :: string where "vkMACDomainV1 = ''byn:trust-vk-mac:v1''"
definition fpMACDomainV2 :: string where "fpMACDomainV2 = ''byn:trust-fp-mac:v2''"
definition vkMACDomainV2 :: string where "vkMACDomainV2 = ''byn:trust-vk-mac:v2''"

definition write_field :: "string \<Rightarrow> bytes" where
  "write_field f = be32 (length f) @ f"

definition write_fields :: "string list \<Rightarrow> bytes" where
  "write_fields fs = concat (map write_field fs)"

definition mac_preimage :: "string \<Rightarrow> string \<Rightarrow> string \<Rightarrow> bytes" where
  "mac_preimage domain path sha = write_fields [domain, path, sha]"

definition write_pairs :: "string go_map \<Rightarrow> bytes" where
  "write_pairs m = be32 (length m) @
     concat (map (\<lambda>k. write_field k @ write_field (map_at m k)) (sorted_keys m))"

definition optional_fields :: "trust_record \<Rightarrow> string list" where
  "optional_fields r =
     (if 0 < length (tr_exec_capability r) then [tr_exec_capability r] else []) @
     (if tr_granted_at r \<noteq> 0 then [int_dec (tr_granted_at r)] else [])"

definition mac_preimage_v2 :: "hash_fn \<Rightarrow> string \<Rightarrow> string \<Rightarrow> string \<Rightarrow> trust_record \<Rightarrow> bytes" where
  "mac_preimage_v2 sha256 domain path sha r =
     write_field domain @ write_field path @ write_field sha @ write_field (tr_vault r) @
     write_field (int_dec (tr_mtime r)) @ write_field (hex_encode (sha256 (tr_snapshot r))) @
     be32 (length (tr_actions r)) @ write_fields (tr_actions r) @
     write_pairs (tr_auth r) @
     write_field (tr_scope_vault r) @ write_field (tr_scope_project r) @ write_field (tr_scope_env r) @
     write_pairs (tr_aliases r) @
     write_fields (optional_fields r)"

definition is_v2 :: "trust_record \<Rightarrow> bool" where
  "is_v2 r \<longleftrightarrow> tr_mtime r \<noteq> 0 \<or> tr_snapshot r \<noteq> []"

definition compute_mac :: "mac_fn \<Rightarrow> bytes \<Rightarrow> string \<Rightarrow> string \<Rightarrow> string \<Rightarrow> string" where
  "compute_mac hmac key domain path sha = hex_encode (hmac key (mac_preimage domain path sha))"

definition compute_mac_v2 ::
  "hash_fn \<Rightarrow> mac_fn \<Rightarrow> bytes \<Rightarrow> string \<Rightarrow> string \<Rightarrow> string \<Rightarrow> trust_record \<Rightarrow> string" where
  "compute_mac_v2 sha256 hmac key domain path sha r =
     hex_encode (hmac key (mac_preimage_v2 sha256 domain path sha r))"

definition set_macs ::
  "hash_fn \<Rightarrow> mac_fn \<Rightarrow> bytes option \<Rightarrow> bytes option \<Rightarrow> trust_record \<Rightarrow> trust_record" where
  "set_macs sha256 hmac fpKey vkKey r =
     (if is_v2 r then
        let r1 = (case fpKey of None \<Rightarrow> r
              | Some k \<Rightarrow> r\<lparr>tr_fp_mac := compute_mac_v2 sha256 hmac k fpMACDomainV2 (tr_path r) (tr_sha256 r) r\<rparr>)
        in (case vkKey of None \<Rightarrow> r1
              | Some k \<Rightarrow> r1\<lparr>tr_vk_mac := compute_mac_v2 sha256 hmac k vkMACDomainV2 (tr_path r1) (tr_sha256 r1) r1\<rparr>)
      else
        let r1 = (case fpKey of None \<Rightarrow> r
              | Some k \<Rightarrow> r\<lparr>tr_fp_mac := compute_mac hmac k fpMACDomainV1 (tr_path r) (tr_sha256 r)\<rparr>)
        in (case vkKey of None \<Rightarrow> r1
              | Some k \<Rightarrow> r1\<lparr>tr_vk_mac := compute_mac hmac k vkMACDomainV1 (tr_path r1) (tr_sha256 r1)\<rparr>))"

definition verify_mac :: "mac_fn \<Rightarrow> string \<Rightarrow> bytes \<Rightarrow> string \<Rightarrow> string \<Rightarrow> string \<Rightarrow> bool" where
  "verify_mac hmac tag key domain path sha \<longleftrightarrow>
     (if tag = [] \<or> length key = 0 then False else compute_mac hmac key domain path sha = tag)"

definition verify_mac_v2 ::
  "hash_fn \<Rightarrow> mac_fn \<Rightarrow> string \<Rightarrow> bytes \<Rightarrow> string \<Rightarrow> string \<Rightarrow> string \<Rightarrow> trust_record \<Rightarrow> bool" where
  "verify_mac_v2 sha256 hmac tag key domain path sha r \<longleftrightarrow>
     (if tag = [] \<or> length key = 0 then False else compute_mac_v2 sha256 hmac key domain path sha r = tag)"

definition verify_fp_mac :: "hash_fn \<Rightarrow> mac_fn \<Rightarrow> trust_record \<Rightarrow> bytes \<Rightarrow> bool" where
  "verify_fp_mac sha256 hmac r key \<longleftrightarrow>
     (if is_v2 r then verify_mac_v2 sha256 hmac (tr_fp_mac r) key fpMACDomainV2 (tr_path r) (tr_sha256 r) r
      else verify_mac hmac (tr_fp_mac r) key fpMACDomainV1 (tr_path r) (tr_sha256 r))"

definition verify_vk_mac :: "hash_fn \<Rightarrow> mac_fn \<Rightarrow> trust_record \<Rightarrow> bytes \<Rightarrow> bool" where
  "verify_vk_mac sha256 hmac r key \<longleftrightarrow>
     (if is_v2 r then verify_mac_v2 sha256 hmac (tr_vk_mac r) key vkMACDomainV2 (tr_path r) (tr_sha256 r) r
      else verify_mac hmac (tr_vk_mac r) key vkMACDomainV1 (tr_path r) (tr_sha256 r))"

section \<open>The trust decision\<close>

datatype verify_status = VerifyTrusted | VerifyChanged | VerifyUntrusted | VerifyStale | VerifyTampered

definition verify_record ::
  "hash_fn \<Rightarrow> mac_fn \<Rightarrow> string \<Rightarrow> int \<Rightarrow> bytes option \<Rightarrow> bytes option \<Rightarrow> trust_record \<Rightarrow> verify_status \<times> bool" where
  "verify_record sha256 hmac currentHash currentMTime fpKey vkKey rec =
     (let fpBad = (case fpKey of None \<Rightarrow> False | Some k \<Rightarrow> \<not> verify_fp_mac sha256 hmac rec k);
          vkBad = (case vkKey of None \<Rightarrow> False | Some k \<Rightarrow> \<not> verify_vk_mac sha256 hmac rec k) in
      if tr_sha256 rec \<noteq> currentHash then (VerifyChanged, False)
      else if is_v2 rec \<and> tr_mtime rec \<noteq> currentMTime then (VerifyChanged, False)
      else if tr_fp_mac rec = [] \<and> tr_vk_mac rec = [] then (VerifyStale, False)
      else if \<not> is_v2 rec then
        (if fpBad then (VerifyTampered, False)
         else if vkBad then (VerifyTampered, True)
         else (VerifyStale, vkKey \<noteq> None))
      else if fpBad then (VerifyTampered, False)
      else if vkBad then (VerifyTampered, True)
      else (VerifyTrusted, vkKey \<noteq> None))"

definition verify ::
  "hash_fn \<Rightarrow> mac_fn \<Rightarrow> store_io \<Rightarrow> trust_file \<Rightarrow> string \<Rightarrow> string \<Rightarrow> int \<Rightarrow> bytes option \<Rightarrow> bytes option \<Rightarrow>
   string + (verify_status \<times> bool \<times> trust_record option)" where
  "verify sha256 hmac io f path currentHash currentMTime fpKey vkKey =
     (case lookup_record io f path of
        Inl e \<Rightarrow> Inl e
      | Inr None \<Rightarrow> Inr (VerifyUntrusted, False, None)
      | Inr (Some rec) \<Rightarrow>
          (case verify_record sha256 hmac currentHash currentMTime fpKey vkKey rec of
             (st, chk) \<Rightarrow> Inr (st, chk, Some rec)))"

end
