(* ===== verification/Keyed_Store.thy ===== *)
theory Keyed_Store
  imports Go_Prelude
begin

text \<open>
  The interface that the stores of the program share: a lookup by key, an insertion that
  replaces what was there, and a removal, each touching one key only. \<open>ok k v\<close> says that the
  value may be stored under the key (a trust record is stored under its own path). The laws
  are the locale's assumptions; what a sequence of writes leaves behind is proved once.
\<close>

locale keyed_store =
  fixes get :: "'s \<Rightarrow> 'k \<Rightarrow> 'v option"
    and put :: "'k \<Rightarrow> 'v \<Rightarrow> 's \<Rightarrow> 's"
    and del :: "'k \<Rightarrow> 's \<Rightarrow> 's"
    and ok :: "'k \<Rightarrow> 'v \<Rightarrow> bool"
  assumes get_put: "ok k v \<Longrightarrow> get (put k v s) k' = (if k' = k then Some v else get s k')"
    and get_del: "get (del k s) k' = (if k' = k then None else get s k')"
begin

definition apply_write :: "'k \<times> 'v option \<Rightarrow> 's \<Rightarrow> 's" where
  "apply_write w s = (case snd w of Some v \<Rightarrow> put (fst w) v s | None \<Rightarrow> del (fst w) s)"

definition writable :: "('k \<times> 'v option) list \<Rightarrow> bool" where
  "writable ws \<longleftrightarrow> (\<forall>k v. (k, Some v) \<in> set ws \<longrightarrow> ok k v)"

lemma get_apply_write: "writable [w] \<Longrightarrow> get (apply_write w s) k = (if k = fst w then snd w else get s k)"
  by (cases w) (auto simp: apply_write_def writable_def get_put get_del split: option.splits)

lemma untouched: "writable ws \<Longrightarrow> k \<notin> fst ` set ws \<Longrightarrow> get (fold apply_write ws s) k = get s k"
proof (induction ws arbitrary: s)
  case Nil
  then show ?case by simp
next
  case (Cons w ws)
  then have "writable [w]" "writable ws" by (auto simp: writable_def)
  with Cons show ?case by (simp add: get_apply_write)
qed

lemma last_write_wins:
  assumes "writable (ws @ [(k, x)] @ ws')" and "k \<notin> fst ` set ws'"
  shows "get (fold apply_write (ws @ [(k, x)] @ ws') s) k = x"
proof -
  have "writable ws'" "writable [(k, x)]" using assms(1) by (auto simp: writable_def)
  then show ?thesis using assms(2) by (simp add: untouched get_apply_write)
qed

lemma stays_absent:
  "writable ws \<Longrightarrow> get s k = None \<Longrightarrow> (\<And>x. (k, x) \<in> set ws \<Longrightarrow> x = None) \<Longrightarrow> get (fold apply_write ws s) k = None"
proof (induction ws arbitrary: s)
  case Nil
  then show ?case by simp
next
  case (Cons w ws)
  then have "writable [w]" "writable ws" by (auto simp: writable_def)
  with Cons show ?case by (cases w) (auto simp: get_apply_write)
qed

lemma writes_commute:
  assumes "writable [a, b]" and "fst a \<noteq> fst b"
  shows "get (apply_write a (apply_write b s)) k = get (apply_write b (apply_write a s)) k"
proof -
  have "writable [a]" "writable [b]" using assms(1) by (auto simp: writable_def)
  then show ?thesis using assms(2) by (simp add: get_apply_write)
qed

end

interpretation go: keyed_store map_get "\<lambda>k v m. map_put m k v" "\<lambda>k m. map_del m k" "\<lambda>_ _. True"
  by unfold_locales simp_all

end
