(* ===== verification/Trust_Store_Claims.thy ===== *)
theory Trust_Store_Claims
  imports Trust_Store Keyed_Store
begin

text \<open>
  What the trust store guarantees: lookups after writes, the encoding under the MACs parses
  back, a record the daemon did not stamp is never trusted, and a trusted file is the one that
  was granted.
\<close>

section \<open>Length-prefixed fields\<close>

definition short :: "string \<Rightarrow> bool" where
  "short f \<longleftrightarrow> length f < 4294967296"

lemma write_field_inj:
  assumes "short f" "short g" "write_field f @ x = write_field g @ y"
  shows "f = g \<and> x = y"
proof -
  have "be32 (length f) = be32 (length g)" and rest: "f @ x = g @ y"
    using assms(3) by (simp_all add: write_field_def append_eq_append_conv)
  then have "length f = length g"
    using be32_inj assms(1,2) by (simp add: short_def)
  with rest show ?thesis by simp
qed

lemma write_fields_Cons [simp]: "write_fields (f # fs) = write_field f @ write_fields fs"
  by (simp add: write_fields_def)

lemma write_fields_Nil [simp]: "write_fields [] = []"
  by (simp add: write_fields_def)

lemma write_field_nonempty [simp]: "write_field f \<noteq> []"
  by (simp add: write_field_def be32_def)

lemma write_fields_prefix_inj:
  "length fs = length gs \<Longrightarrow> \<forall>f \<in> set fs. short f \<Longrightarrow> \<forall>g \<in> set gs. short g \<Longrightarrow>
   write_fields fs @ x = write_fields gs @ y \<Longrightarrow> fs = gs \<and> x = y"
proof (induction fs gs rule: list_induct2)
  case Nil
  then show ?case by simp
next
  case (Cons f fs g gs)
  from write_field_inj [of f g "write_fields fs @ x" "write_fields gs @ y"] Cons.prems
  show ?case using Cons.IH by simp
qed

lemma write_fields_inj:
  "\<forall>f \<in> set fs. short f \<Longrightarrow> \<forall>g \<in> set gs. short g \<Longrightarrow> write_fields fs = write_fields gs \<Longrightarrow> fs = gs"
proof (induction fs arbitrary: gs)
  case Nil
  then show ?case by (cases gs) simp_all
next
  case (Cons f fs)
  then obtain g gs' where gs: "gs = g # gs'" by (cases gs) simp_all
  from write_field_inj [of f g "write_fields fs" "write_fields gs'"] Cons.prems
  show ?case using Cons.IH [of gs'] by (simp add: gs)
qed

section \<open>What a MAC commits to\<close>

definition pair_fields :: "string go_map \<Rightarrow> string list" where
  "pair_fields m = concat (map (\<lambda>k. [k, map_at m k]) (sorted_keys m))"

lemma write_pairs_fields: "write_pairs m = be32 (length m) @ write_fields (pair_fields m)"
proof -
  have "concat (map (\<lambda>k. write_field k @ write_field (v k)) ks) = write_fields (concat (map (\<lambda>k. [k, v k]) ks))"
    for v and ks :: "string list"
    by (induction ks) (simp_all add: write_fields_def)
  then show ?thesis by (simp add: write_pairs_def pair_fields_def)
qed

lemma pairs_inj: "concat (map (\<lambda>k. [k, v k]) ks) = concat (map (\<lambda>k. [k, w k]) ls) \<Longrightarrow>
   ks = ls \<and> (\<forall>k \<in> set ks. v k = w k)"
  by (induction ks arbitrary: ls; case_tac ls) auto

lemma pair_fields_inj:
  assumes "go_map_ok m" "go_map_ok m'" "pair_fields m = pair_fields m'"
  shows "map_get m k = map_get m' k"
  using pairs_inj [OF assms(3) [unfolded pair_fields_def]] map_get_eqI by blast

lemma length_pair_fields: "length m = length m' \<Longrightarrow> length (pair_fields m) = length (pair_fields m')"
  by (simp add: pair_fields_def length_concat o_def sum_list_triv)

definition short_map :: "string go_map \<Rightarrow> bool" where
  "short_map m \<longleftrightarrow> go_map_ok m \<and> length m < 4294967296 \<and> (\<forall>f \<in> set (pair_fields m). short f)"

lemma write_pairs_inj:
  assumes "short_map m" "short_map m'" "write_pairs m @ x = write_pairs m' @ y"
  shows "(\<forall>k. map_get m k = map_get m' k) \<and> x = y"
proof -
  have "be32 (length m) = be32 (length m')"
    and rest: "write_fields (pair_fields m) @ x = write_fields (pair_fields m') @ y"
    using assms(3) by (simp_all add: write_pairs_fields append_eq_append_conv)
  then have "length m = length m'"
    using be32_inj assms(1,2) by (simp add: short_map_def)
  then have "pair_fields m = pair_fields m' \<and> x = y"
    using write_fields_prefix_inj [OF length_pair_fields _ _ rest] assms(1,2) by (simp add: short_map_def)
  then show ?thesis using pair_fields_inj assms(1,2) by (simp add: short_map_def)
qed

definition encodable :: "hash_fn \<Rightarrow> trust_record \<Rightarrow> bool" where
  "encodable sha256 r \<longleftrightarrow> short (tr_path r) \<and> short (tr_sha256 r) \<and> short (tr_vault r) \<and>
     short (int_dec (tr_mtime r)) \<and> short (hex_encode (sha256 (tr_snapshot r))) \<and>
     length (tr_actions r) < 4294967296 \<and> (\<forall>a \<in> set (tr_actions r). short a) \<and>
     short_map (tr_auth r) \<and> short (tr_scope_vault r) \<and> short (tr_scope_project r) \<and>
     short (tr_scope_env r) \<and> short_map (tr_aliases r) \<and> (\<forall>f \<in> set (optional_fields r). short f)"

definition same_grant :: "hash_fn \<Rightarrow> trust_record \<Rightarrow> trust_record \<Rightarrow> bool" where
  "same_grant sha256 r s \<longleftrightarrow> tr_path r = tr_path s \<and> tr_sha256 r = tr_sha256 s \<and> tr_vault r = tr_vault s \<and>
     tr_mtime r = tr_mtime s \<and> sha256 (tr_snapshot r) = sha256 (tr_snapshot s) \<and>
     tr_actions r = tr_actions s \<and> (\<forall>k. map_get (tr_auth r) k = map_get (tr_auth s) k) \<and>
     tr_scope_vault r = tr_scope_vault s \<and> tr_scope_project r = tr_scope_project s \<and>
     tr_scope_env r = tr_scope_env s \<and> (\<forall>k. map_get (tr_aliases r) k = map_get (tr_aliases s) k) \<and>
     optional_fields r = optional_fields s"

lemma mac_preimage_v2_inj:
  assumes "encodable sha256 r" "encodable sha256 s" "short d"
    and eq: "mac_preimage_v2 sha256 d (tr_path r) (tr_sha256 r) r = mac_preimage_v2 sha256 d (tr_path s) (tr_sha256 s) s"
  shows "same_grant sha256 r s"
proof -
  note e = assms(1,2) [unfolded encodable_def]
  have "tr_path r = tr_path s \<and> tr_sha256 r = tr_sha256 s \<and> tr_vault r = tr_vault s \<and>
      int_dec (tr_mtime r) = int_dec (tr_mtime s) \<and>
      hex_encode (sha256 (tr_snapshot r)) = hex_encode (sha256 (tr_snapshot s)) \<and>
      be32 (length (tr_actions r)) @ write_fields (tr_actions r) @ write_pairs (tr_auth r) @
        write_field (tr_scope_vault r) @ write_field (tr_scope_project r) @ write_field (tr_scope_env r) @
        write_pairs (tr_aliases r) @ write_fields (optional_fields r) =
      be32 (length (tr_actions s)) @ write_fields (tr_actions s) @ write_pairs (tr_auth s) @
        write_field (tr_scope_vault s) @ write_field (tr_scope_project s) @ write_field (tr_scope_env s) @
        write_pairs (tr_aliases s) @ write_fields (optional_fields s)"
    using eq e unfolding mac_preimage_v2_def by (auto dest!: write_field_inj [rotated 2])
  then have core: "tr_path r = tr_path s" "tr_sha256 r = tr_sha256 s" "tr_vault r = tr_vault s"
      "tr_mtime r = tr_mtime s" "sha256 (tr_snapshot r) = sha256 (tr_snapshot s)"
    and counts: "be32 (length (tr_actions r)) = be32 (length (tr_actions s))"
    and rest: "write_fields (tr_actions r) @ write_pairs (tr_auth r) @
        write_field (tr_scope_vault r) @ write_field (tr_scope_project r) @ write_field (tr_scope_env r) @
        write_pairs (tr_aliases r) @ write_fields (optional_fields r) =
      write_fields (tr_actions s) @ write_pairs (tr_auth s) @
        write_field (tr_scope_vault s) @ write_field (tr_scope_project s) @ write_field (tr_scope_env s) @
        write_pairs (tr_aliases s) @ write_fields (optional_fields s)"
    by (auto simp: append_eq_append_conv dest: int_dec_inj hex_encode_inj)
  have "length (tr_actions r) = length (tr_actions s)"
    using be32_inj counts e by blast
  from write_fields_prefix_inj [OF this _ _ rest] e
  have acts: "tr_actions r = tr_actions s"
    and rest2: "write_pairs (tr_auth r) @
        write_field (tr_scope_vault r) @ write_field (tr_scope_project r) @ write_field (tr_scope_env r) @
        write_pairs (tr_aliases r) @ write_fields (optional_fields r) =
      write_pairs (tr_auth s) @
        write_field (tr_scope_vault s) @ write_field (tr_scope_project s) @ write_field (tr_scope_env s) @
        write_pairs (tr_aliases s) @ write_fields (optional_fields s)"
    by auto
  from write_pairs_inj [OF _ _ rest2] e
  have auth: "\<forall>k. map_get (tr_auth r) k = map_get (tr_auth s) k"
    and rest3: "write_field (tr_scope_vault r) @ write_field (tr_scope_project r) @ write_field (tr_scope_env r) @
        write_pairs (tr_aliases r) @ write_fields (optional_fields r) =
      write_field (tr_scope_vault s) @ write_field (tr_scope_project s) @ write_field (tr_scope_env s) @
        write_pairs (tr_aliases s) @ write_fields (optional_fields s)"
    by auto
  then have scope: "tr_scope_vault r = tr_scope_vault s" "tr_scope_project r = tr_scope_project s"
      "tr_scope_env r = tr_scope_env s"
    and rest4: "write_pairs (tr_aliases r) @ write_fields (optional_fields r) =
        write_pairs (tr_aliases s) @ write_fields (optional_fields s)"
    using e by (auto dest!: write_field_inj [rotated 2])
  from write_pairs_inj [OF _ _ rest4] e
  have "\<forall>k. map_get (tr_aliases r) k = map_get (tr_aliases s) k"
    and "write_fields (optional_fields r) = write_fields (optional_fields s)"
    by auto
  with core acts auth scope show ?thesis
    using write_fields_inj [of "optional_fields r" "optional_fields s"] e by (simp add: same_grant_def)
qed

section \<open>The file as a keyed store\<close>

definition store_put :: "string \<Rightarrow> trust_record \<Rightarrow> trust_file \<Rightarrow> trust_file" where
  "store_put path rec f = snd (put_record io_ok (rec\<lparr>tr_path := path\<rparr>) f)"

definition store_del :: "string \<Rightarrow> trust_file \<Rightarrow> trust_file" where
  "store_del path f = snd (remove_record io_ok path f)"

lemma load_store_ok [simp]: "load_store io_ok f = Inr f"
  by (simp add: load_store_def)

lemma find_update:
  "find_index P xs = Some i \<Longrightarrow> \<forall>x. Q x \<longrightarrow> \<not> P x \<Longrightarrow> \<not> Q y \<Longrightarrow> List.find Q (xs[i := y]) = List.find Q xs"
  by (induction xs arbitrary: i) (auto split: if_splits nat.splits)

lemma find_update_hit: "find_index P xs = Some i \<Longrightarrow> P y \<Longrightarrow> List.find P (xs[i := y]) = Some y"
  by (induction xs arbitrary: i) (auto split: if_splits nat.splits)

lemma find_append_one: "List.find Q (xs @ [y]) = (case List.find Q xs of None \<Rightarrow> if Q y then Some y else None | Some x \<Rightarrow> Some x)"
  by (induction xs) auto

lemma find_filter_other: "\<forall>x. Q x \<longrightarrow> R x \<Longrightarrow> List.find Q (filter R xs) = List.find Q xs"
  by (induction xs) auto

lemma record_at_put:
  "record_at (store_put path rec f) path' =
     (if path' = path then Some (rec\<lparr>tr_path := path\<rparr>) else record_at f path')"
proof (cases "find_index (\<lambda>r. tr_path r = path) f")
  case None
  then have "List.find (\<lambda>r. tr_path r = path) f = None"
    by (simp add: find_index_None find_None_iff)
  with None show ?thesis
    by (auto simp: store_put_def put_record_def record_at_def find_append_one split: option.splits)
next
  case (Some i)
  then show ?thesis
    by (auto simp: store_put_def put_record_def record_at_def find_update find_update_hit)
qed

lemma record_at_del: "record_at (store_del path f) path' = (if path' = path then None else record_at f path')"
proof (cases "\<exists>r \<in> set f. tr_path r = path")
  case True
  then show ?thesis
    by (auto simp: store_del_def remove_record_def record_at_def Let_def find_None_iff find_filter_other)
next
  case False
  then show ?thesis
    by (auto simp: store_del_def remove_record_def record_at_def Let_def find_None_iff)
qed

interpretation ts: keyed_store record_at store_put store_del "\<lambda>path rec. tr_path rec = path"
  by unfold_locales (auto simp: record_at_put record_at_del)

lemma put_is_store_put:
  "put_record io rec f = (v, g) \<Longrightarrow> load_error io = None \<Longrightarrow> save_error io = None \<Longrightarrow> g = store_put (tr_path rec) rec f"
  by (auto simp: put_record_def store_put_def load_store_def committing_def Let_def split: option.splits)

section \<open>An example grant\<close>

definition ex_record :: trust_record where
  "ex_record = \<lparr>tr_path = ''/w/.byn'', tr_sha256 = ''ab'', tr_vault = [], tr_fp_mac = [], tr_vk_mac = [],
     tr_mtime = 5, tr_granted_at = 7, tr_snapshot = ''x'', tr_actions = [''make''],
     tr_auth = [(''get'', ''none'')], tr_aliases = [], tr_scope_vault = ''default'', tr_scope_project = ''p'',
     tr_scope_env = ''dev'', tr_exec_capability = [], tr_env_grants = []\<rparr>"

definition toy_mac :: mac_fn where
  "toy_mac k m = k @ m"

section \<open>Grants\<close>

definition fp_message :: "hash_fn \<Rightarrow> trust_record \<Rightarrow> bytes" where
  "fp_message sha256 r = (if is_v2 r then mac_preimage_v2 sha256 fpMACDomainV2 (tr_path r) (tr_sha256 r) r
     else mac_preimage fpMACDomainV1 (tr_path r) (tr_sha256 r))"

definition vk_message :: "hash_fn \<Rightarrow> trust_record \<Rightarrow> bytes" where
  "vk_message sha256 r = (if is_v2 r then mac_preimage_v2 sha256 vkMACDomainV2 (tr_path r) (tr_sha256 r) r
     else mac_preimage vkMACDomainV1 (tr_path r) (tr_sha256 r))"

lemma preimage_ignores_macs [simp]:
  "mac_preimage_v2 sha256 d p s (r\<lparr>tr_fp_mac := a\<rparr>) = mac_preimage_v2 sha256 d p s r"
  "mac_preimage_v2 sha256 d p s (r\<lparr>tr_vk_mac := a\<rparr>) = mac_preimage_v2 sha256 d p s r"
  "is_v2 (r\<lparr>tr_fp_mac := a\<rparr>) = is_v2 r" "is_v2 (r\<lparr>tr_vk_mac := a\<rparr>) = is_v2 r"
  by (simp_all add: mac_preimage_v2_def optional_fields_def is_v2_def)

lemma set_macs_tags:
  "tr_fp_mac (set_macs sha256 hmac (Some k) vk r) = hex_encode (hmac k (fp_message sha256 r))"
  "tr_vk_mac (set_macs sha256 hmac fk (Some k) r) = hex_encode (hmac k (vk_message sha256 r))"
  by (cases vk; cases fk; simp add: set_macs_def Let_def compute_mac_def compute_mac_v2_def fp_message_def vk_message_def)+

lemma set_macs_simps [simp]:
  "tr_path (set_macs sha256 hmac fk vk r) = tr_path r"
  "tr_sha256 (set_macs sha256 hmac fk vk r) = tr_sha256 r"
  "tr_mtime (set_macs sha256 hmac fk vk r) = tr_mtime r"
  "is_v2 (set_macs sha256 hmac fk vk r) = is_v2 r"
  "fp_message sha256 (set_macs sha256 hmac fk vk r) = fp_message sha256 r"
  "vk_message sha256 (set_macs sha256 hmac fk vk r) = vk_message sha256 r"
  by (cases fk; cases vk; simp add: set_macs_def Let_def fp_message_def vk_message_def)+

lemma verify_macs_iff:
  "verify_fp_mac sha256 hmac r k \<longleftrightarrow> tr_fp_mac r \<noteq> [] \<and> k \<noteq> [] \<and> tr_fp_mac r = hex_encode (hmac k (fp_message sha256 r))"
  "verify_vk_mac sha256 hmac r k \<longleftrightarrow> tr_vk_mac r \<noteq> [] \<and> k \<noteq> [] \<and> tr_vk_mac r = hex_encode (hmac k (vk_message sha256 r))"
  by (auto simp: verify_fp_mac_def verify_vk_mac_def verify_mac_def verify_mac_v2_def compute_mac_def
      compute_mac_v2_def fp_message_def vk_message_def)

text \<open>
  C30. A verdict of trusted is never given to a record the daemon did not stamp. If the record
  on file carries the machine tag of a grant \<open>r0\<close>, then the file's content hash and timestamp
  are the ones in the record, and the record agrees with the grant on everything the tag
  commits to: path, hash, vault, timestamp, snapshot, commands, authorizations, scope,
  aliases, capability and grant time. Otherwise HMAC collides on exactly these two messages.
\<close>

theorem trusted_means_granted:
  assumes "verify sha256 hmac io f path currentHash currentMTime (Some k) vk = Inr (VerifyTrusted, chk, Some r)"
    and "tr_fp_mac r = tr_fp_mac (set_macs sha256 hmac (Some k) vk0 r0)"
    and "is_v2 r0" and "encodable sha256 r0" and "encodable sha256 r"
  shows "tr_path r = path \<and> tr_sha256 r = currentHash \<and> tr_mtime r = currentMTime \<and>
    (same_grant sha256 r0 r \<or>
     (fp_message sha256 r0 \<noteq> fp_message sha256 r \<and> hmac k (fp_message sha256 r0) = hmac k (fp_message sha256 r)))"
proof -
  have r: "record_at f path = Some r"
    and v: "verify_record sha256 hmac currentHash currentMTime (Some k) vk r = (VerifyTrusted, chk)"
    using assms(1) by (auto simp: verify_def lookup_record_def load_store_def split: option.splits sum.splits prod.splits)
  have "tr_path r = path" using r by (auto simp: record_at_def find_Some_iff)
  moreover have "tr_sha256 r = currentHash" "tr_mtime r = currentMTime" "is_v2 r" "verify_fp_mac sha256 hmac r k"
    using v by (auto simp: verify_record_def Let_def split: if_splits)
  moreover have "same_grant sha256 r0 r" if "fp_message sha256 r0 = fp_message sha256 r"
    using that mac_preimage_v2_inj [of sha256 r0 r fpMACDomainV2] assms(3-5) \<open>is_v2 r\<close>
    by (simp add: fp_message_def short_def fpMACDomainV2_def)
  ultimately show ?thesis
    using assms(2) by (auto simp: set_macs_tags verify_macs_iff dest: hex_encode_inj)
qed

definition ex_stamped :: trust_record where
  "ex_stamped = set_macs (\<lambda>x. x) toy_mac (Some ''k'') (Some ''v'') ex_record"

lemma encodable_examples: "encodable (\<lambda>x. x) ex_record" "encodable (\<lambda>x. x) ex_stamped"
  by (simp_all add: encodable_def ex_stamped_def set_macs_def ex_record_def is_v2_def Let_def short_def short_map_def
      go_map_ok_def pair_fields_def sorted_keys_def map_at_def map_get_def optional_fields_def int_dec_def nat_dec.simps)

lemma ex_stamped_path: "tr_path ex_stamped = ''/w/.byn''" "is_v2 ex_record"
  by (simp_all add: ex_stamped_def ex_record_def is_v2_def)

lemma ex_stamped_trusted:
  "verify (\<lambda>x. x) toy_mac io_ok [ex_stamped] ''/w/.byn'' ''ab'' 5 (Some ''k'') None = Inr (VerifyTrusted, False, Some ex_stamped)"
proof -
  have "verify_fp_mac (\<lambda>x. x) toy_mac ex_stamped ''k''"
    by (simp add: ex_stamped_def verify_macs_iff set_macs_tags toy_mac_def)
  moreover have "tr_fp_mac ex_stamped \<noteq> []" "is_v2 ex_stamped" "tr_sha256 ex_stamped = ''ab''" "tr_mtime ex_stamped = 5"
    by (simp_all add: ex_stamped_def set_macs_tags toy_mac_def) (simp_all add: is_v2_def ex_record_def)
  ultimately show ?thesis
    using ex_stamped_path by (simp add: verify_def lookup_record_def record_at_def verify_record_def Let_def)
qed

theorem trusted_means_granted_witness:
  "same_grant (\<lambda>x. x) ex_record ex_stamped \<or>
     (fp_message (\<lambda>x. x) ex_record \<noteq> fp_message (\<lambda>x. x) ex_stamped \<and>
      toy_mac ''k'' (fp_message (\<lambda>x. x) ex_record) = toy_mac ''k'' (fp_message (\<lambda>x. x) ex_stamped))"
  using trusted_means_granted [OF ex_stamped_trusted _ ex_stamped_path(2) encodable_examples, of "Some ''v''"]
  by (simp add: ex_stamped_def)

text \<open>
  The trailing fields carry no tag of their own: a record with a capability and no grant time
  and one with a grant time and no capability can have the same message.
\<close>

lemma capability_and_grant_time_share_a_slot:
  "fp_message sha256 (ex_record\<lparr>tr_exec_capability := ''7'', tr_granted_at := 0\<rparr>) =
   fp_message sha256 (ex_record\<lparr>tr_exec_capability := [], tr_granted_at := 7\<rparr>)"
proof -
  have "int_dec 7 = ''7''" by code_simp
  then show ?thesis
    by (simp add: fp_message_def is_v2_def ex_record_def mac_preimage_v2_def optional_fields_def)
qed

text \<open>
  What the daemon grants, it recognises: after a record is stamped with both keys and
  written, an unchanged file is trusted with both tags checked, a file whose bytes or timestamp
  changed is reported as changed, and so is every later lookup until the record is replaced.
\<close>

theorem granted_then_trusted:
  assumes "put_record io_ok (set_macs sha256 hmac (Some fk) (Some vk) rec) f = (v, g)"
    and "is_v2 rec" and "fk \<noteq> []" and "vk \<noteq> []"
    and "hmac fk (fp_message sha256 rec) \<noteq> []" and "hmac vk (vk_message sha256 rec) \<noteq> []"
  shows "verify sha256 hmac io_ok g (tr_path rec) h m (Some fk) (Some vk) =
    Inr (if h = tr_sha256 rec \<and> m = tr_mtime rec then VerifyTrusted else VerifyChanged,
         h = tr_sha256 rec \<and> m = tr_mtime rec,
         Some (set_macs sha256 hmac (Some fk) (Some vk) rec))"
proof -
  let ?r = "set_macs sha256 hmac (Some fk) (Some vk) rec"
  have "g = store_put (tr_path rec) ?r f"
    using put_is_store_put [OF assms(1)] by simp
  then have "record_at g (tr_path rec) = Some ?r"
    by (simp add: ts.get_put)
  moreover have "verify_fp_mac sha256 hmac ?r fk" "verify_vk_mac sha256 hmac ?r vk" "tr_fp_mac ?r \<noteq> []"
    using assms(3-6) by (simp_all add: verify_macs_iff set_macs_tags)
  ultimately show ?thesis
    using assms(2) by (auto simp: verify_def lookup_record_def verify_record_def Let_def)
qed

theorem granted_then_trusted_witness:
  "verify (\<lambda>x. x) toy_mac io_ok [ex_stamped] ''/w/.byn'' ''ab'' 5 (Some ''k'') (Some ''v'') =
     Inr (VerifyTrusted, True, Some ex_stamped)"
proof -
  have put: "put_record io_ok (set_macs (\<lambda>x. x) toy_mac (Some ''k'') (Some ''v'') ex_record) [] = (Inr False, [ex_stamped])"
    by (simp add: put_record_def ex_stamped_def)
  show ?thesis
    using granted_then_trusted [OF put ex_stamped_path(2), of "''ab''" 5]
    by (simp add: toy_mac_def ex_stamped_def) (simp add: ex_record_def)
qed

section \<open>Sequences of writes\<close>

datatype trust_op = TrustPut trust_record | TrustRemove string

fun run_trust_op :: "store_io \<times> trust_op \<Rightarrow> trust_file \<Rightarrow> trust_file" where
  "run_trust_op (io, TrustPut rec) f = snd (put_record io rec f)"
| "run_trust_op (io, TrustRemove path) f = snd (remove_record io path f)"

fun trust_effect :: "store_io \<times> trust_op \<Rightarrow> (string \<times> trust_record option) list" where
  "trust_effect (io, opn) =
     (if load_error io \<noteq> None \<or> save_error io \<noteq> None then []
      else case opn of TrustPut rec \<Rightarrow> [(tr_path rec, Some rec)] | TrustRemove path \<Rightarrow> [(path, None)])"

lemma writable_trust_effects: "ts.writable (concat (map trust_effect h))"
  by (auto simp: ts.writable_def split: trust_op.splits if_splits)

lemma run_trust_op_writes: "run_trust_op x f = fold ts.apply_write (trust_effect x) f"
  by (cases "(x, f)" rule: run_trust_op.cases)
    (auto simp: ts.apply_write_def store_put_def store_del_def put_record_def remove_record_def load_store_def
      committing_def Let_def split: option.splits)

lemma run_trust_writes: "fold run_trust_op h f = fold ts.apply_write (concat (map trust_effect h)) f"
  by (induction h arbitrary: f) (simp_all add: run_trust_op_writes)

text \<open>
  Revoking is complete: once the record of a path has been removed, every later look at
  that path says untrusted, whatever is granted or revoked for other files and whichever
  writes fail, until the path itself is granted again.
\<close>

theorem revoked_stays_untrusted:
  assumes "remove_record io path f = (Inr was, g)"
    and "\<forall>(io', opn) \<in> set h. \<forall>rec. opn = TrustPut rec \<longrightarrow> tr_path rec \<noteq> path"
    and "load_error io'' = None"
  shows "verify sha256 hmac io'' (fold run_trust_op h g) path hash mtime fk vk = Inr (VerifyUntrusted, False, None)"
proof -
  have gone: "record_at g path = None"
    using assms(1)
    by (auto simp: remove_record_def record_at_def load_store_def committing_def Let_def find_None_iff
        split: option.splits if_splits)
  define ws where "ws = concat (map trust_effect h)"
  have "x = None" if "(path, x) \<in> set ws" for x
    using that assms(2) unfolding ws_def by (force split: trust_op.splits if_splits)
  then have "record_at (fold ts.apply_write ws g) path = None"
    using gone by (intro ts.stays_absent) (simp_all add: ws_def writable_trust_effects)
  then show ?thesis
    using assms(3) by (simp add: verify_def lookup_record_def load_store_def run_trust_writes ws_def)
qed

theorem revoked_stays_untrusted_witness:
  "verify (\<lambda>x. x) toy_mac io_ok
     (fold run_trust_op [(io_ok, TrustPut (ex_record\<lparr>tr_path := ''/x/.byn''\<rparr>))] []) ''/w/.byn'' ''ab'' 5 None None =
   Inr (VerifyUntrusted, False, None)"
proof -
  have "remove_record io_ok ''/w/.byn'' [ex_record] = (Inr True, [])"
    by (simp add: remove_record_def ex_record_def)
  from revoked_stays_untrusted [OF this, of "[(io_ok, TrustPut (ex_record\<lparr>tr_path := ''/x/.byn''\<rparr>))]"]
  show ?thesis by simp
qed

end
