(* ===== verification/One_Time_Tokens.thy ===== *)
theory One_Time_Tokens
  imports Go_Prelude
begin

text \<open>
  The in-memory stores of tokens that authorize one action once: portal bootstrap tokens
  (\<open>internal/daemon/bootstrap_token.go\<close>), config-write tokens (\<open>config_auth_token.go\<close>), exec
  tokens (\<open>exectoken.go\<close>), WebAuthn ceremonies and presence tokens (\<open>passkey.go\<close>). The bytes
  drawn from the system's generator are an argument, \<open>None\<close> when the read fails; the clock is
  an argument too. \<open>one_time_store\<close> is the contract they share.
\<close>

section \<open>The contract\<close>

datatype ('b, 'k, 'p, 'q) token_op = Mint 'b go_time 'p | Take 'q 'k go_time

locale one_time_store =
  fixes mint :: "'b \<Rightarrow> go_time \<Rightarrow> 'p \<Rightarrow> 's \<Rightarrow> 's"
    and take_token :: "'q \<Rightarrow> 'k \<Rightarrow> go_time \<Rightarrow> 's \<Rightarrow> 'r option \<times> 's"
    and pending :: "'s \<Rightarrow> 'k \<Rightarrow> ('p \<times> go_time) option"
    and answer :: "'q \<Rightarrow> 'p \<Rightarrow> 'r option"
    and token_of :: "'b \<Rightarrow> 'k"
    and genuine :: "'k \<Rightarrow> bool"
    and inv :: "'s \<Rightarrow> bool"
    and ttl :: duration
  assumes inv_mint: "inv s \<Longrightarrow> inv (mint b now p s)"
    and inv_take: "inv s \<Longrightarrow> inv (snd (take_token q k now s))"
    and pending_mint: "inv s \<Longrightarrow> genuine (token_of b) \<Longrightarrow> pending (mint b now p s) k' =
      (if k' = token_of b then Some (p, now + ttl)
       else case pending s k' of None \<Rightarrow> None | Some (q, e) \<Rightarrow> if e < now then None else Some (q, e))"
    and take_result: "inv s \<Longrightarrow> genuine k \<Longrightarrow> fst (take_token q k now s) =
      (case pending s k of None \<Rightarrow> None | Some (p, e) \<Rightarrow> if e < now then None else answer q p)"
    and pending_take: "inv s \<Longrightarrow> genuine k \<Longrightarrow> pending (snd (take_token q k now s)) k' =
      (if k' = k then None else pending s k')"
begin

fun run_token :: "('b, 'k, 'p, 'q) token_op \<Rightarrow> 's \<Rightarrow> 's" where
  "run_token (Mint b now p) s = mint b now p s"
| "run_token (Take q k now) s = snd (take_token q k now s)"

fun op_key :: "('b, 'k, 'p, 'q) token_op \<Rightarrow> 'k" where
  "op_key (Mint b _ _) = token_of b" | "op_key (Take _ k _) = k"

fun mints :: "'k \<Rightarrow> ('b, 'k, 'p, 'q) token_op \<Rightarrow> bool" where
  "mints k (Mint b _ _) \<longleftrightarrow> token_of b = k" | "mints k (Take _ _ _) \<longleftrightarrow> False"

lemma inv_run: "inv s \<Longrightarrow> inv (run_token opn s)"
  by (cases opn) (simp_all add: inv_mint inv_take)

lemma inv_run_all: "inv s \<Longrightarrow> inv (fold run_token h s)"
  by (induction h arbitrary: s) (simp_all add: inv_run)

lemma spent_stays_spent:
  assumes "inv s" and "\<forall>opn \<in> set h. genuine (op_key opn) \<and> \<not> mints k opn" and "pending s k = None"
  shows "pending (fold run_token h s) k = None"
  using assms
proof (induction h arbitrary: s)
  case Nil
  then show ?case by simp
next
  case (Cons opn h)
  then have "pending (run_token opn s) k = None"
    by (cases opn) (auto simp: pending_mint pending_take)
  with Cons show ?case by (simp add: inv_run)
qed

lemma single_use:
  assumes "inv s" and "genuine k" and "\<forall>opn \<in> set h. genuine (op_key opn) \<and> \<not> mints k opn"
  shows "fst (take_token q k t (fold run_token h (snd (take_token q' k now s)))) = None"
proof -
  have "pending (fold run_token h (snd (take_token q' k now s))) k = None"
    using assms by (intro spent_stays_spent) (simp_all add: pending_take inv_take)
  then show ?thesis using assms(1,2) by (simp add: take_result inv_take inv_run_all)
qed

lemma pending_origin:
  assumes "inv s" and "\<forall>opn \<in> set h. genuine (op_key opn)" and "\<forall>k. pending s k = None"
    and "pending (fold run_token h s) k = Some (p, e)"
  shows "\<exists>b t. Mint b t p \<in> set h \<and> token_of b = k \<and> e = t + ttl"
  using assms(2,4)
proof (induction h rule: rev_induct)
  case Nil
  then show ?case using assms(3) by simp
next
  case (snoc opn h)
  have "inv (fold run_token h s)" using assms(1) by (rule inv_run_all)
  with snoc show ?case
    by (cases opn) (auto simp: pending_mint pending_take split: option.splits if_splits, metis)
qed

lemma accepted_was_minted:
  assumes "inv s" and "\<forall>opn \<in> set h. genuine (op_key opn)" and "\<forall>k. pending s k = None" and "genuine k"
    and "fst (take_token q k now (fold run_token h s)) = Some r"
  shows "\<exists>b t p. Mint b t p \<in> set h \<and> token_of b = k \<and> now \<le> t + ttl \<and> answer q p = Some r"
proof -
  from assms(1,4,5) obtain p e where p: "pending (fold run_token h s) k = Some (p, e)" "\<not> e < now" "answer q p = Some r"
    by (auto simp: take_result inv_run_all split: option.splits if_splits)
  with pending_origin [OF assms(1-3) p(1)] show ?thesis using linorder_not_less by blast
qed

lemma pending_survives:
  assumes "inv s" and "\<forall>opn \<in> set h. genuine (op_key opn) \<and> op_key opn \<noteq> k"
    and "\<forall>b t p'. Mint b t p' \<in> set h \<longrightarrow> t \<le> e" and "pending s k = Some (p, e)"
  shows "pending (fold run_token h s) k = Some (p, e)"
  using assms
proof (induction h arbitrary: s)
  case Nil
  then show ?case by simp
next
  case (Cons opn h)
  have "pending (run_token opn s) k = Some (p, e)"
    using Cons.prems by (cases opn) (fastforce simp: pending_mint pending_take)+
  with Cons.prems show ?case by (auto intro!: Cons.IH simp: inv_run)
qed

lemma minted_is_accepted:
  assumes "inv s" and "genuine (token_of b)" and "\<forall>opn \<in> set h. genuine (op_key opn) \<and> op_key opn \<noteq> token_of b"
    and "\<forall>b' t p'. Mint b' t p' \<in> set h \<longrightarrow> t \<le> t0 + ttl" and "now \<le> t0 + ttl"
  shows "fst (take_token q (token_of b) now (fold run_token h (mint b t0 p s))) = answer q p"
proof -
  have "pending (fold run_token h (mint b t0 p s)) (token_of b) = Some (p, t0 + ttl)"
    using assms by (intro pending_survives) (simp_all add: inv_mint pending_mint)
  then show ?thesis using assms(1,2,5) by (simp add: take_result inv_mint inv_run_all)
qed

end

section \<open>Expiry\<close>

definition drop_expired :: "('t \<Rightarrow> go_time) \<Rightarrow> go_time \<Rightarrow> 't go_map \<Rightarrow> 't go_map" where
  "drop_expired expiry now m = filter (\<lambda>(k, t). \<not> time_after now (expiry t)) m"

lemma map_get_drop_expired:
  "go_map_ok m \<Longrightarrow> map_get (drop_expired expiry now m) k =
     (case map_get m k of None \<Rightarrow> None | Some t \<Rightarrow> if expiry t < now then None else Some t)"
  by (simp add: drop_expired_def map_get_filter split: option.splits)

lemma go_map_ok_drop_expired [simp]: "go_map_ok m \<Longrightarrow> go_map_ok (drop_expired expiry now m)"
  by (simp add: drop_expired_def)

section \<open>Portal bootstrap tokens\<close>

definition bootstrapTokenTTL :: duration where "bootstrapTokenTTL = 30 * second"

record bootstrap_token =
  bt_expires :: go_time

definition bootstrap_mint ::
  "bytes option \<Rightarrow> go_time \<Rightarrow> bootstrap_token go_map \<Rightarrow> (string + string) \<times> bootstrap_token go_map" where
  "bootstrap_mint drawn now m =
     (case drawn of
        None \<Rightarrow> (Inl ''rand'', m)
      | Some buf \<Rightarrow> (Inr (hex_encode buf),
          map_put (drop_expired bt_expires now m) (hex_encode buf) \<lparr>bt_expires = time_add now bootstrapTokenTTL\<rparr>))"

definition bootstrap_consume ::
  "string \<Rightarrow> go_time \<Rightarrow> bootstrap_token go_map \<Rightarrow> bool \<times> bootstrap_token go_map" where
  "bootstrap_consume token now m =
     (if token = [] then (False, m)
      else case map_get m token of
        None \<Rightarrow> (False, m)
      | Some t \<Rightarrow> (\<not> time_after now (bt_expires t), map_del m token))"

section \<open>Config-write tokens\<close>

definition configAuthTokenTTL :: duration where "configAuthTokenTTL = 60 * second"

definition config_auth_mint ::
  "bytes option \<Rightarrow> go_time \<Rightarrow> go_time go_map \<Rightarrow> (string + string) \<times> go_time go_map" where
  "config_auth_mint drawn now m =
     (case drawn of
        None \<Rightarrow> (Inl ''rand'', m)
      | Some buf \<Rightarrow> (Inr (hex_encode buf),
          map_put (drop_expired (\<lambda>e. e) now m) (hex_encode buf) (time_add now configAuthTokenTTL)))"

definition config_auth_consume :: "string \<Rightarrow> go_time \<Rightarrow> go_time go_map \<Rightarrow> bool \<times> go_time go_map" where
  "config_auth_consume token now m =
     (if token = [] then (False, m)
      else case map_get m token of
        None \<Rightarrow> (False, m)
      | Some e \<Rightarrow> (\<not> time_after now e, map_del m token))"

section \<open>Exec tokens\<close>

definition execTokenTTL :: duration where "execTokenTTL = 30 * second"

record exec_token =
  et_argv :: "string list"
  et_env :: "string list"
  et_profile :: string
  et_expires :: go_time

definition exec_mint ::
  "bytes option \<Rightarrow> string list \<Rightarrow> string list \<Rightarrow> string \<Rightarrow> go_time \<Rightarrow> exec_token go_map \<Rightarrow>
   (string + bytes) \<times> exec_token go_map" where
  "exec_mint drawn argv env profile now m =
     (case drawn of
        None \<Rightarrow> (Inl ''rand'', m)
      | Some b \<Rightarrow> (Inr b, map_put (drop_expired et_expires now m) (hex_encode b)
          \<lparr>et_argv = argv, et_env = env, et_profile = profile, et_expires = time_add now execTokenTTL\<rparr>))"

definition exec_redeem ::
  "bytes \<Rightarrow> go_time \<Rightarrow> exec_token go_map \<Rightarrow> (string list \<times> string list \<times> string) option \<times> exec_token go_map" where
  "exec_redeem tok now m =
     (if length tok = 0 then (None, m)
      else case map_get m (hex_encode tok) of
        None \<Rightarrow> (None, m)
      | Some e \<Rightarrow> (if time_after now (et_expires e) then None else Some (et_argv e, et_env e, et_profile e),
          map_del m (hex_encode tok)))"

section \<open>WebAuthn ceremonies and presence tokens\<close>

definition passkeyChallengeTTL :: duration where "passkeyChallengeTTL = 2 * minute"
definition presenceTokenTTL :: duration where "presenceTokenTTL = 2 * minute"

text \<open>The library's session data is opaque: a type parameter.\<close>

record 'w passkey_challenge =
  pc_vault :: string
  pc_session :: 'w
  pc_salt :: bytes
  pc_expires :: go_time

definition challenge_put ::
  "bytes option \<Rightarrow> string \<Rightarrow> 'w \<Rightarrow> bytes \<Rightarrow> go_time \<Rightarrow> 'w passkey_challenge go_map \<Rightarrow>
   (string + string) \<times> 'w passkey_challenge go_map" where
  "challenge_put drawn vaultName sess salt now m =
     (case drawn of
        None \<Rightarrow> (Inl ''rand'', m)
      | Some buf \<Rightarrow> (Inr (hex_encode buf), map_put (drop_expired pc_expires now m) (hex_encode buf)
          \<lparr>pc_vault = vaultName, pc_session = sess, pc_salt = salt, pc_expires = time_add now passkeyChallengeTTL\<rparr>))"

definition challenge_take ::
  "string \<Rightarrow> go_time \<Rightarrow> 'w passkey_challenge go_map \<Rightarrow> 'w passkey_challenge option \<times> 'w passkey_challenge go_map" where
  "challenge_take cid now m =
     (case map_get m cid of
        None \<Rightarrow> (None, m)
      | Some ch \<Rightarrow> (if time_after now (pc_expires ch) then None else Some ch, map_del m cid))"

record presence_token =
  pt_vault :: string
  pt_expires :: go_time

definition presence_mint ::
  "bytes option \<Rightarrow> string \<Rightarrow> go_time \<Rightarrow> presence_token go_map \<Rightarrow> (string + string) \<times> presence_token go_map" where
  "presence_mint drawn vaultName now m =
     (case drawn of
        None \<Rightarrow> (Inl ''rand'', m)
      | Some buf \<Rightarrow> (Inr (hex_encode buf), map_put (drop_expired pt_expires now m) (hex_encode buf)
          \<lparr>pt_vault = vaultName, pt_expires = time_add now presenceTokenTTL\<rparr>))"

definition presence_consume ::
  "string \<Rightarrow> string \<Rightarrow> go_time \<Rightarrow> presence_token go_map \<Rightarrow> bool \<times> presence_token go_map" where
  "presence_consume token vaultName now m =
     (if length token = 0 then (False, m)
      else case map_get m token of
        None \<Rightarrow> (False, m)
      | Some t \<Rightarrow> (\<not> time_after now (pt_expires t) \<and> pt_vault t = vaultName, map_del m token))"

section \<open>The stores meet the contract\<close>

text \<open>
  A boolean answer is read as \<open>Some ()\<close> or \<open>None\<close>. A token that was drawn is not empty; the
  stores refuse an empty one before they look it up.
\<close>

definition as_option :: "bool \<times> 's \<Rightarrow> unit option \<times> 's" where
  "as_option r = (if fst r then Some () else None, snd r)"

lemmas token_store_defs = bootstrap_mint_def bootstrap_consume_def config_auth_mint_def config_auth_consume_def
  exec_mint_def exec_redeem_def challenge_put_def challenge_take_def presence_mint_def presence_consume_def
  as_option_def time_add_def map_get_drop_expired

interpretation boot: one_time_store
  "\<lambda>b now (p :: unit) m. snd (bootstrap_mint (Some b) now m)"
  "\<lambda>(q :: unit) k now m. as_option (bootstrap_consume k now m)"
  "\<lambda>m k. map_option (\<lambda>t. ((), bt_expires t)) (map_get m k)"
  "\<lambda>_ _. Some ()" hex_encode "\<lambda>k. k \<noteq> []" go_map_ok bootstrapTokenTTL
  by unfold_locales (auto simp: token_store_defs split: option.splits)

interpretation conf: one_time_store
  "\<lambda>b now (p :: unit) m. snd (config_auth_mint (Some b) now m)"
  "\<lambda>(q :: unit) k now m. as_option (config_auth_consume k now m)"
  "\<lambda>m k. map_option (\<lambda>e. ((), e)) (map_get m k)"
  "\<lambda>_ _. Some ()" hex_encode "\<lambda>k. k \<noteq> []" go_map_ok configAuthTokenTTL
  by unfold_locales (auto simp: token_store_defs split: option.splits)

interpretation exec: one_time_store
  "\<lambda>b now p m. snd (exec_mint (Some b) (fst p) (fst (snd p)) (snd (snd p)) now m)"
  "\<lambda>(q :: unit) tok now m. exec_redeem tok now m"
  "\<lambda>m k. map_option (\<lambda>t. ((et_argv t, et_env t, et_profile t), et_expires t)) (map_get m (hex_encode k))"
  "\<lambda>_ p. Some p" "\<lambda>b. b" "\<lambda>k. k \<noteq> []" go_map_ok execTokenTTL
  by unfold_locales (auto simp: token_store_defs split: option.splits dest: hex_encode_inj)

interpretation chal: one_time_store
  "\<lambda>b now p m. snd (challenge_put (Some b) (fst p) (fst (snd p)) (snd (snd p)) now m)"
  "\<lambda>(q :: unit) k now m. map_prod (map_option (\<lambda>c. (pc_vault c, pc_session c, pc_salt c))) (\<lambda>m. m) (challenge_take k now m)"
  "\<lambda>m k. map_option (\<lambda>c. ((pc_vault c, pc_session c, pc_salt c), pc_expires c)) (map_get m k)"
  "\<lambda>_ p. Some p" hex_encode "\<lambda>_. True" go_map_ok passkeyChallengeTTL
  by unfold_locales (auto simp: token_store_defs split: option.splits)

interpretation pres: one_time_store
  "\<lambda>b now p m. snd (presence_mint (Some b) p now m)"
  "\<lambda>q k now m. as_option (presence_consume k q now m)"
  "\<lambda>m k. map_option (\<lambda>t. (pt_vault t, pt_expires t)) (map_get m k)"
  "\<lambda>q p. if p = q then Some () else None" hex_encode "\<lambda>k. k \<noteq> []" go_map_ok presenceTokenTTL
  by unfold_locales (auto simp: token_store_defs split: option.splits)

text \<open>
  The additional data under which a wrapped vault key is sealed: vault id, credential id and
  domain, separated by the byte 0x1F.
\<close>

definition passkey_unlock_aad :: "string \<Rightarrow> bytes \<Rightarrow> bytes" where
  "passkey_unlock_aad vaultID credID = vaultID @ [CHR 0x1F] @ credID @ [CHR 0x1F] @ ''byn:passkey-unlock:v1''"

end
