(* ===== verification/Token_Claims.thy ===== *)
theory Token_Claims
  imports One_Time_Tokens
begin

text \<open>
  What the daemon relies on of its one-time tokens, over any sequence of operations on a store:
  what is accepted was minted, within its lifetime, for the same payload or vault, and once.
\<close>

lemma failed_draws [simp]:
  "snd (exec_mint None argv env profile now m) = m"
  "snd (presence_mint None v now m') = m'"
  "snd (config_auth_mint None now m'') = m''"
  by (simp_all add: exec_mint_def presence_mint_def config_auth_mint_def)

lemma empty_tokens [simp]:
  "exec_redeem [] now m = (None, m)"
  "presence_consume [] v now m' = (False, m')"
  "config_auth_consume [] now m'' = (False, m'')"
  by (simp_all add: exec_redeem_def presence_consume_def config_auth_consume_def)

lemma snd_as_option [simp]: "snd (as_option r) = snd r"
  by (simp add: as_option_def)

section \<open>Histories of the exec-token store\<close>

datatype exec_op =
    ExecMint "bytes option" "string list" "string list" string go_time
  | ExecRedeem bytes go_time

fun exec_step :: "exec_op \<Rightarrow> exec_token go_map \<Rightarrow> exec_token go_map" where
  "exec_step (ExecMint drawn argv env profile now) m = snd (exec_mint drawn argv env profile now m)"
| "exec_step (ExecRedeem tok now) m = snd (exec_redeem tok now m)"

fun exec_trace :: "exec_op \<Rightarrow> (bytes, bytes, string list \<times> string list \<times> string, unit) token_op list" where
  "exec_trace (ExecMint drawn argv env profile now) =
     (case drawn of None \<Rightarrow> [] | Some b \<Rightarrow> [Mint b now (argv, env, profile)])"
| "exec_trace (ExecRedeem tok now) = (if tok = [] then [] else [Take () tok now])"

definition exec_draws_ok :: "exec_op list \<Rightarrow> bool" where
  "exec_draws_ok h \<longleftrightarrow> (\<forall>b a e p t. ExecMint (Some b) a e p t \<in> set h \<longrightarrow> length b = 32)"

lemma exec_history: "fold exec_step h m = fold exec.run_token (concat (map exec_trace h)) m"
proof (induction h arbitrary: m)
  case Nil
  then show ?case by simp
next
  case (Cons opn h)
  have "exec_step opn m = fold exec.run_token (exec_trace opn) m"
    by (cases opn) (auto split: option.splits)
  with Cons show ?case by simp
qed

lemma exec_trace_genuine:
  assumes "exec_draws_ok h"
  shows "\<forall>opn \<in> set (concat (map exec_trace h)). exec.op_key opn \<noteq> []"
proof -
  have "exec.op_key opn \<noteq> []" if "x \<in> set h" "opn \<in> set (exec_trace x)" for x opn
    using that assms by (cases x rule: exec_op.exhaust) (fastforce simp: exec_draws_ok_def split: option.splits if_splits)+
  then show ?thesis by auto
qed

lemma exec_trace_mint:
  "Mint b t (argv, env, profile) \<in> set (concat (map exec_trace h)) \<Longrightarrow> ExecMint (Some b) argv env profile t \<in> set h"
proof -
  assume "Mint b t (argv, env, profile) \<in> set (concat (map exec_trace h))"
  then obtain x where "x \<in> set h" "Mint b t (argv, env, profile) \<in> set (exec_trace x)" by auto
  then show ?thesis by (cases x rule: exec_op.exhaust) (auto split: option.splits if_splits)
qed

text \<open>
  C33. The helper only ever runs what the daemon authorized: the arguments, environment and
  profile a redeemed token yields are those of a mint that drew exactly this token, no more
  than 30 seconds before.
\<close>

theorem redeemed_was_authorized:
  assumes "exec_draws_ok h"
    and "fst (exec_redeem tok now (fold exec_step h [])) = Some (argv, env, profile)"
  shows "\<exists>t. ExecMint (Some tok) argv env profile t \<in> set h \<and> now \<le> t + 30 * second"
proof -
  have "tok \<noteq> []" using assms(2) by (auto simp: exec_redeem_def)
  from exec.accepted_was_minted [where s = "[]" and h = "concat (map exec_trace h)" and k = tok and now = now
      and r = "(argv, env, profile)"]
  obtain t where "Mint tok t (argv, env, profile) \<in> set (concat (map exec_trace h))" "now \<le> t + execTokenTTL"
    using assms \<open>tok \<noteq> []\<close> exec_trace_genuine [OF assms(1)] by (auto simp: exec_history)
  then show ?thesis using exec_trace_mint unfolding execTokenTTL_def by blast
qed

definition ex_token :: bytes where "ex_token = replicate 32 CHR ''t''"

definition ex_exec_history :: "exec_op list" where
  "ex_exec_history = [ExecMint None [] [] [] 0, ExecMint (Some ex_token) [''make''] [''K=v''] [] 100]"

lemma ex_exec_ok: "exec_draws_ok ex_exec_history"
  by (simp add: exec_draws_ok_def ex_exec_history_def ex_token_def)

lemma ex_exec_redeem: "fst (exec_redeem ex_token 200 (fold exec_step ex_exec_history [])) = Some ([''make''], [''K=v''], [])"
  by (simp add: ex_exec_history_def exec_redeem_def exec_mint_def execTokenTTL_def second_def time_add_def ex_token_def
      drop_expired_def)

theorem redeemed_was_authorized_witness:
  "\<exists>t. ExecMint (Some ex_token) [''make''] [''K=v''] [] t \<in> set ex_exec_history \<and> 200 \<le> t + 30 * second"
  using redeemed_was_authorized [OF ex_exec_ok ex_exec_redeem] .

text \<open>
  An exec token works once: after any attempt to redeem it, successful or not, no further
  attempt succeeds, whatever else is minted and redeemed in between, as long as the generator
  does not draw the same 32 bytes again.
\<close>

theorem exec_token_single_use:
  assumes "exec_draws_ok h" and "exec_draws_ok h'"
    and "\<forall>argv env profile t. ExecMint (Some tok) argv env profile t \<notin> set h'"
  shows "fst (exec_redeem tok t' (fold exec_step h' (snd (exec_redeem tok t (fold exec_step h []))))) = None"
proof (cases "tok = []")
  case True
  then show ?thesis by (simp add: exec_redeem_def)
next
  case False
  have inv: "go_map_ok (fold exec_step h [])"
    by (simp add: exec_history exec.inv_run_all)
  have "\<not> exec.mints tok opn" if "opn \<in> set (concat (map exec_trace h'))" for opn
  proof
    assume "exec.mints tok opn"
    then obtain t p where "opn = Mint tok t p" by (cases opn) auto
    with exec_trace_mint [of tok t "fst p" "fst (snd p)" "snd (snd p)" h'] that assms(3) show False by simp
  qed
  then show ?thesis
    using exec.single_use [OF inv False, where h = "concat (map exec_trace h')" and t = t' and now = t]
      exec_trace_genuine [OF assms(2)] by (simp add: exec_history)
qed

theorem exec_token_single_use_witness:
  "fst (exec_redeem ex_token 201 (fold exec_step [ExecMint (Some (replicate 32 CHR ''u'')) [] [] [] 150]
     (snd (exec_redeem ex_token 200 (fold exec_step ex_exec_history []))))) = None"
  using exec_token_single_use [OF ex_exec_ok, of "[ExecMint (Some (replicate 32 CHR ''u'')) [] [] [] 150]" ex_token]
  by (simp add: exec_draws_ok_def ex_token_def)

section \<open>Presence tokens\<close>

datatype presence_op = PresenceMint "bytes option" string go_time | PresenceConsume string string go_time

fun presence_step :: "presence_op \<Rightarrow> presence_token go_map \<Rightarrow> presence_token go_map" where
  "presence_step (PresenceMint drawn v now) m = snd (presence_mint drawn v now m)"
| "presence_step (PresenceConsume tok v now) m = snd (presence_consume tok v now m)"

fun presence_trace :: "presence_op \<Rightarrow> (bytes, string, string, string) token_op list" where
  "presence_trace (PresenceMint drawn v now) = (case drawn of None \<Rightarrow> [] | Some b \<Rightarrow> [Mint b now v])"
| "presence_trace (PresenceConsume tok v now) = (if tok = [] then [] else [Take v tok now])"

definition presence_draws_ok :: "presence_op list \<Rightarrow> bool" where
  "presence_draws_ok h \<longleftrightarrow> (\<forall>b v t. PresenceMint (Some b) v t \<in> set h \<longrightarrow> length b = 32)"

lemma presence_history: "fold presence_step h m = fold pres.run_token (concat (map presence_trace h)) m"
proof (induction h arbitrary: m)
  case Nil
  then show ?case by simp
next
  case (Cons opn h)
  have "presence_step opn m = fold pres.run_token (presence_trace opn) m"
    by (cases opn) (auto split: option.splits)
  with Cons show ?case by simp
qed

lemma presence_trace_genuine:
  assumes "presence_draws_ok h"
  shows "\<forall>opn \<in> set (concat (map presence_trace h)). pres.op_key opn \<noteq> []"
proof -
  have "pres.op_key opn \<noteq> []" if "x \<in> set h" "opn \<in> set (presence_trace x)" for x opn
    using that assms by (cases x rule: presence_op.exhaust) (fastforce simp: presence_draws_ok_def split: option.splits if_splits)+
  then show ?thesis by auto
qed

lemma presence_trace_mint:
  "Mint b t v \<in> set (concat (map presence_trace h)) \<Longrightarrow> PresenceMint (Some b) v t \<in> set h"
proof -
  assume "Mint b t v \<in> set (concat (map presence_trace h))"
  then obtain x where "x \<in> set h" "Mint b t v \<in> set (presence_trace x)" by auto
  then show ?thesis by (cases x rule: presence_op.exhaust) (auto split: option.splits if_splits)
qed

text \<open>
  A presence token proves presence for one vault, once: it is accepted for a vault only
  when a passkey ceremony for that very vault minted it within the last two minutes, and after
  it has been presented for any vault it is not accepted again for another or the same.
\<close>

theorem presence_is_for_one_vault_once:
  assumes "presence_draws_ok h" and "fst (presence_consume tok v now (fold presence_step h []))"
    and "presence_draws_ok h'" and "\<forall>b w t. PresenceMint (Some b) w t \<in> set h' \<longrightarrow> hex_encode b \<noteq> tok"
  shows "(\<exists>b t. hex_encode b = tok \<and> PresenceMint (Some b) v t \<in> set h \<and> now \<le> t + 2 * minute) \<and>
    \<not> fst (presence_consume tok v' now' (fold presence_step h' (snd (presence_consume tok v now (fold presence_step h [])))))"
proof
  have tok: "tok \<noteq> []" using assms(2) by (auto simp: presence_consume_def)
  have "fst (as_option (presence_consume tok v now (fold presence_step h []))) = Some ()"
    using assms(2) by (simp add: as_option_def)
  then show "\<exists>b t. hex_encode b = tok \<and> PresenceMint (Some b) v t \<in> set h \<and> now \<le> t + 2 * minute"
    using pres.accepted_was_minted [where s = "[]" and h = "concat (map presence_trace h)" and k = tok and q = v
      and now = now and r = "()"] tok
      presence_trace_genuine [OF assms(1)] presence_trace_mint [of _ _ _ h]
    by (fastforce simp: presence_history presenceTokenTTL_def split: if_splits)
  have inv: "go_map_ok (fold presence_step h [])"
    by (simp add: presence_history pres.inv_run_all)
  have "\<not> pres.mints tok opn" if "opn \<in> set (concat (map presence_trace h'))" for opn
  proof
    assume "pres.mints tok opn"
    then obtain b t p where "opn = Mint b t p" "hex_encode b = tok" by (cases opn) auto
    with presence_trace_mint [of b t p h'] that assms(4) show False by blast
  qed
  then have "fst (as_option (presence_consume tok v' now' (fold pres.run_token (concat (map presence_trace h'))
      (snd (as_option (presence_consume tok v now (fold presence_step h []))))))) = None"
    using pres.single_use [OF inv tok, where h = "concat (map presence_trace h')" and q = v' and t = now' and q' = v
      and now = now]
      presence_trace_genuine [OF assms(3)] by simp
  then show "\<not> fst (presence_consume tok v' now' (fold presence_step h' (snd (presence_consume tok v now (fold presence_step h [])))))"
    by (simp add: presence_history as_option_def split: if_splits)
qed

theorem presence_is_for_one_vault_once_witness:
  "\<not> fst (presence_consume (hex_encode ex_token) ''v'' 6 (fold presence_step []
      (snd (presence_consume (hex_encode ex_token) ''v'' 5 (fold presence_step [PresenceMint (Some ex_token) ''v'' 3] [])))))"
proof -
  have "presence_draws_ok [PresenceMint (Some ex_token) ''v'' 3]" "presence_draws_ok []"
    by (simp_all add: presence_draws_ok_def ex_token_def)
  moreover have "fst (presence_consume (hex_encode ex_token) ''v'' 5 (fold presence_step [PresenceMint (Some ex_token) ''v'' 3] []))"
    by (simp add: presence_mint_def presence_consume_def ex_token_def presenceTokenTTL_def minute_def time_add_def drop_expired_def)
  ultimately show ?thesis
    using presence_is_for_one_vault_once [of "[PresenceMint (Some ex_token) ''v'' 3]" "hex_encode ex_token" "''v''" 5 "[]" "''v''" 6]
    by simp
qed

section \<open>Config-write tokens\<close>

datatype config_op = ConfigMint "bytes option" go_time | ConfigConsume string go_time

fun config_step :: "config_op \<Rightarrow> go_time go_map \<Rightarrow> go_time go_map" where
  "config_step (ConfigMint drawn now) m = snd (config_auth_mint drawn now m)"
| "config_step (ConfigConsume tok now) m = snd (config_auth_consume tok now m)"

fun config_trace :: "config_op \<Rightarrow> (bytes, string, unit, unit) token_op list" where
  "config_trace (ConfigMint drawn now) = (case drawn of None \<Rightarrow> [] | Some b \<Rightarrow> [Mint b now ()])"
| "config_trace (ConfigConsume tok now) = (if tok = [] then [] else [Take () tok now])"

lemma config_history: "fold config_step h m = fold conf.run_token (concat (map config_trace h)) m"
proof (induction h arbitrary: m)
  case Nil
  then show ?case by simp
next
  case (Cons opn h)
  have "config_step opn m = fold conf.run_token (config_trace opn) m"
    by (cases opn) (auto split: option.splits)
  with Cons show ?case by simp
qed

text \<open>
  The code printed by \<open>byn config-auth\<close> does its job: presented within a minute it
  authorizes the write, whatever other codes are minted or tried in the meantime, provided
  those mints happened within the same minute and nobody presented or drew this code.
\<close>

theorem config_code_is_accepted:
  assumes "go_map_ok m" and "length b = 32"
    and "\<forall>opn \<in> set h. case opn of
           ConfigMint None t \<Rightarrow> True
         | ConfigMint (Some b') t \<Rightarrow> length b' = 32 \<and> b' \<noteq> b \<and> t \<le> t0 + 60 * second
         | ConfigConsume tok t \<Rightarrow> tok \<noteq> hex_encode b"
    and "now \<le> t0 + 60 * second"
  shows "fst (config_auth_consume (hex_encode b) now (fold config_step h (snd (config_auth_mint (Some b) t0 m))))"
proof -
  let ?h = "concat (map config_trace h)"
  have ok: "conf.op_key opn \<noteq> [] \<and> conf.op_key opn \<noteq> hex_encode b \<and>
      (\<forall>b' t p. opn = Mint b' t p \<longrightarrow> t \<le> t0 + configAuthTokenTTL)" if "opn \<in> set ?h" for opn
  proof -
    from that obtain x where x: "x \<in> set h" "opn \<in> set (config_trace x)" by auto
    with assms(3) show ?thesis
      by (cases x rule: config_op.exhaust) (fastforce simp: configAuthTokenTTL_def dest: hex_encode_inj split: option.splits if_splits)+
  qed
  have "b \<noteq> []" using assms(2) by auto
  then have "fst (as_option (config_auth_consume (hex_encode b) now (fold conf.run_token ?h (snd (config_auth_mint (Some b) t0 m)))))
      = Some ()"
    using conf.minted_is_accepted [OF assms(1), where b = b and h = ?h and ?t0.0 = t0 and now = now] ok assms(4)
    by (auto simp: configAuthTokenTTL_def)
  then show ?thesis by (simp add: config_history as_option_def split: if_splits)
qed

theorem config_code_is_accepted_witness:
  "fst (config_auth_consume (hex_encode ex_token) 70 (fold config_step [ConfigConsume ''guess'' 5, ConfigMint None 6]
     (snd (config_auth_mint (Some ex_token) 1 []))))"
proof -
  have "''guess'' \<noteq> hex_encode ex_token"
  proof
    assume "''guess'' = hex_encode ex_token"
    from arg_cong [OF this, of length] show False by (simp add: ex_token_def)
  qed
  then show ?thesis
    using config_code_is_accepted [of "[]" ex_token "[ConfigConsume ''guess'' 5, ConfigMint None 6]" 1 70]
    by (simp add: ex_token_def second_def)
qed

end
