(* ===== verification/Sessions.thy ===== *)
theory Sessions
  imports Keyed_Store Histories
begin

text \<open>
  The daemon's session store (\<open>internal/daemon/sessions.go\<close>) and the client's session files
  (\<open>internal/session/session.go\<close>). The random bytes, the clock, the peer's terminal device and
  SHA-256 are arguments. A directory of session files is a map from file names to contents.
\<close>

section \<open>The daemon's store\<close>

record session =
  se_vault :: string
  se_surface :: string
  se_uid :: nat
  se_tty :: int
  se_created :: go_time
  se_last_used :: go_time

record session_store =
  ss_sessions :: "session go_map"
  ss_ttl :: duration
  ss_idle :: duration

definition new_session_store :: "duration \<Rightarrow> duration \<Rightarrow> session_store" where
  "new_session_store ttl idle = \<lparr>ss_sessions = [], ss_ttl = ttl, ss_idle = idle\<rparr>"

definition mint_session ::
  "bytes \<Rightarrow> string \<Rightarrow> string \<Rightarrow> nat \<Rightarrow> int \<Rightarrow> go_time \<Rightarrow> session_store \<Rightarrow> string \<times> session_store" where
  "mint_session drawn vault surface uid ttyDev now s =
     (hex_encode drawn, s\<lparr>ss_sessions := map_put (ss_sessions s) (hex_encode drawn)
        \<lparr>se_vault = vault, se_surface = surface, se_uid = uid, se_tty = ttyDev, se_created = now, se_last_used = now\<rparr>\<rparr>)"

definition ttl_over :: "session_store \<Rightarrow> go_time \<Rightarrow> session \<Rightarrow> bool" where
  "ttl_over s now sess \<longleftrightarrow> ss_ttl s > 0 \<and> time_sub now (se_created sess) \<ge> ss_ttl s"

definition idle_over :: "session_store \<Rightarrow> go_time \<Rightarrow> session \<Rightarrow> bool" where
  "idle_over s now sess \<longleftrightarrow> ss_idle s > 0 \<and> time_sub now (se_last_used sess) \<ge> ss_idle s"

definition bound_to :: "session \<Rightarrow> string \<Rightarrow> nat \<Rightarrow> int \<Rightarrow> bool" where
  "bound_to sess vault uid ttyDev \<longleftrightarrow>
     \<not> (se_vault sess \<noteq> vault) \<and> \<not> (se_uid sess \<noteq> uid) \<and> \<not> (se_tty sess \<noteq> 0 \<and> se_tty sess \<noteq> ttyDev)"

definition validate_session ::
  "string \<Rightarrow> string \<Rightarrow> nat \<Rightarrow> int \<Rightarrow> go_time \<Rightarrow> session_store \<Rightarrow> bool \<times> session_store" where
  "validate_session token vault uid ttyDev now s =
     (if token = [] then (False, s)
      else case map_get (ss_sessions s) token of
        None \<Rightarrow> (False, s)
      | Some sess \<Rightarrow>
          if \<not> bound_to sess vault uid ttyDev then (False, s)
          else if ttl_over s now sess then (False, s\<lparr>ss_sessions := map_del (ss_sessions s) token\<rparr>)
          else if idle_over s now sess then (False, s\<lparr>ss_sessions := map_del (ss_sessions s) token\<rparr>)
          else (True, s\<lparr>ss_sessions := map_put (ss_sessions s) token (sess\<lparr>se_last_used := now\<rparr>)\<rparr>))"

definition end_vault :: "string \<Rightarrow> session_store \<Rightarrow> string list \<times> session_store" where
  "end_vault vault s =
     (map (\<lambda>(k, sess). se_surface sess) (filter (\<lambda>(k, sess). se_vault sess = vault) (ss_sessions s)),
      s\<lparr>ss_sessions := filter (\<lambda>(k, sess). \<not> (se_vault sess = vault)) (ss_sessions s)\<rparr>)"

definition end_token :: "string \<Rightarrow> session_store \<Rightarrow> (string \<times> string) \<times> session_store" where
  "end_token token s =
     (case map_get (ss_sessions s) token of
        None \<Rightarrow> (([], []), s)
      | Some sess \<Rightarrow> ((se_vault sess, se_surface sess), s\<lparr>ss_sessions := map_del (ss_sessions s) token\<rparr>))"

definition sweep_sessions :: "go_time \<Rightarrow> session_store \<Rightarrow> nat \<times> session_store" where
  "sweep_sessions now s =
     (let dead = (\<lambda>(k, sess). ttl_over s now sess \<or> idle_over s now sess) in
      (length (filter dead (ss_sessions s)), s\<lparr>ss_sessions := filter (\<lambda>x. \<not> dead x) (ss_sessions s)\<rparr>))"

definition session_info ::
  "string \<Rightarrow> string \<Rightarrow> nat \<Rightarrow> int \<Rightarrow> go_time \<Rightarrow> session_store \<Rightarrow> bool \<times> go_time option" where
  "session_info token vault uid ttyDev now s =
     (if token = [] then (False, None)
      else case map_get (ss_sessions s) token of
        None \<Rightarrow> (False, None)
      | Some sess \<Rightarrow>
          if \<not> bound_to sess vault uid ttyDev then (False, None)
          else if ttl_over s now sess then (False, None)
          else if idle_over s now sess then (False, None)
          else
            let exp = (if ss_ttl s > 0 then Some (time_add (se_created sess) (ss_ttl s)) else None);
                idleExp = time_add (se_last_used sess) (ss_idle s) in
            (True, if ss_idle s > 0 then
                (case exp of None \<Rightarrow> Some idleExp
                 | Some e \<Rightarrow> if time_before idleExp e then Some idleExp else Some e)
              else exp))"

text \<open>The two callers of \<open>mint\<close>: a socket peer binds to its terminal, the portal to the owner's uid.\<close>

definition mint_for_socket ::
  "(int \<Rightarrow> int) \<Rightarrow> bytes \<Rightarrow> string \<Rightarrow> nat \<Rightarrow> int \<Rightarrow> go_time \<Rightarrow> session_store \<Rightarrow> string \<times> session_store" where
  "mint_for_socket peerTTYDev drawn vault uid pid now s =
     mint_session drawn vault ''cli'' uid (peerTTYDev pid) now s"

definition mint_for_portal ::
  "nat \<Rightarrow> bytes \<Rightarrow> string \<Rightarrow> go_time \<Rightarrow> session_store \<Rightarrow> string \<times> session_store" where
  "mint_for_portal ownerUID drawn vault now s = mint_session drawn vault ''portal'' ownerUID 0 now s"

section \<open>The client's files\<close>

definition sessions_dir :: "string \<Rightarrow> string" where
  "sessions_dir dataDir = dataDir @ ''/sessions''"

definition file_name_for :: "(bytes \<Rightarrow> bytes) \<Rightarrow> int \<Rightarrow> string \<Rightarrow> string" where
  "file_name_for sha256 ttyDev vault = hex_encode (take 16 (sha256 (int_dec ttyDev @ [CHR 0x00] @ vault)))"

definition token_path :: "(bytes \<Rightarrow> bytes) \<Rightarrow> string \<Rightarrow> int \<Rightarrow> string \<Rightarrow> string" where
  "token_path sha256 bynDir ttyDev vault = sessions_dir bynDir @ ''/'' @ file_name_for sha256 ttyDev vault"

definition load_token_with_dev :: "(bytes \<Rightarrow> bytes) \<Rightarrow> bytes go_map \<Rightarrow> string \<Rightarrow> int \<Rightarrow> string \<Rightarrow> bytes option" where
  "load_token_with_dev sha256 fs bynDir ttyDev vault =
     (if ttyDev = 0 then None
      else case map_get fs (token_path sha256 bynDir ttyDev vault) of
        None \<Rightarrow> None
      | Some data \<Rightarrow> if length data = 0 then None else Some data)"

text \<open>The result of a failed create or write is the error; the file is then in an unknown state, here unchanged.\<close>

definition save_token_with_dev ::
  "(bytes \<Rightarrow> bytes) \<Rightarrow> string option \<Rightarrow> string \<Rightarrow> int \<Rightarrow> string \<Rightarrow> bytes \<Rightarrow> bytes go_map \<Rightarrow> (string + unit) \<times> bytes go_map" where
  "save_token_with_dev sha256 ioErr bynDir ttyDev vault token fs =
     (if ttyDev = 0 \<or> length token = 0 then (Inr (), fs)
      else case ioErr of Some e \<Rightarrow> (Inl e, fs)
      | None \<Rightarrow> (Inr (), map_put fs (token_path sha256 bynDir ttyDev vault) token))"

definition delete_token_with_dev ::
  "(bytes \<Rightarrow> bytes) \<Rightarrow> string \<Rightarrow> int \<Rightarrow> string \<Rightarrow> bytes go_map \<Rightarrow> bytes go_map" where
  "delete_token_with_dev sha256 bynDir ttyDev vault fs =
     (if ttyDev = 0 then fs else map_del fs (token_path sha256 bynDir ttyDev vault))"

text \<open>The exported entry points take the terminal of the process, \<open>ttyRdev()\<close>, here an argument.\<close>

definition load_token where
  "load_token sha256 ttyRdev fs bynDir vault = load_token_with_dev sha256 fs bynDir ttyRdev vault"

definition save_token where
  "save_token sha256 ttyRdev ioErr bynDir vault token fs = save_token_with_dev sha256 ioErr bynDir ttyRdev vault token fs"

definition delete_token where
  "delete_token sha256 ttyRdev bynDir vault fs = delete_token_with_dev sha256 bynDir ttyRdev vault fs"

definition vault_key :: "string \<Rightarrow> string" where
  "vault_key vault = (if vault = [] then ''default'' else vault)"

definition save_token_for_this_tty ::
  "(bytes \<Rightarrow> bytes) \<Rightarrow> int \<Rightarrow> string option \<Rightarrow> string \<Rightarrow> string \<Rightarrow> bytes \<Rightarrow> bytes go_map \<Rightarrow>
   (bool \<times> (string + unit)) \<times> bytes go_map" where
  "save_token_for_this_tty sha256 ttyRdev ioErr bynDir vault token fs =
     (if ttyRdev = 0 then ((False, Inr ()), fs)
      else (case save_token_with_dev sha256 ioErr bynDir ttyRdev vault token fs of (r, fs') \<Rightarrow> ((True, r), fs')))"

definition token_path_for_this_tty :: "(bytes \<Rightarrow> bytes) \<Rightarrow> int \<Rightarrow> string \<Rightarrow> string \<Rightarrow> string option" where
  "token_path_for_this_tty sha256 ttyRdev bynDir vault =
     (if ttyRdev = 0 then None else Some (bynDir @ ''/'' @ file_name_for sha256 ttyRdev vault))"

section \<open>Histories of the store\<close>

datatype session_op =
    SMint bytes string string nat int go_time
  | SValidate string string nat int go_time
  | SEndVault string
  | SEndToken string
  | SSweep go_time

fun session_step :: "session_op \<Rightarrow> session_store \<Rightarrow> session_store" where
  "session_step (SMint drawn v surf uid tty now) s = snd (mint_session drawn v surf uid tty now s)"
| "session_step (SValidate tok v uid tty now) s = snd (validate_session tok v uid tty now s)"
| "session_step (SEndVault v) s = snd (end_vault v s)"
| "session_step (SEndToken tok) s = snd (end_token tok s)"
| "session_step (SSweep now) s = snd (sweep_sessions now s)"

definition sessions_ok :: "session_store \<Rightarrow> bool" where
  "sessions_ok s \<longleftrightarrow> go_map_ok (ss_sessions s)"

lemma session_limits [simp]:
  "ss_ttl (session_step opn s) = ss_ttl s" "ss_idle (session_step opn s) = ss_idle s"
  by (cases opn; simp add: mint_session_def validate_session_def end_vault_def end_token_def sweep_sessions_def Let_def
      split: option.splits)+

lemma session_limits_run [simp]:
  "ss_ttl (fold session_step h s) = ss_ttl s" "ss_idle (fold session_step h s) = ss_idle s"
  by (induction h arbitrary: s) simp_all

lemma sessions_ok_step: "sessions_ok s \<Longrightarrow> sessions_ok (session_step opn s)"
  by (cases opn) (auto simp: sessions_ok_def mint_session_def validate_session_def end_vault_def end_token_def
      sweep_sessions_def Let_def split: option.splits)

interpretation sessions: history session_step sessions_ok
  by unfold_locales (rule sessions_ok_step)

lemmas sessions_ok_run = sessions.run_inv

lemma sessions_ok_new [simp]: "sessions_ok (new_session_store ttl idle)"
  by (simp add: sessions_ok_def new_session_store_def)

end
