(* ===== verification/Session_Claims.thy ===== *)
theory Session_Claims
  imports Sessions
begin

text \<open>
  What sessions promise: a token opens a vault only for the caller and terminal it was minted
  for and only within its lifetime; locking ends every session of a vault; the read-only view
  agrees with the check; the client keeps tokens of different terminals and vaults apart.
\<close>

section \<open>Where a session comes from\<close>

definition fresh_session :: "string \<Rightarrow> string \<Rightarrow> nat \<Rightarrow> int \<Rightarrow> go_time \<Rightarrow> session" where
  "fresh_session v surf uid tty now =
     \<lparr>se_vault = v, se_surface = surf, se_uid = uid, se_tty = tty, se_created = now, se_last_used = now\<rparr>"

lemma session_after_step:
  assumes "sessions_ok s" and "map_get (ss_sessions (session_step opn s)) k = Some sess'"
  shows "(\<exists>drawn v surf uid tty now. opn = SMint drawn v surf uid tty now \<and> hex_encode drawn = k \<and>
            sess' = fresh_session v surf uid tty now) \<or>
    (\<exists>sess. map_get (ss_sessions s) k = Some sess \<and>
       (sess' = sess \<or> (\<exists>v uid tty now. opn = SValidate k v uid tty now \<and>
          fst (validate_session k v uid tty now s) \<and> sess' = sess\<lparr>se_last_used := now\<rparr>)))"
proof (cases opn)
  case (SMint drawn v surf uid tty now)
  with assms(2) show ?thesis
    by (cases "k = hex_encode drawn") (auto simp: mint_session_def fresh_session_def)
next
  case (SValidate tok v uid tty now)
  with assms(2) show ?thesis
    by (auto simp: validate_session_def split: option.splits if_splits)
next
  case (SEndVault v)
  with assms show ?thesis
    by (auto simp: end_vault_def sessions_ok_def map_get_filter split: option.splits if_splits)
next
  case (SEndToken tok)
  with assms(2) show ?thesis
    by (auto simp: end_token_def split: option.splits if_splits)
next
  case (SSweep now)
  with assms show ?thesis
    by (auto simp: sweep_sessions_def Let_def sessions_ok_def map_get_filter split: option.splits if_splits)
qed

definition minted_as :: "session_op list \<Rightarrow> string \<Rightarrow> session \<Rightarrow> bool" where
  "minted_as h k sess \<longleftrightarrow> (\<exists>drawn. hex_encode drawn = k \<and>
     SMint drawn (se_vault sess) (se_surface sess) (se_uid sess) (se_tty sess) (se_created sess) \<in> set h)"

lemma session_origin:
  assumes "map_get (ss_sessions (fold session_step h (new_session_store ttl idle))) k = Some sess"
  shows "minted_as h k sess"
  using assms
proof (induction h arbitrary: sess rule: rev_induct)
  case Nil
  then show ?case by (simp add: new_session_store_def)
next
  case (snoc opn h)
  let ?s = "fold session_step h (new_session_store ttl idle)"
  have "sessions_ok ?s" by (simp add: sessions_ok_run)
  moreover have "map_get (ss_sessions (session_step opn ?s)) k = Some sess"
    using snoc.prems by simp
  ultimately consider
      (mint) drawn v surf uid tty now where "opn = SMint drawn v surf uid tty now" "hex_encode drawn = k"
        "sess = fresh_session v surf uid tty now"
    | (old) sess0 where "map_get (ss_sessions ?s) k = Some sess0" "\<exists>u. sess = sess0\<lparr>se_last_used := u\<rparr>"
  proof -
    assume ok: "sessions_ok ?s" and get: "map_get (ss_sessions (session_step opn ?s)) k = Some sess"
    from session_after_step [OF ok get] that show thesis
    proof (elim disjE exE conjE)
      fix sess0 assume "map_get (ss_sessions ?s) k = Some sess0" "sess = sess0"
      with that(2) [of sess0] show thesis by (metis session.surjective session.update_convs(6))
    qed blast+
  qed
  then show ?case
  proof cases
    case mint
    then show ?thesis by (auto simp: minted_as_def fresh_session_def)
  next
    case old
    with snoc.IH have "minted_as h k sess0" by blast
    with old(2) show ?thesis by (auto simp: minted_as_def)
  qed
qed

text \<open>
  C34. A session opens a vault only where it was made: when a token is accepted, it was minted
  for this very vault and uid, on the caller's terminal (or without one), and less than the
  absolute lifetime ago. Using a session never prolongs that lifetime.
\<close>

theorem validated_was_minted:
  assumes "fst (validate_session tok v uid tty now (fold session_step h (new_session_store ttl idle)))"
  shows "\<exists>drawn surf tty0 t0. hex_encode drawn = tok \<and> SMint drawn v surf uid tty0 t0 \<in> set h \<and>
    (tty0 = 0 \<or> tty0 = tty) \<and> (ttl \<le> 0 \<or> time_sub now t0 < ttl)"
proof -
  let ?s = "fold session_step h (new_session_store ttl idle)"
  obtain sess where s: "map_get (ss_sessions ?s) tok = Some sess" "bound_to sess v uid tty" "\<not> ttl_over ?s now sess"
    using assms by (auto simp: validate_session_def split: option.splits if_splits)
  have "ss_ttl ?s = ttl" by (simp add: new_session_store_def)
  with s session_origin [OF s(1)] show ?thesis
    unfolding minted_as_def bound_to_def ttl_over_def by (metis linorder_not_le)
qed

definition ex_sessions :: "session_op list" where
  "ex_sessions = [SMint ''t'' ''default'' ''cli'' 501 7 0, SValidate (hex_encode ''t'') ''default'' 501 7 5]"

lemma ex_sessions_valid:
  "fst (validate_session (hex_encode ''t'') ''default'' 501 7 9 (fold session_step ex_sessions (new_session_store 10 6)))"
  by (simp add: ex_sessions_def new_session_store_def mint_session_def validate_session_def bound_to_def ttl_over_def
      idle_over_def time_sub_def max_duration_def min_duration_def)

theorem validated_was_minted_witness:
  "\<exists>drawn surf tty0 t0. hex_encode drawn = hex_encode ''t'' \<and> SMint drawn ''default'' surf 501 tty0 t0 \<in> set ex_sessions \<and>
    (tty0 = 0 \<or> tty0 = 7) \<and> ((10::int) \<le> 0 \<or> time_sub 9 t0 < 10)"
  using validated_was_minted [OF ex_sessions_valid] .

section \<open>Locking\<close>

definition no_session_of :: "string \<Rightarrow> session_store \<Rightarrow> bool" where
  "no_session_of v s \<longleftrightarrow> sessions_ok s \<and> (\<forall>k sess. map_get (ss_sessions s) k = Some sess \<longrightarrow> se_vault sess \<noteq> v)"

lemma no_session_step:
  assumes "no_session_of v s" and "\<forall>drawn surf uid tty now. opn \<noteq> SMint drawn v surf uid tty now"
  shows "no_session_of v (session_step opn s)"
proof -
  have ok: "sessions_ok s" using assms(1) by (simp add: no_session_of_def)
  have "se_vault sess \<noteq> v" if "map_get (ss_sessions (session_step opn s)) k = Some sess" for k sess
    using session_after_step [OF ok that] assms by (fastforce simp: no_session_of_def fresh_session_def)
  then show ?thesis using ok by (simp add: no_session_of_def sessions_ok_step)
qed

text \<open>
  Locking a vault ends all its sessions: after \<open>endVault\<close> no token whatever is accepted
  for that vault, by any caller, until a session for it is minted again.
\<close>

theorem locked_vault_has_no_session:
  assumes "sessions_ok s" and "\<forall>drawn surf uid tty now. SMint drawn v surf uid tty now \<notin> set h"
  shows "\<not> fst (validate_session tok v uid tty now (fold session_step h (snd (end_vault v s))))"
proof -
  have "no_session_of v (snd (end_vault v s))"
    using assms(1) sessions_ok_step [OF assms(1), of "SEndVault v"]
    by (auto simp: no_session_of_def end_vault_def sessions_ok_def map_get_filter split: option.splits if_splits)
  then have "no_session_of v (fold session_step h (snd (end_vault v s)))"
    using assms(2)
  proof (induction h rule: rev_induct)
    case (snoc opn h)
    then have "no_session_of v (fold session_step h (snd (end_vault v s)))" by simp
    moreover have "\<forall>drawn surf uid tty now. opn \<noteq> SMint drawn v surf uid tty now"
      using snoc.prems(2) by (metis in_set_conv_decomp)
    ultimately show ?case by (simp add: no_session_step)
  qed simp
  then show ?thesis
    by (auto simp: no_session_of_def validate_session_def bound_to_def split: option.splits)
qed

theorem locked_vault_has_no_session_witness:
  "\<not> fst (validate_session (hex_encode ''t'') ''default'' 501 7 9
      (fold session_step [SMint ''u'' ''work'' ''cli'' 501 7 8]
        (snd (end_vault ''default'' (fold session_step ex_sessions (new_session_store 10 6))))))"
  by (rule locked_vault_has_no_session [OF sessions_ok_run [OF sessions_ok_new]]) simp

section \<open>The read-only view\<close>

text \<open>
  What \<open>status\<close> shows is what the next request meets: \<open>sessionInfo\<close> says active exactly
  when \<open>validate\<close> would accept, and the expiry it reports is the instant from which, left
  unused, the session is no longer accepted; without a reported expiry it stays valid.
\<close>

theorem session_info_agrees:
  assumes "ss_ttl s \<le> max_duration" and "ss_idle s \<le> max_duration"
    and "session_info tok v uid tty now s = (active, expiry)"
  shows "active = fst (validate_session tok v uid tty now s) \<and>
    (active \<longrightarrow> (\<forall>t \<ge> now. fst (validate_session tok v uid tty t s) \<longleftrightarrow>
       (case expiry of None \<Rightarrow> True | Some e \<Rightarrow> t < e)))"
proof -
  have ttl: "ttl_over s t sess \<longleftrightarrow> ss_ttl s > 0 \<and> time_add (se_created sess) (ss_ttl s) \<le> t" for t sess
    using time_sub_ge_iff [of "ss_ttl s" t "se_created sess"] assms(1)
    by (auto simp: ttl_over_def time_add_def min_duration_def)
  have idle: "idle_over s t sess \<longleftrightarrow> ss_idle s > 0 \<and> time_add (se_last_used sess) (ss_idle s) \<le> t" for t sess
    using time_sub_ge_iff [of "ss_idle s" t "se_last_used sess"] assms(2)
    by (auto simp: idle_over_def time_add_def min_duration_def)
  show ?thesis
    using assms(3) by (auto simp: session_info_def validate_session_def ttl idle Let_def split: option.splits if_splits)
qed

theorem session_info_agrees_witness:
  "fst (validate_session (hex_encode ''t'') ''default'' 501 7 9
      (fold session_step ex_sessions (new_session_store 10 6))) \<and>
   \<not> fst (validate_session (hex_encode ''t'') ''default'' 501 7 10
      (fold session_step ex_sessions (new_session_store 10 6)))"
proof -
  let ?s = "fold session_step ex_sessions (new_session_store 10 6)"
  have "session_info (hex_encode ''t'') ''default'' 501 7 6 ?s = (True, Some 10)"
    by (simp add: ex_sessions_def new_session_store_def mint_session_def validate_session_def bound_to_def ttl_over_def
      idle_over_def time_sub_def max_duration_def min_duration_def session_info_def time_add_def)
  moreover have "ss_ttl ?s \<le> max_duration" "ss_idle ?s \<le> max_duration"
    by (simp_all add: new_session_store_def max_duration_def)
  ultimately have "\<forall>t \<ge> 6. fst (validate_session (hex_encode ''t'') ''default'' 501 7 t ?s) \<longleftrightarrow> t < 10"
    using session_info_agrees [of ?s] by fastforce
  then show ?thesis by simp
qed

section \<open>The client's files\<close>

lemma file_key_inj: "int_dec d @ [CHR 0x00] @ v = int_dec d' @ [CHR 0x00] @ v' \<Longrightarrow> d = d' \<and> v = v'"
proof -
  assume eq: "int_dec d @ [CHR 0x00] @ v = int_dec d' @ [CHR 0x00] @ v'"
  have nul: "CHR 0x00 \<notin> set (int_dec i)" for i
    using int_dec_range [of "CHR 0x00" i] by auto
  have "split_first CHR 0x00 (int_dec d @ CHR 0x00 # v) = split_first CHR 0x00 (int_dec d' @ CHR 0x00 # v')"
    using eq by simp
  then show ?thesis by (auto simp: split_first_append [OF nul] dest: int_dec_inj)
qed

text \<open>
  The client finds the token it saved on this terminal for this vault, and saving or
  deleting one leaves the tokens of other terminals and vaults alone, unless the first 16
  bytes of SHA-256 collide on the two names; without a terminal nothing is read or written.
\<close>

theorem saved_token_is_found:
  assumes "token \<noteq> []"
    and "save_token_with_dev sha256 None dir dev v token fs = (Inr (), fs')"
    and "d \<noteq> dev \<or> w \<noteq> v \<Longrightarrow>
      take 16 (sha256 (int_dec d @ [CHR 0x00] @ w)) \<noteq> take 16 (sha256 (int_dec dev @ [CHR 0x00] @ v))"
  shows "load_token_with_dev sha256 fs' dir d w =
      (if d = 0 then None else if d = dev \<and> w = v then Some token else load_token_with_dev sha256 fs dir d w) \<and>
    load_token_with_dev sha256 (delete_token_with_dev sha256 dir dev v fs') dir d w =
      (if d = 0 \<or> (d = dev \<and> w = v) then None else load_token_with_dev sha256 fs dir d w)"
proof -
  have "token_path sha256 dir d w = token_path sha256 dir dev v \<longleftrightarrow> d = dev \<and> w = v"
    using assms(3) hex_encode_inj by (auto simp: token_path_def file_name_for_def)
  then show ?thesis
    using assms(1,2)
    by (auto simp: load_token_with_dev_def save_token_with_dev_def delete_token_with_dev_def split: if_splits)
qed

theorem saved_token_is_found_witness:
  "load_token_with_dev (\<lambda>x. rev x) (map_put [] (token_path (\<lambda>x. rev x) ''d'' 3 ''v'') ''tok'') ''d'' 3 ''v'' = Some ''tok''"
  using saved_token_is_found [of "''tok''" "\<lambda>x. rev x" "''d''" 3 "''v''" "[]" _ 3 "''v''"]
  by (simp add: save_token_with_dev_def)

text \<open>The path reported for this terminal is not the path the token was saved under.\<close>

lemma reported_token_path_is_not_the_file:
  assumes "dev \<noteq> 0" and "token \<noteq> []"
  shows "case token_path_for_this_tty sha256 dev dir v of None \<Rightarrow> False
    | Some path \<Rightarrow> map_get (snd (save_token_with_dev sha256 None dir dev v token [])) path = None"
  using assms by (simp add: token_path_for_this_tty_def save_token_with_dev_def token_path_def sessions_dir_def)

end
