(* ===== verification/Rate_Limit.thy ===== *)
theory Rate_Limit
  imports Go_Prelude
begin

text \<open>
  The throttle on wrong passwords: \<open>internal/auth/ratelimit.go\<close>. The state in memory and the
  one on disk are kept apart, so that a restart is an operation too. The multiplier is a
  whole number (the default is 2): products of whole numbers below 2 to the 53 are exact in
  the code's float64, and the loop stops at the first one that reaches the cap.
\<close>

section \<open>State\<close>

record limiter_state =
  ls_failures :: int
  ls_next :: go_time

record rate_limiter =
  rl_base :: duration
  rl_max :: duration
  rl_multiplier :: int
  rl_state :: limiter_state
  rl_disk :: "limiter_state option"

definition DefaultBackoffBase :: duration where "DefaultBackoffBase = 500 * millisecond"
definition DefaultBackoffMax :: duration where "DefaultBackoffMax = 5 * minute"
definition DefaultBackoffMultiplier :: int where "DefaultBackoffMultiplier = 2"

definition clean_slate :: limiter_state where
  "clean_slate = \<lparr>ls_failures = 0, ls_next = 0\<rparr>"

text \<open>\<open>None\<close> on disk is a missing, unreadable or corrupt file.\<close>

definition load_limiter :: "limiter_state option \<Rightarrow> limiter_state \<Rightarrow> limiter_state" where
  "load_limiter disk s = (case disk of None \<Rightarrow> s | Some d \<Rightarrow> d)"

definition new_rate_limiter :: "limiter_state option \<Rightarrow> rate_limiter" where
  "new_rate_limiter disk =
     \<lparr>rl_base = DefaultBackoffBase, rl_max = DefaultBackoffMax, rl_multiplier = DefaultBackoffMultiplier,
      rl_state = load_limiter disk clean_slate, rl_disk = disk\<rparr>"

definition set_backoff :: "duration \<Rightarrow> duration \<Rightarrow> int \<Rightarrow> rate_limiter \<Rightarrow> rate_limiter" where
  "set_backoff base mx mult r = r\<lparr>rl_base := base, rl_max := mx, rl_multiplier := mult\<rparr>"

section \<open>Operations\<close>

text \<open>\<open>Some d\<close> is the \<open>RetryAfterError\<close> with the remaining wait.\<close>

definition check_limiter :: "go_time \<Rightarrow> rate_limiter \<Rightarrow> duration option" where
  "check_limiter now r =
     (if time_before now (ls_next (rl_state r)) then Some (time_sub (ls_next (rl_state r)) now) else None)"

fun delay_loop :: "duration \<Rightarrow> int \<Rightarrow> nat \<Rightarrow> int \<Rightarrow> duration" where
  "delay_loop mx mult 0 delay = (if delay > mx then mx else delay)"
| "delay_loop mx mult (Suc n) delay =
     (let delay = delay * mult in if delay \<ge> mx then mx else delay_loop mx mult n delay)"

definition compute_delay :: "rate_limiter \<Rightarrow> int \<Rightarrow> duration" where
  "compute_delay r failures =
     (if failures \<le> 0 then 0 else delay_loop (rl_max r) (rl_multiplier r) (nat (failures - 1)) (rl_base r))"

definition persist_limiter :: "string option \<Rightarrow> rate_limiter \<Rightarrow> (string + unit) \<times> rate_limiter" where
  "persist_limiter ioErr r =
     (case ioErr of Some e \<Rightarrow> (Inl e, r) | None \<Rightarrow> (Inr (), r\<lparr>rl_disk := Some (rl_state r)\<rparr>))"

definition record_success :: "string option \<Rightarrow> rate_limiter \<Rightarrow> (string + unit) \<times> rate_limiter" where
  "record_success ioErr r = persist_limiter ioErr (r\<lparr>rl_state := \<lparr>ls_failures = 0, ls_next = 0\<rparr>\<rparr>)"

definition record_failure :: "string option \<Rightarrow> go_time \<Rightarrow> rate_limiter \<Rightarrow> (string + unit) \<times> rate_limiter" where
  "record_failure ioErr now r =
     (let f = ls_failures (rl_state r) + 1; delay = compute_delay r f in
      persist_limiter ioErr (r\<lparr>rl_state := \<lparr>ls_failures = f, ls_next = time_add now delay\<rparr>\<rparr>))"

definition limiter_failures :: "rate_limiter \<Rightarrow> int" where
  "limiter_failures r = ls_failures (rl_state r)"

section \<open>The delay\<close>

lemma delay_loop_closed:
  assumes "0 \<le> d" "1 \<le> mult" "0 \<le> mx"
  shows "delay_loop mx mult n d = min mx (d * mult ^ n)"
  using assms
proof (induction n arbitrary: d)
  case 0
  then show ?case by simp
next
  case (Suc n)
  show ?case
  proof (cases "d * mult \<ge> mx")
    case True
    have "1 \<le> mult ^ n" using Suc.prems(2) by (rule one_le_power)
    then have "d * mult \<le> d * mult * mult ^ n"
      using Suc.prems mult_left_mono [of 1 "mult ^ n" "d * mult"] by simp
    then show ?thesis using True by (simp add: mult.assoc)
  next
    case False
    then show ?thesis using Suc.IH [of "d * mult"] Suc.prems by (simp add: mult.assoc)
  qed
qed

definition sane_backoff :: "rate_limiter \<Rightarrow> bool" where
  "sane_backoff r \<longleftrightarrow> 0 \<le> rl_base r \<and> 1 \<le> rl_multiplier r \<and> 0 \<le> rl_max r"

lemma sane_new [simp]: "sane_backoff (new_rate_limiter disk)"
  by (simp add: sane_backoff_def new_rate_limiter_def DefaultBackoffBase_def DefaultBackoffMax_def
      DefaultBackoffMultiplier_def time_defs)

lemma compute_delay_nonneg: "sane_backoff r \<Longrightarrow> 0 \<le> compute_delay r f"
  by (simp add: sane_backoff_def compute_delay_def delay_loop_closed)

lemma persist_simps [simp]:
  "rl_base (snd (persist_limiter e r)) = rl_base r" "rl_max (snd (persist_limiter e r)) = rl_max r"
  "rl_multiplier (snd (persist_limiter e r)) = rl_multiplier r" "rl_state (snd (persist_limiter e r)) = rl_state r"
  by (simp_all add: persist_limiter_def split: option.splits)

lemma after_failure [simp]:
  "rl_base (snd (record_failure e now r)) = rl_base r" "rl_max (snd (record_failure e now r)) = rl_max r"
  "rl_multiplier (snd (record_failure e now r)) = rl_multiplier r"
  "ls_failures (rl_state (snd (record_failure e now r))) = ls_failures (rl_state r) + 1"
  "ls_next (rl_state (snd (record_failure e now r))) = now + compute_delay r (ls_failures (rl_state r) + 1)"
  by (simp_all add: record_failure_def Let_def time_add_def)

section \<open>Sequences of wrong guesses\<close>

text \<open>
  A guess is admitted by \<open>Check\<close> at one time and recorded as wrong at a later one; between two
  guesses the daemon may be restarted, which reloads what is on disk.
\<close>

datatype guess_step = WrongGuess go_time go_time | RestartDaemon

definition restart_limiter :: "rate_limiter \<Rightarrow> rate_limiter" where
  "restart_limiter r = r\<lparr>rl_state := load_limiter (rl_disk r) clean_slate\<rparr>"

fun guesses_admitted :: "rate_limiter \<Rightarrow> guess_step list \<Rightarrow> bool" where
  "guesses_admitted r [] = True"
| "guesses_admitted r (WrongGuess tc tf # gs) =
     (check_limiter tc r = None \<and> tc \<le> tf \<and> guesses_admitted (snd (record_failure None tf r)) gs)"
| "guesses_admitted r (RestartDaemon # gs) = guesses_admitted (restart_limiter r) gs"

fun wrong_guesses :: "guess_step list \<Rightarrow> nat" where
  "wrong_guesses [] = 0"
| "wrong_guesses (WrongGuess _ _ # gs) = Suc (wrong_guesses gs)"
| "wrong_guesses (RestartDaemon # gs) = wrong_guesses gs"

definition total_delay :: "rate_limiter \<Rightarrow> int \<Rightarrow> nat \<Rightarrow> duration" where
  "total_delay r f n = (\<Sum>k<n. compute_delay r (f + 1 + int k))"

lemma total_delay_Suc: "total_delay r f (Suc n) = compute_delay r (f + 1) + total_delay r (f + 1) n"
  unfolding total_delay_def lessThan_Suc_eq_insert_0
  by (subst sum.insert) (auto simp: sum.reindex o_def add.assoc)

lemma compute_delay_cong:
  "rl_base r = rl_base r' \<Longrightarrow> rl_max r = rl_max r' \<Longrightarrow> rl_multiplier r = rl_multiplier r' \<Longrightarrow>
   compute_delay r f = compute_delay r' f"
  by (simp add: compute_delay_def)

lemma guesses_take_time:
  assumes "guesses_admitted r (gs @ [WrongGuess tc tf])" and "sane_backoff r"
    and "rl_disk r = Some (rl_state r)"
  shows "ls_next (rl_state r) + total_delay r (ls_failures (rl_state r)) (wrong_guesses gs) \<le> tc"
  using assms
proof (induction gs arbitrary: r)
  case Nil
  then show ?case by (simp add: check_limiter_def total_delay_def split: if_splits)
next
  case (Cons g gs)
  show ?case
  proof (cases g)
    case (WrongGuess c f)
    let ?r = "snd (record_failure None f r)"
    have adm: "check_limiter c r = None" "c \<le> f" "guesses_admitted ?r (gs @ [WrongGuess tc tf])"
      using Cons.prems(1) WrongGuess by auto
    have "rl_disk ?r = Some (rl_state ?r)" "sane_backoff ?r"
      using Cons.prems(2) by (simp_all add: record_failure_def persist_limiter_def sane_backoff_def Let_def)
    from Cons.IH [OF adm(3) this(2) this(1)]
    have "ls_next (rl_state ?r) + total_delay ?r (ls_failures (rl_state ?r)) (wrong_guesses gs) \<le> tc" .
    moreover have "total_delay ?r f' n = total_delay r f' n" for f' n
      by (simp add: total_delay_def compute_delay_cong [of ?r r])
    moreover have "ls_next (rl_state r) \<le> f"
      using adm by (simp add: check_limiter_def split: if_splits)
    ultimately show ?thesis by (simp add: WrongGuess total_delay_Suc)
  next
    case RestartDaemon
    have "restart_limiter r = r"
      using Cons.prems(3) by (simp add: restart_limiter_def load_limiter_def)
    with Cons RestartDaemon show ?thesis by simp
  qed
qed



text \<open>
  A right password clears the throttle at once and for good: after \<open>RecordSuccess\<close> the next
  attempt is admitted at any time after Go's zero time, also after a restart when the write
  succeeded, and the next failure costs only the base delay again.
\<close>

theorem success_clears_throttle:
  assumes "0 \<le> now" and "sane_backoff r"
  shows "check_limiter now (snd (record_success e r)) = None \<and>
    check_limiter now (restart_limiter (snd (record_success None r))) = None \<and>
    limiter_failures (snd (record_success e r)) = 0 \<and>
    ls_next (rl_state (snd (record_failure e' now (snd (record_success e r))))) = now + min (rl_max r) (rl_base r)"
  using assms
  by (cases e) (simp_all add: record_success_def check_limiter_def limiter_failures_def restart_limiter_def
      load_limiter_def persist_limiter_def compute_delay_def delay_loop_closed sane_backoff_def)

theorem success_clears_throttle_witness:
  "check_limiter 3 (snd (record_success None (snd (record_failure None 2 (new_rate_limiter None))))) = None"
proof -
  have "sane_backoff (snd (record_failure None 2 (new_rate_limiter None)))"
    using sane_new [of None] by (simp add: sane_backoff_def)
  from success_clears_throttle [OF _ this, of 3] show ?thesis by simp
qed

end
