(* ===== verification/Audit_Log.thy ===== *)
theory Audit_Log
  imports Go_Prelude
begin

text \<open>
  The per-vault, HMAC-chained audit log: \<open>internal/audit/audit.go\<close>. The log directory is a map
  from file names to raw bytes, so torn lines are representable. HMAC-SHA-256 and the JSON
  decoder are arguments; the encoder of an event is written out. \<open>audit_io\<close> says how the file
  and database operations of one call go, down to how many bytes of a line are written before
  a failure.
\<close>

section \<open>Events and their bytes\<close>

record reseal_marker =
  rm_broken_index :: int
  rm_observed_head :: string
  rm_expected_head :: string
  rm_reason :: string
  rm_by :: string

record event =
  ev_index :: nat
  ev_ts :: int
  ev_vault_id :: string
  ev_vault_name :: string
  ev_project :: string
  ev_env :: string
  ev_kind :: string
  ev_entry_name :: string
  ev_byn_path :: string
  ev_command :: string
  ev_op :: string
  ev_outcome :: string
  ev_caller_uid :: nat
  ev_caller_pid :: int
  ev_caller_comm :: string
  ev_caller_pcomm :: string
  ev_caller_surface :: string
  ev_error_code :: string
  ev_reseal :: "reseal_marker option"
  ev_hmac :: string

definition no_event :: event where
  "no_event = \<lparr>ev_index = 0, ev_ts = 0, ev_vault_id = [], ev_vault_name = [], ev_project = [], ev_env = [],
     ev_kind = [], ev_entry_name = [], ev_byn_path = [], ev_command = [], ev_op = [], ev_outcome = [],
     ev_caller_uid = 0, ev_caller_pid = 0, ev_caller_comm = [], ev_caller_pcomm = [], ev_caller_surface = [],
     ev_error_code = [], ev_reseal = None, ev_hmac = []\<rparr>"

text \<open>
  The encoder's strings, for text that is valid UTF-8: quotes and backslashes are escaped,
  control characters and the characters HTML treats specially become \<open>\u00XX\<close>, and the two
  Unicode line separators, whose encodings are matched here, are escaped too.
\<close>

definition json_char :: "char \<Rightarrow> string" where
  "json_char c = (let n = of_char c :: nat in
     if n = 34 \<or> n = 92 then [CHR 0x5C, c]
     else if n = 8 then [CHR 0x5C, CHR ''b''] else if n = 12 then [CHR 0x5C, CHR ''f'']
     else if n = 10 then [CHR 0x5C, CHR ''n''] else if n = 13 then [CHR 0x5C, CHR ''r'']
     else if n = 9 then [CHR 0x5C, CHR ''t'']
     else if n < 32 \<or> n = 60 \<or> n = 62 \<or> n = 38 then [CHR 0x5C] @ ''u00'' @ hex_encode [c]
     else [c])"

definition line_separator :: string where "line_separator = map char_of [0xE2, 0x80, 0xA8 :: nat]"
definition paragraph_separator :: string where "paragraph_separator = map char_of [0xE2, 0x80, 0xA9 :: nat]"

fun json_chars :: "string \<Rightarrow> string" where
  "json_chars [] = []"
| "json_chars (c # s) =
     (if prefix line_separator (c # s) then [CHR 0x5C] @ ''u2028'' @ json_chars (drop 2 s)
      else if prefix paragraph_separator (c # s) then [CHR 0x5C] @ ''u2029'' @ json_chars (drop 2 s)
      else json_char c @ json_chars s)"

definition json_string :: "string \<Rightarrow> string" where
  "json_string s = [CHR 0x22] @ json_chars s @ [CHR 0x22]"

definition json_field :: "string \<Rightarrow> string \<Rightarrow> string" where
  "json_field k v = json_string k @ '':'' @ v"

definition json_object :: "string list \<Rightarrow> string" where
  "json_object fs = ''{'' @ join '','' fs @ ''}''"

definition str_field :: "string \<Rightarrow> string \<Rightarrow> string list" where
  "str_field k s = [json_field k (json_string s)]"

definition opt_str_field :: "string \<Rightarrow> string \<Rightarrow> string list" where
  "opt_str_field k s = (if s = [] then [] else str_field k s)"

definition opt_int_field :: "string \<Rightarrow> int \<Rightarrow> string list" where
  "opt_int_field k i = (if i = 0 then [] else [json_field k (int_dec i)])"

definition reseal_json :: "reseal_marker \<Rightarrow> string" where
  "reseal_json m = json_object
     ([json_field ''broken_index'' (int_dec (rm_broken_index m))] @
      str_field ''observed_head'' (rm_observed_head m) @ str_field ''expected_head'' (rm_expected_head m) @
      str_field ''reason'' (rm_reason m) @ str_field ''by'' (rm_by m))"

definition event_json :: "event \<Rightarrow> bytes" where
  "event_json e = json_object
     ([json_field ''ts'' (int_dec (ev_ts e))] @
      str_field ''vault_id'' (ev_vault_id e) @ str_field ''vault_name'' (ev_vault_name e) @
      opt_str_field ''project'' (ev_project e) @ opt_str_field ''env'' (ev_env e) @
      opt_str_field ''kind'' (ev_kind e) @ opt_str_field ''entry_name'' (ev_entry_name e) @
      opt_str_field ''byn_path'' (ev_byn_path e) @ opt_str_field ''command'' (ev_command e) @
      str_field ''op'' (ev_op e) @ str_field ''outcome'' (ev_outcome e) @
      opt_int_field ''caller_uid'' (int (ev_caller_uid e)) @ opt_int_field ''caller_pid'' (ev_caller_pid e) @
      opt_str_field ''caller_comm'' (ev_caller_comm e) @ opt_str_field ''caller_pcomm'' (ev_caller_pcomm e) @
      opt_str_field ''caller_surface'' (ev_caller_surface e) @ opt_str_field ''error_code'' (ev_error_code e) @
      (case ev_reseal e of None \<Rightarrow> [] | Some m \<Rightarrow> [json_field ''reseal'' (reseal_json m)]) @
      str_field ''hmac_chain'' (ev_hmac e))"

definition event_bytes :: "event \<Rightarrow> bytes" where
  "event_bytes e = event_json (e\<lparr>ev_hmac := []\<rparr>)"

section \<open>Files\<close>

definition newline :: char where "newline = CHR 0x0A"

fun split_lines_from :: "bytes \<Rightarrow> bytes \<Rightarrow> bytes list" where
  "split_lines_from cur [] = (if cur = [] then [] else [cur])"
| "split_lines_from cur (b # raw) =
     (if b = newline then cur # split_lines_from [] raw else split_lines_from (cur @ [b]) raw)"

definition split_lines :: "bytes \<Rightarrow> bytes list" where
  "split_lines raw = split_lines_from [] raw"

text \<open>The two nested loops of \<open>sortStrings\<close>.\<close>

fun sink :: "nat \<Rightarrow> string list \<Rightarrow> string list" where
  "sink 0 s = s"
| "sink (Suc j) s = (if s ! j > s ! Suc j then sink j (s[j := s ! Suc j, Suc j := s ! j]) else s)"

definition sort_strings :: "string list \<Rightarrow> string list" where
  "sort_strings s = fold sink [1..<length s] s"

record audit_io =
  ai_readdir :: "string option"
  ai_unreadable :: "string \<Rightarrow> string option"
  ai_append :: "(string \<times> nat) option"
  ai_meta_get :: "string option"
  ai_meta_set :: "string option"

definition audit_io_ok :: audit_io where
  "audit_io_ok = \<lparr>ai_readdir = None, ai_unreadable = (\<lambda>_. None), ai_append = None, ai_meta_get = None, ai_meta_set = None\<rparr>"

record audit_world =
  aw_dir :: "bytes go_map"
  aw_meta :: "string go_map"

definition MetaKeySeed :: string where "MetaKeySeed = ''audit_chain_seed''"
definition MetaKeyHead :: string where "MetaKeyHead = ''audit_chain_head''"

definition file_bytes :: "audit_world \<Rightarrow> string \<Rightarrow> bytes" where
  "file_bytes w f = map_at (aw_dir w) f"

text \<open>
  The name of the month's file, \<open>when.Format("2006-01")\<close> in UTC: the day count of a Unix time
  in nanoseconds is turned into a date of the proleptic Gregorian calendar, counting years
  from March.
\<close>

definition civil_month :: "int \<Rightarrow> int \<times> int" where
  "civil_month ts =
     (let z = ts div 86400000000000 + 719468; era = z div 146097; doe = z - era * 146097;
          yoe = (doe - doe div 1460 + doe div 36524 - doe div 146096) div 365;
          doy = doe - (365 * yoe + yoe div 4 - yoe div 100);
          mp = (5 * doy + 2) div 153;
          m = if mp < 10 then mp + 3 else mp - 9
      in (yoe + era * 400 + (if m \<le> 2 then 1 else 0), m))"

definition pad_dec :: "nat \<Rightarrow> int \<Rightarrow> string" where
  "pad_dec n i = replicate (n - length (int_dec i)) CHR ''0'' @ int_dec i"

definition log_name :: "int \<Rightarrow> string" where
  "log_name ts = (case civil_month ts of (y, m) \<Rightarrow> pad_dec 4 y @ ''-'' @ pad_dec 2 m @ ''.log'')"

section \<open>The logger\<close>

record logger =
  lg_vault_id :: string
  lg_vault_name :: string
  lg_seed :: bytes
  lg_prev :: string

type_synonym decoder = "bytes \<Rightarrow> event option"

text \<open>
  \<open>lastDiskHead\<close>: the newest file first, its lines bottom-up, skipping what does not parse or
  carries no chain value.
\<close>

definition line_head :: "decoder \<Rightarrow> bytes \<Rightarrow> string option" where
  "line_head unmarshal line =
     (if length line = 0 then None
      else case unmarshal line of None \<Rightarrow> None
      | Some e \<Rightarrow> if ev_hmac e = [] then None else Some (ev_hmac e))"

fun first_some :: "('a \<Rightarrow> 'b option) \<Rightarrow> 'a list \<Rightarrow> 'b option" where
  "first_some f [] = None"
| "first_some f (x # xs) = (case f x of Some y \<Rightarrow> Some y | None \<Rightarrow> first_some f xs)"

fun disk_head_files :: "decoder \<Rightarrow> audit_io \<Rightarrow> audit_world \<Rightarrow> string list \<Rightarrow> string + string option" where
  "disk_head_files unmarshal io w [] = Inr None"
| "disk_head_files unmarshal io w (f # fs) =
     (case ai_unreadable io f of
        Some e \<Rightarrow> Inl e
      | None \<Rightarrow>
          (case first_some (line_head unmarshal) (rev (split_lines (file_bytes w f))) of
             Some h \<Rightarrow> Inr (Some h)
           | None \<Rightarrow> disk_head_files unmarshal io w fs))"

definition last_disk_head :: "decoder \<Rightarrow> audit_io \<Rightarrow> audit_world \<Rightarrow> string + string option" where
  "last_disk_head unmarshal io w =
     (case ai_readdir io of
        Some e \<Rightarrow> Inl e
      | None \<Rightarrow> disk_head_files unmarshal io w (rev (sort_strings (map fst (aw_dir w)))))"

definition new_logger ::
  "decoder \<Rightarrow> audit_io \<Rightarrow> string \<Rightarrow> string \<Rightarrow> audit_world \<Rightarrow> (string + logger) \<times> audit_world" where
  "new_logger unmarshal io vaultID vaultName w =
     (if vaultID = [] \<or> vaultName = [] then (Inl ''audit: empty vault id or name'', w)
      else case ai_meta_get io of Some e \<Rightarrow> (Inl e, w)
      | None \<Rightarrow>
          let seedHex = map_at (aw_meta w) MetaKeySeed in
          if seedHex = [] then (Inl ''audit: chain seed missing'', w)
          else case hex_decode seedHex of
            None \<Rightarrow> (Inl ''audit: bad seed length'', w)
          | Some seed \<Rightarrow>
              if length seed \<noteq> 32 then (Inl ''audit: bad seed length'', w)
              else
                let head = map_at (aw_meta w) MetaKeyHead;
                    lg = (\<lambda>h. \<lparr>lg_vault_id = vaultID, lg_vault_name = vaultName, lg_seed = seed, lg_prev = h\<rparr>) in
                case last_disk_head unmarshal io w of
                  Inl e \<Rightarrow> (Inl e, w)
                | Inr None \<Rightarrow> (Inr (lg head), w)
                | Inr (Some diskHead) \<Rightarrow>
                    if diskHead \<noteq> head then
                      (case ai_meta_set io of
                         Some e \<Rightarrow> (Inl e, w)
                       | None \<Rightarrow> (Inr (lg diskHead), w\<lparr>aw_meta := map_put (aw_meta w) MetaKeyHead diskHead\<rparr>))
                    else (Inr (lg head), w))"

definition compute_chain :: "(bytes \<Rightarrow> bytes \<Rightarrow> bytes) \<Rightarrow> logger \<Rightarrow> event \<Rightarrow> string + string" where
  "compute_chain hmac lg e =
     (if lg_prev lg \<noteq> [] then
        (case hex_decode (lg_prev lg) of
           None \<Rightarrow> Inl ''audit: prev head malformed''
         | Some prev \<Rightarrow> Inr (hex_encode (hmac (lg_seed lg) (prev @ event_bytes e))))
      else Inr (hex_encode (hmac (lg_seed lg) (event_bytes e))))"

definition append_line :: "audit_io \<Rightarrow> string \<Rightarrow> bytes \<Rightarrow> audit_world \<Rightarrow> (string + unit) \<times> audit_world" where
  "append_line io fname line w =
     (case ai_append io of
        Some (e, n) \<Rightarrow> (Inl e, if n = 0 then w
            else w\<lparr>aw_dir := map_put (aw_dir w) fname (file_bytes w fname @ take n line)\<rparr>)
      | None \<Rightarrow> (Inr (), w\<lparr>aw_dir := map_put (aw_dir w) fname (file_bytes w fname @ line)\<rparr>))"

definition append_event ::
  "(bytes \<Rightarrow> bytes \<Rightarrow> bytes) \<Rightarrow> audit_io \<Rightarrow> int \<Rightarrow> event \<Rightarrow> logger \<times> audit_world \<Rightarrow> (string + string) \<times> logger \<times> audit_world" where
  "append_event hmac io now e0 lw =
     (case lw of (lg, w) \<Rightarrow>
       let e = e0\<lparr>ev_ts := now, ev_vault_id := lg_vault_id lg, ev_vault_name := lg_vault_name lg, ev_hmac := []\<rparr> in
       case compute_chain hmac lg e of
         Inl err \<Rightarrow> (Inl err, lg, w)
       | Inr chainHex \<Rightarrow>
           (case append_line io (log_name now) (event_json (e\<lparr>ev_hmac := chainHex\<rparr>) @ [newline]) w of
              (Inl err, w1) \<Rightarrow> (Inl err, lg, w1)
            | (Inr _, w1) \<Rightarrow>
                (case ai_meta_set io of
                   Some err \<Rightarrow> (Inl err, lg, w1)
                 | None \<Rightarrow> (Inr chainHex, lg\<lparr>lg_prev := chainHex\<rparr>,
                     w1\<lparr>aw_meta := map_put (aw_meta w1) MetaKeyHead chainHex\<rparr>))))"

section \<open>Verification\<close>

fun read_lines :: "audit_io \<Rightarrow> audit_world \<Rightarrow> string list \<Rightarrow> string + bytes list" where
  "read_lines io w [] = Inr []"
| "read_lines io w (f # fs) =
     (case ai_unreadable io f of
        Some e \<Rightarrow> Inl e
      | None \<Rightarrow> (case read_lines io w fs of Inl e \<Rightarrow> Inl e
          | Inr out \<Rightarrow> Inr (filter (\<lambda>l. 0 < length l) (split_lines (file_bytes w f)) @ out)))"

definition audit_lines :: "audit_io \<Rightarrow> audit_world \<Rightarrow> string + bytes list" where
  "audit_lines io w =
     (case ai_readdir io of Some e \<Rightarrow> Inl e | None \<Rightarrow> read_lines io w (sort_strings (map fst (aw_dir w))))"

record chain_walk =
  cw_bad :: int
  cw_total :: nat
  cw_acked :: nat
  cw_observed :: string
  cw_expected :: string

definition walk_result :: "int \<Rightarrow> nat \<Rightarrow> nat \<Rightarrow> string \<Rightarrow> string \<Rightarrow> chain_walk" where
  "walk_result bad tot acked obs ex =
     \<lparr>cw_bad = bad, cw_total = tot, cw_acked = acked, cw_observed = obs, cw_expected = ex\<rparr>"

fun collect_markers :: "decoder \<Rightarrow> reseal_marker go_map \<Rightarrow> bytes list \<Rightarrow> reseal_marker go_map" where
  "collect_markers unmarshal acks [] = acks"
| "collect_markers unmarshal acks (line # lines) =
     (case unmarshal line of
        None \<Rightarrow> collect_markers unmarshal acks lines
      | Some e \<Rightarrow> (case ev_reseal e of
          None \<Rightarrow> collect_markers unmarshal acks lines
        | Some m \<Rightarrow> collect_markers unmarshal (map_put acks (rm_observed_head m) m) lines))"

definition compute_with_seed :: "(bytes \<Rightarrow> bytes \<Rightarrow> bytes) \<Rightarrow> bytes \<Rightarrow> bytes \<Rightarrow> event \<Rightarrow> bytes" where
  "compute_with_seed hmac seed prev e = hmac seed (prev @ event_bytes e)"

definition acknowledged :: "reseal_marker go_map \<Rightarrow> string \<Rightarrow> bytes \<Rightarrow> bool" where
  "acknowledged acks observed expected \<longleftrightarrow>
     (case map_get acks observed of None \<Rightarrow> False | Some m \<Rightarrow> rm_expected_head m = hex_encode expected)"

fun walk_lines ::
  "(bytes \<Rightarrow> bytes \<Rightarrow> bytes) \<Rightarrow> decoder \<Rightarrow> bytes \<Rightarrow> reseal_marker go_map \<Rightarrow> bytes \<Rightarrow> nat \<Rightarrow> nat \<Rightarrow> bytes list \<Rightarrow>
   chain_walk \<times> string option" where
  "walk_lines hmac unmarshal seed acks prev idx acked [] = (walk_result (-1) idx acked [] [], None)"
| "walk_lines hmac unmarshal seed acks prev idx acked (line # lines) =
     (case unmarshal line of
        None \<Rightarrow> (walk_result (int idx) idx acked [] [], Some ''audit: parse line'')
      | Some e \<Rightarrow>
          (case hex_decode (ev_hmac e) of
             None \<Rightarrow> (walk_result (int idx) idx acked [] [], Some ''audit: parse hmac'')
           | Some recorded \<Rightarrow>
               let expected = compute_with_seed hmac seed prev e in
               if recorded \<noteq> expected then
                 (if acknowledged acks (ev_hmac e) expected
                  then walk_lines hmac unmarshal seed acks recorded (Suc idx) (Suc acked) lines
                  else (walk_result (int idx) idx acked (ev_hmac e) (hex_encode expected), None))
               else walk_lines hmac unmarshal seed acks recorded (Suc idx) acked lines))"

definition walk_chain ::
  "(bytes \<Rightarrow> bytes \<Rightarrow> bytes) \<Rightarrow> decoder \<Rightarrow> audit_io \<Rightarrow> logger \<Rightarrow> audit_world \<Rightarrow> chain_walk \<times> string option" where
  "walk_chain hmac unmarshal io lg w =
     (case audit_lines io w of
        Inl e \<Rightarrow> (walk_result (-1) 0 0 [] [], Some e)
      | Inr lines \<Rightarrow> walk_lines hmac unmarshal (lg_seed lg) (collect_markers unmarshal [] lines) [] 0 0 lines)"

definition verify_chain ::
  "(bytes \<Rightarrow> bytes \<Rightarrow> bytes) \<Rightarrow> decoder \<Rightarrow> audit_io \<Rightarrow> logger \<Rightarrow> audit_world \<Rightarrow> int \<times> nat \<times> nat \<times> string option" where
  "verify_chain hmac unmarshal io lg w =
     (case walk_chain hmac unmarshal io lg w of (cw, err) \<Rightarrow> (cw_bad cw, cw_total cw, cw_acked cw, err))"

datatype reseal_error = ErrNoBreak | ResealFailed string

definition reseal ::
  "(bytes \<Rightarrow> bytes \<Rightarrow> bytes) \<Rightarrow> decoder \<Rightarrow> audit_io \<Rightarrow> int \<Rightarrow> string \<Rightarrow> string \<Rightarrow> logger \<times> audit_world \<Rightarrow>
   (reseal_error + reseal_marker) \<times> logger \<times> audit_world" where
  "reseal hmac unmarshal io now reason by_whom lw =
     (case walk_chain hmac unmarshal io (fst lw) (snd lw) of
        (cw, Some err) \<Rightarrow> (Inl (ResealFailed err), lw)
      | (cw, None) \<Rightarrow>
          if cw_bad cw < 0 then (Inl ErrNoBreak, lw)
          else
            let m = \<lparr>rm_broken_index = cw_bad cw, rm_observed_head = cw_observed cw,
                     rm_expected_head = cw_expected cw, rm_reason = reason, rm_by = by_whom\<rparr> in
            case append_event hmac io now
                (no_event\<lparr>ev_op := ''audit.reseal'', ev_outcome := ''ok'', ev_reseal := Some m\<rparr>) lw of
              (Inl err, lw') \<Rightarrow> (Inl (ResealFailed err), lw')
            | (Inr _, lw') \<Rightarrow> (Inr m, lw'))"

section \<open>Reading\<close>

record filter_spec =
  fi_byn :: string
  fi_caller :: string
  fi_scope :: string

definition filter_empty :: "filter_spec \<Rightarrow> bool" where
  "filter_empty f \<longleftrightarrow> fi_byn f = [] \<and> fi_caller f = [] \<and> fi_scope f = []"

text \<open>\<open>strings.ToLower\<close> on ASCII letters; other bytes are kept.\<close>

definition lower_char :: "char \<Rightarrow> char" where
  "lower_char c = (let n = of_char c :: nat in if 65 \<le> n \<and> n \<le> 90 then char_of (n + 32) else c)"

definition has_fold :: "string \<Rightarrow> string \<Rightarrow> bool" where
  "has_fold hay needle = contains (map lower_char hay) (map lower_char needle)"

definition event_scope :: "event \<Rightarrow> string" where
  "event_scope e = ev_project e @ (if ev_env e \<noteq> [] then ''/'' @ ev_env e else [])"

definition filter_match :: "filter_spec \<Rightarrow> event \<Rightarrow> bool" where
  "filter_match f e =
     (if fi_byn f \<noteq> [] \<and> \<not> has_fold (ev_byn_path e) (fi_byn f) then False
      else if fi_scope f \<noteq> [] \<and> \<not> has_fold (event_scope e) (fi_scope f) then False
      else if fi_caller f \<noteq> [] \<and> \<not> has_fold (ev_caller_surface e @ '' '' @ ev_caller_comm e @ '' uid='' @
          int_dec (int (ev_caller_uid e))) (fi_caller f) then False
      else True)"

fun tail_lines :: "decoder \<Rightarrow> bool \<Rightarrow> event list \<Rightarrow> bytes list \<Rightarrow> string + event list" where
  "tail_lines unmarshal isCurrent all [] = Inr all"
| "tail_lines unmarshal isCurrent all (line # lines) =
     (if length line = 0 then tail_lines unmarshal isCurrent all lines
      else case unmarshal line of
        None \<Rightarrow> if isCurrent \<and> lines = [] then tail_lines unmarshal isCurrent all lines else Inl ''audit: parse''
      | Some e \<Rightarrow> tail_lines unmarshal isCurrent (all @ [e\<lparr>ev_index := length all\<rparr>]) lines)"

fun tail_files :: "decoder \<Rightarrow> audit_io \<Rightarrow> audit_world \<Rightarrow> event list \<Rightarrow> string list \<Rightarrow> string + event list" where
  "tail_files unmarshal io w all [] = Inr all"
| "tail_files unmarshal io w all (f # fs) =
     (case ai_unreadable io f of
        Some e \<Rightarrow> Inl e
      | None \<Rightarrow> (case tail_lines unmarshal (fs = []) all (split_lines (file_bytes w f)) of
          Inl e \<Rightarrow> Inl e | Inr all' \<Rightarrow> tail_files unmarshal io w all' fs))"

definition tail_log :: "decoder \<Rightarrow> audit_io \<Rightarrow> int \<Rightarrow> filter_spec \<Rightarrow> audit_world \<Rightarrow> string + event list" where
  "tail_log unmarshal io n flt w =
     (case ai_readdir io of
        Some e \<Rightarrow> Inl e
      | None \<Rightarrow>
          (case tail_files unmarshal io w [] (sort_strings (map fst (aw_dir w))) of
             Inl e \<Rightarrow> Inl e
           | Inr all \<Rightarrow>
               let all = (if \<not> filter_empty flt then filter (filter_match flt) all else all) in
               Inr (if n > 0 \<and> int (length all) > n then drop (length all - nat n) all else all)))"

end
