(* ===== verification/Audit_Props.thy ===== *)
theory Audit_Props
  imports Audit_Log "HOL-Library.Multiset"
begin

text \<open>
  Lemmas on the audit log: the hand-written sort is a sort, lines and files, the encoder never
  writes a newline, and what one append does to the lines of the whole log.
\<close>

section \<open>The hand-written sort\<close>

lemma sink_insort:
  "sorted xs \<Longrightarrow> sink (length xs) (xs @ y # zs) = insort y xs @ zs"
proof (induction xs arbitrary: zs rule: rev_induct)
  case Nil
  then show ?case by simp
next
  case (snoc x xs)
  have sorted: "sorted xs" "\<forall>a \<in> set xs. a \<le> x"
    using snoc.prems by (auto simp: sorted_append)
  show ?case
  proof (cases "x > y")
    case True
    have "insort y (xs @ [x]) = insort y xs @ [x]"
      using True by (induction xs) auto
    then show ?thesis
      using True snoc.IH [OF sorted(1), of "x # zs"] by (simp add: nth_append list_update_append)
  next
    case False
    have "sort (y # xs @ [x]) = (xs @ [x]) @ [y]"
      by (rule properties_for_sort) (use False sorted in \<open>auto simp: sorted_append\<close>)
    then have "insort y (xs @ [x]) = xs @ [x, y]"
      using snoc.prems by (simp add: sorted_sort_id)
    then show ?thesis using False by (simp add: nth_append)
  qed
qed

lemma sort_strings_sorts: "sort_strings s = sort s"
proof -
  have "fold sink [1..<n] s = sort (take n s) @ drop n s" if "1 \<le> n" "n \<le> length s" for n
    using that
  proof (induction n rule: dec_induct)
    case base
    then show ?case by (cases s) auto
  next
    case (step n)
    then have drop: "drop n s = s ! n # drop (Suc n) s" and take: "take (Suc n) s = take n s @ [s ! n]"
      by (simp_all add: Cons_nth_drop_Suc take_Suc_conv_app_nth)
    have "length (sort (take n s)) = n" using step by simp
    then have "sink n (sort (take n s) @ s ! n # drop (Suc n) s) = insort (s ! n) (sort (take n s)) @ drop (Suc n) s"
      using sink_insort [of "sort (take n s)" "s ! n" "drop (Suc n) s"] by simp
    moreover have "insort (s ! n) (sort (take n s)) = sort (take (Suc n) s)"
      by (rule properties_for_sort [symmetric]) (simp_all add: take sorted_insort)
    ultimately show ?case using step by (simp add: drop)
  qed
  from this [of "length s"] show ?thesis
    by (cases "s = []") (auto simp: sort_strings_def Suc_le_eq)
qed

section \<open>Lines\<close>

definition ends_line :: "bytes \<Rightarrow> bool" where
  "ends_line raw \<longleftrightarrow> raw = [] \<or> last raw = newline"

lemma split_lines_from_append:
  "raw \<noteq> [] \<Longrightarrow> last raw = newline \<Longrightarrow> split_lines_from cur (raw @ rest) = split_lines_from cur raw @ split_lines_from [] rest"
  by (induction cur raw rule: split_lines_from.induct) (auto split: if_splits)

lemma split_lines_append: "ends_line raw \<Longrightarrow> split_lines (raw @ rest) = split_lines raw @ split_lines rest"
  by (cases "raw = []") (simp_all add: split_lines_def ends_line_def split_lines_from_append)

lemma split_lines_from_line: "newline \<notin> set l \<Longrightarrow> split_lines_from cur (l @ newline # rest) = (cur @ l) # split_lines_from [] rest"
  by (induction l arbitrary: cur) auto

lemma split_one_line: "newline \<notin> set l \<Longrightarrow> split_lines (l @ [newline]) = [l]"
  using split_lines_from_line [of l "[]" "[]"] by (simp add: split_lines_def)

lemma ends_line_append [simp]: "ends_line (raw @ [newline])" "ends_line []"
  by (simp_all add: ends_line_def)

section \<open>The encoder writes one line\<close>

lemma json_char_no_newline: "newline \<notin> set (json_char c)"
proof -
  have digit: "hex_char d \<noteq> newline" if "d < 16" for d
    using hex_val_char [OF that] by (auto simp: newline_def hex_val_def split: if_splits)
  have "of_char c div 16 < (16::nat)" "of_char c mod 16 < (16::nat)"
    by (simp_all add: less_mult_imp_div_less)
  from this [THEN digit] have "newline \<notin> set (hex_encode [c])" by (metis hex_encode.simps empty_iff empty_set set_ConsD)
  then show ?thesis
    by (auto simp: json_char_def Let_def) (auto simp: newline_def)
qed

lemma json_chars_no_newline: "newline \<notin> set (json_chars s)"
proof (induction s rule: json_chars.induct)
  case 1
  then show ?case by simp
next
  case (2 c s)
  then show ?case using json_char_no_newline [of c] by (auto simp: newline_def)
qed

lemma join_set: "c \<in> set (join sep xs) \<Longrightarrow> c \<in> set sep \<or> (\<exists>x \<in> set xs. c \<in> set x)"
  by (induction sep xs rule: join.induct) auto

definition line_free :: "string \<Rightarrow> bool" where
  "line_free s \<longleftrightarrow> newline \<notin> set s"

lemma line_free_json_string: "line_free (json_string s)"
  using json_chars_no_newline [of s] by (simp add: line_free_def json_string_def newline_def)

lemma line_free_int: "line_free (int_dec i)"
  using int_dec_range [of newline i] by (auto simp: line_free_def newline_def)

lemma line_free_field: "line_free v \<Longrightarrow> line_free (json_field k v)"
  using line_free_json_string [of k] by (simp add: line_free_def json_field_def newline_def)

lemma line_free_object: "\<forall>f \<in> set fs. line_free f \<Longrightarrow> line_free (json_object fs)"
  by (auto simp: line_free_def json_object_def newline_def dest: join_set)

lemma line_free_fields:
  "\<forall>f \<in> set (str_field k s). line_free f" "\<forall>f \<in> set (opt_str_field k s). line_free f"
  "\<forall>f \<in> set (opt_int_field k i). line_free f"
  by (simp_all add: str_field_def opt_str_field_def opt_int_field_def line_free_field line_free_json_string line_free_int)

lemma line_free_reseal: "line_free (reseal_json m)"
  unfolding reseal_json_def
  by (rule line_free_object) (use line_free_fields in \<open>auto simp: line_free_field line_free_int\<close>)

lemma event_json_line: "newline \<notin> set (event_json e)"
proof -
  have "line_free (event_json e)"
    unfolding event_json_def
    by (rule line_free_object)
      (use line_free_fields in \<open>auto simp: line_free_field line_free_int line_free_reseal split: option.splits\<close>)
  then show ?thesis by (simp add: line_free_def)
qed

lemma event_json_nonempty [simp]: "event_json e \<noteq> []"
  by (simp add: event_json_def json_object_def)

section \<open>The lines of the log\<close>

definition file_lines :: "audit_world \<Rightarrow> string \<Rightarrow> bytes list" where
  "file_lines w f = filter (\<lambda>l. 0 < length l) (split_lines (file_bytes w f))"

definition log_lines :: "audit_world \<Rightarrow> bytes list" where
  "log_lines w = concat (map (file_lines w) (sort (map fst (aw_dir w))))"

lemma read_lines_ok: "\<forall>f. ai_unreadable io f = None \<Longrightarrow> read_lines io w fs = Inr (concat (map (file_lines w) fs))"
  by (induction fs) (auto simp: file_lines_def)

lemma audit_lines_ok [simp]: "audit_lines audit_io_ok w = Inr (log_lines w)"
  using read_lines_ok [of audit_io_ok w] by (simp add: audit_lines_def audit_io_ok_def sort_strings_sorts log_lines_def)

definition lines_end :: "audit_world \<Rightarrow> bool" where
  "lines_end w \<longleftrightarrow> go_map_ok (aw_dir w) \<and> (\<forall>f. ends_line (file_bytes w f))"

lemma sort_with_max:
  assumes "distinct ks" and "\<forall>k \<in> set ks. k \<le> (f :: string)" and "distinct ks'" and "set ks' = insert f (set ks)"
  shows "sort ks' = sort (filter (\<lambda>k. k \<noteq> f) ks) @ [f]"
  using assms by (intro sorted_distinct_set_unique) (auto simp: sorted_append)

lemma log_lines_put:
  assumes "go_map_ok (aw_dir w)" and "\<forall>k \<in> fst ` set (aw_dir w). k \<le> f"
  shows "log_lines (w\<lparr>aw_dir := map_put (aw_dir w) f b\<rparr>) =
      concat (map (file_lines w) (sort (filter (\<lambda>k. k \<noteq> f) (map fst (aw_dir w))))) @
      filter (\<lambda>l. 0 < length l) (split_lines b)"
proof -
  have same: "file_lines (w\<lparr>aw_dir := map_put (aw_dir w) f b\<rparr>) k = file_lines w k" if "k \<noteq> f" for k
    using that by (simp add: file_lines_def file_bytes_def map_at_def)
  have own: "file_lines (w\<lparr>aw_dir := map_put (aw_dir w) f b\<rparr>) f = filter (\<lambda>l. 0 < length l) (split_lines b)"
    by (simp add: file_lines_def file_bytes_def map_at_def)
  have keys: "fst ` set (map_put (aw_dir w) f b) = insert f (fst ` set (aw_dir w))"
    by (simp add: map_put_def dom_update)
  have keys_sorted: "sort (map fst (map_put (aw_dir w) f b)) = sort (filter (\<lambda>k. k \<noteq> f) (map fst (aw_dir w))) @ [f]"
    using assms keys go_map_ok_put [OF assms(1)] by (intro sort_with_max) (simp_all add: go_map_ok_def)
  have others: "map (file_lines (w\<lparr>aw_dir := map_put (aw_dir w) f b\<rparr>)) (sort (filter (\<lambda>k. k \<noteq> f) (map fst (aw_dir w)))) =
      map (file_lines w) (sort (filter (\<lambda>k. k \<noteq> f) (map fst (aw_dir w))))"
    using same by (intro map_cong) auto
  let ?K = "sort (filter (\<lambda>k. k \<noteq> f) (map fst (aw_dir w)))"
  have "log_lines (w\<lparr>aw_dir := map_put (aw_dir w) f b\<rparr>) =
      concat (map (file_lines (w\<lparr>aw_dir := map_put (aw_dir w) f b\<rparr>)) (?K @ [f]))"
    unfolding log_lines_def keys_sorted [symmetric] by simp
  then show ?thesis by (simp only: map_append concat_append others list.map concat.simps own append_Nil2)
qed

lemma log_lines_split:
  assumes "go_map_ok (aw_dir w)" and "\<forall>k \<in> fst ` set (aw_dir w). k \<le> f"
  shows "log_lines w = concat (map (file_lines w) (sort (filter (\<lambda>k. k \<noteq> f) (map fst (aw_dir w))))) @ file_lines w f"
proof (cases "f \<in> fst ` set (aw_dir w)")
  case True
  have "sort (map fst (aw_dir w)) = sort (filter (\<lambda>k. k \<noteq> f) (map fst (aw_dir w))) @ [f]"
    using assms True by (intro sort_with_max) (auto simp: go_map_ok_def)
  then show ?thesis by (simp add: log_lines_def)
next
  case False
  then have "filter (\<lambda>k. k \<noteq> f) (map fst (aw_dir w)) = map fst (aw_dir w)"
    by (auto simp: filter_id_conv)
  moreover have "map_get (aw_dir w) f = None"
    using False map_get_None_iff by metis
  then have "file_lines w f = []"
    by (simp add: file_lines_def file_bytes_def map_at_def split_lines_def)
  ultimately show ?thesis by (simp add: log_lines_def)
qed

lemma log_lines_append:
  assumes "lines_end w" and "\<forall>k \<in> fst ` set (aw_dir w). k \<le> f"
  shows "log_lines (w\<lparr>aw_dir := map_put (aw_dir w) f (file_bytes w f @ b)\<rparr>) =
    log_lines w @ filter (\<lambda>l. 0 < length l) (split_lines b)"
proof -
  have ok: "go_map_ok (aw_dir w)" "ends_line (file_bytes w f)"
    using assms(1) by (auto simp: lines_end_def)
  show ?thesis
    unfolding log_lines_put [OF ok(1) assms(2)] log_lines_split [OF ok(1) assms(2)]
    by (simp add: file_lines_def split_lines_append [OF ok(2)])
qed

lemma log_lines_append_event:
  assumes "lines_end w" and "\<forall>k \<in> fst ` set (aw_dir w). k \<le> f"
  shows "log_lines (w\<lparr>aw_dir := map_put (aw_dir w) f (file_bytes w f @ event_json e @ [newline])\<rparr>) =
      log_lines w @ [event_json e]"
    "lines_end (w\<lparr>aw_dir := map_put (aw_dir w) f (file_bytes w f @ event_json e @ [newline])\<rparr>)"
proof -
  show "log_lines (w\<lparr>aw_dir := map_put (aw_dir w) f (file_bytes w f @ event_json e @ [newline])\<rparr>) =
      log_lines w @ [event_json e]"
    using log_lines_append [OF assms, of "event_json e @ [newline]"]
    by (simp add: split_one_line event_json_line)
  show "lines_end (w\<lparr>aw_dir := map_put (aw_dir w) f (file_bytes w f @ event_json e @ [newline])\<rparr>)"
    using assms(1) by (auto simp: lines_end_def file_bytes_def map_at_def ends_line_def)
qed

lemma log_lines_meta [simp]: "log_lines (w\<lparr>aw_meta := m\<rparr>) = log_lines w" "lines_end (w\<lparr>aw_meta := m\<rparr>) = lines_end w"
  "file_lines (w\<lparr>aw_meta := m\<rparr>) = file_lines w"
proof -
  show f: "file_lines (w\<lparr>aw_meta := m\<rparr>) = file_lines w"
    by (rule ext) (simp add: file_lines_def file_bytes_def)
  show "log_lines (w\<lparr>aw_meta := m\<rparr>) = log_lines w" by (simp add: log_lines_def f)
  show "lines_end (w\<lparr>aw_meta := m\<rparr>) = lines_end w" by (simp add: lines_end_def file_bytes_def)
qed

end
