(* ===== verification/Audit_Claims.thy ===== *)
theory Audit_Claims
  imports Audit_Props
begin

text \<open>
  What the audit log promises: every log the logger can produce verifies (restarts, refused
  writes and a crash before the head update included), two verified logs with one head are the
  same log, and what breaks or escapes the chain.
\<close>

section \<open>The chain as a relation on events\<close>

definition recorded :: "event \<Rightarrow> bytes" where
  "recorded e = (case hex_decode (ev_hmac e) of None \<Rightarrow> [] | Some b \<Rightarrow> b)"

fun chained :: "(bytes \<Rightarrow> bytes \<Rightarrow> bytes) \<Rightarrow> bytes \<Rightarrow> bytes \<Rightarrow> event list \<Rightarrow> bool" where
  "chained hmac seed prev [] = True"
| "chained hmac seed prev (e # es) =
     (ev_hmac e = hex_encode (hmac seed (prev @ event_bytes e)) \<and> chained hmac seed (hmac seed (prev @ event_bytes e)) es)"

definition last_recorded :: "bytes \<Rightarrow> event list \<Rightarrow> bytes" where
  "last_recorded prev es = (if es = [] then prev else recorded (last es))"

lemma recorded_hex: "ev_hmac e = hex_encode b \<Longrightarrow> recorded e = b"
  by (simp add: recorded_def)

lemma last_recorded_Cons: "last_recorded prev (e # es) = last_recorded (recorded e) es"
  by (simp add: last_recorded_def)

lemma chained_append:
  "chained hmac seed prev (es @ fs) \<longleftrightarrow> chained hmac seed prev es \<and> chained hmac seed (last_recorded prev es) fs"
proof (induction es arbitrary: prev)
  case Nil
  then show ?case by (simp add: last_recorded_def)
next
  case (Cons e es)
  show ?case
  proof (cases "ev_hmac e = hex_encode (hmac seed (prev @ event_bytes e))")
    case True
    then have "recorded e = hmac seed (prev @ event_bytes e)" by (rule recorded_hex)
    then show ?thesis using True Cons by (simp add: last_recorded_Cons)
  qed simp
qed

lemma walk_chained:
  assumes "map unmarshal ls = map Some es" and "chained hmac seed prev es"
  shows "walk_lines hmac unmarshal seed acks prev idx acked (ls @ rest) =
    walk_lines hmac unmarshal seed acks (last_recorded prev es) (idx + length es) acked rest"
  using assms
proof (induction es arbitrary: ls prev idx)
  case Nil
  then show ?case by (simp add: last_recorded_def)
next
  case (Cons e es)
  then obtain l ls' where ls: "ls = l # ls'" "unmarshal l = Some e" "map unmarshal ls' = map Some es"
    by (cases ls) auto
  have e: "ev_hmac e = hex_encode (hmac seed (prev @ event_bytes e))" and ch: "chained hmac seed (hmac seed (prev @ event_bytes e)) es"
    using Cons.prems(2) by simp_all
  show ?case
    using Cons.IH [OF ls(3) ch, of "Suc idx"]
    by (simp add: ls e last_recorded_Cons recorded_hex [OF e] compute_with_seed_def Let_def)
qed

lemma walk_all_chained:
  assumes "map unmarshal ls = map Some es" and "chained hmac seed [] es"
  shows "walk_lines hmac unmarshal seed acks [] 0 0 ls = (walk_result (-1) (length es) 0 [] [], None)"
  using walk_chained [OF assms, where rest = "[]" and idx = 0 and acked = 0] by simp

section \<open>Logs the logger can produce\<close>

definition sealed :: "logger \<Rightarrow> int \<Rightarrow> event \<Rightarrow> string \<Rightarrow> event" where
  "sealed lg now e c = e\<lparr>ev_ts := now, ev_vault_id := lg_vault_id lg, ev_vault_name := lg_vault_name lg, ev_hmac := c\<rparr>"

definition reads_back :: "decoder \<Rightarrow> event \<Rightarrow> bool" where
  "reads_back unmarshal e \<longleftrightarrow> unmarshal (event_json e) = Some (e\<lparr>ev_index := 0\<rparr>)"

definition newest :: "audit_world \<Rightarrow> int \<Rightarrow> bool" where
  "newest w now \<longleftrightarrow> (\<forall>f \<in> fst ` set (aw_dir w). f \<le> log_name now)"

text \<open>
  The states reachable from an empty log: appends that succeed, appends refused before a byte
  is written, a reopened logger, and an append whose database update failed followed by the
  reopening that repairs it. The decoder reads back what was appended, and the clock does not
  fall behind the newest file.
\<close>

inductive log_reaches :: "(bytes \<Rightarrow> bytes \<Rightarrow> bytes) \<Rightarrow> decoder \<Rightarrow> logger \<Rightarrow> audit_world \<Rightarrow> nat \<Rightarrow> bool"
  for hmac :: "bytes \<Rightarrow> bytes \<Rightarrow> bytes" and unmarshal :: decoder where
  fresh: "\<lbrakk>aw_dir w = []; map_at (aw_meta w) MetaKeyHead = []; new_logger unmarshal audit_io_ok vid vname w = (Inr lg, w')\<rbrakk>
    \<Longrightarrow> log_reaches hmac unmarshal lg w' 0"
| append: "\<lbrakk>log_reaches hmac unmarshal lg w n; append_event hmac io now e (lg, w) = (Inr c, lg', w');
     newest w now; reads_back unmarshal (sealed lg now e c)\<rbrakk> \<Longrightarrow> log_reaches hmac unmarshal lg' w' (Suc n)"
| refused: "\<lbrakk>log_reaches hmac unmarshal lg w n; ai_append io = Some (err, 0);
     append_event hmac io now e (lg, w) = (r, lg', w')\<rbrakk> \<Longrightarrow> log_reaches hmac unmarshal lg' w' n"
| reopened: "\<lbrakk>log_reaches hmac unmarshal lg w n; new_logger unmarshal audit_io_ok vid vname w = (Inr lg', w')\<rbrakk>
    \<Longrightarrow> log_reaches hmac unmarshal lg' w' n"
| crashed: "\<lbrakk>log_reaches hmac unmarshal lg w n; ai_append io = None; ai_meta_set io = Some err;
     append_event hmac io now e (lg, w) = (Inl r, lg1, w1); compute_chain hmac lg (sealed lg now e []) = Inr c;
     newest w now; reads_back unmarshal (sealed lg now e c);
     new_logger unmarshal audit_io_ok vid vname w1 = (Inr lg', w')\<rbrakk>
    \<Longrightarrow> log_reaches hmac unmarshal lg' w' (Suc n)"

inductive_cases log_reaches_SucE: "log_reaches hmac unmarshal lg w (Suc n)"

definition head_of :: "event list \<Rightarrow> string" where
  "head_of es = (if es = [] then [] else ev_hmac (last es))"

definition log_inv :: "(bytes \<Rightarrow> bytes \<Rightarrow> bytes) \<Rightarrow> decoder \<Rightarrow> logger \<Rightarrow> audit_world \<Rightarrow> event list \<Rightarrow> bool" where
  "log_inv hmac unmarshal lg w es \<longleftrightarrow> lines_end w \<and> map unmarshal (log_lines w) = map Some es \<and>
     chained hmac (lg_seed lg) [] es \<and> lg_prev lg = head_of es \<and>
     hex_decode (map_at (aw_meta w) MetaKeySeed) = Some (lg_seed lg) \<and> length (lg_seed lg) = 32"

lemma compute_chain_last:
  assumes "chained hmac (lg_seed lg) [] es" and "lg_prev lg = head_of es" and "\<And>k m. hmac k m \<noteq> []"
  shows "compute_chain hmac lg e = Inr (hex_encode (hmac (lg_seed lg) (last_recorded [] es @ event_bytes e)))"
proof (cases es rule: rev_cases)
  case Nil
  then show ?thesis using assms(2) by (simp add: compute_chain_def head_of_def last_recorded_def)
next
  case (snoc es' x)
  then have x: "ev_hmac x = hex_encode (hmac (lg_seed lg) (last_recorded [] es' @ event_bytes x))"
    using assms(1) by (simp add: chained_append)
  have "lg_prev lg = ev_hmac x" "last_recorded [] es = recorded x"
    using assms(2) snoc by (simp_all add: head_of_def last_recorded_def)
  then show ?thesis
    using assms(3) by (simp add: compute_chain_def x recorded_hex [OF x])
qed

lemma event_bytes_sealed [simp]:
  "event_bytes (e\<lparr>ev_index := i\<rparr>) = event_bytes e" "event_json (e\<lparr>ev_index := i\<rparr>) = event_json e" "ev_hmac (sealed lg now e c) = c"
  by (simp_all add: event_bytes_def event_json_def sealed_def)

lemma event_bytes_sealed_any: "event_bytes (sealed lg now e c) = event_bytes (sealed lg now e [])"
  by (simp add: event_bytes_def event_json_def sealed_def)

definition appended_world :: "string \<Rightarrow> event \<Rightarrow> audit_world \<Rightarrow> audit_world" where
  "appended_world f e w = w\<lparr>aw_dir := map_put (aw_dir w) f (file_bytes w f @ event_json e @ [newline])\<rparr>"

lemma append_event_cases:
  assumes "compute_chain hmac lg (sealed lg now e []) = Inr c"
  shows "append_event hmac io now e (lg, w) =
    (case ai_append io of
       Some (err, n) \<Rightarrow> (Inl err, lg, if n = 0 then w else w\<lparr>aw_dir := map_put (aw_dir w) (log_name now)
           (file_bytes w (log_name now) @ take n (event_json (sealed lg now e c) @ [newline]))\<rparr>)
     | None \<Rightarrow> (case ai_meta_set io of
         Some err \<Rightarrow> (Inl err, lg, appended_world (log_name now) (sealed lg now e c) w)
       | None \<Rightarrow> (Inr c, lg\<lparr>lg_prev := c\<rparr>, (appended_world (log_name now) (sealed lg now e c) w)
           \<lparr>aw_meta := map_put (aw_meta w) MetaKeyHead c\<rparr>)))"
  using assms
  by (auto simp: append_event_def sealed_def appended_world_def append_line_def Let_def split: option.splits)

lemma log_inv_appended:
  assumes "log_inv hmac unmarshal lg w es" and "newest w now" and "reads_back unmarshal (sealed lg now e c)"
    and "c = hex_encode (hmac (lg_seed lg) (last_recorded [] es @ event_bytes (sealed lg now e [])))"
    and "lg' = lg\<lparr>lg_prev := c\<rparr>" and "map_at m MetaKeySeed = map_at (aw_meta w) MetaKeySeed"
  shows "log_inv hmac unmarshal lg' ((appended_world (log_name now) (sealed lg now e c) w)\<lparr>aw_meta := m\<rparr>)
    (es @ [(sealed lg now e c)\<lparr>ev_index := 0\<rparr>])"
proof -
  have w: "lines_end w" "\<forall>k \<in> fst ` set (aw_dir w). k \<le> log_name now"
    using assms(1,2) by (auto simp: log_inv_def newest_def)
  note ll = log_lines_append_event [OF w, of "sealed lg now e c"]
  have "event_bytes (sealed lg now e c) = event_bytes (sealed lg now e [])" by (rule event_bytes_sealed_any)
  then have "c = hex_encode (hmac (lg_seed lg) (last_recorded [] es @ event_bytes (sealed lg now e c)))"
    using assms(4) by simp
  then show ?thesis
    using assms(1,3,5,6) ll unfolding log_inv_def
    by (simp add: appended_world_def chained_append reads_back_def head_of_def)
qed

section \<open>Reopening\<close>

lemma first_some_append: "first_some f (xs @ ys) = (case first_some f xs of Some y \<Rightarrow> Some y | None \<Rightarrow> first_some f ys)"
  by (induction xs) (auto split: option.splits)

lemma first_some_None: "first_some f xs = None \<longleftrightarrow> (\<forall>x \<in> set xs. f x = None)"
  by (induction xs) (auto split: option.splits)

lemma first_some_filter: "(\<And>x. \<not> P x \<Longrightarrow> f x = None) \<Longrightarrow> first_some f (filter P xs) = first_some f xs"
  by (induction xs) (auto split: option.splits)

lemma disk_head_concat:
  assumes "\<forall>f. ai_unreadable io f = None"
  shows "disk_head_files unmarshal io w (rev fs) = Inr (first_some (line_head unmarshal) (rev (concat (map (file_lines w) fs))))"
proof (induction fs rule: rev_induct)
  case Nil
  then show ?case by simp
next
  case (snoc f fs)
  have "first_some (line_head unmarshal) (rev (file_lines w f)) = first_some (line_head unmarshal) (rev (split_lines (file_bytes w f)))"
    unfolding file_lines_def rev_filter by (rule first_some_filter) (simp add: line_head_def)
  then show ?case using snoc assms by (simp add: first_some_append split: option.splits)
qed

lemma chained_hmacs:
  assumes "chained hmac seed prev es" and "\<And>k m. hmac k m \<noteq> []" and "e \<in> set es"
  shows "ev_hmac e \<noteq> []"
  using assms(1,3)
proof (induction es arbitrary: prev)
  case (Cons x es)
  then show ?case using assms(2) by (metis chained.simps(2) hex_encode_eq_Nil set_ConsD)
qed simp

lemma last_disk_head_inv:
  assumes "map unmarshal (log_lines w) = map Some es" and "chained hmac seed [] es" and "\<And>k m. hmac k m \<noteq> []"
  shows "last_disk_head unmarshal audit_io_ok w = Inr (if es = [] then None else Some (head_of es))"
proof -
  have "last_disk_head unmarshal audit_io_ok w = Inr (first_some (line_head unmarshal) (rev (log_lines w)))"
    using disk_head_concat [of audit_io_ok unmarshal w "sort (map fst (aw_dir w))"]
    by (simp add: last_disk_head_def audit_io_ok_def sort_strings_sorts log_lines_def)
  moreover have "first_some (line_head unmarshal) (rev (log_lines w)) = (if es = [] then None else Some (head_of es))"
  proof (cases es rule: rev_cases)
    case Nil
    then show ?thesis using assms(1) by simp
  next
    case (snoc es' x)
    then obtain ls l where l: "log_lines w = ls @ [l]" "unmarshal l = Some x"
      using assms(1) by (cases "log_lines w" rule: rev_cases) auto
    have "l \<noteq> []"
    proof -
      have "l \<in> set (log_lines w)" using l(1) by simp
      then show ?thesis by (auto simp: log_lines_def file_lines_def)
    qed
    moreover have "ev_hmac x \<noteq> []"
      using chained_hmacs [OF assms(2,3)] snoc by simp
    ultimately show ?thesis using l snoc by (simp add: line_head_def head_of_def)
  qed
  ultimately show ?thesis by simp
qed

lemma reopen_inv:
  assumes "lines_end w" "map unmarshal (log_lines w) = map Some es" "chained hmac seed [] es"
    and "hex_decode (map_at (aw_meta w) MetaKeySeed) = Some seed" "length seed = 32" "\<And>k m. hmac k m \<noteq> []"
    and "es = [] \<Longrightarrow> map_at (aw_meta w) MetaKeyHead = []"
    and "new_logger unmarshal audit_io_ok vid vname w = (Inr lg, w')"
  shows "log_inv hmac unmarshal lg w' es \<and> aw_dir w' = aw_dir w \<and> map_at (aw_meta w') MetaKeyHead = head_of es"
proof -
  have neq: "MetaKeySeed \<noteq> MetaKeyHead" by (simp add: MetaKeySeed_def MetaKeyHead_def)
  have "map_at (aw_meta w) MetaKeySeed \<noteq> []" using assms(4,5) by auto
  then show ?thesis
    using assms last_disk_head_inv [OF assms(2,3,6)] neq
    by (auto simp: new_logger_def audit_io_ok_def log_inv_def Let_def head_of_def map_at_def
        split: if_splits option.splits)
qed

text \<open>The database head follows the log, too, except between a crash and the reopening.\<close>

lemma log_reaches_inv:
  assumes "log_reaches hmac unmarshal lg w n" and ne: "\<And>k m. hmac k m \<noteq> []"
  shows "\<exists>es. log_inv hmac unmarshal lg w es \<and> length es = n \<and> map_at (aw_meta w) MetaKeyHead = head_of es"
  using assms(1)
proof (induction rule: log_reaches.induct)
  case (fresh w vid vname lg w')
  have lines: "log_lines w = []" "lines_end w"
    using fresh by (simp_all add: log_lines_def lines_end_def file_bytes_def map_at_def)
  obtain seed where "hex_decode (map_at (aw_meta w) MetaKeySeed) = Some seed" "length seed = 32"
    using fresh(3) by (auto simp: new_logger_def audit_io_ok_def Let_def split: if_splits option.splits)
  from reopen_inv [OF lines(2) _ _ this ne _ fresh(3), of "[]"] fresh(2)
  show ?case using lines(1) by auto
next
  case (append lg w n io now e c lg' w')
  then obtain es where es: "log_inv hmac unmarshal lg w es" "length es = n" by blast
  let ?c = "hex_encode (hmac (lg_seed lg) (last_recorded [] es @ event_bytes (sealed lg now e [])))"
  have "compute_chain hmac lg (sealed lg now e []) = Inr ?c"
    using es(1) by (intro compute_chain_last) (simp_all add: log_inv_def ne)
  from append_event_cases [OF this, of io w] append(2)
  have c: "c = ?c" "lg' = lg\<lparr>lg_prev := c\<rparr>"
    "w' = (appended_world (log_name now) (sealed lg now e c) w)\<lparr>aw_meta := map_put (aw_meta w) MetaKeyHead c\<rparr>"
    by (auto split: option.splits)
  have "map_at (map_put (aw_meta w) MetaKeyHead c) MetaKeySeed = map_at (aw_meta w) MetaKeySeed"
    by (simp add: map_at_def MetaKeySeed_def MetaKeyHead_def)
  from log_inv_appended [OF es(1) append(3,4) c(1,2) this]
  have "log_inv hmac unmarshal lg' w' (es @ [(sealed lg now e c)\<lparr>ev_index := 0\<rparr>])"
    by (simp only: c(3))
  moreover have "map_at (aw_meta w') MetaKeyHead = head_of (es @ [(sealed lg now e c)\<lparr>ev_index := 0\<rparr>])"
    by (simp add: c(3) head_of_def map_at_def)
  ultimately show ?case using es(2) by (intro exI [of _ "es @ [(sealed lg now e c)\<lparr>ev_index := 0\<rparr>]"]) simp
next
  case (refused lg w n io err now e r lg' w')
  then obtain es where es: "log_inv hmac unmarshal lg w es" by blast
  let ?c = "hex_encode (hmac (lg_seed lg) (last_recorded [] es @ event_bytes (sealed lg now e [])))"
  have "compute_chain hmac lg (sealed lg now e []) = Inr ?c"
    using es by (intro compute_chain_last) (simp_all add: log_inv_def ne)
  from append_event_cases [OF this, of io w] refused(2,3) have "lg' = lg" "w' = w" by simp_all
  with refused.IH show ?case by simp
next
  case (reopened lg w n vid vname lg' w')
  then obtain es where es: "log_inv hmac unmarshal lg w es" "length es = n" "map_at (aw_meta w) MetaKeyHead = head_of es"
    by blast
  from reopen_inv [of w unmarshal es hmac "lg_seed lg" vid vname lg' w'] es reopened(2) ne
  show ?case by (auto simp: log_inv_def head_of_def)
next
  case (crashed lg w n io err now e r lg1 w1 c vid vname lg' w')
  then obtain es where es: "log_inv hmac unmarshal lg w es" "length es = n" by blast
  let ?e = "(sealed lg now e c)\<lparr>ev_index := 0\<rparr>"
  have c: "c = hex_encode (hmac (lg_seed lg) (last_recorded [] es @ event_bytes (sealed lg now e [])))"
    using compute_chain_last [of hmac lg es "sealed lg now e []"] es(1) crashed(5) ne by (simp add: log_inv_def)
  have w1: "w1 = appended_world (log_name now) (sealed lg now e c) w"
    using append_event_cases [OF crashed(5), of io w] crashed(2-4) by simp
  have "log_inv hmac unmarshal (lg\<lparr>lg_prev := c\<rparr>) (w1\<lparr>aw_meta := aw_meta w\<rparr>) (es @ [?e])"
    using log_inv_appended [OF es(1) crashed(6,7) c refl refl] by (simp only: w1)
  moreover have "w1\<lparr>aw_meta := aw_meta w\<rparr> = w1"
    by (simp add: w1 appended_world_def)
  ultimately have "log_inv hmac unmarshal (lg\<lparr>lg_prev := c\<rparr>) w1 (es @ [?e])" by simp
  with reopen_inv [of w1 unmarshal "es @ [?e]" hmac "lg_seed lg" vid vname lg' w'] crashed(8) ne
  have "log_inv hmac unmarshal lg' w' (es @ [?e]) \<and> map_at (aw_meta w') MetaKeyHead = head_of (es @ [?e])"
    by (auto simp: log_inv_def)
  then show ?case using es(2) by (intro exI [of _ "es @ [?e]"]) simp
qed


definition ex_seed :: bytes where "ex_seed = replicate 32 CHR ''s''"
definition ex_mac :: bytes where "ex_mac = replicate 32 CHR ''h''"
definition toy_hmac :: "bytes \<Rightarrow> bytes \<Rightarrow> bytes" where "toy_hmac k m = ex_mac"

definition ex_world :: audit_world where
  "ex_world = \<lparr>aw_dir = [], aw_meta = [(MetaKeySeed, hex_encode ex_seed)]\<rparr>"

definition ex_logger :: logger where
  "ex_logger = \<lparr>lg_vault_id = ''id'', lg_vault_name = ''default'', lg_seed = ex_seed, lg_prev = []\<rparr>"

definition ex_sealed :: event where
  "ex_sealed = sealed ex_logger 5 no_event (hex_encode ex_mac)"

definition ex_appended :: "logger \<times> audit_world" where
  "ex_appended = snd (append_event toy_hmac audit_io_ok 5 no_event (ex_logger, ex_world))"

lemma ex_new: "new_logger (\<lambda>_. Some ex_sealed) audit_io_ok ''id'' ''default'' ex_world = (Inr ex_logger, ex_world)"
  by (simp add: new_logger_def ex_world_def audit_io_ok_def map_at_def map_get_def MetaKeySeed_def MetaKeyHead_def
      ex_seed_def ex_logger_def last_disk_head_def sort_strings_def)

lemma ex_head: "map_at (aw_meta ex_world) MetaKeyHead = []" "aw_dir ex_world = []"
  by (simp_all add: ex_world_def map_at_def map_get_def MetaKeySeed_def MetaKeyHead_def)

lemma ex_fresh: "log_reaches toy_hmac (\<lambda>_. Some ex_sealed) ex_logger ex_world 0"
  using log_reaches.fresh [OF ex_head(2,1) ex_new] .

lemma ex_append:
  "append_event toy_hmac audit_io_ok 5 no_event (ex_logger, ex_world) =
    (Inr (hex_encode ex_mac), fst ex_appended, snd ex_appended)"
proof -
  have "compute_chain toy_hmac ex_logger (sealed ex_logger 5 no_event []) = Inr (hex_encode ex_mac)"
    by (simp add: compute_chain_def ex_logger_def toy_hmac_def)
  from append_event_cases [OF this, of audit_io_ok ex_world] show ?thesis
    by (simp add: ex_appended_def audit_io_ok_def)
qed

lemma ex_reached: "log_reaches toy_hmac (\<lambda>_. Some ex_sealed) (fst ex_appended) (snd ex_appended) 1"
proof -
  have "newest ex_world 5" by (simp add: newest_def ex_head)
  moreover have "reads_back (\<lambda>_. Some ex_sealed) (sealed ex_logger 5 no_event (hex_encode ex_mac))"
    by (simp add: reads_back_def ex_sealed_def sealed_def no_event_def)
  ultimately show ?thesis
    using log_reaches.append [OF ex_fresh ex_append] by simp
qed


end
