(* ===== verification/Audit_Breaks.thy ===== *)
theory Audit_Breaks
  imports Audit_Claims
begin

text \<open>
  What the chain detects and what it does not: a changed event, a shortened log, a write torn
  in the middle, a database update that fails while the daemon keeps running; and how an
  acknowledged break is bridged.
\<close>

section \<open>Tampering\<close>

definition message :: "event list \<Rightarrow> nat \<Rightarrow> bytes" where
  "message es i = last_recorded [] (take i es) @ event_bytes (es ! i)"

lemma walk_intact:
  assumes "walk_lines hmac unmarshal seed acks prev idx acked ls = (cw, None)" and "cw_bad cw = -1" and "cw_acked cw = acked"
  shows "\<exists>es. map unmarshal ls = map Some es \<and> cw_total cw = idx + length es \<and>
    (\<forall>i < length es. recorded (es ! i) = hmac seed (last_recorded prev (take i es) @ event_bytes (es ! i)))"
  using assms
proof (induction ls arbitrary: prev idx acked)
  case Nil
  then show ?case by (auto simp: walk_result_def)
next
  case (Cons l ls)
  have mono: "walk_lines hmac unmarshal seed acks prev idx acked ls = (cw, None) \<Longrightarrow> acked \<le> cw_acked cw" for prev idx acked cw ls
    by (induction ls arbitrary: prev idx acked)
      (auto simp: walk_result_def Let_def split: option.splits if_splits dest: Suc_leD)
  obtain e r where e: "unmarshal l = Some e" "hex_decode (ev_hmac e) = Some r"
    using Cons.prems by (auto simp: walk_result_def split: option.splits)
  have r: "recorded e = r" using e(2) by (simp add: recorded_def)
  have match: "r = hmac seed (prev @ event_bytes e)"
  proof (rule ccontr)
    assume "r \<noteq> hmac seed (prev @ event_bytes e)"
    moreover from this have "acknowledged acks (ev_hmac e) (hmac seed (prev @ event_bytes e))"
      using Cons.prems e by (cases "acknowledged acks (ev_hmac e) (hmac seed (prev @ event_bytes e))")
        (auto simp: compute_with_seed_def Let_def walk_result_def)
    ultimately have "walk_lines hmac unmarshal seed acks r (Suc idx) (Suc acked) ls = (cw, None)"
      using Cons.prems(1) e by (simp add: compute_with_seed_def Let_def)
    from mono [OF this] Cons.prems(3) show False by simp
  qed
  then have "walk_lines hmac unmarshal seed acks r (Suc idx) acked ls = (cw, None)"
    using Cons.prems e by (simp add: compute_with_seed_def Let_def)
  from Cons.IH [OF this Cons.prems(2,3)]
  obtain es where es: "map unmarshal ls = map Some es" "cw_total cw = Suc idx + length es"
    "\<forall>i < length es. recorded (es ! i) = hmac seed (last_recorded r (take i es) @ event_bytes (es ! i))" by blast
  have "recorded ((e # es) ! i) = hmac seed (last_recorded prev (take i (e # es)) @ event_bytes ((e # es) ! i))"
    if "i < length (e # es)" for i
    using that es(3) match r by (cases i) (auto simp: last_recorded_Cons, simp add: last_recorded_def)
  then show ?case using es e by (intro exI [of _ "e # es"]) auto
qed

lemma same_heads_same_events:
  assumes "length es = length fs"
    and "\<forall>i < length es. recorded (es ! i) = hmac seed (message es i)"
    and "\<forall>i < length fs. recorded (fs ! i) = hmac seed (message fs i)"
    and "last_recorded [] es = last_recorded [] fs" and len: "\<And>m. length (hmac seed m) = 32"
  shows "map event_bytes es = map event_bytes fs \<or>
    (\<exists>i < length es. message es i \<noteq> message fs i \<and> hmac seed (message es i) = hmac seed (message fs i))"
  using assms(1-4)
proof (induction es arbitrary: fs rule: rev_induct)
  case Nil
  then show ?case by simp
next
  case (snoc e es)
  then obtain fs' f where fs: "fs = fs' @ [f]" "length fs' = length es"
    by (metis append_butlast_last_id length_0_conv length_append_singleton length_butlast nat.simps(3) diff_Suc_1)
  have heads: "hmac seed (message (es @ [e]) (length es)) = hmac seed (message fs (length es))"
    using snoc.prems(2,3) [rule_format, of "length es"] snoc.prems(4) fs
    by (simp add: last_recorded_def nth_append)
  show ?case
  proof (cases "message (es @ [e]) (length es) = message fs (length es)")
    case False
    then show ?thesis using heads by auto
  next
    case True
    then have eq: "last_recorded [] es @ event_bytes e = last_recorded [] fs' @ event_bytes f"
      using fs by (simp add: message_def nth_append)
    have rec: "\<forall>i < length es. recorded (es ! i) = hmac seed (message es i)"
      "\<forall>i < length fs'. recorded (fs' ! i) = hmac seed (message fs' i)"
    proof -
      have "recorded (es ! i) = hmac seed (message es i) \<and> recorded (fs' ! i) = hmac seed (message fs' i)"
        if "i < length es" for i
        using snoc.prems(2,3) [rule_format, of i] that fs by (simp add: message_def nth_append)
      then show "\<forall>i < length es. recorded (es ! i) = hmac seed (message es i)"
        "\<forall>i < length fs'. recorded (fs' ! i) = hmac seed (message fs' i)"
        using fs(2) by simp_all
    qed
    have lens: "length (last_recorded [] es) = length (last_recorded [] fs')"
    proof (cases "es = []")
      case True
      then show ?thesis using fs by (simp add: last_recorded_def)
    next
      case False
      then have "recorded (last es) = hmac seed (message es (length es - 1))"
        "recorded (last fs') = hmac seed (message fs' (length fs' - 1))"
        using rec fs(2) by (simp_all add: last_conv_nth flip: length_greater_0_conv)
      then show ?thesis using False fs(2) len by (auto simp: last_recorded_def)
    qed
    with eq have parts: "last_recorded [] es = last_recorded [] fs'" "event_bytes e = event_bytes f" by simp_all
    from snoc.IH [OF fs(2) [symmetric] rec parts(1)] consider
        "map event_bytes es = map event_bytes fs'"
      | i where "i < length es" "message es i \<noteq> message fs' i" "hmac seed (message es i) = hmac seed (message fs' i)"
      by blast
    then show ?thesis
    proof cases
      case 1
      then show ?thesis using parts(2) fs by simp
    next
      case (2 i)
      then have "message (es @ [e]) i = message es i" "message fs i = message fs' i"
        using fs by (simp_all add: message_def nth_append)
      then show ?thesis using 2 by (auto intro!: exI [of _ i])
    qed
  qed
qed


lemma ex_lines: "audit_lines audit_io_ok (snd ex_appended) = Inr [event_json ex_sealed]"
proof -
  have w: "lines_end ex_world" "\<forall>k \<in> fst ` set (aw_dir ex_world). k \<le> log_name 5"
    by (simp_all add: ex_head lines_end_def file_bytes_def map_at_def)
  have "compute_chain toy_hmac ex_logger (sealed ex_logger 5 no_event []) = Inr (hex_encode ex_mac)"
    by (simp add: compute_chain_def ex_logger_def toy_hmac_def)
  from append_event_cases [OF this, of audit_io_ok ex_world]
  have "log_lines (snd ex_appended) = log_lines ex_world @ [event_json ex_sealed]"
    using log_lines_append_event(1) [OF w, of ex_sealed]
    by (simp add: ex_appended_def audit_io_ok_def appended_world_def ex_sealed_def)
  then show ?thesis by (simp add: log_lines_def ex_head)
qed

lemma ex_verifies: "verify_chain toy_hmac (\<lambda>_. Some ex_sealed) audit_io_ok ex_logger (snd ex_appended) = (-1, 1, 0, None)"
proof -
  have "ev_hmac ex_sealed = hex_encode ex_mac" by (simp add: ex_sealed_def)
  then show ?thesis
    unfolding verify_chain_def walk_chain_def ex_lines
    by (simp add: compute_with_seed_def toy_hmac_def walk_result_def Let_def)
qed


section \<open>Truncation\<close>

text \<open>
  Cutting off the end of the log is not detected: put the files of an earlier state back,
  and \<open>VerifyChain\<close> of the running daemon finds nothing wrong although the head in the
  database names the removed event; a reopened logger even moves the database head back.
\<close>

theorem truncation_is_not_detected:
  assumes "log_reaches hmac unmarshal lg w n" and "\<forall>k m. hmac k m \<noteq> []"
    and "append_event hmac io now e (lg, w) = (Inr c, lg', w')"
  shows "verify_chain hmac unmarshal audit_io_ok lg' (w'\<lparr>aw_dir := aw_dir w\<rparr>) = (-1, n, 0, None) \<and>
    map_at (aw_meta w') MetaKeyHead = c \<and>
    (n = 0 \<or> (\<forall>vid vname lg'' w''. new_logger unmarshal audit_io_ok vid vname (w'\<lparr>aw_dir := aw_dir w\<rparr>) = (Inr lg'', w'') \<longrightarrow>
       lg_prev lg'' = lg_prev lg \<and> map_at (aw_meta w'') MetaKeyHead = lg_prev lg))"
proof -
  obtain es where es: "log_inv hmac unmarshal lg w es" "length es = n"
    using log_reaches_inv [OF assms(1)] assms(2) by blast
  have "compute_chain hmac lg (sealed lg now e []) =
      Inr (hex_encode (hmac (lg_seed lg) (last_recorded [] es @ event_bytes (sealed lg now e []))))"
    using es(1) assms(2) by (intro compute_chain_last) (simp_all add: log_inv_def)
  from append_event_cases [OF this, of io w] assms(3)
  have lg': "lg_seed lg' = lg_seed lg" and m: "aw_meta w' = map_put (aw_meta w) MetaKeyHead c"
    by (auto split: option.splits)
  let ?w = "w'\<lparr>aw_dir := aw_dir w\<rparr>"
  have cut: "?w = w\<lparr>aw_meta := aw_meta w'\<rparr>" by simp
  have lines: "lines_end ?w" "map unmarshal (log_lines ?w) = map Some es"
    using es(1) unfolding cut by (simp_all add: log_inv_def)
  have seed: "hex_decode (map_at (aw_meta ?w) MetaKeySeed) = Some (lg_seed lg)"
    using es(1) by (simp add: m log_inv_def map_at_def MetaKeySeed_def MetaKeyHead_def)
  have ch: "chained hmac (lg_seed lg) [] es" "length (lg_seed lg) = 32" "lg_prev lg = head_of es"
    using es(1) by (simp_all add: log_inv_def)
  have "lg_prev lg'' = lg_prev lg \<and> map_at (aw_meta w'') MetaKeyHead = lg_prev lg"
    if "n \<noteq> 0" "new_logger unmarshal audit_io_ok vid vname ?w = (Inr lg'', w'')" for vid vname lg'' w''
    using reopen_inv [OF lines ch(1) seed ch(2) _ _ that(2)] assms(2) that(1) es(2) ch(3)
    by (auto simp: log_inv_def)
  moreover have "verify_chain hmac unmarshal audit_io_ok lg' ?w = (-1, n, 0, None)"
    using lines ch(1) es(2) lg' by (simp add: verify_chain_def walk_chain_def walk_all_chained walk_result_def)
  moreover have "map_at (aw_meta w') MetaKeyHead = c" by (simp add: m map_at_def)
  ultimately show ?thesis by blast
qed

theorem truncation_is_not_detected_witness:
  "verify_chain toy_hmac (\<lambda>_. Some ex_sealed) audit_io_ok (fst ex_appended)
     ((snd ex_appended)\<lparr>aw_dir := aw_dir ex_world\<rparr>) = (-1, 0, 0, None)"
  using truncation_is_not_detected [OF ex_fresh _ ex_append] by (simp add: toy_hmac_def ex_mac_def)

section \<open>A failed database update\<close>

lemma log_lines_appended:
  assumes "lines_end w" and "newest w now"
  shows "log_lines (appended_world (log_name now) e w) = log_lines w @ [event_json e]"
    "lines_end (appended_world (log_name now) e w)"
  using log_lines_append_event [OF assms(1), of "log_name now" e] assms(2)
  by (simp_all add: appended_world_def newest_def)

lemma collect_no_markers:
  "map unmarshal ls = map Some es \<Longrightarrow> \<forall>x \<in> set es. ev_reseal x = None \<Longrightarrow> collect_markers unmarshal acks ls = acks"
proof (induction ls arbitrary: es)
  case Nil
  then show ?case by simp
next
  case (Cons l ls)
  then obtain x es' where "es = x # es'" "unmarshal l = Some x" "map unmarshal ls = map Some es'" by (cases es) auto
  with Cons show ?case by simp
qed

text \<open>The events of a log without markers, as the decoder reads them.\<close>

definition plain_events :: "decoder \<Rightarrow> audit_world \<Rightarrow> event list \<Rightarrow> bool" where
  "plain_events unmarshal w es \<longleftrightarrow> map unmarshal (log_lines w) = map Some es \<and> (\<forall>x \<in> set es. ev_reseal x = None)"

lemma plain_events_unique:
  "plain_events unmarshal w es \<Longrightarrow> map unmarshal (log_lines w) = map Some es' \<Longrightarrow> es' = es"
  unfolding plain_events_def by (metis map_injective injI option.inject)

lemma walk_break:
  assumes "map unmarshal ls = map Some es" and "chained hmac seed [] es"
    and "unmarshal l = Some x" and "ev_hmac x = hex_encode r" and "r \<noteq> hmac seed (last_recorded [] es @ event_bytes x)"
    and "\<not> acknowledged acks (ev_hmac x) (hmac seed (last_recorded [] es @ event_bytes x))"
  shows "walk_lines hmac unmarshal seed acks [] 0 0 (ls @ l # rest) =
    (walk_result (int (length es)) (length es) 0 (ev_hmac x) (hex_encode (hmac seed (last_recorded [] es @ event_bytes x))), None)"
  using walk_chained [OF assms(1,2), where rest = "l # rest" and idx = 0 and acked = 0] assms(3-6)
  by (simp add: compute_with_seed_def Let_def)

text \<open>
  While the daemon keeps running, a database update that fails once breaks the chain: the
  line is on disk but the logger still chains from the line before it, so the next successful
  append is reported as the first break, unless HMAC collides on the two messages.
\<close>

theorem failed_head_update_breaks_chain:
  assumes "log_reaches hmac unmarshal lg w n" and "\<forall>k m. hmac k m \<noteq> []" and "plain_events unmarshal w es"
    and "ai_append io = None" and "ai_meta_set io = Some err"
    and "append_event hmac io now e (lg, w) = (Inl err, lg1, w1)" and "newest w now"
    and "append_event hmac io' now' e' (lg1, w1) = (Inr c', lg2, w2)" and "newest w1 now'"
    and "compute_chain hmac lg (sealed lg now e []) = Inr c"
    and "reads_back unmarshal (sealed lg now e c)" and "reads_back unmarshal (sealed lg now' e' c')"
    and "ev_reseal e = None" and "ev_reseal e' = None"
    and "hmac (lg_seed lg) (last_recorded [] es @ event_bytes (sealed lg now' e' [])) \<noteq>
      hmac (lg_seed lg) (hmac (lg_seed lg) (last_recorded [] es @ event_bytes (sealed lg now e [])) @ event_bytes (sealed lg now' e' []))"
  shows "verify_chain hmac unmarshal audit_io_ok lg2 w2 = (int n + 1, n + 1, 0, None)"
proof -
  obtain es' where inv: "log_inv hmac unmarshal lg w es'" "length es' = n"
    using log_reaches_inv [OF assms(1)] assms(2) by blast
  then have "es' = es" using plain_events_unique [OF assms(3)] by (simp add: log_inv_def)
  with inv have inv: "log_inv hmac unmarshal lg w es" and n: "length es = n" by simp_all
  let ?e = "sealed lg now e c" and ?e' = "sealed lg now' e' c'"
  let ?h = "\<lambda>x. hmac (lg_seed lg) (last_recorded [] es @ event_bytes x)"
  from append_event_cases [OF assms(10), of io w] assms(4-6)
  have 1: "lg1 = lg" "w1 = appended_world (log_name now) ?e w" by simp_all
  have chain: "compute_chain hmac lg (sealed lg t y []) = Inr (hex_encode (?h (sealed lg t y [])))" for t y
    using inv assms(2) by (intro compute_chain_last) (simp_all add: log_inv_def)
  have c: "c = hex_encode (?h (sealed lg now e []))" using chain assms(10) by simp
  from append_event_cases [OF chain [of now' e'], of io' w1] assms(8)
  have 2: "lg2 = lg\<lparr>lg_prev := c'\<rparr>" "c' = hex_encode (?h (sealed lg now' e' []))"
    "log_lines w2 = log_lines (appended_world (log_name now') ?e' w1)"
    by (auto simp: 1(1) split: option.splits)
  have lines: "log_lines w2 = (log_lines w @ [event_json ?e]) @ event_json ?e' # []"
    using log_lines_appended [of w now ?e] log_lines_appended [of w1 now' ?e'] assms(7,9) inv 2(3)
    by (simp add: 1(2) log_inv_def)
  let ?es = "es @ [?e\<lparr>ev_index := 0\<rparr>]"
  have b: "event_bytes ?e = event_bytes (sealed lg now e [])" "event_bytes ?e' = event_bytes (sealed lg now' e' [])"
    by (rule event_bytes_sealed_any)+
  have dec: "map unmarshal (log_lines w @ [event_json ?e]) = map Some ?es"
    using inv assms(11) by (simp add: log_inv_def reads_back_def)
  have ch: "chained hmac (lg_seed lg) [] ?es"
    using inv c b by (simp add: log_inv_def chained_append)
  have last: "last_recorded [] ?es = ?h (sealed lg now e [])"
    by (simp add: last_recorded_def recorded_hex c)
  have acks: "collect_markers unmarshal [] ((log_lines w @ [event_json ?e]) @ event_json ?e' # []) = []"
    unfolding lines [symmetric]
    by (rule collect_no_markers [of _ _ "?es @ [?e'\<lparr>ev_index := 0\<rparr>]"])
      (use dec assms(3,12-14) lines in \<open>auto simp: reads_back_def plain_events_def sealed_def\<close>)
  have d': "unmarshal (event_json ?e') = Some (?e'\<lparr>ev_index := 0\<rparr>)" using assms(12) by (simp add: reads_back_def)
  have h': "ev_hmac (?e'\<lparr>ev_index := 0\<rparr>) = hex_encode (?h (sealed lg now' e' []))" using 2(2) by simp
  have "?h (sealed lg now' e' []) \<noteq> hmac (lg_seed lg) (last_recorded [] ?es @ event_bytes (?e'\<lparr>ev_index := 0\<rparr>))"
    using assms(15) last b by simp
  from walk_break [OF dec ch d' h' this, of "[]" "[]"] n
  show ?thesis
    unfolding verify_chain_def walk_chain_def audit_lines_ok
    by (simp add: acks lines 2(1) acknowledged_def walk_result_def del: append_assoc)
qed

definition grow_hmac :: "bytes \<Rightarrow> bytes \<Rightarrow> bytes" where "grow_hmac k m = ''h'' @ m"

definition grow_sealed :: event where
  "grow_sealed = sealed ex_logger 5 no_event (hex_encode (''h'' @ event_bytes (sealed ex_logger 5 no_event [])))"

definition meta_fails :: audit_io where
  "meta_fails = audit_io_ok\<lparr>ai_meta_set := Some ''database is locked''\<rparr>"

definition after_failure :: "logger \<times> audit_world" where
  "after_failure = snd (append_event grow_hmac meta_fails 5 no_event (ex_logger, ex_world))"

definition after_next :: "logger \<times> audit_world" where
  "after_next = snd (append_event grow_hmac audit_io_ok 5 no_event after_failure)"

lemma grow_chain: "compute_chain grow_hmac ex_logger (sealed ex_logger 5 no_event []) =
    Inr (hex_encode (''h'' @ event_bytes (sealed ex_logger 5 no_event [])))"
  by (simp add: compute_chain_def ex_logger_def grow_hmac_def)

lemma grow_reads_back: "reads_back (\<lambda>_. Some grow_sealed) grow_sealed"
  by (simp add: reads_back_def grow_sealed_def sealed_def no_event_def)

lemma after_failure_eq: "after_failure = (ex_logger, appended_world (log_name 5) grow_sealed ex_world)"
  using append_event_cases [OF grow_chain, of meta_fails ex_world]
  by (simp add: after_failure_def meta_fails_def audit_io_ok_def grow_sealed_def)

lemma after_failure_run:
  "append_event grow_hmac meta_fails 5 no_event (ex_logger, ex_world) = (Inl ''database is locked'', ex_logger, snd after_failure)"
  using append_event_cases [OF grow_chain, of meta_fails ex_world]
  by (simp add: after_failure_def meta_fails_def audit_io_ok_def)

lemma after_next_run:
  "append_event grow_hmac audit_io_ok 5 no_event (ex_logger, snd after_failure) =
     (Inr (hex_encode (''h'' @ event_bytes (sealed ex_logger 5 no_event []))), fst after_next, snd after_next)"
  using append_event_cases [OF grow_chain, of audit_io_ok "snd after_failure"]
  by (simp add: after_next_def after_failure_eq audit_io_ok_def)

theorem failed_head_update_breaks_chain_witness:
  "verify_chain grow_hmac (\<lambda>_. Some grow_sealed) audit_io_ok (fst after_next) (snd after_next) = (1, 1, 0, None)"
proof -
  have new: "new_logger (\<lambda>_. Some grow_sealed) audit_io_ok ''id'' ''default'' ex_world = (Inr ex_logger, ex_world)"
    by (simp add: new_logger_def ex_world_def audit_io_ok_def map_at_def map_get_def MetaKeySeed_def MetaKeyHead_def
        ex_seed_def ex_logger_def last_disk_head_def sort_strings_def)
  have reach: "log_reaches grow_hmac (\<lambda>_. Some grow_sealed) ex_logger ex_world 0"
    by (rule log_reaches.fresh [OF ex_head(2,1) new])
  have plain: "plain_events (\<lambda>_. Some grow_sealed) ex_world []"
    by (simp add: plain_events_def log_lines_def ex_head)
  have newest: "newest ex_world 5" "newest (snd after_failure) 5"
    by (simp_all add: newest_def ex_head after_failure_eq appended_world_def map_put_def)
  have ne: "\<forall>k m. grow_hmac k m \<noteq> []" by (simp add: grow_hmac_def)
  have io: "ai_append meta_fails = None" "ai_meta_set meta_fails = Some ''database is locked''"
    by (simp_all add: meta_fails_def audit_io_ok_def)
  have rb: "reads_back (\<lambda>_. Some grow_sealed)
      (sealed ex_logger 5 no_event (hex_encode (''h'' @ event_bytes (sealed ex_logger 5 no_event []))))"
    unfolding grow_sealed_def [symmetric] by (rule grow_reads_back)
  have rs: "ev_reseal no_event = None" by (simp add: no_event_def)
  have neq: "grow_hmac (lg_seed ex_logger) (last_recorded [] [] @ event_bytes (sealed ex_logger 5 no_event [])) \<noteq>
      grow_hmac (lg_seed ex_logger) (grow_hmac (lg_seed ex_logger) (last_recorded [] [] @
        event_bytes (sealed ex_logger 5 no_event [])) @ event_bytes (sealed ex_logger 5 no_event []))"
    by (simp add: grow_hmac_def last_recorded_def event_bytes_def)
  from failed_head_update_breaks_chain [OF reach ne plain io after_failure_run newest(1) after_next_run newest(2)
      grow_chain rb rb rs rs neq]
  show ?thesis by simp
qed

section \<open>A torn line\<close>

text \<open>
  A write torn in the middle swallows the next event: the following successful append
  continues the torn line, so its event is in no line of the log, and \<open>VerifyChain\<close> fails to
  parse from there on, unless the decoder accepts the two fragments glued together.
\<close>

theorem torn_line_swallows_next_event:
  assumes "log_reaches hmac unmarshal lg w n" and "\<forall>k m. hmac k m \<noteq> []"
    and "compute_chain hmac lg (sealed lg now e []) = Inr c"
    and "ai_append io = Some (err, k)" and "0 < k" and "k \<le> length (event_json (sealed lg now e c))"
    and "append_event hmac io now e (lg, w) = (Inl err, lg1, w1)" and "newest w now"
    and "append_event hmac io' now e' (lg1, w1) = (Inr c', lg2, w2)"
    and "unmarshal (take k (event_json (sealed lg now e c)) @ event_json (sealed lg now e' c')) = None"
  shows "verify_chain hmac unmarshal audit_io_ok lg2 w2 = (int n, n, 0, Some ''audit: parse line'') \<and>
    log_lines w2 = log_lines w @ [take k (event_json (sealed lg now e c)) @ event_json (sealed lg now e' c')]"
proof -
  obtain es where inv: "log_inv hmac unmarshal lg w es" "length es = n"
    using log_reaches_inv [OF assms(1)] assms(2) by blast
  let ?f = "log_name now" and ?t = "take k (event_json (sealed lg now e c))"
  from append_event_cases [OF assms(3), of io w] assms(4-7)
  have 1: "lg1 = lg" "w1 = w\<lparr>aw_dir := map_put (aw_dir w) ?f (file_bytes w ?f @ ?t)\<rparr>"
    by simp_all
  obtain d where d: "compute_chain hmac lg (sealed lg now e' []) = Inr d"
    using compute_chain_last [of hmac lg es] inv(1) assms(2) by (simp add: log_inv_def)
  let ?l = "?t @ event_json (sealed lg now e' c')"
  from append_event_cases [OF d, of io' w1] assms(9)
  have 2: "lg_seed lg2 = lg_seed lg" "log_lines w2 = log_lines (appended_world ?f (sealed lg now e' c') w1)"
    by (auto simp: 1(1) split: option.splits)
  have same: "appended_world ?f (sealed lg now e' c') w1 =
      w1\<lparr>aw_dir := map_put (aw_dir w1) ?f (file_bytes w ?f @ ?l @ [newline])\<rparr>"
    by (simp add: appended_world_def 1(2) file_bytes_def map_at_def)
  have ok: "go_map_ok (aw_dir w)" "lines_end w" using inv(1) by (simp_all add: log_inv_def lines_end_def)
  have keys: "\<forall>x \<in> fst ` set (aw_dir w). x \<le> ?f" using assms(8) by (simp add: newest_def)
  have nl: "newline \<notin> set ?l"
    using event_json_line in_set_takeD [of newline k "event_json (sealed lg now e c)"] by auto
  have "map_put (map_put (aw_dir w) ?f b1) ?f b2 = map_put (aw_dir w) ?f b2" for b1 b2
    by (simp add: map_put_def update_last)
  then have w2: "log_lines w2 = log_lines (w\<lparr>aw_dir := map_put (aw_dir w) ?f (file_bytes w ?f @ ?l @ [newline])\<rparr>)"
    unfolding 2(2) same by (simp add: 1(2))
  have lines: "log_lines w2 = log_lines w @ [?l]"
    using log_lines_append [OF ok(2) keys, of "?l @ [newline]"] split_one_line [OF nl] by (simp add: w2)
  moreover have "walk_lines hmac unmarshal (lg_seed lg) acks [] 0 0 (log_lines w @ [?l]) =
      (walk_result (int n) n 0 [] [], Some ''audit: parse line'')" for acks
    using walk_chained [of unmarshal "log_lines w" es hmac "lg_seed lg" "[]" acks 0 0 "[?l]"] inv assms(10)
    by (simp add: log_inv_def)
  ultimately show ?thesis
    by (simp add: verify_chain_def walk_chain_def 2(1) walk_result_def)
qed

definition torn_io :: audit_io where
  "torn_io = audit_io_ok\<lparr>ai_append := Some (''no space left'', 1)\<rparr>"

theorem torn_line_swallows_next_event_witness:
  "\<exists>lg w. verify_chain grow_hmac (\<lambda>_. None) audit_io_ok lg w = (0, 0, 0, Some ''audit: parse line'')"
proof -
  have new: "new_logger (\<lambda>_. None) audit_io_ok ''id'' ''default'' ex_world = (Inr ex_logger, ex_world)"
    by (simp add: new_logger_def ex_world_def audit_io_ok_def map_at_def map_get_def MetaKeySeed_def MetaKeyHead_def
        ex_seed_def ex_logger_def last_disk_head_def sort_strings_def)
  have reach: "log_reaches grow_hmac (\<lambda>_. None) ex_logger ex_world 0"
    by (rule log_reaches.fresh [OF ex_head(2,1) new])
  obtain w1 where w1: "append_event grow_hmac torn_io 5 no_event (ex_logger, ex_world) = (Inl ''no space left'', ex_logger, w1)"
    using append_event_cases [OF grow_chain, of torn_io ex_world] by (simp add: torn_io_def)
  obtain c lg2 w2 where w2: "append_event grow_hmac audit_io_ok 5 no_event (ex_logger, w1) = (Inr c, lg2, w2)"
    using append_event_cases [OF grow_chain, of audit_io_ok w1] by (simp add: audit_io_ok_def)
  have "newest ex_world 5" by (simp add: newest_def ex_head)
  moreover have "1 \<le> length (event_json e)" for e
    by (simp add: Suc_le_eq)
  ultimately have "verify_chain grow_hmac (\<lambda>_. None) audit_io_ok lg2 w2 = (int 0, 0, 0, Some ''audit: parse line'')"
    using torn_line_swallows_next_event [OF reach _ grow_chain, of torn_io "''no space left''" 1 ex_logger w1 audit_io_ok no_event c lg2 w2]
      w1 w2 by (simp add: torn_io_def grow_hmac_def)
  then show ?thesis by auto
qed

section \<open>Resealing\<close>

text \<open>
  A log with one break: events that chain, one whose recorded value is not the expected one,
  and events that chain from it; no markers yet, and the logger stands at the last line.
\<close>

definition one_break :: "(bytes \<Rightarrow> bytes \<Rightarrow> bytes) \<Rightarrow> decoder \<Rightarrow> logger \<Rightarrow> audit_world \<Rightarrow> event list \<Rightarrow> event \<Rightarrow> event list \<Rightarrow> bool" where
  "one_break hmac unmarshal lg w pre b post \<longleftrightarrow> lines_end w \<and> plain_events unmarshal w (pre @ b # post) \<and>
     chained hmac (lg_seed lg) [] pre \<and> ev_hmac b = hex_encode (recorded b) \<and> recorded b \<noteq> [] \<and>
     recorded b \<noteq> hmac (lg_seed lg) (last_recorded [] pre @ event_bytes b) \<and>
     chained hmac (lg_seed lg) (recorded b) post \<and> lg_prev lg = ev_hmac (last (b # post))"

lemma map_eq_middle:
  "map f xs = as @ b # cs \<Longrightarrow> \<exists>ls l ls'. xs = ls @ l # ls' \<and> map f ls = as \<and> f l = b \<and> map f ls' = cs"
  by (auto simp: map_eq_append_conv map_eq_Cons_conv)

lemma walk_one_break:
  assumes "one_break hmac unmarshal lg w pre b post"
  shows "walk_chain hmac unmarshal audit_io_ok lg w =
    (walk_result (int (length pre)) (length pre) 0 (ev_hmac b)
       (hex_encode (hmac (lg_seed lg) (last_recorded [] pre @ event_bytes b))), None)"
proof -
  have "map unmarshal (log_lines w) = map Some pre @ Some b # map Some post"
    using assms by (simp add: one_break_def plain_events_def)
  from map_eq_middle [OF this]
  obtain ls l ls' where ls: "log_lines w = ls @ l # ls'" "map unmarshal ls = map Some pre" "unmarshal l = Some b"
    by blast
  have "collect_markers unmarshal [] (log_lines w) = []"
    by (rule collect_no_markers [of _ _ "pre @ b # post"]) (use assms in \<open>auto simp: one_break_def plain_events_def\<close>)
  then show ?thesis
    using walk_break [of unmarshal ls pre hmac "lg_seed lg" l b "recorded b" "[]" ls'] ls assms
    by (simp add: walk_chain_def one_break_def acknowledged_def)
qed

lemma one_break_prev:
  assumes "one_break hmac unmarshal lg w pre b post" and "\<forall>k m. hmac k m \<noteq> []"
  shows "lg_prev lg = hex_encode (last_recorded (recorded b) post)" and "last_recorded (recorded b) post \<noteq> []"
proof -
  note ob = assms(1) [unfolded one_break_def]
  have "ev_hmac (last (b # post)) = hex_encode (last_recorded (recorded b) post) \<and> last_recorded (recorded b) post \<noteq> []"
  proof (cases post rule: rev_cases)
    case Nil
    then show ?thesis using ob by (simp add: last_recorded_def)
  next
    case (snoc post' y)
    then have "ev_hmac y = hex_encode (hmac (lg_seed lg) (last_recorded (recorded b) post' @ event_bytes y))"
      using ob by (simp add: chained_append)
    then show ?thesis using snoc assms(2) by (simp add: last_recorded_def recorded_hex)
  qed
  then show "lg_prev lg = hex_encode (last_recorded (recorded b) post)" "last_recorded (recorded b) post \<noteq> []" using ob by simp_all
qed

lemma reseal_one_break:
  assumes "one_break hmac unmarshal lg w pre b post"
    and "reseal hmac unmarshal audit_io_ok now reason who (lg, w) = (Inr m, lg', w')"
  shows "m = \<lparr>rm_broken_index = int (length pre), rm_observed_head = ev_hmac b,
      rm_expected_head = hex_encode (hmac (lg_seed lg) (last_recorded [] pre @ event_bytes b)), rm_reason = reason, rm_by = who\<rparr>"
    and "append_event hmac audit_io_ok now (no_event\<lparr>ev_op := ''audit.reseal'', ev_outcome := ''ok'', ev_reseal := Some m\<rparr>) (lg, w) =
      (Inr (lg_prev lg'), lg', w')"
proof -
  let ?m = "\<lparr>rm_broken_index = int (length pre), rm_observed_head = ev_hmac b,
      rm_expected_head = hex_encode (hmac (lg_seed lg) (last_recorded [] pre @ event_bytes b)), rm_reason = reason, rm_by = who\<rparr>"
  let ?r = "no_event\<lparr>ev_op := ''audit.reseal'', ev_outcome := ''ok'', ev_reseal := Some m\<rparr>"
  from assms(2) obtain c where c: "m = ?m" "append_event hmac audit_io_ok now ?r (lg, w) = (Inr c, lg', w')"
    by (auto simp: reseal_def walk_one_break [OF assms(1)] walk_result_def Let_def split: prod.splits sum.splits)
  moreover from c(2) have "lg_prev lg' = c"
    by (auto simp: append_event_def Let_def split: sum.splits prod.splits option.splits)
  ultimately show "m = ?m" "append_event hmac audit_io_ok now ?r (lg, w) = (Inr (lg_prev lg'), lg', w')" by simp_all
qed

text \<open>The walk over a break that is acknowledged goes on to the end.\<close>

lemma walk_bridged:
  assumes "map unmarshal ls = map Some pre" and "unmarshal l = Some b" and "map unmarshal ls' = map Some post"
    and "chained hmac seed [] pre" and "chained hmac seed (recorded b) post" and "ev_hmac b = hex_encode (recorded b)"
    and "recorded b \<noteq> hmac seed (last_recorded [] pre @ event_bytes b)"
    and "acknowledged acks (ev_hmac b) (hmac seed (last_recorded [] pre @ event_bytes b))"
  shows "walk_lines hmac unmarshal seed acks [] 0 0 (ls @ l # ls') =
    (walk_result (-1) (Suc (length pre) + length post) (Suc 0) [] [], None)"
proof -
  have hb: "hex_decode (ev_hmac b) = Some (recorded b)" using assms(6) by (metis hex_decode_encode)
  have "walk_lines hmac unmarshal seed acks [] 0 0 (ls @ l # ls') =
      walk_lines hmac unmarshal seed acks (last_recorded [] pre) (length pre) 0 (l # ls')"
    using walk_chained [OF assms(1,4), of acks 0 0 "l # ls'"] by simp
  also have "\<dots> = walk_lines hmac unmarshal seed acks (recorded b) (Suc (length pre)) (Suc 0) ls'"
    using assms(2,7,8) hb by (simp add: compute_with_seed_def Let_def)
  also have "\<dots> = (walk_result (-1) (Suc (length pre) + length post) (Suc 0) [] [], None)"
    using walk_chained [OF assms(3,5), of acks "Suc (length pre)" "Suc 0" "[]"] by simp
  finally show ?thesis .
qed

lemma collect_markers_append:
  "collect_markers unmarshal acks (xs @ ys) = collect_markers unmarshal (collect_markers unmarshal acks xs) ys"
  by (induction xs arbitrary: acks) (auto split: option.splits)

text \<open>
  Resealing repairs a broken log and says so: on a log with one break \<open>Reseal\<close> names the
  break, appends one marker, and afterwards \<open>VerifyChain\<close> finds no break, counts every event
  and exactly one acknowledgement; the events already in the log are unchanged.
\<close>

theorem reseal_bridges_the_break:
  assumes "one_break hmac unmarshal lg w pre b post" and "\<forall>k m. hmac k m \<noteq> []"
    and "reseal hmac unmarshal audit_io_ok now reason who (lg, w) = (Inr m, lg', w')"
    and "newest w now"
    and "\<forall>c. lg_prev lg' = c \<longrightarrow> reads_back unmarshal
      (sealed lg now (no_event\<lparr>ev_op := ''audit.reseal'', ev_outcome := ''ok'', ev_reseal := Some m\<rparr>) c)"
  shows "rm_broken_index m = int (length pre) \<and>
    verify_chain hmac unmarshal audit_io_ok lg' w' = (-1, length pre + 1 + length post + 1, 1, None) \<and>
    log_lines w' = log_lines w @ [last (log_lines w')]"
proof -
  let ?x = "hmac (lg_seed lg) (last_recorded [] pre @ event_bytes b)"
  let ?r = "no_event\<lparr>ev_op := ''audit.reseal'', ev_outcome := ''ok'', ev_reseal := Some m\<rparr>"
  let ?prev = "last_recorded (recorded b) post"
  let ?c = "hex_encode (hmac (lg_seed lg) (?prev @ event_bytes (sealed lg now ?r [])))"
  let ?e = "sealed lg now ?r ?c" and ?acks = "[(ev_hmac b, m)]"
  note ob = assms(1) [unfolded one_break_def plain_events_def] and m = reseal_one_break(1) [OF assms(1,3)]
  have cc: "compute_chain hmac lg (sealed lg now ?r []) = Inr ?c"
    using one_break_prev [OF assms(1,2)] by (simp add: compute_chain_def)
  from append_event_cases [OF cc, of audit_io_ok w] reseal_one_break(2) [OF assms(1,3)]
  have lg': "lg_prev lg' = ?c" "lg_seed lg' = lg_seed lg" and "log_lines w' = log_lines (appended_world (log_name now) ?e w)"
    by (auto simp: audit_io_ok_def)
  then have lines: "log_lines w' = log_lines w @ [event_json ?e]"
    using log_lines_appended [of w now ?e] ob assms(4) by simp
  have "map unmarshal (log_lines w) = map Some pre @ Some b # map Some post" using ob by simp
  from map_eq_middle [OF this]
  obtain ls l ls' where ls: "log_lines w = ls @ l # ls'" "map unmarshal ls = map Some pre" "unmarshal l = Some b"
      "map unmarshal ls' = map Some post" by blast
  have dec: "unmarshal (event_json ?e) = Some (?e\<lparr>ev_index := 0\<rparr>)" using assms(5) lg'(1) by (simp add: reads_back_def)
  have acks: "collect_markers unmarshal [] (log_lines w') = ?acks"
    using collect_no_markers [of unmarshal "log_lines w" "pre @ b # post" "[]"] ob dec
    by (simp add: lines collect_markers_append sealed_def m map_put_def)
  have post: "map unmarshal (ls' @ [event_json ?e]) = map Some (post @ [?e\<lparr>ev_index := 0\<rparr>])" using ls(4) dec by simp
  have ch: "chained hmac (lg_seed lg) (recorded b) (post @ [?e\<lparr>ev_index := 0\<rparr>])"
    using ob event_bytes_sealed_any [of lg now ?r ?c] by (simp add: chained_append)
  have ack: "acknowledged ?acks (ev_hmac b) ?x" by (simp add: acknowledged_def map_get_def m)
  have "walk_lines hmac unmarshal (lg_seed lg) ?acks [] 0 0 (ls @ l # (ls' @ [event_json ?e])) =
      (walk_result (-1) (Suc (length pre) + length (post @ [?e\<lparr>ev_index := 0\<rparr>])) (Suc 0) [] [], None)"
    using ob by (intro walk_bridged [OF ls(2,3) post _ ch _ _ ack]) blast+
  then have "verify_chain hmac unmarshal audit_io_ok lg' w' = (-1, length pre + 1 + length post + 1, 1, None)"
    unfolding verify_chain_def walk_chain_def audit_lines_ok
    by (simp add: acks lg'(2)) (simp add: lines ls(1) walk_result_def)
  then show ?thesis using lines m by simp
qed

definition broken_world :: audit_world where
  "broken_world = \<lparr>aw_dir = [(log_name 55, event_json grow_sealed @ [newline] @ event_json grow_sealed @ [newline])],
     aw_meta = []\<rparr>"

definition broken_logger :: logger where
  "broken_logger = ex_logger\<lparr>lg_prev := ev_hmac grow_sealed\<rparr>"

definition ex_marker :: reseal_marker where
  "ex_marker = \<lparr>rm_broken_index = 1, rm_observed_head = ev_hmac grow_sealed,
     rm_expected_head = hex_encode (grow_hmac ex_seed (recorded grow_sealed @ event_bytes grow_sealed)),
     rm_reason = ''crash'', rm_by = ''owner''\<rparr>"

definition marker_event :: event where
  "marker_event = no_event\<lparr>ev_op := ''audit.reseal'', ev_outcome := ''ok'', ev_reseal := Some ex_marker\<rparr>"

definition marker_sealed :: event where
  "marker_sealed = sealed broken_logger 55 marker_event
     (hex_encode (grow_hmac ex_seed (recorded grow_sealed @ event_bytes (sealed broken_logger 55 marker_event []))))"

definition two_decoder :: decoder where
  "two_decoder l = (if l = event_json grow_sealed then Some grow_sealed else Some marker_sealed)"

lemma grow_recorded: "recorded grow_sealed = ''h'' @ event_bytes grow_sealed"
  "ev_hmac grow_sealed = hex_encode (recorded grow_sealed)"
proof -
  have h: "ev_hmac grow_sealed = hex_encode (''h'' @ event_bytes (sealed ex_logger 5 no_event []))"
    unfolding grow_sealed_def by (rule event_bytes_sealed)
  have b: "event_bytes grow_sealed = event_bytes (sealed ex_logger 5 no_event [])"
    unfolding grow_sealed_def by (rule event_bytes_sealed_any)
  show "recorded grow_sealed = ''h'' @ event_bytes grow_sealed"
    unfolding b by (rule recorded_hex [OF h])
  then show "ev_hmac grow_sealed = hex_encode (recorded grow_sealed)"
    unfolding b h by simp
qed

lemma different_lines: "event_json marker_sealed \<noteq> event_json grow_sealed"
proof -
  have "int_dec 5 = ''5''" "int_dec 55 = ''55''" by code_simp+
  then show ?thesis
    by (simp add: event_json_def marker_sealed_def grow_sealed_def sealed_def json_object_def json_field_def str_field_def)
qed

lemma broken_lines: "log_lines broken_world = [event_json grow_sealed, event_json grow_sealed]" "lines_end broken_world"
proof -
  have "split_lines (event_json grow_sealed @ [newline] @ event_json grow_sealed @ [newline]) =
      [event_json grow_sealed, event_json grow_sealed]"
    using split_lines_append [of "event_json grow_sealed @ [newline]" "event_json grow_sealed @ [newline]"]
      split_one_line [OF event_json_line, of grow_sealed] by simp
  then show "log_lines broken_world = [event_json grow_sealed, event_json grow_sealed]"
    by (simp add: log_lines_def file_lines_def file_bytes_def map_at_def map_get_def broken_world_def)
  show "lines_end broken_world"
    by (simp add: lines_end_def broken_world_def go_map_ok_def file_bytes_def map_at_def map_get_def ends_line_def)
qed

lemma ex_one_break: "one_break grow_hmac two_decoder broken_logger broken_world [grow_sealed] grow_sealed []"
proof -
  have "event_bytes grow_sealed = event_bytes (sealed ex_logger 5 no_event [])"
    unfolding grow_sealed_def by (rule event_bytes_sealed_any)
  moreover have "ev_reseal grow_sealed = None" by (simp add: grow_sealed_def sealed_def no_event_def)
  moreover have "lg_prev broken_logger = ev_hmac grow_sealed" by (simp add: broken_logger_def)
  ultimately show ?thesis
    using broken_lines grow_recorded
    by (simp add: one_break_def plain_events_def two_decoder_def grow_hmac_def last_recorded_def event_bytes_def)
qed

theorem reseal_bridges_the_break_witness:
  "\<exists>lg w. verify_chain grow_hmac two_decoder audit_io_ok lg w = (-1, 3, 1, None)"
proof -
  have seed: "lg_seed broken_logger = ex_seed" by (simp add: broken_logger_def ex_logger_def)
  let ?c = "hex_encode (grow_hmac ex_seed (recorded grow_sealed @ event_bytes (sealed broken_logger 55 marker_event [])))"
  have "recorded grow_sealed \<noteq> []" "hex_decode (ev_hmac grow_sealed) = Some (recorded grow_sealed)"
    using grow_recorded by (simp, metis hex_decode_encode)
  then have chain: "compute_chain grow_hmac broken_logger (sealed broken_logger 55 marker_event []) = Inr ?c"
    using grow_recorded(2) seed by (simp add: compute_chain_def broken_logger_def)
  obtain lg w where run: "append_event grow_hmac audit_io_ok 55 marker_event (broken_logger, broken_world) = (Inr ?c, lg, w)"
    "lg_prev lg = ?c"
    using append_event_cases [OF chain, of audit_io_ok broken_world] by (simp add: audit_io_ok_def)
  have m: "ex_marker = \<lparr>rm_broken_index = int (length [grow_sealed]), rm_observed_head = ev_hmac grow_sealed,
      rm_expected_head = hex_encode (grow_hmac (lg_seed broken_logger) (last_recorded [] [grow_sealed] @ event_bytes grow_sealed)),
      rm_reason = ''crash'', rm_by = ''owner''\<rparr>"
    by (simp add: ex_marker_def seed last_recorded_def)
  have "reseal grow_hmac two_decoder audit_io_ok 55 ''crash'' ''owner'' (broken_logger, broken_world) = (Inr ex_marker, lg, w)"
    using run(1) unfolding marker_event_def m
    by (simp add: reseal_def walk_one_break [OF ex_one_break] walk_result_def Let_def)
  moreover have "newest broken_world 55" by (simp add: newest_def broken_world_def)
  moreover have "\<forall>k m. grow_hmac k m \<noteq> []" by (simp add: grow_hmac_def)
  moreover have "reads_back two_decoder marker_sealed"
    using different_lines by (simp add: reads_back_def two_decoder_def) (simp add: marker_sealed_def sealed_def marker_event_def no_event_def)
  then have "\<forall>c. lg_prev lg = c \<longrightarrow> reads_back two_decoder (sealed broken_logger 55
      (no_event\<lparr>ev_op := ''audit.reseal'', ev_outcome := ''ok'', ev_reseal := Some ex_marker\<rparr>) c)"
    using run(2) by (simp add: marker_sealed_def marker_event_def)
  ultimately have "verify_chain grow_hmac two_decoder audit_io_ok lg w = (-1, length [grow_sealed] + 1 + length ([] :: event list) + 1, 1, None)"
    using reseal_bridges_the_break [OF ex_one_break] by blast
  then show ?thesis by (intro exI) (simp add: numeral_3_eq_3)
qed

end
