(* ===== verification/Byn_File.thy ===== *)
theory Byn_File
  imports Go_Prelude
begin

text \<open>
  The parsed \<open>.byn\<close> manifest and its checks: \<open>internal/bynfile/bynfile.go\<close>. The TOML decoder
  is a third-party package; where the program parses a file, the parser is an argument. A
  check answers with the error of the code as a constructor that carries the offending name.
\<close>

section \<open>The file\<close>

definition MaxSize :: int where "MaxSize = 64 * 1024"
definition MaxDescriptionLen :: nat where "MaxDescriptionLen = 4096"

record byn_file =
  bf_description :: string
  bf_describe :: "string go_map"
  bf_scope_vault :: string
  bf_scope_project :: string
  bf_scope_env :: string
  bf_env :: "string list"
  bf_actions :: "string list"
  bf_writable :: "string list"
  bf_optional :: "string list"
  bf_agent_put :: "bool option"
  bf_agent_put_deny :: "string list"
  bf_aliases :: "string go_map"
  bf_auth :: "string go_map"

definition empty_byn_file :: byn_file where
  "empty_byn_file = \<lparr>bf_description = [], bf_describe = [], bf_scope_vault = [], bf_scope_project = [],
     bf_scope_env = [], bf_env = [], bf_actions = [], bf_writable = [], bf_optional = [], bf_agent_put = None,
     bf_agent_put_deny = [], bf_aliases = [], bf_auth = []\<rparr>"

definition env_list_from_text :: "string \<Rightarrow> string list" where
  "env_list_from_text text = [text]"

definition allows_all :: "byn_file \<Rightarrow> bool" where
  "allows_all f \<longleftrightarrow> list_ex (\<lambda>n. n = ''*'') (bf_env f)"

definition actions_allow_all :: "byn_file \<Rightarrow> bool" where
  "actions_allow_all f \<longleftrightarrow> list_ex (\<lambda>a. a = ''*'') (bf_actions f)"

datatype file_error =
    AuthExecValue string
  | AuthValue string string
  | AuthUnknownKey string
  | DescriptionTooLong nat
  | DescribeBadName string
  | DescribeEmpty string
  | DescribeTooLong string nat
  | ActionEmpty
  | ActionBraces string string
  | ActionPattern string
  | AliasBadName string
  | AliasReserved string
  | AliasEmptyValue string
  | AliasNoToken string
  | AliasPlaceholder string string

section \<open>The auth table\<close>

definition auth_keys :: "string list" where
  "auth_keys = [''get'', ''update'', ''delete'', ''exec'']"

definition auth_value_ok :: "string \<Rightarrow> string \<Rightarrow> bool" where
  "auth_value_ok key v \<longleftrightarrow>
     (if key = ''exec'' then v \<in> set [''always'', ''none'', ''trusted''] else v \<in> set [''always'', ''none''])"

fun check_auth_keys :: "string go_map \<Rightarrow> string list \<Rightarrow> file_error + unit" where
  "check_auth_keys auth [] = Inr ()"
| "check_auth_keys auth (key # ks) =
     (case map_get auth key of
        None \<Rightarrow> check_auth_keys auth ks
      | Some v \<Rightarrow>
          if auth_value_ok key v then check_auth_keys auth ks
          else Inl (if key = ''exec'' then AuthExecValue v else AuthValue key v))"

definition validate_auth :: "byn_file \<Rightarrow> file_error + unit" where
  "validate_auth f =
     (if bf_auth f = [] then Inr ()
      else case check_auth_keys (bf_auth f) auth_keys of
        Inl e \<Rightarrow> Inl e
      | Inr _ \<Rightarrow>
          (let unknown = sort (filter (\<lambda>k. \<not> list_ex (\<lambda>a. k = a) auth_keys) (map fst (bf_auth f))) in
           if unknown \<noteq> [] then Inl (AuthUnknownKey (hd unknown)) else Inr ()))"

section \<open>Descriptions\<close>

text \<open>A rune outside ASCII never passes; its bytes are all at least 128, so bytes can be checked.\<close>

fun env_var_chars :: "nat \<Rightarrow> string \<Rightarrow> bool" where
  "env_var_chars i [] = True"
| "env_var_chars i (r # s) =
     (if (CHR ''A'' \<le> r \<and> r \<le> CHR ''Z'') \<or> r = CHR ''_'' then env_var_chars (Suc i) s
      else if CHR ''0'' \<le> r \<and> r \<le> CHR ''9'' then (if i = 0 then False else env_var_chars (Suc i) s)
      else False)"

definition valid_env_var_name :: "string \<Rightarrow> bool" where
  "valid_env_var_name s \<longleftrightarrow> \<not> (s = [] \<or> 256 < length s) \<and> env_var_chars 0 s"

fun check_descriptions :: "string go_map \<Rightarrow> string list \<Rightarrow> file_error + unit" where
  "check_descriptions d [] = Inr ()"
| "check_descriptions d (name # ns) =
     (if \<not> valid_env_var_name name then Inl (DescribeBadName name)
      else if trim_space (map_at d name) = [] then Inl (DescribeEmpty name)
      else if MaxDescriptionLen < length (map_at d name) then Inl (DescribeTooLong name (length (map_at d name)))
      else check_descriptions d ns)"

definition validate_descriptions :: "byn_file \<Rightarrow> file_error + unit" where
  "validate_descriptions f =
     (if MaxDescriptionLen < length (bf_description f) then Inl (DescriptionTooLong (length (bf_description f)))
      else check_descriptions (bf_describe f) (sorted_keys (bf_describe f)))"

section \<open>What the checks guarantee\<close>

lemma check_auth_keys_ok:
  "check_auth_keys auth ks = Inr () \<longleftrightarrow> (\<forall>k \<in> set ks. \<forall>v. map_get auth k = Some v \<longrightarrow> auth_value_ok k v)"
  by (induction ks) (auto split: option.splits)

lemma known_auth_keys:
  "sort (filter (\<lambda>k. \<not> list_ex (\<lambda>a. k = a) auth_keys) (map fst m)) = [] \<longleftrightarrow>
   (\<forall>k v. map_get m k = Some v \<longrightarrow> k \<in> set auth_keys)"
proof -
  have "sort xs = [] \<longleftrightarrow> xs = []" for xs :: "string list"
    by (metis length_0_conv length_sort)
  then have "sort (filter (\<lambda>k. \<not> list_ex (\<lambda>a. k = a) auth_keys) (map fst m)) = [] \<longleftrightarrow>
      (\<forall>k \<in> fst ` set m. k \<in> set auth_keys)"
    unfolding list_ex_iff by (auto simp only: filter_empty_conv set_map)
  then show ?thesis by (simp only: Ball_def key_iff) blast
qed

lemma validate_auth_iff:
  "validate_auth f = Inr () \<longleftrightarrow>
   (\<forall>k v. map_get (bf_auth f) k = Some v \<longrightarrow> k \<in> set auth_keys \<and> auth_value_ok k v)"
proof (cases "check_auth_keys (bf_auth f) auth_keys")
  case (Inl e)
  then have "check_auth_keys (bf_auth f) auth_keys \<noteq> Inr ()" by simp
  then obtain k v where "k \<in> set auth_keys" "map_get (bf_auth f) k = Some v" "\<not> auth_value_ok k v"
    unfolding check_auth_keys_ok by blast
  moreover then have "bf_auth f \<noteq> []" by auto
  ultimately show ?thesis using Inl by (auto simp: validate_auth_def)
next
  case (Inr u)
  then have ok: "\<forall>k \<in> set auth_keys. \<forall>v. map_get (bf_auth f) k = Some v \<longrightarrow> auth_value_ok k v"
    using check_auth_keys_ok [of "bf_auth f" auth_keys] by simp
  have "validate_auth f = Inr () \<longleftrightarrow> (\<forall>k v. map_get (bf_auth f) k = Some v \<longrightarrow> k \<in> set auth_keys)"
    unfolding validate_auth_def Let_def Inr sum.case by (auto simp: known_auth_keys) (metis option.distinct(1))
  then show ?thesis using ok by blast
qed

end
