(* ===== verification/Go_Path.thy ===== *)
theory Go_Path
  imports Go_Prelude
begin

text \<open>
  The lexical part of Go's \<open>path/filepath\<close> on Unix: \<open>Clean\<close>, \<open>Dir\<close>, \<open>Base\<close>, \<open>Join\<close> and
  \<open>IsAbs\<close>. The loop over the elements of a path keeps what it has written so far in reverse.
\<close>

definition is_abs :: "string \<Rightarrow> bool" where
  "is_abs p = has_prefix p ''/''"

fun clean_elems :: "bool \<Rightarrow> string list \<Rightarrow> string list \<Rightarrow> string list" where
  "clean_elems rooted out [] = rev out"
| "clean_elems rooted out (e # es) =
     (if e = [] \<or> e = ''.'' then clean_elems rooted out es
      else if e = ''..'' then
        (case out of
           [] \<Rightarrow> clean_elems rooted (if rooted then [] else [''..'']) es
         | o1 # out' \<Rightarrow> if o1 = ''..'' then clean_elems rooted (''..'' # out) es else clean_elems rooted out' es)
      else clean_elems rooted (e # out) es)"

definition path_clean :: "string \<Rightarrow> string" where
  "path_clean p =
     (let body = join ''/'' (clean_elems (is_abs p) [] (split_char (CHR ''/'') p)) in
      if is_abs p then ''/'' @ body else if body = [] then ''.'' else body)"

definition up_to_last_slash :: "string \<Rightarrow> string" where
  "up_to_last_slash p = rev (dropWhile (\<lambda>c. c \<noteq> CHR ''/'') (rev p))"

definition after_last_slash :: "string \<Rightarrow> string" where
  "after_last_slash p = rev (takeWhile (\<lambda>c. c \<noteq> CHR ''/'') (rev p))"

definition path_dir :: "string \<Rightarrow> string" where
  "path_dir p = path_clean (up_to_last_slash p)"

definition path_base :: "string \<Rightarrow> string" where
  "path_base p =
     (if p = [] then ''.''
      else let q = rev (dropWhile (\<lambda>c. c = CHR ''/'') (rev p)) in
        if q = [] then ''/'' else after_last_slash q)"

definition path_join :: "string list \<Rightarrow> string" where
  "path_join es = (let es' = dropWhile (\<lambda>e. e = []) es in if es' = [] then [] else path_clean (join ''/'' es'))"

lemma up_to_after: "p = up_to_last_slash p @ after_last_slash p"
  unfolding up_to_last_slash_def after_last_slash_def
  by (metis rev_append rev_rev_ident takeWhile_dropWhile_id)

lemma path_examples:
  "path_clean ''/a/./b//c/..'' = ''/a/b''" "path_clean ''../x/../..'' = ''../..''" "path_clean [] = ''.''"
  "path_dir ''/p/x/.byn'' = ''/p/x''" "path_dir ''a'' = ''.''" "path_base ''/usr/bin/python3'' = ''python3''"
  "path_base ''/'' = ''/''" "path_join [''/p'', ''./build.sh''] = ''/p/build.sh''" "path_clean ''/..'' = ''/''"
  by code_simp+

end
