(* ===== verification/Vault_Names.thy ===== *)
theory Vault_Names
  imports Go_Prelude
begin

text \<open>
  Names of vaults, projects, environments and entries, and the scope a request addresses:
  \<open>internal/vault/meta.go\<close> and the name rules of \<open>internal/vault/store.go\<close>.
\<close>

definition DefaultVaultName :: string where "DefaultVaultName = ''default''"
definition DefaultProjectName :: string where "DefaultProjectName = ''default''"
definition DefaultEnvName :: string where "DefaultEnvName = ''default''"

definition default_if_empty :: "string \<Rightarrow> string \<Rightarrow> string" where
  "default_if_empty s def = (if s = [] then def else s)"

lemma default_if_empty_simps [simp]: "default_if_empty [] def = def" "s \<noteq> [] \<Longrightarrow> default_if_empty s def = s"
  by (simp_all add: default_if_empty_def)

record vault_scope =
  sc_project :: string
  sc_env :: string

definition is_digit :: "char \<Rightarrow> bool" where
  "is_digit c \<longleftrightarrow> CHR ''0'' \<le> c \<and> c \<le> CHR ''9''"

definition vault_name_re :: "string \<Rightarrow> bool" where
  "vault_name_re s \<longleftrightarrow> (case s of [] \<Rightarrow> False
     | c # cs \<Rightarrow> ((CHR ''a'' \<le> c \<and> c \<le> CHR ''z'') \<or> is_digit c) \<and> length cs \<le> 62 \<and>
         list_all (\<lambda>c. (CHR ''a'' \<le> c \<and> c \<le> CHR ''z'') \<or> is_digit c \<or> c = CHR ''_'' \<or> c = CHR ''-'') cs)"

definition MaxNameLen :: nat where "MaxNameLen = 512"
definition MaxValueLen :: nat where "MaxValueLen = 1048576"

definition entry_name_ok :: "string \<Rightarrow> bool" where
  "entry_name_ok name \<longleftrightarrow> name \<noteq> [] \<and> length name \<le> MaxNameLen \<and> list_all (\<lambda>c. c \<noteq> CHR 0x00) name"

end
