(* ===== verification/Action_Pattern.thy ===== *)
theory Action_Pattern
  imports Byn_File Go_Path Vault_Names
begin

text \<open>
  Action patterns and the checks of the \<open>[exec] actions\<close> and \<open>[aliases]\<close> tables:
  \<open>internal/bynfile/pattern.go\<close>. The regular expressions the file itself compiles are written
  out as predicates. Compiling a pattern a user writes and parsing a URL are arguments:
  \<open>compile\<close> gives the matching predicate of \<open>regexp.Compile\<close>, \<open>url\<close> the result of
  \<open>url.Parse\<close>.
\<close>

section \<open>Tokens\<close>

record url =
  url_scheme :: string
  url_host :: string
  url_hostname :: string

datatype token =
    KindLiteral string
  | KindUUID
  | KindInt
  | KindAlnum
  | KindStr
  | KindPath
  | KindURL string string
  | KindRe "string \<Rightarrow> bool"
  | KindArgs

record pattern =
  pat_raw :: string
  pat_tokens :: "token list"

type_synonym compiler = "string \<Rightarrow> (string \<Rightarrow> bool) option"

definition is_literal :: "token \<Rightarrow> bool" where
  "is_literal t \<longleftrightarrow> (case t of KindLiteral _ \<Rightarrow> True | _ \<Rightarrow> False)"

definition has_placeholders :: "pattern \<Rightarrow> bool" where
  "has_placeholders p \<longleftrightarrow> list_ex (\<lambda>t. \<not> is_literal t) (pat_tokens p)"

definition is_args :: "token \<Rightarrow> bool" where
  "is_args t \<longleftrightarrow> (case t of KindArgs \<Rightarrow> True | _ \<Rightarrow> False)"

definition has_args_tail :: "pattern \<Rightarrow> bool" where
  "has_args_tail p \<longleftrightarrow> (if length (pat_tokens p) = 0 then False else is_args (last (pat_tokens p)))"

section \<open>The expressions compiled by the file itself\<close>

definition is_hex :: "char \<Rightarrow> bool" where
  "is_hex c \<longleftrightarrow> (CHR ''0'' \<le> c \<and> c \<le> CHR ''9'') \<or> (CHR ''a'' \<le> c \<and> c \<le> CHR ''f'') \<or> (CHR ''A'' \<le> c \<and> c \<le> CHR ''F'')"

definition is_alnum :: "char \<Rightarrow> bool" where
  "is_alnum c \<longleftrightarrow> is_digit c \<or> (CHR ''A'' \<le> c \<and> c \<le> CHR ''Z'') \<or> (CHR ''a'' \<le> c \<and> c \<le> CHR ''z'')"

definition uuid_re :: "string \<Rightarrow> bool" where
  "uuid_re s \<longleftrightarrow> map length (split_char (CHR ''-'') s) = [8, 4, 4, 4, 12] \<and>
     list_all (list_all is_hex) (split_char (CHR ''-'') s)"

definition int_re :: "string \<Rightarrow> bool" where
  "int_re s \<longleftrightarrow> (let d = (if has_prefix s ''-'' then tl s else s) in d \<noteq> [] \<and> list_all is_digit d)"

definition alnum_re :: "string \<Rightarrow> bool" where
  "alnum_re s \<longleftrightarrow> s \<noteq> [] \<and> list_all is_alnum s"

definition alias_name_re :: "string \<Rightarrow> bool" where
  "alias_name_re s \<longleftrightarrow> (case s of [] \<Rightarrow> False
     | c # cs \<Rightarrow> (is_alnum c \<or> c = CHR ''_'') \<and> list_all (\<lambda>c. is_alnum c \<or> c = CHR ''_'' \<or> c = CHR ''-'') cs)"

section \<open>Parsing\<close>

datatype token_error =
    UnknownPlaceholder string
  | BadURLConstraint string
  | UnknownURLKey string
  | BadRegexp string
  | ArgsNotLast nat

definition is_placeholder :: "string \<Rightarrow> bool" where
  "is_placeholder s \<longleftrightarrow> has_prefix s ''{{'' \<and> has_suffix s ''}}''"

definition slice :: "nat \<Rightarrow> nat \<Rightarrow> string \<Rightarrow> string" where
  "slice i j s = take (j - i) (drop i s)"

fun url_constraints :: "string \<Rightarrow> string \<Rightarrow> string list \<Rightarrow> token_error + token" where
  "url_constraints host scheme [] = Inr (KindURL host scheme)"
| "url_constraints host scheme (part # parts) =
     (let part = trim_space part in
      if part = [] then url_constraints host scheme parts
      else case split_first (CHR ''='') part of
        None \<Rightarrow> Inl (BadURLConstraint part)
      | Some (k, v) \<Rightarrow>
          if v = [] then Inl (BadURLConstraint part)
          else if k = ''host'' then url_constraints v scheme parts
          else if k = ''scheme'' then url_constraints host v parts
          else Inl (UnknownURLKey k))"

definition parse_url_token :: "string \<Rightarrow> token_error + token" where
  "parse_url_token constraints = url_constraints [] [] (split_char (CHR '','') constraints)"

definition anchored :: "string \<Rightarrow> string" where
  "anchored pat = ''^(?:'' @ pat @ '')$''"

definition parse_re_token :: "compiler \<Rightarrow> string \<Rightarrow> token_error + token" where
  "parse_re_token compile pat =
     (case compile (anchored pat) of None \<Rightarrow> Inl (BadRegexp pat) | Some re \<Rightarrow> Inr (KindRe re))"

definition parse_token :: "compiler \<Rightarrow> string \<Rightarrow> token_error + token" where
  "parse_token compile raw =
     (let inner = (if has_prefix raw ''{{'' \<and> has_suffix raw ''}}'' then slice 2 (length raw - 2) raw else raw) in
      if inner = ''uuid'' then Inr KindUUID
      else if inner = ''int'' then Inr KindInt
      else if inner = ''alnum'' then Inr KindAlnum
      else if inner = ''str'' \<or> inner = ''*'' then Inr KindStr
      else if inner = ''path'' then Inr KindPath
      else if inner = ''args'' then Inr KindArgs
      else if inner = ''url'' then Inr (KindURL [] [])
      else if has_prefix inner ''url:'' then parse_url_token (drop 4 inner)
      else if has_prefix inner ''re:'' then parse_re_token compile (drop 3 inner)
      else Inl (UnknownPlaceholder inner))"

text \<open>The loop over the fields; \<open>i\<close> is the index of the first of the remaining ones, \<open>n\<close> their total.\<close>

fun parse_fields :: "compiler \<Rightarrow> nat \<Rightarrow> nat \<Rightarrow> token list \<Rightarrow> string list \<Rightarrow> token_error + token list" where
  "parse_fields compile n i toks [] = Inr toks"
| "parse_fields compile n i toks (f # fs) =
     (if is_placeholder f then
        (case parse_token compile f of
           Inl e \<Rightarrow> Inl e
         | Inr tok \<Rightarrow>
             if is_args tok \<and> i \<noteq> n - 1 then Inl (ArgsNotLast i)
             else parse_fields compile n (Suc i) (toks @ [tok]) fs)
      else parse_fields compile n (Suc i) (toks @ [KindLiteral f]) fs)"

definition parse_action_pattern :: "compiler \<Rightarrow> string \<Rightarrow> token_error + pattern" where
  "parse_action_pattern compile action =
     (let fs = str_fields action in
      if length fs = 0 then Inr \<lparr>pat_raw = action, pat_tokens = []\<rparr>
      else case parse_fields compile (length fs) 0 [] fs of
        Inl e \<Rightarrow> Inl e
      | Inr toks \<Rightarrow> Inr \<lparr>pat_raw = action, pat_tokens = toks\<rparr>)"

section \<open>Matching\<close>

fun match_token :: "(string \<Rightarrow> url option) \<Rightarrow> token \<Rightarrow> string \<Rightarrow> bool" where
  "match_token url (KindLiteral l) arg = (arg = l)"
| "match_token url KindUUID arg = uuid_re arg"
| "match_token url KindInt arg = int_re arg"
| "match_token url KindAlnum arg = alnum_re arg"
| "match_token url KindStr arg = True"
| "match_token url KindPath arg = (CHR 0x00 \<notin> set arg)"
| "match_token url (KindURL host scheme) arg =
     (case url arg of
        None \<Rightarrow> False
      | Some u \<Rightarrow>
          if url_scheme u = [] \<or> url_host u = [] then False
          else if host \<noteq> [] \<and> url_hostname u \<noteq> host then False
          else if scheme \<noteq> [] \<and> url_scheme u \<noteq> scheme then False
          else True)"
| "match_token url (KindRe re) arg = re arg"
| "match_token url KindArgs arg = True"

text \<open>The loop \<open>for i, tok := range tokens\<close>; its callers have compared the lengths.\<close>

fun match_all :: "(string \<Rightarrow> url option) \<Rightarrow> token list \<Rightarrow> string list \<Rightarrow> bool" where
  "match_all url [] argv = True"
| "match_all url (tok # toks) argv = (match_token url tok (hd argv) \<and> match_all url toks (tl argv))"

definition match_pattern :: "(string \<Rightarrow> url option) \<Rightarrow> pattern \<Rightarrow> string list \<Rightarrow> bool" where
  "match_pattern url p argv =
     (let toks = pat_tokens p; n = length toks in
      if n = 0 then length argv = 0
      else if is_args (last toks) then (if length argv < n - 1 then False else match_all url (butlast toks) argv)
      else if length argv \<noteq> n then False
      else match_all url toks argv)"

section \<open>Checks at grant time\<close>

definition contains_braces :: "string \<Rightarrow> bool" where
  "contains_braces s \<longleftrightarrow> contains s ''{{'' \<or> contains s ''}}''"

fun check_actions :: "compiler \<Rightarrow> string list \<Rightarrow> file_error + unit" where
  "check_actions compile [] = Inr ()"
| "check_actions compile (action # as) =
     (if action = ''*'' then check_actions compile as
      else if action = [] then Inl ActionEmpty
      else case List.find (\<lambda>tok. contains_braces tok \<and> \<not> is_placeholder tok) (str_fields action) of
        Some tok \<Rightarrow> Inl (ActionBraces action tok)
      | None \<Rightarrow>
          (case parse_action_pattern compile action of
             Inl e \<Rightarrow> Inl (ActionPattern action)
           | Inr _ \<Rightarrow> check_actions compile as))"

definition validate_actions :: "compiler \<Rightarrow> byn_file \<Rightarrow> file_error + unit" where
  "validate_actions compile f = check_actions compile (bf_actions f)"

fun check_aliases :: "string go_map \<Rightarrow> file_error + unit" where
  "check_aliases [] = Inr ()"
| "check_aliases ((name, v) # m) =
     (if \<not> alias_name_re name then Inl (AliasBadName name)
      else if name = ''--'' then Inl (AliasReserved name)
      else if trim_space v = [] then Inl (AliasEmptyValue name)
      else if length (str_fields v) = 0 then Inl (AliasNoToken name)
      else case List.find is_placeholder (str_fields v) of
        Some f \<Rightarrow> Inl (AliasPlaceholder name f)
      | None \<Rightarrow> check_aliases m)"

definition validate_aliases :: "byn_file \<Rightarrow> file_error + unit" where
  "validate_aliases f = check_aliases (bf_aliases f)"

definition shell_interpreter_names :: "string list" where
  "shell_interpreter_names =
     [''sh'', ''bash'', ''zsh'', ''dash'', ''ksh'', ''fish'', ''python'', ''python3'', ''node'', ''perl'', ''ruby'']"

definition shell_interpreter_with_placeholder :: "pattern \<Rightarrow> bool" where
  "shell_interpreter_with_placeholder p =
     (if length (pat_tokens p) = 0 \<or> \<not> has_placeholders p then False
      else case hd (pat_tokens p) of
        KindLiteral l \<Rightarrow> path_base l \<in> set shell_interpreter_names
      | _ \<Rightarrow> False)"

end
