(* ===== verification/Action_Claims.thy ===== *)
theory Action_Claims
  imports Action_Pattern
begin

text \<open>
  What an action pattern admits. \<open>spells\<close> is the abstract contract: the words of a command
  line correspond one by one to the tokens, and only a final \<open>{{args}}\<close> absorbs more.
\<close>

section \<open>Contract\<close>

inductive spells :: "(string \<Rightarrow> url option) \<Rightarrow> token list \<Rightarrow> string list \<Rightarrow> bool" for url where
  spells_Nil: "spells url [] []"
| spells_args: "spells url [KindArgs] argv"
| spells_Cons: "\<not> is_args tok \<Longrightarrow> match_token url tok a \<Longrightarrow> spells url toks argv \<Longrightarrow> spells url (tok # toks) (a # argv)"

inductive_cases spells_ConsE: "spells url (tok # toks) argv"

inductive_simps spells_Nil_iff [simp]: "spells url [] argv"

lemma is_args_iff: "is_args t \<longleftrightarrow> t = KindArgs"
  by (cases t) (auto simp: is_args_def)

lemma is_literal_simps [simp]: "is_literal (KindLiteral l)"
  by (simp add: is_literal_def)

lemma spells_args_iff [simp]: "spells url [KindArgs] argv"
  by (rule spells_args)

lemma spells_Cons_iff:
  "tok \<noteq> KindArgs \<Longrightarrow>
   spells url (tok # toks) argv \<longleftrightarrow> (\<exists>a rest. argv = a # rest \<and> match_token url tok a \<and> spells url toks rest)"
  by (auto elim: spells_ConsE intro: spells_Cons simp: is_args_iff)

definition args_only_last :: "token list \<Rightarrow> bool" where
  "args_only_last toks \<longleftrightarrow> KindArgs \<notin> set (butlast toks)"

lemma match_all_spells:
  "KindArgs \<notin> set toks \<Longrightarrow> length argv = length toks \<Longrightarrow> match_all url toks argv \<longleftrightarrow> spells url toks argv"
proof (induction toks arbitrary: argv)
  case Nil
  then show ?case by simp
next
  case (Cons tok toks)
  then obtain a rest where "argv = a # rest" by (cases argv) auto
  with Cons show ?case by (auto simp: spells_Cons_iff)
qed

lemma match_all_spells_args:
  "KindArgs \<notin> set toks \<Longrightarrow> spells url (toks @ [KindArgs]) argv \<longleftrightarrow> length toks \<le> length argv \<and> match_all url toks argv"
proof (induction toks arbitrary: argv)
  case Nil
  then show ?case by simp
next
  case (Cons tok toks)
  then have "tok \<noteq> KindArgs" by auto
  then show ?case
    using Cons.IH Cons.prems by (cases argv) (auto simp: spells_Cons_iff)
qed

lemma spells_length: "spells url toks argv \<Longrightarrow> KindArgs \<notin> set toks \<Longrightarrow> length argv = length toks"
  by (induction rule: spells.induct) auto

lemma match_pattern_spells:
  assumes "args_only_last (pat_tokens p)"
  shows "match_pattern url p argv \<longleftrightarrow> spells url (pat_tokens p) argv"
proof (cases "pat_tokens p" rule: rev_cases)
  case Nil
  then show ?thesis by (simp add: match_pattern_def)
next
  case (snoc toks t)
  have no: "KindArgs \<notin> set toks"
    using assms snoc by (simp add: args_only_last_def)
  show ?thesis
  proof (cases "t = KindArgs")
    case True
    then show ?thesis
      using snoc match_all_spells_args [OF no, of url argv] by (auto simp: match_pattern_def is_args_iff)
  next
    case False
    then have all: "KindArgs \<notin> set (toks @ [t])" using no by simp
    show ?thesis
      using snoc False match_all_spells [OF all, of argv url] spells_length [OF _ all, of url argv]
      by (auto simp: match_pattern_def is_args_iff)
  qed
qed

section \<open>What the parser produces\<close>

definition token_of :: "compiler \<Rightarrow> string \<Rightarrow> token \<Rightarrow> bool" where
  "token_of compile f tok \<longleftrightarrow> (if is_placeholder f then parse_token compile f = Inr tok else tok = KindLiteral f)"

lemma parse_fields_ok:
  "parse_fields compile n i toks fs = Inr out \<Longrightarrow> i + length fs = n \<Longrightarrow>
   \<exists>new. out = toks @ new \<and> list_all2 (token_of compile) fs new \<and> args_only_last new"
proof (induction fs arbitrary: i toks)
  case Nil
  then show ?case by (simp add: args_only_last_def)
next
  case (Cons f fs)
  obtain tok where tok: "token_of compile f tok" "is_args tok \<longrightarrow> fs = []"
      and rest: "parse_fields compile n (Suc i) (toks @ [tok]) fs = Inr out"
  proof (cases "is_placeholder f")
    case True
    then obtain t where "parse_token compile f = Inr t"
      using Cons.prems(1) by (auto split: sum.splits)
    then show ?thesis
      using that [of t] True Cons.prems by (auto simp: token_of_def split: if_splits)
  next
    case False
    then show ?thesis
      using that [of "KindLiteral f"] Cons.prems(1) by (auto simp: token_of_def is_args_def)
  qed
  from Cons.IH [OF rest] Cons.prems(2)
  obtain new where new: "out = (toks @ [tok]) @ new" "list_all2 (token_of compile) fs new" "args_only_last new"
    by auto
  have "args_only_last (tok # new)"
    using tok(2) new(2,3) by (auto simp: args_only_last_def is_args_iff)
  then show ?case using new tok(1) by (intro exI [of _ "tok # new"]) auto
qed

lemma parsed_tokens:
  assumes "parse_action_pattern compile action = Inr p"
  shows "list_all2 (token_of compile) (str_fields action) (pat_tokens p) \<and> args_only_last (pat_tokens p)"
  using assms parse_fields_ok [of compile "length (str_fields action)" 0 "[]" "str_fields action"]
  by (fastforce simp: parse_action_pattern_def Let_def args_only_last_def split: if_splits sum.splits)

lemma literal_tokens:
  "list_all2 (token_of compile) fs toks \<Longrightarrow> \<forall>f \<in> set fs. \<not> is_placeholder f \<Longrightarrow> toks = map KindLiteral fs"
  by (induction rule: list_all2_induct) (auto simp: token_of_def)

lemma spells_literal: "spells url (map KindLiteral fs) argv \<longleftrightarrow> argv = fs"
  by (induction fs arbitrary: argv) (auto simp: spells_Cons_iff)

lemma validate_actions_iff:
  "validate_actions compile f = Inr () \<longleftrightarrow>
   (\<forall>a \<in> set (bf_actions f). a = ''*'' \<or> a \<noteq> [] \<and>
      (\<forall>tok \<in> set (str_fields a). contains_braces tok \<longrightarrow> is_placeholder tok) \<and>
      (\<exists>p. parse_action_pattern compile a = Inr p))"
proof -
  have "check_actions compile as = Inr () \<longleftrightarrow>
     (\<forall>a \<in> set as. a = ''*'' \<or> a \<noteq> [] \<and>
        (\<forall>tok \<in> set (str_fields a). contains_braces tok \<longrightarrow> is_placeholder tok) \<and>
        (\<exists>p. parse_action_pattern compile a = Inr p))" for as
    by (induction as) (auto simp: find_None_iff find_Some_iff split: option.splits sum.splits)
  then show ?thesis by (simp add: validate_actions_def)
qed

text \<open>
  C40. An action admits exactly the command lines that spell it: the tokens are the fields of
  the entry, one by one, and a command matches when its words satisfy them in order with
  nothing left over, unless the entry ends in \<open>{{args}}\<close>. An entry without placeholders
  admits the one command whose words are its fields.
\<close>

theorem action_admits_what_it_spells:
  assumes "parse_action_pattern compile action = Inr p"
  shows "list_all2 (token_of compile) (str_fields action) (pat_tokens p) \<and>
    (match_pattern url p argv \<longleftrightarrow> spells url (pat_tokens p) argv) \<and>
    ((\<forall>f \<in> set (str_fields action). \<not> is_placeholder f) \<longrightarrow>
       (match_pattern url p argv \<longleftrightarrow> argv = str_fields action))"
proof -
  note toks = parsed_tokens [OF assms]
  then have m: "match_pattern url p argv \<longleftrightarrow> spells url (pat_tokens p) argv"
    by (simp add: match_pattern_spells)
  moreover have "match_pattern url p argv \<longleftrightarrow> argv = str_fields action"
    if "\<forall>f \<in> set (str_fields action). \<not> is_placeholder f"
    using literal_tokens [of compile "str_fields action" "pat_tokens p"] toks that by (simp add: m spells_literal)
  ultimately show ?thesis using toks by blast
qed

lemma ex_action:
  "parse_action_pattern (\<lambda>_. None) ''make deploy {{int}} {{args}}'' =
     Inr \<lparr>pat_raw = ''make deploy {{int}} {{args}}'',
       pat_tokens = [KindLiteral ''make'', KindLiteral ''deploy'', KindInt, KindArgs]\<rparr>"
proof -
  have "str_fields ''make deploy {{int}} {{args}}'' = [''make'', ''deploy'', ''{{int}}'', ''{{args}}'']"
    using fields_join [of "[''make'', ''deploy'', ''{{int}}'', ''{{args}}'']"] by simp
  then show ?thesis
    by (simp add: parse_action_pattern_def parse_token_def slice_def has_prefix_def has_suffix_def is_args_def
        is_placeholder_def)
qed

theorem action_admits_what_it_spells_witness:
  "\<not> match_pattern (\<lambda>_. None) \<lparr>pat_raw = ''make deploy {{int}} {{args}}'',
       pat_tokens = [KindLiteral ''make'', KindLiteral ''deploy'', KindInt, KindArgs]\<rparr> [''make'', ''deploy'', ''x'']"
  using action_admits_what_it_spells [OF ex_action, of "\<lambda>_. None" "[''make'', ''deploy'', ''x'']"]
  by (simp add: spells_Cons_iff int_re_def has_prefix_def is_digit_def Let_def less_eq_char_def)

section \<open>The anchor of a user's expression\<close>

text \<open>
  \<open>{{re:...}}\<close> is anchored by wrapping the text in a group. A text that closes the group and
  opens another leaves both halves anchored on one side only: with the documented meaning of
  the resulting alternation, every word that starts with \<open>a\<close> is admitted.
\<close>

lemma anchoring_can_be_escaped:
  assumes "compile ''^(?:a)|(?:b)$'' = Some re" and "\<forall>w. re w \<longleftrightarrow> has_prefix w ''a'' \<or> has_suffix w ''b''"
  shows "parse_token compile ''{{re:a)|(?:b}}'' = Inr (KindRe re) \<and> match_token url (KindRe re) (''a'' @ w)"
  using assms by (simp add: parse_token_def parse_re_token_def anchored_def slice_def has_prefix_def has_suffix_def)

end
