(* ===== verification/Caller_Identity.thy ===== *)
theory Caller_Identity
  imports Approval_Queue
begin

text \<open>
  Which agent stands behind a caller, and whose grants a caller may use:
  \<open>internal/daemon/procorigin.go\<close> and the identity keys and \<open>grantUsableBy\<close> of
  \<open>internal/daemon/approvalgate.go\<close>. What the kernel says about a process, its name, parent
  and start time, is the argument \<open>procs\<close>; it does not change during one decision.
\<close>

section \<open>Processes\<close>

record procs =
  proc_info :: "int \<Rightarrow> string \<times> int"
  proc_start :: "int \<Rightarrow> nat option"

record proc_ref =
  pr_pid :: int
  pr_start :: nat

definition no_ref :: proc_ref where
  "no_ref = \<lparr>pr_pid = 0, pr_start = 0\<rparr>"

definition ref_ok :: "proc_ref \<Rightarrow> bool" where
  "ref_ok p \<longleftrightarrow> 1 < pr_pid p \<and> pr_start p \<noteq> 0"

definition comm_of :: "procs \<Rightarrow> int \<Rightarrow> string" where
  "comm_of pt pid = fst (proc_info pt pid)"

definition parent_of :: "procs \<Rightarrow> int \<Rightarrow> int" where
  "parent_of pt pid = snd (proc_info pt pid)"

definition transient_wrappers :: "string list" where
  "transient_wrappers =
     [''bash'', ''sh'', ''zsh'', ''dash'', ''fish'', ''ksh'', ''timeout'', ''env'', ''nice'', ''nohup'', ''xargs'',
      ''stdbuf'', ''setsid'', ''script'']"

definition maxIdentityHops :: nat where "maxIdentityHops = 8"

section \<open>The agent behind a caller\<close>

text \<open>The loop of \<open>callerIdentity\<close> with the number of hops left.\<close>

fun identity_walk :: "procs \<Rightarrow> nat \<Rightarrow> int list \<Rightarrow> int \<Rightarrow> proc_ref" where
  "identity_walk pt 0 seen cur = no_ref"
| "identity_walk pt (Suc hops) seen cur =
     (let ppid = parent_of pt cur in
      if ppid \<le> 1 \<or> ppid \<in> set seen then no_ref
      else if comm_of pt ppid \<in> set transient_wrappers then identity_walk pt hops (ppid # seen) ppid
      else case proc_start pt ppid of None \<Rightarrow> no_ref | Some start \<Rightarrow> \<lparr>pr_pid = ppid, pr_start = start\<rparr>)"

lemmas identity_walk_numeral = identity_walk.simps(2) [of _ "pred_numeral k" for k, folded numeral_eq_Suc]

definition caller_identity :: "procs \<Rightarrow> int \<Rightarrow> proc_ref" where
  "caller_identity pt pid = (if pid \<le> 0 then no_ref else identity_walk pt maxIdentityHops [] pid)"

definition caller_ancestry :: "procs \<Rightarrow> int \<Rightarrow> proc_ref list" where
  "caller_ancestry pt pid = (let i = caller_identity pt pid in if \<not> ref_ok i then [] else [i])"

definition caller_origin :: "procs \<Rightarrow> int \<Rightarrow> proc_ref" where
  "caller_origin pt pid = caller_identity pt pid"

fun ancestor_walk :: "procs \<Rightarrow> proc_ref \<Rightarrow> nat \<Rightarrow> int list \<Rightarrow> int \<Rightarrow> bool" where
  "ancestor_walk pt want 0 seen cur = False"
| "ancestor_walk pt want (Suc hops) seen cur =
     (let ppid = parent_of pt cur in
      if ppid \<le> 1 \<or> ppid \<in> set seen then False
      else if ppid = pr_pid want then proc_start pt ppid = Some (pr_start want)
      else ancestor_walk pt want hops (ppid # seen) ppid)"

definition is_ancestor :: "procs \<Rightarrow> proc_ref \<Rightarrow> int \<Rightarrow> bool" where
  "is_ancestor pt want pid = ancestor_walk pt want maxIdentityHops [] pid"

definition shares_ancestry :: "procs \<Rightarrow> int \<Rightarrow> proc_ref list \<Rightarrow> bool" where
  "shares_ancestry pt pid want =
     (if length want = 0 \<or> pid \<le> 0 then False
      else list_ex (\<lambda>w. ref_ok w \<and> (caller_identity pt pid = w \<or> is_ancestor pt w pid)) want)"

section \<open>Identities as text\<close>

definition agent_key :: "proc_ref \<Rightarrow> string" where
  "agent_key r = int_dec (pr_pid r) @ '':'' @ nat_dec (pr_start r)"

text \<open>\<open>strconv.Atoi\<close> and \<open>strconv.ParseUint(s, 10, 64)\<close>.\<close>

definition digit_val :: "char \<Rightarrow> nat option" where
  "digit_val c = (let n = of_char c in if 48 \<le> n \<and> n \<le> (57::nat) then Some (n - 48) else None)"

fun digits_val :: "nat \<Rightarrow> string \<Rightarrow> nat option" where
  "digits_val acc [] = Some acc"
| "digits_val acc (c # s) = (case digit_val c of None \<Rightarrow> None | Some d \<Rightarrow> digits_val (10 * acc + d) s)"

definition parse_uint :: "string \<Rightarrow> nat option" where
  "parse_uint s =
     (if s = [] then None
      else case digits_val 0 s of None \<Rightarrow> None
      | Some n \<Rightarrow> if n \<le> 18446744073709551615 then Some n else None)"

definition parse_int :: "string \<Rightarrow> int option" where
  "parse_int s =
     (let neg = has_prefix s ''-''; d = (if has_prefix s ''-'' \<or> has_prefix s ''+'' then tl s else s) in
      if d = [] then None
      else case digits_val 0 d of None \<Rightarrow> None
      | Some n \<Rightarrow> (let v = (if neg then - int n else int n) in
          if min_duration \<le> v \<and> v \<le> max_duration then Some v else None))"

definition parse_agent_key :: "string \<Rightarrow> proc_ref \<times> bool" where
  "parse_agent_key k =
     (case split_first (CHR '':'') k of
        None \<Rightarrow> (no_ref, False)
      | Some (pidStr, startStr) \<Rightarrow>
          (case parse_int pidStr of
             None \<Rightarrow> (no_ref, False)
           | Some pid \<Rightarrow>
               (case parse_uint startStr of
                  None \<Rightarrow> (no_ref, False)
                | Some start \<Rightarrow> (let ref = \<lparr>pr_pid = pid, pr_start = start\<rparr> in (ref, ref_ok ref)))))"

section \<open>Whose grant it is\<close>

definition proc_self_ref :: "procs \<Rightarrow> int \<Rightarrow> proc_ref" where
  "proc_self_ref pt pid =
     (if pid \<le> 0 then no_ref
      else case proc_start pt pid of None \<Rightarrow> no_ref | Some start \<Rightarrow> \<lparr>pr_pid = pid, pr_start = start\<rparr>)"

definition grant_usable_by :: "procs \<Rightarrow> int \<Rightarrow> request \<Rightarrow> bool" where
  "grant_usable_by pt pid r =
     (if rq_anyone r \<or> ro_agent_key (rq_requestor r) = [] then True
      else if (case parse_agent_key (ro_proc_key (rq_requestor r)) of (self, ok) \<Rightarrow> ok \<and> proc_self_ref pt pid = self)
        then True
      else case parse_agent_key (ro_agent_key (rq_requestor r)) of (want, ok) \<Rightarrow>
        if \<not> ok then False else shares_ancestry pt pid [want])"

section \<open>Facts about keys\<close>

lemma digit_val_char: "d < 10 \<Longrightarrow> digit_val (digit_char d) = Some d"
  by (simp add: digit_val_def digit_char_def)

lemma digits_val_append:
  "digits_val acc (s @ t) = (case digits_val acc s of None \<Rightarrow> None | Some n \<Rightarrow> digits_val n t)"
  by (induction s arbitrary: acc) (auto split: option.splits)

lemma digits_val_dec: "digits_val 0 (nat_dec n) = Some n"
proof (induction n rule: nat_dec.induct)
  case (1 n)
  show ?case
  proof (cases "n < 10")
    case True
    then show ?thesis by (simp add: nat_dec.simps [of n] digit_val_char)
  next
    case False
    then show ?thesis
      using "1.IH" by (simp add: nat_dec.simps [of n] digits_val_append digit_val_char)
  qed
qed

lemma parse_uint_dec: "n \<le> 18446744073709551615 \<Longrightarrow> parse_uint (nat_dec n) = Some n"
  by (simp add: parse_uint_def digits_val_dec)

lemma nat_dec_no_sign: "\<not> has_prefix (nat_dec n) ''-'' \<and> \<not> has_prefix (nat_dec n) ''+''"
proof -
  obtain c s where "nat_dec n = c # s" by (cases "nat_dec n") auto
  moreover have "48 \<le> (of_char c :: nat)" using nat_dec_range [of c n] \<open>nat_dec n = c # s\<close> by simp
  ultimately show ?thesis by (auto simp: has_prefix_def)
qed

lemma parse_int_dec: "min_duration \<le> i \<Longrightarrow> i \<le> max_duration \<Longrightarrow> parse_int (int_dec i) = Some i"
  using nat_dec_no_sign [of "nat i"]
  by (cases "i < 0") (simp_all add: parse_int_def int_dec_def digits_val_dec has_prefix_def)

lemma int_dec_no_colon: "CHR '':'' \<notin> set (int_dec i)"
  using int_dec_range [of "CHR '':''" i] by auto

lemma parse_agent_key_of:
  assumes "min_duration \<le> pr_pid r" and "pr_pid r \<le> max_duration" and "pr_start r \<le> 18446744073709551615"
  shows "parse_agent_key (agent_key r) = (r, ref_ok r)"
  using assms by (simp add: parse_agent_key_def agent_key_def split_first_append int_dec_no_colon parse_int_dec parse_uint_dec Let_def ref_ok_def)

lemma agent_key_nonempty [simp]: "agent_key r \<noteq> []"
  by (simp add: agent_key_def)

section \<open>The tree of processes\<close>

inductive ancestor :: "procs \<Rightarrow> int \<Rightarrow> int \<Rightarrow> bool" for pt where
  parent: "1 < parent_of pt p \<Longrightarrow> ancestor pt (parent_of pt p) p"
| above: "1 < parent_of pt p \<Longrightarrow> ancestor pt a (parent_of pt p) \<Longrightarrow> ancestor pt a p"

lemma identity_walk_ancestor:
  "identity_walk pt n seen cur = w \<Longrightarrow> ref_ok w \<Longrightarrow>
   ancestor pt (pr_pid w) cur \<and> proc_start pt (pr_pid w) = Some (pr_start w) \<and>
   comm_of pt (pr_pid w) \<notin> set transient_wrappers"
proof (induction n arbitrary: seen cur)
  case 0
  then show ?case by (auto simp: ref_ok_def no_ref_def)
next
  case (Suc n)
  have not_ok: "\<not> ref_ok no_ref" by (simp add: ref_ok_def no_ref_def)
  let ?p = "parent_of pt cur"
  have p: "1 < ?p" "?p \<notin> set seen"
    using Suc.prems not_ok by (auto simp: Let_def split: if_splits)
  show ?case
  proof (cases "comm_of pt ?p \<in> set transient_wrappers")
    case True
    then have "identity_walk pt n (?p # seen) ?p = w"
      using Suc.prems(1) p by (simp add: Let_def)
    then show ?thesis using Suc.IH Suc.prems(2) p above by blast
  next
    case False
    then obtain s where "proc_start pt ?p = Some s" "w = \<lparr>pr_pid = ?p, pr_start = s\<rparr>"
      using Suc.prems p not_ok by (auto simp: Let_def split: option.splits)
    then show ?thesis using p False parent by auto
  qed
qed

lemma ancestor_walk_ancestor:
  "ancestor_walk pt w n seen cur \<Longrightarrow> ancestor pt (pr_pid w) cur \<and> proc_start pt (pr_pid w) = Some (pr_start w)"
proof (induction n arbitrary: seen cur)
  case 0
  then show ?case by simp
next
  case (Suc n)
  let ?p = "parent_of pt cur"
  have p: "1 < ?p" using Suc.prems by (auto simp: Let_def split: if_splits)
  show ?case
  proof (cases "?p = pr_pid w")
    case True
    then show ?thesis using Suc.prems p parent [of pt cur] by (auto simp: Let_def split: if_splits)
  next
    case False
    then have "ancestor_walk pt w n (?p # seen) ?p"
      using Suc.prems by (simp add: Let_def split: if_splits)
    then show ?thesis using Suc.IH p above by blast
  qed
qed

lemma shares_ancestry_sound:
  assumes "shares_ancestry pt pid [w]"
  shows "ref_ok w \<and> ancestor pt (pr_pid w) pid \<and> proc_start pt (pr_pid w) = Some (pr_start w)"
  using assms identity_walk_ancestor [of pt maxIdentityHops "[]" pid w] ancestor_walk_ancestor [of pt w maxIdentityHops "[]" pid]
  by (auto simp: shares_ancestry_def caller_identity_def is_ancestor_def split: if_splits)

text \<open>
  A grant stays with the agent that asked: a caller may use it only if the owner widened it
  or it carries no identity, if the caller is the very process that asked, or if the recorded
  agent, still the same process by its start time, is among the caller's ancestors. Two
  commands of one agent do recognise each other, however many shells and wrappers start them.
\<close>

theorem grant_stays_with_its_agent:
  "(grant_usable_by pt pid r \<longrightarrow>
     rq_anyone r \<or> ro_agent_key (rq_requestor r) = [] \<or>
     (ref_ok (proc_self_ref pt pid) \<and> parse_agent_key (ro_proc_key (rq_requestor r)) = (proc_self_ref pt pid, True)) \<or>
     (\<exists>w. parse_agent_key (ro_agent_key (rq_requestor r)) = (w, True) \<and> ancestor pt (pr_pid w) pid \<and>
        proc_start pt (pr_pid w) = Some (pr_start w))) \<and>
   (ref_ok (caller_identity pt pid) \<and> 0 < pid \<and> pr_pid (caller_identity pt pid) \<le> max_duration \<and>
      pr_start (caller_identity pt pid) \<le> 18446744073709551615 \<and>
      ro_agent_key (rq_requestor r) = agent_key (caller_identity pt pid) \<longrightarrow> grant_usable_by pt pid r)"
proof (intro conjI impI)
  assume u: "grant_usable_by pt pid r"
  obtain s1 o1 where p1: "parse_agent_key (ro_proc_key (rq_requestor r)) = (s1, o1)" by fastforce
  obtain w2 o2 where p2: "parse_agent_key (ro_agent_key (rq_requestor r)) = (w2, o2)" by fastforce
  have ok: "ref_ok s1" if o1
    using p1 that by (auto simp: parse_agent_key_def Let_def split: option.splits)
  consider "rq_anyone r \<or> ro_agent_key (rq_requestor r) = []" | "o1" "proc_self_ref pt pid = s1" | "o2" "shares_ancestry pt pid [w2]"
    using u p1 p2 by (auto simp: grant_usable_by_def split: if_splits)
  then show "rq_anyone r \<or> ro_agent_key (rq_requestor r) = [] \<or>
     (ref_ok (proc_self_ref pt pid) \<and> parse_agent_key (ro_proc_key (rq_requestor r)) = (proc_self_ref pt pid, True)) \<or>
     (\<exists>w. parse_agent_key (ro_agent_key (rq_requestor r)) = (w, True) \<and> ancestor pt (pr_pid w) pid \<and>
        proc_start pt (pr_pid w) = Some (pr_start w))"
    using p1 p2 ok shares_ancestry_sound [of pt pid w2] by cases auto
next
  let ?w = "caller_identity pt pid"
  assume a: "ref_ok ?w \<and> 0 < pid \<and> pr_pid ?w \<le> max_duration \<and> pr_start ?w \<le> 18446744073709551615 \<and>
    ro_agent_key (rq_requestor r) = agent_key ?w"
  then have "parse_agent_key (ro_agent_key (rq_requestor r)) = (?w, True)"
    using parse_agent_key_of [of ?w] by (simp add: ref_ok_def min_duration_def)
  moreover have "shares_ancestry pt pid [?w]"
    using a by (simp add: shares_ancestry_def)
  ultimately show "grant_usable_by pt pid r"
    by (simp add: grant_usable_by_def split: prod.splits)
qed

definition ex_procs :: procs where
  "ex_procs = \<lparr>proc_info = (\<lambda>p. if p = 90 then (''byn'', 80) else if p = 80 then (''bash'', 70) else
      if p = 70 then (''claude'', 60) else (''code'', 1)), proc_start = (\<lambda>p. Some (nat (1000 + p)))\<rparr>"

theorem grant_stays_with_its_agent_witness:
  "\<exists>r. \<not> rq_anyone r \<and> ro_agent_key (rq_requestor r) = ''70:1070'' \<and> grant_usable_by ex_procs 90 r"
proof -
  have key: "agent_key \<lparr>pr_pid = 70, pr_start = 1070\<rparr> = ''70:1070''" by code_simp
  have w: "caller_identity ex_procs 90 = \<lparr>pr_pid = 70, pr_start = 1070\<rparr>"
  proof -
    show ?thesis
      unfolding caller_identity_def maxIdentityHops_def by (simp add: identity_walk_numeral Let_def ex_procs_def parent_of_def comm_of_def transient_wrappers_def)
  qed
  define r :: request where "r = undefined\<lparr>rq_anyone := False,
     rq_requestor := undefined\<lparr>ro_agent_key := ''70:1070''\<rparr>\<rparr>"
  have "grant_usable_by ex_procs 90 r"
    using grant_stays_with_its_agent [of ex_procs 90 r] w key
    by (simp add: r_def ref_ok_def max_duration_def)
  then show ?thesis by (intro exI [of _ r]) (simp add: r_def)
qed

end
