(* ===== verification/Auth_Gate.thy ===== *)
theory Auth_Gate
  imports Trust_Store Sessions One_Time_Tokens Rate_Limit Caller_Identity Audit_Log Vault_Names
begin

text \<open>
  The gate in front of operations on values: the provider registry
  (\<open>internal/auth/provider.go\<close>), the two built-in providers (\<open>internal/daemon/providers.go\<close>),
  the caller (\<open>caller.go\<close>), the policy lookup (\<open>policy.go\<close>) and the authorization functions of
  \<open>dispatch.go\<close>.

  \<open>world\<close> is what the daemon reads and does not change during a request: the instant, the
  hash functions, the trust file, the vaults on disk, processes. \<open>daemon\<close> is its state in
  memory and the approval queue; \<open>dm_effects\<close> lists, in order, what it did outside of that
  state. Messages and hints of errors are not modelled, their codes and details are.
\<close>

section \<open>The world and the daemon\<close>

datatype open_error = OpenNotInit | OpenFingerprint | OpenOther

datatype code =
    CodeUnknownOp | CodeBadRequest | CodeUnsupportedVer | CodeBinaryTooOld | CodeLocked | CodeWrongPassword
  | CodeRateLimited | CodeAlreadyInit | CodeNotInit | CodeVaultNotFound | CodeVaultExists | CodeFingerprint
  | CodeTrustDenied | CodeApprovalPending | CodeAuthRequired | CodeProjectNotFound | CodeProjectExists | CodeEnvNotFound
  | CodeEnvExists | CodeEnvProtected | CodeNotFound | CodeAlreadyExists | CodeBadName | CodeInternal

fun code_string :: "code \<Rightarrow> string" where
  "code_string CodeUnknownOp = ''unknown_op''"
| "code_string CodeBadRequest = ''bad_request''"
| "code_string CodeUnsupportedVer = ''unsupported_version''"
| "code_string CodeBinaryTooOld = ''binary_too_old''"
| "code_string CodeLocked = ''locked''"
| "code_string CodeWrongPassword = ''wrong_password''"
| "code_string CodeRateLimited = ''rate_limited''"
| "code_string CodeAlreadyInit = ''already_init''"
| "code_string CodeNotInit = ''not_init''"
| "code_string CodeVaultNotFound = ''vault_not_found''"
| "code_string CodeVaultExists = ''vault_exists''"
| "code_string CodeFingerprint = ''fingerprint_mismatch''"
| "code_string CodeTrustDenied = ''trust_denied''"
| "code_string CodeApprovalPending = ''approval_pending''"
| "code_string CodeAuthRequired = ''auth_required''"
| "code_string CodeProjectNotFound = ''project_not_found''"
| "code_string CodeProjectExists = ''project_exists''"
| "code_string CodeEnvNotFound = ''env_not_found''"
| "code_string CodeEnvExists = ''env_exists''"
| "code_string CodeEnvProtected = ''env_protected''"
| "code_string CodeNotFound = ''not_found''"
| "code_string CodeAlreadyExists = ''already_exists''"
| "code_string CodeBadName = ''bad_name''"
| "code_string CodeInternal = ''internal''"

text \<open>An open vault: whether it is locked, the MAC key it derives, and its password check.\<close>

record vault_entry =
  ve_locked :: bool
  ve_subkey :: "code + bytes"
  ve_password :: "bytes \<Rightarrow> bool"

record caller =
  ci_uid :: nat
  ci_pid :: int
  ci_tty :: int
  ci_comm :: string
  ci_pcomm :: string
  ci_surface :: string
  ci_session :: string

record world =
  wo_now :: go_time
  wo_sha256 :: hash_fn
  wo_hmac :: mac_fn
  wo_disk :: "string \<Rightarrow> open_error + vault_entry"
  wo_trust_io :: store_io
  wo_trust :: trust_file
  wo_fp_key :: "bytes option"
  wo_limiter_io :: "string option"
  wo_procs :: procs

datatype effect =
    AuditEmitted string event
  | VaultTouched string
  | RunRecorded string string "string list" "string list"

record daemon =
  dm_vaults :: "vault_entry go_map"
  dm_sessions :: session_store
  dm_presence :: "presence_token go_map"
  dm_limiter :: rate_limiter
  dm_queue :: queue
  dm_effects :: "effect list"

record ipc_error =
  er_code :: code
  er_details :: "string go_map"

definition new_error :: "code \<Rightarrow> ipc_error" where
  "new_error c = \<lparr>er_code = c, er_details = []\<rparr>"

section \<open>Vaults, effects and the audit trail\<close>

definition lookup_vault :: "daemon \<Rightarrow> string \<Rightarrow> vault_entry option" where
  "lookup_vault d name = map_get (dm_vaults d) name"

definition open_vault :: "world \<Rightarrow> string \<Rightarrow> daemon \<Rightarrow> (open_error + vault_entry) \<times> daemon" where
  "open_vault w name d =
     (case lookup_vault d name of
        Some e \<Rightarrow> (Inr e, d)
      | None \<Rightarrow>
          (case wo_disk w name of
             Inl e \<Rightarrow> (Inl e, d)
           | Inr e \<Rightarrow> (Inr e, d\<lparr>dm_vaults := map_put (dm_vaults d) name e\<rparr>)))"

definition stamp_caller :: "caller \<Rightarrow> event \<Rightarrow> event" where
  "stamp_caller ci e = e\<lparr>
     ev_caller_uid := (if ev_caller_uid e = 0 then ci_uid ci else ev_caller_uid e),
     ev_caller_pid := (if ev_caller_pid e = 0 then ci_pid ci else ev_caller_pid e),
     ev_caller_comm := (if ev_caller_comm e = [] then ci_comm ci else ev_caller_comm e),
     ev_caller_pcomm := (if ev_caller_pcomm e = [] then ci_pcomm ci else ev_caller_pcomm e),
     ev_caller_surface := (if ev_caller_surface e = [] then ci_surface ci else ev_caller_surface e)\<rparr>"

definition emit :: "effect \<Rightarrow> daemon \<Rightarrow> daemon" where
  "emit x d = d\<lparr>dm_effects := dm_effects d @ [x]\<rparr>"

definition audit_emit :: "caller \<Rightarrow> string \<Rightarrow> event \<Rightarrow> daemon \<Rightarrow> daemon" where
  "audit_emit ci vaultName e d =
     (let v = default_if_empty vaultName DefaultVaultName in
      case lookup_vault d v of None \<Rightarrow> d | Some _ \<Rightarrow> emit (AuditEmitted v (stamp_caller ci e)) d)"

definition touch_vault :: "string \<Rightarrow> daemon \<Rightarrow> daemon" where
  "touch_vault rawName d =
     (let v = default_if_empty rawName DefaultVaultName in
      case lookup_vault d v of None \<Rightarrow> d | Some _ \<Rightarrow> emit (VaultTouched v) d)"

fun outcome_for :: "ipc_error option \<Rightarrow> string \<times> string" where
  "outcome_for None = (''ok'', [])"
| "outcome_for (Some e) =
     ((if er_code e \<in> {CodeNotFound, CodeProjectNotFound, CodeEnvNotFound, CodeVaultNotFound} then ''not_found''
       else if er_code e \<in> {CodeLocked, CodeWrongPassword, CodeRateLimited, CodeAlreadyExists, CodeAlreadyInit,
           CodeBadName, CodeBadRequest, CodeEnvProtected, CodeTrustDenied, CodeAuthRequired, CodeApprovalPending} then ''denied''
       else ''error''), code_string (er_code e))"

section \<open>Providers\<close>

record verify_request =
  vr_vault :: string
  vr_action :: string
  vr_password :: bytes
  vr_presence :: string

datatype auth_error = ErrDenied | ErrWrongCredential | RetryAfter duration | OpenVault open_error

record provider =
  pv_name :: string
  pv_verify :: "verify_request \<Rightarrow> daemon \<Rightarrow> (auth_error + string) \<times> daemon"

record registry =
  rg_by_name :: "provider go_map"
  rg_order :: "string list"

definition new_registry :: registry where
  "new_registry = \<lparr>rg_by_name = [], rg_order = []\<rparr>"

definition register :: "provider \<Rightarrow> registry \<Rightarrow> registry" where
  "register p r =
     r\<lparr>rg_order := (if map_get (rg_by_name r) (pv_name p) = None then rg_order r @ [pv_name p] else rg_order r),
       rg_by_name := map_put (rg_by_name r) (pv_name p) p\<rparr>"

definition lookup_provider :: "registry \<Rightarrow> string \<Rightarrow> provider option" where
  "lookup_provider r name = map_get (rg_by_name r) name"

definition password_verify :: "world \<Rightarrow> caller \<Rightarrow> verify_request \<Rightarrow> daemon \<Rightarrow> (auth_error + string) \<times> daemon" where
  "password_verify w ci r d =
     (let vaultName = default_if_empty (vr_vault r) DefaultVaultName in
      case open_vault w vaultName d of
        (Inl e, d) \<Rightarrow> (Inl (OpenVault e), d)
      | (Inr st, d) \<Rightarrow>
          (case check_limiter (wo_now w) (dm_limiter d) of
             Some wait \<Rightarrow> (Inl (RetryAfter wait), d)
           | None \<Rightarrow>
               if \<not> ve_password st (vr_password r) then
                 (Inl ErrWrongCredential,
                  audit_emit ci vaultName
                    (no_event\<lparr>ev_op := ''vault.authorize'', ev_outcome := ''denied'',
                      ev_error_code := code_string CodeWrongPassword\<rparr>)
                    (d\<lparr>dm_limiter := snd (record_failure (wo_limiter_io w) (wo_now w) (dm_limiter d))\<rparr>))
               else (Inr ''password'', d\<lparr>dm_limiter := snd (record_success (wo_limiter_io w) (dm_limiter d))\<rparr>)))"

definition passkey_verify :: "world \<Rightarrow> verify_request \<Rightarrow> daemon \<Rightarrow> (auth_error + string) \<times> daemon" where
  "passkey_verify w r d =
     (case presence_consume (vr_presence r) (default_if_empty (vr_vault r) DefaultVaultName) (wo_now w) (dm_presence d) of
        (ok, m) \<Rightarrow> (if ok then Inr ''passkey'' else Inl ErrDenied, d\<lparr>dm_presence := m\<rparr>))"

definition built_in_providers :: "world \<Rightarrow> caller \<Rightarrow> registry" where
  "built_in_providers w ci =
     register \<lparr>pv_name = ''passkey'', pv_verify = passkey_verify w\<rparr>
       (register \<lparr>pv_name = ''password'', pv_verify = password_verify w ci\<rparr> new_registry)"

lemma lookup_built_in:
  "lookup_provider (built_in_providers w ci) ''passkey'' = Some \<lparr>pv_name = ''passkey'', pv_verify = passkey_verify w\<rparr>"
  "lookup_provider (built_in_providers w ci) ''password'' = Some \<lparr>pv_name = ''password'', pv_verify = password_verify w ci\<rparr>"
  by (simp_all add: lookup_provider_def built_in_providers_def register_def new_registry_def)

lemma registered_replaces:
  "lookup_provider (register p r) name = (if name = pv_name p then Some p else lookup_provider r name) \<and>
   (distinct (rg_order r) \<and> set (rg_order r) = fst ` set (rg_by_name r) \<longrightarrow> distinct (rg_order (register p r)))"
  by (auto simp: lookup_provider_def register_def map_get_None_iff)

section \<open>Fresh credentials\<close>

fun map_provider_err :: "auth_error + string \<Rightarrow> ipc_error option" where
  "map_provider_err (Inr _) = None"
| "map_provider_err (Inl (RetryAfter _)) = Some (new_error CodeRateLimited)"
| "map_provider_err (Inl ErrWrongCredential) = Some (new_error CodeWrongPassword)"
| "map_provider_err (Inl ErrDenied) = Some (new_error CodeAuthRequired)"
| "map_provider_err (Inl (OpenVault OpenNotInit)) = Some (new_error CodeNotInit)"
| "map_provider_err (Inl (OpenVault OpenFingerprint)) = Some (new_error CodeFingerprint)"
| "map_provider_err (Inl (OpenVault OpenOther)) = Some (new_error CodeInternal)"

definition authorize_with_password :: "registry \<Rightarrow> string \<Rightarrow> bytes \<Rightarrow> daemon \<Rightarrow> ipc_error option \<times> daemon" where
  "authorize_with_password reg vaultName password d =
     (case lookup_provider reg ''password'' of
        None \<Rightarrow> (Some (new_error CodeInternal), d)
      | Some p \<Rightarrow>
          (case pv_verify p \<lparr>vr_vault = vaultName, vr_action = ''authorize'', vr_password = password, vr_presence = []\<rparr> d of
             (res, d) \<Rightarrow> (map_provider_err res, d)))"

definition authorize_action_always ::
  "registry \<Rightarrow> string \<Rightarrow> bytes \<Rightarrow> string \<Rightarrow> daemon \<Rightarrow> ipc_error option \<times> daemon" where
  "authorize_action_always reg vaultName password presenceToken d =
     (if length presenceToken > 0 then
        (case lookup_provider reg ''passkey'' of
           None \<Rightarrow> (Some (new_error CodeInternal), d)
         | Some p \<Rightarrow>
             (case pv_verify p \<lparr>vr_vault = vaultName, vr_action = ''authorize'', vr_password = [], vr_presence = presenceToken\<rparr> d of
                (Inl _, d) \<Rightarrow> (Some (new_error CodeAuthRequired), d)
              | (Inr _, d) \<Rightarrow> (None, d)))
      else if length password = 0 then (Some (new_error CodeAuthRequired), d)
      else authorize_with_password reg vaultName password d)"

section \<open>The policy of a scope\<close>

definition strictest :: "string \<Rightarrow> string \<Rightarrow> string" where
  "strictest a b =
     (if a = ''always'' \<or> b = ''always'' then ''always'' else if a = ''none'' then b else a)"

text \<open>The \<open>switch\<close> of \<open>policyFor\<close>: the specificity of a record for a scope, \<open>None\<close> where it does not match.\<close>

definition specificity :: "trust_record \<Rightarrow> string \<Rightarrow> string \<Rightarrow> nat option" where
  "specificity rec reqProject reqEnv =
     (let recProject = default_if_empty (tr_scope_project rec) DefaultProjectName;
          recEnv = default_if_empty (tr_scope_env rec) DefaultEnvName in
      if tr_scope_project rec = [] \<and> tr_scope_env rec = [] then Some 1
      else if tr_scope_env rec = [] then (if recProject \<noteq> reqProject then None else Some 2)
      else if recProject \<noteq> reqProject \<or> recEnv \<noteq> reqEnv then None else Some 3)"

definition merge_entry :: "nat \<Rightarrow> string \<times> string \<Rightarrow> (string \<times> nat) go_map \<Rightarrow> (string \<times> nat) go_map" where
  "merge_entry spec kv winners =
     (case kv of (k, v) \<Rightarrow>
       (case map_get winners k of
          None \<Rightarrow> map_put winners k (v, spec)
        | Some (value, s) \<Rightarrow>
            if s < spec then map_put winners k (v, spec)
            else if spec = s then map_put winners k (strictest value v, spec)
            else winners))"

definition policy_source :: "world \<Rightarrow> bytes \<Rightarrow> string \<Rightarrow> trust_record \<Rightarrow> bool" where
  "policy_source w vkKey vaultName rec \<longleftrightarrow>
     \<not> (\<not> is_v2 rec \<or> length (tr_auth rec) = 0) \<and> verify_vk_mac (wo_sha256 w) (wo_hmac w) rec vkKey \<and>
     default_if_empty (tr_vault rec) DefaultVaultName = vaultName"

fun merge_records ::
  "world \<Rightarrow> bytes \<Rightarrow> string \<Rightarrow> string \<Rightarrow> string \<Rightarrow> (string \<times> nat) go_map \<Rightarrow> trust_record list \<Rightarrow> (string \<times> nat) go_map" where
  "merge_records w vkKey vaultName reqProject reqEnv winners [] = winners"
| "merge_records w vkKey vaultName reqProject reqEnv winners (rec # recs) =
     (if \<not> policy_source w vkKey vaultName rec then merge_records w vkKey vaultName reqProject reqEnv winners recs
      else case specificity rec reqProject reqEnv of
        None \<Rightarrow> merge_records w vkKey vaultName reqProject reqEnv winners recs
      | Some spec \<Rightarrow>
          merge_records w vkKey vaultName reqProject reqEnv (fold (merge_entry spec) (tr_auth rec) winners) recs)"

definition policy_for :: "world \<Rightarrow> daemon \<Rightarrow> string \<Rightarrow> vault_scope \<Rightarrow> string go_map option" where
  "policy_for w d vaultName scope =
     (case lookup_vault d vaultName of
        None \<Rightarrow> None
      | Some e \<Rightarrow>
          if ve_locked e then None
          else case ve_subkey e of
            Inl _ \<Rightarrow> None
          | Inr vkKey \<Rightarrow>
              (case load_store (wo_trust_io w) (wo_trust w) of
                 Inl _ \<Rightarrow> None
               | Inr records \<Rightarrow>
                   if length records = 0 then None
                   else
                     (let winners = merge_records w vkKey vaultName
                            (default_if_empty (sc_project scope) DefaultProjectName)
                            (default_if_empty (sc_env scope) DefaultEnvName) [] records in
                      if length winners = 0 then None else Some (map (\<lambda>(k, v). (k, fst v)) winners))))"

definition policy_demands_auth :: "world \<Rightarrow> daemon \<Rightarrow> string \<Rightarrow> vault_scope \<Rightarrow> string \<Rightarrow> bool" where
  "policy_demands_auth w d vaultName scope action =
     (case policy_for w d vaultName scope of None \<Rightarrow> False | Some policy \<Rightarrow> map_at policy action = ''always'')"

section \<open>The gate\<close>

definition authorize_action ::
  "world \<Rightarrow> registry \<Rightarrow> caller \<Rightarrow> string \<Rightarrow> vault_scope \<Rightarrow> string \<Rightarrow> bytes \<Rightarrow> string \<Rightarrow> daemon \<Rightarrow>
   ipc_error option \<times> daemon" where
  "authorize_action w reg ci vaultName scope action password presenceToken d =
     (let verdict = (case policy_for w d vaultName scope of None \<Rightarrow> [] | Some policy \<Rightarrow> map_at policy action) in
      if verdict = ''always'' then authorize_action_always reg vaultName password presenceToken d
      else if verdict = ''none'' then (None, d)
      else
        (let tok = ci_session ci;
             (ok, s) = (if tok \<noteq> [] then validate_session tok vaultName (ci_uid ci) (ci_tty ci) (wo_now w) (dm_sessions d)
                        else (False, dm_sessions d));
             d = d\<lparr>dm_sessions := s\<rparr> in
         if tok \<noteq> [] \<and> ok then (None, d)
         else authorize_action_always reg vaultName password presenceToken d))"

definition caller_is_attended :: "world \<Rightarrow> caller \<Rightarrow> string \<Rightarrow> bytes \<Rightarrow> string \<Rightarrow> daemon \<Rightarrow> bool \<times> daemon" where
  "caller_is_attended w ci vaultName password presenceToken d =
     (if length password > 0 \<or> length presenceToken > 0 then (True, d)
      else if ci_session ci = [] then (False, d)
      else case validate_session (ci_session ci) vaultName (ci_uid ci) (ci_tty ci) (wo_now w) (dm_sessions d) of
        (ok, s) \<Rightarrow> (ok, d\<lparr>dm_sessions := s\<rparr>))"

definition record_governs :: "trust_record \<Rightarrow> string \<Rightarrow> vault_scope \<Rightarrow> bool" where
  "record_governs rec vaultName scope \<longleftrightarrow>
     default_if_empty (tr_vault rec) DefaultVaultName = default_if_empty vaultName DefaultVaultName \<and>
     default_if_empty (tr_scope_project rec) DefaultProjectName = default_if_empty (sc_project scope) DefaultProjectName \<and>
     default_if_empty (tr_scope_env rec) DefaultEnvName = default_if_empty (sc_env scope) DefaultEnvName"

end
