(* ===== verification/Auth_Claims.thy ===== *)
theory Auth_Claims
  imports Auth_Gate
begin

text \<open>
  What the gate lets through: the policy of a scope as a contract on sets of rules, and the
  exact condition under which an operation on values is authorized.
\<close>

section \<open>The policy of a scope, abstractly\<close>

text \<open>
  The rules on an operation: each record that governs the scope contributes what it says, with
  its specificity. Only the rules of the highest specificity count.
\<close>

definition rules_on :: "world \<Rightarrow> bytes \<Rightarrow> string \<Rightarrow> vault_scope \<Rightarrow> string \<Rightarrow> trust_record set \<Rightarrow> (nat \<times> string) set" where
  "rules_on w key v sc k recs = {(s, x). \<exists>rec \<in> recs. policy_source w key v rec \<and> (k, x) \<in> set (tr_auth rec) \<and>
     specificity rec (default_if_empty (sc_project sc) DefaultProjectName)
       (default_if_empty (sc_env sc) DefaultEnvName) = Some s}"

definition topmost :: "(nat \<times> string) set \<Rightarrow> string set" where
  "topmost R = {x. \<exists>s. (s, x) \<in> R \<and> (\<forall>(s', x') \<in> R. s' \<le> s)}"

fun win :: "nat \<times> string \<Rightarrow> (string \<times> nat) option \<Rightarrow> (string \<times> nat) option" where
  "win (s, v) None = Some (v, s)"
| "win (s, v) (Some (val, s0)) =
     (if s0 < s then Some (v, s) else if s = s0 then Some (strictest val v, s) else Some (val, s0))"

lemma strictest_always: "strictest a b = ''always'' \<longleftrightarrow> a = ''always'' \<or> b = ''always''"
  by (simp add: strictest_def)

lemma strictest_none: "strictest a b = ''none'' \<longleftrightarrow> a = ''none'' \<and> b = ''none''"
  by (simp add: strictest_def)

definition at_level :: "(nat \<times> string) set \<Rightarrow> nat \<Rightarrow> string set" where
  "at_level R s = {x. (s, x) \<in> R}"

definition bounded_by :: "(nat \<times> string) set \<Rightarrow> nat \<Rightarrow> bool" where
  "bounded_by R s \<longleftrightarrow> (\<forall>(s', x) \<in> R. s' \<le> s)"

fun won :: "(nat \<times> string) set \<Rightarrow> (string \<times> nat) option \<Rightarrow> bool" where
  "won R None \<longleftrightarrow> R = {}"
| "won R (Some (val, s)) \<longleftrightarrow> at_level R s \<noteq> {} \<and> bounded_by R s \<and>
     (val = ''always'' \<longleftrightarrow> ''always'' \<in> at_level R s) \<and> (val = ''none'' \<longleftrightarrow> at_level R s \<subseteq> {''none''})"

lemma at_level_insert: "at_level (insert (s, v) R) s' = (if s' = s then insert v (at_level R s') else at_level R s')"
  by (auto simp: at_level_def)

lemma bounded_by_insert: "bounded_by (insert (s, v) R) s' \<longleftrightarrow> s \<le> s' \<and> bounded_by R s'"
  by (auto simp: bounded_by_def)

lemma above_bound: "bounded_by R s0 \<Longrightarrow> s0 < s \<Longrightarrow> at_level R s = {} \<and> bounded_by R s"
  by (fastforce simp: bounded_by_def at_level_def)

lemma won_insert:
  assumes w: "won R r"
  shows "won (insert (s, v) R) (win (s, v) r)"
proof (cases r)
  case None
  then show ?thesis using w by (simp add: at_level_insert bounded_by_insert) (auto simp: at_level_def bounded_by_def)
next
  case (Some p)
  obtain val s0 where p: "p = (val, s0)" by fastforce
  have w: "at_level R s0 \<noteq> {}" "bounded_by R s0" "val = ''always'' \<longleftrightarrow> ''always'' \<in> at_level R s0"
      "val = ''none'' \<longleftrightarrow> at_level R s0 \<subseteq> {''none''}"
    using w Some p by auto
  consider "s0 < s" | "s = s0" | "s < s0" by linarith
  then show ?thesis
  proof cases
    case 1
    then show ?thesis
      using above_bound [OF w(2) 1] by (auto simp: Some p at_level_insert bounded_by_insert)
  next
    case 2
    then show ?thesis
      using w by (simp add: Some p at_level_insert bounded_by_insert strictest_always strictest_none) blast
  next
    case 3
    then show ?thesis using w by (simp add: Some p at_level_insert bounded_by_insert)
  qed
qed

lemma topmost_level: "at_level R s \<noteq> {} \<Longrightarrow> bounded_by R s \<Longrightarrow> topmost R = at_level R s"
  by (auto simp: topmost_def at_level_def bounded_by_def) (metis case_prodD le_antisym)

lemma won_topmost:
  assumes "won R r"
  shows "(case r of None \<Rightarrow> [] | Some (val, s) \<Rightarrow> val) = ''always'' \<longleftrightarrow> ''always'' \<in> topmost R"
    and "(case r of None \<Rightarrow> [] | Some (val, s) \<Rightarrow> val) = ''none'' \<longleftrightarrow> topmost R = {''none''}"
proof -
  have empty: "topmost {} = {}" by (auto simp: topmost_def)
  have none: "A \<subseteq> {''none''} \<longleftrightarrow> A = {''none''}" if "A \<noteq> {}" for A :: "string set"
    using that by auto
  have "((case r of None \<Rightarrow> [] | Some (val, s) \<Rightarrow> val) = ''always'' \<longleftrightarrow> ''always'' \<in> topmost R) \<and>
    ((case r of None \<Rightarrow> [] | Some (val, s) \<Rightarrow> val) = ''none'' \<longleftrightarrow> topmost R = {''none''})"
  proof (cases r)
    case None
    then show ?thesis using assms by (simp add: empty)
  next
    case (Some p)
    obtain val s where p: "p = (val, s)" by fastforce
    then have "at_level R s \<noteq> {}" "bounded_by R s" using assms Some by auto
    then show ?thesis using assms by (simp add: Some p topmost_level none)
  qed
  then show "(case r of None \<Rightarrow> [] | Some (val, s) \<Rightarrow> val) = ''always'' \<longleftrightarrow> ''always'' \<in> topmost R"
    and "(case r of None \<Rightarrow> [] | Some (val, s) \<Rightarrow> val) = ''none'' \<longleftrightarrow> topmost R = {''none''}"
    by blast+
qed

lemma merge_entry_get:
  "map_get (merge_entry s (k', v) m) k = (if k' = k then win (s, v) (map_get m k) else map_get m k)"
  by (auto simp: merge_entry_def split: option.splits)

lemma merge_auth_won:
  "won R (map_get m k) \<Longrightarrow>
   won (R \<union> {(s, x) |x. (k, x) \<in> set auth}) (map_get (fold (merge_entry s) auth m) k)"
proof (induction auth arbitrary: m R)
  case Nil
  then show ?case by simp
next
  case (Cons kv auth)
  obtain k' v where kv: "kv = (k', v)" by fastforce
  let ?R = "if k' = k then insert (s, v) R else R"
  have "won ?R (map_get (merge_entry s kv m) k)"
    using Cons.prems won_insert by (simp add: kv merge_entry_get)
  from Cons.IH [OF this] have "won (?R \<union> {(s, x) |x. (k, x) \<in> set auth}) (map_get (fold (merge_entry s) (kv # auth) m) k)"
    by simp
  moreover have "?R \<union> {(s, x) |x. (k, x) \<in> set auth} = R \<union> {(s, x) |x. (k, x) \<in> set (kv # auth)}"
    by (auto simp: kv)
  ultimately show ?case by simp
qed

lemma rules_on_insert:
  "rules_on w key v sc k (insert rec recs) = rules_on w key v sc k recs \<union>
     (if policy_source w key v rec
      then (case specificity rec (default_if_empty (sc_project sc) DefaultProjectName)
              (default_if_empty (sc_env sc) DefaultEnvName) of
              None \<Rightarrow> {} | Some s \<Rightarrow> {(s, x) |x. (k, x) \<in> set (tr_auth rec)}) else {})"
  by (auto simp: rules_on_def split: option.splits)

lemma merge_records_won:
  assumes "won R (map_get m k)"
  shows "won (R \<union> rules_on w key v sc k (set recs))
    (map_get (merge_records w key v (default_if_empty (sc_project sc) DefaultProjectName)
       (default_if_empty (sc_env sc) DefaultEnvName) m recs) k)"
  using assms
proof (induction recs arbitrary: m R)
  case Nil
  then show ?case by (simp add: rules_on_def)
next
  case (Cons rec recs)
  show ?case
  proof (cases "policy_source w key v rec \<and> specificity rec (default_if_empty (sc_project sc) DefaultProjectName)
              (default_if_empty (sc_env sc) DefaultEnvName) \<noteq> None")
    case True
    then obtain s where s: "policy_source w key v rec" "specificity rec (default_if_empty (sc_project sc) DefaultProjectName)
              (default_if_empty (sc_env sc) DefaultEnvName) = Some s" by blast
    show ?thesis
      using Cons.IH [OF merge_auth_won [OF Cons.prems, of s "tr_auth rec"]] s
      by (simp add: rules_on_insert Un_ac)
  next
    case False
    then show ?thesis using Cons by (auto simp: rules_on_insert split: option.splits)
  qed
qed

definition verdict_of :: "world \<Rightarrow> daemon \<Rightarrow> string \<Rightarrow> vault_scope \<Rightarrow> string \<Rightarrow> string" where
  "verdict_of w d v sc k = (case policy_for w d v sc of None \<Rightarrow> [] | Some policy \<Rightarrow> map_at policy k)"

lemma map_at_fst: "map_at (map (\<lambda>(k, v). (k, fst v)) m) k = (case map_get m k of None \<Rightarrow> [] | Some (val, s) \<Rightarrow> val)"
  by (simp add: map_at_def map_get_def map_of_map split: option.splits prod.splits)

lemma verdict_unlocked:
  assumes "lookup_vault d v = Some e" and "\<not> ve_locked e" and "ve_subkey e = Inr key" and "load_error (wo_trust_io w) = None"
  shows "verdict_of w d v sc k =
    (case map_get (merge_records w key v (default_if_empty (sc_project sc) DefaultProjectName)
       (default_if_empty (sc_env sc) DefaultEnvName) [] (wo_trust w)) k of None \<Rightarrow> [] | Some (val, s) \<Rightarrow> val)"
  using assms by (simp add: verdict_of_def policy_for_def load_store_def Let_def map_at_fst)

text \<open>
  C38. The most specific rule decides, and among equally specific ones the strictest: while the
  vault is open, an operation is under "always" exactly when one of the most specific verified
  records about it says so, and free exactly when they all say "none", in whatever order the
  records stand in the file and their tables are walked.
\<close>

theorem policy_is_most_specific_and_strictest:
  assumes "lookup_vault d v = Some e" and "\<not> ve_locked e" and "ve_subkey e = Inr key" and "load_error (wo_trust_io w) = None"
  shows "(policy_demands_auth w d v sc k \<longleftrightarrow> ''always'' \<in> topmost (rules_on w key v sc k (set (wo_trust w)))) \<and>
    ((\<exists>policy. policy_for w d v sc = Some policy \<and> map_at policy k = ''none'') \<longleftrightarrow>
       topmost (rules_on w key v sc k (set (wo_trust w))) = {''none''})"
proof -
  have "won {} (map_get [] k)" by simp
  from merge_records_won [OF this, of w key v sc "wo_trust w"]
  have "won (rules_on w key v sc k (set (wo_trust w))) (map_get (merge_records w key v
      (default_if_empty (sc_project sc) DefaultProjectName) (default_if_empty (sc_env sc) DefaultEnvName) [] (wo_trust w)) k)"
    by simp
  note won_topmost [OF this, folded verdict_unlocked [OF assms]]
  then show ?thesis
    by (auto simp: policy_demands_auth_def verdict_of_def split: option.splits)
qed

definition ex_rule :: "string \<Rightarrow> string \<Rightarrow> string \<Rightarrow> trust_record" where
  "ex_rule path project rule = \<lparr>tr_path = path, tr_sha256 = ''ab'', tr_vault = [], tr_fp_mac = [],
     tr_vk_mac = hex_encode ''t'', tr_mtime = 5, tr_granted_at = 0, tr_snapshot = [], tr_actions = [],
     tr_auth = [(''get'', rule)], tr_aliases = [], tr_scope_vault = [], tr_scope_project = project, tr_scope_env = [],
     tr_exec_capability = [], tr_env_grants = []\<rparr>"

definition ex_entry :: vault_entry where
  "ex_entry = \<lparr>ve_locked = False, ve_subkey = Inr ''k'', ve_password = (\<lambda>p. p = ''pw'')\<rparr>"

definition ex_world :: world where
  "ex_world = \<lparr>wo_now = 100, wo_sha256 = (\<lambda>x. x), wo_hmac = (\<lambda>_ _. ''t''), wo_disk = (\<lambda>_. Inl OpenNotInit),
     wo_trust_io = io_ok, wo_trust = [ex_rule ''/a'' ''shop'' ''always'', ex_rule ''/b'' [] ''none''],
     wo_fp_key = None, wo_limiter_io = None, wo_procs = ex_procs\<rparr>"

definition ex_daemon :: daemon where
  "ex_daemon = \<lparr>dm_vaults = [(''default'', ex_entry)], dm_sessions = new_session_store 0 0, dm_presence = [],
     dm_limiter = new_rate_limiter None, dm_queue = empty_queue, dm_effects = []\<rparr>"

lemma ex_rules:
  "rules_on ex_world ''k'' ''default'' \<lparr>sc_project = ''shop'', sc_env = []\<rparr> ''get'' (set (wo_trust ex_world)) =
     {(2, ''always''), (1, ''none'')}"
  by (auto simp: rules_on_def ex_world_def policy_source_def is_v2_def ex_rule_def verify_vk_mac_def verify_mac_v2_def
      compute_mac_v2_def DefaultVaultName_def specificity_def Let_def)

theorem policy_is_most_specific_and_strictest_witness:
  "policy_demands_auth ex_world ex_daemon ''default'' \<lparr>sc_project = ''shop'', sc_env = []\<rparr> ''get''"
proof -
  have "topmost {(2, ''always''), (1, ''none'')} = {''always''}" by (auto simp: topmost_def)
  moreover have "lookup_vault ex_daemon ''default'' = Some ex_entry" "\<not> ve_locked ex_entry" "ve_subkey ex_entry = Inr ''k''"
      "load_error (wo_trust_io ex_world) = None"
    by (simp_all add: lookup_vault_def ex_daemon_def map_get_def ex_entry_def ex_world_def)
  ultimately show ?thesis
    using policy_is_most_specific_and_strictest [of ex_daemon "''default''" ex_entry "''k''" ex_world
        "\<lparr>sc_project = ''shop'', sc_env = []\<rparr>" "''get''"] ex_rules by simp
qed

section \<open>Who gets through\<close>

text \<open>What counts as a fresh credential: a presence token for this vault, else the password.\<close>

definition fresh_credential :: "world \<Rightarrow> string \<Rightarrow> bytes \<Rightarrow> string \<Rightarrow> daemon \<Rightarrow> bool" where
  "fresh_credential w v password presence d \<longleftrightarrow>
     (if presence \<noteq> [] then fst (presence_consume presence v (wo_now w) (dm_presence d))
      else password \<noteq> [] \<and> check_limiter (wo_now w) (dm_limiter d) = None \<and>
        (\<exists>e. fst (open_vault w v d) = Inr e \<and> ve_password e password))"

lemma open_vault_keeps [simp]:
  "dm_limiter (snd (open_vault w v d)) = dm_limiter d" "dm_presence (snd (open_vault w v d)) = dm_presence d"
  "dm_sessions (snd (open_vault w v d)) = dm_sessions d" "dm_queue (snd (open_vault w v d)) = dm_queue d"
  by (auto simp: open_vault_def split: option.splits sum.splits)

lemma audit_emit_keeps [simp]:
  "dm_limiter (audit_emit ci v e d) = dm_limiter d" "dm_presence (audit_emit ci v e d) = dm_presence d"
  "dm_sessions (audit_emit ci v e d) = dm_sessions d" "dm_queue (audit_emit ci v e d) = dm_queue d"
  "dm_vaults (audit_emit ci v e d) = dm_vaults d"
  by (auto simp: audit_emit_def emit_def Let_def split: option.splits)

lemma map_provider_err_None: "map_provider_err r = None \<longleftrightarrow> (\<exists>p. r = Inr p)"
  by (cases r rule: map_provider_err.cases) auto

lemma password_verify_ok:
  "(\<exists>p. fst (password_verify w ci r d) = Inr p) \<longleftrightarrow>
   check_limiter (wo_now w) (dm_limiter d) = None \<and>
   (\<exists>e. fst (open_vault w (default_if_empty (vr_vault r) DefaultVaultName) d) = Inr e \<and> ve_password e (vr_password r))"
proof -
  obtain o1 d1 where o: "open_vault w (default_if_empty (vr_vault r) DefaultVaultName) d = (o1, d1)" by fastforce
  then have "dm_limiter d1 = dm_limiter d" using open_vault_keeps(1) by (metis snd_conv)
  then show ?thesis
    by (cases o1) (auto simp: password_verify_def o Let_def split: option.splits)
qed

lemma authorize_always_iff:
  "fst (authorize_action_always (built_in_providers w ci) v password presence d) = None \<longleftrightarrow>
   fresh_credential w (default_if_empty v DefaultVaultName) password presence d"
proof (cases "presence = []")
  case True
  then show ?thesis
    using password_verify_ok [of w ci "\<lparr>vr_vault = v, vr_action = ''authorize'', vr_password = password, vr_presence = []\<rparr>" d]
    by (auto simp: authorize_action_always_def authorize_with_password_def lookup_built_in fresh_credential_def
        map_provider_err_None split: prod.splits)
next
  case False
  then show ?thesis
    by (auto simp: authorize_action_always_def lookup_built_in passkey_verify_def fresh_credential_def split: prod.splits sum.splits if_splits)
qed

lemma policy_for_sessions [simp]: "policy_for w (d\<lparr>dm_sessions := s\<rparr>) v sc = policy_for w d v sc"
  by (simp add: policy_for_def lookup_vault_def)

lemma fresh_credential_sessions [simp]:
  "fresh_credential w v password presence (d\<lparr>dm_sessions := s\<rparr>) = fresh_credential w v password presence d"
  by (auto simp: fresh_credential_def open_vault_def lookup_vault_def split: option.splits sum.splits)

text \<open>
  C39. Who may touch a value, exactly: an operation is let through when the scope's policy frees
  it, or when the policy does not say "always" and the caller presents a session that is valid
  here and now, or with a fresh credential; under "always" a session is not even looked at.
\<close>

theorem gate_admits_exactly:
  "(fst (authorize_action w (built_in_providers w ci) ci v sc action password presence d) = None \<longleftrightarrow>
     verdict_of w d v sc action = ''none'' \<or>
     (verdict_of w d v sc action \<noteq> ''always'' \<and>
        fst (validate_session (ci_session ci) v (ci_uid ci) (ci_tty ci) (wo_now w) (dm_sessions d))) \<or>
     fresh_credential w (default_if_empty v DefaultVaultName) password presence d) \<and>
   (verdict_of w d v sc action = ''always'' \<longrightarrow>
     authorize_action w (built_in_providers w ci) ci v sc action password presence d =
     authorize_action_always (built_in_providers w ci) v password presence d)"
proof -
  have unfold: "authorize_action w reg ci v sc action password presence d =
     (if verdict_of w d v sc action = ''always'' then authorize_action_always reg v password presence d
      else if verdict_of w d v sc action = ''none'' then (None, d)
      else case validate_session (ci_session ci) v (ci_uid ci) (ci_tty ci) (wo_now w) (dm_sessions d) of (ok, s) \<Rightarrow>
        if ok then (None, d\<lparr>dm_sessions := s\<rparr>)
        else authorize_action_always reg v password presence (d\<lparr>dm_sessions := s\<rparr>))" for reg
  proof (cases "ci_session ci = []")
    case True
    then have "validate_session (ci_session ci) v (ci_uid ci) (ci_tty ci) (wo_now w) (dm_sessions d) = (False, dm_sessions d)"
      by (simp add: validate_session_def)
    then show ?thesis using True by (simp add: authorize_action_def verdict_of_def Let_def)
  next
    case False
    then show ?thesis by (simp add: authorize_action_def verdict_of_def Let_def split: prod.splits)
  qed
  obtain ok s where "validate_session (ci_session ci) v (ci_uid ci) (ci_tty ci) (wo_now w) (dm_sessions d) = (ok, s)"
    by fastforce
  then show ?thesis
    unfolding unfold by (cases ok) (auto simp: authorize_always_iff)
qed

lemma ex_verdict:
  "verdict_of ex_world ex_daemon ''default'' \<lparr>sc_project = ''shop'', sc_env = []\<rparr> ''get'' = ''always''"
  by (simp add: verdict_of_def policy_for_def lookup_vault_def ex_daemon_def map_get_def ex_entry_def load_store_def
      ex_world_def policy_source_def is_v2_def ex_rule_def verify_vk_mac_def verify_mac_v2_def compute_mac_v2_def
      DefaultVaultName_def DefaultProjectName_def DefaultEnvName_def specificity_def Let_def merge_entry_def
      map_put_def map_at_def)

lemma ex_credentials:
  "fresh_credential ex_world ''default'' ''pw'' [] ex_daemon" "\<not> fresh_credential ex_world ''default'' ''no'' [] ex_daemon"
  by (simp_all add: fresh_credential_def ex_daemon_def ex_world_def open_vault_def lookup_vault_def map_get_def
      ex_entry_def check_limiter_def new_rate_limiter_def load_limiter_def clean_slate_def)

theorem gate_admits_exactly_witness:
  "fst (authorize_action ex_world (built_in_providers ex_world (undefined\<lparr>ci_session := ''tok''\<rparr>))
      (undefined\<lparr>ci_session := ''tok''\<rparr>) ''default'' \<lparr>sc_project = ''shop'', sc_env = []\<rparr> ''get'' ''no'' [] ex_daemon) \<noteq> None \<and>
   fst (authorize_action ex_world (built_in_providers ex_world (undefined\<lparr>ci_session := ''tok''\<rparr>))
      (undefined\<lparr>ci_session := ''tok''\<rparr>) ''default'' \<lparr>sc_project = ''shop'', sc_env = []\<rparr> ''get'' ''pw'' [] ex_daemon) = None"
  using ex_credentials unfolding gate_admits_exactly [THEN conjunct1] ex_verdict by simp

end
