(* ===== verification/Approval_Gate.thy ===== *)
theory Approval_Gate
  imports Auth_Gate Byn_File Go_Path
begin

text \<open>
  How a question about a command becomes a request in the queue and an answer is recognised:
  \<open>internal/daemon/approvalgate.go\<close>. \<open>exec_world\<close> adds to the world what an exec request reads:
  files, the parsers, the processes' directories, the vault's values. Each of the four calls to
  the queue in one request has its own outcome of reading and writing the file.
\<close>

section \<open>What an exec request reads\<close>

record ipc_scope =
  is_vault :: string
  is_project :: string
  is_env :: string

record exec_req =
  xq_force_ask :: bool
  xq_reason :: string
  xq_wait_seconds :: int
  xq_ask_once :: bool
  xq_path :: string
  xq_scope :: ipc_scope
  xq_command :: string
  xq_argv :: "string list"
  xq_alias :: string
  xq_vars :: "string list"
  xq_cwd :: string
  xq_password :: bytes
  xq_presence :: string
  xq_force_auth :: bool

datatype queue_call = CallGrant | CallConsume | CallDenial | CallEnqueue | CallExpiry

record authored_entry =
  ae_authored :: bool
  ae_at :: int
  ae_chain :: "proc_ref list"
  ae_origin :: proc_ref

type_synonym exec_values = "(string \<times> bytes) list"

record exec_world = world +
  xw_canonicalize :: "string \<Rightarrow> string"
  xw_eval_symlinks :: "string \<Rightarrow> string option"
  xw_read :: "string \<Rightarrow> bool + bytes \<times> int"
  xw_parse :: "bytes \<Rightarrow> byn_file option"
  xw_compile :: "string \<Rightarrow> (string \<Rightarrow> bool) option"
  xw_cwd :: "int \<Rightarrow> string"
  xw_user :: "nat \<Rightarrow> string option"
  xw_queue_io :: "queue_call \<Rightarrow> store_io"
  xw_ticket :: "string + string \<times> string"
  xw_new_id :: string
  xw_authored :: "string \<Rightarrow> vault_scope \<Rightarrow> string \<Rightarrow> authored_entry option"
  xw_entries :: "vault_scope \<Rightarrow> (string \<times> bool) list option"
  xw_capability :: "vault_scope \<Rightarrow> bytes \<Rightarrow> string list option \<Rightarrow> code + exec_values"
  xw_from_vault_key :: "vault_scope \<Rightarrow> string list \<Rightarrow> bool \<Rightarrow> code + exec_values"
  xw_seal :: "vault_scope \<Rightarrow> string list \<Rightarrow> bytes \<Rightarrow> code + bytes"
  xw_unattended :: "string \<Rightarrow> vault_scope \<Rightarrow> string list"
  xw_origin :: "vault_scope \<Rightarrow> string \<Rightarrow> (bool \<times> bool) option"
  xw_has_var :: "vault_scope \<Rightarrow> string \<Rightarrow> bool"
  xw_run_error :: "string option"

section \<open>What identifies a question\<close>

definition ellipsis :: string where
  "ellipsis = [CHR 0xE2, CHR 0x80, CHR 0xA6]"

definition cap_text :: "nat \<Rightarrow> string \<Rightarrow> string" where
  "cap_text n s = (if n < length s then take n s @ ellipsis else s)"

definition vault_scope_label :: "vault_scope \<Rightarrow> string" where
  "vault_scope_label scope =
     default_if_empty (sc_project scope) DefaultProjectName @ ''/'' @ default_if_empty (sc_env scope) DefaultEnvName"

definition fingerprint_of :: "hash_fn \<Rightarrow> string \<Rightarrow> vault_scope \<Rightarrow> string \<Rightarrow> string list \<Rightarrow> string" where
  "fingerprint_of sha256 vaultName scope subject summary =
     policy_hash sha256 \<lparr>pol_vault = default_if_empty vaultName DefaultVaultName, pol_project = subject,
       pol_env = vault_scope_label scope, pol_env_grants = summary, pol_actions = [], pol_writable = [],
       pol_aliases = [], pol_auth = []\<rparr>"

definition action_approval_key ::
  "hash_fn \<Rightarrow> string \<Rightarrow> vault_scope \<Rightarrow> string \<Rightarrow> string \<Rightarrow> string list \<Rightarrow> string \<times> string list \<times> string" where
  "action_approval_key sha256 vaultName scope canon command resolvedArgv =
     (let cmd = join '' '' resolvedArgv;
          cmd = (if cmd = [] then command else cmd);
          cmd = cap_text 200 cmd;
          summary = [''runs '' @ cmd]
      in (cmd, summary, fingerprint_of sha256 vaultName scope canon summary))"

definition action_fingerprint :: "hash_fn \<Rightarrow> string \<Rightarrow> vault_scope \<Rightarrow> string \<Rightarrow> string \<Rightarrow> string list \<Rightarrow> string" where
  "action_fingerprint sha256 vaultName scope canon command resolvedArgv =
     snd (snd (action_approval_key sha256 vaultName scope canon command resolvedArgv))"

section \<open>What is recorded about the asker\<close>

text \<open>\<open>requestReason\<close>, for text that is valid UTF-8, whose multi-byte runes it leaves alone.\<close>

definition clean_char :: "char \<Rightarrow> string" where
  "clean_char c = (let r = of_char c :: nat in
     if r = 9 \<or> r = 10 \<or> r = 13 \<or> r = 11 \<or> r = 12 then '' ''
     else if r < 32 \<or> r = 127 then [] else [c])"

definition request_reason :: "string \<Rightarrow> string" where
  "request_reason s = cap_text 200 (join '' '' (str_fields (concat (map clean_char s))))"

definition maxGrantWindow :: duration where "maxGrantWindow = 24 * hour"

definition needed_by :: "go_time \<Rightarrow> int \<Rightarrow> go_time" where
  "needed_by now waitSeconds =
     (if waitSeconds \<le> 0 then 0
      else let cap = maxGrantWindow div second; n = (if waitSeconds > cap then cap else waitSeconds)
        in time_add now (n * second))"

definition audit_reason :: "request \<Rightarrow> string" where
  "audit_reason pending = (if rq_reason pending = [] then [] else '' (asker'' @ [CHR 0x27] @ ''s reason: '' @ rq_reason pending @ '')'')"

definition requestor_of :: "exec_world \<Rightarrow> caller \<Rightarrow> string \<Rightarrow> exec_req \<Rightarrow> daemon \<Rightarrow> requestor \<times> daemon" where
  "requestor_of w ci vaultName req d =
     (case caller_is_attended (world.truncate w) ci vaultName (xq_password req) (xq_presence req) d of (attended, d) \<Rightarrow>
        let pt = wo_procs w; ident = caller_identity pt (ci_pid ci); self = proc_self_ref pt (ci_pid ci);
            cwd = xw_cwd w (ci_pid ci) in
        (\<lparr>ro_pid = ci_pid ci, ro_exe = ci_comm ci,
          ro_cwd = (if cwd = [] \<and> xq_path req \<noteq> [] then path_dir (xw_canonicalize w (xq_path req)) else cwd),
          ro_tty = (if ci_tty ci \<noteq> 0 then int_dec (ci_tty ci) else []),
          ro_user = (case xw_user w (ci_uid ci) of None \<Rightarrow> [] | Some u \<Rightarrow> u),
          ro_agent = (if ref_ok ident then comm_of pt (pr_pid ident) else []),
          ro_agent_pid = (if ref_ok ident then pr_pid ident else 0),
          ro_agent_key = (if ref_ok ident then agent_key ident else []),
          ro_proc_key = (if ref_ok self then agent_key self else []),
          ro_attended = attended\<rparr>, d))"

section \<open>Recognising an answer\<close>

definition action_approved_until ::
  "exec_world \<Rightarrow> queue_call \<Rightarrow> caller \<Rightarrow> string \<Rightarrow> vault_scope \<Rightarrow> string \<Rightarrow> string \<Rightarrow> string list \<Rightarrow> daemon \<Rightarrow> go_time option" where
  "action_approved_until w call ci vaultName scope canon command resolvedArgv d =
     (case action_grant_for (xw_queue_io w call) (wo_now w) canon
             (action_fingerprint (wo_sha256 w) vaultName scope canon command resolvedArgv)
             (Some (grant_usable_by (wo_procs w) (ci_pid ci))) (dm_queue d) of
        Inl _ \<Rightarrow> None
      | Inr (granted, until) \<Rightarrow> if \<not> granted then None else Some until)"

definition action_approved where
  "action_approved w ci vaultName scope canon command resolvedArgv d \<longleftrightarrow>
     action_approved_until w CallGrant ci vaultName scope canon command resolvedArgv d \<noteq> None"

definition consume_once_grant ::
  "exec_world \<Rightarrow> string \<Rightarrow> vault_scope \<Rightarrow> string \<Rightarrow> string \<Rightarrow> string list \<Rightarrow> daemon \<Rightarrow> bool \<times> daemon" where
  "consume_once_grant w vaultName scope canon command resolvedArgv d =
     (case consume_once (xw_queue_io w CallConsume) (wo_now w) canon
             (action_fingerprint (wo_sha256 w) vaultName scope canon command resolvedArgv) (dm_queue d) of
        (Inl _, q) \<Rightarrow> (False, d\<lparr>dm_queue := q\<rparr>)
      | (Inr spent, q) \<Rightarrow> (spent, d\<lparr>dm_queue := q\<rparr>))"

section \<open>Raising a request\<close>

definition blank_request :: "kind \<Rightarrow> requestor \<Rightarrow> request" where
  "blank_request k ro = \<lparr>rq_id = [], rq_kind = k, rq_vault = [], rq_project = [], rq_env = [], rq_gets = [],
     rq_gets_all = False, rq_beside = [], rq_capability = [], rq_subject = [], rq_fingerprint = [], rq_summary = [],
     rq_high_risk = False, rq_requestor = ro, rq_reason = [], rq_needed_by = 0, rq_once = False, rq_ask_once = False,
     rq_anyone = False, rq_watch_hash = [], rq_late = False, rq_status = StatusPending, rq_created_at = 0,
     rq_expires_at = 0, rq_decided_at = 0, rq_decided_via = [], rq_repeats = 0, rq_denials = 0, rq_granted_until = 0,
     rq_decided_reason = []\<rparr>"

definition unix_seconds :: "go_time \<Rightarrow> int" where
  "unix_seconds t = t div second - 62135596800"

fun kind_string :: "kind \<Rightarrow> string" where
  "kind_string KindTrustWidening = ''trust_widening''"
| "kind_string KindActionUnpinned = ''action_unpinned''"
| "kind_string KindAdhoc = ''adhoc''"

definition ticket_if_created :: "string \<Rightarrow> bool \<Rightarrow> string" where
  "ticket_if_created ticket created = (if \<not> created then [] else ticket)"

definition put_if :: "bool \<Rightarrow> string \<Rightarrow> string \<Rightarrow> string go_map \<Rightarrow> string go_map" where
  "put_if c k v m = (if c then map_put m k v else m)"

definition approval_details :: "request \<Rightarrow> string \<Rightarrow> string \<Rightarrow> string go_map" where
  "approval_details pending command watchTicket =
     (put_if (watchTicket \<noteq> []) ''watch_ticket'' watchTicket
       (put_if (rq_beside pending \<noteq> []) ''beside'' (rq_beside pending)
         (put_if (rq_gets_all pending \<or> length (rq_gets pending) > 0) ''gets''
             (if rq_gets_all pending then ''*'' else join '','' (rq_gets pending))
           (put_if (rq_env pending \<noteq> []) ''env'' (rq_env pending)
             (put_if (rq_project pending \<noteq> []) ''project'' (rq_project pending)
               (put_if (rq_vault pending \<noteq> []) ''vault'' (rq_vault pending)
                 (put_if (command \<noteq> []) ''command'' command
                   [(''approval_id'', rq_id pending), (''kind'', kind_string (rq_kind pending)),
                    (''byn'', rq_subject pending), (''expires_at'', int_dec (unix_seconds (rq_expires_at pending)))])))))))"

definition pending_error :: "request \<Rightarrow> string \<Rightarrow> string \<Rightarrow> ipc_error" where
  "pending_error pending cmd ticket = \<lparr>er_code = CodeApprovalPending, er_details = approval_details pending cmd ticket\<rparr>"

definition denial_error :: "request \<Rightarrow> string \<Rightarrow> string \<Rightarrow> string \<Rightarrow> ipc_error" where
  "denial_error denial where_key subject cmd = \<lparr>er_code = CodeTrustDenied,
     er_details = [(''denied_at'', int_dec (unix_seconds (rq_decided_at denial))),
       (''reason'', rq_decided_reason denial), (where_key, subject), (''command'', cmd)]\<rparr>"

text \<open>
  The common half of the three functions that raise a request: \<open>Enqueue\<close>, the translation of
  its errors, and the event that records the question.
\<close>

definition enqueue_and_report ::
  "exec_world \<Rightarrow> caller \<Rightarrow> string \<Rightarrow> request \<Rightarrow> string \<Rightarrow> string \<Rightarrow> (request \<Rightarrow> event) \<Rightarrow> daemon \<Rightarrow> ipc_error \<times> daemon" where
  "enqueue_and_report w ci vaultName rq cmd ticket ev d =
     (case enqueue (xw_queue_io w CallEnqueue) (wo_now w) (xw_new_id w) rq (dm_queue d) of
        (Inl (ErrOnHold _), q) \<Rightarrow> (new_error CodeTrustDenied, d\<lparr>dm_queue := q\<rparr>)
      | (Inl ErrRateLimited, q) \<Rightarrow> (new_error CodeTrustDenied, d\<lparr>dm_queue := q\<rparr>)
      | (Inl _, q) \<Rightarrow> (new_error CodeInternal, d\<lparr>dm_queue := q\<rparr>)
      | (Inr (pending, created), q) \<Rightarrow>
          (pending_error pending cmd (ticket_if_created ticket created),
           audit_emit ci vaultName (ev pending) (d\<lparr>dm_queue := q\<rparr>)))"

definition raise_event :: "string \<Rightarrow> string list \<Rightarrow> request \<Rightarrow> event" where
  "raise_event canon summary pending = no_event\<lparr>ev_op := ''approval.raise'', ev_outcome := ''pending'',
     ev_byn_path := canon,
     ev_command := ''approval raised '' @ rq_id pending @ '': '' @ join ''; '' summary @ audit_reason pending\<rparr>"

definition raise_trust_approval ::
  "exec_world \<Rightarrow> caller \<Rightarrow> string \<Rightarrow> string \<Rightarrow> vault_scope \<Rightarrow> exec_req \<Rightarrow> delta \<Rightarrow> daemon \<Rightarrow> ipc_error \<times> daemon" where
  "raise_trust_approval w ci canon vaultName scope req delta d =
     (let summary = map wd_detail (dl_widenings delta) in
      case xw_ticket w of
        Inl _ \<Rightarrow> (new_error CodeInternal, d)
      | Inr (ticket, watchHash) \<Rightarrow>
          (case requestor_of w ci vaultName req d of (ro, d) \<Rightarrow>
             enqueue_and_report w ci vaultName
               ((blank_request KindTrustWidening ro)\<lparr>rq_watch_hash := watchHash, rq_vault := vaultName,
                  rq_project := sc_project scope, rq_env := sc_env scope, rq_subject := canon,
                  rq_fingerprint := fingerprint_of (wo_sha256 w) vaultName scope canon summary,
                  rq_summary := summary, rq_high_risk := high_risk delta, rq_reason := request_reason (xq_reason req),
                  rq_needed_by := needed_by (wo_now w) (xq_wait_seconds req), rq_ask_once := xq_ask_once req\<rparr>)
               [] ticket (raise_event canon summary) d))"

text \<open>\<open>raiseActionApproval\<close> from the ticket on, and the whole of it with the wall of an earlier refusal.\<close>

definition raise_action_card ::
  "exec_world \<Rightarrow> caller \<Rightarrow> string \<Rightarrow> string \<Rightarrow> vault_scope \<Rightarrow> exec_req \<Rightarrow> string \<Rightarrow> string list \<Rightarrow> string \<Rightarrow>
   string list \<Rightarrow> bool \<Rightarrow> daemon \<Rightarrow> ipc_error \<times> daemon" where
  "raise_action_card w ci canon vaultName scope req cmd summary fp gets getsAll d =
     (case xw_ticket w of
        Inl _ \<Rightarrow> (new_error CodeInternal, d)
      | Inr (ticket, watchHash) \<Rightarrow>
          (case requestor_of w ci vaultName req d of (ro, d) \<Rightarrow>
             enqueue_and_report w ci vaultName
               ((blank_request KindActionUnpinned ro)\<lparr>rq_watch_hash := watchHash, rq_vault := vaultName,
                  rq_project := sc_project scope, rq_env := sc_env scope, rq_subject := canon, rq_fingerprint := fp,
                  rq_summary := summary, rq_gets := gets, rq_gets_all := getsAll,
                  rq_reason := request_reason (xq_reason req),
                  rq_needed_by := needed_by (wo_now w) (xq_wait_seconds req), rq_ask_once := xq_ask_once req\<rparr>)
               cmd ticket (raise_event canon summary) d))"

definition raise_action_approval ::
  "exec_world \<Rightarrow> caller \<Rightarrow> string \<Rightarrow> string \<Rightarrow> vault_scope \<Rightarrow> exec_req \<Rightarrow> string list \<Rightarrow> string list \<Rightarrow> bool \<Rightarrow> daemon \<Rightarrow>
   ipc_error \<times> daemon" where
  "raise_action_approval w ci canon vaultName scope req resolvedArgv gets getsAll d =
     (case action_approval_key (wo_sha256 w) vaultName scope canon (xq_command req) resolvedArgv of (cmd, summary, fp) \<Rightarrow>
      (case last_denial (xw_queue_io w CallDenial) canon fp (dm_queue d) of
         Some denial \<Rightarrow>
           if \<not> xq_force_ask req then (denial_error denial ''byn'' canon cmd, d)
           else raise_action_card w ci canon vaultName scope req cmd summary fp gets getsAll d
       | None \<Rightarrow> raise_action_card w ci canon vaultName scope req cmd summary fp gets getsAll d))"

end
