(* ===== verification/Exec_Gate.thy ===== *)
theory Exec_Gate
  imports Approval_Gate Action_Pattern
begin

text \<open>
  The authorization of \<open>byn exec\<close>: \<open>authorizeExec\<close> of \<open>internal/daemon/execfetch.go\<close> with the
  reconciliation of changed files (\<open>trustpolicy.go\<close>, \<open>bynwrite.go\<close>, \<open>authored.go\<close>) and ad hoc
  requests (\<open>adhoc.go\<close>). How the vault opens values (from a sealed capability, from the key in
  memory) is an argument; which of the ways is taken, with which names, is modelled.
\<close>

section \<open>Scopes\<close>

definition store_for_vault :: "world \<Rightarrow> string \<Rightarrow> daemon \<Rightarrow> (ipc_error + vault_entry) \<times> daemon" where
  "store_for_vault w name d =
     (let name = default_if_empty name DefaultVaultName in
      if \<not> vault_name_re name then (Inl (new_error CodeBadName), d)
      else case open_vault w name d of
        (Inl OpenNotInit, d) \<Rightarrow> (Inl (new_error CodeNotInit), d)
      | (Inl OpenFingerprint, d) \<Rightarrow> (Inl (new_error CodeFingerprint), d)
      | (Inl OpenOther, d) \<Rightarrow> (Inl (new_error CodeInternal), d)
      | (Inr st, d) \<Rightarrow> (Inr st, d))"

definition scope_of :: "ipc_scope \<Rightarrow> vault_scope" where
  "scope_of s = \<lparr>sc_project = default_if_empty (is_project s) DefaultProjectName,
     sc_env = default_if_empty (is_env s) DefaultEnvName\<rparr>"

definition scope_for :: "world \<Rightarrow> ipc_scope \<Rightarrow> daemon \<Rightarrow> (ipc_error + vault_entry \<times> vault_scope) \<times> daemon" where
  "scope_for w s d =
     (case store_for_vault w (default_if_empty (is_vault s) DefaultVaultName) d of
        (Inl e, d) \<Rightarrow> (Inl e, d) | (Inr st, d) \<Rightarrow> (Inr (st, scope_of s), d))"

text \<open>\<open>recordScopeClash\<close>: \<open>None\<close> where the record is the contract, else what clashes.\<close>

datatype scope_clash = VaultClash string string | ProjectClash string string | EnvClash string string

definition record_scope_clash :: "trust_record \<Rightarrow> ipc_scope \<Rightarrow> string \<Rightarrow> vault_scope \<Rightarrow> scope_clash option" where
  "record_scope_clash rec pinned vaultName scope =
     (let recVault = default_if_empty (tr_vault rec) DefaultVaultName in
      if recVault \<noteq> vaultName then Some (VaultClash recVault vaultName)
      else if is_project pinned \<noteq> [] \<and> is_project pinned \<noteq> sc_project scope
        then Some (ProjectClash (is_project pinned) (sc_project scope))
      else if is_env pinned \<noteq> [] \<and> is_env pinned \<noteq> sc_env scope
        then Some (EnvClash (is_env pinned) (sc_env scope))
      else None)"

section \<open>Reconciling a changed file\<close>

definition policy_of :: "byn_file \<Rightarrow> policy" where
  "policy_of f = \<lparr>pol_vault = bf_scope_vault f, pol_project = bf_scope_project f, pol_env = bf_scope_env f,
     pol_env_grants = bf_env f, pol_actions = bf_actions f, pol_writable = bf_writable f,
     pol_aliases = bf_aliases f, pol_auth = bf_auth f\<rparr>"

definition no_policy :: policy where
  "no_policy = \<lparr>pol_vault = [], pol_project = [], pol_env = [], pol_env_grants = [], pol_actions = [],
     pol_writable = [], pol_aliases = [], pol_auth = []\<rparr>"

definition no_delta :: delta where
  "no_delta = \<lparr>dl_widenings = [], dl_narrowings = [], dl_scope_changed = False\<rparr>"

definition reconcile_changed ::
  "(bytes \<Rightarrow> byn_file option) \<Rightarrow> trust_record \<Rightarrow> bytes \<Rightarrow> policy \<times> delta \<times> bool" where
  "reconcile_changed parse rec currentBody =
     (if tr_snapshot rec = [] then (no_policy, no_delta, False)
      else case parse (tr_snapshot rec) of
        None \<Rightarrow> (no_policy, no_delta, False)
      | Some grantedFile \<Rightarrow>
          (case parse currentBody of
             None \<Rightarrow> (no_policy, no_delta, False)
           | Some currentFile \<Rightarrow>
               (let current = policy_of currentFile;
                    dl = compare_policies (policy_of grantedFile) current in
                if needs_approval dl then (current, dl, False) else (current, dl, True))))"

fun add_new :: "string list \<Rightarrow> string list \<Rightarrow> string list" where
  "add_new out [] = out"
| "add_new out (a # as) = add_new (if a \<in> set out then out else out @ [a]) as"

definition target_twins :: "string list \<Rightarrow> string \<Rightarrow> string list" where
  "target_twins baseDirs a =
     (let fs = str_fields a in
      if length fs = 0 then []
      else let target = hd fs in
        if is_abs target \<or> CHR ''/'' \<notin> set target then []
        else map (\<lambda>base. join '' '' (path_join [base, target] # tl fs)) (filter (\<lambda>base. base \<noteq> []) baseDirs))"

definition with_resolved_action_targets :: "string list \<Rightarrow> string list \<Rightarrow> string list" where
  "with_resolved_action_targets actions baseDirs =
     add_new [] (concat (map (\<lambda>a. a # target_twins baseDirs a) actions))"

definition apply_policy :: "exec_world \<Rightarrow> trust_record \<Rightarrow> policy \<Rightarrow> trust_record" where
  "apply_policy w rec p =
     (let dir = path_dir (tr_path rec);
          resolved = (case xw_eval_symlinks w dir of None \<Rightarrow> dir | Some r \<Rightarrow> r) in
      rec\<lparr>tr_actions := with_resolved_action_targets (pol_actions p) [dir, resolved], tr_auth := pol_auth p,
          tr_aliases := pol_aliases p, tr_env_grants := pol_env_grants p\<rparr>)"

text \<open>\<open>authoredEntryFor\<close>: the entry, if this caller belongs to the agent that created it.\<close>

definition authored_entry_for :: "exec_world \<Rightarrow> caller \<Rightarrow> string \<Rightarrow> vault_scope \<Rightarrow> string \<Rightarrow> authored_entry option" where
  "authored_entry_for w ci vaultName scope name =
     (case xw_authored w vaultName scope name of
        None \<Rightarrow> None
      | Some e \<Rightarrow>
          (let chain = (if length (ae_chain e) = 0 then [ae_origin e] else ae_chain e) in
           if \<not> shares_ancestry (wo_procs w) (ci_pid ci) chain then None else Some e))"

definition widening_forgiven ::
  "exec_world \<Rightarrow> caller \<Rightarrow> trust_record \<Rightarrow> string \<Rightarrow> vault_scope \<Rightarrow> (string \<times> bool) list \<Rightarrow> string \<Rightarrow> bool" where
  "widening_forgiven w ci rec vaultName scope infos name =
     (case authored_entry_for w ci vaultName scope name of
        None \<Rightarrow> False
      | Some e \<Rightarrow>
          if \<not> ae_authored e then False
          else case map_of (rev infos) name of
            None \<Rightarrow> False
          | Some own \<Rightarrow>
              if \<not> own then False
              else let grantedAt = (if tr_granted_at rec = 0 then tr_mtime rec else tr_granted_at rec)
                in grantedAt < ae_at e)"

definition forgives_self_authored ::
  "exec_world \<Rightarrow> caller \<Rightarrow> trust_record \<Rightarrow> delta \<Rightarrow> string \<Rightarrow> vault_scope \<Rightarrow> bool" where
  "forgives_self_authored w ci rec delta vaultName scope =
     (if dl_scope_changed delta \<or> length (dl_widenings delta) = 0 then False
      else if list_ex (\<lambda>x. wd_kind x \<noteq> ''env'' \<or> wd_name x = []) (dl_widenings delta) then False
      else case xw_entries w scope of
        None \<Rightarrow> False
      | Some infos \<Rightarrow> list_all (\<lambda>x. widening_forgiven w ci rec vaultName scope infos (wd_name x)) (dl_widenings delta))"

section \<open>The actions gate\<close>

definition candidates :: "exec_world \<Rightarrow> string list \<Rightarrow> string list list" where
  "candidates w argv =
     (if length argv > 0 then
        (case xw_eval_symlinks w (hd argv) of
           None \<Rightarrow> [argv]
         | Some resolved \<Rightarrow> if resolved \<noteq> hd argv then [argv, resolved # tl argv] else [argv])
      else [argv])"

definition action_admits :: "exec_world \<Rightarrow> (string \<Rightarrow> url option) \<Rightarrow> string list \<Rightarrow> string \<Rightarrow> bool" where
  "action_admits w url argv a =
     (if a = ''*'' then False
      else case parse_action_pattern (xw_compile w) a of
        Inl _ \<Rightarrow> False
      | Inr pat \<Rightarrow> list_ex (match_pattern url pat) (candidates w argv))"

definition action_matched :: "exec_world \<Rightarrow> (string \<Rightarrow> url option) \<Rightarrow> string list \<Rightarrow> string list \<Rightarrow> bool" where
  "action_matched w url actions argv = (if length argv > 0 then list_ex (action_admits w url argv) actions else False)"

text \<open>The default branch: a free command, one that was approved, or a question or a credential.\<close>

definition unmatched_gate ::
  "exec_world \<Rightarrow> registry \<Rightarrow> caller \<Rightarrow> string \<Rightarrow> string \<Rightarrow> vault_scope \<Rightarrow> exec_req \<Rightarrow> string list \<Rightarrow> string list \<Rightarrow> bool \<Rightarrow>
   daemon \<Rightarrow> ipc_error option \<times> daemon" where
  "unmatched_gate w reg ci canon vaultName scope req argv allow wildcard d =
     (if action_approved w ci vaultName scope canon (xq_command req) argv d then
        (case consume_once_grant w vaultName scope canon (xq_command req) argv d of (spent, d) \<Rightarrow>
           (None, audit_emit ci vaultName (no_event\<lparr>ev_op := ''exec.action_approved'', ev_outcome := ''ok'',
              ev_byn_path := canon,
              ev_command := join '' '' argv @ (if spent then '' (single-use grant spent)'' else [])\<rparr>) d))
      else if length (xq_password req) = 0 \<and> length (xq_presence req) = 0 then
        (case raise_action_approval w ci canon vaultName scope req argv allow wildcard d of (e, d) \<Rightarrow> (Some e, d))
      else authorize_action_always reg vaultName (xq_password req) (xq_presence req) d)"

definition actions_gate ::
  "exec_world \<Rightarrow> (string \<Rightarrow> url option) \<Rightarrow> registry \<Rightarrow> caller \<Rightarrow> string \<Rightarrow> string \<Rightarrow> vault_scope \<Rightarrow> exec_req \<Rightarrow>
   trust_record \<Rightarrow> string list \<Rightarrow> string list \<Rightarrow> bool \<Rightarrow> daemon \<Rightarrow> (ipc_error option \<times> bool) \<times> daemon" where
  "actions_gate w url reg ci canon vaultName scope req rec argv allow wildcard d =
     (if xq_force_auth req then
        (case authorize_action_always reg vaultName (xq_password req) (xq_presence req) d of (e, d) \<Rightarrow> ((e, False), d))
      else
        let execPolicy = map_at (tr_auth rec) ''exec'' in
        if execPolicy \<noteq> ''always'' \<and> execPolicy \<noteq> ''none'' then
          (if list_ex (\<lambda>a. a = ''*'') (tr_actions rec) then ((None, True), d)
           else if action_matched w url (tr_actions rec) argv then ((None, False), d)
           else case unmatched_gate w reg ci canon vaultName scope req argv allow wildcard d of (e, d) \<Rightarrow> ((e, False), d))
        else if execPolicy = ''always'' then
          (case authorize_action_always reg vaultName (xq_password req) (xq_presence req) d of (e, d) \<Rightarrow> ((e, False), d))
        else ((None, False), d))"

end
