(* ===== verification/Adhoc_Gate.thy ===== *)
theory Adhoc_Gate
  imports Exec_Gate
begin

text \<open>
  Requests that name their variables: \<open>internal/daemon/adhoc.go\<close>. The values themselves are
  opened by the vault, an argument; which names are opened, and by which key, is decided here.
\<close>

section \<open>Names and fingerprint\<close>

definition maxAdhocVars :: nat where "maxAdhocVars = 64"

datatype adhoc_error = NoVariables | InexactName string | TooManyVariables

definition adhoc_forbidden :: "char list" where
  "adhoc_forbidden = ''*?[]= '' @ [CHR 0x09, CHR 0x0D, CHR 0x0A, CHR 0x00]"

fun adhoc_vars_loop :: "string list \<Rightarrow> string list \<Rightarrow> adhoc_error + string list" where
  "adhoc_vars_loop out [] = Inr out"
| "adhoc_vars_loop out (n # ns) =
     (let n = trim_space n in
      if n = [] \<or> list_ex (\<lambda>c. c \<in> set adhoc_forbidden) n then Inl (InexactName n)
      else if n \<in> set out then adhoc_vars_loop out ns
      else adhoc_vars_loop (out @ [n]) ns)"

definition adhoc_vars :: "string list \<Rightarrow> adhoc_error + string list" where
  "adhoc_vars xs =
     (if length xs = 0 then Inl NoVariables
      else case adhoc_vars_loop [] xs of
        Inl e \<Rightarrow> Inl e
      | Inr out \<Rightarrow> if maxAdhocVars < length out then Inl TooManyVariables else Inr (sort out))"

definition adhoc_subject :: "exec_world \<Rightarrow> caller \<Rightarrow> exec_req \<Rightarrow> string" where
  "adhoc_subject w ci req =
     (if xw_cwd w (ci_pid ci) \<noteq> [] then xw_canonicalize w (xw_cwd w (ci_pid ci))
      else if xq_cwd req \<noteq> [] then xw_canonicalize w (xq_cwd req)
      else [])"

definition adhoc_approval_key ::
  "hash_fn \<Rightarrow> string \<Rightarrow> vault_scope \<Rightarrow> string \<Rightarrow> string list \<Rightarrow> string list \<Rightarrow> string \<times> string list \<times> string" where
  "adhoc_approval_key sha256 vaultName scope subject argv vars =
     (let cmd = cap_text 200 (join '' '' argv); summary = [''runs '' @ cmd] in
      (cmd, summary, policy_hash sha256 \<lparr>pol_vault = default_if_empty vaultName DefaultVaultName,
         pol_project = subject, pol_env = vault_scope_label scope, pol_env_grants = vars,
         pol_actions = [join [CHR 0x1F] argv], pol_writable = [], pol_aliases = [], pol_auth = []\<rparr>))"

section \<open>Values\<close>

definition as_values :: "code + exec_values \<Rightarrow> ipc_error + exec_values" where
  "as_values r = (case r of Inl c \<Rightarrow> Inl (new_error c) | Inr vs \<Rightarrow> Inr vs)"

definition adhoc_values ::
  "exec_world \<Rightarrow> vault_entry \<Rightarrow> vault_scope \<Rightarrow> string list \<Rightarrow> bytes \<Rightarrow> ipc_error + exec_values" where
  "adhoc_values w st scope vars blob =
     (if length blob > 0 then as_values (xw_capability w scope blob (Some vars))
      else if \<not> ve_locked st then as_values (xw_from_vault_key w scope vars False)
      else Inl (new_error CodeLocked))"

definition adhoc_values_now ::
  "exec_world \<Rightarrow> vault_entry \<Rightarrow> vault_scope \<Rightarrow> string list \<Rightarrow> bytes \<Rightarrow> ipc_error + exec_values" where
  "adhoc_values_now w st scope vars password =
     (if \<not> ve_locked st then as_values (xw_from_vault_key w scope vars False)
      else if length password = 0 then Inl (new_error CodeLocked)
      else case xw_seal w scope vars password of
        Inl c \<Rightarrow> Inl (new_error c)
      | Inr blob \<Rightarrow> if length blob = 0 then Inr [] else as_values (xw_capability w scope blob (Some vars)))"

section \<open>The gate\<close>

definition adhoc_raise_event :: "vault_scope \<Rightarrow> string \<Rightarrow> string list \<Rightarrow> string list \<Rightarrow> request \<Rightarrow> event" where
  "adhoc_raise_event scope subject summary vars pending = no_event\<lparr>ev_op := ''approval.raise'', ev_outcome := ''pending'',
     ev_project := sc_project scope, ev_env := sc_env scope, ev_byn_path := subject,
     ev_command := ''ad hoc approval raised '' @ rq_id pending @ '': '' @ join ''; '' summary @
       '' (gets '' @ join '', '' vars @ '')'' @ audit_reason pending\<rparr>"

definition raise_adhoc ::
  "exec_world \<Rightarrow> caller \<Rightarrow> string \<Rightarrow> vault_scope \<Rightarrow> exec_req \<Rightarrow> string \<Rightarrow> string \<Rightarrow> string list \<Rightarrow> string \<times> string list \<times> string \<Rightarrow>
   daemon \<Rightarrow> ipc_error \<times> daemon" where
  "raise_adhoc w ci vaultName scope req canon subject vars key d =
     (case key of (cmd, summary, fp) \<Rightarrow>
      (case xw_ticket w of
         Inl _ \<Rightarrow> (new_error CodeInternal, d)
       | Inr (ticket, watchHash) \<Rightarrow>
           (case requestor_of w ci vaultName req d of (ro, d) \<Rightarrow>
              let ro = (if ro_cwd ro = [] then ro\<lparr>ro_cwd := subject\<rparr> else ro) in
              enqueue_and_report w ci vaultName
                ((blank_request KindAdhoc ro)\<lparr>rq_watch_hash := watchHash, rq_vault := vaultName,
                   rq_project := sc_project scope, rq_env := sc_env scope, rq_subject := subject, rq_fingerprint := fp,
                   rq_summary := summary, rq_gets := vars, rq_beside := canon, rq_high_risk := (canon \<noteq> []),
                   rq_reason := request_reason (xq_reason req),
                   rq_needed_by := needed_by (wo_now w) (xq_wait_seconds req), rq_ask_once := xq_ask_once req\<rparr>)
                cmd ticket (adhoc_raise_event scope subject summary vars) d)))"

definition adhoc_on_grant ::
  "exec_world \<Rightarrow> caller \<Rightarrow> string \<Rightarrow> vault_scope \<Rightarrow> vault_entry \<Rightarrow> exec_req \<Rightarrow> string \<Rightarrow> string list \<Rightarrow> string \<Rightarrow> string \<Rightarrow> request \<Rightarrow>
   daemon \<Rightarrow> (ipc_error + string list \<times> string list \<times> exec_values) \<times> daemon" where
  "adhoc_on_grant w ci vaultName scope st req subject vars cmd fp grant d =
     (case adhoc_values w st scope vars (rq_capability grant) of
        Inl e \<Rightarrow> (Inl e, d)
      | Inr values \<Rightarrow>
          (case consume_once (xw_queue_io w CallConsume) (wo_now w) subject fp (dm_queue d) of (res, q) \<Rightarrow>
             let spent = (case res of Inl _ \<Rightarrow> False | Inr b \<Rightarrow> b) in
             (Inr (vars, xq_argv req, values),
              audit_emit ci vaultName (no_event\<lparr>ev_op := ''exec.adhoc_approved'', ev_outcome := ''ok'',
                ev_project := sc_project scope, ev_env := sc_env scope, ev_byn_path := subject,
                ev_command := cmd @ '' (gets '' @ join '', '' vars @ '')'' @
                  (if spent then '' (single-use grant spent)'' else [])\<rparr>)
                (d\<lparr>dm_queue := q\<rparr>))))"

definition authorize_adhoc ::
  "exec_world \<Rightarrow> registry \<Rightarrow> caller \<Rightarrow> exec_req \<Rightarrow> vault_entry \<Rightarrow> vault_scope \<Rightarrow> string \<Rightarrow> string \<Rightarrow> daemon \<Rightarrow>
   (ipc_error + string list \<times> string list \<times> exec_values) \<times> daemon" where
  "authorize_adhoc w reg ci req st scope vaultName canon d =
     (case adhoc_vars (xq_vars req) of
        Inl _ \<Rightarrow> (Inl (new_error CodeBadRequest), d)
      | Inr vars \<Rightarrow>
          if xq_alias req \<noteq> [] then (Inl (new_error CodeBadRequest), d)
          else if length (xq_argv req) = 0 then (Inl (new_error CodeBadRequest), d)
          else
            let subject = adhoc_subject w ci req in
            if subject = [] then (Inl (new_error CodeBadRequest), d)
            else
              (case adhoc_approval_key (wo_sha256 w) vaultName scope subject (xq_argv req) vars of (cmd, summary, fp) \<Rightarrow>
               (case action_grant_request (xw_queue_io w CallGrant) (wo_now w) subject fp
                       (Some (grant_usable_by (wo_procs w) (ci_pid ci))) (dm_queue d) of
                  Inr (Some grant) \<Rightarrow> adhoc_on_grant w ci vaultName scope st req subject vars cmd fp grant d
                | _ \<Rightarrow>
                    if length (xq_password req) > 0 \<or> length (xq_presence req) > 0 then
                      (case authorize_action_always reg vaultName (xq_password req) (xq_presence req) d of
                         (Some e, d) \<Rightarrow> (Inl e, d)
                       | (None, d) \<Rightarrow>
                           (case adhoc_values_now w st scope vars (xq_password req) of
                              Inl e \<Rightarrow> (Inl e, d) | Inr values \<Rightarrow> (Inr (vars, xq_argv req, values), d)))
                    else
                      (case last_denial (xw_queue_io w CallDenial) subject fp (dm_queue d) of
                         Some denial \<Rightarrow>
                           if \<not> xq_force_ask req then (Inl (denial_error denial ''cwd'' subject cmd), d)
                           else (case raise_adhoc w ci vaultName scope req canon subject vars (cmd, summary, fp) d of
                                   (e, d) \<Rightarrow> (Inl e, d))
                       | None \<Rightarrow>
                           (case raise_adhoc w ci vaultName scope req canon subject vars (cmd, summary, fp) d of
                              (e, d) \<Rightarrow> (Inl e, d))))))"

end
