(* ===== verification/Exec_Flow.thy ===== *)
theory Exec_Flow
  imports Adhoc_Gate
begin

text \<open>
  \<open>authorizeExec\<close> and \<open>handleExecFetch\<close> of \<open>internal/daemon/execfetch.go\<close>, put together from the
  gates: the early refusals, the request on a trusted file, the request for the whole scope,
  and the report of what was and was not delivered. An error of the trusted path carries the
  command label under which it is audited, which changes when an alias is expanded.
\<close>

section \<open>The trusted file\<close>

definition read_byn_file :: "exec_world \<Rightarrow> string \<Rightarrow> bool + bytes \<times> int" where
  "read_byn_file w path =
     (case xw_read w path of
        Inl denied \<Rightarrow> Inl denied
      | Inr (body, mtime) \<Rightarrow> if MaxSize < int (length body) then Inl False else Inr (body, mtime))"

definition pinned_scope :: "exec_world \<Rightarrow> bytes \<Rightarrow> ipc_scope" where
  "pinned_scope w body =
     (case xw_parse w body of
        None \<Rightarrow> \<lparr>is_vault = [], is_project = [], is_env = []\<rparr>
      | Some f \<Rightarrow> \<lparr>is_vault = bf_scope_vault f, is_project = bf_scope_project f, is_env = bf_scope_env f\<rparr>)"

definition effective_scope :: "trust_record \<Rightarrow> ipc_scope \<Rightarrow> ipc_scope \<Rightarrow> string \<Rightarrow> vault_scope \<Rightarrow> vault_scope" where
  "effective_scope rec pinned asked vaultName scope =
     (if default_if_empty (tr_vault rec) DefaultVaultName = vaultName then
        let scope = (if is_project asked = [] \<and> is_project pinned \<noteq> [] then scope\<lparr>sc_project := is_project pinned\<rparr> else scope)
        in (if is_env asked = [] \<and> is_env pinned \<noteq> [] then scope\<lparr>sc_env := is_env pinned\<rparr> else scope)
      else scope)"

definition record_scope :: "trust_record \<Rightarrow> vault_scope" where
  "record_scope rec = \<lparr>sc_project = default_if_empty (tr_scope_project rec) DefaultProjectName,
     sc_env = default_if_empty (tr_scope_env rec) DefaultEnvName\<rparr>"

text \<open>The handling of \<open>VerifyChanged\<close>: the record to go on with, or the error raised instead.\<close>

definition reconcile_step ::
  "exec_world \<Rightarrow> caller \<Rightarrow> string \<Rightarrow> string \<Rightarrow> vault_scope \<Rightarrow> exec_req \<Rightarrow> bytes \<Rightarrow> verify_status \<times> trust_record \<Rightarrow> daemon \<Rightarrow>
   (ipc_error + verify_status \<times> trust_record) \<times> daemon" where
  "reconcile_step w ci canon vaultName scope req body sr d =
     (case sr of (status, rec) \<Rightarrow>
      if status \<noteq> VerifyChanged then (Inr (status, rec), d)
      else case reconcile_changed (xw_parse w) rec body of (eff, dl, within) \<Rightarrow>
        if within then (Inr (VerifyTrusted, apply_policy w rec eff), d)
        else if forgives_self_authored w ci rec dl vaultName (record_scope rec) then
          (Inr (VerifyTrusted, apply_policy w rec eff),
           audit_emit ci vaultName (no_event\<lparr>ev_project := tr_scope_project rec, ev_env := tr_scope_env rec,
             ev_byn_path := canon, ev_op := ''trust_self_authored_grant'', ev_outcome := ''ok''\<rparr>) d)
        else if needs_approval dl then
          (case raise_trust_approval w ci canon vaultName scope req dl d of (e, d) \<Rightarrow> (Inl e, d))
        else (Inr (status, rec), d))"

definition alias_label :: "string \<Rightarrow> string list \<Rightarrow> string" where
  "alias_label name argv = cap_text 200 (''alias '' @ name @ '' '' @ right_arrow @ '' '' @ join '' '' argv)"

definition resolve_argv :: "trust_record \<Rightarrow> exec_req \<Rightarrow> ipc_error + (string list \<times> string)" where
  "resolve_argv rec req =
     (if xq_alias req = [] then Inr (xq_argv req, xq_command req)
      else case map_get (tr_aliases rec) (xq_alias req) of
        None \<Rightarrow> Inl (new_error CodeNotFound)
      | Some v \<Rightarrow> (let argv = str_fields v @ xq_argv req in Inr (argv, alias_label (xq_alias req) argv)))"

text \<open>\<open>snapshotEnvAllowlist\<close>: the declared names, \<open>None\<close> for everything in the scope.\<close>

definition snapshot_env_allowlist :: "(bytes \<Rightarrow> byn_file option) \<Rightarrow> trust_record \<Rightarrow> string list option" where
  "snapshot_env_allowlist parse rec =
     (if length (tr_env_grants rec) > 0 then
        (if ''*'' \<in> set (tr_env_grants rec) then None else Some (tr_env_grants rec))
      else if tr_snapshot rec = [] then Some []
      else case parse (tr_snapshot rec) of
        None \<Rightarrow> Some []
      | Some f \<Rightarrow> if allows_all f then None else Some (bf_env f))"

definition trusted_values ::
  "exec_world \<Rightarrow> vault_entry \<Rightarrow> vault_scope \<Rightarrow> trust_record \<Rightarrow> string list \<Rightarrow> bool \<Rightarrow> bool \<Rightarrow> ipc_error + exec_values" where
  "trusted_values w st scope rec allow wildcard noneDeclared =
     (if noneDeclared then Inr []
      else if length (tr_exec_capability rec) > 0 then
        as_values (xw_capability w scope (tr_exec_capability rec) (snapshot_env_allowlist (xw_parse w) rec))
      else if \<not> ve_locked st then as_values (xw_from_vault_key w scope allow wildcard)
      else Inl (new_error CodeLocked))"

record run_grant =
  rg_scope :: vault_scope
  rg_argv :: "string list"
  rg_allow :: "string list"
  rg_optional :: "string list"
  rg_wildcard :: bool
  rg_none_declared :: bool
  rg_actions_wildcard :: bool
  rg_values :: exec_values
  rg_audit_cmd :: string

text \<open>From a record that may be used to the values of the run: parse, alias, actions, values.\<close>

definition run_on_record ::
  "exec_world \<Rightarrow> (string \<Rightarrow> url option) \<Rightarrow> registry \<Rightarrow> caller \<Rightarrow> exec_req \<Rightarrow> vault_entry \<Rightarrow> string \<Rightarrow> string \<Rightarrow>
   vault_scope \<Rightarrow> bytes \<Rightarrow> trust_record \<Rightarrow> daemon \<Rightarrow> (string \<times> ipc_error + run_grant) \<times> daemon" where
  "run_on_record w url reg ci req st canon vaultName scope body rec d =
     (case xw_parse w body of
        None \<Rightarrow> (Inl (xq_command req, new_error CodeBadRequest), d)
      | Some f \<Rightarrow>
          let allow = bf_env f; wildcard = allows_all f; noneDeclared = (\<not> wildcard \<and> length allow = 0) in
          (case resolve_argv rec req of
             Inl e \<Rightarrow> (Inl (xq_command req, e), d)
           | Inr (argv, cmd) \<Rightarrow>
               (case actions_gate w url reg ci canon vaultName scope req rec argv allow wildcard d of
                  ((Some e, _), d) \<Rightarrow> (Inl (cmd, e), d)
                | ((None, actionsWild), d) \<Rightarrow>
                    (case trusted_values w st scope rec allow wildcard noneDeclared of
                       Inl e \<Rightarrow> (Inl (cmd, e), d)
                     | Inr values \<Rightarrow>
                         (Inr \<lparr>rg_scope = scope, rg_argv = argv, rg_allow = allow, rg_optional = bf_optional f,
                            rg_wildcard = wildcard, rg_none_declared = noneDeclared, rg_actions_wildcard = actionsWild,
                            rg_values = values, rg_audit_cmd = cmd\<rparr>, d)))))"

definition vk_key :: "vault_entry \<Rightarrow> code + bytes option" where
  "vk_key st = (if \<not> ve_locked st then (case ve_subkey st of Inl c \<Rightarrow> Inl c | Inr k \<Rightarrow> Inr (Some k)) else Inr None)"

text \<open>The decision on a record that was found: scope, reconciliation, status, then the run.\<close>

definition decide_on_record ::
  "exec_world \<Rightarrow> (string \<Rightarrow> url option) \<Rightarrow> registry \<Rightarrow> caller \<Rightarrow> exec_req \<Rightarrow> vault_entry \<Rightarrow> string \<Rightarrow> string \<Rightarrow>
   vault_scope \<Rightarrow> bytes \<Rightarrow> verify_status \<times> trust_record \<Rightarrow> daemon \<Rightarrow> (string \<times> ipc_error + run_grant) \<times> daemon" where
  "decide_on_record w url reg ci req st canon vaultName scope body sr d =
     (let rec = snd sr; pinned = pinned_scope w body;
          scope = (if tr_path rec \<noteq> [] then effective_scope rec pinned (xq_scope req) vaultName scope else scope) in
      if tr_path rec \<noteq> [] \<and> record_scope_clash rec pinned vaultName scope \<noteq> None
        then (Inl (xq_command req, new_error CodeTrustDenied), d)
      else case reconcile_step w ci canon vaultName scope req body sr d of
        (Inl e, d) \<Rightarrow> (Inl (xq_command req, e), d)
      | (Inr (status, rec), d) \<Rightarrow>
          if status \<noteq> VerifyTrusted then (Inl (xq_command req, new_error CodeTrustDenied), d)
          else if tr_path rec = [] then (Inl (xq_command req, new_error CodeTrustDenied), d)
          else run_on_record w url reg ci req st canon vaultName scope body rec d)"

definition trusted_exec ::
  "exec_world \<Rightarrow> (string \<Rightarrow> url option) \<Rightarrow> registry \<Rightarrow> caller \<Rightarrow> exec_req \<Rightarrow> vault_entry \<Rightarrow> string \<Rightarrow> string \<Rightarrow>
   vault_scope \<Rightarrow> daemon \<Rightarrow> (string \<times> ipc_error + run_grant) \<times> daemon" where
  "trusted_exec w url reg ci req st canon vaultName scope d =
     (case read_byn_file w canon of
        Inl _ \<Rightarrow> (Inl (xq_command req, new_error CodeTrustDenied), d)
      | Inr (body, currentMTime) \<Rightarrow>
          (case vk_key st of
             Inl c \<Rightarrow> (Inl (xq_command req, new_error c), d)
           | Inr vkKey \<Rightarrow>
               (case verify (wo_sha256 w) (wo_hmac w) (wo_trust_io w) (wo_trust w) canon
                       (trust_hash (wo_sha256 w) body) currentMTime (wo_fp_key w) vkKey of
                  Inl _ \<Rightarrow> (Inl (xq_command req, new_error CodeInternal), d)
                | Inr (status, _, None) \<Rightarrow> (Inl (xq_command req, new_error CodeTrustDenied), d)
                | Inr (status, _, Some rec) \<Rightarrow>
                    decide_on_record w url reg ci req st canon vaultName scope body (status, rec) d)))"

section \<open>The report\<close>

definition missing_allowlisted :: "string list \<Rightarrow> string list \<Rightarrow> bool \<Rightarrow> exec_values \<Rightarrow> string list" where
  "missing_allowlisted allow optional wildcard values =
     (if wildcard \<or> length allow = 0 then []
      else sort (filter (\<lambda>n. n \<noteq> ''*'' \<and> n \<notin> set optional \<and> n \<notin> fst ` set values) allow))"

definition wildcard_not_delivered :: "exec_world \<Rightarrow> vault_scope \<Rightarrow> string list \<Rightarrow> exec_values \<Rightarrow> string list" where
  "wildcard_not_delivered w scope optional values =
     (case xw_entries w scope of
        None \<Rightarrow> []
      | Some infos \<Rightarrow> filter (\<lambda>n. n \<notin> fst ` set values \<and> n \<notin> set optional) (map fst infos))"

definition unreachable_suffix :: string where
  "unreachable_suffix = '' (value exists '' @ em_dash @ '' re-trust the .byn to reach it)''"

definition inherited_unattended_suffix :: string where
  "inherited_unattended_suffix =
     '' (stored unattended in default '' @ em_dash @ '' run: byn import --unattended --env default)''"

definition split_unreachable :: "exec_world \<Rightarrow> vault_scope \<Rightarrow> string list \<Rightarrow> string list" where
  "split_unreachable w scope missing = map (\<lambda>n.
     if xw_origin w scope n = Some (True, True) then n @ inherited_unattended_suffix
     else if xw_has_var w scope n then n @ unreachable_suffix
     else n) missing"

definition invented_names :: "exec_world \<Rightarrow> string \<Rightarrow> vault_scope \<Rightarrow> exec_values \<Rightarrow> string list" where
  "invented_names w vaultName scope values =
     sort (filter (\<lambda>n. n \<in> set (xw_unattended w vaultName scope) \<or> xw_origin w scope n = Some (True, True)) (map fst values))"

definition exec_run_command :: "exec_req \<Rightarrow> string list \<Rightarrow> string" where
  "exec_run_command req argv =
     (let cmd = join '' '' argv; cmd = (if cmd = [] then xq_command req else cmd) in cap_text 500 cmd)"

definition record_exec_run ::
  "exec_world \<Rightarrow> caller \<Rightarrow> exec_req \<Rightarrow> string list \<Rightarrow> exec_values \<Rightarrow> string list \<Rightarrow> daemon \<Rightarrow> daemon" where
  "record_exec_run w ci req argv values unattended d =
     (let path = xw_canonicalize w (xq_path req);
          d = emit (RunRecorded path (exec_run_command req argv) (map fst values) unattended) d in
      case xw_run_error w of
        None \<Rightarrow> d
      | Some e \<Rightarrow> audit_emit ci (default_if_empty (is_vault (xq_scope req)) DefaultVaultName)
          (no_event\<lparr>ev_op := ''exec.run_record'', ev_outcome := ''error'', ev_byn_path := path, ev_error_code := e\<rparr>) d)"

definition audit_exec :: "caller \<Rightarrow> string \<Rightarrow> string \<Rightarrow> string \<Rightarrow> ipc_error option \<Rightarrow> daemon \<Rightarrow> daemon" where
  "audit_exec ci vaultName canon cmd e d =
     audit_emit ci vaultName (no_event\<lparr>ev_op := ''exec'', ev_outcome := fst (outcome_for e), ev_byn_path := canon,
       ev_command := cmd, ev_error_code := snd (outcome_for e)\<rparr>) d"

section \<open>The request\<close>

record exec_result =
  xr_values :: exec_values
  xr_argv :: "string list"
  xr_wildcard :: bool
  xr_none_declared :: bool
  xr_actions_wildcard :: bool
  xr_missing :: "string list"
  xr_unattended :: "string list"

definition finish_exec ::
  "exec_world \<Rightarrow> caller \<Rightarrow> exec_req \<Rightarrow> string \<Rightarrow> string \<Rightarrow> run_grant \<Rightarrow> daemon \<Rightarrow> exec_result \<times> daemon" where
  "finish_exec w ci req vaultName canon g d =
     (let d = touch_vault (is_vault (xq_scope req)) d;
          d = audit_exec ci vaultName canon (rg_audit_cmd g) None d;
          invented = invented_names w vaultName (rg_scope g) (rg_values g);
          d = record_exec_run w ci req (rg_argv g) (rg_values g) invented d;
          missing = (if rg_wildcard g \<and> \<not> rg_none_declared g
            then wildcard_not_delivered w (rg_scope g) (rg_optional g) (rg_values g)
            else missing_allowlisted (rg_allow g) (rg_optional g) (rg_wildcard g) (rg_values g)) in
      (\<lparr>xr_values = rg_values g, xr_argv = rg_argv g, xr_wildcard = rg_wildcard g,
        xr_none_declared = rg_none_declared g, xr_actions_wildcard = rg_actions_wildcard g,
        xr_missing = split_unreachable w (rg_scope g) missing, xr_unattended = invented\<rparr>, d))"

text \<open>A request for the whole scope, with no file and no names: fresh credentials, always.\<close>

definition whole_scope_exec ::
  "exec_world \<Rightarrow> registry \<Rightarrow> exec_req \<Rightarrow> string \<Rightarrow> vault_scope \<Rightarrow> daemon \<Rightarrow> (string \<times> ipc_error + run_grant) \<times> daemon" where
  "whole_scope_exec w reg req vaultName scope d =
     (if length (xq_password req) = 0 \<and> length (xq_presence req) = 0
        then (Inl (xq_command req, new_error CodeAuthRequired), d)
      else case authorize_action_always reg vaultName (xq_password req) (xq_presence req) d of
        (Some e, d) \<Rightarrow> (Inl (xq_command req, e), d)
      | (None, d) \<Rightarrow>
          (case as_values (xw_from_vault_key w scope [] True) of
             Inl e \<Rightarrow> (Inl (xq_command req, e), d)
           | Inr values \<Rightarrow>
               (Inr \<lparr>rg_scope = scope, rg_argv = [], rg_allow = [], rg_optional = [], rg_wildcard = False,
                  rg_none_declared = False, rg_actions_wildcard = False, rg_values = values,
                  rg_audit_cmd = xq_command req\<rparr>, d)))"

definition exec_paths ::
  "exec_world \<Rightarrow> (string \<Rightarrow> url option) \<Rightarrow> registry \<Rightarrow> caller \<Rightarrow> exec_req \<Rightarrow> vault_entry \<Rightarrow> string \<Rightarrow> string \<Rightarrow>
   vault_scope \<Rightarrow> daemon \<Rightarrow> (string \<times> ipc_error + run_grant) \<times> daemon" where
  "exec_paths w url reg ci req st canon vaultName scope d =
     (let adhoc = (length (xq_vars req) > 0) in
      if \<not> adhoc \<and> xq_path req = [] \<and> ve_locked st then (Inl (xq_command req, new_error CodeLocked), d)
      else if xq_alias req \<noteq> [] \<and> xq_path req = [] then (Inl (xq_command req, new_error CodeBadRequest), d)
      else if adhoc then
        (case authorize_adhoc w reg ci req st scope vaultName canon d of
           (Inl e, d) \<Rightarrow> (Inl (xq_command req, e), d)
         | (Inr (vars, argv, values), d) \<Rightarrow>
             (Inr \<lparr>rg_scope = scope, rg_argv = argv, rg_allow = vars, rg_optional = [], rg_wildcard = False,
                rg_none_declared = False, rg_actions_wildcard = False, rg_values = values,
                rg_audit_cmd = xq_command req\<rparr>, d))
      else if xq_path req \<noteq> [] then trusted_exec w url reg ci req st canon vaultName scope d
      else whole_scope_exec w reg req vaultName scope d)"

definition authorize_exec ::
  "exec_world \<Rightarrow> (string \<Rightarrow> url option) \<Rightarrow> registry \<Rightarrow> caller \<Rightarrow> exec_req \<Rightarrow> daemon \<Rightarrow> (ipc_error + exec_result) \<times> daemon" where
  "authorize_exec w url reg ci req d =
     (case scope_for (world.truncate w) (xq_scope req) d of
        (Inl e, d) \<Rightarrow> (Inl e, d)
      | (Inr (st, scope), d) \<Rightarrow>
          let vaultName = default_if_empty (is_vault (xq_scope req)) DefaultVaultName;
              canon = (if xq_path req \<noteq> [] then xw_canonicalize w (xq_path req) else []) in
          (case exec_paths w url reg ci req st canon vaultName scope d of
             (Inl (cmd, e), d) \<Rightarrow> (Inl e, audit_exec ci vaultName canon cmd (Some e) d)
           | (Inr g, d) \<Rightarrow> (case finish_exec w ci req vaultName canon g d of (r, d) \<Rightarrow> (Inr r, d))))"

definition grant_expiry_for :: "exec_world \<Rightarrow> caller \<Rightarrow> exec_req \<Rightarrow> string list \<Rightarrow> daemon \<Rightarrow> int" where
  "grant_expiry_for w ci req argv d =
     (let vaultName = default_if_empty (is_vault (xq_scope req)) DefaultVaultName in
      if length (xq_vars req) > 0 then
        (case adhoc_vars (xq_vars req) of
           Inl _ \<Rightarrow> 0
         | Inr vars \<Rightarrow>
             let subject = adhoc_subject w ci req in
             if subject = [] then 0
             else
               (case action_grant_for (xw_queue_io w CallExpiry) (wo_now w) subject
                       (snd (snd (adhoc_approval_key (wo_sha256 w) vaultName (scope_of (xq_scope req)) subject (xq_argv req) vars)))
                       (Some (grant_usable_by (wo_procs w) (ci_pid ci))) (dm_queue d) of
                  Inl _ \<Rightarrow> 0
                | Inr (granted, until) \<Rightarrow> if \<not> granted then 0 else unix_seconds until))
      else if xq_path req = [] then 0
      else
        (case action_approved_until w CallExpiry ci vaultName (scope_of (xq_scope req))
                (xw_canonicalize w (xq_path req)) (xq_command req) argv d of
           None \<Rightarrow> 0 | Some until \<Rightarrow> unix_seconds until))"

definition handle_exec_fetch ::
  "exec_world \<Rightarrow> (string \<Rightarrow> url option) \<Rightarrow> registry \<Rightarrow> caller \<Rightarrow> exec_req \<Rightarrow> daemon \<Rightarrow> (ipc_error + exec_result \<times> int) \<times> daemon" where
  "handle_exec_fetch w url reg ci req d =
     (case authorize_exec w url reg ci req d of
        (Inl e, d) \<Rightarrow> (Inl e, d)
      | (Inr r, d) \<Rightarrow> (Inr (r, grant_expiry_for w ci req (xr_argv r) d), d))"

end
