(* ===== verification/Exec_Props.thy ===== *)
theory Exec_Props
  imports Exec_Flow Action_Claims Auth_Claims Trust_Claims
begin

text \<open>
  Lemmas about the stages of an exec authorization: what each gate asks for, what each stage
  leaves alone, and what a success of the whole says about every stage.
\<close>

section \<open>What the stages leave alone\<close>

lemma touch_vault_keeps [simp]:
  "dm_limiter (touch_vault v d) = dm_limiter d" "dm_presence (touch_vault v d) = dm_presence d"
  "dm_sessions (touch_vault v d) = dm_sessions d" "dm_queue (touch_vault v d) = dm_queue d"
  "dm_vaults (touch_vault v d) = dm_vaults d"
  by (auto simp: touch_vault_def emit_def Let_def split: option.splits)

lemma open_vault_again [simp]: "fst (open_vault w v (snd (open_vault w v d))) = fst (open_vault w v d)"
  by (auto simp: open_vault_def lookup_vault_def split: option.splits sum.splits)

lemma open_vault_vaults: "dm_vaults d = dm_vaults d' \<Longrightarrow> fst (open_vault w v d) = fst (open_vault w v d')"
  by (auto simp: open_vault_def lookup_vault_def split: option.splits sum.splits)

lemma fresh_credential_cong:
  "dm_vaults d = dm_vaults d' \<Longrightarrow> dm_limiter d = dm_limiter d' \<Longrightarrow> dm_presence d = dm_presence d' \<Longrightarrow>
   fresh_credential w v pw tok d = fresh_credential w v pw tok d'"
  using open_vault_vaults [of d d' w v] by (simp add: fresh_credential_def)

lemma fresh_credential_opened [simp]:
  "fresh_credential w v pw tok (snd (open_vault w v d)) = fresh_credential w v pw tok d"
  by (simp add: fresh_credential_def)

lemma fresh_credential_given: "fresh_credential w v pw tok d \<Longrightarrow> pw \<noteq> [] \<or> tok \<noteq> []"
  by (auto simp: fresh_credential_def split: if_splits)

section \<open>The actions gate, exactly\<close>

text \<open>
  What lets a command of a trusted file run: a fresh credential, or, unless the caller asked to
  be checked, the file's policy, a pinned action, or a live grant for the command.
\<close>

definition command_allowed ::
  "exec_world \<Rightarrow> (string \<Rightarrow> url option) \<Rightarrow> caller \<Rightarrow> string \<Rightarrow> string \<Rightarrow> vault_scope \<Rightarrow> exec_req \<Rightarrow> trust_record \<Rightarrow>
   string list \<Rightarrow> daemon \<Rightarrow> bool" where
  "command_allowed w url ci canon v scope req rec argv d \<longleftrightarrow>
     fresh_credential (world.truncate w) (default_if_empty v DefaultVaultName) (xq_password req) (xq_presence req) d \<or>
     (\<not> xq_force_auth req \<and>
       (map_at (tr_auth rec) ''exec'' = ''none'' \<or>
        (map_at (tr_auth rec) ''exec'' \<noteq> ''always'' \<and>
          (''*'' \<in> set (tr_actions rec) \<or> action_matched w url (tr_actions rec) argv \<or>
           action_approved w ci v scope canon (xq_command req) argv d))))"

abbreviation exec_providers :: "exec_world \<Rightarrow> caller \<Rightarrow> registry" where
  "exec_providers w ci \<equiv> built_in_providers (world.truncate w) ci"

lemma unmatched_gate_iff:
  "fst (unmatched_gate w (exec_providers w ci) ci canon v scope req argv allow wild d) = None \<longleftrightarrow>
   action_approved w ci v scope canon (xq_command req) argv d \<or>
   fresh_credential (world.truncate w) (default_if_empty v DefaultVaultName) (xq_password req) (xq_presence req) d"
  using fresh_credential_given [of "world.truncate w" "default_if_empty v DefaultVaultName" "xq_password req" "xq_presence req" d]
  by (auto simp: unmatched_gate_def authorize_always_iff split: prod.splits)

lemma actions_gate_iff:
  "fst (fst (actions_gate w url (exec_providers w ci) ci canon v scope req rec argv allow wild d)) = None \<longleftrightarrow>
   command_allowed w url ci canon v scope req rec argv d"
proof -
  have wild: "list_ex (\<lambda>a. a = ''*'') xs \<longleftrightarrow> ''*'' \<in> set xs" for xs by (auto simp: list_ex_iff)
  have fst2: "fst (fst (case p of (e, d) \<Rightarrow> ((e, b), d))) = fst p" for p :: "ipc_error option \<times> daemon" and b
    by (cases p) simp
  show ?thesis
    by (auto simp: actions_gate_def command_allowed_def Let_def wild fst2 authorize_always_iff unmatched_gate_iff)
qed

section \<open>A record that may be used\<close>

text \<open>
  The record found for the file, and the one the run goes by: the same where the seal was
  checked, the file's own policy where the file changed within the grant or by what the caller
  created itself.
\<close>

definition usable_record ::
  "exec_world \<Rightarrow> caller \<Rightarrow> string \<Rightarrow> bytes \<Rightarrow> int \<Rightarrow> bytes option \<Rightarrow> trust_record \<Rightarrow> trust_record \<Rightarrow> bool" where
  "usable_record w ci v body mtime vkKey rec rec' \<longleftrightarrow>
     (let st = fst (verify_record (wo_sha256 w) (wo_hmac w) (trust_hash (wo_sha256 w) body) mtime (wo_fp_key w) vkKey rec) in
      (st = VerifyTrusted \<and> rec' = rec) \<or>
      (st = VerifyChanged \<and> (\<exists>g f. xw_parse w (tr_snapshot rec) = Some g \<and> xw_parse w body = Some f \<and>
         rec' = apply_policy w rec (policy_of f) \<and>
         (within (policy_of g) (policy_of f) \<or>
          forgives_self_authored w ci rec (compare_policies (policy_of g) (policy_of f)) v (record_scope rec)))))"

lemma needs_approval_within: "needs_approval (compare_policies g r) \<longleftrightarrow> \<not> within g r"
  by (simp add: needs_approval_def compare_policies_def Let_def widenings_Nil within_def)

lemma forgives_nothing [simp]: "\<not> forgives_self_authored w ci rec no_delta v sc"
  by (simp add: forgives_self_authored_def no_delta_def)

lemma reconcile_step_ok:
  assumes "reconcile_step w ci canon v scope req body (status, rec) d = (Inr (VerifyTrusted, rec'), d')"
  shows "((status = VerifyTrusted \<and> rec' = rec) \<or>
      (status = VerifyChanged \<and> (\<exists>g f. xw_parse w (tr_snapshot rec) = Some g \<and> xw_parse w body = Some f \<and>
         rec' = apply_policy w rec (policy_of f) \<and>
         (within (policy_of g) (policy_of f) \<or>
          forgives_self_authored w ci rec (compare_policies (policy_of g) (policy_of f)) v (record_scope rec))))) \<and>
    dm_queue d' = dm_queue d \<and> dm_vaults d' = dm_vaults d \<and> dm_limiter d' = dm_limiter d \<and> dm_presence d' = dm_presence d"
proof (cases "status = VerifyChanged")
  case False
  then show ?thesis using assms by (auto simp: reconcile_step_def split: if_splits)
next
  case True
  obtain eff dl ok where r: "reconcile_changed (xw_parse w) rec body = (eff, dl, ok)" by (cases "reconcile_changed (xw_parse w) rec body")
  show ?thesis
  proof (cases "\<exists>g f. tr_snapshot rec \<noteq> [] \<and> xw_parse w (tr_snapshot rec) = Some g \<and> xw_parse w body = Some f")
    case True
    then obtain g f where gf: "tr_snapshot rec \<noteq> []" "xw_parse w (tr_snapshot rec) = Some g" "xw_parse w body = Some f"
      by blast
    then have "eff = policy_of f" "dl = compare_policies (policy_of g) (policy_of f)" "ok \<longleftrightarrow> within (policy_of g) (policy_of f)"
      using r needs_approval_within [of "policy_of g" "policy_of f"]
      by (auto simp: reconcile_changed_def Let_def split: if_splits)
    then show ?thesis
      using assms \<open>status = VerifyChanged\<close> gf r
      by (auto simp: reconcile_step_def split: if_splits prod.splits)
  next
    case False
    then have "dl = no_delta \<and> \<not> ok"
      using r by (auto simp: reconcile_changed_def split: if_splits option.splits)
    moreover have "\<not> needs_approval no_delta" by (simp add: needs_approval_def no_delta_def)
    ultimately show ?thesis
      using assms \<open>status = VerifyChanged\<close> r by (auto simp: reconcile_step_def)
  qed
qed

section \<open>Success, stage by stage\<close>

lemma run_on_record_ok:
  assumes "run_on_record w url (exec_providers w ci) ci req st canon v scope body rec d = (Inr g, d')"
  shows "rg_scope g = scope \<and> command_allowed w url ci canon v scope req rec (rg_argv g) d \<and>
    (\<exists>f cmd. xw_parse w body = Some f \<and> resolve_argv rec req = Inr (rg_argv g, cmd) \<and>
       trusted_values w st scope rec (bf_env f) (allows_all f) (\<not> allows_all f \<and> bf_env f = []) = Inr (rg_values g))"
proof -
  obtain f where f: "xw_parse w body = Some f"
    using assms by (auto simp: run_on_record_def split: option.splits)
  obtain argv cmd where r: "resolve_argv rec req = Inr (argv, cmd)"
    using assms f by (auto simp: run_on_record_def Let_def split: sum.splits prod.splits)
  obtain aw d1 where a: "actions_gate w url (exec_providers w ci) ci canon v scope req rec argv (bf_env f) (allows_all f) d
      = ((None, aw), d1)"
    using assms f r by (auto simp: run_on_record_def Let_def split: sum.splits prod.splits option.splits)
  then have "command_allowed w url ci canon v scope req rec argv d"
    using actions_gate_iff [of w url ci canon v scope req rec argv "bf_env f" "allows_all f" d] by simp
  then show ?thesis
    using assms f r a by (auto simp: run_on_record_def Let_def split: sum.splits)
qed

lemma command_allowed_cong:
  "dm_vaults d = dm_vaults d' \<Longrightarrow> dm_limiter d = dm_limiter d' \<Longrightarrow> dm_presence d = dm_presence d' \<Longrightarrow> dm_queue d = dm_queue d' \<Longrightarrow>
   command_allowed w url ci canon v scope req rec argv d = command_allowed w url ci canon v scope req rec argv d'"
  using fresh_credential_cong [of d d']
  by (simp add: command_allowed_def action_approved_def action_approved_until_def)

lemma decide_on_record_ok:
  assumes "decide_on_record w url (exec_providers w ci) ci req st canon v scope body (status, rec) d = (Inr g, d')"
  shows "tr_path rec \<noteq> [] \<and> record_scope_clash rec (pinned_scope w body) v (rg_scope g) = None \<and>
    rg_scope g = effective_scope rec (pinned_scope w body) (xq_scope req) v scope \<and>
    (\<exists>rec'. ((status = VerifyTrusted \<and> rec' = rec) \<or>
      (status = VerifyChanged \<and> (\<exists>g f. xw_parse w (tr_snapshot rec) = Some g \<and> xw_parse w body = Some f \<and>
         rec' = apply_policy w rec (policy_of f) \<and>
         (within (policy_of g) (policy_of f) \<or>
          forgives_self_authored w ci rec (compare_policies (policy_of g) (policy_of f)) v (record_scope rec))))) \<and>
      command_allowed w url ci canon v (rg_scope g) req rec' (rg_argv g) d \<and>
      (\<exists>f cmd. xw_parse w body = Some f \<and> resolve_argv rec' req = Inr (rg_argv g, cmd) \<and>
         trusted_values w st (rg_scope g) rec' (bf_env f) (allows_all f) (\<not> allows_all f \<and> bf_env f = []) = Inr (rg_values g)))"
proof -
  define scope1 where "scope1 = (if tr_path rec \<noteq> [] then effective_scope rec (pinned_scope w body) (xq_scope req) v scope else scope)"
  obtain x d1 where x: "reconcile_step w ci canon v scope1 req body (status, rec) d = (x, d1)" by fastforce
  have noclash: "\<not> (tr_path rec \<noteq> [] \<and> record_scope_clash rec (pinned_scope w body) v scope1 \<noteq> None)"
    using assms by (auto simp: decide_on_record_def Let_def scope1_def split: if_splits)
  then obtain status' rec' where x': "x = Inr (status', rec')"
    using assms x by (cases x) (auto simp: decide_on_record_def Let_def scope1_def)
  have tr: "status' = VerifyTrusted" "tr_path rec' \<noteq> []"
      and run: "run_on_record w url (exec_providers w ci) ci req st canon v scope1 body rec' d1 = (Inr g, d')"
    using assms noclash x x' by (auto simp: decide_on_record_def Let_def scope1_def split: if_splits)
  note ok = reconcile_step_ok [OF x [unfolded x' tr(1)]]
  have "tr_path rec = tr_path rec'"
    using ok by (auto simp: apply_policy_def Let_def)
  then have path: "tr_path rec \<noteq> []" using tr(2) by simp
  have "command_allowed w url ci canon v scope1 req rec' (rg_argv g) d"
    using run_on_record_ok [OF run] ok command_allowed_cong [of d1 d] by auto
  then show ?thesis
    using run_on_record_ok [OF run] ok noclash path by (auto simp: scope1_def)
qed

lemma trusted_exec_ok:
  assumes "trusted_exec w url (exec_providers w ci) ci req st canon v scope d = (Inr g, d')"
  shows "\<exists>body mtime vkKey rec rec'. read_byn_file w canon = Inr (body, mtime) \<and> vk_key st = Inr vkKey \<and>
    record_at (wo_trust w) canon = Some rec \<and> usable_record w ci v body mtime vkKey rec rec' \<and>
    record_scope_clash rec (pinned_scope w body) v (rg_scope g) = None \<and>
    rg_scope g = effective_scope rec (pinned_scope w body) (xq_scope req) v scope \<and>
    command_allowed w url ci canon v (rg_scope g) req rec' (rg_argv g) d \<and>
    (\<exists>f cmd. xw_parse w body = Some f \<and> resolve_argv rec' req = Inr (rg_argv g, cmd) \<and>
       trusted_values w st (rg_scope g) rec' (bf_env f) (allows_all f) (\<not> allows_all f \<and> bf_env f = []) = Inr (rg_values g))"
proof -
  obtain body mtime where b: "read_byn_file w canon = Inr (body, mtime)"
    using assms by (auto simp: trusted_exec_def split: sum.splits prod.splits)
  obtain vkKey where k: "vk_key st = Inr vkKey"
    using assms b by (auto simp: trusted_exec_def split: sum.splits)
  obtain status c rec where vf: "verify (wo_sha256 w) (wo_hmac w) (wo_trust_io w) (wo_trust w) canon
      (trust_hash (wo_sha256 w) body) mtime (wo_fp_key w) vkKey = Inr (status, c, Some rec)"
    using assms b k by (auto simp: trusted_exec_def split: sum.splits prod.splits option.splits)
  have rec: "record_at (wo_trust w) canon = Some rec" "verify_record (wo_sha256 w) (wo_hmac w)
      (trust_hash (wo_sha256 w) body) mtime (wo_fp_key w) vkKey rec = (status, c)"
    using vf by (auto simp: verify_def lookup_record_def load_store_def split: option.splits sum.splits prod.splits)
  have dec: "decide_on_record w url (exec_providers w ci) ci req st canon v scope body (status, rec) d = (Inr g, d')"
    using assms b k vf by (simp add: trusted_exec_def)
  from decide_on_record_ok [OF dec] show ?thesis
    using b k rec by (fastforce simp: usable_record_def)
qed

section \<open>A run on a changed file\<close>

lemma set_add_new: "set (add_new out xs) = set out \<union> set xs"
  by (induction xs arbitrary: out) auto

lemma actions_kept: "set as \<subseteq> set (with_resolved_action_targets as dirs)"
  by (auto simp: with_resolved_action_targets_def set_add_new)

text \<open>What it takes for a command without arguments of its own gate to run on a changed file.\<close>

definition free_run_on_change ::
  "exec_world \<Rightarrow> exec_req \<Rightarrow> vault_entry \<Rightarrow> string \<Rightarrow> bytes \<Rightarrow> trust_record \<Rightarrow> byn_file \<Rightarrow> byn_file \<Rightarrow> vault_scope \<Rightarrow> exec_values \<Rightarrow> bool" where
  "free_run_on_change w req st v body rec g f scope vs \<longleftrightarrow>
     tr_path rec \<noteq> [] \<and> tr_sha256 rec \<noteq> trust_hash (wo_sha256 w) body \<and>
     tr_snapshot rec \<noteq> [] \<and> xw_parse w (tr_snapshot rec) = Some g \<and> xw_parse w body = Some f \<and>
     within (policy_of g) (policy_of f) \<and>
     effective_scope rec (pinned_scope w body) (xq_scope req) v (scope_of (xq_scope req)) = scope \<and>
     record_scope_clash rec (pinned_scope w body) v scope = None \<and>
     ''*'' \<in> set (bf_actions f) \<and> map_at (bf_auth f) ''exec'' \<noteq> ''always'' \<and>
     trusted_values w st scope (apply_policy w rec (policy_of f)) (bf_env f) (allows_all f)
       (\<not> allows_all f \<and> bf_env f = []) = Inr vs"

lemma trusted_exec_on_change:
  assumes "read_byn_file w canon = Inr (body, mtime)" and "vk_key st = Inr vkKey"
    and "load_error (wo_trust_io w) = None" and "record_at (wo_trust w) canon = Some rec"
    and "xq_alias req = []" and "\<not> xq_force_auth req"
    and free: "free_run_on_change w req st v body rec g f scope vs"
  shows "\<exists>gr. trusted_exec w url reg ci req st canon v (scope_of (xq_scope req)) d = (Inr gr, d) \<and>
    rg_values gr = vs \<and> rg_argv gr = xq_argv req"
proof -
  let ?rec = "apply_policy w rec (policy_of f)"
  have vf: "verify (wo_sha256 w) (wo_hmac w) (wo_trust_io w) (wo_trust w) canon (trust_hash (wo_sha256 w) body) mtime
      (wo_fp_key w) vkKey = Inr (VerifyChanged, False, Some rec)"
    using assms(3,4) free
    by (simp add: verify_def lookup_record_def load_store_def verify_record_def free_run_on_change_def)
  have rs: "reconcile_step w ci canon v scope req body (VerifyChanged, rec) d = (Inr (VerifyTrusted, ?rec), d)"
    using free by (simp add: reconcile_step_def reconcile_changed_def free_run_on_change_def Let_def needs_approval_within)
  have path: "tr_path ?rec = tr_path rec" and acts: "''*'' \<in> set (tr_actions ?rec)" and auth: "tr_auth ?rec = bf_auth f"
    using free actions_kept by (auto simp: apply_policy_def Let_def policy_of_def free_run_on_change_def)
  have wild: "list_ex (\<lambda>a. a = ''*'') (tr_actions ?rec)"
    using acts by (auto simp: list_ex_iff)
  have gate: "\<exists>b. actions_gate w url reg ci canon v scope req ?rec (xq_argv req) (bf_env f) (allows_all f) d = ((None, b), d)"
    using free assms(6) wild by (cases "map_at (bf_auth f) ''exec'' = ''none''")
      (auto simp: actions_gate_def auth free_run_on_change_def Let_def)
  then obtain b where b: "actions_gate w url reg ci canon v scope req ?rec (xq_argv req) (bf_env f) (allows_all f) d = ((None, b), d)"
    by blast
  have sc: "effective_scope rec (pinned_scope w body) (xq_scope req) v (scope_of (xq_scope req)) = scope"
      "record_scope_clash rec (pinned_scope w body) v scope = None" "tr_path rec \<noteq> []" "xw_parse w body = Some f"
    and tv: "trusted_values w st scope ?rec (bf_env f) (allows_all f) (\<not> allows_all f \<and> length (bf_env f) = 0) = Inr vs"
    using free by (simp_all add: free_run_on_change_def)
  have run: "run_on_record w url reg ci req st canon v scope body ?rec d =
      (Inr \<lparr>rg_scope = scope, rg_argv = xq_argv req, rg_allow = bf_env f, rg_optional = bf_optional f,
         rg_wildcard = allows_all f, rg_none_declared = (\<not> allows_all f \<and> length (bf_env f) = 0),
         rg_actions_wildcard = b, rg_values = vs, rg_audit_cmd = xq_command req\<rparr>, d)"
    by (simp only: run_on_record_def sc(4) option.case Let_def resolve_argv_def assms(5) refl if_True sum.case prod.case b tv)
  show ?thesis
    using assms(1,2) vf rs path run by (simp add: trusted_exec_def decide_on_record_def Let_def sc)
qed

lemma scope_for_opened:
  assumes "vault_name_re (default_if_empty (is_vault s) DefaultVaultName)"
    and "open_vault w (default_if_empty (is_vault s) DefaultVaultName) d = (Inr st, d1)"
  shows "scope_for w s d = (Inr (st, scope_of s), d1)"
  using assms by (simp add: scope_for_def store_for_vault_def default_if_empty_def DefaultVaultName_def Let_def)

lemma exec_on_change:
  assumes "xq_path req \<noteq> []" and "xq_vars req = []" and "xq_alias req = []" and "\<not> xq_force_auth req"
    and "vault_name_re (default_if_empty (is_vault (xq_scope req)) DefaultVaultName)"
    and "fst (open_vault (world.truncate w) (default_if_empty (is_vault (xq_scope req)) DefaultVaultName) d) = Inr st"
    and "read_byn_file w (xw_canonicalize w (xq_path req)) = Inr (body, mtime)" and "vk_key st = Inr vkKey"
    and "load_error (wo_trust_io w) = None" and "record_at (wo_trust w) (xw_canonicalize w (xq_path req)) = Some rec"
    and "free_run_on_change w req st (default_if_empty (is_vault (xq_scope req)) DefaultVaultName) body rec g f scope vs"
  shows "\<exists>r d'. authorize_exec w url reg ci req d = (Inr r, d') \<and> xr_values r = vs \<and> xr_argv r = xq_argv req"
proof -
  let ?v = "default_if_empty (is_vault (xq_scope req)) DefaultVaultName"
  obtain d1 where d1: "open_vault (world.truncate w) ?v d = (Inr st, d1)"
    using assms(6) by (metis prod.collapse)
  obtain gr where gr: "trusted_exec w url reg ci req st (xw_canonicalize w (xq_path req)) ?v (scope_of (xq_scope req)) d1 = (Inr gr, d1)"
      "rg_values gr = vs" "rg_argv gr = xq_argv req"
    using trusted_exec_on_change [OF assms(7-10,3,4,11)] by blast
  show ?thesis
    using assms(1,2,3) gr
    by (simp add: authorize_exec_def scope_for_opened [OF assms(5) d1] exec_paths_def Let_def finish_exec_def)
qed

end
