(* ===== verification/Exec_Examples.thy ===== *)
theory Exec_Examples
  imports Exec_Props
begin

text \<open>
  A small world in which the exec properties are applied: one open, unlocked vault, a file with
  one variable, and a store with one record of it. SHA-256 is the identity and HMAC a constant.
\<close>

definition granted_file :: byn_file where
  "granted_file = empty_byn_file\<lparr>bf_env := [''KEY''], bf_actions := [''make'']\<rparr>"

definition wild_file :: byn_file where
  "wild_file = empty_byn_file\<lparr>bf_env := [''KEY''], bf_actions := [''*'']\<rparr>"

definition strict_file :: byn_file where
  "strict_file = wild_file\<lparr>bf_auth := [(''exec'', ''always'')]\<rparr>"

definition ex_parse :: "bytes \<Rightarrow> byn_file option" where
  "ex_parse b = (if b = ''granted'' then Some granted_file else if b = ''wild'' then Some wild_file
     else if b = ''strict'' then Some strict_file else None)"

text \<open>A record whose tags are no MACs of anything, with a snapshot of the caller's choosing.\<close>

definition forged_record :: trust_record where
  "forged_record = \<lparr>tr_path = ''/w/.byn'', tr_sha256 = ''00'', tr_vault = [], tr_fp_mac = ''junk'', tr_vk_mac = ''junk'',
     tr_mtime = 5, tr_granted_at = 0, tr_snapshot = ''wild'', tr_actions = [], tr_auth = [], tr_aliases = [],
     tr_scope_vault = [], tr_scope_project = [], tr_scope_env = [], tr_exec_capability = ''sealed'', tr_env_grants = []\<rparr>"

definition exec_world_with :: "trust_record \<Rightarrow> bytes \<Rightarrow> exec_world" where
  "exec_world_with rec body =
     \<lparr>wo_now = 100, wo_sha256 = (\<lambda>x. x), wo_hmac = (\<lambda>_ _. ''t''), wo_disk = (\<lambda>_. Inl OpenNotInit),
      wo_trust_io = io_ok, wo_trust = [rec], wo_fp_key = Some ''m'', wo_limiter_io = None, wo_procs = ex_procs,
      xw_canonicalize = (\<lambda>p. p), xw_eval_symlinks = (\<lambda>_. None), xw_read = (\<lambda>_. Inr (body, 7)), xw_parse = ex_parse,
      xw_compile = (\<lambda>_. None), xw_cwd = (\<lambda>_. []), xw_user = (\<lambda>_. None), xw_queue_io = (\<lambda>_. io_ok),
      xw_ticket = Inr (''ticket'', ''hash''), xw_new_id = ''id'', xw_authored = (\<lambda>_ _ _. None), xw_entries = (\<lambda>_. Some []),
      xw_capability = (\<lambda>_ _ _. Inr [(''KEY'', ''secret'')]), xw_from_vault_key = (\<lambda>_ _ _. Inr [(''KEY'', ''secret'')]),
      xw_seal = (\<lambda>_ _ _. Inr ''sealed''), xw_unattended = (\<lambda>_ _. []), xw_origin = (\<lambda>_ _. None), xw_has_var = (\<lambda>_ _. False),
      xw_run_error = None\<rparr>"

definition ex_req :: "string \<Rightarrow> exec_req" where
  "ex_req path = \<lparr>xq_force_ask = False, xq_reason = [], xq_wait_seconds = 0, xq_ask_once = False, xq_path = path,
     xq_scope = \<lparr>is_vault = [], is_project = [], is_env = []\<rparr>, xq_command = ''curl'', xq_argv = [''curl'', ''evil''],
     xq_alias = [], xq_vars = [], xq_cwd = [], xq_password = [], xq_presence = [], xq_force_auth = False\<rparr>"

definition ex_caller :: caller where
  "ex_caller = \<lparr>ci_uid = 501, ci_pid = 90, ci_tty = 0, ci_comm = ''byn'', ci_pcomm = ''bash'', ci_surface = ''socket'', ci_session = []\<rparr>"

lemma ex_world_selectors [simp]:
  "world.truncate (exec_world_with rec body) = \<lparr>wo_now = 100, wo_sha256 = (\<lambda>x. x), wo_hmac = (\<lambda>_ _. ''t''),
     wo_disk = (\<lambda>_. Inl OpenNotInit), wo_trust_io = io_ok, wo_trust = [rec], wo_fp_key = Some ''m'',
     wo_limiter_io = None, wo_procs = ex_procs\<rparr>"
  "xw_canonicalize (exec_world_with rec body) p = p" "wo_trust (exec_world_with rec body) = [rec]"
  "wo_trust_io (exec_world_with rec body) = io_ok" "xw_parse (exec_world_with rec body) = ex_parse"
  "wo_sha256 (exec_world_with rec body) = (\<lambda>x. x)" "wo_fp_key (exec_world_with rec body) = Some ''m''"
  "wo_procs (exec_world_with rec body) = ex_procs" "wo_now (exec_world_with rec body) = 100"
  "xw_queue_io (exec_world_with rec body) call = io_ok" "wo_hmac (exec_world_with rec body) = (\<lambda>_ _. ''t'')"
  "xw_capability (exec_world_with rec body) sc blob names = Inr [(''KEY'', ''secret'')]"
  "xw_from_vault_key (exec_world_with rec body) sc ns all = Inr [(''KEY'', ''secret'')]"
  "xw_eval_symlinks (exec_world_with rec body) p = None"
  by (simp_all add: exec_world_with_def world.truncate_def)

lemma ex_read: "length body \<le> 100 \<Longrightarrow> read_byn_file (exec_world_with rec body) p = Inr (body, 7)"
  by (simp add: read_byn_file_def exec_world_with_def MaxSize_def)

lemma ex_vault:
  "vault_name_re ''default''" "fst (open_vault w ''default'' ex_daemon) = Inr ex_entry" "vk_key ex_entry = Inr (Some ''k'')"
  by (simp_all add: open_vault_def lookup_vault_def ex_daemon_def map_get_def vk_key_def ex_entry_def)
    (simp add: vault_name_re_def is_digit_def less_eq_char_def)

lemma ex_asked: "default_if_empty (is_vault (xq_scope (ex_req path))) DefaultVaultName = ''default''"
  by (simp add: ex_req_def DefaultVaultName_def)

lemma within_refl: "within p p"
  by (auto simp: within_def same_scope_def is_auth_relaxation_def Let_def split: option.splits)

lemma ex_free:
  "free_run_on_change (exec_world_with (forged_record\<lparr>tr_fp_mac := fp, tr_vk_mac := vk\<rparr>) ''wild'') (ex_req ''/w/.byn'') ex_entry
     ''default'' ''wild'' forged_record wild_file wild_file (scope_of (xq_scope (ex_req ''/w/.byn''))) [(''KEY'', ''secret'')]"
  by (simp add: free_run_on_change_def within_refl forged_record_def trust_hash_def hex_encode.simps ex_parse_def
      effective_scope_def pinned_scope_def wild_file_def empty_byn_file_def record_scope_clash_def DefaultVaultName_def
      trusted_values_def as_values_def allows_all_def apply_policy_def Let_def map_at_def)

end
