(* ===== verification/Exec_Claims.thy ===== *)
theory Exec_Claims
  imports Exec_Examples
begin

text \<open>
  What an exec authorization promises: what a run on a trusted file rests on, what a run on the
  whole scope rests on, and what the report says. The flaws of the gate are in \<open>Exec_Breaks\<close>.
\<close>

section \<open>A run on a trusted file\<close>

lemma scope_for_ok:
  assumes "scope_for w s d = (Inr (st, scope), d1)"
  shows "scope = scope_of s \<and> d1 = snd (open_vault w (default_if_empty (is_vault s) DefaultVaultName) d) \<and>
    fst (open_vault w (default_if_empty (is_vault s) DefaultVaultName) d) = Inr st \<and>
    vault_name_re (default_if_empty (is_vault s) DefaultVaultName)"
  using assms
  by (auto simp: scope_for_def store_for_vault_def Let_def default_if_empty_def DefaultVaultName_def
      split: if_splits prod.splits sum.splits open_error.splits)

text \<open>The vault a request names, and the state its gates see: that vault is open.\<close>

definition asked_vault :: "exec_req \<Rightarrow> string" where
  "asked_vault req = default_if_empty (is_vault (xq_scope req)) DefaultVaultName"

lemma asked_vault_nonempty [simp]: "asked_vault req \<noteq> []" "default_if_empty (asked_vault req) def = asked_vault req"
  by (auto simp: asked_vault_def default_if_empty_def DefaultVaultName_def)

lemma authorize_exec_ok:
  assumes "authorize_exec w url reg ci req d = (Inr r, d')"
  shows "\<exists>st d1 g d2. fst (open_vault (world.truncate w) (asked_vault req) d) = Inr st \<and>
    d1 = snd (open_vault (world.truncate w) (asked_vault req) d) \<and>
    exec_paths w url reg ci req st (if xq_path req \<noteq> [] then xw_canonicalize w (xq_path req) else [])
      (asked_vault req) (scope_of (xq_scope req)) d1 = (Inr g, d2) \<and>
    (r, d') = finish_exec w ci req (asked_vault req) (if xq_path req \<noteq> [] then xw_canonicalize w (xq_path req) else []) g d2"
proof -
  obtain st scope d1 where s: "scope_for (world.truncate w) (xq_scope req) d = (Inr (st, scope), d1)"
    using assms by (auto simp: authorize_exec_def split: sum.splits prod.splits)
  let ?canon = "if xq_path req \<noteq> [] then xw_canonicalize w (xq_path req) else []"
  obtain g d2 where g: "exec_paths w url reg ci req st ?canon (asked_vault req) scope d1 = (Inr g, d2)"
    using assms s by (auto simp: authorize_exec_def Let_def asked_vault_def split: sum.splits prod.splits)
  have "finish_exec w ci req (asked_vault req) ?canon g d2 = (r, d')"
    using assms s g unfolding authorize_exec_def Let_def asked_vault_def [symmetric] s
    by (cases "xq_path req = []") (auto split: prod.splits)
  then have "(r, d') = finish_exec w ci req (asked_vault req) ?canon g d2" by (rule sym)
  then show ?thesis using scope_for_ok [OF s] g by (auto simp: asked_vault_def)
qed

lemma finish_exec_results [simp]:
  "xr_values (fst (finish_exec w ci req v canon g d)) = rg_values g"
  "xr_argv (fst (finish_exec w ci req v canon g d)) = rg_argv g"
  "xr_wildcard (fst (finish_exec w ci req v canon g d)) = rg_wildcard g"
  by (simp_all add: finish_exec_def Let_def)


lemma ex_changed_run:
  "\<exists>r d'. authorize_exec (exec_world_with forged_record ''wild'') url (exec_providers (exec_world_with forged_record ''wild'') ex_caller)
      ex_caller (ex_req ''/w/.byn'') ex_daemon = (Inr r, d') \<and> xr_values r = [(''KEY'', ''secret'')] \<and> xr_argv r = [''curl'', ''evil'']"
proof -
  have w: "exec_world_with (forged_record\<lparr>tr_fp_mac := ''junk'', tr_vk_mac := ''junk''\<rparr>) ''wild'' = exec_world_with forged_record ''wild''"
    by (simp add: forged_record_def)
  show ?thesis
    using exec_on_change [of "ex_req ''/w/.byn''" "exec_world_with forged_record ''wild''" ex_daemon ex_entry "''wild''" 7
        "Some ''k''" forged_record wild_file wild_file _ "[(''KEY'', ''secret'')]" url _ ex_caller]
      ex_free [of "''junk''" "''junk''", unfolded w] ex_vault ex_read [of "''wild''"]
    by (simp add: ex_asked) (simp add: ex_req_def record_at_def forged_record_def)
qed


section \<open>A run on the whole scope\<close>

lemma whole_scope_exec_ok:
  "(\<exists>g. fst (whole_scope_exec w (exec_providers w ci) req v scope d) = Inr g \<and> rg_values g = vs) \<longleftrightarrow>
   fresh_credential (world.truncate w) (default_if_empty v DefaultVaultName) (xq_password req) (xq_presence req) d \<and>
   xw_from_vault_key w scope [] True = Inr vs" (is "_ \<longleftrightarrow> ?fresh \<and> _")
proof -
  obtain e d3 where a: "authorize_action_always (exec_providers w ci) v (xq_password req) (xq_presence req) d = (e, d3)"
    by fastforce
  then have "e = None \<longleftrightarrow> ?fresh"
    using authorize_always_iff [of "world.truncate w" ci v "xq_password req" "xq_presence req" d] by simp
  moreover have "\<not> (length (xq_password req) = 0 \<and> length (xq_presence req) = 0)" if ?fresh
    using fresh_credential_given [OF that] by simp
  moreover have "fst (whole_scope_exec w (exec_providers w ci) req v scope d) =
    (if length (xq_password req) = 0 \<and> length (xq_presence req) = 0 then Inl (xq_command req, new_error CodeAuthRequired)
     else case e of Some e \<Rightarrow> Inl (xq_command req, e)
     | None \<Rightarrow> (case xw_from_vault_key w scope [] True of
         Inl c \<Rightarrow> Inl (xq_command req, new_error c)
       | Inr vs \<Rightarrow> Inr \<lparr>rg_scope = scope, rg_argv = [], rg_allow = [], rg_optional = [],
           rg_wildcard = False, rg_none_declared = False, rg_actions_wildcard = False, rg_values = vs,
           rg_audit_cmd = xq_command req\<rparr>))"
    unfolding whole_scope_exec_def a as_values_def by (auto split: option.split sum.split)
  ultimately show ?thesis
    by (auto split: if_splits option.splits sum.splits)
qed

text \<open>
  C3. The whole scope is handed out only against a fresh credential: with no file and no names,
  a request succeeds exactly when the vault opens and is unlocked, no alias is named, a password
  or presence token is proven now, and the vault yields the values; it then gets all of them.
\<close>

theorem whole_scope_needs_fresh_credential:
  assumes "xq_path req = []" and "xq_vars req = []" and "vault_name_re (asked_vault req)"
  shows "(\<exists>r. fst (authorize_exec w url (exec_providers w ci) ci req d) = Inr r \<and> xr_values r = vs) \<longleftrightarrow>
    (\<exists>st. fst (open_vault (world.truncate w) (asked_vault req) d) = Inr st \<and> \<not> ve_locked st) \<and>
    xq_alias req = [] \<and>
    fresh_credential (world.truncate w) (asked_vault req) (xq_password req) (xq_presence req) d \<and>
    xw_from_vault_key w (scope_of (xq_scope req)) [] True = Inr vs" (is "?ok \<longleftrightarrow> ?cond")
proof -
  let ?v = "asked_vault req"
  let ?w = "world.truncate w"
  obtain o1 d1 where o: "open_vault ?w ?v d = (o1, d1)" by fastforce
  have d1: "d1 = snd (open_vault ?w ?v d)" using o by simp
  have sf: "scope_for ?w (xq_scope req) d =
      (case o1 of Inl OpenNotInit \<Rightarrow> (Inl (new_error CodeNotInit), d1) | Inl OpenFingerprint \<Rightarrow> (Inl (new_error CodeFingerprint), d1)
       | Inl OpenOther \<Rightarrow> (Inl (new_error CodeInternal), d1) | Inr st \<Rightarrow> (Inr (st, scope_of (xq_scope req)), d1))"
  proof -
    have "default_if_empty (is_vault (xq_scope req)) DefaultVaultName = ?v" by (simp add: asked_vault_def)
    then show ?thesis
      using assms(3) by (simp add: scope_for_def store_for_vault_def o split: sum.split open_error.split)
  qed
  show ?thesis
  proof (cases o1)
    case (Inl e)
    then show ?thesis using o by (cases e) (auto simp: authorize_exec_def sf)
  next
    case (Inr st)
    obtain x d2 where x: "whole_scope_exec w (exec_providers w ci) req ?v (scope_of (xq_scope req)) d1 = (x, d2)"
      by fastforce
    note whole = whole_scope_exec_ok [of w ci req ?v "scope_of (xq_scope req)" d1 vs, unfolded x fst_conv asked_vault_nonempty]
    have fc: "fresh_credential ?w ?v (xq_password req) (xq_presence req) d1 \<longleftrightarrow>
        fresh_credential ?w ?v (xq_password req) (xq_presence req) d"
      unfolding d1 by simp
    have paths: "exec_paths w url (exec_providers w ci) ci req st [] ?v (scope_of (xq_scope req)) d1 =
        (if ve_locked st then (Inl (xq_command req, new_error CodeLocked), d1)
         else if xq_alias req \<noteq> [] then (Inl (xq_command req, new_error CodeBadRequest), d1) else (x, d2))"
      using assms(1,2) x by (simp add: exec_paths_def)
    have "?ok \<longleftrightarrow> \<not> ve_locked st \<and> xq_alias req = [] \<and> (\<exists>g. x = Inr g \<and> rg_values g = vs)"
      using sf Inr paths assms(1)
      by (auto simp: authorize_exec_def Let_def asked_vault_def finish_exec_def split: sum.splits prod.splits)
    then show ?thesis using o Inr whole fc by auto
  qed
qed

lemma ex_proven:
  "fresh_credential (world.truncate (exec_world_with rec body)) ''default'' pw [] ex_daemon \<longleftrightarrow> pw = ''pw''"
  by (auto simp: fresh_credential_def ex_daemon_def open_vault_def lookup_vault_def map_get_def
      ex_entry_def check_limiter_def new_rate_limiter_def load_limiter_def clean_slate_def)

theorem whole_scope_needs_fresh_credential_witness:
  "(\<nexists>r vs. fst (authorize_exec (exec_world_with forged_record []) (\<lambda>_. None)
      (exec_providers (exec_world_with forged_record []) ex_caller) ex_caller (ex_req []) ex_daemon) = Inr r \<and> xr_values r = vs) \<and>
   (\<exists>r. fst (authorize_exec (exec_world_with forged_record []) (\<lambda>_. None)
      (exec_providers (exec_world_with forged_record []) ex_caller) ex_caller ((ex_req [])\<lparr>xq_password := ''pw''\<rparr>) ex_daemon) = Inr r \<and>
      xr_values r = [(''KEY'', ''secret'')])"
proof -
  have a: "asked_vault ((ex_req [])\<lparr>xq_password := pw\<rparr>) = ''default''" for pw
    by (simp add: asked_vault_def ex_req_def DefaultVaultName_def)
  have "(ex_req [])\<lparr>xq_password := []\<rparr> = ex_req []" by (simp add: ex_req_def)
  then have a': "asked_vault (ex_req []) = ''default''" using a [of "[]"] by simp
  have q: "xq_path (ex_req []) = []" "xq_vars (ex_req []) = []" "xq_alias (ex_req []) = []" "xq_password (ex_req []) = []"
      "xq_presence (ex_req []) = []"
    by (simp_all add: ex_req_def)
  have "\<not> ve_locked ex_entry" by (simp add: ex_entry_def)
  then show ?thesis
    using whole_scope_needs_fresh_credential [of "ex_req []" "exec_world_with forged_record []" "\<lambda>_. None" ex_caller ex_daemon]
      whole_scope_needs_fresh_credential [of "(ex_req [])\<lparr>xq_password := ''pw''\<rparr>" "exec_world_with forged_record []" "\<lambda>_. None"
        ex_caller ex_daemon "[(''KEY'', ''secret'')]"]
      ex_vault a a' q ex_proven by (auto simp del: ex_world_selectors(1))
qed

section \<open>The report\<close>

text \<open>
  Nothing goes missing without a word: of the names a request's allowlist declares, each one
  that is not delivered and not marked optional is in the report, under its own name or with
  one of the two remarks that say why it could not be delivered.
\<close>

theorem missing_names_are_reported:
  assumes "n \<in> set (rg_allow g)" and "n \<noteq> ''*''" and "\<not> rg_wildcard g"
    and "n \<notin> fst ` set (rg_values g)" and "n \<notin> set (rg_optional g)"
  shows "\<exists>m \<in> set (xr_missing (fst (finish_exec w ci req v canon g d))).
    m \<in> {n, n @ unreachable_suffix, n @ inherited_unattended_suffix}"
proof -
  have "n \<in> set (missing_allowlisted (rg_allow g) (rg_optional g) (rg_wildcard g) (rg_values g))"
    using assms by (auto simp: missing_allowlisted_def)
  then have "(if xw_origin w (rg_scope g) n = Some (True, True) then n @ inherited_unattended_suffix
      else if xw_has_var w (rg_scope g) n then n @ unreachable_suffix else n) \<in> set (xr_missing (fst (finish_exec w ci req v canon g d)))"
    using assms(3) by (simp add: finish_exec_def Let_def split_unreachable_def)
  then show ?thesis by (auto split: if_splits)
qed

theorem missing_names_are_reported_witness:
  "\<exists>m \<in> set (xr_missing (fst (finish_exec (exec_world_with forged_record []) ex_caller (ex_req []) ''default'' []
      \<lparr>rg_scope = \<lparr>sc_project = [], sc_env = []\<rparr>, rg_argv = [], rg_allow = [''A'', ''B''], rg_optional = [], rg_wildcard = False,
       rg_none_declared = False, rg_actions_wildcard = False, rg_values = [(''A'', ''1'')], rg_audit_cmd = []\<rparr> ex_daemon))).
     m \<in> {''B'', ''B'' @ unreachable_suffix, ''B'' @ inherited_unattended_suffix}"
  by (rule missing_names_are_reported) simp_all

end
