(* ===== verification/Exec_Breaks.thy ===== *)
theory Exec_Breaks
  imports Exec_Examples
begin

text \<open>
  Where the exec gate lets through more than its comments promise: the seal of a record is not
  checked once the file changed, dropping an authorization line takes effect at once, the
  question a grant answers is coarser than the command, and the wrong single-use grant is spent.
\<close>

section \<open>A record whose seal is never checked\<close>

lemma free_run_tags:
  "free_run_on_change w req st v body (rec\<lparr>tr_fp_mac := fp, tr_vk_mac := vk\<rparr>) g f scope vs \<longleftrightarrow>
   free_run_on_change w req st v body rec g f scope vs"
proof -
  have "apply_policy w (rec\<lparr>tr_fp_mac := fp, tr_vk_mac := vk\<rparr>) p = (apply_policy w rec p)\<lparr>tr_fp_mac := fp, tr_vk_mac := vk\<rparr>" for p
    by (simp add: apply_policy_def Let_def)
  moreover have "trusted_values w st sc (r\<lparr>tr_fp_mac := fp, tr_vk_mac := vk\<rparr>) a b c = trusted_values w st sc r a b c" for sc r a b c
    by (simp add: trusted_values_def snapshot_env_allowlist_def)
  ultimately show ?thesis
    by (simp add: free_run_on_change_def effective_scope_def record_scope_clash_def)
qed

text \<open>
  C2. A forged record runs: whatever its two tags are, a record in the store is honoured as soon
  as its content hash differs from the file's, because the comparison with its snapshot comes
  before any check of the seal. Whoever can write the store grants itself any command and gets
  the sealed values, while the same record with the file's hash and time would be refused.
\<close>

theorem forged_record_runs:
  assumes "xq_path req \<noteq> []" and "xq_vars req = []" and "xq_alias req = []" and "\<not> xq_force_auth req"
    and "vault_name_re (default_if_empty (is_vault (xq_scope req)) DefaultVaultName)"
    and "fst (open_vault (world.truncate w) (default_if_empty (is_vault (xq_scope req)) DefaultVaultName) d) = Inr st"
    and "read_byn_file w (xw_canonicalize w (xq_path req)) = Inr (body, mtime)" and "vk_key st = Inr vkKey"
    and "load_error (wo_trust_io w) = None"
    and "free_run_on_change w req st (default_if_empty (is_vault (xq_scope req)) DefaultVaultName) body rec g f scope vs"
    and "record_at (wo_trust w) (xw_canonicalize w (xq_path req)) = Some (rec\<lparr>tr_fp_mac := fp, tr_vk_mac := vk\<rparr>)"
  shows "(\<exists>r d'. authorize_exec w url reg ci req d = (Inr r, d') \<and> xr_values r = vs \<and> xr_argv r = xq_argv req) \<and>
    (\<forall>k honest. honest = rec\<lparr>tr_fp_mac := fp, tr_vk_mac := vk, tr_sha256 := trust_hash (wo_sha256 w) body, tr_mtime := mtime\<rparr> \<and>
       fp \<noteq> [] \<and> wo_fp_key w = Some k \<and> \<not> verify_fp_mac (wo_sha256 w) (wo_hmac w) honest k \<longrightarrow>
       fst (verify_record (wo_sha256 w) (wo_hmac w) (trust_hash (wo_sha256 w) body) mtime (wo_fp_key w) vkKey honest) = VerifyTampered)"
proof (rule conjI)
  show "\<exists>r d'. authorize_exec w url reg ci req d = (Inr r, d') \<and> xr_values r = vs \<and> xr_argv r = xq_argv req"
    using exec_on_change [OF assms(1-9,11)] assms(10) by (simp add: free_run_tags)
next
  show "\<forall>k honest. honest = rec\<lparr>tr_fp_mac := fp, tr_vk_mac := vk, tr_sha256 := trust_hash (wo_sha256 w) body, tr_mtime := mtime\<rparr> \<and>
       fp \<noteq> [] \<and> wo_fp_key w = Some k \<and> \<not> verify_fp_mac (wo_sha256 w) (wo_hmac w) honest k \<longrightarrow>
       fst (verify_record (wo_sha256 w) (wo_hmac w) (trust_hash (wo_sha256 w) body) mtime (wo_fp_key w) vkKey honest) = VerifyTampered"
    by (auto simp: verify_record_def Let_def)
qed

theorem forged_record_runs_witness:
  "\<exists>r d'. authorize_exec (exec_world_with forged_record ''wild'') (\<lambda>_. None) new_registry ex_caller (ex_req ''/w/.byn'') ex_daemon
      = (Inr r, d') \<and> xr_values r = [(''KEY'', ''secret'')] \<and> xr_argv r = [''curl'', ''evil'']"
proof -
  have w: "exec_world_with (forged_record\<lparr>tr_fp_mac := ''junk'', tr_vk_mac := ''junk''\<rparr>) ''wild'' = exec_world_with forged_record ''wild''"
    by (simp add: forged_record_def)
  have q: "xq_path (ex_req ''/w/.byn'') = ''/w/.byn''" "xq_vars (ex_req ''/w/.byn'') = []" "xq_alias (ex_req ''/w/.byn'') = []"
      "\<not> xq_force_auth (ex_req ''/w/.byn'')" "xq_argv (ex_req ''/w/.byn'') = [''curl'', ''evil'']"
    by (simp_all add: ex_req_def)
  have r: "record_at [forged_record] ''/w/.byn'' = Some (forged_record\<lparr>tr_fp_mac := ''junk'', tr_vk_mac := ''junk''\<rparr>)"
    by (simp add: record_at_def forged_record_def)
  show ?thesis
    using forged_record_runs [of "ex_req ''/w/.byn''" "exec_world_with forged_record ''wild''" ex_daemon ex_entry "''wild''" 7
        "Some ''k''" forged_record wild_file wild_file _ "[(''KEY'', ''secret'')]" "''junk''" "''junk''"
        "\<lambda>_. None" new_registry ex_caller]
      ex_free [of "''junk''" "''junk''", unfolded w] ex_vault ex_read [of "''wild''"] q r
    by (auto simp: ex_asked)
qed

section \<open>A dropped authorization line\<close>

text \<open>A record of the strict file, as the example world stores it.\<close>

definition strict_record :: trust_record where
  "strict_record = forged_record\<lparr>tr_snapshot := ''strict'', tr_auth := [(''exec'', ''always'')]\<rparr>"

text \<open>
  Dropping \<open>exec = "always"\<close> from a trusted file needs no one: with the record and its seal
  intact, the file as it was trusted demands a credential for every command, and the same file
  without the line runs a command covered by its actions with no credential at all.
\<close>

theorem dropped_always_runs_free:
  assumes "xq_path req \<noteq> []" and "xq_vars req = []" and "xq_alias req = []" and "\<not> xq_force_auth req"
    and "xq_password req = []" and "xq_presence req = []"
    and "vault_name_re (default_if_empty (is_vault (xq_scope req)) DefaultVaultName)"
    and "fst (open_vault (world.truncate w) (default_if_empty (is_vault (xq_scope req)) DefaultVaultName) d) = Inr st"
    and "read_byn_file w (xw_canonicalize w (xq_path req)) = Inr (body, mtime)" and "vk_key st = Inr vkKey"
    and "load_error (wo_trust_io w) = None" and "record_at (wo_trust w) (xw_canonicalize w (xq_path req)) = Some rec"
    and "xw_parse w (tr_snapshot rec) = Some g" and "tr_snapshot rec \<noteq> []" and "tr_path rec \<noteq> []"
    and "tr_sha256 rec \<noteq> trust_hash (wo_sha256 w) body"
    and "bf_auth g = [(''exec'', ''always'')]" and "xw_parse w body = Some (g\<lparr>bf_auth := []\<rparr>)"
    and "''*'' \<in> set (bf_actions g)"
    and "effective_scope rec (pinned_scope w body) (xq_scope req) (default_if_empty (is_vault (xq_scope req)) DefaultVaultName)
      (scope_of (xq_scope req)) = scope"
    and "record_scope_clash rec (pinned_scope w body) (default_if_empty (is_vault (xq_scope req)) DefaultVaultName) scope = None"
    and "trusted_values w st scope (apply_policy w rec (policy_of (g\<lparr>bf_auth := []\<rparr>))) (bf_env g) (allows_all g)
      (\<not> allows_all g \<and> bf_env g = []) = Inr vs"
  shows "(\<exists>r d'. authorize_exec w url reg ci req d = (Inr r, d') \<and> xr_values r = vs \<and> xr_argv r = xq_argv req) \<and>
    \<not> command_allowed w url ci canon v sc req (rec\<lparr>tr_auth := bf_auth g\<rparr>) argv d"
proof (rule conjI)
  have "within (policy_of g) (policy_of (g\<lparr>bf_auth := []\<rparr>))"
    by (auto simp: within_def policy_of_def same_scope_def auth_listed_def normalize_map_def may_inject_def may_run_def
        may_write_def alias_of_def)
  then have "free_run_on_change w req st (default_if_empty (is_vault (xq_scope req)) DefaultVaultName) body rec g
      (g\<lparr>bf_auth := []\<rparr>) scope vs"
    using assms(13-22) by (simp add: free_run_on_change_def allows_all_def map_at_def)
  from exec_on_change [OF assms(1-4,7-12) this]
  show "\<exists>r d'. authorize_exec w url reg ci req d = (Inr r, d') \<and> xr_values r = vs \<and> xr_argv r = xq_argv req" .
  show "\<not> command_allowed w url ci canon v sc req (rec\<lparr>tr_auth := bf_auth g\<rparr>) argv d"
    using assms(5,6,17) by (auto simp: command_allowed_def map_at_def map_get_def dest: fresh_credential_given)
qed

theorem dropped_always_runs_free_witness:
  "\<exists>r d'. authorize_exec (exec_world_with strict_record ''wild'') (\<lambda>_. None) new_registry ex_caller (ex_req ''/w/.byn'') ex_daemon
      = (Inr r, d') \<and> xr_values r = [(''KEY'', ''secret'')] \<and> xr_argv r = [''curl'', ''evil'']"
proof -
  have f: "bf_auth strict_file = [(''exec'', ''always'')]" "strict_file\<lparr>bf_auth := []\<rparr> = wild_file" "''*'' \<in> set (bf_actions strict_file)"
    by (simp_all add: strict_file_def wild_file_def empty_byn_file_def)
  have q: "xq_path (ex_req ''/w/.byn'') = ''/w/.byn''" "xq_vars (ex_req ''/w/.byn'') = []" "xq_alias (ex_req ''/w/.byn'') = []"
      "\<not> xq_force_auth (ex_req ''/w/.byn'')" "xq_argv (ex_req ''/w/.byn'') = [''curl'', ''evil'']"
      "xq_password (ex_req ''/w/.byn'') = []" "xq_presence (ex_req ''/w/.byn'') = []"
    by (simp_all add: ex_req_def)
  have r: "record_at [strict_record] ''/w/.byn'' = Some strict_record" "tr_snapshot strict_record = ''strict''" "tr_path strict_record \<noteq> []"
      "tr_sha256 strict_record \<noteq> trust_hash (\<lambda>x. x) ''wild''"
    by (simp_all add: record_at_def strict_record_def forged_record_def trust_hash_def hex_encode.simps)
  have p: "ex_parse ''strict'' = Some strict_file" "ex_parse ''wild'' = Some wild_file"
    by (simp_all add: ex_parse_def)
  have e: "effective_scope strict_record (pinned_scope (exec_world_with strict_record ''wild'') ''wild'') (xq_scope (ex_req ''/w/.byn''))
      ''default'' (scope_of (xq_scope (ex_req ''/w/.byn''))) = scope_of (xq_scope (ex_req ''/w/.byn''))"
    by (simp add: effective_scope_def strict_record_def forged_record_def pinned_scope_def p wild_file_def empty_byn_file_def
        DefaultVaultName_def)
  have c: "record_scope_clash strict_record (pinned_scope (exec_world_with strict_record ''wild'') ''wild'') ''default''
      (scope_of (xq_scope (ex_req ''/w/.byn''))) = None"
    by (simp add: record_scope_clash_def strict_record_def forged_record_def pinned_scope_def p wild_file_def empty_byn_file_def
        DefaultVaultName_def)
  have v: "trusted_values (exec_world_with strict_record ''wild'') ex_entry (scope_of (xq_scope (ex_req ''/w/.byn'')))
      (apply_policy (exec_world_with strict_record ''wild'') strict_record (policy_of wild_file)) (bf_env strict_file)
      (allows_all strict_file) (\<not> allows_all strict_file \<and> bf_env strict_file = []) = Inr [(''KEY'', ''secret'')]"
    by (simp add: trusted_values_def as_values_def apply_policy_def Let_def strict_record_def forged_record_def strict_file_def
        wild_file_def empty_byn_file_def allows_all_def)
  show ?thesis
    using dropped_always_runs_free [of "ex_req ''/w/.byn''" "exec_world_with strict_record ''wild''" ex_daemon ex_entry "''wild''" 7
        "Some ''k''" strict_record strict_file "scope_of (xq_scope (ex_req ''/w/.byn''))" "[(''KEY'', ''secret'')]"
        "\<lambda>_. None" new_registry ex_caller]
      f q r p e c v ex_vault ex_read [of "''wild''"]
    by (auto simp: ex_asked)
qed

section \<open>The question is coarser than the command\<close>

lemma join_space_split: "join '' '' (us @ [s @ '' '' @ t] @ vs) = join '' '' (us @ [s, t] @ vs)"
proof (induction us)
  case Nil
  then show ?case by (cases vs) simp_all
next
  case (Cons u us)
  have "join '' '' (u # xs) = u @ '' '' @ join '' '' xs" if "xs \<noteq> []" for xs
    using that by (cases xs) simp_all
  then show ?case using Cons by simp
qed

lemma join_space_not_empty: "join '' '' (us @ [s @ '' '' @ t] @ vs) \<noteq> []"
proof (induction us)
  case Nil
  then show ?case by (cases vs) simp_all
next
  case (Cons u us)
  then show ?case by (cases us) simp_all
qed

lemma same_text_same_key:
  "join '' '' a = join '' '' b \<Longrightarrow> join '' '' a \<noteq> [] \<Longrightarrow>
   action_approval_key sha256 vn scope canon ca a = action_approval_key sha256 vn scope canon cb b"
  by (simp add: action_approval_key_def Let_def)

lemma same_prefix_same_key:
  assumes "200 \<le> length p" and "join '' '' a = p @ x" and "join '' '' b = p @ y" and "x \<noteq> []" and "y \<noteq> []"
  shows "action_approval_key sha256 vn scope canon ca a = action_approval_key sha256 vn scope canon cb b"
proof -
  have "cap_text 200 (p @ z) = take 200 p @ ellipsis" if "z \<noteq> []" for z
    using assms(1) that by (cases z) (simp_all add: cap_text_def)
  moreover have "p \<noteq> []" using assms(1) by auto
  ultimately show ?thesis
    using assms(2-5) by (simp add: action_approval_key_def Let_def)
qed

text \<open>
  One approval answers for other commands: two command lines that agree on their first two
  hundred bytes, or that differ only in where a space separates arguments, are the same question,
  so whoever may run the one may run the other until the grant lapses.
\<close>

theorem approval_covers_other_commands:
  assumes "200 \<le> length p" and "join '' '' a = p @ x" and "join '' '' b = p @ y" and "x \<noteq> []" and "y \<noteq> []"
  shows "action_approved w ci vn scope canon ca a d = action_approved w ci vn scope canon cb b d \<and>
    action_approved w ci vn scope canon ca (us @ [s @ '' '' @ t] @ vs) d = action_approved w ci vn scope canon cb (us @ [s, t] @ vs) d"
  using same_prefix_same_key [OF assms, of "wo_sha256 w" vn scope canon ca cb]
    same_text_same_key [OF join_space_split join_space_not_empty, of "wo_sha256 w" vn scope canon ca us s t vs cb]
  by (simp add: action_approved_def action_approved_until_def action_fingerprint_def)

theorem approval_covers_other_commands_witness:
  "action_approved (exec_world_with forged_record ''wild'') ex_caller ''default'' (scope_of (xq_scope (ex_req ''/w/.byn''))) ''/w/.byn'' []
     [''deploy'', replicate 200 CHR ''x'' @ ''1''] ex_daemon =
   action_approved (exec_world_with forged_record ''wild'') ex_caller ''default'' (scope_of (xq_scope (ex_req ''/w/.byn''))) ''/w/.byn'' []
     [''deploy'', replicate 200 CHR ''x'' @ ''2'', ''--force''] ex_daemon"
proof -
  have l: "200 \<le> length (''deploy '' @ replicate 200 CHR ''x'')" by simp
  have e: "join '' '' [''deploy'', replicate 200 CHR ''x'' @ ''1''] = (''deploy '' @ replicate 200 CHR ''x'') @ ''1''"
      "join '' '' [''deploy'', replicate 200 CHR ''x'' @ ''2'', ''--force''] = (''deploy '' @ replicate 200 CHR ''x'') @ ''2 --force''"
    by simp_all
  show ?thesis
    using approval_covers_other_commands [OF l e] by blast
qed

section \<open>The wrong grant is spent\<close>

lemma find_skip: "i < length xs \<Longrightarrow> \<not> P (xs ! i) \<Longrightarrow> \<not> P y \<Longrightarrow> List.find P (xs[i := y]) = List.find P xs"
proof (induction xs arbitrary: i)
  case (Cons x xs)
  then show ?case by (cases i) auto
qed simp

text \<open>
  A single-use grant survives its use: spending looks for the first unspent grant of the
  question on file, whoever it was given to, so where another agent holds one the run spends
  that one, and the grant that let the command through is still there for the next run.
\<close>

theorem single_use_grant_survives_its_use:
  assumes "xw_queue_io w CallGrant = io_ok" and "xw_queue_io w CallConsume = io_ok"
    and "action_approved w ci vn scope canon cmd argv d"
    and "find_index (spendable (wo_now w) canon (action_fingerprint (wo_sha256 w) vn scope canon cmd argv)) (requests (dm_queue d)) = Some i"
    and "\<not> grant_usable_by (wo_procs w) (ci_pid ci) (requests (dm_queue d) ! i)"
  shows "\<exists>d'. consume_once_grant w vn scope canon cmd argv d = (True, d') \<and> action_approved w ci vn scope canon cmd argv d'"
proof -
  let ?r = "(requests (dm_queue d) ! i)\<lparr>rq_status := StatusUsed, rq_capability := [], rq_granted_until := 0, rq_decided_at := wo_now w\<rparr>"
  let ?P = "grant_matches (wo_now w) canon (action_fingerprint (wo_sha256 w) vn scope canon cmd argv)
      (Some (grant_usable_by (wo_procs w) (ci_pid ci)))"
  have "List.find ?P ((requests (dm_queue d))[i := ?r]) = List.find ?P (requests (dm_queue d))"
    using find_index_Some [OF assms(4)] assms(5) by (intro find_skip) (simp_all add: grant_matches_def)
  then show ?thesis
    using assms(1-4)
    by (simp add: consume_once_grant_def consume_once_def action_approved_def action_approved_until_def action_grant_for_def
        action_grant_request_def io_ok_def committing_def)
qed

definition once_grant :: "string \<Rightarrow> string \<Rightarrow> request" where
  "once_grant agent fp = (blank_request KindActionUnpinned \<lparr>ro_pid = 0, ro_exe = [], ro_cwd = [], ro_tty = [], ro_user = [],
      ro_agent = [], ro_agent_pid = 0, ro_agent_key = agent, ro_proc_key = [], ro_attended = False\<rparr>)
    \<lparr>rq_once := True, rq_status := StatusApproved, rq_subject := ''/w/.byn'', rq_fingerprint := fp, rq_granted_until := 200\<rparr>"

lemma once_grant_usable:
  "grant_usable_by ex_procs 90 (once_grant ''70:1070'' fp)" "\<not> grant_usable_by ex_procs 90 (once_grant ''99:1'' fp)"
proof -
  have k: "parse_agent_key ''70:1070'' = (\<lparr>pr_pid = 70, pr_start = 1070\<rparr>, True)"
      "parse_agent_key ''99:1'' = (\<lparr>pr_pid = 99, pr_start = 1\<rparr>, True)" "parse_agent_key [] = (no_ref, False)"
    by (simp_all add: parse_agent_key_def parse_int_def parse_uint_def digit_val_def Let_def ref_ok_def max_duration_def
        min_duration_def has_prefix_def)
  have i: "caller_identity ex_procs 90 = \<lparr>pr_pid = 70, pr_start = 1070\<rparr>"
    unfolding caller_identity_def maxIdentityHops_def
    by (simp add: identity_walk_numeral Let_def ex_procs_def parent_of_def comm_of_def transient_wrappers_def)
  show "grant_usable_by ex_procs 90 (once_grant ''70:1070'' fp)"
    using k i by (simp add: grant_usable_by_def once_grant_def blank_request_def shares_ancestry_def ref_ok_def)
  have "\<not> shares_ancestry ex_procs 90 [\<lparr>pr_pid = 99, pr_start = 1\<rparr>]"
    using shares_ancestry_sound [of ex_procs 90 "\<lparr>pr_pid = 99, pr_start = 1\<rparr>"] by (auto simp: ex_procs_def)
  then show "\<not> grant_usable_by ex_procs 90 (once_grant ''99:1'' fp)"
    using k by (simp add: grant_usable_by_def once_grant_def blank_request_def)
qed

theorem single_use_grant_survives_its_use_witness:
  "\<exists>fp d'. consume_once_grant (exec_world_with forged_record ''wild'') ''default'' (scope_of (xq_scope (ex_req ''/w/.byn''))) ''/w/.byn''
       ''make'' [''make''] (ex_daemon\<lparr>dm_queue := \<lparr>requests = [once_grant ''99:1'' fp, once_grant ''70:1070'' fp], holds = [], denials = []\<rparr>\<rparr>)
     = (True, d') \<and>
     action_approved (exec_world_with forged_record ''wild'') ex_caller ''default'' (scope_of (xq_scope (ex_req ''/w/.byn''))) ''/w/.byn''
       ''make'' [''make''] d'"
proof -
  let ?w = "exec_world_with forged_record ''wild''"
  let ?sc = "scope_of (xq_scope (ex_req ''/w/.byn''))"
  define fp where "fp = action_fingerprint (\<lambda>x. x) ''default'' ?sc ''/w/.byn'' ''make'' [''make'']"
  let ?d = "ex_daemon\<lparr>dm_queue := \<lparr>requests = [once_grant ''99:1'' fp, once_grant ''70:1070'' fp], holds = [], denials = []\<rparr>\<rparr>"
  have c: "ci_pid ex_caller = 90" by (simp add: ex_caller_def)
  have s: "grant_matches 100 ''/w/.byn'' fp (Some (grant_usable_by ex_procs 90)) (once_grant ''70:1070'' fp)"
      "\<not> grant_matches 100 ''/w/.byn'' fp (Some (grant_usable_by ex_procs 90)) (once_grant ''99:1'' fp)"
      "spendable 100 ''/w/.byn'' fp (once_grant ''99:1'' fp)"
    using once_grant_usable [of fp]
    by (simp_all add: grant_matches_def spendable_def once_grant_def blank_request_def kind_grants_def time_before_def)
  have a: "action_approved ?w ex_caller ''default'' ?sc ''/w/.byn'' ''make'' [''make''] ?d"
    using s c by (simp add: action_approved_def action_approved_until_def action_grant_for_def action_grant_request_def
        io_ok_def fp_def [symmetric])
  show ?thesis
    using single_use_grant_survives_its_use [of ?w ex_caller "''default''" ?sc "''/w/.byn''" "''make''" "[''make'']" ?d 0]
      a s c once_grant_usable [of fp]
    by (intro exI [of _ fp]) (simp add: fp_def [symmetric])
qed

section \<open>Smaller gaps\<close>

text \<open>The separator of the ad hoc fingerprint is a byte an argument may contain.\<close>

lemma adhoc_separator_in_argument:
  "adhoc_approval_key sha256 vn scope subject [''sh'', ''-c'' @ [CHR 0x1F] @ x] vars = (c1, s1, fp) \<Longrightarrow>
   snd (snd (adhoc_approval_key sha256 vn scope subject [''sh'', ''-c'', x] vars)) = fp"
  by (auto simp: adhoc_approval_key_def Let_def)

text \<open>A reason keeps the control characters of the second control block, such as U+009B.\<close>

lemma reason_keeps_c1_control: "request_reason [CHR 0xC2, CHR 0x9B] = [CHR 0xC2, CHR 0x9B]"
proof -
  have m: "lead_match space_runes [CHR 0xC2, CHR 0x9B] = None" "lead_match space_runes [CHR 0x9B] = None"
      "lead_match space_runes [] = None"
    by (simp_all add: space_runes_literal lead_match_def)
  have "str_fields [CHR 0xC2, CHR 0x9B] = [[CHR 0xC2, CHR 0x9B]]"
    by (simp add: str_fields_def fields_from.simps [of _ "[CHR 0xC2, CHR 0x9B]"] fields_from.simps [of _ "[CHR 0x9B]"]
      fields_from.simps [of _ "[]"] m)
  then show ?thesis
    by (simp add: request_reason_def clean_char_def cap_text_def)
qed

end
