(* ===== verification/Vault_Crypto.thy ===== *)
theory Vault_Crypto
  imports Go_Prelude
begin

text \<open>
  The primitives of the vault, \<open>internal/vault/crypto\<close>: rows sealed under 32-byte keys with
  bound context, the tree of derived keys, the password wrap of the vault key, and sealed
  capabilities.

  ChaCha20-Poly1305, HKDF, Argon2id and the JSON encoding of a key map are third-party or
  library code: the fields of \<open>crypto_lib\<close>. Random draws are arguments, \<open>None\<close> where
  \<open>rand.Read\<close> fails. Zeroing a key after use has no effect on any value and is not modelled.
\<close>

section \<open>The library\<close>

record crypto_lib =
  cl_seal :: "bytes \<Rightarrow> bytes \<Rightarrow> bytes \<Rightarrow> bytes \<Rightarrow> bytes"
  cl_open :: "bytes \<Rightarrow> bytes \<Rightarrow> bytes \<Rightarrow> bytes \<Rightarrow> bytes option"
  cl_hkdf :: "bytes \<Rightarrow> bytes \<Rightarrow> bytes"
  cl_argon2 :: "bytes \<Rightarrow> bytes \<Rightarrow> nat \<Rightarrow> nat \<Rightarrow> nat \<Rightarrow> bytes"
  cl_marshal :: "bytes go_map \<Rightarrow> bytes"
  cl_unmarshal :: "bytes \<Rightarrow> bytes go_map option"

datatype crypto_error = ErrWrongPassword | ErrTampered | ErrBadFormat | ErrBadKey | ErrBadParams | ErrRand

text \<open>
  What the code relies on: opening succeeds exactly for what sealing under the same key, nonce
  and context gives, the tag is 16 bytes, derived keys are 32 bytes long.
\<close>

definition aead_works :: "crypto_lib \<Rightarrow> bool" where
  "aead_works cl \<longleftrightarrow>
     (\<forall>k n c p a. length k = 32 \<longrightarrow> length n = 24 \<longrightarrow> (cl_open cl k n c a = Some p \<longleftrightarrow> c = cl_seal cl k n p a)) \<and>
     (\<forall>k n p a. length (cl_seal cl k n p a) = length p + 16) \<and>
     (\<forall>s i. length (cl_hkdf cl s i) = 32) \<and>
     (\<forall>p s t m c. length (cl_argon2 cl p s t m c) = 32)"

definition json_keeps :: "crypto_lib \<Rightarrow> bool" where
  "json_keeps cl \<longleftrightarrow> (\<forall>m. go_map_ok m \<longrightarrow>
     (\<exists>m'. cl_unmarshal cl (cl_marshal cl m) = Some m' \<and> go_map_ok m' \<and> map_get m' = map_get m))"

section \<open>Rows\<close>

definition VaultKeySize :: nat where "VaultKeySize = 32"
definition NonceSizeX :: nat where "NonceSizeX = 24"
definition EncryptFormatVersion :: char where "EncryptFormatVersion = CHR 0x01"

definition build_aad :: "bytes \<Rightarrow> bytes" where
  "build_aad userAAD = (if length userAAD = 0 then [EncryptFormatVersion] else EncryptFormatVersion # userAAD)"

definition encrypt_with_aad :: "crypto_lib \<Rightarrow> bytes option \<Rightarrow> bytes \<Rightarrow> bytes \<Rightarrow> bytes \<Rightarrow> crypto_error + bytes" where
  "encrypt_with_aad cl draw key plaintext userAAD =
     (if length key \<noteq> VaultKeySize then Inl ErrBadKey
      else case draw of
        None \<Rightarrow> Inl ErrRand
      | Some nonce \<Rightarrow> Inr (EncryptFormatVersion # nonce @ cl_seal cl key nonce plaintext (build_aad userAAD)))"

definition decrypt_with_aad :: "crypto_lib \<Rightarrow> bytes \<Rightarrow> bytes \<Rightarrow> bytes \<Rightarrow> crypto_error + bytes" where
  "decrypt_with_aad cl key ciphertext userAAD =
     (if length key \<noteq> VaultKeySize then Inl ErrBadKey
      else if length ciphertext < 1 + NonceSizeX then Inl ErrTampered
      else if ciphertext ! 0 \<noteq> EncryptFormatVersion then Inl ErrTampered
      else let nonce = take NonceSizeX (drop 1 ciphertext); body = drop (1 + NonceSizeX) ciphertext in
        case cl_open cl key nonce body (build_aad userAAD) of
          None \<Rightarrow> Inl ErrTampered | Some pt \<Rightarrow> Inr pt)"

definition encrypt_row :: "crypto_lib \<Rightarrow> bytes option \<Rightarrow> bytes \<Rightarrow> bytes \<Rightarrow> crypto_error + bytes" where
  "encrypt_row cl draw vaultKey plaintext = encrypt_with_aad cl draw vaultKey plaintext []"

definition decrypt_row :: "crypto_lib \<Rightarrow> bytes \<Rightarrow> bytes \<Rightarrow> crypto_error + bytes" where
  "decrypt_row cl vaultKey ciphertext = decrypt_with_aad cl vaultKey ciphertext []"

section \<open>Derived keys\<close>

definition rowKeyInfoPrefix :: string where "rowKeyInfoPrefix = ''byn/row-key/v1'' @ [CHR 0x00]"
definition envKeyInfoPrefix :: string where "envKeyInfoPrefix = ''byn/env-key/v1'' @ [CHR 0x00]"
definition rowFromEnvInfoPrefix :: string where "rowFromEnvInfoPrefix = ''byn/row-key/v2'' @ [CHR 0x00]"
definition authoredKeyInfoPrefix :: string where "authoredKeyInfoPrefix = ''byn/authored-key/v1'' @ [CHR 0x00]"
definition rowFromAuthoredInfoPrefix :: string where
  "rowFromAuthoredInfoPrefix = ''byn/row-key/authored/v1'' @ [CHR 0x00]"
definition annotationKeyInfoPrefix :: string where "annotationKeyInfoPrefix = ''byn/annotation-key/v1'' @ [CHR 0x00]"
definition capKeyInfo :: string where "capKeyInfo = ''byn/exec-cap-key/v1'' @ [CHR 0x00]"
definition capAAD :: bytes where "capAAD = ''byn/exec-cap/v1''"

definition expand_key :: "crypto_lib \<Rightarrow> bytes \<Rightarrow> string \<Rightarrow> bytes \<Rightarrow> bytes" where
  "expand_key cl secret pre ctx = cl_hkdf cl secret (pre @ ctx)"

definition derive_from :: "crypto_lib \<Rightarrow> string \<Rightarrow> bytes \<Rightarrow> bytes \<Rightarrow> crypto_error + bytes" where
  "derive_from cl pre key ctx =
     (if length key \<noteq> VaultKeySize then Inl ErrBadKey else Inr (expand_key cl key pre ctx))"

definition derive_env_key where "derive_env_key cl vaultKey ctx = derive_from cl envKeyInfoPrefix vaultKey ctx"
definition derive_row_key where "derive_row_key cl vaultKey ctx = derive_from cl rowKeyInfoPrefix vaultKey ctx"
definition derive_row_key_from_env_key where
  "derive_row_key_from_env_key cl envKey ctx = derive_from cl rowFromEnvInfoPrefix envKey ctx"
definition derive_authored_key where
  "derive_authored_key cl vaultKey ctx = derive_from cl authoredKeyInfoPrefix vaultKey ctx"
definition derive_row_key_from_authored_key where
  "derive_row_key_from_authored_key cl authoredKey ctx = derive_from cl rowFromAuthoredInfoPrefix authoredKey ctx"
definition derive_annotation_key where
  "derive_annotation_key cl baseKey ctx = derive_from cl annotationKeyInfoPrefix baseKey ctx"

definition derive_cap_key :: "crypto_lib \<Rightarrow> bytes \<Rightarrow> crypto_error + bytes" where
  "derive_cap_key cl machineFingerprint =
     (if length machineFingerprint = 0 then Inl ErrBadKey else Inr (cl_hkdf cl machineFingerprint capKeyInfo))"

section \<open>Capabilities\<close>

definition seal_capability :: "crypto_lib \<Rightarrow> bytes option \<Rightarrow> bytes \<Rightarrow> bytes go_map \<Rightarrow> crypto_error + bytes" where
  "seal_capability cl draw capKey rowKeys =
     (if length capKey \<noteq> VaultKeySize then Inl ErrBadKey
      else encrypt_with_aad cl draw capKey (cl_marshal cl rowKeys) capAAD)"

definition open_capability :: "crypto_lib \<Rightarrow> bytes \<Rightarrow> bytes \<Rightarrow> crypto_error + bytes go_map" where
  "open_capability cl capKey blob =
     (if length capKey \<noteq> VaultKeySize then Inl ErrBadKey
      else case decrypt_with_aad cl capKey blob capAAD of
        Inl e \<Rightarrow> Inl e
      | Inr pt \<Rightarrow> (case cl_unmarshal cl pt of None \<Rightarrow> Inl ErrTampered | Some m \<Rightarrow> Inr m))"

section \<open>The password wrap\<close>

record argon_params =
  ap_time :: nat
  ap_memory :: nat
  ap_threads :: nat

definition DefaultArgon2Params :: argon_params where
  "DefaultArgon2Params = \<lparr>ap_time = 2, ap_memory = 64 * 1024, ap_threads = 4\<rparr>"

definition WrapFormatVersion :: char where "WrapFormatVersion = CHR 0x01"
definition SaltSize :: nat where "SaltSize = 32"
definition wrapHeaderFixedLen :: nat where "wrapHeaderFixedLen = 18"
definition maxArgon2Time :: nat where "maxArgon2Time = 16"
definition maxArgon2MemoryK :: nat where "maxArgon2MemoryK = 1048576"
definition maxArgon2Threads :: nat where "maxArgon2Threads = 16"

definition validate_params :: "argon_params \<Rightarrow> bool" where
  "validate_params p \<longleftrightarrow>
     \<not> (ap_time p < 1 \<or> ap_memory p < 8 * 1024 \<or> ap_threads p < 1) \<and>
     \<not> (ap_time p > maxArgon2Time \<or> ap_memory p > maxArgon2MemoryK \<or> ap_threads p > maxArgon2Threads)"

definition encode_header :: "argon_params \<Rightarrow> bytes \<Rightarrow> bytes \<Rightarrow> bytes" where
  "encode_header p salt nonce =
     WrapFormatVersion # be32 (ap_time p) @ be32 (ap_memory p) @ [char_of (ap_threads p)] @
     be32 (length salt) @ be32 (length nonce) @ salt @ nonce"

record wrapped_key =
  wk_params :: argon_params
  wk_salt :: bytes
  wk_nonce :: bytes
  wk_body :: bytes
  wk_header :: bytes

definition byte_range :: "nat \<Rightarrow> nat \<Rightarrow> bytes \<Rightarrow> bytes" where
  "byte_range a b s = take (b - a) (drop a s)"

definition decode_wrapped :: "bytes \<Rightarrow> crypto_error + wrapped_key" where
  "decode_wrapped wrapped =
     (if length wrapped < wrapHeaderFixedLen then Inl ErrBadFormat
      else if wrapped ! 0 \<noteq> WrapFormatVersion then Inl ErrBadFormat
      else
        let params = \<lparr>ap_time = un_be32 (byte_range 1 5 wrapped), ap_memory = un_be32 (byte_range 5 9 wrapped),
                      ap_threads = of_char (wrapped ! 9)\<rparr>;
            saltLen = un_be32 (byte_range 10 14 wrapped);
            nonceLen = un_be32 (byte_range 14 18 wrapped);
            maxField = 1048576 in
        if saltLen > maxField \<or> nonceLen > maxField then Inl ErrBadFormat
        else
          let need = wrapHeaderFixedLen + saltLen + nonceLen in
          if length wrapped < need then Inl ErrBadFormat
          else if \<not> validate_params params then Inl ErrBadParams
          else
            let nonce = byte_range (wrapHeaderFixedLen + saltLen) need wrapped in
            if length nonce \<noteq> NonceSizeX then Inl ErrBadFormat
            else Inr \<lparr>wk_params = params, wk_salt = byte_range wrapHeaderFixedLen (wrapHeaderFixedLen + saltLen) wrapped,
                   wk_nonce = nonce, wk_body = drop need wrapped, wk_header = take need wrapped\<rparr>)"

definition new_vault_key :: "bytes option \<Rightarrow> crypto_error + bytes" where
  "new_vault_key draw = (case draw of None \<Rightarrow> Inl ErrRand | Some k \<Rightarrow> Inr k)"

definition wrapping_key :: "crypto_lib \<Rightarrow> bytes \<Rightarrow> bytes \<Rightarrow> argon_params \<Rightarrow> bytes" where
  "wrapping_key cl password salt p = cl_argon2 cl password salt (ap_time p) (ap_memory p) (ap_threads p)"

definition wrap_key ::
  "crypto_lib \<Rightarrow> bytes option \<Rightarrow> bytes option \<Rightarrow> bytes \<Rightarrow> bytes \<Rightarrow> argon_params \<Rightarrow> crypto_error + bytes" where
  "wrap_key cl saltDraw nonceDraw password vaultKey params =
     (if length vaultKey \<noteq> VaultKeySize then Inl ErrBadKey
      else if \<not> validate_params params then Inl ErrBadParams
      else case saltDraw of
        None \<Rightarrow> Inl ErrRand
      | Some salt \<Rightarrow>
          (case nonceDraw of
             None \<Rightarrow> Inl ErrRand
           | Some nonce \<Rightarrow>
               let header = encode_header params salt nonce in
               Inr (header @ cl_seal cl (wrapping_key cl password salt params) nonce vaultKey header)))"

definition unwrap_key :: "crypto_lib \<Rightarrow> bytes \<Rightarrow> bytes \<Rightarrow> crypto_error + bytes" where
  "unwrap_key cl password wrapped =
     (case decode_wrapped wrapped of
        Inl e \<Rightarrow> Inl e
      | Inr wk \<Rightarrow>
          (case cl_open cl (wrapping_key cl password (wk_salt wk) (wk_params wk)) (wk_nonce wk) (wk_body wk) (wk_header wk) of
             None \<Rightarrow> Inl ErrWrongPassword
           | Some pt \<Rightarrow> if length pt \<noteq> VaultKeySize then Inl ErrBadFormat else Inr pt))"

section \<open>What sealing promises\<close>

lemma build_aad_eq: "build_aad a = EncryptFormatVersion # a"
  by (simp add: build_aad_def)

lemma aead_open_iff:
  "aead_works cl \<Longrightarrow> length k = 32 \<Longrightarrow> length n = 24 \<Longrightarrow> cl_open cl k n c a = Some p \<longleftrightarrow> c = cl_seal cl k n p a"
  by (simp add: aead_works_def)

lemma aead_lengths:
  assumes "aead_works cl"
  shows "length (cl_seal cl k n p a) = length p + 16" "length (cl_hkdf cl s i) = 32" "length (cl_argon2 cl w s t m c) = 32"
  using assms by (simp_all add: aead_works_def)

text \<open>Opening characterises sealing: what opens is what was sealed under this key and context.\<close>

lemma decrypt_iff:
  assumes "aead_works cl" and "length key = 32"
  shows "decrypt_with_aad cl key ct aad = Inr p \<longleftrightarrow>
    (\<exists>nonce. length nonce = 24 \<and> encrypt_with_aad cl (Some nonce) key p aad = Inr ct)"
proof
  assume d: "decrypt_with_aad cl key ct aad = Inr p"
  let ?n = "take 24 (drop 1 ct)"
  have l: "25 \<le> length ct" "ct ! 0 = EncryptFormatVersion" "cl_open cl key ?n (drop 25 ct) (build_aad aad) = Some p"
    using d by (auto simp: decrypt_with_aad_def NonceSizeX_def Let_def split: if_splits option.splits)
  have n: "length ?n = 24" using l(1) by simp
  obtain v rest where r: "ct = v # rest" using l(1) by (cases ct) auto
  have "drop 25 ct = cl_seal cl key ?n p (build_aad aad)" using aead_open_iff [OF assms n] l(3) by blast
  moreover have "ct = EncryptFormatVersion # ?n @ drop 25 ct" using l(2) r by simp
  ultimately have "encrypt_with_aad cl (Some ?n) key p aad = Inr ct"
    using assms(2) by (simp add: encrypt_with_aad_def VaultKeySize_def)
  then show "\<exists>nonce. length nonce = 24 \<and> encrypt_with_aad cl (Some nonce) key p aad = Inr ct" using n by blast
next
  assume "\<exists>nonce. length nonce = 24 \<and> encrypt_with_aad cl (Some nonce) key p aad = Inr ct"
  then obtain n where n: "length n = 24" "ct = EncryptFormatVersion # n @ cl_seal cl key n p (build_aad aad)"
    using assms(2) by (auto simp: encrypt_with_aad_def VaultKeySize_def)
  moreover have "cl_open cl key n (cl_seal cl key n p (build_aad aad)) (build_aad aad) = Some p"
    using aead_open_iff [OF assms n(1)] by blast
  ultimately show "decrypt_with_aad cl key ct aad = Inr p"
    using assms(2) by (simp add: decrypt_with_aad_def VaultKeySize_def NonceSizeX_def Let_def)
qed

lemma encrypt_ok:
  "length key = 32 \<Longrightarrow> \<exists>ct. encrypt_with_aad cl (Some nonce) key p aad = Inr ct"
  by (simp add: encrypt_with_aad_def VaultKeySize_def)

lemma encrypt_length:
  "aead_works cl \<Longrightarrow> encrypt_with_aad cl (Some nonce) key p aad = Inr ct \<Longrightarrow> length nonce = 24 \<Longrightarrow> length ct = length p + 41"
  by (auto simp: encrypt_with_aad_def aead_lengths split: if_splits)

lemma derive_ok:
  assumes "aead_works cl" and "derive_from cl pre key ctx = Inr k"
  shows "length k = 32"
  using assms by (auto simp: derive_from_def expand_key_def aead_lengths split: if_splits)

text \<open>A ciphertext that opens under another context, or under another key, is a forgery of the AEAD.\<close>

definition aead_forged :: "crypto_lib \<Rightarrow> bytes \<Rightarrow> bytes \<Rightarrow> bytes \<Rightarrow> bytes \<Rightarrow> bool" where
  "aead_forged cl k a k' a' \<longleftrightarrow>
     (k, a) \<noteq> (k', a') \<and> (\<exists>n p p'. length n = 24 \<and> cl_seal cl k n p a = cl_seal cl k' n p' a')"

lemma moved_ciphertext:
  assumes "aead_works cl" and "length k = 32" and "length k' = 32" and "length nonce = 24"
    and "encrypt_with_aad cl (Some nonce) k p a = Inr ct" and "decrypt_with_aad cl k' ct a' = Inr p'" and "a \<noteq> a'"
  shows "aead_forged cl k (build_aad a) k' (build_aad a')"
proof -
  obtain n' where "length n' = 24" "encrypt_with_aad cl (Some n') k' p' a' = Inr ct"
    using decrypt_iff [OF assms(1,3)] assms(6) by blast
  then have "nonce @ cl_seal cl k nonce p (build_aad a) = n' @ cl_seal cl k' n' p' (build_aad a')" "length n' = length nonce"
    using assms(2,3,4,5) by (auto simp: encrypt_with_aad_def VaultKeySize_def)
  then have "n' = nonce" "cl_seal cl k nonce p (build_aad a) = cl_seal cl k' n' p' (build_aad a')"
    by (auto simp: append_eq_append_conv)
  then show ?thesis
    using assms(4,7) by (auto simp: aead_forged_def build_aad_eq)
qed

section \<open>What the wrap promises\<close>

lemma byte_range_append:
  "length a = n \<Longrightarrow> byte_range n m (a @ s) = take (m - n) s"
  by (simp add: byte_range_def)

lemma decode_encoded:
  assumes "validate_params p" and "length salt \<le> 1048576" and "length nonce = 24"
  shows "decode_wrapped (encode_header p salt nonce @ body) =
    Inr \<lparr>wk_params = p, wk_salt = salt, wk_nonce = nonce, wk_body = body, wk_header = encode_header p salt nonce\<rparr>"
proof -
  obtain a1 a2 a3 a4 where t: "be32 (ap_time p) = [a1, a2, a3, a4]" by (simp add: be32_def)
  obtain b1 b2 b3 b4 where m: "be32 (ap_memory p) = [b1, b2, b3, b4]" by (simp add: be32_def)
  obtain c1 c2 c3 c4 where s: "be32 (length salt) = [c1, c2, c3, c4]" by (simp add: be32_def)
  obtain d1 d2 d3 d4 where n: "be32 (length nonce) = [d1, d2, d3, d4]" by (simp add: be32_def)
  have v: "ap_time p < 4294967296" "ap_memory p < 4294967296" "ap_threads p < 256" "length salt < 4294967296"
      "length nonce < 4294967296"
    using assms by (auto simp: validate_params_def maxArgon2Time_def maxArgon2MemoryK_def maxArgon2Threads_def)
  have u: "un_be32 [a1, a2, a3, a4] = ap_time p" "un_be32 [b1, b2, b3, b4] = ap_memory p"
      "un_be32 [c1, c2, c3, c4] = length salt" "un_be32 [d1, d2, d3, d4] = 24"
    using un_be32_be32 [OF v(1)] un_be32_be32 [OF v(2)] un_be32_be32 [OF v(4)] un_be32_be32 [OF v(5)] t m s n assms(3)
    by simp_all
  have h: "encode_header p salt nonce @ body = WrapFormatVersion # a1 # a2 # a3 # a4 # b1 # b2 # b3 # b4 # char_of (ap_threads p) #
      c1 # c2 # c3 # c4 # d1 # d2 # d3 # d4 # salt @ nonce @ body"
    by (simp add: encode_header_def t m s n)
  have e: "take (18 + length salt + 24) (encode_header p salt nonce @ body) = encode_header p salt nonce"
  proof -
    have "length (encode_header p salt nonce) = 18 + length salt + 24" using assms(3) by (simp add: encode_header_def)
    then show ?thesis by (metis append_eq_conv_conj)
  qed
  have p: "\<lparr>ap_time = ap_time p, ap_memory = ap_memory p, ap_threads = of_char (char_of (ap_threads p))\<rparr> = p"
    using v(3) by simp
  let ?w = "encode_header p salt nonce @ body"
  have f: "byte_range 1 5 ?w = [a1, a2, a3, a4]" "byte_range 5 9 ?w = [b1, b2, b3, b4]" "?w ! 9 = char_of (ap_threads p)"
      "byte_range 10 14 ?w = [c1, c2, c3, c4]" "byte_range 14 18 ?w = [d1, d2, d3, d4]" "?w ! 0 = WrapFormatVersion"
    unfolding h by (simp_all add: byte_range_def)
  have l: "length ?w = 42 + length salt + length body" using assms(3) by (simp add: encode_header_def)
  have d18: "drop 18 ?w = salt @ nonce @ body" unfolding h by simp
  have r: "byte_range 18 (18 + length salt) ?w = salt" "byte_range (18 + length salt) (42 + length salt) ?w = nonce"
      "drop (42 + length salt) ?w = body"
  proof -
    have "drop (18 + n) ?w = drop n (salt @ nonce @ body)" for n
      using d18 by (metis add.commute drop_drop)
    from this [of 0] this [of "length salt"] this [of "24 + length salt"]
    show "byte_range 18 (18 + length salt) ?w = salt" "byte_range (18 + length salt) (42 + length salt) ?w = nonce"
        "drop (42 + length salt) ?w = body"
      using assms(3) by (simp_all add: byte_range_def add.commute)
  qed
  have t42: "take (42 + length salt) ?w = encode_header p salt nonce" using e by (simp add: add.commute)
  show ?thesis
    unfolding decode_wrapped_def f l u p Let_def
    using assms r t42 by (simp add: wrapHeaderFixedLen_def NonceSizeX_def add.commute)
qed

lemma unwrap_wrapped:
  assumes "aead_works cl" and "wrap_key cl (Some salt) (Some nonce) pw vk p = Inr w"
    and "length salt = 32" and "length nonce = 24"
  shows "unwrap_key cl pw' w = Inr k \<longleftrightarrow> length k = 32 \<and>
    cl_seal cl (wrapping_key cl pw' salt p) nonce k (encode_header p salt nonce) =
    cl_seal cl (wrapping_key cl pw salt p) nonce vk (encode_header p salt nonce)"
proof -
  have v: "validate_params p" "w = encode_header p salt nonce @ cl_seal cl (wrapping_key cl pw salt p) nonce vk (encode_header p salt nonce)"
    using assms(2) by (auto simp: wrap_key_def Let_def split: if_splits)
  have d: "decode_wrapped w = Inr \<lparr>wk_params = p, wk_salt = salt, wk_nonce = nonce,
      wk_body = cl_seal cl (wrapping_key cl pw salt p) nonce vk (encode_header p salt nonce), wk_header = encode_header p salt nonce\<rparr>"
    unfolding v(2) using v(1) assms(3,4) by (intro decode_encoded) simp_all
  have l: "length (wrapping_key cl pw' salt p) = 32" using assms(1) by (simp add: wrapping_key_def aead_lengths)
  have "unwrap_key cl pw' w = Inr k \<longleftrightarrow> length k = 32 \<and>
      cl_open cl (wrapping_key cl pw' salt p) nonce (cl_seal cl (wrapping_key cl pw salt p) nonce vk (encode_header p salt nonce))
        (encode_header p salt nonce) = Some k"
    using d by (auto simp: unwrap_key_def VaultKeySize_def split: option.splits)
  then show ?thesis
    unfolding aead_open_iff [OF assms(1) l assms(4)] by (auto dest: sym)
qed

text \<open>The right password gives the key back, and a wrong one at most where Argon2id or the AEAD collide.\<close>

lemma unwrap_right_password:
  assumes "aead_works cl" and "wrap_key cl (Some salt) (Some nonce) pw vk p = Inr w"
    and "length salt = 32" and "length nonce = 24"
  shows "unwrap_key cl pw w = Inr vk"
  using unwrap_wrapped [OF assms, of pw vk] assms(2) by (auto simp: wrap_key_def VaultKeySize_def split: if_splits)

lemma unwrap_other_password:
  assumes "aead_works cl" and "wrap_key cl (Some salt) (Some nonce) pw vk p = Inr w"
    and "length salt = 32" and "length nonce = 24" and "unwrap_key cl pw' w = Inr k"
  shows "wrapping_key cl pw' salt p = wrapping_key cl pw salt p \<and> k = vk \<or>
    aead_forged cl (wrapping_key cl pw salt p) (encode_header p salt nonce) (wrapping_key cl pw' salt p) (encode_header p salt nonce)"
proof (cases "wrapping_key cl pw' salt p = wrapping_key cl pw salt p")
  case True
  then show ?thesis
    using unwrap_wrapped [OF assms(1-4), of pw' k] unwrap_right_password [OF assms(1-4)] assms(5)
      unwrap_wrapped [OF assms(1-4), of pw k] by auto
next
  case False
  then show ?thesis
    using unwrap_wrapped [OF assms(1-4), of pw' k] assms(4,5) unfolding aead_forged_def by (metis prod.inject)
qed

lemma capability_opens:
  assumes "aead_works cl" and "json_keeps cl" and "go_map_ok m" and "length nonce = 24"
    and "seal_capability cl (Some nonce) key m = Inr blob"
  shows "\<exists>m'. open_capability cl key blob = Inr m' \<and> go_map_ok m' \<and> map_get m' = map_get m"
proof -
  have "length key = 32" "encrypt_with_aad cl (Some nonce) key (cl_marshal cl m) capAAD = Inr blob"
    using assms(5) by (auto simp: seal_capability_def VaultKeySize_def split: if_splits)
  then have "decrypt_with_aad cl key blob capAAD = Inr (cl_marshal cl m)"
    using decrypt_iff [OF assms(1)] assms(4) by blast
  then show ?thesis
    using assms(2,3) \<open>length key = 32\<close> by (auto simp: open_capability_def json_keeps_def VaultKeySize_def)
qed

end
