(* ===== verification/Vault_DB.thy ===== *)
theory Vault_DB
  imports Vault_Crypto Vault_Names
begin

text \<open>
  The tables of one vault (\<open>internal/vault/schema.go\<close>) and the operations on projects and
  environments (\<open>internal/vault/store.go\<close>).

  SQLite is a library: a table is the list of its rows in the order of their ids, a statement is
  what it does to the rows, the foreign keys are \<open>cascade\<close>, the unique indexes are the checks in
  front of an insertion or a renaming. \<open>store_io\<close> says whether the statements that read and the
  transaction that writes succeed; a failed transaction leaves the tables alone.
\<close>

section \<open>Tables\<close>

record project_row =
  pj_id :: int
  pj_name :: string
  pj_created :: int
  pj_updated :: int

record env_row =
  en_id :: int
  en_project :: int
  en_name :: string
  en_default :: bool
  en_created :: int
  en_updated :: int

datatype entry_kind = EnvVar | FileEntry

record entry_row =
  nt_id :: int
  nt_project :: int
  nt_env :: int
  nt_kind :: entry_kind
  nt_name :: string
  nt_value :: bytes
  nt_aad :: int
  nt_created :: int
  nt_updated :: int

datatype object_type = ObjectVault | ObjectProject | ObjectEnv | ObjectEntry | ObjectTrust | ObjectRun | ObjectPasskey
datatype annotation_kind = KindDescription | KindNote
datatype key_domain = DomainNone | DomainEnv | DomainAuthored | DomainVault
datatype author_kind = AuthorOwner | AuthorAgent
datatype version_op = OpCreate | OpEdit | OpDelete

record annotation_row =
  an_id :: int
  an_uid :: bytes
  an_type :: object_type
  an_object :: string
  an_kind :: annotation_kind
  an_body :: "string option"
  an_body_enc :: "bytes option"
  an_domain :: key_domain
  an_author :: author_kind
  an_comm :: "string option"
  an_created :: int
  an_updated :: int
  an_deleted :: "int option"

record version_row =
  av_annotation :: int
  av_no :: nat
  av_body :: "string option"
  av_body_enc :: "bytes option"
  av_op :: version_op
  av_author :: author_kind
  av_comm :: "string option"
  av_created :: int

record snapshot_row =
  sn_id :: int
  sn_parent :: "int option"
  sn_project :: int
  sn_env :: int
  sn_created :: int

record snapshot_entry =
  sx_snapshot :: int
  sx_name :: string
  sx_ref :: "(int \<times> string) option"

record exec_run_meta =
  rm_byn_path :: string
  rm_command :: string
  rm_caller_pid :: int
  rm_caller_comm :: string
  rm_caller_agent :: int
  rm_agent_comm :: string
  rm_caller_cwd :: string
  rm_unattended :: "string list"

record run_row =
  rn_id :: int
  rn_at :: int
  rn_snapshot :: "int option"
  rn_meta :: exec_run_meta

record passkey_row =
  pk_id :: int
  pk_credential :: bytes
  pk_public :: bytes
  pk_sign_count :: nat
  pk_aaguid :: bytes
  pk_transports :: string
  pk_label :: string
  pk_backup_eligible :: bool
  pk_backup_state :: bool
  pk_created :: int

datatype table = TProjects | TEnvs | TEntries | TAnnotations | TSnapshots | TRuns | TPasskeys

text \<open>\<open>db_seq\<close> is \<open>sqlite_sequence\<close>: the last id handed out in a table with AUTOINCREMENT.\<close>

record vault_db =
  db_meta :: "string go_map"
  db_projects :: "project_row list"
  db_envs :: "env_row list"
  db_entries :: "entry_row list"
  db_annotations :: "annotation_row list"
  db_versions :: "version_row list"
  db_snapshots :: "snapshot_row list"
  db_refs :: "snapshot_entry list"
  db_runs :: "run_row list"
  db_passkeys :: "passkey_row list"
  db_seq :: "table \<Rightarrow> int"

definition next_id :: "table \<Rightarrow> vault_db \<Rightarrow> int" where
  "next_id t db = db_seq db t + 1"

definition take_id :: "table \<Rightarrow> vault_db \<Rightarrow> vault_db" where
  "take_id t db = db\<lparr>db_seq := (db_seq db)(t := next_id t db)\<rparr>"

section \<open>Errors\<close>

datatype vault_error =
    ErrLocked | ErrEntryNotFound | ErrEntryExists | ErrBadName | ErrValueTooLarge
  | ErrProjectNotFound | ErrProjectExists | ErrEnvNotFound | ErrEnvExists | ErrEnvProtected
  | ErrBadProjectName | ErrBadEnvName | ErrSQL string | ErrReadWrapped | ErrCrypto crypto_error
  | ErrUnknownAad int | ErrUnknownDomain | ErrScopeKeyUnsupported | ErrRowKeyUnsupported | ErrAuthoredKeyUnsupported
  | ErrInheritedUnreachable string bool bool | ErrValueSuperseded | ErrOwnAncestor int
  | ErrTooManyNotes | ErrNotAnnotatable | ErrEmptyText | ErrTextTooLarge | ErrPasskeyFields

definition validate_project_name :: "string \<Rightarrow> vault_error option" where
  "validate_project_name name = (if vault_name_re name then None else Some ErrBadProjectName)"

definition validate_env_name :: "string \<Rightarrow> vault_error option" where
  "validate_env_name name = (if vault_name_re name then None else Some ErrBadEnvName)"

definition scope_validate :: "vault_scope \<Rightarrow> vault_error option" where
  "scope_validate s = (case validate_project_name (sc_project s) of Some e \<Rightarrow> Some e | None \<Rightarrow> validate_env_name (sc_env s))"

section \<open>Deleting\<close>

text \<open>
  What the foreign keys do after rows are gone: environments go with their project, entries and
  snapshots with their project or environment, snapshot entries with their snapshot, versions
  with their annotation; a parent or a run's snapshot that is gone becomes NULL.
\<close>

definition live_ref :: "int list \<Rightarrow> int option \<Rightarrow> int option" where
  "live_ref ids r = (case r of None \<Rightarrow> None | Some i \<Rightarrow> if i \<in> set ids then Some i else None)"

definition cascade :: "vault_db \<Rightarrow> vault_db" where
  "cascade db =
     (let ps = map pj_id (db_projects db);
          envs = filter (\<lambda>e. en_project e \<in> set ps) (db_envs db);
          es = map en_id envs;
          snaps = filter (\<lambda>s. sn_project s \<in> set ps \<and> sn_env s \<in> set es) (db_snapshots db);
          ss = map sn_id snaps in
      db\<lparr>db_envs := envs,
        db_entries := filter (\<lambda>n. nt_project n \<in> set ps \<and> nt_env n \<in> set es) (db_entries db),
        db_snapshots := map (\<lambda>s. s\<lparr>sn_parent := live_ref ss (sn_parent s)\<rparr>) snaps,
        db_refs := filter (\<lambda>x. sx_snapshot x \<in> set ss) (db_refs db),
        db_runs := map (\<lambda>r. r\<lparr>rn_snapshot := live_ref ss (rn_snapshot r)\<rparr>) (db_runs db)\<rparr>)"

text \<open>\<open>CAST(object_id AS INTEGER)\<close>: the longest numeric prefix, 0 where there is none.\<close>

definition leading_nat :: "string \<Rightarrow> nat" where
  "leading_nat s = foldl (\<lambda>n c. 10 * n + (of_char c - 48)) 0 (takeWhile is_digit s)"

definition cast_integer :: "string \<Rightarrow> int" where
  "cast_integer s = (case s of [] \<Rightarrow> 0
     | c # cs \<Rightarrow> if c = CHR ''-'' then - int (leading_nat cs) else if c = CHR ''+'' then int (leading_nat cs)
         else int (leading_nat s))"

definition orphan :: "vault_db \<Rightarrow> annotation_row \<Rightarrow> bool" where
  "orphan db a \<longleftrightarrow>
     (let i = cast_integer (an_object a) in
      (case an_type a of
         ObjectProject \<Rightarrow> i \<notin> set (map pj_id (db_projects db))
       | ObjectEnv \<Rightarrow> i \<notin> set (map en_id (db_envs db))
       | ObjectEntry \<Rightarrow> i \<notin> set (map nt_id (db_entries db))
       | ObjectRun \<Rightarrow> i \<notin> set (map rn_id (db_runs db))
       | ObjectPasskey \<Rightarrow> i \<notin> set (map pk_id (db_passkeys db))
       | ObjectVault \<Rightarrow> False
       | ObjectTrust \<Rightarrow> False))"

definition drop_annotations :: "(annotation_row \<Rightarrow> bool) \<Rightarrow> vault_db \<Rightarrow> vault_db" where
  "drop_annotations P db =
     (let kept = filter (\<lambda>a. \<not> P a) (db_annotations db) in
      db\<lparr>db_annotations := kept, db_versions := filter (\<lambda>v. av_annotation v \<in> an_id ` set kept) (db_versions db)\<rparr>)"

definition sweep_orphans :: "vault_db \<Rightarrow> vault_db" where
  "sweep_orphans db = drop_annotations (orphan db) db"

text \<open>The store: its tables, the key in memory, the id from the meta table, the file \<open>wrapped.key\<close>.\<close>

record vault =
  vt_id :: string
  vt_key :: "bytes option"
  vt_wrapped :: "bytes option"
  vt_db :: vault_db

text \<open>
  One write transaction: where the database fails nothing changes, else the statements either
  end in an error of the code (a constraint, no row hit) or in the new tables.
\<close>

definition transact :: "store_io \<Rightarrow> vault \<Rightarrow> vault_error + 'a \<times> vault_db \<Rightarrow> (vault_error + 'a) \<times> vault" where
  "transact io v stmts =
     (case save_error io of Some e \<Rightarrow> (Inl (ErrSQL e), v)
      | None \<Rightarrow> (case stmts of Inl e \<Rightarrow> (Inl e, v) | Inr (res, db) \<Rightarrow> (Inr res, v\<lparr>vt_db := db\<rparr>)))"

definition delete_and_sweep :: "store_io \<Rightarrow> (vault_db \<Rightarrow> nat \<times> vault_db) \<Rightarrow> vault \<Rightarrow> (vault_error + nat) \<times> vault" where
  "delete_and_sweep io del v =
     transact io v (case del (vt_db v) of (n, db) \<Rightarrow> Inr (n, if n > 0 then sweep_orphans (cascade db) else db))"

section \<open>Projects\<close>

definition find_project :: "vault_db \<Rightarrow> string \<Rightarrow> project_row option" where
  "find_project db name = List.find (\<lambda>p. pj_name p = name) (db_projects db)"

definition find_env :: "vault_db \<Rightarrow> int \<Rightarrow> string \<Rightarrow> env_row option" where
  "find_env db pid name = List.find (\<lambda>e. en_project e = pid \<and> en_name e = name) (db_envs db)"

definition project_id_by_name :: "store_io \<Rightarrow> vault_db \<Rightarrow> string \<Rightarrow> vault_error + int" where
  "project_id_by_name io db name =
     (case load_error io of Some e \<Rightarrow> Inl (ErrSQL e)
      | None \<Rightarrow> (case find_project db name of None \<Rightarrow> Inl ErrProjectNotFound | Some p \<Rightarrow> Inr (pj_id p)))"

definition env_id_by_name :: "store_io \<Rightarrow> vault_db \<Rightarrow> int \<Rightarrow> string \<Rightarrow> vault_error + int" where
  "env_id_by_name io db pid name =
     (case load_error io of Some e \<Rightarrow> Inl (ErrSQL e)
      | None \<Rightarrow> (case find_env db pid name of None \<Rightarrow> Inl ErrEnvNotFound | Some e \<Rightarrow> Inr (en_id e)))"

definition scope_ids :: "store_io \<Rightarrow> vault_db \<Rightarrow> vault_scope \<Rightarrow> vault_error + int \<times> int" where
  "scope_ids io db s =
     (case project_id_by_name io db (sc_project s) of
        Inl e \<Rightarrow> Inl e
      | Inr pid \<Rightarrow> (case env_id_by_name io db pid (sc_env s) of Inl e \<Rightarrow> Inl e | Inr eid \<Rightarrow> Inr (pid, eid)))"

definition insert_env :: "int \<Rightarrow> int \<Rightarrow> string \<Rightarrow> bool \<Rightarrow> vault_db \<Rightarrow> vault_db" where
  "insert_env now pid name dflt db =
     take_id TEnvs (db\<lparr>db_envs := db_envs db @ [\<lparr>en_id = next_id TEnvs db, en_project = pid, en_name = name,
       en_default = dflt, en_created = now, en_updated = now\<rparr>]\<rparr>)"

definition insert_project :: "int \<Rightarrow> string \<Rightarrow> vault_db \<Rightarrow> vault_db" where
  "insert_project now name db =
     (let pid = next_id TProjects db in
      insert_env now pid DefaultEnvName True
        (take_id TProjects (db\<lparr>db_projects := db_projects db @ [\<lparr>pj_id = pid, pj_name = name, pj_created = now, pj_updated = now\<rparr>]\<rparr>)))"

definition create_project :: "store_io \<Rightarrow> int \<Rightarrow> string \<Rightarrow> vault \<Rightarrow> (vault_error + unit) \<times> vault" where
  "create_project io now name v =
     (case validate_project_name name of Some e \<Rightarrow> (Inl e, v) | None \<Rightarrow>
      transact io v
        (if find_project (vt_db v) name \<noteq> None then Inl ErrProjectExists else Inr ((), insert_project now name (vt_db v))))"

definition list_projects :: "store_io \<Rightarrow> vault \<Rightarrow> vault_error + project_row list" where
  "list_projects io v =
     (case load_error io of Some e \<Rightarrow> Inl (ErrSQL e) | None \<Rightarrow> Inr (sort_key pj_name (db_projects (vt_db v))))"

definition rows_deleted :: "('a \<Rightarrow> bool) \<Rightarrow> 'a list \<Rightarrow> nat" where
  "rows_deleted P xs = length (filter P xs)"

definition delete_project :: "store_io \<Rightarrow> string \<Rightarrow> vault \<Rightarrow> (vault_error + unit) \<times> vault" where
  "delete_project io name v =
     (case validate_project_name name of Some e \<Rightarrow> (Inl e, v) | None \<Rightarrow>
      (case delete_and_sweep io (\<lambda>db. (rows_deleted (\<lambda>p. pj_name p = name) (db_projects db),
               db\<lparr>db_projects := filter (\<lambda>p. pj_name p \<noteq> name) (db_projects db)\<rparr>)) v of
         (Inl e, v) \<Rightarrow> (Inl e, v)
       | (Inr n, v) \<Rightarrow> (if n = 0 then Inl ErrProjectNotFound else Inr (), v)))"

definition rename_project_stmts :: "int \<Rightarrow> string \<Rightarrow> string \<Rightarrow> vault_db \<Rightarrow> vault_error + unit \<times> vault_db" where
  "rename_project_stmts now oldName newName db =
     (if find_project db oldName = None then Inl ErrProjectNotFound
      else if find_project db newName \<noteq> None then Inl ErrProjectExists
      else Inr ((), db\<lparr>db_projects := map (\<lambda>p. if pj_name p = oldName
          then p\<lparr>pj_name := newName, pj_updated := now\<rparr> else p) (db_projects db)\<rparr>))"

definition rename_project :: "store_io \<Rightarrow> int \<Rightarrow> string \<Rightarrow> string \<Rightarrow> vault \<Rightarrow> (vault_error + unit) \<times> vault" where
  "rename_project io now oldName newName v =
     (case validate_project_name oldName of Some e \<Rightarrow> (Inl e, v) | None \<Rightarrow>
      (case validate_project_name newName of Some e \<Rightarrow> (Inl e, v) | None \<Rightarrow>
       if oldName = newName then (Inr (), v)
       else transact io v (rename_project_stmts now oldName newName (vt_db v))))"

section \<open>Environments\<close>

definition create_env :: "store_io \<Rightarrow> int \<Rightarrow> string \<Rightarrow> string \<Rightarrow> vault \<Rightarrow> (vault_error + unit) \<times> vault" where
  "create_env io now project name v =
     (case validate_project_name project of Some e \<Rightarrow> (Inl e, v) | None \<Rightarrow>
      (case validate_env_name name of Some e \<Rightarrow> (Inl e, v) | None \<Rightarrow>
       if name = DefaultEnvName then (Inl ErrEnvExists, v)
       else case project_id_by_name io (vt_db v) project of
         Inl e \<Rightarrow> (Inl e, v)
       | Inr pid \<Rightarrow>
           transact io v
             (if find_env (vt_db v) pid name \<noteq> None then Inl ErrEnvExists else Inr ((), insert_env now pid name False (vt_db v)))))"

definition list_envs :: "store_io \<Rightarrow> string \<Rightarrow> vault \<Rightarrow> vault_error + env_row list" where
  "list_envs io project v =
     (case validate_project_name project of Some e \<Rightarrow> Inl e | None \<Rightarrow>
      (case project_id_by_name io (vt_db v) project of
         Inl e \<Rightarrow> Inl e
       | Inr pid \<Rightarrow>
           let es = sort_key en_name (filter (\<lambda>e. en_project e = pid) (db_envs (vt_db v))) in
           Inr (filter en_default es @ filter (\<lambda>e. \<not> en_default e) es)))"

text \<open>\<open>DELETE FROM envs WHERE project_id = ? AND name = ? AND is_default = 0\<close> and the row \<open>RenameEnv\<close> updates.\<close>

definition named_env :: "int \<Rightarrow> string \<Rightarrow> env_row \<Rightarrow> bool" where
  "named_env pid name e \<longleftrightarrow> en_project e = pid \<and> en_name e = name \<and> \<not> en_default e"

definition delete_envs :: "store_io \<Rightarrow> (env_row \<Rightarrow> bool) \<Rightarrow> vault \<Rightarrow> (vault_error + nat) \<times> vault" where
  "delete_envs io hit v =
     delete_and_sweep io (\<lambda>db. (rows_deleted hit (db_envs db), db\<lparr>db_envs := filter (\<lambda>e. \<not> hit e) (db_envs db)\<rparr>)) v"

definition delete_env :: "store_io \<Rightarrow> string \<Rightarrow> string \<Rightarrow> vault \<Rightarrow> (vault_error + unit) \<times> vault" where
  "delete_env io project name v =
     (case validate_project_name project of Some e \<Rightarrow> (Inl e, v) | None \<Rightarrow>
      (case validate_env_name name of Some e \<Rightarrow> (Inl e, v) | None \<Rightarrow>
       if name = DefaultEnvName then (Inl ErrEnvProtected, v)
       else case project_id_by_name io (vt_db v) project of
         Inl e \<Rightarrow> (Inl e, v)
       | Inr pid \<Rightarrow>
           (case delete_envs io (named_env pid name) v of
              (Inl e, v) \<Rightarrow> (Inl e, v)
            | (Inr n, v) \<Rightarrow> (if n = 0 then Inl ErrEnvNotFound else Inr (), v))))"

definition rename_env_stmts :: "int \<Rightarrow> int \<Rightarrow> string \<Rightarrow> string \<Rightarrow> vault_db \<Rightarrow> vault_error + unit \<times> vault_db" where
  "rename_env_stmts now pid oldName newName db =
     (if \<not> list_ex (named_env pid oldName) (db_envs db) then Inl ErrEnvNotFound
      else if find_env db pid newName \<noteq> None then Inl ErrEnvExists
      else Inr ((), db\<lparr>db_envs := map (\<lambda>e. if named_env pid oldName e then e\<lparr>en_name := newName, en_updated := now\<rparr> else e)
        (db_envs db)\<rparr>))"

definition rename_env :: "store_io \<Rightarrow> int \<Rightarrow> string \<Rightarrow> string \<Rightarrow> string \<Rightarrow> vault \<Rightarrow> (vault_error + unit) \<times> vault" where
  "rename_env io now project oldName newName v =
     (case validate_project_name project of Some e \<Rightarrow> (Inl e, v) | None \<Rightarrow>
      (case validate_env_name oldName of Some e \<Rightarrow> (Inl e, v) | None \<Rightarrow>
       (case validate_env_name newName of Some e \<Rightarrow> (Inl e, v) | None \<Rightarrow>
        if oldName = DefaultEnvName \<or> newName = DefaultEnvName then (Inl ErrEnvProtected, v)
        else if oldName = newName then (Inr (), v)
        else case project_id_by_name io (vt_db v) project of
          Inl e \<Rightarrow> (Inl e, v)
        | Inr pid \<Rightarrow> transact io v (rename_env_stmts now pid oldName newName (vt_db v)))))"

section \<open>A fresh vault\<close>

definition metaKeySchemaVersion :: string where "metaKeySchemaVersion = ''schema_version''"
definition metaKeyVaultID :: string where "metaKeyVaultID = ''vault_id''"
definition metaKeyName :: string where "metaKeyName = ''name''"
definition metaKeyCreatedAt :: string where "metaKeyCreatedAt = ''created_at''"
definition metaKeyDefaultProjectID :: string where "metaKeyDefaultProjectID = ''default_project_id''"
definition MetaKeyAuditChainSeed :: string where "MetaKeyAuditChainSeed = ''audit_chain_seed''"
definition MetaKeyAuditChainHead :: string where "MetaKeyAuditChainHead = ''audit_chain_head''"
definition MetaKeyEntriesStateHash :: string where "MetaKeyEntriesStateHash = ''entries_state_hash''"

definition schemaVersion :: nat where "schemaVersion = 9"

text \<open>\<open>createSchema\<close> and \<open>bootstrapDefaults\<close>; \<open>seed\<close> are the 32 random bytes of the audit chain.\<close>

definition create_schema :: "int \<Rightarrow> bytes \<Rightarrow> string \<Rightarrow> string \<Rightarrow> vault_db" where
  "create_schema now seed vaultID vaultName =
     \<lparr>db_meta = [(metaKeySchemaVersion, nat_dec schemaVersion), (metaKeyVaultID, vaultID), (metaKeyName, vaultName),
        (metaKeyCreatedAt, int_dec now), (MetaKeyAuditChainSeed, hex_encode seed), (MetaKeyAuditChainHead, []),
        (MetaKeyEntriesStateHash, [])],
      db_projects = [], db_envs = [], db_entries = [], db_annotations = [], db_versions = [], db_snapshots = [],
      db_refs = [], db_runs = [], db_passkeys = [], db_seq = (\<lambda>_. 0)\<rparr>"

definition bootstrap_defaults :: "int \<Rightarrow> vault_db \<Rightarrow> vault_db" where
  "bootstrap_defaults now db =
     (let pid = next_id TProjects db in
      (insert_project now DefaultProjectName db)\<lparr>db_meta := db_meta db @ [(metaKeyDefaultProjectID, int_dec pid)]\<rparr>)"

definition meta_get :: "store_io \<Rightarrow> string \<Rightarrow> vault \<Rightarrow> vault_error + string" where
  "meta_get io k v =
     (case load_error io of Some e \<Rightarrow> Inl (ErrSQL e)
      | None \<Rightarrow> Inr (case map_get (db_meta (vt_db v)) k of None \<Rightarrow> [] | Some x \<Rightarrow> x))"

definition meta_set :: "store_io \<Rightarrow> string \<Rightarrow> string \<Rightarrow> vault \<Rightarrow> (vault_error + unit) \<times> vault" where
  "meta_set io k x v = transact io v (Inr ((), (vt_db v)\<lparr>db_meta := map_put (db_meta (vt_db v)) k x\<rparr>))"

end
