(* ===== verification/Vault_Store.thy ===== *)
theory Vault_Store
  imports Vault_DB
begin

text \<open>
  Values: the keys of rows, and every operation on environment variables of
  \<open>internal/vault/store.go\<close>, the writes and reads of a locked vault (\<open>authored.go\<close>) and of
  inherited rows (\<open>inherited.go\<close>). The random nonce of a write is an argument.
\<close>

section \<open>Identity and keys of a row\<close>

definition unit_sep :: char where "unit_sep = CHR 0x1F"

fun kind_aad :: "entry_kind \<Rightarrow> bytes" where
  "kind_aad EnvVar = ''env_var''"
| "kind_aad FileEntry = ''file''"

definition entry_aad :: "string \<Rightarrow> entry_kind \<Rightarrow> string \<Rightarrow> bytes" where
  "entry_aad vid kind name = vid @ [unit_sep] @ kind_aad kind @ [unit_sep] @ name"

definition aadVersionVaultKey :: int where "aadVersionVaultKey = 1"
definition aadVersionRowKey :: int where "aadVersionRowKey = 2"
definition aadVersionEnvKey :: int where "aadVersionEnvKey = 3"
definition aadVersionAuthoredKey :: int where "aadVersionAuthoredKey = 4"
definition currentAADVersion :: int where "currentAADVersion = aadVersionEnvKey"

lemmas aad_versions = aadVersionVaultKey_def aadVersionRowKey_def aadVersionEnvKey_def aadVersionAuthoredKey_def
  currentAADVersion_def

definition scope_aad :: "string \<Rightarrow> int \<Rightarrow> int \<Rightarrow> bytes" where
  "scope_aad vid pid eid = vid @ [unit_sep] @ int_dec pid @ [unit_sep] @ int_dec eid"

definition row_aad :: "entry_kind \<Rightarrow> string \<Rightarrow> bytes" where
  "row_aad kind name = kind_aad kind @ [unit_sep] @ name"

definition entry_aad_v3 :: "string \<Rightarrow> int \<Rightarrow> int \<Rightarrow> entry_kind \<Rightarrow> string \<Rightarrow> bytes" where
  "entry_aad_v3 vid pid eid kind name = scope_aad vid pid eid @ [unit_sep] @ kind_aad kind @ [unit_sep] @ name"

definition env_key :: "crypto_lib \<Rightarrow> string \<Rightarrow> bytes \<Rightarrow> int \<Rightarrow> int \<Rightarrow> crypto_error + bytes" where
  "env_key cl vid vaultKey pid eid = derive_env_key cl vaultKey (scope_aad vid pid eid)"

definition authored_key :: "crypto_lib \<Rightarrow> string \<Rightarrow> bytes \<Rightarrow> int \<Rightarrow> int \<Rightarrow> crypto_error + bytes" where
  "authored_key cl vid vaultKey pid eid = derive_authored_key cl vaultKey (scope_aad vid pid eid)"

definition authored_row_key :: "crypto_lib \<Rightarrow> bytes \<Rightarrow> entry_kind \<Rightarrow> string \<Rightarrow> crypto_error + bytes" where
  "authored_row_key cl authoredKey kind name = derive_row_key_from_authored_key cl authoredKey (row_aad kind name)"

definition v3_row_key :: "crypto_lib \<Rightarrow> string \<Rightarrow> bytes \<Rightarrow> int \<Rightarrow> int \<Rightarrow> entry_kind \<Rightarrow> string \<Rightarrow> crypto_error + bytes" where
  "v3_row_key cl vid vaultKey pid eid kind name =
     (case env_key cl vid vaultKey pid eid of
        Inl e \<Rightarrow> Inl e | Inr kenv \<Rightarrow> derive_row_key_from_env_key cl kenv (row_aad kind name))"

definition seal_entry ::
  "crypto_lib \<Rightarrow> string \<Rightarrow> bytes option \<Rightarrow> bytes \<Rightarrow> int \<Rightarrow> int \<Rightarrow> entry_kind \<Rightarrow> string \<Rightarrow> bytes \<Rightarrow> crypto_error + bytes" where
  "seal_entry cl vid draw vaultKey pid eid kind name val =
     (case v3_row_key cl vid vaultKey pid eid kind name of
        Inl e \<Rightarrow> Inl e | Inr krow \<Rightarrow> encrypt_with_aad cl draw krow val (entry_aad_v3 vid pid eid kind name))"

definition as_vault :: "crypto_error + 'a \<Rightarrow> vault_error + 'a" where
  "as_vault r = (case r of Inl e \<Rightarrow> Inl (ErrCrypto e) | Inr x \<Rightarrow> Inr x)"

definition open_entry ::
  "crypto_lib \<Rightarrow> string \<Rightarrow> bytes \<Rightarrow> int \<Rightarrow> int \<Rightarrow> int \<Rightarrow> entry_kind \<Rightarrow> string \<Rightarrow> bytes \<Rightarrow> vault_error + bytes" where
  "open_entry cl vid vaultKey aadVersion pid eid kind name ct =
     (if aadVersion = aadVersionVaultKey then as_vault (decrypt_with_aad cl vaultKey ct (entry_aad vid kind name))
      else if aadVersion = aadVersionRowKey then
        (case derive_row_key cl vaultKey (entry_aad vid kind name) of
           Inl e \<Rightarrow> Inl (ErrCrypto e)
         | Inr krow \<Rightarrow> as_vault (decrypt_with_aad cl krow ct (entry_aad vid kind name)))
      else if aadVersion = aadVersionEnvKey then
        (case v3_row_key cl vid vaultKey pid eid kind name of
           Inl e \<Rightarrow> Inl (ErrCrypto e)
         | Inr krow \<Rightarrow> as_vault (decrypt_with_aad cl krow ct (entry_aad_v3 vid pid eid kind name)))
      else if aadVersion = aadVersionAuthoredKey then
        (case authored_key cl vid vaultKey pid eid of
           Inl e \<Rightarrow> Inl (ErrCrypto e)
         | Inr kauth \<Rightarrow>
             (case authored_row_key cl kauth kind name of
                Inl e \<Rightarrow> Inl (ErrCrypto e)
              | Inr krow \<Rightarrow> as_vault (decrypt_with_aad cl krow ct (entry_aad_v3 vid pid eid kind name))))
      else Inl (ErrUnknownAad aadVersion))"

section \<open>The key of the vault\<close>

definition unwrap_vault_key :: "crypto_lib \<Rightarrow> bytes \<Rightarrow> vault \<Rightarrow> vault_error + bytes" where
  "unwrap_vault_key cl password v =
     (case vt_wrapped v of None \<Rightarrow> Inl ErrReadWrapped | Some w \<Rightarrow> as_vault (unwrap_key cl password w))"

definition unlock_vault :: "crypto_lib \<Rightarrow> bytes \<Rightarrow> vault \<Rightarrow> (vault_error + unit) \<times> vault" where
  "unlock_vault cl password v =
     (case unwrap_vault_key cl password v of Inl e \<Rightarrow> (Inl e, v) | Inr vk \<Rightarrow> (Inr (), v\<lparr>vt_key := Some vk\<rparr>))"

definition verify_password :: "crypto_lib \<Rightarrow> bytes \<Rightarrow> vault \<Rightarrow> vault_error + unit" where
  "verify_password cl password v = (case unwrap_vault_key cl password v of Inl e \<Rightarrow> Inl e | Inr _ \<Rightarrow> Inr ())"

definition lock_vault :: "vault \<Rightarrow> vault" where "lock_vault v = v\<lparr>vt_key := None\<rparr>"

definition is_locked :: "vault \<Rightarrow> bool" where "is_locked v \<longleftrightarrow> vt_key v = None"

definition derive_subkey :: "crypto_lib \<Rightarrow> string \<Rightarrow> vault \<Rightarrow> vault_error + bytes" where
  "derive_subkey cl info v = (case vt_key v of None \<Rightarrow> Inl ErrLocked | Some vk \<Rightarrow> Inr (cl_hkdf cl vk info))"

definition derive_subkey_with_password :: "crypto_lib \<Rightarrow> bytes \<Rightarrow> string \<Rightarrow> vault \<Rightarrow> vault_error + bytes" where
  "derive_subkey_with_password cl password info v =
     (case unwrap_vault_key cl password v of Inl e \<Rightarrow> Inl e | Inr vk \<Rightarrow> Inr (cl_hkdf cl vk info))"

text \<open>What the operations on values share: the name checks, and the key in memory.\<close>

definition checked_name :: "vault_scope \<Rightarrow> string \<Rightarrow> vault_error option" where
  "checked_name scope name =
     (case scope_validate scope of Some e \<Rightarrow> Some e | None \<Rightarrow> if entry_name_ok name then None else Some ErrBadName)"

section \<open>Rows\<close>

definition row_at :: "vault_db \<Rightarrow> int \<Rightarrow> int \<Rightarrow> string \<Rightarrow> entry_row option" where
  "row_at db pid eid name = List.find (\<lambda>n. nt_project n = pid \<and> nt_env n = eid \<and> nt_name n = name) (db_entries db)"

definition fetch_entry :: "store_io \<Rightarrow> vault_db \<Rightarrow> int \<Rightarrow> int \<Rightarrow> entry_kind \<Rightarrow> string \<Rightarrow> vault_error + entry_row option" where
  "fetch_entry io db pid eid kind name =
     (case load_error io of Some e \<Rightarrow> Inl (ErrSQL e)
      | None \<Rightarrow> Inr (List.find (\<lambda>n. nt_project n = pid \<and> nt_env n = eid \<and> nt_kind n = kind \<and> nt_name n = name) (db_entries db)))"

definition fetch_inherited ::
  "store_io \<Rightarrow> vault_db \<Rightarrow> int \<Rightarrow> int \<Rightarrow> string \<Rightarrow> string \<Rightarrow> vault_error + (entry_row \<times> int) option" where
  "fetch_inherited io db pid eid scopeEnv name =
     (case fetch_entry io db pid eid EnvVar name of
        Inl e \<Rightarrow> Inl e
      | Inr (Some r) \<Rightarrow> Inr (Some (r, eid))
      | Inr None \<Rightarrow>
          if scopeEnv = DefaultEnvName then Inr None
          else (case env_id_by_name io db pid DefaultEnvName of
            Inl e \<Rightarrow> Inl e
          | Inr dflt \<Rightarrow> (case fetch_entry io db pid dflt EnvVar name of
              Inl e \<Rightarrow> Inl e | Inr None \<Rightarrow> Inr None | Inr (Some r) \<Rightarrow> Inr (Some (r, dflt)))))"

definition upsert_env_var :: "int \<Rightarrow> int \<Rightarrow> int \<Rightarrow> string \<Rightarrow> bytes \<Rightarrow> int \<Rightarrow> vault_db \<Rightarrow> vault_db" where
  "upsert_env_var now pid eid name ct ver db =
     (if row_at db pid eid name = None then
        take_id TEntries (db\<lparr>db_entries := db_entries db @ [\<lparr>nt_id = next_id TEntries db, nt_project = pid, nt_env = eid,
          nt_kind = EnvVar, nt_name = name, nt_value = ct, nt_aad = ver, nt_created = now, nt_updated = now\<rparr>]\<rparr>)
      else db\<lparr>db_entries := map (\<lambda>n. if nt_project n = pid \<and> nt_env n = eid \<and> nt_name n = name
          then n\<lparr>nt_value := ct, nt_aad := ver, nt_updated := now\<rparr> else n) (db_entries db)\<rparr>)"

definition write_env_var ::
  "store_io \<Rightarrow> int \<Rightarrow> bool \<Rightarrow> int \<Rightarrow> int \<Rightarrow> string \<Rightarrow> bytes \<Rightarrow> int \<Rightarrow> vault \<Rightarrow> (vault_error + unit) \<times> vault" where
  "write_env_var io now createOnly pid eid name ct ver v =
     transact io v
       (if createOnly \<and> row_at (vt_db v) pid eid name \<noteq> None then Inl ErrEntryExists
        else Inr ((), upsert_env_var now pid eid name ct ver (vt_db v)))"

section \<open>Put and get\<close>

definition put_with_key ::
  "crypto_lib \<Rightarrow> store_io \<Rightarrow> int \<Rightarrow> bytes option \<Rightarrow> bytes \<Rightarrow> vault_scope \<Rightarrow> string \<Rightarrow> bytes \<Rightarrow> bool \<Rightarrow> vault \<Rightarrow>
   (vault_error + unit) \<times> vault" where
  "put_with_key cl io now draw key scope name val createOnly v =
     (case scope_ids io (vt_db v) scope of
        Inl e \<Rightarrow> (Inl e, v)
      | Inr (pid, eid) \<Rightarrow>
          (case seal_entry cl (vt_id v) draw key pid eid EnvVar name val of
             Inl e \<Rightarrow> (Inl (ErrCrypto e), v)
           | Inr ct \<Rightarrow> write_env_var io now createOnly pid eid name ct currentAADVersion v))"

definition put_env_var ::
  "crypto_lib \<Rightarrow> store_io \<Rightarrow> int \<Rightarrow> bytes option \<Rightarrow> vault_scope \<Rightarrow> string \<Rightarrow> bytes \<Rightarrow> bool \<Rightarrow> vault \<Rightarrow>
   (vault_error + unit) \<times> vault" where
  "put_env_var cl io now draw scope name val createOnly v =
     (case checked_name scope name of Some e \<Rightarrow> (Inl e, v) | None \<Rightarrow>
      if length val > MaxValueLen then (Inl ErrValueTooLarge, v)
      else case vt_key v of
        None \<Rightarrow> (Inl ErrLocked, v)
      | Some key \<Rightarrow> put_with_key cl io now draw key scope name val createOnly v)"

definition put_env_var_with_password ::
  "crypto_lib \<Rightarrow> store_io \<Rightarrow> int \<Rightarrow> bytes option \<Rightarrow> bytes \<Rightarrow> vault_scope \<Rightarrow> string \<Rightarrow> bytes \<Rightarrow> bool \<Rightarrow> vault \<Rightarrow>
   (vault_error + unit) \<times> vault" where
  "put_env_var_with_password cl io now draw password scope name val createOnly v =
     (case checked_name scope name of Some e \<Rightarrow> (Inl e, v) | None \<Rightarrow>
      if length val > MaxValueLen then (Inl ErrValueTooLarge, v)
      else case unwrap_vault_key cl password v of
        Inl e \<Rightarrow> (Inl e, v)
      | Inr key \<Rightarrow> put_with_key cl io now draw key scope name val createOnly v)"

datatype source = SourceScope | SourceDefault

record entry =
  nv_name :: string
  nv_value :: bytes
  nv_kind :: entry_kind
  nv_source :: source
  nv_created :: int
  nv_updated :: int

definition decrypt_entry :: "crypto_lib \<Rightarrow> string \<Rightarrow> bytes \<Rightarrow> int \<Rightarrow> int \<Rightarrow> entry_row \<Rightarrow> source \<Rightarrow> vault_error + entry" where
  "decrypt_entry cl vid key pid eid r src =
     (case open_entry cl vid key (nt_aad r) pid eid (nt_kind r) (nt_name r) (nt_value r) of
        Inl e \<Rightarrow> Inl e
      | Inr pt \<Rightarrow> Inr \<lparr>nv_name = nt_name r, nv_value = pt, nv_kind = nt_kind r, nv_source = src,
          nv_created = nt_created r, nv_updated = nt_updated r\<rparr>)"

definition get_with_key :: "crypto_lib \<Rightarrow> store_io \<Rightarrow> bytes \<Rightarrow> vault_scope \<Rightarrow> string \<Rightarrow> vault \<Rightarrow> vault_error + entry" where
  "get_with_key cl io key scope name v =
     (case scope_ids io (vt_db v) scope of
        Inl e \<Rightarrow> Inl e
      | Inr (pid, eid) \<Rightarrow>
          (case fetch_entry io (vt_db v) pid eid EnvVar name of
             Inl e \<Rightarrow> Inl e
           | Inr (Some r) \<Rightarrow> decrypt_entry cl (vt_id v) key pid eid r SourceScope
           | Inr None \<Rightarrow>
               if sc_env scope = DefaultEnvName then Inl ErrEntryNotFound
               else case env_id_by_name io (vt_db v) pid DefaultEnvName of
                 Inl e \<Rightarrow> Inl e
               | Inr dflt \<Rightarrow>
                   (case fetch_entry io (vt_db v) pid dflt EnvVar name of
                      Inl e \<Rightarrow> Inl e
                    | Inr None \<Rightarrow> Inl ErrEntryNotFound
                    | Inr (Some r) \<Rightarrow> decrypt_entry cl (vt_id v) key pid dflt r SourceDefault)))"

definition get_env_var :: "crypto_lib \<Rightarrow> store_io \<Rightarrow> vault_scope \<Rightarrow> string \<Rightarrow> vault \<Rightarrow> vault_error + entry" where
  "get_env_var cl io scope name v =
     (case checked_name scope name of Some e \<Rightarrow> Inl e | None \<Rightarrow>
      (case vt_key v of None \<Rightarrow> Inl ErrLocked | Some key \<Rightarrow> get_with_key cl io key scope name v))"

definition get_env_var_with_password ::
  "crypto_lib \<Rightarrow> store_io \<Rightarrow> bytes \<Rightarrow> vault_scope \<Rightarrow> string \<Rightarrow> vault \<Rightarrow> vault_error + entry" where
  "get_env_var_with_password cl io password scope name v =
     (case checked_name scope name of Some e \<Rightarrow> Inl e | None \<Rightarrow>
      (case unwrap_vault_key cl password v of Inl e \<Rightarrow> Inl e | Inr key \<Rightarrow> get_with_key cl io key scope name v))"

section \<open>Lists\<close>

definition emptyCiphertextLen :: nat where "emptyCiphertextLen = 41"

record entry_info =
  ei_name :: string
  ei_kind :: entry_kind
  ei_source :: source
  ei_empty :: bool
  ei_created :: int
  ei_updated :: int
  ei_in_default :: bool
  ei_same :: "bool option"

definition env_vars_in :: "vault_db \<Rightarrow> int \<Rightarrow> int \<Rightarrow> entry_row list" where
  "env_vars_in db pid eid = filter (\<lambda>n. nt_project n = pid \<and> nt_env n = eid \<and> nt_kind n = EnvVar) (db_entries db)"

definition plain_info :: "source \<Rightarrow> entry_row \<Rightarrow> entry_info" where
  "plain_info src n = \<lparr>ei_name = nt_name n, ei_kind = nt_kind n, ei_source = src,
     ei_empty = (length (nt_value n) = emptyCiphertextLen), ei_created = nt_created n, ei_updated = nt_updated n,
     ei_in_default = False, ei_same = None\<rparr>"

text \<open>
  One row of the merged listing: an own row next to the default row it shadows, and what the
  lengths alone say about the two. \<open>undecided\<close> are the rows only the key can tell apart.
\<close>

definition shadow_info :: "entry_row list \<Rightarrow> entry_row \<Rightarrow> entry_info" where
  "shadow_info dflt n =
     (case List.find (\<lambda>d. nt_name d = nt_name n) dflt of
        None \<Rightarrow> plain_info SourceScope n
      | Some d \<Rightarrow> (plain_info SourceScope n)\<lparr>ei_in_default := True,
          ei_same := (if length (nt_value n) \<noteq> length (nt_value d) then Some False
            else if length (nt_value n) = emptyCiphertextLen then Some True else None)\<rparr>)"

definition undecided :: "entry_info \<Rightarrow> bool" where
  "undecided i \<longleftrightarrow> ei_in_default i \<and> ei_same i = None"

definition merged_infos :: "entry_row list \<Rightarrow> entry_row list \<Rightarrow> entry_info list" where
  "merged_infos own dflt =
     sort_key ei_name (map (shadow_info dflt) own @
       map (plain_info SourceDefault) (filter (\<lambda>d. nt_name d \<notin> set (map nt_name own)) dflt))"

definition equals_default ::
  "crypto_lib \<Rightarrow> store_io \<Rightarrow> vault \<Rightarrow> bytes \<Rightarrow> int \<Rightarrow> int \<Rightarrow> int \<Rightarrow> string \<Rightarrow> vault_error + bool" where
  "equals_default cl io v key pid eid dflt name =
     (case fetch_entry io (vt_db v) pid eid EnvVar name of
        Inl e \<Rightarrow> Inl e
      | Inr None \<Rightarrow> Inr False
      | Inr (Some own) \<Rightarrow>
          (case fetch_entry io (vt_db v) pid dflt EnvVar name of
             Inl e \<Rightarrow> Inl e
           | Inr None \<Rightarrow> Inr False
           | Inr (Some d) \<Rightarrow>
               (case decrypt_entry cl (vt_id v) key pid eid own SourceScope of
                  Inl e \<Rightarrow> Inl e
                | Inr a \<Rightarrow>
                    (case decrypt_entry cl (vt_id v) key pid dflt d SourceDefault of
                       Inl e \<Rightarrow> Inl e | Inr b \<Rightarrow> Inr (nv_value a = nv_value b)))))"

fun decide_same :: "(string \<Rightarrow> vault_error + bool) \<Rightarrow> entry_info list \<Rightarrow> vault_error + entry_info list" where
  "decide_same same [] = Inr []"
| "decide_same same (i # infos) =
     (case (if undecided i then map_sum id Some (same (ei_name i)) else Inr (ei_same i)) of
        Inl e \<Rightarrow> Inl e
      | Inr s \<Rightarrow> map_sum id (\<lambda>rest. i\<lparr>ei_same := s\<rparr> # rest) (decide_same same infos))"

definition list_env_vars :: "crypto_lib \<Rightarrow> store_io \<Rightarrow> vault_scope \<Rightarrow> vault \<Rightarrow> vault_error + entry_info list" where
  "list_env_vars cl io scope v =
     (case scope_validate scope of Some e \<Rightarrow> Inl e | None \<Rightarrow>
      (case scope_ids io (vt_db v) scope of
         Inl e \<Rightarrow> Inl e
       | Inr (pid, eid) \<Rightarrow>
           if sc_env scope = DefaultEnvName then
             Inr (map (plain_info SourceScope) (sort_key nt_name (env_vars_in (vt_db v) pid eid)))
           else case env_id_by_name io (vt_db v) pid DefaultEnvName of
             Inl e \<Rightarrow> Inl e
           | Inr dflt \<Rightarrow>
               (let infos = merged_infos (env_vars_in (vt_db v) pid eid) (env_vars_in (vt_db v) pid dflt) in
                case vt_key v of
                  None \<Rightarrow> Inr infos
                | Some key \<Rightarrow> decide_same (equals_default cl io v key pid eid dflt) infos)))"

section \<open>Delete and rename\<close>

definition has_env_var :: "store_io \<Rightarrow> vault_scope \<Rightarrow> string \<Rightarrow> vault \<Rightarrow> vault_error + bool" where
  "has_env_var io scope name v =
     (case checked_name scope name of Some e \<Rightarrow> Inl e | None \<Rightarrow>
      (case scope_ids io (vt_db v) scope of
         Inl e \<Rightarrow> Inl e
       | Inr (pid, eid) \<Rightarrow> map_sum id (\<lambda>r. r \<noteq> None) (fetch_entry io (vt_db v) pid eid EnvVar name)))"

definition delete_entries :: "store_io \<Rightarrow> (entry_row \<Rightarrow> bool) \<Rightarrow> vault \<Rightarrow> (vault_error + nat) \<times> vault" where
  "delete_entries io hit v =
     delete_and_sweep io (\<lambda>db. (rows_deleted hit (db_entries db),
       db\<lparr>db_entries := filter (\<lambda>n. \<not> hit n) (db_entries db)\<rparr>)) v"

definition delete_env_var :: "store_io \<Rightarrow> vault_scope \<Rightarrow> string \<Rightarrow> vault \<Rightarrow> (vault_error + unit) \<times> vault" where
  "delete_env_var io scope name v =
     (case checked_name scope name of Some e \<Rightarrow> (Inl e, v) | None \<Rightarrow>
      (case scope_ids io (vt_db v) scope of
         Inl e \<Rightarrow> (Inl e, v)
       | Inr (pid, eid) \<Rightarrow>
           (case delete_entries io (\<lambda>n. nt_project n = pid \<and> nt_env n = eid \<and> nt_kind n = EnvVar \<and> nt_name n = name) v of
              (Inl e, v) \<Rightarrow> (Inl e, v)
            | (Inr n, v) \<Rightarrow> (if n = 0 then Inl ErrEntryNotFound else Inr (), v))))"

definition clear_env_vars :: "store_io \<Rightarrow> vault_scope \<Rightarrow> vault \<Rightarrow> (vault_error + nat) \<times> vault" where
  "clear_env_vars io scope v =
     (case scope_validate scope of Some e \<Rightarrow> (Inl e, v) | None \<Rightarrow>
      (case scope_ids io (vt_db v) scope of
         Inl e \<Rightarrow> (Inl e, v)
       | Inr (pid, eid) \<Rightarrow> delete_entries io (\<lambda>n. nt_project n = pid \<and> nt_env n = eid \<and> nt_kind n = EnvVar) v))"

definition rename_stmts ::
  "crypto_lib \<Rightarrow> store_io \<Rightarrow> int \<Rightarrow> bytes option \<Rightarrow> bytes \<Rightarrow> int \<Rightarrow> int \<Rightarrow> string \<Rightarrow> string \<Rightarrow> vault \<Rightarrow>
   vault_error + unit \<times> vault_db" where
  "rename_stmts cl io now draw key pid eid oldName newName v =
     (if row_at (vt_db v) pid eid newName \<noteq> None then Inl ErrEntryExists
      else case fetch_entry io (vt_db v) pid eid EnvVar oldName of
        Inl e \<Rightarrow> Inl e
      | Inr None \<Rightarrow> Inl ErrEntryNotFound
      | Inr (Some r) \<Rightarrow>
          (case open_entry cl (vt_id v) key (nt_aad r) pid eid EnvVar oldName (nt_value r) of
             Inl e \<Rightarrow> Inl e
           | Inr pt \<Rightarrow>
               (case seal_entry cl (vt_id v) draw key pid eid EnvVar newName pt of
                  Inl e \<Rightarrow> Inl (ErrCrypto e)
                | Inr ct \<Rightarrow> Inr ((), (vt_db v)\<lparr>db_entries := map (\<lambda>n.
                    if nt_project n = pid \<and> nt_env n = eid \<and> nt_kind n = EnvVar \<and> nt_name n = oldName
                    then n\<lparr>nt_name := newName, nt_value := ct, nt_aad := currentAADVersion, nt_updated := now\<rparr> else n)
                    (db_entries (vt_db v))\<rparr>))))"

definition rename_env_var ::
  "crypto_lib \<Rightarrow> store_io \<Rightarrow> int \<Rightarrow> bytes option \<Rightarrow> vault_scope \<Rightarrow> string \<Rightarrow> string \<Rightarrow> vault \<Rightarrow>
   (vault_error + unit) \<times> vault" where
  "rename_env_var cl io now draw scope oldName newName v =
     (case checked_name scope oldName of Some e \<Rightarrow> (Inl e, v) | None \<Rightarrow>
      if \<not> entry_name_ok newName then (Inl ErrBadName, v)
      else if oldName = newName then (Inr (), v)
      else case scope_ids io (vt_db v) scope of
        Inl e \<Rightarrow> (Inl e, v)
      | Inr (pid, eid) \<Rightarrow>
          (case vt_key v of
             None \<Rightarrow> (Inl ErrLocked, v)
           | Some key \<Rightarrow> transact io v (rename_stmts cl io now draw key pid eid oldName newName v)))"

end
