(* ===== verification/Vault_Notes.thy ===== *)
theory Vault_Notes
  imports Vault_Store
begin

text \<open>
  Descriptions and notes on the objects of a vault, \<open>internal/vault/annotation.go\<close>. The object types
  and author kinds are closed datatypes here, so the checks for unknown ones have nothing to refuse.
  The 16 random bytes of a new annotation and the nonce of a sealed note are arguments, \<open>None\<close> where
  the random source fails.
\<close>

section \<open>Limits, objects, authors\<close>

definition MaxStoredDescriptionLen :: int where "MaxStoredDescriptionLen = 4096"
definition MaxNoteLen :: int where "MaxNoteLen = 65536"
definition MaxNotesPerObject :: int where "MaxNotesPerObject = 200"

record annotation_limits =
  al_description :: int
  al_note :: int
  al_notes :: int

definition or_default :: "int \<Rightarrow> int \<Rightarrow> int" where
  "or_default v def = (if v \<le> 0 then def else v)"

definition resolve_annotation_limits :: "annotation_limits \<Rightarrow> annotation_limits" where
  "resolve_annotation_limits l =
     \<lparr>al_description = or_default (al_description l) MaxStoredDescriptionLen, al_note = or_default (al_note l) MaxNoteLen,
       al_notes = or_default (al_notes l) MaxNotesPerObject\<rparr>"

definition max_description :: "annotation_limits \<Rightarrow> int" where
  "max_description l = or_default (al_description l) MaxStoredDescriptionLen"

definition max_note :: "annotation_limits \<Rightarrow> int" where
  "max_note l = or_default (al_note l) MaxNoteLen"

definition max_notes_per_object :: "annotation_limits \<Rightarrow> int" where
  "max_notes_per_object l = or_default (al_notes l) MaxNotesPerObject"

record object_ref =
  ob_type :: object_type
  ob_id :: string
  ob_project :: int
  ob_env :: int

definition entry_object :: "int \<Rightarrow> int \<Rightarrow> int \<Rightarrow> object_ref" where
  "entry_object i pid eid = \<lparr>ob_type = ObjectEntry, ob_id = int_dec i, ob_project = pid, ob_env = eid\<rparr>"

definition plain_object :: "object_type \<Rightarrow> int \<Rightarrow> object_ref" where
  "plain_object t i = \<lparr>ob_type = t, ob_id = int_dec i, ob_project = 0, ob_env = 0\<rparr>"

definition object_error :: "object_ref \<Rightarrow> vault_error option" where
  "object_error ref = (if ob_id ref = [] then Some ErrNotAnnotatable else None)"

record note_author =
  au_kind :: author_kind
  au_comm :: string

definition owner_author :: note_author where "owner_author = \<lparr>au_kind = AuthorOwner, au_comm = []\<rparr>"
definition agent_author :: "string \<Rightarrow> note_author" where "agent_author comm = \<lparr>au_kind = AuthorAgent, au_comm = comm\<rparr>"

definition null_comm :: "note_author \<Rightarrow> string option" where
  "null_comm a = (if au_comm a = [] then None else Some (au_comm a))"

record annotation =
  ao_id :: int
  ao_object :: object_ref
  ao_kind :: annotation_kind
  ao_body :: string
  ao_author :: author_kind
  ao_comm :: string
  ao_created :: int
  ao_updated :: int
  ao_deleted :: int

record annotation_version =
  ax_no :: nat
  ax_op :: version_op
  ax_body :: string
  ax_author :: author_kind
  ax_comm :: string
  ax_created :: int

definition or_empty :: "string option \<Rightarrow> string" where
  "or_empty s = (case s of None \<Rightarrow> [] | Some s \<Rightarrow> s)"

section \<open>The tables\<close>

definition on_object :: "object_ref \<Rightarrow> annotation_row \<Rightarrow> bool" where
  "on_object ref a \<longleftrightarrow> an_type a = ob_type ref \<and> an_object a = ob_id ref"

definition live :: "annotation_row \<Rightarrow> bool" where "live a \<longleftrightarrow> an_deleted a = None"

definition next_version :: "int \<Rightarrow> vault_db \<Rightarrow> nat" where
  "next_version i db = Suc (fold max (map av_no (filter (\<lambda>x. av_annotation x = i) (db_versions db))) 0)"

definition append_version ::
  "int \<Rightarrow> version_op \<Rightarrow> string \<Rightarrow> bytes \<Rightarrow> note_author \<Rightarrow> int \<Rightarrow> vault_db \<Rightarrow> vault_db" where
  "append_version i op body enc author now db =
     db\<lparr>db_versions := db_versions db @ [\<lparr>av_annotation = i, av_no = next_version i db,
       av_body = (if body = [] then None else Some body), av_body_enc = (if enc = [] then None else Some enc), av_op = op,
       av_author = au_kind author, av_comm = null_comm author, av_created = now\<rparr>]\<rparr>"

text \<open>Inserting a row; \<open>uid\<close> is unique in the table.\<close>

definition insert_annotation ::
  "bytes \<Rightarrow> object_ref \<Rightarrow> annotation_kind \<Rightarrow> string option \<Rightarrow> bytes option \<Rightarrow> key_domain \<Rightarrow> note_author \<Rightarrow> int \<Rightarrow>
     vault_db \<Rightarrow> vault_error + int \<times> vault_db" where
  "insert_annotation uid ref kind body enc domain author now db =
     (if uid \<in> set (map an_uid (db_annotations db)) then Inl (ErrSQL ''UNIQUE constraint failed: annotations.uid'')
      else let i = next_id TAnnotations db in
        Inr (i, take_id TAnnotations (db\<lparr>db_annotations := db_annotations db @ [\<lparr>an_id = i, an_uid = uid, an_type = ob_type ref,
          an_object = ob_id ref, an_kind = kind, an_body = body, an_body_enc = enc, an_domain = domain, an_author = au_kind author,
          an_comm = null_comm author, an_created = now, an_updated = now, an_deleted = None\<rparr>]\<rparr>)))"

definition update_annotation :: "int \<Rightarrow> (annotation_row \<Rightarrow> annotation_row) \<Rightarrow> vault_db \<Rightarrow> vault_db" where
  "update_annotation i f db = db\<lparr>db_annotations := map (\<lambda>a. if an_id a = i then f a else a) (db_annotations db)\<rparr>"

section \<open>Descriptions\<close>

definition live_description :: "object_ref \<Rightarrow> vault_db \<Rightarrow> annotation_row option" where
  "live_description ref db =
     List.find (\<lambda>a. on_object ref a \<and> an_kind a = KindDescription \<and> live a) (db_annotations db)"

definition set_description_stmts ::
  "int \<Rightarrow> bytes option \<Rightarrow> object_ref \<Rightarrow> string \<Rightarrow> note_author \<Rightarrow> vault_db \<Rightarrow> vault_error + unit \<times> vault_db" where
  "set_description_stmts now uid ref text author db =
     (case live_description ref db of
        None \<Rightarrow>
          (case uid of
             None \<Rightarrow> Inl (ErrCrypto ErrRand)
           | Some uid \<Rightarrow>
               (case insert_annotation uid ref KindDescription (Some text) None DomainNone author now db of
                  Inl e \<Rightarrow> Inl e
                | Inr (i, db) \<Rightarrow> Inr ((), append_version i OpCreate text [] author now db)))
      | Some a \<Rightarrow>
          Inr ((), append_version (an_id a) OpEdit text [] author now
            (update_annotation (an_id a)
              (\<lambda>a. a\<lparr>an_body := Some text, an_author := au_kind author, an_comm := null_comm author, an_updated := now\<rparr>) db)))"

definition set_description ::
  "annotation_limits \<Rightarrow> store_io \<Rightarrow> int \<Rightarrow> bytes option \<Rightarrow> object_ref \<Rightarrow> string \<Rightarrow> note_author \<Rightarrow> vault \<Rightarrow> (vault_error + unit) \<times> vault" where
  "set_description lim io now uid ref text author v =
     (case object_error ref of Some e \<Rightarrow> (Inl e, v) | None \<Rightarrow>
      if int (length text) > max_description lim then (Inl ErrTextTooLarge, v)
      else if trim_space text = [] then (Inl ErrEmptyText, v)
      else transact io v (set_description_stmts now uid ref text author (vt_db v)))"

definition read_description :: "object_ref \<Rightarrow> annotation_row \<Rightarrow> annotation" where
  "read_description ref a =
     \<lparr>ao_id = an_id a, ao_object = ref, ao_kind = KindDescription, ao_body = or_empty (an_body a), ao_author = an_author a,
       ao_comm = or_empty (an_comm a), ao_created = an_created a, ao_updated = an_updated a, ao_deleted = 0\<rparr>"

definition get_description :: "store_io \<Rightarrow> object_ref \<Rightarrow> vault \<Rightarrow> vault_error + annotation" where
  "get_description io ref v =
     (case object_error ref of Some e \<Rightarrow> Inl e | None \<Rightarrow>
      (case load_error io of Some e \<Rightarrow> Inl (ErrSQL e) | None \<Rightarrow>
       (case live_description ref (vt_db v) of None \<Rightarrow> Inl ErrEntryNotFound | Some a \<Rightarrow> Inr (read_description ref a))))"

definition descriptions :: "store_io \<Rightarrow> object_type \<Rightarrow> string list \<Rightarrow> vault \<Rightarrow> vault_error + annotation go_map" where
  "descriptions io t ids v =
     (if ids = [] then Inr []
      else case load_error io of
        Some e \<Rightarrow> Inl (ErrSQL e)
      | None \<Rightarrow> Inr (fold (\<lambda>a m. map_put m (an_object a)
            (read_description \<lparr>ob_type = t, ob_id = an_object a, ob_project = 0, ob_env = 0\<rparr> a))
          (filter (\<lambda>a. an_type a = t \<and> an_kind a = KindDescription \<and> live a \<and> an_object a \<in> set ids) (db_annotations (vt_db v))) []))"

section \<open>Sealing a note\<close>

definition object_type_name :: "object_type \<Rightarrow> string" where
  "object_type_name t = (case t of ObjectVault \<Rightarrow> ''vault'' | ObjectProject \<Rightarrow> ''project'' | ObjectEnv \<Rightarrow> ''env''
     | ObjectEntry \<Rightarrow> ''entry'' | ObjectTrust \<Rightarrow> ''trust'' | ObjectRun \<Rightarrow> ''run'' | ObjectPasskey \<Rightarrow> ''passkey'')"

definition key_domain_name :: "key_domain \<Rightarrow> string" where
  "key_domain_name d = (case d of DomainNone \<Rightarrow> ''none'' | DomainEnv \<Rightarrow> ''env'' | DomainAuthored \<Rightarrow> ''authored'' | DomainVault \<Rightarrow> ''vault'')"

definition annotation_aad :: "string \<Rightarrow> object_ref \<Rightarrow> key_domain \<Rightarrow> bytes \<Rightarrow> bytes" where
  "annotation_aad vid ref domain uid =
     vid @ [unit_sep] @ object_type_name (ob_type ref) @ [unit_sep] @ ob_id ref @ [unit_sep] @ ''note'' @ [unit_sep] @
     key_domain_name domain @ [unit_sep] @ hex_encode uid"

definition annotation_base_key :: "crypto_lib \<Rightarrow> string \<Rightarrow> bytes \<Rightarrow> object_ref \<Rightarrow> vault_error + bytes \<times> key_domain" where
  "annotation_base_key cl vid vaultKey ref =
     (if ob_type ref = ObjectEntry \<and> ob_project ref > 0 \<and> ob_env ref > 0
      then case env_key cl vid vaultKey (ob_project ref) (ob_env ref) of Inl e \<Rightarrow> Inl (ErrCrypto e) | Inr k \<Rightarrow> Inr (k, DomainEnv)
      else Inr (vaultKey, DomainVault))"

definition base_key_for_domain :: "crypto_lib \<Rightarrow> string \<Rightarrow> bytes \<Rightarrow> object_ref \<Rightarrow> key_domain \<Rightarrow> vault_error + bytes" where
  "base_key_for_domain cl vid vaultKey ref domain =
     (case domain of
        DomainEnv \<Rightarrow> as_vault (env_key cl vid vaultKey (ob_project ref) (ob_env ref))
      | DomainVault \<Rightarrow> Inr vaultKey
      | DomainAuthored \<Rightarrow> Inl ErrAuthoredKeyUnsupported
      | DomainNone \<Rightarrow> Inl ErrUnknownDomain)"

definition seal_note ::
  "crypto_lib \<Rightarrow> string \<Rightarrow> bytes option \<Rightarrow> bytes \<Rightarrow> object_ref \<Rightarrow> key_domain \<Rightarrow> bytes \<Rightarrow> string \<Rightarrow> vault_error + bytes" where
  "seal_note cl vid draw baseKey ref domain uid text =
     (let aad = annotation_aad vid ref domain uid in
      case derive_annotation_key cl baseKey aad of
        Inl e \<Rightarrow> Inl (ErrCrypto e) | Inr k \<Rightarrow> as_vault (encrypt_with_aad cl draw k text aad))"

definition open_note_with_base :: "crypto_lib \<Rightarrow> string \<Rightarrow> bytes \<Rightarrow> object_ref \<Rightarrow> key_domain \<Rightarrow> bytes \<Rightarrow> bytes \<Rightarrow> vault_error + string" where
  "open_note_with_base cl vid baseKey ref domain uid ct =
     (let aad = annotation_aad vid ref domain uid in
      case derive_annotation_key cl baseKey aad of Inl e \<Rightarrow> Inl (ErrCrypto e) | Inr k \<Rightarrow> as_vault (decrypt_with_aad cl k ct aad))"

definition open_note :: "crypto_lib \<Rightarrow> string \<Rightarrow> bytes \<Rightarrow> object_ref \<Rightarrow> key_domain \<Rightarrow> bytes \<Rightarrow> bytes \<Rightarrow> vault_error + string" where
  "open_note cl vid vaultKey ref domain uid ct =
     (case base_key_for_domain cl vid vaultKey ref domain of
        Inl e \<Rightarrow> Inl e | Inr base \<Rightarrow> open_note_with_base cl vid base ref domain uid ct)"

section \<open>Notes\<close>

definition note_count :: "store_io \<Rightarrow> object_ref \<Rightarrow> vault_db \<Rightarrow> vault_error + nat" where
  "note_count io ref db =
     (case load_error io of Some e \<Rightarrow> Inl (ErrSQL e)
      | None \<Rightarrow> Inr (length (filter (\<lambda>a. on_object ref a \<and> an_kind a = KindNote \<and> live a) (db_annotations db))))"

definition NoteCount :: "store_io \<Rightarrow> object_ref \<Rightarrow> vault \<Rightarrow> vault_error + nat" where
  "NoteCount io ref v = (case object_error ref of Some e \<Rightarrow> Inl e | None \<Rightarrow> note_count io ref (vt_db v))"

definition insert_note :: "bytes \<Rightarrow> object_ref \<Rightarrow> bytes \<Rightarrow> key_domain \<Rightarrow> note_author \<Rightarrow> int \<Rightarrow> vault_db \<Rightarrow> vault_error + int \<times> vault_db" where
  "insert_note uid ref ct domain author now db =
     (case insert_annotation uid ref KindNote None (Some ct) domain author now db of
        Inl e \<Rightarrow> Inl e | Inr (i, db) \<Rightarrow> Inr (i, append_version i OpCreate [] ct author now db))"

definition note_text_error :: "annotation_limits \<Rightarrow> string \<Rightarrow> vault_error option" where
  "note_text_error lim text =
     (if int (length text) > max_note lim then Some ErrTextTooLarge else if trim_space text = [] then Some ErrEmptyText else None)"

record note_draws =
  nd_uid :: "bytes option"
  nd_nonce :: "bytes option"

definition add_note_with_base ::
  "crypto_lib \<Rightarrow> annotation_limits \<Rightarrow> store_io \<Rightarrow> int \<Rightarrow> note_draws \<Rightarrow> object_ref \<Rightarrow> string \<Rightarrow> note_author \<Rightarrow> bytes \<Rightarrow>
     key_domain \<Rightarrow> vault \<Rightarrow> (vault_error + int) \<times> vault" where
  "add_note_with_base cl lim io now draws ref text author baseKey domain v =
     (case object_error ref of Some e \<Rightarrow> (Inl e, v) | None \<Rightarrow>
      (case note_text_error lim text of Some e \<Rightarrow> (Inl e, v) | None \<Rightarrow>
       (case note_count io ref (vt_db v) of Inl e \<Rightarrow> (Inl e, v) | Inr n \<Rightarrow>
        if int n \<ge> max_notes_per_object lim then (Inl ErrTooManyNotes, v)
        else case nd_uid draws of None \<Rightarrow> (Inl (ErrCrypto ErrRand), v) | Some uid \<Rightarrow>
          (case seal_note cl (vt_id v) (nd_nonce draws) baseKey ref domain uid text of
             Inl e \<Rightarrow> (Inl e, v)
           | Inr ct \<Rightarrow> transact io v (insert_note uid ref ct domain author now (vt_db v))))))"

definition add_note_with_vault_key ::
  "crypto_lib \<Rightarrow> annotation_limits \<Rightarrow> store_io \<Rightarrow> int \<Rightarrow> note_draws \<Rightarrow> bytes \<Rightarrow> object_ref \<Rightarrow> string \<Rightarrow> note_author \<Rightarrow>
     vault \<Rightarrow> (vault_error + int) \<times> vault" where
  "add_note_with_vault_key cl lim io now draws vaultKey ref text author v =
     (case annotation_base_key cl (vt_id v) vaultKey ref of
        Inl e \<Rightarrow> (Inl e, v)
      | Inr (base, domain) \<Rightarrow> add_note_with_base cl lim io now draws ref text author base domain v)"

definition add_note ::
  "crypto_lib \<Rightarrow> annotation_limits \<Rightarrow> store_io \<Rightarrow> int \<Rightarrow> note_draws \<Rightarrow> object_ref \<Rightarrow> string \<Rightarrow> note_author \<Rightarrow>
     vault \<Rightarrow> (vault_error + int) \<times> vault" where
  "add_note cl lim io now draws ref text author v =
     (case vt_key v of None \<Rightarrow> (Inl ErrLocked, v)
      | Some vk \<Rightarrow> add_note_with_vault_key cl lim io now draws vk ref text author v)"

definition add_note_with_password ::
  "crypto_lib \<Rightarrow> annotation_limits \<Rightarrow> store_io \<Rightarrow> int \<Rightarrow> note_draws \<Rightarrow> bytes \<Rightarrow> object_ref \<Rightarrow> string \<Rightarrow> note_author \<Rightarrow>
     vault \<Rightarrow> (vault_error + int) \<times> vault" where
  "add_note_with_password cl lim io now draws password ref text author v =
     (case unwrap_vault_key cl password v of Inl e \<Rightarrow> (Inl e, v)
      | Inr vk \<Rightarrow> add_note_with_vault_key cl lim io now draws vk ref text author v)"

definition add_note_authored ::
  "crypto_lib \<Rightarrow> annotation_limits \<Rightarrow> store_io \<Rightarrow> int \<Rightarrow> note_draws \<Rightarrow> object_ref \<Rightarrow> string \<Rightarrow> bytes \<Rightarrow> note_author \<Rightarrow>
     vault \<Rightarrow> (vault_error + int) \<times> vault" where
  "add_note_authored cl lim io now draws ref text authoredKey author v =
     (if authoredKey = [] then (Inl ErrLocked, v)
      else if ob_type ref \<noteq> ObjectEntry then (Inl ErrNotAnnotatable, v)
      else add_note_with_base cl lim io now draws ref text author authoredKey DomainAuthored v)"

text \<open>\<open>ORDER BY created_at DESC, id DESC\<close>.\<close>

definition newest_first :: "annotation_row list \<Rightarrow> annotation_row list" where
  "newest_first rows = rev (sort_key an_created (sort_key an_id rows))"

definition read_note :: "object_ref \<Rightarrow> string \<Rightarrow> annotation_row \<Rightarrow> annotation" where
  "read_note ref text a =
     \<lparr>ao_id = an_id a, ao_object = ref, ao_kind = KindNote, ao_body = text, ao_author = an_author a, ao_comm = or_empty (an_comm a),
       ao_created = an_created a, ao_updated = an_updated a, ao_deleted = (case an_deleted a of None \<Rightarrow> 0 | Some t \<Rightarrow> t)\<rparr>"

fun open_notes :: "(annotation_row \<Rightarrow> vault_error + string) \<Rightarrow> object_ref \<Rightarrow> annotation_row list \<Rightarrow> vault_error + annotation list" where
  "open_notes opn ref [] = Inr []"
| "open_notes opn ref (a # rows) =
     (case opn a of Inl e \<Rightarrow> Inl e
      | Inr text \<Rightarrow> (case open_notes opn ref rows of Inl e \<Rightarrow> Inl e | Inr out \<Rightarrow> Inr (read_note ref text a # out)))"

definition list_notes_with_vault_key :: "crypto_lib \<Rightarrow> store_io \<Rightarrow> bytes \<Rightarrow> object_ref \<Rightarrow> bool \<Rightarrow> vault \<Rightarrow> vault_error + annotation list" where
  "list_notes_with_vault_key cl io vaultKey ref includeRemoved v =
     (case object_error ref of Some e \<Rightarrow> Inl e | None \<Rightarrow>
      (case load_error io of Some e \<Rightarrow> Inl (ErrSQL e) | None \<Rightarrow>
       open_notes (\<lambda>a. open_note cl (vt_id v) vaultKey ref (an_domain a) (an_uid a) (or_empty (an_body_enc a))) ref
         (newest_first (filter (\<lambda>a. on_object ref a \<and> an_kind a = KindNote \<and> (includeRemoved \<or> live a)) (db_annotations (vt_db v))))))"

definition list_notes :: "crypto_lib \<Rightarrow> store_io \<Rightarrow> object_ref \<Rightarrow> vault \<Rightarrow> vault_error + annotation list" where
  "list_notes cl io ref v =
     (case vt_key v of None \<Rightarrow> Inl ErrLocked | Some vk \<Rightarrow> list_notes_with_vault_key cl io vk ref False v)"

definition list_notes_with_password :: "crypto_lib \<Rightarrow> store_io \<Rightarrow> bytes \<Rightarrow> object_ref \<Rightarrow> vault \<Rightarrow> vault_error + annotation list" where
  "list_notes_with_password cl io password ref v =
     (case unwrap_vault_key cl password v of Inl e \<Rightarrow> Inl e | Inr vk \<Rightarrow> list_notes_with_vault_key cl io vk ref False v)"

definition list_notes_including_removed :: "crypto_lib \<Rightarrow> store_io \<Rightarrow> object_ref \<Rightarrow> vault \<Rightarrow> vault_error + annotation list" where
  "list_notes_including_removed cl io ref v =
     (case vt_key v of None \<Rightarrow> Inl ErrLocked | Some vk \<Rightarrow> list_notes_with_vault_key cl io vk ref True v)"

definition list_notes_including_removed_with_password ::
  "crypto_lib \<Rightarrow> store_io \<Rightarrow> bytes \<Rightarrow> object_ref \<Rightarrow> vault \<Rightarrow> vault_error + annotation list" where
  "list_notes_including_removed_with_password cl io password ref v =
     (case unwrap_vault_key cl password v of Inl e \<Rightarrow> Inl e | Inr vk \<Rightarrow> list_notes_with_vault_key cl io vk ref True v)"

definition list_notes_authored :: "crypto_lib \<Rightarrow> store_io \<Rightarrow> object_ref \<Rightarrow> bytes \<Rightarrow> vault \<Rightarrow> vault_error + annotation list" where
  "list_notes_authored cl io ref authoredKey v =
     (if authoredKey = [] then Inl ErrLocked
      else case object_error ref of Some e \<Rightarrow> Inl e | None \<Rightarrow>
        (case load_error io of Some e \<Rightarrow> Inl (ErrSQL e) | None \<Rightarrow>
         open_notes (\<lambda>a. open_note_with_base cl (vt_id v) authoredKey ref DomainAuthored (an_uid a) (or_empty (an_body_enc a))) ref
           (newest_first (filter (\<lambda>a. on_object ref a \<and> an_kind a = KindNote \<and> an_domain a = DomainAuthored \<and> live a)
             (db_annotations (vt_db v))))))"

definition edit_note_with_vault_key ::
  "crypto_lib \<Rightarrow> annotation_limits \<Rightarrow> store_io \<Rightarrow> int \<Rightarrow> bytes option \<Rightarrow> bytes \<Rightarrow> object_ref \<Rightarrow> int \<Rightarrow> string \<Rightarrow> note_author \<Rightarrow>
     vault \<Rightarrow> (vault_error + unit) \<times> vault" where
  "edit_note_with_vault_key cl lim io now draw vaultKey ref i text author v =
     (case object_error ref of Some e \<Rightarrow> (Inl e, v) | None \<Rightarrow>
      (case note_text_error lim text of Some e \<Rightarrow> (Inl e, v) | None \<Rightarrow>
       (case load_error io of Some e \<Rightarrow> (Inl (ErrSQL e), v) | None \<Rightarrow>
        (case List.find (\<lambda>a. an_id a = i \<and> on_object ref a \<and> an_kind a = KindNote \<and> live a) (db_annotations (vt_db v)) of
           None \<Rightarrow> (Inl ErrEntryNotFound, v)
         | Some a \<Rightarrow>
             (case base_key_for_domain cl (vt_id v) vaultKey ref (an_domain a) of
                Inl e \<Rightarrow> (Inl e, v)
              | Inr base \<Rightarrow>
                  (case seal_note cl (vt_id v) draw base ref (an_domain a) (an_uid a) text of
                     Inl e \<Rightarrow> (Inl e, v)
                   | Inr ct \<Rightarrow> transact io v (Inr ((), append_version i OpEdit [] ct author now
                       (update_annotation i (\<lambda>a. a\<lparr>an_body_enc := Some ct, an_updated := now\<rparr>) (vt_db v))))))))))"

definition edit_note ::
  "crypto_lib \<Rightarrow> annotation_limits \<Rightarrow> store_io \<Rightarrow> int \<Rightarrow> bytes option \<Rightarrow> object_ref \<Rightarrow> int \<Rightarrow> string \<Rightarrow> note_author \<Rightarrow>
     vault \<Rightarrow> (vault_error + unit) \<times> vault" where
  "edit_note cl lim io now draw ref i text author v =
     (case vt_key v of None \<Rightarrow> (Inl ErrLocked, v)
      | Some vk \<Rightarrow> edit_note_with_vault_key cl lim io now draw vk ref i text author v)"

definition edit_note_with_password ::
  "crypto_lib \<Rightarrow> annotation_limits \<Rightarrow> store_io \<Rightarrow> int \<Rightarrow> bytes option \<Rightarrow> bytes \<Rightarrow> object_ref \<Rightarrow> int \<Rightarrow> string \<Rightarrow> note_author \<Rightarrow>
     vault \<Rightarrow> (vault_error + unit) \<times> vault" where
  "edit_note_with_password cl lim io now draw password ref i text author v =
     (case unwrap_vault_key cl password v of Inl e \<Rightarrow> (Inl e, v)
      | Inr vk \<Rightarrow> edit_note_with_vault_key cl lim io now draw vk ref i text author v)"

section \<open>Removing and history\<close>

definition remove_annotation ::
  "store_io \<Rightarrow> int \<Rightarrow> object_ref \<Rightarrow> int \<Rightarrow> note_author \<Rightarrow> vault \<Rightarrow> (vault_error + unit) \<times> vault" where
  "remove_annotation io now ref i author v =
     (case object_error ref of Some e \<Rightarrow> (Inl e, v) | None \<Rightarrow>
      transact io v
        (if \<not> list_ex (\<lambda>a. an_id a = i \<and> on_object ref a \<and> live a) (db_annotations (vt_db v)) then Inl ErrEntryNotFound
         else Inr ((), append_version i OpDelete [] [] author now
           (update_annotation i (\<lambda>a. if on_object ref a \<and> live a then a\<lparr>an_deleted := Some now, an_updated := now\<rparr> else a) (vt_db v)))))"

fun read_versions :: "(bytes \<Rightarrow> vault_error + string) \<Rightarrow> version_row list \<Rightarrow> vault_error + annotation_version list" where
  "read_versions opn [] = Inr []"
| "read_versions opn (x # xs) =
     (case (case av_body_enc x of Some ct \<Rightarrow> if length ct > 0 then opn ct else Inr (or_empty (av_body x)) | None \<Rightarrow> Inr (or_empty (av_body x))) of
        Inl e \<Rightarrow> Inl e
      | Inr body \<Rightarrow>
          (case read_versions opn xs of
             Inl e \<Rightarrow> Inl e
           | Inr out \<Rightarrow> Inr (\<lparr>ax_no = av_no x, ax_op = av_op x, ax_body = body, ax_author = av_author x, ax_comm = or_empty (av_comm x),
               ax_created = av_created x\<rparr> # out)))"

definition versions_of :: "int \<Rightarrow> vault_db \<Rightarrow> version_row list" where
  "versions_of i db = sort_key av_no (filter (\<lambda>x. av_annotation x = i) (db_versions db))"

definition annotation_history :: "crypto_lib \<Rightarrow> store_io \<Rightarrow> object_ref \<Rightarrow> int \<Rightarrow> vault \<Rightarrow> vault_error + annotation_version list" where
  "annotation_history cl io ref i v =
     (case object_error ref of Some e \<Rightarrow> Inl e | None \<Rightarrow>
      (case load_error io of Some e \<Rightarrow> Inl (ErrSQL e) | None \<Rightarrow>
       (case List.find (\<lambda>a. an_id a = i \<and> on_object ref a) (db_annotations (vt_db v)) of
          None \<Rightarrow> Inl ErrEntryNotFound
        | Some a \<Rightarrow>
            if an_kind a = KindNote \<and> vt_key v = None then Inl ErrLocked
            else read_versions (\<lambda>ct. open_note cl (vt_id v) (or_empty (vt_key v)) ref (an_domain a) (an_uid a) ct) (versions_of i (vt_db v)))))"

section \<open>Deleting\<close>

definition delete_annotations_for :: "store_io \<Rightarrow> object_type \<Rightarrow> string list \<Rightarrow> vault \<Rightarrow> (vault_error + unit) \<times> vault" where
  "delete_annotations_for io t ids v =
     (if ids = [] then (Inr (), v)
      else transact io v (Inr ((), drop_annotations (\<lambda>a. an_type a = t \<and> an_object a \<in> set ids) (vt_db v))))"

definition orphan_annotations :: "store_io \<Rightarrow> vault \<Rightarrow> vault_error + nat" where
  "orphan_annotations io v =
     (case load_error io of Some e \<Rightarrow> Inl (ErrSQL e)
      | None \<Rightarrow> Inr (length (filter (orphan (vt_db v)) (db_annotations (vt_db v)))))"

definition sweep_orphan_annotations :: "store_io \<Rightarrow> vault \<Rightarrow> (vault_error + nat) \<times> vault" where
  "sweep_orphan_annotations io v =
     transact io v (Inr (length (filter (orphan (vt_db v)) (db_annotations (vt_db v))), sweep_orphans (vt_db v)))"

section \<open>The object a caller names\<close>

definition entry_object_ref :: "store_io \<Rightarrow> vault_scope \<Rightarrow> string \<Rightarrow> vault \<Rightarrow> vault_error + object_ref" where
  "entry_object_ref io scope name v =
     (case checked_name scope name of Some e \<Rightarrow> Inl e | None \<Rightarrow>
      (case scope_ids io (vt_db v) scope of Inl e \<Rightarrow> Inl e | Inr (pid, eid) \<Rightarrow>
       (case fetch_inherited io (vt_db v) pid eid (sc_env scope) name of
          Inl e \<Rightarrow> Inl e
        | Inr None \<Rightarrow> Inl ErrEntryNotFound
        | Inr (Some (_, rowEnv)) \<Rightarrow>
            (case fetch_entry io (vt_db v) pid rowEnv EnvVar name of
               Inl e \<Rightarrow> Inl e
             | Inr None \<Rightarrow> Inl ErrEntryNotFound
             | Inr (Some r) \<Rightarrow> Inr (entry_object (nt_id r) pid rowEnv)))))"

definition project_object_ref :: "store_io \<Rightarrow> string \<Rightarrow> vault \<Rightarrow> vault_error + object_ref" where
  "project_object_ref io project v =
     (case validate_project_name project of Some e \<Rightarrow> Inl e | None \<Rightarrow>
      (case project_id_by_name io (vt_db v) project of Inl e \<Rightarrow> Inl e | Inr i \<Rightarrow> Inr (plain_object ObjectProject i)))"

definition env_object_ref :: "store_io \<Rightarrow> string \<Rightarrow> string \<Rightarrow> vault \<Rightarrow> vault_error + object_ref" where
  "env_object_ref io project env v =
     (case validate_project_name project of Some e \<Rightarrow> Inl e | None \<Rightarrow>
      (case validate_env_name env of Some e \<Rightarrow> Inl e | None \<Rightarrow>
       (case project_id_by_name io (vt_db v) project of Inl e \<Rightarrow> Inl e | Inr pid \<Rightarrow>
        (case env_id_by_name io (vt_db v) pid env of Inl e \<Rightarrow> Inl e | Inr i \<Rightarrow> Inr (plain_object ObjectEnv i)))))"

definition vault_object_ref :: "vault \<Rightarrow> object_ref" where
  "vault_object_ref v = \<lparr>ob_type = ObjectVault, ob_id = vt_id v, ob_project = 0, ob_env = 0\<rparr>"

section \<open>The summaries of a listing\<close>

record entry_annotation =
  ea_description :: string
  ea_author :: "author_kind option"
  ea_comm :: string
  ea_notes :: nat

definition entry_summary :: "vault_db \<Rightarrow> entry_row \<Rightarrow> entry_annotation" where
  "entry_summary db r =
     (let ref = entry_object (nt_id r) (nt_project r) (nt_env r); d = live_description ref db in
      \<lparr>ea_description = (case d of None \<Rightarrow> [] | Some a \<Rightarrow> or_empty (an_body a)), ea_author = map_option an_author d,
        ea_comm = (case d of None \<Rightarrow> [] | Some a \<Rightarrow> or_empty (an_comm a)),
        ea_notes = length (filter (\<lambda>a. on_object ref a \<and> an_kind a = KindNote \<and> live a) (db_annotations db))\<rparr>)"

text \<open>One row of the result: \<open>out\<close> and the names whose own row was seen.\<close>

definition summary_step ::
  "vault_db \<Rightarrow> int \<Rightarrow> entry_row \<Rightarrow> entry_annotation go_map \<times> string set \<Rightarrow> entry_annotation go_map \<times> string set" where
  "summary_step db eid r s =
     (case s of (out, seen) \<Rightarrow>
      let own = (nt_env r = eid); name = nt_name r; sum = entry_summary db r in
      if name \<in> seen \<and> \<not> own then (out, seen)
      else let seen = (if own then insert name seen else seen) in
        (if ea_description sum = [] \<and> ea_notes sum = 0 then map_del out name else map_put out name sum, seen))"

definition entry_annotations :: "store_io \<Rightarrow> vault_scope \<Rightarrow> vault \<Rightarrow> vault_error + entry_annotation go_map" where
  "entry_annotations io scope v =
     (case scope_validate scope of Some e \<Rightarrow> Inl e | None \<Rightarrow>
      (case scope_ids io (vt_db v) scope of Inl e \<Rightarrow> Inl e | Inr (pid, eid) \<Rightarrow>
       (case (if sc_env scope = DefaultEnvName then Inr eid else env_id_by_name io (vt_db v) pid DefaultEnvName) of
          Inl e \<Rightarrow> Inl e
        | Inr dflt \<Rightarrow>
            Inr (fst (fold (summary_step (vt_db v) eid)
              (filter (\<lambda>r. nt_project r = pid \<and> nt_kind r = EnvVar \<and> (nt_env r = eid \<or> nt_env r = dflt)) (db_entries (vt_db v)))
              ([], {}))))))"

end
