(* ===== verification/Vault_Runs.thy ===== *)
theory Vault_Runs
  imports Vault_Store
begin

text \<open>
  Recorded runs, \<open>internal/vault/execrun.go\<close>: what a run of \<open>byn exec\<close> was given, as references
  (entry id and digest of its ciphertext) in snapshots that record only what differs from their
  parent. SHA-256 is the argument \<open>sha\<close>. A Go map is ranged over in its insertion order; no result
  depends on it. The JSON text of a list of names is a library's and stands for the list.
\<close>

type_synonym hash = "bytes \<Rightarrow> bytes"
type_synonym refs = "(int \<times> string) go_map"

definition blob_digest :: "hash \<Rightarrow> bytes \<Rightarrow> string" where
  "blob_digest sha ct = hex_encode (sha ct)"

section \<open>Resolving\<close>

text \<open>
  The walk up the parents. \<open>chain\<close> holds the ids visited, the newest last, which is also the set
  \<open>seen\<close>; it ends at a snapshot without parent, at an id without row, or at a repetition.
\<close>

definition snapshot_by_id :: "vault_db \<Rightarrow> int \<Rightarrow> snapshot_row option" where
  "snapshot_by_id db i = List.find (\<lambda>s. sn_id s = i) (db_snapshots db)"

lemma snapshot_by_id_mem: "snapshot_by_id db i = Some s \<Longrightarrow> i \<in> sn_id ` set (db_snapshots db)"
  by (auto simp: snapshot_by_id_def find_Some_iff)

function snapshot_chain :: "vault_db \<Rightarrow> int list \<Rightarrow> int \<Rightarrow> vault_error + int list" where
  "snapshot_chain db chain i =
     (if i = 0 then Inr chain
      else if i \<in> set chain then Inl (ErrOwnAncestor i)
      else case snapshot_by_id db i of
        None \<Rightarrow> Inr (i # chain)
      | Some s \<Rightarrow> (case sn_parent s of None \<Rightarrow> Inr (i # chain) | Some p \<Rightarrow> snapshot_chain db (i # chain) p))"
  by pat_completeness auto

text \<open>Each step visits a row of the table that was not visited before.\<close>

lemma unvisited_decreases:
  assumes "i \<notin> set chain" and "snapshot_by_id db i = Some s"
  shows "card (sn_id ` set (db_snapshots db) - set (i # chain)) < card (sn_id ` set (db_snapshots db) - set chain)"
  using assms snapshot_by_id_mem [OF assms(2)] by (intro psubset_card_mono) auto

termination snapshot_chain
  by (relation "measure (\<lambda>(db, chain, i). card (sn_id ` set (db_snapshots db) - set chain))")
    (use unvisited_decreases in \<open>auto simp del: set_simps\<close>)

declare snapshot_chain.simps [simp del]

definition apply_ref :: "snapshot_entry \<Rightarrow> refs \<Rightarrow> refs" where
  "apply_ref x out = (case sx_ref x of None \<Rightarrow> map_del out (sx_name x) | Some r \<Rightarrow> map_put out (sx_name x) r)"

definition apply_diff :: "vault_db \<Rightarrow> int \<Rightarrow> refs \<Rightarrow> refs" where
  "apply_diff db i out = fold apply_ref (filter (\<lambda>x. sx_snapshot x = i) (db_refs db)) out"

definition resolve_tx :: "vault_db \<Rightarrow> int \<Rightarrow> vault_error + refs" where
  "resolve_tx db i = (case snapshot_chain db [] i of Inl e \<Rightarrow> Inl e | Inr chain \<Rightarrow> Inr (fold (apply_diff db) chain []))"

definition resolve_snapshot :: "store_io \<Rightarrow> int \<Rightarrow> vault \<Rightarrow> vault_error + refs" where
  "resolve_snapshot io i v = (case load_error io of Some e \<Rightarrow> Inl (ErrSQL e) | None \<Rightarrow> resolve_tx (vt_db v) i)"

section \<open>Recording\<close>

fun entry_refs :: "hash \<Rightarrow> store_io \<Rightarrow> vault_db \<Rightarrow> int \<Rightarrow> int \<Rightarrow> refs \<Rightarrow> string list \<Rightarrow> vault_error + refs" where
  "entry_refs sha io db pid eid out [] = Inr out"
| "entry_refs sha io db pid eid out (n # names) =
     (case fetch_entry io db pid eid EnvVar n of
        Inl e \<Rightarrow> Inl e
      | Inr None \<Rightarrow> entry_refs sha io db pid eid out names
      | Inr (Some r) \<Rightarrow> entry_refs sha io db pid eid (map_put out n (nt_id r, blob_digest sha (nt_value r))) names)"

definition latest_snapshot :: "vault_db \<Rightarrow> int \<Rightarrow> int \<Rightarrow> vault_error + int \<times> refs" where
  "latest_snapshot db pid eid =
     (case rev (sort_key sn_id (filter (\<lambda>s. sn_project s = pid \<and> sn_env s = eid) (db_snapshots db))) of
        [] \<Rightarrow> Inr (0, [])
      | s # _ \<Rightarrow> (case resolve_tx db (sn_id s) of Inl e \<Rightarrow> Inl e | Inr refs \<Rightarrow> Inr (sn_id s, refs)))"

definition same_refs :: "refs \<Rightarrow> refs \<Rightarrow> bool" where
  "same_refs a b \<longleftrightarrow> length a = length b \<and> list_all (\<lambda>(k, r). map_get b k = Some r) a"

definition diff_refs :: "int \<Rightarrow> refs \<Rightarrow> refs \<Rightarrow> snapshot_entry list" where
  "diff_refs i parent current =
     map (\<lambda>(n, r). \<lparr>sx_snapshot = i, sx_name = n, sx_ref = Some r\<rparr>) (filter (\<lambda>(n, r). map_get parent n \<noteq> Some r) current) @
     map (\<lambda>(n, r). \<lparr>sx_snapshot = i, sx_name = n, sx_ref = None\<rparr>) (filter (\<lambda>(n, r). map_get current n = None) parent)"

definition write_snapshot_diff :: "int \<Rightarrow> int \<Rightarrow> int \<Rightarrow> int \<Rightarrow> refs \<Rightarrow> refs \<Rightarrow> vault_db \<Rightarrow> int \<times> vault_db" where
  "write_snapshot_diff now pid eid parentID parent current db =
     (let i = next_id TSnapshots db in
      (i, take_id TSnapshots (db\<lparr>db_snapshots := db_snapshots db @ [\<lparr>sn_id = i,
             sn_parent = (if parentID \<noteq> 0 then Some parentID else None), sn_project = pid, sn_env = eid, sn_created = now\<rparr>],
           db_refs := db_refs db @ diff_refs i parent current\<rparr>)))"

definition insert_run :: "int \<Rightarrow> int \<Rightarrow> exec_run_meta \<Rightarrow> vault_db \<Rightarrow> int \<times> vault_db" where
  "insert_run now snapshot meta db =
     (let i = next_id TRuns db in
      (i, take_id TRuns (db\<lparr>db_runs := db_runs db @ [\<lparr>rn_id = i, rn_at = now, rn_snapshot = Some snapshot, rn_meta = meta\<rparr>]\<rparr>)))"

definition record_stmts :: "int \<Rightarrow> int \<Rightarrow> int \<Rightarrow> exec_run_meta \<Rightarrow> refs \<Rightarrow> vault_db \<Rightarrow> vault_error + int \<times> vault_db" where
  "record_stmts now pid eid meta current db =
     (case latest_snapshot db pid eid of
        Inl e \<Rightarrow> Inl e
      | Inr (parentID, parentRefs) \<Rightarrow>
          (case (if parentID = 0 \<or> \<not> same_refs parentRefs current
                 then write_snapshot_diff now pid eid parentID parentRefs current db else (parentID, db)) of
             (snapshot, db) \<Rightarrow> Inr (insert_run now snapshot meta db)))"

definition record_run_refs ::
  "hash \<Rightarrow> store_io \<Rightarrow> int \<Rightarrow> vault_scope \<Rightarrow> exec_run_meta \<Rightarrow> string list \<Rightarrow> vault \<Rightarrow> (vault_error + int) \<times> vault" where
  "record_run_refs sha io now scope meta names v =
     (case scope_ids io (vt_db v) scope of
        Inl e \<Rightarrow> (Inl e, v)
      | Inr (pid, eid) \<Rightarrow>
          (case entry_refs sha io (vt_db v) pid eid [] names of
             Inl e \<Rightarrow> (Inl e, v)
           | Inr current \<Rightarrow> transact io v (record_stmts now pid eid meta current (vt_db v))))"

section \<open>Looking back\<close>

record exec_run =
  er_id :: int
  er_at :: int
  er_snapshot :: int
  er_meta :: exec_run_meta
  er_var_count :: nat

definition list_exec_runs :: "store_io \<Rightarrow> int \<Rightarrow> vault \<Rightarrow> vault_error + exec_run list" where
  "list_exec_runs io limit v =
     (case load_error io of Some e \<Rightarrow> Inl (ErrSQL e) | None \<Rightarrow>
      Inr (map (\<lambda>r. let s = (case rn_snapshot r of None \<Rightarrow> 0 | Some s \<Rightarrow> s) in
          \<lparr>er_id = rn_id r, er_at = rn_at r, er_snapshot = s, er_meta = rn_meta r,
            er_var_count = (if s = 0 then 0 else case resolve_snapshot io s v of Inl _ \<Rightarrow> 0 | Inr refs \<Rightarrow> length refs)\<rparr>)
        (take (nat (if limit \<le> 0 then 50 else limit)) (rev (sort_key rn_id (db_runs (vt_db v)))))))"

datatype ref_status = StatusUnchanged | StatusChanged | StatusDeleted

definition entry_by_id :: "vault_db \<Rightarrow> int \<Rightarrow> entry_row option" where
  "entry_by_id db i = List.find (\<lambda>n. nt_id n = i) (db_entries db)"

definition ref_status_of :: "hash \<Rightarrow> vault_db \<Rightarrow> int \<times> string \<Rightarrow> ref_status" where
  "ref_status_of sha db r =
     (case entry_by_id db (fst r) of
        None \<Rightarrow> StatusDeleted
      | Some n \<Rightarrow> if blob_digest sha (nt_value n) \<noteq> snd r then StatusChanged else StatusUnchanged)"

definition snapshot_status :: "hash \<Rightarrow> store_io \<Rightarrow> int \<Rightarrow> vault \<Rightarrow> vault_error + ref_status go_map" where
  "snapshot_status sha io i v =
     (case resolve_snapshot io i v of
        Inl e \<Rightarrow> Inl e | Inr refs \<Rightarrow> Inr (map (\<lambda>(n, r). (n, ref_status_of sha (vt_db v) r)) refs))"

definition snapshot_names :: "store_io \<Rightarrow> int \<Rightarrow> vault \<Rightarrow> vault_error + string list" where
  "snapshot_names io i v =
     (case resolve_snapshot io i v of Inl e \<Rightarrow> Inl e | Inr refs \<Rightarrow> Inr (sort (map fst refs)))"

definition open_snapshot_value :: "crypto_lib \<Rightarrow> hash \<Rightarrow> store_io \<Rightarrow> int \<Rightarrow> string \<Rightarrow> vault \<Rightarrow> vault_error + bytes" where
  "open_snapshot_value cl sha io i name v =
     (case resolve_snapshot io i v of
        Inl e \<Rightarrow> Inl e
      | Inr refs \<Rightarrow>
          (case map_get refs name of
             None \<Rightarrow> Inl ErrEntryNotFound
           | Some r \<Rightarrow>
               (case vt_key v of
                  None \<Rightarrow> Inl ErrLocked
                | Some vk \<Rightarrow>
                    (case entry_by_id (vt_db v) (fst r) of
                       None \<Rightarrow> Inl ErrEntryNotFound
                     | Some n \<Rightarrow>
                         if blob_digest sha (nt_value n) \<noteq> snd r then Inl ErrValueSuperseded
                         else open_entry cl (vt_id v) vk (nt_aad n) (nt_project n) (nt_env n) EnvVar name (nt_value n)))))"

end
