(* ===== verification/Vault_Grants.thy ===== *)
theory Vault_Grants
  imports Vault_Store
begin

text \<open>
  Access with less than the vault key: row keys and scope keys captured for a grant
  (\<open>store.go\<close>), the authored key a locked vault writes and reads with (\<open>authored.go\<close>), and the
  keys and reads of inherited rows (\<open>inherited.go\<close>).
\<close>

section \<open>Row keys for a grant\<close>

text \<open>One turn of the loop of \<open>captureRowKeys\<close>: the key that opens the row, and a legacy row sealed anew.\<close>

definition row_key_of ::
  "crypto_lib \<Rightarrow> string \<Rightarrow> bytes \<Rightarrow> int \<Rightarrow> int \<Rightarrow> entry_row \<Rightarrow> string \<Rightarrow> crypto_error + bytes" where
  "row_key_of cl vid vaultKey pid rowEnv r name =
     (if nt_aad r = aadVersionRowKey then derive_row_key cl vaultKey (entry_aad vid EnvVar name)
      else v3_row_key cl vid vaultKey pid rowEnv EnvVar name)"

definition reseal_row :: "int \<Rightarrow> int \<Rightarrow> string \<Rightarrow> bytes \<Rightarrow> int \<Rightarrow> vault_db \<Rightarrow> vault_db" where
  "reseal_row pid eid name ct ver db =
     db\<lparr>db_entries := map (\<lambda>n. if nt_project n = pid \<and> nt_env n = eid \<and> nt_kind n = EnvVar \<and> nt_name n = name
        then n\<lparr>nt_value := ct, nt_aad := ver\<rparr> else n) (db_entries db)\<rparr>"

definition capture_one ::
  "crypto_lib \<Rightarrow> store_io \<Rightarrow> bytes option \<Rightarrow> bytes \<Rightarrow> int \<Rightarrow> int \<Rightarrow> string \<Rightarrow> string \<Rightarrow> vault \<Rightarrow>
   (vault_error + bytes option) \<times> vault" where
  "capture_one cl io draw vaultKey pid eid scopeEnv name v =
     (case fetch_inherited io (vt_db v) pid eid scopeEnv name of
        Inl e \<Rightarrow> (Inl e, v)
      | Inr None \<Rightarrow> (Inr None, v)
      | Inr (Some (r, rowEnv)) \<Rightarrow>
          (case row_key_of cl (vt_id v) vaultKey pid rowEnv r name of
             Inl e \<Rightarrow> (Inl (ErrCrypto e), v)
           | Inr krow \<Rightarrow>
               if nt_aad r \<noteq> aadVersionVaultKey then (Inr (Some krow), v)
               else (case open_entry cl (vt_id v) vaultKey (nt_aad r) pid rowEnv EnvVar name (nt_value r) of
                  Inl e \<Rightarrow> (Inl e, v)
                | Inr pt \<Rightarrow>
                    (case encrypt_with_aad cl draw krow pt (entry_aad_v3 (vt_id v) pid rowEnv EnvVar name) of
                       Inl e \<Rightarrow> (Inl (ErrCrypto e), v)
                     | Inr ct \<Rightarrow>
                         transact io v (Inr (Some krow, reseal_row pid rowEnv name ct aadVersionEnvKey (vt_db v)))))))"

text \<open>The loop; \<open>draws\<close> gives the nonce of each turn. An error keeps the rows already sealed anew.\<close>

fun capture_loop ::
  "crypto_lib \<Rightarrow> store_io \<Rightarrow> (string \<Rightarrow> bytes option) \<Rightarrow> bytes \<Rightarrow> int \<Rightarrow> int \<Rightarrow> string \<Rightarrow> bytes go_map \<Rightarrow> string list \<Rightarrow>
   vault \<Rightarrow> (vault_error + bytes go_map) \<times> vault" where
  "capture_loop cl io draws vaultKey pid eid scopeEnv out [] v = (Inr out, v)"
| "capture_loop cl io draws vaultKey pid eid scopeEnv out (name # names) v =
     (case capture_one cl io (draws name) vaultKey pid eid scopeEnv name v of
        (Inl e, v) \<Rightarrow> (Inl e, v)
      | (Inr None, v) \<Rightarrow> capture_loop cl io draws vaultKey pid eid scopeEnv out names v
      | (Inr (Some k), v) \<Rightarrow> capture_loop cl io draws vaultKey pid eid scopeEnv (map_put out name k) names v)"

definition capture_row_keys_with_key ::
  "crypto_lib \<Rightarrow> store_io \<Rightarrow> (string \<Rightarrow> bytes option) \<Rightarrow> bytes \<Rightarrow> vault_scope \<Rightarrow> string list \<Rightarrow> vault \<Rightarrow>
   (vault_error + bytes go_map) \<times> vault" where
  "capture_row_keys_with_key cl io draws vaultKey scope names v =
     (case scope_ids io (vt_db v) scope of
        Inl e \<Rightarrow> (Inl e, v)
      | Inr (pid, eid) \<Rightarrow> capture_loop cl io draws vaultKey pid eid (sc_env scope) [] names v)"

definition capture_row_keys ::
  "crypto_lib \<Rightarrow> store_io \<Rightarrow> (string \<Rightarrow> bytes option) \<Rightarrow> vault_scope \<Rightarrow> string list \<Rightarrow> vault \<Rightarrow>
   (vault_error + bytes go_map) \<times> vault" where
  "capture_row_keys cl io draws scope names v =
     (case vt_key v of None \<Rightarrow> (Inl ErrLocked, v) | Some vk \<Rightarrow> capture_row_keys_with_key cl io draws vk scope names v)"

definition capture_row_keys_with_password ::
  "crypto_lib \<Rightarrow> store_io \<Rightarrow> (string \<Rightarrow> bytes option) \<Rightarrow> bytes \<Rightarrow> vault_scope \<Rightarrow> string list \<Rightarrow> vault \<Rightarrow>
   (vault_error + bytes go_map) \<times> vault" where
  "capture_row_keys_with_password cl io draws password scope names v =
     (case unwrap_vault_key cl password v of
        Inl e \<Rightarrow> (Inl e, v) | Inr vk \<Rightarrow> capture_row_keys_with_key cl io draws vk scope names v)"

definition open_with_row_key ::
  "crypto_lib \<Rightarrow> store_io \<Rightarrow> vault_scope \<Rightarrow> string \<Rightarrow> bytes \<Rightarrow> vault \<Rightarrow> vault_error + bytes" where
  "open_with_row_key cl io scope name rowKey v =
     (case scope_ids io (vt_db v) scope of
        Inl e \<Rightarrow> Inl e
      | Inr (pid, eid) \<Rightarrow>
          (case fetch_inherited io (vt_db v) pid eid (sc_env scope) name of
             Inl e \<Rightarrow> Inl e
           | Inr None \<Rightarrow> Inl ErrEntryNotFound
           | Inr (Some (r, rowEnv)) \<Rightarrow>
               if nt_aad r = aadVersionRowKey then
                 as_vault (decrypt_with_aad cl rowKey (nt_value r) (entry_aad (vt_id v) EnvVar name))
               else if nt_aad r = aadVersionEnvKey then
                 as_vault (decrypt_with_aad cl rowKey (nt_value r) (entry_aad_v3 (vt_id v) pid rowEnv EnvVar name))
               else Inl ErrRowKeyUnsupported))"

section \<open>Scope keys\<close>

definition CapScopeKeyName :: string where "CapScopeKeyName = ''*''"
definition CapAuthoredKeyName :: string where "CapAuthoredKeyName = CHR 0x00 # ''authored''"
definition CapDefaultScopeKeyName :: string where "CapDefaultScopeKeyName = CHR 0x00 # ''scope@default''"
definition CapDefaultAuthoredKeyName :: string where "CapDefaultAuthoredKeyName = CHR 0x00 # ''authored@default''"

definition capture_scope_key_with_key ::
  "crypto_lib \<Rightarrow> store_io \<Rightarrow> bytes \<Rightarrow> vault_scope \<Rightarrow> vault \<Rightarrow> vault_error + bytes" where
  "capture_scope_key_with_key cl io vaultKey scope v =
     (case scope_ids io (vt_db v) scope of
        Inl e \<Rightarrow> Inl e | Inr (pid, eid) \<Rightarrow> as_vault (env_key cl (vt_id v) vaultKey pid eid))"

definition capture_scope_key :: "crypto_lib \<Rightarrow> store_io \<Rightarrow> vault_scope \<Rightarrow> vault \<Rightarrow> vault_error + bytes" where
  "capture_scope_key cl io scope v =
     (case vt_key v of None \<Rightarrow> Inl ErrLocked | Some vk \<Rightarrow> capture_scope_key_with_key cl io vk scope v)"

definition capture_scope_key_with_password ::
  "crypto_lib \<Rightarrow> store_io \<Rightarrow> bytes \<Rightarrow> vault_scope \<Rightarrow> vault \<Rightarrow> vault_error + bytes" where
  "capture_scope_key_with_password cl io password scope v =
     (case unwrap_vault_key cl password v of Inl e \<Rightarrow> Inl e | Inr vk \<Rightarrow> capture_scope_key_with_key cl io vk scope v)"

definition open_with_scope_key ::
  "crypto_lib \<Rightarrow> store_io \<Rightarrow> vault_scope \<Rightarrow> string \<Rightarrow> bytes \<Rightarrow> vault \<Rightarrow> vault_error + bytes" where
  "open_with_scope_key cl io scope name scopeKey v =
     (case scope_ids io (vt_db v) scope of
        Inl e \<Rightarrow> Inl e
      | Inr (pid, eid) \<Rightarrow>
          (case fetch_inherited io (vt_db v) pid eid (sc_env scope) name of
             Inl e \<Rightarrow> Inl e
           | Inr None \<Rightarrow> Inl ErrEntryNotFound
           | Inr (Some (r, rowEnv)) \<Rightarrow>
               if nt_aad r \<noteq> aadVersionEnvKey then Inl ErrScopeKeyUnsupported
               else case (if rowEnv = eid then Inr scopeKey
                          else case vt_key v of None \<Rightarrow> Inl ErrScopeKeyUnsupported
                          | Some vk \<Rightarrow> as_vault (env_key cl (vt_id v) vk pid rowEnv)) of
                 Inl e \<Rightarrow> Inl e
               | Inr key \<Rightarrow>
                   (case derive_row_key_from_env_key cl key (row_aad EnvVar name) of
                      Inl e \<Rightarrow> Inl (ErrCrypto e)
                    | Inr krow \<Rightarrow> as_vault (decrypt_with_aad cl krow (nt_value r) (entry_aad_v3 (vt_id v) pid rowEnv EnvVar name)))))"

section \<open>Writing to a locked vault\<close>

definition authored_key_for_scope :: "crypto_lib \<Rightarrow> store_io \<Rightarrow> bytes \<Rightarrow> vault_scope \<Rightarrow> vault \<Rightarrow> vault_error + bytes" where
  "authored_key_for_scope cl io vaultKey scope v =
     (case scope_ids io (vt_db v) scope of
        Inl e \<Rightarrow> Inl e | Inr (pid, eid) \<Rightarrow> as_vault (authored_key cl (vt_id v) vaultKey pid eid))"

definition capture_authored_key :: "crypto_lib \<Rightarrow> store_io \<Rightarrow> vault_scope \<Rightarrow> vault \<Rightarrow> vault_error + bytes" where
  "capture_authored_key cl io scope v =
     (case vt_key v of None \<Rightarrow> Inl ErrLocked | Some vk \<Rightarrow> authored_key_for_scope cl io vk scope v)"

definition capture_authored_key_with_password ::
  "crypto_lib \<Rightarrow> store_io \<Rightarrow> bytes \<Rightarrow> vault_scope \<Rightarrow> vault \<Rightarrow> vault_error + bytes" where
  "capture_authored_key_with_password cl io password scope v =
     (case unwrap_vault_key cl password v of Inl e \<Rightarrow> Inl e | Inr vk \<Rightarrow> authored_key_for_scope cl io vk scope v)"

definition put_authored ::
  "crypto_lib \<Rightarrow> store_io \<Rightarrow> int \<Rightarrow> bytes option \<Rightarrow> vault_scope \<Rightarrow> string \<Rightarrow> bytes \<Rightarrow> bytes \<Rightarrow> bool \<Rightarrow> vault \<Rightarrow>
   (vault_error + unit) \<times> vault" where
  "put_authored cl io now draw scope name val authoredKey createOnly v =
     (case checked_name scope name of Some e \<Rightarrow> (Inl e, v) | None \<Rightarrow>
      if length val > MaxValueLen then (Inl ErrValueTooLarge, v)
      else if length authoredKey = 0 then (Inl ErrLocked, v)
      else case scope_ids io (vt_db v) scope of
        Inl e \<Rightarrow> (Inl e, v)
      | Inr (pid, eid) \<Rightarrow>
          (case authored_row_key cl authoredKey EnvVar name of
             Inl e \<Rightarrow> (Inl (ErrCrypto e), v)
           | Inr krow \<Rightarrow>
               (case encrypt_with_aad cl draw krow val (entry_aad_v3 (vt_id v) pid eid EnvVar name) of
                  Inl e \<Rightarrow> (Inl (ErrCrypto e), v)
                | Inr ct \<Rightarrow> write_env_var io now createOnly pid eid name ct aadVersionAuthoredKey v)))"

definition open_authored ::
  "crypto_lib \<Rightarrow> store_io \<Rightarrow> vault_scope \<Rightarrow> string \<Rightarrow> bytes \<Rightarrow> vault \<Rightarrow> vault_error + bytes" where
  "open_authored cl io scope name authoredKey v =
     (if length authoredKey = 0 then Inl ErrLocked
      else case scope_ids io (vt_db v) scope of
        Inl e \<Rightarrow> Inl e
      | Inr (pid, eid) \<Rightarrow>
          (case fetch_inherited io (vt_db v) pid eid (sc_env scope) name of
             Inl e \<Rightarrow> Inl e
           | Inr None \<Rightarrow> Inl ErrEntryNotFound
           | Inr (Some (r, rowEnv)) \<Rightarrow>
               if nt_aad r \<noteq> aadVersionAuthoredKey then Inl ErrAuthoredKeyUnsupported
               else if rowEnv \<noteq> eid then Inl ErrAuthoredKeyUnsupported
               else (case authored_row_key cl authoredKey EnvVar name of
                   Inl e \<Rightarrow> Inl (ErrCrypto e)
                 | Inr krow \<Rightarrow> as_vault (decrypt_with_aad cl krow (nt_value r) (entry_aad_v3 (vt_id v) pid eid EnvVar name)))))"

definition is_authored_entry :: "store_io \<Rightarrow> vault_scope \<Rightarrow> string \<Rightarrow> vault \<Rightarrow> vault_error + bool" where
  "is_authored_entry io scope name v =
     (case scope_ids io (vt_db v) scope of
        Inl e \<Rightarrow> Inl e
      | Inr (pid, eid) \<Rightarrow>
          (case fetch_inherited io (vt_db v) pid eid (sc_env scope) name of
             Inl e \<Rightarrow> Inl e
           | Inr None \<Rightarrow> Inr False
           | Inr (Some (r, rowEnv)) \<Rightarrow> if rowEnv \<noteq> eid then Inr False else Inr (nt_aad r = aadVersionAuthoredKey)))"

section \<open>Inherited rows\<close>

definition capture_default_keys ::
  "crypto_lib \<Rightarrow> store_io \<Rightarrow> vault_scope \<Rightarrow> bool \<Rightarrow> bytes option \<Rightarrow> vault \<Rightarrow>
   vault_error + bytes option \<times> bytes option" where
  "capture_default_keys cl io scope wildcard vaultKey v =
     (if sc_env scope = [] \<or> sc_env scope = DefaultEnvName then Inr (None, None)
      else case (case vaultKey of Some k \<Rightarrow> Some k | None \<Rightarrow> vt_key v) of
        None \<Rightarrow> Inl ErrLocked
      | Some vk \<Rightarrow>
          (case scope_ids io (vt_db v) scope of
             Inl e \<Rightarrow> Inl e
           | Inr (pid, _) \<Rightarrow>
               (case env_id_by_name io (vt_db v) pid DefaultEnvName of
                  Inl e \<Rightarrow> if e = ErrEnvNotFound then Inr (None, None) else Inl e
                | Inr dflt \<Rightarrow>
                    (case authored_key cl (vt_id v) vk pid dflt of
                       Inl e \<Rightarrow> Inl (ErrCrypto e)
                     | Inr kauth \<Rightarrow>
                         if \<not> wildcard then Inr (None, Some kauth)
                         else (case env_key cl (vt_id v) vk pid dflt of
                             Inl e \<Rightarrow> Inl (ErrCrypto e) | Inr kenv \<Rightarrow> Inr (Some kenv, Some kauth))))))"

text \<open>\<open>OpenEnvVarInherited\<close>; an absent key is the empty one, as \<open>len(key) == 0\<close> reads both.\<close>

definition open_inherited ::
  "crypto_lib \<Rightarrow> store_io \<Rightarrow> vault_scope \<Rightarrow> string \<Rightarrow> bytes \<Rightarrow> bytes \<Rightarrow> bytes \<Rightarrow> bytes \<Rightarrow> vault \<Rightarrow> vault_error + bytes" where
  "open_inherited cl io scope name own ownAuth dfltScope dfltAuth v =
     (case scope_ids io (vt_db v) scope of
        Inl e \<Rightarrow> Inl e
      | Inr (pid, eid) \<Rightarrow>
          (case fetch_inherited io (vt_db v) pid eid (sc_env scope) name of
             Inl e \<Rightarrow> Inl e
           | Inr None \<Rightarrow> Inl ErrEntryNotFound
           | Inr (Some (r, rowEnv)) \<Rightarrow>
               let inherited = (rowEnv \<noteq> eid); aad = entry_aad_v3 (vt_id v) pid rowEnv EnvVar name in
               if nt_aad r = aadVersionEnvKey then
                 (let key = (if inherited then dfltScope else own) in
                  if length key = 0 then Inl (ErrInheritedUnreachable name inherited False)
                  else case derive_row_key_from_env_key cl key (row_aad EnvVar name) of
                    Inl e \<Rightarrow> Inl (ErrCrypto e) | Inr krow \<Rightarrow> as_vault (decrypt_with_aad cl krow (nt_value r) aad))
               else if nt_aad r = aadVersionAuthoredKey then
                 (let key = (if inherited then dfltAuth else ownAuth) in
                  if length key = 0 then Inl (ErrInheritedUnreachable name inherited True)
                  else case authored_row_key cl key EnvVar name of
                    Inl e \<Rightarrow> Inl (ErrCrypto e) | Inr krow \<Rightarrow> as_vault (decrypt_with_aad cl krow (nt_value r) aad))
               else Inl ErrScopeKeyUnsupported))"

definition seal_unattended_with_key ::
  "crypto_lib \<Rightarrow> store_io \<Rightarrow> bytes option \<Rightarrow> bytes \<Rightarrow> vault_scope \<Rightarrow> string \<Rightarrow> vault \<Rightarrow> (vault_error + bool) \<times> vault" where
  "seal_unattended_with_key cl io draw vaultKey scope name v =
     (case scope_ids io (vt_db v) scope of
        Inl e \<Rightarrow> (Inl e, v)
      | Inr (pid, eid) \<Rightarrow>
          (case fetch_entry io (vt_db v) pid eid EnvVar name of
             Inl e \<Rightarrow> (Inl e, v)
           | Inr None \<Rightarrow> (Inl ErrEntryNotFound, v)
           | Inr (Some r) \<Rightarrow>
               if nt_aad r \<noteq> aadVersionAuthoredKey then (Inr False, v)
               else case open_entry cl (vt_id v) vaultKey (nt_aad r) pid eid EnvVar name (nt_value r) of
                 Inl e \<Rightarrow> (Inl e, v)
               | Inr pt \<Rightarrow>
                   (case seal_entry cl (vt_id v) draw vaultKey pid eid EnvVar name pt of
                      Inl e \<Rightarrow> (Inl (ErrCrypto e), v)
                    | Inr ct \<Rightarrow> transact io v (Inr (True, reseal_row pid eid name ct currentAADVersion (vt_db v))))))"

definition seal_unattended ::
  "crypto_lib \<Rightarrow> store_io \<Rightarrow> bytes option \<Rightarrow> vault_scope \<Rightarrow> string \<Rightarrow> vault \<Rightarrow> (vault_error + bool) \<times> vault" where
  "seal_unattended cl io draw scope name v =
     (case vt_key v of None \<Rightarrow> (Inl ErrLocked, v) | Some vk \<Rightarrow> seal_unattended_with_key cl io draw vk scope name v)"

text \<open>The join of \<open>ListUnattended\<close>, ordered by project, environment and name.\<close>

definition list_unattended :: "store_io \<Rightarrow> vault \<Rightarrow> vault_error + (string \<times> string \<times> string) list" where
  "list_unattended io v =
     (case load_error io of Some e \<Rightarrow> Inl (ErrSQL e) | None \<Rightarrow>
      Inr (sort_key fst (sort_key (fst \<circ> snd) (sort_key (snd \<circ> snd)
        (concat (map (\<lambda>n.
           concat (map (\<lambda>p. map (\<lambda>e. (pj_name p, en_name e, nt_name n))
               (filter (\<lambda>e. en_id e = nt_env n) (db_envs (vt_db v))))
             (filter (\<lambda>p. pj_id p = nt_project n) (db_projects (vt_db v)))))
          (filter (\<lambda>n. nt_kind n = EnvVar \<and> nt_aad n = aadVersionAuthoredKey) (db_entries (vt_db v)))))))))"

definition entry_origin :: "store_io \<Rightarrow> vault_scope \<Rightarrow> string \<Rightarrow> vault \<Rightarrow> vault_error + (bool \<times> bool) option" where
  "entry_origin io scope name v =
     (case scope_ids io (vt_db v) scope of
        Inl e \<Rightarrow> Inl e
      | Inr (pid, eid) \<Rightarrow>
          (case fetch_inherited io (vt_db v) pid eid (sc_env scope) name of
             Inl e \<Rightarrow> Inl e
           | Inr None \<Rightarrow> Inr None
           | Inr (Some (r, rowEnv)) \<Rightarrow> Inr (Some (rowEnv \<noteq> eid, nt_aad r = aadVersionAuthoredKey))))"

end
