(* ===== verification/Vault_Props.thy ===== *)
theory Vault_Props
  imports Vault_Grants
begin

text \<open>
  The well-formedness of the tables, what each operation does to the lookups, and the keys of
  rows: the lemmas the properties of the vault rest on.
\<close>

section \<open>Well-formed tables\<close>

definition ids_ok :: "table \<Rightarrow> vault_db \<Rightarrow> int list \<Rightarrow> bool" where
  "ids_ok t db ids \<longleftrightarrow> distinct ids \<and> (\<forall>i \<in> set ids. 0 < i \<and> i \<le> db_seq db t)"

definition projects_ok :: "vault_db \<Rightarrow> bool" where
  "projects_ok db \<longleftrightarrow> ids_ok TProjects db (map pj_id (db_projects db)) \<and> distinct (map pj_name (db_projects db)) \<and>
     0 \<le> db_seq db TProjects"

definition envs_ok :: "vault_db \<Rightarrow> bool" where
  "envs_ok db \<longleftrightarrow> ids_ok TEnvs db (map en_id (db_envs db)) \<and>
     distinct (map (\<lambda>e. (en_project e, en_name e)) (db_envs db)) \<and>
     (\<forall>e \<in> set (db_envs db). en_project e \<in> pj_id ` set (db_projects db)) \<and>
     (\<forall>e \<in> set (db_envs db). en_default e \<longleftrightarrow> en_name e = DefaultEnvName) \<and>
     (\<forall>p \<in> set (db_projects db). \<exists>e \<in> set (db_envs db). en_project e = pj_id p \<and> en_name e = DefaultEnvName) \<and>
     0 \<le> db_seq db TEnvs"

definition entries_ok :: "vault_db \<Rightarrow> bool" where
  "entries_ok db \<longleftrightarrow> ids_ok TEntries db (map nt_id (db_entries db)) \<and>
     distinct (map (\<lambda>n. (nt_project n, nt_env n, nt_name n)) (db_entries db)) \<and>
     (\<forall>n \<in> set (db_entries db). nt_kind n = EnvVar \<and>
        (\<exists>e \<in> set (db_envs db). en_id e = nt_env n \<and> en_project e = nt_project n)) \<and>
     0 \<le> db_seq db TEntries"

definition db_ok :: "vault_db \<Rightarrow> bool" where
  "db_ok db \<longleftrightarrow> projects_ok db \<and> envs_ok db \<and> entries_ok db"

section \<open>Lookups\<close>

lemma find_map_same: "(\<And>x. P (f x) = P x) \<Longrightarrow> List.find P (map f xs) = map_option f (List.find P xs)"
  by (induction xs) auto

lemma find_append: "List.find P (xs @ ys) = (case List.find P xs of None \<Rightarrow> List.find P ys | Some x \<Rightarrow> Some x)"
  by (induction xs) auto

lemma find_filter_kept: "(\<And>x. P x \<Longrightarrow> Q x) \<Longrightarrow> List.find P (filter Q xs) = List.find P xs"
  by (induction xs) auto

lemma find_filter_gone: "(\<And>x. P x \<Longrightarrow> \<not> Q x) \<Longrightarrow> List.find P (filter Q xs) = None"
  by (auto simp: find_None_iff)

lemma find_SomeD: "List.find P xs = Some x \<Longrightarrow> x \<in> set xs \<and> P x"
  by (auto simp: find_Some_iff)

lemma find_the:
  assumes "distinct (map f xs)" and "x \<in> set xs"
  shows "List.find (\<lambda>y. f y = f x) xs = Some x"
  using assms by (induction xs) auto

definition at_row :: "int \<Rightarrow> int \<Rightarrow> string \<Rightarrow> entry_row \<Rightarrow> bool" where
  "at_row pid eid name n \<longleftrightarrow> nt_project n = pid \<and> nt_env n = eid \<and> nt_name n = name"

lemma row_at_eq: "row_at db pid eid name = List.find (at_row pid eid name) (db_entries db)"
  unfolding row_at_def at_row_def by (rule refl)

lemma row_at_Some: "row_at db pid eid name = Some n \<Longrightarrow> n \<in> set (db_entries db) \<and> at_row pid eid name n"
  by (auto simp: row_at_eq dest: find_SomeD)

lemma row_at_the: "entries_ok db \<Longrightarrow> n \<in> set (db_entries db) \<Longrightarrow> row_at db (nt_project n) (nt_env n) (nt_name n) = Some n"
  using find_the [of "\<lambda>n. (nt_project n, nt_env n, nt_name n)" "db_entries db" n] by (auto simp: row_at_def entries_ok_def)

lemma fetch_entry_row:
  assumes "entries_ok db" and "load_error io = None"
  shows "fetch_entry io db pid eid EnvVar name = Inr (row_at db pid eid name)"
proof -
  have "List.find (\<lambda>n. nt_project n = pid \<and> nt_env n = eid \<and> nt_kind n = EnvVar \<and> nt_name n = name) (db_entries db) =
      List.find (\<lambda>n. nt_project n = pid \<and> nt_env n = eid \<and> nt_name n = name) (db_entries db)"
    using assms(1) by (intro find_cong refl) (auto simp: entries_ok_def)
  then show ?thesis using assms(2) by (simp add: fetch_entry_def row_at_def)
qed

definition env_at :: "vault_db \<Rightarrow> vault_scope \<Rightarrow> (int \<times> int) option" where
  "env_at db s = (case find_project db (sc_project s) of None \<Rightarrow> None
     | Some p \<Rightarrow> map_option (\<lambda>e. (pj_id p, en_id e)) (find_env db (pj_id p) (sc_env s)))"

lemma scope_ids_Inr: "scope_ids io db s = Inr (pid, eid) \<longleftrightarrow> load_error io = None \<and> env_at db s = Some (pid, eid)"
  by (auto simp: scope_ids_def project_id_by_name_def env_id_by_name_def env_at_def split: option.splits)

lemma find_project_Some: "find_project db name = Some p \<Longrightarrow> p \<in> set (db_projects db) \<and> pj_name p = name"
  by (auto simp: find_project_def dest: find_SomeD)

lemma find_env_Some: "find_env db pid name = Some e \<Longrightarrow> e \<in> set (db_envs db) \<and> en_project e = pid \<and> en_name e = name"
  by (auto simp: find_env_def dest: find_SomeD)

lemma find_env_the: "envs_ok db \<Longrightarrow> e \<in> set (db_envs db) \<Longrightarrow> find_env db (en_project e) (en_name e) = Some e"
  using find_the [of "\<lambda>e. (en_project e, en_name e)" "db_envs db" e] by (auto simp: find_env_def envs_ok_def)

lemma default_env_exists:
  assumes "db_ok db" and "find_project db name = Some p"
  shows "\<exists>e. find_env db (pj_id p) DefaultEnvName = Some e \<and> en_default e"
proof -
  obtain e where e: "e \<in> set (db_envs db)" "en_project e = pj_id p" "en_name e = DefaultEnvName"
    using assms find_project_Some [OF assms(2)] by (auto simp: db_ok_def envs_ok_def)
  then have "find_env db (pj_id p) DefaultEnvName = Some e"
    using find_env_the [of db e] assms(1) by (simp add: db_ok_def)
  then show ?thesis using e assms(1) by (auto simp: db_ok_def envs_ok_def)
qed

text \<open>Two scopes that resolve to the same environment are the same scope.\<close>

lemma env_at_inj:
  assumes "db_ok db" and "env_at db s = Some (pid, eid)" and "env_at db s' = Some (pid', eid)"
  shows "s = s' \<and> pid = pid'"
proof -
  obtain p e where p: "find_project db (sc_project s) = Some p" "find_env db (pj_id p) (sc_env s) = Some e" "pid = pj_id p" "eid = en_id e"
    using assms(2) by (auto simp: env_at_def split: option.splits)
  obtain p' e' where p': "find_project db (sc_project s') = Some p'" "find_env db (pj_id p') (sc_env s') = Some e'" "pid' = pj_id p'" "eid = en_id e'"
    using assms(3) by (auto simp: env_at_def split: option.splits)
  note q = find_project_Some [OF p(1)] find_env_Some [OF p(2)] find_project_Some [OF p'(1)] find_env_Some [OF p'(2)]
  have "inj_on en_id (set (db_envs db))" "inj_on pj_id (set (db_projects db))"
    using assms(1) by (auto simp: db_ok_def envs_ok_def projects_ok_def ids_ok_def distinct_map)
  then have "e = e'" using q p(4) p'(4) by (auto dest: inj_onD)
  then have "p = p'" using q \<open>inj_on pj_id (set (db_projects db))\<close> by (auto dest: inj_onD)
  then show ?thesis using q \<open>e = e'\<close> p p' by (cases s, cases s') auto
qed

section \<open>Writes\<close>

lemma row_at_upsert:
  "row_at (upsert_env_var now pid eid name ct ver db) pid' eid' name' =
    (if pid' = pid \<and> eid' = eid \<and> name' = name then
       (case row_at db pid eid name of
          None \<Rightarrow> Some \<lparr>nt_id = next_id TEntries db, nt_project = pid, nt_env = eid, nt_kind = EnvVar, nt_name = name,
            nt_value = ct, nt_aad = ver, nt_created = now, nt_updated = now\<rparr>
        | Some n \<Rightarrow> Some (n\<lparr>nt_value := ct, nt_aad := ver, nt_updated := now\<rparr>))
     else row_at db pid' eid' name')"
proof (cases "row_at db pid eid name")
  case None
  then show ?thesis
    by (auto simp: upsert_env_var_def row_at_def take_id_def find_append split: option.splits)
next
  case (Some n)
  let ?f = "\<lambda>n. if nt_project n = pid \<and> nt_env n = eid \<and> nt_name n = name then n\<lparr>nt_value := ct, nt_aad := ver, nt_updated := now\<rparr> else n"
  have "row_at (upsert_env_var now pid eid name ct ver db) pid' eid' name' = map_option ?f (row_at db pid' eid' name')"
    using Some unfolding upsert_env_var_def by (simp add: row_at_def find_map_same)
  moreover have "?f m = m" if "row_at db pid' eid' name' = Some m" "\<not> (pid' = pid \<and> eid' = eid \<and> name' = name)" for m
    using row_at_Some [OF that(1)] that(2) by (auto simp: at_row_def)
  moreover have "at_row pid eid name n" using row_at_Some [OF Some] by simp
  ultimately show ?thesis
    using Some by (cases "row_at db pid' eid' name'") (auto simp: at_row_def)
qed

lemma upsert_tables [simp]:
  "db_projects (upsert_env_var now pid eid name ct ver db) = db_projects db"
  "db_envs (upsert_env_var now pid eid name ct ver db) = db_envs db"
  "db_annotations (upsert_env_var now pid eid name ct ver db) = db_annotations db"
  by (simp_all add: upsert_env_var_def take_id_def)

lemma env_at_cong: "db_projects db' = db_projects db \<Longrightarrow> db_envs db' = db_envs db \<Longrightarrow> env_at db' s = env_at db s"
  by (simp add: env_at_def find_project_def find_env_def split: option.splits)

lemma env_at_upsert [simp]: "env_at (upsert_env_var now pid eid name ct ver db) s = env_at db s"
  by (rule env_at_cong) simp_all

lemma transact_Inr:
  "transact io v stmts = (Inr res, v') \<longleftrightarrow>
    save_error io = None \<and> (\<exists>db. stmts = Inr (res, db) \<and> v' = v\<lparr>vt_db := db\<rparr>)"
  by (auto simp: transact_def split: option.splits sum.splits)

lemma transact_Inl: "transact io v stmts = (Inl e, v') \<Longrightarrow> v' = v"
  by (auto simp: transact_def split: option.splits sum.splits)

section \<open>Keys\<close>

lemma v3_row_key_length:
  assumes "aead_works cl" and "v3_row_key cl vid vk pid eid kind name = Inr k"
  shows "length k = 32"
  using assms derive_ok [OF assms(1)]
  by (auto simp: v3_row_key_def env_key_def derive_env_key_def derive_row_key_from_env_key_def split: sum.splits)

lemma v3_row_key_total:
  assumes "aead_works cl" and "length vk = 32"
  shows "\<exists>k. v3_row_key cl vid vk pid eid kind name = Inr k"
  using assms
  by (auto simp: v3_row_key_def env_key_def derive_env_key_def derive_row_key_from_env_key_def derive_from_def VaultKeySize_def
      expand_key_def aead_lengths split: sum.splits)

lemma seal_entry_Inr:
  "seal_entry cl vid draw vk pid eid kind name val = Inr ct \<longleftrightarrow>
    (\<exists>k. v3_row_key cl vid vk pid eid kind name = Inr k \<and> encrypt_with_aad cl draw k val (entry_aad_v3 vid pid eid kind name) = Inr ct)"
  by (auto simp: seal_entry_def split: sum.splits)

text \<open>What was sealed opens, and has the length of its value.\<close>

lemma sealed_opens:
  assumes "aead_works cl" and "seal_entry cl vid (Some nonce) vk pid eid kind name val = Inr ct" and "length nonce = 24"
  shows "open_entry cl vid vk currentAADVersion pid eid kind name ct = Inr val" and "length ct = length val + 41"
proof -
  obtain k where k: "v3_row_key cl vid vk pid eid kind name = Inr k"
      "encrypt_with_aad cl (Some nonce) k val (entry_aad_v3 vid pid eid kind name) = Inr ct"
    using assms(2) by (auto simp: seal_entry_Inr)
  have "decrypt_with_aad cl k ct (entry_aad_v3 vid pid eid kind name) = Inr val"
    using decrypt_iff [OF assms(1) v3_row_key_length [OF assms(1) k(1)]] k(2) assms(3) by blast
  then show "open_entry cl vid vk currentAADVersion pid eid kind name ct = Inr val"
    by (simp add: open_entry_def aad_versions k(1) as_vault_def)
  show "length ct = length val + 41" using encrypt_length [OF assms(1) k(2) assms(3)] .
qed

section \<open>Identity\<close>

lemma int_dec_no_sep: "unit_sep \<notin> set (int_dec i)"
  using int_dec_range [of unit_sep i] by (auto simp: unit_sep_def)

lemma split_at_sep: "c \<notin> set a \<Longrightarrow> c \<notin> set b \<Longrightarrow> a @ c # x = b @ c # y \<Longrightarrow> a = b \<and> x = y"
  by (induction a arbitrary: b) (case_tac b; auto)+

lemma kind_aad_no_sep: "unit_sep \<notin> set (kind_aad k)"
  by (cases k) (simp_all add: unit_sep_def)

lemma kind_aad_inj: "kind_aad k = kind_aad k' \<Longrightarrow> k = k'"
  by (cases k; cases k') simp_all

lemma row_aad_inj: "row_aad k n = row_aad k' n' \<Longrightarrow> k = k' \<and> n = n'"
  using split_at_sep [OF kind_aad_no_sep kind_aad_no_sep, of k n k' n'] by (auto simp: row_aad_def dest: kind_aad_inj)

lemma entry_aad_v3_inj:
  assumes "entry_aad_v3 vid p e k n = entry_aad_v3 vid p' e' k' n'"
  shows "p = p' \<and> e = e' \<and> k = k' \<and> n = n'"
proof -
  have "int_dec p @ unit_sep # (int_dec e @ unit_sep # row_aad k n) = int_dec p' @ unit_sep # (int_dec e' @ unit_sep # row_aad k' n')"
    using assms by (simp add: entry_aad_v3_def scope_aad_def row_aad_def)
  then have "int_dec p = int_dec p'" "int_dec e @ unit_sep # row_aad k n = int_dec e' @ unit_sep # row_aad k' n'"
    using split_at_sep [OF int_dec_no_sep int_dec_no_sep] by blast+
  moreover from this(2) have "int_dec e = int_dec e'" "row_aad k n = row_aad k' n'"
    using split_at_sep [OF int_dec_no_sep int_dec_no_sep] by blast+
  ultimately show ?thesis by (auto dest: int_dec_inj row_aad_inj)
qed

section \<open>Every operation keeps the tables well formed\<close>

lemma ids_ok_filter: "ids_ok t db (map f xs) \<Longrightarrow> ids_ok t db (map f (filter P xs))"
  by (auto simp: ids_ok_def intro: distinct_map_filter)

lemma ids_ok_seq: "ids_ok t db ids \<Longrightarrow> db_seq db' t = db_seq db t \<Longrightarrow> ids_ok t db' ids"
  by (simp add: ids_ok_def)

lemma ids_ok_next: "ids_ok t db ids \<Longrightarrow> 0 \<le> db_seq db t \<Longrightarrow> db_seq db' t = next_id t db \<Longrightarrow> ids_ok t db' (ids @ [next_id t db])"
  by (force simp: ids_ok_def next_id_def)

lemma env_at_row:
  assumes "env_at db s = Some (pid, eid)"
  shows "\<exists>e \<in> set (db_envs db). en_id e = eid \<and> en_project e = pid"
  using assms by (auto simp: env_at_def split: option.splits dest: find_env_Some)

lemma entries_ok_map:
  assumes "entries_ok db" and "db_entries db' = map f (db_entries db)" and "db_envs db' = db_envs db"
    and "db_seq db' TEntries = db_seq db TEntries"
    and "\<And>n. nt_id (f n) = nt_id n \<and> nt_project (f n) = nt_project n \<and> nt_env (f n) = nt_env n \<and> nt_kind (f n) = nt_kind n"
    and "distinct (map (\<lambda>n. (nt_project n, nt_env n, nt_name (f n))) (db_entries db))"
  shows "entries_ok db'"
  using assms by (auto simp: entries_ok_def ids_ok_def comp_def)

lemma projects_ok_map:
  assumes "projects_ok db" and "db_projects db' = map f (db_projects db)" and "db_seq db' TProjects = db_seq db TProjects"
    and "\<And>x. pj_id (f x) = pj_id x" and "distinct (map (\<lambda>x. pj_name (f x)) (db_projects db))"
  shows "projects_ok db'"
  using assms by (auto simp: projects_ok_def ids_ok_def comp_def)

lemma envs_ok_map:
  assumes "envs_ok db" and "db_envs db' = map f (db_envs db)" and "db_seq db' TEnvs = db_seq db TEnvs"
    and "map pj_id (db_projects db') = map pj_id (db_projects db)"
    and "\<And>e. en_id (f e) = en_id e \<and> en_project (f e) = en_project e \<and> en_default (f e) = en_default e"
    and "\<And>e. e \<in> set (db_envs db) \<Longrightarrow> en_default e \<longleftrightarrow> en_name (f e) = DefaultEnvName"
    and "distinct (map (\<lambda>e. (en_project e, en_name (f e))) (db_envs db))"
  shows "envs_ok db'"
proof -
  have p: "pj_id ` set (db_projects db') = pj_id ` set (db_projects db)" using assms(4) by (metis list.set_map)
  have "\<exists>e \<in> set (db_envs db'). en_project e = pj_id q \<and> en_name e = DefaultEnvName" if q: "q \<in> set (db_projects db')" for q
  proof -
    have "pj_id q \<in> pj_id ` set (db_projects db)" using q p by blast
    then obtain e where "e \<in> set (db_envs db)" "en_project e = pj_id q" "en_name e = DefaultEnvName"
      using assms(1) by (auto simp: envs_ok_def)
    then show ?thesis
      using assms(1,2,5,6) by (intro bexI [of _ "f e"]) (auto simp: envs_ok_def)
  qed
  then show ?thesis
    using assms p by (auto simp: envs_ok_def ids_ok_def comp_def)
qed

lemma entries_ok_envs:
  assumes "entries_ok db" and "db_entries db' = db_entries db" and "db_envs db' = map f (db_envs db)"
    and "db_seq db' TEntries = db_seq db TEntries" and "\<And>e. en_id (f e) = en_id e \<and> en_project (f e) = en_project e"
  shows "entries_ok db'"
  using assms by (auto simp: entries_ok_def ids_ok_def)

lemma ok_upsert:
  assumes "db_ok db" and "env_at db s = Some (pid, eid)"
  shows "db_ok (upsert_env_var now pid eid name ct ver db)"
proof -
  let ?db = "upsert_env_var now pid eid name ct ver db"
  have ok: "projects_ok db" "envs_ok db" "entries_ok db" using assms(1) by (auto simp: db_ok_def)
  have "entries_ok ?db"
  proof (cases "row_at db pid eid name")
    case None
    have new: "(pid, eid, name) \<notin> (\<lambda>n. (nt_project n, nt_env n, nt_name n)) ` set (db_entries db)"
      using None by (auto simp: row_at_def find_None_iff)
    have seq: "db_seq ?db TEntries = next_id TEntries db"
      using None by (simp add: upsert_env_var_def take_id_def next_id_def)
    have "ids_ok TEntries ?db (map nt_id (db_entries db) @ [next_id TEntries db])"
      using ok(3) seq by (intro ids_ok_next) (auto simp: entries_ok_def)
    then show ?thesis
      using None new ok(3) env_at_row [OF assms(2)] seq
      by (auto simp: entries_ok_def upsert_env_var_def take_id_def next_id_def)
  next
    case (Some n)
    let ?f = "\<lambda>n. if nt_project n = pid \<and> nt_env n = eid \<and> nt_name n = name
        then n\<lparr>nt_value := ct, nt_aad := ver, nt_updated := now\<rparr> else n"
    have key: "(\<lambda>n. (nt_project n, nt_env n, nt_name (?f n))) = (\<lambda>n. (nt_project n, nt_env n, nt_name n))" by auto
    have d: "distinct (map (\<lambda>n. (nt_project n, nt_env n, nt_name (?f n))) (db_entries db))"
      unfolding key using ok(3) by (simp add: entries_ok_def)
    show ?thesis
      by (rule entries_ok_map [OF ok(3) _ _ _ _ d]) (use Some in \<open>auto simp: upsert_env_var_def\<close>)
  qed
  moreover have "db_seq ?db t = db_seq db t" if "t \<noteq> TEntries" for t
    using that by (simp add: upsert_env_var_def take_id_def)
  ultimately show ?thesis
    using ok(1,2) by (auto simp: db_ok_def projects_ok_def envs_ok_def ids_ok_def)
qed

lemma ok_insert_env:
  assumes "projects_ok db" "entries_ok db"
    and "ids_ok TEnvs db (map en_id (db_envs db))" "0 \<le> db_seq db TEnvs"
    and "distinct (map (\<lambda>e. (en_project e, en_name e)) (db_envs db))"
    and "\<forall>e \<in> set (db_envs db). en_project e \<in> pj_id ` set (db_projects db)"
    and "\<forall>e \<in> set (db_envs db). en_default e \<longleftrightarrow> en_name e = DefaultEnvName"
    and "\<forall>p \<in> set (db_projects db). pj_id p \<noteq> pid \<or> \<not> dflt \<longrightarrow> (\<exists>e \<in> set (db_envs db). en_project e = pj_id p \<and> en_name e = DefaultEnvName)"
    and "pid \<in> pj_id ` set (db_projects db)" and "dflt \<longleftrightarrow> name = DefaultEnvName"
    and "(pid, name) \<notin> (\<lambda>e. (en_project e, en_name e)) ` set (db_envs db)"
  shows "db_ok (insert_env now pid name dflt db)"
proof -
  let ?db = "insert_env now pid name dflt db"
  have seq: "db_seq ?db TEnvs = next_id TEnvs db" "t \<noteq> TEnvs \<Longrightarrow> db_seq ?db t = db_seq db t" for t
    by (simp_all add: insert_env_def take_id_def next_id_def)
  have "ids_ok TEnvs ?db (map en_id (db_envs db) @ [next_id TEnvs db])"
    using assms(3,4) seq(1) by (intro ids_ok_next)
  then have "envs_ok ?db"
    using assms(4-11) seq(1) by (auto simp: envs_ok_def insert_env_def take_id_def next_id_def)
  moreover have "entries_ok ?db" "projects_ok ?db"
    using assms(1,2) by (auto simp: entries_ok_def projects_ok_def ids_ok_def insert_env_def take_id_def)
  ultimately show ?thesis by (simp add: db_ok_def)
qed

lemma ok_insert_project:
  assumes "db_ok db" and "find_project db name = None"
  shows "db_ok (insert_project now name db)"
proof -
  let ?pid = "next_id TProjects db"
  let ?db = "take_id TProjects (db\<lparr>db_projects := db_projects db @ [\<lparr>pj_id = ?pid, pj_name = name, pj_created = now, pj_updated = now\<rparr>]\<rparr>)"
  have ok: "projects_ok db" "envs_ok db" "entries_ok db" using assms(1) by (auto simp: db_ok_def)
  have seq: "db_seq ?db TProjects = ?pid" "t \<noteq> TProjects \<Longrightarrow> db_seq ?db t = db_seq db t" for t
    by (simp_all add: take_id_def next_id_def)
  have new: "?pid \<notin> pj_id ` set (db_projects db)" "name \<notin> pj_name ` set (db_projects db)"
    using ok(1) assms(2) by (auto simp: projects_ok_def ids_ok_def next_id_def find_project_def find_None_iff)
  have "ids_ok TProjects ?db (map pj_id (db_projects db) @ [?pid])"
    using ok(1) seq(1) by (intro ids_ok_next) (auto simp: projects_ok_def)
  then have "projects_ok ?db"
    using ok(1) new seq(1) by (auto simp: projects_ok_def take_id_def next_id_def)
  moreover have "entries_ok ?db" using ok(3) by (auto simp: entries_ok_def ids_ok_def take_id_def)
  moreover have "(?pid, DefaultEnvName) \<notin> (\<lambda>e. (en_project e, en_name e)) ` set (db_envs db)"
    using ok(2) new(1) by (auto simp: envs_ok_def)
  ultimately show ?thesis
    using ok(2) unfolding insert_project_def Let_def
    by (intro ok_insert_env) (auto simp: envs_ok_def ids_ok_def take_id_def)
qed

text \<open>Dropping rows and following the foreign keys keeps what is left well formed.\<close>

lemma ok_cascade:
  assumes "db_ok db"
    and "db_projects db' = filter P (db_projects db)" "db_envs db' = filter Q (db_envs db)" "db_entries db' = filter R (db_entries db)"
    and "db_seq db' = db_seq db" and "\<And>e. e \<in> set (db_envs db) \<Longrightarrow> en_name e = DefaultEnvName \<Longrightarrow> Q e"
  shows "db_ok (sweep_orphans (cascade db'))"
proof -
  let ?db = "sweep_orphans (cascade db')"
  have ok: "projects_ok db" "envs_ok db" "entries_ok db" using assms(1) by (auto simp: db_ok_def)
  have t: "db_projects ?db = filter P (db_projects db)"
      "db_envs ?db = filter (\<lambda>e. en_project e \<in> pj_id ` set (filter P (db_projects db))) (filter Q (db_envs db))"
      "db_entries ?db = filter (\<lambda>n. nt_project n \<in> pj_id ` set (filter P (db_projects db)) \<and>
         nt_env n \<in> en_id ` set (db_envs ?db)) (filter R (db_entries db))" "db_seq ?db = db_seq db"
    using assms(2-5) by (simp_all add: sweep_orphans_def drop_annotations_def cascade_def Let_def)
  have "projects_ok ?db"
    using ok(1) t by (auto simp: projects_ok_def ids_ok_def intro: distinct_map_filter)
  moreover have "envs_ok ?db"
    using ok(2) t assms(6) unfolding envs_ok_def ids_ok_def by (auto intro!: distinct_map_filter) blast
  moreover have "entries_ok ?db"
  proof -
    have "\<exists>e \<in> set (db_envs ?db). en_id e = nt_env n \<and> en_project e = nt_project n" if mem: "n \<in> set (db_entries ?db)" for n
    proof -
      have "n \<in> set (db_entries db)" using mem unfolding t(3) by simp
      then obtain e where e: "e \<in> set (db_envs db)" "en_id e = nt_env n" "en_project e = nt_project n"
        using ok(3) by (auto simp: entries_ok_def)
      obtain e' where e': "e' \<in> set (db_envs ?db)" "en_id e' = nt_env n"
        using mem unfolding t(3) by auto
      have "inj_on en_id (set (db_envs db))" using ok(2) by (auto simp: envs_ok_def ids_ok_def distinct_map)
      moreover have "e' \<in> set (db_envs db)" using e'(1) unfolding t(2) by simp
      moreover have "en_id e' = en_id e" using e(2) e'(2) by simp
      ultimately have "e' = e" using e(1) by (metis inj_onD)
      then show ?thesis using e e' by blast
    qed
    moreover have "ids_ok TEntries ?db (map nt_id (db_entries ?db))"
      using ok(3) t(3,4) by (auto simp: entries_ok_def ids_ok_def intro!: distinct_map_filter)
    moreover have "distinct (map (\<lambda>n. (nt_project n, nt_env n, nt_name n)) (db_entries ?db))"
      using ok(3) t(3) by (auto simp: entries_ok_def intro!: distinct_map_filter)
    moreover have "\<forall>n \<in> set (db_entries ?db). nt_kind n = EnvVar" "0 \<le> db_seq ?db TEntries"
      using ok(3) t(3,4) by (auto simp: entries_ok_def)
    ultimately show ?thesis by (simp add: entries_ok_def)
  qed
  ultimately show ?thesis by (simp add: db_ok_def)
qed

end
