(* ===== verification/Vault_History.thy ===== *)
theory Vault_History
  imports Vault_Props Histories
begin

text \<open>
  Histories of operations on a vault, each with its outcome of the database, its clock reading
  and its random draws, and what every one of them leaves behind: well-formed tables.
\<close>

section \<open>Histories\<close>

datatype vault_op =
    VPut vault_scope string bytes bool | VPutPassword bytes vault_scope string bytes bool
  | VPutAuthored vault_scope string bytes bytes bool
  | VCreateProject string | VDeleteProject string | VRenameProject string string
  | VCreateEnv string string | VDeleteEnv string string | VRenameEnv string string string
  | VDelete vault_scope string | VClear vault_scope | VRename vault_scope string string
  | VCapture vault_scope "string list" | VCapturePassword bytes vault_scope "string list"
  | VSealUnattended vault_scope string | VUnlock bytes | VLock

record vault_call =
  vc_io :: store_io
  vc_now :: int
  vc_draws :: "string \<Rightarrow> bytes option"
  vc_op :: vault_op

text \<open>The outcome of an operation without what it returns.\<close>

definition outcome :: "(vault_error + 'a) \<times> vault \<Rightarrow> (vault_error + unit) \<times> vault" where
  "outcome r = (map_sum id (\<lambda>_. ()) (fst r), snd r)"

fun run_vault_op ::
  "crypto_lib \<Rightarrow> store_io \<Rightarrow> int \<Rightarrow> (string \<Rightarrow> bytes option) \<Rightarrow> vault_op \<Rightarrow> vault \<Rightarrow> (vault_error + unit) \<times> vault" where
  "run_vault_op cl io now draws (VPut s n x c) v = put_env_var cl io now (draws n) s n x c v"
| "run_vault_op cl io now draws (VPutPassword pw s n x c) v = put_env_var_with_password cl io now (draws n) pw s n x c v"
| "run_vault_op cl io now draws (VPutAuthored s n x k c) v = put_authored cl io now (draws n) s n x k c v"
| "run_vault_op cl io now draws (VCreateProject p) v = create_project io now p v"
| "run_vault_op cl io now draws (VDeleteProject p) v = delete_project io p v"
| "run_vault_op cl io now draws (VRenameProject p q) v = rename_project io now p q v"
| "run_vault_op cl io now draws (VCreateEnv p e) v = create_env io now p e v"
| "run_vault_op cl io now draws (VDeleteEnv p e) v = delete_env io p e v"
| "run_vault_op cl io now draws (VRenameEnv p e f) v = rename_env io now p e f v"
| "run_vault_op cl io now draws (VDelete s n) v = delete_env_var io s n v"
| "run_vault_op cl io now draws (VClear s) v = outcome (clear_env_vars io s v)"
| "run_vault_op cl io now draws (VRename s n m) v = rename_env_var cl io now (draws n) s n m v"
| "run_vault_op cl io now draws (VCapture s ns) v = outcome (capture_row_keys cl io draws s ns v)"
| "run_vault_op cl io now draws (VCapturePassword pw s ns) v = outcome (capture_row_keys_with_password cl io draws pw s ns v)"
| "run_vault_op cl io now draws (VSealUnattended s n) v = outcome (seal_unattended cl io (draws n) s n v)"
| "run_vault_op cl io now draws (VUnlock pw) v = unlock_vault cl pw v"
| "run_vault_op cl io now draws VLock v = (Inr (), lock_vault v)"

definition run_vault :: "crypto_lib \<Rightarrow> vault_call list \<Rightarrow> vault \<Rightarrow> vault" where
  "run_vault cl calls v = fold (\<lambda>c v. snd (run_vault_op cl (vc_io c) (vc_now c) (vc_draws c) (vc_op c) v)) calls v"

definition fresh_vault :: "int \<Rightarrow> bytes \<Rightarrow> string \<Rightarrow> string \<Rightarrow> bytes option \<Rightarrow> vault" where
  "fresh_vault now seed vaultID name wrapped =
     \<lparr>vt_id = vaultID, vt_key = None, vt_wrapped = wrapped, vt_db = bootstrap_defaults now (create_schema now seed vaultID name)\<rparr>"

named_theorems fresh_tables "unfolds the tables of a fresh vault"

lemmas fresh_tables_defs [fresh_tables] =
  fresh_vault_def bootstrap_defaults_def create_schema_def insert_project_def insert_env_def take_id_def next_id_def Let_def

lemma ok_fresh: "db_ok (bootstrap_defaults now (create_schema now seed vaultID name))"
proof -
  have "db_ok (create_schema now seed vaultID name)"
    by (simp add: create_schema_def db_ok_def projects_ok_def envs_ok_def entries_ok_def ids_ok_def)
  then have "db_ok (insert_project now DefaultProjectName (create_schema now seed vaultID name))"
    by (rule ok_insert_project) (simp add: create_schema_def find_project_def)
  then show ?thesis
    by (auto simp: bootstrap_defaults_def Let_def db_ok_def projects_ok_def envs_ok_def entries_ok_def ids_ok_def)
qed

section \<open>One operation\<close>

lemma transact_ok:
  assumes "db_ok (vt_db v)" and "\<And>res db. stmts = Inr (res, db) \<Longrightarrow> db_ok db"
  shows "db_ok (vt_db (snd (transact io v stmts)))"
  using assms by (auto simp: transact_def split: option.splits sum.splits)

lemma write_env_var_ok:
  assumes "db_ok (vt_db v)" and "env_at (vt_db v) s = Some (pid, eid)"
  shows "db_ok (vt_db (snd (write_env_var io now createOnly pid eid name ct ver v)))"
  unfolding write_env_var_def using assms(1) by (rule transact_ok) (use ok_upsert [OF assms] in \<open>auto split: if_splits\<close>)

lemma put_with_key_ok: "db_ok (vt_db v) \<Longrightarrow> db_ok (vt_db (snd (put_with_key cl io now draw key s name val c v)))"
  by (auto simp: put_with_key_def scope_ids_Inr intro!: write_env_var_ok split: sum.splits prod.splits)

lemma puts_ok:
  assumes "db_ok (vt_db v)"
  shows "db_ok (vt_db (snd (put_env_var cl io now draw s name val c v)))"
    and "db_ok (vt_db (snd (put_env_var_with_password cl io now draw pw s name val c v)))"
    and "db_ok (vt_db (snd (put_authored cl io now draw s name val k c v)))"
proof -
  show "db_ok (vt_db (snd (put_env_var cl io now draw s name val c v)))"
    using assms by (auto simp: put_env_var_def intro!: put_with_key_ok split: option.splits)
  show "db_ok (vt_db (snd (put_env_var_with_password cl io now draw pw s name val c v)))"
    using assms by (auto simp: put_env_var_with_password_def intro!: put_with_key_ok split: option.splits sum.splits)
  show "db_ok (vt_db (snd (put_authored cl io now draw s name val k c v)))"
    using assms by (auto simp: put_authored_def scope_ids_Inr intro!: write_env_var_ok split: option.splits sum.splits prod.splits)
qed

lemma create_project_ok: "db_ok (vt_db v) \<Longrightarrow> db_ok (vt_db (snd (create_project io now p v)))"
  by (auto simp: create_project_def intro!: transact_ok ok_insert_project split: option.splits if_splits)

lemma delete_and_sweep_ok:
  assumes "db_ok (vt_db v)"
    and "snd (del (vt_db v)) = (vt_db v)\<lparr>db_projects := filter P (db_projects (vt_db v)), db_envs := filter Q (db_envs (vt_db v)),
      db_entries := filter R (db_entries (vt_db v))\<rparr>"
    and "\<And>e. e \<in> set (db_envs (vt_db v)) \<Longrightarrow> en_name e = DefaultEnvName \<Longrightarrow> Q e"
    and "fst (del (vt_db v)) = 0 \<Longrightarrow> snd (del (vt_db v)) = vt_db v"
  shows "db_ok (vt_db (snd (delete_and_sweep io del v)))"
proof -
  obtain n db where d: "del (vt_db v) = (n, db)" by fastforce
  have "db_ok (sweep_orphans (cascade db))"
    using assms(1-3) d by (intro ok_cascade [of "vt_db v" db P Q R]) auto
  then show ?thesis
    using assms(1,4) d unfolding delete_and_sweep_def by (intro transact_ok) (auto split: if_splits)
qed

lemma filter_none: "rows_deleted P xs = 0 \<Longrightarrow> filter (\<lambda>x. \<not> P x) xs = xs"
  by (auto simp: rows_deleted_def filter_empty_conv filter_id_conv)

lemma keeps_all: "filter (\<lambda>_. True) xs = xs"
  by (induction xs) auto

lemma delete_project_ok:
  assumes "db_ok (vt_db v)"
  shows "db_ok (vt_db (snd (delete_project io p v)))"
proof -
  have "db_ok (vt_db (snd (delete_and_sweep io (\<lambda>db. (rows_deleted (\<lambda>q. pj_name q = p) (db_projects db),
      db\<lparr>db_projects := filter (\<lambda>q. pj_name q \<noteq> p) (db_projects db)\<rparr>)) v)))"
    using assms by (rule delete_and_sweep_ok [where Q = "\<lambda>_. True" and R = "\<lambda>_. True"])
      (auto simp: keeps_all dest: filter_none)
  then show ?thesis using assms by (auto simp: delete_project_def split: option.splits sum.splits prod.splits)
qed

lemma delete_entries_ok:
  assumes "db_ok (vt_db v)"
  shows "db_ok (vt_db (snd (delete_entries io hit v)))"
  unfolding delete_entries_def
  using assms by (rule delete_and_sweep_ok [where P = "\<lambda>_. True" and Q = "\<lambda>_. True"]) (auto simp: keeps_all dest: filter_none)

lemma delete_envs_ok:
  assumes "db_ok (vt_db v)"
  shows "db_ok (vt_db (snd (delete_envs io (named_env pid name) v)))"
proof -
  have kept: "x \<in> set (db_envs (vt_db v)) \<Longrightarrow> en_name x = DefaultEnvName \<Longrightarrow> \<not> named_env pid name x" for x
    using assms by (auto simp: named_env_def db_ok_def envs_ok_def)
  show ?thesis
    unfolding delete_envs_def using assms
  proof (rule delete_and_sweep_ok [where P = "\<lambda>_. True" and R = "\<lambda>_. True" and Q = "\<lambda>x. \<not> named_env pid name x"])
    show "en_name x = DefaultEnvName \<Longrightarrow> \<not> named_env pid name x" if "x \<in> set (db_envs (vt_db v))" for x
      using kept that by blast
  qed (simp_all add: keeps_all filter_none)
qed

lemma delete_env_ok:
  assumes "db_ok (vt_db v)"
  shows "db_ok (vt_db (snd (delete_env io p e v)))"
proof -
  have d: "db_ok (vt_db v')" if "delete_envs io (named_env pid e) v = (r, v')" for pid r v'
    using delete_envs_ok [OF assms, of io pid e] that by simp
  show ?thesis
    using assms by (auto simp: delete_env_def split: option.splits sum.splits prod.splits dest: d)
qed

lemma deletes_ok:
  assumes "db_ok (vt_db v)"
  shows "db_ok (vt_db (snd (delete_env_var io s n v)))" and "db_ok (vt_db (snd (clear_env_vars io s v)))"
proof -
  have d: "db_ok (vt_db v')" if "delete_entries io hit v = (r, v')" for hit r v'
    using delete_entries_ok [OF assms, of io hit] that by simp
  show "db_ok (vt_db (snd (delete_env_var io s n v)))"
    using assms by (auto simp: delete_env_var_def split: option.splits sum.splits prod.splits dest: d)
  show "db_ok (vt_db (snd (clear_env_vars io s v)))"
    using assms by (auto simp: clear_env_vars_def delete_entries_ok split: option.splits sum.splits prod.splits)
qed

lemma find_none_notin: "find_project db name = None \<Longrightarrow> name \<notin> pj_name ` set (db_projects db)"
  by (auto simp: find_project_def find_None_iff)

text \<open>Renaming a row to a name no other row has keeps the names apart.\<close>

lemma distinct_renamed:
  assumes "distinct (map f xs)" and "new \<notin> f ` set xs" and "\<And>x. x \<in> set xs \<Longrightarrow> g x = f x \<or> f x = old \<and> g x = new"
  shows "distinct (map g xs)"
  using assms
proof (induction xs)
  case (Cons x xs)
  have IH: "distinct (map g xs)" using Cons by auto
  have "g x \<notin> g ` set xs"
  proof
    assume "g x \<in> g ` set xs"
    then obtain y where y: "y \<in> set xs" "g x = g y" by blast
    have "f y \<in> f ` set xs" using y(1) by simp
    then have "f y \<noteq> f x" using Cons.prems(1) by auto
    moreover have "g x = f x \<or> f x = old \<and> g x = new" "g y = f y \<or> f y = old \<and> g y = new"
      using Cons.prems(3) y(1) by auto
    moreover have "f x \<noteq> new" "f y \<noteq> new" using Cons.prems(2) y(1) by auto
    ultimately show False using y(2) by auto
  qed
  then show ?case using IH by simp
qed simp

lemma rename_project_ok:
  assumes "db_ok (vt_db v)"
  shows "db_ok (vt_db (snd (rename_project io now p q v)))"
proof -
  let ?f = "\<lambda>x. if pj_name x = p then x\<lparr>pj_name := q, pj_updated := now\<rparr> else x"
  let ?db = "(vt_db v)\<lparr>db_projects := map ?f (db_projects (vt_db v))\<rparr>"
  have ok: "projects_ok (vt_db v)" "envs_ok (vt_db v)" "entries_ok (vt_db v)" using assms by (auto simp: db_ok_def)
  have "db_ok ?db" if "find_project (vt_db v) q = None"
  proof -
    have "distinct (map (\<lambda>x. pj_name (?f x)) (db_projects (vt_db v)))"
    proof (rule distinct_renamed [of pj_name])
      show "distinct (map pj_name (db_projects (vt_db v)))" using ok(1) by (simp add: projects_ok_def)
      show "q \<notin> pj_name ` set (db_projects (vt_db v))" using find_none_notin [OF that] .
      show "pj_name (?f x) = pj_name x \<or> pj_name x = p \<and> pj_name (?f x) = q" for x by simp
    qed
    then have "projects_ok ?db" by (intro projects_ok_map [OF ok(1), of _ ?f]) simp_all
    moreover have "envs_ok ?db"
      by (rule envs_ok_map [OF ok(2), of _ id]) (use ok(2) in \<open>auto simp: envs_ok_def\<close>)
    moreover have "entries_ok ?db" by (rule entries_ok_envs [OF ok(3), of _ id]) simp_all
    ultimately show ?thesis by (simp add: db_ok_def)
  qed
  then have "db_ok (vt_db (snd (transact io v (rename_project_stmts now p q (vt_db v)))))"
    by (intro transact_ok [OF assms]) (auto simp: rename_project_stmts_def split: if_splits)
  then show ?thesis using assms by (simp add: rename_project_def split: option.splits)
qed

lemma rename_env_ok:
  assumes "db_ok (vt_db v)"
  shows "db_ok (vt_db (snd (rename_env io now p a b v)))"
proof -
  let ?f = "\<lambda>pid e. if named_env pid a e then e\<lparr>en_name := b, en_updated := now\<rparr> else e"
  have ok: "projects_ok (vt_db v)" "envs_ok (vt_db v)" "entries_ok (vt_db v)" using assms by (auto simp: db_ok_def)
  have "db_ok ((vt_db v)\<lparr>db_envs := map (?f pid) (db_envs (vt_db v))\<rparr>)"
    if new: "find_env (vt_db v) pid b = None" and ab: "a \<noteq> DefaultEnvName" "b \<noteq> DefaultEnvName" for pid
  proof -
    let ?db = "(vt_db v)\<lparr>db_envs := map (?f pid) (db_envs (vt_db v))\<rparr>"
    have "distinct (map (\<lambda>e. (en_project e, en_name (?f pid e))) (db_envs (vt_db v)))"
    proof (rule distinct_renamed [of "\<lambda>e. (en_project e, en_name e)"])
      show "distinct (map (\<lambda>e. (en_project e, en_name e)) (db_envs (vt_db v)))" using ok(2) by (simp add: envs_ok_def)
      show "(pid, b) \<notin> (\<lambda>e. (en_project e, en_name e)) ` set (db_envs (vt_db v))"
        using new by (auto simp: find_env_def find_None_iff)
      show "(en_project x, en_name (?f pid x)) = (en_project x, en_name x) \<or>
          (en_project x, en_name x) = (pid, a) \<and> (en_project x, en_name (?f pid x)) = (pid, b)" for x
        by (simp add: named_env_def)
    qed
    then have "envs_ok ?db"
      using ab ok(2) by (intro envs_ok_map [OF ok(2), of _ "?f pid"]) (auto simp: envs_ok_def named_env_def)
    moreover have "entries_ok ?db" by (rule entries_ok_envs [OF ok(3), of _ "?f pid"]) simp_all
    moreover have "projects_ok ?db"
      by (rule projects_ok_map [OF ok(1), of _ id]) (use ok(1) in \<open>simp_all add: projects_ok_def\<close>)
    ultimately show ?thesis by (simp add: db_ok_def)
  qed
  then have "db_ok (vt_db (snd (transact io v (rename_env_stmts now pid a b (vt_db v)))))"
    if "a \<noteq> DefaultEnvName" "b \<noteq> DefaultEnvName" for pid
    using that by (intro transact_ok [OF assms]) (auto simp: rename_env_stmts_def split: if_splits)
  then show ?thesis using assms by (simp add: rename_env_def split: option.splits sum.splits)
qed

lemma reseal_row_ok: "db_ok db \<Longrightarrow> db_ok (reseal_row pid eid name ct ver db)"
proof -
  assume ok: "db_ok db"
  let ?f = "\<lambda>n. if nt_project n = pid \<and> nt_env n = eid \<and> nt_kind n = EnvVar \<and> nt_name n = name
      then n\<lparr>nt_value := ct, nt_aad := ver\<rparr> else n"
  have key: "(\<lambda>n. (nt_project n, nt_env n, nt_name (?f n))) = (\<lambda>n. (nt_project n, nt_env n, nt_name n))" by auto
  have d: "distinct (map (\<lambda>n. (nt_project n, nt_env n, nt_name (?f n))) (db_entries db))"
    unfolding key using ok by (simp add: db_ok_def entries_ok_def)
  have "entries_ok db" using ok by (simp add: db_ok_def)
  then have "entries_ok (reseal_row pid eid name ct ver db)"
    by (rule entries_ok_map [OF _ _ _ _ _ d]) (auto simp: reseal_row_def)
  then show ?thesis
    using ok by (simp add: db_ok_def reseal_row_def projects_ok_def envs_ok_def ids_ok_def)
qed

lemma capture_one_ok: "db_ok (vt_db v) \<Longrightarrow> db_ok (vt_db (snd (capture_one cl io draw vk pid eid se name v)))"
  by (auto simp: capture_one_def intro!: transact_ok reseal_row_ok split: option.splits sum.splits prod.splits)

lemma capture_loop_ok: "db_ok (vt_db v) \<Longrightarrow> db_ok (vt_db (snd (capture_loop cl io draws vk pid eid se out names v)))"
proof (induction names arbitrary: out v)
  case (Cons name names)
  obtain r v' where c: "capture_one cl io (draws name) vk pid eid se name v = (r, v')" by fastforce
  then have "db_ok (vt_db v')" using capture_one_ok [OF Cons.prems, of cl io "draws name" vk pid eid se name] by simp
  then show ?case using c Cons.IH by (auto split: option.splits sum.splits)
qed simp

lemma captures_ok:
  assumes "db_ok (vt_db v)"
  shows "db_ok (vt_db (snd (capture_row_keys cl io draws s names v)))"
    and "db_ok (vt_db (snd (capture_row_keys_with_password cl io draws pw s names v)))"
  using assms
  by (auto simp: capture_row_keys_def capture_row_keys_with_password_def capture_row_keys_with_key_def
      intro!: capture_loop_ok split: option.splits sum.splits prod.splits)

lemma seal_unattended_ok: "db_ok (vt_db v) \<Longrightarrow> db_ok (vt_db (snd (seal_unattended cl io draw s name v)))"
  by (auto simp: seal_unattended_def seal_unattended_with_key_def intro!: transact_ok reseal_row_ok
      split: option.splits sum.splits prod.splits)

lemma rename_stmts_ok:
  assumes "db_ok (vt_db v)" and "rename_stmts cl io now draw key pid eid a b v = Inr (u, db)"
  shows "db_ok db"
proof -
  obtain ct where db: "db = (vt_db v)\<lparr>db_entries := map (\<lambda>n.
        if nt_project n = pid \<and> nt_env n = eid \<and> nt_kind n = EnvVar \<and> nt_name n = a
        then n\<lparr>nt_name := b, nt_value := ct, nt_aad := currentAADVersion, nt_updated := now\<rparr> else n) (db_entries (vt_db v))\<rparr>"
      and new: "row_at (vt_db v) pid eid b = None"
    using assms(2) by (auto simp: rename_stmts_def split: if_splits sum.splits option.splits)
  let ?f = "\<lambda>n. if nt_project n = pid \<and> nt_env n = eid \<and> nt_kind n = EnvVar \<and> nt_name n = a
        then n\<lparr>nt_name := b, nt_value := ct, nt_aad := currentAADVersion, nt_updated := now\<rparr> else n"
  have ok: "projects_ok (vt_db v)" "envs_ok (vt_db v)" "entries_ok (vt_db v)" using assms(1) by (auto simp: db_ok_def)
  have "distinct (map (\<lambda>n. (nt_project n, nt_env n, nt_name (?f n))) (db_entries (vt_db v)))"
  proof (rule distinct_renamed [of "\<lambda>n. (nt_project n, nt_env n, nt_name n)"])
    show "distinct (map (\<lambda>n. (nt_project n, nt_env n, nt_name n)) (db_entries (vt_db v)))"
      using ok(3) by (simp add: entries_ok_def)
    show "(pid, eid, b) \<notin> (\<lambda>n. (nt_project n, nt_env n, nt_name n)) ` set (db_entries (vt_db v))"
      using new by (auto simp: row_at_def find_None_iff)
    show "(nt_project x, nt_env x, nt_name (?f x)) = (nt_project x, nt_env x, nt_name x) \<or>
        (nt_project x, nt_env x, nt_name x) = (pid, eid, a) \<and> (nt_project x, nt_env x, nt_name (?f x)) = (pid, eid, b)" for x
      by simp
  qed
  then have "entries_ok db" by (intro entries_ok_map [OF ok(3), of _ ?f]) (simp_all add: db)
  then show ?thesis using ok by (simp add: db db_ok_def projects_ok_def envs_ok_def ids_ok_def)
qed

lemma rename_env_var_ok:
  assumes "db_ok (vt_db v)"
  shows "db_ok (vt_db (snd (rename_env_var cl io now draw s a b v)))"
proof -
  have "db_ok (vt_db (snd (transact io v (rename_stmts cl io now draw key pid eid a b v))))" for key pid eid
    using assms rename_stmts_ok [OF assms] by (rule transact_ok)
  then show ?thesis
    using assms by (simp add: rename_env_var_def split: option.splits sum.splits prod.splits)
qed

lemma create_env_ok:
  assumes "db_ok (vt_db v)"
  shows "db_ok (vt_db (snd (create_env io now p e v)))"
proof -
  have ok: "projects_ok (vt_db v)" "envs_ok (vt_db v)" "entries_ok (vt_db v)" using assms by (auto simp: db_ok_def)
  have "db_ok (insert_env now (pj_id q) e False (vt_db v))"
    if "find_project (vt_db v) p = Some q" "find_env (vt_db v) (pj_id q) e = None" "e \<noteq> DefaultEnvName" for q
    using ok that find_project_Some [OF that(1)]
    by (intro ok_insert_env) (auto simp: envs_ok_def find_env_def find_None_iff)
  then have "db_ok (vt_db (snd (transact io v (if find_env (vt_db v) (pj_id q) e \<noteq> None then Inl ErrEnvExists
      else Inr ((), insert_env now (pj_id q) e False (vt_db v))))))"
    if "find_project (vt_db v) p = Some q" "e \<noteq> DefaultEnvName" for q
    using that by (intro transact_ok [OF assms]) (auto split: if_splits)
  then show ?thesis
    using assms by (simp add: create_env_def project_id_by_name_def split: option.splits)
qed

section \<open>Any history\<close>

lemma run_vault_op_ok: "db_ok (vt_db v) \<Longrightarrow> db_ok (vt_db (snd (run_vault_op cl io now draws op v)))"
  by (cases op) (simp_all add: outcome_def puts_ok create_project_ok delete_project_ok rename_project_ok create_env_ok delete_env_ok
      rename_env_ok deletes_ok rename_env_var_ok captures_ok seal_unattended_ok unlock_vault_def lock_vault_def split: sum.splits)

interpretation vaults: history "\<lambda>c v. snd (run_vault_op cl (vc_io c) (vc_now c) (vc_draws c) (vc_op c) v)" "\<lambda>v. db_ok (vt_db v)"
  for cl
  by unfold_locales (rule run_vault_op_ok)

lemma run_vault_ok: "db_ok (vt_db v) \<Longrightarrow> db_ok (vt_db (run_vault cl calls v))"
  unfolding run_vault_def by (rule vaults.run_inv)

end
