(* ===== verification/Vault_Read.thy ===== *)
theory Vault_Read
  imports Vault_History Keyed_Store
begin

text \<open>
  Reading and writing values, abstractly: the row a name resolves to, the values of a vault as a
  map from scope and name, and the lemmas that tie the operations to both.
\<close>

section \<open>The row a name resolves to\<close>

definition visible_row :: "vault_db \<Rightarrow> vault_scope \<Rightarrow> string \<Rightarrow> (int \<times> int \<times> entry_row \<times> source) option" where
  "visible_row db s name =
     (case env_at db s of None \<Rightarrow> None
      | Some (pid, eid) \<Rightarrow>
          (case row_at db pid eid name of
             Some r \<Rightarrow> Some (pid, eid, r, SourceScope)
           | None \<Rightarrow>
               if sc_env s = DefaultEnvName then None
               else (case find_env db pid DefaultEnvName of None \<Rightarrow> None
                 | Some d \<Rightarrow> map_option (\<lambda>r. (pid, en_id d, r, SourceDefault)) (row_at db pid (en_id d) name))))"

lemma env_at_find: "env_at db s = Some (pid, eid) \<Longrightarrow> \<exists>p. find_project db (sc_project s) = Some p \<and> pj_id p = pid"
  by (auto simp: env_at_def split: option.splits)

lemma default_env_at:
  assumes "db_ok db" and "env_at db s = Some (pid, eid)"
  obtains d where "find_env db pid DefaultEnvName = Some d"
    and "env_at db \<lparr>sc_project = sc_project s, sc_env = DefaultEnvName\<rparr> = Some (pid, en_id d)"
proof -
  obtain p where p: "find_project db (sc_project s) = Some p" "pj_id p = pid" using env_at_find [OF assms(2)] by blast
  obtain d where "find_env db (pj_id p) DefaultEnvName = Some d" using default_env_exists [OF assms(1) p(1)] by blast
  then show ?thesis using p by (intro that [of d]) (simp_all add: env_at_def)
qed

lemma default_env_id:
  assumes "db_ok db" and "env_at db s = Some (pid, eid)" and "find_env db pid DefaultEnvName = Some d"
  shows "en_id d = eid \<longleftrightarrow> sc_env s = DefaultEnvName"
proof -
  obtain p e where p: "find_project db (sc_project s) = Some p" "find_env db (pj_id p) (sc_env s) = Some e"
      "pid = pj_id p" "eid = en_id e"
    using assms(2) by (auto simp: env_at_def split: option.splits)
  have "env_at db \<lparr>sc_project = sc_project s, sc_env = DefaultEnvName\<rparr> = Some (pid, en_id d)"
    using p assms(3) by (simp add: env_at_def)
  then show ?thesis
    using env_at_inj [OF assms(1,2), of "\<lparr>sc_project = sc_project s, sc_env = DefaultEnvName\<rparr>" pid] p assms(3)
    by (metis option.inject vault_scope.select_convs(2))
qed

text \<open>Both ways the code looks a name up end at the visible row.\<close>

lemma env_id_default:
  assumes "db_ok db" and "load_error io = None" and "env_at db s = Some (pid, eid)"
  shows "\<exists>d. env_id_by_name io db pid DefaultEnvName = Inr (en_id d) \<and> find_env db pid DefaultEnvName = Some d"
proof -
  obtain d where "find_env db pid DefaultEnvName = Some d" using default_env_at [OF assms(1,3)] by blast
  then show ?thesis using assms(2) by (simp add: env_id_by_name_def)
qed

lemma fetch_inherited_visible:
  assumes "db_ok db" and "load_error io = None" and "env_at db s = Some (pid, eid)"
  shows "fetch_inherited io db pid eid (sc_env s) name = Inr (map_option (\<lambda>(_, e, r, _). (r, e)) (visible_row db s name))"
proof -
  obtain d where d: "env_id_by_name io db pid DefaultEnvName = Inr (en_id d)" "find_env db pid DefaultEnvName = Some d"
    using env_id_default [OF assms] by blast
  have f: "fetch_entry io db p e EnvVar n = Inr (row_at db p e n)" for p e n
    using assms(1,2) by (intro fetch_entry_row) (simp_all add: db_ok_def)
  show ?thesis
    using assms(3) d by (simp add: fetch_inherited_def f visible_row_def split: option.splits)
qed

lemma get_visible:
  assumes "db_ok (vt_db v)" and "load_error io = None" and "env_at (vt_db v) s = Some (pid, eid)"
  shows "get_with_key cl io key s name v =
    (case visible_row (vt_db v) s name of None \<Rightarrow> Inl ErrEntryNotFound
     | Some (p, e, r, src) \<Rightarrow> decrypt_entry cl (vt_id v) key p e r src)"
proof -
  have "scope_ids io (vt_db v) s = Inr (pid, eid)" using assms(2,3) by (simp add: scope_ids_Inr)
  moreover obtain d where "env_id_by_name io (vt_db v) pid DefaultEnvName = Inr (en_id d)"
      "find_env (vt_db v) pid DefaultEnvName = Some d"
    using env_id_default [OF assms] by blast
  moreover have "fetch_entry io (vt_db v) p e EnvVar n = Inr (row_at (vt_db v) p e n)" for p e n
    using assms(1,2) by (intro fetch_entry_row) (simp_all add: db_ok_def)
  ultimately show ?thesis
    using assms(3) by (simp add: get_with_key_def visible_row_def split: option.splits)
qed

lemma get_needs:
  assumes "get_with_key cl io key s name v = Inr e"
  shows "load_error io = None \<and> (\<exists>pid eid. env_at (vt_db v) s = Some (pid, eid))"
  using assms by (auto simp: get_with_key_def scope_ids_Inr split: sum.splits prod.splits)

lemma visible_row_at:
  assumes "visible_row db s name = Some (p, e, r, src)"
  shows "row_at db p e name = Some r" and "r \<in> set (db_entries db)" and "nt_name r = name"
    and "nt_project r = p" and "nt_env r = e"
proof -
  show "row_at db p e name = Some r" using assms by (auto simp: visible_row_def split: option.splits if_splits)
  then show "r \<in> set (db_entries db)" "nt_name r = name" "nt_project r = p" "nt_env r = e"
    by (auto simp: at_row_def dest!: row_at_Some)
qed

section \<open>The values as a map\<close>

definition own_row :: "vault_db \<Rightarrow> vault_scope \<times> string \<Rightarrow> entry_row option" where
  "own_row db k = (case env_at db (fst k) of None \<Rightarrow> None | Some (pid, eid) \<Rightarrow> row_at db pid eid (snd k))"

definition open_row :: "crypto_lib \<Rightarrow> string \<Rightarrow> bytes \<Rightarrow> entry_row \<Rightarrow> bytes option" where
  "open_row cl vid key r =
     (case open_entry cl vid key (nt_aad r) (nt_project r) (nt_env r) (nt_kind r) (nt_name r) (nt_value r) of
        Inl _ \<Rightarrow> None | Inr x \<Rightarrow> Some x)"

definition own_value :: "crypto_lib \<Rightarrow> bytes \<Rightarrow> vault \<Rightarrow> vault_scope \<times> string \<Rightarrow> bytes option" where
  "own_value cl key v k = Option.bind (own_row (vt_db v) k) (open_row cl (vt_id v) key)"

definition default_scope :: "vault_scope \<Rightarrow> vault_scope" where
  "default_scope s = \<lparr>sc_project = sc_project s, sc_env = DefaultEnvName\<rparr>"

lemma own_value_row:
  assumes "env_at (vt_db v) s = Some (pid, eid)" and "row_at (vt_db v) pid eid name = Some r"
    and "open_entry cl (vt_id v) key (nt_aad r) pid eid (nt_kind r) (nt_name r) (nt_value r) = Inr x"
  shows "own_value cl key v (s, name) = Some x"
  using assms row_at_Some [OF assms(2)] by (simp add: own_value_def own_row_def open_row_def at_row_def)

text \<open>What a read returns: the value of the scope, or else that of the project's default environment.\<close>

lemma get_reads:
  assumes ok: "db_ok (vt_db v)" and g: "get_with_key cl io key s name v = Inr e"
  shows "nv_name e = name"
    and "nv_source e = SourceScope \<longleftrightarrow> (\<exists>pid eid. env_at (vt_db v) s = Some (pid, eid) \<and> row_at (vt_db v) pid eid name \<noteq> None)"
    and "own_value cl key v (if nv_source e = SourceScope then s else default_scope s, name) = Some (nv_value e)"
proof -
  obtain pid eid where n: "load_error io = None" "env_at (vt_db v) s = Some (pid, eid)" using get_needs [OF g] by blast
  obtain p en r src where vis: "visible_row (vt_db v) s name = Some (p, en, r, src)"
      and d: "decrypt_entry cl (vt_id v) key p en r src = Inr e"
    using g get_visible [OF ok n] by (auto split: option.splits)
  have e: "nv_name e = name" "nv_source e = src"
      "open_entry cl (vt_id v) key (nt_aad r) p en (nt_kind r) (nt_name r) (nt_value r) = Inr (nv_value e)"
    using d visible_row_at(3) [OF vis] by (auto simp: decrypt_entry_def split: sum.splits)
  show "nv_name e = name" using e(1) .
  show "nv_source e = SourceScope \<longleftrightarrow> (\<exists>pid eid. env_at (vt_db v) s = Some (pid, eid) \<and> row_at (vt_db v) pid eid name \<noteq> None)"
    using vis n(2) e(2) by (auto simp: visible_row_def split: option.splits if_splits)
  show "own_value cl key v (if nv_source e = SourceScope then s else default_scope s, name) = Some (nv_value e)"
  proof (cases src)
    case SourceScope
    then have "p = pid" "en = eid" using vis n(2) by (auto simp: visible_row_def split: option.splits if_splits)
    then show ?thesis using own_value_row [OF n(2)] visible_row_at(1) [OF vis] e SourceScope by auto
  next
    case SourceDefault
    obtain dd where dd: "find_env (vt_db v) pid DefaultEnvName = Some dd"
        "env_at (vt_db v) (default_scope s) = Some (pid, en_id dd)"
      using default_env_at [OF ok n(2)] unfolding default_scope_def by blast
    then have "p = pid" "en = en_id dd"
      using vis n(2) SourceDefault by (auto simp: visible_row_def split: option.splits if_splits)
    then show ?thesis using own_value_row [OF dd(2)] visible_row_at(1) [OF vis] e SourceDefault by auto
  qed
qed

end
