(* ===== verification/Vault_Map.thy ===== *)
theory Vault_Map
  imports Vault_Read
begin

text \<open>
  What each operation does to the row stored under a scope and a name.
\<close>

section \<open>Rows\<close>

lemma own_row_at: "own_row db k = Some r \<Longrightarrow>
  \<exists>pid eid. env_at db (fst k) = Some (pid, eid) \<and> r \<in> set (db_entries db) \<and> at_row pid eid (snd k) r"
  by (auto simp: own_row_def split: option.splits dest: row_at_Some)

lemma own_row_where:
  assumes "db_ok db" and "env_at db s = Some (pid, eid)" and "own_row db k = Some r"
  shows "at_row pid eid name r \<longleftrightarrow> k = (s, name)" and "nt_env r = eid \<longleftrightarrow> fst k = s"
proof -
  obtain s' n where kk: "k = (s', n)" by (cases k)
  obtain p e where k: "env_at db s' = Some (p, e)" "nt_project r = p" "nt_env r = e" "nt_name r = n"
    using own_row_at [OF assms(3)] by (auto simp: kk at_row_def)
  have "e = eid \<Longrightarrow> s' = s \<and> p = pid" using env_at_inj [OF assms(1) k(1), of s pid] assms(2) by blast
  moreover have "s' = s \<Longrightarrow> e = eid \<and> p = pid" using k(1) assms(2) by simp
  ultimately show "at_row pid eid name r \<longleftrightarrow> k = (s, name)" "nt_env r = eid \<longleftrightarrow> fst k = s"
    unfolding at_row_def kk k(2-4) by (blast, metis fst_conv)
qed

lemma own_row_the:
  assumes "env_at db s = Some (pid, eid)"
  shows "own_row db (s, name) = row_at db pid eid name"
  using assms by (simp add: own_row_def)

text \<open>A write replaces the row of its own scope and name.\<close>

lemma own_row_upsert:
  assumes "db_ok db" and "env_at db s = Some (pid, eid)"
  shows "\<exists>r. nt_project r = pid \<and> nt_env r = eid \<and> nt_kind r = EnvVar \<and> nt_name r = name \<and> nt_value r = ct \<and> nt_aad r = ver \<and>
    nt_updated r = now \<and> own_row (upsert_env_var now pid eid name ct ver db) = (own_row db)((s, name) \<mapsto> r)"
proof -
  let ?db = "upsert_env_var now pid eid name ct ver db"
  obtain r where r: "row_at ?db pid eid name = Some r" "nt_value r = ct" "nt_aad r = ver" "nt_updated r = now" "nt_kind r = EnvVar"
    using assms(1) row_at_Some [of db pid eid name]
    by (cases "row_at db pid eid name") (auto simp: row_at_upsert db_ok_def entries_ok_def)
  have "own_row ?db k = ((own_row db)((s, name) \<mapsto> r)) k" for k
  proof (cases "k = (s, name)")
    case True
    then show ?thesis using r(1) assms(2) by (simp add: own_row_def)
  next
    case False
    show ?thesis
    proof (cases "env_at db (fst k)")
      case None
      then show ?thesis using False by (simp add: own_row_def)
    next
      case (Some q)
      then have "row_at ?db (fst q) (snd q) (snd k) = row_at db (fst q) (snd q) (snd k)"
        using False env_at_inj [OF assms(1), of "fst k" "fst q" "snd q" s pid] assms(2)
        by (auto simp: row_at_upsert prod_eq_iff)
      then show ?thesis using Some False by (auto simp: own_row_def split: prod.splits)
    qed
  qed
  then have "own_row ?db = (own_row db)((s, name) \<mapsto> r)" by (rule ext)
  moreover have "at_row pid eid name r" using row_at_Some [OF r(1)] by simp
  ultimately show ?thesis using r by (intro exI [of _ r]) (simp add: at_row_def)
qed

text \<open>Deleting rows of any table takes away what they hold, and nothing else.\<close>

lemma find_filter_unique:
  assumes "distinct (map f xs)"
  shows "List.find (\<lambda>x. f x = c) (filter P xs) =
    (case List.find (\<lambda>x. f x = c) xs of None \<Rightarrow> None | Some x \<Rightarrow> if P x then Some x else None)"
  using assms
proof (induction xs)
  case (Cons x xs)
  have "f x = c \<Longrightarrow> y \<in> set xs \<Longrightarrow> f y \<noteq> c" for y
    using Cons.prems by (metis distinct.simps(2) image_eqI list.set_map list.simps(9))
  then have "f x = c \<Longrightarrow> List.find (\<lambda>x. f x = c) xs = None" unfolding find_None_iff by blast
  with Cons show ?case by auto
qed simp

definition own_path :: "vault_db \<Rightarrow> vault_scope \<times> string \<Rightarrow> (project_row \<times> env_row \<times> entry_row) option" where
  "own_path db k =
     Option.bind (find_project db (sc_project (fst k))) (\<lambda>p.
       Option.bind (find_env db (pj_id p) (sc_env (fst k))) (\<lambda>e.
         map_option (\<lambda>r. (p, e, r)) (row_at db (pj_id p) (en_id e) (snd k))))"

lemma own_row_path: "own_row db k = map_option (snd \<circ> snd) (own_path db k)"
  by (auto simp: own_row_def own_path_def env_at_def option.map_comp comp_def option.map_ident split: option.splits)

lemma own_path_names:
  assumes "own_path db k = Some (p, e, r)"
  shows "pj_name p = sc_project (fst k)" and "en_project e = pj_id p" and "en_name e = sc_env (fst k)"
    and "at_row (pj_id p) (en_id e) (snd k) r"
  using assms by (auto simp: own_path_def bind_eq_Some_conv dest: find_project_Some find_env_Some row_at_Some)

lemma own_path_cascade:
  assumes ok: "db_ok db" and P: "db_projects db' = filter P (db_projects db)"
    and Q: "db_envs db' = filter Q (db_envs db)" and R: "db_entries db' = filter R (db_entries db)"
  shows "own_path (sweep_orphans (cascade db')) k =
    (case own_path db k of None \<Rightarrow> None | Some (p, e, r) \<Rightarrow> if P p \<and> Q e \<and> R r then Some (p, e, r) else None)"
proof -
  let ?db = "sweep_orphans (cascade db')"
  let ?Q = "\<lambda>e. Q e \<and> en_project e \<in> pj_id ` set (filter P (db_projects db))"
  let ?R = "\<lambda>n. R n \<and> nt_project n \<in> pj_id ` set (filter P (db_projects db)) \<and> nt_env n \<in> en_id ` set (filter ?Q (db_envs db))"
  have t: "db_projects ?db = filter P (db_projects db)" "db_envs ?db = filter ?Q (db_envs db)" "db_entries ?db = filter ?R (db_entries db)"
    by (simp_all add: sweep_orphans_def drop_annotations_def cascade_def Let_def P Q R conj_commute)
  have d: "distinct (map pj_name (db_projects db))" "distinct (map pj_id (db_projects db))" "distinct (map en_id (db_envs db))"
      "distinct (map (\<lambda>e. (en_project e, en_name e)) (db_envs db))"
      "distinct (map (\<lambda>n. (nt_project n, nt_env n, nt_name n)) (db_entries db))"
    using ok by (simp_all add: db_ok_def projects_ok_def envs_ok_def entries_ok_def ids_ok_def)
  have fp: "find_project ?db n = (case find_project db n of None \<Rightarrow> None | Some p \<Rightarrow> if P p then Some p else None)" for n
    unfolding find_project_def t using find_filter_unique [OF d(1)] by simp
  have fe: "find_env ?db i n = (case find_env db i n of None \<Rightarrow> None | Some e \<Rightarrow> if ?Q e then Some e else None)" for i n
    unfolding find_env_def t using find_filter_unique [OF d(4), of "(i, n)" ?Q] by simp
  have fr: "row_at ?db i j n = (case row_at db i j n of None \<Rightarrow> None | Some r \<Rightarrow> if ?R r then Some r else None)" for i j n
    unfolding row_at_def t using find_filter_unique [OF d(5), of "(i, j, n)" ?R] by simp
  show ?thesis
  proof (cases "own_path db k")
    case None
    then show ?thesis by (auto simp: own_path_def fp fe fr bind_eq_None_conv split: option.splits)
  next
    case (Some q)
    obtain p e r where q: "q = (p, e, r)" by (cases q) auto
    have w: "find_project db (sc_project (fst k)) = Some p" "find_env db (pj_id p) (sc_env (fst k)) = Some e"
        "row_at db (pj_id p) (en_id e) (snd k) = Some r"
      using Some q by (auto simp: own_path_def bind_eq_Some_conv)
    note n = own_path_names [OF Some [unfolded q]]
    have m: "p \<in> set (db_projects db)" "e \<in> set (db_envs db)" using find_project_Some [OF w(1)] find_env_Some [OF w(2)] by auto
    have "P p \<Longrightarrow> pj_id p \<in> pj_id ` set (filter P (db_projects db))" using m(1) by auto
    moreover have "P p \<Longrightarrow> Q e \<Longrightarrow> en_id e \<in> en_id ` set (filter ?Q (db_envs db))" using m n(2) by auto
    ultimately have "P p \<Longrightarrow> Q e \<Longrightarrow> ?R r \<longleftrightarrow> R r" "P p \<Longrightarrow> ?Q e \<longleftrightarrow> Q e" using n by (simp_all add: at_row_def)
    then show ?thesis unfolding Some q own_path_def fp fe fr w by (auto simp: fe fr w)
  qed
qed

lemma own_row_cascade:
  assumes "db_ok db" and "db_projects db' = filter P (db_projects db)"
    and "db_envs db' = filter Q (db_envs db)" and "db_entries db' = filter R (db_entries db)"
    and "\<And>p e r. own_path db k = Some (p, e, r) \<Longrightarrow> P p \<and> Q e \<and> R r \<longleftrightarrow> keep"
  shows "own_row (sweep_orphans (cascade db')) k = (if keep then own_row db k else None)"
  using assms(5) unfolding own_row_path own_path_cascade [OF assms(1-4)] by (auto split: option.splits)

text \<open>Rewriting a row in place, and giving it a new name.\<close>

lemma own_row_map:
  assumes "db_projects db' = db_projects db" "db_envs db' = db_envs db" and "db_entries db' = map f (db_entries db)"
    and "\<And>n. nt_project (f n) = nt_project n \<and> nt_env (f n) = nt_env n \<and> nt_name (f n) = nt_name n"
  shows "own_row db' k = map_option f (own_row db k)"
  using assms env_at_cong [OF assms(1,2)] by (auto simp: own_row_def row_at_def find_map_same split: option.splits)

lemma find_renamed:
  assumes "distinct (map key xs)" and "new \<notin> key ` set xs" and "old \<noteq> new"
    and "\<And>x. x \<in> set xs \<Longrightarrow> key (f x) = (if key x = old then new else key x)"
  shows "List.find (\<lambda>x. key x = c) (map f xs) =
    (if c = old then None else map_option f (List.find (\<lambda>x. key x = (if c = new then old else c)) xs))"
  using assms
proof (induction xs)
  case (Cons x xs)
  then have IH: "List.find (\<lambda>x. key x = c) (map f xs) =
      (if c = old then None else map_option f (List.find (\<lambda>x. key x = (if c = new then old else c)) xs))"
    by simp
  have "key (f x) = (if key x = old then new else key x)" "key x \<noteq> new" using Cons.prems(2,4) by auto
  then show ?case using IH Cons.prems(3) by auto
qed simp

lemma own_row_rename:
  assumes ok: "db_ok db" and s: "env_at db s = Some (pid, eid)" and ne: "old \<noteq> new" and r: "own_row db (s, old) = Some r"
    and new: "own_row db (s, new) = None"
    and db': "db_projects db' = db_projects db" "db_envs db' = db_envs db" "db_entries db' = map f (db_entries db)"
    and f: "\<And>n. n \<in> set (db_entries db) \<Longrightarrow> (nt_project (f n), nt_env (f n), nt_name (f n)) =
      (if at_row pid eid old n then (pid, eid, new) else (nt_project n, nt_env n, nt_name n))"
    and same: "\<And>n. n \<in> set (db_entries db) \<Longrightarrow> \<not> at_row pid eid old n \<Longrightarrow> f n = n"
  shows "own_row db' = (own_row db)((s, old) := None, (s, new) \<mapsto> f r)"
proof
  fix k
  let ?key = "\<lambda>n. (nt_project n, nt_env n, nt_name n)"
  have find: "row_at db' p e n = (if (p, e, n) = (pid, eid, old) then None
      else map_option f (row_at db p e (if (p, e, n) = (pid, eid, new) then old else n)))" for p e n
  proof -
    have "row_at db' p e n = List.find (\<lambda>x. ?key x = (p, e, n)) (map f (db_entries db))" by (simp add: row_at_def db')
    also have "\<dots> = (if (p, e, n) = (pid, eid, old) then None else map_option f
        (List.find (\<lambda>x. ?key x = (if (p, e, n) = (pid, eid, new) then (pid, eid, old) else (p, e, n))) (db_entries db)))"
    proof (rule find_renamed)
      show "distinct (map ?key (db_entries db))" using ok by (simp add: db_ok_def entries_ok_def)
      show "(pid, eid, new) \<notin> ?key ` set (db_entries db)"
        using new s by (auto simp: own_row_def row_at_def find_None_iff)
      show "?key (f x) = (if ?key x = (pid, eid, old) then (pid, eid, new) else ?key x)" if "x \<in> set (db_entries db)" for x
        using f [OF that] by (simp add: at_row_def)
    qed (use ne in simp)
    finally show ?thesis by (auto simp: row_at_def)
  qed
  show "own_row db' k = ((own_row db)((s, old) := None, (s, new) \<mapsto> f r)) k"
  proof (cases "env_at db (fst k)")
    case None
    then have "fst k \<noteq> s" using s by auto
    then show ?thesis using None env_at_cong [OF db'(1,2)] by (cases k) (auto simp: own_row_def)
  next
    case (Some q)
    obtain p e where q: "q = (p, e)" by (cases q)
    have env: "env_at db' (fst k) = Some (p, e)" using Some env_at_cong [OF db'(1,2)] q by simp
    show ?thesis
    proof (cases "fst k = s")
      case True
      then have "p = pid" "e = eid" using Some q s by auto
      moreover have "n \<noteq> old \<Longrightarrow> map_option f (row_at db pid eid n) = row_at db pid eid n" for n
        using row_at_Some [of db pid eid n] same by (cases "row_at db pid eid n") (auto simp: at_row_def)
      ultimately show ?thesis
        using True env s r ne new by (cases k) (auto simp: own_row_def find split: option.splits)
    next
      case False
      then have "e \<noteq> eid" using env_at_inj [OF ok, of "fst k" p e s pid] Some q s by auto
      then have rows: "map_option f (row_at db p e n) = row_at db p e n" for n
        using row_at_Some [of db p e n] same by (cases "row_at db p e n") (auto simp: at_row_def)
      show ?thesis
        using \<open>e \<noteq> eid\<close> False env Some q by (cases k) (simp add: own_row_def find rows)
    qed
  qed
qed

text \<open>New projects and environments hold nothing.\<close>

lemma own_row_grow:
  assumes ok: "db_ok db" and db': "db_projects db' = db_projects db @ ps" "db_envs db' = db_envs db @ es" "db_entries db' = db_entries db"
    and ps: "\<And>p. p \<in> set ps \<Longrightarrow> pj_id p \<notin> pj_id ` set (db_projects db)"
    and es: "\<And>e. e \<in> set es \<Longrightarrow> en_id e \<notin> en_id ` set (db_envs db)"
  shows "own_row db' = own_row db"
proof
  fix k
  have row: "row_at db' p e n = row_at db p e n" for p e n by (simp add: row_at_def db')
  show "own_row db' k = own_row db k"
  proof (cases "env_at db (fst k)")
    case (Some q)
    then have "env_at db' (fst k) = Some q"
      by (auto simp: env_at_def find_project_def find_env_def db' find_append split: option.splits)
    then show ?thesis using Some row by (simp add: own_row_def)
  next
    case None
    have "row_at db p e n = None" if "env_at db' (fst k) = Some (p, e)" for p e n
    proof -
      obtain q x where x: "find_project db' (sc_project (fst k)) = Some q" "find_env db' (pj_id q) (sc_env (fst k)) = Some x"
          "p = pj_id q" "e = en_id x"
        using \<open>env_at db' (fst k) = Some (p, e)\<close> by (auto simp: env_at_def split: option.splits)
      have "x \<in> set es"
      proof (rule ccontr)
        assume "x \<notin> set es"
        then have old: "x \<in> set (db_envs db)" "en_project x = pj_id q" "en_name x = sc_env (fst k)"
          using find_env_Some [OF x(2)] db' by auto
        then have "pj_id q \<in> pj_id ` set (db_projects db)" using ok unfolding db_ok_def envs_ok_def by metis
        then have "q \<notin> set ps" using ps by blast
        then have "find_project db (sc_project (fst k)) = Some q"
          using x(1) by (auto simp: find_project_def db' find_append split: option.splits dest: find_SomeD)
        moreover have "find_env db (pj_id q) (sc_env (fst k)) = Some x"
          using find_env_the [of db x] ok old by (simp add: db_ok_def)
        ultimately show False using None by (simp add: env_at_def)
      qed
      then have "e \<notin> en_id ` set (db_envs db)" using es [of x] x(4) by simp
      moreover have "nt_env r \<in> en_id ` set (db_envs db)" if "r \<in> set (db_entries db)" for r
        using ok that unfolding db_ok_def entries_ok_def by (metis imageI)
      ultimately show ?thesis using row_at_Some [of db p e n] by (cases "row_at db p e n") (auto simp: at_row_def)
    qed
    then show ?thesis using None row by (auto simp: own_row_def split: option.splits)
  qed
qed

text \<open>Renaming a project or an environment moves what it holds.\<close>

lemma own_row_rename_project:
  assumes ok: "db_ok db" and ne: "p \<noteq> q" and new: "find_project db q = None"
    and db': "db_projects db' = map f (db_projects db)" "db_envs db' = db_envs db" "db_entries db' = db_entries db"
    and f: "\<And>x. pj_id (f x) = pj_id x \<and> pj_name (f x) = (if pj_name x = p then q else pj_name x)"
  shows "own_row db' (s, n) = (if sc_project s = p then None
    else if sc_project s = q then own_row db (s\<lparr>sc_project := p\<rparr>, n) else own_row db (s, n))"
proof -
  have "find_project db' c = (if c = p then None else map_option f (find_project db (if c = q then p else c)))" for c
    unfolding find_project_def db'
    using ok ne f find_none_notin [OF new] by (intro find_renamed) (auto simp: db_ok_def projects_ok_def)
  then show ?thesis
    using ne f by (auto simp: own_row_def env_at_def find_env_def row_at_def db' split: option.splits)
qed

lemma own_row_rename_env:
  assumes ok: "db_ok db" and ne: "a \<noteq> b" and p: "find_project db p = Some pr" and new: "find_env db (pj_id pr) b = None"
    and db': "db_projects db' = db_projects db" "db_envs db' = map f (db_envs db)" "db_entries db' = db_entries db"
    and f: "\<And>x. x \<in> set (db_envs db) \<Longrightarrow> en_id (f x) = en_id x \<and> en_project (f x) = en_project x \<and>
      en_name (f x) = (if en_project x = pj_id pr \<and> en_name x = a then b else en_name x)"
  shows "own_row db' (s, n) = (if s = \<lparr>sc_project = p, sc_env = a\<rparr> then None
    else if s = \<lparr>sc_project = p, sc_env = b\<rparr> then own_row db (\<lparr>sc_project = p, sc_env = a\<rparr>, n) else own_row db (s, n))"
proof -
  let ?key = "\<lambda>e. (en_project e, en_name e)"
  have find: "find_env db' i c = (if (i, c) = (pj_id pr, a) then None
      else map_option f (find_env db i (if (i, c) = (pj_id pr, b) then a else c)))" for i c
  proof -
    have "List.find (\<lambda>x. ?key x = (i, c)) (map f (db_envs db)) = (if (i, c) = (pj_id pr, a) then None else map_option f
        (List.find (\<lambda>x. ?key x = (if (i, c) = (pj_id pr, b) then (pj_id pr, a) else (i, c))) (db_envs db)))"
    proof (rule find_renamed)
      show "distinct (map ?key (db_envs db))" using ok by (simp add: db_ok_def envs_ok_def)
      show "(pj_id pr, b) \<notin> ?key ` set (db_envs db)" using new by (auto simp: find_env_def find_None_iff)
      show "?key (f x) = (if ?key x = (pj_id pr, a) then (pj_id pr, b) else ?key x)" if "x \<in> set (db_envs db)" for x
        using f [OF that] by simp
    qed (use ne in simp)
    then show ?thesis by (auto simp: find_env_def db')
  qed
  have same: "find_project db m = Some x \<Longrightarrow> pj_id x = pj_id pr \<longleftrightarrow> m = p" for m x
  proof -
    assume "find_project db m = Some x"
    then have "x \<in> set (db_projects db)" "pj_name x = m" "pr \<in> set (db_projects db)" "pj_name pr = p"
      using find_project_Some [of db m x] find_project_Some [OF p] by auto
    moreover have "inj_on pj_id (set (db_projects db))" "inj_on pj_name (set (db_projects db))"
      using ok by (simp_all add: db_ok_def projects_ok_def ids_ok_def distinct_map)
    ultimately show ?thesis by (metis inj_onD)
  qed
  have ids: "map_option (\<lambda>e. (j, en_id e)) (map_option f (find_env db i c)) = map_option (\<lambda>e. (j, en_id e)) (find_env db i c)"
    for i c j using f find_env_Some [of db i c] by (cases "find_env db i c") auto
  have env: "env_at db' s = (if s = \<lparr>sc_project = p, sc_env = a\<rparr> then None
      else if s = \<lparr>sc_project = p, sc_env = b\<rparr> then env_at db \<lparr>sc_project = p, sc_env = a\<rparr> else env_at db s)"
  proof (cases "find_project db (sc_project s)")
    case None
    then have "sc_project s \<noteq> p" using p by auto
    then show ?thesis using None by (auto simp: env_at_def find_project_def db')
  next
    case (Some x)
    have fp: "find_project db' = find_project db" by (simp add: find_project_def db' fun_eq_iff)
    show ?thesis
    proof (cases "sc_project s = p")
      case True
      then show ?thesis using p ne by (cases s) (simp add: env_at_def fp find ids)
    next
      case False
      then show ?thesis using Some same [OF Some] by (auto simp: env_at_def fp find ids)
    qed
  qed
  have row: "row_at db' i j m = row_at db i j m" for i j m by (simp add: row_at_def db')
  show ?thesis using ne by (simp add: own_row_def env row cong: option.case_cong)
qed

end
