(* ===== verification/Vault_Refines.thy ===== *)
theory Vault_Refines
  imports Vault_Map
begin

text \<open>
  The abstract vault: a map from scope and name to value, one function on that map per operation,
  and the lemmas that each operation of the code implements its function.
\<close>

type_synonym vault_values = "vault_scope \<times> string \<rightharpoonup> bytes"

definition without :: "(vault_scope \<times> string \<Rightarrow> bool) \<Rightarrow> vault_values \<Rightarrow> vault_values" where
  "without gone m k = (if gone k then None else m k)"

fun value_step :: "vault_op \<Rightarrow> vault_values \<Rightarrow> vault_values" where
  "value_step (VPut s n x c) m = m((s, n) \<mapsto> x)"
| "value_step (VPutPassword pw s n x c) m = m((s, n) \<mapsto> x)"
| "value_step (VPutAuthored s n x k c) m = m((s, n) \<mapsto> x)"
| "value_step (VDeleteProject p) m = without (\<lambda>k. sc_project (fst k) = p) m"
| "value_step (VDeleteEnv p e) m = without (\<lambda>k. fst k = \<lparr>sc_project = p, sc_env = e\<rparr>) m"
| "value_step (VRenameProject p q) m =
     (if p = q then m else (\<lambda>(s, n). if sc_project s = p then None
        else if sc_project s = q then m (s\<lparr>sc_project := p\<rparr>, n) else m (s, n)))"
| "value_step (VRenameEnv p a b) m =
     (if a = b then m else (\<lambda>(s, n). if s = \<lparr>sc_project = p, sc_env = a\<rparr> then None
        else if s = \<lparr>sc_project = p, sc_env = b\<rparr> then m (\<lparr>sc_project = p, sc_env = a\<rparr>, n) else m (s, n)))"
| "value_step (VDelete s n) m = m((s, n) := None)"
| "value_step (VClear s) m = without (\<lambda>k. fst k = s) m"
| "value_step (VRename s a b) m = (if a = b then m else m((s, a) := None, (s, b) := m (s, a)))"
| "value_step _ m = m"

text \<open>The vault key of a vault: what is in memory, and what every accepted password unwraps.\<close>

definition holds_key :: "crypto_lib \<Rightarrow> bytes \<Rightarrow> vault \<Rightarrow> bool" where
  "holds_key cl vk v \<longleftrightarrow> length vk = 32 \<and> (vt_key v = None \<or> vt_key v = Some vk) \<and>
     (\<forall>pw k. unwrap_vault_key cl pw v = Inr k \<longrightarrow> k = vk)"

definition nonces_ok :: "(string \<Rightarrow> bytes option) \<Rightarrow> bool" where
  "nonces_ok draws \<longleftrightarrow> (\<forall>n nonce. draws n = Some nonce \<longrightarrow> length nonce = 24)"

text \<open>An authored write uses the authored key of its scope, as it was handed out.\<close>

definition op_fits :: "crypto_lib \<Rightarrow> store_io \<Rightarrow> bytes \<Rightarrow> vault \<Rightarrow> vault_op \<Rightarrow> bool" where
  "op_fits cl io vk v op \<longleftrightarrow>
     (case op of VPutAuthored s n x k c \<Rightarrow> \<forall>k'. authored_key_for_scope cl io vk s v = Inr k' \<longrightarrow> k = k' | _ \<Rightarrow> True)"

text \<open>One outcome of an operation against one function on the map.\<close>

definition implements ::
  "crypto_lib \<Rightarrow> bytes \<Rightarrow> vault \<Rightarrow> (vault_error + 'a) \<times> vault \<Rightarrow> (vault_values \<Rightarrow> vault_values) \<Rightarrow> bool" where
  "implements cl vk v r f \<longleftrightarrow>
     own_value cl vk (snd r) = (case fst r of Inl _ \<Rightarrow> own_value cl vk v | Inr _ \<Rightarrow> f (own_value cl vk v))"

lemma implements_error [simp]: "implements cl vk v (Inl e, v) f"
  by (simp add: implements_def)

lemma implements_id: "own_value cl vk v' = own_value cl vk v \<Longrightarrow> implements cl vk v (r, v') (\<lambda>m. m)"
  by (simp add: implements_def split: sum.splits)

lemma implements_outcome: "implements cl vk v (outcome r) f \<longleftrightarrow> implements cl vk v r f"
  by (cases r) (auto simp: implements_def outcome_def split: sum.splits)

lemma implements_transact:
  assumes "\<And>res db. stmts = Inr (res, db) \<Longrightarrow> own_value cl vk (v\<lparr>vt_db := db\<rparr>) = f (own_value cl vk v)"
  shows "implements cl vk v (transact io v stmts) f"
  using assms by (auto simp: transact_def implements_def split: option.splits sum.splits)

section \<open>Writing\<close>

lemma own_value_db: "own_value cl key (v\<lparr>vt_db := db\<rparr>) k = Option.bind (own_row db k) (open_row cl (vt_id v) key)"
  by (simp add: own_value_def)

lemma write_implements:
  assumes ok: "db_ok (vt_db v)" and s: "env_at (vt_db v) s = Some (pid, eid)"
    and o: "open_entry cl (vt_id v) key ver pid eid EnvVar name ct = Inr x"
  shows "implements cl key v (write_env_var io now c pid eid name ct ver v) (\<lambda>m. m((s, name) \<mapsto> x))"
proof -
  obtain r where r: "nt_project r = pid" "nt_env r = eid" "nt_kind r = EnvVar" "nt_name r = name" "nt_value r = ct" "nt_aad r = ver"
      "own_row (upsert_env_var now pid eid name ct ver (vt_db v)) = (own_row (vt_db v))((s, name) \<mapsto> r)"
    using own_row_upsert [OF ok s] by blast
  then have "open_row cl (vt_id v) key r = Some x" using o by (simp add: open_row_def)
  then have "own_value cl key (v\<lparr>vt_db := upsert_env_var now pid eid name ct ver (vt_db v)\<rparr>) = (own_value cl key v)((s, name) \<mapsto> x)"
    using r(7) by (auto simp: own_value_def fun_eq_iff)
  then show ?thesis unfolding write_env_var_def by (intro implements_transact) (auto split: if_splits)
qed

lemma put_with_key_implements:
  assumes cl: "aead_works cl" and ok: "db_ok (vt_db v)" and draw: "\<And>n. draw = Some n \<Longrightarrow> length n = 24"
  shows "implements cl key v (put_with_key cl io now draw key s name val c v) (\<lambda>m. m((s, name) \<mapsto> val))"
proof (cases "scope_ids io (vt_db v) s")
  case (Inr q)
  obtain pid eid where q: "q = (pid, eid)" by (cases q)
  have s: "env_at (vt_db v) s = Some (pid, eid)" using Inr q by (simp add: scope_ids_Inr)
  show ?thesis
  proof (cases "seal_entry cl (vt_id v) draw key pid eid EnvVar name val")
    case (Inr ct)
    then obtain n where n: "draw = Some n"
      by (cases draw) (auto simp: seal_entry_Inr encrypt_with_aad_def split: if_splits)
    have "open_entry cl (vt_id v) key currentAADVersion pid eid EnvVar name ct = Inr val"
      using sealed_opens(1) [OF cl Inr [unfolded n] draw [OF n]] .
    then show ?thesis using Inr \<open>scope_ids io (vt_db v) s = Inr q\<close> q write_implements [OF ok s]
      by (simp add: put_with_key_def)
  qed (simp add: put_with_key_def Inr q)
qed (simp add: put_with_key_def)

text \<open>What is sealed under the authored key of a scope opens with the vault key.\<close>

lemma authored_opens:
  assumes cl: "aead_works cl" and a: "authored_key cl vid vk pid eid = Inr kauth"
    and k: "authored_row_key cl kauth EnvVar name = Inr krow" and n: "length nonce = 24"
    and e: "encrypt_with_aad cl (Some nonce) krow x (entry_aad_v3 vid pid eid EnvVar name) = Inr ct"
  shows "decrypt_with_aad cl krow ct (entry_aad_v3 vid pid eid EnvVar name) = Inr x"
    and "open_entry cl vid vk aadVersionAuthoredKey pid eid EnvVar name ct = Inr x"
proof -
  have l: "length krow = 32" using derive_ok [OF cl] k by (simp add: authored_row_key_def derive_row_key_from_authored_key_def)
  show d: "decrypt_with_aad cl krow ct (entry_aad_v3 vid pid eid EnvVar name) = Inr x"
    using decrypt_iff [OF cl l] n e by blast
  show "open_entry cl vid vk aadVersionAuthoredKey pid eid EnvVar name ct = Inr x"
    using a k d by (simp add: open_entry_def aad_versions as_vault_def)
qed

lemma put_authored_implements:
  assumes cl: "aead_works cl" and ok: "db_ok (vt_db v)" and draw: "\<And>n. draw = Some n \<Longrightarrow> length n = 24"
    and k: "\<And>k. authored_key_for_scope cl io vk s v = Inr k \<Longrightarrow> kauth = k" and vk: "length vk = 32"
  shows "implements cl vk v (put_authored cl io now draw s name val kauth c v) (\<lambda>m. m((s, name) \<mapsto> val))"
proof (cases "scope_ids io (vt_db v) s")
  case (Inr q)
  obtain pid eid where q: "q = (pid, eid)" by (cases q)
  have s: "env_at (vt_db v) s = Some (pid, eid)" using Inr q by (simp add: scope_ids_Inr)
  obtain kk where kk: "authored_key cl (vt_id v) vk pid eid = Inr kk"
    using vk by (simp add: authored_key_def derive_authored_key_def derive_from_def VaultKeySize_def)
  then have "kauth = kk" using k Inr q by (simp add: authored_key_for_scope_def as_vault_def)
  note kk = kk [folded this]
  have w: "implements cl vk v (write_env_var io now c pid eid name ct aadVersionAuthoredKey v) (\<lambda>m. m((s, name) \<mapsto> val))"
    if krow: "authored_row_key cl kauth EnvVar name = Inr krow"
      and e: "encrypt_with_aad cl draw krow val (entry_aad_v3 (vt_id v) pid eid EnvVar name) = Inr ct" for krow ct
  proof -
    obtain n where n: "draw = Some n" using e by (cases draw) (auto simp: encrypt_with_aad_def split: if_splits)
    show ?thesis
      using write_implements [OF ok s] authored_opens(2) [OF cl kk krow draw [OF n] e [unfolded n]] by blast
  qed
  show ?thesis
    using w Inr q by (simp add: put_authored_def split: option.splits sum.splits)
qed (simp add: put_authored_def split: option.splits)

section \<open>Deleting\<close>

lemma own_value_kept:
  assumes "\<And>k. own_row db' k = (if gone k then None else own_row (vt_db v) k)"
  shows "own_value cl vk (v\<lparr>vt_db := db'\<rparr>) = without gone (own_value cl vk v)"
  using assms by (auto simp: own_value_def without_def fun_eq_iff)

lemma delete_and_sweep_cases:
  assumes "delete_and_sweep io del v = (Inr n, v')"
  obtains db where "del (vt_db v) = (n, db)" and "v' = v\<lparr>vt_db := (if n > 0 then sweep_orphans (cascade db) else db)\<rparr>"
  using assms by (auto simp: delete_and_sweep_def transact_Inr split: prod.splits)

lemma delete_and_sweep_value:
  assumes ok: "db_ok (vt_db v)"
    and db: "snd (del (vt_db v)) = (vt_db v)\<lparr>db_projects := filter P (db_projects (vt_db v)), db_envs := filter Q (db_envs (vt_db v)),
      db_entries := filter R (db_entries (vt_db v))\<rparr>"
    and none: "fst (del (vt_db v)) = 0 \<Longrightarrow> snd (del (vt_db v)) = vt_db v"
    and gone: "\<And>k p e r. own_path (vt_db v) k = Some (p, e, r) \<Longrightarrow> P p \<and> Q e \<and> R r \<longleftrightarrow> \<not> gone k"
    and d: "delete_and_sweep io del v = (Inr n, v')"
  shows "own_value cl vk v' = without gone (own_value cl vk v)" and "n = 0 \<Longrightarrow> v' = v"
proof -
  obtain db' where db': "del (vt_db v) = (n, db')" "v' = v\<lparr>vt_db := (if n > 0 then sweep_orphans (cascade db') else db')\<rparr>"
    using delete_and_sweep_cases [OF d] by blast
  show "n = 0 \<Longrightarrow> v' = v" using db' none by simp
  have swept: "own_row (sweep_orphans (cascade db')) k = (if gone k then None else own_row (vt_db v) k)" for k
    using own_row_cascade [OF ok, of db' P Q R k "\<not> gone k"] db db'(1) gone by simp
  have kept: "own_row (vt_db v) k = (if gone k then None else own_row (vt_db v) k)" if "n = 0" for k
  proof (cases "own_path (vt_db v) k")
    case None
    then show ?thesis by (simp add: own_row_path)
  next
    case (Some q)
    obtain p e r where q: "q = (p, e, r)" by (cases q)
    have m: "p \<in> set (db_projects (vt_db v))" "e \<in> set (db_envs (vt_db v))" "r \<in> set (db_entries (vt_db v))"
      using Some q by (auto simp: own_path_def bind_eq_Some_conv dest: find_project_Some find_env_Some row_at_Some)
    have e: "snd (del (vt_db v)) = vt_db v" using none that db'(1) by simp
    have "filter P (db_projects (vt_db v)) = db_projects (vt_db v)" "filter Q (db_envs (vt_db v)) = db_envs (vt_db v)"
        "filter R (db_entries (vt_db v)) = db_entries (vt_db v)"
      using arg_cong [OF db, of db_projects] arg_cong [OF db, of db_envs] arg_cong [OF db, of db_entries] unfolding e by simp_all
    then have "P p" "Q e" "R r" using m by (simp_all add: filter_id_conv)
    then show ?thesis using gone [of k p e r] Some q by simp
  qed
  have "own_row (vt_db v') k = (if gone k then None else own_row (vt_db v) k)" for k
  proof (cases "n = 0")
    case True
    then have "vt_db v' = vt_db v" using db' none by simp
    then show ?thesis using kept [OF True] by simp
  next
    case False
    then show ?thesis using swept db'(2) by simp
  qed
  moreover have "v' = v\<lparr>vt_db := vt_db v'\<rparr>" using db'(2) by simp
  ultimately show "own_value cl vk v' = without gone (own_value cl vk v)" by (metis own_value_kept)
qed

lemma delete_and_sweep_Inl: "delete_and_sweep io del v = (Inl e, v') \<Longrightarrow> v' = v"
  unfolding delete_and_sweep_def by (erule transact_Inl)

lemma implements_delete:
  assumes "\<And>n v'. d = (Inr n, v') \<Longrightarrow> own_value cl vk v' = f (own_value cl vk v)"
    and "\<And>v'. d = (Inr 0, v') \<Longrightarrow> v' = v" and "\<And>e v'. d = (Inl e, v') \<Longrightarrow> v' = v"
  shows "implements cl vk v (case d of (Inl e, v) \<Rightarrow> (Inl e, v) | (Inr n, v) \<Rightarrow> (if n = (0::nat) then Inl err else Inr (), v)) f"
proof (cases d)
  case (Pair r w)
  then show ?thesis using assms by (cases r) (auto simp: implements_def)
qed

lemma delete_project_implements:
  assumes ok: "db_ok (vt_db v)"
  shows "implements cl vk v (delete_project io p v) (without (\<lambda>k. sc_project (fst k) = p))"
proof -
  define del where "del = (\<lambda>db :: vault_db. (rows_deleted (\<lambda>q. pj_name q = p) (db_projects db),
      db\<lparr>db_projects := filter (\<lambda>q. pj_name q \<noteq> p) (db_projects db)\<rparr>))"
  have d: "delete_and_sweep io del v = (Inr n, v') \<Longrightarrow> own_value cl vk v' = without (\<lambda>k. sc_project (fst k) = p) (own_value cl vk v)"
      "delete_and_sweep io del v = (Inr 0, v') \<Longrightarrow> v' = v" for n v'
    by (rule delete_and_sweep_value [OF ok, where del = del and P = "\<lambda>q. pj_name q \<noteq> p" and Q = "\<lambda>_. True" and R = "\<lambda>_. True"];
      simp add: del_def keeps_all filter_none own_path_names(1))+
  show ?thesis
    unfolding delete_project_def del_def [symmetric]
    using implements_delete [where d = "delete_and_sweep io del v" and f = "without (\<lambda>k. sc_project (fst k) = p)", OF d delete_and_sweep_Inl]
    by (simp split: option.splits)
qed

lemma delete_entries_value:
  assumes ok: "db_ok (vt_db v)" and gone: "\<And>k r. own_row (vt_db v) k = Some r \<Longrightarrow> hit r \<longleftrightarrow> gone k"
    and d: "delete_entries io hit v = (Inr n, v')"
  shows "own_value cl vk v' = without gone (own_value cl vk v)" and "n = 0 \<Longrightarrow> v' = v"
  using delete_and_sweep_value [OF ok _ _ _ d [unfolded delete_entries_def],
      where P = "\<lambda>_. True" and Q = "\<lambda>_. True" and R = "\<lambda>r. \<not> hit r" and gone = gone] gone
  by (simp_all add: keeps_all filter_none own_row_path)

end
