(* ===== verification/Vault_Run_Props.thy ===== *)
theory Vault_Run_Props
  imports Vault_Runs Vault_Refines
begin

text \<open>
  The walk up the snapshots ends, the lineage of a snapshot, and what a snapshot resolves to.
\<close>

section \<open>The walk\<close>

definition up :: "vault_db \<Rightarrow> int \<Rightarrow> int \<Rightarrow> bool" where
  "up db i p \<longleftrightarrow> i \<noteq> 0 \<and> (\<exists>s. snapshot_by_id db i = Some s \<and> sn_parent s = Some p)"

lemma up_unique: "up db i p \<Longrightarrow> up db i q \<Longrightarrow> q = p"
  by (auto simp: up_def)

text \<open>A snapshot is rooted where its ancestors come to an end.\<close>

inductive rooted :: "vault_db \<Rightarrow> int \<Rightarrow> bool" for db where
  root: "(\<And>p. \<not> up db i p) \<Longrightarrow> rooted db i"
| step: "up db i p \<Longrightarrow> rooted db p \<Longrightarrow> rooted db i"

inductive_cases rooted_upE: "rooted db i"

lemma rooted_acyclic: "rooted db i \<Longrightarrow> \<not> (up db)\<^sup>+\<^sup>+ i i"
proof (induction rule: rooted.induct)
  case (root i)
  then show ?case by (blast dest: tranclpD)
next
  case (step i p)
  show ?case
  proof
    assume "(up db)\<^sup>+\<^sup>+ i i"
    then obtain q where q: "up db i q" "(up db)\<^sup>*\<^sup>* q i" by (blast dest: tranclpD)
    then have "(up db)\<^sup>+\<^sup>+ p p" using step.hyps(1) up_unique rtranclp_into_tranclp1 by metis
    then show False using step.IH by simp
  qed
qed

lemma chain_up:
  assumes "up db i p" and "i \<notin> set chain"
  shows "snapshot_chain db chain i = snapshot_chain db (i # chain) p"
  using assms by (subst snapshot_chain.simps) (auto simp: up_def)

lemma chain_end:
  assumes "\<And>p. \<not> up db i p" and "i \<noteq> 0" and "i \<notin> set chain"
  shows "snapshot_chain db chain i = Inr (i # chain)"
  using assms by (subst snapshot_chain.simps) (auto simp: up_def split: option.splits)

lemma chain_zero [simp]: "snapshot_chain db chain 0 = Inr chain"
  by (subst snapshot_chain.simps) simp

lemma chain_loop: "i \<noteq> 0 \<Longrightarrow> i \<in> set chain \<Longrightarrow> snapshot_chain db chain i = Inl (ErrOwnAncestor i)"
  by (subst snapshot_chain.simps) simp

text \<open>The outcome of a walk, by the recursion of the walk itself.\<close>

lemma chain_outcome:
  assumes "distinct chain" and "\<And>x. x \<in> set chain \<Longrightarrow> (up db)\<^sup>+\<^sup>+ x i" and "set chain \<subseteq> sn_id ` set (db_snapshots db)"
  shows "case snapshot_chain db chain i of
      Inl e \<Rightarrow> \<exists>a. e = ErrOwnAncestor a \<and> (up db)\<^sup>*\<^sup>* i a \<and> (up db)\<^sup>+\<^sup>+ a a
    | Inr c \<Rightarrow> rooted db i \<and> distinct c \<and> length c \<le> Suc (length (db_snapshots db))"
  using assms
proof (induction db chain i rule: snapshot_chain.induct)
  case (1 db chain i)
  have len: "length chain \<le> length (db_snapshots db)"
    using 1(2,4) by (metis card_image_le card_mono distinct_card finite_imageI finite_set le_trans card_length)
  show ?case
  proof (cases "i = 0")
    case True
    then show ?thesis using len 1(2) by (auto simp: up_def intro: rooted.root)
  next
    case i0: False
    show ?thesis
    proof (cases "i \<in> set chain")
      case True
      then show ?thesis using 1(3) [OF True] by (simp add: chain_loop i0)
    next
      case new: False
      show ?thesis
      proof (cases "\<exists>p. up db i p")
        case False
        then show ?thesis using chain_end [of db i chain] i0 new len 1(2) by (auto intro: rooted.root)
      next
        case True
        then obtain p s where p: "up db i p" "snapshot_by_id db i = Some s" "sn_parent s = Some p" by (auto simp: up_def)
        have "distinct (i # chain)" using 1(2) new by simp
        moreover have "(up db)\<^sup>+\<^sup>+ x p" if "x \<in> set (i # chain)" for x
          using that p(1) 1(3) by (auto intro: tranclp.trancl_into_trancl)
        moreover have "set (i # chain) \<subseteq> sn_id ` set (db_snapshots db)"
          using 1(4) snapshot_by_id_mem [OF p(2)] by simp
        ultimately have IH: "case snapshot_chain db (i # chain) p of
            Inl e \<Rightarrow> \<exists>a. e = ErrOwnAncestor a \<and> (up db)\<^sup>*\<^sup>* p a \<and> (up db)\<^sup>+\<^sup>+ a a
          | Inr c \<Rightarrow> rooted db p \<and> distinct c \<and> length c \<le> Suc (length (db_snapshots db))"
          using 1(1) [OF i0 new p(2,3)] by blast
        then show ?thesis
          unfolding chain_up [OF p(1) new]
          by (cases "snapshot_chain db (i # chain) p") (use p(1) in \<open>auto intro: rooted.step converse_rtranclp_into_rtranclp\<close>)
      qed
    qed
  qed
qed

section \<open>Lineages\<close>

definition scopes :: "vault_db \<Rightarrow> (int \<times> int) list" where
  "scopes db = map (\<lambda>e. (en_id e, en_project e)) (db_envs db)"

definition trail_ok :: "vault_db \<Rightarrow> bool" where
  "trail_ok db \<longleftrightarrow> ids_ok TSnapshots db (map sn_id (db_snapshots db)) \<and> 0 \<le> db_seq db TSnapshots \<and>
     (\<forall>s \<in> set (db_snapshots db). \<forall>p. sn_parent s = Some p \<longrightarrow>
        p < sn_id s \<and> (\<exists>t \<in> set (db_snapshots db). sn_id t = p \<and> sn_project t = sn_project s \<and> sn_env t = sn_env s)) \<and>
     (\<forall>s \<in> set (db_snapshots db). (sn_env s, sn_project s) \<in> set (scopes db)) \<and>
     (\<forall>x \<in> set (db_refs db). sx_snapshot x \<in> sn_id ` set (db_snapshots db))"

inductive lineage :: "vault_db \<Rightarrow> int \<Rightarrow> int list \<Rightarrow> bool" for db where
  first: "snapshot_by_id db i = Some s \<Longrightarrow> sn_parent s = None \<Longrightarrow> lineage db i [i]"
| child: "snapshot_by_id db i = Some s \<Longrightarrow> sn_parent s = Some p \<Longrightarrow> lineage db p c \<Longrightarrow> lineage db i (c @ [i])"

lemma snapshot_by_id_the:
  assumes "trail_ok db" and "s \<in> set (db_snapshots db)"
  shows "snapshot_by_id db (sn_id s) = Some s"
  using find_the [of sn_id "db_snapshots db" s] assms by (simp add: snapshot_by_id_def trail_ok_def ids_ok_def)

lemma snapshot_by_id_Some: "snapshot_by_id db i = Some s \<Longrightarrow> s \<in> set (db_snapshots db) \<and> sn_id s = i"
  by (auto simp: snapshot_by_id_def dest: find_SomeD)

lemma snapshot_positive: "trail_ok db \<Longrightarrow> s \<in> set (db_snapshots db) \<Longrightarrow> 0 < sn_id s \<and> sn_id s \<le> db_seq db TSnapshots"
  by (auto simp: trail_ok_def ids_ok_def)

lemma lineage_exists:
  assumes ok: "trail_ok db" and "s \<in> set (db_snapshots db)"
  shows "\<exists>c. lineage db (sn_id s) c"
  using assms(2)
proof (induction "nat (sn_id s)" arbitrary: s rule: less_induct)
  case less
  show ?case
  proof (cases "sn_parent s")
    case None
    then show ?thesis using snapshot_by_id_the [OF ok less.prems] lineage.first by blast
  next
    case (Some p)
    then obtain t where t: "p < sn_id s" "t \<in> set (db_snapshots db)" "sn_id t = p"
      using ok less.prems by (auto simp: trail_ok_def)
    then have "nat (sn_id t) < nat (sn_id s)" using snapshot_positive [OF ok t(2)] by simp
    then obtain c where "lineage db p c" using less.hyps t(2,3) by blast
    then show ?thesis using snapshot_by_id_the [OF ok less.prems] Some lineage.child by blast
  qed
qed

lemma lineage_mem:
  assumes "trail_ok db" and "lineage db i c"
  shows "\<forall>j \<in> set c. j \<le> i \<and> 0 < j \<and> (\<exists>s t. snapshot_by_id db j = Some s \<and> snapshot_by_id db i = Some t \<and>
    sn_project s = sn_project t \<and> sn_env s = sn_env t)"
  using assms(2)
proof induction
  case (first i s)
  then show ?case using snapshot_by_id_Some [OF first(1)] snapshot_positive [OF assms(1)] by auto
next
  case (child i s p c)
  have s: "s \<in> set (db_snapshots db)" "sn_id s = i" using snapshot_by_id_Some [OF child(1)] by auto
  then obtain t where t: "p < i" "t \<in> set (db_snapshots db)" "sn_id t = p" "sn_project t = sn_project s" "sn_env t = sn_env s"
    using assms(1) child(2) by (auto simp: trail_ok_def)
  have "snapshot_by_id db p = Some t" using snapshot_by_id_the [OF assms(1) t(2)] t(3) by simp
  then show ?case using child t s snapshot_positive [OF assms(1) s(1)] by fastforce
qed

lemma lineage_chain:
  assumes ok: "trail_ok db" and "lineage db i c"
  shows "\<forall>x \<in> set chain. i < x \<Longrightarrow> snapshot_chain db chain i = Inr (c @ chain)"
  using assms(2)
proof (induction arbitrary: chain)
  case (first i s)
  have "i \<noteq> 0" using snapshot_by_id_Some [OF first(1)] snapshot_positive [OF ok, of s] by auto
  then show ?case using chain_end [of db i chain] first by (auto simp: up_def)
next
  case (child i s p c)
  have s: "s \<in> set (db_snapshots db)" "sn_id s = i" using snapshot_by_id_Some [OF child(1)] by auto
  then have "i \<noteq> 0" "p < i" using snapshot_positive [OF ok s(1)] ok child(2) by (auto simp: trail_ok_def)
  then have "up db i p" using child(1,2) by (simp add: up_def)
  then have "snapshot_chain db chain i = snapshot_chain db (i # chain) p" using child.prems by (intro chain_up) auto
  also have "\<dots> = Inr (c @ i # chain)" using \<open>p < i\<close> child.prems by (intro child.IH) force
  finally show ?case by simp
qed

lemma resolve_lineage:
  assumes "trail_ok db" and "lineage db i c"
  shows "resolve_tx db i = Inr (fold (apply_diff db) c [])"
  using lineage_chain [OF assms, of "[]"] by (simp add: resolve_tx_def)

text \<open>A lineage whose snapshots and entries another database has in the same form resolves there to the same.\<close>

lemma lineage_moves:
  assumes "lineage db i c" and "\<And>j. j \<in> set c \<Longrightarrow> snapshot_by_id db' j = snapshot_by_id db j"
  shows "lineage db' i c"
  using assms
proof induction
  case (first i s)
  then show ?case by (intro lineage.first) auto
next
  case (child i s p c)
  then show ?case by (intro lineage.child [of db' i s p c]) auto
qed

lemma resolve_moves:
  assumes ok: "trail_ok db" "trail_ok db'" and c: "lineage db i c"
    and snap: "\<And>j. j \<in> set c \<Longrightarrow> snapshot_by_id db' j = snapshot_by_id db j"
    and refs: "\<And>j. j \<in> set c \<Longrightarrow> filter (\<lambda>x. sx_snapshot x = j) (db_refs db') = filter (\<lambda>x. sx_snapshot x = j) (db_refs db)"
  shows "resolve_tx db' i = resolve_tx db i"
proof -
  have "fold (apply_diff db') c [] = fold (apply_diff db) c []"
    using refs by (intro fold_cong refl) (auto simp: apply_diff_def)
  then show ?thesis
    using resolve_lineage [OF ok(1) c] resolve_lineage [OF ok(2) lineage_moves [OF c snap]] by simp
qed

section \<open>Diffs\<close>

lemma map_get_put_eq: "map_get (map_put m k v) k' = (if k' = k then Some v else map_get m k')"
  by simp

lemma apply_ref_ok: "go_map_ok m \<Longrightarrow> go_map_ok (apply_ref x m)"
  by (simp add: apply_ref_def split: option.split)

lemma apply_refs_ok: "go_map_ok m \<Longrightarrow> go_map_ok (fold apply_ref xs m)"
  by (induction xs arbitrary: m) (simp_all add: apply_ref_ok)

lemma resolved_ok: "resolve_tx db i = Inr refs \<Longrightarrow> go_map_ok refs"
proof -
  have "go_map_ok m \<Longrightarrow> go_map_ok (fold (apply_diff db) c m)" for c m
    by (induction c arbitrary: m) (simp_all add: apply_diff_def apply_refs_ok)
  then show "resolve_tx db i = Inr refs \<Longrightarrow> go_map_ok refs" by (auto simp: resolve_tx_def split: sum.splits)
qed

text \<open>What a list of changes with distinct names does to one name.\<close>

lemma apply_refs_get:
  assumes "distinct (map sx_name xs)"
  shows "map_get (fold apply_ref xs m) n =
    (case List.find (\<lambda>x. sx_name x = n) xs of None \<Rightarrow> map_get m n | Some x \<Rightarrow> sx_ref x)"
  using assms
proof (induction xs arbitrary: m)
  case (Cons x xs)
  have "x' \<in> set xs \<Longrightarrow> sx_name x' \<noteq> sx_name x" for x' using Cons.prems by (metis distinct.simps(2) image_eqI list.set_map list.simps(9))
  then have "n = sx_name x \<Longrightarrow> List.find (\<lambda>x. sx_name x = n) xs = None" unfolding find_None_iff by blast
  then show ?case using Cons by (auto simp: apply_ref_def split: option.splits)
qed simp

lemma diff_names:
  assumes "go_map_ok parent" and "go_map_ok current"
  shows "distinct (map sx_name (diff_refs i parent current))"
proof -
  have d: "distinct (map fst parent)" "distinct (map fst current)" using assms by (simp_all add: go_map_ok_def)
  have m: "map (sx_name \<circ> (\<lambda>(n, r). \<lparr>sx_snapshot = i, sx_name = n, sx_ref = g r\<rparr>)) xs = map fst xs" for g :: "'a \<Rightarrow> (int \<times> string) option" and xs
    by auto
  have "map_get current n = None \<Longrightarrow> (n, r) \<notin> set current" for n r
    using map_get_Some_set [OF assms(2), of n r] by auto
  then show ?thesis
    using d by (force simp: diff_refs_def m distinct_map_filter)
qed

lemma find_diff:
  "List.find (\<lambda>x. sx_name x = n) (map (\<lambda>(n, r). \<lparr>sx_snapshot = i, sx_name = n, sx_ref = g r\<rparr>) m) =
    map_option (\<lambda>r. \<lparr>sx_snapshot = i, sx_name = n, sx_ref = g r\<rparr>) (map_get m n)"
  by (induction m) (auto simp: map_get_def)

lemma diff_refs_apply:
  assumes "go_map_ok parent" and "go_map_ok current"
  shows "map_get (fold apply_ref (diff_refs i parent current) parent) n = map_get current n"
proof -
  let ?xs = "diff_refs i parent current"
  have f: "List.find (\<lambda>x. sx_name x = n) ?xs = (case map_get current n of
      Some r \<Rightarrow> if map_get parent n = Some r then None else Some \<lparr>sx_snapshot = i, sx_name = n, sx_ref = Some r\<rparr>
    | None \<Rightarrow> if map_get parent n = None then None else Some \<lparr>sx_snapshot = i, sx_name = n, sx_ref = None\<rparr>)"
    unfolding diff_refs_def find_append find_diff map_get_filter [OF assms(1)] map_get_filter [OF assms(2)]
    by (auto split: option.splits)
  show ?thesis
    unfolding apply_refs_get [OF diff_names [OF assms]] f by (auto split: option.splits)
qed

lemma same_refs_get:
  assumes "go_map_ok a" and "go_map_ok b" and "same_refs a b"
  shows "map_get a = map_get b"
proof -
  have sub: "set a \<subseteq> set b"
    using assms(3) map_get_Some_set [OF assms(2)] by (auto simp: same_refs_def list_all_iff)
  have "distinct a" "distinct b" using assms(1,2) by (simp_all add: go_map_ok_def distinct_map)
  then have "card (set a) = card (set b)"
    using assms(3) by (simp add: distinct_card same_refs_def)
  then have "set a = set b" using card_subset_eq [OF _ sub] by simp
  then have "map_get a n = Some r \<longleftrightarrow> map_get b n = Some r" for n r
    using map_get_Some_set [OF assms(1)] map_get_Some_set [OF assms(2)] by simp
  then show ?thesis by (metis ext not_Some_eq)
qed

section \<open>What other operations leave of the trail\<close>

text \<open>An operation other than a recorded run either leaves the trail alone, the environments growing at most\<dots>\<close>

definition trail_same :: "vault_db \<Rightarrow> vault_db \<Rightarrow> bool" where
  "trail_same db db' \<longleftrightarrow> db_snapshots db' = db_snapshots db \<and> db_refs db' = db_refs db \<and> db_runs db' = db_runs db \<and>
     db_annotations db' = db_annotations db \<and> db_versions db' = db_versions db \<and> db_seq db' TAnnotations = db_seq db TAnnotations \<and>
     db_seq db' TSnapshots = db_seq db TSnapshots \<and> db_seq db' TRuns = db_seq db TRuns \<and> db_seq db TEnvs \<le> db_seq db' TEnvs \<and>
     (\<exists>new. scopes db' = scopes db @ new \<and> (\<forall>e \<in> set new. db_seq db TEnvs < fst e))"

text \<open>\<dots> or it deletes rows, and the foreign keys follow.\<close>

definition trail_cut :: "vault_db \<Rightarrow> vault_db \<Rightarrow> bool" where
  "trail_cut db db' \<longleftrightarrow> (\<exists>P Q R. db' = sweep_orphans (cascade (db\<lparr>db_projects := filter P (db_projects db),
     db_envs := filter Q (db_envs db), db_entries := filter R (db_entries db)\<rparr>)))"

lemma trail_same_refl [simp]: "trail_same db db"
  by (simp add: trail_same_def)

lemma trail_same_trans: "trail_same a b \<Longrightarrow> trail_same b c \<Longrightarrow> trail_same a c"
  unfolding trail_same_def by (fastforce intro: le_less_trans)

lemma trail_same_keeps:
  assumes ok: "trail_ok db" and s: "trail_same db db'"
  shows "trail_ok db'" and "x \<in> set (db_snapshots db) \<Longrightarrow> resolve_tx db' (sn_id x) = resolve_tx db (sn_id x)"
proof -
  show ok': "trail_ok db'" using ok s by (auto simp: trail_ok_def trail_same_def ids_ok_def)
  show "resolve_tx db' (sn_id x) = resolve_tx db (sn_id x)" if x: "x \<in> set (db_snapshots db)"
  proof -
    obtain c where "lineage db (sn_id x) c" using lineage_exists [OF ok x] by blast
    then show ?thesis using s by (intro resolve_moves [OF ok ok']) (auto simp: trail_same_def snapshot_by_id_def)
  qed
qed

lemma sweep_tables:
  "db_envs (sweep_orphans db) = db_envs db" "db_snapshots (sweep_orphans db) = db_snapshots db" "db_refs (sweep_orphans db) = db_refs db"
  "db_runs (sweep_orphans db) = db_runs db" "db_seq (sweep_orphans db) = db_seq db"
  by (simp_all add: sweep_orphans_def drop_annotations_def Let_def)

lemma cascade_tables:
  fixes db :: vault_db
  defines "ps \<equiv> pj_id ` set (db_projects db)" and "es \<equiv> filter (\<lambda>e. en_project e \<in> pj_id ` set (db_projects db)) (db_envs db)"
  defines "snaps \<equiv> filter (\<lambda>s. sn_project s \<in> ps \<and> sn_env s \<in> en_id ` set es) (db_snapshots db)"
  shows "db_envs (cascade db) = es" and "db_seq (cascade db) = db_seq db"
    and "db_snapshots (cascade db) = map (\<lambda>s. s\<lparr>sn_parent := live_ref (map sn_id snaps) (sn_parent s)\<rparr>) snaps"
    and "db_refs (cascade db) = filter (\<lambda>x. sx_snapshot x \<in> sn_id ` set snaps) (db_refs db)"
    and "db_runs (cascade db) = map (\<lambda>r. r\<lparr>rn_snapshot := live_ref (map sn_id snaps) (rn_snapshot r)\<rparr>) (db_runs db)"
  unfolding assms by (simp_all add: cascade_def Let_def)

lemma cut_tables:
  assumes "db' = sweep_orphans (cascade (db\<lparr>db_projects := filter P (db_projects db), db_envs := filter Q (db_envs db),
    db_entries := filter R (db_entries db)\<rparr>))"
  defines "kept \<equiv> filter (\<lambda>e. Q e \<and> en_project e \<in> pj_id ` set (filter P (db_projects db))) (db_envs db)"
  defines "live \<equiv> \<lambda>s. sn_project s \<in> pj_id ` set (filter P (db_projects db)) \<and> sn_env s \<in> en_id ` set kept"
  shows "db_envs db' = kept"
    and "db_snapshots db' = map (\<lambda>s. s\<lparr>sn_parent := live_ref (map sn_id (filter live (db_snapshots db))) (sn_parent s)\<rparr>) (filter live (db_snapshots db))"
    and "db_refs db' = filter (\<lambda>x. sx_snapshot x \<in> sn_id ` set (filter live (db_snapshots db))) (db_refs db)"
    and "db_runs db' = map (\<lambda>r. r\<lparr>rn_snapshot := live_ref (map sn_id (filter live (db_snapshots db))) (rn_snapshot r)\<rparr>) (db_runs db)"
    and "db_seq db' = db_seq db"
proof -
  let ?d = "db\<lparr>db_projects := filter P (db_projects db), db_envs := filter Q (db_envs db), db_entries := filter R (db_entries db)\<rparr>"
  have d: "db_projects ?d = filter P (db_projects db)" "db_envs ?d = filter Q (db_envs db)" "db_snapshots ?d = db_snapshots db"
      "db_refs ?d = db_refs db" "db_runs ?d = db_runs db" "db_seq ?d = db_seq db"
    by simp_all
  have kept: "filter (\<lambda>e. en_project e \<in> pj_id ` set (filter P (db_projects db))) (filter Q (db_envs db)) = kept"
    unfolding kept_def filter_filter by (rule refl)
  show "db_envs db' = kept"
      "db_snapshots db' = map (\<lambda>s. s\<lparr>sn_parent := live_ref (map sn_id (filter live (db_snapshots db))) (sn_parent s)\<rparr>) (filter live (db_snapshots db))"
      "db_refs db' = filter (\<lambda>x. sx_snapshot x \<in> sn_id ` set (filter live (db_snapshots db))) (db_refs db)"
      "db_runs db' = map (\<lambda>r. r\<lparr>rn_snapshot := live_ref (map sn_id (filter live (db_snapshots db))) (rn_snapshot r)\<rparr>) (db_runs db)"
      "db_seq db' = db_seq db"
    unfolding assms(1) sweep_tables cascade_tables d kept live_def by (rule refl)+
qed

lemma trail_cut_keeps:
  assumes ok: "trail_ok db" and envs: "envs_ok db" and c: "trail_cut db db'"
  shows "trail_ok db'"
    and "x \<in> set (db_snapshots db) \<Longrightarrow> (sn_env x, sn_project x) \<in> set (scopes db') \<Longrightarrow>
      x \<in> set (db_snapshots db') \<and> resolve_tx db' (sn_id x) = resolve_tx db (sn_id x)"
    and "r \<in> set (db_runs db) \<Longrightarrow> rn_snapshot r = Some (sn_id x) \<Longrightarrow> x \<in> set (db_snapshots db') \<Longrightarrow> r \<in> set (db_runs db')"
    and "set (scopes db') \<subseteq> set (scopes db)" and "db_seq db' = db_seq db"
proof -
  obtain P Q R where db': "db' = sweep_orphans (cascade (db\<lparr>db_projects := filter P (db_projects db),
      db_envs := filter Q (db_envs db), db_entries := filter R (db_entries db)\<rparr>))"
    using c by (auto simp: trail_cut_def)
  define kept where "kept = filter (\<lambda>e. Q e \<and> en_project e \<in> pj_id ` set (filter P (db_projects db))) (db_envs db)"
  define live :: "snapshot_row \<Rightarrow> bool" where "live = (\<lambda>s. sn_project s \<in> pj_id ` set (filter P (db_projects db)) \<and> sn_env s \<in> en_id ` set kept)"
  note t = cut_tables [OF db', folded kept_def, folded live_def]
  have scope: "live s \<longleftrightarrow> (sn_env s, sn_project s) \<in> set (scopes db')" if s: "s \<in> set (db_snapshots db)" for s
  proof -
    obtain e0 where e0: "e0 \<in> set (db_envs db)" "en_id e0 = sn_env s" "en_project e0 = sn_project s"
      using ok s by (force simp: trail_ok_def scopes_def)
    have "inj_on en_id (set (db_envs db))" using envs by (simp add: envs_ok_def ids_ok_def distinct_map)
    then have same: "e \<in> set kept \<Longrightarrow> en_id e = sn_env s \<Longrightarrow> e = e0" for e
      using e0 unfolding kept_def by (metis filter_is_subset inj_onD subsetD)
    show ?thesis
    proof
      assume "live s"
      then obtain e where "e \<in> set kept" "en_id e = sn_env s" by (auto simp: live_def)
      then show "(sn_env s, sn_project s) \<in> set (scopes db')" using same e0 by (force simp: scopes_def t(1))
    next
      assume "(sn_env s, sn_project s) \<in> set (scopes db')"
      then obtain e where "e \<in> set kept" "en_id e = sn_env s" "en_project e = sn_project s" by (auto simp: scopes_def t(1))
      then have "sn_env s \<in> en_id ` set kept" "sn_project s \<in> pj_id ` set (filter P (db_projects db))"
        by (metis imageI, simp add: kept_def)
      then show "live s" by (simp add: live_def)
    qed
  qed
  have parent: "\<exists>q \<in> set (db_snapshots db). sn_id q = p \<and> live q \<and> p < sn_id s"
    if s: "s \<in> set (db_snapshots db)" "live s" "sn_parent s = Some p" for s p
    using ok s(1,3) s(2) unfolding trail_ok_def live_def by metis
  have snaps: "db_snapshots db' = filter live (db_snapshots db)"
  proof -
    have "s\<lparr>sn_parent := live_ref (map sn_id (filter live (db_snapshots db))) (sn_parent s)\<rparr> = s"
      if "s \<in> set (filter live (db_snapshots db))" for s
      using that parent [of s] by (cases "sn_parent s") (auto simp: live_ref_def)
    then show ?thesis unfolding t(2) by (rule map_idI)
  qed
  have live_id: "j \<in> sn_id ` set (filter live (db_snapshots db)) \<longleftrightarrow> live s" if "s \<in> set (db_snapshots db)" "sn_id s = j" for s j
  proof -
    have "inj_on sn_id (set (db_snapshots db))" using ok by (simp add: trail_ok_def ids_ok_def distinct_map)
    then show ?thesis using that by (auto simp: inj_on_eq_iff)
  qed
  show seq: "db_seq db' = db_seq db" by (rule t(5))
  show ok': "trail_ok db'"
    unfolding trail_ok_def
  proof (intro conjI ballI allI impI)
    show "ids_ok TSnapshots db' (map sn_id (db_snapshots db'))"
      using ok ids_ok_filter [of TSnapshots db sn_id "db_snapshots db" live] seq by (simp add: snaps trail_ok_def ids_ok_def)
    show "0 \<le> db_seq db' TSnapshots" using ok seq by (simp add: trail_ok_def)
  next
    fix s p
    assume s: "s \<in> set (db_snapshots db')" "sn_parent s = Some p"
    then obtain q where "q \<in> set (db_snapshots db)" "sn_id q = p" "live q" "p < sn_id s" using parent [of s p] snaps by auto
    moreover obtain q' where "q' \<in> set (db_snapshots db)" "sn_id q' = p" "sn_project q' = sn_project s" "sn_env q' = sn_env s"
      using ok s snaps by (auto simp: trail_ok_def)
    ultimately show "p < sn_id s"
        "\<exists>t\<in>set (db_snapshots db'). sn_id t = p \<and> sn_project t = sn_project s \<and> sn_env t = sn_env s"
      using live_id by (auto simp: snaps)
  next
    fix s
    assume "s \<in> set (db_snapshots db')"
    then show "(sn_env s, sn_project s) \<in> set (scopes db')" using scope [of s] by (simp add: snaps)
  next
    fix x
    assume "x \<in> set (db_refs db')"
    then show "sx_snapshot x \<in> sn_id ` set (db_snapshots db')" by (simp add: t(3) snaps)
  qed
  show "set (scopes db') \<subseteq> set (scopes db)" by (auto simp: scopes_def t(1) kept_def)
  show "x \<in> set (db_snapshots db') \<and> resolve_tx db' (sn_id x) = resolve_tx db (sn_id x)"
    if x: "x \<in> set (db_snapshots db)" and e: "(sn_env x, sn_project x) \<in> set (scopes db')"
  proof -
    have l: "live x" using scope [OF x] e by simp
    obtain c where c: "lineage db (sn_id x) c" using lineage_exists [OF ok x] by auto
    have mem: "\<exists>s \<in> set (db_snapshots db). sn_id s = j \<and> live s" if "j \<in> set c" for j
    proof -
      note lm = lineage_mem [OF ok c, rule_format, OF that]
      obtain s t where s: "snapshot_by_id db j = Some s" "snapshot_by_id db (sn_id x) = Some t" "sn_project s = sn_project t" "sn_env s = sn_env t"
        using lm by (elim conjE exE) (rule that; assumption)
      then have "t = x" using snapshot_by_id_the [OF ok x] by simp
      then have "live s" using s(3,4) l by (simp add: live_def)
      then show ?thesis using snapshot_by_id_Some [OF s(1)] by blast
    qed
    have "resolve_tx db' (sn_id x) = resolve_tx db (sn_id x)"
    proof (rule resolve_moves [OF ok ok' c])
      fix j
      assume "j \<in> set c"
      then obtain s where s: "s \<in> set (db_snapshots db)" "sn_id s = j" "live s" using mem by blast
      have "distinct (map sn_id (db_snapshots db))" using ok by (simp add: trail_ok_def ids_ok_def)
      then show "snapshot_by_id db' j = snapshot_by_id db j"
        using find_filter_unique [of sn_id "db_snapshots db" j live] snapshot_by_id_the [OF ok s(1)] s by (simp add: snapshot_by_id_def snaps)
      show "filter (\<lambda>x. sx_snapshot x = j) (db_refs db') = filter (\<lambda>x. sx_snapshot x = j) (db_refs db)"
        unfolding t(3) using live_id [OF s(1,2)] s(3) by (auto intro!: filter_cong)
    qed
    then show ?thesis using x l by (simp add: snaps)
  qed
  show "r \<in> set (db_runs db')" if "r \<in> set (db_runs db)" "rn_snapshot r = Some (sn_id x)" "x \<in> set (db_snapshots db')"
  proof -
    have "r\<lparr>rn_snapshot := live_ref (map sn_id (filter live (db_snapshots db))) (rn_snapshot r)\<rparr> = r"
      using that by (auto simp: live_ref_def snaps)
    then show ?thesis using that(1) unfolding t(4) by force
  qed
qed

end
