(* ===== verification/Vault_Trail.thy ===== *)
theory Vault_Trail
  imports Vault_Run_Props
begin

text \<open>
  What every operation on a vault, and the recording of a run, does to the recorded runs.
\<close>

section \<open>Operations on values, projects and environments\<close>

definition trail_step :: "vault_db \<Rightarrow> vault_db \<Rightarrow> bool" where
  "trail_step db db' \<longleftrightarrow> trail_same db db' \<or> trail_cut db db'"

lemma transact_trail:
  assumes "\<And>res db. stmts = Inr (res, db) \<Longrightarrow> trail_same (vt_db v) db"
  shows "trail_same (vt_db v) (vt_db (snd (transact io v stmts)))"
  using assms by (auto simp: transact_def split: option.splits sum.splits)

lemma delete_and_sweep_trail:
  assumes "snd (del (vt_db v)) = (vt_db v)\<lparr>db_projects := filter P (db_projects (vt_db v)), db_envs := filter Q (db_envs (vt_db v)),
      db_entries := filter R (db_entries (vt_db v))\<rparr>"
    and "fst (del (vt_db v)) = 0 \<Longrightarrow> snd (del (vt_db v)) = vt_db v"
  shows "trail_step (vt_db v) (vt_db (snd (delete_and_sweep io del v)))"
proof -
  obtain n db where d: "del (vt_db v) = (n, db)" by fastforce
  show ?thesis
    using assms d
    by (cases "save_error io"; cases "n = 0") (auto simp: delete_and_sweep_def transact_def trail_step_def trail_cut_def)
qed

lemma trail_same_simple:
  assumes "db_snapshots db' = db_snapshots db" "db_refs db' = db_refs db" "db_runs db' = db_runs db"
    and "db_annotations db' = db_annotations db" "db_versions db' = db_versions db"
    and "db_envs db' = db_envs db" and "\<And>t. t \<noteq> TEntries \<Longrightarrow> db_seq db' t = db_seq db t"
  shows "trail_same db db'"
  using assms by (simp add: trail_same_def scopes_def)

lemma upsert_trail: "trail_same db (upsert_env_var now pid eid name ct ver db)"
  by (rule trail_same_simple) (simp_all add: upsert_env_var_def take_id_def)

lemma reseal_trail: "trail_same db (reseal_row pid eid name ct ver db)"
  by (rule trail_same_simple) (simp_all add: reseal_row_def)

lemma write_trail: "trail_same (vt_db v) (vt_db (snd (write_env_var io now c pid eid name ct ver v)))"
  unfolding write_env_var_def by (rule transact_trail) (auto simp: upsert_trail split: if_splits)

lemma put_with_key_trail: "trail_same (vt_db v) (vt_db (snd (put_with_key cl io now draw key s name val c v)))"
  by (simp add: put_with_key_def write_trail split: sum.split prod.split)

lemma puts_trail:
  "trail_same (vt_db v) (vt_db (snd (put_env_var cl io now draw s name val c v)))"
  "trail_same (vt_db v) (vt_db (snd (put_env_var_with_password cl io now draw pw s name val c v)))"
  "trail_same (vt_db v) (vt_db (snd (put_authored cl io now draw s name val k c v)))"
  by (simp_all add: put_env_var_def put_env_var_with_password_def put_authored_def put_with_key_trail write_trail
      split: option.split sum.split prod.split)

lemma insert_env_trail: "trail_same db (insert_env now pid name d db)"
  by (simp add: trail_same_def insert_env_def take_id_def next_id_def scopes_def)

lemma insert_project_trail: "trail_same db (insert_project now name db)"
  by (simp add: trail_same_def insert_project_def insert_env_def take_id_def next_id_def scopes_def Let_def)

lemma creates_trail:
  "trail_same (vt_db v) (vt_db (snd (create_project io now p v)))" "trail_same (vt_db v) (vt_db (snd (create_env io now p e v)))"
  by (auto simp: create_project_def create_env_def intro!: transact_trail insert_project_trail insert_env_trail
      split: option.split sum.split if_splits)

lemma renames_trail:
  "trail_same (vt_db v) (vt_db (snd (rename_project io now p q v)))"
  "trail_same (vt_db v) (vt_db (snd (rename_env io now p a b v)))"
  "trail_same (vt_db v) (vt_db (snd (rename_env_var cl io now draw s a b v)))"
proof -
  have st: "rename_project_stmts now p q (vt_db v) = Inr (u, db) \<Longrightarrow> trail_same (vt_db v) db" for u db
    by (rule trail_same_simple) (auto simp: rename_project_stmts_def split: if_splits)
  have "trail_same (vt_db v) (vt_db (snd (transact io v (rename_project_stmts now p q (vt_db v)))))"
    by (rule transact_trail) (rule st)
  then show "trail_same (vt_db v) (vt_db (snd (rename_project io now p q v)))"
    by (simp add: rename_project_def split: option.split)
  have st: "rename_env_stmts now pid a b (vt_db v) = Inr (u, db) \<Longrightarrow> trail_same (vt_db v) db" for u db pid
  proof -
    have eq: "(\<lambda>x. (en_id (if named_env pid a x then x\<lparr>en_name := b, en_updated := now\<rparr> else x),
        en_project (if named_env pid a x then x\<lparr>en_name := b, en_updated := now\<rparr> else x))) = (\<lambda>e. (en_id e, en_project e))"
      by auto
    assume "rename_env_stmts now pid a b (vt_db v) = Inr (u, db)"
    then show ?thesis by (auto simp: rename_env_stmts_def trail_same_def scopes_def comp_def eq split: if_splits)
  qed
  have "trail_same (vt_db v) (vt_db (snd (transact io v (rename_env_stmts now pid a b (vt_db v)))))" for pid
    by (rule transact_trail) (rule st)
  then show "trail_same (vt_db v) (vt_db (snd (rename_env io now p a b v)))"
    by (simp add: rename_env_def split: option.split sum.split)
  have st: "rename_stmts cl io now draw key pid eid a b v = Inr (u, db) \<Longrightarrow> trail_same (vt_db v) db" for u db key pid eid
    by (rule trail_same_simple) (auto simp: rename_stmts_def split: if_splits sum.splits option.splits)
  have "trail_same (vt_db v) (vt_db (snd (transact io v (rename_stmts cl io now draw key pid eid a b v))))" for key pid eid
    by (rule transact_trail) (rule st)
  then show "trail_same (vt_db v) (vt_db (snd (rename_env_var cl io now draw s a b v)))"
    by (simp add: rename_env_var_def split: option.split sum.split prod.split)
qed

lemma capture_one_trail: "trail_same (vt_db v) (vt_db (snd (capture_one cl io draw vk pid eid se name v)))"
  by (auto simp: capture_one_def intro!: transact_trail reseal_trail split: sum.split option.split prod.split)

lemma capture_loop_trail: "trail_same (vt_db v) (vt_db (snd (capture_loop cl io draws vk pid eid se out names v)))"
proof (induction names arbitrary: out v)
  case (Cons name names)
  obtain r w where c: "capture_one cl io (draws name) vk pid eid se name v = (r, w)" by fastforce
  have w: "trail_same (vt_db v) (vt_db w)" using capture_one_trail [of v cl io "draws name" vk pid eid se name] c by simp
  show ?case
    using c w Cons.IH [of w] trail_same_trans [OF w] by (auto split: sum.split option.split)
qed simp

lemma capture_trail:
  "trail_same (vt_db v) (vt_db (snd (capture_row_keys cl io draws s names v)))"
  "trail_same (vt_db v) (vt_db (snd (capture_row_keys_with_password cl io draws pw s names v)))"
  by (simp_all add: capture_row_keys_def capture_row_keys_with_password_def capture_row_keys_with_key_def capture_loop_trail
      split: option.split sum.split prod.split)

lemma seal_trail: "trail_same (vt_db v) (vt_db (snd (seal_unattended cl io draw s n v)))"
  by (auto simp: seal_unattended_def seal_unattended_with_key_def intro!: transact_trail reseal_trail
      split: option.split sum.split prod.split)

lemma deletes_trail:
  "trail_step (vt_db v) (vt_db (snd (delete_project io p v)))" "trail_step (vt_db v) (vt_db (snd (delete_env io p e v)))"
  "trail_step (vt_db v) (vt_db (snd (delete_env_var io s n v)))" "trail_step (vt_db v) (vt_db (snd (clear_env_vars io s v)))"
proof -
  have same: "trail_step db db" for db by (simp add: trail_step_def)
  have entries: "trail_step (vt_db v) (vt_db (snd (delete_entries io hit v)))" for hit
    unfolding delete_entries_def
    by (rule delete_and_sweep_trail [where P = "\<lambda>_. True" and Q = "\<lambda>_. True"]) (simp_all add: keeps_all filter_none)
  have envs: "trail_step (vt_db v) (vt_db (snd (delete_envs io hit v)))" for hit
    unfolding delete_envs_def
    by (rule delete_and_sweep_trail [where P = "\<lambda>_. True" and R = "\<lambda>_. True"]) (simp_all add: keeps_all filter_none)
  have projects: "trail_step (vt_db v) (vt_db (snd (delete_and_sweep io (\<lambda>db. (rows_deleted (\<lambda>q. pj_name q = p) (db_projects db),
      db\<lparr>db_projects := filter (\<lambda>q. pj_name q \<noteq> p) (db_projects db)\<rparr>)) v)))"
    by (rule delete_and_sweep_trail [where Q = "\<lambda>_. True" and R = "\<lambda>_. True"]) (simp_all add: keeps_all filter_none)
  have outcome: "snd (case d of (Inl e, v) \<Rightarrow> (Inl e, v) | (Inr n, v) \<Rightarrow> (if n = (0::nat) then Inl err else Inr (), v)) = snd d"
    for d :: "(vault_error + nat) \<times> vault" and err by (simp split: prod.split sum.split)
  show "trail_step (vt_db v) (vt_db (snd (delete_project io p v)))"
    by (simp add: delete_project_def outcome same projects split: option.split)
  show "trail_step (vt_db v) (vt_db (snd (delete_env io p e v)))"
    by (simp add: delete_env_def outcome same envs split: option.split sum.split)
  show "trail_step (vt_db v) (vt_db (snd (delete_env_var io s n v)))"
    by (simp add: delete_env_var_def outcome same entries split: option.split sum.split prod.split)
  show "trail_step (vt_db v) (vt_db (snd (clear_env_vars io s v)))"
    by (simp add: clear_env_vars_def same entries split: option.split sum.split prod.split)
qed

lemma run_vault_op_trail: "trail_step (vt_db v) (vt_db (snd (run_vault_op cl io now draws op v)))"
proof -
  have s: "trail_same db db' \<Longrightarrow> trail_step db db'" for db db' by (simp add: trail_step_def)
  show ?thesis
    by (cases op) (simp_all add: outcome_def deletes_trail s puts_trail creates_trail renames_trail capture_trail seal_trail
        unlock_vault_def lock_vault_def split: sum.split)
qed

section \<open>Recording a run\<close>

lemma entry_refs_get:
  assumes ok: "entries_ok db" and io: "load_error io = None"
  shows "entry_refs sha io db pid eid out names = Inr m \<Longrightarrow> go_map_ok out \<Longrightarrow> go_map_ok m \<and>
    map_get m n = (if n \<in> set names then (case row_at db pid eid n of None \<Rightarrow> map_get out n
      | Some r \<Rightarrow> Some (nt_id r, blob_digest sha (nt_value r))) else map_get out n)"
proof (induction names arbitrary: out)
  case (Cons k names)
  show ?case
    using Cons.prems Cons.IH [of out] Cons.IH [of "map_put out k (nt_id (the (row_at db pid eid k)), blob_digest sha (nt_value (the (row_at db pid eid k))))"]
    by (auto simp: fetch_entry_row [OF ok io] split: option.splits)
qed simp

text \<open>What the newest snapshot of a scope is.\<close>

lemma latest_snapshot_cases:
  assumes ok: "trail_ok db" and l: "latest_snapshot db pid eid = Inr (i, refs)"
  obtains (none) "i = 0" and "refs = []"
    | (some) s where "s \<in> set (db_snapshots db)" and "sn_id s = i" and "sn_project s = pid" and "sn_env s = eid" and "i \<noteq> 0"
      and "resolve_tx db i = Inr refs"
proof (cases "rev (sort_key sn_id (filter (\<lambda>s. sn_project s = pid \<and> sn_env s = eid) (db_snapshots db)))")
  case Nil
  then show ?thesis using l none by (simp add: latest_snapshot_def)
next
  case (Cons s rest)
  then have "s \<in> set (rev (sort_key sn_id (filter (\<lambda>s. sn_project s = pid \<and> sn_env s = eid) (db_snapshots db))))" by simp
  then have s: "s \<in> set (db_snapshots db)" "sn_project s = pid" "sn_env s = eid" by simp_all
  then show ?thesis
    using l Cons some [of s] snapshot_positive [OF ok s(1)] by (auto simp: latest_snapshot_def split: sum.splits)
qed

text \<open>A new snapshot resolves to what it was written for, and the others to what they did.\<close>

lemma write_snapshot:
  assumes ok: "trail_ok db" and l: "latest_snapshot db pid eid = Inr (parentID, parent)" and scope: "(eid, pid) \<in> set (scopes db)"
    and cur: "go_map_ok current" and w: "write_snapshot_diff now pid eid parentID parent current db = (i, db')"
  shows "trail_ok db'" and "\<exists>s \<in> set (db_snapshots db'). sn_id s = i \<and> sn_project s = pid \<and> sn_env s = eid"
    and "\<exists>refs. resolve_tx db' i = Inr refs \<and> map_get refs = map_get current"
    and "x \<in> set (db_snapshots db) \<Longrightarrow> x \<in> set (db_snapshots db') \<and> resolve_tx db' (sn_id x) = resolve_tx db (sn_id x)"
    and "db_runs db' = db_runs db" "scopes db' = scopes db" "db_seq db' TRuns = db_seq db TRuns" "db_seq db' TEnvs = db_seq db TEnvs"
proof -
  let ?s = "\<lparr>sn_id = i, sn_parent = (if parentID \<noteq> 0 then Some parentID else None), sn_project = pid, sn_env = eid, sn_created = now\<rparr>"
  have i: "i = db_seq db TSnapshots + 1" and db': "db_snapshots db' = db_snapshots db @ [?s]"
      "db_refs db' = db_refs db @ diff_refs i parent current" "db_runs db' = db_runs db" "scopes db' = scopes db"
      "db_seq db' = (db_seq db)(TSnapshots := i)"
    using w by (auto simp: write_snapshot_diff_def take_id_def next_id_def Let_def scopes_def)
  show "\<exists>s \<in> set (db_snapshots db'). sn_id s = i \<and> sn_project s = pid \<and> sn_env s = eid" by (simp add: db')
  show "db_runs db' = db_runs db" "scopes db' = scopes db" "db_seq db' TRuns = db_seq db TRuns" "db_seq db' TEnvs = db_seq db TEnvs"
    by (simp_all add: db')
  have fresh: "s \<in> set (db_snapshots db) \<Longrightarrow> 0 < sn_id s \<and> sn_id s < i" for s
    using snapshot_positive [OF ok, of s] i by simp
  have pos: "0 < i" using ok i by (auto simp: trail_ok_def)
  have diff: "x \<in> set (diff_refs i parent current) \<Longrightarrow> sx_snapshot x = i" for x by (auto simp: diff_refs_def)
  have par: "parentID \<noteq> 0 \<Longrightarrow> parentID < i \<and> (\<exists>t \<in> set (db_snapshots db). sn_id t = parentID \<and> sn_project t = pid \<and> sn_env t = eid)"
      "parentID \<noteq> 0 \<Longrightarrow> resolve_tx db parentID = Inr parent" "parentID = 0 \<Longrightarrow> parent = []"
    using l fresh by (cases rule: latest_snapshot_cases [OF ok l]; auto)+
  show ok': "trail_ok db'"
    unfolding trail_ok_def
  proof (intro conjI ballI allI impI)
    have "\<forall>s \<in> set (db_snapshots db). sn_id s \<noteq> i" using fresh by fastforce
    moreover have "distinct (map sn_id (db_snapshots db))" using ok by (simp add: trail_ok_def ids_ok_def)
    moreover have "\<forall>s \<in> set (db_snapshots db). 0 < sn_id s \<and> sn_id s \<le> i" using fresh by fastforce
    ultimately show "ids_ok TSnapshots db' (map sn_id (db_snapshots db'))" using pos by (auto simp: ids_ok_def db')
    show "0 \<le> db_seq db' TSnapshots" using pos by (simp add: db')
  next
    fix s p
    assume s: "s \<in> set (db_snapshots db')" "sn_parent s = Some p"
    show "p < sn_id s" "\<exists>t\<in>set (db_snapshots db'). sn_id t = p \<and> sn_project t = sn_project s \<and> sn_env t = sn_env s"
    proof -
      consider "s = ?s" | "s \<in> set (db_snapshots db)" using s(1) db'(1) by auto
      then have "p < sn_id s \<and> (\<exists>t\<in>set (db_snapshots db). sn_id t = p \<and> sn_project t = sn_project s \<and> sn_env t = sn_env s)"
      proof cases
        case 1
        then have p: "parentID \<noteq> 0" "p = parentID" using s(2) by (auto split: if_splits)
        then show ?thesis using 1 par(1) by simp
      next
        case 2
        then show ?thesis using ok s(2) unfolding trail_ok_def by blast
      qed
      then show "p < sn_id s" "\<exists>t\<in>set (db_snapshots db'). sn_id t = p \<and> sn_project t = sn_project s \<and> sn_env t = sn_env s"
        by (auto simp: db')
    qed
  next
    show "(sn_env s, sn_project s) \<in> set (scopes db')" if "s \<in> set (db_snapshots db')" for s
      using that ok scope by (auto simp: db' trail_ok_def)
    show "sx_snapshot x \<in> sn_id ` set (db_snapshots db')" if "x \<in> set (db_refs db')" for x
      using that ok diff [of x] by (auto simp: db' trail_ok_def)
  qed
  have old: "snapshot_by_id db' j = snapshot_by_id db j"
      "filter (\<lambda>x. sx_snapshot x = j) (db_refs db') = filter (\<lambda>x. sx_snapshot x = j) (db_refs db)" if "j < i" for j
    using that diff by (auto simp: snapshot_by_id_def db' find_append filter_empty_conv split: option.splits)
  show kept: "x \<in> set (db_snapshots db') \<and> resolve_tx db' (sn_id x) = resolve_tx db (sn_id x)" if x: "x \<in> set (db_snapshots db)" for x
  proof -
    obtain c where c: "lineage db (sn_id x) c" using lineage_exists [OF ok x] by auto
    have "j \<in> set c \<Longrightarrow> j < i" for j using lineage_mem [OF ok c] fresh [OF x] by force
    then show ?thesis using x resolve_moves [OF ok ok' c] old by (simp add: db')
  qed
  have new: "snapshot_by_id db' i = Some ?s" using snapshot_by_id_the [OF ok', of ?s] db'(1) by simp
  have own: "filter (\<lambda>x. sx_snapshot x = i) (db_refs db') = diff_refs i parent current"
  proof -
    have "x \<in> set (db_refs db) \<Longrightarrow> sx_snapshot x \<noteq> i" for x using ok fresh by (force simp: trail_ok_def)
    then have "filter (\<lambda>x. sx_snapshot x = i) (db_refs db) = []" by (auto simp: filter_empty_conv)
    then show ?thesis using diff by (auto simp: db' filter_id_conv)
  qed
  show "\<exists>refs. resolve_tx db' i = Inr refs \<and> map_get refs = map_get current"
  proof (cases "parentID = 0")
    case True
    then have "resolve_tx db' i = Inr (apply_diff db' i [])"
      using resolve_lineage [OF ok' lineage.first [OF new]] by simp
    then show ?thesis
      using par(3) [OF True] diff_refs_apply [OF go_map_ok_Nil cur, of i] own by (auto simp: apply_diff_def)
  next
    case False
    then obtain t where t: "t \<in> set (db_snapshots db)" "sn_id t = parentID" using par(1) by blast
    then have t': "t \<in> set (db_snapshots db')" by (simp add: db')
    obtain c where c: "lineage db' parentID c" using lineage_exists [OF ok' t'] t(2) by auto
    have "fold (apply_diff db') c [] = parent"
      using resolve_lineage [OF ok' c] kept [OF t(1)] par(2) False t(2) by simp
    moreover have "resolve_tx db' i = Inr (fold (apply_diff db') (c @ [i]) [])"
      by (rule resolve_lineage [OF ok' lineage.child [OF new _ c]]) (simp add: False)
    ultimately show ?thesis
      using diff_refs_apply [OF resolved_ok [OF par(2) [OF False]] cur, of i] own by (auto simp: apply_diff_def)
  qed
qed

end
