(* ===== verification/Vault_Note_Props.thy ===== *)
theory Vault_Note_Props
  imports Vault_Notes Vault_Trail
begin

text \<open>
  What the operations on annotations do to the tables, and what the operations on values leave of
  them: the invariant of the annotation tables and the lemmas for their properties.
\<close>

section \<open>Sealing\<close>

lemma seal_note_Inr:
  "seal_note cl vid draw base ref domain uid text = Inr ct \<longleftrightarrow>
    (\<exists>k. derive_annotation_key cl base (annotation_aad vid ref domain uid) = Inr k \<and>
      encrypt_with_aad cl draw k text (annotation_aad vid ref domain uid) = Inr ct)"
  by (auto simp: seal_note_def as_vault_def Let_def split: sum.splits)

lemma sealed_note_opens:
  assumes "aead_works cl" and "length nonce = 24" and "seal_note cl vid (Some nonce) base ref domain uid text = Inr ct"
  shows "open_note_with_base cl vid base ref domain uid ct = Inr text"
proof -
  obtain k where k: "derive_annotation_key cl base (annotation_aad vid ref domain uid) = Inr k"
      "encrypt_with_aad cl (Some nonce) k text (annotation_aad vid ref domain uid) = Inr ct"
    using assms(3) by (auto simp: seal_note_Inr)
  have "length k = 32" using derive_ok [OF assms(1)] k(1) by (simp add: derive_annotation_key_def)
  then have "decrypt_with_aad cl k ct (annotation_aad vid ref domain uid) = Inr text"
    using decrypt_iff [OF assms(1)] assms(2) k(2) by blast
  then show ?thesis using k(1) by (simp add: open_note_with_base_def as_vault_def)
qed

lemma sealed_note_nonempty: "seal_note cl vid draw base ref domain uid text = Inr ct \<Longrightarrow> ct \<noteq> []"
  by (auto simp: seal_note_Inr encrypt_with_aad_def split: if_splits option.splits)

lemma base_key_again:
  "annotation_base_key cl vid vk ref = Inr (base, domain) \<Longrightarrow> base_key_for_domain cl vid vk ref domain = Inr base"
  by (auto simp: annotation_base_key_def base_key_for_domain_def as_vault_def split: if_splits sum.splits)

section \<open>The annotation tables\<close>

definition notes_ok :: "vault_db \<Rightarrow> bool" where
  "notes_ok db \<longleftrightarrow> ids_ok TAnnotations db (map an_id (db_annotations db)) \<and> 0 \<le> db_seq db TAnnotations \<and>
     (\<forall>x \<in> set (db_versions db). av_annotation x \<in> set (map an_id (db_annotations db))) \<and>
     (\<forall>i. \<exists>n. map av_no (filter (\<lambda>x. av_annotation x = i) (db_versions db)) = [1..<Suc n])"

lemma max_upt: "fold max [1..<Suc n] (0 :: nat) = n"
  by (induction n) simp_all

lemma next_version_numbered:
  "map av_no (filter (\<lambda>x. av_annotation x = i) (db_versions db)) = [1..<Suc n] \<Longrightarrow> next_version i db = Suc n"
  unfolding next_version_def by (simp only: max_upt)

text \<open>The annotations and their versions, which is all the operations here are about.\<close>

lemma append_version_sel [simp]:
  "db_annotations (append_version i op body enc au now db) = db_annotations db"
  "\<exists>x. db_versions (append_version i op body enc au now db) = db_versions db @ [x] \<and> av_annotation x = i \<and> av_no x = next_version i db"
  "db_seq (append_version i op body enc au now db) = db_seq db"
  by (simp_all add: append_version_def)

lemma update_annotation_sel [simp]:
  "db_annotations (update_annotation i f db) = map (\<lambda>a. if an_id a = i then f a else a) (db_annotations db)"
  "db_versions (update_annotation i f db) = db_versions db" "db_seq (update_annotation i f db) = db_seq db"
  by (simp_all add: update_annotation_def)

lemma insert_annotation_Inr:
  assumes "insert_annotation uid ref kind body enc domain au now db = Inr (i, db')"
  obtains a where "db_annotations db' = db_annotations db @ [a]" and "an_id a = i" and "i = db_seq db TAnnotations + 1"
    and "an_type a = ob_type ref" and "an_object a = ob_id ref" and "an_kind a = kind" and "an_body a = body" and "an_body_enc a = enc"
    and "an_domain a = domain" and "an_uid a = uid" and "an_deleted a = None" and "an_created a = now" and "an_updated a = now"
    and "an_author a = au_kind au" and "an_comm a = null_comm au"
    and "db_versions db' = db_versions db" and "db_seq db' = (db_seq db)(TAnnotations := i)"
proof (rule that)
  let ?a = "\<lparr>an_id = db_seq db TAnnotations + 1, an_uid = uid, an_type = ob_type ref, an_object = ob_id ref, an_kind = kind,
    an_body = body, an_body_enc = enc, an_domain = domain, an_author = au_kind au, an_comm = null_comm au, an_created = now,
    an_updated = now, an_deleted = None\<rparr>"
  show "db_annotations db' = db_annotations db @ [?a]" "i = db_seq db TAnnotations + 1" "db_versions db' = db_versions db"
      "db_seq db' = (db_seq db)(TAnnotations := i)" "an_id ?a = i"
    using assms by (simp_all add: insert_annotation_def take_id_def next_id_def Let_def split: if_splits) auto
qed simp_all

text \<open>
  One step on the annotation tables: rows are added with fresh ids, kept with their identity, or
  dropped for a reason; versions of a row that stays are kept, in order, and the new ones come after.
\<close>

definition same_annotation :: "annotation_row \<Rightarrow> annotation_row \<Rightarrow> bool" where
  "same_annotation a b \<longleftrightarrow> an_id b = an_id a \<and> an_uid b = an_uid a \<and> an_type b = an_type a \<and> an_object b = an_object a \<and>
     an_kind b = an_kind a \<and> an_domain b = an_domain a"

lemma same_annotation_refl [simp]: "same_annotation a a"
  by (simp add: same_annotation_def)

lemma same_annotation_trans: "same_annotation a b \<Longrightarrow> same_annotation b c \<Longrightarrow> same_annotation a c"
  by (simp add: same_annotation_def)

definition note_step :: "(annotation_row \<Rightarrow> bool) \<Rightarrow> vault_db \<Rightarrow> vault_db \<Rightarrow> bool" where
  "note_step gone db db' \<longleftrightarrow>
     (\<exists>f new vs. (\<forall>a. same_annotation a (f a)) \<and>
       db_annotations db' = map f (filter (\<lambda>a. \<not> gone a) (db_annotations db)) @ new \<and>
       (\<forall>a \<in> set new. db_seq db TAnnotations < an_id a \<and> an_id a \<le> db_seq db' TAnnotations) \<and> distinct (map an_id new) \<and>
       db_versions db' = filter (\<lambda>x. av_annotation x \<in> an_id ` set (filter (\<lambda>a. \<not> gone a) (db_annotations db))) (db_versions db) @ vs \<and>
       length vs \<le> 1 \<and> (\<forall>x \<in> set vs. av_annotation x \<in> an_id ` set (db_annotations db') \<and> av_no x = next_version (av_annotation x) db) \<and>
       db_seq db TAnnotations \<le> db_seq db' TAnnotations)"

lemma kept_versions:
  assumes "notes_ok db"
  shows "filter (\<lambda>x. av_annotation x \<in> an_id ` set (filter (\<lambda>a. \<not> False) (db_annotations db))) (db_versions db) = db_versions db"
  using assms by (auto simp: notes_ok_def intro!: filter_True)

lemma note_stepI:
  assumes "notes_ok db" and "db_annotations db' = map f (db_annotations db) @ new" and "\<And>a. same_annotation a (f a)"
    and "\<And>a. a \<in> set new \<Longrightarrow> db_seq db TAnnotations < an_id a \<and> an_id a \<le> db_seq db' TAnnotations" and "distinct (map an_id new)"
    and "db_versions db' = db_versions db @ vs" and "length vs \<le> 1"
    and "\<And>x. x \<in> set vs \<Longrightarrow> av_annotation x \<in> an_id ` set (db_annotations db') \<and> av_no x = next_version (av_annotation x) db"
    and "db_seq db TAnnotations \<le> db_seq db' TAnnotations"
  shows "note_step (\<lambda>_. False) db db'"
  unfolding note_step_def using assms kept_versions [OF assms(1)]
  by (intro exI [of _ f] exI [of _ new] exI [of _ vs]) simp

lemma note_step_refl: "notes_ok db \<Longrightarrow> note_step (\<lambda>_. False) db db"
  by (rule note_stepI [where f = "\<lambda>a. a" and new = "[]" and vs = "[]"]) simp_all

lemma filter_key: "filter (\<lambda>x. g x = i) (filter (\<lambda>x. g x \<in> K) xs) = (if i \<in> K then filter (\<lambda>x. g x = i) xs else [])"
  by (induction xs) auto

lemma note_step_ok:
  assumes ok: "notes_ok db" and s: "note_step gone db db'"
  shows "notes_ok db'"
proof -
  obtain f new vs where f: "\<And>a. same_annotation a (f a)" and a: "db_annotations db' = map f (filter (\<lambda>a. \<not> gone a) (db_annotations db)) @ new"
    and new: "\<forall>a \<in> set new. db_seq db TAnnotations < an_id a \<and> an_id a \<le> db_seq db' TAnnotations" "distinct (map an_id new)"
    and vs: "db_versions db' = filter (\<lambda>x. av_annotation x \<in> an_id ` set (filter (\<lambda>a. \<not> gone a) (db_annotations db))) (db_versions db) @ vs"
      "\<forall>x \<in> set vs. av_annotation x \<in> an_id ` set (db_annotations db') \<and> av_no x = next_version (av_annotation x) db" "length vs \<le> 1"
    and seq: "db_seq db TAnnotations \<le> db_seq db' TAnnotations"
    using s unfolding note_step_def by blast
  let ?kept = "filter (\<lambda>a. \<not> gone a) (db_annotations db)"
  have "an_id \<circ> f = an_id" using f by (auto simp: same_annotation_def)
  then have ids: "map an_id (db_annotations db') = map an_id ?kept @ map an_id new" by (simp add: a)
  have old: "distinct (map an_id ?kept)" "\<forall>i \<in> set (map an_id ?kept). 0 < i \<and> i \<le> db_seq db TAnnotations"
    using ok by (auto simp: notes_ok_def ids_ok_def distinct_map_filter)
  then have "set (map an_id ?kept) \<inter> set (map an_id new) = {}" using new(1) by fastforce
  then have "distinct (map an_id (db_annotations db'))" unfolding ids distinct_append using old(1) new(2) by simp
  moreover have "\<forall>i \<in> set (map an_id (db_annotations db')). 0 < i \<and> i \<le> db_seq db' TAnnotations"
    unfolding ids using old(2) new(1) seq ok by (fastforce simp: notes_ok_def)
  moreover have "av_annotation x \<in> set (map an_id (db_annotations db'))" if "x \<in> set (db_versions db')" for x
  proof (cases "x \<in> set vs")
    case False
    then have "av_annotation x \<in> set (map an_id ?kept)" using that vs(1) by simp
    then show ?thesis unfolding ids by simp
  qed (use vs(2) in simp)
  moreover have "\<exists>n. map av_no (filter (\<lambda>x. av_annotation x = i) (db_versions db')) = [1..<Suc n]" for i
  proof -
    obtain n where n: "map av_no (filter (\<lambda>x. av_annotation x = i) (db_versions db)) = [1..<Suc n]" using ok by (auto simp: notes_ok_def)
    have gone: "filter (\<lambda>x. av_annotation x = i) (db_versions db) = []" if "i \<in> set (map an_id new)"
      using that new(1) ok by (fastforce simp: notes_ok_def ids_ok_def filter_empty_conv)
    have old: "map av_no (filter (\<lambda>x. av_annotation x = i) (filter (\<lambda>x. av_annotation x \<in> an_id ` set ?kept) (db_versions db))) =
        (if i \<in> an_id ` set ?kept then [1..<Suc n] else [])"
      unfolding filter_key using n by simp
    show ?thesis
    proof (cases "filter (\<lambda>x. av_annotation x = i) vs")
      case Nil
      then have "map av_no (filter (\<lambda>x. av_annotation x = i) (db_versions db')) = (if i \<in> an_id ` set ?kept then [1..<Suc n] else [1..<Suc 0])"
        using old by (simp add: vs(1))
      then show ?thesis by metis
    next
      case (Cons x xs)
      then have "filter (\<lambda>x. av_annotation x = i) vs = vs" using vs(3) by (cases vs) (auto split: if_splits)
      then have "vs = [x]" using Cons vs(3) by (cases vs) auto
      moreover have "x \<in> set (filter (\<lambda>x. av_annotation x = i) vs)" using Cons by simp
      ultimately have x: "vs = [x]" "av_annotation x = i" by (auto split: if_splits)
      have no: "av_no x = Suc n" using vs(2) x next_version_numbered [OF n] by simp
      have "i \<in> set (map an_id (db_annotations db'))" using vs(2) x by simp
      then have "i \<in> an_id ` set ?kept \<or> n = 0" unfolding ids using gone n by auto
      then have "map av_no (filter (\<lambda>x. av_annotation x = i) (db_versions db')) = [1..<Suc (Suc n)]"
        using old x no by (auto simp: vs(1))
      then show ?thesis by blast
    qed
  qed
  ultimately show ?thesis using seq ok by (simp add: notes_ok_def ids_ok_def)
qed

section \<open>One operation on annotations\<close>

datatype note_op =
    NDescribe object_ref string | NAdd object_ref string | NAddPassword bytes object_ref string | NAddAuthored bytes object_ref string
  | NEdit object_ref int string | NEditPassword bytes object_ref int string | NRemove object_ref int
  | NDeleteFor object_type "string list" | NSweep

fun run_note_op ::
  "crypto_lib \<Rightarrow> annotation_limits \<Rightarrow> store_io \<Rightarrow> int \<Rightarrow> note_draws \<Rightarrow> note_author \<Rightarrow> note_op \<Rightarrow> vault \<Rightarrow> vault" where
  "run_note_op cl lim io now draws au (NDescribe ref text) v = snd (set_description lim io now (nd_uid draws) ref text au v)"
| "run_note_op cl lim io now draws au (NAdd ref text) v = snd (add_note cl lim io now draws ref text au v)"
| "run_note_op cl lim io now draws au (NAddPassword pw ref text) v = snd (add_note_with_password cl lim io now draws pw ref text au v)"
| "run_note_op cl lim io now draws au (NAddAuthored k ref text) v = snd (add_note_authored cl lim io now draws ref text k au v)"
| "run_note_op cl lim io now draws au (NEdit ref i text) v = snd (edit_note cl lim io now (nd_nonce draws) ref i text au v)"
| "run_note_op cl lim io now draws au (NEditPassword pw ref i text) v =
     snd (edit_note_with_password cl lim io now (nd_nonce draws) pw ref i text au v)"
| "run_note_op cl lim io now draws au (NRemove ref i) v = snd (remove_annotation io now ref i au v)"
| "run_note_op cl lim io now draws au (NDeleteFor t ids) v = snd (delete_annotations_for io t ids v)"
| "run_note_op cl lim io now draws au NSweep v = snd (sweep_orphan_annotations io v)"

lemma insert_step:
  assumes ok: "notes_ok db" and i: "insert_annotation uid ref kind body enc domain au now db = Inr (i, db')"
  shows "note_step (\<lambda>_. False) db (append_version i op b e au now db')"
proof (rule insert_annotation_Inr [OF i])
  fix a
  assume a: "db_annotations db' = db_annotations db @ [a]" "an_id a = i" "i = db_seq db TAnnotations + 1"
    "db_versions db' = db_versions db" "db_seq db' = (db_seq db)(TAnnotations := i)"
  obtain x where "db_versions (append_version i op b e au now db') = db_versions db' @ [x]" "av_annotation x = i" "av_no x = next_version i db'"
    using append_version_sel(2) by blast
  moreover have "next_version i db' = next_version i db" by (simp add: next_version_def a)
  ultimately show ?thesis
    by (intro note_stepI [OF ok, where f = "\<lambda>a. a" and new = "[a]" and vs = "[x]"]) (simp_all add: a)
qed

lemma update_step:
  assumes ok: "notes_ok db" and a: "a \<in> set (db_annotations db)" "an_id a = i" and f: "\<And>a. same_annotation a (f a)"
  shows "note_step (\<lambda>_. False) db (append_version i op b e au now (update_annotation i f db))"
proof -
  obtain x where x: "db_versions (append_version i op b e au now (update_annotation i f db)) = db_versions db @ [x]" "av_annotation x = i"
      "av_no x = next_version i db"
    using append_version_sel(2) [of i op b e au now "update_annotation i f db"] by (auto simp: next_version_def)
  have "i = an_id (if an_id a = i then f a else a)" using f [of a] a(2) by (simp add: same_annotation_def)
  then have "i \<in> an_id ` (\<lambda>a. if an_id a = i then f a else a) ` set (db_annotations db)" using a(1) by blast
  then show ?thesis
    using f x by (intro note_stepI [OF ok, where f = "\<lambda>a. if an_id a = i then f a else a" and new = "[]" and vs = "[x]"]) auto
qed

lemma drop_step: "notes_ok db \<Longrightarrow> note_step gone db (drop_annotations gone db)"
  unfolding note_step_def
  by (intro exI [of _ "\<lambda>a. a"] exI [of _ "[]"]) (simp add: drop_annotations_def Let_def)

lemma transact_step:
  assumes "notes_ok (vt_db v)" and "\<And>res db. stmts = Inr (res, db) \<Longrightarrow> note_step (\<lambda>_. False) (vt_db v) db"
  shows "note_step (\<lambda>_. False) (vt_db v) (vt_db (snd (transact io v stmts)))"
  using assms by (auto simp: transact_def note_step_refl split: option.splits sum.splits)

lemma set_description_step:
  assumes ok: "notes_ok (vt_db v)"
  shows "note_step (\<lambda>_. False) (vt_db v) (vt_db (snd (set_description lim io now uid ref text au v)))"
proof -
  have "note_step (\<lambda>_. False) (vt_db v) db" if s: "set_description_stmts now uid ref text au (vt_db v) = Inr (res, db)" for res db
  proof (cases "live_description ref (vt_db v)")
    case None
    then show ?thesis using s insert_step [OF ok] by (auto simp: set_description_stmts_def split: option.splits sum.splits prod.splits)
  next
    case (Some a)
    then have "a \<in> set (db_annotations (vt_db v))" by (auto simp: live_description_def dest: find_SomeD)
    then show ?thesis
      using s Some by (auto simp: set_description_stmts_def same_annotation_def intro!: update_step [OF ok])
  qed
  then show ?thesis
    using ok by (auto simp: set_description_def note_step_refl split: option.split intro!: transact_step)
qed

lemma add_note_step:
  assumes ok: "notes_ok (vt_db v)"
  shows "note_step (\<lambda>_. False) (vt_db v) (vt_db (snd (add_note_with_base cl lim io now draws ref text au base domain v)))"
proof -
  have "note_step (\<lambda>_. False) (vt_db v) db" if "insert_note uid ref ct domain au now (vt_db v) = Inr (res, db)" for uid ct res db
    using that insert_step [OF ok] by (auto simp: insert_note_def split: sum.splits prod.splits)
  then show ?thesis
    using ok by (auto simp: add_note_with_base_def note_step_refl split: option.split sum.split intro!: transact_step)
qed

lemma edit_note_step:
  assumes ok: "notes_ok (vt_db v)"
  shows "note_step (\<lambda>_. False) (vt_db v) (vt_db (snd (edit_note_with_vault_key cl lim io now draw vk ref i text au v)))"
proof -
  have "note_step (\<lambda>_. False) (vt_db v) (append_version i OpEdit [] ct au now
      (update_annotation i (\<lambda>a. a\<lparr>an_body_enc := Some ct, an_updated := now\<rparr>) (vt_db v)))"
    if "List.find P (db_annotations (vt_db v)) = Some a" "\<And>a. P a \<Longrightarrow> an_id a = i" for ct P a
    using find_SomeD [OF that(1)] that(2) by (intro update_step [OF ok]) (auto simp: same_annotation_def)
  then show ?thesis
    using ok by (auto simp: edit_note_with_vault_key_def note_step_refl split: option.split sum.split intro!: transact_step)
qed

lemma remove_step:
  assumes ok: "notes_ok (vt_db v)"
  shows "note_step (\<lambda>_. False) (vt_db v) (vt_db (snd (remove_annotation io now ref i au v)))"
  using ok by (auto simp: remove_annotation_def note_step_refl list_ex_iff same_annotation_def split: option.split
      intro!: transact_step update_step)

text \<open>What an operation drops was asked for by type and id, or its object is gone.\<close>

definition drops_with_reason :: "note_op \<Rightarrow> vault_db \<Rightarrow> annotation_row \<Rightarrow> bool" where
  "drops_with_reason op db' a \<longleftrightarrow> (\<exists>ids. op = NDeleteFor (an_type a) ids \<and> an_object a \<in> set ids) \<or> op = NSweep \<and> orphan db' a"

lemma orphan_drop [simp]: "orphan (drop_annotations P db) = orphan db"
  by (simp add: fun_eq_iff orphan_def drop_annotations_def Let_def cong: object_type.case_cong)

lemma run_note_op_step:
  assumes ok: "notes_ok (vt_db v)" and v': "v' = run_note_op cl lim io now draws au op v"
  shows "\<exists>gone. note_step gone (vt_db v) (vt_db v') \<and> (\<forall>a. gone a \<longrightarrow> drops_with_reason op (vt_db v') a)"
proof -
  have same: ?thesis if "note_step (\<lambda>_. False) (vt_db v) (vt_db v')" using that by blast
  have none: ?thesis if "vt_db v' = vt_db v" using note_step_refl [OF ok] that same by simp
  have vk: "note_step (\<lambda>_. False) (vt_db v) (vt_db (snd (add_note_with_vault_key cl lim io now draws vk ref tx au v)))" for vk ref tx
    by (auto simp: add_note_with_vault_key_def add_note_step [OF ok] note_step_refl [OF ok] split: sum.split)
  show ?thesis
  proof (cases op)
    case (NDescribe ref tx)
    then show ?thesis using v' set_description_step [OF ok] by (intro same) simp
  next
    case (NAdd ref tx)
    then show ?thesis using v' vk note_step_refl [OF ok] by (intro same) (simp add: add_note_def split: option.split)
  next
    case (NAddPassword pw ref tx)
    then show ?thesis using v' vk note_step_refl [OF ok] by (intro same) (simp add: add_note_with_password_def split: sum.split)
  next
    case (NAddAuthored k ref tx)
    then show ?thesis using v' add_note_step [OF ok] note_step_refl [OF ok] by (intro same) (simp add: add_note_authored_def)
  next
    case (NEdit ref i tx)
    then show ?thesis using v' edit_note_step [OF ok] note_step_refl [OF ok] by (intro same) (simp add: edit_note_def split: option.split)
  next
    case (NEditPassword pw ref i tx)
    then show ?thesis using v' edit_note_step [OF ok] note_step_refl [OF ok] by (intro same) (simp add: edit_note_with_password_def split: sum.split)
  next
    case (NRemove ref i)
    then show ?thesis using v' remove_step [OF ok] by (intro same) simp
  next
    case (NDeleteFor t ids)
    let ?gone = "\<lambda>a. an_type a = t \<and> an_object a \<in> set ids"
    consider "vt_db v' = vt_db v" | "vt_db v' = drop_annotations ?gone (vt_db v)"
      using v' by (auto simp: NDeleteFor delete_annotations_for_def transact_def split: option.splits if_splits)
    then show ?thesis
      by cases (use none drop_step [OF ok] in \<open>auto simp: drops_with_reason_def NDeleteFor intro!: exI [of _ ?gone]\<close>)
  next
    case NSweep
    consider "vt_db v' = vt_db v" | "vt_db v' = drop_annotations (orphan (vt_db v)) (vt_db v)"
      using v' by (auto simp: NSweep sweep_orphan_annotations_def sweep_orphans_def transact_def split: option.splits)
    then show ?thesis
      by cases (use none drop_step [OF ok] in \<open>auto simp: drops_with_reason_def NSweep intro!: exI [of _ "orphan (vt_db v)"]\<close>)
  qed
qed

end
