(* ===== verification/Vault_Examples.thy ===== *)
theory Vault_Examples
  imports Vault_History
begin

text \<open>
  A concrete vault for the witnesses. Its cipher appends the context's length in one byte and
  fifteen zeros, its derived keys are the last 32 bytes of the context padded with zeros: nothing
  secret about it, but it computes, and it has the laws of \<open>aead_works\<close>.
\<close>

definition toy_tag :: "bytes \<Rightarrow> bytes" where
  "toy_tag a = char_of (length a) # replicate 15 (CHR 0x00)"

definition toy_pad :: "bytes \<Rightarrow> bytes" where
  "toy_pad s = take 32 (rev s @ replicate 32 (CHR 0x00))"

definition toy_crypto :: crypto_lib where
  "toy_crypto = \<lparr>cl_seal = \<lambda>k n p a. p @ toy_tag a,
     cl_open = \<lambda>k n c a. if length c \<ge> 16 \<and> drop (length c - 16) c = toy_tag a then Some (take (length c - 16) c) else None,
     cl_hkdf = \<lambda>s i. toy_pad i, cl_argon2 = \<lambda>p s t m c. replicate 32 (CHR ''k''),
     cl_marshal = \<lambda>m. [], cl_unmarshal = \<lambda>s. None\<rparr>"

lemma toy_works: "aead_works toy_crypto"
proof -
  have "length (toy_tag a) = 16" for a by (simp add: toy_tag_def)
  moreover have "(if 16 \<le> length c \<and> drop (length c - 16) c = toy_tag a then Some (take (length c - 16) c) else None) = Some p
      \<longleftrightarrow> c = p @ toy_tag a" for c a p
    using calculation [of a] by (auto, metis append_take_drop_id)
  moreover have "length (toy_pad i) = 32" for i by (simp add: toy_pad_def min_def)
  ultimately show ?thesis by (simp add: aead_works_def toy_crypto_def)
qed

definition toy_key :: bytes where "toy_key = replicate 32 (CHR ''v'')"
definition toy_nonce :: bytes where "toy_nonce = replicate 24 (CHR ''n'')"
definition toy_params :: argon_params where "toy_params = DefaultArgon2Params"

definition toy_wrapped :: bytes where
  "toy_wrapped = encode_header toy_params (replicate 32 (CHR ''s'')) toy_nonce @ toy_key @
     toy_tag (encode_header toy_params (replicate 32 (CHR ''s'')) toy_nonce)"

text \<open>A vault fresh from \<open>byn init\<close>, unlocked, with the environment \<open>prod\<close> beside the default one.\<close>

definition toy_vault :: vault where
  "toy_vault = snd (create_env io_ok 1 DefaultProjectName ''prod''
     ((fresh_vault 0 [] ''id'' DefaultVaultName (Some toy_wrapped))\<lparr>vt_key := Some toy_key\<rparr>))"

definition toy_default :: vault_scope where "toy_default = \<lparr>sc_project = ''default'', sc_env = ''default''\<rparr>"
definition toy_prod :: vault_scope where "toy_prod = \<lparr>sc_project = ''default'', sc_env = ''prod''\<rparr>"

lemma toy_vault_ok: "db_ok (vt_db toy_vault)"
  unfolding toy_vault_def by (rule create_env_ok) (simp add: fresh_vault_def ok_fresh)

lemma toy_unwraps: "unwrap_key toy_crypto pw toy_wrapped = Inr toy_key"
proof -
  have w: "wrap_key toy_crypto (Some (replicate 32 (CHR ''s''))) (Some toy_nonce) pw toy_key toy_params = Inr toy_wrapped"
    by (simp add: wrap_key_def toy_params_def DefaultArgon2Params_def validate_params_def maxArgon2Time_def maxArgon2MemoryK_def
        maxArgon2Threads_def toy_wrapped_def toy_crypto_def toy_key_def VaultKeySize_def Let_def)
  show ?thesis by (rule unwrap_right_password [OF toy_works w]) (simp_all add: toy_nonce_def)
qed

lemma toy_no_entries: "db_entries (vt_db toy_vault) = []"
proof -
  have "db_entries (vt_db (snd (create_env io now p e v))) = db_entries (vt_db v)" for io now p e v
    by (simp add: create_env_def transact_def insert_env_def take_id_def split: option.split sum.split)
  then show ?thesis
    by (simp add: toy_vault_def fresh_tables)
qed

end
