(* ===== verification/Vault_Store_Claims.thy ===== *)
theory Vault_Store_Claims
  imports Vault_Refines Vault_Examples
begin

text \<open>
  The properties of the store of values: the tables stay well formed, and every operation
  implements one function on the map of values.
\<close>

section \<open>Every operation\<close>

lemma delete_envs_value:
  assumes ok: "db_ok (vt_db v)" and p: "find_project (vt_db v) project = Some pr" and ne: "name \<noteq> DefaultEnvName"
    and d: "delete_envs io (named_env (pj_id pr) name) v = (Inr n, v')"
  shows "own_value cl vk v' = without (\<lambda>k. fst k = \<lparr>sc_project = project, sc_env = name\<rparr>) (own_value cl vk v)"
    and "n = 0 \<Longrightarrow> v' = v"
proof -
  have g: "\<not> named_env (pj_id pr) name e \<longleftrightarrow> fst k \<noteq> \<lparr>sc_project = project, sc_env = name\<rparr>"
    if k: "own_path (vt_db v) k = Some (q, e, r)" for k q e r
  proof -
    have q: "find_project (vt_db v) (sc_project (fst k)) = Some q" "find_env (vt_db v) (pj_id q) (sc_env (fst k)) = Some e"
      using k by (auto simp: own_path_def bind_eq_Some_conv)
    have "q \<in> set (db_projects (vt_db v))" "pj_name q = sc_project (fst k)" "pr \<in> set (db_projects (vt_db v))" "pj_name pr = project"
      using find_project_Some [OF q(1)] find_project_Some [OF p] by auto
    moreover have "inj_on pj_id (set (db_projects (vt_db v)))" "inj_on pj_name (set (db_projects (vt_db v)))"
      using ok by (simp_all add: db_ok_def projects_ok_def ids_ok_def distinct_map)
    ultimately have "pj_id q = pj_id pr \<longleftrightarrow> sc_project (fst k) = project" by (metis inj_onD)
    moreover have "en_default e \<longleftrightarrow> en_name e = DefaultEnvName" "en_project e = pj_id q" "en_name e = sc_env (fst k)"
      using ok find_env_Some [OF q(2)] by (auto simp: db_ok_def envs_ok_def)
    ultimately show ?thesis using ne by (cases "fst k") (auto simp: named_env_def)
  qed
  note s = delete_and_sweep_value [OF ok _ _ _ d [unfolded delete_envs_def], where P = "\<lambda>_. True"
      and Q = "\<lambda>e. \<not> named_env (pj_id pr) name e" and R = "\<lambda>_. True" and gone = "\<lambda>k. fst k = \<lparr>sc_project = project, sc_env = name\<rparr>"]
  show "own_value cl vk v' = without (\<lambda>k. fst k = \<lparr>sc_project = project, sc_env = name\<rparr>) (own_value cl vk v)"
    by (rule s(1)) (simp_all add: keeps_all filter_none g)
  show "n = 0 \<Longrightarrow> v' = v" by (rule s(2)) (simp_all add: keeps_all filter_none g)
qed

lemma delete_env_implements:
  assumes ok: "db_ok (vt_db v)"
  shows "implements cl vk v (delete_env io p e v) (without (\<lambda>k. fst k = \<lparr>sc_project = p, sc_env = e\<rparr>))"
proof -
  have i: "implements cl vk v (case delete_envs io (named_env (pj_id pr) e) v of (Inl e, v) \<Rightarrow> (Inl e, v)
      | (Inr n, v) \<Rightarrow> (if n = 0 then Inl ErrEnvNotFound else Inr (), v)) (without (\<lambda>k. fst k = \<lparr>sc_project = p, sc_env = e\<rparr>))"
    if p: "find_project (vt_db v) p = Some pr" and ne: "e \<noteq> DefaultEnvName" for pr
    by (rule implements_delete)
      (use delete_envs_value [OF ok p ne] delete_and_sweep_Inl in \<open>auto simp: delete_envs_def [symmetric]\<close>,
        auto simp: delete_envs_def dest: delete_and_sweep_Inl)
  show ?thesis
    using i by (simp add: delete_env_def project_id_by_name_def split: option.splits)
qed

lemma delete_env_var_implements:
  assumes ok: "db_ok (vt_db v)"
  shows "implements cl vk v (delete_env_var io s n v) (\<lambda>m. m((s, n) := None))"
proof -
  have i: "implements cl vk v (case delete_entries io (\<lambda>m. nt_project m = pid \<and> nt_env m = eid \<and> nt_kind m = EnvVar \<and> nt_name m = n) v of
      (Inl e, v) \<Rightarrow> (Inl e, v) | (Inr n, v) \<Rightarrow> (if n = 0 then Inl ErrEntryNotFound else Inr (), v)) (\<lambda>m. m((s, n) := None))"
    if s: "env_at (vt_db v) s = Some (pid, eid)" for pid eid
  proof -
    have hit: "own_row (vt_db v) k = Some r \<Longrightarrow>
        (nt_project r = pid \<and> nt_env r = eid \<and> nt_kind r = EnvVar \<and> nt_name r = n) \<longleftrightarrow> k = (s, n)" for k r
      using own_row_where(1) [OF ok s, of k r n] own_row_at [of "vt_db v" k r] ok
      by (auto simp: at_row_def db_ok_def entries_ok_def)
    have w: "without (\<lambda>k. k = (s, n)) m = m((s, n) := None)" for m by (auto simp: without_def fun_eq_iff)
    show ?thesis
    proof (rule implements_delete)
      fix c v'
      assume d: "delete_entries io (\<lambda>m. nt_project m = pid \<and> nt_env m = eid \<and> nt_kind m = EnvVar \<and> nt_name m = n) v = (Inr c, v')"
      show "own_value cl vk v' = (own_value cl vk v)((s, n) := None)"
        using delete_entries_value(1) [OF ok hit d] w by simp
    next
      fix v'
      assume d: "delete_entries io (\<lambda>m. nt_project m = pid \<and> nt_env m = eid \<and> nt_kind m = EnvVar \<and> nt_name m = n) v = (Inr 0, v')"
      show "v' = v" using delete_entries_value(2) [OF ok hit d] by simp
    qed (simp add: delete_entries_def delete_and_sweep_Inl)
  qed
  show ?thesis using i by (simp add: delete_env_var_def scope_ids_Inr split: option.splits sum.splits prod.splits)
qed

lemma clear_implements:
  assumes ok: "db_ok (vt_db v)"
  shows "implements cl vk v (clear_env_vars io s v) (without (\<lambda>k. fst k = s))"
proof -
  have i: "implements cl vk v (delete_entries io (\<lambda>m. nt_project m = pid \<and> nt_env m = eid \<and> nt_kind m = EnvVar) v) (without (\<lambda>k. fst k = s))"
    if s: "env_at (vt_db v) s = Some (pid, eid)" for pid eid
  proof -
    have hit: "own_row (vt_db v) k = Some r \<Longrightarrow> (nt_project r = pid \<and> nt_env r = eid \<and> nt_kind r = EnvVar) \<longleftrightarrow> fst k = s" for k r
    proof -
      assume k: "own_row (vt_db v) k = Some r"
      have "nt_kind r = EnvVar" using own_row_at [OF k] ok by (auto simp: db_ok_def entries_ok_def)
      moreover have "fst k = s \<Longrightarrow> nt_project r = pid" using own_row_at [OF k] s by (auto simp: at_row_def)
      ultimately show ?thesis using own_row_where(2) [OF ok s k] by auto
    qed
    obtain r w where d: "delete_entries io (\<lambda>m. nt_project m = pid \<and> nt_env m = eid \<and> nt_kind m = EnvVar) v = (r, w)"
      by (metis surj_pair)
    show ?thesis
    proof (cases r)
      case (Inl e)
      then have "w = v" using d delete_and_sweep_Inl by (simp add: delete_entries_def)
      then show ?thesis using d Inl by simp
    next
      case (Inr c)
      then show ?thesis using d delete_entries_value(1) [OF ok hit d [unfolded Inr]] by (simp add: implements_def)
    qed
  qed
  show ?thesis using i by (simp add: clear_env_vars_def scope_ids_Inr split: option.splits sum.splits prod.splits)
qed

text \<open>New projects and environments hold nothing, renamed ones keep what they hold.\<close>

lemma own_value_rows: "own_row db = own_row (vt_db v) \<Longrightarrow> own_value cl vk (v\<lparr>vt_db := db\<rparr>) = own_value cl vk v"
  by (simp add: own_value_def fun_eq_iff)

lemma fresh_id: "ids_ok t db (map f xs) \<Longrightarrow> next_id t db \<notin> f ` set xs"
  by (force simp: ids_ok_def next_id_def)

lemma create_implements:
  assumes ok: "db_ok (vt_db v)"
  shows "implements cl vk v (create_project io now p v) (\<lambda>m. m)" and "implements cl vk v (create_env io now q e v) (\<lambda>m. m)"
proof -
  have f: "next_id TProjects (vt_db v) \<notin> pj_id ` set (db_projects (vt_db v))" "next_id TEnvs (vt_db v) \<notin> en_id ` set (db_envs (vt_db v))"
    using ok by (auto intro!: fresh_id simp: db_ok_def projects_ok_def envs_ok_def)
  have "own_row (insert_project now p (vt_db v)) = own_row (vt_db v)"
    by (rule own_row_grow [OF ok]) (use f in \<open>auto simp: insert_project_def insert_env_def take_id_def next_id_def Let_def\<close>)
  then show "implements cl vk v (create_project io now p v) (\<lambda>m. m)"
    by (auto simp: create_project_def intro!: implements_transact own_value_rows split: option.splits if_splits)
  have "own_row (insert_env now pid e False (vt_db v)) = own_row (vt_db v)" for pid
    by (rule own_row_grow [OF ok, where ps = "[]"]) (use f in \<open>auto simp: insert_env_def take_id_def\<close>)
  then show "implements cl vk v (create_env io now q e v) (\<lambda>m. m)"
    by (auto simp: create_env_def intro!: implements_transact own_value_rows split: option.splits if_splits sum.splits)
qed

lemma rename_project_implements:
  assumes ok: "db_ok (vt_db v)"
  shows "implements cl vk v (rename_project io now p q v) (value_step (VRenameProject p q))"
proof -
  have "own_value cl vk (v\<lparr>vt_db := db\<rparr>) = value_step (VRenameProject p q) (own_value cl vk v)"
    if "p \<noteq> q" and r: "rename_project_stmts now p q (vt_db v) = Inr (u, db)" for u db
  proof -
    have db: "db = (vt_db v)\<lparr>db_projects := map (\<lambda>x. if pj_name x = p then x\<lparr>pj_name := q, pj_updated := now\<rparr> else x)
        (db_projects (vt_db v))\<rparr>" and new: "find_project (vt_db v) q = None"
      using r by (auto simp: rename_project_stmts_def split: if_splits)
    have "own_row db (s, n) = (if sc_project s = p then None
        else if sc_project s = q then own_row (vt_db v) (s\<lparr>sc_project := p\<rparr>, n) else own_row (vt_db v) (s, n))" for s n
      by (rule own_row_rename_project [OF ok \<open>p \<noteq> q\<close> new, where f = "\<lambda>x. if pj_name x = p then x\<lparr>pj_name := q, pj_updated := now\<rparr> else x"])
        (simp_all add: db)
    then show ?thesis using \<open>p \<noteq> q\<close> by (auto simp: own_value_def fun_eq_iff)
  qed
  then show ?thesis
    by (cases "p = q") (auto simp: rename_project_def implements_id intro!: implements_transact simp del: value_step.simps(6)
        split: option.splits, simp_all add: implements_def)
qed

lemma rename_env_implements:
  assumes ok: "db_ok (vt_db v)"
  shows "implements cl vk v (rename_env io now p a b v) (value_step (VRenameEnv p a b))"
proof -
  have st: "own_value cl vk (v\<lparr>vt_db := db\<rparr>) = value_step (VRenameEnv p a b) (own_value cl vk v)"
    if ab: "a \<noteq> b" "a \<noteq> DefaultEnvName" and p: "find_project (vt_db v) p = Some pr"
      and r: "rename_env_stmts now (pj_id pr) a b (vt_db v) = Inr (u, db)" for pr u db
  proof -
    let ?f = "\<lambda>x. if named_env (pj_id pr) a x then x\<lparr>en_name := b, en_updated := now\<rparr> else x"
    have db: "db = (vt_db v)\<lparr>db_envs := map ?f (db_envs (vt_db v))\<rparr>" and new: "find_env (vt_db v) (pj_id pr) b = None"
      using r by (auto simp: rename_env_stmts_def split: if_splits)
    have "own_row db (s, n) = (if s = \<lparr>sc_project = p, sc_env = a\<rparr> then None
        else if s = \<lparr>sc_project = p, sc_env = b\<rparr> then own_row (vt_db v) (\<lparr>sc_project = p, sc_env = a\<rparr>, n) else own_row (vt_db v) (s, n))"
      for s n
    proof (rule own_row_rename_env [OF ok ab(1) p new, where f = ?f])
      show "en_id (?f x) = en_id x \<and> en_project (?f x) = en_project x \<and>
          en_name (?f x) = (if en_project x = pj_id pr \<and> en_name x = a then b else en_name x)"
        if "x \<in> set (db_envs (vt_db v))" for x
        using that ok ab(2) by (auto simp: named_env_def db_ok_def envs_ok_def)
    qed (simp_all add: db)
    then show ?thesis using ab(1) by (auto simp: own_value_def fun_eq_iff)
  qed
  have t: "implements cl vk v (transact io v (rename_env_stmts now (pj_id pr) a b (vt_db v))) (value_step (VRenameEnv p a b))"
    if "a \<noteq> b" "a \<noteq> DefaultEnvName" "find_project (vt_db v) p = Some pr" for pr
    using st [OF that] by (rule implements_transact)
  show ?thesis
  proof (cases "a = b")
    case True
    then show ?thesis by (simp add: rename_env_def implements_def split: option.splits)
  next
    case False
    then show ?thesis
      using t by (simp add: rename_env_def project_id_by_name_def del: value_step.simps split: option.splits)
  qed
qed

text \<open>A row sealed anew under another key holds the same value.\<close>

lemma reseal_value:
  assumes ok: "db_ok (vt_db v)" and r: "row_at (vt_db v) pid eid name = Some r"
    and old: "open_entry cl (vt_id v) vk (nt_aad r) pid eid EnvVar name (nt_value r) = Inr x"
    and new: "open_entry cl (vt_id v) vk ver pid eid EnvVar name ct = Inr x"
  shows "own_value cl vk (v\<lparr>vt_db := reseal_row pid eid name ct ver (vt_db v)\<rparr>) = own_value cl vk v"
proof
  fix k
  let ?f = "\<lambda>n. if nt_project n = pid \<and> nt_env n = eid \<and> nt_kind n = EnvVar \<and> nt_name n = name
      then n\<lparr>nt_value := ct, nt_aad := ver\<rparr> else n"
  have row: "own_row (reseal_row pid eid name ct ver (vt_db v)) k = map_option ?f (own_row (vt_db v) k)"
    by (rule own_row_map) (simp_all add: reseal_row_def)
  have same: "open_row cl (vt_id v) vk (?f n) = open_row cl (vt_id v) vk n" if n: "n \<in> set (db_entries (vt_db v))" for n
  proof (cases "at_row pid eid name n \<and> nt_kind n = EnvVar")
    case True
    then have "n = r" using row_at_the [OF _ n] r ok by (simp add: db_ok_def at_row_def)
    then show ?thesis using True old new by (simp add: open_row_def at_row_def)
  qed (auto simp: at_row_def)
  show "own_value cl vk (v\<lparr>vt_db := reseal_row pid eid name ct ver (vt_db v)\<rparr>) k = own_value cl vk v k"
  proof (cases "own_row (vt_db v) k")
    case None
    then show ?thesis by (simp add: own_value_def row)
  next
    case (Some n)
    then show ?thesis using same [of n] own_row_at [OF Some] unfolding own_value_db row by (auto simp: own_value_def)
  qed
qed

lemma fetched_row:
  assumes ok: "db_ok (vt_db v)" and f: "fetch_entry io (vt_db v) pid eid EnvVar name = Inr (Some r)"
  shows "row_at (vt_db v) pid eid name = Some r" and "nt_kind r = EnvVar" and "nt_name r = name"
proof -
  have "load_error io = None" using f by (auto simp: fetch_entry_def split: option.splits)
  then show r: "row_at (vt_db v) pid eid name = Some r" using f ok fetch_entry_row [of "vt_db v" io] by (simp add: db_ok_def)
  then show "nt_kind r = EnvVar" "nt_name r = name"
    using ok row_at_Some [OF r] by (auto simp: db_ok_def entries_ok_def at_row_def)
qed

lemma sealed_entry_opens:
  assumes "aead_works cl" and "\<And>n. draw = Some n \<Longrightarrow> length n = 24" and "seal_entry cl vid draw key pid eid kind name x = Inr ct"
  shows "open_entry cl vid key currentAADVersion pid eid kind name ct = Inr x" and "length ct = length x + 41"
proof -
  obtain n where n: "draw = Some n" using assms(3) by (cases draw) (auto simp: seal_entry_Inr encrypt_with_aad_def split: if_splits)
  show "open_entry cl vid key currentAADVersion pid eid kind name ct = Inr x" "length ct = length x + 41"
    using sealed_opens [OF assms(1) assms(3) [unfolded n] assms(2) [OF n]] by auto
qed

lemma seal_unattended_implements:
  assumes cl: "aead_works cl" and ok: "db_ok (vt_db v)" and draw: "\<And>n. draw = Some n \<Longrightarrow> length n = 24"
  shows "implements cl vk v (seal_unattended_with_key cl io draw vk s name v) (\<lambda>m. m)"
proof -
  have t: "implements cl vk v (transact io v (Inr (True, reseal_row pid eid name ct currentAADVersion (vt_db v)))) (\<lambda>m. m)"
    if f: "fetch_entry io (vt_db v) pid eid EnvVar name = Inr (Some r)"
      and o: "open_entry cl (vt_id v) vk (nt_aad r) pid eid EnvVar name (nt_value r) = Inr pt"
      and c: "seal_entry cl (vt_id v) draw vk pid eid EnvVar name pt = Inr ct" for pid eid r pt ct
    using reseal_value [OF ok fetched_row(1) [OF ok f] o sealed_entry_opens(1) [OF cl draw c]]
    by (intro implements_transact) simp
  show ?thesis
    using t by (simp add: seal_unattended_with_key_def implements_id split: sum.splits option.splits prod.splits)
qed

text \<open>Capturing keys seals legacy rows anew, and changes no value.\<close>

lemma inherited_row:
  assumes ok: "db_ok (vt_db v)" and f: "fetch_inherited io (vt_db v) pid eid se name = Inr (Some (r, e))"
  shows "row_at (vt_db v) pid e name = Some r" and "nt_name r = name"
proof -
  have "fetch_entry io (vt_db v) pid e EnvVar name = Inr (Some r)"
    using f by (auto simp: fetch_inherited_def split: sum.splits option.splits if_splits)
  then show "row_at (vt_db v) pid e name = Some r" "nt_name r = name" using fetched_row [OF ok] by blast+
qed

lemma capture_one_value:
  assumes cl: "aead_works cl" and ok: "db_ok (vt_db v)" and draw: "\<And>n. draw = Some n \<Longrightarrow> length n = 24"
  shows "own_value cl vk (snd (capture_one cl io draw vk pid eid se name v)) = own_value cl vk v"
proof -
  have t: "own_value cl vk (snd (transact io v (Inr (Some krow, reseal_row pid e name ct aadVersionEnvKey (vt_db v))))) = own_value cl vk v"
    if f: "fetch_inherited io (vt_db v) pid eid se name = Inr (Some (r, e))" and a: "nt_aad r = aadVersionVaultKey"
      and k: "row_key_of cl (vt_id v) vk pid e r name = Inr krow"
      and o: "open_entry cl (vt_id v) vk (nt_aad r) pid e EnvVar name (nt_value r) = Inr pt"
      and c: "encrypt_with_aad cl draw krow pt (entry_aad_v3 (vt_id v) pid e EnvVar name) = Inr ct" for r e krow pt ct
  proof -
    have "seal_entry cl (vt_id v) draw vk pid e EnvVar name pt = Inr ct"
      using k a c by (simp add: row_key_of_def aad_versions seal_entry_Inr)
    from sealed_entry_opens(1) [OF cl draw this]
    have "own_value cl vk (v\<lparr>vt_db := reseal_row pid e name ct aadVersionEnvKey (vt_db v)\<rparr>) = own_value cl vk v"
      using reseal_value [OF ok inherited_row(1) [OF ok f] o] by (simp add: currentAADVersion_def)
    then show ?thesis by (auto simp: transact_def split: option.splits)
  qed
  show ?thesis
    using t by (simp add: capture_one_def split: sum.splits option.splits prod.splits)
qed

lemma capture_loop_value:
  assumes cl: "aead_works cl" and draws: "nonces_ok draws"
  shows "db_ok (vt_db v) \<Longrightarrow> own_value cl vk (snd (capture_loop cl io draws vk pid eid se out names v)) = own_value cl vk v"
proof (induction names arbitrary: out v)
  case (Cons name names)
  obtain r v' where c: "capture_one cl io (draws name) vk pid eid se name v = (r, v')" by fastforce
  have "db_ok (vt_db v')" using capture_one_ok [OF Cons.prems, of cl io "draws name" vk pid eid se name] c by simp
  moreover have "own_value cl vk v' = own_value cl vk v"
    using capture_one_value [OF cl Cons.prems, of "draws name" vk io pid eid se name] draws c by (simp add: nonces_ok_def)
  ultimately show ?case using c Cons.IH by (auto split: option.splits sum.splits)
qed simp

lemma rename_env_var_implements:
  assumes cl: "aead_works cl" and ok: "db_ok (vt_db v)" and draw: "\<And>n. draw = Some n \<Longrightarrow> length n = 24"
    and key: "vt_key v = None \<or> vt_key v = Some vk"
  shows "implements cl vk v (rename_env_var cl io now draw s a b v) (value_step (VRename s a b))"
proof -
  have t: "implements cl vk v (transact io v (rename_stmts cl io now draw vk pid eid a b v)) (value_step (VRename s a b))"
    if ab: "a \<noteq> b" and s: "env_at (vt_db v) s = Some (pid, eid)" for pid eid
  proof (rule implements_transact)
    fix u db
    assume r: "rename_stmts cl io now draw vk pid eid a b v = Inr (u, db)"
    let ?f = "\<lambda>ct n. if nt_project n = pid \<and> nt_env n = eid \<and> nt_kind n = EnvVar \<and> nt_name n = a
        then n\<lparr>nt_name := b, nt_value := ct, nt_aad := currentAADVersion, nt_updated := now\<rparr> else n"
    obtain row pt ct where x: "row_at (vt_db v) pid eid b = None" "fetch_entry io (vt_db v) pid eid EnvVar a = Inr (Some row)"
        "open_entry cl (vt_id v) vk (nt_aad row) pid eid EnvVar a (nt_value row) = Inr pt"
        "seal_entry cl (vt_id v) draw vk pid eid EnvVar b pt = Inr ct" "db = (vt_db v)\<lparr>db_entries := map (?f ct) (db_entries (vt_db v))\<rparr>"
      using r by (auto simp: rename_stmts_def split: if_splits sum.splits option.splits)
    note row = fetched_row [OF ok x(2)]
    have kinds: "n \<in> set (db_entries (vt_db v)) \<Longrightarrow> nt_kind n = EnvVar" for n using ok by (auto simp: db_ok_def entries_ok_def)
    have "own_row db = (own_row (vt_db v))((s, a) := None, (s, b) \<mapsto> ?f ct row)"
    proof (rule own_row_rename [OF ok s ab, where f = "?f ct"])
      show "own_row (vt_db v) (s, a) = Some row" "own_row (vt_db v) (s, b) = None"
        using row(1) x(1) own_row_the [OF s] by simp_all
    qed (auto simp: x(5) kinds at_row_def)
    moreover have w: "nt_project row = pid" "nt_env row = eid" using row_at_Some [OF row(1)] by (auto simp: at_row_def)
    have "open_row cl (vt_id v) vk (?f ct row) = Some pt"
      using sealed_entry_opens(1) [OF cl draw x(4)] row w by (simp add: open_row_def)
    moreover have "own_value cl vk v (s, a) = Some pt"
      using own_value_row [OF s row(1), of cl vk pt] x(3) row by simp
    ultimately show "own_value cl vk (v\<lparr>vt_db := db\<rparr>) = value_step (VRename s a b) (own_value cl vk v)"
      using ab by (auto simp: fun_eq_iff own_value_def)
  qed
  show ?thesis
  proof (cases "a = b")
    case True
    then show ?thesis by (simp add: rename_env_var_def implements_def split: option.splits)
  next
    case False
    then show ?thesis
      using t key by (auto simp: rename_env_var_def scope_ids_Inr simp del: value_step.simps split: option.splits sum.splits prod.splits)
  qed
qed

lemma captures_value:
  assumes "aead_works cl" and "nonces_ok draws" and "db_ok (vt_db v)"
  shows "own_value cl vk (snd (capture_row_keys_with_key cl io draws vk s names v)) = own_value cl vk v"
  using capture_loop_value [OF assms] by (simp add: capture_row_keys_with_key_def split: sum.splits prod.splits)

section \<open>The store as a map\<close>

lemma value_step_eqs:
  "value_step (VPut s n x c) = (\<lambda>m. m((s, n) \<mapsto> x))" "value_step (VPutPassword pw s n x c) = (\<lambda>m. m((s, n) \<mapsto> x))"
  "value_step (VPutAuthored s n x k c) = (\<lambda>m. m((s, n) \<mapsto> x))" "value_step (VDeleteProject p) = without (\<lambda>k. sc_project (fst k) = p)"
  "value_step (VDeleteEnv p e) = without (\<lambda>k. fst k = \<lparr>sc_project = p, sc_env = e\<rparr>)" "value_step (VDelete s n) = (\<lambda>m. m((s, n) := None))"
  "value_step (VClear s) = without (\<lambda>k. fst k = s)" "value_step (VCreateProject p) = (\<lambda>m. m)" "value_step (VCreateEnv p e) = (\<lambda>m. m)"
  "value_step (VCapture s ns) = (\<lambda>m. m)" "value_step (VCapturePassword pw s ns) = (\<lambda>m. m)"
  "value_step (VSealUnattended s n) = (\<lambda>m. m)" "value_step (VUnlock pw) = (\<lambda>m. m)" "value_step VLock = (\<lambda>m. m)"
  by (simp_all add: fun_eq_iff)

lemma run_vault_op_implements:
  assumes cl: "aead_works cl" and ok: "db_ok (vt_db v)" and key: "holds_key cl vk v" and draws: "nonces_ok draws"
    and fits: "op_fits cl io vk v op"
  shows "implements cl vk v (run_vault_op cl io now draws op v) (value_step op)"
proof -
  have draw: "draws n = Some x \<Longrightarrow> length x = 24" for n x using draws by (auto simp: nonces_ok_def)
  have mem: "vt_key v = None \<or> vt_key v = Some vk" and pw: "unwrap_vault_key cl p v = Inr k \<Longrightarrow> k = vk" for p k
    using key by (auto simp: holds_key_def)
  have cap: "implements cl vk v (outcome (capture_row_keys_with_key cl io draws vk s ns v)) (\<lambda>m. m)" for s ns
    using captures_value [OF cl draws ok] by (simp add: outcome_def implements_id)
  have seal: "implements cl vk v (outcome (seal_unattended_with_key cl io (draws n) vk s n v)) (\<lambda>m. m)" for s n
    unfolding implements_outcome by (rule seal_unattended_implements [OF cl ok draw])
  have v: "own_value cl vk (v\<lparr>vt_key := k\<rparr>) = own_value cl vk v" for k by (simp add: own_value_def fun_eq_iff)
  have err: "outcome (Inl e, v) = (Inl e, v)" for e by (simp add: outcome_def)
  note put = put_with_key_implements [OF cl ok draw]
  show ?thesis
  proof (cases op)
    case (VPut s n x c)
    then show ?thesis using put mem by (auto simp: value_step_eqs put_env_var_def split: option.splits)
  next
    case (VPutPassword p s n x c)
    then show ?thesis using put pw by (auto simp: value_step_eqs put_env_var_with_password_def split: option.splits sum.splits)
  next
    case (VPutAuthored s n x k c)
    then show ?thesis
      using put_authored_implements [OF cl ok draw] fits key by (auto simp: value_step_eqs op_fits_def holds_key_def)
  next
    case (VRenameProject p q)
    then show ?thesis using rename_project_implements [OF ok] by (simp del: value_step.simps)
  next
    case (VRenameEnv p a b)
    then show ?thesis using rename_env_implements [OF ok] by (simp del: value_step.simps)
  next
    case (VRename s a b)
    then show ?thesis using rename_env_var_implements [OF cl ok draw mem] by (simp del: value_step.simps)
  next
    case (VCapture s ns)
    then show ?thesis using cap mem by (auto simp: value_step_eqs capture_row_keys_def err)
  next
    case (VCapturePassword p s ns)
    then show ?thesis using cap pw by (auto simp: value_step_eqs capture_row_keys_with_password_def err split: sum.splits)
  next
    case (VSealUnattended s n)
    then show ?thesis using seal mem by (auto simp: value_step_eqs seal_unattended_def err)
  next
    case (VUnlock p)
    then show ?thesis by (auto simp: value_step_eqs unlock_vault_def v implements_id split: sum.splits)
  next
    case VLock
    then show ?thesis by (simp add: value_step_eqs lock_vault_def v implements_id)
  qed (simp_all add: value_step_eqs create_implements [OF ok] delete_project_implements [OF ok] delete_env_implements [OF ok]
    delete_env_var_implements [OF ok] clear_implements [OF ok] implements_outcome)
qed

text \<open>
  C8. A vault is a map from scope and name to value. Whatever an operation does to the tables, keys
  and ciphertexts, if it succeeds the values are those of its function on the map: a put stores one
  value and touches no other, a rename moves one, deleting or renaming a project or an environment
  takes or moves exactly its values, capturing keys, sealing a value taken in unattended, locking and
  unlocking change none. If it fails, with any error of any layer, no value changes.
\<close>

theorem vault_is_a_map:
  assumes "aead_works cl" and "db_ok (vt_db v)" and "holds_key cl vk v" and "nonces_ok draws" and "op_fits cl io vk v op"
  shows "case run_vault_op cl io now draws op v of
      (Inr _, v') \<Rightarrow> own_value cl vk v' = value_step op (own_value cl vk v)
    | (Inl _, v') \<Rightarrow> own_value cl vk v' = own_value cl vk v"
proof (cases "run_vault_op cl io now draws op v")
  case (Pair r v')
  then show ?thesis using run_vault_op_implements [OF assms, of now] by (cases r) (simp_all add: implements_def)
qed

lemma toy_holds: "holds_key toy_crypto toy_key toy_vault"
  by (simp add: holds_key_def toy_key_def unwrap_vault_key_def toy_vault_def fresh_vault_def create_env_def transact_def io_ok_def
      validate_project_name_def validate_env_name_def project_id_by_name_def toy_unwraps as_vault_def split: option.splits)

lemma vault_is_a_map_witness:
  "case run_vault_op toy_crypto io_ok 5 (\<lambda>_. Some toy_nonce) (VPut toy_prod ''TOKEN'' ''abc'' False) toy_vault of
      (Inr _, v') \<Rightarrow> own_value toy_crypto toy_key v' = value_step (VPut toy_prod ''TOKEN'' ''abc'' False) (own_value toy_crypto toy_key toy_vault)
    | (Inl _, v') \<Rightarrow> own_value toy_crypto toy_key v' = own_value toy_crypto toy_key toy_vault"
  by (rule vault_is_a_map [OF toy_works toy_vault_ok toy_holds]) (simp_all add: nonces_ok_def toy_nonce_def op_fits_def)

text \<open>
  C9. Whatever is done to a fresh vault, in any order, with any failures of the database, any nonces
  and passwords, its tables stay well formed: ids and names are unique, every project has its default
  environment, an environment is the default exactly if it is named so, every value belongs to an
  existing environment of its own project, and no id is handed out twice.
\<close>

theorem vault_stays_well_formed: "db_ok (vt_db (run_vault cl calls (fresh_vault now seed vaultID name wrapped)))"
  by (rule run_vault_ok) (simp add: fresh_vault_def ok_fresh)

end
