(* ===== verification/Vault_Read_Claims.thy ===== *)
theory Vault_Read_Claims
  imports Vault_Store_Claims
begin

text \<open>
  The properties of reading: what was put is what is read, a listing says what reading finds, and a
  ciphertext opens only where it was sealed.
\<close>

section \<open>Put, then get\<close>

lemma visible_own:
  assumes ok: "db_ok db"
  shows "visible_row db s n =
    (case own_row db (s, n) of Some r \<Rightarrow> Some (nt_project r, nt_env r, r, SourceScope)
     | None \<Rightarrow> if env_at db s = None \<or> sc_env s = DefaultEnvName then None
         else map_option (\<lambda>r. (nt_project r, nt_env r, r, SourceDefault)) (own_row db (default_scope s, n)))"
proof (cases "env_at db s")
  case None
  then show ?thesis by (simp add: visible_row_def own_row_def)
next
  case (Some q)
  obtain pid eid where s: "env_at db s = Some (pid, eid)" using Some by (cases q) auto
  obtain d where d: "find_env db pid DefaultEnvName = Some d" "env_at db (default_scope s) = Some (pid, en_id d)"
    using default_env_at [OF ok s] unfolding default_scope_def by blast
  have r: "row_at db p e n = Some r \<Longrightarrow> nt_project r = p \<and> nt_env r = e" for p e r
    using row_at_Some [of db p e n r] by (simp add: at_row_def)
  show ?thesis
    unfolding visible_row_def own_row_def fst_conv snd_conv s d option.case prod.case
    using r [of pid eid] r [of pid "en_id d"]
    by (cases "row_at db pid eid n"; cases "row_at db pid (en_id d) n") simp_all
qed

lemma env_at_default: "db_ok db \<Longrightarrow> env_at db s = Some (pid, eid) \<Longrightarrow> env_at db (default_scope s) \<noteq> None"
  using default_env_at [of db s pid eid] unfolding default_scope_def by (metis option.distinct(1))

lemma scope_ids_cong:
  "db_projects db' = db_projects db \<Longrightarrow> db_envs db' = db_envs db \<Longrightarrow> scope_ids io db' s = scope_ids io db s"
  by (simp add: scope_ids_def project_id_by_name_def env_id_by_name_def find_project_def find_env_def split: option.splits sum.splits)

lemma put_env_var_cases:
  assumes "put_env_var cl io now draw s n x c v = (Inr (), v')"
  obtains vk pid eid ct where "vt_key v = Some vk" and "env_at (vt_db v) s = Some (pid, eid)" and "checked_name s n = None"
    and "seal_entry cl (vt_id v) draw vk pid eid EnvVar n x = Inr ct"
    and "v' = v\<lparr>vt_db := upsert_env_var now pid eid n ct currentAADVersion (vt_db v)\<rparr>"
  using assms
  by (auto simp: put_env_var_def put_with_key_def scope_ids_Inr write_env_var_def transact_Inr
      split: option.splits if_splits sum.splits prod.splits)

definition put_changes :: "vault_scope \<Rightarrow> string \<Rightarrow> vault_scope \<Rightarrow> string \<Rightarrow> bool" where
  "put_changes s n s' n' \<longleftrightarrow> n' = n \<and> (s' = s \<or> sc_project s' = sc_project s \<and> sc_env s = DefaultEnvName)"

text \<open>A read that looks neither at the row written nor through it is not changed.\<close>

lemma put_keeps_others:
  assumes ok: "db_ok (vt_db v)" and ok': "db_ok (vt_db v')" and io': "load_error io' = None" and id: "vt_id v' = vt_id v"
    and env: "env_at (vt_db v') = env_at (vt_db v)" and tables: "db_projects (vt_db v') = db_projects (vt_db v)" "db_envs (vt_db v') = db_envs (vt_db v)"
    and own: "own_row (vt_db v') = (own_row (vt_db v))((s, n) \<mapsto> r)" and nc: "\<not> put_changes s n s' n'"
  shows "get_with_key cl io' vk s' n' v' = get_with_key cl io' vk s' n' v"
proof (cases "env_at (vt_db v) s'")
  case None
  have "scope_ids io' (vt_db v') s' = scope_ids io' (vt_db v) s'" using tables by (intro scope_ids_cong)
  moreover have "scope_ids io' (vt_db v) s' \<noteq> Inr (a, b)" for a b using None by (simp add: scope_ids_Inr)
  ultimately show ?thesis by (cases "scope_ids io' (vt_db v) s'") (auto simp: get_with_key_def)
next
  case (Some q)
  then obtain a b where ab: "env_at (vt_db v) s' = Some (a, b)" by (cases q) auto
  have "(s', n') \<noteq> (s, n)" using nc by (auto simp: put_changes_def)
  moreover have "(default_scope s', n') \<noteq> (s, n)"
    using nc by (cases s) (auto simp: put_changes_def default_scope_def)
  ultimately have "own_row (vt_db v') (s', n') = own_row (vt_db v) (s', n')"
      "own_row (vt_db v') (default_scope s', n') = own_row (vt_db v) (default_scope s', n')"
    by (simp_all only: own fun_upd_apply if_False simp_thms)
  then have "visible_row (vt_db v') s' n' = visible_row (vt_db v) s' n'"
    by (simp only: visible_own [OF ok'] visible_own [OF ok] env)
  then show ?thesis
    using get_visible [OF ok' io', of s' a b] get_visible [OF ok io' ab] ab by (simp add: env id cong: option.case_cong)
qed

text \<open>
  C10. After a successful put, in whatever order and however often values were put before, a read of
  that scope and name returns exactly the value put, from the scope itself, stamped with the time of
  the put; locking the vault and reading with the password returns the same. Every other read returns
  what it returned before, a missing entry or an error included, unless it falls back to the default
  environment that was written.
\<close>

theorem put_then_get:
  assumes cl: "aead_works cl" and ok: "db_ok (vt_db v)" and nonce: "length nonce = 24" and io': "load_error io' = None"
    and put: "put_env_var cl io now (Some nonce) s n x c v = (Inr (), v')"
  shows "(\<exists>e. get_env_var cl io' s n v' = Inr e \<and> nv_name e = n \<and> nv_value e = x \<and> nv_source e = SourceScope \<and> nv_updated e = now \<and>
        (\<forall>pw. unwrap_vault_key cl pw v = Inr (the (vt_key v)) \<longrightarrow> get_env_var_with_password cl io' pw s n (lock_vault v') = Inr e))
    \<and> (\<forall>s' n'. \<not> put_changes s n s' n' \<longrightarrow> get_env_var cl io' s' n' v' = get_env_var cl io' s' n' v)"
proof -
  obtain vk pid eid ct where p: "vt_key v = Some vk" "env_at (vt_db v) s = Some (pid, eid)" "checked_name s n = None"
      "seal_entry cl (vt_id v) (Some nonce) vk pid eid EnvVar n x = Inr ct"
      "v' = v\<lparr>vt_db := upsert_env_var now pid eid n ct currentAADVersion (vt_db v)\<rparr>"
    using put_env_var_cases [OF put] by blast
  obtain r where r: "nt_project r = pid" "nt_env r = eid" "nt_kind r = EnvVar" "nt_name r = n" "nt_value r = ct"
      "nt_aad r = currentAADVersion" "nt_updated r = now" "own_row (vt_db v') = (own_row (vt_db v))((s, n) \<mapsto> r)"
    using own_row_upsert [OF ok p(2), of n ct currentAADVersion now] p(5) by auto
  have ok': "db_ok (vt_db v')" using ok_upsert [OF ok p(2)] p(5) by simp
  have env: "env_at (vt_db v') = env_at (vt_db v)" using p(5) by (simp add: fun_eq_iff)
  have o: "open_entry cl (vt_id v) vk currentAADVersion pid eid EnvVar n ct = Inr x"
    using sealed_opens(1) [OF cl p(4) nonce] .
  have vis: "visible_row (vt_db v') s n = Some (pid, eid, r, SourceScope)"
    by (simp add: visible_own [OF ok'] r)
  let ?e = "\<lparr>nv_name = n, nv_value = x, nv_kind = EnvVar, nv_source = SourceScope, nv_created = nt_created r, nv_updated = now\<rparr>"
  have g: "get_with_key cl io' vk s n w = Inr ?e" if "vt_db w = vt_db v'" "vt_id w = vt_id v" for w
    using get_visible [of w io' s pid eid] ok' env p(2) io' vis o r that by (simp add: decrypt_entry_def)
  have get: "get_env_var cl io' s n v' = Inr ?e" using g [of v'] p by (simp add: get_env_var_def)
  have get_pw: "get_env_var_with_password cl io' pw s n (lock_vault v') = Inr ?e"
    if "unwrap_vault_key cl pw v = Inr (the (vt_key v))" for pw
  proof -
    have "unwrap_vault_key cl pw (lock_vault v') = Inr vk" using that p(1,5) by (simp add: unwrap_vault_key_def lock_vault_def)
    then show ?thesis using g [of "lock_vault v'"] p(3,5) by (simp add: get_env_var_with_password_def lock_vault_def)
  qed
  have other: "get_with_key cl io' vk s' n' v' = get_with_key cl io' vk s' n' v" if "\<not> put_changes s n s' n'" for s' n'
    by (rule put_keeps_others [OF ok ok' io' _ env _ _ r(8) that]) (simp_all add: p(5))
  then have "get_env_var cl io' s' n' v' = get_env_var cl io' s' n' v" if "\<not> put_changes s n s' n'" for s' n'
  proof -
    have "vt_key v' = Some vk" using p(1,5) by simp
    then show ?thesis using other [OF that] p(1) by (simp add: get_env_var_def split: option.splits)
  qed
  then show ?thesis using get get_pw by auto
qed

lemma put_succeeds:
  assumes "load_error io = None" and "save_error io = None" and "checked_name s n = None" and "length x \<le> MaxValueLen"
    and "vt_key v = Some vk" and "length vk = 32" and "env_at (vt_db v) s = Some (pid, eid)" and "aead_works cl"
  shows "\<exists>v'. put_env_var cl io now (Some nonce) s n x False v = (Inr (), v')"
proof -
  obtain k where k: "v3_row_key cl (vt_id v) vk pid eid EnvVar n = Inr k" using v3_row_key_total [OF assms(8,6)] by blast
  then have "length k = 32" by (rule v3_row_key_length [OF assms(8)])
  then obtain ct where "seal_entry cl (vt_id v) (Some nonce) vk pid eid EnvVar n x = Inr ct"
    using k encrypt_ok by (metis seal_entry_Inr)
  moreover have "scope_ids io (vt_db v) s = Inr (pid, eid)" using assms(1,7) by (simp add: scope_ids_Inr)
  ultimately show ?thesis using assms by (simp add: put_env_var_def put_with_key_def write_env_var_def transact_def)
qed

lemma toy_envs: "env_at (vt_db toy_vault) toy_default = Some (1, 1)" "env_at (vt_db toy_vault) toy_prod = Some (1, 2)"
proof -
  have n: "vault_name_re ''default''" "vault_name_re ''prod''" by code_simp+
  show "env_at (vt_db toy_vault) toy_default = Some (1, 1)" "env_at (vt_db toy_vault) toy_prod = Some (1, 2)"
    by (simp_all add: toy_vault_def fresh_vault_def create_env_def bootstrap_defaults_def create_schema_def insert_project_def
        insert_env_def take_id_def next_id_def Let_def validate_project_name_def validate_env_name_def DefaultProjectName_def
        DefaultEnvName_def project_id_by_name_def find_project_def find_env_def transact_def n env_at_def toy_default_def toy_prod_def)
qed

lemma create_env_keeps:
  "vt_key (snd (create_env io now p e v)) = vt_key v" "vt_id (snd (create_env io now p e v)) = vt_id v"
  "vt_wrapped (snd (create_env io now p e v)) = vt_wrapped v"
proof -
  have t: "vt_key (snd (transact io v r)) = vt_key v" "vt_id (snd (transact io v r)) = vt_id v"
      "vt_wrapped (snd (transact io v r)) = vt_wrapped v" for io v and r :: "vault_error + 'a \<times> vault_db"
    by (simp_all add: transact_def split: option.split sum.split prod.split)
  show "vt_key (snd (create_env io now p e v)) = vt_key v" "vt_id (snd (create_env io now p e v)) = vt_id v"
      "vt_wrapped (snd (create_env io now p e v)) = vt_wrapped v"
    by (simp_all add: create_env_def t split: option.split sum.split)
qed

lemma toy_vault_key: "vt_key toy_vault = Some toy_key" "vt_id toy_vault = ''id''" "vt_wrapped toy_vault = Some toy_wrapped"
  by (simp_all add: toy_vault_def create_env_keeps fresh_vault_def)

lemma toy_names: "checked_name toy_default ''TOKEN'' = None" "checked_name toy_prod ''TOKEN'' = None"
proof -
  have n: "vault_name_re ''default''" "vault_name_re ''prod''" by code_simp+
  have e: "entry_name_ok ''TOKEN''" by (simp add: entry_name_ok_def MaxNameLen_def)
  show "checked_name toy_default ''TOKEN'' = None" "checked_name toy_prod ''TOKEN'' = None"
    by (simp_all add: checked_name_def scope_validate_def validate_project_name_def validate_env_name_def toy_default_def
        toy_prod_def n e)
qed

lemma toy_puts:
  assumes "s = toy_default \<or> s = toy_prod" and "length x \<le> MaxValueLen"
  shows "\<exists>v'. put_env_var toy_crypto io_ok 5 (Some toy_nonce) s ''TOKEN'' x False toy_vault = (Inr (), v')"
  using assms toy_envs toy_names
  by (auto intro!: put_succeeds [OF _ _ _ _ toy_vault_key(1) _ _ toy_works] simp: toy_key_def)

lemma put_then_get_witness:
  "\<exists>v' e. put_env_var toy_crypto io_ok 5 (Some toy_nonce) toy_prod ''TOKEN'' ''abc'' False toy_vault = (Inr (), v') \<and>
    get_env_var toy_crypto io_ok toy_prod ''TOKEN'' v' = Inr e \<and> nv_value e = ''abc''"
proof -
  obtain v' where v': "put_env_var toy_crypto io_ok 5 (Some toy_nonce) toy_prod ''TOKEN'' ''abc'' False toy_vault = (Inr (), v')"
    using toy_puts [of toy_prod "''abc''"] by (auto simp: MaxValueLen_def)
  show ?thesis
    using put_then_get [OF toy_works toy_vault_ok _ io_ok_simps(1) v'] v' by (auto simp: toy_nonce_def)
qed

section \<open>Moving a ciphertext\<close>

lemma open_version3:
  assumes "open_entry cl vid vk aadVersionEnvKey pid eid kind name ct = Inr x"
  obtains k where "v3_row_key cl vid vk pid eid kind name = Inr k" and "decrypt_with_aad cl k ct (entry_aad_v3 vid pid eid kind name) = Inr x"
  using assms by (auto simp: open_entry_def aad_versions as_vault_def split: sum.splits)

text \<open>
  C11. A value sealed for one project, environment, kind and name does not open as any other: were a
  row's ciphertext copied under another name, into another environment or project of the same vault,
  or read as a file instead of a variable, opening it would be a forgery of the cipher (one
  ciphertext valid under two keys or contexts).
\<close>

theorem ciphertext_stays_in_its_row:
  assumes cl: "aead_works cl" and nonce: "length nonce = 24"
    and sealed: "seal_entry cl vid (Some nonce) vk pid eid kind name x = Inr ct"
    and opened: "open_entry cl vid vk aadVersionEnvKey pid' eid' kind' name' ct = Inr x'"
    and other: "(pid', eid', kind', name') \<noteq> (pid, eid, kind, name)"
  shows "\<exists>k k'. v3_row_key cl vid vk pid eid kind name = Inr k \<and> v3_row_key cl vid vk pid' eid' kind' name' = Inr k' \<and>
    aead_forged cl k (build_aad (entry_aad_v3 vid pid eid kind name)) k' (build_aad (entry_aad_v3 vid pid' eid' kind' name'))"
proof -
  obtain k where k: "v3_row_key cl vid vk pid eid kind name = Inr k"
      "encrypt_with_aad cl (Some nonce) k x (entry_aad_v3 vid pid eid kind name) = Inr ct"
    using sealed by (auto simp: seal_entry_Inr)
  obtain k' where k': "v3_row_key cl vid vk pid' eid' kind' name' = Inr k'"
      "decrypt_with_aad cl k' ct (entry_aad_v3 vid pid' eid' kind' name') = Inr x'"
    using open_version3 [OF opened] .
  have "entry_aad_v3 vid pid eid kind name \<noteq> entry_aad_v3 vid pid' eid' kind' name'"
    using entry_aad_v3_inj other by (metis prod.inject)
  then show ?thesis
    using moved_ciphertext [OF cl v3_row_key_length [OF cl k(1)] v3_row_key_length [OF cl k'(1)] nonce k(2) k'(2)] k(1) k'(1) by blast
qed

lemma ciphertext_stays_in_its_row_witness:
  "\<exists>ct. seal_entry toy_crypto ''id'' (Some toy_nonce) toy_key 1 1 EnvVar ''TOKEN'' ''abc'' = Inr ct \<and>
    open_entry toy_crypto ''id'' toy_key aadVersionEnvKey 1 2 EnvVar ''TOKEN'' ct = Inr ''abc'' \<and>
    (\<exists>k k'. aead_forged toy_crypto k (build_aad (entry_aad_v3 ''id'' 1 1 EnvVar ''TOKEN''))
       k' (build_aad (entry_aad_v3 ''id'' 1 2 EnvVar ''TOKEN'')))"
proof -
  have d: "int_dec 1 = ''1''" "int_dec 2 = ''2''" by code_simp+
  define ct where "ct = CHR 0x01 # toy_nonce @ ''abc'' @ toy_tag (build_aad (entry_aad_v3 ''id'' 1 1 EnvVar ''TOKEN''))"
  have s: "seal_entry toy_crypto ''id'' (Some toy_nonce) toy_key 1 1 EnvVar ''TOKEN'' ''abc'' = Inr ct"
    by (simp add: seal_entry_def v3_row_key_def env_key_def derive_env_key_def derive_row_key_from_env_key_def derive_from_def
        expand_key_def VaultKeySize_def toy_key_def aead_lengths [OF toy_works] encrypt_with_aad_def ct_def EncryptFormatVersion_def)
      (simp add: toy_crypto_def)
  have "toy_tag (build_aad (entry_aad_v3 ''id'' 1 2 EnvVar ''TOKEN'')) = toy_tag (build_aad (entry_aad_v3 ''id'' 1 1 EnvVar ''TOKEN''))"
    by (simp add: toy_tag_def build_aad_eq entry_aad_v3_def scope_aad_def d)
  then have o: "open_entry toy_crypto ''id'' toy_key aadVersionEnvKey 1 2 EnvVar ''TOKEN'' ct = Inr ''abc''"
    by (simp add: open_entry_def aad_versions v3_row_key_def env_key_def derive_env_key_def derive_row_key_from_env_key_def
        derive_from_def expand_key_def VaultKeySize_def toy_key_def aead_lengths [OF toy_works] decrypt_with_aad_def ct_def
        EncryptFormatVersion_def NonceSizeX_def as_vault_def toy_nonce_def)
      (simp add: toy_crypto_def toy_tag_def)
  show ?thesis
    using ciphertext_stays_in_its_row [OF toy_works _ s o] s o by (auto simp: toy_nonce_def)
qed

end
