(* ===== verification/Vault_Grant_Claims.thy ===== *)
theory Vault_Grant_Claims
  imports Vault_Read_Claims
begin

text \<open>
  The properties of access with less than the vault key: writes to a locked vault and the keys
  captured for a grant.
\<close>

section \<open>Looking up through the visible row\<close>

lemma get_own:
  assumes ok: "db_ok (vt_db v)" and io: "load_error io = None" and r: "own_row (vt_db v) (s, n) = Some r"
    and x: "open_entry cl (vt_id v) key (nt_aad r) (nt_project r) (nt_env r) EnvVar n (nt_value r) = Inr x"
  shows "\<exists>e. get_with_key cl io key s n v = Inr e \<and> nv_value e = x \<and> nv_source e = SourceScope"
proof -
  obtain pid eid where q: "env_at (vt_db v) s = Some (pid, eid)" "r \<in> set (db_entries (vt_db v))" "at_row pid eid n r"
    using own_row_at [OF r] by auto
  have "nt_kind r = EnvVar" using ok q(2) by (auto simp: db_ok_def entries_ok_def)
  then show ?thesis
    using get_visible [OF ok io q(1)] visible_own [OF ok] r x q(3) by (simp add: decrypt_entry_def at_row_def)
qed

lemma fetch_own:
  assumes ok: "db_ok (vt_db v)" and io: "load_error io = None" and r: "own_row (vt_db v) (s, n) = Some r"
  shows "scope_ids io (vt_db v) s = Inr (nt_project r, nt_env r)"
    and "fetch_inherited io (vt_db v) (nt_project r) (nt_env r) (sc_env s) n = Inr (Some (r, nt_env r))"
proof -
  obtain pid eid where q: "env_at (vt_db v) s = Some (pid, eid)" "at_row pid eid n r" using own_row_at [OF r] by auto
  then have "pid = nt_project r" "eid = nt_env r" by (simp_all add: at_row_def)
  with q have q: "env_at (vt_db v) s = Some (nt_project r, nt_env r)" by simp
  then show "scope_ids io (vt_db v) s = Inr (nt_project r, nt_env r)" using io by (simp add: scope_ids_Inr)
  show "fetch_inherited io (vt_db v) (nt_project r) (nt_env r) (sc_env s) n = Inr (Some (r, nt_env r))"
    using fetch_inherited_visible [OF ok io q] visible_own [OF ok] r by simp
qed

section \<open>Values taken in while the vault is locked\<close>

lemma put_authored_cases:
  assumes "put_authored cl io now draw s n x k c v = (Inr (), v')"
  obtains pid eid krow ct where "env_at (vt_db v) s = Some (pid, eid)" and "checked_name s n = None" and "length k \<noteq> 0"
    and "load_error io = None" and "authored_row_key cl k EnvVar n = Inr krow"
    and "encrypt_with_aad cl draw krow x (entry_aad_v3 (vt_id v) pid eid EnvVar n) = Inr ct"
    and "v' = v\<lparr>vt_db := upsert_env_var now pid eid n ct aadVersionAuthoredKey (vt_db v)\<rparr>"
  using assms
  by (auto simp: put_authored_def scope_ids_Inr write_env_var_def transact_Inr
      split: option.splits if_splits sum.splits prod.splits)

lemma seal_unattended_cases:
  assumes ok: "db_ok (vt_db v)" and s: "seal_unattended_with_key cl io draw vk s n v = (Inr b, v')"
    and r: "own_row (vt_db v) (s, n) = Some r" and a: "nt_aad r = aadVersionAuthoredKey"
  obtains pt ct where "b = True" and "open_entry cl (vt_id v) vk (nt_aad r) (nt_project r) (nt_env r) EnvVar n (nt_value r) = Inr pt"
    and "seal_entry cl (vt_id v) draw vk (nt_project r) (nt_env r) EnvVar n pt = Inr ct"
    and "v' = v\<lparr>vt_db := reseal_row (nt_project r) (nt_env r) n ct currentAADVersion (vt_db v)\<rparr>"
proof -
  obtain pid eid where q: "scope_ids io (vt_db v) s = Inr (pid, eid)"
    using s by (cases "scope_ids io (vt_db v) s") (auto simp: seal_unattended_with_key_def)
  then have io: "load_error io = None" by (simp add: scope_ids_Inr)
  note f = fetch_own [OF ok io r]
  have ids: "scope_ids io (vt_db v) s = Inr (nt_project r, nt_env r)" by (rule f(1))
  have row: "row_at (vt_db v) (nt_project r) (nt_env r) n = Some r" using inherited_row(1) [OF ok f(2)] .
  have "fetch_entry io (vt_db v) (nt_project r) (nt_env r) EnvVar n = Inr (Some r)"
    using fetch_entry_row [of "vt_db v" io] ok io row by (simp add: db_ok_def)
  then show ?thesis
    using s ids a that by (auto simp: seal_unattended_with_key_def transact_Inr split: sum.splits if_splits)
qed

text \<open>What sealing an unattended row leaves: the owner reads the value it had, the authored key does not.\<close>

lemma sealed_row_reads:
  assumes cl: "aead_works cl" and ok: "db_ok (vt_db v)" and nonce: "length nonce = 24" and io': "load_error io' = None"
    and own: "own_row (vt_db v) (s, n) = Some r" and kind: "nt_kind r = EnvVar" and name: "nt_name r = n"
    and x: "open_entry cl (vt_id v) vk (nt_aad r) (nt_project r) (nt_env r) EnvVar n (nt_value r) = Inr x"
    and pw: "unwrap_vault_key cl pw v = Inr vk" and k: "length k \<noteq> 0" and cn: "checked_name s n = None"
    and d: "seal_unattended_with_key cl io2 (Some nonce) vk s n v = (Inr b, v')" and a: "nt_aad r = aadVersionAuthoredKey"
  shows "b \<and> open_authored cl io' s n k v' = Inl ErrAuthoredKeyUnsupported \<and>
    (\<exists>e. get_env_var_with_password cl io' pw s n v' = Inr e \<and> nv_value e = x)"
proof -
  obtain pt ct where c: "b = True" "open_entry cl (vt_id v) vk (nt_aad r) (nt_project r) (nt_env r) EnvVar n (nt_value r) = Inr pt"
      "seal_entry cl (vt_id v) (Some nonce) vk (nt_project r) (nt_env r) EnvVar n pt = Inr ct"
      "v' = v\<lparr>vt_db := reseal_row (nt_project r) (nt_env r) n ct currentAADVersion (vt_db v)\<rparr>"
    using seal_unattended_cases [OF ok d own a] .
  let ?f = "\<lambda>m. if nt_project m = nt_project r \<and> nt_env m = nt_env r \<and> nt_kind m = EnvVar \<and> nt_name m = n
      then m\<lparr>nt_value := ct, nt_aad := currentAADVersion\<rparr> else m"
  have "own_row (vt_db v') (s, n) = map_option ?f (own_row (vt_db v) (s, n))"
    by (rule own_row_map) (simp_all add: c(4) reseal_row_def)
  then have own': "own_row (vt_db v') (s, n) = Some (r\<lparr>nt_value := ct, nt_aad := currentAADVersion\<rparr>)" using own kind name by simp
  have ok': "db_ok (vt_db v')" using reseal_row_ok [OF ok] c(4) by simp
  have id: "vt_id v' = vt_id v" "unwrap_vault_key cl pw v' = Inr vk" using c(4) pw by (simp_all add: unwrap_vault_key_def)
  have "open_entry cl (vt_id v) vk currentAADVersion (nt_project r) (nt_env r) EnvVar n ct = Inr x"
    using sealed_opens(1) [OF cl c(3) nonce] c(2) x by simp
  then have "\<exists>e. get_env_var_with_password cl io' pw s n v' = Inr e \<and> nv_value e = x"
    using get_own [OF ok' io' own', of cl vk x] kind id cn by (auto simp: get_env_var_with_password_def)
  moreover have "open_authored cl io' s n k v' = Inl ErrAuthoredKeyUnsupported"
    using fetch_own [OF ok' io' own'] k kind by (simp add: open_authored_def aad_versions)
  ultimately show ?thesis using c(1) by simp
qed

text \<open>
  C12. A value written while the vault is locked, with the authored key of its scope, is readable by
  whoever holds that key and by the owner's password, and by nothing less. Once the owner seals it,
  the owner reads the same value and the authored key no longer opens it.
\<close>

theorem authored_value_is_handed_over:
  assumes cl: "aead_works cl" and ok: "db_ok (vt_db v)" and pw: "unwrap_vault_key cl pw v = Inr vk"
    and k: "capture_authored_key_with_password cl io0 pw s v = Inr k"
    and nonces: "length nonce = 24" "length nonce2 = 24" and io': "load_error io' = None"
    and put: "put_authored cl io now (Some nonce) s n x k c (lock_vault v) = (Inr (), v1)"
  shows "is_locked v1 \<and> open_authored cl io' s n k v1 = Inr x \<and>
    (\<exists>e. get_env_var_with_password cl io' pw s n v1 = Inr e \<and> nv_value e = x) \<and>
    (\<forall>io2 b v2. seal_unattended_with_key cl io2 (Some nonce2) vk s n v1 = (Inr b, v2) \<longrightarrow>
       b \<and> open_authored cl io' s n k v2 = Inl ErrAuthoredKeyUnsupported \<and>
       (\<exists>e. get_env_var_with_password cl io' pw s n v2 = Inr e \<and> nv_value e = x))"
proof -
  obtain pid eid krow ct where p: "env_at (vt_db v) s = Some (pid, eid)" "checked_name s n = None" "length k \<noteq> 0"
      "authored_row_key cl k EnvVar n = Inr krow"
      "encrypt_with_aad cl (Some nonce) krow x (entry_aad_v3 (vt_id v) pid eid EnvVar n) = Inr ct"
      "v1 = (lock_vault v)\<lparr>vt_db := upsert_env_var now pid eid n ct aadVersionAuthoredKey (vt_db v)\<rparr>"
    by (rule put_authored_cases [OF put], rule that) (simp_all add: lock_vault_def)
  have auth: "authored_key cl (vt_id v) vk pid eid = Inr k"
    using k pw p(1) by (auto simp: capture_authored_key_with_password_def authored_key_for_scope_def as_vault_def scope_ids_Inr
        split: sum.splits prod.splits)
  note opens = authored_opens [OF cl auth p(4) nonces(1) p(5)]
  obtain r where r: "nt_project r = pid" "nt_env r = eid" "nt_kind r = EnvVar" "nt_name r = n" "nt_value r = ct"
      "nt_aad r = aadVersionAuthoredKey" "own_row (vt_db v1) = (own_row (vt_db v))((s, n) \<mapsto> r)"
    using own_row_upsert [OF ok p(1), of n ct aadVersionAuthoredKey now] p(6) by auto
  have ok1: "db_ok (vt_db v1)" using ok_upsert [OF ok p(1)] p(6) by (simp add: lock_vault_def)
  have own: "own_row (vt_db v1) (s, n) = Some r" by (simp add: r(7))
  have id: "vt_id v1 = vt_id v" "unwrap_vault_key cl pw v1 = Inr vk" "is_locked v1"
    using p(6) pw by (simp_all add: lock_vault_def unwrap_vault_key_def is_locked_def)
  have a1: "open_authored cl io' s n k v1 = Inr x"
    using fetch_own [OF ok1 io' own] p(3,4) opens(1) r id by (simp add: open_authored_def as_vault_def)
  have g1: "\<exists>e. get_env_var_with_password cl io' pw s n v1 = Inr e \<and> nv_value e = x"
    using get_own [OF ok1 io' own, of cl vk x] opens(2) r id p(2) by (auto simp: get_env_var_with_password_def)
  have x: "open_entry cl (vt_id v1) vk (nt_aad r) (nt_project r) (nt_env r) EnvVar n (nt_value r) = Inr x"
    using opens(2) r id by simp
  have "b \<and> open_authored cl io' s n k v2 = Inl ErrAuthoredKeyUnsupported \<and>
      (\<exists>e. get_env_var_with_password cl io' pw s n v2 = Inr e \<and> nv_value e = x)"
    if "seal_unattended_with_key cl io2 (Some nonce2) vk s n v1 = (Inr b, v2)" for io2 b v2
    by (rule sealed_row_reads [OF cl ok1 nonces(2) io' own r(3,4) x id(2) p(3,2) that r(6)])
  then show ?thesis using a1 g1 id by blast
qed

lemma toy_authored:
  "\<exists>k v1. capture_authored_key_with_password toy_crypto io_ok ''pw'' toy_prod toy_vault = Inr k \<and>
    put_authored toy_crypto io_ok 5 (Some toy_nonce) toy_prod ''TOKEN'' ''abc'' k False (lock_vault toy_vault) = (Inr (), v1)"
proof -
  have u: "unwrap_vault_key toy_crypto ''pw'' toy_vault = Inr toy_key"
    by (simp add: unwrap_vault_key_def toy_vault_key toy_unwraps as_vault_def)
  have l: "length (toy_pad i) = 32" for i by (simp add: toy_pad_def min_def)
  have ne: "toy_pad i \<noteq> []" for i using l [of i] by auto
  have lv: "vt_db (lock_vault toy_vault) = vt_db toy_vault" "vt_id (lock_vault toy_vault) = ''id''"
    by (simp_all add: lock_vault_def toy_vault_key)
  have h: "cl_hkdf toy_crypto a b = toy_pad b" for a b by (simp add: toy_crypto_def)
  show ?thesis
    by (simp add: capture_authored_key_with_password_def u authored_key_for_scope_def scope_ids_Inr [THEN iffD2, OF conjI, OF io_ok_simps(1) toy_envs(2)]
        authored_key_def derive_authored_key_def derive_from_def expand_key_def h VaultKeySize_def toy_key_def as_vault_def
        ne put_authored_def toy_names MaxValueLen_def lv authored_row_key_def derive_row_key_from_authored_key_def l
        encrypt_with_aad_def write_env_var_def transact_def)
qed

lemma authored_value_is_handed_over_witness:
  "\<exists>k v1. capture_authored_key_with_password toy_crypto io_ok ''pw'' toy_prod toy_vault = Inr k \<and>
    put_authored toy_crypto io_ok 5 (Some toy_nonce) toy_prod ''TOKEN'' ''abc'' k False (lock_vault toy_vault) = (Inr (), v1) \<and>
    open_authored toy_crypto io_ok toy_prod ''TOKEN'' k v1 = Inr ''abc''"
proof -
  obtain k v1 where k: "capture_authored_key_with_password toy_crypto io_ok ''pw'' toy_prod toy_vault = Inr k"
      "put_authored toy_crypto io_ok 5 (Some toy_nonce) toy_prod ''TOKEN'' ''abc'' k False (lock_vault toy_vault) = (Inr (), v1)"
    using toy_authored by blast
  have u: "unwrap_vault_key toy_crypto ''pw'' toy_vault = Inr toy_key"
    by (simp add: unwrap_vault_key_def toy_vault_key toy_unwraps as_vault_def)
  show ?thesis
    using authored_value_is_handed_over [OF toy_works toy_vault_ok u k(1) _ _ io_ok_simps(1) k(2), of toy_nonce] k
    by (simp add: toy_nonce_def)
qed

section \<open>Row keys captured for a grant\<close>

definition readable :: "crypto_lib \<Rightarrow> bytes \<Rightarrow> vault_scope \<Rightarrow> string \<Rightarrow> bytes \<Rightarrow> vault \<Rightarrow> bool" where
  "readable cl vk s n x v \<longleftrightarrow> (\<exists>p e r src. visible_row (vt_db v) s n = Some (p, e, r, src) \<and> nt_aad r \<noteq> aadVersionAuthoredKey \<and>
     open_entry cl (vt_id v) vk (nt_aad r) p e EnvVar n (nt_value r) = Inr x)"

lemma get_readable:
  assumes ok: "db_ok (vt_db v)" and g: "get_with_key cl io vk s n v = Inr e" and o: "entry_origin io s n v = Inr (Some (i, False))"
  shows "readable cl vk s n (nv_value e) v"
proof -
  obtain pid eid where q: "load_error io = None" "env_at (vt_db v) s = Some (pid, eid)" using get_needs [OF g] by blast
  obtain p en r src where vis: "visible_row (vt_db v) s n = Some (p, en, r, src)"
      and d: "decrypt_entry cl (vt_id v) vk p en r src = Inr e"
    using g get_visible [OF ok q] by (auto split: option.splits)
  have "nt_aad r \<noteq> aadVersionAuthoredKey"
    using o fetch_inherited_visible [OF ok q] vis q by (auto simp: entry_origin_def scope_ids_Inr split: sum.splits prod.splits)
  moreover have "nt_kind r = EnvVar" "nt_name r = n" using ok visible_row_at [OF vis] by (auto simp: db_ok_def entries_ok_def)
  ultimately show ?thesis using vis d by (auto simp: readable_def decrypt_entry_def split: sum.splits)
qed

text \<open>One turn of the capture either changes nothing or seals one legacy row under its row key.\<close>

lemma capture_one_cases:
  assumes c: "capture_one cl io draw vk pid eid se n v = (res, v')"
  obtains (same) "v' = v"
    | (sealed) r re pt ct krow where "fetch_inherited io (vt_db v) pid eid se n = Inr (Some (r, re))" and "nt_aad r = aadVersionVaultKey"
      and "open_entry cl (vt_id v) vk (nt_aad r) pid re EnvVar n (nt_value r) = Inr pt"
      and "seal_entry cl (vt_id v) draw vk pid re EnvVar n pt = Inr ct" and "res = Inr (Some krow)"
      and "v3_row_key cl (vt_id v) vk pid re EnvVar n = Inr krow"
      and "v' = v\<lparr>vt_db := reseal_row pid re n ct aadVersionEnvKey (vt_db v)\<rparr>"
proof (cases "v' = v")
  case False
  then show ?thesis
    using c sealed
    by (auto simp: capture_one_def transact_def row_key_of_def seal_entry_Inr aad_versions
        split: sum.splits option.splits prod.splits if_splits)
qed (rule same)

definition resealed :: "int \<Rightarrow> int \<Rightarrow> string \<Rightarrow> bytes \<Rightarrow> int \<Rightarrow> entry_row \<Rightarrow> entry_row" where
  "resealed pid eid name ct ver n =
     (if nt_project n = pid \<and> nt_env n = eid \<and> nt_kind n = EnvVar \<and> nt_name n = name
      then n\<lparr>nt_value := ct, nt_aad := ver\<rparr> else n)"

lemma visible_reseal:
  assumes ok: "db_ok db"
  shows "visible_row (reseal_row pid eid name ct ver db) s n =
    map_option (\<lambda>(p, e, r, src). (p, e, resealed pid eid name ct ver r, src)) (visible_row db s n)"
proof -
  let ?db = "reseal_row pid eid name ct ver db"
  have row: "own_row ?db k = map_option (resealed pid eid name ct ver) (own_row db k)" for k
    by (rule own_row_map) (simp_all add: reseal_row_def resealed_def [abs_def])
  have env: "env_at ?db s = env_at db s" by (rule env_at_cong) (simp_all add: reseal_row_def)
  have ids: "nt_project (resealed pid eid name ct ver r) = nt_project r" "nt_env (resealed pid eid name ct ver r) = nt_env r" for r
    by (simp_all add: resealed_def)
  show ?thesis
    unfolding visible_own [OF ok] visible_own [OF reseal_row_ok [OF ok]] row env
    by (auto simp: ids option.map_comp comp_def split: option.splits)
qed

text \<open>What can be read stays readable through the turns, and a key that opens keeps opening.\<close>

lemma capture_keeps_readable:
  assumes cl: "aead_works cl" and ok: "db_ok (vt_db v)" and draw: "\<And>n. draw = Some n \<Longrightarrow> length n = 24"
    and c: "capture_one cl io draw vk pid eid se m v = (res, v')" and r: "readable cl vk s n x v"
  shows "readable cl vk s n x v'"
  using c
proof (cases rule: capture_one_cases)
  case same
  then show ?thesis using r by simp
next
  case (sealed row re pt ct krow)
  obtain p e r src where vis: "visible_row (vt_db v) s n = Some (p, e, r, src)" "nt_aad r \<noteq> aadVersionAuthoredKey"
      "open_entry cl (vt_id v) vk (nt_aad r) p e EnvVar n (nt_value r) = Inr x"
    using r by (auto simp: readable_def)
  note w = visible_row_at [OF vis(1)]
  let ?r = "resealed pid re m ct aadVersionEnvKey r"
  have "visible_row (vt_db v') s n = Some (p, e, ?r, src)" using visible_reseal [OF ok] vis(1) sealed(7) by simp
  moreover have "nt_aad ?r \<noteq> aadVersionAuthoredKey \<and> open_entry cl (vt_id v) vk (nt_aad ?r) p e EnvVar n (nt_value ?r) = Inr x"
  proof (cases "nt_project r = pid \<and> nt_env r = re \<and> nt_kind r = EnvVar \<and> nt_name r = m")
    case True
    then have "r = row" using inherited_row(1) [OF ok sealed(1)] w by simp
    then have "pt = x" using sealed(3) vis(3) True w by simp
    then show ?thesis
      using sealed_entry_opens(1) [OF cl draw sealed(4)] True w by (simp add: resealed_def aad_versions)
  next
    case False
    then show ?thesis using vis by (auto simp: resealed_def)
  qed
  moreover have "vt_id v' = vt_id v" using sealed(7) by simp
  ultimately show ?thesis by (auto simp: readable_def)
qed

lemma open_with_row_key_visible:
  assumes ok: "db_ok (vt_db v)" and io: "load_error io = None" and vis: "visible_row (vt_db v) s n = Some (p, e, r, src)"
  shows "open_with_row_key cl io s n key v =
    (if nt_aad r = aadVersionRowKey then as_vault (decrypt_with_aad cl key (nt_value r) (entry_aad (vt_id v) EnvVar n))
     else if nt_aad r = aadVersionEnvKey then as_vault (decrypt_with_aad cl key (nt_value r) (entry_aad_v3 (vt_id v) p e EnvVar n))
     else Inl ErrRowKeyUnsupported)"
proof -
  obtain pid eid where q: "env_at (vt_db v) s = Some (pid, eid)" using vis by (auto simp: visible_row_def split: option.splits)
  have "p = pid" using vis q by (auto simp: visible_row_def split: option.splits if_splits)
  then show ?thesis
    using fetch_inherited_visible [OF ok io q] vis q io by (simp add: open_with_row_key_def scope_ids_Inr [THEN iffD2])
qed

lemma open_with_row_key_needs:
  assumes ok: "db_ok (vt_db v)" and o: "open_with_row_key cl io s n key v = Inr x"
  obtains p e r src where "load_error io = None" and "visible_row (vt_db v) s n = Some (p, e, r, src)"
    and "nt_aad r = aadVersionRowKey \<or> nt_aad r = aadVersionEnvKey"
proof -
  obtain pid eid where q: "scope_ids io (vt_db v) s = Inr (pid, eid)"
    using o by (cases "scope_ids io (vt_db v) s") (auto simp: open_with_row_key_def)
  then have io: "load_error io = None" "env_at (vt_db v) s = Some (pid, eid)" by (simp_all add: scope_ids_Inr)
  then obtain p e r src where vis: "visible_row (vt_db v) s n = Some (p, e, r, src)"
    using o q fetch_inherited_visible [OF ok io] by (auto simp: open_with_row_key_def split: option.splits)
  then show ?thesis using o that [OF io(1) vis] open_with_row_key_visible [OF ok io(1) vis] by (auto split: if_splits)
qed

lemma capture_keeps_key:
  assumes ok: "db_ok (vt_db v)" and c: "capture_one cl io draw vk pid eid se m v = (res, v')"
    and o: "open_with_row_key cl io' s n key v = Inr x"
  shows "open_with_row_key cl io' s n key v' = Inr x"
  using c
proof (cases rule: capture_one_cases)
  case same
  then show ?thesis using o by simp
next
  case (sealed row re pt ct krow)
  obtain p e r src where vis: "load_error io' = None" "visible_row (vt_db v) s n = Some (p, e, r, src)"
      "nt_aad r = aadVersionRowKey \<or> nt_aad r = aadVersionEnvKey"
    using open_with_row_key_needs [OF ok o] .
  have "resealed pid re m ct aadVersionEnvKey r = r"
  proof (cases "nt_project r = pid \<and> nt_env r = re \<and> nt_kind r = EnvVar \<and> nt_name r = m")
    case True
    then have "r = row" using inherited_row(1) [OF ok sealed(1)] visible_row_at [OF vis(2)] by simp
    then show ?thesis using sealed(2) vis(3) by (auto simp: aad_versions)
  qed (auto simp: resealed_def)
  then have vis': "visible_row (vt_db v') s n = Some (p, e, r, src)" using visible_reseal [OF ok] vis(2) sealed(7) by simp
  have ok': "db_ok (vt_db v')" and id: "vt_id v' = vt_id v" using sealed(7) reseal_row_ok [OF ok] by simp_all
  show ?thesis
    using o unfolding open_with_row_key_visible [OF ok vis(1,2)] open_with_row_key_visible [OF ok' vis(1) vis'] id .
qed

text \<open>The turn for a name yields the key that opens it.\<close>

lemma capture_one_opens:
  assumes cl: "aead_works cl" and ok: "db_ok (vt_db v)" and draw: "\<And>n. draw = Some n \<Longrightarrow> length n = 24"
    and s: "env_at (vt_db v) s = Some (pid, eid)" and io': "load_error io' = None"
    and c: "capture_one cl io draw vk pid eid (sc_env s) n v = (Inr key, v')" and r: "readable cl vk s n x v"
  shows "\<exists>k. key = Some k \<and> open_with_row_key cl io' s n k v' = Inr x"
proof -
  obtain p e row src where vis: "visible_row (vt_db v) s n = Some (p, e, row, src)" "nt_aad row \<noteq> aadVersionAuthoredKey"
      "open_entry cl (vt_id v) vk (nt_aad row) p e EnvVar n (nt_value row) = Inr x"
    using r by (auto simp: readable_def)
  have p: "p = pid" using vis(1) s by (auto simp: visible_row_def split: option.splits if_splits)
  have io: "load_error io = None" using c by (auto simp: capture_one_def fetch_inherited_def fetch_entry_def split: option.splits)
  have f: "fetch_inherited io (vt_db v) pid eid (sc_env s) n = Inr (Some (row, e))"
    using fetch_inherited_visible [OF ok io s] vis(1) by simp
  obtain k where k: "row_key_of cl (vt_id v) vk pid e row n = Inr k" "key = Some k"
    using c f by (auto simp: capture_one_def transact_Inr split: sum.splits if_splits)
  show ?thesis
  proof (cases "nt_aad row = aadVersionVaultKey")
    case False
    then have "v' = v" using c f k by (simp add: capture_one_def)
    moreover have "open_with_row_key cl io' s n k v = Inr x"
      using vis k(1) p False unfolding open_with_row_key_visible [OF ok io' vis(1)]
      by (auto simp: open_entry_def row_key_of_def aad_versions as_vault_def split: if_splits sum.splits)
    ultimately show ?thesis using k(2) by simp
  next
    case True
    obtain pt ct where t: "open_entry cl (vt_id v) vk (nt_aad row) pid e EnvVar n (nt_value row) = Inr pt"
        "encrypt_with_aad cl draw k pt (entry_aad_v3 (vt_id v) pid e EnvVar n) = Inr ct"
        "v' = v\<lparr>vt_db := reseal_row pid e n ct aadVersionEnvKey (vt_db v)\<rparr>"
      using c f k True by (auto simp: capture_one_def transact_Inr split: sum.splits)
    have key: "v3_row_key cl (vt_id v) vk pid e EnvVar n = Inr k" using k(1) True by (simp add: row_key_of_def aad_versions)
    obtain nonce where nonce: "draw = Some nonce" using t(2) by (cases draw) (auto simp: encrypt_with_aad_def split: if_splits)
    have "decrypt_with_aad cl k ct (entry_aad_v3 (vt_id v) pid e EnvVar n) = Inr pt"
      using decrypt_iff [OF cl v3_row_key_length [OF cl key]] t(2) draw [OF nonce] nonce by blast
    moreover have "pt = x" using t(1) vis(3) p by simp
    moreover have "visible_row (vt_db v') s n = Some (p, e, row\<lparr>nt_value := ct, nt_aad := aadVersionEnvKey\<rparr>, src)"
      using visible_reseal [OF ok] vis(1) t(3) visible_row_at [OF vis(1)] p ok
      by (auto simp: resealed_def db_ok_def entries_ok_def)
    moreover have "db_ok (vt_db v')" "vt_id v' = vt_id v" using t(3) reseal_row_ok [OF ok] by simp_all
    ultimately show ?thesis
      using k(2) p open_with_row_key_visible [of v' io' s n] io' by (simp add: aad_versions as_vault_def)
  qed
qed

lemma capture_loop_keys:
  assumes cl: "aead_works cl" and draws: "nonces_ok draws" and io': "load_error io' = None"
  shows "db_ok (vt_db v) \<Longrightarrow> env_at (vt_db v) s = Some (pid, eid) \<Longrightarrow>
    capture_loop cl io draws vk pid eid (sc_env s) out names v = (Inr m, v') \<Longrightarrow>
    (n \<in> set names \<and> readable cl vk s n x v \<or> n \<notin> set names \<and> (\<exists>k. map_get out n = Some k \<and> open_with_row_key cl io' s n k v = Inr x)) \<Longrightarrow>
    \<exists>k. map_get m n = Some k \<and> open_with_row_key cl io' s n k v' = Inr x"
proof (induction names arbitrary: out v)
  case (Cons name names)
  obtain r w where c: "capture_one cl io (draws name) vk pid eid (sc_env s) name v = (r, w)" by fastforce
  have draw: "draws name = Some a \<Longrightarrow> length a = 24" for a using draws by (auto simp: nonces_ok_def)
  have ok: "db_ok (vt_db w)" using capture_one_ok [OF Cons.prems(1)] c by (metis snd_conv)
  have env: "env_at (vt_db w) s = Some (pid, eid)"
    using c
  proof (cases rule: capture_one_cases)
    case (sealed r re pt ct krow)
    then show ?thesis using Cons.prems(2) env_at_cong [of "vt_db w" "vt_db v" s] by (simp add: reseal_row_def)
  qed (use Cons.prems(2) in simp)
  obtain key out' where step: "r = Inr key" "capture_loop cl io draws vk pid eid (sc_env s) out' names w = (Inr m, v')"
      "out' = (case key of None \<Rightarrow> out | Some k \<Rightarrow> map_put out name k)"
    using Cons.prems(3) c by (auto split: sum.splits option.splits)
  have "n \<in> set names \<and> readable cl vk s n x w \<or>
      n \<notin> set names \<and> (\<exists>k. map_get out' n = Some k \<and> open_with_row_key cl io' s n k w = Inr x)"
  proof (cases "n \<in> set names")
    case True
    then show ?thesis using Cons.prems(4) capture_keeps_readable [OF cl Cons.prems(1) draw c] by auto
  next
    case False
    show ?thesis
    proof (cases "n = name")
      case True
      then have "readable cl vk s n x v" using Cons.prems(4) by simp
      then obtain k where "key = Some k" "open_with_row_key cl io' s n k w = Inr x"
        using capture_one_opens [OF cl Cons.prems(1) draw Cons.prems(2) io'] c True step(1) by blast
      then show ?thesis using False True step(3) by simp
    next
      case other: False
      then obtain k where "map_get out n = Some k" "open_with_row_key cl io' s n k v = Inr x" using Cons.prems(4) False by auto
      then show ?thesis using False other step(3) capture_keeps_key [OF Cons.prems(1) c] by (auto split: option.splits)
    qed
  qed
  then show ?case using Cons.IH [OF ok env step(2)] by blast
qed auto

text \<open>
  The row keys captured for a grant open exactly what the owner reads: every name asked for that
  the owner could read (and that was not taken in unattended) has a key in the result, and that key
  opens the owner's value, whichever of the three older formats the row had; the capture seals legacy
  rows anew on the way, with no change to any value, and repeated names do no harm.
\<close>

theorem captured_keys_open_their_rows:
  assumes cl: "aead_works cl" and ok: "db_ok (vt_db v)" and draws: "nonces_ok draws" and io': "load_error io' = None"
    and c: "capture_row_keys_with_key cl io draws vk s names v = (Inr m, v')" and n: "n \<in> set names"
    and g: "get_with_key cl io' vk s n v = Inr e" and o: "entry_origin io' s n v = Inr (Some (i, False))"
  shows "(\<exists>k. map_get m n = Some k \<and> open_with_row_key cl io' s n k v' = Inr (nv_value e)) \<and>
    own_value cl vk v' = own_value cl vk v"
proof -
  obtain pid eid where q: "scope_ids io (vt_db v) s = Inr (pid, eid)"
    using c by (cases "scope_ids io (vt_db v) s") (auto simp: capture_row_keys_with_key_def)
  then have env: "env_at (vt_db v) s = Some (pid, eid)" by (simp add: scope_ids_Inr)
  have l: "capture_loop cl io draws vk pid eid (sc_env s) [] names v = (Inr m, v')"
    using c q by (simp add: capture_row_keys_with_key_def)
  show ?thesis
    using capture_loop_keys [OF cl draws io' ok env l, of n "nv_value e"] n get_readable [OF ok g o]
      captures_value [OF cl draws ok, of vk io s names] c by simp
qed

text \<open>A stored value of the example vault, with its row spelled out.\<close>

definition toy_sealed :: "int \<Rightarrow> bytes \<Rightarrow> bytes" where
  "toy_sealed eid x = CHR 0x01 # toy_nonce @ x @ toy_tag (build_aad (entry_aad_v3 ''id'' 1 eid EnvVar ''TOKEN''))"

lemma toy_hkdf: "cl_hkdf toy_crypto a b = toy_pad b" "length (toy_pad i) = 32"
  by (simp_all add: toy_crypto_def toy_pad_def min_def)

lemmas toy_keys = v3_row_key_def env_key_def derive_env_key_def derive_row_key_from_env_key_def derive_from_def expand_key_def
  VaultKeySize_def toy_hkdf

lemma toy_seal: "length x \<le> MaxValueLen \<Longrightarrow>
  seal_entry toy_crypto ''id'' (Some toy_nonce) toy_key 1 eid EnvVar ''TOKEN'' x = Inr (toy_sealed eid x)"
  by (simp add: seal_entry_def toy_keys toy_key_def encrypt_with_aad_def toy_sealed_def EncryptFormatVersion_def)
    (simp add: toy_crypto_def)

lemma toy_stored:
  assumes "db_ok (vt_db v)" "vt_id v = ''id''" "vt_key v = Some toy_key" "env_at (vt_db v) s = Some (1, eid)"
    and "checked_name s ''TOKEN'' = None" and "length x \<le> 3"
  shows "\<exists>v' r. put_env_var toy_crypto io_ok 5 (Some toy_nonce) s ''TOKEN'' x False v = (Inr (), v') \<and> db_ok (vt_db v') \<and>
    vt_id v' = ''id'' \<and> vt_key v' = Some toy_key \<and> env_at (vt_db v') = env_at (vt_db v) \<and>
    own_row (vt_db v') = (own_row (vt_db v))((s, ''TOKEN'') \<mapsto> r) \<and> nt_project r = 1 \<and> nt_env r = eid \<and> nt_kind r = EnvVar \<and>
    nt_name r = ''TOKEN'' \<and> nt_aad r = aadVersionEnvKey \<and> nt_value r = toy_sealed eid x"
proof -
  have x: "length x \<le> MaxValueLen" using assms(6) by (simp add: MaxValueLen_def)
  let ?v = "v\<lparr>vt_db := upsert_env_var 5 1 eid ''TOKEN'' (toy_sealed eid x) currentAADVersion (vt_db v)\<rparr>"
  have p: "put_env_var toy_crypto io_ok 5 (Some toy_nonce) s ''TOKEN'' x False v = (Inr (), ?v)"
    using assms x by (simp add: put_env_var_def put_with_key_def scope_ids_Inr [THEN iffD2] toy_seal write_env_var_def transact_def)
  obtain r where r: "nt_project r = 1" "nt_env r = eid" "nt_kind r = EnvVar" "nt_name r = ''TOKEN''" "nt_value r = toy_sealed eid x"
      "nt_aad r = currentAADVersion" "own_row (vt_db ?v) = (own_row (vt_db v))((s, ''TOKEN'') \<mapsto> r)"
    using own_row_upsert [OF assms(1,4), of "''TOKEN''" "toy_sealed eid x" currentAADVersion 5] by auto
  show ?thesis
    by (rule exI [of _ ?v], rule exI [of _ r])
      (use p r ok_upsert [OF assms(1,4)] assms in \<open>simp add: fun_eq_iff currentAADVersion_def\<close>)
qed

lemma toy_opens: "length k = 32 \<Longrightarrow> toy_tag (build_aad aad) = toy_tag (build_aad (entry_aad_v3 ''id'' 1 eid EnvVar ''TOKEN'')) \<Longrightarrow>
  decrypt_with_aad toy_crypto k (toy_sealed eid x) aad = Inr x"
  by (simp add: decrypt_with_aad_def toy_sealed_def EncryptFormatVersion_def VaultKeySize_def NonceSizeX_def toy_nonce_def)
    (simp add: toy_crypto_def toy_tag_def)

lemma toy_row_key: "\<exists>k. v3_row_key toy_crypto ''id'' toy_key p e EnvVar n = Inr k \<and> length k = 32"
proof -
  have "length toy_key = 32" by (simp add: toy_key_def)
  then obtain k where k: "v3_row_key toy_crypto ''id'' toy_key p e EnvVar n = Inr k" using v3_row_key_total [OF toy_works] by blast
  then show ?thesis using v3_row_key_length [OF toy_works k] by blast
qed

lemma toy_with_default:
  "\<exists>(v :: vault) r. db_ok (vt_db v) \<and> vt_id v = ''id'' \<and> vt_key v = Some toy_key \<and> env_at (vt_db v) = env_at (vt_db toy_vault) \<and>
    nt_aad r = aadVersionEnvKey \<and> nt_value r = toy_sealed 1 ''abc'' \<and>
    visible_row (vt_db v) toy_prod ''TOKEN'' = Some (1, 1, r, SourceDefault)"
proof -
  obtain v :: vault and r where v: "db_ok (vt_db v)" "vt_id v = ''id''" "vt_key v = Some toy_key" "env_at (vt_db v) = env_at (vt_db toy_vault)"
      "own_row (vt_db v) = (own_row (vt_db toy_vault))((toy_default, ''TOKEN'') \<mapsto> r)" "nt_project r = 1" "nt_env r = 1"
      "nt_kind r = EnvVar" "nt_name r = ''TOKEN''" "nt_aad r = aadVersionEnvKey" "nt_value r = toy_sealed 1 ''abc''"
    using toy_stored [OF toy_vault_ok toy_vault_key(2,1) toy_envs(1) toy_names(1), of "''abc''"] by force
  have no: "own_row (vt_db toy_vault) k = None" for k
    by (simp add: own_row_def row_at_def toy_no_entries split: option.splits)
  have "toy_prod \<noteq> toy_default" "default_scope toy_prod = toy_default" "sc_env toy_prod \<noteq> DefaultEnvName"
    by (simp_all add: toy_prod_def toy_default_def default_scope_def DefaultEnvName_def)
  moreover from this have "own_row (vt_db v) (toy_prod, ''TOKEN'') = None" "own_row (vt_db v) (toy_default, ''TOKEN'') = Some r"
    using v(5) no by (simp_all add: fun_upd_apply)
  ultimately have "visible_row (vt_db v) toy_prod ''TOKEN'' = Some (1, 1, r, SourceDefault)"
    using v(4,6,7) toy_envs(2) unfolding visible_own [OF v(1)] by simp
  then show ?thesis using v by blast
qed

lemma captured_keys_open_their_rows_witness:
  "\<exists>v m v' k. capture_row_keys_with_key toy_crypto io_ok (\<lambda>_. Some toy_nonce) toy_key toy_prod [''TOKEN''] v = (Inr m, v') \<and>
     map_get m ''TOKEN'' = Some k \<and> open_with_row_key toy_crypto io_ok toy_prod ''TOKEN'' k v' = Inr ''abc''"
proof -
  obtain v :: vault and r where v: "db_ok (vt_db v)" "vt_id v = ''id''" "vt_key v = Some toy_key"
      "env_at (vt_db v) = env_at (vt_db toy_vault)" "nt_aad r = aadVersionEnvKey" "nt_value r = toy_sealed 1 ''abc''"
      and vis: "visible_row (vt_db v) toy_prod ''TOKEN'' = Some (1, 1, r, SourceDefault)"
    using toy_with_default by force
  have row: "nt_kind r = EnvVar" "nt_name r = ''TOKEN''"
    using v(1) visible_row_at [OF vis] by (auto simp: db_ok_def entries_ok_def)
  obtain k where k: "v3_row_key toy_crypto ''id'' toy_key 1 1 EnvVar ''TOKEN'' = Inr k" "length k = 32"
    using toy_row_key by blast
  have env: "env_at (vt_db v) toy_prod = Some (1, 2)" using v(4) toy_envs by simp
  have ids: "scope_ids io_ok (vt_db v) toy_prod = Inr (1, 2)" using env by (simp add: scope_ids_Inr)
  have f: "fetch_inherited io_ok (vt_db v) 1 2 (sc_env toy_prod) ''TOKEN'' = Inr (Some (r, 1))"
    using fetch_inherited_visible [OF v(1) io_ok_simps(1) env] vis by simp
  have "row_key_of toy_crypto ''id'' toy_key 1 1 r ''TOKEN'' = Inr k" using v k by (simp add: row_key_of_def aad_versions)
  then have c: "capture_row_keys_with_key toy_crypto io_ok (\<lambda>_. Some toy_nonce) toy_key toy_prod [''TOKEN''] v =
      (Inr [(''TOKEN'', k)], v)"
    using v f ids by (simp add: capture_row_keys_with_key_def capture_one_def aad_versions map_put_def)
  have d: "decrypt_with_aad toy_crypto k (toy_sealed 1 ''abc'') (entry_aad_v3 ''id'' 1 1 EnvVar ''TOKEN'') = Inr ''abc''"
    using k by (simp add: toy_opens)
  obtain e where e: "get_with_key toy_crypto io_ok toy_key toy_prod ''TOKEN'' v = Inr e" "nv_value e = ''abc''"
    using get_visible [OF v(1) io_ok_simps(1) env, of toy_crypto toy_key] vis v row k d
    by (simp add: decrypt_entry_def open_entry_def aad_versions as_vault_def)
  have o: "entry_origin io_ok toy_prod ''TOKEN'' v = Inr (Some (True, False))"
    using ids f v by (simp add: entry_origin_def aad_versions)
  have "nonces_ok (\<lambda>_. Some toy_nonce)" by (simp add: nonces_ok_def toy_nonce_def)
  then have "\<exists>k. map_get [(''TOKEN'', k')] ''TOKEN'' = Some k \<and> open_with_row_key toy_crypto io_ok toy_prod ''TOKEN'' k v = Inr ''abc''"
    if "k' = k" for k'
    using captured_keys_open_their_rows [OF toy_works v(1) _ io_ok_simps(1) c _ e(1) o] that e(2) by simp
  then show ?thesis using c by blast
qed

section \<open>An override makes a captured key useless\<close>

lemma other_key:
  assumes "aead_works cl" and "length k = 32" and "length k' = 32" and "length nonce = 24"
    and "encrypt_with_aad cl (Some nonce) k p a = Inr ct" and "decrypt_with_aad cl k' ct a = Inr p'"
  shows "k = k' \<or> aead_forged cl k (build_aad a) k' (build_aad a)"
proof -
  obtain n' where "length n' = 24" "encrypt_with_aad cl (Some n') k' p' a = Inr ct"
    using decrypt_iff [OF assms(1,3)] assms(6) by blast
  then have "n' = nonce \<and> cl_seal cl k nonce p (build_aad a) = cl_seal cl k' n' p' (build_aad a)"
    using assms(2-5) by (auto simp: encrypt_with_aad_def VaultKeySize_def append_eq_append_conv)
  then show ?thesis using assms(4) by (auto simp: aead_forged_def)
qed

text \<open>
  A row key captured for a value inherited from the default environment does not open the value
  once the scope has one of its own: with the row format of every current write, if it did, either two
  environments had the same row key or the cipher was forged. The comments on both functions say the
  opposite, that row keys are independent of the environment and one key opens either row: true of the
  older format only.
\<close>

theorem override_outdates_captured_key:
  assumes cl: "aead_works cl" and ok: "db_ok (vt_db v)" and nonce: "length nonce = 24" and key: "vt_key v = Some vk"
    and vis: "visible_row (vt_db v) s n = Some (p, d, r, SourceDefault)" and k: "row_key_of cl (vt_id v) vk p d r n = Inr k"
    and put: "put_env_var cl io now (Some nonce) s n x c v = (Inr (), v')"
    and opened: "open_with_row_key cl io' s n k v' = Inr y"
  shows "\<exists>k' eid. v3_row_key cl (vt_id v) vk p eid EnvVar n = Inr k' \<and> eid \<noteq> d \<and>
    (k' = k \<or> aead_forged cl k' (build_aad (entry_aad_v3 (vt_id v) p eid EnvVar n)) k (build_aad (entry_aad_v3 (vt_id v) p eid EnvVar n)))"
proof -
  obtain vk' pid eid ct where q: "vt_key v = Some vk'" "env_at (vt_db v) s = Some (pid, eid)"
      "seal_entry cl (vt_id v) (Some nonce) vk' pid eid EnvVar n x = Inr ct"
      "v' = v\<lparr>vt_db := upsert_env_var now pid eid n ct currentAADVersion (vt_db v)\<rparr>"
    by (rule put_env_var_cases [OF put], (rule that; assumption))
  have vk: "vk' = vk" using q(1) key by simp
  obtain dd where dd: "find_env (vt_db v) pid DefaultEnvName = Some dd" "p = pid" "d = en_id dd" "sc_env s \<noteq> DefaultEnvName"
    using vis q(2) by (auto simp: visible_row_def split: option.splits if_splits)
  have ne: "eid \<noteq> d" using default_env_id [OF ok q(2) dd(1)] dd by auto
  obtain r' where r': "nt_project r' = pid" "nt_env r' = eid" "nt_value r' = ct" "nt_aad r' = currentAADVersion"
      "own_row (vt_db v') = (own_row (vt_db v))((s, n) \<mapsto> r')"
    using own_row_upsert [OF ok q(2), of n ct currentAADVersion now] q(4) by auto
  have ok': "db_ok (vt_db v')" using ok_upsert [OF ok q(2)] q(4) by simp
  have vis': "visible_row (vt_db v') s n = Some (pid, eid, r', SourceScope)" by (simp add: visible_own [OF ok'] r')
  have io': "load_error io' = None" using open_with_row_key_needs [OF ok' opened] by blast
  have dec: "decrypt_with_aad cl k ct (entry_aad_v3 (vt_id v) pid eid EnvVar n) = Inr y"
    using opened r' q(4) unfolding open_with_row_key_visible [OF ok' io' vis']
    by (auto simp: aad_versions as_vault_def split: sum.splits)
  then have lk: "length k = 32" by (auto simp: decrypt_with_aad_def VaultKeySize_def split: if_splits)
  obtain k' where k': "v3_row_key cl (vt_id v) vk pid eid EnvVar n = Inr k'"
      "encrypt_with_aad cl (Some nonce) k' x (entry_aad_v3 (vt_id v) pid eid EnvVar n) = Inr ct"
    using q(3) vk by (auto simp: seal_entry_Inr)
  have "k' = k \<or> aead_forged cl k' (build_aad (entry_aad_v3 (vt_id v) pid eid EnvVar n)) k (build_aad (entry_aad_v3 (vt_id v) pid eid EnvVar n))"
    using other_key [OF cl v3_row_key_length [OF cl k'(1)] lk nonce k'(2) dec] by blast
  then show ?thesis using k'(1) ne dd(2) by blast
qed

lemma override_outdates_captured_key_witness:
  "\<exists>v v' k r. row_key_of toy_crypto ''id'' toy_key 1 1 r ''TOKEN'' = Inr k \<and>
     put_env_var toy_crypto io_ok 5 (Some toy_nonce) toy_prod ''TOKEN'' ''new'' False v = (Inr (), v') \<and>
     open_with_row_key toy_crypto io_ok toy_prod ''TOKEN'' k v' = Inr ''new'' \<and>
     (\<exists>k' eid. v3_row_key toy_crypto ''id'' toy_key 1 eid EnvVar ''TOKEN'' = Inr k' \<and> eid \<noteq> 1)"
proof -
  obtain v :: vault and r where v: "db_ok (vt_db v)" "vt_id v = ''id''" "vt_key v = Some toy_key"
      "env_at (vt_db v) = env_at (vt_db toy_vault)" "nt_aad r = aadVersionEnvKey" "nt_value r = toy_sealed 1 ''abc''"
      and vis: "visible_row (vt_db v) toy_prod ''TOKEN'' = Some (1, 1, r, SourceDefault)"
    using toy_with_default by force
  have env: "env_at (vt_db v) toy_prod = Some (1, 2)" using v(4) toy_envs by simp
  obtain k where k: "v3_row_key toy_crypto ''id'' toy_key 1 1 EnvVar ''TOKEN'' = Inr k" "length k = 32"
    using toy_row_key by blast
  have rk: "row_key_of toy_crypto (vt_id v) toy_key 1 1 r ''TOKEN'' = Inr k" using v k by (simp add: row_key_of_def aad_versions)
  obtain v' r' where p: "put_env_var toy_crypto io_ok 5 (Some toy_nonce) toy_prod ''TOKEN'' ''new'' False v = (Inr (), v')"
      "db_ok (vt_db v')" "vt_id v' = ''id''" "own_row (vt_db v') = (own_row (vt_db v))((toy_prod, ''TOKEN'') \<mapsto> r')"
      "nt_project r' = 1" "nt_env r' = 2" "nt_aad r' = aadVersionEnvKey" "nt_value r' = toy_sealed 2 ''new''"
    using toy_stored [OF v(1,2,3) env toy_names(2), of "''new''"] by force
  have vis': "visible_row (vt_db v') toy_prod ''TOKEN'' = Some (1, 2, r', SourceScope)"
    by (simp add: visible_own [OF p(2)] p)
  have o: "open_with_row_key toy_crypto io_ok toy_prod ''TOKEN'' k v' = Inr ''new''"
    unfolding open_with_row_key_visible [OF p(2) io_ok_simps(1) vis'] using p k by (simp add: toy_opens aad_versions as_vault_def)
  have "length toy_nonce = 24" by (simp add: toy_nonce_def)
  from override_outdates_captured_key [OF toy_works v(1) this v(3) vis rk p(1) o]
  have "\<exists>k' eid. v3_row_key toy_crypto ''id'' toy_key 1 eid EnvVar ''TOKEN'' = Inr k' \<and> eid \<noteq> 1" using v(2) by auto
  then show ?thesis using p(1) rk [unfolded v(2)] o by blast
qed

end
