(* ===== verification/Vault_Run_Claims.thy ===== *)
theory Vault_Run_Claims
  imports Vault_Trail Vault_Grant_Claims
begin

text \<open>
  The properties of recorded runs: walking up the snapshots ends, a recorded run says for ever what
  it was given, and what it fails to say.
\<close>

section \<open>The walk ends\<close>

text \<open>
  C21. Resolving a snapshot ends on every database, whatever its rows say of their parents. It gives
  a result exactly if the ancestors come to an end, reading each snapshot at most once and no more of
  them than the table has (and one id without a row); otherwise it reports a snapshot that is its own ancestor, and
  that snapshot really is on a cycle above the one asked for.
\<close>

theorem resolving_ends:
  "(case snapshot_chain db [] i of
      Inr c \<Rightarrow> rooted db i \<and> distinct c \<and> length c \<le> Suc (length (db_snapshots db))
    | Inl e \<Rightarrow> \<not> rooted db i \<and> (\<exists>a. e = ErrOwnAncestor a \<and> (up db)\<^sup>*\<^sup>* i a \<and> (up db)\<^sup>+\<^sup>+ a a)) \<and>
   ((\<exists>refs. resolve_tx db i = Inr refs) \<longleftrightarrow> rooted db i)"
proof -
  have up: "rooted db i \<Longrightarrow> (up db)\<^sup>*\<^sup>* i a \<Longrightarrow> rooted db a" for i a
    by (rotate_tac, induction rule: converse_rtranclp_induct) (auto elim: rooted_upE dest: up_unique)
  have "case snapshot_chain db [] i of
      Inl e \<Rightarrow> \<exists>a. e = ErrOwnAncestor a \<and> (up db)\<^sup>*\<^sup>* i a \<and> (up db)\<^sup>+\<^sup>+ a a
    | Inr c \<Rightarrow> rooted db i \<and> distinct c \<and> length c \<le> Suc (length (db_snapshots db))"
    by (rule chain_outcome) simp_all
  then show ?thesis
    using up rooted_acyclic by (auto simp: resolve_tx_def split: sum.splits)
qed

section \<open>Recorded runs\<close>

datatype trail_event =
    Operation store_io int "string \<Rightarrow> bytes option" vault_op
  | Recorded store_io int vault_scope exec_run_meta "string list"

fun run_event :: "crypto_lib \<Rightarrow> hash \<Rightarrow> trail_event \<Rightarrow> vault \<Rightarrow> vault" where
  "run_event cl sha (Operation io now draws op) v = snd (run_vault_op cl io now draws op v)"
| "run_event cl sha (Recorded io now scope meta names) v = snd (record_run_refs sha io now scope meta names v)"

definition run_events :: "crypto_lib \<Rightarrow> hash \<Rightarrow> trail_event list \<Rightarrow> vault \<Rightarrow> vault" where
  "run_events cl sha evs v = fold (run_event cl sha) evs v"

definition given_refs :: "hash \<Rightarrow> vault_db \<Rightarrow> int \<Rightarrow> int \<Rightarrow> string list \<Rightarrow> string \<Rightarrow> (int \<times> string) option" where
  "given_refs sha db pid eid names n =
     (if n \<in> set names then map_option (\<lambda>r. (nt_id r, blob_digest sha (nt_value r))) (row_at db pid eid n) else None)"

lemma db_ok_cong:
  assumes "db_ok db" and "db_projects db' = db_projects db" "db_envs db' = db_envs db" "db_entries db' = db_entries db"
    and "\<And>t. t \<in> {TProjects, TEnvs, TEntries} \<Longrightarrow> db_seq db' t = db_seq db t"
  shows "db_ok db'"
  using assms by (simp add: db_ok_def projects_ok_def envs_ok_def entries_ok_def ids_ok_def)

lemma record_cases:
  assumes ok: "db_ok (vt_db v)" and trail: "trail_ok (vt_db v)"
    and s: "record_run_refs sha io now scope meta names v = (Inr rid, v')"
  obtains pid eid sid db1 current refs where "env_at (vt_db v) scope = Some (pid, eid)"
    and "v' = v\<lparr>vt_db := snd (insert_run now sid meta db1)\<rparr>" and "rid = fst (insert_run now sid meta db1)"
    and "db_ok db1" and "trail_ok db1" and "\<exists>s \<in> set (db_snapshots db1). sn_id s = sid \<and> sn_project s = pid \<and> sn_env s = eid"
    and "resolve_tx db1 sid = Inr refs" and "map_get refs = given_refs sha (vt_db v) pid eid names"
    and "\<And>x. x \<in> set (db_snapshots (vt_db v)) \<Longrightarrow> x \<in> set (db_snapshots db1) \<and> resolve_tx db1 (sn_id x) = resolve_tx (vt_db v) (sn_id x)"
    and "db_runs db1 = db_runs (vt_db v)" and "scopes db1 = scopes (vt_db v)" and "db_seq db1 TEnvs = db_seq (vt_db v) TEnvs"
proof -
  obtain pid eid where q: "scope_ids io (vt_db v) scope = Inr (pid, eid)"
    using s by (cases "scope_ids io (vt_db v) scope") (auto simp: record_run_refs_def)
  then have env: "env_at (vt_db v) scope = Some (pid, eid)" and io: "load_error io = None" by (simp_all add: scope_ids_Inr)
  obtain current where cur: "entry_refs sha io (vt_db v) pid eid [] names = Inr current"
    using s q by (cases "entry_refs sha io (vt_db v) pid eid [] names") (auto simp: record_run_refs_def)
  have eok: "entries_ok (vt_db v)" using ok by (simp add: db_ok_def)
  have get: "go_map_ok current" "map_get current = given_refs sha (vt_db v) pid eid names"
    using entry_refs_get [OF eok io cur] by (auto simp: given_refs_def fun_eq_iff split: option.split)
  obtain db' where st: "record_stmts now pid eid meta current (vt_db v) = Inr (rid, db')" "v' = v\<lparr>vt_db := db'\<rparr>"
    using s q cur by (auto simp: record_run_refs_def transact_Inr)
  obtain parentID parent where l: "latest_snapshot (vt_db v) pid eid = Inr (parentID, parent)"
    using st(1) by (cases "latest_snapshot (vt_db v) pid eid") (auto simp: record_stmts_def)
  obtain e where e: "e \<in> set (db_envs (vt_db v))" "en_id e = eid" "en_project e = pid"
    using env_at_row [OF env] by blast
  then have scope: "(eid, pid) \<in> set (scopes (vt_db v))" by (force simp: scopes_def)
  show ?thesis
  proof (cases "parentID = 0 \<or> \<not> same_refs parent current")
    case True
    obtain sid db1 where w: "write_snapshot_diff now pid eid parentID parent current (vt_db v) = (sid, db1)" by fastforce
    then have ins: "insert_run now sid meta db1 = (rid, db')" using st(1) l True by (simp add: record_stmts_def)
    note ws = write_snapshot [OF trail l scope get(1) w]
    have ok1: "db_ok db1"
      by (rule db_ok_cong [OF ok]) (use w in \<open>auto simp: write_snapshot_diff_def take_id_def Let_def\<close>)
    obtain refs where refs: "resolve_tx db1 sid = Inr refs" "map_get refs = map_get current" using ws(3) by blast
    show ?thesis
      by (rule that [of pid eid sid db1 refs]) (use env ins st(2) ws refs get(2) ok1 in auto)
  next
    case False
    then have ins: "insert_run now parentID meta (vt_db v) = (rid, db')" using st(1) l by (simp add: record_stmts_def)
    obtain x where x: "x \<in> set (db_snapshots (vt_db v))" "sn_id x = parentID" "sn_project x = pid" "sn_env x = eid"
        "resolve_tx (vt_db v) parentID = Inr parent"
      using False by (cases rule: latest_snapshot_cases [OF trail l]) auto
    have "map_get parent = map_get current"
      using same_refs_get [OF resolved_ok [OF x(5)] get(1)] False by simp
    then show ?thesis
      by (intro that [of pid eid parentID "vt_db v" parent]) (use env ins st(2) x trail get(2) ok in auto)
  qed
qed

lemma insert_run_tables [simp]:
  "db_snapshots (snd (insert_run now s m db)) = db_snapshots db" "db_refs (snd (insert_run now s m db)) = db_refs db"
  "db_envs (snd (insert_run now s m db)) = db_envs db" "db_projects (snd (insert_run now s m db)) = db_projects db"
  "db_entries (snd (insert_run now s m db)) = db_entries db"
  "t \<noteq> TRuns \<Longrightarrow> db_seq (snd (insert_run now s m db)) t = db_seq db t"
  by (simp_all add: insert_run_def take_id_def Let_def)

section \<open>What a run is on record for\<close>

lemma record_Inl: "record_run_refs sha io now scope meta names v = (Inl e, v') \<Longrightarrow> v' = v"
  by (auto simp: record_run_refs_def dest: transact_Inl split: sum.splits prod.splits)

lemma insert_run_trail:
  assumes "trail_ok db"
  shows "trail_ok (snd (insert_run now sid meta db))"
    and "x \<in> set (db_snapshots db) \<Longrightarrow> resolve_tx (snd (insert_run now sid meta db)) (sn_id x) = resolve_tx db (sn_id x)"
proof -
  let ?db = "snd (insert_run now sid meta db)"
  show ok': "trail_ok ?db" using assms by (simp add: trail_ok_def ids_ok_def scopes_def)
  show "resolve_tx ?db (sn_id x) = resolve_tx db (sn_id x)" if x: "x \<in> set (db_snapshots db)"
  proof -
    obtain c where "lineage db (sn_id x) c" using lineage_exists [OF assms x] by auto
    then show ?thesis by (intro resolve_moves [OF assms ok']) (simp_all add: snapshot_by_id_def)
  qed
qed

lemma record_ok:
  assumes ok: "db_ok (vt_db v)" and trail: "trail_ok (vt_db v)" and r: "record_run_refs sha io now scope meta names v = (res, v')"
  shows "db_ok (vt_db v')" and "trail_ok (vt_db v')"
proof -
  have "db_ok (vt_db v') \<and> trail_ok (vt_db v')"
  proof (cases res)
    case (Inl e)
    then show ?thesis using record_Inl r ok trail by blast
  next
    case (Inr rid)
    show ?thesis
    proof (rule record_cases [OF ok trail r [unfolded Inr]])
      fix sid db1
      assume a: "v' = v\<lparr>vt_db := snd (insert_run now sid meta db1)\<rparr>" "db_ok db1" "trail_ok db1"
      have "db_ok (snd (insert_run now sid meta db1))" by (rule db_ok_cong [OF a(2)]) auto
      then show ?thesis using a insert_run_trail(1) [OF a(3)] by simp
    qed
  qed
  then show "db_ok (vt_db v')" "trail_ok (vt_db v')" by blast+
qed

lemma event_ok:
  assumes "db_ok (vt_db v)" and "trail_ok (vt_db v)"
  shows "db_ok (vt_db (run_event cl sha ev v))" and "trail_ok (vt_db (run_event cl sha ev v))"
proof -
  have "db_ok (vt_db (run_event cl sha ev v)) \<and> trail_ok (vt_db (run_event cl sha ev v))"
  proof (cases ev)
    case (Operation io now draws op)
    have "envs_ok (vt_db v)" using assms(1) by (simp add: db_ok_def)
    then show ?thesis
      using run_vault_op_ok [OF assms(1)] run_vault_op_trail [of v cl io now draws op] trail_same_keeps(1) [OF assms(2)]
        trail_cut_keeps(1) [OF assms(2)] by (auto simp: Operation trail_step_def)
  next
    case (Recorded io now scope meta names)
    show ?thesis
      using record_ok [OF assms] by (cases "record_run_refs sha io now scope meta names v") (auto simp: Recorded)
  qed
  then show "db_ok (vt_db (run_event cl sha ev v))" "trail_ok (vt_db (run_event cl sha ev v))" by blast+
qed

text \<open>A run is tracked: while its environment exists, its row and its snapshot are there and resolve to the same.\<close>

definition tracked :: "run_row \<Rightarrow> snapshot_row \<Rightarrow> refs \<Rightarrow> vault_db \<Rightarrow> bool" where
  "tracked r x m db \<longleftrightarrow> sn_env x \<le> db_seq db TEnvs \<and> rn_snapshot r = Some (sn_id x) \<and>
     ((sn_env x, sn_project x) \<in> set (scopes db) \<longrightarrow>
        r \<in> set (db_runs db) \<and> x \<in> set (db_snapshots db) \<and> resolve_tx db (sn_id x) = Inr m)"

lemma event_tracked:
  assumes ok: "db_ok (vt_db v)" and trail: "trail_ok (vt_db v)" and t: "tracked r x m (vt_db v)"
  shows "tracked r x m (vt_db (run_event cl sha ev v))"
proof (cases ev)
  case (Operation io now draws op)
  let ?db' = "vt_db (run_event cl sha ev v)"
  consider "trail_same (vt_db v) ?db'" | "trail_cut (vt_db v) ?db'"
    using run_vault_op_trail [of v cl io now draws op] by (auto simp: Operation trail_step_def)
  then show ?thesis
  proof cases
    case 1
    note s = 1 [unfolded trail_same_def]
    have "(sn_env x, sn_project x) \<in> set (scopes ?db') \<longrightarrow> (sn_env x, sn_project x) \<in> set (scopes (vt_db v))"
      using s t by (force simp: tracked_def)
    then show ?thesis using s t trail_same_keeps(2) [OF trail 1] by (auto simp: tracked_def)
  next
    case 2
    have envs: "envs_ok (vt_db v)" using ok by (simp add: db_ok_def)
    note c = trail_cut_keeps [OF trail envs 2]
    show ?thesis using c(2-5) t unfolding tracked_def by (metis subsetD)
  qed
next
  case (Recorded io now scope meta names)
  obtain res w where rec: "record_run_refs sha io now scope meta names v = (res, w)" by fastforce
  then have w: "run_event cl sha ev v = w" by (simp add: Recorded)
  show ?thesis
  proof (cases res)
    case (Inl e)
    have "w = v" by (rule record_Inl [OF rec [unfolded Inl]])
    then show ?thesis using t w by simp
  next
    case (Inr rid)
    show ?thesis
    proof (rule record_cases [OF ok trail rec [unfolded Inr]])
      fix sid db1
      assume a: "w = v\<lparr>vt_db := snd (insert_run now sid meta db1)\<rparr>" "trail_ok db1" "db_runs db1 = db_runs (vt_db v)"
          "scopes db1 = scopes (vt_db v)" "db_seq db1 TEnvs = db_seq (vt_db v) TEnvs"
        and k: "\<And>x. x \<in> set (db_snapshots (vt_db v)) \<Longrightarrow> x \<in> set (db_snapshots db1) \<and> resolve_tx db1 (sn_id x) = resolve_tx (vt_db v) (sn_id x)"
      have "scopes (vt_db w) = scopes (vt_db v)" "db_seq (vt_db w) TEnvs = db_seq (vt_db v) TEnvs" "set (db_runs (vt_db v)) \<subseteq> set (db_runs (vt_db w))"
          "db_snapshots (vt_db w) = db_snapshots db1"
        using a by (simp_all add: scopes_def insert_run_def take_id_def Let_def) auto
      then show ?thesis
        using t k [of x] insert_run_trail(2) [OF a(2), of x now sid meta] a(1) unfolding w tracked_def by auto
    qed
  qed
qed

interpretation trail: history "run_event cl sha" "\<lambda>v. db_ok (vt_db v) \<and> trail_ok (vt_db v)" for cl sha
  by unfold_locales (simp add: event_ok)

lemma run_events_ok:
  assumes "db_ok (vt_db v)" and "trail_ok (vt_db v)"
  shows "db_ok (vt_db (run_events cl sha evs v)) \<and> trail_ok (vt_db (run_events cl sha evs v))"
  using assms unfolding run_events_def by (intro trail.run_inv) blast

lemma run_events_tracked:
  assumes "db_ok (vt_db v)" and "trail_ok (vt_db v)" and "tracked r x m (vt_db v)"
  shows "tracked r x m (vt_db (run_events cl sha evs v))"
  using assms unfolding run_events_def
  by (intro trail.run_keeps [of _ "\<lambda>v. tracked r x m (vt_db v)"]) (simp_all add: event_tracked)

lemma fresh_trail: "trail_ok (vt_db (fresh_vault now seed vaultID name wrapped))"
  by (simp add: fresh_tables
      trail_ok_def ids_ok_def)

text \<open>
  C20. Take any history of a vault, record a run at the end of it, and let any history follow, of
  operations on the vault and of further runs. As long as the environment of the run exists, the run is
  on record with what byn knew of its caller, and its snapshot resolves to exactly the entries that
  its names had in that environment when it was recorded, with the digests of their ciphertexts then:
  no later write, renaming, deletion or run alters or drops it, although only differences are stored.
\<close>

theorem recorded_run_is_immutable:
  assumes v: "v = run_events cl sha before (fresh_vault now0 seed vaultID name wrapped)"
    and rec: "record_run_refs sha io now scope meta names v = (Inr rid, v1)"
    and env: "env_at (vt_db v) scope = Some (pid, eid)"
    and v2: "v2 = run_events cl sha after v1" and alive: "(eid, pid) \<in> set (scopes (vt_db v2))"
  shows "\<exists>r sid refs. r \<in> set (db_runs (vt_db v2)) \<and> rn_id r = rid \<and> rn_meta r = meta \<and> rn_at r = now \<and>
    rn_snapshot r = Some sid \<and> resolve_snapshot io_ok sid v2 = Inr refs \<and>
    map_get refs = given_refs sha (vt_db v) pid eid names"
proof -
  have ok: "db_ok (vt_db v)" "trail_ok (vt_db v)"
    using run_events_ok [OF _ fresh_trail] by (auto simp: v fresh_vault_def ok_fresh)
  show ?thesis
  proof (rule record_cases [OF ok rec])
    fix pid' eid' sid db1 refs
    assume a: "env_at (vt_db v) scope = Some (pid', eid')" "v1 = v\<lparr>vt_db := snd (insert_run now sid meta db1)\<rparr>"
        "rid = fst (insert_run now sid meta db1)" "trail_ok db1"
        "\<exists>s \<in> set (db_snapshots db1). sn_id s = sid \<and> sn_project s = pid' \<and> sn_env s = eid'"
        "resolve_tx db1 sid = Inr refs" "map_get refs = given_refs sha (vt_db v) pid' eid' names"
        "db_seq db1 TEnvs = db_seq (vt_db v) TEnvs"
    have same: "pid' = pid" "eid' = eid" using a(1) env by simp_all
    obtain x where x: "x \<in> set (db_snapshots db1)" "sn_id x = sid" "sn_project x = pid" "sn_env x = eid" using a(5) same by blast
    let ?r = "\<lparr>rn_id = rid, rn_at = now, rn_snapshot = Some sid, rn_meta = meta\<rparr>"
    obtain e where "e \<in> set (db_envs (vt_db v))" "en_id e = eid" using env_at_row [OF env] by blast
    then have "eid \<le> db_seq (vt_db v) TEnvs" using ok(1) by (auto simp: db_ok_def envs_ok_def ids_ok_def)
    moreover have "?r \<in> set (db_runs (vt_db v1))" using a(2,3) by (simp add: insert_run_def take_id_def Let_def)
    ultimately have "tracked ?r x refs (vt_db v1)"
      using x a(2,6,8) insert_run_trail(2) [OF a(4) x(1)] by (simp add: tracked_def)
    then have "tracked ?r x refs (vt_db v2)"
      using run_events_tracked record_ok [OF ok rec] v2 by blast
    then have "?r \<in> set (db_runs (vt_db v2))" "resolve_tx (vt_db v2) sid = Inr refs"
      using alive x(2-4) by (auto simp: tracked_def)
    then show ?thesis using a(7) same by (intro exI [of _ ?r] exI [of _ sid] exI [of _ refs]) (simp add: resolve_snapshot_def)
  qed
qed

text \<open>The example vault is a history of its own, and what is needed to record a run in it.\<close>

lemma toy_is_a_history:
  "toy_vault = run_events toy_crypto sha [Operation io_ok 0 d (VUnlock ''pw''), Operation io_ok 1 d (VCreateEnv DefaultProjectName ''prod'')]
     (fresh_vault 0 [] ''id'' DefaultVaultName (Some toy_wrapped))"
  by (simp add: run_events_def toy_vault_def unlock_vault_def unwrap_vault_key_def toy_unwraps fresh_vault_def as_vault_def)

lemma run_events_snoc: "run_events cl sha (evs @ [ev]) v = run_event cl sha ev (run_events cl sha evs v)"
  by (simp add: run_events_def)

lemma toy_records:
  assumes "env_at (vt_db v) s = Some (pid, eid)" and "db_ok (vt_db v)" and "db_snapshots (vt_db v) = []"
  shows "\<exists>rid v'. record_run_refs sha io_ok 7 s meta names v = (Inr rid, v')"
proof -
  have q: "scope_ids io_ok (vt_db v) s = Inr (pid, eid)" using assms(1) by (simp add: scope_ids_Inr)
  have "\<exists>m. entry_refs sha io_ok (vt_db v) pid eid out ns = Inr m" for out ns
    using assms(2) by (induction ns arbitrary: out) (auto simp: fetch_entry_row db_ok_def split: option.split)
  then obtain m where "entry_refs sha io_ok (vt_db v) pid eid [] names = Inr m" by blast
  then show ?thesis
    using q assms(3) by (cases "insert_run 7 1 meta (vt_db v)")
      (auto simp: record_run_refs_def record_stmts_def latest_snapshot_def transact_def split: prod.splits)
qed

lemma toy_snapshots: "db_snapshots (vt_db toy_vault) = []" "trail_ok (vt_db toy_vault)"
proof -
  have same: "db_snapshots (vt_db (snd (create_env io now p e v))) = db_snapshots (vt_db v)" for io now p e v
    using creates_trail(2) [of v io now p e] by (simp add: trail_same_def)
  show "db_snapshots (vt_db toy_vault) = []"
    by (simp add: toy_vault_def same fresh_tables)
  show "trail_ok (vt_db toy_vault)"
    using run_events_ok [OF _ fresh_trail] by (subst toy_is_a_history [of id "\<lambda>_. None"]) (simp add: fresh_vault_def ok_fresh)
qed

definition toy_meta :: exec_run_meta where
  "toy_meta = \<lparr>rm_byn_path = [], rm_command = ''make'', rm_caller_pid = 1, rm_caller_comm = [], rm_caller_agent = 0,
     rm_agent_comm = [], rm_caller_cwd = [], rm_unattended = []\<rparr>"

text \<open>A vault with a value in the default environment, as a history.\<close>

definition toy_before :: "trail_event list" where
  "toy_before = [Operation io_ok 0 (\<lambda>_. Some toy_nonce) (VUnlock ''pw''),
     Operation io_ok 1 (\<lambda>_. Some toy_nonce) (VCreateEnv DefaultProjectName ''prod''),
     Operation io_ok 5 (\<lambda>_. Some toy_nonce) (VPut toy_default ''TOKEN'' ''abc'' False)]"

lemma toy_history:
  assumes v_def: "v = run_events toy_crypto sha toy_before (fresh_vault 0 [] ''id'' DefaultVaultName (Some toy_wrapped))"
  obtains r where "db_ok (vt_db v)" and "trail_ok (vt_db v)" and "vt_id v = ''id''" and "vt_key v = Some toy_key"
    and "env_at (vt_db v) = env_at (vt_db toy_vault)" and "db_snapshots (vt_db v) = []"
    and "own_row (vt_db v) = [(toy_default, ''TOKEN'') \<mapsto> r]" and "nt_value r = toy_sealed 1 ''abc''"
proof -
  obtain v' r where p: "put_env_var toy_crypto io_ok 5 (Some toy_nonce) toy_default ''TOKEN'' ''abc'' False toy_vault = (Inr (), v')"
      "db_ok (vt_db v')" "vt_id v' = ''id''" "vt_key v' = Some toy_key" "env_at (vt_db v') = env_at (vt_db toy_vault)"
      "own_row (vt_db v') = (own_row (vt_db toy_vault))((toy_default, ''TOKEN'') \<mapsto> r)" "nt_value r = toy_sealed 1 ''abc''"
    using toy_stored [OF toy_vault_ok toy_vault_key(2,1) toy_envs(1) toy_names(1), of "''abc''"] by force
  let ?d = "\<lambda>_ :: string. Some toy_nonce"
  have b: "toy_before = [Operation io_ok 0 ?d (VUnlock ''pw''), Operation io_ok 1 ?d (VCreateEnv DefaultProjectName ''prod'')] @
      [Operation io_ok 5 ?d (VPut toy_default ''TOKEN'' ''abc'' False)]" by (simp add: toy_before_def)
  have "v = run_event toy_crypto sha (Operation io_ok 5 ?d (VPut toy_default ''TOKEN'' ''abc'' False)) toy_vault"
    unfolding v_def b run_events_snoc toy_is_a_history [of sha ?d, symmetric] ..
  then have v: "v = v'" using p(1) by simp
  have none: "own_row (vt_db toy_vault) = Map.empty"
    by (rule ext) (simp add: own_row_def row_at_def toy_no_entries split: option.splits)
  have t: "trail_same (vt_db toy_vault) (vt_db v')"
    using puts_trail(1) [of toy_vault toy_crypto io_ok 5 "Some toy_nonce" toy_default "''TOKEN''" "''abc''" False] p(1) by simp
  then have "db_snapshots (vt_db v') = []" using toy_snapshots(1) by (simp add: trail_same_def)
  then show ?thesis
    using p trail_same_keeps(1) [OF toy_snapshots(2) t] by (intro that [of r]) (simp_all add: v none)
qed

lemma toy_recorded:
  assumes "v = run_events toy_crypto sha toy_before (fresh_vault 0 [] ''id'' DefaultVaultName (Some toy_wrapped))"
    and "s = toy_default \<or> s = toy_prod"
  shows "\<exists>rid v1. record_run_refs sha io_ok 7 s toy_meta [''TOKEN''] v = (Inr rid, v1)"
  by (rule toy_history [OF assms(1)]) (use assms(2) toy_envs toy_records in force)

lemma recorded_run_is_immutable_witness:
  "\<exists>v v1 v2 rid r sid refs k dg.
     v = run_events toy_crypto id toy_before (fresh_vault 0 [] ''id'' DefaultVaultName (Some toy_wrapped)) \<and>
     record_run_refs id io_ok 7 toy_default toy_meta [''TOKEN''] v = (Inr rid, v1) \<and>
     v2 = run_events toy_crypto id [Operation io_ok 8 (\<lambda>_. Some toy_nonce) (VPut toy_default ''TOKEN'' ''new'' False)] v1 \<and>
     r \<in> set (db_runs (vt_db v2)) \<and> rn_id r = rid \<and> rn_snapshot r = Some sid \<and>
     resolve_snapshot io_ok sid v2 = Inr refs \<and> map_get refs ''TOKEN'' = Some (k, dg) \<and> dg = hex_encode (toy_sealed 1 ''abc'')"
proof -
  obtain v where v: "v = run_events toy_crypto id toy_before (fresh_vault 0 [] ''id'' DefaultVaultName (Some toy_wrapped))" by blast
  show ?thesis
  proof (rule toy_history [OF v])
    fix r
    assume h: "db_ok (vt_db v)" "trail_ok (vt_db v)" "env_at (vt_db v) = env_at (vt_db toy_vault)"
      "own_row (vt_db v) = [(toy_default, ''TOKEN'') \<mapsto> r]" "nt_value r = toy_sealed 1 ''abc''"
    obtain rid v1 where rec: "record_run_refs id io_ok 7 toy_default toy_meta [''TOKEN''] v = (Inr rid, v1)"
      using toy_recorded [OF v] by blast
    let ?after = "[Operation io_ok 8 (\<lambda>_. Some toy_nonce) (VPut toy_default ''TOKEN'' ''new'' False)]"
    obtain v2 where v2: "v2 = run_events toy_crypto id ?after v1" by blast
    have env: "env_at (vt_db v) toy_default = Some (1, 1)" using h(3) toy_envs by simp
    have row: "row_at (vt_db v) 1 1 ''TOKEN'' = Some r" using h(4) env by (auto simp: own_row_def dest: fun_cong [of _ _ "(toy_default, ''TOKEN'')"])
    have "(1, 1) \<in> set (scopes (vt_db v))" using env_at_row [OF env] by (force simp: scopes_def)
    moreover have "scopes (vt_db v1) = scopes (vt_db v)" by (rule record_cases [OF h(1,2) rec]) (simp add: scopes_def)
    ultimately have "(1, 1) \<in> set (scopes (vt_db v2))"
      using puts_trail(1) [of v1 toy_crypto io_ok 8 "Some toy_nonce" toy_default "''TOKEN''" "''new''" False]
      by (auto simp: v2 run_events_def trail_same_def)
    from recorded_run_is_immutable [OF v rec env v2 this]
    obtain r' sid refs where "r' \<in> set (db_runs (vt_db v2))" "rn_id r' = rid" "rn_snapshot r' = Some sid"
        "resolve_snapshot io_ok sid v2 = Inr refs" "map_get refs = given_refs id (vt_db v) 1 1 [''TOKEN'']" by blast
    moreover from this have "map_get refs ''TOKEN'' = Some (nt_id r, hex_encode (toy_sealed 1 ''abc''))"
      using row h(5) by (simp add: given_refs_def blob_digest_def)
    ultimately show ?thesis using v rec v2 by blast
  qed
qed

section \<open>What is missing from the record\<close>

text \<open>
  A value that a run inherits from the default environment leaves no reference at all: the run is
  recorded, its snapshot resolves, and the name is not in it, whatever names the run was given beside
  it and whichever value its process holds. The daemon records the names of every value it delivered,
  inherited ones included, but the references are looked up in the run's own environment only.
\<close>

theorem inherited_value_leaves_no_record:
  assumes ok: "db_ok (vt_db v)" and trail: "trail_ok (vt_db v)"
    and inherited: "visible_row (vt_db v) scope n = Some (p, d, r, SourceDefault)"
    and rec: "record_run_refs sha io now scope meta names v = (Inr rid, v')"
  shows "\<exists>x sid refs. x \<in> set (db_runs (vt_db v')) \<and> rn_id x = rid \<and> rn_snapshot x = Some sid \<and>
    resolve_snapshot io_ok sid v' = Inr refs \<and> map_get refs n = None"
proof (rule record_cases [OF ok trail rec])
  fix pid eid sid db1 refs
  assume a: "env_at (vt_db v) scope = Some (pid, eid)" "v' = v\<lparr>vt_db := snd (insert_run now sid meta db1)\<rparr>"
    "rid = fst (insert_run now sid meta db1)" "trail_ok db1" "\<exists>s \<in> set (db_snapshots db1). sn_id s = sid \<and> sn_project s = pid \<and> sn_env s = eid"
    "resolve_tx db1 sid = Inr refs" "map_get refs = given_refs sha (vt_db v) pid eid names"
  have "row_at (vt_db v) pid eid n = None" using inherited a(1) by (auto simp: visible_row_def split: option.splits)
  then have "map_get refs n = None" by (simp add: a(7) given_refs_def)
  moreover have "resolve_snapshot io_ok sid v' = Inr refs" using a(2,5,6) insert_run_trail(2) [OF a(4)] by (auto simp: resolve_snapshot_def)
  moreover have "\<lparr>rn_id = rid, rn_at = now, rn_snapshot = Some sid, rn_meta = meta\<rparr> \<in> set (db_runs (vt_db v'))"
    using a(2,3) by (simp add: insert_run_def take_id_def Let_def)
  ultimately show ?thesis by force
qed

lemma inherited_value_leaves_no_record_witness:
  "\<exists>v v' p d r rid x sid refs. visible_row (vt_db v) toy_prod ''TOKEN'' = Some (p, d, r, SourceDefault) \<and>
     record_run_refs id io_ok 7 toy_prod toy_meta [''TOKEN''] v = (Inr rid, v') \<and>
     x \<in> set (db_runs (vt_db v')) \<and> rn_id x = rid \<and> rn_snapshot x = Some sid \<and>
     resolve_snapshot io_ok sid v' = Inr refs \<and> map_get refs ''TOKEN'' = None"
proof -
  obtain v where v: "v = run_events toy_crypto id toy_before (fresh_vault 0 [] ''id'' DefaultVaultName (Some toy_wrapped))" by blast
  show ?thesis
  proof (rule toy_history [OF v])
    fix r
    assume h: "db_ok (vt_db v)" "trail_ok (vt_db v)" "env_at (vt_db v) = env_at (vt_db toy_vault)"
      "own_row (vt_db v) = [(toy_default, ''TOKEN'') \<mapsto> r]"
    obtain rid v' where rec: "record_run_refs id io_ok 7 toy_prod toy_meta [''TOKEN''] v = (Inr rid, v')"
      using toy_recorded [OF v] by blast
    have "toy_prod \<noteq> toy_default" "default_scope toy_prod = toy_default" "sc_env toy_prod \<noteq> DefaultEnvName"
      by (simp_all add: toy_prod_def toy_default_def default_scope_def DefaultEnvName_def)
    then have vis: "visible_row (vt_db v) toy_prod ''TOKEN'' = Some (nt_project r, nt_env r, r, SourceDefault)"
      unfolding visible_own [OF h(1)] using h(3,4) toy_envs(2) by simp
    obtain x sid refs where "x \<in> set (db_runs (vt_db v'))" "rn_id x = rid" "rn_snapshot x = Some sid"
        "resolve_snapshot io_ok sid v' = Inr refs" "map_get refs ''TOKEN'' = None"
      using inherited_value_leaves_no_record [OF h(1,2) vis rec] by blast
    then show ?thesis using vis rec by metis
  qed
qed

end
