(* ===== verification/Vault_Note_Claims.thy ===== *)
theory Vault_Note_Claims
  imports Vault_Note_Props Vault_Run_Claims "HOL-Library.Multiset"
begin

text \<open>
  The properties of annotations: a note is read back by its owner and nobody else, its history
  outlives edits and removal, a listing shows the annotations of the value a read returns; and how
  one note of an agent hides every note of a value from its owner.
\<close>

section \<open>Reading notes back\<close>

lemma open_notes_Inr:
  "open_notes opn ref xs = Inr out \<longleftrightarrow>
    (\<forall>a \<in> set xs. \<exists>t. opn a = Inr t) \<and> out = map (\<lambda>a. read_note ref (projr (opn a)) a) xs"
proof (induction xs arbitrary: out)
  case (Cons a xs)
  then show ?case by (cases "opn a"; cases "open_notes opn ref xs") auto
qed auto

lemma open_notes_Inl:
  "a \<in> set xs \<Longrightarrow> opn a = Inl e \<Longrightarrow> (\<And>b. b \<in> set xs \<Longrightarrow> b \<noteq> a \<Longrightarrow> \<exists>t. opn b = Inr t) \<Longrightarrow> open_notes opn ref xs = Inl e"
proof (induction xs)
  case (Cons b xs)
  show ?case
  proof (cases "opn b")
    case (Inl e')
    then have "b = a" using Cons.prems(3) [of b] by (cases "b = a") auto
    then show ?thesis using Inl Cons.prems(2) by simp
  next
    case (Inr t)
    then have "a \<in> set xs" using Cons.prems(1,2) by auto
    then show ?thesis using Inr Cons.IH Cons.prems by simp
  qed
qed simp

lemma mset_newest_first [simp]: "mset (newest_first xs) = mset xs"
  by (simp add: newest_first_def)

lemma set_newest_first [simp]: "set (newest_first xs) = set xs"
  by (simp add: newest_first_def)

lemma sort_key_snoc: "(\<And>x. x \<in> set xs \<Longrightarrow> f x \<le> f a) \<Longrightarrow> sort_key f (xs @ [a]) = sort_key f xs @ [a]"
proof (rule properties_for_sort_key)
  have "filter (\<lambda>x. f k = f x) (sort_key f xs) = filter (\<lambda>x. f k = f x) xs" for k
    using sort_key_stable [of f "f k" xs] by (simp only: eq_commute)
  then show "filter (\<lambda>x. f k = f x) (sort_key f xs @ [a]) = filter (\<lambda>x. f k = f x) (xs @ [a])" for k by simp
qed (auto simp: sorted_append)

lemma newest_first_snoc:
  assumes "\<And>x. x \<in> set xs \<Longrightarrow> an_id x \<le> an_id a \<and> an_created x \<le> an_created a"
  shows "newest_first (xs @ [a]) = a # newest_first xs"
proof -
  have "sort_key an_id (xs @ [a]) = sort_key an_id xs @ [a]" using assms by (intro sort_key_snoc) blast
  moreover have "sort_key an_created (sort_key an_id xs @ [a]) = sort_key an_created (sort_key an_id xs) @ [a]"
    using assms by (intro sort_key_snoc) simp
  ultimately show ?thesis by (simp add: newest_first_def)
qed

lemma add_note_base_cases:
  assumes "add_note_with_base cl lim io now draws ref text au base domain v = (Inr i, v')"
  obtains uid ct a db where "nd_uid draws = Some uid" and "seal_note cl (vt_id v) (nd_nonce draws) base ref domain uid text = Inr ct"
    and "v' = v\<lparr>vt_db := append_version i OpCreate [] ct au now db\<rparr>" and "db_annotations db = db_annotations (vt_db v) @ [a]"
    and "an_id a = i" and "i = db_seq (vt_db v) TAnnotations + 1" and "on_object ref a" and "an_kind a = KindNote" and "an_body_enc a = Some ct"
    and "an_domain a = domain" and "an_uid a = uid" and "live a" and "an_created a = now" and "an_author a = au_kind au" and "an_comm a = null_comm au"
    and "db_versions db = db_versions (vt_db v)" and "object_error ref = None" and "load_error io = None" and "ct \<noteq> []"
proof -
  obtain uid ct where u: "nd_uid draws = Some uid" "seal_note cl (vt_id v) (nd_nonce draws) base ref domain uid text = Inr ct"
      "transact io v (insert_note uid ref ct domain au now (vt_db v)) = (Inr i, v')" "object_error ref = None"
    using assms by (auto simp: add_note_with_base_def split: option.splits sum.splits if_splits)
  have io: "load_error io = None" using assms by (auto simp: add_note_with_base_def note_count_def split: option.splits sum.splits if_splits)
  obtain db where i: "insert_annotation uid ref KindNote None (Some ct) domain au now (vt_db v) = Inr (i, db)"
      "v' = v\<lparr>vt_db := append_version i OpCreate [] ct au now db\<rparr>"
    using u(3) by (auto simp: transact_Inr insert_note_def split: sum.splits)
  show ?thesis
    by (rule insert_annotation_Inr [OF i(1)], rule that [of uid ct db])
      (use u i io sealed_note_nonempty [OF u(2)] in \<open>simp_all add: on_object_def live_def\<close>)
qed

lemma add_note_cases:
  assumes "add_note cl lim io now draws ref text au v = (Inr i, v')"
  obtains vk base domain where "vt_key v = Some vk" and "annotation_base_key cl (vt_id v) vk ref = Inr (base, domain)"
    and "add_note_with_base cl lim io now draws ref text au base domain v = (Inr i, v')"
  using assms by (auto simp: add_note_def add_note_with_vault_key_def split: option.splits sum.splits prod.splits)

text \<open>The notes of an object, and what adding one does to them.\<close>

definition notes_on :: "object_ref \<Rightarrow> bool \<Rightarrow> vault_db \<Rightarrow> annotation_row list" where
  "notes_on ref removed db = filter (\<lambda>a. on_object ref a \<and> an_kind a = KindNote \<and> (removed \<or> live a)) (db_annotations db)"

lemma list_with_key:
  "object_error ref = None \<Longrightarrow> load_error io = None \<Longrightarrow> list_notes_with_vault_key cl io vk ref removed v =
    open_notes (\<lambda>a. open_note cl (vt_id v) vk ref (an_domain a) (an_uid a) (or_empty (an_body_enc a))) ref
      (newest_first (notes_on ref removed (vt_db v)))"
  by (simp add: list_notes_with_vault_key_def notes_on_def)

lemma list_needs: "list_notes_with_vault_key cl io vk ref removed v = Inr out \<Longrightarrow> load_error io = None"
  by (auto simp: list_notes_with_vault_key_def split: option.splits)

text \<open>
  A note added with the vault unlocked is read back by its owner: the list of notes then holds
  what it held and the new one, with its text, author and time, first if no other is younger. After
  locking, the list is refused, and the master password gives the same list.
\<close>

theorem note_is_read_back:
  assumes cl: "aead_works cl" and ok: "notes_ok (vt_db v)" and nonce: "nd_nonce draws = Some nonce" "length nonce = 24"
    and add: "add_note cl lim io now draws ref text au v = (Inr i, v')" and old: "list_notes cl io' ref v = Inr old"
  shows "\<exists>new out. list_notes cl io' ref v' = Inr out \<and> mset out = add_mset new (mset old) \<and>
    ao_id new = i \<and> ao_body new = text \<and> ao_author new = au_kind au \<and> ao_created new = now \<and> i \<notin> ao_id ` set old \<and>
    ((\<forall>a \<in> set old. ao_created a \<le> now) \<longrightarrow> out = new # old) \<and> list_notes cl io' ref (lock_vault v') = Inl ErrLocked \<and>
    (\<forall>pw. unwrap_vault_key cl pw v = Inr (the (vt_key v)) \<longrightarrow> list_notes_with_password cl io' pw ref (lock_vault v') = Inr out)"
proof -
  obtain vk base domain where k: "vt_key v = Some vk" "annotation_base_key cl (vt_id v) vk ref = Inr (base, domain)"
      and b: "add_note_with_base cl lim io now draws ref text au base domain v = (Inr i, v')"
    by (rule add_note_cases [OF add], (rule that; assumption))
  show ?thesis
  proof (rule add_note_base_cases [OF b])
    fix uid ct a db
    assume s: "seal_note cl (vt_id v) (nd_nonce draws) base ref domain uid text = Inr ct"
      and v': "v' = v\<lparr>vt_db := append_version i OpCreate [] ct au now db\<rparr>" and rows: "db_annotations db = db_annotations (vt_db v) @ [a]"
      and a: "an_id a = i" "i = db_seq (vt_db v) TAnnotations + 1" "on_object ref a" "an_kind a = KindNote" "an_body_enc a = Some ct"
        "an_domain a = domain" "an_uid a = uid" "live a" "an_created a = now" "an_author a = au_kind au"
      and ref: "object_error ref = None"
    let ?opn = "\<lambda>a. open_note cl (vt_id v) vk ref (an_domain a) (an_uid a) (or_empty (an_body_enc a))"
    let ?rows = "notes_on ref False (vt_db v)"
    have io': "load_error io' = None" using old k(1) list_needs by (simp add: list_notes_def)
    have o: "?opn a = Inr text"
      using base_key_again [OF k(2)] sealed_note_opens [OF cl nonce(2) s [unfolded nonce(1)]] a by (simp add: open_note_def or_empty_def)
    have l: "open_notes ?opn ref (newest_first ?rows) = Inr old" using old k(1) list_with_key [OF ref io'] by (simp add: list_notes_def)
    have new: "notes_on ref False (vt_db v') = ?rows @ [a]" using a by (simp add: notes_on_def v' rows)
    let ?r = "\<lambda>a. read_note ref (projr (?opn a)) a"
    have out: "open_notes ?opn ref (newest_first (?rows @ [a])) = Inr (map ?r (newest_first (?rows @ [a])))"
      using l o unfolding open_notes_Inr by auto
    have old': "old = map ?r (newest_first ?rows)" using l unfolding open_notes_Inr by blast
    have young: "an_id x < i" if "x \<in> set ?rows" for x
      using that ok a(2) by (auto simp: notes_on_def notes_ok_def ids_ok_def)
    have m: "mset (map ?r (newest_first (?rows @ [a]))) = add_mset (?r a) (mset old)" by (simp add: old')
    have first: "map ?r (newest_first (?rows @ [a])) = ?r a # old" if "\<forall>x \<in> set old. ao_created x \<le> now"
    proof -
      have "an_created x \<le> an_created a" if "x \<in> set ?rows" for x
        using \<open>\<forall>x \<in> set old. ao_created x \<le> now\<close> that a(9) by (simp add: old' read_note_def)
      then show ?thesis using newest_first_snoc [of ?rows a] young a(1) by (simp add: old' less_imp_le)
    qed
    have list: "list_notes_with_vault_key cl io' vk ref False w = Inr (map ?r (newest_first (?rows @ [a])))"
      if "vt_db w = vt_db v'" "vt_id w = vt_id v" for w
      using out new that by (simp add: list_with_key [OF ref io'])
    have "list_notes cl io' ref v' = Inr (map ?r (newest_first (?rows @ [a])))" using list k(1) v' by (simp add: list_notes_def)
    moreover have "list_notes_with_password cl io' pw ref (lock_vault v') = Inr (map ?r (newest_first (?rows @ [a])))"
      if "unwrap_vault_key cl pw v = Inr vk" for pw
    proof -
      have "unwrap_vault_key cl pw (lock_vault v') = Inr vk" using that by (simp add: v' unwrap_vault_key_def lock_vault_def)
      then show ?thesis using list [of "lock_vault v'"] by (simp add: list_notes_with_password_def v' lock_vault_def)
    qed
    moreover have "i \<notin> ao_id ` set old" using young by (force simp: old' read_note_def)
    moreover have "list_notes cl io' ref (lock_vault v') = Inl ErrLocked" by (simp add: list_notes_def lock_vault_def)
    ultimately show ?thesis
      using m first o a k(1) by (intro exI [of _ "?r a"] exI [of _ "map ?r (newest_first (?rows @ [a]))"]) (simp add: read_note_def)
  qed
qed

text \<open>Adding a note in the example vault.\<close>

definition toy_limits :: annotation_limits where "toy_limits = \<lparr>al_description = 0, al_note = 0, al_notes = 0\<rparr>"
definition toy_draws :: note_draws where "toy_draws = \<lparr>nd_uid = Some ''u'', nd_nonce = Some toy_nonce\<rparr>"
definition toy_entry :: object_ref where "toy_entry = \<lparr>ob_type = ObjectEntry, ob_id = ''1'', ob_project = 1, ob_env = 1\<rparr>"

lemma toy_no_notes: "db_annotations (vt_db toy_vault) = []" "notes_ok (vt_db toy_vault)"
proof -
  have same: "db_annotations (vt_db (snd (create_env io now p e v))) = db_annotations (vt_db v)"
      "db_versions (vt_db (snd (create_env io now p e v))) = db_versions (vt_db v)"
      "db_seq (vt_db (snd (create_env io now p e v))) TAnnotations = db_seq (vt_db v) TAnnotations" for io now p e v
    using creates_trail(2) [of v io now p e] by (simp_all add: trail_same_def)
  have empty: "db_annotations (vt_db (fresh_vault now seed vid name w)) = []" "db_versions (vt_db (fresh_vault now seed vid name w)) = []"
      "db_seq (vt_db (fresh_vault now seed vid name w)) TAnnotations = 0" for now seed vid name w
    by (simp_all add: fresh_tables)
  show "db_annotations (vt_db toy_vault) = []" by (simp add: toy_vault_def same empty)
  have "db_versions (vt_db toy_vault) = []" "db_seq (vt_db toy_vault) TAnnotations = 0"
    by (simp_all add: toy_vault_def same empty)
  then show "notes_ok (vt_db toy_vault)"
    using \<open>db_annotations (vt_db toy_vault) = []\<close> by (auto simp: notes_ok_def ids_ok_def intro: exI [of _ 0])
qed

lemma toy_text: "note_text_error toy_limits ''hi'' = None"
proof -
  have "trim_space ''hi'' = ''hi''" by code_simp
  then show ?thesis by (simp add: note_text_error_def toy_limits_def max_note_def or_default_def MaxNoteLen_def)
qed

lemma toy_adds:
  assumes "length base = 32"
  shows "\<exists>i v'. add_note_with_base toy_crypto toy_limits io_ok 9 toy_draws toy_entry ''hi'' au base domain toy_vault = (Inr i, v')"
proof -
  let ?aad = "annotation_aad (vt_id toy_vault) toy_entry domain ''u''"
  obtain k where k: "derive_annotation_key toy_crypto base ?aad = Inr k" "length k = 32"
    using assms by (auto simp: derive_annotation_key_def derive_from_def expand_key_def VaultKeySize_def aead_lengths [OF toy_works])
  obtain ct where ct: "encrypt_with_aad toy_crypto (Some toy_nonce) k ''hi'' ?aad = Inr ct" using encrypt_ok [OF k(2)] by blast
  have s: "seal_note toy_crypto (vt_id toy_vault) (Some toy_nonce) base toy_entry domain ''u'' ''hi'' = Inr ct"
    using k(1) ct by (auto simp: seal_note_Inr)
  have "note_count io_ok toy_entry (vt_db toy_vault) = Inr 0" by (simp add: note_count_def toy_no_notes)
  then show ?thesis
    using s toy_text by (simp add: add_note_with_base_def object_error_def toy_entry_def [symmetric] toy_draws_def transact_def insert_note_def
        insert_annotation_def toy_no_notes Let_def max_notes_per_object_def or_default_def toy_limits_def [symmetric] MaxNotesPerObject_def)
      (simp add: toy_limits_def toy_entry_def)
qed

lemma toy_list: "list_notes_with_vault_key toy_crypto io_ok vk toy_entry removed toy_vault = Inr []"
  by (simp add: list_notes_with_vault_key_def object_error_def toy_entry_def toy_no_notes newest_first_def)

lemma note_is_read_back_witness:
  "\<exists>i v' new. add_note toy_crypto toy_limits io_ok 9 toy_draws toy_entry ''hi'' owner_author toy_vault = (Inr i, v') \<and>
    list_notes toy_crypto io_ok toy_entry v' = Inr [new] \<and> ao_body new = ''hi''"
proof -
  have k32: "length toy_key = 32" by (simp add: toy_key_def)
  obtain k where k: "env_key toy_crypto (vt_id toy_vault) toy_key 1 1 = Inr k" "length k = 32"
    using k32 by (auto simp: env_key_def derive_env_key_def derive_from_def expand_key_def VaultKeySize_def aead_lengths [OF toy_works])
  obtain i v' where a: "add_note toy_crypto toy_limits io_ok 9 toy_draws toy_entry ''hi'' owner_author toy_vault = (Inr i, v')"
    using toy_adds [OF k(2), of owner_author DomainEnv] k(1)
    by (auto simp: add_note_def toy_vault_key add_note_with_vault_key_def annotation_base_key_def toy_entry_def)
  have l: "list_notes toy_crypto io_ok toy_entry toy_vault = Inr []" by (simp add: list_notes_def toy_vault_key toy_list)
  have n: "nd_nonce toy_draws = Some toy_nonce" "length toy_nonce = 24" by (simp_all add: toy_draws_def toy_nonce_def)
  show ?thesis
    using note_is_read_back [OF toy_works toy_no_notes(2) n a l] a by auto
qed

section \<open>A note of an agent\<close>

text \<open>
  Once an agent has left a note on a value with the authored key, which an unattended write may do
  while the vault is locked, the owner cannot read any note of that value: no key makes the list of its
  notes, removed ones included or not, succeed, and a list that worked before fails for lack of the
  authored key, although that key is derived from the vault key. Nor can the owner edit the note. Only
  the reader of authored notes, which no command calls, still finds it.
\<close>

theorem agent_note_hides_the_notes:
  assumes cl: "aead_works cl" and nonce: "nd_nonce draws = Some nonce" "length nonce = 24" and io': "load_error io' = None"
    and ok: "notes_ok (vt_db v)" and add: "add_note_authored cl lim io now draws ref text k au v = (Inr i, v')"
  shows "list_notes_with_vault_key cl io' vk ref removed v' \<noteq> Inr out \<and>
    (\<forall>old. list_notes_with_vault_key cl io' vk ref removed v = Inr old \<longrightarrow>
       list_notes_with_vault_key cl io' vk ref removed v' = Inl ErrAuthoredKeyUnsupported) \<and>
    (note_text_error lim' text' = None \<longrightarrow>
       edit_note_with_vault_key cl lim' io' now' draw vk ref i text' au' v' = (Inl ErrAuthoredKeyUnsupported, v')) \<and>
    (\<forall>old. list_notes_authored cl io' ref k v = Inr old \<longrightarrow>
       (\<exists>new out. list_notes_authored cl io' ref k v' = Inr out \<and> mset out = add_mset new (mset old) \<and>
          ao_id new = i \<and> ao_body new = text))"
proof -
  have b: "add_note_with_base cl lim io now draws ref text au k DomainAuthored v = (Inr i, v')" and k: "k \<noteq> []"
    using add by (auto simp: add_note_authored_def split: if_splits)
  show ?thesis
  proof (rule add_note_base_cases [OF b])
    fix uid ct a db
    assume s: "seal_note cl (vt_id v) (nd_nonce draws) k ref DomainAuthored uid text = Inr ct"
      and v': "v' = v\<lparr>vt_db := append_version i OpCreate [] ct au now db\<rparr>" and rows: "db_annotations db = db_annotations (vt_db v) @ [a]"
      and a: "an_id a = i" "i = db_seq (vt_db v) TAnnotations + 1" "on_object ref a" "an_kind a = KindNote" "an_body_enc a = Some ct"
        "an_domain a = DomainAuthored" "an_uid a = uid" "live a"
      and ref: "object_error ref = None"
    let ?opn = "\<lambda>a. open_note cl (vt_id v) vk ref (an_domain a) (an_uid a) (or_empty (an_body_enc a))"
    let ?auth = "\<lambda>a. open_note_with_base cl (vt_id v) k ref DomainAuthored (an_uid a) (or_empty (an_body_enc a))"
    have no: "?opn a = Inl ErrAuthoredKeyUnsupported" using a by (simp add: open_note_def base_key_for_domain_def)
    have new: "notes_on ref removed (vt_db v') = notes_on ref removed (vt_db v) @ [a]" using a by (simp add: notes_on_def v' rows)
    have id: "vt_id v' = vt_id v" by (simp add: v')
    have l: "list_notes_with_vault_key cl io' vk ref removed v' = open_notes ?opn ref (newest_first (notes_on ref removed (vt_db v) @ [a]))"
      unfolding list_with_key [OF ref io'] new id ..
    have fails: "list_notes_with_vault_key cl io' vk ref removed v' \<noteq> Inr out" unfolding l open_notes_Inr using no by auto
    have error: "list_notes_with_vault_key cl io' vk ref removed v' = Inl ErrAuthoredKeyUnsupported"
      if "list_notes_with_vault_key cl io' vk ref removed v = Inr old" for old
    proof -
      have "\<forall>b \<in> set (notes_on ref removed (vt_db v)). \<exists>t. ?opn b = Inr t"
        using that unfolding list_with_key [OF ref io'] open_notes_Inr by simp
      then show ?thesis unfolding l using no by (intro open_notes_Inl [of a]) auto
    qed
    have young: "an_id x < i" if "x \<in> set (db_annotations (vt_db v))" for x
      using that ok a(2) by (auto simp: notes_ok_def ids_ok_def)
    have "List.find (\<lambda>a. an_id a = i \<and> on_object ref a \<and> an_kind a = KindNote \<and> live a) (db_annotations (vt_db v)) = None"
      unfolding find_None_iff using young by blast
    then have "List.find (\<lambda>a. an_id a = i \<and> on_object ref a \<and> an_kind a = KindNote \<and> live a) (db_annotations (vt_db v')) = Some a"
      using a by (simp add: v' rows find_append)
    then have edit: "edit_note_with_vault_key cl lim' io' now' draw vk ref i text' au' v' = (Inl ErrAuthoredKeyUnsupported, v')"
      if "note_text_error lim' text' = None"
      using that a(6) io' ref by (simp add: edit_note_with_vault_key_def base_key_for_domain_def)
    let ?rows = "filter (\<lambda>a. on_object ref a \<and> an_kind a = KindNote \<and> an_domain a = DomainAuthored \<and> live a) (db_annotations (vt_db v))"
    have "?auth a = Inr text" using sealed_note_opens [OF cl nonce(2) s [unfolded nonce(1)]] a by (simp add: or_empty_def)
    then have reads: "\<exists>new out. list_notes_authored cl io' ref k v' = Inr out \<and> mset out = add_mset new (mset old) \<and> ao_id new = i \<and> ao_body new = text"
      if "list_notes_authored cl io' ref k v = Inr old" for old
      using that k ref io' a
      by (intro exI [of _ "read_note ref text a"] exI [of _ "map (\<lambda>a. read_note ref (projr (?auth a)) a) (newest_first (?rows @ [a]))"])
        (auto simp: list_notes_authored_def v' rows open_notes_Inr read_note_def)
    show ?thesis using fails error edit reads by blast
  qed
qed

lemma agent_note_hides_the_notes_witness:
  "\<exists>i v' new. add_note_authored toy_crypto toy_limits io_ok 9 toy_draws toy_entry ''hi'' toy_key (agent_author ''agent'') toy_vault = (Inr i, v') \<and>
    list_notes_with_vault_key toy_crypto io_ok toy_key toy_entry False v' = Inl ErrAuthoredKeyUnsupported \<and>
    list_notes_authored toy_crypto io_ok toy_entry toy_key v' = Inr [new] \<and> ao_body new = ''hi''"
proof -
  have k: "length toy_key = 32" by (simp add: toy_key_def)
  then have ne: "toy_key \<noteq> []" by auto
  let ?au = "agent_author ''agent''"
  obtain i v' where "add_note_with_base toy_crypto toy_limits io_ok 9 toy_draws toy_entry ''hi'' ?au toy_key DomainAuthored toy_vault = (Inr i, v')"
    using toy_adds [OF k] by blast
  then have a: "add_note_authored toy_crypto toy_limits io_ok 9 toy_draws toy_entry ''hi'' toy_key ?au toy_vault = (Inr i, v')"
    using ne by (simp add: add_note_authored_def toy_entry_def)
  have n: "nd_nonce toy_draws = Some toy_nonce" "length toy_nonce = 24" by (simp_all add: toy_draws_def toy_nonce_def)
  have "list_notes_authored toy_crypto io_ok toy_entry toy_key toy_vault = Inr []"
    using ne by (simp add: list_notes_authored_def object_error_def toy_entry_def toy_no_notes newest_first_def)
  then show ?thesis
    using agent_note_hides_the_notes [OF toy_works n io_ok_simps(1) toy_no_notes(2) a] toy_list a by fastforce
qed

section \<open>History\<close>

text \<open>Everything that happens to a vault: operations on annotations, on values, and recorded runs.\<close>

datatype vault_event =
    OnNotes annotation_limits store_io int note_draws note_author note_op
  | OnRest trail_event

fun run_vault_event :: "crypto_lib \<Rightarrow> hash \<Rightarrow> vault_event \<Rightarrow> vault \<Rightarrow> vault" where
  "run_vault_event cl sha (OnNotes lim io now draws au op) v = run_note_op cl lim io now draws au op v"
| "run_vault_event cl sha (OnRest ev) v = run_event cl sha ev v"

definition run_vault_events :: "crypto_lib \<Rightarrow> hash \<Rightarrow> vault_event list \<Rightarrow> vault \<Rightarrow> vault" where
  "run_vault_events cl sha evs v = fold (run_vault_event cl sha) evs v"

text \<open>The events after which an annotation is gone: it was deleted for its object, or its object is gone.\<close>

definition forgets :: "crypto_lib \<Rightarrow> hash \<Rightarrow> vault_event \<Rightarrow> vault \<Rightarrow> annotation_row \<Rightarrow> bool" where
  "forgets cl sha ev w a \<longleftrightarrow>
     (\<exists>lim io now draws au ids. ev = OnNotes lim io now draws au (NDeleteFor (an_type a) ids) \<and> an_object a \<in> set ids) \<or>
     orphan (vt_db (run_vault_event cl sha ev w)) a"

lemma orphan_cong: "same_annotation a b \<Longrightarrow> orphan db b = orphan db a"
  by (simp add: same_annotation_def orphan_def)

lemma forgets_cong: "same_annotation a b \<Longrightarrow> forgets cl sha ev w b = forgets cl sha ev w a"
proof -
  assume s: "same_annotation a b"
  then have "an_type b = an_type a" "an_object b = an_object a" by (simp_all add: same_annotation_def)
  then show ?thesis by (simp only: forgets_def orphan_cong [OF s])
qed

lemma record_keeps_notes:
  "db_annotations (vt_db (snd (record_run_refs sha io now scope meta names v))) = db_annotations (vt_db v)"
  "db_versions (vt_db (snd (record_run_refs sha io now scope meta names v))) = db_versions (vt_db v)"
  "db_seq (vt_db (snd (record_run_refs sha io now scope meta names v))) TAnnotations = db_seq (vt_db v) TAnnotations"
  by (auto simp: record_run_refs_def transact_def record_stmts_def write_snapshot_diff_def insert_run_def take_id_def Let_def
      split: sum.split option.split prod.split)

lemma trail_event_note_step:
  assumes ok: "notes_ok (vt_db v)"
  shows "\<exists>gone. note_step gone (vt_db v) (vt_db (run_event cl sha ev v)) \<and> (\<forall>a. gone a \<longrightarrow> orphan (vt_db (run_event cl sha ev v)) a)"
proof -
  have same: ?thesis if "db_annotations (vt_db (run_event cl sha ev v)) = db_annotations (vt_db v)"
    "db_versions (vt_db (run_event cl sha ev v)) = db_versions (vt_db v)"
    "db_seq (vt_db (run_event cl sha ev v)) TAnnotations = db_seq (vt_db v) TAnnotations"
    using that note_stepI [OF ok, of "vt_db (run_event cl sha ev v)" "\<lambda>a. a" "[]" "[]"] by (intro exI [of _ "\<lambda>_. False"]) simp
  show ?thesis
  proof (cases ev)
    case (Recorded io now scope meta names)
    then show ?thesis by (intro same) (simp_all add: record_keeps_notes)
  next
    case (Operation io now draws op)
    consider "trail_same (vt_db v) (vt_db (run_event cl sha ev v))" | "trail_cut (vt_db v) (vt_db (run_event cl sha ev v))"
      using run_vault_op_trail [of v cl io now draws op] by (auto simp: Operation trail_step_def)
    then show ?thesis
    proof cases
      case 1
      then show ?thesis by (intro same) (simp_all add: trail_same_def)
    next
      case 2
      then obtain P Q R where c: "vt_db (run_event cl sha ev v) = sweep_orphans (cascade ((vt_db v)\<lparr>db_projects := filter P (db_projects (vt_db v)),
          db_envs := filter Q (db_envs (vt_db v)), db_entries := filter R (db_entries (vt_db v))\<rparr>))" (is "_ = sweep_orphans ?db")
        by (auto simp: trail_cut_def)
      have "db_annotations ?db = db_annotations (vt_db v)" "db_versions ?db = db_versions (vt_db v)" "db_seq ?db = db_seq (vt_db v)"
        by (simp_all add: cascade_def Let_def)
      then have "note_step (orphan ?db) (vt_db v) (sweep_orphans ?db)"
        unfolding note_step_def
        by (intro exI [of _ "\<lambda>a. a"] exI [of _ "[]"]) (simp add: sweep_orphans_def drop_annotations_def Let_def)
      moreover have "orphan (vt_db (run_event cl sha ev v)) = orphan ?db" unfolding c sweep_orphans_def by simp
      ultimately show ?thesis unfolding c by metis
    qed
  qed
qed

lemma vault_event_note_step:
  assumes "notes_ok (vt_db v)"
  shows "\<exists>gone. note_step gone (vt_db v) (vt_db (run_vault_event cl sha ev v)) \<and> (\<forall>a. gone a \<longrightarrow> forgets cl sha ev v a)"
proof (cases ev)
  case (OnNotes lim io now draws au op)
  then show ?thesis
    using run_note_op_step [OF assms, of _ cl lim io now draws au op] by (fastforce simp: forgets_def drops_with_reason_def)
next
  case (OnRest ev')
  then show ?thesis using trail_event_note_step [OF assms, of cl sha ev'] by (fastforce simp: forgets_def)
qed

lemma versions_of_numbered:
  assumes "notes_ok db"
  shows "versions_of i db = filter (\<lambda>x. av_annotation x = i) (db_versions db)"
proof -
  obtain n where "map av_no (filter (\<lambda>x. av_annotation x = i) (db_versions db)) = [1..<Suc n]" using assms by (auto simp: notes_ok_def)
  then have "sorted (map av_no (filter (\<lambda>x. av_annotation x = i) (db_versions db)))" by (simp only: sorted_upt)
  then show ?thesis unfolding versions_of_def by (rule sort_key_id_if_sorted)
qed

text \<open>An annotation as it is later: the same row, its versions those it had and newer ones.\<close>

definition annotation_kept :: "annotation_row \<Rightarrow> vault_db \<Rightarrow> vault_db \<Rightarrow> bool" where
  "annotation_kept a db db' \<longleftrightarrow>
     (\<exists>b \<in> set (db_annotations db'). same_annotation a b) \<and> (\<exists>new. versions_of (an_id a) db' = versions_of (an_id a) db @ new)"

lemma note_step_keeps:
  assumes ok: "notes_ok db" and s: "note_step gone db db'" and a: "a \<in> set (db_annotations db)" "\<not> gone a"
  shows "annotation_kept a db db'"
proof -
  obtain f new vs where f: "\<And>a. same_annotation a (f a)" and rows: "db_annotations db' = map f (filter (\<lambda>a. \<not> gone a) (db_annotations db)) @ new"
    and vs: "db_versions db' = filter (\<lambda>x. av_annotation x \<in> an_id ` set (filter (\<lambda>a. \<not> gone a) (db_annotations db))) (db_versions db) @ vs"
    using s unfolding note_step_def by blast
  have "an_id a \<in> an_id ` set (filter (\<lambda>a. \<not> gone a) (db_annotations db))" using a by simp
  then have "filter (\<lambda>x. av_annotation x = an_id a) (db_versions db') =
      filter (\<lambda>x. av_annotation x = an_id a) (db_versions db) @ filter (\<lambda>x. av_annotation x = an_id a) vs"
    unfolding vs filter_append filter_key by simp
  moreover have "f a \<in> set (db_annotations db')" using a by (simp add: rows)
  ultimately show ?thesis
    using f unfolding annotation_kept_def versions_of_numbered [OF ok] versions_of_numbered [OF note_step_ok [OF ok s]] by blast
qed

interpretation annotated: history "run_vault_event cl sha" "\<lambda>v. notes_ok (vt_db v)" for cl sha
  using vault_event_note_step note_step_ok by unfold_locales blast

lemma run_vault_events_ok: "notes_ok (vt_db v) \<Longrightarrow> notes_ok (vt_db (run_vault_events cl sha evs v))"
  unfolding run_vault_events_def by (rule annotated.run_inv)

lemma fresh_notes: "notes_ok (vt_db (fresh_vault now seed vaultID name wrapped))"
  by (auto simp: fresh_tables
      notes_ok_def ids_ok_def intro: exI [of _ 0])

lemma event_keeps:
  assumes ok: "notes_ok (vt_db w)" and k: "annotation_kept a db (vt_db w)"
  shows "annotation_kept a db (vt_db (run_vault_event cl sha ev w)) \<or> forgets cl sha ev w a"
proof -
  obtain gone where g: "note_step gone (vt_db w) (vt_db (run_vault_event cl sha ev w))" "\<And>a. gone a \<Longrightarrow> forgets cl sha ev w a"
    using vault_event_note_step [OF ok, of cl sha ev] by blast
  obtain b new where b: "b \<in> set (db_annotations (vt_db w))" "same_annotation a b" "versions_of (an_id a) (vt_db w) = versions_of (an_id a) db @ new"
    using k by (auto simp: annotation_kept_def)
  show ?thesis
  proof (cases "gone b")
    case True
    then show ?thesis using g(2) forgets_cong [OF b(2)] by blast
  next
    case False
    have "annotation_kept b (vt_db w) (vt_db (run_vault_event cl sha ev w))" by (rule note_step_keeps [OF ok g(1) b(1) False])
    then show ?thesis using b same_annotation_trans [OF b(2)] by (auto simp: annotation_kept_def same_annotation_def)
  qed
qed

lemma events_keep:
  assumes "notes_ok (vt_db v)" and "a \<in> set (db_annotations (vt_db v))"
  shows "annotation_kept a (vt_db v) (vt_db (run_vault_events cl sha evs v)) \<or>
    (\<exists>evs1 ev evs2. evs = evs1 @ ev # evs2 \<and> forgets cl sha ev (run_vault_events cl sha evs1 v) a)"
  unfolding run_vault_events_def
proof (rule annotated.run_keeps_unless [OF assms(1), where P = "\<lambda>w. annotation_kept a (vt_db v) (vt_db w)"])
  show "annotation_kept a (vt_db v) (vt_db v)" using assms(2) by (auto simp: annotation_kept_def intro: same_annotation_refl)
qed (rule event_keeps)

text \<open>
  C22. There is no purge. In any history of a vault, the versions of an annotation are numbered 1, 2, 3
  and so on, and whatever happens later, edits, removals, other notes, writes, renamings, runs, each of
  them stays as it is, newer ones coming after, and the annotation stays on its object; unless some
  event deleted the annotations of that object or left the object deleted.
\<close>

theorem annotation_history_is_kept:
  assumes v: "v = run_vault_events cl sha before (fresh_vault now seed vaultID name wrapped)"
    and a: "a \<in> set (db_annotations (vt_db v))" and v': "v' = run_vault_events cl sha after v"
  shows "map av_no (versions_of (an_id a) (vt_db v)) = [1..<Suc (length (versions_of (an_id a) (vt_db v)))] \<and>
    ((\<exists>b \<in> set (db_annotations (vt_db v')). same_annotation a b) \<and>
       (\<exists>new. versions_of (an_id a) (vt_db v') = versions_of (an_id a) (vt_db v) @ new) \<or>
     (\<exists>evs1 ev evs2. after = evs1 @ ev # evs2 \<and> forgets cl sha ev (run_vault_events cl sha evs1 v) a))"
proof -
  have ok: "notes_ok (vt_db v)" unfolding v by (rule run_vault_events_ok [OF fresh_notes])
  then obtain n where n: "map av_no (versions_of (an_id a) (vt_db v)) = [1..<Suc n]"
    unfolding versions_of_numbered [OF ok] notes_ok_def by blast
  have "length (versions_of (an_id a) (vt_db v)) = n" using arg_cong [OF n, of length] by simp
  then show ?thesis
    using n events_keep [OF ok a] unfolding v' annotation_kept_def by blast
qed

definition toy_object :: object_ref where "toy_object = \<lparr>ob_type = ObjectVault, ob_id = ''id'', ob_project = 0, ob_env = 0\<rparr>"

lemma annotation_history_is_kept_witness:
  "\<exists>v v' a b new. v = run_vault_events toy_crypto id [OnNotes toy_limits io_ok 9 toy_draws owner_author (NDescribe toy_object ''hi'')]
       (fresh_vault 0 [] ''id'' DefaultVaultName None) \<and>
     v' = run_vault_events toy_crypto id [OnNotes toy_limits io_ok 10 toy_draws owner_author (NRemove toy_object 1)] v \<and>
     a \<in> set (db_annotations (vt_db v)) \<and> b \<in> set (db_annotations (vt_db v')) \<and> same_annotation a b \<and>
     length (versions_of (an_id a) (vt_db v)) = 1 \<and> versions_of (an_id a) (vt_db v') = versions_of (an_id a) (vt_db v) @ new"
proof -
  let ?before = "[OnNotes toy_limits io_ok 9 toy_draws owner_author (NDescribe toy_object ''hi'')]"
  let ?ev = "OnNotes toy_limits io_ok 10 toy_draws owner_author (NRemove toy_object 1)"
  obtain v where v: "v = run_vault_events toy_crypto id ?before (fresh_vault 0 [] ''id'' DefaultVaultName None)" by blast
  obtain v' where v': "v' = run_vault_events toy_crypto id [?ev] v" by blast
  have t: "trim_space ''hi'' = ''hi''" by code_simp
  have "vt_db v = append_version 1 OpCreate ''hi'' [] owner_author 9
      (snd (projr (insert_annotation ''u'' toy_object KindDescription (Some ''hi'') None DomainNone owner_author 9
        (vt_db (fresh_vault 0 [] ''id'' DefaultVaultName None)))))"
    by (simp add: v run_vault_events_def set_description_def object_error_def toy_object_def max_description_def or_default_def
        toy_limits_def MaxStoredDescriptionLen_def t transact_def set_description_stmts_def live_description_def toy_draws_def
        fresh_tables
        insert_annotation_def)
  then obtain a where a: "a \<in> set (db_annotations (vt_db v))" "an_id a = 1" "an_type a = ObjectVault"
      "filter (\<lambda>x. av_annotation x = 1) (db_versions (vt_db v)) \<noteq> []" "length (db_versions (vt_db v)) = 1"
    by (simp add: fresh_tables insert_annotation_def append_version_def toy_object_def)
  have "\<not> forgets toy_crypto id ?ev w a" for w by (simp add: forgets_def orphan_def a(3))
  then have none: "\<not> (\<exists>evs1 ev evs2. [?ev] = evs1 @ ev # evs2 \<and> forgets toy_crypto id ev (run_vault_events toy_crypto id evs1 v) a)"
    by (auto simp: Cons_eq_append_conv)
  have "length (versions_of (an_id a) (vt_db v)) = 1"
    using a by (cases "db_versions (vt_db v)") (auto simp: versions_of_def split: if_splits)
  then show ?thesis
    using annotation_history_is_kept [OF v a(1) v'] none a(1) v v' by blast
qed

section \<open>Summaries of a listing\<close>

definition shown :: "entry_annotation \<Rightarrow> entry_annotation option" where
  "shown e = (if ea_description e = [] \<and> ea_notes e = 0 then None else Some e)"

text \<open>What the rows of one name do.\<close>

definition name_step :: "vault_db \<Rightarrow> int \<Rightarrow> entry_row \<Rightarrow> entry_annotation option \<times> bool \<Rightarrow> entry_annotation option \<times> bool" where
  "name_step db eid r s = (if snd s \<and> nt_env r \<noteq> eid then s else (shown (entry_summary db r), snd s \<or> nt_env r = eid))"

lemma summary_by_name:
  "(map_get (fst (fold (summary_step db eid) rows (out, seen))) n, n \<in> snd (fold (summary_step db eid) rows (out, seen))) =
    fold (name_step db eid) (filter (\<lambda>r. nt_name r = n) rows) (map_get out n, n \<in> seen)"
proof (induction rows arbitrary: out seen)
  case (Cons r rows)
  obtain out' seen' where s: "summary_step db eid r (out, seen) = (out', seen')" by fastforce
  then have "(map_get out' n, n \<in> seen') = (if nt_name r = n then name_step db eid r (map_get out n, n \<in> seen) else (map_get out n, n \<in> seen))"
    by (auto simp: summary_step_def name_step_def shown_def Let_def split: if_splits)
  then show ?case using Cons [of out' seen'] s by simp
qed simp

lemma two_rows:
  assumes "distinct (map nt_env rows)" and "\<And>r. r \<in> set rows \<Longrightarrow> nt_env r = eid \<or> nt_env r = d"
  shows "fst (fold (name_step db eid) rows (None, False)) =
    (case List.find (\<lambda>r. nt_env r = eid) rows of
       Some r \<Rightarrow> shown (entry_summary db r)
     | None \<Rightarrow> Option.bind (List.find (\<lambda>r. nt_env r = d) rows) (\<lambda>r. shown (entry_summary db r)))"
proof -
  have "card (set (map nt_env rows)) \<le> card {eid, d}" using assms(2) by (intro card_mono) auto
  then have "length rows \<le> 2" using distinct_card [OF assms(1)] card_insert_le_m1 [of 2 "{d}" eid] by (simp add: card_insert_if split: if_splits)
  then consider "rows = []" | r where "rows = [r]" | r r' where "rows = [r, r']"
    by (cases rows; cases "tl rows"; cases "tl (tl rows)") auto
  then show ?thesis
    by cases (use assms in \<open>auto simp: name_step_def\<close>)
qed

lemma find_row:
  assumes ok: "entries_ok db" and rows: "set rows = {r \<in> set (db_entries db). nt_project r = pid \<and> nt_env r \<in> E}" and e: "e \<in> E"
  shows "List.find (\<lambda>r. nt_env r = e) (filter (\<lambda>r. nt_name r = n) rows) = row_at db pid e n"
proof (cases "row_at db pid e n")
  case None
  then have "\<forall>r \<in> set (db_entries db). \<not> (nt_project r = pid \<and> nt_env r = e \<and> nt_name r = n)" by (simp add: row_at_def find_None_iff)
  then show ?thesis using rows None by (auto simp: find_None_iff)
next
  case (Some r)
  then have r: "r \<in> set (db_entries db)" "at_row pid e n r" using row_at_Some by blast+
  have unique: "r' = r" if "r' \<in> set (db_entries db)" "at_row pid e n r'" for r'
    using row_at_the [OF ok that(1)] that(2) Some by (simp add: at_row_def)
  have "r \<in> set (filter (\<lambda>r. nt_name r = n) rows)" "nt_env r = e" using r rows e by (simp_all add: at_row_def)
  then obtain r' where r': "List.find (\<lambda>r. nt_env r = e) (filter (\<lambda>r. nt_name r = n) rows) = Some r'"
    by (cases "List.find (\<lambda>r. nt_env r = e) (filter (\<lambda>r. nt_name r = n) rows)") (auto simp: find_None_iff)
  then have "r' \<in> set (filter (\<lambda>r. nt_name r = n) rows)" "nt_env r' = e" by (auto dest: find_SomeD)
  then have "r' = r" using rows by (intro unique) (auto simp: at_row_def)
  then show ?thesis using r' Some by simp
qed

lemma summary_of_rows:
  assumes ok: "db_ok db" and env: "env_at db s = Some (pid, eid)" and d: "find_env db pid DefaultEnvName = Some d"
    and rows: "mset rows = mset (filter (\<lambda>r. nt_project r = pid \<and> nt_kind r = EnvVar \<and> (nt_env r = eid \<or> nt_env r = en_id d)) (db_entries db))"
  shows "map_get (fst (fold (summary_step db eid) rows ([], {}))) n =
    Option.bind (visible_row db s n) (\<lambda>(_, _, r, _). shown (entry_summary db r))"
proof -
  have eok: "entries_ok db" using ok by (simp add: db_ok_def)
  have set: "set rows = {r \<in> set (db_entries db). nt_project r = pid \<and> nt_env r \<in> {eid, en_id d}}"
    using mset_eq_setD [OF rows] eok by (auto simp: entries_ok_def)
  let ?L = "filter (\<lambda>r. nt_name r = n) rows"
  let ?k = "\<lambda>r. (nt_project r, nt_env r, nt_name r)"
  have "distinct (map ?k (db_entries db))" using eok by (simp add: entries_ok_def)
  then have "distinct (map ?k (filter P (db_entries db)))" for P by (rule distinct_map_filter)
  moreover have "mset (map ?k rows) = mset (map ?k (filter (\<lambda>r. nt_project r = pid \<and> nt_kind r = EnvVar \<and> (nt_env r = eid \<or> nt_env r = en_id d)) (db_entries db)))"
    using rows by simp
  ultimately have "distinct (map ?k rows)" using mset_eq_imp_distinct_iff by blast
  then have "inj_on ?k (set rows)" "distinct rows" by (simp_all add: distinct_map)
  then have dist: "distinct (map nt_env ?L)" using set by (auto simp: distinct_map inj_on_def)
  have envs: "r \<in> set ?L \<Longrightarrow> nt_env r = eid \<or> nt_env r = en_id d" for r using set by simp
  have "fst (fold (name_step db eid) ?L (None, False)) = (case row_at db pid eid n of
      Some r \<Rightarrow> shown (entry_summary db r) | None \<Rightarrow> Option.bind (row_at db pid (en_id d) n) (\<lambda>r. shown (entry_summary db r)))"
  proof -
    have "List.find (\<lambda>r. nt_env r = eid) ?L = row_at db pid eid n" "List.find (\<lambda>r. nt_env r = en_id d) ?L = row_at db pid (en_id d) n"
      by (rule find_row [OF eok set]; simp)+
    then show ?thesis using two_rows [OF dist envs, of db] by (simp only:)
  qed
  moreover have "row_at db pid (en_id d) n = row_at db pid eid n" if "sc_env s = DefaultEnvName"
    using default_env_id [OF ok env d] that by simp
  moreover have "map_get (fst (fold (summary_step db eid) rows ([], {}))) n = fst (fold (name_step db eid) ?L (None, False))"
    using arg_cong [OF summary_by_name [of db eid rows "[]" "{}" n], of fst] by simp
  ultimately show ?thesis
    using env d by (cases "row_at db pid (en_id d) n") (auto simp: visible_row_def split: option.splits)
qed

text \<open>
  The summary a listing shows for a name is that of the row a read of the name opens: its own if
  the scope has the name, the one of the default environment otherwise, and none where that row has
  neither description nor notes, even if the row it overrides has some. It does not depend on the order
  in which the database returns the rows.
\<close>

theorem listing_annotates_what_is_read:
  assumes ok: "db_ok (vt_db v)" and l: "entry_annotations io s v = Inr out"
  shows "\<exists>pid eid d. env_at (vt_db v) s = Some (pid, eid) \<and> find_env (vt_db v) pid DefaultEnvName = Some d \<and>
    (\<forall>n. map_get out n = Option.bind (visible_row (vt_db v) s n) (\<lambda>(_, _, r, _). shown (entry_summary (vt_db v) r))) \<and>
    (\<forall>rows. mset rows = mset (filter (\<lambda>r. nt_project r = pid \<and> nt_kind r = EnvVar \<and> (nt_env r = eid \<or> nt_env r = en_id d)) (db_entries (vt_db v))) \<longrightarrow>
       map_get (fst (fold (summary_step (vt_db v) eid) rows ([], {}))) = map_get out)"
proof -
  obtain pid eid where q: "scope_ids io (vt_db v) s = Inr (pid, eid)"
    using l by (auto simp: entry_annotations_def split: option.splits sum.splits)
  then have io: "load_error io = None" and env: "env_at (vt_db v) s = Some (pid, eid)" by (simp_all add: scope_ids_Inr)
  obtain d where d: "env_id_by_name io (vt_db v) pid DefaultEnvName = Inr (en_id d)" "find_env (vt_db v) pid DefaultEnvName = Some d"
    using env_id_default [OF ok io env] by blast
  have "en_id d = eid" if "sc_env s = DefaultEnvName" using default_env_id [OF ok env d(2)] that by simp
  then have out: "out = fst (fold (summary_step (vt_db v) eid)
      (filter (\<lambda>r. nt_project r = pid \<and> nt_kind r = EnvVar \<and> (nt_env r = eid \<or> nt_env r = en_id d)) (db_entries (vt_db v))) ([], {}))"
    using l q d(1) by (auto simp: entry_annotations_def split: option.splits if_splits)
  note rows = summary_of_rows [OF ok env d(2)]
  have get: "map_get out n = Option.bind (visible_row (vt_db v) s n) (\<lambda>(_, _, r, _). shown (entry_summary (vt_db v) r))" for n
    unfolding out by (rule rows) simp
  have "map_get (fst (fold (summary_step (vt_db v) eid) rs ([], {}))) = map_get out"
    if "mset rs = mset (filter (\<lambda>r. nt_project r = pid \<and> nt_kind r = EnvVar \<and> (nt_env r = eid \<or> nt_env r = en_id d)) (db_entries (vt_db v)))" for rs
    using rows [OF that] get by (simp add: fun_eq_iff)
  then show ?thesis using env d(2) get by blast
qed

lemma listing_annotates_what_is_read_witness:
  "\<exists>v out p d r. entry_annotations io_ok toy_prod v = Inr out \<and> visible_row (vt_db v) toy_prod ''TOKEN'' = Some (p, d, r, SourceDefault) \<and>
    map_get out ''TOKEN'' = shown (entry_summary (vt_db v) r)"
proof -
  obtain v :: vault and r where v: "db_ok (vt_db v)" "env_at (vt_db v) = env_at (vt_db toy_vault)"
      and vis: "visible_row (vt_db v) toy_prod ''TOKEN'' = Some (1, 1, r, SourceDefault)"
    using toy_with_default by force
  have env: "env_at (vt_db v) toy_prod = Some (1, 2)" using v(2) toy_envs by simp
  then have q: "scope_ids io_ok (vt_db v) toy_prod = Inr (1, 2)" by (simp add: scope_ids_Inr)
  obtain d :: env_row where "env_id_by_name io_ok (vt_db v) 1 DefaultEnvName = Inr (en_id d)" using env_id_default [OF v(1) io_ok_simps(1) env] by blast
  moreover have "scope_validate toy_prod = None" using toy_names(2) by (simp add: checked_name_def split: option.splits)
  ultimately obtain out where out: "entry_annotations io_ok toy_prod v = Inr out"
    using q by (cases "sc_env toy_prod = DefaultEnvName") (auto simp: entry_annotations_def)
  then have "map_get out ''TOKEN'' = shown (entry_summary (vt_db v) r)"
    using listing_annotates_what_is_read [OF v(1) out] vis by auto
  then show ?thesis using out vis by blast
qed

end
