(* ===== verification/Vault_Schema.thy ===== *)
theory Vault_Schema
  imports Vault_DB Caller_Identity
begin

text \<open>
  The schema of a vault's database and its upgrades, \<open>internal/vault/schema.go\<close>. A database file is
  the tables with their columns, each column with the table its foreign key refers to, and the rows.
  Types, defaults and the other constraints of columns are left out, so are indexes. Every statement is a
  transaction of its own, as in the code, so that a process may stop between any two of them.
\<close>

section \<open>Tables and statements\<close>

type_synonym column = "string \<times> string option"

record db_file =
  fd_tables :: "column list go_map"
  fd_rows :: vault_db

definition has_column :: "db_file \<Rightarrow> string \<Rightarrow> string \<Rightarrow> bool" where
  "has_column f t c \<longleftrightarrow> (case map_get (fd_tables f) t of None \<Rightarrow> False | Some cs \<Rightarrow> c \<in> set (map fst cs))"

datatype ddl =
    CreateTable string "column list"
  | AddColumn string column
  | RenameColumn string string string
  | ClearColumn string string
  | SetVersion string

text \<open>
  \<open>CREATE TABLE IF NOT EXISTS\<close>, \<open>ALTER TABLE \<dots> ADD COLUMN\<close>, \<open>ALTER TABLE \<dots> RENAME COLUMN\<close>,
  \<open>UPDATE \<dots> SET column = NULL\<close> and the update of the version in the table \<open>meta\<close>.
\<close>

definition exec_ddl :: "ddl \<Rightarrow> db_file \<Rightarrow> string + db_file" where
  "exec_ddl s f =
     (case s of
        CreateTable t cs \<Rightarrow> Inr (if map_get (fd_tables f) t = None then f\<lparr>fd_tables := map_put (fd_tables f) t cs\<rparr> else f)
      | AddColumn t c \<Rightarrow>
          (case map_get (fd_tables f) t of
             None \<Rightarrow> Inl ''no such table''
           | Some cs \<Rightarrow> if fst c \<in> set (map fst cs) then Inl ''duplicate column name''
               else Inr (f\<lparr>fd_tables := map_put (fd_tables f) t (cs @ [c])\<rparr>))
      | RenameColumn t a b \<Rightarrow>
          (case map_get (fd_tables f) t of
             None \<Rightarrow> Inl ''no such table''
           | Some cs \<Rightarrow> if a \<notin> set (map fst cs) then Inl ''no such column''
               else if b \<in> set (map fst cs) then Inl ''duplicate column name''
               else Inr (f\<lparr>fd_tables := map_put (fd_tables f) t (map (\<lambda>(c, r). (if c = a then b else c, r)) cs)\<rparr>))
      | ClearColumn t c \<Rightarrow> if has_column f t c then Inr f else Inl ''no such column''
      | SetVersion n \<Rightarrow>
          Inr (if map_get (db_meta (fd_rows f)) metaKeySchemaVersion = None then f
            else f\<lparr>fd_rows := (fd_rows f)\<lparr>db_meta := map_put (db_meta (fd_rows f)) metaKeySchemaVersion n\<rparr>\<rparr>))"

text \<open>A statement as a migration runs it: plain, tolerant of a duplicate column, or only if a column is missing.\<close>

datatype migration_stmt = Plain ddl | Tolerant ddl | IfMissing string string ddl

definition run_stmt :: "migration_stmt \<Rightarrow> db_file \<Rightarrow> string + db_file" where
  "run_stmt s f =
     (case s of
        Plain d \<Rightarrow> exec_ddl d f
      | Tolerant d \<Rightarrow> (case exec_ddl d f of Inl e \<Rightarrow> if e = ''duplicate column name'' then Inr f else Inl e | Inr f \<Rightarrow> Inr f)
      | IfMissing t c d \<Rightarrow> if has_column f t c then Inr f else exec_ddl d f)"

fun run_stmts :: "migration_stmt list \<Rightarrow> db_file \<Rightarrow> string option \<times> db_file" where
  "run_stmts [] f = (None, f)"
| "run_stmts (s # ss) f = (case run_stmt s f of Inl e \<Rightarrow> (Some e, f) | Inr f \<Rightarrow> run_stmts ss f)"

section \<open>The current tables\<close>

definition plain :: "string list \<Rightarrow> column list" where "plain cs = map (\<lambda>c. (c, None)) cs"
definition refs_to :: "string \<Rightarrow> string \<Rightarrow> column" where "refs_to t c = (c, Some t)"

definition execRunTablesDDL :: "(string \<times> column list) list" where
  "execRunTablesDDL =
     [(''env_snapshots'', [(''id'', None), refs_to ''env_snapshots'' ''parent_id'', refs_to ''projects'' ''project_id'',
         refs_to ''envs'' ''env_id'', (''created_at'', None)]),
      (''env_snapshot_entries'', refs_to ''env_snapshots'' ''snapshot_id'' # plain [''name'', ''entry_id'', ''digest'', ''change'']),
      (''exec_runs'', [(''id'', None), (''at'', None), refs_to ''env_snapshots'' ''snapshot_id''] @ plain [''byn_path'', ''command'',
         ''caller_pid'', ''caller_comm'', ''caller_agent'', ''caller_agent_comm'', ''caller_cwd'', ''unattended''])]"

definition annotationTablesDDL :: "(string \<times> column list) list" where
  "annotationTablesDDL =
     [(''annotations'', plain [''id'', ''uid'', ''object_type'', ''object_id'', ''kind'', ''body'', ''body_enc'', ''aad_version'',
         ''key_domain'', ''author'', ''author_comm'', ''created_at'', ''updated_at'', ''deleted_at'']),
      (''annotation_versions'', (''id'', None) # refs_to ''annotations'' ''annotation_id'' # plain [''version_no'', ''body'',
         ''body_enc'', ''aad_version'', ''op'', ''author'', ''author_comm'', ''created_at''])]"

definition passkeyTableDDL :: "(string \<times> column list) list" where
  "passkeyTableDDL = [(''passkey'', plain [''id'', ''credential_id'', ''public_key'', ''sign_count'', ''aaguid'', ''transports'',
     ''label'', ''backup_eligible'', ''backup_state'', ''created_at''])]"

definition passkeyUnlockTableDDL :: "(string \<times> column list) list" where
  "passkeyUnlockTableDDL = [(''passkey_unlock'', refs_to ''passkey'' ''credential_id'' # plain [''prf_salt'', ''wrapped_vault_key'',
     ''hkdf_info_version'', ''aead_alg'', ''label'', ''created_at''])]"

definition schemaStatements :: "(string \<times> column list) list" where
  "schemaStatements =
     [(''meta'', plain [''key'', ''value'']),
      (''projects'', plain [''id'', ''name'', ''created_at'', ''updated_at'']),
      (''envs'', (''id'', None) # refs_to ''projects'' ''project_id'' # plain [''name'', ''is_default'', ''created_at'', ''updated_at'']),
      (''entries'', (''id'', None) # refs_to ''projects'' ''project_id'' # refs_to ''envs'' ''env_id'' # plain [''kind'', ''name'',
         ''value'', ''aad_version'', ''lamport'', ''origin_device'', ''deleted_at'', ''require_2fa'', ''created_at'', ''updated_at'']),
      (''file_meta'', refs_to ''entries'' ''entry_id'' # plain [''mount_path'', ''mode'', ''owner_uid'', ''owner_gid'', ''encoding'',
         ''size_plain'', ''sha256_hmac'', ''allowed_readers'', ''materialize_hint'', ''created_at'', ''updated_at'']),
      (''entry_versions'', (''id'', None) # refs_to ''entries'' ''entry_id'' # plain [''version_no'', ''value'', ''aad_version'',
         ''op'', ''op_meta'', ''created_at''])] @
     execRunTablesDDL @ annotationTablesDDL @ passkeyTableDDL @ passkeyUnlockTableDDL"

section \<open>Migrations\<close>

definition create_tables :: "(string \<times> column list) list \<Rightarrow> migration_stmt list" where
  "create_tables ts = map (\<lambda>(t, cs). Plain (CreateTable t cs)) ts"

definition migrateV3toV4 :: "migration_stmt list" where
  "migrateV3toV4 = [Plain (RenameColumn ''file_meta'' ''sha256_plain'' ''sha256_hmac''),
     Plain (ClearColumn ''file_meta'' ''sha256_hmac''), Plain (SetVersion ''4'')]"

definition migrateV4toV5 :: "migration_stmt list" where
  "migrateV4toV5 = [Tolerant (AddColumn ''entries'' (''lamport'', None)), Tolerant (AddColumn ''entries'' (''origin_device'', None)),
     Plain (SetVersion ''5'')]"

definition execRunTablesDDLv6 :: "(string \<times> column list) list" where
  "execRunTablesDDLv6 =
     [(''env_snapshots'', (''id'', None) # refs_to ''env_snapshots'' ''parent_id'' # plain [''project_id'', ''env_id'', ''created_at'']),
      (''env_snapshot_entries'', refs_to ''env_snapshots'' ''snapshot_id'' # plain [''name'', ''entry_id'', ''digest'', ''change'']),
      (''exec_runs'', [(''id'', None), (''at'', None), refs_to ''env_snapshots'' ''snapshot_id''] @ plain [''byn_path'', ''command'',
         ''caller_pid'', ''caller_comm'', ''caller_agent'', ''caller_cwd''])]"

definition migrateV5toV6 :: "migration_stmt list" where "migrateV5toV6 = create_tables execRunTablesDDLv6"

definition migrateV6toV7 :: "migration_stmt list" where
  "migrateV6toV7 = [IfMissing ''exec_runs'' ''caller_agent_comm'' (AddColumn ''exec_runs'' (''caller_agent_comm'', None))]"

definition migrateV7toV8 :: "migration_stmt list" where
  "migrateV7toV8 = [IfMissing ''exec_runs'' ''unattended'' (AddColumn ''exec_runs'' (''unattended'', None))]"

definition migrateV8toV9 :: "migration_stmt list" where "migrateV8toV9 = create_tables annotationTablesDDL"

definition schemaMigrations :: "int \<Rightarrow> migration_stmt list option" where
  "schemaMigrations n =
     (if n = 3 then Some migrateV3toV4 else if n = 4 then Some migrateV4toV5 else if n = 5 then Some migrateV5toV6
      else if n = 6 then Some migrateV6toV7 else if n = 7 then Some migrateV7toV8 else if n = 8 then Some migrateV8toV9 else None)"

definition ensure_passkey_tables :: "migration_stmt list" where
  "ensure_passkey_tables = create_tables passkeyTableDDL @ create_tables passkeyUnlockTableDDL @
     [Tolerant (AddColumn ''passkey'' (''backup_eligible'', None)), Tolerant (AddColumn ''passkey'' (''backup_state'', None))]"

section \<open>Opening\<close>

datatype schema_error = ErrSchemaUnknown | ErrBackup string | ErrMigrate int string

text \<open>
  The snapshot before an upgrade: \<open>VACUUM INTO\<close> and its check are the library's, their results
  arguments. \<open>bak\<close> says which snapshots, named by version, are on disk.
\<close>

record backup_io =
  bk_vacuum :: "string option"
  bk_reopen :: "string option"
  bk_verdict :: string

definition backup_before_migrate :: "backup_io \<Rightarrow> int \<Rightarrow> int list \<Rightarrow> string option \<times> int list" where
  "backup_before_migrate io n bak =
     (if n \<in> set bak then (None, bak)
      else case bk_vacuum io of
        Some e \<Rightarrow> (Some e, bak)
      | None \<Rightarrow>
          (case bk_reopen io of
             Some e \<Rightarrow> (Some e, n # bak)
           | None \<Rightarrow> if bk_verdict io \<noteq> ''ok'' then (Some (''snapshot failed integrity check: '' @ bk_verdict io), n # bak)
               else (None, n # bak)))"

function migrate_from :: "int \<Rightarrow> db_file \<Rightarrow> schema_error option \<times> db_file" where
  "migrate_from n f =
     (if n < int schemaVersion then
        (case schemaMigrations n of
           None \<Rightarrow> (Some ErrSchemaUnknown, f)
         | Some step \<Rightarrow> (case run_stmts step f of (Some e, f) \<Rightarrow> (Some (ErrMigrate n e), f) | (None, f) \<Rightarrow> migrate_from (n + 1) f))
      else (None, f))"
  by pat_completeness auto

termination migrate_from
  by (relation "measure (\<lambda>(n, f). nat (int schemaVersion - n))") auto

declare migrate_from.simps [simp del]

definition disk_version :: "db_file \<Rightarrow> int option" where
  "disk_version f = (case map_get (db_meta (fd_rows f)) metaKeySchemaVersion of None \<Rightarrow> None | Some raw \<Rightarrow> parse_int raw)"

definition verify_schema :: "backup_io \<Rightarrow> db_file \<Rightarrow> int list \<Rightarrow> schema_error option \<times> db_file \<times> int list" where
  "verify_schema io f bak =
     (case disk_version f of
        None \<Rightarrow> (Some ErrSchemaUnknown, f, bak)
      | Some n \<Rightarrow>
          if n > int schemaVersion then (Some ErrSchemaUnknown, f, bak)
          else if n < int schemaVersion then
            (case backup_before_migrate io n bak of
               (Some e, bak) \<Rightarrow> (Some (ErrBackup e), f, bak)
             | (None, bak) \<Rightarrow> (case migrate_from n f of (r, f) \<Rightarrow> (r, f, bak)))
          else (None, f, bak))"

end
