(* ===== verification/Vault_Schema_Claims.thy ===== *)
theory Vault_Schema_Claims
  imports Vault_Schema Histories
begin

text \<open>
  Upgrades of a vault that are interrupted: from version 4 on every later opening completes them, from
  version 3 none does. An interrupted opening is one that stops after some of its statements.
\<close>

section \<open>A list of statements\<close>

lemma run_stmts_append:
  "run_stmts (ss @ ts) f = (case run_stmts ss f of (Some e, g) \<Rightarrow> (Some e, g) | (None, g) \<Rightarrow> run_stmts ts g)"
  by (induction ss arbitrary: f) (simp_all split: sum.split)

definition steps_from :: "int \<Rightarrow> migration_stmt list" where
  "steps_from n = concat (map (\<lambda>i. case schemaMigrations i of None \<Rightarrow> [] | Some step \<Rightarrow> step) [n..int schemaVersion - 1])"

lemma steps_from_step:
  "n < int schemaVersion \<Longrightarrow> schemaMigrations n = Some step \<Longrightarrow> steps_from n = step @ steps_from (n + 1)"
  by (simp add: steps_from_def upto_rec1)

text \<open>The loop over the versions runs the statements of all of them in order.\<close>

lemma migrate_from_steps:
  assumes "3 \<le> n" and "n \<le> int schemaVersion"
  shows "snd (migrate_from n f) = snd (run_stmts (steps_from n) f)" (is ?same)
    and "fst (migrate_from n f) = None \<longleftrightarrow> fst (run_stmts (steps_from n) f) = None" (is ?succeeds)
proof -
  have "?same \<and> ?succeeds" using assms
  proof (induction n f rule: migrate_from.induct)
    case (1 n f)
    show ?case
    proof (cases "n < int schemaVersion")
      case True
      then have "schemaMigrations n \<noteq> None" using "1.prems" by (auto simp: schemaMigrations_def schemaVersion_def)
      then obtain step where step: "schemaMigrations n = Some step" by blast
      show ?thesis
      proof (cases "run_stmts step f")
        case (Pair e g)
        show ?thesis
        proof (cases e)
          case None
          then have "snd (migrate_from (n + 1) g) = snd (run_stmts (steps_from (n + 1)) g) \<and>
              (fst (migrate_from (n + 1) g) = None \<longleftrightarrow> fst (run_stmts (steps_from (n + 1)) g) = None)"
            using "1.IH" [OF True step] Pair "1.prems" True by simp
          then show ?thesis
            using True step Pair None by (simp add: migrate_from.simps [of n f] steps_from_step run_stmts_append)
        qed (use True step Pair in \<open>simp add: migrate_from.simps [of n f] steps_from_step run_stmts_append\<close>)
      qed
    next
      case False
      then have "migrate_from n f = (None, f)" by (subst migrate_from.simps) simp
      then show ?thesis using False by (simp add: steps_from_def)
    qed
  qed
  then show ?same ?succeeds by blast+
qed

section \<open>Interrupted openings\<close>

definition cut_open :: "nat \<Rightarrow> db_file \<Rightarrow> db_file" where
  "cut_open k f = (case disk_version f of None \<Rightarrow> f | Some n \<Rightarrow> snd (run_stmts (take k (steps_from n)) f))"

text \<open>
  What an upgrade from version 4 or 5 needs: the table \<open>entries\<close>, a version, and of the tables it creates
  none with other columns.
\<close>

definition columns_in :: "db_file \<Rightarrow> string \<Rightarrow> string set" where
  "columns_in f t = (case map_get (fd_tables f) t of None \<Rightarrow> {} | Some cs \<Rightarrow> set (map fst cs))"

definition has_table :: "db_file \<Rightarrow> string \<Rightarrow> bool" where
  "has_table f t \<longleftrightarrow> map_get (fd_tables f) t \<noteq> None"

definition table_ok :: "db_file \<Rightarrow> string \<times> column list \<Rightarrow> bool" where
  "table_ok f t \<longleftrightarrow> has_table f (fst t) \<longrightarrow> set (map fst (snd t)) \<subseteq> columns_in f (fst t)"

definition upgrade_tables :: "(string \<times> column list) list" where
  "upgrade_tables = execRunTablesDDLv6 @ annotationTablesDDL"

definition upgradable :: "db_file \<Rightarrow> bool" where
  "upgradable f \<longleftrightarrow>
     has_table f ''entries'' \<and> (disk_version f = Some 4 \<or> disk_version f = Some 5) \<and>
     (\<forall>t \<in> set upgrade_tables. table_ok f t)"

fun additive :: "migration_stmt \<Rightarrow> bool" where
  "additive (Plain (CreateTable t cs)) \<longleftrightarrow> (t, cs) \<in> set upgrade_tables"
| "additive (Plain (SetVersion v)) \<longleftrightarrow> v = ''5''"
| "additive (Tolerant (AddColumn t c)) \<longleftrightarrow> True"
| "additive (IfMissing t c (AddColumn t' c')) \<longleftrightarrow> True"
| "additive _ \<longleftrightarrow> False"

text \<open>What an additive statement does: tables and columns stay, and so do the rows apart from the version.\<close>

definition grows :: "db_file \<Rightarrow> db_file \<Rightarrow> bool" where
  "grows f g \<longleftrightarrow> (\<forall>t cs. map_get (fd_tables f) t = Some cs \<longrightarrow>
     (\<exists>cs'. map_get (fd_tables g) t = Some cs' \<and> set cs \<subseteq> set cs'))"

definition rows_but_version :: "db_file \<Rightarrow> vault_db" where
  "rows_but_version f = (fd_rows f)\<lparr>db_meta := map_del (db_meta (fd_rows f)) metaKeySchemaVersion\<rparr>"

lemma grows_refl [simp]: "grows f f" by (simp add: grows_def)
lemma grows_trans: "grows f g \<Longrightarrow> grows g h \<Longrightarrow> grows f h" unfolding grows_def by (meson subset_trans)

lemma grows_has_table: "grows f g \<Longrightarrow> has_table f t \<Longrightarrow> has_table g t"
  unfolding grows_def has_table_def by (metis not_None_eq)

lemma grows_columns: "grows f g \<Longrightarrow> columns_in f t \<subseteq> columns_in g t"
  unfolding grows_def columns_in_def by (cases "map_get (fd_tables f) t") (force split: option.split)+

lemma has_column_iff: "has_column f t c \<longleftrightarrow> c \<in> columns_in f t"
  by (simp add: has_column_def columns_in_def split: option.split)

lemma set_version_rows [simp]:
  "rows_but_version (f\<lparr>fd_rows := (fd_rows f)\<lparr>db_meta := map_put (db_meta (fd_rows f)) metaKeySchemaVersion v\<rparr>\<rparr>)
   = rows_but_version f"
  by (simp add: rows_but_version_def map_del_def map_put_def delete_update_same)

lemma other_rows [simp]: "rows_but_version (f\<lparr>fd_tables := ts\<rparr>) = rows_but_version f"
  by (simp add: rows_but_version_def)

lemma added_column:
  "exec_ddl (AddColumn t c) f = Inr g \<Longrightarrow>
   \<exists>cs. map_get (fd_tables f) t = Some cs \<and> g = f\<lparr>fd_tables := map_put (fd_tables f) t (cs @ [c])\<rparr>"
  by (auto simp: exec_ddl_def split: option.splits if_splits)

text \<open>The four things an additive statement may do.\<close>

lemma additive_result:
  assumes "additive s" and "run_stmt s f = Inr g"
  obtains (same) "g = f"
    | (table) t cs where "map_get (fd_tables f) t = None" "(t, cs) \<in> set upgrade_tables"
        "g = f\<lparr>fd_tables := map_put (fd_tables f) t cs\<rparr>"
    | (column) t cs c where "map_get (fd_tables f) t = Some cs" "g = f\<lparr>fd_tables := map_put (fd_tables f) t (cs @ [c])\<rparr>"
    | (version) "g = f\<lparr>fd_rows := (fd_rows f)\<lparr>db_meta := map_put (db_meta (fd_rows f)) metaKeySchemaVersion ''5''\<rparr>\<rparr>"
proof (cases s rule: additive.cases)
  case (1 t cs)
  then show thesis
  proof (cases "map_get (fd_tables f) t")
    case None
    then have "g = f\<lparr>fd_tables := map_put (fd_tables f) t cs\<rparr>" and "(t, cs) \<in> set upgrade_tables"
      using assms 1 by (simp_all add: run_stmt_def exec_ddl_def)
    then show thesis using None by (rule_tac table)
  next
    case (Some cs')
    then have "g = f" using assms 1 by (simp add: run_stmt_def exec_ddl_def)
    then show thesis by (rule same)
  qed
next
  case (2 v)
  then show thesis
  proof (cases "map_get (db_meta (fd_rows f)) metaKeySchemaVersion")
    case None
    then have "g = f" using assms 2 by (simp add: run_stmt_def exec_ddl_def)
    then show thesis by (rule same)
  next
    case (Some v')
    then have "g = f\<lparr>fd_rows := (fd_rows f)\<lparr>db_meta := map_put (db_meta (fd_rows f)) metaKeySchemaVersion ''5''\<rparr>\<rparr>"
      using assms 2 by (simp add: run_stmt_def exec_ddl_def)
    then show thesis by (rule version)
  qed
next
  case (3 t c)
  then have "exec_ddl (AddColumn t c) f = Inr g \<or> g = f"
    using assms by (auto simp: run_stmt_def split: sum.splits if_splits)
  then show thesis using added_column same column by metis
next
  case (4 t c t' c')
  then have "exec_ddl (AddColumn t' c') f = Inr g \<or> g = f"
    using assms by (auto simp: run_stmt_def split: if_splits)
  then show thesis using added_column same column by metis
qed (use assms in simp_all)

lemma distinct_upgrade_tables: "(t, cs) \<in> set upgrade_tables \<Longrightarrow> (t, cs') \<in> set upgrade_tables \<Longrightarrow> cs' = cs"
proof -
  have "distinct (map fst upgrade_tables)"
    by (simp add: upgrade_tables_def execRunTablesDDLv6_def annotationTablesDDL_def)
  then show "(t, cs) \<in> set upgrade_tables \<Longrightarrow> (t, cs') \<in> set upgrade_tables \<Longrightarrow> cs' = cs"
    by (meson eq_key_imp_eq_value)
qed

lemma parse_five [simp]: "parse_int ''5'' = Some 5" and parse_four [simp]: "parse_int ''4'' = Some 4"
  and parse_three [simp]: "parse_int ''3'' = Some 3"
  by (simp_all add: parse_int_def has_prefix_def digit_val_def time_defs)

text \<open>One additive statement: what it keeps, and that only the version may change among the rows.\<close>

lemma additive_keeps:
  assumes "additive s" and "run_stmt s f = Inr g"
  shows "grows f g \<and> rows_but_version g = rows_but_version f \<and>
    (disk_version g = disk_version f \<or> disk_version g = Some 5) \<and>
    (\<forall>t \<in> set upgrade_tables. table_ok f t \<longrightarrow> table_ok g t)"
  using assms
proof (cases rule: additive_result)
  case (table t cs)
  have "table_ok g t'" if "t' \<in> set upgrade_tables" "table_ok f t'" for t'
  proof (cases "fst t' = t")
    case True
    then have "snd t' = cs" using that(1) table(2) distinct_upgrade_tables [of t cs "snd t'"] by (cases t') simp
    then show ?thesis using True table by (simp add: table_ok_def columns_in_def)
  next
    case False
    then show ?thesis using that(2) table by (simp add: table_ok_def has_table_def columns_in_def)
  qed
  then show ?thesis using table by (auto simp: grows_def disk_version_def)
next
  case (column t cs c)
  then show ?thesis by (auto simp: grows_def disk_version_def table_ok_def has_table_def columns_in_def)
next
  case version
  then show ?thesis by (simp add: grows_def disk_version_def table_ok_def has_table_def columns_in_def)
qed simp

lemma additive_upgradable: "additive s \<Longrightarrow> run_stmt s f = Inr g \<Longrightarrow> upgradable f \<Longrightarrow> upgradable g"
  using additive_keeps [of s f g] grows_has_table [of f g "''entries''"] unfolding upgradable_def by auto

lemma additive_run:
  "\<forall>s \<in> set ss. additive s \<Longrightarrow> upgradable f \<Longrightarrow>
   upgradable (snd (run_stmts ss f)) \<and> grows f (snd (run_stmts ss f)) \<and>
   rows_but_version (snd (run_stmts ss f)) = rows_but_version f"
proof (induction ss arbitrary: f)
  case (Cons s ss)
  show ?case
  proof (cases "run_stmt s f")
    case (Inr g)
    then have "upgradable g" "grows f g" "rows_but_version g = rows_but_version f"
      using Cons.prems additive_upgradable [of s f g] additive_keeps [of s f g] by auto
    then show ?thesis using Cons Inr grows_trans by auto
  qed (use Cons.prems in simp)
qed simp

section \<open>An upgrade that is not interrupted\<close>

lemma creates_run:
  "\<exists>g. run_stmts (create_tables ts) f = (None, g) \<and> (\<forall>t \<in> set ts. has_table g (fst t)) \<and> grows f g"
proof (induction ts arbitrary: f)
  case (Cons t ts)
  obtain n cs where t: "t = (n, cs)" by (cases t)
  obtain h where h: "exec_ddl (CreateTable n cs) f = Inr h" "has_table h n" "grows f h"
    by (simp add: exec_ddl_def has_table_def grows_def)
  then show ?case using Cons.IH [of h] grows_trans [OF h(3)] grows_has_table
    by (fastforce simp: create_tables_def run_stmt_def t)
qed (simp add: create_tables_def)

lemma adds_missing:
  assumes "has_table f t"
  obtains g where "run_stmt (IfMissing t c (AddColumn t (c, r))) f = Inr g" "c \<in> columns_in g t" "grows f g"
  using assms that
  by (cases "c \<in> columns_in f t")
    (force simp: run_stmt_def exec_ddl_def has_column_def has_table_def columns_in_def grows_def)+

lemma tolerant_rows: "run_stmt (Tolerant (AddColumn t c)) f = Inr g \<Longrightarrow> fd_rows g = fd_rows f"
  by (auto simp: run_stmt_def exec_ddl_def split: option.splits if_splits)

lemma adds_tolerantly:
  assumes "has_table f t"
  obtains g where "run_stmt (Tolerant (AddColumn t (c, r))) f = Inr g" "c \<in> columns_in g t" "grows f g"
  using assms that
  by (cases "c \<in> columns_in f t") (force simp: run_stmt_def exec_ddl_def has_table_def columns_in_def grows_def)+

lemma steps_of_five: "steps_from 5 = migrateV5toV6 @ migrateV6toV7 @ migrateV7toV8 @ migrateV8toV9"
  and steps_of_four: "steps_from 4 = migrateV4toV5 @ steps_from 5"
  and steps_of_three: "steps_from 3 = migrateV3toV4 @ steps_from 4"
  by (simp_all add: steps_from_def schemaVersion_def schemaMigrations_def upto.simps)

lemma creates_additive: "set ts \<subseteq> set upgrade_tables \<Longrightarrow> s \<in> set (create_tables ts) \<Longrightarrow> additive s"
  by (auto simp: create_tables_def)

lemma steps_additive: "n = 4 \<or> n = 5 \<Longrightarrow> s \<in> set (steps_from n) \<Longrightarrow> additive s"
  using creates_additive [of execRunTablesDDLv6] creates_additive [of annotationTablesDDL]
  by (auto simp: steps_of_four steps_of_five migrateV4toV5_def migrateV5toV6_def migrateV6toV7_def migrateV7toV8_def
      migrateV8toV9_def upgrade_tables_def)

definition current_tables :: "db_file \<Rightarrow> bool" where
  "current_tables g \<longleftrightarrow>
     (\<forall>(t, cs) \<in> set (execRunTablesDDL @ annotationTablesDDL). has_table g t \<and> set (map fst cs) \<subseteq> columns_in g t)"

text \<open>The columns that order writes across machines are there as soon as the version says so.\<close>

definition sync_ok :: "db_file \<Rightarrow> bool" where
  "sync_ok f \<longleftrightarrow> (disk_version f = Some 5 \<longrightarrow> {''lamport'', ''origin_device''} \<subseteq> columns_in f ''entries'')"

lemma sync_ok_additive: "additive s \<Longrightarrow> run_stmt s f = Inr g \<Longrightarrow> disk_version f = Some 5 \<Longrightarrow> sync_ok f \<Longrightarrow> sync_ok g"
  using additive_keeps [of s f g] grows_columns [of f g "''entries''"] by (auto simp: sync_ok_def)

lemma sync_ok_run: "\<forall>s \<in> set ss. additive s \<Longrightarrow> disk_version f = Some 5 \<Longrightarrow> sync_ok f \<Longrightarrow>
   sync_ok (snd (run_stmts ss f)) \<and> disk_version (snd (run_stmts ss f)) = Some 5"
proof (induction ss arbitrary: f)
  case (Cons s ss)
  show ?case
  proof (cases "run_stmt s f")
    case (Inr g)
    then have "disk_version g = Some 5" "sync_ok g"
      using Cons.prems additive_keeps [of s f g] sync_ok_additive [of s f g] by auto
    then show ?thesis using Cons Inr by simp
  qed (use Cons.prems in simp)
qed simp

lemma four_to_five:
  assumes "upgradable f" and "disk_version f = Some 4"
  obtains f1 f2 f3 where "run_stmt (Tolerant (AddColumn ''entries'' (''lamport'', None))) f = Inr f1"
    "run_stmt (Tolerant (AddColumn ''entries'' (''origin_device'', None))) f1 = Inr f2"
    "run_stmt (Plain (SetVersion ''5'')) f2 = Inr f3"
    "disk_version f1 = Some 4" "disk_version f2 = Some 4" "disk_version f3 = Some 5" "sync_ok f3" "upgradable f3"
proof -
  have "has_table f ''entries''" using assms(1) by (simp add: upgradable_def)
  then obtain f1 where 1: "run_stmt (Tolerant (AddColumn ''entries'' (''lamport'', None))) f = Inr f1" "''lamport'' \<in> columns_in f1 ''entries''"
    by (rule adds_tolerantly)
  have f1: "upgradable f1" "fd_rows f1 = fd_rows f" "grows f f1"
    using additive_upgradable [OF _ 1(1) assms(1)] additive_keeps [OF _ 1(1)] tolerant_rows [OF 1(1)] by simp_all
  have "has_table f1 ''entries''" using f1(1) by (simp add: upgradable_def)
  then obtain f2 where 2: "run_stmt (Tolerant (AddColumn ''entries'' (''origin_device'', None))) f1 = Inr f2" "''origin_device'' \<in> columns_in f2 ''entries''"
    by (rule adds_tolerantly)
  have f2: "upgradable f2" "fd_rows f2 = fd_rows f" "grows f1 f2"
    using additive_upgradable [OF _ 2(1) f1(1)] additive_keeps [OF _ 2(1)] tolerant_rows [OF 2(1)] f1 by simp_all
  have columns: "{''lamport'', ''origin_device''} \<subseteq> columns_in f2 ''entries''"
    using 1(2) 2(2) grows_columns [OF f2(3)] by auto
  define f3 where "f3 = f2\<lparr>fd_rows := (fd_rows f2)\<lparr>db_meta := map_put (db_meta (fd_rows f2)) metaKeySchemaVersion ''5''\<rparr>\<rparr>"
  obtain v where marked: "map_get (db_meta (fd_rows f2)) metaKeySchemaVersion = Some v"
    using assms(2) f2(2) by (auto simp: disk_version_def split: option.splits)
  then have 3: "run_stmt (Plain (SetVersion ''5'')) f2 = Inr f3" by (simp add: run_stmt_def exec_ddl_def f3_def)
  have "disk_version f3 = Some 5" by (simp add: f3_def disk_version_def)
  moreover have "columns_in f3 ''entries'' = columns_in f2 ''entries''" by (simp add: f3_def columns_in_def)
  ultimately show thesis
    using that [OF 1(1) 2(1) 3] assms(2) f1 f2 columns additive_upgradable [OF _ 3 f2(1)]
    by (simp add: disk_version_def sync_ok_def)
qed

text \<open>The steps after version 5 always succeed.\<close>

lemma five_to_nine:
  assumes "upgradable f"
  obtains g where "run_stmts (steps_from 5) f = (None, g)" "current_tables g"
proof -
  obtain f1 where 1: "run_stmts migrateV5toV6 f = (None, f1)" "\<forall>t \<in> set execRunTablesDDLv6. has_table f1 (fst t)"
    using creates_run [of execRunTablesDDLv6 f] by (auto simp: migrateV5toV6_def)
  then have exec_runs: "has_table f1 ''exec_runs''" by (simp add: execRunTablesDDLv6_def)
  then obtain f2 where 2: "run_stmt (IfMissing ''exec_runs'' ''caller_agent_comm'' (AddColumn ''exec_runs'' (''caller_agent_comm'', None))) f1 = Inr f2"
      "''caller_agent_comm'' \<in> columns_in f2 ''exec_runs''" "grows f1 f2"
    by (rule adds_missing)
  have "has_table f2 ''exec_runs''" using grows_has_table 2(3) exec_runs by blast
  then obtain f3 where 3: "run_stmt (IfMissing ''exec_runs'' ''unattended'' (AddColumn ''exec_runs'' (''unattended'', None))) f2 = Inr f3"
      "''unattended'' \<in> columns_in f3 ''exec_runs''" "grows f2 f3"
    by (rule adds_missing)
  obtain g where 4: "run_stmts migrateV8toV9 f3 = (None, g)" "\<forall>t \<in> set annotationTablesDDL. has_table g (fst t)" "grows f3 g"
    using creates_run [of annotationTablesDDL f3] by (auto simp: migrateV8toV9_def)
  have run: "run_stmts (steps_from 5) f = (None, g)"
    using 1 2 3 4 by (simp add: steps_of_five run_stmts_append migrateV6toV7_def migrateV7toV8_def)
  have "upgradable g" using additive_run [of "steps_from 5" f] steps_additive [of 5] assms run by simp
  moreover have "\<forall>t \<in> set upgrade_tables. has_table g (fst t)"
    using 1(2) 4(2) grows_has_table 2(3) 3(3) 4(3) unfolding upgrade_tables_def set_append by blast
  ultimately have ok: "\<forall>t \<in> set upgrade_tables. has_table g (fst t) \<and> set (map fst (snd t)) \<subseteq> columns_in g (fst t)"
    unfolding upgradable_def table_ok_def by blast
  have "{''caller_agent_comm'', ''unattended''} \<subseteq> columns_in g ''exec_runs''"
    using 2(2) 3(2) grows_columns 3(3) 4(3) by blast
  then have "current_tables g" using ok
    by (simp add: current_tables_def upgrade_tables_def execRunTablesDDL_def execRunTablesDDLv6_def annotationTablesDDL_def refs_to_def plain_def)
  then show thesis using that run by blast
qed

section \<open>Any number of interruptions\<close>

definition resumable :: "db_file \<Rightarrow> bool" where
  "resumable f \<longleftrightarrow> upgradable f \<and> sync_ok f"

lemma cut_open_resumable:
  assumes "resumable f"
  shows "resumable (cut_open k f) \<and> rows_but_version (cut_open k f) = rows_but_version f"
proof -
  from assms consider "disk_version f = Some 5" | "disk_version f = Some 4" by (auto simp: resumable_def upgradable_def)
  then show ?thesis
  proof cases
    case 1
    have "\<forall>s \<in> set (take k (steps_from 5)). additive s" using steps_additive [of 5] by (meson in_set_takeD)
    then show ?thesis using assms 1 additive_run [of _ f] sync_ok_run [of _ f] by (simp add: resumable_def cut_open_def)
  next
    case 2
    then have up: "upgradable f" using assms by (simp add: resumable_def)
    obtain f1 f2 f3 where run: "run_stmt (Tolerant (AddColumn ''entries'' (''lamport'', None))) f = Inr f1"
        "run_stmt (Tolerant (AddColumn ''entries'' (''origin_device'', None))) f1 = Inr f2"
        "run_stmt (Plain (SetVersion ''5'')) f2 = Inr f3"
      and v: "disk_version f1 = Some 4" "disk_version f2 = Some 4" "disk_version f3 = Some 5" "sync_ok f3"
      by (rule four_to_five [OF up 2])
    have "\<forall>s \<in> set (take k (steps_from 4)). additive s" using steps_additive [of 4] by (meson in_set_takeD)
    then have kept: "upgradable (cut_open k f)" "rows_but_version (cut_open k f) = rows_but_version f"
      using additive_run [OF _ up] 2 by (simp_all add: cut_open_def)
    have "\<forall>s \<in> set (take (k - 3) (steps_from 5)). additive s" using steps_additive [of 5] by (meson in_set_takeD)
    then have late: "sync_ok (snd (run_stmts (take (k - 3) (steps_from 5)) f3))" using sync_ok_run v by blast
    consider "k = 0" | "k = 1" | "k = 2" | "3 \<le> k" by linarith
    then have "sync_ok (cut_open k f)"
    proof cases
      case 4
      then obtain j where k: "k = Suc (Suc (Suc j))" using less_eqE by (metis add.commute add_Suc_shift numeral_3_eq_3 plus_nat.add_0)
      then have "take k (steps_from 4) = migrateV4toV5 @ take (k - 3) (steps_from 5)"
        by (simp add: steps_of_four migrateV4toV5_def)
      then show ?thesis using late run 2 by (simp add: cut_open_def migrateV4toV5_def)
    qed (use 2 run v in \<open>simp_all add: cut_open_def steps_of_four migrateV4toV5_def sync_ok_def numeral_2_eq_2\<close>)
    then show ?thesis using kept by (simp add: resumable_def)
  qed
qed

interpretation openings: history cut_open resumable
  by unfold_locales (use cut_open_resumable in blast)

lemma cut_openings_rows:
  "resumable f \<Longrightarrow> rows_but_version (fold cut_open ks f) = rows_but_version f"
  using openings.run_keeps [of f "\<lambda>g. rows_but_version g = rows_but_version f" ks] cut_open_resumable by fastforce

lemma upgrade_completes:
  assumes "resumable f"
  obtains g n where "disk_version f = Some n" "n = 4 \<or> n = 5" "migrate_from n f = (None, g)"
    "current_tables g" "sync_ok g" "disk_version g = Some 5" "rows_but_version g = rows_but_version f"
proof -
  obtain h n where h: "disk_version f = Some n" "n = 4 \<or> n = 5" "snd (run_stmts (steps_from n) f) = snd (run_stmts (steps_from 5) h)"
      "fst (run_stmts (steps_from n) f) = fst (run_stmts (steps_from 5) h)" "upgradable h" "sync_ok h" "disk_version h = Some 5"
  proof (cases "disk_version f = Some 5")
    case True
    then show thesis using that [of 5 f] assms by (simp add: resumable_def)
  next
    case False
    then have f: "disk_version f = Some 4" "upgradable f" using assms by (auto simp: resumable_def upgradable_def)
    obtain f1 f2 f3 where run: "run_stmt (Tolerant (AddColumn ''entries'' (''lamport'', None))) f = Inr f1"
        "run_stmt (Tolerant (AddColumn ''entries'' (''origin_device'', None))) f1 = Inr f2"
        "run_stmt (Plain (SetVersion ''5'')) f2 = Inr f3"
      and v: "disk_version f3 = Some 5" "sync_ok f3" "upgradable f3"
      by (rule four_to_five [OF f(2,1)])
    show thesis using that [of 4 f3] f(1) run v by (simp add: steps_of_four migrateV4toV5_def)
  qed
  obtain g where g: "run_stmts (steps_from 5) h = (None, g)" "current_tables g" by (rule five_to_nine [OF h(5)])
  have "sync_ok g" "disk_version g = Some 5" using sync_ok_run [of "steps_from 5" h] steps_additive [of 5] h g by auto
  moreover have "rows_but_version g = rows_but_version f"
    using additive_run [of "steps_from n" f] steps_additive [OF h(2)] assms h(3) g by (simp add: resumable_def)
  moreover have "migrate_from n f = (None, g)"
    using migrate_from_steps [of n f] h g by (auto simp: schemaVersion_def prod_eq_iff)
  ultimately show thesis using that h(1,2) g(2) by blast
qed

section \<open>Properties\<close>

text \<open>
  C27. An upgrade survives interruptions: however often an opening of a vault at version 4 or 5 is cut off
  between two of its statements, the next opening completes the upgrade (given the snapshot before it):
  it succeeds, the tables and columns of the current schema are there, and no row but the version has
  changed. The version it leaves behind is 5, not the current one.
\<close>

theorem interrupted_upgrade_resumes:
  assumes "resumable f" and "disk_version (fold cut_open ks f) = Some n" and "backup_before_migrate io n bak = (None, bak')"
  shows "\<exists>g. verify_schema io (fold cut_open ks f) bak = (None, g, bak') \<and> current_tables g \<and> sync_ok g \<and>
    rows_but_version g = rows_but_version f \<and> disk_version g = Some 5"
proof -
  have "resumable (fold cut_open ks f)" using openings.run_inv assms(1) by blast
  then obtain g where g: "n = 4 \<or> n = 5" "migrate_from n (fold cut_open ks f) = (None, g)" "current_tables g" "sync_ok g"
      "disk_version g = Some 5" "rows_but_version g = rows_but_version (fold cut_open ks f)"
    using assms(2) by (metis upgrade_completes option.inject)
  have "verify_schema io (fold cut_open ks f) bak = (None, g, bak')"
    using g(1,2) assms(2,3) by (auto simp: verify_schema_def schemaVersion_def)
  then show ?thesis using g cut_openings_rows [OF assms(1)] by auto
qed

text \<open>A vault of version 4: the tables of today without the columns and tables of the later versions.\<close>

definition old_tables :: "string \<Rightarrow> (string \<times> column list) list" where
  "old_tables h =
     [(''meta'', plain [''key'', ''value'']), (''projects'', plain [''id'', ''name'']),
      (''envs'', [(''id'', None), refs_to ''projects'' ''project_id'', (''name'', None)]),
      (''entries'', plain [''id'', ''name'', ''value'', ''aad_version'']), (''file_meta'', plain [''entry_id'', h])]"

definition old_vault :: "string \<Rightarrow> string \<Rightarrow> db_file" where
  "old_vault h v = \<lparr>fd_tables = old_tables h, fd_rows = (create_schema 0 [] ''id'' ''old'')\<lparr>db_meta := [(metaKeySchemaVersion, v)]\<rparr>\<rparr>"

definition backup_ok :: backup_io where "backup_ok = \<lparr>bk_vacuum = None, bk_reopen = None, bk_verdict = ''ok''\<rparr>"

lemma old_vault_version: "disk_version (old_vault h v) = parse_int v"
  by (simp add: disk_version_def old_vault_def map_get_def)

lemma old_vault_resumable: "resumable (old_vault ''sha256_hmac'' ''4'')"
  by (simp add: resumable_def upgradable_def sync_ok_def disk_version_def table_ok_def has_table_def upgrade_tables_def
      old_tables_def execRunTablesDDLv6_def annotationTablesDDL_def old_vault_def map_get_def)

lemma interrupted_upgrade_resumes_witness:
  "\<exists>g. verify_schema backup_ok (fold cut_open [1, 0] (old_vault ''sha256_hmac'' ''4'')) [] = (None, g, [4]) \<and> current_tables g \<and>
     sync_ok g \<and> rows_but_version g = rows_but_version (old_vault ''sha256_hmac'' ''4'') \<and> disk_version g = Some 5"
proof -
  have "disk_version (fold cut_open [1, 0] (old_vault ''sha256_hmac'' ''4'')) = Some 4"
    by (simp add: cut_open_def old_vault_version steps_of_four migrateV4toV5_def run_stmt_def exec_ddl_def old_vault_def
        old_tables_def map_get_def disk_version_def plain_def refs_to_def)
  then show ?thesis
    by (rule interrupted_upgrade_resumes [OF old_vault_resumable]) (simp add: backup_before_migrate_def backup_ok_def)
qed

definition renamed :: "column list \<Rightarrow> column list" where
  "renamed cs = map (\<lambda>(c, r). (if c = ''sha256_plain'' then ''sha256_hmac'' else c, r)) cs"

lemma renamed_names: "map fst (renamed cs) = map (\<lambda>c. if c = ''sha256_plain'' then ''sha256_hmac'' else c) (map fst cs)"
  by (simp add: renamed_def case_prod_unfold comp_def)

lemma renamed_plain: "''sha256_plain'' \<notin> set (map fst (renamed cs))"
  unfolding renamed_names by auto

lemma renamed_hmac: "''sha256_plain'' \<in> set (map fst cs) \<Longrightarrow> ''sha256_hmac'' \<in> set (map fst (renamed cs))"
  unfolding renamed_names by force

lemma cut_after_renaming:
  assumes "disk_version f = Some 3" and "map_get (fd_tables f) ''file_meta'' = Some cs"
    and "''sha256_plain'' \<in> set (map fst cs)" and "''sha256_hmac'' \<notin> set (map fst cs)"
  shows "k = 1 \<or> k = 2 \<Longrightarrow> cut_open k f = f\<lparr>fd_tables := map_put (fd_tables f) ''file_meta'' (renamed cs)\<rparr>"
      (is "_ \<Longrightarrow> _ = ?f") and "fst (run_stmts migrateV3toV4 f) = None"
proof -
  have rename: "run_stmt (Plain (RenameColumn ''file_meta'' ''sha256_plain'' ''sha256_hmac'')) f = Inr ?f"
    using assms by (simp add: run_stmt_def exec_ddl_def renamed_def)
  have clear: "run_stmt (Plain (ClearColumn ''file_meta'' ''sha256_hmac'')) ?f = Inr ?f"
    using renamed_hmac [OF assms(3)] by (simp add: run_stmt_def exec_ddl_def has_column_def)
  show "k = 1 \<or> k = 2 \<Longrightarrow> cut_open k f = ?f"
    using rename clear assms(1) by (auto simp: cut_open_def steps_of_three migrateV3toV4_def numeral_2_eq_2)
  have "run_stmt (Plain (SetVersion ''4'')) ?f \<noteq> Inl e" for e by (simp add: run_stmt_def exec_ddl_def)
  then show "fst (run_stmts migrateV3toV4 f) = None"
    using rename clear by (simp add: migrateV3toV4_def split: sum.split)
qed

lemma renamed_column_missing:
  assumes "map_get (fd_tables f) ''file_meta'' = Some cs" and "''sha256_plain'' \<notin> set (map fst cs)"
  shows "run_stmts (migrateV3toV4 @ ss) f = (Some ''no such column'', f)"
  using assms by (simp add: migrateV3toV4_def run_stmt_def exec_ddl_def)

text \<open>
  The step from version 3 is not resumable: if it stops after renaming the column and before the version
  is written, every later opening fails at the column that is no longer there, whatever happens, and the
  vault stays as it is. Not interrupted it succeeds.
\<close>

theorem half_renamed_vault_never_opens:
  assumes v: "disk_version f = Some 3" and cs: "map_get (fd_tables f) ''file_meta'' = Some cs"
    and plain: "''sha256_plain'' \<in> set (map fst cs)" and hmac: "''sha256_hmac'' \<notin> set (map fst cs)"
    and k: "k = 1 \<or> k = 2"
  shows "fst (run_stmts migrateV3toV4 f) = None \<and> fold cut_open ks (cut_open k f) = cut_open k f \<and>
    verify_schema io (cut_open k f) bak =
      (case backup_before_migrate io 3 bak of
         (Some e, bak') \<Rightarrow> (Some (ErrBackup e), cut_open k f, bak')
       | (None, bak') \<Rightarrow> (Some (ErrMigrate 3 ''no such column''), cut_open k f, bak'))"
proof -
  define g where "g = f\<lparr>fd_tables := map_put (fd_tables f) ''file_meta'' (renamed cs)\<rparr>"
  have cut: "cut_open k f = g" unfolding g_def by (rule cut_after_renaming(1) [OF v cs plain hmac k])
  have g: "disk_version g = Some 3" "map_get (fd_tables g) ''file_meta'' = Some (renamed cs)"
    using v by (simp_all add: g_def disk_version_def)
  have stuck: "run_stmts (migrateV3toV4 @ ss) g = (Some ''no such column'', g)" for ss
    by (rule renamed_column_missing [OF g(2) renamed_plain])
  have "cut_open j g = g" for j
  proof (cases j)
    case (Suc i)
    have "run_stmt (Plain (RenameColumn ''file_meta'' ''sha256_plain'' ''sha256_hmac'')) g = Inl ''no such column''"
      using g(2) renamed_plain by (simp add: run_stmt_def exec_ddl_def)
    then show ?thesis using g(1) Suc by (simp add: cut_open_def steps_of_three migrateV3toV4_def)
  qed (simp add: cut_open_def g(1))
  then have stays: "fold cut_open ks g = g" by (induction ks) simp_all
  have "migrate_from 3 g = (Some (ErrMigrate 3 ''no such column''), g)"
    using stuck [of "[]"] by (subst migrate_from.simps) (simp add: schemaVersion_def schemaMigrations_def)
  then have "verify_schema io g bak = (case backup_before_migrate io 3 bak of
         (Some e, bak') \<Rightarrow> (Some (ErrBackup e), g, bak')
       | (None, bak') \<Rightarrow> (Some (ErrMigrate 3 ''no such column''), g, bak'))"
    using g(1) by (simp add: verify_schema_def schemaVersion_def split: prod.split option.split)
  then show ?thesis using cut_after_renaming(2) [OF v cs plain hmac] stays unfolding cut by blast
qed

lemma half_renamed_vault_never_opens_witness:
  "verify_schema backup_ok (cut_open 1 (old_vault ''sha256_plain'' ''3'')) []
   = (Some (ErrMigrate 3 ''no such column''), cut_open 1 (old_vault ''sha256_plain'' ''3''), [3])"
  using half_renamed_vault_never_opens
    [of "old_vault ''sha256_plain'' ''3''" "plain [''entry_id'', ''sha256_plain'']" 1 "[]" backup_ok "[]"]
  by (simp add: old_vault_version old_vault_def old_tables_def map_get_def plain_def backup_before_migrate_def backup_ok_def
      disk_version_def)

section \<open>What an upgrade leaves behind\<close>

text \<open>
  A snapshot whose check failed stays on disk, so the next opening takes it for an earlier attempt and
  upgrades without a usable snapshot.
\<close>

lemma unchecked_snapshot_is_trusted:
  assumes "disk_version f = Some n" and "n < int schemaVersion" and "n \<notin> set bak"
    and "bk_vacuum io = None" and "bk_reopen io = Some e \<or> bk_reopen io = None \<and> bk_verdict io \<noteq> ''ok''"
  shows "(\<exists>e. verify_schema io f bak = (Some (ErrBackup e), f, n # bak)) \<and>
    verify_schema io' f (n # bak) = (fst (migrate_from n f), snd (migrate_from n f), n # bak)"
  using assms by (auto simp: verify_schema_def backup_before_migrate_def split: prod.split)

text \<open>The snapshots of a vault that was upgraded do not refer to their environment, those of a new vault do.\<close>

definition unowned :: "db_file \<Rightarrow> bool" where
  "unowned f \<longleftrightarrow> map_get (fd_tables f) ''env_snapshots'' \<in> {None, map_of execRunTablesDDLv6 ''env_snapshots''}"

lemma unowned_step:
  assumes "n = 4 \<or> n = 5" and "s \<in> set (steps_from n)" and "run_stmt s f = Inr g" and "unowned f"
  shows "unowned g"
proof -
  consider cs t where "s = Plain (CreateTable t cs)" "(t, cs) \<in> set upgrade_tables" | "s = Plain (SetVersion ''5'')"
    | t c where "s = Tolerant (AddColumn t c)" "t \<noteq> ''env_snapshots''"
    | t c c' where "s = IfMissing t c (AddColumn t c')" "t \<noteq> ''env_snapshots''"
    using assms(1,2) by (auto simp: steps_of_four steps_of_five migrateV4toV5_def migrateV5toV6_def migrateV6toV7_def
        migrateV7toV8_def migrateV8toV9_def upgrade_tables_def create_tables_def)
  then show ?thesis
  proof cases
    case (1 cs t)
    have "(''env_snapshots'', cs) \<in> set upgrade_tables \<Longrightarrow> map_of execRunTablesDDLv6 ''env_snapshots'' = Some cs"
      by (simp add: upgrade_tables_def execRunTablesDDLv6_def annotationTablesDDL_def)
    then show ?thesis using 1 assms(3,4) by (auto simp: run_stmt_def exec_ddl_def unowned_def split: if_splits)
  next
    case 2
    then show ?thesis using assms(3,4) by (auto simp: run_stmt_def exec_ddl_def unowned_def split: if_splits)
  next
    case 3
    then show ?thesis using assms(3,4)
      by (auto simp: run_stmt_def exec_ddl_def unowned_def split: if_splits sum.splits option.splits)
  next
    case 4
    then show ?thesis using assms(3,4)
      by (auto simp: run_stmt_def exec_ddl_def unowned_def split: if_splits option.splits)
  qed
qed

lemma unowned_run:
  "n = 4 \<or> n = 5 \<Longrightarrow> set ss \<subseteq> set (steps_from n) \<Longrightarrow> unowned f \<Longrightarrow> unowned (snd (run_stmts ss f))"
  by (induction ss arbitrary: f) (auto split: sum.split intro: unowned_step)

lemma upgraded_snapshots_have_no_owner:
  assumes "resumable f" and "\<not> has_table f ''env_snapshots''" and "disk_version f = Some n" and "migrate_from n f = (None, g)"
  shows "map_get (fd_tables g) ''env_snapshots'' = map_of execRunTablesDDLv6 ''env_snapshots''"
    and "map_of execRunTablesDDLv6 ''env_snapshots'' \<noteq> map_of execRunTablesDDL ''env_snapshots''"
proof -
  have n: "n = 4 \<or> n = 5" using assms(1,3) by (auto simp: resumable_def upgradable_def)
  have "snd (run_stmts (steps_from n) f) = g" using migrate_from_steps(1) [of n f] n assms(4) by (auto simp: schemaVersion_def)
  then have "unowned g" using unowned_run [OF n subset_refl, of f] assms(2) by (simp add: unowned_def has_table_def)
  moreover have "current_tables g" using upgrade_completes [OF assms(1)] assms(3,4) by (metis option.inject prod.inject)
  then have "has_table g ''env_snapshots''" by (simp add: current_tables_def execRunTablesDDL_def)
  ultimately show "map_get (fd_tables g) ''env_snapshots'' = map_of execRunTablesDDLv6 ''env_snapshots''"
    by (auto simp: unowned_def has_table_def)
  show "map_of execRunTablesDDLv6 ''env_snapshots'' \<noteq> map_of execRunTablesDDL ''env_snapshots''"
    by (simp add: execRunTablesDDL_def execRunTablesDDLv6_def plain_def refs_to_def)
qed

end
