(* ===== verification/Vault_Files.thy ===== *)
theory Vault_Files
  imports Vault_Schema Vault_Store
begin

text \<open>
  A vault as files: \<open>Init\<close>, \<open>Open\<close>, \<open>Close\<close> and \<open>ChangePassword\<close> of \<open>internal/vault/store.go\<close>, the record of
  a vault of \<open>internal/vault/meta.go\<close>, \<open>internal/vault/rename.go\<close> and \<open>internal/vault/destroy.go\<close>.

  The disk maps the name of a vault to its directory, whose files are the wrapped key, the record \<open>meta.json\<close>
  and the database with the snapshots of its upgrades. An operation extends a history of the disk, newest
  first, by one state for each thing it does to a file; a crash leaves the disk in any of these states.
  Replacing a file is atomic (\<open>writeFileAtomic\<close>), so is a transaction of SQLite and so is renaming a directory.
  Temporary files, permissions and the side files of SQLite are left out; the JSON text of a record stands
  for the record, any other text for none.
\<close>

section \<open>The disk\<close>

record vault_meta =
  vm_format :: int
  vm_name :: string
  vm_id :: string
  vm_created :: int
  vm_fingerprint :: string
  vm_alg :: string

datatype meta_text = MetaRecord vault_meta | MetaGarbled

record vault_dir =
  vd_wrapped :: "bytes option"
  vd_meta :: "meta_text option"
  vd_db :: "db_file option"
  vd_baks :: "int list"

type_synonym disk = "vault_dir go_map"

definition empty_dir :: vault_dir where
  "empty_dir = \<lparr>vd_wrapped = None, vd_meta = None, vd_db = None, vd_baks = []\<rparr>"

definition dir_of :: "disk \<Rightarrow> string \<Rightarrow> vault_dir" where
  "dir_of d name = (case map_get d name of None \<Rightarrow> empty_dir | Some v \<Rightarrow> v)"

definition on_dir :: "string \<Rightarrow> (vault_dir \<Rightarrow> vault_dir) \<Rightarrow> disk \<Rightarrow> disk" where
  "on_dir name f d = (case map_get d name of None \<Rightarrow> d | Some v \<Rightarrow> map_put d name (f v))"

definition make_dir :: "string \<Rightarrow> disk \<Rightarrow> disk" where
  "make_dir name d = (if map_get d name = None then map_put d name empty_dir else d)"

definition effect :: "(disk \<Rightarrow> disk) \<Rightarrow> disk list \<Rightarrow> disk list" where
  "effect f h = f (hd h) # h"

datatype file_error =
    ErrBadVaultName | ErrEmptyPassword | ErrNotInit | ErrAlreadyInit | ErrPartialState bool bool bool | ErrMetaDecode
  | ErrMetaFormat int | ErrMetaAlg string | ErrFingerprintMismatch | ErrIO string | ErrOpenSchema schema_error
  | ErrPasskeyTables string | ErrReadVaultID | ErrWrapping crypto_error | ErrProtectedVault | ErrVaultExists

section \<open>The record of a vault\<close>

definition MetaFormatVersion :: int where "MetaFormatVersion = 1"
definition FingerprintAlg :: string where "FingerprintAlg = ''sha256-v1''"

definition validate_vault_name :: "string \<Rightarrow> file_error option" where
  "validate_vault_name name = (if vault_name_re name then None else Some ErrBadVaultName)"

definition compute_fingerprint :: "(bytes \<Rightarrow> bytes) \<Rightarrow> bytes \<Rightarrow> string" where
  "compute_fingerprint sha w = hex_encode (sha w)"

definition read_meta :: "(bytes \<Rightarrow> bytes) \<Rightarrow> meta_text \<Rightarrow> bytes \<Rightarrow> file_error + vault_meta" where
  "read_meta sha m w =
     (case m of
        MetaGarbled \<Rightarrow> Inl ErrMetaDecode
      | MetaRecord r \<Rightarrow>
          if vm_format r \<noteq> MetaFormatVersion then Inl (ErrMetaFormat (vm_format r))
          else if vm_alg r \<noteq> FingerprintAlg then Inl (ErrMetaAlg (vm_alg r))
          else if vm_fingerprint r \<noteq> compute_fingerprint sha w then Inl ErrFingerprintMismatch
          else Inr r)"

text \<open>The version and variant bits: \<open>b & 0x0f | 0x40\<close> and \<open>b & 0x3f | 0x80\<close>.\<close>

definition new_vault_id :: "bytes option \<Rightarrow> string option" where
  "new_vault_id draw =
     (case draw of
        None \<Rightarrow> None
      | Some b \<Rightarrow>
          let b = b[6 := char_of (of_char (b ! 6) mod 16 + 64 :: nat), 8 := char_of (of_char (b ! 8) mod 64 + 128 :: nat)];
              part = (\<lambda>i j. hex_encode (take (j - i) (drop i b))) in
          Some (part 0 4 @ ''-'' @ part 4 6 @ ''-'' @ part 6 8 @ ''-'' @ part 8 10 @ ''-'' @ part 10 16))"

section \<open>Opening and closing\<close>

record open_io =
  oi_read_wrapped :: "string option"
  oi_read_meta :: "string option"
  oi_open_db :: "string option"
  oi_backup :: backup_io

definition open_store :: "(bytes \<Rightarrow> bytes) \<Rightarrow> open_io \<Rightarrow> string \<Rightarrow> disk \<Rightarrow> (file_error + vault) \<times> disk" where
  "open_store sha io name d =
     (case validate_vault_name name of
        Some e \<Rightarrow> (Inl e, d)
      | None \<Rightarrow>
          (case (vd_db (dir_of d name), vd_wrapped (dir_of d name), vd_meta (dir_of d name)) of
             (None, None, None) \<Rightarrow> (Inl ErrNotInit, d)
           | (Some f, Some w, Some m) \<Rightarrow>
               (case oi_read_wrapped io of
                  Some e \<Rightarrow> (Inl (ErrIO e), d)
                | None \<Rightarrow>
               (case oi_read_meta io of
                  Some e \<Rightarrow> (Inl (ErrIO e), d)
                | None \<Rightarrow>
               (case read_meta sha m w of
                  Inl e \<Rightarrow> (Inl e, d)
                | Inr _ \<Rightarrow>
               (case oi_open_db io of
                  Some e \<Rightarrow> (Inl (ErrIO e), d)
                | None \<Rightarrow>
               (case verify_schema (oi_backup io) f (vd_baks (dir_of d name)) of
                  (Some e, f, baks) \<Rightarrow> (Inl (ErrOpenSchema e), on_dir name (\<lambda>v. v\<lparr>vd_db := Some f, vd_baks := baks\<rparr>) d)
                | (None, f, baks) \<Rightarrow>
               (case run_stmts ensure_passkey_tables f of
                  (Some e, f) \<Rightarrow> (Inl (ErrPasskeyTables e), on_dir name (\<lambda>v. v\<lparr>vd_db := Some f, vd_baks := baks\<rparr>) d)
                | (None, f) \<Rightarrow>
                    (case map_get (db_meta (fd_rows f)) metaKeyVaultID of
                       None \<Rightarrow> Inl ErrReadVaultID
                     | Some i \<Rightarrow> Inr \<lparr>vt_id = i, vt_key = None, vt_wrapped = Some w, vt_db = fd_rows f\<rparr>,
                     on_dir name (\<lambda>v. v\<lparr>vd_db := Some f, vd_baks := baks\<rparr>) d)))))))
           | (f, w, m) \<Rightarrow> (Inl (ErrPartialState (f \<noteq> None) (w \<noteq> None) (m \<noteq> None)), d)))"

definition close_store :: "vault \<Rightarrow> vault" where "close_store v = lock_vault v"

section \<open>A new vault\<close>

definition kdfParams :: argon_params where "kdfParams = DefaultArgon2Params"

text \<open>What the system does: errors of the single steps, the removals that work, random draws, the clock.\<close>

record init_io =
  ii_mkdir :: "string option"
  ii_write_wrapped :: "string option"
  ii_open_db :: "string option"
  ii_schema :: "string option"
  ii_bootstrap :: "string option"
  ii_chmod :: "string option"
  ii_write_meta :: "string option"
  ii_removes_db :: bool
  ii_removes_wrapped :: bool
  ii_removes_meta :: bool
  ii_key :: "bytes option"
  ii_salt :: "bytes option"
  ii_nonce :: "bytes option"
  ii_id :: "bytes option"
  ii_seed :: "bytes option"
  ii_schema_time :: int
  ii_bootstrap_time :: int
  ii_meta_time :: int

definition no_rows :: vault_db where
  "no_rows = \<lparr>db_meta = [], db_projects = [], db_envs = [], db_entries = [], db_annotations = [], db_versions = [],
     db_snapshots = [], db_refs = [], db_runs = [], db_passkeys = [], db_seq = (\<lambda>_. 0)\<rparr>"

definition clean_up :: "init_io \<Rightarrow> string \<Rightarrow> disk list \<Rightarrow> disk list" where
  "clean_up io name h =
     (let h = (if ii_removes_db io then effect (on_dir name (\<lambda>v. v\<lparr>vd_db := None\<rparr>)) h else h);
          h = (if ii_removes_wrapped io then effect (on_dir name (\<lambda>v. v\<lparr>vd_wrapped := None\<rparr>)) h else h) in
      if ii_removes_meta io then effect (on_dir name (\<lambda>v. v\<lparr>vd_meta := None\<rparr>)) h else h)"

text \<open>
  \<open>Init\<close> in three parts: the checks and the wrapped key, the database and its schema, the default project
  and the record.
\<close>

definition init_record ::
  "(bytes \<Rightarrow> bytes) \<Rightarrow> init_io \<Rightarrow> string \<Rightarrow> bytes \<Rightarrow> string \<Rightarrow> vault_db \<Rightarrow> disk list \<Rightarrow> (file_error + vault) \<times> disk list" where
  "init_record sha io name w vid rows h =
     (case ii_bootstrap io of
        Some e \<Rightarrow> (Inl (ErrIO e), clean_up io name h)
      | None \<Rightarrow>
     (let rows = bootstrap_defaults (ii_bootstrap_time io) rows;
          h = effect (on_dir name (\<lambda>v. v\<lparr>vd_db := Some \<lparr>fd_tables = schemaStatements, fd_rows = rows\<rparr>\<rparr>)) h in
      case ii_chmod io of
        Some e \<Rightarrow> (Inl (ErrIO e), clean_up io name h)
      | None \<Rightarrow>
      case ii_write_meta io of
        Some e \<Rightarrow> (Inl (ErrIO e), clean_up io name h)
      | None \<Rightarrow>
          (Inr \<lparr>vt_id = vid, vt_key = None, vt_wrapped = Some w, vt_db = rows\<rparr>,
           effect (on_dir name (\<lambda>v. v\<lparr>vd_meta := Some (MetaRecord \<lparr>vm_format = MetaFormatVersion, vm_name = name, vm_id = vid,
             vm_created = ii_meta_time io, vm_fingerprint = compute_fingerprint sha w, vm_alg = FingerprintAlg\<rparr>)\<rparr>)) h)))"

definition init_files ::
  "(bytes \<Rightarrow> bytes) \<Rightarrow> init_io \<Rightarrow> string \<Rightarrow> bytes \<Rightarrow> disk list \<Rightarrow> (file_error + vault) \<times> disk list" where
  "init_files sha io name w h =
     (case ii_open_db io of
        Some e \<Rightarrow> (Inl (ErrIO e), clean_up io name h)
      | None \<Rightarrow>
     (let h = effect (on_dir name (\<lambda>v. v\<lparr>vd_db := Some \<lparr>fd_tables = [], fd_rows = no_rows\<rparr>\<rparr>)) h in
      case new_vault_id (ii_id io) of
        None \<Rightarrow> (Inl (ErrWrapping ErrRand), clean_up io name h)
      | Some vid \<Rightarrow>
     (case (ii_seed io, ii_schema io) of
        (None, _) \<Rightarrow> (Inl (ErrWrapping ErrRand), clean_up io name h)
      | (_, Some e) \<Rightarrow> (Inl (ErrIO e), clean_up io name h)
      | (Some seed, None) \<Rightarrow>
     (let rows = create_schema (ii_schema_time io) seed vid name in
      init_record sha io name w vid rows
        (effect (on_dir name (\<lambda>v. v\<lparr>vd_db := Some \<lparr>fd_tables = schemaStatements, fd_rows = rows\<rparr>\<rparr>)) h)))))"

definition init_store ::
  "crypto_lib \<Rightarrow> (bytes \<Rightarrow> bytes) \<Rightarrow> init_io \<Rightarrow> string \<Rightarrow> bytes option \<Rightarrow> disk list \<Rightarrow> (file_error + vault) \<times> disk list" where
  "init_store cl sha io name password h =
     (case validate_vault_name name of
        Some e \<Rightarrow> (Inl e, h)
      | None \<Rightarrow>
     (case password of
        None \<Rightarrow> (Inl ErrEmptyPassword, h)
      | Some pw \<Rightarrow>
     (case ii_mkdir io of
        Some e \<Rightarrow> (Inl (ErrIO e), h)
      | None \<Rightarrow>
     (let h = effect (make_dir name) h; v = dir_of (hd h) name in
      if vd_db v \<noteq> None \<or> vd_wrapped v \<noteq> None \<or> vd_meta v \<noteq> None then (Inl ErrAlreadyInit, h)
      else case new_vault_key (ii_key io) of
        Inl e \<Rightarrow> (Inl (ErrWrapping e), h)
      | Inr vk \<Rightarrow>
     (case wrap_key cl (ii_salt io) (ii_nonce io) pw vk kdfParams of
        Inl e \<Rightarrow> (Inl (ErrWrapping e), h)
      | Inr w \<Rightarrow>
     (case ii_write_wrapped io of
        Some e \<Rightarrow> (Inl (ErrIO e), h)
      | None \<Rightarrow> init_files sha io name w (effect (on_dir name (\<lambda>v. v\<lparr>vd_wrapped := Some w\<rparr>)) h)))))))"

section \<open>A new password\<close>

record password_io =
  pi_read_wrapped :: "string option"
  pi_read_meta :: "string option"
  pi_salt :: "bytes option"
  pi_nonce :: "bytes option"
  pi_write_wrapped :: "string option"
  pi_write_meta :: "string option"

definition read_files ::
  "(bytes \<Rightarrow> bytes) \<Rightarrow> string option \<Rightarrow> string option \<Rightarrow> vault_dir \<Rightarrow> file_error + bytes \<times> vault_meta" where
  "read_files sha ioWrapped ioMeta v =
     (case (ioWrapped, vd_wrapped v) of
        (Some e, _) \<Rightarrow> Inl (ErrIO e)
      | (_, None) \<Rightarrow> Inl (ErrIO ''no such file'')
      | (None, Some w) \<Rightarrow>
     (case (ioMeta, vd_meta v) of
        (Some e, _) \<Rightarrow> Inl (ErrIO e)
      | (_, None) \<Rightarrow> Inl (ErrIO ''no such file'')
      | (None, Some m) \<Rightarrow> (case read_meta sha m w of Inl e \<Rightarrow> Inl e | Inr r \<Rightarrow> Inr (w, r))))"

definition change_password ::
  "crypto_lib \<Rightarrow> (bytes \<Rightarrow> bytes) \<Rightarrow> password_io \<Rightarrow> string \<Rightarrow> bytes \<Rightarrow> bytes \<Rightarrow> disk list \<Rightarrow> (file_error + unit) \<times> disk list" where
  "change_password cl sha io name oldPassword newPassword h =
     (if newPassword = [] then (Inl ErrEmptyPassword, h)
      else case read_files sha (pi_read_wrapped io) (pi_read_meta io) (dir_of (hd h) name) of
        Inl e \<Rightarrow> (Inl e, h)
      | Inr (oldWrapped, meta) \<Rightarrow>
     (case unwrap_key cl oldPassword oldWrapped of
        Inl e \<Rightarrow> (Inl (ErrWrapping e), h)
      | Inr vk \<Rightarrow>
     (case wrap_key cl (pi_salt io) (pi_nonce io) newPassword vk kdfParams of
        Inl e \<Rightarrow> (Inl (ErrWrapping e), h)
      | Inr newWrapped \<Rightarrow>
     (case pi_write_wrapped io of
        Some e \<Rightarrow> (Inl (ErrIO e), h)
      | None \<Rightarrow>
     (let h = effect (on_dir name (\<lambda>v. v\<lparr>vd_wrapped := Some newWrapped\<rparr>)) h in
      case pi_write_meta io of
        Some e \<Rightarrow> (Inl (ErrIO e), h)
      | None \<Rightarrow>
          (Inr (), effect (on_dir name (\<lambda>v. v\<lparr>vd_meta := Some (MetaRecord (meta\<lparr>vm_fingerprint := compute_fingerprint sha newWrapped\<rparr>))\<rparr>)) h))))))"

section \<open>Renaming and destroying\<close>

record rename_io =
  ri_stat :: "string option"
  ri_read_wrapped :: "string option"
  ri_read_meta :: "string option"
  ri_write_meta :: "string option"
  ri_rename :: "string option"

definition move_dir :: "string \<Rightarrow> string \<Rightarrow> disk \<Rightarrow> disk" where
  "move_dir a b d = (case map_get d a of None \<Rightarrow> d | Some v \<Rightarrow> map_put (map_del d a) b v)"

definition rename_vault ::
  "(bytes \<Rightarrow> bytes) \<Rightarrow> rename_io \<Rightarrow> string \<Rightarrow> string \<Rightarrow> disk list \<Rightarrow> (file_error + unit) \<times> disk list" where
  "rename_vault sha io oldName newName h =
     (case validate_vault_name oldName of Some e \<Rightarrow> (Inl e, h) | None \<Rightarrow>
     (case validate_vault_name newName of Some e \<Rightarrow> (Inl e, h) | None \<Rightarrow>
      if oldName = DefaultVaultName then (Inl ErrProtectedVault, h)
      else if newName = DefaultVaultName then (Inl ErrVaultExists, h)
      else if oldName = newName then (Inr (), h)
      else if vd_meta (dir_of (hd h) oldName) = None then (Inl ErrNotInit, h)
      else if map_get (hd h) newName \<noteq> None then (Inl ErrVaultExists, h)
      else case ri_stat io of Some e \<Rightarrow> (Inl (ErrIO e), h) | None \<Rightarrow>
     (case read_files sha (ri_read_wrapped io) (ri_read_meta io) (dir_of (hd h) oldName) of
        Inl e \<Rightarrow> (Inl e, h)
      | Inr (w, meta) \<Rightarrow>
     (case ri_write_meta io of Some e \<Rightarrow> (Inl (ErrIO e), h) | None \<Rightarrow>
     (let h = effect (on_dir oldName (\<lambda>v. v\<lparr>vd_meta := Some (MetaRecord (meta\<lparr>vm_name := newName\<rparr>))\<rparr>)) h in
      case ri_rename io of Some e \<Rightarrow> (Inl (ErrIO e), h) | None \<Rightarrow> (Inr (), effect (move_dir oldName newName) h))))))"

text \<open>Removing a directory takes its files in some order and may stop in between.\<close>

datatype vault_file = WrappedFile | MetaFile | DbFile

record destroy_io =
  di_stat :: "string option"
  di_random :: "bytes option"
  di_removed :: "vault_file list"
  di_remove :: "string option"

definition remove_file :: "vault_file \<Rightarrow> vault_dir \<Rightarrow> vault_dir" where
  "remove_file x v =
     (case x of WrappedFile \<Rightarrow> v\<lparr>vd_wrapped := None\<rparr> | MetaFile \<Rightarrow> v\<lparr>vd_meta := None\<rparr> | DbFile \<Rightarrow> v\<lparr>vd_db := None\<rparr>)"

definition overwrite_with_random :: "bytes option \<Rightarrow> vault_dir \<Rightarrow> vault_dir" where
  "overwrite_with_random draw v =
     (case (draw, vd_wrapped v) of (Some b, Some w) \<Rightarrow> v\<lparr>vd_wrapped := Some b\<rparr> | _ \<Rightarrow> v)"

definition destroy :: "destroy_io \<Rightarrow> string \<Rightarrow> disk list \<Rightarrow> (file_error + unit) \<times> disk list" where
  "destroy io name h =
     (case validate_vault_name name of Some e \<Rightarrow> (Inl e, h) | None \<Rightarrow>
      if name = DefaultVaultName then (Inl ErrProtectedVault, h)
      else if map_get (hd h) name = None then (Inl ErrNotInit, h)
      else case di_stat io of Some e \<Rightarrow> (Inl (ErrIO e), h) | None \<Rightarrow>
     (let h = effect (on_dir name (overwrite_with_random (di_random io))) h;
          h = fold (\<lambda>x. effect (on_dir name (remove_file x))) (di_removed io) h in
      case di_remove io of Some e \<Rightarrow> (Inl (ErrIO e), h) | None \<Rightarrow> (Inr (), effect (\<lambda>d. map_del d name) h)))"

end
