(* ===== verification/Vault_File_Claims.thy ===== *)
theory Vault_File_Claims
  imports Vault_Files Vault_Examples Vault_Schema_Claims
begin

text \<open>
  What a crash or a failure in the middle of an operation on the files of a vault leaves behind, and
  what a completed one does.
\<close>

section \<open>Directories\<close>

lemma get_on_dir [simp]: "map_get (on_dir n f d) m = (if m = n then map_option f (map_get d n) else map_get d m)"
  by (simp add: on_dir_def split: option.split)

lemma get_make_dir [simp]:
  "map_get (make_dir n d) m = (if m = n \<and> map_get d n = None then Some empty_dir else map_get d m)"
  by (simp add: make_dir_def)

lemma dir_of_on_dir [simp]:
  "dir_of (on_dir n f d) m = (if m = n \<and> map_get d n \<noteq> None then f (dir_of d n) else dir_of d m)"
  by (simp add: dir_of_def split: option.split)

lemma dir_of_make_dir [simp]: "dir_of (make_dir n d) m = dir_of d m"
  by (simp add: dir_of_def split: option.split)

lemma dir_of_move [simp]:
  "map_get d b = None \<Longrightarrow> a \<noteq> b \<Longrightarrow> dir_of (move_dir a b d) m =
     (if m = a then empty_dir else if m = b then dir_of d a else dir_of d m)"
  by (simp add: dir_of_def move_dir_def split: option.split)

lemma dir_of_del [simp]: "dir_of (map_del d n) m = (if m = n then empty_dir else dir_of d m)"
  by (simp add: dir_of_def)

lemma dir_there: "dir_of d n \<noteq> empty_dir \<Longrightarrow> map_get d n \<noteq> None"
  by (cases "map_get d n") (simp_all add: dir_of_def)

lemma on_dir_same: "f (dir_of d n) = dir_of d n \<Longrightarrow> on_dir n f d = d"
  by (auto simp: on_dir_def dir_of_def map_put_def map_get_def update_triv split: option.splits)

text \<open>A property of all states of a history.\<close>

lemma effect_hd [simp]: "hd (effect f h) = f (hd h)" by (simp add: effect_def)
lemma effect_tl [simp]: "tl (effect f h) = h" by (simp add: effect_def)
lemma effect_set [simp]: "set (effect f h) = insert (f (hd h)) (set h)" by (simp add: effect_def)
lemma effect_nonempty [simp]: "effect f h \<noteq> []" by (simp add: effect_def)

definition throughout :: "(disk \<Rightarrow> bool) \<Rightarrow> disk list \<Rightarrow> bool" where
  "throughout P h \<longleftrightarrow> h \<noteq> [] \<and> (\<forall>d \<in> set h. P d)"

lemma throughout_hd: "throughout P h \<Longrightarrow> P (hd h)"
  by (simp add: throughout_def)

lemma throughout_effect [simp]: "throughout P h \<Longrightarrow> throughout P (effect f h) \<longleftrightarrow> P (f (hd h))"
  by (auto simp: throughout_def)

lemma throughout_clean_up:
  assumes "throughout P h" and "\<And>d. P d \<Longrightarrow> P (on_dir name (\<lambda>v. v\<lparr>vd_db := None\<rparr>) d)"
    and "\<And>d. P d \<Longrightarrow> P (on_dir name (\<lambda>v. v\<lparr>vd_wrapped := None\<rparr>) d)" "\<And>d. P d \<Longrightarrow> P (on_dir name (\<lambda>v. v\<lparr>vd_meta := None\<rparr>) d)"
  shows "throughout P (clean_up io name h)"
  using assms throughout_hd by (simp add: clean_up_def Let_def throughout_hd)

section \<open>When a vault opens\<close>

definition open_ok :: open_io where
  "open_ok = \<lparr>oi_read_wrapped = None, oi_read_meta = None, oi_open_db = None, oi_backup = backup_ok\<rparr>"

definition reads_files :: "open_io \<Rightarrow> bool" where
  "reads_files io \<longleftrightarrow> oi_read_wrapped io = None \<and> oi_read_meta io = None \<and> oi_open_db io = None"

definition opens_as :: "(bytes \<Rightarrow> bytes) \<Rightarrow> vault_dir \<Rightarrow> vault \<Rightarrow> bool" where
  "opens_as sha v st \<longleftrightarrow>
     (\<exists>f w m i. v = v\<lparr>vd_db := Some f, vd_wrapped := Some w, vd_meta := Some (MetaRecord m)\<rparr> \<and>
        read_meta sha (MetaRecord m) w = Inr m \<and> disk_version f = Some (int schemaVersion) \<and>
        run_stmts ensure_passkey_tables f = (None, f) \<and> map_get (db_meta (fd_rows f)) metaKeyVaultID = Some i \<and>
        st = \<lparr>vt_id = i, vt_key = None, vt_wrapped = Some w, vt_db = fd_rows f\<rparr>)"

lemma opens_asE:
  assumes "opens_as sha v st"
  obtains f w m i where "vd_db v = Some f" "vd_wrapped v = Some w" "vd_meta v = Some (MetaRecord m)"
    "read_meta sha (MetaRecord m) w = Inr m" "disk_version f = Some (int schemaVersion)"
    "run_stmts ensure_passkey_tables f = (None, f)" "map_get (db_meta (fd_rows f)) metaKeyVaultID = Some i"
    "st = \<lparr>vt_id = i, vt_key = None, vt_wrapped = Some w, vt_db = fd_rows f\<rparr>"
  using assms unfolding opens_as_def by (cases v) auto

lemma opens_as_opens:
  assumes "opens_as sha (dir_of d name) st" and "vault_name_re name" and "reads_files io"
  shows "open_store sha io name d = (Inr st, d)"
proof -
  obtain f w m i where o: "vd_db (dir_of d name) = Some f" "vd_wrapped (dir_of d name) = Some w"
      "vd_meta (dir_of d name) = Some (MetaRecord m)" "read_meta sha (MetaRecord m) w = Inr m"
      "disk_version f = Some (int schemaVersion)" "run_stmts ensure_passkey_tables f = (None, f)"
      "map_get (db_meta (fd_rows f)) metaKeyVaultID = Some i"
      "st = \<lparr>vt_id = i, vt_key = None, vt_wrapped = Some w, vt_db = fd_rows f\<rparr>"
    using assms(1) by (rule opens_asE)
  have "on_dir name (\<lambda>v. v\<lparr>vd_db := Some f, vd_baks := vd_baks (dir_of d name)\<rparr>) d = d"
    by (rule on_dir_same) (use o(1) in \<open>cases "dir_of d name", simp\<close>)
  then show ?thesis using o assms(2,3)
    by (simp add: open_store_def validate_vault_name_def reads_files_def verify_schema_def)
qed

text \<open>With a file missing it does not, and nothing changes.\<close>

definition refused :: "file_error \<Rightarrow> bool" where
  "refused e \<longleftrightarrow> e = ErrNotInit \<or> (\<exists>f w m. e = ErrPartialState f w m)"

lemma incomplete_refused:
  assumes "vault_name_re name"
    and "vd_db (dir_of d name) = None \<or> vd_wrapped (dir_of d name) = None \<or> vd_meta (dir_of d name) = None"
  shows "\<exists>e. open_store sha io name d = (Inl e, d) \<and> refused e"
  using assms by (auto simp: open_store_def validate_vault_name_def refused_def split: option.splits)

lemma mismatch_refused:
  assumes "vault_name_re name" and "reads_files io" and "vd_db (dir_of d name) = Some f"
    and "vd_wrapped (dir_of d name) = Some w" and "vd_meta (dir_of d name) = Some (MetaRecord m)"
    and "vm_format m = MetaFormatVersion" "vm_alg m = FingerprintAlg" "vm_fingerprint m \<noteq> compute_fingerprint sha w"
  shows "open_store sha io name d = (Inl ErrFingerprintMismatch, d)"
  using assms by (simp add: open_store_def validate_vault_name_def reads_files_def read_meta_def)

lemma read_meta_Inr:
  "read_meta sha (MetaRecord m) w = Inr r \<longleftrightarrow>
   r = m \<and> vm_format m = MetaFormatVersion \<and> vm_alg m = FingerprintAlg \<and> vm_fingerprint m = compute_fingerprint sha w"
  by (auto simp: read_meta_def)

section \<open>A new vault\<close>

lemma ensure_on_new [simp]:
  "run_stmts ensure_passkey_tables \<lparr>fd_tables = schemaStatements, fd_rows = r\<rparr> = (None, \<lparr>fd_tables = schemaStatements, fd_rows = r\<rparr>)"
proof -
  have tables: "map_get schemaStatements ''passkey'' = map_of passkeyTableDDL ''passkey''"
      "map_get schemaStatements ''passkey_unlock'' = map_of passkeyUnlockTableDDL ''passkey_unlock''"
    by (simp_all add: schemaStatements_def execRunTablesDDL_def annotationTablesDDL_def passkeyTableDDL_def
        passkeyUnlockTableDDL_def map_get_def)
  show ?thesis
    using tables by (simp add: ensure_passkey_tables_def create_tables_def passkeyTableDDL_def passkeyUnlockTableDDL_def
        run_stmt_def exec_ddl_def plain_def)
qed

definition new_rows :: "init_io \<Rightarrow> bytes \<Rightarrow> string \<Rightarrow> string \<Rightarrow> vault_db" where
  "new_rows io seed vid name = bootstrap_defaults (ii_bootstrap_time io) (create_schema (ii_schema_time io) seed vid name)"

lemma new_rows_meta:
  "map_get (db_meta (new_rows io seed vid name)) metaKeyVaultID = Some vid"
  "disk_version \<lparr>fd_tables = ts, fd_rows = new_rows io seed vid name\<rparr> = Some (int schemaVersion)"
proof -
  have "parse_int (nat_dec schemaVersion) = Some (int schemaVersion)"
    using parse_int_dec [of "int schemaVersion"] by (simp add: int_dec_def schemaVersion_def time_defs)
  then show "map_get (db_meta (new_rows io seed vid name)) metaKeyVaultID = Some vid"
    "disk_version \<lparr>fd_tables = ts, fd_rows = new_rows io seed vid name\<rparr> = Some (int schemaVersion)"
    by (simp_all add: new_rows_def bootstrap_defaults_def create_schema_def insert_project_def insert_env_def take_id_def
        Let_def map_get_def disk_version_def metaKeySchemaVersion_def metaKeyVaultID_def)
qed

lemma ok_new_rows: "db_ok (new_rows io seed vid name)"
proof -
  have "db_ok (create_schema t seed vid name)" for t
    by (simp add: create_schema_def db_ok_def projects_ok_def envs_ok_def entries_ok_def ids_ok_def)
  then have "db_ok (insert_project (ii_bootstrap_time io) DefaultProjectName (create_schema (ii_schema_time io) seed vid name))"
    by (rule ok_insert_project) (simp add: create_schema_def find_project_def)
  then show ?thesis
    by (auto simp: new_rows_def bootstrap_defaults_def Let_def db_ok_def projects_ok_def envs_ok_def entries_ok_def ids_ok_def)
qed

text \<open>Until the record is written there is none, so no state in between opens.\<close>

definition others_same :: "string \<Rightarrow> disk \<Rightarrow> disk \<Rightarrow> bool" where
  "others_same name d d' \<longleftrightarrow> (\<forall>n. n \<noteq> name \<longrightarrow> map_get d' n = map_get d n)"

definition no_record :: "string \<Rightarrow> disk \<Rightarrow> disk \<Rightarrow> bool" where
  "no_record name d0 d \<longleftrightarrow> vd_meta (dir_of d name) = None \<and> others_same name d0 d"

lemma no_record_clean_up: "throughout (no_record name d0) h \<Longrightarrow> throughout (no_record name d0) (clean_up io name h)"
  by (rule throughout_clean_up) (simp_all add: no_record_def others_same_def)

lemma clean_up_empties:
  "ii_removes_db io \<Longrightarrow> ii_removes_wrapped io \<Longrightarrow> ii_removes_meta io \<Longrightarrow>
   vd_db (dir_of (hd (clean_up io name h)) name) = None \<and> vd_wrapped (dir_of (hd (clean_up io name h)) name) = None \<and>
   vd_meta (dir_of (hd (clean_up io name h)) name) = None"
  by (cases "map_get (hd h) name") (simp_all add: clean_up_def dir_of_def empty_dir_def)

text \<open>The two ways in which the parts of \<open>Init\<close> end.\<close>

definition init_outcome ::
  "(bytes \<Rightarrow> bytes) \<Rightarrow> init_io \<Rightarrow> string \<Rightarrow> bytes \<Rightarrow> disk \<Rightarrow> (file_error + vault) \<times> disk list \<Rightarrow> bool" where
  "init_outcome sha io name w d0 out \<longleftrightarrow>
     (\<exists>e g. out = (Inl e, clean_up io name g) \<and> throughout (no_record name d0) g) \<or>
     (\<exists>st h seed vid. out = (Inr st, h) \<and> throughout (no_record name d0) (tl h) \<and> opens_as sha (dir_of (hd h) name) st \<and>
        vt_wrapped st = Some w \<and> vt_db st = new_rows io seed vid name \<and> others_same name d0 (hd h))"

lemma stopped [intro]: "throughout (no_record name d0) g \<Longrightarrow> init_outcome sha io name w d0 (Inl e, clean_up io name g)"
  by (auto simp: init_outcome_def)

lemma put_db:
  assumes "throughout (no_record name d0) g" and "map_get (hd g) name = Some u"
  shows "throughout (no_record name d0) (effect (on_dir name (\<lambda>v. v\<lparr>vd_db := Some f\<rparr>)) g)"
    and "map_get (hd (effect (on_dir name (\<lambda>v. v\<lparr>vd_db := Some f\<rparr>)) g)) name = Some (u\<lparr>vd_db := Some f\<rparr>)"
  using assms throughout_hd [OF assms(1)] by (simp_all add: no_record_def others_same_def)

lemma init_record_outcome:
  assumes h: "throughout (no_record name d0) h" and there: "map_get (hd h) name = Some u" "vd_wrapped u = Some w"
  shows "init_outcome sha io name w d0 (init_record sha io name w vid (create_schema (ii_schema_time io) seed vid name) h)"
proof -
  define f where "f = \<lparr>fd_tables = schemaStatements, fd_rows = new_rows io seed vid name\<rparr>"
  define g where "g = effect (on_dir name (\<lambda>v. v\<lparr>vd_db := Some f\<rparr>)) h"
  have g: "throughout (no_record name d0) g" "map_get (hd g) name = Some (u\<lparr>vd_db := Some f\<rparr>)"
    unfolding g_def by (rule put_db [OF h there(1)])+
  show ?thesis
  proof (cases "ii_bootstrap io = None \<and> ii_chmod io = None \<and> ii_write_meta io = None")
    case True
    define m where "m = \<lparr>vm_format = MetaFormatVersion, vm_name = name, vm_id = vid, vm_created = ii_meta_time io,
      vm_fingerprint = compute_fingerprint sha w, vm_alg = FingerprintAlg\<rparr>"
    define st where "st = \<lparr>vt_id = vid, vt_key = None, vt_wrapped = Some w, vt_db = new_rows io seed vid name\<rparr>"
    have run: "init_record sha io name w vid (create_schema (ii_schema_time io) seed vid name) h
        = (Inr st, effect (on_dir name (\<lambda>v. v\<lparr>vd_meta := Some (MetaRecord m)\<rparr>)) g)"
      using True by (simp add: init_record_def Let_def g_def f_def new_rows_def m_def st_def)
    have "dir_of (on_dir name (\<lambda>v. v\<lparr>vd_meta := Some (MetaRecord m)\<rparr>) (hd g)) name
        = u\<lparr>vd_db := Some f, vd_meta := Some (MetaRecord m)\<rparr>"
      using g(2) by (simp add: dir_of_def)
    then have "opens_as sha (dir_of (on_dir name (\<lambda>v. v\<lparr>vd_meta := Some (MetaRecord m)\<rparr>) (hd g)) name) st"
      unfolding opens_as_def
      by (intro exI [of _ f] exI [of _ w] exI [of _ m] exI [of _ vid])
        (use there(2) in \<open>simp add: f_def m_def st_def new_rows_meta read_meta_Inr\<close>)
    then show ?thesis unfolding run init_outcome_def using g(1) throughout_hd [OF g(1)]
      by (auto simp: st_def no_record_def others_same_def)
  next
    case False
    then show ?thesis using h g(1)
      by (auto simp: init_record_def Let_def g_def f_def new_rows_def split: option.split)
  qed
qed

lemma init_files_outcome:
  assumes h: "throughout (no_record name d0) h" and there: "map_get (hd h) name = Some u" "vd_wrapped u = Some w"
  shows "init_outcome sha io name w d0 (init_files sha io name w h)"
proof (cases "ii_open_db io")
  case None
  note h1 = put_db [OF h there(1)]
  show ?thesis
  proof (cases "new_vault_id (ii_id io) = None \<or> ii_seed io = None \<or> ii_schema io \<noteq> None")
    case True
    then show ?thesis using None h1(1) by (auto simp: init_files_def Let_def split: option.splits)
  next
    case False
    then obtain vid seed where some: "new_vault_id (ii_id io) = Some vid" "ii_seed io = Some seed" "ii_schema io = None" by auto
    show ?thesis
      unfolding init_files_def None some Let_def option.case prod.case
      by (rule init_record_outcome [OF put_db [OF h1]]) (simp add: there(2))
  qed
qed (use h in \<open>auto simp: init_files_def\<close>)

lemma init_store_outcome:
  assumes "vault_name_re name" and "dir_of d name = empty_dir" and res: "res = init_store cl sha io name password [d]"
  shows "(\<exists>e. fst res = Inl e \<and> throughout (no_record name d) (snd res) \<and>
      (ii_removes_db io \<and> ii_removes_wrapped io \<and> ii_removes_meta io \<longrightarrow>
         vd_db (dir_of (hd (snd res)) name) = None \<and> vd_wrapped (dir_of (hd (snd res)) name) = None)) \<or>
    (\<exists>pw vk w. password = Some pw \<and> ii_key io = Some vk \<and> wrap_key cl (ii_salt io) (ii_nonce io) pw vk kdfParams = Inr w \<and>
      (\<exists>st seed vid. fst res = Inr st \<and> throughout (no_record name d) (tl (snd res)) \<and>
         opens_as sha (dir_of (hd (snd res)) name) st \<and> vt_wrapped st = Some w \<and> vt_db st = new_rows io seed vid name \<and>
         others_same name d (hd (snd res))))" (is "?failed res \<or> ?done res")
proof -
  let ?h = "effect (make_dir name) [d]"
  have h: "throughout (no_record name d) [d]" "throughout (no_record name d) ?h"
    using assms(2) by (simp_all add: throughout_def no_record_def others_same_def empty_dir_def)
  have early: "?failed (Inl e, [d])" "?failed (Inl e, ?h)" for e
    using h assms(2) by (simp_all add: empty_dir_def)
  show ?thesis
  proof (cases "\<exists>pw vk w. password = Some pw \<and> ii_mkdir io = None \<and> ii_key io = Some vk \<and>
      wrap_key cl (ii_salt io) (ii_nonce io) pw vk kdfParams = Inr w \<and> ii_write_wrapped io = None")
    case False
    then have "\<exists>e. res = (Inl e, [d]) \<or> res = (Inl e, ?h)"
      using assms(1,2) by (auto simp: res init_store_def validate_vault_name_def new_vault_key_def Let_def empty_dir_def
          split: option.split sum.split)
    then show ?thesis using early by blast
  next
    case True
    then obtain pw vk w where go: "password = Some pw" "ii_mkdir io = None" "ii_key io = Some vk"
      "wrap_key cl (ii_salt io) (ii_nonce io) pw vk kdfParams = Inr w" "ii_write_wrapped io = None" by blast
    define g where "g = effect (on_dir name (\<lambda>v. v\<lparr>vd_wrapped := Some w\<rparr>)) ?h"
    have run: "res = init_files sha io name w g"
      using go assms(1,2)
      by (simp add: res init_store_def validate_vault_name_def new_vault_key_def Let_def empty_dir_def g_def)
    have "throughout (no_record name d) g"
      using h(2) assms(2) by (simp add: g_def no_record_def others_same_def empty_dir_def)
    moreover have "\<exists>u. map_get (hd g) name = Some u \<and> vd_wrapped u = Some w" by (auto simp: g_def)
    ultimately have "init_outcome sha io name w d res" unfolding run using init_files_outcome by blast
    then show ?thesis
      unfolding init_outcome_def using go clean_up_empties [of io name] no_record_clean_up [of name d _ io] by fastforce
  qed
qed

text \<open>
  C23. Making a vault is all or nothing: whatever fails and wherever a crash stops it, the vault opens in no
  state before the last one. After a failure it does not open either, and where the clean-up worked nothing
  is left of it; after a success it opens, is well formed, and the password unlocks the key that was drawn.
  The other vaults are never touched.
\<close>

theorem init_is_all_or_nothing:
  assumes "aead_works cl" and "vault_name_re name" and "dir_of d name = empty_dir"
    and "\<forall>s. ii_salt io = Some s \<longrightarrow> length s = 32" and "\<forall>n. ii_nonce io = Some n \<longrightarrow> length n = 24"
    and "init_store cl sha io name password [d] = (r, h)"
  shows "(\<forall>d' \<in> set h. others_same name d d') \<and>
    (\<forall>d' \<in> set (tl h). \<forall>oio. \<exists>e. open_store sha oio name d' = (Inl e, d') \<and> refused e) \<and>
    (case r of
       Inl _ \<Rightarrow> (\<forall>oio. \<exists>e. open_store sha oio name (hd h) = (Inl e, hd h) \<and> refused e) \<and>
         (ii_removes_db io \<and> ii_removes_wrapped io \<and> ii_removes_meta io \<longrightarrow>
            open_store sha open_ok name (hd h) = (Inl ErrNotInit, hd h))
     | Inr st \<Rightarrow> \<exists>pw vk. password = Some pw \<and> ii_key io = Some vk \<and> open_store sha open_ok name (hd h) = (Inr st, hd h) \<and>
         snd (unlock_vault cl pw st) = st\<lparr>vt_key := Some vk\<rparr> \<and> db_ok (vt_db st))"
proof -
  have same: "others_same name d d'" if "no_record name d d'" for d' using that by (simp add: no_record_def)
  have shut: "\<forall>oio. \<exists>e. open_store sha oio name d' = (Inl e, d') \<and> refused e" if "no_record name d d'" for d'
    using that incomplete_refused [OF assms(2)] by (simp add: no_record_def)
  have "(\<exists>e. r = Inl e) \<and> throughout (no_record name d) h \<and>
      (ii_removes_db io \<and> ii_removes_wrapped io \<and> ii_removes_meta io \<longrightarrow>
         vd_db (dir_of (hd h) name) = None \<and> vd_wrapped (dir_of (hd h) name) = None) \<or>
    (\<exists>pw vk w st seed vid. password = Some pw \<and> ii_key io = Some vk \<and> wrap_key cl (ii_salt io) (ii_nonce io) pw vk kdfParams = Inr w \<and>
      r = Inr st \<and> throughout (no_record name d) (tl h) \<and> opens_as sha (dir_of (hd h) name) st \<and> vt_wrapped st = Some w \<and>
      vt_db st = new_rows io seed vid name \<and> others_same name d (hd h))" (is "?failed \<or> (\<exists>pw vk w st seed vid. ?done pw vk w st seed vid)")
    using init_store_outcome [OF assms(2,3) refl, of cl sha io password] assms(6) by simp
  then show ?thesis
  proof (elim disjE exE)
    assume f: ?failed
    then have "h \<noteq> []" "\<forall>d' \<in> set h. no_record name d d'" by (auto simp: throughout_def)
    moreover then have "no_record name d (hd h)" "\<forall>d' \<in> set (tl h). no_record name d d'" by (auto dest: list.set_sel(2))
    moreover have "open_store sha open_ok name (hd h) = (Inl ErrNotInit, hd h)"
      if "ii_removes_db io \<and> ii_removes_wrapped io \<and> ii_removes_meta io"
      using f that calculation(3) assms(2) by (simp add: open_store_def validate_vault_name_def no_record_def)
    ultimately show ?thesis using f same shut by auto
  next
    fix pw vk w st seed vid
    assume D: "?done pw vk w st seed vid"
    then have tl: "\<forall>d' \<in> set (tl h). no_record name d d'" by (simp add: throughout_def)
    then have "\<forall>d' \<in> set h. others_same name d d'" using D same by (cases h) auto
    moreover have "open_store sha open_ok name (hd h) = (Inr st, hd h)"
      using opens_as_opens D assms(2) by (simp add: open_ok_def reads_files_def)
    moreover obtain s n where "ii_salt io = Some s" "ii_nonce io = Some n"
      using D by (auto simp: wrap_key_def split: option.splits if_splits)
    then have "unwrap_key cl pw w = Inr vk" using unwrap_right_password D assms(1,4,5) by metis
    then have "snd (unlock_vault cl pw st) = st\<lparr>vt_key := Some vk\<rparr>"
      using D by (simp add: unlock_vault_def unwrap_vault_key_def as_vault_def)
    moreover have "db_ok (vt_db st)" using D ok_new_rows by simp
    ultimately show ?thesis using D tl shut by auto
  qed
qed

definition init_ok :: init_io where
  "init_ok = \<lparr>ii_mkdir = None, ii_write_wrapped = None, ii_open_db = None, ii_schema = None, ii_bootstrap = None, ii_chmod = None,
     ii_write_meta = None, ii_removes_db = True, ii_removes_wrapped = True, ii_removes_meta = True, ii_key = Some toy_key,
     ii_salt = Some (replicate 32 (CHR ''s'')), ii_nonce = Some toy_nonce, ii_id = Some (replicate 16 (CHR ''i'')), ii_seed = Some [],
     ii_schema_time = 0, ii_bootstrap_time = 0, ii_meta_time = 0\<rparr>"

lemma init_is_all_or_nothing_witness:
  "\<exists>st h. init_store toy_crypto id init_ok ''work'' (Some ''pw'') [[]] = (Inr st, h) \<and> open_store id open_ok ''work'' (hd h) = (Inr st, hd h)
     \<and> (\<forall>d' \<in> set (tl h). \<exists>e. open_store id open_ok ''work'' d' = (Inl e, d') \<and> refused e)"
proof -
  have name: "vault_name_re ''work''" by (simp add: vault_name_re_def less_eq_char_def)
  obtain r h where out: "init_store toy_crypto id init_ok ''work'' (Some ''pw'') [[]] = (r, h)" by fastforce
  have "\<exists>st. r = Inr st"
    using out name
    by (auto simp: init_store_def init_files_def init_record_def init_ok_def validate_vault_name_def new_vault_key_def dir_of_def
        empty_dir_def wrap_key_def kdfParams_def DefaultArgon2Params_def validate_params_def maxArgon2Time_def maxArgon2MemoryK_def
        maxArgon2Threads_def toy_key_def VaultKeySize_def new_vault_id_def Let_def)
  then show ?thesis
    using init_is_all_or_nothing [OF toy_works name _ _ _ out] out
    by (auto simp: dir_of_def empty_dir_def init_ok_def toy_nonce_def)
qed

section \<open>A new password\<close>

lemma read_files_opens:
  assumes "opens_as sha v st" and "ioW = None" "ioM = None"
  obtains f w m where "read_files sha ioW ioM v = Inr (w, m)" "vd_db v = Some f" "vd_wrapped v = Some w" "vd_meta v = Some (MetaRecord m)"
    "read_meta sha (MetaRecord m) w = Inr m" "vt_wrapped st = Some w"
  using assms(1) by (rule opens_asE) (use assms(2,3) that in \<open>force simp: read_files_def\<close>)

text \<open>The states a change of the password goes through.\<close>

definition after_wrapped :: "string \<Rightarrow> bytes \<Rightarrow> disk \<Rightarrow> disk" where
  "after_wrapped name w d = on_dir name (\<lambda>v. v\<lparr>vd_wrapped := Some w\<rparr>) d"

definition after_meta :: "string \<Rightarrow> vault_meta \<Rightarrow> disk \<Rightarrow> disk" where
  "after_meta name m d = on_dir name (\<lambda>v. v\<lparr>vd_meta := Some (MetaRecord m)\<rparr>) d"

lemma change_password_run:
  assumes "change_password cl sha io name old new [d] = (r, h)" and "opens_as sha (dir_of d name) st"
  obtains (before) e where "r = Inl e" "h = [d]"
    | (torn) e vk w where "r = Inl e" "h = [after_wrapped name w d, d]" "pi_write_meta io \<noteq> None" "new \<noteq> []"
        "unwrap_vault_key cl old st = Inr vk" "wrap_key cl (pi_salt io) (pi_nonce io) new vk kdfParams = Inr w"
    | (completed) vk w m where "r = Inr ()" "pi_write_meta io = None" "vd_meta (dir_of d name) = Some (MetaRecord m)"
        "h = [after_meta name (m\<lparr>vm_fingerprint := compute_fingerprint sha w\<rparr>) (after_wrapped name w d), after_wrapped name w d, d]"
        "unwrap_vault_key cl old st = Inr vk" "wrap_key cl (pi_salt io) (pi_nonce io) new vk kdfParams = Inr w" "new \<noteq> []"
proof (cases "new = [] \<or> pi_read_wrapped io \<noteq> None \<or> pi_read_meta io \<noteq> None \<or> pi_write_wrapped io \<noteq> None")
  case True
  then have "\<exists>e. r = Inl e \<and> h = [d]"
    using assms(1)
    by (auto simp: change_password_def read_files_def split: option.splits sum.splits if_splits)
  then show thesis using before by blast
next
  case False
  then have io: "pi_read_wrapped io = None" "pi_read_meta io = None" "pi_write_wrapped io = None" "new \<noteq> []" by auto
  obtain f w m where v: "read_files sha (pi_read_wrapped io) (pi_read_meta io) (dir_of d name) = Inr (w, m)"
      "vd_meta (dir_of d name) = Some (MetaRecord m)" "vt_wrapped st = Some w"
    using read_files_opens [OF assms(2) io(1,2)] by metis
  show thesis
  proof (cases "\<exists>vk w'. unwrap_key cl old w = Inr vk \<and> wrap_key cl (pi_salt io) (pi_nonce io) new vk kdfParams = Inr w'")
    case False
    then have "\<exists>e. r = Inl e \<and> h = [d]"
      using assms(1) v io by (auto simp: change_password_def split: sum.splits)
    then show thesis using before by blast
  next
    case True
    then obtain vk w' where w': "unwrap_key cl old w = Inr vk" "wrap_key cl (pi_salt io) (pi_nonce io) new vk kdfParams = Inr w'" by blast
    then have vk: "unwrap_vault_key cl old st = Inr vk" using v(3) by (simp add: unwrap_vault_key_def as_vault_def)
    show thesis
    proof (cases "pi_write_meta io")
      case None
      then have "r = Inr ()" "h = [after_meta name (m\<lparr>vm_fingerprint := compute_fingerprint sha w'\<rparr>) (after_wrapped name w' d),
          after_wrapped name w' d, d]"
        using assms(1) v io w' by (simp_all add: change_password_def after_meta_def after_wrapped_def effect_def Let_def)
      then show thesis using completed None v(2) vk w'(2) io(4) by blast
    next
      case (Some e)
      then have "r = Inl (ErrIO e)" "h = [after_wrapped name w' d, d]"
        using assms(1) v io w' by (simp_all add: change_password_def after_wrapped_def effect_def Let_def)
      then show thesis using torn Some vk w'(2) io(4) by blast
    qed
  qed
qed

lemma new_files_open:
  assumes "opens_as sha v st" and "read_meta sha (MetaRecord m) w = Inr m"
  shows "opens_as sha (v\<lparr>vd_wrapped := Some w, vd_meta := Some (MetaRecord m)\<rparr>) (st\<lparr>vt_wrapped := Some w\<rparr>)"
  using assms(1)
proof (rule opens_asE)
  fix f w0 m0 i
  assume "vd_db v = Some f" "disk_version f = Some (int schemaVersion)" "run_stmts ensure_passkey_tables f = (None, f)"
    "map_get (db_meta (fd_rows f)) metaKeyVaultID = Some i" "st = \<lparr>vt_id = i, vt_key = None, vt_wrapped = Some w0, vt_db = fd_rows f\<rparr>"
  then show ?thesis unfolding opens_as_def using assms(2)
    by (intro exI [of _ f] exI [of _ w] exI [of _ m] exI [of _ i]) simp
qed

lemma opens_there: "opens_as sha (dir_of d name) st \<Longrightarrow> map_get d name \<noteq> None"
  by (intro dir_there) (auto elim!: opens_asE simp: empty_dir_def)

lemma after_opens:
  assumes "opens_as sha (dir_of d name) st" and "vd_meta (dir_of d name) = Some (MetaRecord m)"
  shows "opens_as sha (dir_of (after_meta name (m\<lparr>vm_fingerprint := compute_fingerprint sha w\<rparr>) (after_wrapped name w d)) name)
    (st\<lparr>vt_wrapped := Some w\<rparr>)"
proof -
  have "read_meta sha (MetaRecord (m\<lparr>vm_fingerprint := compute_fingerprint sha w\<rparr>)) w = Inr (m\<lparr>vm_fingerprint := compute_fingerprint sha w\<rparr>)"
    using assms by (auto elim!: opens_asE simp: read_meta_Inr)
  then show ?thesis
    using new_files_open [OF assms(1)] opens_there [OF assms(1)] by (simp add: after_meta_def after_wrapped_def)
qed

lemma renamed_opens:
  assumes "opens_as sha (dir_of d name) st" and "vd_meta (dir_of d name) = Some (MetaRecord m)"
  shows "opens_as sha (dir_of (after_meta name (m\<lparr>vm_name := n\<rparr>) d) name) st"
proof -
  obtain w where w: "read_meta sha (MetaRecord m) w = Inr m" "vd_wrapped (dir_of d name) = Some w" "vt_wrapped st = Some w"
    using assms by (auto elim!: opens_asE)
  then have "read_meta sha (MetaRecord (m\<lparr>vm_name := n\<rparr>)) w = Inr (m\<lparr>vm_name := n\<rparr>)" by (simp add: read_meta_Inr)
  then have "opens_as sha ((dir_of d name)\<lparr>vd_wrapped := Some w, vd_meta := Some (MetaRecord (m\<lparr>vm_name := n\<rparr>))\<rparr>) (st\<lparr>vt_wrapped := Some w\<rparr>)"
    by (rule new_files_open [OF assms(1)])
  moreover have "(dir_of d name)\<lparr>vd_wrapped := Some w\<rparr> = dir_of d name" "st\<lparr>vt_wrapped := Some w\<rparr> = st"
    using w by simp_all
  ultimately show ?thesis using opens_there [OF assms(1)] by (simp add: after_meta_def)
qed

text \<open>
  C26. A completed change of the password keeps the vault: it opens with the same tables and id, the new
  password unlocks the key the old one did, and any other password that does derives the same wrapping key
  or the cipher is forged. Other vaults are not touched.
\<close>

theorem password_change_keeps_the_vault:
  assumes "aead_works cl" and "vault_name_re name" and "opens_as sha (dir_of d name) st"
    and "pi_salt io = Some salt" "length salt = 32" and "pi_nonce io = Some nonce" "length nonce = 24"
    and "change_password cl sha io name old new [d] = (Inr (), h)"
  shows "\<exists>st' vk. open_store sha open_ok name (hd h) = (Inr st', hd h) \<and> vt_id st' = vt_id st \<and> vt_db st' = vt_db st \<and>
    unwrap_vault_key cl old st = Inr vk \<and> unwrap_vault_key cl new st' = Inr vk \<and>
    (\<forall>pw k. unwrap_vault_key cl pw st' = Inr k \<longrightarrow>
       wrapping_key cl pw salt kdfParams = wrapping_key cl new salt kdfParams \<and> k = vk \<or>
       aead_forged cl (wrapping_key cl new salt kdfParams) (encode_header kdfParams salt nonce)
         (wrapping_key cl pw salt kdfParams) (encode_header kdfParams salt nonce)) \<and>
    (\<forall>d' \<in> set h. others_same name d d')"
  using assms(8,3)
proof (cases rule: change_password_run)
  case (completed vk w m)
  let ?st = "st\<lparr>vt_wrapped := Some w\<rparr>"
  have w: "wrap_key cl (Some salt) (Some nonce) new vk kdfParams = Inr w" using completed(6) assms(4,6) by simp
  have unwrap: "unwrap_vault_key cl p ?st = as_vault (unwrap_key cl p w)" for p by (simp add: unwrap_vault_key_def)
  have "open_store sha open_ok name (hd h) = (Inr ?st, hd h)"
    using opens_as_opens [OF after_opens [OF assms(3) completed(3)] assms(2)] completed(4) by (simp add: open_ok_def reads_files_def)
  moreover have "unwrap_vault_key cl new ?st = Inr vk"
    unfolding unwrap using unwrap_right_password [OF assms(1) w assms(5,7)] by (simp add: as_vault_def)
  moreover have "unwrap_vault_key cl pw ?st = Inr k \<Longrightarrow>
      wrapping_key cl pw salt kdfParams = wrapping_key cl new salt kdfParams \<and> k = vk \<or>
      aead_forged cl (wrapping_key cl new salt kdfParams) (encode_header kdfParams salt nonce)
        (wrapping_key cl pw salt kdfParams) (encode_header kdfParams salt nonce)" for pw k
    unfolding unwrap using unwrap_other_password [OF assms(1) w assms(5,7)] by (auto simp: as_vault_def split: sum.splits)
  moreover have "\<forall>d' \<in> set h. others_same name d d'"
    using completed(4) by (simp add: others_same_def after_meta_def after_wrapped_def)
  ultimately show ?thesis using completed(5) by (intro exI [of _ ?st] exI [of _ vk]) simp
qed simp_all

definition toy_work :: disk where
  "toy_work = [(''work'', \<lparr>vd_wrapped = Some toy_wrapped, vd_meta = Some (MetaRecord \<lparr>vm_format = MetaFormatVersion, vm_name = ''work'',
     vm_id = ''id'', vm_created = 0, vm_fingerprint = compute_fingerprint id toy_wrapped, vm_alg = FingerprintAlg\<rparr>),
     vd_db = Some \<lparr>fd_tables = schemaStatements, fd_rows = new_rows init_ok [] ''id'' ''work''\<rparr>, vd_baks = []\<rparr>)]"

definition toy_store :: vault where
  "toy_store = \<lparr>vt_id = ''id'', vt_key = None, vt_wrapped = Some toy_wrapped, vt_db = new_rows init_ok [] ''id'' ''work''\<rparr>"

lemma toy_name: "vault_name_re ''work''" by (simp add: vault_name_re_def less_eq_char_def)

lemma toy_work_opens: "opens_as id (dir_of toy_work ''work'') toy_store"
  unfolding opens_as_def
  by (intro exI [of _ "\<lparr>fd_tables = schemaStatements, fd_rows = new_rows init_ok [] ''id'' ''work''\<rparr>"] exI [of _ toy_wrapped]
      exI [of _ "\<lparr>vm_format = MetaFormatVersion, vm_name = ''work'', vm_id = ''id'', vm_created = 0,
        vm_fingerprint = compute_fingerprint id toy_wrapped, vm_alg = FingerprintAlg\<rparr>"] exI [of _ "''id''"])
    (simp add: dir_of_def toy_work_def map_get_def [where m = "[_]"] read_meta_Inr new_rows_meta toy_store_def)

definition password_ok :: password_io where
  "password_ok = \<lparr>pi_read_wrapped = None, pi_read_meta = None, pi_salt = Some (replicate 32 (CHR ''t'')), pi_nonce = Some toy_nonce,
     pi_write_wrapped = None, pi_write_meta = None\<rparr>"

lemma toy_wraps: "length salt = 32 \<Longrightarrow> \<exists>w. wrap_key toy_crypto (Some salt) (Some toy_nonce) pw toy_key kdfParams = Inr w"
  by (simp add: wrap_key_def kdfParams_def DefaultArgon2Params_def validate_params_def maxArgon2Time_def maxArgon2MemoryK_def
      maxArgon2Threads_def toy_key_def VaultKeySize_def Let_def)

lemma toy_changes:
  "\<exists>h. change_password toy_crypto id password_ok ''work'' ''old'' ''new'' [toy_work] = (Inr (), h)"
proof -
  obtain f w m where v: "read_files id None None (dir_of toy_work ''work'') = Inr (w, m)" "vt_wrapped toy_store = Some w"
    using read_files_opens [OF toy_work_opens refl refl] by metis
  then have "w = toy_wrapped" by (simp add: toy_store_def)
  then show ?thesis using v(1) toy_unwraps [of "''old''"] toy_wraps [of "replicate 32 (CHR ''t'')" "''new''"]
    by (auto simp: change_password_def password_ok_def Let_def)
qed

lemma password_change_keeps_the_vault_witness:
  "\<exists>h st'. change_password toy_crypto id password_ok ''work'' ''old'' ''new'' [toy_work] = (Inr (), h) \<and>
     open_store id open_ok ''work'' (hd h) = (Inr st', hd h) \<and> vt_db st' = vt_db toy_store"
  using toy_changes password_change_keeps_the_vault [OF toy_works toy_name toy_work_opens, of password_ok "replicate 32 (CHR ''t'')" toy_nonce "''old''" "''new''"]
  by (fastforce simp: password_ok_def toy_nonce_def)

text \<open>
  A change of the password that stops between its two files locks everyone out: where the record was not
  written, by a crash or an error, the vault does not open any more, and the change can neither be repeated
  nor undone, with any password, unless SHA-256 collides on the two wrapped keys. An error is reported
  although the new password is the one in force.
\<close>

theorem torn_password_change_locks_out:
  assumes "vault_name_re name" and "opens_as sha (dir_of d name) st"
    and "change_password cl sha io name old new [d] = (r, h)" and "h = h' @ [d1, d]"
    and "vt_wrapped st = Some w" and "vd_wrapped (dir_of d1 name) = Some w1" and "sha w1 \<noteq> sha w"
  shows "open_store sha open_ok name d1 = (Inl ErrFingerprintMismatch, d1) \<and>
    (pi_write_meta io \<noteq> None \<longrightarrow> (\<exists>e. r = Inl e) \<and> hd h = d1) \<and>
    (\<forall>io' pw pw' r' h''. change_password cl sha io' name pw pw' [d1] = (r', h'') \<longrightarrow> (\<exists>e. r' = Inl e) \<and> h'' = [d1])"
proof -
  have d1: "d1 = after_wrapped name w1 d \<and> (pi_write_meta io \<noteq> None \<longrightarrow> (\<exists>e. r = Inl e) \<and> hd h = d1)"
  proof -
    have "map_get d name \<noteq> None" by (rule opens_there [OF assms(2)])
    then have wrapped: "vd_wrapped (dir_of (after_wrapped name w' d) name) = Some w'" for w' by (simp add: after_wrapped_def)
    show ?thesis using assms(3,2)
    proof (cases rule: change_password_run)
      case (before e)
      then show ?thesis using assms(4) by simp
    next
      case (torn e vk w')
      then have "d1 = after_wrapped name w' d" using assms(4) by (simp add: Cons_eq_append_conv)
      then show ?thesis using torn(1,2) wrapped assms(6) by simp
    next
      case (completed vk w' m)
      then have "d1 = after_wrapped name w' d" using assms(4) by (auto simp: Cons_eq_append_conv)
      then show ?thesis using completed(1,2,4) wrapped assms(6) by simp
    qed
  qed
  obtain f m where v: "vd_db (dir_of d name) = Some f" "vd_meta (dir_of d name) = Some (MetaRecord m)"
      "read_meta sha (MetaRecord m) w = Inr m"
    using assms(2,5) by (auto elim!: opens_asE)
  have "map_get d name \<noteq> None" by (rule opens_there [OF assms(2)])
  then have dir: "dir_of d1 name = (dir_of d name)\<lparr>vd_wrapped := Some w1\<rparr>" using d1 by (simp add: after_wrapped_def)
  have bad: "vm_fingerprint m \<noteq> compute_fingerprint sha w1"
    using v(3) assms(7) by (auto simp: read_meta_Inr compute_fingerprint_def dest: hex_encode_inj)
  have "open_store sha open_ok name d1 = (Inl ErrFingerprintMismatch, d1)"
    using mismatch_refused [OF assms(1), of open_ok d1 f w1 m sha] dir v bad
    by (simp add: open_ok_def reads_files_def read_meta_Inr)
  moreover have unread: "\<exists>e. read_files sha a b (dir_of d1 name) = Inl e" for a b
    using dir v(2) bad by (auto simp: read_files_def read_meta_def split: option.split)
  moreover have "(\<exists>e. r' = Inl e) \<and> h'' = [d1]" if "change_password cl sha io' name pw pw' [d1] = (r', h'')" for io' pw pw' r' h''
    using that unread [of "pi_read_wrapped io'" "pi_read_meta io'"] by (auto simp: change_password_def split: if_splits)
  ultimately show ?thesis using d1 by blast
qed

lemma torn_password_change_locks_out_witness:
  "\<exists>d1. change_password toy_crypto id (password_ok\<lparr>pi_write_meta := Some ''disk full''\<rparr>) ''work'' ''old'' ''new'' [toy_work]
      = (Inl (ErrIO ''disk full''), [d1, toy_work]) \<and> open_store id open_ok ''work'' d1 = (Inl ErrFingerprintMismatch, d1)"
proof -
  obtain w1 where w1: "wrap_key toy_crypto (Some (replicate 32 (CHR ''t''))) (Some toy_nonce) ''new'' toy_key kdfParams = Inr w1"
    using toy_wraps [of "replicate 32 (CHR ''t'')" "''new''"] by auto
  obtain w m where v: "read_files id None None (dir_of toy_work ''work'') = Inr (w, m)" "vt_wrapped toy_store = Some w"
    using read_files_opens [OF toy_work_opens refl refl] by metis
  then have w: "w = toy_wrapped" by (simp add: toy_store_def)
  have run: "change_password toy_crypto id (password_ok\<lparr>pi_write_meta := Some ''disk full''\<rparr>) ''work'' ''old'' ''new'' [toy_work]
      = (Inl (ErrIO ''disk full''), [after_wrapped ''work'' w1 toy_work, toy_work])"
    using v w w1 toy_unwraps [of "''old''"]
    by (simp add: change_password_def password_ok_def after_wrapped_def effect_def Let_def)
  have w1: "w1 \<noteq> toy_wrapped"
    using w1 by (auto simp: wrap_key_def Let_def toy_wrapped_def encode_header_def split: if_splits)
  have "map_get toy_work ''work'' \<noteq> None" by (simp add: toy_work_def map_get_def)
  then have "vd_wrapped (dir_of (after_wrapped ''work'' w1 toy_work) ''work'') = Some w1" by (simp add: after_wrapped_def)
  then have "open_store id open_ok ''work'' (after_wrapped ''work'' w1 toy_work) = (Inl ErrFingerprintMismatch, after_wrapped ''work'' w1 toy_work)"
    using torn_password_change_locks_out [OF toy_name toy_work_opens run, of "[]" _ toy_wrapped] w1 by (simp add: toy_store_def)
  then show ?thesis using run by blast
qed

section \<open>Renaming and destroying\<close>

lemma rename_vault_run:
  assumes "rename_vault sha io old new [d] = (r, h)" and "opens_as sha (dir_of d old) st" and "map_get d new = None"
  obtains (before) e where "r = Inl e" "h = [d]"
    | (torn) e m where "r = Inl e" "h = [after_meta old m d, d]" "opens_as sha (dir_of (after_meta old m d) old) st" "old \<noteq> new"
    | (completed) m where "r = Inr ()" "h = [move_dir old new (after_meta old m d), after_meta old m d, d]"
        "opens_as sha (dir_of (after_meta old m d) old) st" "old \<noteq> new"
proof -
  have there: "map_get d old \<noteq> None" by (rule opens_there [OF assms(2)])
  then have "old \<noteq> new" using assms(3) by auto
  show thesis
  proof (cases "\<exists>e. r = Inl e \<and> h = [d]")
    case True
    then show thesis using before by blast
  next
    case False
    then obtain w m where go: "validate_vault_name old = None" "validate_vault_name new = None" "old \<noteq> DefaultVaultName"
        "new \<noteq> DefaultVaultName" "vd_meta (dir_of d old) \<noteq> None" "ri_stat io = None" "ri_write_meta io = None"
      and m: "read_files sha (ri_read_wrapped io) (ri_read_meta io) (dir_of d old) = Inr (w, m)"
      using assms(1,3) \<open>old \<noteq> new\<close> by (auto simp: rename_vault_def split: option.splits sum.splits if_splits)
    have "vd_meta (dir_of d old) = Some (MetaRecord m)"
      using m by (auto simp: read_files_def read_meta_def split: option.splits meta_text.splits if_splits)
    then have opens: "opens_as sha (dir_of (after_meta old (m\<lparr>vm_name := new\<rparr>) d) old) st"
      by (rule renamed_opens [OF assms(2)])
    show thesis
    proof (cases "ri_rename io")
      case None
      then have "r = Inr () \<and> h = [move_dir old new (after_meta old (m\<lparr>vm_name := new\<rparr>) d), after_meta old (m\<lparr>vm_name := new\<rparr>) d, d]"
        using assms(1,3) go m \<open>old \<noteq> new\<close> by (auto simp: rename_vault_def effect_def after_meta_def Let_def)
      then show thesis using completed opens \<open>old \<noteq> new\<close> by blast
    next
      case (Some e)
      then have "r = Inl (ErrIO e) \<and> h = [after_meta old (m\<lparr>vm_name := new\<rparr>) d, d]"
        using assms(1,3) go m \<open>old \<noteq> new\<close> by (auto simp: rename_vault_def effect_def after_meta_def Let_def)
      then show thesis using torn opens \<open>old \<noteq> new\<close> by blast
    qed
  qed
qed

text \<open>
  Renaming is atomic: in every state a renaming goes through, whether it succeeds, fails or is cut off,
  the vault opens under exactly one of its two names, with all it holds; after a success it is the new one,
  after a failure the old one. Other vaults are not touched.
\<close>

theorem rename_is_atomic:
  assumes "vault_name_re old" "vault_name_re new" and "opens_as sha (dir_of d old) st" and "map_get d new = None"
    and "rename_vault sha io old new [d] = (r, h)"
  shows "(\<forall>d' \<in> set h.
      (open_store sha open_ok old d' = (Inr st, d') \<and> open_store sha open_ok new d' = (Inl ErrNotInit, d')) \<or>
      (open_store sha open_ok new d' = (Inr st, d') \<and> open_store sha open_ok old d' = (Inl ErrNotInit, d'))) \<and>
    open_store sha open_ok (case r of Inl _ \<Rightarrow> old | Inr _ \<Rightarrow> new) (hd h) = (Inr st, hd h) \<and>
    (\<forall>d' \<in> set h. \<forall>n. n \<noteq> old \<and> n \<noteq> new \<longrightarrow> map_get d' n = map_get d n)"
proof -
  let ?under_old = "\<lambda>d'. open_store sha open_ok old d' = (Inr st, d') \<and> open_store sha open_ok new d' = (Inl ErrNotInit, d')"
  let ?under_new = "\<lambda>d'. open_store sha open_ok new d' = (Inr st, d') \<and> open_store sha open_ok old d' = (Inl ErrNotInit, d')"
  have opened: "open_store sha open_ok n d' = (Inr st, d')" if "opens_as sha (dir_of d' n) st" "vault_name_re n" for n d'
    using opens_as_opens [OF that] by (simp add: open_ok_def reads_files_def)
  have absent: "open_store sha open_ok n d' = (Inl ErrNotInit, d')" if "dir_of d' n = empty_dir" "vault_name_re n" for n d'
    using that by (simp add: open_store_def validate_vault_name_def empty_dir_def)
  have new: "dir_of d new = empty_dir" using assms(4) by (simp add: dir_of_def)
  have start: "?under_old d" using opened [OF assms(3,1)] absent [OF new assms(2)] by blast
  show ?thesis using assms(5,3,4)
  proof (cases rule: rename_vault_run)
    case before
    then show ?thesis using start by simp
  next
    case (torn e m)
    have "dir_of (after_meta old m d) new = empty_dir" using new torn(4) by (simp add: after_meta_def)
    then have "?under_old (after_meta old m d)" using opened [OF torn(3) assms(1)] absent [OF _ assms(2)] by blast
    then show ?thesis using torn(1,2) start by (simp add: after_meta_def)
  next
    case (completed m)
    let ?d = "after_meta old m d"
    have gone: "map_get ?d new = None" "dir_of ?d new = empty_dir"
      using new assms(4) completed(4) by (simp_all add: after_meta_def)
    then have "?under_old ?d" using opened [OF completed(3) assms(1)] absent [OF _ assms(2)] by blast
    moreover have "dir_of (move_dir old new ?d) old = empty_dir" "dir_of (move_dir old new ?d) new = dir_of ?d old"
      using gone(1) completed(4) by simp_all
    then have "?under_new (move_dir old new ?d)" using opened [OF _ assms(2)] absent [OF _ assms(1)] completed(3) by metis
    moreover have "map_get (move_dir old new ?d) n = map_get d n \<and> map_get ?d n = map_get d n" if "n \<noteq> old" "n \<noteq> new" for n
      using that by (simp add: move_dir_def after_meta_def split: option.split)
    ultimately show ?thesis using completed(1,2) start by simp
  qed
qed

lemma rename_is_atomic_witness:
  "\<exists>h. rename_vault id \<lparr>ri_stat = None, ri_read_wrapped = None, ri_read_meta = None, ri_write_meta = None, ri_rename = None\<rparr>
      ''work'' ''play'' [toy_work] = (Inr (), h) \<and> open_store id open_ok ''play'' (hd h) = (Inr toy_store, hd h)"
proof -
  let ?io = "\<lparr>ri_stat = None, ri_read_wrapped = None, ri_read_meta = None, ri_write_meta = None, ri_rename = None\<rparr>"
  obtain f w m where v: "read_files id None None (dir_of toy_work ''work'') = Inr (w, m)" "vd_meta (dir_of toy_work ''work'') = Some (MetaRecord m)"
    using read_files_opens [OF toy_work_opens refl refl] by metis
  have play: "vault_name_re ''play''" by (simp add: vault_name_re_def less_eq_char_def)
  have free: "map_get toy_work ''play'' = None" by (simp add: toy_work_def map_get_def)
  obtain h where run: "rename_vault id ?io ''work'' ''play'' [toy_work] = (Inr (), h)"
    using v play free toy_name by (simp add: rename_vault_def validate_vault_name_def DefaultVaultName_def Let_def)
  then show ?thesis using rename_is_atomic [OF toy_name play toy_work_opens free run] by auto
qed

text \<open>What holds of the disk once the wrapped key is overwritten.\<close>

definition shredded :: "bytes \<Rightarrow> vault_meta \<Rightarrow> string \<Rightarrow> disk \<Rightarrow> disk \<Rightarrow> bool" where
  "shredded b m name d d' \<longleftrightarrow> others_same name d d' \<and> vd_wrapped (dir_of d' name) \<in> {None, Some b} \<and>
     vd_meta (dir_of d' name) \<in> {None, Some (MetaRecord m)}"

lemma shredded_remove: "shredded b m name d d' \<Longrightarrow> shredded b m name d (on_dir name (remove_file x) d')"
  by (cases x) (auto simp: shredded_def others_same_def remove_file_def)

lemma shredded_removals:
  assumes "\<forall>d' \<in> set h. d' = d \<or> shredded b m name d d'" and "shredded b m name d (hd h)"
  shows "let h' = fold (\<lambda>x. effect (on_dir name (remove_file x))) xs h in
    (\<forall>d' \<in> set h'. d' = d \<or> shredded b m name d d') \<and> shredded b m name d (hd h')"
  using assms
proof (induction xs arbitrary: h)
  case (Cons x xs)
  then show ?case using Cons.IH [of "effect (on_dir name (remove_file x)) h"] by (simp add: shredded_remove)
qed simp

lemma shredded_refused:
  assumes "vault_name_re name" and "shredded b m name d d'" and "read_meta sha (MetaRecord m) w = Inr m" and "sha b \<noteq> sha w"
  shows "\<exists>e. open_store sha open_ok name d' = (Inl e, d')"
proof (cases "vd_db (dir_of d' name) = None \<or> vd_wrapped (dir_of d' name) = None \<or> vd_meta (dir_of d' name) = None")
  case True
  then show ?thesis using incomplete_refused [OF assms(1)] by blast
next
  case False
  then obtain f where "vd_db (dir_of d' name) = Some f" "vd_wrapped (dir_of d' name) = Some b" "vd_meta (dir_of d' name) = Some (MetaRecord m)"
    using assms(2) by (auto simp: shredded_def)
  moreover have "vm_fingerprint m \<noteq> compute_fingerprint sha b"
    using assms(3,4) by (auto simp: read_meta_Inr compute_fingerprint_def dest: hex_encode_inj)
  ultimately show ?thesis
    using mismatch_refused [OF assms(1), of open_ok d' f b m sha] assms(3) by (simp add: open_ok_def reads_files_def read_meta_Inr)
qed

text \<open>
  Once destroying a vault has begun its key is out of reach: where random bytes replaced the wrapped key,
  every later state, of a completed removal, a failed one or one cut off in any order of the files, holds the
  wrapped key no more and does not open, unless SHA-256 collides. After a success nothing is left. Other
  vaults are not touched, and the default vault cannot be destroyed.
\<close>

theorem destroyed_vault_is_out_of_reach:
  assumes "vault_name_re name" and "opens_as sha (dir_of d name) st" and "vt_wrapped st = Some w"
    and "di_random io = Some b" "sha b \<noteq> sha w" and "destroy io name [d] = (r, h)"
  shows "(\<forall>d' \<in> set h. others_same name d d' \<and> (d' = d \<or>
      vd_wrapped (dir_of d' name) \<noteq> Some w \<and> (\<exists>e. open_store sha open_ok name d' = (Inl e, d')))) \<and>
    (r = Inr () \<longrightarrow> map_get (hd h) name = None) \<and> (name = DefaultVaultName \<longrightarrow> r = Inl ErrProtectedVault \<and> h = [d])"
proof (cases "name = DefaultVaultName \<or> di_stat io \<noteq> None")
  case True
  then have "h = [d] \<and> (\<exists>e. r = Inl e) \<and> (name = DefaultVaultName \<longrightarrow> r = Inl ErrProtectedVault)"
    using assms(1,6) opens_there [OF assms(2)]
    by (auto simp: destroy_def validate_vault_name_def split: option.splits if_splits)
  then show ?thesis by (auto simp: others_same_def)
next
  case False
  obtain m where m: "vd_meta (dir_of d name) = Some (MetaRecord m)" "vd_wrapped (dir_of d name) = Some w"
      "read_meta sha (MetaRecord m) w = Inr m"
    using assms(2,3) by (auto elim!: opens_asE)
  define h1 where "h1 = effect (on_dir name (overwrite_with_random (Some b))) [d]"
  define h2 where "h2 = fold (\<lambda>x. effect (on_dir name (remove_file x))) (di_removed io) h1"
  have "shredded b m name d (hd h1)"
    using m opens_there [OF assms(2)] by (simp add: h1_def shredded_def others_same_def overwrite_with_random_def)
  then have h2: "\<forall>d' \<in> set h2. d' = d \<or> shredded b m name d d'" "shredded b m name d (hd h2)"
    using shredded_removals [of h1 d b m name "di_removed io"] by (auto simp: h1_def h2_def Let_def)
  have out: "(r, h) = (case di_remove io of Some e \<Rightarrow> (Inl (ErrIO e), h2) | None \<Rightarrow> (Inr (), effect (\<lambda>d. map_del d name) h2))"
    unfolding h2_def h1_def using assms(1,4,6) False opens_there [OF assms(2)]
    by (auto simp: destroy_def validate_vault_name_def Let_def)
  have "shredded b m name d (map_del (hd h2) name)"
    using h2(2) by (simp add: shredded_def others_same_def empty_dir_def)
  then have all: "\<forall>d' \<in> set h. d' = d \<or> shredded b m name d d'" using h2(1) out by (auto split: option.splits)
  have "d' = d \<or> others_same name d d' \<and> vd_wrapped (dir_of d' name) \<noteq> Some w \<and> (\<exists>e. open_store sha open_ok name d' = (Inl e, d'))"
    if "d' \<in> set h" for d'
    using that all shredded_refused [OF assms(1) _ m(3) assms(5), of d d'] assms(5) by (auto simp: shredded_def)
  then have "\<forall>d' \<in> set h. others_same name d d' \<and> (d' = d \<or>
      vd_wrapped (dir_of d' name) \<noteq> Some w \<and> (\<exists>e. open_store sha open_ok name d' = (Inl e, d')))"
    by (metis others_same_def)
  moreover have "r = Inr () \<Longrightarrow> map_get (hd h) name = None" using out by (auto split: option.splits)
  ultimately show ?thesis using False by blast
qed

lemma destroyed_vault_is_out_of_reach_witness:
  "\<exists>h. destroy \<lparr>di_stat = None, di_random = Some ''x'', di_removed = [MetaFile, WrappedFile, DbFile], di_remove = None\<rparr> ''work'' [toy_work]
     = (Inr (), h) \<and> map_get (hd h) ''work'' = None \<and> (\<forall>d' \<in> set h. d' = toy_work \<or> (\<exists>e. open_store id open_ok ''work'' d' = (Inl e, d')))"
proof -
  let ?io = "\<lparr>di_stat = None, di_random = Some ''x'', di_removed = [MetaFile, WrappedFile, DbFile], di_remove = None\<rparr>"
  obtain r h where run: "destroy ?io ''work'' [toy_work] = (r, h)" by fastforce
  then have "r = Inr ()"
    using toy_name opens_there [OF toy_work_opens]
    by (auto simp: destroy_def validate_vault_name_def DefaultVaultName_def Let_def)
  moreover have "''x'' \<noteq> toy_wrapped" by (auto simp: toy_wrapped_def encode_header_def toy_key_def dest!: arg_cong [of _ _ length])
  ultimately show ?thesis
    using destroyed_vault_is_out_of_reach [OF toy_name toy_work_opens _ _ _ run, of toy_wrapped "''x''"] run by (auto simp: toy_store_def)
qed

end
