(* ===== verification/Authored_Store.thy ===== *)
theory Authored_Store
  imports Caller_Identity "HOL-Library.Product_Lexorder"
begin

text \<open>
  The registry of which caller created which value: \<open>internal/daemon/authoredstore.go\<close>. The file is
  its decoded list of entries, \<open>None\<close> where it does not exist; \<open>store_io\<close> says whether reading an
  existing file and decoding it succeeds, and whether the replacement of the file does.
\<close>

section \<open>Keys\<close>

datatype author_key = AuthorKey (ak_vault: string) (ak_project: string) (ak_env: string) (ak_name: string)

definition authored_key_less :: "author_key \<Rightarrow> author_key \<Rightarrow> bool" where
  "authored_key_less x y \<longleftrightarrow>
     (if ak_vault x \<noteq> ak_vault y then ak_vault x < ak_vault y
      else if ak_project x \<noteq> ak_project y then ak_project x < ak_project y
      else if ak_env x \<noteq> ak_env y then ak_env x < ak_env y
      else ak_name x < ak_name y)"

instantiation author_key :: linorder
begin

definition less_author_key :: "author_key \<Rightarrow> author_key \<Rightarrow> bool" where
  "less_author_key x y \<longleftrightarrow> authored_key_less x y"

definition less_eq_author_key :: "author_key \<Rightarrow> author_key \<Rightarrow> bool" where
  "less_eq_author_key x y \<longleftrightarrow> x = y \<or> authored_key_less x y"

instance
proof
  fix x y z :: author_key
  define t where "t k = (ak_vault k, ak_project k, ak_env k, ak_name k)" for k
  have less: "a < b \<longleftrightarrow> t a < t b" for a b
    unfolding less_author_key_def authored_key_less_def t_def less_prod_simp using order.strict_implies_order by force
  have eq: "a = b \<longleftrightarrow> t a = t b" for a b by (cases a; cases b) (simp add: t_def)
  have le: "a \<le> b \<longleftrightarrow> t a \<le> t b" for a b
    unfolding less_eq_author_key_def less_author_key_def [symmetric] less eq by (simp add: order.order_iff_strict disj_commute)
  show "x < y \<longleftrightarrow> x \<le> y \<and> \<not> y \<le> x" unfolding less le by (rule less_le_not_le)
  show "x \<le> x" unfolding le by simp
  show "x \<le> y \<Longrightarrow> y \<le> z \<Longrightarrow> x \<le> z" unfolding le by (rule order.trans)
  show "x \<le> y \<Longrightarrow> y \<le> x \<Longrightarrow> x = y" unfolding le eq by (rule order.antisym)
  show "x \<le> y \<or> y \<le> x" unfolding le by (rule linear)
qed

end

section \<open>Entries and the file\<close>

record author_entry =
  ar_key :: author_key
  ar_origin :: proc_ref
  ar_chain :: "proc_ref list"
  ar_at :: int
  ar_authored :: bool
  ar_unattended :: bool
  ar_locked :: "bool option"

type_synonym author_file = "author_entry list option"

definition normalize_entry :: "author_entry \<Rightarrow> author_entry" where
  "normalize_entry e =
     (let e = (if length (ar_chain e) = 0 \<and> 1 < pr_pid (ar_origin e) then e\<lparr>ar_chain := [ar_origin e]\<rparr> else e) in
      if ar_locked e = Some True then e\<lparr>ar_authored := True, ar_unattended := True\<rparr> else e)"

definition load_authored :: "store_io \<Rightarrow> author_file \<Rightarrow> string + author_entry list" where
  "load_authored io f =
     (case f of
        None \<Rightarrow> Inr []
      | Some entries \<Rightarrow> (case load_error io of Some e \<Rightarrow> Inl e | None \<Rightarrow> Inr (map normalize_entry entries)))"

text \<open>\<open>save\<close>: by key, entries of one key by time; \<open>sort.Slice\<close> leaves the order of equal ones open.\<close>

definition save_authored :: "store_io \<Rightarrow> author_entry list \<Rightarrow> author_file \<Rightarrow> (string + unit) \<times> author_file" where
  "save_authored io entries f =
     (case save_error io of
        Some e \<Rightarrow> (Inl e, f) | None \<Rightarrow> (Inr (), Some (sort_key ar_key (sort_key ar_at entries))))"

section \<open>Operations\<close>

definition record_author ::
  "store_io \<Rightarrow> int \<Rightarrow> author_key \<Rightarrow> proc_ref list \<Rightarrow> bool \<Rightarrow> bool \<Rightarrow> author_file \<Rightarrow> (string + unit) \<times> author_file" where
  "record_author io now key chain authored unattended f =
     (case load_authored io f of
        Inl e \<Rightarrow> (Inl e, f)
      | Inr entries \<Rightarrow>
          save_authored io
            (filter (\<lambda>e. ar_key e \<noteq> key) entries @
              [\<lparr>ar_key = key, ar_origin = (if length chain > 0 then hd chain else no_ref), ar_chain = chain,
                ar_at = now, ar_authored = authored, ar_unattended = unattended, ar_locked = None\<rparr>]) f)"

definition lookup_author :: "store_io \<Rightarrow> author_key \<Rightarrow> author_file \<Rightarrow> author_entry option" where
  "lookup_author io key f =
     (case load_authored io f of Inl _ \<Rightarrow> None | Inr entries \<Rightarrow> List.find (\<lambda>e. ar_key e = key) entries)"

definition in_author_scope :: "string \<Rightarrow> string \<Rightarrow> string \<Rightarrow> author_entry \<Rightarrow> bool" where
  "in_author_scope vaultName project env e \<longleftrightarrow>
     ak_vault (ar_key e) = vaultName \<and> ak_project (ar_key e) = project \<and> ak_env (ar_key e) = env"

definition forget_author ::
  "store_io \<Rightarrow> string \<Rightarrow> string \<Rightarrow> string \<Rightarrow> string list \<Rightarrow> author_file \<Rightarrow> (string + unit) \<times> author_file" where
  "forget_author io vaultName project env names f =
     (case load_authored io f of
        Inl e \<Rightarrow> (Inl e, f)
      | Inr entries \<Rightarrow>
          (let hit = (\<lambda>e. in_author_scope vaultName project env e \<and> ak_name (ar_key e) \<in> set names) in
           if \<not> list_ex hit entries then (Inr (), f)
           else save_authored io (filter (\<lambda>e. \<not> hit e) entries) f))"

definition names_matching ::
  "store_io \<Rightarrow> string \<Rightarrow> string \<Rightarrow> string \<Rightarrow> (author_entry \<Rightarrow> bool) \<Rightarrow> author_file \<Rightarrow> string list" where
  "names_matching io vaultName project env keep f =
     (case load_authored io f of
        Inl _ \<Rightarrow> []
      | Inr entries \<Rightarrow> sort (map (\<lambda>e. ak_name (ar_key e)) (filter (\<lambda>e. in_author_scope vaultName project env e \<and> keep e) entries)))"

definition names_for :: "store_io \<Rightarrow> string \<Rightarrow> string \<Rightarrow> string \<Rightarrow> author_file \<Rightarrow> string list" where
  "names_for io vaultName project env f = names_matching io vaultName project env (\<lambda>_. True) f"

definition unattended_names_for :: "store_io \<Rightarrow> string \<Rightarrow> string \<Rightarrow> string \<Rightarrow> author_file \<Rightarrow> string list" where
  "unattended_names_for io vaultName project env f = names_matching io vaultName project env ar_unattended f"

section \<open>Laws\<close>

text \<open>What the registry holds as read: one entry per key in a file that the code wrote.\<close>

definition authors :: "author_file \<Rightarrow> author_key \<Rightarrow> author_entry option" where
  "authors f key = (case f of None \<Rightarrow> None | Some es \<Rightarrow> List.find (\<lambda>e. ar_key e = key) (map normalize_entry es))"

definition authors_ok :: "author_file \<Rightarrow> bool" where
  "authors_ok f \<longleftrightarrow> (case f of None \<Rightarrow> True | Some es \<Rightarrow> distinct (map ar_key es))"

lemma normalize_simps [simp]:
  "ar_key (normalize_entry e) = ar_key e" "ar_origin (normalize_entry e) = ar_origin e"
  "ar_at (normalize_entry e) = ar_at e" "normalize_entry (normalize_entry e) = normalize_entry e"
  by (auto simp: normalize_entry_def Let_def)

lemma find_distinct:
  assumes "distinct (map ar_key es)" "e \<in> set es"
  shows "List.find (\<lambda>x. ar_key x = ar_key e) es = Some e"
  using assms by (induction es) (auto simp: image_iff)

lemma find_key_cong:
  assumes "distinct (map ar_key es)" "set es = set es'" "distinct (map ar_key es')"
  shows "List.find (\<lambda>e. ar_key e = key) es = List.find (\<lambda>e. ar_key e = key) es'"
proof (cases "\<exists>e \<in> set es. ar_key e = key")
  case True
  then obtain e where "e \<in> set es" "ar_key e = key" by blast
  then show ?thesis using find_distinct [of es e] find_distinct [of es' e] assms by simp
next
  case False
  then show ?thesis using assms(2) by (metis (mono_tags, lifting) find_None_iff)
qed

lemma find_normalized:
  "List.find (\<lambda>e. ar_key e = key) (map normalize_entry es) =
   map_option normalize_entry (List.find (\<lambda>e. ar_key e = key) es)"
  by (induction es) auto

lemma find_filter_key:
  "List.find (\<lambda>e. ar_key e = key) (filter (\<lambda>e. P (ar_key e)) es) =
   (if P key then List.find (\<lambda>e. ar_key e = key) es else None)"
  by (induction es) auto

lemma find_app: "List.find P (xs @ ys) = (case List.find P xs of None \<Rightarrow> List.find P ys | Some x \<Rightarrow> Some x)"
  by (induction xs) auto

lemma sorted_entries_keys:
  "distinct (map ar_key es) \<Longrightarrow> distinct (map ar_key (sort_key ar_key (sort_key ar_at es)))"
  by (metis distinct_map distinct_sort set_sort)

lemma saved_authors:
  assumes "distinct (map ar_key es)" "f' = Some (sort_key ar_key (sort_key ar_at es))"
  shows "authors f' key = map_option normalize_entry (List.find (\<lambda>e. ar_key e = key) es)" "authors_ok f'"
  using find_key_cong [of "sort_key ar_key (sort_key ar_at es)" es key] sorted_entries_keys [OF assms(1)] assms
  by (simp_all add: authors_def authors_ok_def find_normalized)

lemma lookup_author_eq: "lookup_author io key f = (if f \<noteq> None \<and> load_error io \<noteq> None then None else authors f key)"
  by (auto simp: lookup_author_def load_authored_def authors_def split: option.splits)

text \<open>Recording and forgetting change the entries of their keys and keep all others, or nothing at all.\<close>

lemma record_author_cases:
  assumes "record_author io now key chain authored unattended f = (res, f')" "authors_ok f"
  shows "(res = Inr () \<and> authors_ok f' \<and>
          authors f' = (authors f)(key \<mapsto> normalize_entry \<lparr>ar_key = key, ar_origin = (if length chain > 0 then hd chain else no_ref),
            ar_chain = chain, ar_at = now, ar_authored = authored, ar_unattended = unattended, ar_locked = None\<rparr>)) \<or>
         ((\<exists>e. res = Inl e) \<and> f' = f)"
proof -
  let ?new = "\<lparr>ar_key = key, ar_origin = (if length chain > 0 then hd chain else no_ref), ar_chain = chain,
    ar_at = now, ar_authored = authored, ar_unattended = unattended, ar_locked = None\<rparr>"
  consider (unread) e where "load_authored io f = Inl e" | (read) es where "load_authored io f = Inr es"
    by (cases "load_authored io f") auto
  then show ?thesis
  proof cases
    case unread then show ?thesis using assms(1) by (intro disjI2) (simp add: record_author_def, blast)
  next
    case (read es)
    have es: "es = (case f of None \<Rightarrow> [] | Some xs \<Rightarrow> map normalize_entry xs)"
      using read by (auto simp: load_authored_def split: option.splits)
    have dist: "distinct (map ar_key es)"
      using assms(2) unfolding es by (auto simp: authors_ok_def o_def split: option.splits)
    have auth: "authors f k = List.find (\<lambda>e. ar_key e = k) es" for k
      unfolding es by (auto simp: authors_def split: option.splits)
    have norm: "map_option normalize_entry (List.find (\<lambda>e. ar_key e = k) es) = List.find (\<lambda>e. ar_key e = k) es" for k
      unfolding es by (auto simp: find_normalized option.map_comp o_def split: option.splits)
    let ?all = "filter (\<lambda>e. ar_key e \<noteq> key) es @ [?new]"
    have dist': "distinct (map ar_key ?all)" using dist by (auto simp: distinct_map inj_on_def)
    show ?thesis
    proof (cases "save_error io")
      case None
      then have f': "f' = Some (sort_key ar_key (sort_key ar_at ?all))" "res = Inr ()"
        using assms(1) read by (simp_all add: record_author_def save_authored_def)
      have "authors f' k = ((authors f)(key \<mapsto> normalize_entry ?new)) k" for k
        using saved_authors(1) [OF dist' f'(1), of k] norm [of k] find_filter_key [of k "\<lambda>x. x \<noteq> key" es]
        by (auto simp: find_app auth split: option.splits)
      then show ?thesis using saved_authors(2) [OF dist' f'(1)] f'(2) by blast
    qed (use assms(1) read in \<open>auto simp: record_author_def save_authored_def\<close>)
  qed
qed

lemma forget_author_cases:
  assumes "forget_author io vn pr en names f = (res, f')" "authors_ok f"
  shows "(res = Inr () \<and> authors_ok f' \<and>
          (\<forall>k. authors f' k = (if ak_vault k = vn \<and> ak_project k = pr \<and> ak_env k = en \<and> ak_name k \<in> set names
             then None else authors f k))) \<or>
         ((\<exists>e. res = Inl e) \<and> f' = f)"
proof -
  define P where "P = (\<lambda>k. \<not> (ak_vault k = vn \<and> ak_project k = pr \<and> ak_env k = en \<and> ak_name k \<in> set names))"
  have hit: "(\<lambda>e. in_author_scope vn pr en e \<and> ak_name (ar_key e) \<in> set names) = (\<lambda>e. \<not> P (ar_key e))"
    by (auto simp: in_author_scope_def P_def)
  consider (unread) e where "load_authored io f = Inl e" | (read) es where "load_authored io f = Inr es"
    by (cases "load_authored io f") auto
  then show ?thesis
  proof cases
    case unread then show ?thesis using assms(1) by (intro disjI2) (simp add: forget_author_def, blast)
  next
    case (read es)
    have es: "es = (case f of None \<Rightarrow> [] | Some xs \<Rightarrow> map normalize_entry xs)"
      using read by (auto simp: load_authored_def split: option.splits)
    have dist: "distinct (map ar_key es)"
      using assms(2) unfolding es by (auto simp: authors_ok_def o_def split: option.splits)
    have auth: "authors f k = List.find (\<lambda>e. ar_key e = k) es" for k
      unfolding es by (auto simp: authors_def split: option.splits)
    have norm: "map_option normalize_entry (List.find (\<lambda>e. ar_key e = k) es) = List.find (\<lambda>e. ar_key e = k) es" for k
      unfolding es by (auto simp: find_normalized option.map_comp o_def split: option.splits)
    let ?all = "filter (\<lambda>e. P (ar_key e)) es"
    have dist': "distinct (map ar_key ?all)" using dist by (auto simp: distinct_map inj_on_def)
    have after: "(\<forall>k. authors f' k = (if P k then authors f k else None)) \<Longrightarrow> ?thesis" if "res = Inr ()" "authors_ok f'"
      using that by (auto simp: P_def)
    show ?thesis
    proof (cases "list_ex (\<lambda>e. \<not> P (ar_key e)) es")
      case False
      then have same: "f' = f" "res = Inr ()" using assms(1) read by (simp_all add: forget_author_def hit Let_def)
      have "authors f k = (if P k then authors f k else None)" for k
        using False by (auto simp: auth list_ex_iff find_None_iff)
      then show ?thesis using after same assms(2) by blast
    next
      case True
      show ?thesis
      proof (cases "save_error io")
        case None
        then have f': "f' = Some (sort_key ar_key (sort_key ar_at ?all))" "res = Inr ()"
          using assms(1) read True by (simp_all add: forget_author_def hit Let_def save_authored_def)
        have "authors f' k = (if P k then authors f k else None)" for k
          using saved_authors(1) [OF dist' f'(1), of k] norm [of k] by (auto simp: find_filter_key auth)
        then show ?thesis using after saved_authors(2) [OF dist' f'(1)] f'(2) by blast
      qed (use assms(1) read True in \<open>auto simp: forget_author_def hit Let_def save_authored_def\<close>)
    qed
  qed
qed

end
