(* ===== verification/Go_Match.thy ===== *)
theory Go_Match
  imports Go_Prelude
begin

text \<open>
  Shell patterns: \<open>Match\<close> of Go's package \<open>path\<close>, and the decoding of one rune of UTF-8 it uses.
  A pattern is a list of bytes; \<open>None\<close> of \<open>match_chunk\<close> is a mismatch or a malformed chunk, which
  both make \<open>Match\<close> answer no.
\<close>

section \<open>One rune\<close>

definition rune_error :: nat where "rune_error = 0xFFFD"

definition continues :: "nat \<Rightarrow> bool" where "continues b \<longleftrightarrow> 0x80 \<le> b \<and> b \<le> 0xBF"

text \<open>
  \<open>utf8.DecodeRuneInString\<close>: the rune and its width. A byte that starts no valid encoding
  (overlong forms and surrogates included) is the error rune of width 1.
\<close>

fun decode_bytes :: "nat list \<Rightarrow> nat \<times> nat" where
  "decode_bytes [] = (rune_error, 0)"
| "decode_bytes (a # bs) =
     (if a < 0x80 then (a, 1)
      else if 0xC2 \<le> a \<and> a \<le> 0xDF then
        (case bs of
           b # _ \<Rightarrow> if continues b then ((a - 0xC0) * 64 + (b - 0x80), 2) else (rune_error, 1)
         | _ \<Rightarrow> (rune_error, 1))
      else if 0xE0 \<le> a \<and> a \<le> 0xEF then
        (case bs of
           b # c # _ \<Rightarrow>
             if continues b \<and> continues c \<and> (a = 0xE0 \<longrightarrow> 0xA0 \<le> b) \<and> (a = 0xED \<longrightarrow> b \<le> 0x9F)
             then ((a - 0xE0) * 4096 + (b - 0x80) * 64 + (c - 0x80), 3) else (rune_error, 1)
         | _ \<Rightarrow> (rune_error, 1))
      else if 0xF0 \<le> a \<and> a \<le> 0xF4 then
        (case bs of
           b # c # d # _ \<Rightarrow>
             if continues b \<and> continues c \<and> continues d \<and> (a = 0xF0 \<longrightarrow> 0x90 \<le> b) \<and> (a = 0xF4 \<longrightarrow> b \<le> 0x8F)
             then ((a - 0xF0) * 262144 + (b - 0x80) * 4096 + (c - 0x80) * 64 + (d - 0x80), 4) else (rune_error, 1)
         | _ \<Rightarrow> (rune_error, 1))
      else (rune_error, 1))"

definition decode_rune :: "string \<Rightarrow> nat \<times> nat" where
  "decode_rune s = decode_bytes (map of_char (take 4 s))"

section \<open>Chunks\<close>

text \<open>The loop of \<open>scanChunk\<close>: where the chunk ends, at a star outside of brackets.\<close>

fun scan_to :: "bool \<Rightarrow> string \<Rightarrow> string \<times> string" where
  "scan_to inrange [] = ([], [])"
| "scan_to inrange (c # p) =
     (if c = CHR 0x5C then
        (case p of [] \<Rightarrow> ([c], []) | d # q \<Rightarrow> (case scan_to inrange q of (a, r) \<Rightarrow> (c # d # a, r)))
      else if c = CHR ''*'' \<and> \<not> inrange then ([], c # p)
      else (case scan_to (if c = CHR ''['' then True else if c = CHR '']'' then False else inrange) p of
          (a, r) \<Rightarrow> (c # a, r)))"

definition scan_chunk :: "string \<Rightarrow> bool \<times> string \<times> string" where
  "scan_chunk pattern =
     (let p = dropWhile (\<lambda>c. c = CHR ''*'') pattern in
      case scan_to False p of (chunk, rest) \<Rightarrow> (p \<noteq> pattern, chunk, rest))"

text \<open>\<open>getEsc\<close>: one character of a class, possibly escaped, with something after it.\<close>

definition get_esc :: "string \<Rightarrow> (nat \<times> string) option" where
  "get_esc chunk =
     (if chunk = [] \<or> hd chunk = CHR ''-'' \<or> hd chunk = CHR '']'' then None
      else let chunk = (if hd chunk = CHR 0x5C then tl chunk else chunk) in
        if chunk = [] then None
        else case decode_rune chunk of (r, n) \<Rightarrow>
          if r = rune_error \<and> n = 1 \<or> length chunk \<le> n then None else Some (r, drop n chunk))"

lemma decode_rune_width: "s \<noteq> [] \<Longrightarrow> 0 < snd (decode_rune s)"
  by (cases s) (auto simp: decode_rune_def split: list.splits)

lemma get_esc_shorter: "get_esc chunk = Some (r, rest) \<Longrightarrow> length rest < length chunk"
  using decode_rune_width [of chunk] decode_rune_width [of "tl chunk"]
  by (cases chunk) (auto simp: get_esc_def Let_def split: if_splits prod.splits)

text \<open>The ranges of a class up to its bracket: whether one holds the rune, and the rest of the chunk.\<close>

function class_ranges :: "nat \<Rightarrow> bool \<Rightarrow> bool \<Rightarrow> string \<Rightarrow> (bool \<times> string) option" where
  "class_ranges r matched some chunk =
     (if chunk \<noteq> [] \<and> hd chunk = CHR '']'' \<and> some then Some (matched, tl chunk)
      else case get_esc chunk of
        None \<Rightarrow> None
      | Some (lo, c1) \<Rightarrow>
          if hd c1 = CHR ''-'' then
            (case get_esc (tl c1) of
               None \<Rightarrow> None
             | Some (hi, c2) \<Rightarrow>
                 class_ranges r (matched \<or> lo \<le> r \<and> r \<le> hi) True c2)
          else class_ranges r (matched \<or> lo = r) True c1)"
  by pat_completeness auto
termination
proof (relation "measure (\<lambda>(_, _, _, c). length c)", goal_cases)
  case (2 r matched some chunk x lo c1 y hi c2)
  then show ?case using get_esc_shorter [of chunk lo c1] get_esc_shorter [of "tl c1" hi c2] by simp
qed (auto dest: get_esc_shorter)

declare class_ranges.simps [simp del]

lemma class_ranges_shorter: "class_ranges r m some chunk = Some (b, rest) \<Longrightarrow> length rest \<le> length chunk"
proof (induction "length chunk" arbitrary: m some chunk rule: less_induct)
  case less
  from less.prems show ?case
    by (subst (asm) class_ranges.simps)
      (fastforce split: if_splits option.splits prod.splits dest: less.hyps [rotated] get_esc_shorter)
qed

text \<open>\<open>matchChunk\<close>: what is left of the name behind the chunk.\<close>

function match_chunk :: "string \<Rightarrow> string \<Rightarrow> string option" where
  "match_chunk [] s = Some s"
| "match_chunk (c # chunk) s =
     (if c = CHR ''['' then
        (if s = [] then None
         else case decode_rune s of (r, n) \<Rightarrow>
           let negated = (chunk \<noteq> [] \<and> hd chunk = CHR ''^'') in
           (case class_ranges r False False (if negated then tl chunk else chunk) of
              None \<Rightarrow> None
            | Some (matched, rest) \<Rightarrow>
                if matched = negated then None
                else match_chunk rest (drop n s)))
      else if c = CHR ''?'' then
        (if s = [] \<or> hd s = CHR ''/'' then None else match_chunk chunk (drop (snd (decode_rune s)) s))
      else if c = CHR 0x5C then
        (case chunk of [] \<Rightarrow> None
         | d # rest \<Rightarrow> if s = [] \<or> hd s \<noteq> d then None else match_chunk rest (tl s))
      else if s = [] \<or> hd s \<noteq> c then None
      else match_chunk chunk (tl s))"
  by pat_completeness auto
termination
  by (relation "measure (\<lambda>(c, _). length c)") (auto dest!: class_ranges_shorter split: if_splits)

text \<open>The offsets behind a star, up to the next slash: the first where the chunk fits.\<close>

fun skip_match :: "string \<Rightarrow> bool \<Rightarrow> string \<Rightarrow> string option" where
  "skip_match chunk final [] = None"
| "skip_match chunk final (c # s) =
     (if c = CHR ''/'' then None
      else case match_chunk chunk s of
        Some t \<Rightarrow> if final \<and> t \<noteq> [] then skip_match chunk final s else Some t
      | None \<Rightarrow> skip_match chunk final s)"

lemma scan_to_length: "scan_to b p = (chunk, rest) \<Longrightarrow> p = chunk @ rest"
  by (induction b p arbitrary: chunk rest rule: scan_to.induct) (auto split: if_splits prod.splits list.splits)

lemma scan_to_start: "scan_to False p = ([], rest) \<Longrightarrow> p = [] \<or> hd p = CHR ''*''"
  by (cases p) (auto split: if_splits prod.splits list.splits)

lemma scan_chunk_shorter:
  assumes "scan_chunk pattern = (star, chunk, rest)" "pattern \<noteq> []"
  shows "length rest < length pattern"
proof -
  define p where "p = dropWhile (\<lambda>c. c = CHR ''*'') pattern"
  have scan: "scan_to False p = (chunk, rest)"
    using assms(1) by (auto simp: scan_chunk_def p_def Let_def split: prod.splits)
  have len: "length p \<le> length pattern" by (simp add: p_def length_dropWhile_le)
  show ?thesis
  proof (cases "chunk = []")
    case True
    have "p = [] \<or> hd p = CHR ''*''" using scan_to_start scan True by blast
    moreover have "p \<noteq> [] \<Longrightarrow> hd p \<noteq> CHR ''*''" using hd_dropWhile [of "\<lambda>c. c = CHR ''*''" pattern] by (auto simp: p_def)
    ultimately have "p = []" by blast
    then show ?thesis using scan assms(2) scan_to_length [OF scan] True by simp
  next
    case False
    then show ?thesis using scan_to_length [OF scan] len by (cases chunk) auto
  qed
qed

section \<open>Match\<close>

function path_match :: "string \<Rightarrow> string \<Rightarrow> bool" where
  "path_match pattern s =
     (if pattern = [] then s = []
      else case scan_chunk pattern of (star, chunk, rest) \<Rightarrow>
        if star \<and> chunk = [] then CHR ''/'' \<notin> set s
        else case match_chunk chunk s of
          Some t \<Rightarrow>
            if t = [] \<or> rest \<noteq> [] then path_match rest t
            else if star then (case skip_match chunk (rest = []) s of None \<Rightarrow> False | Some t \<Rightarrow> path_match rest t)
            else False
        | None \<Rightarrow>
            if star then (case skip_match chunk (rest = []) s of None \<Rightarrow> False | Some t \<Rightarrow> path_match rest t)
            else False)"
  by pat_completeness auto
termination
  by (relation "measure (\<lambda>(p, _). length p)") (auto dest: scan_chunk_shorter [OF sym])

declare path_match.simps [simp del]

lemma match_chunk_plain:
  assumes "\<And>c. c \<in> set p \<Longrightarrow> c \<notin> {CHR ''['', CHR ''?'', CHR 0x5C}"
  shows "match_chunk p s = (if prefix p s then Some (drop (length p) s) else None)"
  using assms
proof (induction p arbitrary: s)
  case (Cons c p)
  have "c \<noteq> CHR ''[''" "c \<noteq> CHR ''?''" "c \<noteq> CHR 0x5C" using Cons.prems [of c] by auto
  moreover have "match_chunk p t = (if prefix p t then Some (drop (length p) t) else None)" for t
    using Cons by auto
  ultimately show ?case by (cases s) (auto simp: prefix_Cons)
qed simp

lemma scan_to_plain:
  assumes "\<And>c. c \<in> set p \<Longrightarrow> c \<notin> {CHR ''['', CHR '']'', CHR ''*'', CHR 0x5C}"
  shows "scan_to False p = (p, [])"
  using assms by (induction p) auto

text \<open>A pattern without special characters matches itself only.\<close>

lemma path_match_literal:
  assumes "\<And>c. c \<in> set p \<Longrightarrow> c \<notin> {CHR ''['', CHR '']'', CHR ''*'', CHR ''?'', CHR 0x5C}"
  shows "path_match p s \<longleftrightarrow> p = s"
proof (cases "p = []")
  case True then show ?thesis by (auto simp: path_match.simps)
next
  case False
  have drop: "dropWhile (\<lambda>c. c = CHR ''*'') p = p" using False assms [of "hd p"] by (cases p) auto
  have scan: "scan_chunk p = (False, p, [])"
    using scan_to_plain [of p] assms by (simp add: scan_chunk_def drop)
  have "match_chunk p s = (if prefix p s then Some (drop (length p) s) else None)"
    using assms by (intro match_chunk_plain) auto
  then show ?thesis
    using False scan by (subst path_match.simps) (auto simp: path_match.simps [of "[]"] prefix_def)
qed

end
