(* ===== verification/Plane_State.thy ===== *)
theory Plane_State
  imports Exec_Gate Vault_Grants Vault_Notes Authored_Store Go_Match
begin

text \<open>
  The daemon over its real vaults: what the handlers of \<open>internal/daemon/dispatch.go\<close> share. A \<open>plane\<close>
  is the state they change: the daemon of \<open>Auth_Gate\<close>, the open vaults with their tables and keys, the
  registry of authors and the trust file. The gate sees an open vault as the entry derived from it.

  \<open>plane_world\<close> adds what a request reads: the vaults on disk, the TOML decoder, and for every
  call of the code to a file or a database its outcome and its random draw. Calls of one kind
  in one request share their outcome, those of a loop are told apart by the name they are for.
\<close>

section \<open>The world and the state\<close>

datatype plane_call =
    CallAuthorLookup | CallAuthorWrite | CallAuthorNames | CallTrustLoad | CallTrustPut string
  | CallPutCreate | CallPutOver | CallGet | CallHas | CallDelete | CallClear | CallRename | CallList
  | CallSummaries | CallObject | CallDescribe | CallDescription | CallNote | CallNoteId
  | CallUnattended | CallSeal string | CallCapture string string | CallCapability string
  | CallStructure | CallQueueGet | CallQueueAttach | CallQueueDecide | CallTrustRemove

record plane_world = world +
  pw_lib :: crypto_lib
  pw_disk :: "string \<Rightarrow> open_error + vault"
  pw_parse :: "bytes \<Rightarrow> byn_file option"
  pw_limits :: annotation_limits
  pw_unix :: int
  pw_io :: "plane_call \<Rightarrow> store_io"
  pw_draw :: "plane_call \<Rightarrow> bytes option"
  pw_token :: bytes
  pw_owner :: nat
  pw_peer_tty :: "int \<Rightarrow> int"
  pw_canonicalize :: "string \<Rightarrow> string"
  pw_read :: "string \<Rightarrow> (bytes \<times> int) option"
  pw_stat :: "string \<Rightarrow> int option"
  pw_compile :: "string \<Rightarrow> (string \<Rightarrow> bool) option"

record plane =
  pn_daemon :: daemon
  pn_vaults :: "vault go_map"
  pn_authored :: author_file
  pn_trust :: trust_file

definition VKMACKeyInfo :: string where "VKMACKeyInfo = ''byn:trust-store-mac:v1''"

definition entry_of :: "crypto_lib \<Rightarrow> vault \<Rightarrow> vault_entry" where
  "entry_of cl v = \<lparr>ve_locked = is_locked v,
     ve_subkey = (case derive_subkey cl VKMACKeyInfo v of Inl _ \<Rightarrow> Inl CodeInternal | Inr k \<Rightarrow> Inr k),
     ve_password = (\<lambda>password. verify_password cl password v = Inr ())\<rparr>"

definition gate_world :: "plane_world \<Rightarrow> plane \<Rightarrow> world" where
  "gate_world w s = (world.truncate w)\<lparr>wo_disk := (\<lambda>n. map_sum id (entry_of (pw_lib w)) (pw_disk w n)),
     wo_trust_io := pw_io w CallTrustLoad, wo_trust := pn_trust s\<rparr>"

definition gate_daemon :: "plane_world \<Rightarrow> plane \<Rightarrow> daemon" where
  "gate_daemon w s = (pn_daemon s)\<lparr>dm_vaults := map (\<lambda>(n, v). (n, entry_of (pw_lib w) v)) (pn_vaults s)\<rparr>"

text \<open>A function of the gate, run on what it sees of the state.\<close>

definition gate :: "plane_world \<Rightarrow> (world \<Rightarrow> daemon \<Rightarrow> 'r \<times> daemon) \<Rightarrow> plane \<Rightarrow> 'r \<times> plane" where
  "gate w f s = (case f (gate_world w s) (gate_daemon w s) of (r, d) \<Rightarrow> (r, s\<lparr>pn_daemon := d\<rparr>))"

definition emitting :: "plane_world \<Rightarrow> (daemon \<Rightarrow> daemon) \<Rightarrow> plane \<Rightarrow> plane" where
  "emitting w f s = s\<lparr>pn_daemon := f (gate_daemon w s)\<rparr>"

section \<open>Stores\<close>

definition plane_store :: "plane_world \<Rightarrow> string \<Rightarrow> plane \<Rightarrow> (ipc_error + vault) \<times> plane" where
  "plane_store w name s =
     (let name = default_if_empty name DefaultVaultName in
      if \<not> vault_name_re name then (Inl (new_error CodeBadName), s)
      else case map_get (pn_vaults s) name of
        Some v \<Rightarrow> (Inr v, s)
      | None \<Rightarrow>
          (case pw_disk w name of
             Inl OpenNotInit \<Rightarrow> (Inl (new_error CodeNotInit), s)
           | Inl OpenFingerprint \<Rightarrow> (Inl (new_error CodeFingerprint), s)
           | Inl OpenOther \<Rightarrow> (Inl (new_error CodeInternal), s)
           | Inr v \<Rightarrow> (Inr v, s\<lparr>pn_vaults := map_put (pn_vaults s) name v\<rparr>)))"

definition plane_scope :: "plane_world \<Rightarrow> ipc_scope \<Rightarrow> plane \<Rightarrow> (ipc_error + vault \<times> vault_scope) \<times> plane" where
  "plane_scope w sc s =
     (case plane_store w (default_if_empty (is_vault sc) DefaultVaultName) s of
        (Inl e, s) \<Rightarrow> (Inl e, s) | (Inr v, s) \<Rightarrow> (Inr (v, scope_of sc), s))"

text \<open>The store behind a name, as a handler finds it at that moment, and an operation on it.\<close>

definition store_of :: "plane \<Rightarrow> string \<Rightarrow> vault" where
  "store_of s vn = the (map_get (pn_vaults s) vn)"

definition on_store :: "string \<Rightarrow> (vault \<Rightarrow> 'r \<times> vault) \<Rightarrow> plane \<Rightarrow> 'r \<times> plane" where
  "on_store vn f s = (case f (store_of s vn) of (r, v) \<Rightarrow> (r, s\<lparr>pn_vaults := map_put (pn_vaults s) vn v\<rparr>))"

text \<open>The vault a request is for.\<close>

definition plane_vault :: "ipc_scope \<Rightarrow> string" where
  "plane_vault sc = default_if_empty (is_vault sc) DefaultVaultName"

section \<open>Errors and the audit trail\<close>

fun map_vault_err :: "vault_error \<Rightarrow> ipc_error" where
  "map_vault_err ErrLocked = new_error CodeLocked"
| "map_vault_err ErrEntryNotFound = new_error CodeNotFound"
| "map_vault_err ErrEntryExists = new_error CodeAlreadyExists"
| "map_vault_err ErrBadName = new_error CodeBadName"
| "map_vault_err ErrProjectNotFound = new_error CodeProjectNotFound"
| "map_vault_err ErrProjectExists = new_error CodeProjectExists"
| "map_vault_err ErrBadProjectName = new_error CodeBadName"
| "map_vault_err ErrEnvNotFound = new_error CodeEnvNotFound"
| "map_vault_err ErrEnvExists = new_error CodeEnvExists"
| "map_vault_err ErrEnvProtected = new_error CodeEnvProtected"
| "map_vault_err ErrBadEnvName = new_error CodeBadName"
| "map_vault_err _ = new_error CodeInternal"

definition plane_event :: "ipc_scope \<Rightarrow> string \<Rightarrow> string \<Rightarrow> string \<Rightarrow> ipc_error option \<Rightarrow> event" where
  "plane_event sc kind name op resp =
     (case outcome_for resp of (outcome, code) \<Rightarrow>
       no_event\<lparr>ev_project := default_if_empty (is_project sc) DefaultProjectName,
         ev_env := default_if_empty (is_env sc) DefaultEnvName, ev_kind := kind, ev_entry_name := name,
         ev_op := op, ev_outcome := outcome, ev_error_code := code\<rparr>)"

definition audit_plane ::
  "plane_world \<Rightarrow> caller \<Rightarrow> ipc_scope \<Rightarrow> string \<Rightarrow> string \<Rightarrow> string \<Rightarrow> ipc_error option \<Rightarrow> plane \<Rightarrow> plane" where
  "audit_plane w ci sc kind name op resp s = emitting w (audit_emit ci (is_vault sc) (plane_event sc kind name op resp)) s"

definition touching :: "plane_world \<Rightarrow> string \<Rightarrow> plane \<Rightarrow> plane" where
  "touching w rawName s = emitting w (touch_vault rawName) s"

text \<open>The tail of most handlers: the answer, recorded as it is.\<close>

definition err_of :: "ipc_error + 'a \<Rightarrow> ipc_error option" where
  "err_of r = (case r of Inl e \<Rightarrow> Some e | Inr _ \<Rightarrow> None)"

definition audited :: "plane_world \<Rightarrow> caller \<Rightarrow> ipc_scope \<Rightarrow> string \<Rightarrow> string \<Rightarrow> ipc_error + 'a \<Rightarrow> plane \<Rightarrow> (ipc_error + 'a) \<times> plane" where
  "audited w ci sc name op r s = (r, audit_plane w ci sc ''env_var'' name op (err_of r) s)"

definition authorize_plane ::
  "plane_world \<Rightarrow> registry \<Rightarrow> caller \<Rightarrow> string \<Rightarrow> vault_scope \<Rightarrow> string \<Rightarrow> bytes \<Rightarrow> string \<Rightarrow> plane \<Rightarrow>
   ipc_error option \<times> plane" where
  "authorize_plane w reg ci vn scope action password presence s =
     gate w (\<lambda>gw. authorize_action gw reg ci vn scope action password presence) s"

definition attended_plane :: "plane_world \<Rightarrow> caller \<Rightarrow> string \<Rightarrow> bytes \<Rightarrow> string \<Rightarrow> plane \<Rightarrow> bool \<times> plane" where
  "attended_plane w ci vn password presence s = gate w (\<lambda>gw. caller_is_attended gw ci vn password presence) s"

definition demands_plane :: "plane_world \<Rightarrow> string \<Rightarrow> vault_scope \<Rightarrow> string \<Rightarrow> plane \<Rightarrow> bool" where
  "demands_plane w vn scope action s = policy_demands_auth (gate_world w s) (gate_daemon w s) vn scope action"

section \<open>What the pieces change\<close>

named_theorems plane_frame

lemma gate_frame [plane_frame]:
  "gate w f s = (r, s') \<Longrightarrow> pn_vaults s' = pn_vaults s \<and> pn_authored s' = pn_authored s \<and> pn_trust s' = pn_trust s"
  by (auto simp: gate_def split: prod.splits)

lemma emitting_frame [simp]:
  "pn_vaults (emitting w f s) = pn_vaults s" "pn_authored (emitting w f s) = pn_authored s"
  "pn_trust (emitting w f s) = pn_trust s"
  by (simp_all add: emitting_def)

lemma audit_plane_frame [simp]:
  "pn_vaults (audit_plane w ci sc k n op r s) = pn_vaults s" "pn_authored (audit_plane w ci sc k n op r s) = pn_authored s"
  "pn_trust (audit_plane w ci sc k n op r s) = pn_trust s"
  by (simp_all add: audit_plane_def)

lemma touching_frame [simp]:
  "pn_vaults (touching w n s) = pn_vaults s" "pn_authored (touching w n s) = pn_authored s" "pn_trust (touching w n s) = pn_trust s"
  by (simp_all add: touching_def)

lemma audited_frame:
  "audited w ci sc n op r s = (r', s') \<Longrightarrow>
   r' = r \<and> pn_vaults s' = pn_vaults s \<and> pn_authored s' = pn_authored s \<and> pn_trust s' = pn_trust s"
  by (auto simp: audited_def)

lemma authorize_frame:
  "authorize_plane w reg ci vn scope action pw pt s = (r, s') \<Longrightarrow>
   pn_vaults s' = pn_vaults s \<and> pn_authored s' = pn_authored s \<and> pn_trust s' = pn_trust s"
  unfolding authorize_plane_def by (rule gate_frame)

lemma attended_frame:
  "attended_plane w ci vn pw pt s = (r, s') \<Longrightarrow>
   pn_vaults s' = pn_vaults s \<and> pn_authored s' = pn_authored s \<and> pn_trust s' = pn_trust s"
  unfolding attended_plane_def by (rule gate_frame)

lemma store_of_put [simp]:
  "store_of (s\<lparr>pn_vaults := map_put (pn_vaults s) vn v\<rparr>) vn' = (if vn' = vn then v else store_of s vn')"
  by (simp add: store_of_def)

lemma on_store_frame:
  "on_store vn f s = (r, s') \<Longrightarrow>
   pn_daemon s' = pn_daemon s \<and> pn_authored s' = pn_authored s \<and> pn_trust s' = pn_trust s \<and>
   f (store_of s vn) = (r, store_of s' vn) \<and> map_get (pn_vaults s') vn = Some (store_of s' vn) \<and>
   (\<forall>n. n \<noteq> vn \<longrightarrow> map_get (pn_vaults s') n = map_get (pn_vaults s) n)"
  by (auto simp: on_store_def store_of_def split: prod.splits)

lemma plane_store_frame:
  assumes "plane_store w name s = (r, s')"
  shows "pn_daemon s' = pn_daemon s" "pn_authored s' = pn_authored s" "pn_trust s' = pn_trust s"
    and "\<And>n v. map_get (pn_vaults s) n = Some v \<Longrightarrow> map_get (pn_vaults s') n = Some v"
    and "\<And>v. r = Inr v \<Longrightarrow> map_get (pn_vaults s') (default_if_empty name DefaultVaultName) = Some v"
    and "\<And>n v. map_get (pn_vaults s') n = Some v \<Longrightarrow> map_get (pn_vaults s) n = Some v \<or> pw_disk w n = Inr v"
  using assms by (auto simp: plane_store_def Let_def split: if_splits option.splits sum.splits open_error.splits)

text \<open>Opening a store agrees with what the gate does to its view of the daemon.\<close>

lemma map_get_entries: "map_get (map (\<lambda>(n, v). (n, f v)) m) k = map_option f (map_get m k)"
  by (induction m) (auto simp: map_get_def)

lemma plane_store_agrees:
  assumes "plane_store w name s = (r, s')"
  shows "fst (store_for_vault (gate_world w s) name (gate_daemon w s)) = map_sum id (entry_of (pw_lib w)) r"
    and "lookup_vault (snd (store_for_vault (gate_world w s) name (gate_daemon w s))) n = lookup_vault (gate_daemon w s') n"
  using assms
  by (auto simp: plane_store_def store_for_vault_def open_vault_def lookup_vault_def gate_world_def gate_daemon_def Let_def
      map_get_entries split: if_splits option.splits sum.splits open_error.splits)

end
