(* ===== verification/Plane_Authors.thy ===== *)
theory Plane_Authors
  imports Plane_State
begin

text \<open>
  Whose value it is: the decisions of \<open>internal/daemon/authored.go\<close> over the registry, the trust file
  and the vault, the sealing of a grant's keys (\<open>bynwrite.go\<close>) and the descriptions a trusted
  \<open>.byn\<close> declares (\<open>manifestdesc.go\<close>).
\<close>

section \<open>Authorship of a name\<close>

definition authored_scope_key :: "string \<Rightarrow> vault_scope \<Rightarrow> string \<Rightarrow> author_key" where
  "authored_scope_key vn scope name =
     AuthorKey (default_if_empty vn DefaultVaultName) (default_if_empty (sc_project scope) DefaultProjectName)
       (default_if_empty (sc_env scope) DefaultEnvName) name"

definition authored_entry_plane ::
  "plane_world \<Rightarrow> caller \<Rightarrow> string \<Rightarrow> vault_scope \<Rightarrow> string \<Rightarrow> plane \<Rightarrow> author_entry option" where
  "authored_entry_plane w ci vn scope name s =
     (case lookup_author (pw_io w CallAuthorLookup) (authored_scope_key vn scope name) (pn_authored s) of
        None \<Rightarrow> None
      | Some e \<Rightarrow>
          (let chain = (if length (ar_chain e) = 0 then [ar_origin e] else ar_chain e) in
           if \<not> shares_ancestry (wo_procs w) (ci_pid ci) chain then None else Some e))"

definition own_unattended_value :: "plane_world \<Rightarrow> caller \<Rightarrow> string \<Rightarrow> vault_scope \<Rightarrow> string \<Rightarrow> plane \<Rightarrow> bool" where
  "own_unattended_value w ci vn scope name s =
     (case authored_entry_plane w ci vn scope name s of None \<Rightarrow> False | Some e \<Rightarrow> ar_authored e)"

definition may_delete_unattended :: "plane_world \<Rightarrow> caller \<Rightarrow> string \<Rightarrow> vault_scope \<Rightarrow> string \<Rightarrow> plane \<Rightarrow> bool" where
  "may_delete_unattended w ci vn scope name s = own_unattended_value w ci vn scope name s"

fun matches_deny_pattern :: "string list \<Rightarrow> string \<Rightarrow> bool" where
  "matches_deny_pattern [] name = False"
| "matches_deny_pattern (p # ps) name = (if p = name then True else if path_match p name then True else matches_deny_pattern ps name)"

definition denies_put :: "plane_world \<Rightarrow> string \<Rightarrow> vault_scope \<Rightarrow> string \<Rightarrow> trust_record \<Rightarrow> bool" where
  "denies_put w vn scope name rec =
     (if \<not> record_governs rec vn scope \<or> tr_snapshot rec = [] then False
      else case pw_parse w (tr_snapshot rec) of
        None \<Rightarrow> False
      | Some parsed \<Rightarrow> bf_agent_put parsed = Some False \<or> matches_deny_pattern (bf_agent_put_deny parsed) name)"

definition unattended_put_allowed :: "plane_world \<Rightarrow> string \<Rightarrow> vault_scope \<Rightarrow> string \<Rightarrow> plane \<Rightarrow> bool" where
  "unattended_put_allowed w vn scope name s =
     (case load_store (pw_io w CallTrustLoad) (pn_trust s) of
        Inl _ \<Rightarrow> True | Inr records \<Rightarrow> \<not> list_ex (denies_put w vn scope name) records)"

section \<open>The authored key a grant carries\<close>

definition cap_key :: "plane_world \<Rightarrow> bytes option" where
  "cap_key w = (case wo_fp_key w of None \<Rightarrow> None
     | Some fp \<Rightarrow> (case derive_cap_key (pw_lib w) fp of Inl _ \<Rightarrow> None | Inr k \<Rightarrow> Some k))"

definition carried_key :: "crypto_lib \<Rightarrow> bytes \<Rightarrow> string \<Rightarrow> bytes \<Rightarrow> bytes option" where
  "carried_key cl capKey name blob =
     (case open_capability cl capKey blob of
        Inl _ \<Rightarrow> None | Inr keys \<Rightarrow> (case map_get keys name of None \<Rightarrow> None | Some k \<Rightarrow> if length k = 0 then None else Some k))"

fun first_authored_key :: "plane_world \<Rightarrow> bytes \<Rightarrow> string \<Rightarrow> vault_scope \<Rightarrow> trust_record list \<Rightarrow> bytes option" where
  "first_authored_key w capKey vn scope [] = None"
| "first_authored_key w capKey vn scope (rec # recs) =
     (if \<not> record_governs rec vn scope \<or> length (tr_exec_capability rec) = 0 then first_authored_key w capKey vn scope recs
      else case carried_key (pw_lib w) capKey CapAuthoredKeyName (tr_exec_capability rec) of
        Some k \<Rightarrow> Some k | None \<Rightarrow> first_authored_key w capKey vn scope recs)"

definition authored_key_plane :: "plane_world \<Rightarrow> string \<Rightarrow> vault_scope \<Rightarrow> plane \<Rightarrow> bytes option" where
  "authored_key_plane w vn scope s =
     (if wo_fp_key w = None then None
      else case load_store (pw_io w CallTrustLoad) (pn_trust s) of
        Inl _ \<Rightarrow> None
      | Inr records \<Rightarrow> (case cap_key w of None \<Rightarrow> None | Some k \<Rightarrow> first_authored_key w k vn scope records))"

text \<open>\<open>readAuthored\<close>: the value alone, the other fields of the entry stay at their zero values.\<close>

definition read_authored :: "plane_world \<Rightarrow> string \<Rightarrow> vault_scope \<Rightarrow> string \<Rightarrow> bool \<Rightarrow> plane \<Rightarrow> bytes option" where
  "read_authored w vn scope name mine s =
     (if \<not> mine \<or> \<not> is_locked (store_of s vn) then None
      else case authored_key_plane w vn scope s of
        None \<Rightarrow> None
      | Some k \<Rightarrow>
          (case open_authored (pw_lib w) (pw_io w CallGet) scope name k (store_of s vn) of Inl _ \<Rightarrow> None | Inr val \<Rightarrow> Some val))"

section \<open>Sealing a grant's keys\<close>

definition scope_optional :: "vault_error \<Rightarrow> vault_error + bytes" where
  "scope_optional e = (if e = ErrProjectNotFound \<or> e = ErrEnvNotFound then Inr [] else Inl e)"

text \<open>
  Which key a capture takes: the one at hand or the password where the vault is locked, else the one
  in memory. An absent key or password is the empty one, as \<open>len\<close> reads both.
\<close>

definition by_access :: "bool \<Rightarrow> bytes \<Rightarrow> bytes \<Rightarrow> 'a \<Rightarrow> 'a \<Rightarrow> 'a \<Rightarrow> 'a" where
  "by_access locked vaultKey password withKey withPassword inMemory =
     (if locked \<and> length vaultKey > 0 then withKey else if locked \<and> length password > 0 then withPassword else inMemory)"

definition default_vault_key :: "crypto_lib \<Rightarrow> bytes \<Rightarrow> bytes \<Rightarrow> vault \<Rightarrow> vault_error + bytes option" where
  "default_vault_key cl vaultKey password v =
     (if \<not> is_locked v then Inr None
      else if length vaultKey > 0 then Inr (Some vaultKey)
      else if length password > 0 then map_sum id Some (unwrap_vault_key cl password v)
      else Inr None)"

definition capture_default_keys_into ::
  "crypto_lib \<Rightarrow> store_io \<Rightarrow> vault_scope \<Rightarrow> bool \<Rightarrow> bytes \<Rightarrow> bytes \<Rightarrow> bytes go_map \<Rightarrow> vault \<Rightarrow> vault_error + bytes go_map" where
  "capture_default_keys_into cl io scope wildcard password vaultKey rowKeys v =
     (if sc_env scope = [] \<or> sc_env scope = DefaultEnvName then Inr rowKeys
      else case default_vault_key cl vaultKey password v of
        Inl e \<Rightarrow> Inl e
      | Inr vk \<Rightarrow>
          (case capture_default_keys cl io scope wildcard vk v of
             Inl e \<Rightarrow> Inl e
           | Inr (kenv, kauth) \<Rightarrow>
               (let m = (case kauth of None \<Rightarrow> rowKeys | Some k \<Rightarrow> map_put rowKeys CapDefaultAuthoredKeyName k) in
                Inr (case kenv of None \<Rightarrow> m | Some k \<Rightarrow> map_put m CapDefaultScopeKeyName k))))"

definition granted_names ::
  "plane_world \<Rightarrow> vault_scope \<Rightarrow> string list \<Rightarrow> bool \<Rightarrow> vault \<Rightarrow> vault_error + string list" where
  "granted_names w scope allow wildcard v =
     (if wildcard then map_sum id (map ei_name) (list_env_vars (pw_lib w) (pw_io w CallList) scope v) else Inr allow)"

definition granted_row_keys ::
  "plane_world \<Rightarrow> string \<Rightarrow> vault_scope \<Rightarrow> string list \<Rightarrow> bytes \<Rightarrow> bytes \<Rightarrow> vault \<Rightarrow> (vault_error + bytes go_map) \<times> vault" where
  "granted_row_keys w label scope names password vaultKey v =
     (if names = [] then (Inr [], v)
      else (let cl = pw_lib w; io = pw_io w (CallSeal label); draws = (\<lambda>n. pw_draw w (CallCapture label n)) in
        by_access (is_locked v) vaultKey password
          (capture_row_keys_with_key cl io draws vaultKey scope names v)
          (capture_row_keys_with_password cl io draws password scope names v)
          (capture_row_keys cl io draws scope names v)))"

definition granted_scope_keys ::
  "plane_world \<Rightarrow> string \<Rightarrow> vault_scope \<Rightarrow> bool \<Rightarrow> bytes \<Rightarrow> bytes \<Rightarrow> bytes go_map \<Rightarrow> vault \<Rightarrow> vault_error + bytes go_map" where
  "granted_scope_keys w label scope wildcard password vaultKey rowKeys v =
     (let cl = pw_lib w; io = pw_io w (CallSeal label) in
      case (if wildcard
            then map_sum id (map_put rowKeys CapScopeKeyName)
              (by_access (is_locked v) vaultKey password (capture_scope_key_with_key cl io vaultKey scope v)
                (capture_scope_key_with_password cl io password scope v) (capture_scope_key cl io scope v))
            else Inr rowKeys) of
        Inl e \<Rightarrow> Inl e
      | Inr keys \<Rightarrow>
          (case by_access (is_locked v) vaultKey password (authored_key_for_scope cl io vaultKey scope v)
             (capture_authored_key_with_password cl io password scope v) (capture_authored_key cl io scope v) of
             Inl e \<Rightarrow> Inl e
           | Inr authKey \<Rightarrow>
               capture_default_keys_into cl io scope wildcard password vaultKey (map_put keys CapAuthoredKeyName authKey) v))"

definition seal_exec_capability ::
  "plane_world \<Rightarrow> string \<Rightarrow> vault_scope \<Rightarrow> string list \<Rightarrow> bool \<Rightarrow> bytes \<Rightarrow> bytes \<Rightarrow> vault \<Rightarrow> (vault_error + bytes) \<times> vault" where
  "seal_exec_capability w label scope allow wildcard password vaultKey v =
     (case wo_fp_key w of None \<Rightarrow> (Inr [], v) | Some fp \<Rightarrow>
      (case granted_names w scope allow wildcard v of Inl e \<Rightarrow> (scope_optional e, v) | Inr names \<Rightarrow>
       (case granted_row_keys w label scope names password vaultKey v of
          (Inl e, v) \<Rightarrow> (scope_optional e, v)
        | (Inr rowKeys, v) \<Rightarrow>
            (case granted_scope_keys w label scope wildcard password vaultKey rowKeys v of
               Inl e \<Rightarrow> (scope_optional e, v)
             | Inr keys \<Rightarrow>
                 if length keys = 0 then (Inr [], v)
                 else (case derive_cap_key (pw_lib w) fp of
                     Inl e \<Rightarrow> (Inl (ErrCrypto e), v)
                   | Inr capKey \<Rightarrow>
                       (as_vault (seal_capability (pw_lib w) (pw_draw w (CallCapability label)) capKey keys), v))))))"

section \<open>Refreshing the grants of a scope\<close>

definition refresh_scope :: "trust_record \<Rightarrow> string \<Rightarrow> vault_scope \<Rightarrow> vault_scope option" where
  "refresh_scope rec vn scope =
     (if record_governs rec vn scope then Some scope
      else if default_if_empty (sc_env scope) DefaultEnvName \<noteq> DefaultEnvName then None
      else (let child = \<lparr>sc_project = default_if_empty (sc_project scope) DefaultProjectName,
                sc_env = default_if_empty (tr_scope_env rec) DefaultEnvName\<rparr> in
        if \<not> record_governs rec vn child then None else Some child))"

definition needs_default_keys :: "crypto_lib \<Rightarrow> bytes \<Rightarrow> bytes \<Rightarrow> vault_scope \<Rightarrow> bool" where
  "needs_default_keys cl capKey blob scope =
     (if default_if_empty (sc_env scope) DefaultEnvName = DefaultEnvName then False
      else carried_key cl capKey CapDefaultAuthoredKeyName blob = None)"

definition capability_has_authored_key :: "crypto_lib \<Rightarrow> bytes \<Rightarrow> bytes \<Rightarrow> bool" where
  "capability_has_authored_key cl capKey blob =
     (if length blob = 0 then False else carried_key cl capKey CapAuthoredKeyName blob \<noteq> None)"

definition store_refreshed ::
  "plane_world \<Rightarrow> caller \<Rightarrow> string \<Rightarrow> vault_scope \<Rightarrow> bytes \<Rightarrow> trust_record \<Rightarrow> bytes \<Rightarrow> plane \<Rightarrow> plane" where
  "store_refreshed w ci vn recScope vkKey rec blob s =
     (let gained = (case cap_key w of None \<Rightarrow> False
            | Some k \<Rightarrow> \<not> capability_has_authored_key (pw_lib w) k (tr_exec_capability rec) \<and>
                capability_has_authored_key (pw_lib w) k blob);
          rec = set_macs (wo_sha256 w) (wo_hmac w) (wo_fp_key w) (Some vkKey) (rec\<lparr>tr_exec_capability := blob\<rparr>) in
      case put_record (pw_io w (CallTrustPut (tr_path rec))) rec (pn_trust s) of
        (Inl _, f) \<Rightarrow> s\<lparr>pn_trust := f\<rparr>
      | (Inr _, f) \<Rightarrow>
          (if gained then
             emitting w (audit_emit ci vn (no_event\<lparr>ev_project := sc_project recScope, ev_env := sc_env recScope,
               ev_byn_path := tr_path rec, ev_op := ''trust.authored_key'', ev_outcome := ''ok''\<rparr>)) (s\<lparr>pn_trust := f\<rparr>)
           else s\<lparr>pn_trust := f\<rparr>))"

definition refresh_record ::
  "plane_world \<Rightarrow> caller \<Rightarrow> string \<Rightarrow> vault_scope \<Rightarrow> bytes \<Rightarrow> bytes \<Rightarrow> trust_record \<Rightarrow> plane \<Rightarrow> plane" where
  "refresh_record w ci vn scope vkKey vaultKey rec s =
     (if length (tr_exec_capability rec) = 0 then s
      else case refresh_scope rec vn scope of None \<Rightarrow> s | Some recScope \<Rightarrow>
       (case pw_parse w (tr_snapshot rec) of None \<Rightarrow> s | Some parsed \<Rightarrow>
        (let wildcard = allows_all parsed in
         if wildcard \<and> (case cap_key w of None \<Rightarrow> True
            | Some k \<Rightarrow> \<not> needs_default_keys (pw_lib w) k (tr_exec_capability rec) recScope) then s
         else
           (let key = authored_scope_key vn recScope [];
                names = bf_env parsed @ names_for (pw_io w CallAuthorNames) (ak_vault key) (ak_project key) (ak_env key) (pn_authored s) in
            case on_store vn (seal_exec_capability w (tr_path rec) recScope names wildcard [] vaultKey) s of
              (Inl _, s) \<Rightarrow> s
            | (Inr blob, s) \<Rightarrow> if length blob = 0 then s else store_refreshed w ci vn recScope vkKey rec blob s))))"

text \<open>\<open>vaultKey\<close> is empty for a caller that relies on the key in memory.\<close>

definition refresh_capabilities ::
  "plane_world \<Rightarrow> caller \<Rightarrow> bytes \<Rightarrow> string \<Rightarrow> vault_scope \<Rightarrow> plane \<Rightarrow> plane" where
  "refresh_capabilities w ci vaultKey vn scope s =
     (if vaultKey = [] \<and> is_locked (store_of s vn) then s
      else case load_store (pw_io w CallTrustLoad) (pn_trust s) of
        Inl _ \<Rightarrow> s
      | Inr records \<Rightarrow>
          (case (if vaultKey \<noteq> [] then Inr (cl_hkdf (pw_lib w) vaultKey VKMACKeyInfo)
                 else derive_subkey (pw_lib w) VKMACKeyInfo (store_of s vn)) of
             Inl _ \<Rightarrow> s
           | Inr vkKey \<Rightarrow> fold (refresh_record w ci vn scope vkKey vaultKey) records s))"

section \<open>Taking down and revoking authorship\<close>

definition record_authored ::
  "plane_world \<Rightarrow> caller \<Rightarrow> string \<Rightarrow> vault_scope \<Rightarrow> string \<Rightarrow> bool \<Rightarrow> bool \<Rightarrow> plane \<Rightarrow> plane" where
  "record_authored w ci vn scope name authored unattended s =
     (let chain = caller_ancestry (wo_procs w) (ci_pid ci) in
      if length chain = 0 then s
      else case record_author (pw_io w CallAuthorWrite) (wo_now w) (authored_scope_key vn scope name) chain authored unattended
          (pn_authored s) of
        (Inl _, f) \<Rightarrow> s\<lparr>pn_authored := f\<rparr>
      | (Inr _, f) \<Rightarrow>
          (let s = s\<lparr>pn_authored := f\<rparr>; s = (if \<not> authored then refresh_capabilities w ci [] vn scope s else s) in
           emitting w (audit_emit ci vn (no_event\<lparr>ev_project := sc_project scope, ev_env := sc_env scope,
             ev_kind := ''env_var'', ev_entry_name := name, ev_op := ''trust_self_authored'', ev_outcome := ''ok''\<rparr>)) s))"

definition forget_authored :: "plane_world \<Rightarrow> caller \<Rightarrow> string \<Rightarrow> vault_scope \<Rightarrow> string list \<Rightarrow> plane \<Rightarrow> plane" where
  "forget_authored w ci vn scope names s =
     (let key = authored_scope_key vn scope [] in
      case forget_author (pw_io w CallAuthorWrite) (ak_vault key) (ak_project key) (ak_env key) names (pn_authored s) of
        (Inl _, f) \<Rightarrow> s\<lparr>pn_authored := f\<rparr>
      | (Inr _, f) \<Rightarrow> refresh_capabilities w ci [] vn scope (s\<lparr>pn_authored := f\<rparr>))"

section \<open>What a trusted file says of a value\<close>

definition manifest_record :: "plane_world \<Rightarrow> bytes option \<Rightarrow> string \<Rightarrow> trust_record \<Rightarrow> bool" where
  "manifest_record w vkKey vn rec \<longleftrightarrow>
     is_v2 rec \<and> tr_snapshot rec \<noteq> [] \<and> default_if_empty (tr_vault rec) DefaultVaultName = vn \<and>
     (case vkKey of Some k \<Rightarrow> verify_vk_mac (wo_sha256 w) (wo_hmac w) rec k
      | None \<Rightarrow> verify_fp_mac (wo_sha256 w) (wo_hmac w) rec (case wo_fp_key w of None \<Rightarrow> [] | Some k \<Rightarrow> k))"

fun best_manifest :: "(trust_record \<Rightarrow> nat option) \<Rightarrow> nat \<Rightarrow> trust_record option \<Rightarrow> trust_record list \<Rightarrow> trust_record option" where
  "best_manifest spec best found [] = found"
| "best_manifest spec best found (rec # recs) =
     (case spec rec of None \<Rightarrow> best_manifest spec best found recs
      | Some n \<Rightarrow> if best < n then best_manifest spec n (Some rec) recs else best_manifest spec best found recs)"

definition trusted_manifest_for :: "plane_world \<Rightarrow> string \<Rightarrow> vault_scope \<Rightarrow> plane \<Rightarrow> byn_file option" where
  "trusted_manifest_for w vn scope s =
     (case load_store (pw_io w CallTrustLoad) (pn_trust s) of
        Inl _ \<Rightarrow> None
      | Inr records \<Rightarrow>
          (let vkKey = (case map_get (pn_vaults s) vn of None \<Rightarrow> None
                 | Some v \<Rightarrow> (case derive_subkey (pw_lib w) VKMACKeyInfo v of Inl _ \<Rightarrow> None | Inr k \<Rightarrow> Some k));
               spec = (\<lambda>rec. if manifest_record w vkKey vn rec
                 then specificity rec (default_if_empty (sc_project scope) DefaultProjectName)
                   (default_if_empty (sc_env scope) DefaultEnvName)
                 else None) in
           case best_manifest spec 0 None records of None \<Rightarrow> None | Some rec \<Rightarrow> pw_parse w (tr_snapshot rec)))"

definition manifest_description :: "plane_world \<Rightarrow> string \<Rightarrow> vault_scope \<Rightarrow> string \<Rightarrow> plane \<Rightarrow> string option" where
  "manifest_description w vn scope name s =
     (case trusted_manifest_for w vn scope s of None \<Rightarrow> None
      | Some f \<Rightarrow> (case map_get (bf_describe f) name of None \<Rightarrow> None | Some text \<Rightarrow> if text = [] then None else Some text))"

definition manifest_descriptions :: "plane_world \<Rightarrow> string \<Rightarrow> vault_scope \<Rightarrow> plane \<Rightarrow> string go_map" where
  "manifest_descriptions w vn scope s = (case trusted_manifest_for w vn scope s of None \<Rightarrow> [] | Some f \<Rightarrow> bf_describe f)"

record description_view =
  dv_text :: string
  dv_source :: string
  dv_author :: author_kind
  dv_comm :: string

definition describe_entry :: "plane_world \<Rightarrow> string \<Rightarrow> vault_scope \<Rightarrow> string \<Rightarrow> plane \<Rightarrow> description_view list" where
  "describe_entry w vn scope name s =
     (case entry_object_ref (pw_io w CallObject) scope name (store_of s vn) of
        Inl _ \<Rightarrow> []
      | Inr ref \<Rightarrow>
          (case get_description (pw_io w CallDescribe) ref (store_of s vn) of
             Inl _ \<Rightarrow> []
           | Inr a \<Rightarrow> [\<lparr>dv_text = ao_body a, dv_source = ''vault'', dv_author = ao_author a, dv_comm = ao_comm a\<rparr>])) @
     (case manifest_description w vn scope name s of
        None \<Rightarrow> [] | Some text \<Rightarrow> [\<lparr>dv_text = text, dv_source = ''.byn'', dv_author = AuthorOwner, dv_comm = []\<rparr>])"

end
