(* ===== verification/Plane_Values.thy ===== *)
theory Plane_Values
  imports Plane_Authors
begin

text \<open>
  The handlers of operations on values: \<open>handlePut\<close>, \<open>handleGet\<close>, \<open>handleList\<close>, \<open>handleDelete\<close>,
  \<open>handleEnvClear\<close> and \<open>handleRename\<close> of \<open>internal/daemon/dispatch.go\<close>, from the decoded request to the
  answer. An answer that cannot be encoded is not modelled.
\<close>

section \<open>Put\<close>

record put_req =
  pq_scope :: ipc_scope
  pq_name :: string
  pq_value :: bytes
  pq_create_only :: bool
  pq_description :: string
  pq_note :: string
  pq_password :: bytes
  pq_presence :: string

record put_resp =
  pp_unattended :: bool
  pp_created :: bool
  pp_annotated :: bool

text \<open>The function \<open>put\<close> inside of \<open>handlePut\<close>.\<close>

definition put_as ::
  "plane_world \<Rightarrow> vault_scope \<Rightarrow> put_req \<Rightarrow> bytes option \<Rightarrow> bool \<Rightarrow> vault \<Rightarrow> (vault_error + unit) \<times> vault" where
  "put_as w scope req authKey createOnly v =
     (let call = (if createOnly then CallPutCreate else CallPutOver); cl = pw_lib w; io = pw_io w call; draw = pw_draw w call in
      case authKey of
        Some k \<Rightarrow> put_authored cl io (pw_unix w) draw scope (pq_name req) (pq_value req) k createOnly v
      | None \<Rightarrow>
          if is_locked v \<and> length (pq_password req) > 0
          then put_env_var_with_password cl io (pw_unix w) draw (pq_password req) scope (pq_name req) (pq_value req) createOnly v
          else put_env_var cl io (pw_unix w) draw scope (pq_name req) (pq_value req) createOnly v)"

definition put_description :: "plane_world \<Rightarrow> object_ref \<Rightarrow> string \<Rightarrow> note_author \<Rightarrow> vault \<Rightarrow> bool \<times> vault" where
  "put_description w ref text author v =
     (if text = [] then (False, v)
      else case set_description (pw_limits w) (pw_io w CallDescription) (pw_unix w) (pw_draw w CallDescription) ref text author v of
        (r, v) \<Rightarrow> (r = Inr (), v))"

definition put_note ::
  "plane_world \<Rightarrow> object_ref \<Rightarrow> put_req \<Rightarrow> bytes option \<Rightarrow> note_author \<Rightarrow> vault \<Rightarrow> bool \<times> vault" where
  "put_note w ref req authKey author v =
     (if pq_note req = [] then (False, v)
      else
        (let cl = pw_lib w; lim = pw_limits w; io = pw_io w CallNote;
             draws = \<lparr>nd_uid = pw_draw w CallNoteId, nd_nonce = pw_draw w CallNote\<rparr> in
         case (case authKey of
             Some k \<Rightarrow> add_note_authored cl lim io (pw_unix w) draws ref (pq_note req) k author v
           | None \<Rightarrow>
               if is_locked v \<and> length (pq_password req) > 0
               then add_note_with_password cl lim io (pw_unix w) draws (pq_password req) ref (pq_note req) author v
               else add_note cl lim io (pw_unix w) draws ref (pq_note req) author v) of
           (Inl _, v) \<Rightarrow> (False, v) | (Inr _, v) \<Rightarrow> (True, v)))"

definition apply_put_annotations ::
  "plane_world \<Rightarrow> caller \<Rightarrow> vault_scope \<Rightarrow> put_req \<Rightarrow> bool \<Rightarrow> bool \<Rightarrow> bytes option \<Rightarrow> vault \<Rightarrow> bool \<times> vault" where
  "apply_put_annotations w ci scope req created attended authKey v =
     (if pq_description req = [] \<and> pq_note req = [] then (False, v)
      else if \<not> created \<and> \<not> attended then (False, v)
      else case entry_object_ref (pw_io w CallObject) scope (pq_name req) v of
        Inl _ \<Rightarrow> (False, v)
      | Inr ref \<Rightarrow>
          (let author = (if attended then owner_author else agent_author (ci_comm ci)) in
           case put_description w ref (pq_description req) author v of (described, v) \<Rightarrow>
           (case put_note w ref req authKey author v of (noted, v) \<Rightarrow> (described \<or> noted, v))))"

definition put_reply ::
  "plane_world \<Rightarrow> caller \<Rightarrow> vault_scope \<Rightarrow> put_req \<Rightarrow> bool \<Rightarrow> bytes option \<Rightarrow> vault_error + unit \<Rightarrow> bool \<Rightarrow> plane \<Rightarrow>
   (ipc_error + put_resp) \<times> plane" where
  "put_reply w ci scope req attended authKey r created s =
     (let sc = pq_scope req; vn = plane_vault sc; op = (if attended then ''put'' else ''put.unattended'') in
      case r of
        Inl e \<Rightarrow> audited w ci sc (pq_name req) op (Inl (map_vault_err e)) s
      | Inr _ \<Rightarrow>
          (let s = touching w (is_vault sc) s;
               s = (if created then record_authored w ci vn scope (pq_name req) (authKey \<noteq> None) (\<not> attended) s else s) in
           case on_store vn (apply_put_annotations w ci scope req created attended authKey) s of
             (annotated, s) \<Rightarrow>
               audited w ci sc (pq_name req) op
                 (Inr \<lparr>pp_unattended = \<not> attended \<and> authKey \<noteq> None, pp_created = created, pp_annotated = annotated\<rparr>) s))"

definition put_value ::
  "plane_world \<Rightarrow> registry \<Rightarrow> caller \<Rightarrow> vault_scope \<Rightarrow> put_req \<Rightarrow> bool \<Rightarrow> bytes option \<Rightarrow> plane \<Rightarrow>
   (ipc_error + put_resp) \<times> plane" where
  "put_value w reg ci scope req attended authKey s =
     (let sc = pq_scope req; vn = plane_vault sc; name = pq_name req in
      case on_store vn (put_as w scope req authKey True) s of (r, s) \<Rightarrow>
      if r = Inl ErrEntryExists \<and> \<not> pq_create_only req then
        (if own_unattended_value w ci vn scope name s \<and> \<not> demands_plane w vn scope ''update'' s then
           (case on_store vn (put_as w scope req authKey False) s of (r, s) \<Rightarrow>
              put_reply w ci scope req attended authKey r False
                (if r = Inr () then record_authored w ci vn scope name (authKey \<noteq> None) (\<not> attended) s else s))
         else
           (case authorize_plane w reg ci vn scope ''update'' (pq_password req) (pq_presence req) s of
              (Some e, s) \<Rightarrow> audited w ci sc name ''put'' (Inl e) s
            | (None, s) \<Rightarrow>
                (case on_store vn (put_as w scope req authKey False) s of (r, s) \<Rightarrow>
                   put_reply w ci scope req attended authKey r False
                     (if r = Inr () then forget_authored w ci vn scope [name] s else s))))
      else put_reply w ci scope req attended authKey r (r = Inr ()) s)"

definition handle_put ::
  "plane_world \<Rightarrow> registry \<Rightarrow> caller \<Rightarrow> put_req \<Rightarrow> plane \<Rightarrow> (ipc_error + put_resp) \<times> plane" where
  "handle_put w reg ci req s =
     (let sc = pq_scope req; vn = plane_vault sc; name = pq_name req; password = pq_password req; presence = pq_presence req in
      case plane_scope w sc s of
        (Inl e, s) \<Rightarrow> audited w ci sc name ''put'' (Inl e) s
      | (Inr (_, scope), s) \<Rightarrow>
          (case attended_plane w ci vn password presence s of (attended, s) \<Rightarrow>
             if \<not> attended \<and> \<not> unattended_put_allowed w vn scope name s then
               audited w ci sc name ''put.unattended'' (Inl (new_error CodeAuthRequired)) s
             else
               (let authKey = (if \<not> attended then authored_key_plane w vn scope s else None) in
                if is_locked (store_of s vn) \<and> authKey = None \<and> length password = 0 then
                  (case authorize_plane w reg ci vn scope ''update'' password presence s of
                     (Some e, s) \<Rightarrow> audited w ci sc name ''put'' (Inl e) s
                   | (None, s) \<Rightarrow> audited w ci sc name ''put'' (Inl (new_error CodeLocked)) s)
                else put_value w reg ci scope req attended authKey s)))"

section \<open>Get\<close>

record get_req =
  gq_scope :: ipc_scope
  gq_name :: string
  gq_password :: bytes
  gq_presence :: string

record get_resp =
  gp_name :: string
  gp_value :: bytes
  gp_source :: source
  gp_created :: "int option"
  gp_updated :: "int option"
  gp_descriptions :: "description_view list"

definition get_reply :: "plane_world \<Rightarrow> caller \<Rightarrow> vault_scope \<Rightarrow> get_req \<Rightarrow> get_resp \<Rightarrow> plane \<Rightarrow> (ipc_error + get_resp) \<times> plane" where
  "get_reply w ci scope req got s =
     (let sc = gq_scope req; s = touching w (is_vault sc) s in
      audited w ci sc (gq_name req) ''get''
        (Inr (got\<lparr>gp_descriptions := describe_entry w (plane_vault sc) scope (gp_name got) s\<rparr>)) s)"

definition got_entry :: "entry \<Rightarrow> get_resp" where
  "got_entry n = \<lparr>gp_name = nv_name n, gp_value = nv_value n, gp_source = nv_source n,
     gp_created = Some (nv_created n), gp_updated = Some (nv_updated n), gp_descriptions = []\<rparr>"

definition got_authored :: "string \<Rightarrow> bytes \<Rightarrow> get_resp" where
  "got_authored name val = \<lparr>gp_name = name, gp_value = val, gp_source = SourceScope, gp_created = None,
     gp_updated = None, gp_descriptions = []\<rparr>"

definition read_value :: "plane_world \<Rightarrow> vault_scope \<Rightarrow> get_req \<Rightarrow> vault \<Rightarrow> vault_error + entry" where
  "read_value w scope req v =
     (if is_locked v \<and> length (gq_password req) > 0
      then get_env_var_with_password (pw_lib w) (pw_io w CallGet) (gq_password req) scope (gq_name req) v
      else get_env_var (pw_lib w) (pw_io w CallGet) scope (gq_name req) v)"

definition handle_get ::
  "plane_world \<Rightarrow> registry \<Rightarrow> caller \<Rightarrow> get_req \<Rightarrow> plane \<Rightarrow> (ipc_error + get_resp) \<times> plane" where
  "handle_get w reg ci req s =
     (let sc = gq_scope req; vn = plane_vault sc; name = gq_name req in
      case plane_scope w sc s of
        (Inl e, s) \<Rightarrow> audited w ci sc name ''get'' (Inl e) s
      | (Inr (_, scope), s) \<Rightarrow>
          (let mine = (own_unattended_value w ci vn scope name s \<and> \<not> demands_plane w vn scope ''get'' s) in
           case read_authored w vn scope name mine s of
             Some val \<Rightarrow> get_reply w ci scope req (got_authored name val) s
           | None \<Rightarrow>
               (case (if \<not> mine \<or> is_locked (store_of s vn)
                      then authorize_plane w reg ci vn scope ''get'' (gq_password req) (gq_presence req) s else (None, s)) of
                  (Some e, s) \<Rightarrow> audited w ci sc name ''get'' (Inl e) s
                | (None, s) \<Rightarrow>
                    (case read_value w scope req (store_of s vn) of
                       Inl e \<Rightarrow> audited w ci sc name ''get'' (Inl (map_vault_err e)) s
                     | Inr n \<Rightarrow> get_reply w ci scope req (got_entry n) s))))"

section \<open>List\<close>

record secret_meta =
  sm_info :: entry_info
  sm_empty :: "bool option"
  sm_unattended :: bool
  sm_unattended_inherited :: bool
  sm_description :: string
  sm_author :: "author_kind option"
  sm_comm :: string
  sm_description_source :: string
  sm_notes :: nat

definition unattended_here :: "plane_world \<Rightarrow> ipc_scope \<Rightarrow> vault_scope \<Rightarrow> plane \<Rightarrow> string list" where
  "unattended_here w sc scope s =
     (let k = authored_scope_key (is_vault sc) scope [] in
      unattended_names_for (pw_io w CallAuthorNames) (ak_vault k) (ak_project k) (ak_env k) (pn_authored s))"

definition unattended_inherited :: "plane_world \<Rightarrow> ipc_scope \<Rightarrow> vault_scope \<Rightarrow> plane \<Rightarrow> string list" where
  "unattended_inherited w sc scope s =
     (if default_if_empty (sc_env scope) DefaultEnvName = DefaultEnvName then []
      else unattended_here w sc (scope\<lparr>sc_env := DefaultEnvName\<rparr>) s)"

definition secret_meta_of ::
  "bool \<Rightarrow> string list \<Rightarrow> string list \<Rightarrow> entry_annotation go_map \<Rightarrow> string go_map \<Rightarrow> entry_info \<Rightarrow> secret_meta" where
  "secret_meta_of unlocked unattended inherited annotations manifest m =
     (let a = map_get annotations (ei_name m);
          desc = (case a of None \<Rightarrow> [] | Some a \<Rightarrow> ea_description a);
          text = (if desc = [] then map_get manifest (ei_name m) else None);
          inh = (ei_name m \<in> set inherited \<and> ei_source m = SourceDefault) in
      \<lparr>sm_info = m, sm_empty = (if unlocked then Some (ei_empty m) else None),
        sm_unattended = (ei_name m \<in> set unattended \<and> ei_source m = SourceScope \<or> inh), sm_unattended_inherited = inh,
        sm_description = (case text of None \<Rightarrow> desc | Some t \<Rightarrow> t),
        sm_author = (case text of None \<Rightarrow> (case a of None \<Rightarrow> None | Some a \<Rightarrow> ea_author a) | Some _ \<Rightarrow> Some AuthorOwner),
        sm_comm = (case a of None \<Rightarrow> [] | Some a \<Rightarrow> ea_comm a),
        sm_description_source = (case text of None \<Rightarrow> [] | Some _ \<Rightarrow> ''.byn''),
        sm_notes = (case a of None \<Rightarrow> 0 | Some a \<Rightarrow> ea_notes a)\<rparr>)"

definition handle_list :: "plane_world \<Rightarrow> ipc_scope \<Rightarrow> plane \<Rightarrow> (ipc_error + secret_meta list) \<times> plane" where
  "handle_list w sc s =
     (case plane_scope w sc s of
        (Inl e, s) \<Rightarrow> (Inl e, s)
      | (Inr (_, scope), s) \<Rightarrow>
          (let vn = plane_vault sc; v = store_of s vn in
           case list_env_vars (pw_lib w) (pw_io w CallList) scope v of
             Inl e \<Rightarrow> (Inl (map_vault_err e), s)
           | Inr infos \<Rightarrow>
               (case entry_annotations (pw_io w CallSummaries) scope v of
                  Inl e \<Rightarrow> (Inl (map_vault_err e), s)
                | Inr annotations \<Rightarrow>
                    (Inr (map (secret_meta_of (\<not> is_locked v) (unattended_here w sc scope s) (unattended_inherited w sc scope s)
                       annotations (manifest_descriptions w vn scope s)) infos), s))))"

section \<open>Delete, clear and rename\<close>

record delete_req =
  dq_scope :: ipc_scope
  dq_name :: string
  dq_password :: bytes
  dq_presence :: string

definition delete_value ::
  "plane_world \<Rightarrow> caller \<Rightarrow> vault_scope \<Rightarrow> delete_req \<Rightarrow> bool \<Rightarrow> plane \<Rightarrow> (ipc_error + unit) \<times> plane" where
  "delete_value w ci scope req mine s =
     (let sc = dq_scope req; vn = plane_vault sc; name = dq_name req; op = (if mine then ''delete.unattended'' else ''delete'') in
      case on_store vn (delete_env_var (pw_io w CallDelete) scope name) s of
        (Inl e, s) \<Rightarrow> audited w ci sc name op (Inl (map_vault_err e)) s
      | (Inr _, s) \<Rightarrow>
          audited w ci sc name op (Inr ()) (forget_authored w ci vn scope [name] (touching w (is_vault sc) s)))"

definition handle_delete ::
  "plane_world \<Rightarrow> registry \<Rightarrow> caller \<Rightarrow> delete_req \<Rightarrow> plane \<Rightarrow> (ipc_error + unit) \<times> plane" where
  "handle_delete w reg ci req s =
     (let sc = dq_scope req; vn = plane_vault sc; name = dq_name req in
      case plane_scope w sc s of
        (Inl e, s) \<Rightarrow> audited w ci sc name ''delete'' (Inl e) s
      | (Inr (_, scope), s) \<Rightarrow>
          if has_env_var (pw_io w CallHas) scope name (store_of s vn) = Inr False then
            audited w ci sc name ''delete'' (Inl (new_error CodeNotFound)) s
          else
            (let mine = (may_delete_unattended w ci vn scope name s \<and> \<not> demands_plane w vn scope ''delete'' s) in
             case authorize_plane w reg ci vn scope ''delete'' (dq_password req) (dq_presence req) s of
               (Some e, s) \<Rightarrow> if mine then delete_value w ci scope req mine s else audited w ci sc name ''delete'' (Inl e) s
             | (None, s) \<Rightarrow> delete_value w ci scope req mine s))"

record clear_req =
  cq_scope :: ipc_scope
  cq_password :: bytes
  cq_presence :: string

definition handle_env_clear ::
  "plane_world \<Rightarrow> registry \<Rightarrow> caller \<Rightarrow> clear_req \<Rightarrow> plane \<Rightarrow> (ipc_error + nat) \<times> plane" where
  "handle_env_clear w reg ci req s =
     (let sc = cq_scope req; vn = plane_vault sc in
      case plane_scope w sc s of
        (Inl e, s) \<Rightarrow> audited w ci sc ''*'' ''clear'' (Inl e) s
      | (Inr (_, scope), s) \<Rightarrow>
          (case authorize_plane w reg ci vn scope ''delete'' (cq_password req) (cq_presence req) s of
             (Some e, s) \<Rightarrow> audited w ci sc ''*'' ''clear'' (Inl e) s
           | (None, s) \<Rightarrow>
               (case on_store vn (clear_env_vars (pw_io w CallClear) scope) s of
                  (Inl e, s) \<Rightarrow> audited w ci sc ''*'' ''clear'' (Inl (map_vault_err e)) s
                | (Inr n, s) \<Rightarrow> audited w ci sc ''*'' ''clear'' (Inr n) (touching w (is_vault sc) s))))"

record rename_req =
  nq_scope :: ipc_scope
  nq_old :: string
  nq_new :: string
  nq_password :: bytes
  nq_presence :: string

definition arrow :: string where "arrow = [CHR 0xE2, CHR 0x86, CHR 0x92]"

definition handle_rename ::
  "plane_world \<Rightarrow> registry \<Rightarrow> caller \<Rightarrow> rename_req \<Rightarrow> plane \<Rightarrow> (ipc_error + unit) \<times> plane" where
  "handle_rename w reg ci req s =
     (let sc = nq_scope req; vn = plane_vault sc; old = nq_old req; new = nq_new req in
      case plane_scope w sc s of
        (Inl e, s) \<Rightarrow> audited w ci sc old ''rename'' (Inl e) s
      | (Inr (_, scope), s) \<Rightarrow>
          (case authorize_plane w reg ci vn scope ''update'' (nq_password req) (nq_presence req) s of
             (Some e, s) \<Rightarrow> audited w ci sc old ''rename'' (Inl e) s
           | (None, s) \<Rightarrow>
               if is_locked (store_of s vn) then audited w ci sc old ''rename'' (Inl (new_error CodeLocked)) s
               else
                 (case on_store vn (rename_env_var (pw_lib w) (pw_io w CallRename) (pw_unix w) (pw_draw w CallRename) scope old new) s of
                    (Inl e, s) \<Rightarrow> audited w ci sc (old @ arrow @ new) ''rename'' (Inl (map_vault_err e)) s
                  | (Inr _, s) \<Rightarrow>
                      audited w ci sc (old @ arrow @ new) ''rename'' (Inr ())
                        (forget_authored w ci vn scope [old, new] (touching w (is_vault sc) s)))))"

end
