(* ===== verification/Plane_Structure.thy ===== *)
theory Plane_Structure
  imports Plane_Values
begin

text \<open>
  The handlers of \<open>internal/daemon/dispatch.go\<close> for locking and unlocking, projects and environments, and
  those of \<open>internal/daemon/unattended.go\<close> that list the values taken in unattended and bring them
  under the password.
\<close>

section \<open>Unlocking and locking\<close>

definition no_caller :: caller where
  "no_caller = \<lparr>ci_uid = 0, ci_pid = 0, ci_tty = 0, ci_comm = [], ci_pcomm = [], ci_surface = [], ci_session = []\<rparr>"

definition op_event :: "string \<Rightarrow> string \<Rightarrow> code option \<Rightarrow> event" where
  "op_event op outcome c = no_event\<lparr>ev_op := op, ev_outcome := outcome, ev_error_code := (case c of None \<Rightarrow> [] | Some c \<Rightarrow> code_string c)\<rparr>"

text \<open>\<open>mintSessionForSocket\<close> and \<open>mintSessionForPortal\<close> with \<open>auditSession\<close>.\<close>

definition mint_for :: "plane_world \<Rightarrow> caller \<Rightarrow> string \<Rightarrow> daemon \<Rightarrow> string \<times> daemon" where
  "mint_for w ci name d =
     (let portal = (ci_surface ci = ''portal'');
          surface = (if portal then ''portal'' else ''cli'');
          uid = (if portal then pw_owner w else ci_uid ci);
          tty = (if portal then 0 else pw_peer_tty w (ci_pid ci));
          d = audit_emit no_caller name ((op_event ''session.mint'' ''ok'' None)\<lparr>ev_caller_surface := surface\<rparr>) d in
      case mint_session (pw_token w) name surface uid tty (wo_now w) (dm_sessions d) of
        (tok, ss) \<Rightarrow> (tok, d\<lparr>dm_sessions := ss\<rparr>))"

definition failed_guess :: "plane_world \<Rightarrow> daemon \<Rightarrow> daemon" where
  "failed_guess w d = d\<lparr>dm_limiter := snd (record_failure (wo_limiter_io w) (wo_now w) (dm_limiter d))\<rparr>"

definition handle_vault_unlock :: "plane_world \<Rightarrow> caller \<Rightarrow> string \<Rightarrow> bytes \<Rightarrow> plane \<Rightarrow> (ipc_error + string) \<times> plane" where
  "handle_vault_unlock w ci rawName password s =
     (let name = default_if_empty rawName DefaultVaultName in
      if \<not> vault_name_re name then (Inl (new_error CodeBadName), s)
      else if check_limiter (wo_now w) (dm_limiter (pn_daemon s)) \<noteq> None then (Inl (new_error CodeRateLimited), s)
      else case plane_store w name s of
        (Inl _, s) \<Rightarrow> (Inl (new_error CodeWrongPassword), emitting w (failed_guess w) s)
      | (Inr _, s) \<Rightarrow>
          (case on_store name (unlock_vault (pw_lib w) password) s of
             (Inl _, s) \<Rightarrow>
               (Inl (new_error CodeWrongPassword),
                emitting w (\<lambda>d. audit_emit ci name (op_event ''vault.unlock'' ''denied'' (Some CodeWrongPassword)) (failed_guess w d)) s)
           | (Inr _, s) \<Rightarrow>
               (case gate w (\<lambda>gw d. mint_for w ci name
                   (audit_emit ci name (op_event ''vault.unlock'' ''ok'' None)
                     (touch_vault name (d\<lparr>dm_limiter := snd (record_success (wo_limiter_io w) (dm_limiter d))\<rparr>)))) s of
                  (tok, s) \<Rightarrow> (Inr tok, s))))"

text \<open>One vault locked, its sessions ended, each end recorded.\<close>

definition lock_one :: "plane_world \<Rightarrow> caller \<Rightarrow> string \<Rightarrow> plane \<Rightarrow> nat \<times> plane" where
  "lock_one w ci name s =
     (case map_get (pn_vaults s) name of
        None \<Rightarrow> (0, s)
      | Some v \<Rightarrow>
          if is_locked v then (0, s)
          else
            (let s = s\<lparr>pn_vaults := map_put (pn_vaults s) name (lock_vault v)\<rparr> in
             (1, emitting w (\<lambda>d.
                case end_vault name (dm_sessions d) of (surfaces, ss) \<Rightarrow>
                  fold (\<lambda>surface d. audit_emit ci name ((op_event ''session.end'' ''ok'' None)\<lparr>ev_caller_surface := surface\<rparr>) d)
                    surfaces (d\<lparr>dm_sessions := ss\<rparr>)) s)))"

fun lock_all :: "plane_world \<Rightarrow> caller \<Rightarrow> string list \<Rightarrow> plane \<Rightarrow> nat \<times> plane" where
  "lock_all w ci [] s = (0, s)"
| "lock_all w ci (name # names) s =
     (case lock_one w ci name s of (n, s) \<Rightarrow> (case lock_all w ci names s of (m, s) \<Rightarrow> (n + m, s)))"

text \<open>The order in which all vaults are locked is that of the map, here of the list.\<close>

definition handle_vault_lock :: "plane_world \<Rightarrow> caller \<Rightarrow> string \<Rightarrow> plane \<Rightarrow> (ipc_error + nat) \<times> plane" where
  "handle_vault_lock w ci rawName s =
     (if rawName = ''*'' then (case lock_all w ci (map fst (pn_vaults s)) s of (n, s) \<Rightarrow> (Inr n, s))
      else
        (let name = default_if_empty rawName DefaultVaultName in
         if \<not> vault_name_re name then (Inl (new_error CodeBadName), s)
         else (case lock_one w ci name s of (n, s) \<Rightarrow> (Inr n, s))))"

definition handle_session_end :: "plane_world \<Rightarrow> caller \<Rightarrow> plane \<Rightarrow> plane" where
  "handle_session_end w ci s =
     (if ci_session ci = [] then s
      else emitting w (\<lambda>d. case end_token (ci_session ci) (dm_sessions d) of ((vn, _), ss) \<Rightarrow>
        audit_emit ci (default_if_empty vn DefaultVaultName) (op_event ''session.end'' ''ok'' None) (d\<lparr>dm_sessions := ss\<rparr>)) s)"

section \<open>Projects\<close>

definition unlocked_store :: "plane_world \<Rightarrow> string \<Rightarrow> plane \<Rightarrow> (ipc_error + vault) \<times> plane" where
  "unlocked_store w name s =
     (case plane_store w name s of
        (Inl e, s) \<Rightarrow> (Inl e, s)
      | (Inr v, s) \<Rightarrow> if is_locked v then (Inl (new_error CodeLocked), s) else (Inr v, s))"

definition author_for :: "plane_world \<Rightarrow> caller \<Rightarrow> string \<Rightarrow> bytes \<Rightarrow> string \<Rightarrow> plane \<Rightarrow> note_author \<times> plane" where
  "author_for w ci vn password presence s =
     (case attended_plane w ci vn password presence s of
        (attended, s) \<Rightarrow> (if attended then owner_author else agent_author (ci_comm ci), s))"

text \<open>The description given with a new project or environment; whether it could be stored is ignored.\<close>

definition describe_new ::
  "plane_world \<Rightarrow> caller \<Rightarrow> string \<Rightarrow> vault_error + object_ref \<Rightarrow> string \<Rightarrow> plane \<Rightarrow> plane" where
  "describe_new w ci vn ref text s =
     (if text = [] then s
      else case ref of
        Inl _ \<Rightarrow> s
      | Inr ref \<Rightarrow>
          (case author_for w ci vn [] [] s of (author, s) \<Rightarrow>
             snd (on_store vn (set_description (pw_limits w) (pw_io w CallDescription) (pw_unix w) (pw_draw w CallDescription) ref text author) s)))"

definition handle_project_create ::
  "plane_world \<Rightarrow> caller \<Rightarrow> string \<Rightarrow> string \<Rightarrow> string \<Rightarrow> plane \<Rightarrow> (ipc_error + unit) \<times> plane" where
  "handle_project_create w ci rawVault name text s =
     (let vn = default_if_empty rawVault DefaultVaultName in
      case unlocked_store w rawVault s of
        (Inl e, s) \<Rightarrow> (Inl e, s)
      | (Inr _, s) \<Rightarrow>
          (case on_store vn (create_project (pw_io w CallStructure) (pw_unix w) name) s of
             (Inl e, s) \<Rightarrow> (Inl (map_vault_err e), s)
           | (Inr _, s) \<Rightarrow>
               (Inr (), describe_new w ci vn (project_object_ref (pw_io w CallObject) name (store_of s vn)) text s)))"

definition handle_project_list :: "plane_world \<Rightarrow> string \<Rightarrow> plane \<Rightarrow> (ipc_error + (string \<times> int \<times> int) list) \<times> plane" where
  "handle_project_list w rawVault s =
     (case plane_store w rawVault s of
        (Inl e, s) \<Rightarrow> (Inl e, s)
      | (Inr v, s) \<Rightarrow>
          (case list_projects (pw_io w CallStructure) v of
             Inl e \<Rightarrow> (Inl (new_error CodeInternal), s)
           | Inr ps \<Rightarrow> (Inr (map (\<lambda>p. (pj_name p, pj_created p, pj_updated p)) ps), s)))"

text \<open>
  What the four gated operations on projects and environments share: the gate for a scope and an
  action, the refusal in the log, the operation, its success in the log.
\<close>

definition gated_op ::
  "plane_world \<Rightarrow> registry \<Rightarrow> caller \<Rightarrow> string \<Rightarrow> vault_scope \<Rightarrow> string \<Rightarrow> bytes \<Rightarrow> string \<Rightarrow> string \<Rightarrow>
   (vault \<Rightarrow> (vault_error + unit) \<times> vault) \<Rightarrow> plane \<Rightarrow> (ipc_error + unit) \<times> plane" where
  "gated_op w reg ci rawVault scope action password presence op f s =
     (let vn = default_if_empty rawVault DefaultVaultName in
      case plane_store w rawVault s of
        (Inl e, s) \<Rightarrow> (Inl e, s)
      | (Inr _, s) \<Rightarrow>
          (case authorize_plane w reg ci vn scope action password presence s of
             (Some e, s) \<Rightarrow> (Inl e, emitting w (audit_emit ci vn (op_event op ''denied'' (Some (er_code e)))) s)
           | (None, s) \<Rightarrow>
               (case on_store vn f s of
                  (Inl e, s) \<Rightarrow> (Inl (map_vault_err e), s)
                | (Inr _, s) \<Rightarrow> (Inr (), emitting w (audit_emit ci vn (op_event op ''ok'' None)) s))))"

definition handle_project_delete ::
  "plane_world \<Rightarrow> registry \<Rightarrow> caller \<Rightarrow> string \<Rightarrow> string \<Rightarrow> bytes \<Rightarrow> string \<Rightarrow> plane \<Rightarrow> (ipc_error + unit) \<times> plane" where
  "handle_project_delete w reg ci rawVault name password presence s =
     (if name = DefaultProjectName then (Inl (new_error CodeBadRequest), s)
      else gated_op w reg ci rawVault \<lparr>sc_project = name, sc_env = []\<rparr> ''delete'' password presence ''project.delete''
        (delete_project (pw_io w CallStructure) name) s)"

definition handle_project_rename ::
  "plane_world \<Rightarrow> registry \<Rightarrow> caller \<Rightarrow> string \<Rightarrow> string \<Rightarrow> string \<Rightarrow> bytes \<Rightarrow> string \<Rightarrow> plane \<Rightarrow> (ipc_error + unit) \<times> plane" where
  "handle_project_rename w reg ci rawVault old new password presence s =
     (if old = DefaultProjectName then (Inl (new_error CodeBadRequest), s)
      else gated_op w reg ci rawVault \<lparr>sc_project = old, sc_env = []\<rparr> ''update'' password presence ''project.rename''
        (rename_project (pw_io w CallStructure) (pw_unix w) old new) s)"

section \<open>Environments\<close>

definition handle_env_create ::
  "plane_world \<Rightarrow> caller \<Rightarrow> string \<Rightarrow> string \<Rightarrow> string \<Rightarrow> string \<Rightarrow> plane \<Rightarrow> (ipc_error + unit) \<times> plane" where
  "handle_env_create w ci rawVault rawProject name text s =
     (let vn = default_if_empty rawVault DefaultVaultName; project = default_if_empty rawProject DefaultProjectName in
      case unlocked_store w rawVault s of
        (Inl e, s) \<Rightarrow> (Inl e, s)
      | (Inr _, s) \<Rightarrow>
          (case on_store vn (create_env (pw_io w CallStructure) (pw_unix w) project name) s of
             (Inl e, s) \<Rightarrow> (Inl (map_vault_err e), s)
           | (Inr _, s) \<Rightarrow>
               (Inr (), describe_new w ci vn (env_object_ref (pw_io w CallObject) project name (store_of s vn)) text s)))"

definition handle_env_list ::
  "plane_world \<Rightarrow> string \<Rightarrow> string \<Rightarrow> plane \<Rightarrow> (ipc_error + (string \<times> bool \<times> int \<times> int) list) \<times> plane" where
  "handle_env_list w rawVault rawProject s =
     (case plane_store w rawVault s of
        (Inl e, s) \<Rightarrow> (Inl e, s)
      | (Inr v, s) \<Rightarrow>
          (case list_envs (pw_io w CallStructure) (default_if_empty rawProject DefaultProjectName) v of
             Inl e \<Rightarrow> (Inl (map_vault_err e), s)
           | Inr es \<Rightarrow> (Inr (map (\<lambda>e. (en_name e, en_default e, en_created e, en_updated e)) es), s)))"

definition handle_env_delete ::
  "plane_world \<Rightarrow> registry \<Rightarrow> caller \<Rightarrow> string \<Rightarrow> string \<Rightarrow> string \<Rightarrow> bytes \<Rightarrow> string \<Rightarrow> plane \<Rightarrow> (ipc_error + unit) \<times> plane" where
  "handle_env_delete w reg ci rawVault rawProject name password presence s =
     (let project = default_if_empty rawProject DefaultProjectName in
      gated_op w reg ci rawVault \<lparr>sc_project = project, sc_env = name\<rparr> ''delete'' password presence ''env.delete''
        (delete_env (pw_io w CallStructure) project name) s)"

definition handle_env_rename ::
  "plane_world \<Rightarrow> registry \<Rightarrow> caller \<Rightarrow> string \<Rightarrow> string \<Rightarrow> string \<Rightarrow> string \<Rightarrow> bytes \<Rightarrow> string \<Rightarrow> plane \<Rightarrow>
   (ipc_error + unit) \<times> plane" where
  "handle_env_rename w reg ci rawVault rawProject old new password presence s =
     (let project = default_if_empty rawProject DefaultProjectName in
      gated_op w reg ci rawVault \<lparr>sc_project = project, sc_env = old\<rparr> ''update'' password presence ''env.rename''
        (rename_env (pw_io w CallStructure) (pw_unix w) project old new) s)"

section \<open>Values stored unattended\<close>

type_synonym unattended_item = "string \<times> string \<times> string"

datatype skip_reason = NotUnattended | InheritedFromDefault | AlreadyProtected

definition handle_unattended_list :: "plane_world \<Rightarrow> string \<Rightarrow> plane \<Rightarrow> (ipc_error + unattended_item list) \<times> plane" where
  "handle_unattended_list w rawVault s =
     (case plane_store w rawVault s of
        (Inl e, s) \<Rightarrow> (Inl e, s)
      | (Inr v, s) \<Rightarrow>
          (case list_unattended (pw_io w CallUnattended) v of Inl e \<Rightarrow> (Inl (map_vault_err e), s) | Inr items \<Rightarrow> (Inr items, s)))"

definition select_unattended ::
  "unattended_item list \<Rightarrow> vault_scope \<Rightarrow> string list \<Rightarrow> bool \<Rightarrow> unattended_item list \<times> (string \<times> skip_reason) list" where
  "select_unattended all scope names everything =
     (if everything then (all, [])
      else
        (let project = default_if_empty (sc_project scope) DefaultProjectName;
             env = default_if_empty (sc_env scope) DefaultEnvName;
             here = (\<lambda>n. (project, env, n) \<in> set all) in
         if names = [] then
           (sort_key (snd \<circ> snd) (remdups (filter (\<lambda>u. fst u = project \<and> fst (snd u) = env) all)), [])
         else
           (map (\<lambda>n. (project, env, n)) (filter here names),
            map (\<lambda>n. (n, if (project, DefaultEnvName, n) \<in> set all then InheritedFromDefault else NotUnattended))
              (filter (\<lambda>n. \<not> here n) names))))"

record import_req =
  iq_scope :: ipc_scope
  iq_names :: "string list"
  iq_all :: bool
  iq_dry_run :: bool
  iq_password :: bytes
  iq_presence :: string

type_synonym import_resp = "unattended_item list \<times> (string \<times> skip_reason) list"

definition item_scope :: "unattended_item \<Rightarrow> vault_scope" where
  "item_scope t = \<lparr>sc_project = fst t, sc_env = fst (snd t)\<rparr>"

definition seal_item :: "plane_world \<Rightarrow> bytes option \<Rightarrow> unattended_item \<Rightarrow> vault \<Rightarrow> (vault_error + bool) \<times> vault" where
  "seal_item w vk t v =
     (let cl = pw_lib w; io = pw_io w CallUnattended; draw = pw_draw w (CallCapture (fst (snd t)) (snd (snd t))) in
      case vk of
        Some k \<Rightarrow> seal_unattended_with_key cl io draw k (item_scope t) (snd (snd t)) v
      | None \<Rightarrow> seal_unattended cl io draw (item_scope t) (snd (snd t)) v)"

definition forget_quietly :: "plane_world \<Rightarrow> string \<Rightarrow> vault_scope \<Rightarrow> string \<Rightarrow> plane \<Rightarrow> plane" where
  "forget_quietly w vn scope name s =
     (let k = authored_scope_key vn scope [] in
      s\<lparr>pn_authored := snd (forget_author (pw_io w CallAuthorWrite) (ak_vault k) (ak_project k) (ak_env k) [name] (pn_authored s))\<rparr>)"

text \<open>The loop over the targets: an error ends the request, with what was imported before kept.\<close>

fun import_loop ::
  "plane_world \<Rightarrow> caller \<Rightarrow> string \<Rightarrow> bytes option \<Rightarrow> unattended_item list \<Rightarrow> import_resp \<Rightarrow> plane \<Rightarrow>
   (ipc_error + import_resp) \<times> plane" where
  "import_loop w ci vn vk [] out s = (Inr out, s)"
| "import_loop w ci vn vk (t # ts) (imported, skipped) s =
     (let name = snd (snd t); sc = \<lparr>is_vault = vn, is_project = fst t, is_env = fst (snd t)\<rparr> in
      case on_store vn (seal_item w vk t) s of
        (Inl e, s) \<Rightarrow>
          (Inl (map_vault_err e), audit_plane w ci sc ''env_var'' name ''import.unattended'' (Some (map_vault_err e)) s)
      | (Inr False, s) \<Rightarrow> import_loop w ci vn vk ts (imported, skipped @ [(name, AlreadyProtected)]) s
      | (Inr True, s) \<Rightarrow>
          import_loop w ci vn vk ts (imported @ [t], skipped)
            (audit_plane w ci sc ''env_var'' name ''import.unattended'' None (forget_quietly w vn (item_scope t) name s)))"

definition import_all ::
  "plane_world \<Rightarrow> caller \<Rightarrow> import_req \<Rightarrow> bytes option \<Rightarrow> unattended_item list \<Rightarrow> (string \<times> skip_reason) list \<Rightarrow> plane \<Rightarrow>
   (ipc_error + import_resp) \<times> plane" where
  "import_all w ci req vk targets skipped s =
     (let vn = plane_vault (iq_scope req) in
      case import_loop w ci vn vk targets ([], skipped) s of
        (Inl e, s) \<Rightarrow> (Inl e, s)
      | (Inr (imported, skipped), s) \<Rightarrow>
          (Inr (imported, skipped),
           fold (\<lambda>scope. refresh_capabilities w ci (case vk of None \<Rightarrow> [] | Some k \<Rightarrow> k) vn scope)
             (remdups (map item_scope imported)) (touching w (is_vault (iq_scope req)) s)))"

definition handle_unattended_import ::
  "plane_world \<Rightarrow> registry \<Rightarrow> caller \<Rightarrow> import_req \<Rightarrow> plane \<Rightarrow> (ipc_error + import_resp) \<times> plane" where
  "handle_unattended_import w reg ci req s =
     (let sc = iq_scope req; vn = plane_vault sc in
      case plane_scope w sc s of
        (Inl e, s) \<Rightarrow> (Inl e, s)
      | (Inr (v, scope), s) \<Rightarrow>
          (case list_unattended (pw_io w CallUnattended) v of
             Inl e \<Rightarrow> (Inl (map_vault_err e), s)
           | Inr all \<Rightarrow>
               (case select_unattended all scope (iq_names req) (iq_all req) of (targets, skipped) \<Rightarrow>
                if iq_dry_run req \<or> targets = [] then (Inr (targets, skipped), s)
                else
                  (case authorize_plane w reg ci vn scope ''update'' (iq_password req) (iq_presence req) s of
                     (Some e, s) \<Rightarrow> (Inl e, audit_plane w ci sc ''env_var'' ''*'' ''import.unattended'' (Some e) s)
                   | (None, s) \<Rightarrow>
                       if \<not> is_locked (store_of s vn) then import_all w ci req None targets skipped s
                       else if length (iq_password req) = 0 then (Inl (new_error CodeLocked), s)
                       else (case unwrap_vault_key (pw_lib w) (iq_password req) (store_of s vn) of
                           Inl e \<Rightarrow> (Inl (map_vault_err e), s)
                         | Inr k \<Rightarrow> import_all w ci req (Some k) targets skipped s)))))"

end
