(* ===== verification/Plane_Notes.thy ===== *)
theory Plane_Notes
  imports Plane_Structure
begin

text \<open>
  The handlers of \<open>internal/daemon/annotation.go\<close>. The object a caller names is resolved in the scope the
  gate was asked about, though it may lie outside of it. A kind of object that is none of the code's is
  \<open>None\<close>; the times of an answer stay seconds.
\<close>

section \<open>The object and the errors\<close>

record annotation_target =
  at_type :: "object_type option"
  at_raw_type :: string
  at_name :: string
  at_id :: int

definition resolve_target ::
  "plane_world \<Rightarrow> vault_scope \<Rightarrow> annotation_target \<Rightarrow> vault \<Rightarrow> vault_error + object_ref" where
  "resolve_target w scope t v =
     (let io = pw_io w CallObject in
      case at_type t of
        None \<Rightarrow> Inl ErrNotAnnotatable
      | Some ObjectEntry \<Rightarrow> entry_object_ref io scope (at_name t) v
      | Some ObjectProject \<Rightarrow> project_object_ref io (default_if_empty (at_name t) (sc_project scope)) v
      | Some ObjectEnv \<Rightarrow> env_object_ref io (sc_project scope) (default_if_empty (at_name t) (sc_env scope)) v
      | Some ObjectVault \<Rightarrow> Inr (vault_object_ref v)
      | Some k \<Rightarrow> if at_id t \<le> 0 then Inl ErrNotAnnotatable else Inr (plain_object k (at_id t)))"

definition annotation_target_label :: "annotation_target \<Rightarrow> string" where
  "annotation_target_label t =
     (if at_name t \<noteq> [] then at_raw_type t @ '':'' @ at_name t
      else if at_id t > 0 then at_raw_type t @ '':'' @ int_dec (at_id t) else at_raw_type t)"

definition map_annotation_err :: "vault_error \<Rightarrow> ipc_error" where
  "map_annotation_err e =
     (if e = ErrNotAnnotatable \<or> e = ErrTooManyNotes then new_error CodeBadRequest else map_vault_err e)"

definition audit_annotation ::
  "plane_world \<Rightarrow> caller \<Rightarrow> ipc_scope \<Rightarrow> annotation_target \<Rightarrow> string \<Rightarrow> ipc_error + 'a \<Rightarrow> plane \<Rightarrow> (ipc_error + 'a) \<times> plane" where
  "audit_annotation w ci sc t op r s = (r, audit_plane w ci sc ''annotation'' (annotation_target_label t) op (err_of r) s)"

section \<open>Writing\<close>

record note_req =
  xq_scope :: ipc_scope
  xq_target :: annotation_target
  xq_id :: int
  xq_text :: string
  xq_clear :: bool
  xq_password :: bytes
  xq_presence :: string

text \<open>
  What the four writes share: the store, the gate for an update, the object, the author, and then the
  operation. The author is decided after the object, so a refusal uses up no presence token there.
\<close>

definition annotating ::
  "plane_world \<Rightarrow> registry \<Rightarrow> caller \<Rightarrow> note_req \<Rightarrow> string \<Rightarrow>
   (object_ref \<Rightarrow> note_author \<Rightarrow> plane \<Rightarrow> (ipc_error + 'a) \<times> plane) \<Rightarrow> plane \<Rightarrow> (ipc_error + 'a) \<times> plane" where
  "annotating w reg ci req op f s =
     (let sc = xq_scope req; vn = plane_vault sc; t = xq_target req in
      case plane_scope w sc s of
        (Inl e, s) \<Rightarrow> (Inl e, s)
      | (Inr (_, scope), s) \<Rightarrow>
          (case authorize_plane w reg ci vn scope ''update'' (xq_password req) (xq_presence req) s of
             (Some e, s) \<Rightarrow> audit_annotation w ci sc t op (Inl e) s
           | (None, s) \<Rightarrow>
               (case resolve_target w scope t (store_of s vn) of
                  Inl e \<Rightarrow> audit_annotation w ci sc t op (Inl (map_annotation_err e)) s
                | Inr ref \<Rightarrow>
                    (case author_for w ci vn (xq_password req) (xq_presence req) s of (author, s) \<Rightarrow> f ref author s))))"

definition clear_description ::
  "plane_world \<Rightarrow> object_ref \<Rightarrow> note_author \<Rightarrow> vault \<Rightarrow> (vault_error + int) \<times> vault" where
  "clear_description w ref author v =
     (case get_description (pw_io w CallDescribe) ref v of
        Inl e \<Rightarrow> (Inl e, v)
      | Inr cur \<Rightarrow>
          (case remove_annotation (pw_io w CallDescription) (pw_unix w) ref (ao_id cur) author v of
             (Inl e, v) \<Rightarrow> (Inl e, v) | (Inr _, v) \<Rightarrow> (Inr (ao_id cur), v)))"

definition reword_description ::
  "plane_world \<Rightarrow> object_ref \<Rightarrow> string \<Rightarrow> note_author \<Rightarrow> vault \<Rightarrow> (vault_error + int) \<times> vault" where
  "reword_description w ref text author v =
     (case set_description (pw_limits w) (pw_io w CallDescription) (pw_unix w) (pw_draw w CallDescription) ref text author v of
        (Inl e, v) \<Rightarrow> (Inl e, v)
      | (Inr _, v) \<Rightarrow> (map_sum id ao_id (get_description (pw_io w CallDescribe) ref v), v))"

text \<open>An answer of the store, mapped and recorded; \<open>touch\<close> says whether a success counts as a use.\<close>

definition annotated ::
  "plane_world \<Rightarrow> caller \<Rightarrow> note_req \<Rightarrow> string \<Rightarrow> bool \<Rightarrow> (vault_error + 'a) \<times> plane \<Rightarrow> (ipc_error + 'a) \<times> plane" where
  "annotated w ci req op touch out =
     (case out of
        (Inl e, s) \<Rightarrow> audit_annotation w ci (xq_scope req) (xq_target req) op (Inl (map_annotation_err e)) s
      | (Inr x, s) \<Rightarrow> audit_annotation w ci (xq_scope req) (xq_target req) op (Inr x)
          (if touch then touching w (is_vault (xq_scope req)) s else s))"

definition handle_annotation_set ::
  "plane_world \<Rightarrow> registry \<Rightarrow> caller \<Rightarrow> note_req \<Rightarrow> plane \<Rightarrow> (ipc_error + int) \<times> plane" where
  "handle_annotation_set w reg ci req s =
     annotating w reg ci req ''annotation.set'' (\<lambda>ref author s.
       if xq_clear req then
         annotated w ci req ''annotation.remove'' False (on_store (plane_vault (xq_scope req)) (clear_description w ref author) s)
       else
         annotated w ci req ''annotation.set'' False
           (on_store (plane_vault (xq_scope req)) (reword_description w ref (xq_text req) author) s)) s"

definition note_draws_of :: "plane_world \<Rightarrow> note_draws" where
  "note_draws_of w = \<lparr>nd_uid = pw_draw w CallNoteId, nd_nonce = pw_draw w CallNote\<rparr>"

definition add_note_as ::
  "plane_world \<Rightarrow> bytes \<Rightarrow> object_ref \<Rightarrow> string \<Rightarrow> note_author \<Rightarrow> vault \<Rightarrow> (vault_error + int) \<times> vault" where
  "add_note_as w password ref text author v =
     (if is_locked v \<and> length password > 0
      then add_note_with_password (pw_lib w) (pw_limits w) (pw_io w CallNote) (pw_unix w) (note_draws_of w) password ref text author v
      else add_note (pw_lib w) (pw_limits w) (pw_io w CallNote) (pw_unix w) (note_draws_of w) ref text author v)"

definition handle_annotation_add ::
  "plane_world \<Rightarrow> registry \<Rightarrow> caller \<Rightarrow> note_req \<Rightarrow> plane \<Rightarrow> (ipc_error + int) \<times> plane" where
  "handle_annotation_add w reg ci req s =
     annotating w reg ci req ''annotation.add'' (\<lambda>ref author s.
       annotated w ci req ''annotation.add'' True
         (on_store (plane_vault (xq_scope req)) (add_note_as w (xq_password req) ref (xq_text req) author) s)) s"

definition edit_note_as ::
  "plane_world \<Rightarrow> bytes \<Rightarrow> object_ref \<Rightarrow> int \<Rightarrow> string \<Rightarrow> note_author \<Rightarrow> vault \<Rightarrow> (vault_error + unit) \<times> vault" where
  "edit_note_as w password ref i text author v =
     (if is_locked v \<and> length password > 0
      then edit_note_with_password (pw_lib w) (pw_limits w) (pw_io w CallNote) (pw_unix w) (pw_draw w CallNote) password ref i text author v
      else edit_note (pw_lib w) (pw_limits w) (pw_io w CallNote) (pw_unix w) (pw_draw w CallNote) ref i text author v)"

definition handle_annotation_edit ::
  "plane_world \<Rightarrow> registry \<Rightarrow> caller \<Rightarrow> note_req \<Rightarrow> plane \<Rightarrow> (ipc_error + unit) \<times> plane" where
  "handle_annotation_edit w reg ci req s =
     annotating w reg ci req ''annotation.edit'' (\<lambda>ref author s.
       annotated w ci req ''annotation.edit'' True
         (on_store (plane_vault (xq_scope req)) (edit_note_as w (xq_password req) ref (xq_id req) (xq_text req) author) s)) s"

definition handle_annotation_remove ::
  "plane_world \<Rightarrow> registry \<Rightarrow> caller \<Rightarrow> note_req \<Rightarrow> plane \<Rightarrow> (ipc_error + unit) \<times> plane" where
  "handle_annotation_remove w reg ci req s =
     annotating w reg ci req ''annotation.remove'' (\<lambda>ref author s.
       annotated w ci req ''annotation.remove'' False
         (on_store (plane_vault (xq_scope req)) (remove_annotation (pw_io w CallDescription) (pw_unix w) ref (xq_id req) author) s)) s"

section \<open>Reading\<close>

record list_notes_req =
  lq_scope :: ipc_scope
  lq_target :: annotation_target
  lq_kind :: string
  lq_removed :: bool
  lq_password :: bytes
  lq_presence :: string

record list_notes_resp =
  lp_descriptions :: "annotation list"
  lp_notes :: "annotation list"
  lp_count :: nat
  lp_withheld :: bool

definition kind_description :: string where "kind_description = ''description''"
definition kind_note :: string where "kind_note = ''note''"

definition read_notes :: "plane_world \<Rightarrow> list_notes_req \<Rightarrow> object_ref \<Rightarrow> vault \<Rightarrow> vault_error + annotation list" where
  "read_notes w req ref v =
     (let cl = pw_lib w; io = pw_io w CallNote; password = lq_password req in
      if is_locked v \<and> length password > 0 then
        (if lq_removed req then list_notes_including_removed_with_password cl io password ref v
         else list_notes_with_password cl io password ref v)
      else if lq_removed req then list_notes_including_removed cl io ref v
      else list_notes cl io ref v)"

definition read_descriptions :: "plane_world \<Rightarrow> string \<Rightarrow> object_ref \<Rightarrow> vault \<Rightarrow> vault_error + annotation list" where
  "read_descriptions w kind ref v =
     (if kind \<noteq> [] \<and> kind \<noteq> kind_description then Inr []
      else case get_description (pw_io w CallDescribe) ref v of
        Inr d \<Rightarrow> Inr [d] | Inl ErrEntryNotFound \<Rightarrow> Inr [] | Inl e \<Rightarrow> Inl e)"

definition list_gated_notes ::
  "plane_world \<Rightarrow> registry \<Rightarrow> caller \<Rightarrow> vault_scope \<Rightarrow> list_notes_req \<Rightarrow> object_ref \<Rightarrow> annotation list \<Rightarrow> nat \<Rightarrow> plane \<Rightarrow>
   (ipc_error + list_notes_resp) \<times> plane" where
  "list_gated_notes w reg ci scope req ref descs n s =
     (let sc = lq_scope req; vn = plane_vault sc;
          partial = Inr \<lparr>lp_descriptions = descs, lp_notes = [], lp_count = n, lp_withheld = (n > 0)\<rparr> in
      case authorize_plane w reg ci vn scope ''get'' (lq_password req) (lq_presence req) s of
        (Some e, s) \<Rightarrow> (if lq_kind req = kind_note then Inl e else partial, s)
      | (None, s) \<Rightarrow>
          (case read_notes w req ref (store_of s vn) of
             Inl e \<Rightarrow> (if e = ErrLocked \<and> lq_kind req \<noteq> kind_note then partial else Inl (map_annotation_err e), s)
           | Inr notes \<Rightarrow>
               audit_annotation w ci sc (lq_target req) ''annotation.read''
                 (Inr \<lparr>lp_descriptions = descs, lp_notes = notes, lp_count = n, lp_withheld = False\<rparr>) s))"

definition handle_annotation_list ::
  "plane_world \<Rightarrow> registry \<Rightarrow> caller \<Rightarrow> list_notes_req \<Rightarrow> plane \<Rightarrow> (ipc_error + list_notes_resp) \<times> plane" where
  "handle_annotation_list w reg ci req s =
     (let sc = lq_scope req; vn = plane_vault sc in
      case plane_scope w sc s of
        (Inl e, s) \<Rightarrow> (Inl e, s)
      | (Inr (_, scope), s) \<Rightarrow>
          (case resolve_target w scope (lq_target req) (store_of s vn) of
             Inl e \<Rightarrow> (Inl (map_annotation_err e), s)
           | Inr ref \<Rightarrow>
               (case read_descriptions w (lq_kind req) ref (store_of s vn) of
                  Inl e \<Rightarrow> (Inl (map_annotation_err e), s)
                | Inr descs \<Rightarrow>
                    if lq_kind req = kind_description then
                      (Inr \<lparr>lp_descriptions = descs, lp_notes = [], lp_count = 0, lp_withheld = False\<rparr>, s)
                    else
                      (case NoteCount (pw_io w CallNote) ref (store_of s vn) of
                         Inl e \<Rightarrow> (Inl (map_annotation_err e), s)
                       | Inr n \<Rightarrow> list_gated_notes w reg ci scope req ref descs n s))))"

definition handle_annotation_history ::
  "plane_world \<Rightarrow> registry \<Rightarrow> caller \<Rightarrow> note_req \<Rightarrow> plane \<Rightarrow> (ipc_error + annotation_version list) \<times> plane" where
  "handle_annotation_history w reg ci req s =
     (let sc = xq_scope req; vn = plane_vault sc in
      case plane_scope w sc s of
        (Inl e, s) \<Rightarrow> (Inl e, s)
      | (Inr (_, scope), s) \<Rightarrow>
          (case authorize_plane w reg ci vn scope ''get'' (xq_password req) (xq_presence req) s of
             (Some e, s) \<Rightarrow> (Inl e, s)
           | (None, s) \<Rightarrow>
               (case resolve_target w scope (xq_target req) (store_of s vn) of
                  Inl e \<Rightarrow> (Inl (map_annotation_err e), s)
                | Inr ref \<Rightarrow>
                    (case annotation_history (pw_lib w) (pw_io w CallNote) ref (xq_id req) (store_of s vn) of
                       Inl e \<Rightarrow> (Inl (map_annotation_err e), s)
                     | Inr out \<Rightarrow> audit_annotation w ci sc (xq_target req) ''annotation.history'' (Inr out) s))))"

end
