(* ===== verification/Plane_Trust.thy ===== *)
theory Plane_Trust
  imports Plane_Authors
begin

text \<open>
  The handlers of the trust store in \<open>internal/daemon/dispatch.go\<close> with the recording of a grant
  (\<open>bynwrite.go\<close>), and the answering of approvals (\<open>approvalops.go\<close>). Reading a file is the argument
  \<open>pw_read\<close>, within the size the code allows; changing the access lists of a directory and waking
  those who wait for an answer have no effect on the state and are not modelled.
\<close>

section \<open>Granting\<close>

record granted =
  gt_path :: string
  gt_sha256 :: string
  gt_changed :: bool
  gt_actions :: "string list"
  gt_auth :: "string go_map"
  gt_aliases :: "string go_map"
  gt_env_wildcard :: bool
  gt_actions_wildcard :: bool

text \<open>Every refusal of \<open>putTrustRecord\<close> reaches the caller as one error code: here \<open>None\<close>.\<close>

definition grant_valid :: "plane_world \<Rightarrow> byn_file \<Rightarrow> bool" where
  "grant_valid w parsed \<longleftrightarrow>
     validate_auth parsed = Inr () \<and> validate_actions (pw_compile w) parsed = Inr () \<and>
     validate_aliases parsed = Inr () \<and> validate_descriptions parsed = Inr ()"

definition grant_record :: "plane_world \<Rightarrow> string \<Rightarrow> string \<Rightarrow> bytes \<Rightarrow> byn_file \<Rightarrow> int \<Rightarrow> bytes \<Rightarrow> trust_record" where
  "grant_record w vn path body parsed mtime blob =
     (let canon = pw_canonicalize w path in
      \<lparr>tr_path = canon, tr_sha256 = trust_hash (wo_sha256 w) body, tr_vault = vn, tr_fp_mac = [], tr_vk_mac = [],
        tr_mtime = mtime, tr_granted_at = wo_now w, tr_snapshot = body,
        tr_actions = (if length (bf_actions parsed) > 0
          then with_resolved_action_targets (bf_actions parsed) [path_dir canon, path_dir path] else []),
        tr_auth = bf_auth parsed, tr_aliases = bf_aliases parsed, tr_scope_vault = bf_scope_vault parsed,
        tr_scope_project = bf_scope_project parsed, tr_scope_env = bf_scope_env parsed,
        tr_exec_capability = blob, tr_env_grants = []\<rparr>)"

definition grant_scope :: "byn_file \<Rightarrow> vault_scope" where
  "grant_scope parsed = \<lparr>sc_project = default_if_empty (bf_scope_project parsed) DefaultProjectName,
     sc_env = default_if_empty (bf_scope_env parsed) DefaultEnvName\<rparr>"

definition put_trust_record ::
  "plane_world \<Rightarrow> string \<Rightarrow> string \<Rightarrow> bytes \<Rightarrow> bytes \<Rightarrow> bytes \<Rightarrow> bytes \<Rightarrow> plane \<Rightarrow> granted option \<times> plane" where
  "put_trust_record w vn path body vkKey password vaultKey s =
     (case pw_parse w body of None \<Rightarrow> (None, s) | Some parsed \<Rightarrow>
      if \<not> grant_valid w parsed then (None, s)
      else case pw_stat w path of None \<Rightarrow> (None, s) | Some mtime \<Rightarrow>
       (let canon = pw_canonicalize w path in
        case on_store vn (seal_exec_capability w canon (grant_scope parsed) (bf_env parsed) (allows_all parsed) password vaultKey) s of
          (Inl _, s) \<Rightarrow> (None, s)
        | (Inr blob, s) \<Rightarrow>
            (let rec = set_macs (wo_sha256 w) (wo_hmac w) (wo_fp_key w) (Some vkKey) (grant_record w vn path body parsed mtime blob) in
             case put_record (pw_io w (CallTrustPut canon)) rec (pn_trust s) of
               (Inl _, f) \<Rightarrow> (None, s\<lparr>pn_trust := f\<rparr>)
             | (Inr changed, f) \<Rightarrow>
                 (Some \<lparr>gt_path = canon, gt_sha256 = tr_sha256 rec, gt_changed = changed, gt_actions = tr_actions rec,
                    gt_auth = bf_auth parsed, gt_aliases = bf_aliases parsed, gt_env_wildcard = allows_all parsed,
                    gt_actions_wildcard = list_ex (\<lambda>a. a = ''*'') (bf_actions parsed)\<rparr>,
                  s\<lparr>pn_trust := f\<rparr>))))"

text \<open>\<open>authorizeTrustGrant\<close>: fresh credentials, and the key of the tag that only the vault can make.\<close>

definition authorize_trust_grant ::
  "plane_world \<Rightarrow> registry \<Rightarrow> string \<Rightarrow> bytes \<Rightarrow> string \<Rightarrow> plane \<Rightarrow> (ipc_error + bytes) \<times> plane" where
  "authorize_trust_grant w reg vn password presence s =
     (let cl = pw_lib w in
      if length password > 0 then
        (case lookup_provider reg ''password'' of
           None \<Rightarrow> (Inl (new_error CodeInternal), s)
         | Some p \<Rightarrow>
             (case gate w (\<lambda>_. pv_verify p \<lparr>vr_vault = vn, vr_action = ''trust.grant'', vr_password = password, vr_presence = []\<rparr>) s of
                (res, s) \<Rightarrow>
                  (case map_provider_err res of
                     Some e \<Rightarrow> (Inl e, s)
                   | None \<Rightarrow>
                       (let v = store_of s vn in
                        case derive_subkey_with_password cl password VKMACKeyInfo v of
                          Inr k \<Rightarrow> (Inr k, s)
                        | Inl e \<Rightarrow>
                            if is_locked v then
                              (Inl (new_error (if e = ErrCrypto ErrWrongPassword then CodeLocked else CodeInternal)), s)
                            else (case derive_subkey cl VKMACKeyInfo v of
                                Inl _ \<Rightarrow> (Inl (new_error CodeInternal), s) | Inr k \<Rightarrow> (Inr k, s))))))
      else if length presence > 0 then
        (case lookup_provider reg ''passkey'' of
           None \<Rightarrow> (Inl (new_error CodeInternal), s)
         | Some p \<Rightarrow>
             (case gate w (\<lambda>_. pv_verify p \<lparr>vr_vault = vn, vr_action = ''trust.grant'', vr_password = [], vr_presence = presence\<rparr>) s of
                (Inl _, s) \<Rightarrow> (Inl (new_error CodeBadRequest), s)
              | (Inr _, s) \<Rightarrow>
                  (case derive_subkey cl VKMACKeyInfo (store_of s vn) of
                     Inl _ \<Rightarrow> (Inl (new_error CodeLocked), s) | Inr k \<Rightarrow> (Inr k, s))))
      else (Inl (new_error CodeBadRequest), s))"

definition grant_event :: "plane_world \<Rightarrow> string \<Rightarrow> bool \<Rightarrow> string \<Rightarrow> event" where
  "grant_event w path ok bynPath =
     (if ok then no_event\<lparr>ev_op := ''trust.grant'', ev_outcome := ''ok'', ev_byn_path := bynPath\<rparr>
      else no_event\<lparr>ev_op := ''trust.grant'', ev_outcome := ''denied'', ev_error_code := code_string CodeBadRequest,
        ev_byn_path := pw_canonicalize w path\<rparr>)"

definition handle_trust_grant ::
  "plane_world \<Rightarrow> registry \<Rightarrow> caller \<Rightarrow> string \<Rightarrow> string \<Rightarrow> bytes \<Rightarrow> string \<Rightarrow> plane \<Rightarrow> (ipc_error + granted) \<times> plane" where
  "handle_trust_grant w reg ci rawVault path password presence s =
     (let vn = default_if_empty rawVault DefaultVaultName;
          refused = (\<lambda>s. (Inl (new_error CodeBadRequest), emitting w (audit_emit ci vn (grant_event w path False [])) s)) in
      if path = [] then (Inl (new_error CodeBadRequest), s)
      else case plane_store w vn s of
        (Inl e, s) \<Rightarrow> (Inl e, s)
      | (Inr _, s) \<Rightarrow>
          (case authorize_trust_grant w reg vn password presence s of
             (Inl e, s) \<Rightarrow> (Inl e, s)
           | (Inr vkKey, s) \<Rightarrow>
               (case pw_read w path of
                  None \<Rightarrow> refused s
                | Some (body, _) \<Rightarrow>
                    (case put_trust_record w vn path body vkKey password [] s of
                       (None, s) \<Rightarrow> refused s
                     | (Some g, s) \<Rightarrow> (Inr g, emitting w (audit_emit ci vn (grant_event w path True [])) s)))))"

fun grant_each ::
  "plane_world \<Rightarrow> caller \<Rightarrow> string \<Rightarrow> bytes \<Rightarrow> bytes \<Rightarrow> bytes \<Rightarrow> string list \<Rightarrow> (string \<times> granted option) list \<Rightarrow> plane \<Rightarrow>
   (string \<times> granted option) list \<times> plane" where
  "grant_each w ci vn vkKey password vaultKey [] out s = (out, s)"
| "grant_each w ci vn vkKey password vaultKey (p # ps) out s =
     (case (case pw_read w p of None \<Rightarrow> (None, s) | Some (body, _) \<Rightarrow> put_trust_record w vn p body vkKey password vaultKey s) of
        (None, s) \<Rightarrow>
          grant_each w ci vn vkKey password vaultKey ps (out @ [(p, None)]) (emitting w (audit_emit ci vn (grant_event w p False [])) s)
      | (Some g, s) \<Rightarrow>
          grant_each w ci vn vkKey password vaultKey ps (out @ [(p, Some g)])
            (emitting w (audit_emit ci vn (grant_event w p True (gt_path g))) s))"

definition handle_trust_grant_bulk ::
  "plane_world \<Rightarrow> registry \<Rightarrow> caller \<Rightarrow> string \<Rightarrow> string list \<Rightarrow> bytes \<Rightarrow> string \<Rightarrow> plane \<Rightarrow>
   (ipc_error + (string \<times> granted option) list) \<times> plane" where
  "handle_trust_grant_bulk w reg ci rawVault paths password presence s =
     (let vn = default_if_empty rawVault DefaultVaultName in
      if paths = [] then (Inl (new_error CodeBadRequest), s)
      else case plane_store w vn s of
        (Inl e, s) \<Rightarrow> (Inl e, s)
      | (Inr _, s) \<Rightarrow>
          (case authorize_trust_grant w reg vn password presence s of
             (Inl e, s) \<Rightarrow> (Inl e, s)
           | (Inr vkKey, s) \<Rightarrow>
               (let v = store_of s vn;
                    vaultKey = (if is_locked v \<and> length password > 0
                      then (case unwrap_vault_key (pw_lib w) password v of Inl _ \<Rightarrow> [] | Inr k \<Rightarrow> k) else []) in
                case grant_each w ci vn vkKey password vaultKey paths [] s of (out, s) \<Rightarrow> (Inr out, s))))"

section \<open>Listing, removing and verifying\<close>

definition handle_trust_list :: "plane_world \<Rightarrow> plane \<Rightarrow> ipc_error + (string \<times> string \<times> string list) list" where
  "handle_trust_list w s =
     (case load_store (pw_io w CallTrustLoad) (pn_trust s) of
        Inl _ \<Rightarrow> Inl (new_error CodeInternal)
      | Inr records \<Rightarrow>
          Inr (map (\<lambda>r. (tr_path r, tr_sha256 r,
            names_for (pw_io w CallAuthorNames) (default_if_empty (tr_vault r) DefaultVaultName)
              (default_if_empty (tr_scope_project r) DefaultProjectName)
              (default_if_empty (tr_scope_env r) DefaultEnvName) (pn_authored s))) records))"

definition handle_trust_remove :: "plane_world \<Rightarrow> string \<Rightarrow> plane \<Rightarrow> (ipc_error + bool) \<times> plane" where
  "handle_trust_remove w path s =
     (if path = [] then (Inl (new_error CodeBadRequest), s)
      else case remove_record (pw_io w CallTrustRemove) path (pn_trust s) of
        (Inl _, f) \<Rightarrow> (Inl (new_error CodeInternal), s\<lparr>pn_trust := f\<rparr>)
      | (Inr gone, f) \<Rightarrow> (Inr gone, s\<lparr>pn_trust := f\<rparr>))"

definition verify_event :: "string \<Rightarrow> string \<Rightarrow> verify_status \<Rightarrow> event" where
  "verify_event path command st = no_event\<lparr>ev_op := ''exec'', ev_outcome := (if st = VerifyTrusted then ''ok'' else ''denied''),
     ev_byn_path := path, ev_command := command\<rparr>"

definition handle_trust_verify ::
  "plane_world \<Rightarrow> caller \<Rightarrow> string \<Rightarrow> string \<Rightarrow> string \<Rightarrow> plane \<Rightarrow> (ipc_error + string \<times> verify_status \<times> bool) \<times> plane" where
  "handle_trust_verify w ci rawVault path command s =
     (let vn = default_if_empty rawVault DefaultVaultName; canon = pw_canonicalize w path in
      if path = [] then (Inl (new_error CodeBadRequest), s)
      else case pw_read w path of
        None \<Rightarrow> (Inr (path, VerifyUntrusted, False), emitting w (audit_emit ci vn (verify_event canon command VerifyUntrusted)) s)
      | Some (body, mtime) \<Rightarrow>
          (case plane_store w vn s of (r, s) \<Rightarrow>
           (let vkKey = (case r of Inl _ \<Rightarrow> None
                  | Inr v \<Rightarrow> (case derive_subkey (pw_lib w) VKMACKeyInfo v of Inl _ \<Rightarrow> None | Inr k \<Rightarrow> Some k)) in
            case verify (wo_sha256 w) (wo_hmac w) (pw_io w CallTrustLoad) (pn_trust s) canon
                (trust_hash (wo_sha256 w) body) mtime (wo_fp_key w) vkKey of
              Inl _ \<Rightarrow> (Inl (new_error CodeInternal), s)
            | Inr (st, checked, _) \<Rightarrow>
                (Inr (canon, st, checked), emitting w (audit_emit ci vn (verify_event canon command st)) s))))"

section \<open>Answering an approval\<close>

record decide_req =
  kq_id :: string
  kq_approve :: bool
  kq_revoke :: bool
  kq_password :: bytes
  kq_via :: string
  kq_reason :: string
  kq_grant_seconds :: int
  kq_once :: bool
  kq_always :: bool
  kq_anyone :: bool

definition onceGrantWindow :: duration where "onceGrantWindow = 30 * minute"

text \<open>The product of a number of seconds with \<open>time.Second\<close>, in 64 bits.\<close>

definition wrap_duration :: "int \<Rightarrow> duration" where
  "wrap_duration n = (n + 2 ^ 63) mod 2 ^ 64 - 2 ^ 63"

definition resolve_once :: "bool \<Rightarrow> bool \<Rightarrow> bool \<Rightarrow> bool" where
  "resolve_once approverOnce approverAlways askedOnce \<longleftrightarrow> approverOnce \<or> (\<not> approverAlways \<and> askedOnce)"

fun status_string :: "status \<Rightarrow> string" where
  "status_string StatusPending = ''pending''"
| "status_string StatusApproved = ''approved''"
| "status_string StatusDenied = ''denied''"
| "status_string StatusExpired = ''expired''"
| "status_string StatusRevoked = ''revoked''"
| "status_string StatusCancelled = ''cancelled''"
| "status_string StatusUsed = ''used''"

definition reason_suffix :: "string \<Rightarrow> string" where
  "reason_suffix reason = (if reason = [] then [] else '': '' @ cap_text 200 reason)"

definition set_queue :: "queue \<Rightarrow> plane \<Rightarrow> plane" where
  "set_queue q s = s\<lparr>pn_daemon := (pn_daemon s)\<lparr>dm_queue := q\<rparr>\<rparr>"

definition apply_trust_approval ::
  "plane_world \<Rightarrow> registry \<Rightarrow> string \<Rightarrow> request \<Rightarrow> bytes \<Rightarrow> plane \<Rightarrow> ipc_error option \<times> plane" where
  "apply_trust_approval w reg vn pending password s =
     (if rq_kind pending \<noteq> KindTrustWidening then (None, s)
      else case authorize_trust_grant w reg vn password [] s of
        (Inl e, s) \<Rightarrow> (Some e, s)
      | (Inr vkKey, s) \<Rightarrow>
          (case pw_read w (rq_subject pending) of
             None \<Rightarrow> (Some (new_error CodeBadRequest), s)
           | Some (body, _) \<Rightarrow>
               (case put_trust_record w vn (rq_subject pending) body vkKey password [] s of
                  (None, s) \<Rightarrow> (Some (new_error CodeBadRequest), s) | (Some _, s) \<Rightarrow> (None, s))))"

definition seal_adhoc_grant :: "plane_world \<Rightarrow> string \<Rightarrow> request \<Rightarrow> decide_req \<Rightarrow> plane \<Rightarrow> ipc_error option \<times> plane" where
  "seal_adhoc_grant w vn pending req s =
     (if rq_kind pending \<noteq> KindAdhoc then (None, s)
      else case on_store vn (seal_exec_capability w (kq_id req)
          \<lparr>sc_project = default_if_empty (rq_project pending) DefaultProjectName, sc_env = default_if_empty (rq_env pending) DefaultEnvName\<rparr>
          (rq_gets pending) False (kq_password req) []) s of
        (Inl _, s) \<Rightarrow> (Some (new_error CodeBadRequest), s)
      | (Inr blob, s) \<Rightarrow>
          if length blob > 0 then
            (case attach_capability (pw_io w CallQueueAttach) (kq_id req) blob (dm_queue (pn_daemon s)) of
               (Inl _, q) \<Rightarrow> (Some (new_error CodeInternal), set_queue q s) | (Inr _, q) \<Rightarrow> (None, set_queue q s))
          else (None, s))"

text \<open>What approving does before the decision is written down.\<close>

definition approve_effects ::
  "plane_world \<Rightarrow> registry \<Rightarrow> request \<Rightarrow> decide_req \<Rightarrow> plane \<Rightarrow> ipc_error option \<times> plane" where
  "approve_effects w reg pending req s =
     (let vn = default_if_empty (rq_vault pending) DefaultVaultName; password = kq_password req in
      if length password = 0 then (Some (new_error CodeAuthRequired), s)
      else case plane_store w vn s of
        (Inl e, s) \<Rightarrow> (Some e, s)
      | (Inr _, s) \<Rightarrow>
          (case (if rq_kind pending \<noteq> KindTrustWidening then gate w (\<lambda>_. authorize_with_password reg vn password) s else (None, s)) of
             (Some e, s) \<Rightarrow> (Some e, s)
           | (None, s) \<Rightarrow>
               (case seal_adhoc_grant w vn pending req s of
                  (Some e, s) \<Rightarrow> (Some e, s)
                | (None, s) \<Rightarrow> apply_trust_approval w reg vn pending password s)))"

definition decide_now ::
  "plane_world \<Rightarrow> caller \<Rightarrow> request \<Rightarrow> decide_req \<Rightarrow> plane \<Rightarrow> (ipc_error + request) \<times> plane" where
  "decide_now w ci pending req s =
     (let via = (if kq_via req = [] then ''terminal'' else kq_via req);
          grantFor = wrap_duration (kq_grant_seconds req * second) in
      if grantFor < 0 \<or> maxGrantWindow < grantFor then (Inl (new_error CodeBadRequest), s)
      else
        (let once = resolve_once (kq_once req) (kq_always req) (rq_ask_once pending);
             io = pw_io w CallQueueDecide; now = wo_now w;
             grantFor = (if once \<and> grantFor = 0 then onceGrantWindow else grantFor);
             q = dm_queue (pn_daemon s) in
         case (if kq_anyone req then decide_for_anyone io now (kq_id req) (kq_approve req) via (kq_reason req) grantFor q
               else if once then decide_once io now (kq_id req) (kq_approve req) via (kq_reason req) grantFor q
               else decide_for io now (kq_id req) (kq_approve req) via (kq_reason req) grantFor q) of
           (Inl _, q) \<Rightarrow> (Inl (new_error CodeInternal), set_queue q s)
         | (Inr decided, q) \<Rightarrow>
             (Inr decided,
              emitting w (audit_emit ci (default_if_empty (rq_vault pending) DefaultVaultName)
                (no_event\<lparr>ev_op := ''approval.decide'', ev_outcome := (if rq_status decided = StatusApproved then ''ok'' else ''denied''),
                  ev_project := rq_project pending, ev_env := rq_env pending, ev_byn_path := rq_subject pending,
                  ev_command := status_string (rq_status decided) @ '' via '' @ rq_decided_via decided @ '' ('' @ rq_id decided @ '')'' @
                    reason_suffix (rq_decided_reason decided)\<rparr>))
                (set_queue q s))))"

definition revoke_now :: "plane_world \<Rightarrow> caller \<Rightarrow> decide_req \<Rightarrow> plane \<Rightarrow> (ipc_error + request) \<times> plane" where
  "revoke_now w ci req s =
     (case revoke (pw_io w CallQueueDecide) (wo_now w) (kq_id req) (dm_queue (pn_daemon s)) of
        (Inl (ErrNotApproved _ _), q) \<Rightarrow> (Inl (new_error CodeBadRequest), set_queue q s)
      | (Inl _, q) \<Rightarrow> (Inl (new_error CodeInternal), set_queue q s)
      | (Inr r, q) \<Rightarrow>
          (Inr r,
           emitting w (audit_emit ci (default_if_empty (rq_vault r) DefaultVaultName)
             (no_event\<lparr>ev_op := ''approval.revoke'', ev_outcome := ''ok'', ev_byn_path := rq_subject r,
               ev_command := ''revoked '' @ rq_id r @ '': '' @ join ''; '' (rq_summary r)\<rparr>)) (set_queue q s)))"

definition handle_approval_decide ::
  "plane_world \<Rightarrow> registry \<Rightarrow> caller \<Rightarrow> decide_req \<Rightarrow> plane \<Rightarrow> (ipc_error + request) \<times> plane" where
  "handle_approval_decide w reg ci req s =
     (case get_request (pw_io w CallQueueGet) (wo_now w) (kq_id req) (dm_queue (pn_daemon s)) of
        Inl ErrNotFound \<Rightarrow> (Inl (new_error CodeBadRequest), s)
      | Inl _ \<Rightarrow> (Inl (new_error CodeInternal), s)
      | Inr pending \<Rightarrow>
          if kq_revoke req then revoke_now w ci req s
          else if kq_approve req then
            (case approve_effects w reg pending req s of
               (Some e, s) \<Rightarrow> (Inl e, s) | (None, s) \<Rightarrow> decide_now w ci pending req s)
          else decide_now w ci pending req s)"

definition handle_approval_list :: "plane_world \<Rightarrow> status option \<Rightarrow> plane \<Rightarrow> (ipc_error + request list) \<times> plane" where
  "handle_approval_list w st s =
     (case list_requests (pw_io w CallQueueGet) (wo_now w) st (dm_queue (pn_daemon s)) of
        (Inl _, q) \<Rightarrow> (Inl (new_error CodeInternal), set_queue q s) | (Inr rs, q) \<Rightarrow> (Inr rs, set_queue q s))"

end
