(* ===== verification/Vault_Follows.thy ===== *)
theory Vault_Follows
  imports Vault_History Vault_Grants Vault_Notes
begin

text \<open>
  What every operation on an open vault leaves as it was: its identity, its wrapped key, the key in
  memory, and well-formed tables. \<open>follows v v'\<close> says it of two states, the lemmas of \<open>vault_follows\<close> of
  every operation a handler of the daemon runs.
\<close>

definition follows :: "vault \<Rightarrow> vault \<Rightarrow> bool" where
  "follows v v' \<longleftrightarrow> vt_key v' = vt_key v \<and> vt_id v' = vt_id v \<and> vt_wrapped v' = vt_wrapped v \<and>
     (db_ok (vt_db v) \<longrightarrow> db_ok (vt_db v'))"

named_theorems vault_follows "each operation, from a state to one that follows it"

lemma follows_refl [simp]: "follows v v"
  by (simp add: follows_def)

lemma follows_trans: "follows v v' \<Longrightarrow> follows v' v'' \<Longrightarrow> follows v v''"
  by (simp add: follows_def)

text \<open>The key, the identity and the wrapped key only change where a transaction does not reach.\<close>

definition same_vault :: "vault \<Rightarrow> vault \<Rightarrow> bool" where
  "same_vault v v' \<longleftrightarrow> vt_key v' = vt_key v \<and> vt_id v' = vt_id v \<and> vt_wrapped v' = vt_wrapped v"

lemma same_vault_refl [simp]: "same_vault v v" by (simp add: same_vault_def)
lemma same_vault_trans: "same_vault v v' \<Longrightarrow> same_vault v' v'' \<Longrightarrow> same_vault v v''" by (simp add: same_vault_def)

lemma followsI: "same_vault v v' \<Longrightarrow> (db_ok (vt_db v) \<Longrightarrow> db_ok (vt_db v')) \<Longrightarrow> follows v v'"
  by (simp add: follows_def same_vault_def)

lemma same_transact: "transact io v stmts = (r, v') \<Longrightarrow> same_vault v v'"
  by (auto simp: transact_def same_vault_def split: option.splits sum.splits)

lemma same_transact_snd [simp]: "same_vault v (snd (transact io v stmts))"
  by (rule same_transact [OF surjective_pairing])

lemma same_delete_and_sweep: "delete_and_sweep io del v = (r, v') \<Longrightarrow> same_vault v v'"
  unfolding delete_and_sweep_def by (rule same_transact)

section \<open>Values\<close>

lemma same_put_with_key [simp]: "same_vault v (snd (put_with_key cl io now draw key s n x c v))"
  by (simp add: put_with_key_def write_env_var_def split: sum.splits prod.splits)

lemma same_puts:
  "same_vault v (snd (put_env_var cl io now draw s n x c v))"
  "same_vault v (snd (put_env_var_with_password cl io now draw pw s n x c v))"
  "same_vault v (snd (put_authored cl io now draw s n x k c v))"
  by (simp_all add: put_env_var_def put_env_var_with_password_def put_authored_def write_env_var_def
      split: option.split sum.split prod.split)

lemmas puts_follow [vault_follows] =
  followsI [OF same_puts(1) puts_ok(1)] followsI [OF same_puts(2) puts_ok(2)] followsI [OF same_puts(3) puts_ok(3)]

lemma same_delete_entries: "delete_entries io hit v = (r, v') \<Longrightarrow> same_vault v v'"
  unfolding delete_entries_def by (rule same_delete_and_sweep)

lemma same_deletes:
  "same_vault v (snd (delete_env_var io s n v))" "same_vault v (snd (clear_env_vars io s v))"
  "same_vault v (snd (rename_env_var cl io now draw s a b v))"
proof -
  show "same_vault v (snd (delete_env_var io s n v))"
    unfolding delete_env_var_def by (auto split: option.split sum.split prod.split dest: same_delete_entries)
  show "same_vault v (snd (clear_env_vars io s v))"
    unfolding clear_env_vars_def
    by (auto split: option.split sum.split prod.split intro: same_delete_entries [OF surjective_pairing])
  show "same_vault v (snd (rename_env_var cl io now draw s a b v))"
    unfolding rename_env_var_def by (simp split: option.split sum.split prod.split)
qed

lemmas deletes_follow [vault_follows] =
  followsI [OF same_deletes(1) deletes_ok(1)] followsI [OF same_deletes(2) deletes_ok(2)]
  followsI [OF same_deletes(3) rename_env_var_ok]

section \<open>Projects and environments\<close>

lemma same_delete_envs: "delete_envs io hit v = (r, v') \<Longrightarrow> same_vault v v'"
  unfolding delete_envs_def by (rule same_delete_and_sweep)

lemma same_structure:
  "same_vault v (snd (create_project io now p v))" "same_vault v (snd (rename_project io now p q v))"
  "same_vault v (snd (create_env io now p e v))" "same_vault v (snd (rename_env io now p a b v))"
  by (simp_all add: create_project_def rename_project_def create_env_def rename_env_def split: option.split sum.split)

lemma same_removal:
  "same_vault v (snd (delete_project io p v))" "same_vault v (snd (delete_env io p e v))"
proof -
  show "same_vault v (snd (delete_project io p v))"
    unfolding delete_project_def by (auto split: option.split sum.split prod.split dest: same_delete_and_sweep)
  show "same_vault v (snd (delete_env io p e v))"
    unfolding delete_env_def by (auto split: option.split sum.split prod.split dest: same_delete_envs)
qed

lemmas structure_follows [vault_follows] =
  followsI [OF same_structure(1) create_project_ok] followsI [OF same_structure(2) rename_project_ok]
  followsI [OF same_structure(3) create_env_ok] followsI [OF same_structure(4) rename_env_ok]
  followsI [OF same_removal(1) delete_project_ok] followsI [OF same_removal(2) delete_env_ok]

section \<open>Keys for a grant\<close>

lemma same_capture_one [simp]: "same_vault v (snd (capture_one cl io draw vk pid eid se name v))"
  by (simp add: capture_one_def split: option.split sum.split prod.split)

lemma same_capture_loop [simp]: "same_vault v (snd (capture_loop cl io draws vk pid eid se out names v))"
proof (induction names arbitrary: out v)
  case (Cons name names)
  obtain r v' where c: "capture_one cl io (draws name) vk pid eid se name v = (r, v')" by fastforce
  then have "same_vault v v'" using same_capture_one [of v cl io "draws name" vk pid eid se name] by simp
  then show ?case using c Cons.IH same_vault_trans by (auto split: option.splits sum.splits)
qed simp

lemma capture_with_key_follows [vault_follows]: "follows v (snd (capture_row_keys_with_key cl io draws vk s names v))"
  by (rule followsI) (simp_all add: capture_row_keys_with_key_def capture_loop_ok split: sum.split prod.split)

lemma captures_follow [vault_follows]:
  "follows v (snd (capture_row_keys cl io draws s names v))"
  "follows v (snd (capture_row_keys_with_password cl io draws pw s names v))"
  by (simp_all add: capture_row_keys_def capture_row_keys_with_password_def vault_follows split: option.split sum.split)

lemma seal_with_key_follows [vault_follows]: "follows v (snd (seal_unattended_with_key cl io draw vk s n v))"
proof (rule followsI)
  show "same_vault v (snd (seal_unattended_with_key cl io draw vk s n v))"
    by (simp add: seal_unattended_with_key_def split: option.split sum.split prod.split)
  show "db_ok (vt_db (snd (seal_unattended_with_key cl io draw vk s n v)))" if "db_ok (vt_db v)"
    using that unfolding seal_unattended_with_key_def
    by (auto intro!: transact_ok reseal_row_ok split: option.split sum.split prod.split)
qed

lemma seal_follows [vault_follows]: "follows v (snd (seal_unattended cl io draw s n v))"
  by (simp add: seal_unattended_def vault_follows split: option.split)

section \<open>Annotations\<close>

text \<open>Annotations have tables of their own.\<close>

definition same_values :: "vault_db \<Rightarrow> vault_db \<Rightarrow> bool" where
  "same_values db db' \<longleftrightarrow> db_projects db' = db_projects db \<and> db_envs db' = db_envs db \<and> db_entries db' = db_entries db \<and>
     db_seq db' TProjects = db_seq db TProjects \<and> db_seq db' TEnvs = db_seq db TEnvs \<and> db_seq db' TEntries = db_seq db TEntries"

lemma same_values_ok: "same_values db db' \<Longrightarrow> db_ok db \<Longrightarrow> db_ok db'"
  by (simp add: same_values_def db_ok_def projects_ok_def envs_ok_def entries_ok_def ids_ok_def)

lemma same_values_append [simp]: "same_values db (append_version i op body enc au now db') = same_values db db'"
  by (simp add: same_values_def append_version_def)

lemma same_values_update [simp]: "same_values db (update_annotation i f db') = same_values db db'"
  by (simp add: same_values_def update_annotation_def)

lemma same_values_refl [simp]: "same_values db db" by (simp add: same_values_def)

lemma same_values_insert: "insert_annotation uid ref kind body enc domain au now db = Inr (i, db') \<Longrightarrow> same_values db db'"
  by (auto simp: insert_annotation_def take_id_def same_values_def Let_def split: if_splits)

lemma annotation_transact:
  assumes "\<And>r db. stmts = Inr (r, db) \<Longrightarrow> same_values (vt_db v) db"
  shows "follows v (snd (transact io v stmts))"
  by (rule followsI) (use assms same_values_ok in \<open>auto intro!: transact_ok\<close>)

lemma set_description_follows [vault_follows]: "follows v (snd (set_description lim io now uid ref text au v))"
  unfolding set_description_def
  by (auto intro!: annotation_transact simp: set_description_stmts_def same_values_insert split: option.split option.splits sum.splits)

lemma add_with_base_follows [vault_follows]: "follows v (snd (add_note_with_base cl lim io now draws ref text au base dm v))"
  unfolding add_note_with_base_def
  by (auto intro!: annotation_transact simp: insert_note_def same_values_insert split: option.split sum.split sum.splits)

lemma add_with_key_follows [vault_follows]: "follows v (snd (add_note_with_vault_key cl lim io now draws vk ref text au v))"
  by (simp add: add_note_with_vault_key_def vault_follows split: sum.split prod.split)

lemma add_notes_follow [vault_follows]:
  "follows v (snd (add_note cl lim io now draws ref text au v))"
  "follows v (snd (add_note_with_password cl lim io now draws pw ref text au v))"
  "follows v (snd (add_note_authored cl lim io now draws ref text k au v))"
  by (simp_all add: add_note_def add_note_with_password_def add_note_authored_def vault_follows split: option.split sum.split)

lemma edit_with_key_follows [vault_follows]: "follows v (snd (edit_note_with_vault_key cl lim io now draw vk ref i text au v))"
  unfolding edit_note_with_vault_key_def by (auto intro!: annotation_transact split: option.split sum.split)

lemma edits_follow [vault_follows]:
  "follows v (snd (edit_note cl lim io now draw ref i text au v))"
  "follows v (snd (edit_note_with_password cl lim io now draw pw ref i text au v))"
  by (simp_all add: edit_note_def edit_note_with_password_def vault_follows split: option.split sum.split)

lemma remove_annotation_follows [vault_follows]: "follows v (snd (remove_annotation io now ref i au v))"
  unfolding remove_annotation_def by (auto intro!: annotation_transact split: option.split if_splits)

end
