(* ===== verification/Plane_Props.thy ===== *)
theory Plane_Props
  imports Plane_Notes Plane_Trust Vault_Follows
begin

text \<open>
  What the handlers keep. The locale \<open>vault_law\<close> is a condition on the open vaults that every operation
  on a store keeps, \<open>follows\<close>, and locking too; in it every handler but the one that unlocks is shown to keep it,
  and the registry of authors well-formed. \<open>good K vn s\<close> says so of a state where the vault of the request
  is open.
\<close>

section \<open>Operations on a store\<close>

lemma put_as_follows [vault_follows]: "follows v (snd (put_as w scope req authKey createOnly v))"
  by (simp add: put_as_def Let_def vault_follows split: option.split)

lemma put_description_follows [vault_follows]: "follows v (snd (put_description w ref t author v))"
  using set_description_follows [of v "pw_limits w" "pw_io w CallDescription" "pw_unix w" "pw_draw w CallDescription" ref t author]
  by (auto simp: put_description_def split: prod.split)

lemma put_note_follows [vault_follows]: "follows v (snd (put_note w ref req authKey author v))"
proof -
  have s: "follows v v'" if "f = (r, v')" "follows v (snd f)" for f :: "(vault_error + int) \<times> vault" and r v' using that by simp
  show ?thesis
    by (auto simp: put_note_def Let_def split: option.split prod.split sum.split if_splits intro: s add_notes_follow)
qed

lemma put_annotations_follow [vault_follows]:
  "follows v (snd (apply_put_annotations w ci scope req created attended authKey v))"
proof -
  have d: "put_description w ref t a v = (r, v') \<Longrightarrow> follows v v'" for ref t a r v'
    using put_description_follows [of v w ref t a] by simp
  have n: "put_note w ref req authKey a v' = (r, v'') \<Longrightarrow> follows v' v''" for ref a r v' v''
    using put_note_follows [of v' w ref req authKey a] by simp
  show ?thesis
    by (auto simp: apply_put_annotations_def Let_def split: sum.split prod.split intro: follows_trans dest: d n)
qed

lemma seal_capability_follows [vault_follows]:
  "follows v (snd (seal_exec_capability w label scope allow wildcard pw vk v))"
proof -
  have "follows v (snd (granted_row_keys w label scope names pw vk v))" for names
    by (simp add: granted_row_keys_def by_access_def Let_def vault_follows)
  then have g: "granted_row_keys w label scope names pw vk v = (r, v') \<Longrightarrow> follows v v'" for names r v'
    by (metis snd_conv)
  show ?thesis
    by (auto simp: seal_exec_capability_def split: option.splits sum.splits prod.splits dest: g)
qed

lemma seal_item_follows [vault_follows]: "follows v (snd (seal_item w vk t v))"
  by (simp add: seal_item_def Let_def vault_follows split: option.split)

lemma note_ops_follow [vault_follows]:
  "follows v (snd (add_note_as w pw ref text au v))" "follows v (snd (edit_note_as w pw ref i text au v))"
  by (simp_all add: add_note_as_def edit_note_as_def vault_follows)

lemma description_ops_follow [vault_follows]:
  "follows v (snd (clear_description w ref au v))" "follows v (snd (reword_description w ref t au v))"
proof -
  have r: "remove_annotation io now ref i au v = (r, v') \<Longrightarrow> follows v v'" for io now i r v'
    using remove_annotation_follows [of v io now ref i au] by simp
  show "follows v (snd (clear_description w ref au v))"
    by (auto simp: clear_description_def split: sum.split prod.split dest: r)
  have d: "set_description lim io now uid ref t au v = (r, v') \<Longrightarrow> follows v v'" for lim io now uid r v'
    using set_description_follows [of v lim io now uid ref t au] by simp
  show "follows v (snd (reword_description w ref t au v))"
    by (auto simp: reword_description_def split: sum.split prod.split dest: d)
qed

section \<open>The condition\<close>

definition plane_inv :: "(string \<Rightarrow> vault \<Rightarrow> bool) \<Rightarrow> plane \<Rightarrow> bool" where
  "plane_inv K s \<longleftrightarrow> authors_ok (pn_authored s) \<and> (\<forall>n v. map_get (pn_vaults s) n = Some v \<longrightarrow> K n v)"

definition world_inv :: "(string \<Rightarrow> vault \<Rightarrow> bool) \<Rightarrow> plane_world \<Rightarrow> bool" where
  "world_inv K w \<longleftrightarrow> (\<forall>n v. pw_disk w n = Inr v \<longrightarrow> K n v)"

definition good :: "(string \<Rightarrow> vault \<Rightarrow> bool) \<Rightarrow> string \<Rightarrow> plane \<Rightarrow> bool" where
  "good K vn s \<longleftrightarrow> plane_inv K s \<and> map_get (pn_vaults s) vn \<noteq> None"

lemma good_inv: "good K vn s \<Longrightarrow> plane_inv K s" by (simp add: good_def)

lemma good_authors: "good K vn s \<Longrightarrow> authors_ok (pn_authored s)" by (simp add: good_def plane_inv_def)

lemma inv_changes [simp]:
  "plane_inv K (s\<lparr>pn_trust := f\<rparr>) = plane_inv K s" "plane_inv K (s\<lparr>pn_daemon := d\<rparr>) = plane_inv K s"
  "plane_inv K (emitting w g s) = plane_inv K s" "plane_inv K (audit_plane w ci sc k n op r s) = plane_inv K s"
  "plane_inv K (touching w n s) = plane_inv K s" "plane_inv K (snd (audited w ci sc n op r' s)) = plane_inv K s"
  "plane_inv K (snd (audit_annotation w ci sc t op r' s)) = plane_inv K s" "plane_inv K (set_queue q s) = plane_inv K s"
  by (simp_all add: plane_inv_def emitting_def audit_plane_def touching_def audited_def audit_annotation_def set_queue_def)

lemma good_changes [simp]:
  "good K vn (s\<lparr>pn_trust := f\<rparr>) = good K vn s" "good K vn (s\<lparr>pn_daemon := d\<rparr>) = good K vn s"
  "good K vn (emitting w g s) = good K vn s" "good K vn (audit_plane w ci sc k n op r s) = good K vn s"
  "good K vn (touching w n s) = good K vn s" "good K vn (snd (audited w ci sc n op r' s)) = good K vn s"
  "good K vn (snd (audit_annotation w ci sc t op r' s)) = good K vn s" "good K vn (set_queue q s) = good K vn s"
  by (simp_all add: good_def) (simp_all add: emitting_def audit_plane_def touching_def audited_def audit_annotation_def set_queue_def)

lemma good_authored: "good K vn s \<Longrightarrow> authors_ok f \<Longrightarrow> good K vn (s\<lparr>pn_authored := f\<rparr>)"
  by (simp add: good_def plane_inv_def)

text \<open>The gate does not touch what the condition is about.\<close>

lemma good_gate [simp]: "good K vn (snd (gate w f s)) = good K vn s"
  by (auto simp: gate_def good_def plane_inv_def split: prod.splits)

lemma good_authorize [simp]: "good K vn (snd (authorize_plane w reg ci vn' sc a pw pt s)) = good K vn s"
  by (simp add: authorize_plane_def)

lemma good_attended [simp]: "good K vn (snd (attended_plane w ci vn' pw pt s)) = good K vn s"
  by (simp add: attended_plane_def)

lemma inv_gate [simp]:
  "plane_inv K (snd (gate w f s)) = plane_inv K s"
  "plane_inv K (snd (authorize_plane w reg ci vn' sc a pw pt s)) = plane_inv K s"
  "plane_inv K (snd (attended_plane w ci vn' pw pt s)) = plane_inv K s"
  by (simp_all add: authorize_plane_def attended_plane_def) (simp_all add: gate_def plane_inv_def case_prod_unfold)

lemma good_author_for [simp]: "good K vn (snd (author_for w ci vn' pw pt s)) = good K vn s"
  by (simp add: author_for_def case_prod_unfold)

lemma good_trust_grant [simp]: "good K vn (snd (authorize_trust_grant w reg vn' pw pt s)) = good K vn s"
  by (simp add: authorize_trust_grant_def Let_def case_prod_unfold split: option.split sum.split)

lemma inv_trust_grant [simp]: "plane_inv K (snd (authorize_trust_grant w reg vn' pw pt s)) = plane_inv K s"
  by (simp add: authorize_trust_grant_def Let_def case_prod_unfold split: option.split sum.split)

section \<open>Authorship\<close>

lemma record_author_ok: "authors_ok f \<Longrightarrow> authors_ok (snd (record_author io now key chain a u f))"
  using record_author_cases [of io now key chain a u f] by (cases "record_author io now key chain a u f") fastforce

lemma forget_author_ok: "authors_ok f \<Longrightarrow> authors_ok (snd (forget_author io vn pr en names f))"
  using forget_author_cases [of io vn pr en names f] by (cases "forget_author io vn pr en names f") fastforce

lemma good_forget_quietly: "good K vn s \<Longrightarrow> good K vn (forget_quietly w vn' scope name s)"
  by (simp add: forget_quietly_def Let_def good_authored forget_author_ok good_authors)

section \<open>The handlers\<close>

locale vault_law =
  fixes K :: "string \<Rightarrow> vault \<Rightarrow> bool"
  assumes kept: "K n v \<Longrightarrow> follows v v' \<Longrightarrow> K n v'"
    and locked_kept: "K n v \<Longrightarrow> K n (lock_vault v)"
begin

lemma on_store_kept:
  assumes "good K vn s" and "\<And>v. follows v (snd (f v))"
  shows "good K vn (snd (on_store vn f s))"
proof -
  obtain v where v: "map_get (pn_vaults s) vn = Some v" "K vn v"
    using assms(1) by (auto simp: good_def plane_inv_def)
  have "K vn (snd (f v))" by (rule kept [OF v(2) assms(2)])
  then show ?thesis
    using assms(1) v(1) by (auto simp: good_def plane_inv_def on_store_def store_of_def split: prod.splits if_splits)
qed

text \<open>What a handler does to its store.\<close>

lemmas store_ops = on_store_kept [OF _ put_as_follows] on_store_kept [OF _ put_annotations_follow]
  on_store_kept [OF _ seal_capability_follows] on_store_kept [OF _ seal_item_follows] on_store_kept [OF _ note_ops_follow(1)]
  on_store_kept [OF _ note_ops_follow(2)] on_store_kept [OF _ description_ops_follow(1)]
  on_store_kept [OF _ description_ops_follow(2)] on_store_kept [OF _ remove_annotation_follows]
  on_store_kept [OF _ deletes_follow(1)] on_store_kept [OF _ deletes_follow(2)] on_store_kept [OF _ deletes_follow(3)]
  on_store_kept [OF _ structure_follows(1)] on_store_kept [OF _ structure_follows(3)]
  on_store_kept [OF _ set_description_follows]

lemma plane_store_kept:
  assumes "plane_inv K s" and "world_inv K w"
  shows "plane_inv K (snd (plane_store w name s))"
    and "fst (plane_store w name s) = Inr v \<Longrightarrow> good K (default_if_empty name DefaultVaultName) (snd (plane_store w name s))"
proof -
  obtain r s' where eq: "plane_store w name s = (r, s')" by fastforce
  note frame = plane_store_frame [OF eq]
  have inv: "plane_inv K s'"
    unfolding plane_inv_def
  proof (intro conjI allI impI)
    show "authors_ok (pn_authored s')" using assms(1) frame(2) by (simp add: plane_inv_def)
    show "K n v" if "map_get (pn_vaults s') n = Some v" for n v
      using frame(6) [OF that] assms by (auto simp: plane_inv_def world_inv_def)
  qed
  then show "plane_inv K (snd (plane_store w name s))" using eq by simp
  show "good K (default_if_empty name DefaultVaultName) (snd (plane_store w name s))" if "fst (plane_store w name s) = Inr v"
    using inv frame(5) that eq by (simp add: good_def)
qed

lemma plane_scope_kept:
  assumes "plane_inv K s" and "world_inv K w"
  shows "plane_inv K (snd (plane_scope w sc s))"
    and "fst (plane_scope w sc s) = Inr x \<Longrightarrow> good K (plane_vault sc) (snd (plane_scope w sc s))"
proof -
  have vn: "default_if_empty (plane_vault sc) DefaultVaultName = plane_vault sc"
    by (simp add: plane_vault_def default_if_empty_def DefaultVaultName_def)
  have eq: "snd (plane_scope w sc s) = snd (plane_store w (plane_vault sc) s)"
      "fst (plane_scope w sc s) = Inr x \<Longrightarrow> \<exists>v. fst (plane_store w (plane_vault sc) s) = Inr v"
    by (auto simp: plane_scope_def plane_vault_def case_prod_unfold split: sum.splits)
  show "plane_inv K (snd (plane_scope w sc s))" using plane_store_kept(1) [OF assms] eq(1) by simp
  show "good K (plane_vault sc) (snd (plane_scope w sc s))" if "fst (plane_scope w sc s) = Inr x"
    using eq(2) [OF that] plane_store_kept(2) [OF assms, of "plane_vault sc"] eq(1) vn by auto
qed

lemma store_refreshed_kept: "good K vn (store_refreshed w ci vn' sc vkKey rec blob s) = good K vn s"
  by (simp add: store_refreshed_def Let_def split: sum.splits prod.splits)

lemma refresh_record_kept: "good K vn s \<Longrightarrow> good K vn (refresh_record w ci vn scope vkKey vk rec s)"
  by (simp add: refresh_record_def Let_def case_prod_unfold store_refreshed_kept store_ops split: option.split sum.split)

lemma refresh_kept: "good K vn s \<Longrightarrow> good K vn (refresh_capabilities w ci vk vn scope s)"
proof -
  have "good K vn s \<Longrightarrow> good K vn (fold (refresh_record w ci vn scope vkKey vk) records s)" for vkKey records s
    by (induction records arbitrary: s) (simp_all add: refresh_record_kept)
  then show "good K vn s \<Longrightarrow> ?thesis" by (auto simp: refresh_capabilities_def split: sum.splits)
qed

lemma record_authored_kept:
  assumes "good K vn s" shows "good K vn (record_authored w ci vn scope name a u s)"
proof -
  have "authors_ok f" if "record_author io now key chain a u (pn_authored s) = (r, f)" for io now key chain r f
    using record_author_ok [OF good_authors [OF assms], of io now key chain a u] that by simp
  then show ?thesis
    using assms
    by (auto simp: record_authored_def Let_def split: sum.splits prod.splits intro!: refresh_kept good_authored)
qed

lemma forget_authored_kept:
  assumes "good K vn s" shows "good K vn (forget_authored w ci vn scope names s)"
proof -
  have "authors_ok f" if "forget_author io v p e names (pn_authored s) = (r, f)" for io v p e r f
    using forget_author_ok [OF good_authors [OF assms], of io v p e names] that by simp
  then show ?thesis
    using assms
    by (auto simp: forget_authored_def Let_def split: sum.splits prod.splits intro!: refresh_kept good_authored)
qed

end

end
