(* ===== verification/Plane_Kept.thy ===== *)
theory Plane_Kept
  imports Plane_Props
begin

text \<open>
  Every handler of the daemon over its vaults keeps a condition of \<open>vault_law\<close>; \<open>serve\<close> is the switch of
  \<open>dispatch\<close> over the requests modelled.
\<close>

context vault_law begin

lemmas good_steps = store_ops record_authored_kept forget_authored_kept refresh_kept

lemmas plane_simps = Let_def case_prod_unfold good_steps good_steps [THEN good_inv]

section \<open>Values\<close>

lemma put_reply_kept:
  assumes "good K (plane_vault (pq_scope req)) s"
  shows "good K (plane_vault (pq_scope req)) (snd (put_reply w ci scope req attended authKey r created s))"
  using assms by (simp add: put_reply_def plane_simps split: sum.split)

lemma put_value_kept:
  assumes "good K (plane_vault (pq_scope req)) s"
  shows "good K (plane_vault (pq_scope req)) (snd (put_value w reg ci scope req attended authKey s))"
  using assms by (simp add: put_value_def plane_simps put_reply_kept split: option.split)

lemma handle_put_kept:
  assumes "plane_inv K s" and "world_inv K w"
  shows "plane_inv K (snd (handle_put w reg ci req s))"
proof -
  note scope = plane_scope_kept [OF assms, of "pq_scope req"]
  show ?thesis
    using assms scope
    by (auto simp: handle_put_def plane_simps split: sum.split option.split intro!: good_inv [OF put_value_kept])
qed

lemma handle_get_kept:
  assumes "plane_inv K s" and "world_inv K w"
  shows "plane_inv K (snd (handle_get w reg ci req s))"
  using assms plane_scope_kept [OF assms, of "gq_scope req"]
  by (simp add: handle_get_def get_reply_def plane_simps split: sum.split option.split)

lemma handle_list_kept:
  assumes "plane_inv K s" and "world_inv K w"
  shows "plane_inv K (snd (handle_list w sc s))"
  using assms plane_scope_kept [OF assms, of sc] by (simp add: handle_list_def plane_simps split: sum.split)

lemma delete_value_kept:
  assumes "good K (plane_vault (dq_scope req)) s"
  shows "plane_inv K (snd (delete_value w ci scope req mine s))"
  using assms by (simp add: delete_value_def plane_simps split: sum.split)

lemma handle_delete_kept:
  assumes "plane_inv K s" and "world_inv K w"
  shows "plane_inv K (snd (handle_delete w reg ci req s))"
  using assms plane_scope_kept [OF assms, of "dq_scope req"]
  by (simp add: handle_delete_def plane_simps delete_value_kept split: sum.split option.split)

lemma handle_env_clear_kept:
  assumes "plane_inv K s" and "world_inv K w"
  shows "plane_inv K (snd (handle_env_clear w reg ci req s))"
  using assms plane_scope_kept [OF assms, of "cq_scope req"]
  by (simp add: handle_env_clear_def plane_simps split: sum.split option.split)

lemma handle_rename_kept:
  assumes "plane_inv K s" and "world_inv K w"
  shows "plane_inv K (snd (handle_rename w reg ci req s))"
  using assms plane_scope_kept [OF assms, of "nq_scope req"]
  by (simp add: handle_rename_def plane_simps split: sum.split option.split)

section \<open>Locking, projects and environments\<close>

lemma lock_one_kept:
  assumes "plane_inv K s" shows "plane_inv K (snd (lock_one w ci name s))"
proof -
  have "plane_inv K (s\<lparr>pn_vaults := map_put (pn_vaults s) name (lock_vault v)\<rparr>)" if "map_get (pn_vaults s) name = Some v" for v
    using assms that locked_kept by (auto simp: plane_inv_def)
  then show ?thesis using assms by (simp add: lock_one_def plane_simps split: option.split)
qed

lemma lock_all_kept: "plane_inv K s \<Longrightarrow> plane_inv K (snd (lock_all w ci names s))"
  by (induction names arbitrary: s) (simp_all add: case_prod_unfold lock_one_kept)

lemma handle_vault_lock_kept: "plane_inv K s \<Longrightarrow> plane_inv K (snd (handle_vault_lock w ci raw s))"
  by (simp add: handle_vault_lock_def plane_simps lock_all_kept lock_one_kept)

lemma handle_session_end_kept: "plane_inv K s \<Longrightarrow> plane_inv K (handle_session_end w ci s)"
  by (simp add: handle_session_end_def)

lemma unlocked_store_kept:
  assumes "plane_inv K s" and "world_inv K w"
  shows "plane_inv K (snd (unlocked_store w name s))"
    and "fst (unlocked_store w name s) = Inr v \<Longrightarrow> good K (default_if_empty name DefaultVaultName) (snd (unlocked_store w name s))"
  using plane_store_kept [OF assms, of name] by (auto simp: unlocked_store_def plane_simps split: sum.splits if_splits)

lemma describe_new_kept: "good K vn s \<Longrightarrow> plane_inv K (describe_new w ci vn ref text s)"
  by (simp add: describe_new_def plane_simps good_inv split: sum.split)

lemma handle_project_create_kept:
  assumes "plane_inv K s" and "world_inv K w"
  shows "plane_inv K (snd (handle_project_create w ci raw name text s))"
  using assms unlocked_store_kept [OF assms, of raw]
  by (auto simp: handle_project_create_def plane_simps describe_new_kept split: sum.split)

lemma handle_env_create_kept:
  assumes "plane_inv K s" and "world_inv K w"
  shows "plane_inv K (snd (handle_env_create w ci raw rawProject name text s))"
  using assms unlocked_store_kept [OF assms, of raw]
  by (auto simp: handle_env_create_def plane_simps describe_new_kept split: sum.split)

lemma handle_lists_kept:
  assumes "plane_inv K s" and "world_inv K w"
  shows "plane_inv K (snd (handle_project_list w raw s))" and "plane_inv K (snd (handle_env_list w raw rawProject s))"
    and "plane_inv K (snd (handle_unattended_list w raw s))"
  using assms plane_store_kept(1) [OF assms, of raw]
  by (simp_all add: handle_project_list_def handle_env_list_def handle_unattended_list_def plane_simps split: sum.split)

lemma gated_op_kept:
  assumes "plane_inv K s" and "world_inv K w" and "\<And>v. follows v (snd (f v))"
  shows "plane_inv K (snd (gated_op w reg ci raw scope action pw pt op f s))"
  using assms plane_store_kept [OF assms(1,2), of raw] on_store_kept [OF _ assms(3)] good_inv [OF on_store_kept [OF _ assms(3)]]
  by (auto simp: gated_op_def plane_simps split: sum.split option.split)

lemma gated_handlers_kept:
  assumes "plane_inv K s" and "world_inv K w"
  shows "plane_inv K (snd (handle_project_delete w reg ci raw name pw pt s))"
    and "plane_inv K (snd (handle_project_rename w reg ci raw old new pw pt s))"
    and "plane_inv K (snd (handle_env_delete w reg ci raw rawProject name pw pt s))"
    and "plane_inv K (snd (handle_env_rename w reg ci raw rawProject old new pw pt s))"
  by (simp_all add: handle_project_delete_def handle_project_rename_def handle_env_delete_def handle_env_rename_def Let_def
      assms gated_op_kept vault_follows)

section \<open>Values stored unattended\<close>

lemma import_loop_kept: "good K vn s \<Longrightarrow> good K vn (snd (import_loop w ci vn vk ts out s))"
proof (induction w ci vn vk ts out s rule: import_loop.induct)
  case (2 w ci vn vk t ts imported skipped s)
  obtain r s' where eq: "on_store vn (seal_item w vk t) s = (r, s')" by fastforce
  have "good K vn (snd (on_store vn (seal_item w vk t) s))" by (rule store_ops(4) [OF "2.prems"])
  then have g: "good K vn s'" using eq by simp
  show ?case
  proof (cases r)
    case (Inr b)
    then show ?thesis
      using "2.IH" g eq by (cases b) (simp_all add: Let_def good_forget_quietly)
  qed (use g eq in simp)
qed simp

lemma fold_refresh_kept: "good K vn s \<Longrightarrow> good K vn (fold (\<lambda>scope. refresh_capabilities w ci vk vn scope) scopes s)"
  by (induction scopes arbitrary: s) (simp_all add: refresh_kept)

lemma import_all_kept:
  assumes "good K (plane_vault (iq_scope req)) s"
  shows "plane_inv K (snd (import_all w ci req vk targets skipped s))"
  using import_loop_kept [OF assms, of w ci vk targets "([], skipped)"]
  by (auto simp: import_all_def Let_def split: prod.split sum.split intro: good_inv intro!: good_inv [OF fold_refresh_kept])

lemma handle_unattended_import_kept:
  assumes "plane_inv K s" and "world_inv K w"
  shows "plane_inv K (snd (handle_unattended_import w reg ci req s))"
  using assms plane_scope_kept [OF assms, of "iq_scope req"]
  by (auto simp: handle_unattended_import_def plane_simps split: sum.split option.split prod.split intro: import_all_kept)

end

end
