(* ===== verification/Guarded_Histories.thy ===== *)
theory Guarded_Histories
  imports Histories
begin

text \<open>
  Histories whose events meet a condition of their own, such as what the disk shows them: the condition
  is part of what a step promises. A history without conditions is the special case.
\<close>

locale guarded_history =
  fixes step :: "'e \<Rightarrow> 's \<Rightarrow> 's" and inv :: "'s \<Rightarrow> bool" and fits :: "'e \<Rightarrow> bool"
  assumes step_inv: "fits e \<Longrightarrow> inv s \<Longrightarrow> inv (step e s)"
begin

lemma run_inv: "list_all fits evs \<Longrightarrow> inv s \<Longrightarrow> inv (fold step evs s)"
  by (induction evs arbitrary: s) (simp_all add: step_inv)

lemma run_keeps_unless:
  assumes "list_all fits evs" and "inv s" and "P s"
    and "\<And>s e. fits e \<Longrightarrow> inv s \<Longrightarrow> P s \<Longrightarrow> P (step e s) \<or> Q e s"
  shows "P (fold step evs s) \<or> (\<exists>evs1 e evs2. evs = evs1 @ e # evs2 \<and> Q e (fold step evs1 s))"
  using assms(1)
proof (induction evs rule: rev_induct)
  case Nil
  then show ?case using assms(3) by simp
next
  case (snoc e evs)
  then have fits: "list_all fits evs" "fits e" by simp_all
  consider "P (fold step evs s)" | evs1 e' evs2 where "evs = evs1 @ e' # evs2" "Q e' (fold step evs1 s)"
    using snoc.IH fits(1) by blast
  then show ?case
  proof cases
    case 1
    then show ?thesis using assms(4) [OF fits(2) run_inv [OF fits(1) assms(2)] 1] by fastforce
  next
    case 2
    then have "evs @ [e] = evs1 @ e' # (evs2 @ [e])" by simp
    then show ?thesis using 2(2) by blast
  qed
qed

end

sublocale history \<subseteq> unguarded: guarded_history step inv "\<lambda>_. True"
  by unfold_locales (rule step_inv)

end
