(* ===== verification/Plane_Serve.thy ===== *)
theory Plane_Serve
  imports Plane_Kept Guarded_Histories
begin

text \<open>
  The switch of \<open>dispatch\<close> (\<open>internal/daemon/dispatch.go\<close>) over the requests whose handlers work on the open
  vaults, the registry of authors, the trust file and the approvals, and what any history of requests keeps.
\<close>

section \<open>Trust, approvals and annotations\<close>

context vault_law begin

lemma put_trust_record_kept: "good K vn s \<Longrightarrow> good K vn (snd (put_trust_record w vn path body vkKey pw vk s))"
  by (simp add: put_trust_record_def plane_simps split: option.split sum.split)

lemma handle_trust_grant_kept:
  assumes "plane_inv K s" and "world_inv K w"
  shows "plane_inv K (snd (handle_trust_grant w reg ci raw path pw pt s))"
proof -
  have vn: "default_if_empty (default_if_empty raw DefaultVaultName) DefaultVaultName = default_if_empty raw DefaultVaultName"
    by (simp add: default_if_empty_def DefaultVaultName_def)
  show ?thesis
    using assms plane_store_kept [OF assms, of "default_if_empty raw DefaultVaultName"] vn
    by (auto simp: handle_trust_grant_def plane_simps put_trust_record_kept put_trust_record_kept [THEN good_inv]
        inv_trust_grant split: option.split sum.split)
qed

lemma grant_each_kept: "good K vn s \<Longrightarrow> good K vn (snd (grant_each w ci vn vkKey pw vk paths out s))"
proof (induction paths arbitrary: out s)
  case (Cons p ps)
  let ?r = "case pw_read w p of None \<Rightarrow> (None, s) | Some (body, _) \<Rightarrow> put_trust_record w vn p body vkKey pw vk s"
  have "good K vn (snd ?r)" using Cons.prems by (simp add: put_trust_record_kept split: option.split prod.split)
  moreover obtain g s' where "?r = (g, s')" by fastforce
  ultimately show ?case using Cons.IH by (cases g) simp_all
qed simp

lemma handle_trust_grant_bulk_kept:
  assumes "plane_inv K s" and "world_inv K w"
  shows "plane_inv K (snd (handle_trust_grant_bulk w reg ci raw paths pw pt s))"
proof -
  have vn: "default_if_empty (default_if_empty raw DefaultVaultName) DefaultVaultName = default_if_empty raw DefaultVaultName"
    by (simp add: default_if_empty_def DefaultVaultName_def)
  show ?thesis
    using assms plane_store_kept [OF assms, of "default_if_empty raw DefaultVaultName"] vn
    by (auto simp: handle_trust_grant_bulk_def plane_simps grant_each_kept [THEN good_inv] inv_trust_grant split: sum.split)
qed

lemma handle_trust_remove_kept: "plane_inv K s \<Longrightarrow> plane_inv K (snd (handle_trust_remove w path s))"
  by (simp add: handle_trust_remove_def case_prod_unfold split: sum.split)

lemma handle_trust_verify_kept:
  assumes "plane_inv K s" and "world_inv K w"
  shows "plane_inv K (snd (handle_trust_verify w ci raw path command s))"
  using assms plane_store_kept(1) [OF assms]
  by (auto simp: handle_trust_verify_def plane_simps split: option.split sum.split)

lemma handle_approval_list_kept: "plane_inv K s \<Longrightarrow> plane_inv K (snd (handle_approval_list w st s))"
  by (simp add: handle_approval_list_def case_prod_unfold split: sum.split)

lemma revoke_now_kept: "plane_inv K s \<Longrightarrow> plane_inv K (snd (revoke_now w ci req s))"
  by (cases "fst (revoke (pw_io w CallQueueDecide) (wo_now w) (kq_id req) (dm_queue (pn_daemon s)))")
    (auto simp: revoke_now_def case_prod_unfold split: approval_error.split)

lemma decide_now_kept: "plane_inv K s \<Longrightarrow> plane_inv K (snd (decide_now w ci pending req s))"
proof -
  have step: "plane_inv K (snd (case X of (Inl _, q) \<Rightarrow> (Inl e, set_queue q s) | (Inr d, q) \<Rightarrow> (Inr d, emitting w (f d) (set_queue q s))))"
    if "plane_inv K s" for X :: "(approval_error + request) \<times> queue" and e :: ipc_error and f
    using that by (cases X; cases "fst X") simp_all
  have if_kept: "plane_inv K (snd (if c then (Inl e, s) else y))" if "plane_inv K s" "plane_inv K (snd y)"
    for c and e :: ipc_error and y :: "(ipc_error + request) \<times> plane"
    using that by simp
  show "plane_inv K s \<Longrightarrow> ?thesis"
    unfolding decide_now_def Let_def by (intro if_kept step)
qed

lemma seal_adhoc_kept: "good K vn s \<Longrightarrow> good K vn (snd (seal_adhoc_grant w vn pending req s))"
  by (simp add: seal_adhoc_grant_def plane_simps split: sum.split)

lemma apply_trust_approval_kept: "good K vn s \<Longrightarrow> good K vn (snd (apply_trust_approval w reg vn pending pw s))"
  by (simp add: apply_trust_approval_def plane_simps put_trust_record_kept split: sum.split option.split)

lemma approve_effects_kept:
  assumes "plane_inv K s" and "world_inv K w"
  shows "plane_inv K (snd (approve_effects w reg pending req s))"
proof -
  let ?vn = "default_if_empty (rq_vault pending) DefaultVaultName"
  have vn: "default_if_empty ?vn DefaultVaultName = ?vn" by (simp add: default_if_empty_def DefaultVaultName_def)
  show ?thesis
    using assms plane_store_kept [OF assms, of ?vn] vn
    by (auto simp: approve_effects_def plane_simps seal_adhoc_kept seal_adhoc_kept [THEN good_inv]
        apply_trust_approval_kept [THEN good_inv] split: sum.split option.split)
qed

lemma handle_approval_decide_kept:
  assumes "plane_inv K s" and "world_inv K w"
  shows "plane_inv K (snd (handle_approval_decide w reg ci req s))"
  using assms approve_effects_kept [OF assms]
  by (auto simp: handle_approval_decide_def case_prod_unfold revoke_now_kept decide_now_kept
      split: sum.split approval_error.split option.split)

lemma annotating_kept:
  assumes "plane_inv K s" and "world_inv K w"
    and "\<And>ref author s. good K (plane_vault (xq_scope req)) s \<Longrightarrow> plane_inv K (snd (f ref author s))"
  shows "plane_inv K (snd (annotating w reg ci req op f s))"
  using assms plane_scope_kept [OF assms(1,2), of "xq_scope req"]
  by (auto simp: annotating_def plane_simps good_inv [of _ "plane_vault (xq_scope req)"] split: sum.split option.split)

lemma annotated_kept: "plane_inv K (snd out) \<Longrightarrow> plane_inv K (snd (annotated w ci req op touch out))"
  by (simp add: annotated_def case_prod_unfold split: sum.split)

lemma annotation_writes_kept:
  assumes "plane_inv K s" and "world_inv K w"
  shows "plane_inv K (snd (handle_annotation_set w reg ci req s))"
    and "plane_inv K (snd (handle_annotation_add w reg ci req s))"
    and "plane_inv K (snd (handle_annotation_edit w reg ci req s))"
    and "plane_inv K (snd (handle_annotation_remove w reg ci req s))"
  unfolding handle_annotation_set_def handle_annotation_add_def handle_annotation_edit_def handle_annotation_remove_def
  by (auto intro!: annotating_kept [OF assms] annotated_kept store_ops [THEN good_inv])

lemma annotation_reads_kept:
  assumes "plane_inv K s" and "world_inv K w"
  shows "plane_inv K (snd (handle_annotation_list w reg ci lreq s))"
    and "plane_inv K (snd (handle_annotation_history w reg ci req s))"
  using assms plane_scope_kept [OF assms, of "lq_scope lreq"] plane_scope_kept [OF assms, of "xq_scope req"]
  by (simp_all add: handle_annotation_list_def list_gated_notes_def handle_annotation_history_def plane_simps
      split: sum.split option.split)

section \<open>Unlocking\<close>

text \<open>The one handler that puts a key into memory, and when it does.\<close>

lemma handle_vault_unlock_kept:
  assumes "plane_inv K s" and "world_inv K w"
  shows "plane_inv K (snd (handle_vault_unlock w ci raw pw s)) \<or>
    check_limiter (wo_now w) (dm_limiter (pn_daemon s)) = None \<and>
    (\<exists>v. map_get (pn_vaults (snd (plane_store w (default_if_empty raw DefaultVaultName) s))) (default_if_empty raw DefaultVaultName) = Some v \<and>
      K (default_if_empty raw DefaultVaultName) v \<and> fst (unlock_vault (pw_lib w) pw v) = Inr () \<and>
      \<not> K (default_if_empty raw DefaultVaultName) (snd (unlock_vault (pw_lib w) pw v)))"
proof -
  let ?n = "default_if_empty raw DefaultVaultName" and ?s = "snd (plane_store w (default_if_empty raw DefaultVaultName) s)"
  let ?v = "store_of ?s ?n"
  have vn: "default_if_empty ?n DefaultVaultName = ?n" by (simp add: default_if_empty_def DefaultVaultName_def)
  note store = plane_store_kept [OF assms, of ?n]
  have good: "good K ?n ?s" if "fst (plane_store w ?n s) = Inr v" for v using store(2) [OF that] vn by simp
  have at: "map_get (pn_vaults ?s) ?n = Some ?v" "K ?n ?v" if "good K ?n ?s"
    using that by (auto simp: good_def plane_inv_def store_of_def)
  have unlocked: "plane_inv K (snd (on_store ?n (unlock_vault (pw_lib w) pw) ?s))"
    if "good K ?n ?s" and "K ?n (snd (unlock_vault (pw_lib w) pw ?v))"
    using that by (auto simp: good_def plane_inv_def on_store_def case_prod_unfold)
  have result: "fst (on_store ?n (unlock_vault (pw_lib w) pw) ?s) = fst (unlock_vault (pw_lib w) pw ?v)"
    by (simp add: on_store_def case_prod_unfold)
  have failed: "snd (unlock_vault (pw_lib w) pw ?v) = ?v" if "fst (unlock_vault (pw_lib w) pw ?v) = Inl e" for e
    using that by (simp add: unlock_vault_def split: sum.splits)
  show ?thesis
  proof (cases "\<exists>v. fst (plane_store w ?n s) = Inr v")
    case True
    then have g: "good K ?n ?s" using good by blast
    consider "K ?n (snd (unlock_vault (pw_lib w) pw ?v))"
      | "fst (unlock_vault (pw_lib w) pw ?v) = Inr ()" "\<not> K ?n (snd (unlock_vault (pw_lib w) pw ?v))"
      using failed at(2) [OF g] by (cases "fst (unlock_vault (pw_lib w) pw ?v)") auto
    then show ?thesis
    proof cases
      case 1
      then show ?thesis using assms(1) unlocked [OF g 1] store(1) by (simp add: handle_vault_unlock_def plane_simps split: sum.split)
    next
      case 2
      then show ?thesis using assms(1) at [OF g] by (auto simp: handle_vault_unlock_def plane_simps)
    qed
  next
    case False
    then show ?thesis
      using assms(1) store(1) by (cases "fst (plane_store w ?n s)") (auto simp: handle_vault_unlock_def plane_simps)
  qed
qed

end

section \<open>The switch\<close>

datatype plane_req =
    VaultUnlock string bytes | VaultLock string | SessionEnd
  | ProjectCreate string string string | ProjectList string | ProjectDelete string string bytes string
  | ProjectRename string string string bytes string
  | EnvCreate string string string string | EnvList string string | EnvDelete string string string bytes string
  | EnvRename string string string string bytes string | EnvClear clear_req
  | Put put_req | Get get_req | ListValues ipc_scope | Delete delete_req | Rename rename_req
  | UnattendedList string | UnattendedImport import_req
  | AnnotationSet note_req | AnnotationAdd note_req | AnnotationEdit note_req | AnnotationRemove note_req
  | AnnotationList list_notes_req | AnnotationHistory note_req
  | ApprovalList "status option" | ApprovalDecide decide_req
  | TrustList | TrustRemove string | TrustGrant string string bytes string | TrustGrantBulk string "string list" bytes string
  | TrustVerify string string string

text \<open>An answer, without its body.\<close>

definition answer :: "(ipc_error + 'a) \<times> plane \<Rightarrow> ipc_error option \<times> plane" where
  "answer r = (err_of (fst r), snd r)"

fun serve :: "plane_world \<Rightarrow> registry \<Rightarrow> caller \<Rightarrow> plane_req \<Rightarrow> plane \<Rightarrow> ipc_error option \<times> plane" where
  "serve w reg ci (VaultUnlock raw pw) s = answer (handle_vault_unlock w ci raw pw s)"
| "serve w reg ci (VaultLock raw) s = answer (handle_vault_lock w ci raw s)"
| "serve w reg ci SessionEnd s = (None, handle_session_end w ci s)"
| "serve w reg ci (ProjectCreate raw name t) s = answer (handle_project_create w ci raw name t s)"
| "serve w reg ci (ProjectList raw) s = answer (handle_project_list w raw s)"
| "serve w reg ci (ProjectDelete raw name pw pt) s = answer (handle_project_delete w reg ci raw name pw pt s)"
| "serve w reg ci (ProjectRename raw old new pw pt) s = answer (handle_project_rename w reg ci raw old new pw pt s)"
| "serve w reg ci (EnvCreate raw project name t) s = answer (handle_env_create w ci raw project name t s)"
| "serve w reg ci (EnvList raw project) s = answer (handle_env_list w raw project s)"
| "serve w reg ci (EnvDelete raw project name pw pt) s = answer (handle_env_delete w reg ci raw project name pw pt s)"
| "serve w reg ci (EnvRename raw project old new pw pt) s = answer (handle_env_rename w reg ci raw project old new pw pt s)"
| "serve w reg ci (EnvClear req) s = answer (handle_env_clear w reg ci req s)"
| "serve w reg ci (Put req) s = answer (handle_put w reg ci req s)"
| "serve w reg ci (Get req) s = answer (handle_get w reg ci req s)"
| "serve w reg ci (ListValues sc) s = answer (handle_list w sc s)"
| "serve w reg ci (Delete req) s = answer (handle_delete w reg ci req s)"
| "serve w reg ci (Rename req) s = answer (handle_rename w reg ci req s)"
| "serve w reg ci (UnattendedList raw) s = answer (handle_unattended_list w raw s)"
| "serve w reg ci (UnattendedImport req) s = answer (handle_unattended_import w reg ci req s)"
| "serve w reg ci (AnnotationSet req) s = answer (handle_annotation_set w reg ci req s)"
| "serve w reg ci (AnnotationAdd req) s = answer (handle_annotation_add w reg ci req s)"
| "serve w reg ci (AnnotationEdit req) s = answer (handle_annotation_edit w reg ci req s)"
| "serve w reg ci (AnnotationRemove req) s = answer (handle_annotation_remove w reg ci req s)"
| "serve w reg ci (AnnotationList lreq) s = answer (handle_annotation_list w reg ci lreq s)"
| "serve w reg ci (AnnotationHistory req) s = answer (handle_annotation_history w reg ci req s)"
| "serve w reg ci (ApprovalList st) s = answer (handle_approval_list w st s)"
| "serve w reg ci (ApprovalDecide dreq) s = answer (handle_approval_decide w reg ci dreq s)"
| "serve w reg ci TrustList s = answer (handle_trust_list w s, s)"
| "serve w reg ci (TrustRemove path) s = answer (handle_trust_remove w path s)"
| "serve w reg ci (TrustGrant raw path pw pt) s = answer (handle_trust_grant w reg ci raw path pw pt s)"
| "serve w reg ci (TrustGrantBulk raw paths pw pt) s = answer (handle_trust_grant_bulk w reg ci raw paths pw pt s)"
| "serve w reg ci (TrustVerify raw path command) s = answer (handle_trust_verify w ci raw path command s)"

context vault_law begin

lemma serve_kept:
  assumes "plane_inv K s" and "world_inv K w" and "\<And>raw pw. req \<noteq> VaultUnlock raw pw"
  shows "plane_inv K (snd (serve w reg ci req s))"
proof (cases req)
  case (VaultUnlock raw pw)
  then show ?thesis using assms(3) by blast
qed (simp_all add: answer_def handle_put_kept [OF assms(1,2)] handle_get_kept [OF assms(1,2)]
    handle_list_kept [OF assms(1,2)] handle_delete_kept [OF assms(1,2)] handle_env_clear_kept [OF assms(1,2)]
    handle_rename_kept [OF assms(1,2)] handle_vault_lock_kept [OF assms(1)] handle_session_end_kept [OF assms(1)]
    handle_project_create_kept [OF assms(1,2)] handle_env_create_kept [OF assms(1,2)] handle_lists_kept [OF assms(1,2)]
    gated_handlers_kept [OF assms(1,2)] handle_unattended_import_kept [OF assms(1,2)] handle_trust_grant_kept [OF assms(1,2)]
    handle_trust_grant_bulk_kept [OF assms(1,2)] handle_trust_remove_kept [OF assms(1)] handle_trust_verify_kept [OF assms(1,2)]
    handle_approval_list_kept [OF assms(1)] handle_approval_decide_kept [OF assms(1,2)] annotation_writes_kept [OF assms(1,2)]
    annotation_reads_kept [OF assms(1,2)] assms(1))

end

text \<open>A call: what it reads, the providers of credentials, who makes it, and what is asked.\<close>

record plane_request =
  pc_world :: plane_world
  pc_registry :: registry
  pc_caller :: caller
  pc_req :: plane_req

definition plane_step :: "plane_request \<Rightarrow> plane \<Rightarrow> plane" where
  "plane_step c s = snd (serve (pc_world c) (pc_registry c) (pc_caller c) (pc_req c) s)"

definition run_plane :: "plane_request list \<Rightarrow> plane \<Rightarrow> plane" where
  "run_plane calls s = fold plane_step calls s"

end
