(* ===== verification/Plane_Examples.thy ===== *)
theory Plane_Examples
  imports Plane_Serve Vault_Grant_Claims
begin

text \<open>
  A small daemon for the witnesses: the vault of \<open>Vault_Examples\<close>, open under its default name, an agent
  that calls without any credential, and a world in which every read and write succeeds.
\<close>

text \<open>Its capabilities all carry one key, the authored key of a scope.\<close>

definition toy_lib :: crypto_lib where
  "toy_lib = toy_crypto\<lparr>cl_unmarshal := (\<lambda>_. Some [(CapAuthoredKeyName, toy_key)])\<rparr>"

lemma toy_lib_works: "aead_works toy_lib"
  using toy_works by (simp add: aead_works_def toy_lib_def)

text \<open>A file that reserves its names for a person, and one that says nothing.\<close>

definition toy_parse :: "bytes \<Rightarrow> byn_file option" where
  "toy_parse b = Some (if b = ''deny'' then empty_byn_file\<lparr>bf_agent_put := Some False\<rparr> else empty_byn_file)"

definition toy_world :: plane_world where
  "toy_world = \<lparr>wo_now = 100, wo_sha256 = (\<lambda>x. x), wo_hmac = (\<lambda>_ _. ''t''), wo_disk = (\<lambda>_. Inl OpenNotInit),
     wo_trust_io = io_ok, wo_trust = [], wo_fp_key = Some ''m'', wo_limiter_io = None, wo_procs = ex_procs,
     pw_lib = toy_lib, pw_disk = (\<lambda>_. Inl OpenNotInit), pw_parse = toy_parse,
     pw_limits = \<lparr>al_description = 0, al_note = 0, al_notes = 0\<rparr>, pw_unix = 5, pw_io = (\<lambda>_. io_ok),
     pw_draw = (\<lambda>_. Some toy_nonce), pw_token = ''tok'', pw_owner = 501, pw_peer_tty = (\<lambda>_. 0),
     pw_canonicalize = (\<lambda>p. p), pw_read = (\<lambda>_. Some (''new'', 7)), pw_stat = (\<lambda>_. Some 7), pw_compile = (\<lambda>_. None)\<rparr>"

definition toy_daemon :: daemon where
  "toy_daemon = \<lparr>dm_vaults = [], dm_sessions = new_session_store 0 0, dm_presence = [], dm_limiter = new_rate_limiter None,
     dm_queue = empty_queue, dm_effects = []\<rparr>"

definition toy_plane :: "vault \<Rightarrow> plane" where
  "toy_plane v = \<lparr>pn_daemon = toy_daemon, pn_vaults = [(''default'', v)], pn_authored = None, pn_trust = []\<rparr>"

definition toy_caller :: caller where
  "toy_caller = \<lparr>ci_uid = 501, ci_pid = 90, ci_tty = 0, ci_comm = ''agent'', ci_pcomm = ''bash'', ci_surface = ''socket'', ci_session = []\<rparr>"

definition toy_registry :: registry where "toy_registry = built_in_providers (world.truncate toy_world) toy_caller"

lemma toy_world_simps [simp]:
  "wo_now toy_world = 100" "wo_fp_key toy_world = Some ''m''" "wo_procs toy_world = ex_procs" "wo_limiter_io toy_world = None"
  "pw_lib toy_world = toy_lib" "pw_disk toy_world n = Inl OpenNotInit" "pw_parse toy_world = toy_parse" "pw_unix toy_world = 5"
  "pw_io toy_world c = io_ok" "pw_draw toy_world c = Some toy_nonce" "pw_read toy_world p = Some (''new'', 7)"
  "pw_stat toy_world p = Some 7" "pw_canonicalize toy_world p = p" "wo_sha256 toy_world = (\<lambda>x. x)" "wo_hmac toy_world = (\<lambda>_ _. ''t'')"
  by (simp_all add: toy_world_def)

lemma toy_plane_simps [simp]:
  "pn_daemon (toy_plane v) = toy_daemon" "pn_vaults (toy_plane v) = [(''default'', v)]" "pn_authored (toy_plane v) = None"
  "pn_trust (toy_plane v) = []" "store_of (toy_plane v) ''default'' = v" "map_get [(''default'', v)] ''default'' = Some v"
  by (simp_all add: toy_plane_def store_of_def map_get_def)

lemma toy_locked [simp]: "is_locked (lock_vault v)" by (simp add: is_locked_def lock_vault_def)

section \<open>A vault with one value\<close>

definition toy_row :: "int \<Rightarrow> int \<Rightarrow> entry_row" where
  "toy_row eid ver = \<lparr>nt_id = next_id TEntries (vt_db toy_vault), nt_project = 1, nt_env = eid, nt_kind = EnvVar, nt_name = ''TOKEN'',
     nt_value = toy_sealed eid ''abc'', nt_aad = ver, nt_created = 5, nt_updated = 5\<rparr>"

definition toy_holding :: "int \<Rightarrow> int \<Rightarrow> vault" where
  "toy_holding eid ver = toy_vault\<lparr>vt_db := upsert_env_var 5 1 eid ''TOKEN'' (toy_sealed eid ''abc'') ver (vt_db toy_vault)\<rparr>"

lemma toy_holding_simps [simp]:
  "vt_key (toy_holding eid ver) = Some toy_key" "vt_id (toy_holding eid ver) = ''id''" "vt_wrapped (toy_holding eid ver) = Some toy_wrapped"
  "db_entries (vt_db (toy_holding eid ver)) = [toy_row eid ver]"
  "env_at (vt_db (toy_holding eid ver)) toy_default = Some (1, 1)" "env_at (vt_db (toy_holding eid ver)) toy_prod = Some (1, 2)"
proof -
  have no: "row_at (vt_db toy_vault) p e n = None" for p e n by (simp add: row_at_def toy_no_entries)
  have db: "vt_db (toy_holding eid ver) = take_id TEntries ((vt_db toy_vault)\<lparr>db_entries := [toy_row eid ver]\<rparr>)"
    by (simp add: toy_holding_def upsert_env_var_def no toy_no_entries toy_row_def)
  have same: "env_at (take_id TEntries (d\<lparr>db_entries := x\<rparr>)) sc = env_at d sc" for d x sc
    by (simp add: take_id_def env_at_def find_project_def find_env_def split: option.split)
  show "vt_key (toy_holding eid ver) = Some toy_key" "vt_id (toy_holding eid ver) = ''id''" "vt_wrapped (toy_holding eid ver) = Some toy_wrapped"
    by (simp_all add: toy_holding_def toy_vault_key)
  show "db_entries (vt_db (toy_holding eid ver)) = [toy_row eid ver]" by (simp add: db take_id_def)
  show "env_at (vt_db (toy_holding eid ver)) toy_default = Some (1, 1)" "env_at (vt_db (toy_holding eid ver)) toy_prod = Some (1, 2)"
    using toy_envs same by (simp_all add: db)
qed

lemma toy_holding_ok:
  assumes "eid = 1 \<or> eid = 2" shows "db_ok (vt_db (toy_holding eid ver))"
proof -
  obtain s where "env_at (vt_db toy_vault) s = Some (1, eid)" using assms toy_envs by blast
  then show ?thesis unfolding toy_holding_def by (simp add: ok_upsert [OF toy_vault_ok])
qed

lemma toy_row_at: "row_at (vt_db (toy_holding eid ver)) 1 e ''TOKEN'' = (if e = eid then Some (toy_row eid ver) else None)"
  by (simp add: row_at_def toy_row_def)

lemma toy_unlocked [simp]: "\<not> is_locked (toy_holding eid ver)" by (simp add: is_locked_def)

section \<open>Requests\<close>

definition toy_scope :: "string \<Rightarrow> ipc_scope" where
  "toy_scope env = \<lparr>is_vault = [], is_project = [], is_env = env\<rparr>"

lemma toy_vault_name [simp]: "plane_vault (toy_scope env) = ''default''"
  by (simp add: plane_vault_def toy_scope_def DefaultVaultName_def default_if_empty_def)

lemma toy_scope_of [simp]: "scope_of (toy_scope ''prod'') = toy_prod" "scope_of (toy_scope ''default'') = toy_default"
  by (simp_all add: scope_of_def toy_scope_def toy_prod_def toy_default_def default_if_empty_def DefaultProjectName_def DefaultEnvName_def)

lemma toy_opened:
  assumes "map_get (pn_vaults s) ''default'' = Some v"
  shows "plane_store w ''default'' s = (Inr v, s)" "plane_store w [] s = (Inr v, s)"
    "plane_scope w (toy_scope env) s = (Inr (v, scope_of (toy_scope env)), s)"
proof -
  have "vault_name_re ''default''" by code_simp
  then show "plane_store w ''default'' s = (Inr v, s)" "plane_store w [] s = (Inr v, s)"
    "plane_scope w (toy_scope env) s = (Inr (v, scope_of (toy_scope env)), s)"
    using assms
    by (simp_all add: plane_store_def plane_scope_def toy_scope_def default_if_empty_def DefaultVaultName_def Let_def)
qed

end
