(* ===== verification/Plane_Breaks.thy ===== *)
theory Plane_Breaks
  imports Plane_Examples Approval_Claims
begin

text \<open>
  Where the handlers do not do what they mean to: a password tried without the throttle, one that is
  taken for presence without being checked, authorship that outlives its value, and approvals that grant what
  nobody was shown.
\<close>

section \<open>What a scope gives\<close>

lemma scope_store:
  assumes "plane_scope w sc s = (Inr (v, scope), s1)"
  shows "map_get (pn_vaults s1) (plane_vault sc) = Some v" "store_of s1 (plane_vault sc) = v"
    and "pn_daemon s1 = pn_daemon s" "pn_trust s1 = pn_trust s" "pn_authored s1 = pn_authored s"
proof -
  have store: "plane_store w (plane_vault sc) s = (Inr v, s1)"
    using assms by (auto simp: plane_scope_def plane_vault_def split: prod.splits sum.splits)
  have "default_if_empty (plane_vault sc) DefaultVaultName = plane_vault sc"
    by (simp add: plane_vault_def default_if_empty_def DefaultVaultName_def)
  then show "map_get (pn_vaults s1) (plane_vault sc) = Some v" "store_of s1 (plane_vault sc) = v"
    and "pn_daemon s1 = pn_daemon s" "pn_trust s1 = pn_trust s" "pn_authored s1 = pn_authored s"
    using plane_store_frame(5) [OF store, of v] plane_store_frame(1-3) [OF store] by (simp_all add: store_of_def)
qed

lemma default_name [simp]: "default_if_empty (default_if_empty n DefaultVaultName) DefaultVaultName = default_if_empty n DefaultVaultName"
  by (simp add: default_if_empty_def DefaultVaultName_def)

lemma scope_again:
  assumes "plane_scope w sc s = (Inr (v, scope), s1)"
  shows "plane_scope w sc s1 = (Inr (v, scope), s1)"
  using assms scope_store(1) [OF assms]
  by (auto simp: plane_scope_def plane_store_def plane_vault_def Let_def split: prod.splits sum.splits if_splits option.splits)

lemma attended_with_password:
  assumes "pw \<noteq> []"
  obtains s' where "attended_plane w ci vn pw pt s = (True, s')" and "pn_vaults s' = pn_vaults s"
    and "dm_limiter (pn_daemon s') = dm_limiter (pn_daemon s)"
  using assms by (intro that [of "s\<lparr>pn_daemon := gate_daemon w s\<rparr>"])
    (simp_all add: attended_plane_def caller_is_attended_def gate_def gate_daemon_def)

lemma emitted_limiter [simp]:
  "dm_limiter (pn_daemon (audit_plane w ci sc k n op r s)) = dm_limiter (pn_daemon s)"
  by (simp add: audit_plane_def emitting_def audit_emit_def emit_def gate_daemon_def Let_def split: option.split)

section \<open>Guessing the password\<close>

text \<open>Putting a name that is there already, create only, into a locked vault: the password alone decides.\<close>

lemma seals_with_key:
  assumes "aead_works cl" and "length key = 32" and "length nonce = 24"
  shows "\<exists>ct. seal_entry cl vid (Some nonce) key pid eid EnvVar name val = Inr ct"
proof -
  obtain k where k: "v3_row_key cl vid key pid eid EnvVar name = Inr k" using v3_row_key_total [OF assms(1,2)] by blast
  then have "length k = 32" by (rule v3_row_key_length [OF assms(1)])
  then show ?thesis using k by (simp add: seal_entry_def encrypt_with_aad_def VaultKeySize_def)
qed

text \<open>
  C17. A put into a locked vault tells whether a password is the right one, and no guess is counted: for a name
  that is there already, with create-only, the answer is \<open>already_exists\<close> exactly for a password that unwraps the
  key and \<open>internal\<close> for any other, whatever the throttle says, and the throttle is the same afterwards.
\<close>

theorem put_guesses_unthrottled:
  assumes scope: "plane_scope w (pq_scope req) s = (Inr (v, scope), s1)" and locked: "is_locked v"
    and pw: "pq_password req \<noteq> []" and create: "pq_create_only req"
    and name: "checked_name scope (pq_name req) = None" "length (pq_value req) \<le> MaxValueLen"
    and row: "env_at (vt_db v) scope = Some (pid, eid)" "row_at (vt_db v) pid eid (pq_name req) \<noteq> None"
    and works: "aead_works (pw_lib w)" "pw_draw w CallPutCreate = Some nonce" "length nonce = 24" "pw_io w CallPutCreate = io_ok"
    and keys: "\<And>key. unwrap_vault_key (pw_lib w) (pq_password req) v = Inr key \<Longrightarrow> length key = 32"
    and out: "handle_put w reg ci req s = (r, s')"
  shows "r = Inl (new_error (if verify_password (pw_lib w) (pq_password req) v = Inr () then CodeAlreadyExists else CodeInternal)) \<and>
    dm_limiter (pn_daemon s') = dm_limiter (pn_daemon s)"
proof -
  let ?vn = "plane_vault (pq_scope req)"
  note at = scope_store [OF scope]
  obtain s2 where s2: "attended_plane w ci ?vn (pq_password req) (pq_presence req) s1 = (True, s2)" "pn_vaults s2 = pn_vaults s1"
      "dm_limiter (pn_daemon s2) = dm_limiter (pn_daemon s1)"
    by (rule attended_with_password [OF pw])
  have s: "store_of s2 ?vn = v" using at(2) s2(2) by (simp add: store_of_def)
  have ids: "scope_ids io_ok (vt_db v) scope = Inr (pid, eid)" using row(1) by (simp add: scope_ids_Inr)
  have put: "put_as w scope req None True v =
      (Inl (case unwrap_vault_key (pw_lib w) (pq_password req) v of Inl e \<Rightarrow> e | Inr _ \<Rightarrow> ErrEntryExists), v)"
  proof (cases "unwrap_vault_key (pw_lib w) (pq_password req) v")
    case (Inr key)
    obtain ct where "seal_entry (pw_lib w) (vt_id v) (Some nonce) key pid eid EnvVar (pq_name req) (pq_value req) = Inr ct"
      using seals_with_key [OF works(1) keys [OF Inr] works(3)] by blast
    then show ?thesis
      using Inr locked pw name ids works(2,4) row(2)
      by (simp add: put_as_def put_env_var_with_password_def put_with_key_def write_env_var_def transact_def)
  qed (use locked pw name works(4) in \<open>simp add: put_as_def put_env_var_with_password_def\<close>)
  let ?e = "case unwrap_vault_key (pw_lib w) (pq_password req) v of Inl e \<Rightarrow> e | Inr _ \<Rightarrow> ErrEntryExists"
  have kept: "on_store ?vn (put_as w scope req None True) s2 = (Inl ?e, s2\<lparr>pn_vaults := map_put (pn_vaults s2) ?vn v\<rparr>)"
    using put by (simp add: on_store_def s)
  have bad: "map_vault_err e = new_error CodeInternal" if "unwrap_vault_key (pw_lib w) (pq_password req) v = Inl e" for e
    using that by (auto simp: unwrap_vault_key_def as_vault_def split: option.splits sum.splits)
  have "put_value w reg ci scope req True None s2 =
      audited w ci (pq_scope req) (pq_name req) ''put'' (Inl (map_vault_err ?e)) (s2\<lparr>pn_vaults := map_put (pn_vaults s2) ?vn v\<rparr>)"
    unfolding put_value_def Let_def kept by (simp add: create put_reply_def)
  moreover have "handle_put w reg ci req s = put_value w reg ci scope req True None s2"
    using scope pw s2(1) by (simp add: handle_put_def Let_def)
  ultimately have "r = Inl (map_vault_err ?e)" and "dm_limiter (pn_daemon s') = dm_limiter (pn_daemon s)"
    using out s2(3) at(3) by (auto simp: audited_def)
  then show ?thesis
    using bad by (auto simp: verify_password_def split: sum.splits)
qed

section \<open>A password that nobody checks\<close>

text \<open>
  C18. Any password at all, right or wrong, passes for a person: with the vault unlocked, a caller without a
  session whom the project refuses an unattended put stores the same value with whatever password it makes up,
  and the answer says that a person was there.
\<close>

theorem unchecked_password_escapes_the_put_rule:
  assumes scope: "plane_scope w (pq_scope req) s = (Inr (v, scope), s1)" and unlocked: "\<not> is_locked v"
    and denied: "\<not> unattended_put_allowed w (plane_vault (pq_scope req)) scope (pq_name req) s1"
    and caller: "ci_session ci = []" "pq_presence req = []"
    and put: "put_env_var (pw_lib w) (pw_io w CallPutCreate) (pw_unix w) (pw_draw w CallPutCreate) scope (pq_name req) (pq_value req)
      True v = (Inr (), v')"
    and pw: "pw \<noteq> []"
  shows "fst (handle_put w reg ci (req\<lparr>pq_password := []\<rparr>) s) = Inl (new_error CodeAuthRequired) \<and>
    (\<exists>annotated. fst (handle_put w reg ci (req\<lparr>pq_password := pw\<rparr>) s) =
      Inr \<lparr>pp_unattended = False, pp_created = True, pp_annotated = annotated\<rparr>)"
proof (rule conjI)
  let ?vn = "plane_vault (pq_scope req)"
  note at = scope_store [OF scope]
  have gone: "attended_plane w ci ?vn [] [] s1 = (False, emitting w id s1)"
    using caller by (simp add: attended_plane_def caller_is_attended_def gate_def emitting_def)
  have "unattended_put_allowed w ?vn scope (pq_name req) (emitting w id s1) = unattended_put_allowed w ?vn scope (pq_name req) s1"
    by (simp add: unattended_put_allowed_def)
  then show "fst (handle_put w reg ci (req\<lparr>pq_password := []\<rparr>) s) = Inl (new_error CodeAuthRequired)"
    using scope caller(2) gone denied by (simp add: handle_put_def audited_def Let_def)
  obtain s2 where s2: "attended_plane w ci ?vn pw [] s1 = (True, s2)" "pn_vaults s2 = pn_vaults s1"
    by (rule attended_with_password [OF pw])
  have s: "store_of s2 ?vn = v" using at(2) s2(2) by (simp add: store_of_def)
  have "put_as w scope (req\<lparr>pq_password := pw\<rparr>) None True v = (Inr (), v')"
    using put unlocked by (simp add: put_as_def)
  then have stored: "on_store ?vn (put_as w scope (req\<lparr>pq_password := pw\<rparr>) None True) s2 =
      (Inr (), s2\<lparr>pn_vaults := map_put (pn_vaults s2) ?vn v'\<rparr>)"
    by (simp add: on_store_def s)
  have "handle_put w reg ci (req\<lparr>pq_password := pw\<rparr>) s = put_value w reg ci scope (req\<lparr>pq_password := pw\<rparr>) True None s2"
    using scope caller(2) pw s2(1) by (simp add: handle_put_def Let_def)
  then show "\<exists>annotated. fst (handle_put w reg ci (req\<lparr>pq_password := pw\<rparr>) s) =
      Inr \<lparr>pp_unattended = False, pp_created = True, pp_annotated = annotated\<rparr>"
    using stored by (simp add: put_value_def put_reply_def audited_def case_prod_unfold Let_def)
qed

section \<open>Authorship that outlives the value\<close>

lemma refresh_frame [simp]: "pn_authored (refresh_record w ci vn scope vkKey vk rec s) = pn_authored s"
proof -
  have o: "pn_authored s' = pn_authored s" if "on_store vn f s = (r, s')" for f r s'
    using on_store_frame [OF that] by simp
  have t: "pn_authored (store_refreshed w ci vn sc vkKey rec blob s') = pn_authored s'" for sc blob s'
    by (simp add: store_refreshed_def Let_def split: sum.split prod.split)
  show ?thesis
    by (auto simp: refresh_record_def Let_def t dest: o split: option.split sum.split prod.split)
qed

text \<open>
  C19. Clearing an environment takes no authorship away: an agent that once stored a name there reads, without any
  credential, whatever the name then stands for on the unlocked vault, and that is the owner's value inherited from the
  default environment.
\<close>

theorem cleared_name_reads_the_inherited_value:
  assumes clear: "handle_env_clear w reg owner creq s = (Inr n, s1)"
    and agent: "own_unattended_value w' ci (plane_vault (gq_scope req)) scope (gq_name req) s"
    and same: "pw_io w' CallAuthorLookup = io_ok"
    and get: "plane_scope w' (gq_scope req) s1 = (Inr (v, scope), s2)" "\<not> is_locked v"
      "\<not> demands_plane w' (plane_vault (gq_scope req)) scope ''get'' s2"
    and val: "get_env_var (pw_lib w') (pw_io w' CallGet) scope (gq_name req) v = Inr e" "nv_source e = SourceDefault"
  shows "\<exists>got s3. handle_get w' reg' ci req s2 = (Inr got, s3) \<and> gp_value got = nv_value e \<and> gp_source got = SourceDefault"
proof -
  have cleared: "pn_authored s1 = pn_authored s"
    using clear
    by (auto simp: handle_env_clear_def audited_def Let_def split: prod.splits sum.splits option.splits
        dest!: scope_store(5) authorize_frame on_store_frame)
  note at = scope_store [OF get(1)]
  have mine: "own_unattended_value w' ci (plane_vault (gq_scope req)) scope (gq_name req) s2"
    using agent cleared at(5) by (simp add: own_unattended_value_def authored_entry_plane_def)
  note again = scope_again [OF get(1)]
  have "read_value w' scope req v = Inr e" using val(1) get(2) by (simp add: read_value_def)
  then show ?thesis
    using again mine get(2,3) at(2) val(2)
    by (auto simp: handle_get_def read_authored_def get_reply_def audited_def got_entry_def Let_def)
qed

section \<open>Approving what nobody was shown\<close>

lemma find_index_find: "List.find P xs = Some x \<Longrightarrow> \<exists>i. find_index P xs = Some i \<and> xs ! i = x"
  by (induction xs) (auto split: if_splits)

lemma answered_again:
  assumes "get_request io' now rid q = Inr r" and "load_error io = None" and "rq_status r \<noteq> StatusPending"
  shows "decide io now rid True via reason grantFor anyone once q = (Inr r, q)"
proof -
  obtain i where i: "find_index (\<lambda>r. rq_id r = rid) (requests (expire now q)) = Some i" "requests (expire now q) ! i = r"
    using assms(1) find_index_find by (fastforce simp: get_request_def split: option.splits)
  have "answered r \<or> rq_status r = StatusExpired" using assms(3) by (cases "rq_status r") (auto simp: answered_def)
  then show ?thesis using assms(2) i by (auto simp: decide_def Let_def)
qed

text \<open>
  C13. Approving a widening grants whatever the file says at that moment, before anything is decided: the request's
  fingerprint and status play no role, so a file edited after the card was shown is granted as it is now, a request that
  was refused, revoked, cancelled or expired is granted all the same and answered as it was, and a window out of bounds is refused
  with the grant already on file.
\<close>

theorem approval_grants_the_current_file:
  assumes pending: "get_request (pw_io w CallQueueGet) (wo_now w) (kq_id req) (dm_queue (pn_daemon s)) = Inr pending"
      "rq_kind pending = KindTrustWidening"
    and asked: "kq_approve req" "\<not> kq_revoke req" "kq_password req \<noteq> []"
    and store: "plane_store w (default_if_empty (rq_vault pending) DefaultVaultName) s = (Inr v, s1)"
    and auth: "authorize_trust_grant w reg (default_if_empty (rq_vault pending) DefaultVaultName) (kq_password req) [] s1 = (Inr vkKey, s2)"
    and body: "pw_read w (rq_subject pending) = Some (body, mtime)"
    and granted: "put_trust_record w (default_if_empty (rq_vault pending) DefaultVaultName) (rq_subject pending) body vkKey
      (kq_password req) [] s2 = (Some g, s3)"
    and queue: "dm_queue (pn_daemon s2) = dm_queue (pn_daemon s)" "load_error (pw_io w CallQueueDecide) = None"
    and out: "handle_approval_decide w reg ci req s = (r, s')"
  shows "pn_trust s' = pn_trust s3 \<and>
    (\<exists>rec \<in> set (pn_trust s'). tr_path rec = pw_canonicalize w (rq_subject pending) \<and> tr_snapshot rec = body) \<and>
    (wrap_duration (kq_grant_seconds req * second) \<notin> {0..maxGrantWindow} \<longrightarrow> r = Inl (new_error CodeBadRequest)) \<and>
    (wrap_duration (kq_grant_seconds req * second) \<in> {0..maxGrantWindow} \<and> rq_status pending \<noteq> StatusPending \<longrightarrow> r = Inr pending)"
proof (intro conjI impI)
  let ?vn = "default_if_empty (rq_vault pending) DefaultVaultName"
  have effects: "approve_effects w reg pending req s = (None, s3)"
    using assms by (simp add: approve_effects_def seal_adhoc_grant_def apply_trust_approval_def Let_def)
  then have decided: "(r, s') = decide_now w ci pending req s3"
    using out pending(1) asked by (simp add: handle_approval_decide_def)
  have set_q: "pn_trust (emitting w f (set_queue q s3)) = pn_trust s3" "pn_trust (set_queue q s3) = pn_trust s3" for f q
    by (simp_all add: set_queue_def)
  have step: "pn_trust (snd (case X of (Inl _, q) \<Rightarrow> (Inl e, set_queue q s3) | (Inr d, q) \<Rightarrow> (Inr d, emitting w (f d) (set_queue q s3)))) =
      pn_trust s3" for X :: "(approval_error + request) \<times> queue" and e :: ipc_error and f
    by (cases X; cases "fst X") (simp_all add: set_q)
  have "pn_trust (snd (decide_now w ci pending req s3)) = pn_trust s3"
    unfolding decide_now_def Let_def by (simp only: if_distrib [of snd] if_distrib [of pn_trust] step snd_conv if_cancel)
  then show trust: "pn_trust s' = pn_trust s3" using decided by (metis snd_conv)
  have "\<exists>rec \<in> set (pn_trust s3). tr_path rec = pw_canonicalize w (rq_subject pending) \<and> tr_snapshot rec = body"
  proof -
    obtain parsed mt blob s4 f changed where p: "on_store ?vn (seal_exec_capability w (pw_canonicalize w (rq_subject pending)) (grant_scope parsed)
          (bf_env parsed) (allows_all parsed) (kq_password req) []) s2 = (Inr blob, s4)"
        and f: "put_record (pw_io w (CallTrustPut (pw_canonicalize w (rq_subject pending))))
          (set_macs (wo_sha256 w) (wo_hmac w) (wo_fp_key w) (Some vkKey) (grant_record w ?vn (rq_subject pending) body parsed mt blob))
          (pn_trust s4) = (Inr changed, f)" "pn_trust s3 = f"
      using granted by (auto simp: put_trust_record_def Let_def split: option.splits if_splits prod.splits sum.splits)
    have in_file: "rec \<in> set f" if "put_record io rec t = (Inr changed, f)" for io rec t
      using that by (auto simp: put_record_def committing_def find_index_Some set_update_memI split: sum.splits option.splits)
    show ?thesis
      using in_file [OF f(1)] f(2)
      by (intro bexI [where x = "set_macs (wo_sha256 w) (wo_hmac w) (wo_fp_key w) (Some vkKey) (grant_record w ?vn (rq_subject pending) body parsed mt blob)"])
        (simp_all add: set_macs_def grant_record_def Let_def split: option.split)
  qed
  then show "\<exists>rec \<in> set (pn_trust s'). tr_path rec = pw_canonicalize w (rq_subject pending) \<and> tr_snapshot rec = body"
    using trust by simp
  show "r = Inl (new_error CodeBadRequest)" if "wrap_duration (kq_grant_seconds req * second) \<notin> {0..maxGrantWindow}"
    using decided that by (auto simp: decide_now_def Let_def)
  assume late: "wrap_duration (kq_grant_seconds req * second) \<in> {0..maxGrantWindow} \<and> rq_status pending \<noteq> StatusPending"
  have "pn_daemon s3 = pn_daemon s2"
    using granted
    by (auto simp: put_trust_record_def Let_def split: option.splits if_splits prod.splits sum.splits dest!: on_store_frame)
  then have q: "dm_queue (pn_daemon s3) = dm_queue (pn_daemon s)" using queue(1) by simp
  have kept: "decide (pw_io w CallQueueDecide) (wo_now w) (kq_id req) True via reason grantFor anyone once (dm_queue (pn_daemon s)) =
      (Inr pending, dm_queue (pn_daemon s))" for via reason grantFor anyone once
    using answered_again [OF pending(1) queue(2)] late by blast
  have "fst (decide_now w ci pending req s3) = Inr pending"
    using late asked(1) by (simp add: decide_now_def Let_def q decide_for_anyone_def decide_once_def decide_for_def kept)
  then show "r = Inr pending" using decided by (metis fst_conv)
qed

section \<open>Witnesses\<close>

lemma toy_lengths: "length toy_key = 32" "length toy_nonce = 24"
  by (simp_all add: toy_key_def toy_nonce_def)

lemma toy_unwrap:
  "unwrap_vault_key toy_lib pw (toy_holding eid ver) = Inr toy_key"
  "unwrap_vault_key toy_lib pw (lock_vault (toy_holding eid ver)) = Inr toy_key"
proof -
  have "unwrap_key toy_lib pw w = unwrap_key toy_crypto pw w" for w
    by (simp add: unwrap_key_def wrapping_key_def toy_lib_def toy_crypto_def split: sum.split)
  then show "unwrap_vault_key toy_lib pw (toy_holding eid ver) = Inr toy_key"
    "unwrap_vault_key toy_lib pw (lock_vault (toy_holding eid ver)) = Inr toy_key"
    by (simp_all add: unwrap_vault_key_def toy_unwraps as_vault_def lock_vault_def)
qed

lemma toy_decrypts: "decrypt_with_aad toy_lib = decrypt_with_aad toy_crypto"
  by (simp add: fun_eq_iff decrypt_with_aad_def toy_lib_def)

definition toy_put :: "string \<Rightarrow> bytes \<Rightarrow> put_req" where
  "toy_put env pw = \<lparr>pq_scope = toy_scope env, pq_name = ''TOKEN'', pq_value = ''abc'', pq_create_only = True,
     pq_description = [], pq_note = [], pq_password = pw, pq_presence = []\<rparr>"

lemma put_guesses_unthrottled_witness:
  "fst (handle_put toy_world toy_registry toy_caller (toy_put ''prod'' ''pw'')
     (toy_plane (lock_vault (toy_holding 2 aadVersionEnvKey)))) = Inl (new_error CodeAlreadyExists)"
proof -
  let ?v = "lock_vault (toy_holding 2 aadVersionEnvKey)" and ?req = "toy_put ''prod'' ''pw''"
  have v: "vt_db ?v = vt_db (toy_holding 2 aadVersionEnvKey)" by (simp add: lock_vault_def)
  obtain r s' where out: "handle_put toy_world toy_registry toy_caller ?req (toy_plane ?v) = (r, s')" by fastforce
  have "r = Inl (new_error (if verify_password (pw_lib toy_world) (pq_password ?req) ?v = Inr () then CodeAlreadyExists else CodeInternal)) \<and>
      dm_limiter (pn_daemon s') = dm_limiter (pn_daemon (toy_plane ?v))"
  proof (rule put_guesses_unthrottled [OF _ _ _ _ _ _ _ _ _ _ _ _ _ out])
    show "plane_scope toy_world (pq_scope ?req) (toy_plane ?v) = (Inr (?v, toy_prod), toy_plane ?v)"
      using toy_opened(3) [of "toy_plane ?v" ?v] by (simp add: toy_put_def)
    show "env_at (vt_db ?v) toy_prod = Some (1, 2)" "row_at (vt_db ?v) 1 2 (pq_name ?req) \<noteq> None"
      by (simp_all add: v toy_put_def toy_row_at)
    show "checked_name toy_prod (pq_name ?req) = None" by (simp add: toy_put_def toy_names)
    show "length key = 32" if "unwrap_vault_key (pw_lib toy_world) (pq_password ?req) ?v = Inr key" for key
      using that by (auto simp: toy_unwrap toy_key_def)
    show "aead_works (pw_lib toy_world)" by (simp add: toy_lib_works)
    show "length toy_nonce = 24" by (rule toy_lengths)
  qed (simp_all add: toy_put_def MaxValueLen_def)
  then show ?thesis by (simp add: out verify_password_def toy_unwrap)
qed

definition toy_deny :: trust_record where
  "toy_deny = \<lparr>tr_path = ''/w/.byn'', tr_sha256 = ''00'', tr_vault = [], tr_fp_mac = ''junk'', tr_vk_mac = ''junk'',
     tr_mtime = 5, tr_granted_at = 0, tr_snapshot = ''deny'', tr_actions = [], tr_auth = [], tr_aliases = [],
     tr_scope_vault = [], tr_scope_project = [], tr_scope_env = ''prod'', tr_exec_capability = [], tr_env_grants = []\<rparr>"

lemma unchecked_password_escapes_the_put_rule_witness:
  "let s = toy_plane toy_vault\<lparr>pn_trust := [toy_deny]\<rparr>; put = \<lambda>pw. fst (handle_put toy_world toy_registry toy_caller (toy_put ''prod'' pw) s) in
   put [] = Inl (new_error CodeAuthRequired) \<and>
   (\<exists>a. put ''made up'' = Inr \<lparr>pp_unattended = False, pp_created = True, pp_annotated = a\<rparr>)"
proof -
  let ?s = "toy_plane toy_vault\<lparr>pn_trust := [toy_deny]\<rparr>" and ?req = "toy_put ''prod'' []"
  have at: "map_get (pn_vaults ?s) ''default'' = Some toy_vault" by simp
  have again: "toy_put ''prod'' [] \<lparr>pq_password := p\<rparr> = toy_put ''prod'' p" for p by (simp add: toy_put_def)
  obtain v' where put: "put_env_var toy_lib io_ok 5 (Some toy_nonce) toy_prod ''TOKEN'' ''abc'' True toy_vault = (Inr (), v')"
  proof -
    have free: "row_at (vt_db toy_vault) 1 2 ''TOKEN'' = None" by (simp add: row_at_def toy_no_entries)
    obtain ct where "seal_entry toy_lib ''id'' (Some toy_nonce) toy_key 1 2 EnvVar ''TOKEN'' ''abc'' = Inr ct"
      using seals_with_key [OF toy_lib_works, of toy_key toy_nonce "''id''" 1 2 "''TOKEN''" "''abc''"] toy_lengths by blast
    then show ?thesis
      using that toy_names toy_vault_key toy_envs free
      by (simp add: put_env_var_def put_with_key_def scope_ids_Inr [THEN iffD2] write_env_var_def transact_def MaxValueLen_def)
  qed
  have "fst (handle_put toy_world toy_registry toy_caller (?req\<lparr>pq_password := []\<rparr>) ?s) = Inl (new_error CodeAuthRequired) \<and>
    (\<exists>a. fst (handle_put toy_world toy_registry toy_caller (?req\<lparr>pq_password := ''made up''\<rparr>) ?s) =
      Inr \<lparr>pp_unattended = False, pp_created = True, pp_annotated = a\<rparr>)"
  proof (rule unchecked_password_escapes_the_put_rule)
    show "plane_scope toy_world (pq_scope ?req) ?s = (Inr (toy_vault, toy_prod), ?s)"
      using toy_opened(3) [OF at] by (simp add: toy_put_def)
    show "\<not> is_locked toy_vault" by (simp add: is_locked_def toy_vault_key)
    show "\<not> unattended_put_allowed toy_world (plane_vault (pq_scope ?req)) toy_prod (pq_name ?req) ?s"
      by (simp add: unattended_put_allowed_def load_store_def denies_put_def record_governs_def toy_deny_def toy_put_def toy_prod_def
          default_if_empty_def DefaultVaultName_def DefaultProjectName_def DefaultEnvName_def toy_parse_def)
    show "put_env_var (pw_lib toy_world) (pw_io toy_world CallPutCreate) (pw_unix toy_world) (pw_draw toy_world CallPutCreate) toy_prod
        (pq_name ?req) (pq_value ?req) True toy_vault = (Inr (), v')"
      using put by (simp add: toy_put_def)
  qed (simp_all add: toy_caller_def toy_put_def)
  then show ?thesis by (simp add: again Let_def)
qed

definition toy_author :: author_entry where
  "toy_author = \<lparr>ar_key = AuthorKey ''default'' ''default'' ''prod'' ''TOKEN'', ar_origin = \<lparr>pr_pid = 70, pr_start = 1070\<rparr>,
     ar_chain = [\<lparr>pr_pid = 70, pr_start = 1070\<rparr>], ar_at = 0, ar_authored = True, ar_unattended = True, ar_locked = None\<rparr>"

lemma toy_owns:
  assumes "pn_authored s = Some [toy_author]"
  shows "own_unattended_value toy_world toy_caller ''default'' toy_prod ''TOKEN'' s"
proof -
  have "caller_identity ex_procs 90 = \<lparr>pr_pid = 70, pr_start = 1070\<rparr>"
    unfolding caller_identity_def maxIdentityHops_def ex_procs_def
    by (simp add: identity_walk_numeral parent_of_def comm_of_def transient_wrappers_def)
  then have "shares_ancestry ex_procs 90 [\<lparr>pr_pid = 70, pr_start = 1070\<rparr>]"
    by (simp add: shares_ancestry_def ref_ok_def)
  then show ?thesis
    using assms
    by (simp add: own_unattended_value_def authored_entry_plane_def lookup_author_def load_authored_def normalize_entry_def
        toy_author_def authored_scope_key_def toy_prod_def default_if_empty_def DefaultVaultName_def DefaultProjectName_def
        DefaultEnvName_def toy_caller_def)
qed

lemma toy_verifies: "ve_password (entry_of toy_lib (toy_holding eid ver)) pw" "\<not> ve_locked (entry_of toy_lib (toy_holding eid ver))"
  by (simp_all add: entry_of_def verify_password_def toy_unwrap)

lemma toy_gate_opens:
  assumes "map_get (pn_vaults s) ''default'' = Some (toy_holding eid ver)" and "pn_trust s = []"
    and "dm_limiter (pn_daemon s) = new_rate_limiter None" and "pw \<noteq> []"
  shows "\<exists>s'. authorize_plane toy_world toy_registry toy_caller ''default'' scope action pw [] s = (None, s')"
proof -
  let ?d = "gate_daemon toy_world s" and ?w = "gate_world toy_world s"
  have v: "lookup_vault ?d ''default'' = Some (entry_of toy_lib (toy_holding eid ver))"
    using assms(1) by (simp add: lookup_vault_def gate_daemon_def map_get_entries)
  have free: "policy_for ?w ?d ''default'' scope = None"
    using assms(2) by (simp add: policy_for_def v load_store_def gate_world_def split: sum.split)
  have wait: "check_limiter 100 (dm_limiter ?d) = None"
    using assms(3) by (simp add: gate_daemon_def check_limiter_def new_rate_limiter_def load_limiter_def clean_slate_def)
  have ok: "fst (password_verify (world.truncate toy_world) toy_caller r ?d) = Inr ''password''"
    if "vr_vault r = ''default''" for r
    using that v wait toy_verifies(1)
    by (simp add: password_verify_def open_vault_def default_if_empty_def DefaultVaultName_def toy_world_def world.truncate_def)
  have no_token: "ci_session toy_caller = []" by (simp add: toy_caller_def)
  have "fst (authorize_action ?w toy_registry toy_caller ''default'' scope action pw [] ?d) = None"
    using assms(4) ok
    by (simp add: authorize_action_def free no_token authorize_action_always_def authorize_with_password_def toy_registry_def
        lookup_built_in case_prod_unfold Let_def)
  then show ?thesis by (cases "authorize_action ?w toy_registry toy_caller ''default'' scope action pw [] ?d")
      (simp add: authorize_plane_def gate_def)
qed

definition toy_clear :: clear_req where
  "toy_clear = \<lparr>cq_scope = toy_scope ''prod'', cq_password = ''pw'', cq_presence = []\<rparr>"

definition toy_get :: get_req where
  "toy_get = \<lparr>gq_scope = toy_scope ''prod'', gq_name = ''TOKEN'', gq_password = [], gq_presence = []\<rparr>"

lemma cleared_name_reads_the_inherited_value_witness:
  "\<exists>n s1 got s2. handle_env_clear toy_world toy_registry toy_caller toy_clear
     (toy_plane (toy_holding 1 aadVersionEnvKey)\<lparr>pn_authored := Some [toy_author]\<rparr>) = (Inr n, s1) \<and>
   handle_get toy_world toy_registry toy_caller toy_get s1 = (Inr got, s2) \<and> gp_value got = ''abc'' \<and> gp_source got = SourceDefault"
proof -
  let ?v = "toy_holding 1 aadVersionEnvKey"
  let ?s = "toy_plane ?v\<lparr>pn_authored := Some [toy_author]\<rparr>"
  have ok: "db_ok (vt_db ?v)" by (simp add: toy_holding_ok)
  obtain s0 where auth: "authorize_plane toy_world toy_registry toy_caller ''default'' toy_prod ''delete'' ''pw'' [] ?s = (None, s0)"
    using toy_gate_opens [of ?s 1 aadVersionEnvKey "''pw''" toy_prod "''delete''"] by (auto simp: toy_daemon_def)
  note kept = authorize_frame [OF auth]
  have at: "scope_validate toy_prod = None" using toy_names(2) by (simp add: checked_name_def split: option.splits)
  have clear: "clear_env_vars io_ok toy_prod ?v = (Inr 0, ?v)"
    using at by (simp add: clear_env_vars_def scope_ids_Inr [THEN iffD2] delete_entries_def delete_and_sweep_def transact_def
        rows_deleted_def toy_row_def)
  have "on_store ''default'' (clear_env_vars io_ok toy_prod) s0 = (Inr 0, s0\<lparr>pn_vaults := map_put (pn_vaults s0) ''default'' ?v\<rparr>)"
    using clear kept by (simp add: on_store_def store_of_def)
  then obtain s1 where s1: "handle_env_clear toy_world toy_registry toy_caller toy_clear ?s = (Inr 0, s1)"
      "map_get (pn_vaults s1) ''default'' = Some ?v" "pn_trust s1 = []" "pn_authored s1 = Some [toy_author]"
    using auth kept toy_opened(3) [of ?s ?v toy_world "''prod''"]
    by (simp add: handle_env_clear_def toy_clear_def audited_def Let_def)
  obtain e where e: "get_env_var toy_lib io_ok toy_prod ''TOKEN'' ?v = Inr e" "nv_value e = ''abc''" "nv_source e = SourceDefault"
  proof -
    obtain p d where d: "find_project (vt_db ?v) ''default'' = Some p" "pj_id p = 1" "find_env (vt_db ?v) 1 ''default'' = Some d" "en_id d = 1"
      using toy_holding_simps(5) [of 1 aadVersionEnvKey] by (auto simp: env_at_def toy_default_def split: option.splits)
    have vis: "visible_row (vt_db ?v) toy_prod ''TOKEN'' = Some (1, 1, toy_row 1 aadVersionEnvKey, SourceDefault)"
      using d(3,4) by (simp add: visible_row_def toy_row_at toy_prod_def DefaultEnvName_def toy_holding_simps(6) [unfolded toy_prod_def])
    obtain k where k: "v3_row_key toy_lib ''id'' toy_key 1 1 EnvVar ''TOKEN'' = Inr k" using v3_row_key_total [OF toy_lib_works toy_lengths(1)] by blast
    have "decrypt_with_aad toy_lib k (toy_sealed 1 ''abc'') (entry_aad_v3 ''id'' 1 1 EnvVar ''TOKEN'') = Inr ''abc''"
      using toy_opens [OF v3_row_key_length [OF toy_lib_works k] refl] by (simp only: toy_decrypts)
    then show ?thesis
      using that get_visible [OF ok io_ok_simps(1) toy_holding_simps(6)] vis k toy_names(2)
      by (simp add: get_env_var_def decrypt_entry_def open_entry_def aad_versions as_vault_def toy_row_def)
  qed
  have "\<exists>got s2. handle_get toy_world toy_registry toy_caller toy_get s1 = (Inr got, s2) \<and> gp_value got = nv_value e \<and> gp_source got = SourceDefault"
  proof (rule cleared_name_reads_the_inherited_value [OF s1(1)])
    show "own_unattended_value toy_world toy_caller (plane_vault (gq_scope toy_get)) toy_prod (gq_name toy_get) ?s"
      using toy_owns [of ?s] by (simp add: toy_get_def)
    show "plane_scope toy_world (gq_scope toy_get) s1 = (Inr (?v, toy_prod), s1)"
      using toy_opened(3) [OF s1(2), of toy_world "''prod''"] by (simp add: toy_get_def)
    show "\<not> demands_plane toy_world (plane_vault (gq_scope toy_get)) toy_prod ''get'' s1"
      using s1(3) by (simp add: demands_plane_def policy_demands_auth_def policy_for_def load_store_def gate_world_def split: option.split sum.split)
  qed (use e in \<open>simp_all add: toy_get_def\<close>)
  then show ?thesis using s1(1) e(2) by auto
qed

text \<open>A refused request for a file that has been edited since, approved with a window out of bounds.\<close>

definition toy_refused :: request where
  "toy_refused = ex_request\<lparr>rq_id := ''a1'', rq_kind := KindTrustWidening, rq_status := StatusDenied\<rparr>"

definition toy_decide :: decide_req where
  "toy_decide = \<lparr>kq_id = ''a1'', kq_approve = True, kq_revoke = False, kq_password = ''pw'', kq_via = [], kq_reason = [],
     kq_grant_seconds = 1000000, kq_once = False, kq_always = False, kq_anyone = False\<rparr>"

definition toy_asked :: plane where
  "toy_asked = toy_plane (toy_holding 1 aadVersionEnvKey)\<lparr>pn_daemon := toy_daemon\<lparr>dm_queue := \<lparr>requests = [toy_refused], holds = [], denials = []\<rparr>\<rparr>\<rparr>"

lemma approval_grants_the_current_file_witness:
  "\<exists>s'. handle_approval_decide (toy_world\<lparr>wo_fp_key := None\<rparr>) toy_registry toy_caller toy_decide toy_asked =
     (Inl (new_error CodeBadRequest), s') \<and> (\<exists>rec \<in> set (pn_trust s'). tr_path rec = ''/w/.byn'' \<and> tr_snapshot rec = ''new'')"
proof -
  let ?w = "toy_world\<lparr>wo_fp_key := None\<rparr>" and ?v = "toy_holding 1 aadVersionEnvKey"
  have at: "map_get (pn_vaults toy_asked) ''default'' = Some ?v" by (simp add: toy_asked_def)
  have store: "plane_store ?w ''default'' toy_asked = (Inr ?v, toy_asked)" by (rule toy_opened(1) [OF at])
  have vn: "default_if_empty (rq_vault toy_refused) DefaultVaultName = ''default''"
    by (simp add: toy_refused_def ex_request_def default_if_empty_def)
  have lib: "pw_lib ?w = toy_lib" "pw_io ?w c = io_ok" "pw_parse ?w = toy_parse" "pw_read ?w p = Some (''new'', 7)" "pw_stat ?w p = Some 7"
    for c p by (simp_all add: toy_world_def)
  obtain k s2 where auth: "authorize_trust_grant ?w toy_registry ''default'' ''pw'' [] toy_asked = (Inr k, s2)"
      "pn_vaults s2 = pn_vaults toy_asked" "pn_trust s2 = []" "dm_queue (pn_daemon s2) = dm_queue (pn_daemon toy_asked)"
  proof -
    let ?d = "gate_daemon ?w toy_asked" and ?r = "\<lparr>vr_vault = ''default'', vr_action = ''trust.grant'', vr_password = ''pw'', vr_presence = []\<rparr>"
    have v: "lookup_vault ?d ''default'' = Some (entry_of toy_lib ?v)"
      using at by (simp add: lookup_vault_def gate_daemon_def map_get_entries lib)
    have wait: "check_limiter 100 (dm_limiter ?d) = None"
      by (simp add: gate_daemon_def toy_asked_def toy_daemon_def check_limiter_def new_rate_limiter_def load_limiter_def clean_slate_def)
    have ok: "password_verify (world.truncate toy_world) toy_caller ?r ?d =
        (Inr ''password'', ?d\<lparr>dm_limiter := snd (record_success None (dm_limiter ?d))\<rparr>)"
      using v wait toy_verifies(1)
      by (simp add: password_verify_def open_vault_def default_if_empty_def DefaultVaultName_def toy_world_def world.truncate_def)
    have key: "derive_subkey_with_password toy_lib ''pw'' VKMACKeyInfo ?v = Inr (cl_hkdf toy_lib toy_key VKMACKeyInfo)"
      by (simp add: derive_subkey_with_password_def toy_unwrap)
    have store: "store_of (toy_asked\<lparr>pn_daemon := d\<rparr>) ''default'' = ?v" for d using at by (simp add: store_of_def)
    show ?thesis
      by (rule that [of "cl_hkdf toy_lib toy_key VKMACKeyInfo" "toy_asked\<lparr>pn_daemon := ?d\<lparr>dm_limiter := snd (record_success None (dm_limiter ?d))\<rparr>\<rparr>"])
        (simp_all add: authorize_trust_grant_def toy_registry_def lookup_built_in gate_def ok key store lib Let_def,
          simp_all add: toy_asked_def gate_daemon_def)
  qed
  obtain g s3 where granted: "put_trust_record ?w ''default'' (rq_subject toy_refused) ''new'' k ''pw'' [] s2 = (Some g, s3)"
  proof -
    have valid: "grant_valid ?w empty_byn_file"
      by (simp add: grant_valid_def validate_auth_def validate_actions_def validate_aliases_def validate_descriptions_def
          empty_byn_file_def sorted_keys_def)
    have parse: "toy_parse ''new'' = Some empty_byn_file" by (simp add: toy_parse_def)
    have seal: "seal_exec_capability ?w l sc ns all pw vk = (\<lambda>v. (Inr [], v))" for l sc ns all pw vk
      by (simp add: fun_eq_iff seal_exec_capability_def)
    have "put_record io_ok rec [] = (Inr False, [rec])" for rec by (simp add: put_record_def load_store_def)
    then show ?thesis
      using that auth(3) by (simp add: put_trust_record_def lib parse valid seal on_store_def Let_def)
  qed
  obtain r s' where out: "handle_approval_decide ?w toy_registry toy_caller toy_decide toy_asked = (r, s')" by fastforce
  have "pn_trust s' = pn_trust s3 \<and>
    (\<exists>rec \<in> set (pn_trust s'). tr_path rec = pw_canonicalize ?w (rq_subject toy_refused) \<and> tr_snapshot rec = ''new'') \<and>
    (wrap_duration (kq_grant_seconds toy_decide * second) \<notin> {0..maxGrantWindow} \<longrightarrow> r = Inl (new_error CodeBadRequest)) \<and>
    (wrap_duration (kq_grant_seconds toy_decide * second) \<in> {0..maxGrantWindow} \<and> rq_status toy_refused \<noteq> StatusPending \<longrightarrow> r = Inr toy_refused)"
  proof (rule approval_grants_the_current_file [OF _ _ _ _ _ _ _ _ _ _ _ out])
    show "get_request (pw_io ?w CallQueueGet) (wo_now ?w) (kq_id toy_decide) (dm_queue (pn_daemon toy_asked)) = Inr toy_refused"
      by (simp add: get_request_def lib expire_def expire_request_def toy_decide_def toy_asked_def toy_refused_def Let_def)
    show "plane_store ?w (default_if_empty (rq_vault toy_refused) DefaultVaultName) toy_asked = (Inr ?v, toy_asked)"
      using store by (simp only: vn)
    show "authorize_trust_grant ?w toy_registry (default_if_empty (rq_vault toy_refused) DefaultVaultName) (kq_password toy_decide) [] toy_asked = (Inr k, s2)"
      using auth(1) by (simp add: vn toy_decide_def)
    show "put_trust_record ?w (default_if_empty (rq_vault toy_refused) DefaultVaultName) (rq_subject toy_refused) ''new'' k
        (kq_password toy_decide) [] s2 = (Some g, s3)"
      using granted by (simp add: vn toy_decide_def)
  qed (use auth(4) in \<open>simp_all add: lib toy_decide_def toy_refused_def\<close>)
  moreover have "wrap_duration (kq_grant_seconds toy_decide * second) \<notin> {0..maxGrantWindow}"
    by (simp add: wrap_duration_def toy_decide_def second_def maxGrantWindow_def hour_def)
  moreover have "pw_canonicalize ?w (rq_subject toy_refused) = ''/w/.byn''" by (simp add: toy_world_def toy_refused_def ex_request_def)
  ultimately show ?thesis using out by auto
qed

end
