(* ===== verification/Plane_Claims.thy ===== *)
theory Plane_Claims
  imports Plane_Breaks
begin

text \<open>
  What any history of requests to the daemon keeps, and what a request gets out of a locked vault: the
  interpretations of \<open>vault_law\<close> and of \<open>guarded_history\<close> on the handlers, and the properties that rest on
  them.
\<close>

section \<open>Conditions every request keeps\<close>

interpretation well_formed: vault_law "\<lambda>n v. db_ok (vt_db v)"
  by unfold_locales (simp_all add: follows_def lock_vault_def)

interpretation locked: vault_law "\<lambda>n v. n = vn \<longrightarrow> is_locked v" for vn
  by unfold_locales (auto simp: follows_def lock_vault_def is_locked_def)

lemma plane_step_ok:
  assumes "plane_inv (\<lambda>n v. db_ok (vt_db v)) s" and "world_inv (\<lambda>n v. db_ok (vt_db v)) (pc_world c)"
  shows "plane_inv (\<lambda>n v. db_ok (vt_db v)) (plane_step c s)"
proof (cases "\<exists>raw pw. pc_req c = VaultUnlock raw pw")
  case True
  then obtain raw pw where req: "pc_req c = VaultUnlock raw pw" by blast
  have "db_ok (vt_db (snd (unlock_vault cl pw v))) = db_ok (vt_db v)" for cl v
    by (simp add: unlock_vault_def split: sum.split)
  then show ?thesis
    using well_formed.handle_vault_unlock_kept [OF assms, of "pc_caller c" raw pw] by (auto simp: plane_step_def req answer_def)
next
  case False
  then show ?thesis unfolding plane_step_def by (intro well_formed.serve_kept [OF assms]) blast
qed

interpretation planes: guarded_history plane_step "plane_inv (\<lambda>n v. db_ok (vt_db v))"
  "\<lambda>c. world_inv (\<lambda>n v. db_ok (vt_db v)) (pc_world c)"
  by unfold_locales (rule plane_step_ok)

text \<open>
  C6. Whatever requests the daemon serves, in whatever order and with whatever failures of the disk, the
  database, the random source or the processes, every open vault stays well formed (unique ids and names, one default
  environment per project, every value in an existing environment of its project) and the registry of
  authors has one entry per name.
\<close>

theorem requests_keep_the_vaults:
  assumes "authors_ok (pn_authored s)" and "\<And>n v. map_get (pn_vaults s) n = Some v \<Longrightarrow> db_ok (vt_db v)"
    and "\<And>c n v. c \<in> set calls \<Longrightarrow> pw_disk (pc_world c) n = Inr v \<Longrightarrow> db_ok (vt_db v)"
  shows "authors_ok (pn_authored (run_plane calls s)) \<and>
    (\<forall>n v. map_get (pn_vaults (run_plane calls s)) n = Some v \<longrightarrow> db_ok (vt_db v))"
proof -
  have "plane_inv (\<lambda>n v. db_ok (vt_db v)) (run_plane calls s)"
    unfolding run_plane_def
  proof (rule planes.run_inv)
    show "list_all (\<lambda>c. world_inv (\<lambda>n v. db_ok (vt_db v)) (pc_world c)) calls"
      using assms(3) unfolding list_all_iff world_inv_def by blast
    show "plane_inv (\<lambda>n v. db_ok (vt_db v)) s" using assms(1,2) by (simp add: plane_inv_def)
  qed
  then show ?thesis by (auto simp: plane_inv_def)
qed

definition toy_calls :: "plane_req list \<Rightarrow> plane_request list" where
  "toy_calls reqs = map (\<lambda>r. \<lparr>pc_world = toy_world, pc_registry = toy_registry, pc_caller = toy_caller, pc_req = r\<rparr>) reqs"

lemma requests_keep_the_vaults_witness:
  "let s = run_plane (toy_calls [VaultLock ''*'', VaultUnlock [] ''pw'', EnvDelete [] [] ''prod'' ''pw'' []]) (toy_plane toy_vault) in
   authors_ok (pn_authored s) \<and> (\<forall>n v. map_get (pn_vaults s) n = Some v \<longrightarrow> db_ok (vt_db v))"
  unfolding Let_def
  by (rule requests_keep_the_vaults) (auto simp: authors_ok_def toy_calls_def map_get_def toy_vault_ok split: if_splits)



section \<open>What a locked vault hands out\<close>

text \<open>
  C5. A get without a password on a locked vault, whatever session or presence token comes with it, hands out nothing but a value
  that the caller's own agent stored unattended: its row is in the very environment asked for, sealed under the authored key
  of that environment, and a grant of that scope carries the key.
\<close>

theorem locked_vault_hands_out_only_authored:
  assumes scope: "plane_scope w (gq_scope req) s = (Inr (v, scope), s1)" and locked: "is_locked v" and pw: "gq_password req = []"
    and got: "handle_get w reg ci req s = (Inr got, s')"
  shows "\<exists>e k krow pid eid r. authored_entry_plane w ci (plane_vault (gq_scope req)) scope (gq_name req) s1 = Some e \<and> ar_authored e \<and>
    authored_key_plane w (plane_vault (gq_scope req)) scope s1 = Some k \<and> env_at (vt_db v) scope = Some (pid, eid) \<and>
    r \<in> set (db_entries (vt_db v)) \<and> nt_project r = pid \<and> nt_env r = eid \<and> nt_name r = gq_name req \<and> nt_aad r = aadVersionAuthoredKey \<and>
    authored_row_key (pw_lib w) k EnvVar (gq_name req) = Inr krow \<and>
    decrypt_with_aad (pw_lib w) krow (nt_value r) (entry_aad_v3 (vt_id v) pid eid EnvVar (gq_name req)) = Inr (gp_value got)"
proof -
  let ?vn = "plane_vault (gq_scope req)"
  let ?mine = "own_unattended_value w ci ?vn scope (gq_name req) s1 \<and> \<not> demands_plane w ?vn scope ''get'' s1"
  note at = scope_store [OF scope]
  have no_read: "read_value w scope req v \<noteq> Inr n" for n
    using locked pw by (auto simp: read_value_def get_env_var_def is_locked_def split: option.split)
  have "\<exists>val. read_authored w ?vn scope (gq_name req) ?mine s1 = Some val \<and> gp_value got = val"
  proof (cases "read_authored w ?vn scope (gq_name req) ?mine s1")
    case (Some val)
    then show ?thesis using got scope by (auto simp: handle_get_def get_reply_def audited_def got_authored_def Let_def)
  next
    case None
    obtain r s2 where a: "authorize_plane w reg ci ?vn scope ''get'' (gq_password req) (gq_presence req) s1 = (r, s2)" by fastforce
    then have "store_of s2 ?vn = v" using authorize_frame [OF a] at(2) by (simp add: store_of_def)
    then show ?thesis
      using got scope None a locked at(2) no_read [folded at(2)] by (auto simp: handle_get_def audited_def Let_def split: option.splits sum.splits)
  qed
  then obtain val where val: "read_authored w ?vn scope (gq_name req) ?mine s1 = Some val" "gp_value got = val" by blast
  then obtain k where k: "own_unattended_value w ci ?vn scope (gq_name req) s1" "authored_key_plane w ?vn scope s1 = Some k"
      "open_authored (pw_lib w) (pw_io w CallGet) scope (gq_name req) k v = Inr val"
    using at(2) by (auto simp: read_authored_def split: if_splits option.splits sum.splits)
  obtain pid eid r where r: "scope_ids (pw_io w CallGet) (vt_db v) scope = Inr (pid, eid)"
      "fetch_inherited (pw_io w CallGet) (vt_db v) pid eid (sc_env scope) (gq_name req) = Inr (Some (r, eid))"
      "nt_aad r = aadVersionAuthoredKey"
      "\<exists>krow. authored_row_key (pw_lib w) k EnvVar (gq_name req) = Inr krow \<and>
        decrypt_with_aad (pw_lib w) krow (nt_value r) (entry_aad_v3 (vt_id v) pid eid EnvVar (gq_name req)) = Inr val"
    using k(3) by (auto simp: open_authored_def as_vault_def split: if_splits sum.splits option.splits prod.splits)
  have "r \<in> set (db_entries (vt_db v)) \<and> nt_project r = pid \<and> nt_env r = eid \<and> nt_name r = gq_name req"
    using r(2) by (auto simp: fetch_inherited_def fetch_entry_def find_Some_iff split: sum.splits option.splits if_splits)
  then show ?thesis
    using k r val(2) by (auto simp: own_unattended_value_def scope_ids_Inr split: option.splits)
qed

definition toy_grant :: trust_record where
  "toy_grant = toy_deny\<lparr>tr_snapshot := ''granted'',
     tr_exec_capability := CHR 0x01 # toy_nonce @ toy_tag (build_aad capAAD)\<rparr>"

definition toy_stored :: plane where
  "toy_stored = toy_plane (lock_vault (toy_holding 2 aadVersionAuthoredKey))\<lparr>pn_authored := Some [toy_author], pn_trust := [toy_grant]\<rparr>"

lemma toy_authored_key: "authored_key_plane toy_world ''default'' toy_prod toy_stored = Some toy_key"
proof -
  have len: "length (cl_hkdf toy_lib a b) = 32" for a b by (simp add: toy_lib_def toy_hkdf)
  have cap: "cap_key toy_world = Some (cl_hkdf toy_lib ''m'' capKeyInfo)" by (simp add: cap_key_def derive_cap_key_def)
  have "decrypt_with_aad toy_lib k (CHR 0x01 # toy_nonce @ toy_tag (build_aad capAAD)) capAAD = Inr []" if "length k = 32" for k
    using that
    by (simp add: toy_decrypts decrypt_with_aad_def EncryptFormatVersion_def VaultKeySize_def NonceSizeX_def toy_nonce_def)
      (simp add: toy_crypto_def toy_tag_def)
  then have "open_capability toy_lib (cl_hkdf toy_lib ''m'' capKeyInfo) (tr_exec_capability toy_grant) = Inr [(CapAuthoredKeyName, toy_key)]"
    using len by (simp add: open_capability_def VaultKeySize_def toy_grant_def toy_lib_def)
  then have "carried_key toy_lib (cl_hkdf toy_lib ''m'' capKeyInfo) CapAuthoredKeyName (tr_exec_capability toy_grant) = Some toy_key"
    by (simp add: carried_key_def map_get_def toy_key_def)
  moreover have "record_governs toy_grant ''default'' toy_prod" "length (tr_exec_capability toy_grant) \<noteq> 0"
    by (simp_all add: record_governs_def toy_grant_def toy_deny_def toy_prod_def default_if_empty_def DefaultVaultName_def
        DefaultProjectName_def DefaultEnvName_def)
  ultimately show ?thesis
    by (simp add: authored_key_plane_def cap load_store_def toy_stored_def)
qed

lemma locked_vault_hands_out_only_authored_witness:
  "\<exists>got s' k krow. handle_get toy_world toy_registry toy_caller toy_get toy_stored = (Inr got, s') \<and> gp_value got = ''abc'' \<and>
     authored_key_plane toy_world ''default'' toy_prod toy_stored = Some k \<and> authored_row_key toy_lib k EnvVar ''TOKEN'' = Inr krow \<and>
     decrypt_with_aad toy_lib krow (toy_sealed 2 ''abc'') (entry_aad_v3 ''id'' 1 2 EnvVar ''TOKEN'') = Inr (gp_value got)"
proof -
  let ?v = "lock_vault (toy_holding 2 aadVersionAuthoredKey)"
  have v: "vt_db ?v = vt_db (toy_holding 2 aadVersionAuthoredKey)" "vt_id ?v = ''id''" by (simp_all add: lock_vault_def)
  have at: "map_get (pn_vaults toy_stored) ''default'' = Some ?v" "store_of toy_stored ''default'' = ?v" by (simp_all add: toy_stored_def store_of_def)
  have scope: "plane_scope toy_world (gq_scope toy_get) toy_stored = (Inr (?v, toy_prod), toy_stored)"
    using toy_opened(3) [OF at(1), of toy_world "''prod''"] by (simp add: toy_get_def)
  have mine: "own_unattended_value toy_world toy_caller ''default'' toy_prod ''TOKEN'' toy_stored"
    by (rule toy_owns) (simp add: toy_stored_def)
  have "ve_locked (entry_of toy_lib ?v)" by (simp add: entry_of_def)
  then have free: "\<not> demands_plane toy_world ''default'' toy_prod ''get'' toy_stored"
    using at(1) by (simp add: demands_plane_def policy_demands_auth_def policy_for_def lookup_vault_def gate_daemon_def map_get_entries)
  obtain krow where krow: "authored_row_key toy_lib toy_key EnvVar ''TOKEN'' = Inr krow"
    by (simp add: authored_row_key_def derive_row_key_from_authored_key_def derive_from_def VaultKeySize_def toy_lengths)
  then have len: "length krow = 32"
    using derive_ok [OF toy_lib_works] by (simp add: authored_row_key_def derive_row_key_from_authored_key_def)
  have opens: "decrypt_with_aad toy_lib krow (toy_sealed 2 ''abc'') (entry_aad_v3 ''id'' 1 2 EnvVar ''TOKEN'') = Inr ''abc''"
    using toy_opens [OF len refl] by (simp only: toy_decrypts)
  have fetch: "fetch_inherited io_ok (vt_db ?v) 1 2 (sc_env toy_prod) ''TOKEN'' = Inr (Some (toy_row 2 aadVersionAuthoredKey, 2))"
    by (simp add: fetch_inherited_def fetch_entry_def v toy_row_def)
  have "open_authored toy_lib io_ok toy_prod ''TOKEN'' toy_key ?v = Inr ''abc''"
    using krow opens fetch v
    by (simp add: open_authored_def scope_ids_Inr [THEN iffD2] toy_row_def as_vault_def) (simp add: toy_key_def)
  then have read: "read_authored toy_world ''default'' toy_prod ''TOKEN'' True toy_stored = Some ''abc''"
    by (simp add: read_authored_def at(2) toy_authored_key)
  obtain got s' where got: "handle_get toy_world toy_registry toy_caller toy_get toy_stored = (Inr got, s')" "gp_value got = ''abc''"
    using scope mine free read
    by (simp add: handle_get_def toy_get_def get_reply_def audited_def got_authored_def Let_def)
  have name: "plane_vault (gq_scope toy_get) = ''default''" "gq_name toy_get = ''TOKEN''" "gq_password toy_get = []" by (simp_all add: toy_get_def)
  obtain k krow' pid eid r where found: "authored_key_plane toy_world ''default'' toy_prod toy_stored = Some k"
      "env_at (vt_db ?v) toy_prod = Some (pid, eid)" "r \<in> set (db_entries (vt_db ?v))"
      "authored_row_key toy_lib k EnvVar ''TOKEN'' = Inr krow'"
      "decrypt_with_aad toy_lib krow' (nt_value r) (entry_aad_v3 (vt_id ?v) pid eid EnvVar ''TOKEN'') = Inr (gp_value got)"
    using locked_vault_hands_out_only_authored [OF scope toy_locked name(3) got(1)] unfolding name by auto
  moreover have "pid = 1" "eid = 2" "r = toy_row 2 aadVersionAuthoredKey" using found(2,3) by (simp_all add: v)
  ultimately show ?thesis using got v(2) by (auto simp: toy_row_def)
qed

end
