(* ===== verification/Socket_Protocol.thy ===== *)
theory Socket_Protocol
  imports Auth_Gate
begin

text \<open>
  The protocol on the daemon's socket (\<open>internal/ipc/frame.go\<close>, \<open>conn.go\<close>, \<open>client.go\<close>, and \<open>handleConn\<close> of
  \<open>internal/daemon/dispatch.go\<close>): frames with a length in front, envelopes, one request per connection, and
  which peer may ask for what. A reader is the bytes still to come and how the stream ends after them. The
  JSON encoder and decoder are arguments; the switch behind \<open>handleConn\<close> is one too (\<open>Plane_Serve\<close> models it).
\<close>

section \<open>Readers and writers\<close>

datatype stream_end = AtEOF | Broken string

type_synonym byte_stream = "bytes \<times> stream_end"

datatype read_error = ReadEOF | ReadUnexpectedEOF | ReadBroken string

text \<open>\<open>io.ReadFull\<close>.\<close>

definition read_full :: "nat \<Rightarrow> byte_stream \<Rightarrow> (read_error + bytes) \<times> byte_stream" where
  "read_full n st =
     (case st of (bs, e) \<Rightarrow>
       if n \<le> length bs then (Inr (take n bs), (drop n bs, e))
       else (Inl (case e of Broken m \<Rightarrow> ReadBroken m | AtEOF \<Rightarrow> if bs = [] then ReadEOF else ReadUnexpectedEOF), ([], e)))"

text \<open>A connection accepts all that is written, or breaks after some bytes.\<close>

definition write_bytes :: "nat option \<Rightarrow> bytes \<Rightarrow> bytes \<Rightarrow> bool \<times> bytes" where
  "write_bytes brk bs out = (case brk of None \<Rightarrow> (True, out @ bs) | Some k \<Rightarrow> (False, out @ take k bs))"

section \<open>Frames\<close>

definition MaxFrameSize :: nat where "MaxFrameSize = 1048576"

definition LengthPrefixSize :: nat where "LengthPrefixSize = 4"

datatype wire_error =
    EndOfStream | ShortFrame | FrameTooLarge nat | ConnBroken string | Undecodable | Unencodable | WriteBroken
  | MissingVersion | UnsupportedVersion nat

fun frame_read_error :: "read_error \<Rightarrow> wire_error" where
  "frame_read_error ReadUnexpectedEOF = ShortFrame"
| "frame_read_error ReadEOF = EndOfStream"
| "frame_read_error (ReadBroken m) = ConnBroken m"

definition read_frame :: "(bytes \<Rightarrow> 'a option) \<Rightarrow> byte_stream \<Rightarrow> (wire_error + 'a) \<times> byte_stream" where
  "read_frame dec st =
     (case read_full LengthPrefixSize st of
        (Inl e, st) \<Rightarrow> (Inl (frame_read_error e), st)
      | (Inr hdr, st) \<Rightarrow>
          (let n = un_be32 hdr in
           if n = 0 then (Inl ShortFrame, st)
           else if n > MaxFrameSize then (Inl (FrameTooLarge n), st)
           else (case read_full n st of
                   (Inl e, st) \<Rightarrow> (Inl (frame_read_error e), st)
                 | (Inr buf, st) \<Rightarrow> (case dec buf of None \<Rightarrow> (Inl Undecodable, st) | Some v \<Rightarrow> (Inr v, st)))))"

definition write_frame :: "('a \<Rightarrow> bytes option) \<Rightarrow> nat option \<Rightarrow> 'a \<Rightarrow> bytes \<Rightarrow> (wire_error + unit) \<times> bytes" where
  "write_frame enc brk v out =
     (case enc v of
        None \<Rightarrow> (Inl Unencodable, out)
      | Some body \<Rightarrow>
          if length body > MaxFrameSize then (Inl (FrameTooLarge (length body)), out)
          else (case write_bytes brk (be32 (length body) @ body) out of
                  (True, out) \<Rightarrow> (Inr (), out) | (False, out) \<Rightarrow> (Inl WriteBroken, out)))"

section \<open>Envelopes\<close>

definition ProtocolVersion :: nat where "ProtocolVersion = 2"

record err_msg =
  em_code :: code
  em_message :: string
  em_recover :: string
  em_details :: "string go_map"

record envelope =
  wv_version :: nat
  wv_id :: string
  wv_op :: string
  wv_req :: bytes
  wv_resp :: bytes
  wv_err :: "err_msg option"
  wv_session :: bytes

text \<open>The answer of \<open>ReadEnvelope\<close>: an envelope of another version comes with its error.\<close>

definition read_envelope ::
  "(bytes \<Rightarrow> envelope option) \<Rightarrow> byte_stream \<Rightarrow> (envelope option \<times> wire_error option) \<times> byte_stream" where
  "read_envelope dec st =
     (case read_frame dec st of
        (Inl e, st) \<Rightarrow> ((None, Some e), st)
      | (Inr env, st) \<Rightarrow>
          ((if wv_version env = 0 then (None, Some MissingVersion)
            else if wv_version env \<noteq> ProtocolVersion then (Some env, Some (UnsupportedVersion (wv_version env)))
            else (Some env, None)), st))"

definition new_wire_request :: "('q \<Rightarrow> bytes option) \<Rightarrow> string \<Rightarrow> string \<Rightarrow> 'q \<Rightarrow> envelope option" where
  "new_wire_request enc i op body =
     map_option (\<lambda>raw. \<lparr>wv_version = ProtocolVersion, wv_id = i, wv_op = op, wv_req = raw, wv_resp = [], wv_err = None,
       wv_session = []\<rparr>) (enc body)"

definition new_wire_response :: "('r \<Rightarrow> bytes option) \<Rightarrow> string \<Rightarrow> 'r \<Rightarrow> envelope option" where
  "new_wire_response enc i body =
     map_option (\<lambda>raw. \<lparr>wv_version = ProtocolVersion, wv_id = i, wv_op = [], wv_req = [], wv_resp = raw, wv_err = None,
       wv_session = []\<rparr>) (enc body)"

definition new_error_with_details :: "string \<Rightarrow> code \<Rightarrow> string \<Rightarrow> string \<Rightarrow> string go_map \<Rightarrow> envelope" where
  "new_error_with_details i c message recoverHint details =
     \<lparr>wv_version = ProtocolVersion, wv_id = i, wv_op = [], wv_req = [], wv_resp = [],
       wv_err = Some \<lparr>em_code = c, em_message = message, em_recover = recoverHint, em_details = details\<rparr>, wv_session = []\<rparr>"

definition error_envelope :: "string \<Rightarrow> code \<Rightarrow> string \<Rightarrow> string \<Rightarrow> envelope" where
  "error_envelope i c message recoverHint = new_error_with_details i c message recoverHint []"

text \<open>\<open>DecodeBody\<close> on the raw body of the chosen side; an empty body leaves the target as it was.\<close>

datatype body_side = BodyReq | BodyResp

definition decode_body :: "(bytes \<Rightarrow> 'b option) \<Rightarrow> body_side \<Rightarrow> envelope \<Rightarrow> 'b \<Rightarrow> wire_error + 'b" where
  "decode_body dec side env target =
     (let raw = (case side of BodyReq \<Rightarrow> wv_req env | BodyResp \<Rightarrow> wv_resp env) in
      if raw = [] then Inr target else (case dec raw of None \<Rightarrow> Inl Undecodable | Some v \<Rightarrow> Inr v))"

section \<open>The client\<close>

datatype call_error =
    NoRandomId | BodyUnencodable | DaemonDown | WriteFailed wire_error | ReadFailed wire_error | IdMismatch string | ErrResponse err_msg
  | BodyUndecodable

text \<open>
  \<open>CallWithSession\<close>. \<open>draw\<close> are the 16 random bytes of the identifier, \<open>brk\<close> the failing write, and \<open>daemon\<close> says
  what comes back on the connection for the bytes that were sent.
\<close>

definition call_with_session ::
  "(envelope \<Rightarrow> bytes option) \<Rightarrow> (bytes \<Rightarrow> envelope option) \<Rightarrow> ('q \<Rightarrow> bytes option) \<Rightarrow> (bytes \<Rightarrow> 'r option) \<Rightarrow>
   bytes option \<Rightarrow> bool \<Rightarrow> nat option \<Rightarrow> (bytes \<Rightarrow> byte_stream) \<Rightarrow> string \<Rightarrow> 'q \<Rightarrow> 'r \<Rightarrow> bytes \<Rightarrow> call_error + 'r" where
  "call_with_session enc dec encBody decBody draw reachable brk daemon op body target session =
     (case draw of
        None \<Rightarrow> Inl NoRandomId
      | Some b \<Rightarrow>
          let i = hex_encode b in
          (case new_wire_request encBody i op body of
             None \<Rightarrow> Inl BodyUnencodable
           | Some req \<Rightarrow>
               let req = (if length session > 0 then req\<lparr>wv_session := session\<rparr> else req) in
               if \<not> reachable then Inl DaemonDown
               else (case write_frame enc brk req [] of
                       (Inl e, _) \<Rightarrow> Inl (WriteFailed e)
                     | (Inr _, sent) \<Rightarrow>
                         (case read_envelope dec (daemon sent) of
                            ((_, Some e), _) \<Rightarrow> Inl (ReadFailed e)
                          | ((None, None), _) \<Rightarrow> Inl (ReadFailed Undecodable)
                          | ((Some resp, None), _) \<Rightarrow>
                              if wv_id resp \<noteq> i then Inl (IdMismatch (wv_id resp))
                              else (case wv_err resp of
                                      Some e \<Rightarrow> Inl (ErrResponse e)
                                    | None \<Rightarrow>
                                        (case decode_body decBody BodyResp resp target of
                                           Inl _ \<Rightarrow> Inl BodyUndecodable | Inr r \<Rightarrow> Inr r))))))"

section \<open>A connection\<close>

text \<open>
  What the kernel says about the peer, and the settings of the daemon it is held against. The text of an
  error is left out, as in \<open>Auth_Gate\<close>; its code is not.
\<close>

datatype peer = PeerCred nat int | PeerNotUnix | PeerUnknown

record conn_config =
  cc_owner :: nat
  cc_allow_root :: bool
  cc_exec_provisioned :: bool
  cc_exec_uid :: nat

definition is_exec_helper_uid :: "conn_config \<Rightarrow> nat \<Rightarrow> bool" where
  "is_exec_helper_uid cfg uid \<longleftrightarrow> uid = 0 \<or> cc_exec_provisioned cfg \<and> uid = cc_exec_uid cfg"

definition socket_caller :: "(int \<Rightarrow> string \<times> int) \<Rightarrow> (int \<Rightarrow> int) \<Rightarrow> nat \<Rightarrow> int \<Rightarrow> bytes \<Rightarrow> caller" where
  "socket_caller procInfo ttyOf uid pid session =
     (case procInfo pid of (comm, ppid) \<Rightarrow>
       \<lparr>ci_uid = uid, ci_pid = pid, ci_tty = ttyOf pid, ci_comm = comm, ci_pcomm = fst (procInfo ppid),
         ci_surface = ''socket'', ci_session = session\<rparr>)"

text \<open>
  What a peer is refused before the request is even read, and which requests it is refused after: with the
  identifier of the request, which is empty in the first case.
\<close>

definition peer_refused :: "conn_config \<Rightarrow> peer \<Rightarrow> code option" where
  "peer_refused cfg p =
     (case p of
        PeerUnknown \<Rightarrow> Some CodeInternal
      | PeerNotUnix \<Rightarrow> None
      | PeerCred uid _ \<Rightarrow>
          if uid \<noteq> cc_owner cfg \<and> \<not> is_exec_helper_uid cfg uid \<and> \<not> (uid = 0 \<and> cc_allow_root cfg)
          then Some CodeBadRequest else None)"

definition op_refused :: "conn_config \<Rightarrow> peer \<Rightarrow> string \<Rightarrow> bool" where
  "op_refused cfg p op =
     (case p of
        PeerCred uid _ \<Rightarrow>
          (let peerIsHelper = is_exec_helper_uid cfg uid; isOwner = (uid = cc_owner cfg \<or> uid = 0 \<and> cc_allow_root cfg) in
           op = ''exec.redeem'' \<and> \<not> peerIsHelper \<or> peerIsHelper \<and> \<not> isOwner \<and> op \<noteq> ''exec.redeem'')
      | _ \<Rightarrow> False)"

text \<open>
  \<open>handleConn\<close>: the bytes sent back and the state. \<open>fds\<close> says whether the descriptors of a spawn arrive; \<open>run\<close> is the
  switch, for the caller built from the peer. The test of \<open>err\<close> before the caller is built and before the
  descriptors are awaited reads the error of \<open>ReadEnvelope\<close>, which is nil there: a connection without a peer gets the
  caller with user and process 0.
\<close>

definition handle_conn ::
  "(envelope \<Rightarrow> bytes option) \<Rightarrow> (bytes \<Rightarrow> envelope option) \<Rightarrow> (int \<Rightarrow> string \<times> int) \<Rightarrow> (int \<Rightarrow> int) \<Rightarrow> conn_config \<Rightarrow>
   (caller \<Rightarrow> envelope \<Rightarrow> 's \<Rightarrow> envelope \<times> 's) \<Rightarrow> nat option \<Rightarrow> bool \<Rightarrow> peer \<Rightarrow> byte_stream \<Rightarrow> 's \<Rightarrow> bytes \<times> 's" where
  "handle_conn enc dec procInfo ttyOf cfg run brk fds p st s =
     (let reply = (\<lambda>env. snd (write_frame enc brk env [])); refuse = (\<lambda>i c. reply (error_envelope i c [] [])) in
      case peer_refused cfg p of
        Some c \<Rightarrow> (refuse [] c, s)
      | None \<Rightarrow>
          (case fst (read_envelope dec st) of
             (env, Some e) \<Rightarrow>
               (refuse (case env of None \<Rightarrow> [] | Some env \<Rightarrow> wv_id env)
                 (case e of UnsupportedVersion _ \<Rightarrow> CodeUnsupportedVer | _ \<Rightarrow> CodeBadRequest), s)
           | (None, None) \<Rightarrow> (refuse [] CodeBadRequest, s)
           | (Some env, None) \<Rightarrow>
               if op_refused cfg p (wv_op env) then (refuse (wv_id env) CodeBadRequest, s)
               else
                 (let ci = (case p of PeerCred uid pid \<Rightarrow> socket_caller procInfo ttyOf uid pid (wv_session env)
                     | _ \<Rightarrow> socket_caller procInfo ttyOf 0 0 (wv_session env)) in
                  if wv_op env = ''exec.spawn'' \<and> \<not> fds then (refuse (wv_id env) CodeBadRequest, s)
                  else (case run ci env s of (resp, s) \<Rightarrow> (reply resp, s)))))"

end
