(* ===== verification/Socket_Claims.thy ===== *)
theory Socket_Claims
  imports Socket_Protocol
begin

text \<open>
  The properties of the socket protocol: what is written is read back, what is cut off is never taken for a
  message, who reaches the handlers, and a whole call from the client through a connection and back.
\<close>

section \<open>Frames\<close>

lemma read_full_exact: "read_full (length a) (a @ b, e) = (Inr a, (b, e))"
  by (simp add: read_full_def)

lemma read_full_short:
  "length bs < n \<Longrightarrow> read_full n (bs, AtEOF) = (Inl (if bs = [] then ReadEOF else ReadUnexpectedEOF), ([], AtEOF))"
  by (simp add: read_full_def)

lemma read_frame_header:
  assumes "0 < n" "n \<le> MaxFrameSize"
  shows "read_frame dec (be32 n @ st, e) =
    (case read_full n (st, e) of
       (Inl err, st) \<Rightarrow> (Inl (frame_read_error err), st)
     | (Inr buf, st) \<Rightarrow> (case dec buf of None \<Rightarrow> (Inl Undecodable, st) | Some v \<Rightarrow> (Inr v, st)))"
proof -
  have "read_full LengthPrefixSize (be32 n @ st, e) = (Inr (be32 n), (st, e))"
    using read_full_exact [of "be32 n"] by (simp add: LengthPrefixSize_def)
  then show ?thesis using assms by (simp add: read_frame_def MaxFrameSize_def un_be32_be32)
qed

lemma write_frame_Inr:
  "write_frame enc brk v out = (Inr (), out') \<longleftrightarrow>
    brk = None \<and> (\<exists>body. enc v = Some body \<and> length body \<le> MaxFrameSize \<and> out' = out @ be32 (length body) @ body)"
  by (auto simp: write_frame_def write_bytes_def split: option.splits)

lemma read_written_frame:
  assumes "enc v = Some body" "length body \<le> MaxFrameSize" "body \<noteq> []" "dec body = Some v"
  shows "read_frame dec (be32 (length body) @ body @ rest, e) = (Inr v, (rest, e))"
  using assms by (simp add: read_frame_header read_full_exact)

text \<open>Several messages on one stream, in order.\<close>

fun write_frames :: "('a \<Rightarrow> bytes option) \<Rightarrow> 'a list \<Rightarrow> bytes \<Rightarrow> (wire_error + unit) \<times> bytes" where
  "write_frames enc [] out = (Inr (), out)"
| "write_frames enc (m # ms) out =
     (case write_frame enc None m out of (Inl e, out) \<Rightarrow> (Inl e, out) | (Inr _, out) \<Rightarrow> write_frames enc ms out)"

fun read_frames :: "(bytes \<Rightarrow> 'a option) \<Rightarrow> nat \<Rightarrow> byte_stream \<Rightarrow> (wire_error + 'a list) \<times> byte_stream" where
  "read_frames dec 0 st = (Inr [], st)"
| "read_frames dec (Suc n) st =
     (case read_frame dec st of
        (Inl e, st) \<Rightarrow> (Inl e, st)
      | (Inr m, st) \<Rightarrow> (case read_frames dec n st of (Inl e, st) \<Rightarrow> (Inl e, st) | (Inr ms, st) \<Rightarrow> (Inr (m # ms), st)))"

lemma frames_written:
  assumes law: "\<And>m b. enc m = Some b \<Longrightarrow> dec b = Some m \<and> b \<noteq> []"
    and "write_frames enc ms out = (Inr (), out')"
  shows "\<exists>w. out' = out @ w \<and> read_frames dec (length ms) (w @ rest, e) = (Inr ms, (rest, e))"
  using assms(2)
proof (induction ms arbitrary: out)
  case Nil
  then show ?case by simp
next
  case (Cons m ms)
  obtain body where body: "enc m = Some body" "length body \<le> MaxFrameSize"
      "write_frames enc ms (out @ be32 (length body) @ body) = (Inr (), out')"
    using Cons.prems by (auto simp: write_frame_Inr split: prod.splits sum.splits)
  obtain w where w: "out' = out @ be32 (length body) @ body @ w" "read_frames dec (length ms) (w @ rest, e) = (Inr ms, (rest, e))"
    using Cons.IH [OF body(3)] by auto
  then show ?case
    using read_written_frame [where enc = enc and dec = dec and rest = "w @ rest" and e = e, OF body(1,2)] law [OF body(1)]
    by (intro exI [of _ "be32 (length body) @ body @ w"]) simp
qed

text \<open>
  C24. Messages written one after the other are read back one by one, all of them and in order, whatever follows
  on the stream and however it ends: no byte of one frame is taken for another, up to the largest frame.
\<close>

theorem frames_read_back:
  assumes "\<And>m b. enc m = Some b \<Longrightarrow> dec b = Some m \<and> b \<noteq> []"
    and "write_frames enc ms [] = (Inr (), out)"
  shows "read_frames dec (length ms) (out @ rest, e) = (Inr ms, (rest, e))"
  using frames_written [OF assms] by auto

text \<open>An encoder for the examples: the text in quotes.\<close>

definition toy_enc :: "string \<Rightarrow> bytes option" where "toy_enc m = Some (CHR 0x22 # m @ [CHR 0x22])"

definition toy_dec :: "bytes \<Rightarrow> string option" where
  "toy_dec b = (if 2 \<le> length b \<and> hd b = CHR 0x22 \<and> last b = CHR 0x22 then Some (butlast (tl b)) else None)"

lemma toy_dec_enc: "toy_enc m = Some b \<Longrightarrow> toy_dec b = Some m \<and> b \<noteq> []"
  by (auto simp: toy_enc_def toy_dec_def)

lemma frames_read_back_witness:
  "fst (write_frames toy_enc [''get'', [], ''list''] []) = Inr () \<and>
   read_frames toy_dec (length [''get'', [], ''list'']) (snd (write_frames toy_enc [''get'', [], ''list''] []) @ ''x'', AtEOF) =
     (Inr [''get'', [], ''list''], (''x'', AtEOF))"
proof -
  obtain out where out: "write_frames toy_enc [''get'', [], ''list''] [] = (Inr (), out)"
    by (simp add: write_frame_def write_bytes_def toy_enc_def MaxFrameSize_def)
  then show ?thesis using frames_read_back [of toy_enc toy_dec _ out "''x''" AtEOF, OF toy_dec_enc out] by simp
qed

text \<open>
  C25. A frame that is cut off is never taken for a message, whatever the decoder would make of its beginning. A
  cut inside the length or inside the body is reported as a short frame; a cut exactly after the length is
  reported like a stream that ended before the frame began, although the frame had begun.
\<close>

theorem cut_frame_is_no_message:
  assumes "write_frame enc None m [] = (Inr (), out)" and "enc m \<noteq> Some []" and "k < length out"
  shows "fst (read_frame dec (take k out, AtEOF)) = Inl (if k = 0 \<or> k = LengthPrefixSize then EndOfStream else ShortFrame)"
proof -
  obtain body where body: "length body \<le> MaxFrameSize" "body \<noteq> []" "out = be32 (length body) @ body"
    using assms(1,2) by (auto simp: write_frame_Inr)
  show ?thesis
  proof (cases "k < LengthPrefixSize")
    case True
    then have "read_full LengthPrefixSize (take k out, AtEOF) =
        (Inl (if k = 0 then ReadEOF else ReadUnexpectedEOF), ([], AtEOF))"
      using read_full_short [of "take k out" LengthPrefixSize] assms(3) by (auto simp: take_eq_Nil)
    then show ?thesis using True by (simp add: read_frame_def)
  next
    case False
    then have k: "take k out = be32 (length body) @ take (k - 4) body" "k - 4 < length body"
      using assms(3) by (auto simp: body(3) LengthPrefixSize_def)
    have "read_full (length body) (take (k - 4) body, AtEOF) =
        (Inl (if k = 4 then ReadEOF else ReadUnexpectedEOF), ([], AtEOF))"
      using read_full_short [of "take (k - 4) body" "length body"] k(2) False body(2) by (auto simp: take_eq_Nil LengthPrefixSize_def)
    moreover have "0 < length body" using body(2) by simp
    ultimately show ?thesis using body(1) False by (simp add: k(1) read_frame_header LengthPrefixSize_def)
  qed
qed

lemma cut_frame_is_no_message_witness:
  "fst (read_frame toy_dec (take 4 (snd (write_frame toy_enc None ''get'' [])), AtEOF)) = Inl EndOfStream"
proof -
  obtain out where out: "write_frame toy_enc None ''get'' [] = (Inr (), out)" "length out = 9"
    by (simp add: write_frame_def write_bytes_def toy_enc_def MaxFrameSize_def)
  show ?thesis
    using cut_frame_is_no_message [OF out(1), of 4 toy_dec] by (simp add: out toy_enc_def LengthPrefixSize_def)
qed

section \<open>Who reaches the handlers\<close>

text \<open>
  C7. A connection is answered by the handlers only for a peer whose user the kernel vouches for: the owner, root
  where that is allowed, or the helper that runs commands, which gets at nothing but the redemption of a token, and
  that redemption nobody else gets at. The caller they see carries that very user. Every other connection gets
  an error, and nothing is changed.
\<close>

theorem peers_are_confined:
  assumes "handle_conn enc dec procInfo ttyOf cfg run brk fds (PeerCred uid pid) st s = (out, s')"
  shows "(\<exists>env ci resp. fst (read_envelope dec st) = (Some env, None) \<and> run ci env s = (resp, s') \<and>
      out = snd (write_frame enc brk resp []) \<and> ci_uid ci = uid \<and> ci_session ci = wv_session env \<and>
      (uid = cc_owner cfg \<or> uid = 0 \<and> cc_allow_root cfg \<or> is_exec_helper_uid cfg uid \<and> wv_op env = ''exec.redeem'') \<and>
      (wv_op env = ''exec.redeem'' \<longrightarrow> is_exec_helper_uid cfg uid)) \<or>
    s' = s \<and> (\<exists>i c. out = snd (write_frame enc brk (error_envelope i c [] []) []))"
proof -
  obtain env e where read: "fst (read_envelope dec st) = (env, e)" by fastforce
  show ?thesis
  proof (cases "peer_refused cfg (PeerCred uid pid) = None \<and> e = None \<and>
      (\<exists>v. env = Some v \<and> \<not> op_refused cfg (PeerCred uid pid) (wv_op v) \<and> (wv_op v = ''exec.spawn'' \<longrightarrow> fds))")
    case True
    then obtain v where v: "env = Some v" "e = None" "peer_refused cfg (PeerCred uid pid) = None"
        "\<not> op_refused cfg (PeerCred uid pid) (wv_op v)" "wv_op v = ''exec.spawn'' \<longrightarrow> fds" by blast
    let ?ci = "socket_caller procInfo ttyOf uid pid (wv_session v)"
    obtain resp where resp: "run ?ci v s = (resp, s')" "out = snd (write_frame enc brk resp [])"
      using assms v read by (auto simp: handle_conn_def Let_def split: prod.splits if_splits)
    have "ci_uid ?ci = uid" "ci_session ?ci = wv_session v" by (simp_all add: socket_caller_def case_prod_unfold)
    then show ?thesis
      using read v resp by (intro disjI1 exI [of _ v] exI [of _ ?ci] exI [of _ resp]) (auto simp: op_refused_def peer_refused_def Let_def split: if_splits)
  next
    case False
    then have "s' = s \<and> (\<exists>i c. out = snd (write_frame enc brk (error_envelope i c [] []) []))"
      using assms read by (fastforce simp: handle_conn_def Let_def split: option.splits if_splits)
    then show ?thesis ..
  qed
qed

text \<open>Decoders and handlers for the examples: every request is \<open>exec.redeem\<close>, and serving it counts.\<close>

definition redeem_request :: envelope where
  "redeem_request = \<lparr>wv_version = ProtocolVersion, wv_id = ''1'', wv_op = ''exec.redeem'', wv_req = [], wv_resp = [], wv_err = None,
     wv_session = []\<rparr>"

definition house_rules :: conn_config where
  "house_rules = \<lparr>cc_owner = 501, cc_allow_root = False, cc_exec_provisioned = True, cc_exec_uid = 502\<rparr>"

lemma peers_are_confined_witness:
  "snd (handle_conn (\<lambda>_. Some []) (\<lambda>_. Some redeem_request) (\<lambda>_. ([], 0)) (\<lambda>_. 0) house_rules (\<lambda>ci env n. (env, Suc n)) None True
     (PeerCred 501 7) (be32 1 @ ''x'', AtEOF) 0) = 0"
proof -
  have read: "fst (read_envelope (\<lambda>_. Some redeem_request) (be32 1 @ ''x'', AtEOF)) = (Some redeem_request, None)"
    using read_frame_header [of 1 "\<lambda>_. Some redeem_request" "''x''" AtEOF]
    by (simp add: read_envelope_def MaxFrameSize_def read_full_def redeem_request_def ProtocolVersion_def)
  obtain out n where out: "handle_conn (\<lambda>_. Some []) (\<lambda>_. Some redeem_request) (\<lambda>_. ([], 0)) (\<lambda>_. 0) house_rules
      (\<lambda>ci env n. (env, Suc n)) None True (PeerCred 501 7) (be32 1 @ ''x'', AtEOF) (0 :: nat) = (out, n)" by fastforce
  have "\<not> is_exec_helper_uid house_rules 501" "wv_op redeem_request = ''exec.redeem''"
    by (simp_all add: is_exec_helper_uid_def house_rules_def redeem_request_def)
  then have "n = 0" using peers_are_confined [OF out] read by auto
  then show ?thesis using out by simp
qed

section \<open>A whole call\<close>

lemma decode_new_wire_response:
  assumes "new_wire_response encBody i r = Some resp" "encBody r = Some raw" "raw \<noteq> []" "decBody raw = Some r"
  shows "decode_body decBody BodyResp resp target = Inr r" "wv_id resp = i" "wv_err resp = None" "wv_version resp = ProtocolVersion"
  using assms by (auto simp: new_wire_response_def decode_body_def)

lemma read_envelope_written:
  assumes "enc env = Some b" "length b \<le> MaxFrameSize" "b \<noteq> []" "dec b = Some env" "wv_version env = ProtocolVersion"
  shows "fst (read_envelope dec (snd (write_frame enc None env []), e)) = (Some env, None)"
  using assms read_written_frame [where enc = enc and rest = "[]" and e = e and dec = dec, OF assms(1-4)]
  by (simp add: read_envelope_def write_frame_def write_bytes_def ProtocolVersion_def)

text \<open>
  C16. A call by the owner runs the handler exactly once, on the request as it was made and with the session it carries, and
  returns the very answer, if that fits into a frame. If it does not fit nothing at all is sent back: the client
  sees the stream end, as if the daemon had died, although the request was carried out.
\<close>

theorem call_is_answered:
  assumes codec: "\<And>v b. enc v = Some b \<Longrightarrow> dec b = Some v \<and> b \<noteq> []"
    and req: "new_wire_request encReq (hex_encode draw) op body = Some env" "enc (env\<lparr>wv_session := session\<rparr>) = Some sent" "length sent \<le> MaxFrameSize"
    and peer: "uid = cc_owner cfg" "op \<noteq> ''exec.redeem''" "op \<noteq> ''exec.spawn''"
    and run: "run (socket_caller procInfo ttyOf uid pid session) (env\<lparr>wv_session := session\<rparr>) s = (resp, s')"
    and resp: "new_wire_response encResp (hex_encode draw) r = Some resp" "encResp r = Some raw" "raw \<noteq> []" "decResp raw = Some r" "enc resp = Some answer"
  defines "conn \<equiv> \<lambda>got. handle_conn enc dec procInfo ttyOf cfg run None True (PeerCred uid pid) (got, AtEOF) s"
  shows "call_with_session enc dec encReq decResp (Some draw) True None (\<lambda>got. (fst (conn got), AtEOF)) op body target session =
      (if length answer \<le> MaxFrameSize then Inr r else Inl (ReadFailed EndOfStream)) \<and>
    snd (conn (snd (write_frame enc None (env\<lparr>wv_session := session\<rparr>) []))) = s'"
proof -
  let ?env = "env\<lparr>wv_session := session\<rparr>" and ?frame = "snd (write_frame enc None (env\<lparr>wv_session := session\<rparr>) [])"
  have env: "wv_version ?env = ProtocolVersion" "wv_op ?env = op" "wv_session env = []" "(if length session > 0 then ?env else env) = ?env"
    using req(1) by (auto simp: new_wire_request_def)
  have wrote: "fst (write_frame enc None ?env []) = Inr ()"
    using req(2,3) by (simp add: write_frame_def write_bytes_def)
  have read: "fst (read_envelope dec (?frame, AtEOF)) = (Some ?env, None)"
    using read_envelope_written [where enc = enc and dec = dec, OF req(2,3)] codec [OF req(2)] env(1) by simp
  have free: "peer_refused cfg (PeerCred uid pid) = None" "\<not> op_refused cfg (PeerCred uid pid) op"
    using peer by (auto simp: peer_refused_def op_refused_def Let_def)
  have conn: "conn ?frame = (snd (write_frame enc None resp []), s')"
    using read free env(2) peer(3) run by (simp add: conn_def handle_conn_def Let_def)
  have "fst (read_envelope dec (fst (conn ?frame), AtEOF)) =
      (if length answer \<le> MaxFrameSize then (Some resp, None) else (None, Some EndOfStream))"
  proof (cases "length answer \<le> MaxFrameSize")
    case True
    then show ?thesis using read_envelope_written [where enc = enc and dec = dec, OF resp(5)] codec [OF resp(5)] decode_new_wire_response(4) [where encBody = encResp and decBody = decResp, OF resp(1-4)] conn by simp
  next
    case False
    then have "snd (write_frame enc None resp []) = []" using resp(5) by (simp add: write_frame_def)
    then show ?thesis using False by (simp add: conn read_envelope_def read_frame_def read_full_short LengthPrefixSize_def)
  qed
  then show ?thesis
    using req(1) env(4) wrote conn decode_new_wire_response [where encBody = encResp and decBody = decResp, OF resp(1-4)]
    by (simp add: call_with_session_def Let_def case_prod_unfold split: if_splits)
qed

text \<open>A call that counts, and envelopes that two words stand for.\<close>

definition count_request :: envelope where
  "count_request = \<lparr>wv_version = ProtocolVersion, wv_id = hex_encode ''12'', wv_op = ''count'', wv_req = CHR 0x22 # ''x'' @ [CHR 0x22],
     wv_resp = [], wv_err = None, wv_session = ''tok''\<rparr>"

definition count_response :: envelope where
  "count_response = \<lparr>wv_version = ProtocolVersion, wv_id = hex_encode ''12'', wv_op = [], wv_req = [],
     wv_resp = CHR 0x22 # ''done'' @ [CHR 0x22], wv_err = None, wv_session = []\<rparr>"

definition count_enc :: "envelope \<Rightarrow> bytes option" where
  "count_enc env = (if env = count_request then Some ''request'' else if env = count_response then Some ''response'' else None)"

definition count_dec :: "bytes \<Rightarrow> envelope option" where
  "count_dec b = (if b = ''request'' then Some count_request else if b = ''response'' then Some count_response else None)"

lemma call_is_answered_witness:
  "let conn = \<lambda>got. handle_conn count_enc count_dec (\<lambda>_. ([], 0)) (\<lambda>_. 0) house_rules (\<lambda>ci env n. (count_response, Suc n)) None True
     (PeerCred 501 7) (got, AtEOF) 0 in
   call_with_session count_enc count_dec toy_enc toy_dec (Some ''12'') True None (\<lambda>got. (fst (conn got), AtEOF)) ''count'' ''x'' [] ''tok'' =
     Inr ''done'' \<and> snd (conn (snd (write_frame count_enc None count_request []))) = 1"
proof -
  have req: "new_wire_request toy_enc (hex_encode ''12'') ''count'' ''x'' = Some (count_request\<lparr>wv_session := []\<rparr>)"
    by (simp add: new_wire_request_def toy_enc_def count_request_def)
  have resp: "new_wire_response toy_enc (hex_encode ''12'') ''done'' = Some count_response"
    by (simp add: new_wire_response_def toy_enc_def count_response_def)
  have session: "count_request\<lparr>wv_session := []\<rparr>\<lparr>wv_session := ''tok''\<rparr> = count_request"
    by (simp add: count_request_def)
  have two: "count_response \<noteq> count_request" by (simp add: count_request_def count_response_def)
  have codec: "count_dec b = Some v \<and> b \<noteq> []" if "count_enc v = Some b" for v b
    using that by (auto simp: count_enc_def count_dec_def split: if_splits)
  have enc: "count_enc (count_request\<lparr>wv_session := []\<rparr>\<lparr>wv_session := ''tok''\<rparr>) = Some ''request''" "count_enc count_response = Some ''response''"
    using two by (simp_all add: session count_enc_def)
  have owner: "501 = cc_owner house_rules" by (simp add: house_rules_def)
  show ?thesis
    using call_is_answered [where enc = count_enc and dec = count_dec and encReq = toy_enc and encResp = toy_enc and decResp = toy_dec
        and run = "\<lambda>ci env n. (count_response, Suc n)" and s = 0 and target = "[]" and uid = 501 and pid = 7 and procInfo = "\<lambda>_. ([], 0)"
        and ttyOf = "\<lambda>_. 0" and cfg = house_rules, OF codec req enc(1) _ owner _ _ refl resp _ _ _ enc(2)]
    by (simp add: MaxFrameSize_def toy_enc_def toy_dec_def session)
qed

end
