(* ===== verification/Env_File.thy ===== *)
theory Env_File
  imports Go_Prelude
begin

text \<open>
  Environment files: what \<open>byn export\<close> writes (\<open>cmd/byn/cmd_export.go\<close>), what \<open>byn import\<close> reads (\<open>cmd_import.go\<close>)
  and the comments above a variable that carry its description and notes (\<open>dotenv_annotations.go\<close>). Text is
  bytes; the decoders of JSON and YAML and the printing of a floating point number are arguments.
\<close>

abbreviation lf :: char where "lf \<equiv> CHR 0x0A"
abbreviation cr :: char where "cr \<equiv> CHR 0x0D"
abbreviation tab :: char where "tab \<equiv> CHR 0x09"
abbreviation dquote :: char where "dquote \<equiv> CHR 0x22"
abbreviation squote :: char where "squote \<equiv> CHR 0x27"
abbreviation bslash :: char where "bslash \<equiv> CHR 0x5C"
abbreviation hash :: char where "hash \<equiv> CHR ''#''"
abbreviation blank :: char where "blank \<equiv> CHR '' ''"

section \<open>Strings\<close>

text \<open>\<open>strings.ReplaceAll\<close> for one byte and for two.\<close>

definition replace_byte :: "char \<Rightarrow> string \<Rightarrow> string \<Rightarrow> string" where
  "replace_byte a new s = concat (map (\<lambda>c. if c = a then new else [c]) s)"

fun replace_pair :: "char \<Rightarrow> char \<Rightarrow> string \<Rightarrow> string \<Rightarrow> string" where
  "replace_pair a b new (x # y # s) =
     (if x = a \<and> y = b then new @ replace_pair a b new s else x # replace_pair a b new (y # s))"
| "replace_pair a b new s = s"

text \<open>\<open>strings.TrimLeft\<close> and \<open>TrimRight\<close> for a set of bytes.\<close>

definition trim_set_left :: "char set \<Rightarrow> string \<Rightarrow> string" where
  "trim_set_left cs s = dropWhile (\<lambda>c. c \<in> cs) s"

definition trim_set_right :: "char set \<Rightarrow> string \<Rightarrow> string" where
  "trim_set_right cs s = rev (dropWhile (\<lambda>c. c \<in> cs) (rev s))"

definition trim_prefix :: "string \<Rightarrow> string \<Rightarrow> string" where
  "trim_prefix s p = (if has_prefix s p then drop (length p) s else s)"

text \<open>What stands before the first occurrence of two bytes (\<open>strings.Index\<close>), all of it where there is none.\<close>

fun before_pair :: "char \<Rightarrow> char \<Rightarrow> string \<Rightarrow> string" where
  "before_pair a b (x # y # s) = (if x = a \<and> y = b then [] else x # before_pair a b (y # s))"
| "before_pair a b s = s"

section \<open>Annotations in comments\<close>

record comment_annotations =
  en_desc :: string
  en_notes :: "string list"

definition no_annotations :: comment_annotations where
  "no_annotations = \<lparr>en_desc = [], en_notes = []\<rparr>"

definition annotations_empty :: "comment_annotations \<Rightarrow> bool" where
  "annotations_empty a \<longleftrightarrow> en_desc a = [] \<and> en_notes a = []"

text \<open>
  \<open>commentedAssignment\<close>: optional white space, an optional \<open>export\<close> with white space after it, a name, optional white
  space and an equals sign. No choice made on the way can be wrong: a name begins with no white space and
  contains none.
\<close>

definition re_space :: "char \<Rightarrow> bool" where
  "re_space c \<longleftrightarrow> c \<in> {tab, lf, CHR 0x0C, cr, blank}"

definition name_start :: "char \<Rightarrow> bool" where
  "name_start c \<longleftrightarrow> (let n = of_char c :: nat in 65 \<le> n \<and> n \<le> 90 \<or> 97 \<le> n \<and> n \<le> 122 \<or> n = 95)"

definition name_part :: "char \<Rightarrow> bool" where
  "name_part c \<longleftrightarrow> name_start c \<or> (let n = of_char c :: nat in 48 \<le> n \<and> n \<le> 57 \<or> n = 46)"

definition plain_assignment :: "string \<Rightarrow> bool" where
  "plain_assignment s \<longleftrightarrow>
     s \<noteq> [] \<and> name_start (hd s) \<and> has_prefix (dropWhile re_space (dropWhile name_part (tl s))) ''=''"

definition commented_assignment :: "string \<Rightarrow> bool" where
  "commented_assignment s \<longleftrightarrow>
     (let s = dropWhile re_space s in
      plain_assignment s \<or>
      has_prefix s ''export'' \<and> (let t = drop 6 s in t \<noteq> [] \<and> re_space (hd t) \<and> plain_assignment (dropWhile re_space t)))"

record comment_block =
  cb_desc :: "string list"
  cb_notes :: "string list"
  cb_in_notes :: bool

definition empty_block :: comment_block where
  "empty_block = \<lparr>cb_desc = [], cb_notes = [], cb_in_notes = False\<rparr>"

definition add_comment :: "string \<Rightarrow> comment_block \<Rightarrow> comment_block" where
  "add_comment line c =
     (let body = trim_set_left {hash} line;
          hashes = length line - length body;
          body = trim_prefix body '' '' in
      if hashes \<ge> 2 then
        (let t = trim_space body in
         c\<lparr>cb_in_notes := True, cb_notes := (if t \<noteq> [] then cb_notes c @ [t] else cb_notes c)\<rparr>)
      else if cb_in_notes c then c
      else if commented_assignment body then empty_block
      else c\<lparr>cb_desc := cb_desc c @ [trim_set_right {blank, tab} body]\<rparr>)"

definition take_block :: "comment_block \<Rightarrow> comment_annotations" where
  "take_block c =
     \<lparr>en_desc = trim_set_right {lf} (trim_set_left {lf} (join [lf] (cb_desc c))), en_notes = cb_notes c\<rparr>"

definition render_description_line :: "string \<Rightarrow> string" where
  "render_description_line ln =
     (let ln = trim_set_right {blank, tab} ln in if ln = [] then [hash, lf] else ''# '' @ ln @ [lf])"

definition render_note :: "string \<Rightarrow> string" where
  "render_note n = (let n = join '' '' (str_fields n) in if n = [] then [] else ''## '' @ n @ [lf])"

definition render_annotation_comments :: "comment_annotations \<Rightarrow> string" where
  "render_annotation_comments a =
     (if en_desc a \<noteq> [] then concat (map render_description_line (split_char lf (replace_pair cr lf [lf] (en_desc a)))) else []) @
     concat (map render_note (en_notes a))"

section \<open>Export\<close>

definition needs_quote :: "string \<Rightarrow> bool" where
  "needs_quote v \<longleftrightarrow> (\<exists>c \<in> set v. c \<in> {blank, tab, lf, dquote, hash, CHR ''=''})"

definition escape_value :: "string \<Rightarrow> string" where
  "escape_value v = replace_byte lf [bslash, CHR ''n''] (replace_byte dquote [bslash, dquote] (replace_byte bslash [bslash, bslash] v))"

definition render_value :: "string \<Rightarrow> string" where
  "render_value v = (if needs_quote v then [dquote] @ escape_value v @ [dquote] else v)"

text \<open>\<open>renderDotenvAnnotated\<close>; the flag says whether a variable was written before.\<close>

fun render_from :: "bool \<Rightarrow> string list \<Rightarrow> string go_map \<Rightarrow> comment_annotations go_map \<Rightarrow> string" where
  "render_from later [] m ann = []"
| "render_from later (k # ks) m ann =
     (case map_get ann k of
        None \<Rightarrow> []
      | Some a \<Rightarrow> if annotations_empty a then [] else (if later then [lf] else []) @ render_annotation_comments a) @
     k @ ''='' @ render_value (map_at m k) @ [lf] @ render_from True ks m ann"

definition render_dotenv_annotated :: "string list \<Rightarrow> string go_map \<Rightarrow> comment_annotations go_map \<Rightarrow> string" where
  "render_dotenv_annotated keys m ann = render_from False keys m ann"

definition render_dotenv :: "string list \<Rightarrow> string go_map \<Rightarrow> string" where
  "render_dotenv keys m = render_dotenv_annotated keys m []"

section \<open>Import\<close>

record import_kv =
  kv_name :: string
  kv_value :: string
  kv_ann :: comment_annotations

datatype import_error =
    MissingEquals nat | EmptyKey nat | UnterminatedQuote nat | LineTooLong | BadDocument | NestedValue string | UnsupportedFormat

datatype import_format = FmtUnknown | FmtDotenv | FmtYAML | FmtJSON

text \<open>\<open>pickFormat\<close>: by flag, by extension, by the first byte that is no white space.\<close>

definition pick_format :: "string \<Rightarrow> string \<Rightarrow> bytes \<Rightarrow> import_format" where
  "pick_format forced ext body =
     (if forced \<in> {''env'', ''dotenv''} then FmtDotenv
      else if forced \<in> {''yaml'', ''yml''} then FmtYAML
      else if forced = ''json'' then FmtJSON
      else if ext = ''.env'' then FmtDotenv
      else if ext \<in> {''.yaml'', ''.yml''} then FmtYAML
      else if ext = ''.json'' then FmtJSON
      else if has_prefix (trim_set_left {blank, tab, lf, cr} body) ''{'' then FmtJSON else FmtUnknown)"

text \<open>
  The lines \<open>bufio.Scanner\<close> yields: without the line end and one carriage return before it, and no empty one at the end.
  A line that does not fit into the buffer of 4 MiB ends the scan.
\<close>

definition max_line :: nat where "max_line = 4 * 1024 * 1024"

definition scan_lines :: "bytes \<Rightarrow> string list" where
  "scan_lines s = (let ls = split_char lf s in if last ls = [] then butlast ls else ls)"

definition drop_cr :: "string \<Rightarrow> string" where
  "drop_cr l = (if l \<noteq> [] \<and> last l = cr then butlast l else l)"

definition unescape_value :: "string \<Rightarrow> string" where
  "unescape_value v =
     replace_pair bslash bslash [bslash] (replace_pair bslash dquote [dquote]
       (replace_pair bslash (CHR ''t'') [tab] (replace_pair bslash (CHR ''n'') [lf] v)))"

definition parse_value :: "nat \<Rightarrow> string \<Rightarrow> import_error + string" where
  "parse_value lineNo v =
     (if \<not> has_prefix v [dquote] \<and> \<not> has_prefix v [squote] then Inr (trim_space (before_pair blank hash v))
      else (case split_first (hd v) (tl v) of
              None \<Rightarrow> Inl (UnterminatedQuote lineNo)
            | Some (inner, _) \<Rightarrow> Inr (if hd v = dquote then unescape_value inner else inner)))"

definition strip_export :: "string \<Rightarrow> string" where
  "strip_export raw = (if has_prefix raw ''export '' then trim_set_left {blank, tab} (trim_prefix raw ''export '') else raw)"

definition parse_assignment :: "nat \<Rightarrow> string \<Rightarrow> import_error + string \<times> string" where
  "parse_assignment lineNo raw =
     (case split_first (CHR ''='') (strip_export raw) of
        None \<Rightarrow> Inl (MissingEquals lineNo)
      | Some (left, v) \<Rightarrow>
          (let k = trim_space left in
           if k = [] then Inl (EmptyKey lineNo)
           else (case parse_value lineNo v of Inl e \<Rightarrow> Inl e | Inr v \<Rightarrow> Inr (k, v))))"

fun parse_lines :: "nat \<Rightarrow> comment_block \<Rightarrow> string list \<Rightarrow> import_error + import_kv list" where
  "parse_lines lineNo block [] = Inr []"
| "parse_lines lineNo block (l # ls) =
     (if length l \<ge> max_line then Inl LineTooLong
      else let lineNo = lineNo + 1; raw = trim_space (drop_cr l) in
        if raw = [] then parse_lines lineNo empty_block ls
        else if has_prefix raw ''#'' then parse_lines lineNo (add_comment raw block) ls
        else (case parse_assignment lineNo raw of
                Inl e \<Rightarrow> Inl e
              | Inr (k, v) \<Rightarrow>
                  (case parse_lines lineNo empty_block ls of
                     Inl e \<Rightarrow> Inl e
                   | Inr out \<Rightarrow> Inr (\<lparr>kv_name = k, kv_value = v, kv_ann = take_block block\<rparr> # out))))"

definition parse_dotenv :: "bytes \<Rightarrow> import_error + import_kv list" where
  "parse_dotenv body = parse_lines 0 empty_block (scan_lines body)"

text \<open>
  A decoded document is a map of values in the order the code walks over it; \<open>fmtFloat\<close> prints a float. What is
  neither text, nor a scalar, nor null is refused.
\<close>

datatype 'f scalar = ScString string | ScBool bool | ScInt int | ScFloat 'f | ScNull | ScNested

fun coerce_flat :: "('f \<Rightarrow> string) \<Rightarrow> (string \<times> 'f scalar) list \<Rightarrow> import_error + import_kv list" where
  "coerce_flat fmtFloat [] = Inr []"
| "coerce_flat fmtFloat ((k, x) # m) =
     (let put = (\<lambda>v. map_sum id ((#) \<lparr>kv_name = k, kv_value = v, kv_ann = no_annotations\<rparr>) (coerce_flat fmtFloat m)) in
      case x of
        ScString s \<Rightarrow> put s
      | ScBool b \<Rightarrow> put (if b then ''true'' else ''false'')
      | ScInt i \<Rightarrow> put (int_dec i)
      | ScFloat f \<Rightarrow> put (fmtFloat f)
      | ScNull \<Rightarrow> put []
      | ScNested \<Rightarrow> Inl (NestedValue k))"

definition parse_flat :: "('f \<Rightarrow> string) \<Rightarrow> (bytes \<Rightarrow> (string \<times> 'f scalar) list option) \<Rightarrow> bytes \<Rightarrow> import_error + import_kv list" where
  "parse_flat fmtFloat dec body = (case dec body of None \<Rightarrow> Inl BadDocument | Some m \<Rightarrow> coerce_flat fmtFloat m)"

definition parse_import ::
  "('f \<Rightarrow> string) \<Rightarrow> (bytes \<Rightarrow> (string \<times> 'f scalar) list option) \<Rightarrow> (bytes \<Rightarrow> (string \<times> 'f scalar) list option) \<Rightarrow>
   bytes \<Rightarrow> import_format \<Rightarrow> import_error + import_kv list" where
  "parse_import fmtFloat json yaml body f =
     (case f of
        FmtDotenv \<Rightarrow> parse_dotenv body
      | FmtJSON \<Rightarrow> parse_flat fmtFloat json body
      | FmtYAML \<Rightarrow> parse_flat fmtFloat yaml body
      | FmtUnknown \<Rightarrow> Inl UnsupportedFormat)"

end
