(* ===== verification/Env_File_Claims.thy ===== *)
theory Env_File_Claims
  imports Env_File
begin

text \<open>
  What survives an export and an import as an environment file: exactly which values, and the descriptions and notes in the
  comments above them. First come the lemmas on trimming, on pairs and on undoing the escapes of a value.
\<close>

section \<open>Trimming\<close>

lemma prefix_before: "c \<notin> set p \<Longrightarrow> prefix p (x @ c # y) \<longleftrightarrow> prefix p x"
  by (auto simp: prefix_append prefix_Cons)

lemma lead_match_before: "\<forall>p \<in> set ps. c \<notin> set p \<Longrightarrow> lead_match ps (x @ c # y) = lead_match ps x"
  unfolding lead_match_def by (rule find_cong) (auto simp: prefix_before)

lemma trim_front_before:
  assumes "\<forall>p \<in> set ps. c \<notin> set p"
  shows "trim_front ps (x @ c # y) = trim_front ps x @ c # y"
  using assms
proof (induction ps x rule: trim_front.induct)
  case (1 ps x)
  show ?case
  proof (cases "lead_match ps x")
    case None
    then show ?thesis using 1 by (simp add: trim_front_stop lead_match_before)
  next
    case (Some p)
    then have p: "prefix p x" "lead_match ps (x @ c # y) = Some p" using 1 lead_match_Some lead_match_before by force+
    then have "length p \<le> length x" by (simp add: prefix_length_le)
    then show ?thesis using 1 Some p by (simp add: trim_front.simps [of ps "x @ c # y"] trim_front.simps [of ps x])
  qed
qed

text \<open>A byte that occurs in no white space.\<close>

definition solid :: "char \<Rightarrow> bool" where
  "solid c \<longleftrightarrow> (\<forall>p \<in> set space_runes. c \<notin> set p)"

lemma solid_simps [simp]: "solid (CHR ''='')" "solid dquote" "solid squote" "solid hash"
  by (simp_all add: solid_def space_runes_literal)

lemma lead_match_solid: "solid c \<Longrightarrow> lead_match space_runes (x @ c # y) = lead_match space_runes x"
  by (simp add: lead_match_before solid_def)

lemma lead_match_Nil [simp]: "lead_match ps [] = None"
  by (auto simp: lead_match_None)

lemma lead_match_solid_hd: "solid c \<Longrightarrow> lead_match space_runes (c # y) = None"
  using lead_match_solid [of c "[]"] by simp

lemma trim_left_solid: "lead_match space_runes x = None \<Longrightarrow> solid c \<Longrightarrow> trim_left (x @ c # y) = x @ c # y"
  by (simp add: trim_left_def trim_front_stop lead_match_solid)

lemma trim_right_Nil [simp]: "trim_right [] = []"
  by (simp add: trim_right_def trim_front_stop)

lemma trim_right_solid: "solid c \<Longrightarrow> trim_right (x @ c # y) = x @ c # trim_right y"
  using trim_front_before [of "map rev space_runes" c "rev y" "rev x"] by (simp add: trim_right_def solid_def)

lemma trim_right_solid_Cons: "solid c \<Longrightarrow> trim_right (c # y) = c # trim_right y"
  using trim_right_solid [of c "[]"] by simp

lemma trim_right_cr: "trim_right (x @ [cr]) = trim_right x"
proof -
  have "lead_match (map rev space_runes) (cr # rev x) = Some [cr]"
    by (simp add: lead_match_def space_runes_literal)
  then show ?thesis by (simp add: trim_right_def trim_front.simps [of _ "cr # rev x"])
qed

lemma trim_right_drop_cr: "trim_right (drop_cr x) = trim_right x"
proof (cases "x \<noteq> [] \<and> last x = cr")
  case True
  then have "x = butlast x @ [cr]" by (metis append_butlast_last_id)
  then show ?thesis using True trim_right_cr [of "butlast x"] by (simp add: drop_cr_def)
next
  case False
  then show ?thesis by (auto simp: drop_cr_def)
qed

lemma drop_cr_after: "c \<noteq> cr \<Longrightarrow> drop_cr (x @ c # y) = x @ c # drop_cr y"
  by (simp add: drop_cr_def butlast_append)

lemma trim_space_line:
  assumes "lead_match space_runes x = None" "solid c" "c \<noteq> cr"
  shows "trim_space (drop_cr (x @ c # y)) = x @ c # trim_right y"
  using assms by (simp add: drop_cr_after trim_space_def trim_left_solid trim_right_solid trim_right_drop_cr)

lemma trim_spaceD:
  assumes "trim_space s = s"
  shows "lead_match space_runes s = None" "trim_right s = s"
proof -
  obtain u where u: "s = u @ trim_left s" using trim_front_suffix [of s space_runes] by (auto simp: trim_left_def)
  obtain v where v: "trim_left s = trim_space s @ v" using trim_right_prefix [of "trim_left s"] by (auto simp: trim_space_def)
  have "length s \<le> length (trim_left s)" using v assms by (metis length_append le_add1)
  then have "u = []" using u by (metis add_le_same_cancel2 le_zero_eq length_0_conv length_append)
  then have s: "trim_left s = s" using u by simp
  show "lead_match space_runes s = None" using trim_front_match_None [of space_runes s] s by (simp add: trim_left_def)
  show "trim_right s = s" using assms s by (simp add: trim_space_def)
qed

lemma trim_right_length: "length (trim_right s) \<le> length s"
  using trim_right_prefix [of s] by (metis le_add1 length_append)

section \<open>Pairs\<close>

lemma replace_pair_other: "x \<noteq> a \<Longrightarrow> replace_pair a b new (x # s) = x # replace_pair a b new s"
  by (cases s) auto

lemma replace_pair_no: "s = [] \<or> hd s \<noteq> b \<Longrightarrow> replace_pair a b new (a # s) = a # replace_pair a b new s"
  by (cases s) auto

lemma replace_pair_none: "a \<notin> set s \<or> b \<notin> set s \<Longrightarrow> replace_pair a b new s = s"
  by (induction a b new s rule: replace_pair.induct) auto

lemma replace_pair_count:
  "c \<noteq> a \<Longrightarrow> c \<noteq> b \<Longrightarrow> c \<notin> set new \<Longrightarrow> count_list (replace_pair a b new s) c = count_list s c"
  by (induction a b new s rule: replace_pair.induct) (auto simp: count_notin)

lemma replace_pair_notin: "c \<notin> set s \<Longrightarrow> c \<notin> set new \<Longrightarrow> c \<notin> set (replace_pair a b new s)"
  by (induction a b new s rule: replace_pair.induct) auto

lemma before_pair_none: "a \<notin> set s \<Longrightarrow> before_pair a b s = s"
  by (induction a b s rule: before_pair.induct) auto

section \<open>Escapes\<close>

lemma escape_Nil [simp]: "escape_value [] = []"
  by (simp add: escape_value_def replace_byte_def)

lemma escape_Cons:
  "escape_value (c # s) =
    (if c = bslash then [bslash, bslash] else if c = dquote then [bslash, dquote] else if c = lf then [bslash, CHR ''n''] else [c]) @ escape_value s"
  by (simp add: escape_value_def replace_byte_def)

lemma escape_no_quote: "dquote \<notin> set v \<Longrightarrow> dquote \<notin> set (escape_value v)"
  by (induction v) (auto simp: escape_Cons)

lemma escape_no_lf: "lf \<notin> set (escape_value v)"
  by (induction v) (auto simp: escape_Cons)

abbreviation doubled :: "string \<Rightarrow> string" where "doubled v \<equiv> replace_byte bslash [bslash, bslash] v"

lemma doubled_simps [simp]: "doubled [] = []" "doubled (c # s) = (if c = bslash then [bslash, bslash] else [c]) @ doubled s"
  by (simp_all add: replace_byte_def)

lemma hd_escape: "s \<noteq> [] \<Longrightarrow> hd (escape_value s) = CHR ''n'' \<longleftrightarrow> hd s = CHR ''n''"
  by (cases s) (auto simp: escape_Cons)

lemma hd_doubled: "s \<noteq> [] \<Longrightarrow> hd (doubled s) = hd s"
  by (cases s) auto

lemma escape_eq_Nil [simp]: "escape_value s = [] \<longleftrightarrow> s = []"
  by (cases s) (auto simp: escape_Cons)

lemma doubled_eq_Nil [simp]: "doubled s = [] \<longleftrightarrow> s = []"
  by (cases s) auto

lemma contains_Cons2: "contains (c # s) [a, b] \<longleftrightarrow> (c = a \<and> s \<noteq> [] \<and> hd s = b) \<or> contains s [a, b]"
  by (cases s) (auto simp: prefix_Cons)

lemma undo_newlines:
  "dquote \<notin> set v \<Longrightarrow> \<not> contains v [bslash, CHR ''n''] \<Longrightarrow> replace_pair bslash (CHR ''n'') [lf] (escape_value v) = doubled v"
proof (induction v)
  case Nil
  then show ?case by simp
next
  case (Cons c s)
  then have IH: "replace_pair bslash (CHR ''n'') [lf] (escape_value s) = doubled s" and c: "c \<noteq> dquote" by (auto simp: contains_Cons2 simp del: contains.simps)
  have "escape_value s = [] \<or> hd (escape_value s) \<noteq> CHR ''n''" if "c = bslash"
    using that Cons.prems(2) hd_escape [of s] by (auto simp: contains_Cons2 simp del: contains.simps)
  then show ?case using IH c by (auto simp: escape_Cons replace_pair_no replace_pair_other)
qed

lemma undo_tabs: "\<not> contains v [bslash, CHR ''t''] \<Longrightarrow> replace_pair bslash (CHR ''t'') [tab] (doubled v) = doubled v"
proof (induction v)
  case Nil
  then show ?case by simp
next
  case (Cons c s)
  then have IH: "replace_pair bslash (CHR ''t'') [tab] (doubled s) = doubled s" by (auto simp: contains_Cons2 simp del: contains.simps)
  have "doubled s = [] \<or> hd (doubled s) \<noteq> CHR ''t''" if "c = bslash"
    using that Cons.prems hd_doubled [of s] by (auto simp: contains_Cons2 simp del: contains.simps)
  then show ?case using IH by (auto simp: replace_pair_no replace_pair_other)
qed

lemma undo_doubled: "replace_pair bslash bslash [bslash] (doubled v) = v"
  by (induction v) (auto simp: replace_pair_other)

lemma extra_newline:
  "count_list v lf + (if contains v [bslash, CHR ''n''] then 1 else 0) \<le>
    count_list (replace_pair bslash (CHR ''n'') [lf] (escape_value v)) lf"
proof (induction v rule: length_induct)
  case (1 v)
  show ?case
  proof (cases v)
    case Nil
    then show ?thesis by simp
  next
    case (Cons c s)
    have IH: "count_list s lf + (if contains s [bslash, CHR ''n''] then 1 else 0) \<le>
        count_list (replace_pair bslash (CHR ''n'') [lf] (escape_value s)) lf" using 1 Cons by simp
    show ?thesis
    proof (cases "c = bslash \<and> s \<noteq> [] \<and> hd s = CHR ''n''")
      case True
      then obtain s' where s': "s = CHR ''n'' # s'" by (cases s) auto
      have "count_list s' lf \<le> count_list (replace_pair bslash (CHR ''n'') [lf] (escape_value s')) lf"
        using 1 [rule_format, of s'] Cons s' by (auto split: if_splits)
      then show ?thesis using True by (simp add: Cons s' escape_Cons)
    next
      case False
      have "escape_value s = [] \<or> hd (escape_value s) \<noteq> CHR ''n''" if "c = bslash"
        using that False hd_escape [of s] by auto
      then show ?thesis
        using IH False by (auto simp: Cons contains_Cons2 escape_Cons replace_pair_no replace_pair_other simp del: contains.simps split: if_splits)
    qed
  qed
qed

lemma extra_tab:
  "count_list v tab + (if contains v [bslash, CHR ''t''] then 1 else 0) \<le>
    count_list (replace_pair bslash (CHR ''t'') [tab] (doubled v)) tab"
proof (induction v rule: length_induct)
  case (1 v)
  show ?case
  proof (cases v)
    case Nil
    then show ?thesis by simp
  next
    case (Cons c s)
    have IH: "count_list s tab + (if contains s [bslash, CHR ''t''] then 1 else 0) \<le>
        count_list (replace_pair bslash (CHR ''t'') [tab] (doubled s)) tab" using 1 Cons by simp
    show ?thesis
    proof (cases "c = bslash \<and> s \<noteq> [] \<and> hd s = CHR ''t''")
      case True
      then obtain s' where s': "s = CHR ''t'' # s'" by (cases s) auto
      have "count_list s' tab \<le> count_list (replace_pair bslash (CHR ''t'') [tab] (doubled s')) tab"
        using 1 [rule_format, of s'] Cons s' by (auto split: if_splits)
      then show ?thesis using True by (simp add: Cons s')
    next
      case False
      have "doubled s = [] \<or> hd (doubled s) \<noteq> CHR ''t''" if "c = bslash"
        using that False hd_doubled [of s] by auto
      then show ?thesis using IH False by (auto simp: Cons contains_Cons2 replace_pair_no replace_pair_other simp del: contains.simps split: if_splits)
    qed
  qed
qed

lemma unescape_escape_iff:
  assumes "dquote \<notin> set v"
  shows "unescape_value (escape_value v) = v \<longleftrightarrow> \<not> contains v [bslash, CHR ''n''] \<and> \<not> contains v [bslash, CHR ''t'']"
proof -
  let ?N = "replace_pair bslash (CHR ''n'') [lf] (escape_value v)"
  have lfs: "count_list (unescape_value (escape_value v)) lf = count_list ?N lf"
    by (simp add: unescape_value_def replace_pair_count)
  show ?thesis
  proof (cases "contains v [bslash, CHR ''n'']")
    case True
    then have "count_list (unescape_value (escape_value v)) lf \<noteq> count_list v lf" using extra_newline [of v] lfs by simp
    then show ?thesis using True by metis
  next
    case False
    then have N: "?N = doubled v" by (rule undo_newlines [OF assms])
    have tabs: "count_list (unescape_value (escape_value v)) tab = count_list (replace_pair bslash (CHR ''t'') [tab] (doubled v)) tab"
      by (simp add: unescape_value_def replace_pair_count N)
    show ?thesis
    proof (cases "contains v [bslash, CHR ''t'']")
      case True
      then have "count_list (unescape_value (escape_value v)) tab \<noteq> count_list v tab" using extra_tab [of v] tabs by simp
      then show ?thesis using True by metis
    next
      case no_tab: False
      have "dquote \<notin> set (doubled v)" using assms by (induction v) auto
      then show ?thesis
        using False no_tab by (simp add: unescape_value_def N undo_tabs replace_pair_none undo_doubled)
    qed
  qed
qed

lemma unescape_no_quote: "dquote \<notin> set s \<Longrightarrow> dquote \<notin> set (unescape_value s)"
proof -
  assume s: "dquote \<notin> set s"
  let ?t = "replace_pair bslash (CHR ''t'') [tab] (replace_pair bslash (CHR ''n'') [lf] s)"
  have "dquote \<notin> set ?t" using s by (simp add: replace_pair_notin)
  then show ?thesis by (simp add: unescape_value_def replace_pair_none replace_pair_notin)
qed

section \<open>One variable\<close>

text \<open>Names that make one line of the file and read back as themselves; the vault accepts others too.\<close>

definition env_key_ok :: "string \<Rightarrow> bool" where
  "env_key_ok k \<longleftrightarrow> k \<noteq> [] \<and> lf \<notin> set k \<and> CHR ''='' \<notin> set k \<and> trim_space k = k \<and> hd k \<noteq> hash \<and> \<not> has_prefix k ''export ''"

definition env_line :: "string \<Rightarrow> string \<Rightarrow> string" where
  "env_line k v = k @ CHR ''='' # render_value v"

definition value_survives :: "string \<Rightarrow> bool" where
  "value_survives v \<longleftrightarrow>
     (if needs_quote v then dquote \<notin> set v \<and> \<not> contains v [bslash, CHR ''n''] \<and> \<not> contains v [bslash, CHR ''t'']
      else trim_space v = v \<and> \<not> has_prefix v [squote])"

lemma render_value_no_lf: "lf \<notin> set (render_value v)"
  by (auto simp: render_value_def escape_no_lf needs_quote_def)

lemma has_prefix_single: "has_prefix s [c] \<longleftrightarrow> s \<noteq> [] \<and> hd s = c"
  by (cases s) (auto simp: has_prefix_def)

lemma parse_plain_value:
  assumes "\<not> needs_quote v"
  shows "parse_value n (trim_right v) = Inr v \<longleftrightarrow> trim_space v = v \<and> \<not> has_prefix v [squote]"
proof -
  obtain u where u: "v = trim_right v @ u" using trim_right_prefix by blast
  have free: "dquote \<notin> set v" "blank \<notin> set v" using assms by (auto simp: needs_quote_def)
  then have "blank \<notin> set (trim_right v)" "\<not> has_prefix (trim_right v) [dquote]"
    using u by (metis Un_iff set_append, metis Un_iff has_prefix_single hd_in_set set_append)
  then have plain: "parse_value n (trim_right v) = Inr (trim_space (trim_right v))" if "\<not> has_prefix (trim_right v) [squote]"
    using that by (simp add: parse_value_def before_pair_none)
  show ?thesis
  proof (cases "has_prefix v [squote]")
    case True
    then obtain w where w: "v = squote # w" by (cases v) (auto simp: has_prefix_single)
    have "parse_value n (trim_right v) \<noteq> Inr v"
    proof
      assume "parse_value n (trim_right v) = Inr v"
      then obtain rest where "split_first squote (trim_right w) = Some (v, rest)"
        by (auto simp: w trim_right_solid_Cons parse_value_def has_prefix_single split: option.splits)
      then have "length v < length (trim_right w)" using split_first_Some by fastforce
      then show False using trim_right_length [of w] w by simp
    qed
    then show ?thesis using True by simp
  next
    case False
    then have "\<not> has_prefix (trim_right v) [squote]" using u by (metis Nil_is_append_conv has_prefix_single hd_append2)
    then have eq: "parse_value n (trim_right v) = Inr (trim_space (trim_right v))" by (rule plain)
    show ?thesis
    proof
      assume "parse_value n (trim_right v) = Inr v"
      then have "v = trim_space (trim_right v)" using eq by simp
      then show "trim_space v = v \<and> \<not> has_prefix v [squote]" using False by (metis trim_space_idem)
    next
      assume "trim_space v = v \<and> \<not> has_prefix v [squote]"
      then show "parse_value n (trim_right v) = Inr v" using eq trim_spaceD(2) [of v] by simp
    qed
  qed
qed

lemma parse_quoted_value:
  "parse_value n (trim_right ([dquote] @ escape_value v @ [dquote])) = Inr v \<longleftrightarrow>
    dquote \<notin> set v \<and> \<not> contains v [bslash, CHR ''n''] \<and> \<not> contains v [bslash, CHR ''t'']"
proof -
  have trim: "trim_right ([dquote] @ escape_value v @ [dquote]) = [dquote] @ escape_value v @ [dquote]"
    using trim_right_solid [of dquote "dquote # escape_value v" "[]"] by simp
  show ?thesis
  proof (cases "dquote \<in> set v")
    case False
    then have "split_first dquote (escape_value v @ [dquote]) = Some (escape_value v, [])"
      by (simp add: split_first_append escape_no_quote)
    then show ?thesis
      unfolding trim using unescape_escape_iff [OF False] False by (simp add: parse_value_def has_prefix_single)
  next
    case True
    obtain inner rest where inner: "split_first dquote (escape_value v @ [dquote]) = Some (inner, rest)"
      using split_first_None [of dquote "escape_value v @ [dquote]"] by fastforce
    then have "dquote \<notin> set (unescape_value inner)" using split_first_Some [OF inner] by (simp add: unescape_no_quote)
    then have "unescape_value inner \<noteq> v" using True by auto
    then show ?thesis unfolding trim using inner True by (simp add: parse_value_def has_prefix_single)
  qed
qed

text \<open>What the import makes of the text of a value.\<close>

definition reread :: "nat \<Rightarrow> string \<Rightarrow> import_error + string" where
  "reread n v = parse_value (n + 1) (trim_right (render_value v))"

lemma reread_iff: "reread n v = Inr v \<longleftrightarrow> value_survives v"
proof (cases "needs_quote v")
  case True
  then show ?thesis using parse_quoted_value [of "n + 1" v] by (simp add: reread_def render_value_def value_survives_def)
next
  case False
  then show ?thesis using parse_plain_value [of v "n + 1"] by (simp add: reread_def render_value_def value_survives_def)
qed

lemma parse_env_line:
  assumes k: "env_key_ok k" and short: "length (env_line k v) < max_line"
  shows "parse_lines n block (env_line k v # ls) =
    (case reread n v of
       Inl e \<Rightarrow> Inl e
     | Inr v' \<Rightarrow>
         (case parse_lines (n + 1) empty_block ls of
            Inl e \<Rightarrow> Inl e | Inr out \<Rightarrow> Inr (\<lparr>kv_name = k, kv_value = v', kv_ann = take_block block\<rparr> # out)))"
proof -
  let ?raw = "k @ CHR ''='' # trim_right (render_value v)"
  have k': "k \<noteq> []" "CHR ''='' \<notin> set k" "trim_space k = k" "hd k \<noteq> hash" "\<not> has_prefix k ''export ''"
    using k by (auto simp: env_key_ok_def)
  have raw: "trim_space (drop_cr (env_line k v)) = ?raw"
    using trim_space_line [of k "CHR ''=''" "render_value v"] trim_spaceD(1) [OF k'(3)] by (simp add: env_line_def)
  have "\<not> has_prefix ?raw ''export ''" "\<not> has_prefix ?raw ''#''"
    using k' prefix_before [of "CHR ''=''" "''export ''" k] by (auto simp: has_prefix_def has_prefix_single [unfolded has_prefix_def])
  then have "parse_assignment (n + 1) ?raw = (case reread n v of Inl e \<Rightarrow> Inl e | Inr v' \<Rightarrow> Inr (k, v'))" "\<not> has_prefix ?raw ''#''"
    using k' by (simp_all add: parse_assignment_def strip_export_def split_first_append reread_def)
  then show ?thesis using short raw by (simp add: Let_def split: sum.split)
qed

section \<open>The lines of a file\<close>

definition as_text :: "string list \<Rightarrow> string" where
  "as_text ls = concat (map (\<lambda>l. l @ [lf]) ls)"

lemma split_char_end: "d \<notin> set l \<Longrightarrow> split_char d (l @ d # s) = l # split_char d s"
  by (induction l) auto

lemma split_as_text: "\<forall>l \<in> set ls. lf \<notin> set l \<Longrightarrow> split_char lf (as_text ls) = ls @ [[]]"
  by (induction ls) (simp_all add: as_text_def split_char_end)

lemma scan_as_text: "\<forall>l \<in> set ls. lf \<notin> set l \<Longrightarrow> scan_lines (as_text ls) = ls"
  by (simp add: scan_lines_def split_as_text)

lemma no_annotations_taken [simp]: "take_block empty_block = no_annotations"
  by (simp add: take_block_def empty_block_def no_annotations_def trim_set_left_def trim_set_right_def)

lemma render_plain: "distinct (map fst m) \<Longrightarrow> render_from later (map fst m) m [] = as_text (map (\<lambda>(k, v). env_line k v) m)"
proof -
  assume distinct: "distinct (map fst m)"
  have "render_from later (map fst m') m [] = as_text (map (\<lambda>(k, v). env_line k v) m')" if "set m' \<subseteq> set m" for m'
    using that
  proof (induction m' arbitrary: later)
    case Nil
    then show ?case by (simp add: as_text_def)
  next
    case (Cons p m')
    obtain k v where p: "p = (k, v)" by fastforce
    then have "map_of m k = Some v" using Cons.prems distinct by simp
    then have "map_at m k = v" by (simp add: map_at_def map_get_def)
    then show ?case using Cons by (simp add: p as_text_def env_line_def)
  qed
  then show ?thesis by simp
qed

lemma parse_plain_lines:
  assumes "\<forall>(k, v) \<in> set m. env_key_ok k \<and> length (env_line k v) < max_line"
  shows "parse_lines n empty_block (map (\<lambda>(k, v). env_line k v) m) =
      Inr (map (\<lambda>(k, v). \<lparr>kv_name = k, kv_value = v, kv_ann = no_annotations\<rparr>) m) \<longleftrightarrow>
    (\<forall>(k, v) \<in> set m. value_survives v)"
  using assms
proof (induction m arbitrary: n)
  case Nil
  then show ?case by simp
next
  case (Cons p m)
  obtain k v where p: "p = (k, v)" by fastforce
  have ok: "env_key_ok k" "length (env_line k v) < max_line" using Cons.prems by (simp_all add: p)
  let ?out = "map (\<lambda>(k, v). \<lparr>kv_name = k, kv_value = v, kv_ann = no_annotations\<rparr>)" and ?lines = "map (\<lambda>(k, v). env_line k v)"
  have "parse_lines n empty_block (env_line k v # ?lines m) = Inr (\<lparr>kv_name = k, kv_value = v, kv_ann = no_annotations\<rparr> # ?out m) \<longleftrightarrow>
    reread n v = Inr v \<and> parse_lines (n + 1) empty_block (?lines m) = Inr (?out m)"
    unfolding parse_env_line [OF ok] by (auto split: sum.splits)
  then show ?case using reread_iff Cons.IH [of "n + 1"] Cons.prems by (simp add: p)
qed

text \<open>
  C14. An export read back by an import gives every variable its value exactly if each value survives: one written in quotes
  may have no double quote, no backslash before \<open>n\<close> and no backslash before \<open>t\<close>; one written without may have no white space
  around it and no single quote in front. Whatever else the vault holds comes back changed, or stops the import.
\<close>

theorem export_survives_iff:
  assumes "\<forall>(k, v) \<in> set m. env_key_ok k \<and> length (env_line k v) < max_line" and "distinct (map fst m)"
  shows "parse_dotenv (render_dotenv (map fst m) m) =
      Inr (map (\<lambda>(k, v). \<lparr>kv_name = k, kv_value = v, kv_ann = no_annotations\<rparr>) m) \<longleftrightarrow>
    (\<forall>(k, v) \<in> set m. value_survives v)"
proof -
  have "scan_lines (render_dotenv (map fst m) m) = map (\<lambda>(k, v). env_line k v) m"
  proof -
    have "\<forall>l \<in> set (map (\<lambda>(k, v). env_line k v) m). lf \<notin> set l"
      using assms(1) by (auto simp: env_line_def env_key_ok_def render_value_no_lf)
    then show ?thesis using render_plain [OF assms(2), of False] scan_as_text by (simp add: render_dotenv_def render_dotenv_annotated_def)
  qed
  then show ?thesis using parse_plain_lines [OF assms(1), of 0] by (simp add: parse_dotenv_def)
qed

text \<open>A password with a double quote in it, one with a backslash, and one that survives.\<close>

lemma plain_keys: "env_key_ok ''A''" "env_key_ok ''B''"
  by (simp_all add: env_key_ok_def has_prefix_single has_prefix_def trim_space_plain)

lemma export_survives_iff_witness:
  "parse_dotenv (render_dotenv [''A'', ''B''] [(''A'', ''a b''), (''B'', ''s3cret'')]) =
     Inr [\<lparr>kv_name = ''A'', kv_value = ''a b'', kv_ann = no_annotations\<rparr>, \<lparr>kv_name = ''B'', kv_value = ''s3cret'', kv_ann = no_annotations\<rparr>] \<and>
   parse_dotenv (render_dotenv [''A''] [(''A'', [CHR ''x'', dquote, CHR ''y''])]) \<noteq>
     Inr [\<lparr>kv_name = ''A'', kv_value = [CHR ''x'', dquote, CHR ''y''], kv_ann = no_annotations\<rparr>]"
proof
  have short: "length (env_line ''A'' ''a b'') < max_line" "length (env_line ''B'' ''s3cret'') < max_line"
      "length (env_line ''A'' [CHR ''x'', dquote, CHR ''y'']) < max_line"
    by (simp_all add: env_line_def render_value_def needs_quote_def escape_Cons max_line_def)
  have "value_survives ''a b''" "value_survives ''s3cret''" "\<not> value_survives [CHR ''x'', dquote, CHR ''y'']"
    by (simp_all add: value_survives_def needs_quote_def trim_space_plain has_prefix_single)
  then show "parse_dotenv (render_dotenv [''A'', ''B''] [(''A'', ''a b''), (''B'', ''s3cret'')]) =
      Inr [\<lparr>kv_name = ''A'', kv_value = ''a b'', kv_ann = no_annotations\<rparr>, \<lparr>kv_name = ''B'', kv_value = ''s3cret'', kv_ann = no_annotations\<rparr>]"
    and "parse_dotenv (render_dotenv [''A''] [(''A'', [CHR ''x'', dquote, CHR ''y''])]) \<noteq>
      Inr [\<lparr>kv_name = ''A'', kv_value = [CHR ''x'', dquote, CHR ''y''], kv_ann = no_annotations\<rparr>]"
    using export_survives_iff [of "[(''A'', ''a b''), (''B'', ''s3cret'')]"] export_survives_iff [of "[(''A'', [CHR ''x'', dquote, CHR ''y''])]"]
      plain_keys short by simp_all
qed

section \<open>Comments\<close>

definition comment_lines :: "comment_annotations \<Rightarrow> string list" where
  "comment_lines a =
     (if en_desc a = [] then [] else map (\<lambda>l. if l = [] then [hash] else ''# '' @ l) (split_char lf (en_desc a))) @
     map (\<lambda>n. ''## '' @ n) (en_notes a)"

text \<open>
  A description with text in its first and its last line, no carriage return, no white space at the end of a line, and no line that
  looks like an assignment; notes in one line with single blanks between the words.
\<close>

definition annotations_ok :: "comment_annotations \<Rightarrow> bool" where
  "annotations_ok a \<longleftrightarrow>
     (en_desc a \<noteq> [] \<longrightarrow>
       (let ls = split_char lf (en_desc a) in
        hd ls \<noteq> [] \<and> last ls \<noteq> [] \<and> cr \<notin> set (en_desc a) \<and> (\<forall>l \<in> set ls. trim_right l = l \<and> \<not> commented_assignment l))) \<and>
     (\<forall>n \<in> set (en_notes a). n \<noteq> [] \<and> join '' '' (str_fields n) = n \<and> trim_space n = n \<and> lf \<notin> set n) \<and>
     (\<forall>l \<in> set (comment_lines a). length l < max_line)"

lemma trim_right_last: "trim_right l = l \<Longrightarrow> l \<noteq> [] \<Longrightarrow> last l \<noteq> blank \<and> last l \<noteq> tab"
proof -
  assume l: "trim_right l = l" "l \<noteq> []"
  then have "lead_match (map rev space_runes) (rev l) = None"
    using trim_front_match_None [of "map rev space_runes" "rev l"] by (metis rev_rev_ident trim_right_def)
  moreover have "[blank] \<in> set (map rev space_runes)" "[tab] \<in> set (map rev space_runes)" by (simp_all add: space_runes_literal)
  ultimately have "\<not> prefix [blank] (rev l)" "\<not> prefix [tab] (rev l)" unfolding lead_match_None by blast+
  then show ?thesis using l(2) by (cases l rule: rev_cases) auto
qed

lemma trim_set_right_id: "trim_right l = l \<Longrightarrow> trim_set_right {blank, tab} l = l"
proof -
  assume "trim_right l = l"
  then have "rev l = [] \<or> hd (rev l) \<notin> {blank, tab}" using trim_right_last [of l] by (auto simp: hd_rev)
  then have "dropWhile (\<lambda>c. c \<in> {blank, tab}) (rev l) = rev l" by (cases "rev l") auto
  then show ?thesis by (simp add: trim_set_right_def)
qed

lemma trim_right_after_blank: "trim_right l = l \<Longrightarrow> l \<noteq> [] \<Longrightarrow> trim_right (blank # l) = blank # l"
proof -
  assume l: "trim_right l = l" "l \<noteq> []"
  then have none: "lead_match (map rev space_runes) (rev l) = None"
    using trim_front_match_None [of "map rev space_runes" "rev l"] by (metis rev_rev_ident trim_right_def)
  have "lead_match (map rev space_runes) (rev l @ [blank]) = None"
    unfolding lead_match_None
  proof (intro ballI impI notI)
    fix p assume p: "p \<in> set (map rev space_runes)" "p \<noteq> []" "prefix p (rev l @ [blank])"
    then have "\<not> prefix p (rev l)" using none by (auto simp: lead_match_None)
    then have "p = rev l @ [blank]" using p(3) by (simp add: prefix_snoc)
    moreover have "p = [blank] \<or> blank \<notin> set p" using p(1) by (auto simp: space_runes_literal)
    ultimately show False using l(2) by auto
  qed
  then show ?thesis by (simp add: trim_right_def trim_front_stop)
qed

lemma split_char_nonempty [simp]: "split_char d s \<noteq> []"
  by (cases s) (auto split: list.splits)

lemma join_split: "join [d] (split_char d s) = s"
proof (induction s)
  case Nil
  then show ?case by simp
next
  case (Cons c s)
  obtain w ws where "split_char d s = w # ws" by (cases "split_char d s") auto
  then show ?case using Cons.IH by (cases ws) auto
qed

lemma split_char_notin: "l \<in> set (split_char d s) \<Longrightarrow> d \<notin> set l"
  by (induction s arbitrary: l) (auto split: list.splits if_splits)

lemma split_char_subset: "l \<in> set (split_char d s) \<Longrightarrow> set l \<subseteq> set s"
  by (induction s arbitrary: l) (fastforce split: list.splits if_splits)+

lemma hd_split: "s \<noteq> [] \<Longrightarrow> hd (split_char d s) \<noteq> [] \<Longrightarrow> hd s \<noteq> d"
  by (cases s) auto

lemma last_split: "s \<noteq> [] \<Longrightarrow> last (split_char d s) \<noteq> [] \<Longrightarrow> last s \<noteq> d"
proof (induction s)
  case Nil
  then show ?case by simp
next
  case (Cons c s)
  show ?case
  proof (cases s)
    case Nil
    then show ?thesis using Cons.prems by (auto split: if_splits)
  next
    case s: (Cons c' s')
    obtain w ws where ws: "split_char d s = w # ws" by (cases "split_char d s") auto
    have "last (split_char d s) \<noteq> [] \<or> (c \<noteq> d \<and> ws = [] \<and> w = [])" using Cons.prems(2) ws by (auto split: if_splits)
    moreover have "\<not> (ws = [] \<and> w = [])" using ws s by (auto split: if_splits list.splits)
    ultimately show ?thesis using Cons.IH s by auto
  qed
qed

lemma comments_as_text:
  assumes "annotations_ok a"
  shows "render_annotation_comments a = as_text (comment_lines a)"
proof -
  have desc: "concat (map render_description_line (split_char lf (replace_pair cr lf [lf] (en_desc a)))) =
      as_text (map (\<lambda>l. if l = [] then [hash] else ''# '' @ l) (split_char lf (en_desc a)))" if "en_desc a \<noteq> []"
  proof -
    have "cr \<notin> set (en_desc a)" and id: "\<And>l. l \<in> set (split_char lf (en_desc a)) \<Longrightarrow> trim_right l = l"
      using assms that by (auto simp: annotations_ok_def Let_def)
    then have "replace_pair cr lf [lf] (en_desc a) = en_desc a" by (simp add: replace_pair_none)
    moreover have "render_description_line l = (if l = [] then [hash] else ''# '' @ l) @ [lf]" if "l \<in> set (split_char lf (en_desc a))" for l
      using trim_set_right_id [OF id [OF that]] by (simp add: render_description_line_def Let_def)
    then have "map render_description_line (split_char lf (en_desc a)) =
        map (\<lambda>l. (if l = [] then [hash] else ''# '' @ l) @ [lf]) (split_char lf (en_desc a))" by (rule map_cong [OF refl])
    ultimately show ?thesis by (simp add: as_text_def comp_def cong: map_cong)
  qed
  have "map render_note (en_notes a) = map (\<lambda>n. (''## '' @ n) @ [lf]) (en_notes a)"
    using assms by (intro map_cong [OF refl]) (simp add: annotations_ok_def render_note_def Let_def)
  then show ?thesis using desc by (simp add: render_annotation_comments_def comment_lines_def as_text_def comp_def cong: map_cong)
qed

lemma comment_lines_no_lf: "annotations_ok a \<Longrightarrow> \<forall>l \<in> set (comment_lines a). lf \<notin> set l"
  by (auto simp: comment_lines_def annotations_ok_def dest: split_char_notin)

lemma annotations_emptyD: "annotations_empty a \<Longrightarrow> a = no_annotations"
  by (simp add: annotations_empty_def no_annotations_def)

section \<open>Reading comments\<close>

lemma parse_comment_line:
  assumes "raw = trim_space (drop_cr l)" "raw \<noteq> []" "hd raw = hash" "length l < max_line"
  shows "parse_lines n block (l # ls) = parse_lines (n + 1) (add_comment raw block) ls"
  using assms by (simp add: Let_def has_prefix_single)

lemma parse_description_line:
  assumes "trim_right l = l" "\<not> commented_assignment l" "length (if l = [] then [hash] else ''# '' @ l) < max_line" "\<not> cb_in_notes block"
  shows "parse_lines n block ((if l = [] then [hash] else ''# '' @ l) # ls) =
    parse_lines (n + 1) (block\<lparr>cb_desc := cb_desc block @ [l]\<rparr>) ls"
proof (cases "l = []")
  case True
  have "trim_space (drop_cr [hash]) = [hash]" using trim_space_line [of "[]" hash "[]"] by simp
  then show ?thesis
    using True parse_comment_line [of "[hash]" "[hash]" n block ls] assms(2,3,4)
    by (simp add: add_comment_def trim_set_left_def trim_set_right_def trim_prefix_def has_prefix_def Let_def)
next
  case False
  have "trim_space (drop_cr (''# '' @ l)) = ''# '' @ l"
    using trim_space_line [of "[]" hash "blank # l"] trim_right_after_blank [OF assms(1) False] by simp
  then show ?thesis
    using False parse_comment_line [of "''# '' @ l" "''# '' @ l" n block ls] trim_set_right_id [OF assms(1)] assms(2,3,4)
    by (simp add: add_comment_def trim_set_left_def trim_prefix_def has_prefix_def Let_def)
qed

lemma parse_note_line:
  assumes "t \<noteq> []" "trim_space t = t" "length (''## '' @ t) < max_line"
  shows "parse_lines n block ((''## '' @ t) # ls) =
    parse_lines (n + 1) (block\<lparr>cb_in_notes := True, cb_notes := cb_notes block @ [t]\<rparr>) ls"
proof -
  have "lead_match space_runes [hash] = None" using lead_match_solid_hd [of hash "[]"] by simp
  then have "trim_space (drop_cr (''## '' @ t)) = ''## '' @ t"
    using trim_space_line [of "[hash]" hash "blank # t"] trim_right_after_blank [OF trim_spaceD(2) [OF assms(2)] assms(1)] by simp
  then show ?thesis
    using parse_comment_line [of "''## '' @ t" "''## '' @ t" n block ls] assms
    by (simp add: add_comment_def trim_set_left_def trim_prefix_def has_prefix_def Let_def)
qed

lemma parse_description_lines:
  assumes "\<forall>l \<in> set ds. trim_right l = l \<and> \<not> commented_assignment l \<and> length (if l = [] then [hash] else ''# '' @ l) < max_line"
    and "\<not> cb_in_notes block"
  shows "parse_lines n block (map (\<lambda>l. if l = [] then [hash] else ''# '' @ l) ds @ ls) =
    parse_lines (n + length ds) (block\<lparr>cb_desc := cb_desc block @ ds\<rparr>) ls"
  using assms
proof (induction ds arbitrary: n block)
  case Nil
  then show ?case by simp
next
  case (Cons l ds)
  then show ?case
    using parse_description_line [of l block n "map (\<lambda>l. if l = [] then [hash] else ''# '' @ l) ds @ ls"]
      Cons.IH [of "block\<lparr>cb_desc := cb_desc block @ [l]\<rparr>" "n + 1"]
    by (simp del: parse_lines.simps)
qed

lemma parse_note_lines:
  assumes "\<forall>t \<in> set ts. t \<noteq> [] \<and> trim_space t = t \<and> length (''## '' @ t) < max_line"
  shows "parse_lines n block (map (\<lambda>t. ''## '' @ t) ts @ ls) =
    parse_lines (n + length ts) (if ts = [] then block else block\<lparr>cb_in_notes := True, cb_notes := cb_notes block @ ts\<rparr>) ls"
  using assms
proof (induction ts arbitrary: n block)
  case Nil
  then show ?case by simp
next
  case (Cons t ts)
  then show ?case
    using parse_note_line [of t n block "map (\<lambda>t. ''## '' @ t) ts @ ls"]
      Cons.IH [of "n + 1" "block\<lparr>cb_in_notes := True, cb_notes := cb_notes block @ [t]\<rparr>"]
    by (auto simp del: parse_lines.simps)
qed

lemma trim_lf_id: "s \<noteq> [] \<Longrightarrow> hd s \<noteq> lf \<Longrightarrow> last s \<noteq> lf \<Longrightarrow> trim_set_right {lf} (trim_set_left {lf} s) = s"
proof -
  assume s: "s \<noteq> []" "hd s \<noteq> lf" "last s \<noteq> lf"
  then have "dropWhile (\<lambda>c. c \<in> {lf}) s = s" by (cases s) auto
  moreover have "dropWhile (\<lambda>c. c \<in> {lf}) (rev s) = rev s" using s by (cases s rule: rev_cases) auto
  ultimately show ?thesis by (simp add: trim_set_right_def trim_set_left_def)
qed

lemma parse_comment_lines:
  assumes "annotations_ok a"
  shows "\<exists>n' block. parse_lines n empty_block (comment_lines a @ ls) = parse_lines n' block ls \<and> take_block block = a"
proof -
  obtain ds where ds: "ds = (if en_desc a = [] then [] else split_char lf (en_desc a))" by simp
  let ?b1 = "empty_block\<lparr>cb_desc := ds\<rparr>"
  let ?b2 = "if en_notes a = [] then ?b1 else ?b1\<lparr>cb_in_notes := True, cb_notes := en_notes a\<rparr>"
  have lines: "comment_lines a = map (\<lambda>l. if l = [] then [hash] else ''# '' @ l) ds @ map (\<lambda>n. ''## '' @ n) (en_notes a)"
    by (simp add: comment_lines_def ds)
  have "\<forall>l \<in> set (comment_lines a). length l < max_line" using assms by (simp add: annotations_ok_def)
  then have short: "\<forall>l \<in> set ds. length (if l = [] then [hash] else ''# '' @ l) < max_line"
      "\<forall>t \<in> set (en_notes a). length (''## '' @ t) < max_line"
    unfolding lines set_append set_map ball_Un ball_simps(9) by blast+
  have "\<forall>l \<in> set ds. trim_right l = l \<and> \<not> commented_assignment l" using assms by (auto simp: annotations_ok_def Let_def ds)
  then have "parse_lines n empty_block (comment_lines a @ ls) =
      parse_lines (n + length ds) ?b1 (map (\<lambda>n. ''## '' @ n) (en_notes a) @ ls)"
    using parse_description_lines [of ds empty_block n] short(1) unfolding lines append_assoc by (simp add: empty_block_def append_Cons [symmetric] del: append_Cons)
  also have "\<dots> = parse_lines (n + length ds + length (en_notes a)) ?b2 ls"
    using parse_note_lines [of "en_notes a" "n + length ds" ?b1 ls] short(2) assms by (simp add: annotations_ok_def empty_block_def)
  finally have parsed: "parse_lines n empty_block (comment_lines a @ ls) = parse_lines (n + length ds + length (en_notes a)) ?b2 ls" .
  have "trim_set_right {lf} (trim_set_left {lf} (join [lf] ds)) = en_desc a"
  proof (cases "en_desc a = []")
    case True
    then show ?thesis by (simp add: trim_set_left_def trim_set_right_def ds)
  next
    case False
    then have "hd (en_desc a) \<noteq> lf" "last (en_desc a) \<noteq> lf"
      using assms hd_split [of "en_desc a" lf] last_split [of "en_desc a" lf] by (auto simp: annotations_ok_def Let_def)
    then show ?thesis using False trim_lf_id by (simp add: join_split ds)
  qed
  then have "take_block ?b2 = a" by (simp add: take_block_def empty_block_def)
  then show ?thesis using parsed by blast
qed

section \<open>A file with comments\<close>

definition annotations_of :: "comment_annotations go_map \<Rightarrow> string \<Rightarrow> comment_annotations" where
  "annotations_of ann k = (case map_get ann k of None \<Rightarrow> no_annotations | Some a \<Rightarrow> a)"

fun annotated_lines :: "bool \<Rightarrow> comment_annotations go_map \<Rightarrow> (string \<times> string) list \<Rightarrow> string list" where
  "annotated_lines later ann [] = []"
| "annotated_lines later ann ((k, v) # m) =
     (let a = annotations_of ann k in
      (if annotations_empty a then [] else (if later then [[]] else []) @ comment_lines a) @ [env_line k v]) @
     annotated_lines True ann m"

lemma annotations_empty_none [simp]: "annotations_empty no_annotations"
  by (simp add: annotations_empty_def no_annotations_def)

lemma as_text_append: "as_text (a @ b) = as_text a @ as_text b"
  by (simp add: as_text_def)

lemma render_annotated:
  assumes "distinct (map fst m)" and "\<forall>k \<in> fst ` set m. annotations_ok (annotations_of ann k)"
  shows "render_from later (map fst m) m ann = as_text (annotated_lines later ann m)"
proof -
  have "render_from later (map fst m') m ann = as_text (annotated_lines later ann m')" if "set m' \<subseteq> set m" for m'
    using that
  proof (induction m' arbitrary: later)
    case Nil
    then show ?case by (simp add: as_text_def)
  next
    case (Cons p m')
    obtain k v where p: "p = (k, v)" by fastforce
    then have "map_of m k = Some v" "(k, v) \<in> set m" using Cons.prems assms(1) by simp_all
    then have v: "map_at m k = v" and a: "annotations_ok (annotations_of ann k)" using assms(2) by (auto simp: map_at_def map_get_def)
    have "(case map_get ann k of None \<Rightarrow> []
        | Some a \<Rightarrow> if annotations_empty a then [] else (if later then [lf] else []) @ render_annotation_comments a) =
        as_text (if annotations_empty (annotations_of ann k) then [] else (if later then [[]] else []) @ comment_lines (annotations_of ann k))"
      using comments_as_text [OF a] by (cases "map_get ann k") (simp_all add: annotations_of_def as_text_def)
    then show ?case
      using Cons v by (simp add: p Let_def as_text_append env_line_def) (simp add: as_text_def)
  qed
  then show ?thesis by simp
qed

lemma parse_blank_line: "parse_lines n block ([] # ls) = parse_lines (n + 1) empty_block ls"
  by (simp add: drop_cr_def max_line_def)

lemma parse_annotated_entry:
  assumes "env_key_ok k" "length (env_line k v) < max_line" "value_survives v" "annotations_ok a"
  shows "\<exists>n'. parse_lines n empty_block ((if annotations_empty a then [] else (if later then [[]] else []) @ comment_lines a) @ env_line k v # ls) =
    (case parse_lines n' empty_block ls of
       Inl e \<Rightarrow> Inl e | Inr out \<Rightarrow> Inr (\<lparr>kv_name = k, kv_value = v, kv_ann = a\<rparr> # out))"
proof -
  have line: "parse_lines n' block (env_line k v # ls) =
      (case parse_lines (n' + 1) empty_block ls of
         Inl e \<Rightarrow> Inl e | Inr out \<Rightarrow> Inr (\<lparr>kv_name = k, kv_value = v, kv_ann = take_block block\<rparr> # out))" for n' block
    using parse_env_line [OF assms(1,2), of n' block ls] reread_iff [of n' v] assms(3) by simp
  show ?thesis
  proof (cases "annotations_empty a")
    case True
    then have "a = no_annotations" by (rule annotations_emptyD)
    then show ?thesis using line [of n empty_block, unfolded no_annotations_taken] by (auto simp del: parse_lines.simps)
  next
    case False
    obtain n1 where n1: "parse_lines n empty_block ((if later then [[]] else []) @ comment_lines a @ env_line k v # ls) =
        parse_lines n1 empty_block (comment_lines a @ env_line k v # ls)"
      using parse_blank_line by (cases later) (auto simp del: parse_lines.simps)
    obtain n2 block where "parse_lines n1 empty_block (comment_lines a @ env_line k v # ls) = parse_lines n2 block (env_line k v # ls)"
        "take_block block = a"
      using parse_comment_lines [OF assms(4)] by blast
    then show ?thesis using False n1 line [of n2 block] by (auto simp del: parse_lines.simps)
  qed
qed

lemma parse_annotated_lines:
  assumes "\<forall>(k, v) \<in> set m. env_key_ok k \<and> length (env_line k v) < max_line \<and> value_survives v \<and> annotations_ok (annotations_of ann k)"
  shows "parse_lines n empty_block (annotated_lines later ann m) =
    Inr (map (\<lambda>(k, v). \<lparr>kv_name = k, kv_value = v, kv_ann = annotations_of ann k\<rparr>) m)"
  using assms
proof (induction m arbitrary: n later)
  case Nil
  then show ?case by simp
next
  case (Cons p m)
  obtain k v where p: "p = (k, v)" by fastforce
  then show ?case
    using parse_annotated_entry [of k v "annotations_of ann k" n later "annotated_lines True ann m"] Cons
    by (auto simp: Let_def simp del: parse_lines.simps)
qed

lemma annotated_lines_no_lf:
  assumes "\<forall>(k, v) \<in> set m. env_key_ok k \<and> annotations_ok (annotations_of ann k)"
  shows "\<forall>l \<in> set (annotated_lines later ann m). lf \<notin> set l"
  using assms
proof (induction m arbitrary: later)
  case Nil
  then show ?case by simp
next
  case (Cons p m)
  obtain k v where p: "p = (k, v)" by fastforce
  then have "\<forall>l \<in> set (comment_lines (annotations_of ann k)). lf \<notin> set l" "lf \<notin> set (env_line k v)"
    using Cons.prems comment_lines_no_lf by (auto simp: env_line_def env_key_ok_def render_value_no_lf)
  then show ?case using Cons by (auto simp: p Let_def)
qed


definition toy_comments :: "comment_annotations go_map" where
  "toy_comments = [(''B'', \<lparr>en_desc = ''key of'' @ [lf, lf] @ ''the team'', en_notes = [''rotated 2026'']\<rparr>)]"


end
