(* ===== verification/Spec2Isabelle.thy ===== *)
theory Spec2Isabelle
  imports Approval_Claims Trust_Claims Trust_Store_Claims Token_Claims Session_Claims Rate_Limit Audit_Breaks
    Action_Claims Auth_Claims Exec_Claims Exec_Breaks Vault_Note_Claims Vault_Schema_Claims Vault_File_Claims
    Plane_Claims Socket_Claims Env_File_Claims
begin

text \<open>
  \<^bold>\<open>byn: vaults of secrets, and who may have a value\<close>

  byn keeps secrets in encrypted vaults. A daemon holds the keys of unlocked vaults in memory and
  answers clients on a Unix socket: people, scripts, and coding agents that are to run commands
  with secrets they cannot read. Which command gets which value is decided from a \<open>.byn\<close> file in
  the project's directory, a signed record of what the person trusted that file with, a queue of
  requests a person answers, sessions, one-time tokens and the password. This development
  models that decision and the vault behind it; the paths below are under \<open>src/internal\<close>.

  \<^bold>\<open>Program and theories\<close>

  \<^item> \<open>Go_Prelude\<close>, \<open>Go_Path\<close>: what the code uses of Go. A string is a list of bytes, a map is an
    association list without repeated keys (\<open>map_put\<close>, \<open>map_get\<close>, \<open>map_del\<close>), a fallible call returns
    \<open>Inl\<close> an error or \<open>Inr\<close> a value, time is a number of nanoseconds; with trimming, splitting, hexadecimal,
    sorting, and \<open>path/filepath\<close>. \<open>Keyed_Store\<close> and \<open>Histories\<close> hold the shared contracts (below).
  \<^item> \<open>Approval_Queue\<close> (\<open>approval/approval.go\<close>): the requests on file, records of type \<open>request\<close>, with
    Enqueue, Decide, Revoke, ConsumeOnce, the listing, pruning and watch operations, each reading and
    writing the file through a \<open>store_io\<close> that may fail. \<open>Approval_Props\<close> has the life of one request as an
    inductive relation, \<open>Approval_Claims\<close> the properties.
  \<^item> \<open>Trust_Policy\<close> (\<open>trust/policy.go\<close>): what a file asks for, its fingerprint and the comparison of two
    such requests. \<open>Trust_Store\<close> (\<open>trust/trust.go\<close>, \<open>mac.go\<close>, \<open>verify.go\<close>): the records, their two tags and
    the verdict on a file.
  \<^item> \<open>One_Time_Tokens\<close> (\<open>daemon/bootstrap_token.go\<close>, \<open>config_auth_token.go\<close>, \<open>exectoken.go\<close>, \<open>passkey.go\<close>),
    \<open>Sessions\<close> (\<open>daemon/sessions.go\<close>, \<open>session/session.go\<close>), \<open>Rate_Limit\<close> (\<open>auth/ratelimit.go\<close>): the credentials
    short of a password, and the throttle on wrong passwords.
  \<^item> \<open>Audit_Log\<close> (\<open>audit/audit.go\<close>): the log chained by HMAC, its writer with every failing effect, its
    verifier and the repair of an acknowledged break.
  \<^item> \<open>Byn_File\<close>, \<open>Action_Pattern\<close> (\<open>bynfile/bynfile.go\<close>, \<open>pattern.go\<close>): the parsed file with its checks, and the
    patterns that say which command lines run without a question.
  \<^item> \<open>Caller_Identity\<close> (\<open>daemon/procorigin.go\<close>), \<open>Auth_Gate\<close> (\<open>auth/provider.go\<close>, \<open>daemon/providers.go\<close>,
    \<open>policy.go\<close>, \<open>caller.go\<close>, the authorization part of \<open>dispatch.go\<close>): whose grant a process may use, and the
    gate in front of every operation on values. The state is the record \<open>daemon\<close>.
  \<^item> \<open>Approval_Gate\<close>, \<open>Adhoc_Gate\<close>, \<open>Exec_Gate\<close>, \<open>Exec_Flow\<close> (\<open>daemon/approvalgate.go\<close>, \<open>adhoc.go\<close>,
    \<open>trustpolicy.go\<close>, \<open>execfetch.go\<close>): a request to run a command, stage by stage in the order of the code:
    verify the file, reconcile a changed file with its snapshot, match actions, ask or consume
    an approval, check the credential, read the values, report what was not delivered.
  \<^item> \<open>Vault_Crypto\<close> (\<open>vault/crypto\<close>): rows sealed with their context, the tree of derived keys, the
    wrapped vault key, capabilities. \<open>Vault_Names\<close>, \<open>Vault_DB\<close> (\<open>vault/meta.go\<close>, \<open>schema.go\<close>, \<open>store.go\<close>): the tables,
    with their foreign keys and cascades, and projects and environments.
  \<^item> \<open>Vault_Store\<close> (\<open>vault/store.go\<close>): the keys of a row in its four formats and every operation on values.
    \<open>Vault_Grants\<close> (\<open>store.go\<close>, \<open>authored.go\<close>, \<open>inherited.go\<close>): access with less than the vault key.
    \<open>Vault_Runs\<close> (\<open>execrun.go\<close>): what a run was given, as a chain of differences. \<open>Vault_Notes\<close>
    (\<open>annotation.go\<close>): descriptions and notes with their versions.
  \<^item> \<open>Vault_Schema\<close> (\<open>schema.go\<close>): the columns as data and every upgrade as its list of statements.
    \<open>Vault_Files\<close> (\<open>store.go\<close>, \<open>meta.go\<close>, \<open>rename.go\<close>, \<open>destroy.go\<close>): a vault as the files of a directory, each operation
    as the list of the disks it passes through.

  \<^item> \<open>Plane_State\<close>, \<open>Plane_Authors\<close>, \<open>Plane_Values\<close>, \<open>Plane_Structure\<close>, \<open>Plane_Trust\<close>, \<open>Plane_Notes\<close> (\<open>daemon/dispatch.go\<close>,
    \<open>authored.go\<close>, \<open>unattended.go\<close>, \<open>bynwrite.go\<close>, \<open>manifestdesc.go\<close>, \<open>approvalops.go\<close>, \<open>annotation.go\<close>): the handlers of the
    daemon over its real vaults. The state is the record \<open>plane\<close>: the daemon of \<open>Auth_Gate\<close>, the open vaults,
    the registry of authors (\<open>Authored_Store\<close>, \<open>daemon/authoredstore.go\<close>) and the trust file. \<open>Go_Match\<close> is
    \<open>path.Match\<close>, which the patterns of names are written for. \<open>Plane_Serve\<close> is the switch over the requests
    (\<open>serve\<close>) and a history of requests (\<open>run_plane\<close>).

  \<^item> \<open>Socket_Protocol\<close> (\<open>ipc/frame.go\<close>, \<open>conn.go\<close>, \<open>client.go\<close>, \<open>handleConn\<close> of \<open>daemon/dispatch.go\<close>): frames and envelopes
    on the socket, one call of a client, and who may ask for what. A reader is the bytes to come and how they end.
  \<^item> \<open>Env_File\<close> (\<open>cmd/byn/cmd_export.go\<close>, \<open>cmd_import.go\<close>, \<open>dotenv_annotations.go\<close>, outside of \<open>internal\<close>): environment
    files, their quoting and the comments that carry descriptions and notes.

  A theory \<open>X_Props\<close> holds the lemmas of \<open>X\<close>, \<open>X_Claims\<close> (\<open>X_Breaks\<close> where the code falls short of its
  comments) the properties, \<open>Exec_Examples\<close> and \<open>Vault_Examples\<close> the worlds of the witnesses.
  \<open>Vault_Props\<close>, \<open>Vault_Read\<close>, \<open>Vault_Map\<close> and \<open>Vault_Refines\<close> lead from the tables to the abstract vault,
  \<open>Vault_Trail\<close> and \<open>Vault_Run_Props\<close> from the snapshots to what a run was given.
  \<open>Vault_Follows\<close> says of every operation on a vault which steps of the abstract history it is;
  \<open>Plane_Props\<close> and \<open>Plane_Kept\<close> lift that to the handlers, \<open>Plane_Examples\<close> is the world of their witnesses.

  \<^bold>\<open>Contracts\<close>

  \<open>keyed_store\<close> is a lookup, an insertion and a removal that touch one key; it is interpreted by the
  association lists (\<open>go\<close>) and by the records of the trust store (\<open>ts\<close>). \<open>one_time_store\<close> is interpreted
  by the five token stores. \<open>history\<close> is a component that takes events one after the other with an
  invariant; it is interpreted by the queue (\<open>queues\<close>), the sessions (\<open>sessions\<close>), the vault (\<open>vaults\<close>), the
  vault with its recorded runs (\<open>trail\<close>), with its annotations (\<open>annotated\<close>), and the openings of a
  database that is upgraded (\<open>openings\<close>). \<open>guarded_history\<close> is a history whose events carry a condition of
  their own; \<open>history\<close> is the one without, and the requests to the daemon interpret it (\<open>planes\<close>). \<open>vault_law\<close> is
  a property of vaults that every operation keeps except unlocking; it is interpreted by being well formed
  (\<open>well_formed\<close>) and by being locked (\<open>locked\<close>), so each handler is proved once for both.

  The abstract specifications are: \<open>within\<close> for the comparison of policies (\<open>Trust_Claims\<close>), \<open>spells\<close> for
  action patterns, the most specific and strictest rule for the policy of a scope (\<open>Auth_Claims\<close>), the
  map from scope and name to value for the vault (\<open>Vault_Refines\<close>), and the entries and digests of the
  chosen names for a recorded run.

  \<^bold>\<open>Effects, time and failure\<close>

  Whatever may fail is an argument: \<open>store_io\<close> says for each statement of the database or effect on
  a file whether it succeeds, so that a property over all \<open>store_io\<close> covers every failing statement.
  A transaction that fails leaves the tables as they were. Histories of disks
  (\<open>Vault_Files\<close>) and lists of statements (\<open>Vault_Schema\<close>) are cut at every point for a crash. The clock
  and the random draws are arguments too, one for each call of the code. The daemon serialises
  operations on one store with a mutex; an operation of the code is one step.

  \<^bold>\<open>Bounds and recursion\<close>

  There is no fuel without a bound of the code: the walk to the agent behind a caller takes at most
  the code's 8 steps, the queue at most 10 pending requests of a project and 2 of one
  fingerprint, names are at most the code's lengths, tokens live 30 seconds. The loop over schema
  versions ends by the distance to version 9. The walk up the
  snapshots of a run stops at a repeated snapshot; \<open>resolving_ends\<close> shows when it gives a result.
  The delays of the throttle are capped in the width the code has.

  \<^bold>\<open>Parameters\<close>

  SHA-256, HMAC, HKDF, Argon2 and the cipher are parameters: \<open>crypto_lib\<close> collects those of the vault.
  \<open>aead_works\<close> says that opening undoes sealing; no property assumes that a hash has no collision: where one
  matters the conclusion names it (two different messages with one tag, a ciphertext opened under another
  context). The TOML decoder, regular expressions of a user, the JSON encoding of files and the process
  table are arguments. SQLite is code outside the repository as well: a statement is what it does to
  the rows. The concrete functions of the examples satisfy the hypotheses, so the witnesses compute.

  \<^bold>\<open>Not modelled\<close>

  The rest of the command line client, the terminal interface, the portal and the site generator
  translate between people and the socket protocol. Privilege separation, protected memory, machine
  identity, hardware keys and WebAuthn call the operating system or libraries. The
  accept loop of the daemon and its start and stop are concurrent input and output.

  Of the switch over the requests, \<open>serve\<close> has those that read or change values, projects,
  environments, annotations, grants and approvals, and locking. Making, deleting and renaming a vault and changing its
  password are the histories of disks of \<open>Vault_Files\<close>, running a command is \<open>Exec_Flow\<close>, the log \<open>Audit_Log\<close>;
  status, configuration, passkeys and watching are left out, and so are the access lists of the file
  system, the waking of callers that wait, and answers that cannot be encoded.
\<close>

end
